(* ===== verification/JS_Prelude.thy ===== *)
theory JS_Prelude
  imports Complex_Main
    "HOL-Library.AList"
    "HOL-Library.Char_ord"
    "HOL-Library.List_Lexorder"
    "HOL-Library.Product_Lexorder"
    "HOL-Library.Multiset"
begin

text \<open>
  The part of the JavaScript language and of its standard library that the modelled TypeScript
  uses, with the generic lemmas that the components share.

  \<^item> A string is a list of 8-bit characters read as Latin-1 code units; \<open>js_trim\<close>,
    \<open>js_lower\<close>, \<open>js_includes\<close>, \<open>js_split\<close> and \<open>js_pad2\<close> are the String methods
    \<open>trim\<close>, \<open>toLowerCase\<close>, \<open>includes\<close>, \<open>split\<close> and \<open>padStart(2, '0')\<close>.
  \<^item> A value of TypeScript type \<open>unknown\<close> or \<open>InventorySpecValue\<close> is a \<open>jsv\<close>;
    \<open>undefined\<close> is the \<open>None\<close> of an option.  Measured numbers are rationals, relational
    ids, positions and revisions are integers.
  \<^item> \<open>js_Number\<close> is the conversion \<open>Number(value)\<close>; \<open>None\<close> is a result that is not
    finite (every modelled caller rejects NaN and the infinities alike).  A decimal literal
    denotes its exact value: rounding to a double is not modelled.
  \<^item> An object used as a dictionary and a \<open>Map\<close> keep their insertion order: both are
    association lists, with \<open>AList.update\<close> and \<open>AList.delete\<close> as \<open>set\<close> and
    \<open>delete\<close>; \<open>js_uniq\<close> is the spread of \<open>new Set(xs)\<close>.
\<close>

named_theorems op_defs \<open>definitions of the modelled operations\<close>
named_theorems frame_simps \<open>what an operation leaves unchanged\<close>

declare Let_def [simp]

type_synonym 'v dict = "(string \<times> 'v) list"

section \<open>Values\<close>

datatype js_id = IdNum int | IdStr string

datatype jsv =
    JNull
  | JBool bool
  | JNum rat
  | JStr string
  | JArr "jsv list"
  | JObj "(string \<times> jsv) list"

text \<open>Truthiness of an optional string and of an optional number, as in \<open>if (x)\<close>.\<close>

definition truthy_str :: "string option \<Rightarrow> bool" where
  "truthy_str s = (case s of None \<Rightarrow> False | Some t \<Rightarrow> t \<noteq> [])"

definition truthy_num :: "int option \<Rightarrow> bool" where
  "truthy_num n = (case n of None \<Rightarrow> False | Some m \<Rightarrow> m \<noteq> 0)"

lemma truthy_simps [simp]:
  "\<not> truthy_str None" "truthy_str (Some t) \<longleftrightarrow> t \<noteq> []"
  "\<not> truthy_num None" "truthy_num (Some m) \<longleftrightarrow> m \<noteq> 0"
  by (simp_all add: truthy_str_def truthy_num_def)

text \<open>\<open>x ?? y\<close>.\<close>

definition nullish :: "'a option \<Rightarrow> 'a \<Rightarrow> 'a" where
  "nullish x y = (case x of None \<Rightarrow> y | Some v \<Rightarrow> v)"

lemma nullish_simps [simp]: "nullish None y = y" "nullish (Some v) y = v"
  by (simp_all add: nullish_def)

section \<open>Numbers\<close>

definition MAX_SAFE_INTEGER :: int where
  "MAX_SAFE_INTEGER = 9007199254740991"

definition isSafeInteger :: "int \<Rightarrow> bool" where
  "isSafeInteger n \<longleftrightarrow> - MAX_SAFE_INTEGER \<le> n \<and> n \<le> MAX_SAFE_INTEGER"

definition isInteger_rat :: "rat \<Rightarrow> bool" where
  "isInteger_rat r \<longleftrightarrow> of_int \<lfloor>r\<rfloor> = r"

definition isSafeInteger_rat :: "rat \<Rightarrow> bool" where
  "isSafeInteger_rat r \<longleftrightarrow> isInteger_rat r \<and> isSafeInteger \<lfloor>r\<rfloor>"

lemma isInteger_rat_of_int [simp]: "isInteger_rat (of_int n)"
  by (simp add: isInteger_rat_def)

lemma isSafeInteger_rat_of_int [simp]: "isSafeInteger_rat (of_int n) = isSafeInteger n"
  by (simp add: isSafeInteger_rat_def)

section \<open>Strings\<close>

definition is_js_space :: "char \<Rightarrow> bool" where
  "is_js_space c = (let n = (of_char c :: nat) in (9 \<le> n \<and> n \<le> 13) \<or> n = 32 \<or> n = 160)"

definition js_trim :: "string \<Rightarrow> string" where
  "js_trim s = rev (dropWhile is_js_space (rev (dropWhile is_js_space s)))"

definition lower_char :: "char \<Rightarrow> char" where
  "lower_char c = (let n = (of_char c :: nat) in
     if (65 \<le> n \<and> n \<le> 90) \<or> (192 \<le> n \<and> n \<le> 222 \<and> n \<noteq> 215)
     then char_of (n + 32) else c)"

definition js_lower :: "string \<Rightarrow> string" where
  "js_lower s = map lower_char s"

fun js_starts :: "string \<Rightarrow> string \<Rightarrow> bool" where
  "js_starts [] s = True"
| "js_starts (p # ps) [] = False"
| "js_starts (p # ps) (c # cs) = (p = c \<and> js_starts ps cs)"

fun js_includes :: "string \<Rightarrow> string \<Rightarrow> bool" where
  "js_includes [] q = (q = [])"
| "js_includes (c # cs) q = (js_starts q (c # cs) \<or> js_includes cs q)"

fun js_split :: "char \<Rightarrow> string \<Rightarrow> string list" where
  "js_split d [] = [[]]"
| "js_split d (c # cs) =
     (if c = d then [] # js_split d cs
      else (case js_split d cs of [] \<Rightarrow> [[c]] | p # ps \<Rightarrow> (c # p) # ps))"

fun js_join :: "string \<Rightarrow> string list \<Rightarrow> string" where
  "js_join sep [] = []"
| "js_join sep [s] = s"
| "js_join sep (s # t # ss) = s @ sep @ js_join sep (t # ss)"

lemma js_split_no_sep: "d \<notin> set s \<Longrightarrow> js_split d s = [s]"
  by (induction s) auto

lemma js_split_sep: "d \<notin> set s \<Longrightarrow> js_split d (s @ d # t) = s # js_split d t"
  by (induction s) auto

lemma js_split_not_Nil [simp]: "js_split d s \<noteq> []"
  by (induction s) (auto split: list.splits)

subsection \<open>Decimal rendering\<close>

definition digit_char :: "nat \<Rightarrow> char" where
  "digit_char d = char_of (48 + d)"

fun show_nat :: "nat \<Rightarrow> string" where
  "show_nat n = (if n < 10 then [digit_char n] else show_nat (n div 10) @ [digit_char (n mod 10)])"

declare show_nat.simps [simp del]

definition show_int :: "int \<Rightarrow> string" where
  "show_int n = (if n < 0 then CHR ''-'' # show_nat (nat (- n)) else show_nat (nat n))"

fun js_String :: "js_id \<Rightarrow> string" where
  "js_String (IdNum n) = show_int n"
| "js_String (IdStr s) = s"

definition js_pad2 :: "string \<Rightarrow> string" where
  "js_pad2 s = replicate (2 - length s) (CHR ''0'') @ s"

subsection \<open>Conversion of a string to a number\<close>

definition is_digit :: "char \<Rightarrow> bool" where
  "is_digit c = (let n = (of_char c :: nat) in 48 \<le> n \<and> n \<le> 57)"

definition digit_val :: "char \<Rightarrow> nat" where
  "digit_val c = of_char c - 48"

definition decimal_val :: "string \<Rightarrow> nat" where
  "decimal_val s = foldl (\<lambda>acc c. 10 * acc + digit_val c) 0 s"

definition radix_digit :: "nat \<Rightarrow> char \<Rightarrow> nat option" where
  "radix_digit b c = (let n = (of_char c :: nat);
     v = (if 48 \<le> n \<and> n \<le> 57 then Some (n - 48)
          else if 65 \<le> n \<and> n \<le> 70 then Some (n - 55)
          else if 97 \<le> n \<and> n \<le> 102 then Some (n - 87) else None)
     in case v of Some d \<Rightarrow> (if d < b then Some d else None) | None \<Rightarrow> None)"

fun radix_val :: "nat \<Rightarrow> nat \<Rightarrow> string \<Rightarrow> nat option" where
  "radix_val b acc [] = Some acc"
| "radix_val b acc (c # cs) =
     (case radix_digit b c of None \<Rightarrow> None | Some d \<Rightarrow> radix_val b (b * acc + d) cs)"

definition radix_literal :: "nat \<Rightarrow> string \<Rightarrow> rat option" where
  "radix_literal b s = (if s = [] then None else map_option of_nat (radix_val b 0 s))"

definition signed_digits :: "string \<Rightarrow> int option" where
  "signed_digits s =
     (case s of
        [] \<Rightarrow> None
      | c # cs \<Rightarrow>
          (let neg = (c = CHR ''-''); ds = (if c = CHR ''-'' \<or> c = CHR ''+'' then cs else s)
           in if ds = [] \<or> \<not> list_all is_digit ds then None
              else Some (if neg then - int (decimal_val ds) else int (decimal_val ds))))"

definition scale10 :: "nat \<Rightarrow> int \<Rightarrow> rat" where
  "scale10 m e = (if 0 \<le> e then of_nat m * 10 ^ nat e else of_nat m / 10 ^ nat (- e))"

definition unsigned_literal :: "string \<Rightarrow> rat option" where
  "unsigned_literal s =
     (let ip = takeWhile is_digit s; r1 = dropWhile is_digit s;
          fp = (case r1 of c # t \<Rightarrow> (if c = CHR ''.'' then takeWhile is_digit t else []) | [] \<Rightarrow> []);
          r2 = (case r1 of c # t \<Rightarrow> (if c = CHR ''.'' then dropWhile is_digit t else r1) | [] \<Rightarrow> [])
      in if ip @ fp = [] then None
         else case r2 of
           [] \<Rightarrow> Some (scale10 (decimal_val (ip @ fp)) (- int (length fp)))
         | c # t \<Rightarrow>
             (if c = CHR ''e'' \<or> c = CHR ''E''
              then map_option (\<lambda>e. scale10 (decimal_val (ip @ fp)) (e - int (length fp)))
                     (signed_digits t)
              else None))"

definition string_to_number :: "string \<Rightarrow> rat option" where
  "string_to_number str =
     (let s = js_trim str in
      case s of
        [] \<Rightarrow> Some 0
      | c # cs \<Rightarrow>
          (if c = CHR ''-'' then map_option uminus (unsigned_literal cs)
           else if c = CHR ''+'' then unsigned_literal cs
           else case cs of
             x # ds \<Rightarrow>
               (if c = CHR ''0'' \<and> (x = CHR ''x'' \<or> x = CHR ''X'') then radix_literal 16 ds
                else if c = CHR ''0'' \<and> (x = CHR ''o'' \<or> x = CHR ''O'') then radix_literal 8 ds
                else if c = CHR ''0'' \<and> (x = CHR ''b'' \<or> x = CHR ''B'') then radix_literal 2 ds
                else unsigned_literal s)
           | [] \<Rightarrow> unsigned_literal s))"

text \<open>An array converts through its \<open>toString\<close>: \<open>Number([x])\<close> is \<open>Number(String(x))\<close>.\<close>

fun array_to_number :: "jsv list \<Rightarrow> rat option" where
  "array_to_number [] = Some 0"
| "array_to_number [JNull] = Some 0"
| "array_to_number [JBool b] = None"
| "array_to_number [JNum r] = Some r"
| "array_to_number [JStr s] = string_to_number s"
| "array_to_number [JArr xs] = array_to_number xs"
| "array_to_number [JObj m] = None"
| "array_to_number (x # y # zs) = None"

fun js_Number :: "jsv option \<Rightarrow> rat option" where
  "js_Number None = None"
| "js_Number (Some JNull) = Some 0"
| "js_Number (Some (JBool b)) = Some (if b then 1 else 0)"
| "js_Number (Some (JNum r)) = Some r"
| "js_Number (Some (JStr s)) = string_to_number s"
| "js_Number (Some (JArr xs)) = array_to_number xs"
| "js_Number (Some (JObj m)) = None"

subsection \<open>Rendering and reading a decimal\<close>

lemma of_char_digit: "d < 10 \<Longrightarrow> (of_char (digit_char d) :: nat) = 48 + d"
  by (simp add: digit_char_def)

lemma is_digit_digit_char [simp]: "d < 10 \<Longrightarrow> is_digit (digit_char d)"
  by (simp add: is_digit_def of_char_digit)

lemma digit_val_digit_char [simp]: "d < 10 \<Longrightarrow> digit_val (digit_char d) = d"
  by (simp add: digit_val_def of_char_digit)

lemma decimal_val_snoc: "decimal_val (s @ [c]) = 10 * decimal_val s + digit_val c"
  by (simp add: decimal_val_def)

lemma show_nat_digits: "list_all is_digit (show_nat n)"
proof (induction n rule: show_nat.induct)
  case (1 n)
  then show ?case by (simp add: show_nat.simps [of n])
qed

lemma show_nat_not_Nil [simp]: "show_nat n \<noteq> []"
  by (subst show_nat.simps) simp

lemma decimal_val_show_nat [simp]: "decimal_val (show_nat n) = n"
proof (induction n rule: show_nat.induct)
  case (1 n)
  then show ?case
    by (simp add: show_nat.simps [of n] decimal_val_snoc) (simp add: decimal_val_def)
qed

lemma is_digit_not_space: "is_digit c \<Longrightarrow> \<not> is_js_space c"
  by (auto simp: is_digit_def is_js_space_def Let_def)

lemma is_digit_not_letter:
  "is_digit c \<Longrightarrow> c \<noteq> CHR ''x'' \<and> c \<noteq> CHR ''X'' \<and> c \<noteq> CHR ''o'' \<and> c \<noteq> CHR ''O'' \<and>
     c \<noteq> CHR ''b'' \<and> c \<noteq> CHR ''B'' \<and> c \<noteq> CHR ''-'' \<and> c \<noteq> CHR ''+'' \<and> c \<noteq> CHR '':''"
  by (auto simp: is_digit_def)

lemma space_minus [simp]: "\<not> is_js_space (CHR ''-'')"
  by (simp add: is_js_space_def)

lemma js_trim_id:
  assumes "s \<noteq> []" "\<not> is_js_space (hd s)" "\<not> is_js_space (last s)"
  shows "js_trim s = s"
proof -
  from assms(1,2) have "dropWhile is_js_space s = s"
    by (cases s) auto
  moreover from assms(1,3) have "dropWhile is_js_space (rev s) = rev s"
    by (cases s rule: rev_cases) auto
  ultimately show ?thesis by (simp add: js_trim_def)
qed

lemma unsigned_literal_digits:
  assumes "list_all is_digit s" "s \<noteq> []"
  shows "unsigned_literal s = Some (of_nat (decimal_val s))"
proof -
  have t: "takeWhile is_digit s = s" and d: "dropWhile is_digit s = []"
    using assms(1) by (auto simp: list_all_iff takeWhile_eq_all_conv)
  show ?thesis
    unfolding unsigned_literal_def t d using assms(2) by (simp add: scale10_def)
qed

lemma string_to_number_digits:
  assumes "list_all is_digit s" "s \<noteq> []"
  shows "string_to_number s = Some (of_nat (decimal_val s))"
proof -
  obtain c cs where s: "s = c # cs" using assms(2) by (cases s) auto
  have t: "js_trim s = s"
    using assms by (intro js_trim_id) (auto simp: list_all_iff is_digit_not_space)
  have c: "c \<noteq> CHR ''-''" "c \<noteq> CHR ''+''"
    using assms(1) s is_digit_not_letter [of c] by auto
  have x: "\<And>x ds. cs = x # ds \<Longrightarrow> is_digit x"
    using assms(1) s by auto
  show ?thesis
    using t c x unsigned_literal_digits [OF assms]
    by (auto simp: string_to_number_def s is_digit_not_letter split: list.splits)
qed

lemma string_to_number_show_int: "string_to_number (show_int n) = Some (of_int n)"
proof (cases "n < 0")
  case True
  let ?d = "show_nat (nat (- n))"
  have t: "js_trim (CHR ''-'' # ?d) = CHR ''-'' # ?d"
    using show_nat_digits [of "nat (- n)"]
    by (intro js_trim_id) (auto simp: list_all_iff is_digit_not_space space_minus)
  have "(rat_of_nat (nat (- n))) = - of_int n" using True by simp
  with True t unsigned_literal_digits [OF show_nat_digits, of "nat (- n)"] show ?thesis
    by (simp add: show_int_def string_to_number_def)
next
  case False
  then show ?thesis
    by (simp add: show_int_def string_to_number_digits show_nat_digits)
qed

lemma show_int_inject [simp]: "show_int m = show_int n \<longleftrightarrow> m = n"
  by (metis of_int_eq_iff option.inject string_to_number_show_int)

lemma colon_notin_show_nat: "CHR '':'' \<notin> set (show_nat n)"
  using show_nat_digits [of n] by (auto simp: list_all_iff dest: is_digit_not_letter)

lemma colon_notin_show_int [simp]: "CHR '':'' \<notin> set (show_int n)"
  by (simp add: show_int_def colon_notin_show_nat)

lemma show_int_not_Nil [simp]: "show_int n \<noteq> []"
  by (simp add: show_int_def)

section \<open>Lists\<close>

text \<open>The elements of \<open>new Set(xs)\<close> in iteration order: first occurrences.\<close>

definition js_uniq :: "'a list \<Rightarrow> 'a list" where
  "js_uniq xs = rev (remdups (rev xs))"

lemma set_js_uniq [simp]: "set (js_uniq xs) = set xs"
  by (simp add: js_uniq_def)

lemma distinct_js_uniq [simp]: "distinct (js_uniq xs)"
  by (simp add: js_uniq_def)

lemma js_uniq_Nil [simp]: "js_uniq [] = []"
  by (simp add: js_uniq_def)

lemma js_uniq_snoc: "js_uniq (xs @ [x]) = (if x \<in> set xs then js_uniq xs else js_uniq xs @ [x])"
  by (simp add: js_uniq_def)

text \<open>\<open>indexOf\<close>.\<close>

fun js_indexOf :: "'a \<Rightarrow> 'a list \<Rightarrow> int" where
  "js_indexOf x [] = -1"
| "js_indexOf x (y # ys) =
     (if x = y then 0 else let n = js_indexOf x ys in if n = -1 then -1 else n + 1)"

lemma distinct_map_filter_neq:
  "distinct (map f xs) \<Longrightarrow> distinct (map f (filter P xs))"
  by (induction xs) auto

lemma map_if_keep:
  "(\<And>x. x \<in> set xs \<Longrightarrow> g (f x) = g x) \<Longrightarrow> map g (map f xs) = map g xs"
  by simp

lemma find_Some_iff_first:
  "List.find P xs = Some x \<Longrightarrow> P x \<and> x \<in> set xs"
  by (induction xs) (auto split: if_splits)

lemma find_None_iff_all: "List.find P xs = None \<longleftrightarrow> (\<forall>x \<in> set xs. \<not> P x)"
  by (auto simp: find_None_iff)

lemma map_of_map_key:
  "distinct (map f xs) \<Longrightarrow> x \<in> set xs \<Longrightarrow> map_of (map (\<lambda>y. (f y, y)) xs) (f x) = Some x"
  by (induction xs) (auto simp: image_iff)

lemma find_map: "List.find P (map f xs) = map_option f (List.find (\<lambda>x. P (f x)) xs)"
  by (induction xs) auto

lemma bind_map_option: "Option.bind (map_option f x) g = Option.bind x (\<lambda>a. g (f a))"
  by (cases x) simp_all

lemma list_ex_map: "list_ex P (map f xs) = list_ex (\<lambda>x. P (f x)) xs"
  by (induction xs) auto

section \<open>Dictionaries and maps\<close>

text \<open>\<open>new Map(entries)\<close> and \<open>Object.fromEntries(entries)\<close>: a later entry overwrites the
  value of an earlier one and keeps its position.\<close>

definition map_from :: "('k \<times> 'v) list \<Rightarrow> ('k \<times> 'v) list" where
  "map_from es = foldl (\<lambda>m (k, v). AList.update k v m) [] es"

lemma map_from_snoc: "map_from (es @ [(k, v)]) = AList.update k v (map_from es)"
  by (simp add: map_from_def)

lemma distinct_update: "distinct (map fst m) \<Longrightarrow> distinct (map fst (AList.update k v m))"
  by (simp add: AList.distinct_update)

lemma distinct_map_from [simp]: "distinct (map fst (map_from es))"
proof (induction es rule: rev_induct)
  case Nil
  show ?case by (simp add: map_from_def)
next
  case (snoc e es)
  then show ?case by (cases e) (simp add: map_from_snoc distinct_update)
qed

lemma map_of_map_from: "map_of (map_from es) k = map_of (rev es) k"
proof (induction es rule: rev_induct)
  case Nil
  show ?case by (simp add: map_from_def)
next
  case (snoc e es)
  then show ?case by (cases e) (simp add: map_from_snoc update_conv')
qed

lemma map_of_rev_distinct:
  "distinct (map fst es) \<Longrightarrow> map_of (rev es) = map_of es"
  by (simp add: map_of_inject_set rev_map [symmetric])

text \<open>The interface of a keyed store, which the model's dictionaries, \<open>Map\<close>s and placement
  lists provide and its update operations rely on.\<close>

locale keyed_store =
  fixes get :: "'s \<Rightarrow> 'k \<Rightarrow> 'v option"
    and put :: "'k \<Rightarrow> 'v \<Rightarrow> 's \<Rightarrow> 's"
    and drop_key :: "'k \<Rightarrow> 's \<Rightarrow> 's"
    and ok :: "'s \<Rightarrow> bool"
  assumes get_put: "ok s \<Longrightarrow> get (put k v s) = (get s)(k \<mapsto> v)"
    and get_drop: "ok s \<Longrightarrow> get (drop_key k s) = (get s)(k := None)"
    and ok_put: "ok s \<Longrightarrow> ok (put k v s)"
    and ok_drop: "ok s \<Longrightarrow> ok (drop_key k s)"
begin

text \<open>A batch of writes: the last write to a key wins, keys not written keep their value.\<close>

definition put_all :: "('k \<times> 'v) list \<Rightarrow> 's \<Rightarrow> 's" where
  "put_all es s = foldl (\<lambda>s (k, v). put k v s) s es"

lemma ok_put_all: "ok s \<Longrightarrow> ok (put_all es s)"
  by (induction es arbitrary: s) (auto simp: put_all_def ok_put)

lemma get_put_all: "ok s \<Longrightarrow> get (put_all es s) = get s ++ map_of (rev es)"
  by (induction es arbitrary: s) (auto simp: put_all_def ok_put get_put)

lemma put_put: "ok s \<Longrightarrow> get (put k w (put k v s)) = get (put k w s)"
  by (simp add: get_put ok_put)

lemma drop_put: "ok s \<Longrightarrow> get s k = None \<Longrightarrow> get (drop_key k (put k v s)) = get s"
  by (auto simp: get_put get_drop ok_put)

end

interpretation js_map: keyed_store map_of AList.update AList.delete
  "\<lambda>m :: ('k \<times> 'v) list. distinct (map fst m)"
  by unfold_locales (auto simp: update_conv' delete_conv' AList.distinct_update distinct_delete)

section \<open>Thrown errors\<close>

text \<open>A computation that may throw is a sum with the error on the left; \<open>try_eval\<close> runs one
  computation after another.\<close>

definition try_eval :: "'e + 'a \<Rightarrow> ('a \<Rightarrow> 'e + 'b) \<Rightarrow> 'e + 'b" where
  "try_eval x f = (case x of Inl e \<Rightarrow> Inl e | Inr v \<Rightarrow> f v)"

lemma try_eval_simps [simp]: "try_eval (Inl e) f = Inl e" "try_eval (Inr v) f = f v"
  by (simp_all add: try_eval_def)

lemma try_eval_Inr_iff: "try_eval x f = Inr y \<longleftrightarrow> (\<exists>v. x = Inr v \<and> f v = Inr y)"
  by (cases x) auto

lemma map_sum_Inr_iff: "map_sum f g x = Inr y \<longleftrightarrow> (\<exists>z. x = Inr z \<and> y = g z)"
  by (cases x) auto

lemma map_sum_Inl_iff: "map_sum f g x = Inl y \<longleftrightarrow> (\<exists>z. x = Inl z \<and> y = f z)"
  by (cases x) auto

lemmas Inr_iffs = try_eval_Inr_iff map_sum_Inr_iff

section \<open>Fresh identifiers\<close>

text \<open>An id supply gives, for the ids in use, one that is not among them.  Extending a list of
  records with a record under a supplied id keeps the ids distinct.\<close>

locale id_supply =
  fixes supply_id :: "int list \<Rightarrow> int"
  assumes supply_fresh: "supply_id ids \<notin> set ids"
begin

lemma distinct_supply: "distinct ids \<Longrightarrow> distinct (ids @ [supply_id ids])"
  using supply_fresh by simp

lemma distinct_supply_map:
  "distinct (map f xs) \<Longrightarrow> f x = supply_id (map f xs) \<Longrightarrow> distinct (map f (xs @ [x]))"
  using distinct_supply [of "map f xs"] by simp

end

section \<open>Invariants of state machines\<close>

text \<open>A step relation with an invariant that every step keeps.\<close>

locale invariant_system =
  fixes step :: "'s \<Rightarrow> 's \<Rightarrow> bool"
    and inv :: "'s \<Rightarrow> bool"
  assumes step_inv: "step s t \<Longrightarrow> inv s \<Longrightarrow> inv t"
begin

lemma steps_inv: "step\<^sup>*\<^sup>* s t \<Longrightarrow> inv s \<Longrightarrow> inv t"
  by (induction rule: rtranclp_induct) (auto intro: step_inv)

end

end
