(* ===== verification/Compatibility_Types.thy ===== *)
theory Compatibility_Types
  imports JS_Prelude
begin

text \<open>
  The compatibility data of an inventory item: the TypeScript types of
  \<open>src/types/compatibility.ts\<close>.  A union of string literals is a datatype, an object type is a
  record with a prefix per type, an optional field is an option; counts, lanes and watts are
  rationals, because the code itself checks that a count is a whole number.  A field whose
  presence the code tests although its type requires it (\<open>interfaceFamily\<close>) is an option.
\<close>

datatype severity = SevError | SevWarning | SevUnknown
datatype finding_class = Actionable | Informational
datatype compat_status = Compatible | Incompatible | UnknownStatus

datatype resource_type =
    ResCpu | ResMemory | ResStorage | ResExpansion | ResOptionalModule | ResControllerSlot
  | ResBootDeviceSlot | ResCoolingProfile | ResMotherboard | ResCooling | ResPower | ResCase

datatype interface_family =
    IfPcie | IfM2ae | IfM2bm | IfMiniPcie | IfUsb | IfOcp | IfMezzanine | IfOnboard | IfProprietary

datatype card_height = FullHeight | LowProfile
datatype topology_completeness = TopoComplete | TopoPartial | TopoConflicting
datatype ecc_support = EccSupported | EccUnsupported | EccConditional | EccUnknown
datatype memory_form_factor = FormDimm | FormSoDimm | FormOnboard
datatype memory_module_type = ModUdimm | ModRdimm | ModLrdimm | ModOnboard
datatype power_redundancy = RedNone | RedOptional | RedRequired | RedSupported
datatype psu_type = PsuFixed | PsuCabled | PsuHotPlug
datatype constraint_resource =
    CrStorageSlot | CrExpansionSlot | CrOptionalModuleSlot | CrControllerSlot | CrBootDeviceSlot
  | CrCoolingProfile

record constraint_member =
  cm_resourceType :: constraint_resource
  cm_resourceId :: int

text \<open>The only \<open>kind\<close> of a constraint group is \<open>mutually-exclusive\<close>.\<close>

record constraint_group =
  cg_id :: int
  cg_key :: string
  cg_label :: string
  cg_members :: "constraint_member list"

record storage_group =
  sg_id :: int
  sg_key :: string
  sg_label :: string
  sg_count :: rat
  sg_interfaces :: "string list option"
  sg_formFactors :: "string list option"
  sg_pcieGeneration :: "rat option"
  sg_location :: "string option"
  sg_hotSwap :: "bool option"
  sg_backplane :: "string option"
  sg_controllerSlotIds :: "int list option"
  sg_directConnect :: "bool option"

record expansion_group =
  eg_id :: int
  eg_key :: string
  eg_label :: string
  eg_count :: rat
  eg_interfaceFamily :: "interface_family option"
  eg_interfaceKey :: "string option"
  eg_keying :: "string option"
  eg_moduleSize :: "string option"
  eg_usbGeneration :: "string option"
  eg_connector :: "string option"
  eg_ocpVersion :: "string option"
  eg_slotType :: "string option"
  eg_pcieGeneration :: "rat option"
  eg_mechanicalLanes :: "rat option"
  eg_electricalLanes :: "rat option"
  eg_acceptedHeights :: "card_height list option"
  eg_maxSlotWidth :: "rat option"
  eg_maxPowerWatts :: "rat option"
  eg_proprietaryRiser :: "bool option"
  eg_riserCapability :: "string option"
  eg_requiredCpuSockets :: "rat option"
  eg_riserGroup :: "string option"

datatype bus_family = BusPcie | BusUsb
datatype socket_key = SocketA | SocketE

record available_bus =
  ab_family :: bus_family
  ab_lanes :: "rat option"
  ab_pcieGeneration :: "rat option"
  ab_usbGeneration :: "string option"

record optional_module_group =
  om_id :: int
  om_key :: string
  om_label :: string
  om_count :: rat
  om_acceptedModuleKinds :: "string list option"
  om_keyAliases :: "string list option"
  om_interfaceFamily :: "interface_family option"
  om_socketKeys :: "socket_key list option"
  om_moduleSizes :: "string list option"
  om_availableBuses :: "available_bus list option"
  om_intendedModuleKinds :: "string list option"

record controller_group =
  ct_id :: int
  ct_key :: string
  ct_label :: string
  ct_count :: rat
  ct_acceptedControllerKinds :: "string list option"
  ct_interfaceFamily :: "string option"
  ct_dedicated :: "bool option"
  ct_requiredCpuSockets :: "rat option"

record boot_device_group =
  bd_id :: int
  bd_key :: string
  bd_label :: string
  bd_count :: rat
  bd_acceptedDeviceKinds :: "string list option"
  bd_interfaces :: "string list option"
  bd_formFactors :: "string list option"
  bd_controllerSlotId :: "int option"
  bd_requiredCpuSockets :: "rat option"

record cooling_profile =
  co_id :: int
  co_key :: string
  co_label :: string
  co_fanCount :: "rat option"
  co_redundant :: "bool option"
  co_conditions :: "string list option"

record management_controller =
  mc_controllerFamily :: "string option"
  mc_controllerGeneration :: "string option"
  mc_dedicatedPort :: "bool option"
  mc_sharedNic :: "bool option"
  mc_portType :: "string option"
  mc_speed :: "string option"

record host_power =
  hp_configuration :: "string option"
  hp_adapterDisposition :: "string option"
  hp_connector :: "string option"
  hp_supportedWattagesWatts :: "rat list option"
  hp_supportedPowerMw :: "rat list option"
  hp_adapterRequired :: "bool option"
  hp_adapterType :: "string option"
  hp_redundancy :: "power_redundancy option"
  hp_maxGraphicsPowerWatts :: "rat option"
  hp_psuBayCount :: "rat option"
  hp_psuType :: "psu_type option"
  hp_mixedPsuAllowed :: "bool option"
  hp_redundancyModes :: "string list option"

datatype power_connector_kind = MainPower | CpuPower

record power_connector_group =
  pc_id :: int
  pc_key :: string
  pc_label :: string
  pc_kind :: power_connector_kind
  pc_connector :: string
  pc_count :: rat
  pc_required :: bool

record fixed_host_port =
  fh_id :: int
  fh_key :: string
  fh_kind :: string
  fh_type :: string
  fh_slotNumber :: int
  fh_speed :: "string option"

record host_cpu =
  hc_sockets :: "string list option"
  hc_generations :: "string list option"
  hc_maxTdpWatts :: "rat option"
  hc_socketCount :: "rat option"
  hc_populationModes :: "rat list option"

record host_memory =
  hm_generations :: "string list option"
  hm_formFactors :: "memory_form_factor list option"
  hm_slots :: "rat option"
  hm_maxCapacityGb :: "rat option"
  hm_maxModuleCapacityGb :: "rat option"
  hm_oemMaxCapacityMib :: "rat option"
  hm_oemMaxModuleCapacityMib :: "rat option"
  hm_verifiedMaxCapacityMib :: "rat option"
  hm_verifiedMaxModuleCapacityMib :: "rat option"
  hm_maxSpeedMt :: "rat option"
  hm_eccSupport :: "ecc_support option"
  hm_slotsPerCpu :: "rat option"
  hm_moduleTypes :: "memory_module_type list option"

record host_compatibility =
  host_topologyCompleteness :: "topology_completeness option"
  host_cpu :: "host_cpu option"
  host_memory :: "host_memory option"
  host_storageSlots :: "storage_group list option"
  host_expansionSlots :: "expansion_group list option"
  host_optionalModuleSlots :: "optional_module_group list option"
  host_controllerSlots :: "controller_group list option"
  host_bootDeviceSlots :: "boot_device_group list option"
  host_coolingProfiles :: "cooling_profile list option"
  host_management :: "management_controller option"
  host_constraintGroups :: "constraint_group list option"
  host_fixedPorts :: "fixed_host_port list option"
  host_powerConnectors :: "power_connector_group list option"
  host_power :: "host_power option"
  host_maxExpansionPowerWatts :: "rat option"

text \<open>The \<open>requirements\<close> of a component are only read as untyped dictionaries (the modelled
  code spreads \<open>requirements.expansion\<close> into one), so each is a dictionary; the engine also
  reads \<open>cooling\<close>, \<open>cpuCooler\<close> and \<open>optionalModule\<close>, which the type does not declare.\<close>

record component_requirements =
  cq_cpu :: "jsv dict option"
  cq_memory :: "jsv dict option"
  cq_expansion :: "jsv dict option"
  cq_cooling :: "jsv dict option"
  cq_cpuCooler :: "jsv dict option"
  cq_optionalModule :: "jsv dict option"

record inventory_compatibility =
  compat_host :: "host_compatibility option"
  compat_requirements :: "component_requirements option"

record allocation =
  al_resourceType :: resource_type
  al_groupId :: "int option"
  al_positions :: "int list"

record finding =
  fd_code :: string
  fd_severity :: severity
  fd_classification :: "finding_class option"
  fd_message :: string
  fd_field :: "string option"
  fd_resourceId :: "int option"

record compatibility_result =
  cr_status :: compat_status
  cr_findings :: "finding list"
  cr_allocation :: "allocation option"

end
