(* ===== verification/Inventory_Types.thy ===== *)
theory Inventory_Types
  imports Compatibility_Types
begin

text \<open>
  The data model of the project: the TypeScript types of \<open>src/types/inventory.ts\<close> and
  \<open>src/types/pc-build.ts\<close>, modelled as in the theory of the compatibility data.
  \<open>ComponentType\<close> is the subset of \<open>InventoryType\<close> that \<open>isAssignableComponentType\<close>
  accepts, so both are \<open>inventory_type\<close>.  An item's id and an endpoint's port id may be
  legacy strings, which the code still accepts, hence \<open>js_id\<close>; an item's name is an option because
  \<open>updateItemIdentity\<close> can erase it.
\<close>

section \<open>Inventory data\<close>

datatype inventory_type =
    TServer | TNas | TPcBuild | TCpu | TRam | TStorage | TGpu | TNetwork | TMotherboard
  | TCpuCooler | TCase | TPowerSupply | TSoundCard | TPowerAdapter | TSwitch | TPatchPanel
  | TMonitor | TUps | TPowerStrip

datatype port_kind = KSwitchPort | KKeystone | KServerPort | KPowerPort | KNetwork | KVideo

datatype port_type =
    PRj45 | PSfp | PSfpPlus | PSfp28 | PQsfp | PQsfpPlus | PQsfp28 | PQsfp56 | PQsfpDd | POsfp
  | PFc | PInfiniband | PHdmi | PDisplayport | PMiniDisplayport | PBarrel | PAcInput | PAcOutlet

datatype port_side = Front | Back
datatype port_role = RAccess | RTrunk | RUplink | RManagement | RDisabled
datatype port_origin = OFixed | OModule
datatype hardware_class = HwDesktop | HwWorkstation | HwServer
datatype usage_role = UseServer | UseDesktop | UseWorkstation | UseOther
datatype item_scope = GlobalScope | ProjectScope
datatype admin_state = AdminEnabled | AdminDisabled
datatype network_technology =
    NtEthernet | NtWifi | NtFibreChannel | NtInfiniband | NtConverged | NtCellular | NtOther
datatype port_media =
    MediaDac | MediaAoc | MediaOptical | MediaCopper | MediaActiveCopper | MediaPassiveCopper

record port_endpoint =
  pe_id :: int
  pe_side :: port_side

record inventory_port =
  p_id :: int
  p_key :: "string option"
  p_kind :: port_kind
  p_type :: port_type
  p_slotNumber :: int
  p_label :: "string option"
  p_notes :: "string option"
  p_ipAddress :: "string option"
  p_macAddress :: "string option"
  p_role :: "port_role option"
  p_adminState :: "admin_state option"
  p_speed :: "string option"
  p_speedBps :: "int option"
  p_supportedSpeedsBps :: "int list option"
  p_networkTechnology :: "network_technology option"
  p_operatingModes :: "string list option"
  p_media :: "port_media list option"
  p_vendorLock :: "bool option"
  p_poe :: "bool option"
  p_origin :: "port_origin option"
  p_endpoints :: "port_endpoint list option"

datatype fixed_disposition = DispFixed | DispSoldered

record fixed_component_item =
  fi_type :: inventory_type
  fi_name :: string
  fi_subtype :: "string option"
  fi_manufacturer :: "string option"
  fi_secondaryManufacturer :: "string option"
  fi_family :: "string option"
  fi_model :: "string option"
  fi_number :: "string option"
  fi_aliases :: "string list option"
  fi_specs :: "jsv dict option"
  fi_properties :: "string dict option"
  fi_ports :: "inventory_port list option"
  fi_compatibility :: "inventory_compatibility option"
  fi_notes :: "string option"

record fixed_component =
  fc_id :: int
  fc_componentType :: string
  fc_disposition :: fixed_disposition
  fc_label :: string
  fc_item :: fixed_component_item
  fc_templateKey :: "string option"
  fc_templateRevision :: "int option"

record smart_outlet_name =
  so_portId :: int
  so_name :: string

record smart_power_strip =
  sp_displayName :: "string option"
  sp_managementIp :: "string option"
  sp_macAddress :: "string option"
  sp_outlets :: "smart_outlet_name list"

record inventory_item =
  it_id :: js_id
  it_inventoryId :: "int option"
  it_key :: "string option"
  it_name :: "string option"
  it_type :: inventory_type
  it_scope :: "item_scope option"
  it_ownerProjectId :: "int option"
  it_hardwareClass :: "hardware_class option"
  it_usageRole :: "usage_role option"
  it_subtype :: "string option"
  it_manufacturer :: "string option"
  it_secondaryManufacturer :: "string option"
  it_family :: "string option"
  it_model :: "string option"
  it_number :: "string option"
  it_aliases :: "string list option"
  it_specs :: "jsv dict option"
  it_smart :: "smart_power_strip option"
  it_properties :: "string dict option"
  it_ports :: "inventory_port list option"
  it_compatibility :: "inventory_compatibility option"
  it_fixedComponents :: "fixed_component list option"
  it_notes :: "string option"
  it_archivedAt :: "string option"

section \<open>Connections, placements, assignments\<close>

record conn_endpoint =
  ep_itemId :: string
  ep_portId :: js_id
  ep_endpointId :: "int option"
  ep_hostedItemId :: "string option"

datatype connection_type = CNetwork | CDisplay | CPower | COther
datatype route_side = SideLeft | SideRight | SideTop | SideBottom

record bend_point =
  bp_x :: rat
  bp_y :: rat

record route_prefs =
  rp_sourceSide :: "route_side option"
  rp_targetSide :: "route_side option"
  rp_bendPoints :: "bend_point list option"
  rp_avoidCableOverlap :: "bool option"

record connection =
  c_id :: int
  c_from :: conn_endpoint
  c_to :: conn_endpoint
  c_type :: connection_type
  c_negotiatedSpeedBps :: "int option"
  c_label :: "string option"
  c_route :: "route_prefs option"
  c_createdAt :: string

record placement =
  pl_serverId :: string
  pl_x :: rat
  pl_y :: rat

record assignment =
  as_id :: int
  as_serverId :: string
  as_itemId :: string
  as_type :: inventory_type
  as_assignedAt :: string
  as_allocation :: "allocation option"

record project_metadata =
  md_name :: string
  md_version :: int
  md_updatedAt :: string
  md_projectId :: "int option"
  md_workspaceId :: "int option"

record host_ref =
  hr_hostType :: inventory_type
  hr_hostId :: int

record compatibility_policy =
  po_disabledHosts :: "host_ref list"
  po_verifiedMemoryHosts :: "host_ref list option"
  po_ignoredWarningIds :: "string list"

record project =
  pr_id :: string
  pr_revision :: "int option"
  pr_nextAssignmentId :: "int option"
  pr_nextConnectionId :: "int option"
  pr_metadata :: project_metadata
  pr_items :: "inventory_item dict"
  pr_placements :: "placement list"
  pr_assignments :: "assignment list"
  pr_connections :: "connection list"
  pr_compatibilityPolicy :: "compatibility_policy option"

record slot_status =
  st_type :: inventory_type
  st_label :: string
  st_filled :: nat
  st_limit :: "rat option"

section \<open>PC build resources\<close>

record cpu_socket_group =
  cs_label :: string
  cs_count :: rat
  cs_socket :: string
  cs_supportedGenerations :: "string list option"
  cs_maxTdpWatts :: "rat option"

record memory_slot_group =
  ms_label :: string
  ms_count :: rat
  ms_generations :: "string list"
  ms_maxCapacityGb :: "rat option"
  ms_maxModuleCapacityGb :: "rat option"
  ms_maxSpeedMt :: "rat option"

record motherboard_resources =
  mr_cpuSockets :: "cpu_socket_group list"
  mr_memorySlots :: "memory_slot_group list"
  mr_storageSlots :: "storage_group list"
  mr_expansionSlots :: "expansion_group list"

record allocation_request =
  rq_componentType :: inventory_type
  rq_requiredPositions :: rat
  rq_motherboard :: inventory_item
  rq_assignments :: "assignment list"
  rq_requirements :: "jsv dict option"

text \<open>\<open>project.items[key]\<close>.\<close>

definition item_at :: "project \<Rightarrow> string \<Rightarrow> inventory_item option" where
  "item_at p k = map_of (pr_items p) k"

text \<open>\<open>{ ...project.items, [key]: item }\<close>.\<close>

definition set_item :: "string \<Rightarrow> inventory_item \<Rightarrow> project \<Rightarrow> project" where
  "set_item k i p = p\<lparr>pr_items := AList.update k i (pr_items p)\<rparr>"

lemma item_at_set_item: "item_at (set_item k i p) = (item_at p)(k \<mapsto> i)"
  by (rule ext) (simp add: item_at_def set_item_def update_conv')

lemma set_item_frame [frame_simps]:
  "pr_placements (set_item k i p) = pr_placements p"
  "pr_assignments (set_item k i p) = pr_assignments p"
  "pr_connections (set_item k i p) = pr_connections p"
  by (simp_all add: set_item_def)

end
