(* ===== verification/Item_Keys.thy ===== *)
theory Item_Keys
  imports Inventory_Types
begin

text \<open>
  Item keys and numeric ids: \<open>src/lib/item-keys.ts\<close>, \<open>src/lib/ids.ts\<close> and
  \<open>src/lib/inventory-capabilities.ts\<close>.  An item is known in a project by its runtime key
  \<open>type:id\<close>; the lemmas show that the key determines the type and the id and is read back by
  \<open>parseItemKey\<close>, that the table names of the stored inventory and the item types correspond,
  and that \<open>nextNumericId\<close> returns the least positive id that is not in use.
\<close>

section \<open>Names of the item types\<close>

fun type_name :: "inventory_type \<Rightarrow> string" where
  "type_name TServer = ''server''"
| "type_name TNas = ''nas''"
| "type_name TPcBuild = ''pcBuild''"
| "type_name TCpu = ''cpu''"
| "type_name TRam = ''ram''"
| "type_name TStorage = ''storage''"
| "type_name TGpu = ''gpu''"
| "type_name TNetwork = ''network''"
| "type_name TMotherboard = ''motherboard''"
| "type_name TCpuCooler = ''cpuCooler''"
| "type_name TCase = ''case''"
| "type_name TPowerSupply = ''powerSupply''"
| "type_name TSoundCard = ''soundCard''"
| "type_name TPowerAdapter = ''powerAdapter''"
| "type_name TSwitch = ''switch''"
| "type_name TPatchPanel = ''patchPanel''"
| "type_name TMonitor = ''monitor''"
| "type_name TUps = ''ups''"
| "type_name TPowerStrip = ''powerStrip''"

section \<open>Capabilities of the item types\<close>

definition HOST_TYPES :: "inventory_type list" where
  "HOST_TYPES = [TServer, TNas, TPcBuild]"

definition CANVAS_EQUIPMENT_TYPES :: "inventory_type list" where
  "CANVAS_EQUIPMENT_TYPES =
     HOST_TYPES @ [TSwitch, TPatchPanel, TMonitor, TUps, TPowerStrip]"

definition ASSIGNABLE_COMPONENT_TYPES :: "inventory_type list" where
  "ASSIGNABLE_COMPONENT_TYPES =
     [TCpu, TRam, TStorage, TGpu, TNetwork, TMotherboard, TCpuCooler, TCase, TPowerSupply,
      TSoundCard, TPowerAdapter]"

definition INVENTORY_TYPES :: "inventory_type list" where
  "INVENTORY_TYPES = CANVAS_EQUIPMENT_TYPES @ ASSIGNABLE_COMPONENT_TYPES"

definition isHostType :: "inventory_type \<Rightarrow> bool" where
  "isHostType t \<longleftrightarrow> t \<in> set HOST_TYPES"

definition isCanvasEquipmentType :: "inventory_type \<Rightarrow> bool" where
  "isCanvasEquipmentType t \<longleftrightarrow> t \<in> set CANVAS_EQUIPMENT_TYPES"

definition isAssignableComponentType :: "inventory_type \<Rightarrow> bool" where
  "isAssignableComponentType t \<longleftrightarrow> t \<in> set ASSIGNABLE_COMPONENT_TYPES"

datatype drag_role = DragEquipment | DragComponent

definition getInventoryDragRole :: "inventory_type \<Rightarrow> drag_role option" where
  "getInventoryDragRole t =
     (if isCanvasEquipmentType t then Some DragEquipment
      else if isAssignableComponentType t then Some DragComponent else None)"

text \<open>\<open>isInventoryType\<close> narrows a string, so it is the reading of a type name.\<close>

definition type_of_name :: "string \<Rightarrow> inventory_type option" where
  "type_of_name s = List.find (\<lambda>t. type_name t = s) INVENTORY_TYPES"

lemmas type_list_defs =
  HOST_TYPES_def CANVAS_EQUIPMENT_TYPES_def ASSIGNABLE_COMPONENT_TYPES_def INVENTORY_TYPES_def

lemmas capability_defs =
  isHostType_def isCanvasEquipmentType_def isAssignableComponentType_def type_list_defs

lemma inventory_types_complete: "t \<in> set INVENTORY_TYPES"
  by (cases t) (simp_all add: type_list_defs)

lemma type_name_inject [simp]: "type_name s = type_name t \<longleftrightarrow> s = t"
  by (cases s; cases t) simp_all

lemma type_name_plain: "type_name t \<noteq> [] \<and> CHR '':'' \<notin> set (type_name t)"
  by (cases t) simp_all

lemma type_of_name_type_name [simp]: "type_of_name (type_name t) = Some t"
  by (cases t) (simp_all add: type_of_name_def type_list_defs)

lemma type_of_name_Some: "type_of_name s = Some t \<Longrightarrow> s = type_name t"
  by (auto simp: type_of_name_def dest: find_Some_iff_first)

section \<open>Tables of the stored inventory\<close>

datatype table_key =
    TblServers | TblPcBuilds | TblCpus | TblRam | TblStorage | TblNetworkCards | TblGpus
  | TblMotherboards | TblCpuCoolers | TblCases | TblPowerSupplies | TblSoundCards
  | TblPowerAdapters | TblNas | TblSwitches | TblPatchPanels | TblMonitors | TblUpsSystems
  | TblPowerStrips

fun INVENTORY_TABLE_BY_TYPE :: "inventory_type \<Rightarrow> table_key" where
  "INVENTORY_TABLE_BY_TYPE TServer = TblServers"
| "INVENTORY_TABLE_BY_TYPE TPcBuild = TblPcBuilds"
| "INVENTORY_TABLE_BY_TYPE TCpu = TblCpus"
| "INVENTORY_TABLE_BY_TYPE TRam = TblRam"
| "INVENTORY_TABLE_BY_TYPE TStorage = TblStorage"
| "INVENTORY_TABLE_BY_TYPE TNetwork = TblNetworkCards"
| "INVENTORY_TABLE_BY_TYPE TGpu = TblGpus"
| "INVENTORY_TABLE_BY_TYPE TMotherboard = TblMotherboards"
| "INVENTORY_TABLE_BY_TYPE TCpuCooler = TblCpuCoolers"
| "INVENTORY_TABLE_BY_TYPE TCase = TblCases"
| "INVENTORY_TABLE_BY_TYPE TPowerSupply = TblPowerSupplies"
| "INVENTORY_TABLE_BY_TYPE TSoundCard = TblSoundCards"
| "INVENTORY_TABLE_BY_TYPE TPowerAdapter = TblPowerAdapters"
| "INVENTORY_TABLE_BY_TYPE TNas = TblNas"
| "INVENTORY_TABLE_BY_TYPE TSwitch = TblSwitches"
| "INVENTORY_TABLE_BY_TYPE TPatchPanel = TblPatchPanels"
| "INVENTORY_TABLE_BY_TYPE TMonitor = TblMonitors"
| "INVENTORY_TABLE_BY_TYPE TUps = TblUpsSystems"
| "INVENTORY_TABLE_BY_TYPE TPowerStrip = TblPowerStrips"

fun INVENTORY_TYPE_BY_TABLE :: "table_key \<Rightarrow> inventory_type" where
  "INVENTORY_TYPE_BY_TABLE TblServers = TServer"
| "INVENTORY_TYPE_BY_TABLE TblPcBuilds = TPcBuild"
| "INVENTORY_TYPE_BY_TABLE TblCpus = TCpu"
| "INVENTORY_TYPE_BY_TABLE TblRam = TRam"
| "INVENTORY_TYPE_BY_TABLE TblStorage = TStorage"
| "INVENTORY_TYPE_BY_TABLE TblNetworkCards = TNetwork"
| "INVENTORY_TYPE_BY_TABLE TblGpus = TGpu"
| "INVENTORY_TYPE_BY_TABLE TblMotherboards = TMotherboard"
| "INVENTORY_TYPE_BY_TABLE TblCpuCoolers = TCpuCooler"
| "INVENTORY_TYPE_BY_TABLE TblCases = TCase"
| "INVENTORY_TYPE_BY_TABLE TblPowerSupplies = TPowerSupply"
| "INVENTORY_TYPE_BY_TABLE TblSoundCards = TSoundCard"
| "INVENTORY_TYPE_BY_TABLE TblPowerAdapters = TPowerAdapter"
| "INVENTORY_TYPE_BY_TABLE TblNas = TNas"
| "INVENTORY_TYPE_BY_TABLE TblSwitches = TSwitch"
| "INVENTORY_TYPE_BY_TABLE TblPatchPanels = TPatchPanel"
| "INVENTORY_TYPE_BY_TABLE TblMonitors = TMonitor"
| "INVENTORY_TYPE_BY_TABLE TblUpsSystems = TUps"
| "INVENTORY_TYPE_BY_TABLE TblPowerStrips = TPowerStrip"

definition INVENTORY_TABLE_KEYS :: "table_key list" where
  "INVENTORY_TABLE_KEYS =
     [TblServers, TblPcBuilds, TblCpus, TblRam, TblStorage, TblNetworkCards, TblGpus,
      TblMotherboards, TblCpuCoolers, TblCases, TblPowerSupplies, TblSoundCards,
      TblPowerAdapters, TblNas, TblSwitches, TblPatchPanels, TblMonitors, TblUpsSystems,
      TblPowerStrips]"

lemma table_of_type: "INVENTORY_TYPE_BY_TABLE (INVENTORY_TABLE_BY_TYPE t) = t"
  by (cases t) simp_all

lemma type_of_table: "INVENTORY_TABLE_BY_TYPE (INVENTORY_TYPE_BY_TABLE k) = k"
  by (cases k) simp_all

section \<open>Keys\<close>

definition itemKey :: "inventory_type \<Rightarrow> js_id \<Rightarrow> string" where
  "itemKey t i = type_name t @ '':'' @ js_String i"

text \<open>\<open>const [type, rawId] = key.split(':')\<close>; the type is looked up among the values of
  \<open>INVENTORY_TYPE_BY_TABLE\<close>.\<close>

definition parseItemKey :: "string \<Rightarrow> (inventory_type \<times> int) option" where
  "parseItemKey key =
     (let parts = js_split (CHR '':'') key;
          ty = hd parts;
          rawId = (case tl parts of r # _ \<Rightarrow> Some (JStr r) | [] \<Rightarrow> None)
      in case js_Number rawId of
           None \<Rightarrow> None
         | Some n \<Rightarrow>
             (if ty = [] \<or> \<not> isInteger_rat n then None
              else case List.find (\<lambda>t. type_name t = ty)
                          (map INVENTORY_TYPE_BY_TABLE INVENTORY_TABLE_KEYS) of
                None \<Rightarrow> None
              | Some t \<Rightarrow> Some (t, \<lfloor>n\<rfloor>)))"

definition runtimeItemKey :: "inventory_item \<Rightarrow> string" where
  "runtimeItemKey item =
     (if truthy_str (it_key item) then the (it_key item)
      else case it_id item of
        IdStr s \<Rightarrow>
          (if parseItemKey s \<noteq> None then s
           else case js_Number (Some (JStr s)) of
             None \<Rightarrow> s
           | Some n \<Rightarrow> if \<not> isInteger_rat n then s else itemKey (it_type item) (IdStr s))
      | IdNum n \<Rightarrow> itemKey (it_type item) (IdNum n))"

lemma find_table_type:
  "List.find (\<lambda>t. t = s) (map INVENTORY_TYPE_BY_TABLE INVENTORY_TABLE_KEYS) = Some s"
  by (cases s) (simp_all add: INVENTORY_TABLE_KEYS_def)

lemma split_itemKey:
  "js_split (CHR '':'') (itemKey t (IdNum n)) = [type_name t, show_int n]"
  using type_name_plain [of t]
  by (simp add: itemKey_def js_split_sep js_split_no_sep)

lemma parseItemKey_itemKey: "parseItemKey (itemKey t (IdNum n)) = Some (t, n)"
  using type_name_plain [of t]
  by (simp add: parseItemKey_def split_itemKey string_to_number_show_int find_table_type)

lemma itemKey_inject: "itemKey s (IdNum m) = itemKey t (IdNum n) \<longleftrightarrow> s = t \<and> m = n"
  by (metis option.inject parseItemKey_itemKey prod.inject)

text \<open>\<open>parseItemKey\<close> reads back the type and the id that \<open>itemKey\<close> wrote, for every item type and
  every integer id, so that two items share a runtime key only when they have the same type and id.\<close>

theorem item_key_round_trip:
  "parseItemKey (itemKey t (IdNum n)) = Some (t, n)
     \<and> (itemKey s (IdNum m) = itemKey t (IdNum n) \<longleftrightarrow> s = t \<and> m = n)"
  by (simp add: parseItemKey_itemKey itemKey_inject)

section \<open>Numeric ids\<close>

text \<open>The search of \<open>nextNumericId\<close>: it compares the decimal renderings of ids and skips the
  ids in use.  The used ids are finitely many, so the search ends.\<close>

function next_free :: "string list \<Rightarrow> int \<Rightarrow> int" where
  "next_free used n = (if show_int n \<in> set used then next_free used (n + 1) else n)"
  by pat_completeness auto
termination
proof (relation "measure (\<lambda>(used, n). card {m. n \<le> m \<and> show_int m \<in> set used})", goal_cases)
  case 1
  show ?case by simp
next
  case (2 used n)
  have "finite (show_int -` set used)"
    by (intro finite_vimageI) (auto simp: inj_def)
  then have fin: "finite {m. n \<le> m \<and> show_int m \<in> set used}"
    by (rule finite_subset [rotated]) auto
  have "{m. n + 1 \<le> m \<and> show_int m \<in> set used} \<subset> {m. n \<le> m \<and> show_int m \<in> set used}"
    using 2 by (intro psubsetI) (auto simp: set_eq_iff intro!: exI [of _ n])
  with fin show ?case by (auto intro: psubset_card_mono)
qed

declare next_free.simps [simp del]

definition nextNumericId :: "js_id list \<Rightarrow> int" where
  "nextNumericId existing = next_free (filter (\<lambda>s. s \<noteq> []) (map js_String existing)) 1"

definition isRelationalId :: "jsv option \<Rightarrow> bool" where
  "isRelationalId v =
     (case v of Some (JNum r) \<Rightarrow> isSafeInteger_rat r \<and> 0 < r | _ \<Rightarrow> False)"

definition assertRelationalId :: "jsv option \<Rightarrow> string \<Rightarrow> string + int" where
  "assertRelationalId v field =
     (case v of
        Some (JNum r) \<Rightarrow>
          (if isRelationalId v then Inr \<lfloor>r\<rfloor>
           else Inl (field @ '' must be a positive safe-integer relational ID.''))
      | _ \<Rightarrow> Inl (field @ '' must be a positive safe-integer relational ID.''))"

lemma next_free_ge: "n \<le> next_free used n"
proof (induction used n rule: next_free.induct)
  case (1 used n)
  then show ?case by (cases "show_int n \<in> set used") (simp_all add: next_free.simps [of used n])
qed

lemma next_free_unused: "show_int (next_free used n) \<notin> set used"
proof (induction used n rule: next_free.induct)
  case (1 used n)
  then show ?case by (cases "show_int n \<in> set used") (simp_all add: next_free.simps [of used n])
qed

lemma next_free_least: "n \<le> m \<Longrightarrow> m < next_free used n \<Longrightarrow> show_int m \<in> set used"
proof (induction used n rule: next_free.induct)
  case (1 used n)
  show ?case
  proof (cases "show_int n \<in> set used")
    case True
    with "1" show ?thesis by (cases "m = n") (simp_all add: next_free.simps [of used n])
  next
    case False
    with "1" show ?thesis by (simp add: next_free.simps [of used n])
  qed
qed

lemma nextNumericId_fresh: "IdNum (nextNumericId ids) \<notin> set ids"
proof
  assume "IdNum (nextNumericId ids) \<in> set ids"
  then have "show_int (nextNumericId ids) \<in> set (filter (\<lambda>s. s \<noteq> []) (map js_String ids))"
    by (force simp: image_iff)
  then show False using next_free_unused by (simp only: nextNumericId_def)
qed

lemma nextNumericId_pos: "0 < nextNumericId ids"
  using next_free_ge [of 1 "filter (\<lambda>s. s \<noteq> []) (map js_String ids)"]
  by (simp add: nextNumericId_def)

interpretation least_id: id_supply "\<lambda>ids. nextNumericId (map IdNum ids)"
proof
  show "nextNumericId (map IdNum ids) \<notin> set ids" for ids
    using nextNumericId_fresh [of "map IdNum ids"] by auto
qed

text \<open>\<open>nextNumericId\<close> ends and returns the least positive integer whose decimal rendering is
  not the rendering of an existing id, numeric or legacy string.\<close>

theorem nextNumericId_least:
  "0 < nextNumericId ids \<and> show_int (nextNumericId ids) \<notin> js_String ` set ids
     \<and> (\<forall>m. 0 < m \<and> m < nextNumericId ids \<longrightarrow> show_int m \<in> js_String ` set ids)"
proof -
  let ?used = "filter (\<lambda>s. s \<noteq> []) (map js_String ids)"
  have "show_int m \<in> js_String ` set ids" if "0 < m" "m < nextNumericId ids" for m
    using next_free_least [of 1 m ?used] that by (simp add: nextNumericId_def)
  moreover have "show_int (nextNumericId ids) \<notin> js_String ` set ids"
    using next_free_unused [of ?used 1] by (simp add: nextNumericId_def)
  ultimately show ?thesis using nextNumericId_pos by blast
qed

theorem nextNumericId_least_witness:
  "show_int 2 \<in> js_String ` set [IdNum 1, IdStr ''2'']"
proof -
  have "nextNumericId [IdNum 1, IdStr ''2''] = 3" by code_simp
  then have "(0 :: int) < 2" "2 < nextNumericId [IdNum 1, IdStr ''2'']" by simp_all
  then show ?thesis using nextNumericId_least [of "[IdNum 1, IdStr ''2'']"] by blast
qed

end
