(* ===== verification/Sample_Project.thy ===== *)
theory Sample_Project
  imports Item_Keys
begin

text \<open>
  A small project on which the theorems with hypotheses are instantiated: two servers, a NAS, a PC
  build, a switch and some components; server 1 hosts a network card that is cabled to the switch.
\<close>

definition blank_item :: "inventory_type \<Rightarrow> int \<Rightarrow> inventory_item" where
  "blank_item t n =
     \<lparr>it_id = IdNum n, it_inventoryId = None, it_key = None,
      it_name = Some (type_name t), it_type = t, it_scope = None, it_ownerProjectId = None,
      it_hardwareClass = None, it_usageRole = None, it_subtype = None, it_manufacturer = None,
      it_secondaryManufacturer = None, it_family = None, it_model = None, it_number = None,
      it_aliases = None, it_specs = None, it_smart = None, it_properties = None,
      it_ports = None, it_compatibility = None, it_fixedComponents = None, it_notes = None,
      it_archivedAt = None\<rparr>"

definition blank_port :: "int \<Rightarrow> port_kind \<Rightarrow> port_type \<Rightarrow> inventory_port" where
  "blank_port n kind t =
     \<lparr>p_id = n, p_key = None, p_kind = kind, p_type = t, p_slotNumber = n, p_label = None,
      p_notes = None, p_ipAddress = None, p_macAddress = None, p_role = None,
      p_adminState = None, p_speed = None, p_speedBps = None, p_supportedSpeedsBps = None,
      p_networkTechnology = None, p_operatingModes = None, p_media = None, p_vendorLock = None,
      p_poe = None, p_origin = None, p_endpoints = None\<rparr>"

definition sample_endpoint :: "string \<Rightarrow> int \<Rightarrow> string option \<Rightarrow> conn_endpoint" where
  "sample_endpoint k n hosted =
     \<lparr>ep_itemId = k, ep_portId = IdNum n, ep_endpointId = None, ep_hostedItemId = hosted\<rparr>"

definition sample_connection :: "int \<Rightarrow> conn_endpoint \<Rightarrow> conn_endpoint \<Rightarrow> connection" where
  "sample_connection n e f =
     \<lparr>c_id = n, c_from = e, c_to = f, c_type = CNetwork, c_negotiatedSpeedBps = None,
      c_label = None, c_route = None, c_createdAt = ''t0''\<rparr>"

definition sample_assignment :: "int \<Rightarrow> string \<Rightarrow> string \<Rightarrow> inventory_type \<Rightarrow> assignment" where
  "sample_assignment n host item t =
     \<lparr>as_id = n, as_serverId = host, as_itemId = item, as_type = t, as_assignedAt = ''t0'',
      as_allocation = None\<rparr>"

definition sample_network :: inventory_item where
  "sample_network = (blank_item TNetwork 1)\<lparr>it_ports := Some [blank_port 1 KNetwork PRj45]\<rparr>"

definition sample_switch :: inventory_item where
  "sample_switch = (blank_item TSwitch 1)
     \<lparr>it_ports := Some [blank_port 1 KSwitchPort PRj45, blank_port 2 KSwitchPort PSfpPlus]\<rparr>"

definition sample_project :: project where
  "sample_project =
     \<lparr>pr_id = ''default'', pr_revision = Some 1, pr_nextAssignmentId = None,
      pr_nextConnectionId = None,
      pr_metadata = \<lparr>md_name = ''lab'', md_version = 1, md_updatedAt = ''t0'',
                     md_projectId = None, md_workspaceId = None\<rparr>,
      pr_items =
        [(''server:1'', blank_item TServer 1), (''server:2'', blank_item TServer 2),
         (''nas:1'', blank_item TNas 1), (''pcBuild:1'', blank_item TPcBuild 1),
         (''switch:1'', sample_switch), (''network:1'', sample_network),
         (''cpu:1'', blank_item TCpu 1), (''cpu:2'', blank_item TCpu 2),
         (''ram:1'', blank_item TRam 1)],
      pr_placements =
        [\<lparr>pl_serverId = ''server:1'', pl_x = 0, pl_y = 0\<rparr>,
         \<lparr>pl_serverId = ''switch:1'', pl_x = 400, pl_y = 0\<rparr>],
      pr_assignments =
        [sample_assignment 1 ''server:1'' ''network:1'' TNetwork,
         sample_assignment 2 ''server:1'' ''cpu:1'' TCpu],
      pr_connections =
        [sample_connection 1 (sample_endpoint ''server:1'' 1 (Some ''network:1''))
           (sample_endpoint ''switch:1'' 1 None)],
      pr_compatibilityPolicy = None\<rparr>"

lemmas sample_defs =
  sample_project_def sample_switch_def sample_network_def sample_assignment_def
  sample_connection_def sample_endpoint_def blank_port_def blank_item_def

end
