(* ===== verification/Project_State.thy ===== *)
theory Project_State
  imports Sample_Project
begin

text \<open>
  The project state and the operations on it: \<open>src/lib/project.ts\<close> without the card geometry.
  Each operation takes the project and returns the new one; the time that
  \<open>new Date().toISOString()\<close> reads is the argument \<open>now\<close>, a thrown error is the left of a sum.
  The lemmas show what each operation changes and keeps, that placements stay one per item, that
  an edit of an item never drops a port in use, and that \<open>endpointKey\<close> identifies endpoints.
\<close>

section \<open>Definitions\<close>

definition isCanvasItem :: "inventory_item option \<Rightarrow> bool" where
  "isCanvasItem i = (case i of None \<Rightarrow> False | Some it \<Rightarrow> isCanvasEquipmentType (it_type it))"

definition isArchivedItem :: "inventory_item option \<Rightarrow> bool" where
  "isArchivedItem i =
     (case i of
        None \<Rightarrow> False
      | Some it \<Rightarrow> (case it_archivedAt it of None \<Rightarrow> False | Some s \<Rightarrow> js_trim s \<noteq> []))"

definition createEmptyProject :: "string \<Rightarrow> inventory_item list \<Rightarrow> project" where
  "createEmptyProject now items =
     \<lparr>pr_id = ''default'', pr_revision = Some 1, pr_nextAssignmentId = None,
      pr_nextConnectionId = None,
      pr_metadata = \<lparr>md_name = ''Homelab Inventory'', md_version = 1, md_updatedAt = now,
                     md_projectId = None, md_workspaceId = None\<rparr>,
      pr_items = map_from (map (\<lambda>i. (runtimeItemKey i, i)) items),
      pr_placements = [], pr_assignments = [], pr_connections = [],
      pr_compatibilityPolicy = None\<rparr>"

definition touchProject :: "string \<Rightarrow> project \<Rightarrow> project" where
  "touchProject now p = p\<lparr>pr_metadata := (pr_metadata p)\<lparr>md_updatedAt := now\<rparr>\<rparr>"

definition connectionEndpointTargetsItem :: "conn_endpoint \<Rightarrow> string \<Rightarrow> bool" where
  "connectionEndpointTargetsItem e k \<longleftrightarrow>
     ep_hostedItemId e = Some k \<or> (ep_hostedItemId e = None \<and> ep_itemId e = k)"

subsection \<open>Returning equipment from the canvas to the inventory\<close>

record return_impact =
  ri_placementsRemoved :: nat
  ri_assignmentsReleased :: nat
  ri_connectionsRemoved :: nat

record return_transition =
  rt_placementIds :: "string set"
  rt_assignmentIds :: "int set"
  rt_connectionIds :: "int set"
  rt_impact :: return_impact

definition endpointTargetsReturnedGraph ::
  "string \<Rightarrow> string list \<Rightarrow> conn_endpoint \<Rightarrow> bool" where
  "endpointTargetsReturnedGraph k hosted e \<longleftrightarrow>
     ep_itemId e = k \<or> (\<exists>h \<in> set hosted. connectionEndpointTargetsItem e h)"

definition collectReturnCanvasItemTransition :: "project \<Rightarrow> string \<Rightarrow> return_transition option" where
  "collectReturnCanvasItemTransition p k =
     (if item_at p k = None then None
      else let placements = filter (\<lambda>pl. pl_serverId pl = k) (pr_placements p) in
        if placements = [] then None
        else let assignments = filter (\<lambda>a. as_serverId a = k) (pr_assignments p);
                 hosted = map as_itemId assignments;
                 connections = filter (\<lambda>c. endpointTargetsReturnedGraph k hosted (c_from c)
                                  \<or> endpointTargetsReturnedGraph k hosted (c_to c))
                                 (pr_connections p)
             in Some \<lparr>rt_placementIds = set (map pl_serverId placements),
                      rt_assignmentIds = set (map as_id assignments),
                      rt_connectionIds = set (map c_id connections),
                      rt_impact = \<lparr>ri_placementsRemoved = length placements,
                                   ri_assignmentsReleased = length assignments,
                                   ri_connectionsRemoved = length connections\<rparr>\<rparr>)"

definition getReturnCanvasItemImpact :: "project \<Rightarrow> string \<Rightarrow> return_impact option" where
  "getReturnCanvasItemImpact p k =
     map_option rt_impact (collectReturnCanvasItemTransition p k)"

definition returnCanvasItemToInventory ::
  "string \<Rightarrow> project \<Rightarrow> string \<Rightarrow> string + (project \<times> return_impact)" where
  "returnCanvasItemToInventory now p k =
     (case collectReturnCanvasItemTransition p k of
        None \<Rightarrow> Inl ''This item is no longer placed on the canvas.''
      | Some t \<Rightarrow> Inr (touchProject now (p\<lparr>
            pr_placements := filter (\<lambda>pl. pl_serverId pl \<notin> rt_placementIds t) (pr_placements p),
            pr_assignments := filter (\<lambda>a. as_id a \<notin> rt_assignmentIds t) (pr_assignments p),
            pr_connections := filter (\<lambda>c. c_id c \<notin> rt_connectionIds t) (pr_connections p)\<rparr>),
          rt_impact t))"

subsection \<open>Editing an item\<close>

text \<open>The check of one endpoint of a connection, \<open>Some\<close> of the message of the thrown error.\<close>

definition retained_error :: "inventory_port list \<Rightarrow> string \<Rightarrow> conn_endpoint \<Rightarrow> string option" where
  "retained_error ports k e =
     (if \<not> connectionEndpointTargetsItem e k then None
      else case List.find (\<lambda>q. js_String (IdNum (p_id q)) = js_String (ep_portId e)) ports of
        None \<Rightarrow> Some (''Cannot remove connected port '' @ js_String (ep_portId e)
                  @ ''. Disconnect it first.'')
      | Some port \<Rightarrow>
          (case ep_endpointId e of
             None \<Rightarrow> None
           | Some n \<Rightarrow>
               if \<not> list_ex (\<lambda>c. show_int (pe_id c) = show_int n) (nullish (p_endpoints port) [])
               then Some (''Cannot remove connected endpoint '' @ show_int n @ '' from port ''
                      @ js_String (ep_portId e) @ ''. Disconnect it first.'')
               else None))"

fun first_error :: "('a \<Rightarrow> 'e option) \<Rightarrow> 'a list \<Rightarrow> 'e option" where
  "first_error f [] = None"
| "first_error f (x # xs) = (case f x of None \<Rightarrow> first_error f xs | Some e \<Rightarrow> Some e)"

definition assertConnectedPortsRetained ::
  "project \<Rightarrow> string \<Rightarrow> inventory_item \<Rightarrow> string option" where
  "assertConnectedPortsRetained p k input =
     first_error (retained_error (nullish (it_ports input) []) k)
       (concat (map (\<lambda>c. [c_from c, c_to c]) (pr_connections p)))"

text \<open>\<open>InventoryItemInput\<close> has no id and no key: the model ignores those of \<open>input\<close>.\<close>

definition applyInventoryItemInput ::
  "string \<Rightarrow> project \<Rightarrow> string \<Rightarrow> inventory_item \<Rightarrow> string + project" where
  "applyInventoryItemInput now p k input =
     (case item_at p k of
        None \<Rightarrow> Inr p
      | Some item \<Rightarrow>
          (case assertConnectedPortsRetained p k input of
             Some err \<Rightarrow> Inl err
           | None \<Rightarrow> Inr (touchProject now
               (set_item k (input\<lparr>it_id := it_id item, it_key := it_key item\<rparr>) p))))"

subsection \<open>Placements\<close>

definition put_placement :: "placement \<Rightarrow> placement list \<Rightarrow> placement list" where
  "put_placement pl pls =
     (if list_ex (\<lambda>e. pl_serverId e = pl_serverId pl) pls
      then map (\<lambda>e. if pl_serverId e = pl_serverId pl then pl else e) pls
      else pls @ [pl])"

definition upsertPlacement :: "string \<Rightarrow> project \<Rightarrow> placement \<Rightarrow> project" where
  "upsertPlacement now p pl =
     (if isArchivedItem (item_at p (pl_serverId pl)) then p
      else touchProject now (p\<lparr>pr_placements := put_placement pl (pr_placements p)\<rparr>))"

definition merge_placements :: "placement list \<Rightarrow> placement list \<Rightarrow> placement list" where
  "merge_placements nextPls pls =
     (let placementMap = map_from (map (\<lambda>q. (pl_serverId q, q)) nextPls);
          existingIds = set (map pl_serverId pls)
      in map (\<lambda>q. nullish (map_of placementMap (pl_serverId q)) q) pls
         @ filter (\<lambda>q. pl_serverId q \<notin> existingIds) nextPls)"

definition upsertPlacements :: "string \<Rightarrow> project \<Rightarrow> placement list \<Rightarrow> project" where
  "upsertPlacements now p nextPls =
     (if nextPls = [] then p
      else if list_ex (\<lambda>pl. isArchivedItem (item_at p (pl_serverId pl))) nextPls then p
      else touchProject now (p\<lparr>pr_placements := merge_placements nextPls (pr_placements p)\<rparr>))"

subsection \<open>Fields of an item\<close>

definition dict_spread :: "'v dict \<Rightarrow> 'v dict \<Rightarrow> 'v dict" where
  "dict_spread m es = foldl (\<lambda>m (k, v). AList.update k v m) m es"

definition non_empty :: "'a list \<Rightarrow> 'a list option" where
  "non_empty xs = (if xs = [] then None else Some xs)"

definition updateItemProperties :: "string \<Rightarrow> project \<Rightarrow> string \<Rightarrow> string dict \<Rightarrow> project" where
  "updateItemProperties now p k props =
     (case item_at p k of
        None \<Rightarrow> p
      | Some item \<Rightarrow>
          (let nextProps = filter (\<lambda>(_, v). js_trim v \<noteq> [])
                             (dict_spread (nullish (it_properties item) []) props)
           in touchProject now (set_item k (item\<lparr>it_properties := non_empty nextProps\<rparr>) p)))"

datatype manufacturer_key = MkManufacturer | MkSecondary

definition updateItemManufacturer ::
  "string \<Rightarrow> project \<Rightarrow> string \<Rightarrow> string \<Rightarrow> manufacturer_key \<Rightarrow> project" where
  "updateItemManufacturer now p k manufacturer key =
     (case item_at p k of
        None \<Rightarrow> p
      | Some item \<Rightarrow>
          (let v = (if js_trim manufacturer = [] then None else Some manufacturer);
               nextItem = (case key of MkManufacturer \<Rightarrow> item\<lparr>it_manufacturer := v\<rparr>
                                     | MkSecondary \<Rightarrow> item\<lparr>it_secondaryManufacturer := v\<rparr>)
           in touchProject now (set_item k nextItem p)))"

datatype identity_key = IkName | IkManufacturer | IkModel | IkFamily | IkNumber

fun set_identity :: "identity_key \<Rightarrow> string option \<Rightarrow> inventory_item \<Rightarrow> inventory_item" where
  "set_identity IkName v i = i\<lparr>it_name := v\<rparr>"
| "set_identity IkManufacturer v i = i\<lparr>it_manufacturer := v\<rparr>"
| "set_identity IkModel v i = i\<lparr>it_model := v\<rparr>"
| "set_identity IkFamily v i = i\<lparr>it_family := v\<rparr>"
| "set_identity IkNumber v i = i\<lparr>it_number := v\<rparr>"

definition updateItemIdentity ::
  "string \<Rightarrow> project \<Rightarrow> string \<Rightarrow> (identity_key \<times> string option) list \<Rightarrow> project" where
  "updateItemIdentity now p k identity =
     (case item_at p k of
        None \<Rightarrow> p
      | Some item \<Rightarrow>
          touchProject now (set_item k
            (foldl (\<lambda>i (key, value). set_identity key
                (case value of None \<Rightarrow> None | Some v \<Rightarrow> if js_trim v \<noteq> [] then Some v else None) i)
              item identity) p))"

definition updateItemSpecs ::
  "string \<Rightarrow> project \<Rightarrow> string \<Rightarrow> (string \<times> jsv option) list \<Rightarrow> project" where
  "updateItemSpecs now p k specs =
     (case item_at p k of
        None \<Rightarrow> p
      | Some item \<Rightarrow>
          (let nextSpecs = foldl (\<lambda>m (key, value).
                  case value of None \<Rightarrow> AList.delete key m | Some v \<Rightarrow> AList.update key v m)
                (nullish (it_specs item) []) specs
           in touchProject now (set_item k (item\<lparr>it_specs := non_empty nextSpecs\<rparr>) p)))"

definition updateItemPorts :: "string \<Rightarrow> project \<Rightarrow> string \<Rightarrow> inventory_port list \<Rightarrow> project" where
  "updateItemPorts now p k ports =
     (case item_at p k of
        None \<Rightarrow> p
      | Some item \<Rightarrow> touchProject now (set_item k (item\<lparr>it_ports := Some ports\<rparr>) p))"

subsection \<open>Endpoints and ports\<close>

definition endpointKey :: "conn_endpoint \<Rightarrow> string" where
  "endpointKey e = js_join '':''
     [ep_itemId e, nullish (ep_hostedItemId e) ''direct'', js_String (ep_portId e),
      (case ep_endpointId e of None \<Rightarrow> ''port'' | Some n \<Rightarrow> show_int n)]"

text \<open>\<open>s.split('::')\<close>.\<close>

fun split_double_colon :: "string \<Rightarrow> string list" where
  "split_double_colon [] = [[]]"
| "split_double_colon [c] = [[c]]"
| "split_double_colon (c # d # cs) =
     (if c = CHR '':'' \<and> d = CHR '':'' then [] # split_double_colon cs
      else case split_double_colon (d # cs) of [] \<Rightarrow> [[c]] | q # qs \<Rightarrow> (c # q) # qs)"

definition falsy_id :: "js_id option \<Rightarrow> bool" where
  "falsy_id i = (case i of None \<Rightarrow> True | Some (IdNum n) \<Rightarrow> n = 0 | Some (IdStr s) \<Rightarrow> s = [])"

definition getHostedConnectionPort :: "project \<Rightarrow> conn_endpoint \<Rightarrow> inventory_port option" where
  "getHostedConnectionPort p e =
     (case item_at p (ep_itemId e) of
        None \<Rightarrow> None
      | Some host \<Rightarrow>
          if it_type host \<noteq> TNas \<and> it_type host \<noteq> TServer then None
          else
            let legacyPortId = js_String (ep_portId e);
                legacy = (if js_includes legacyPortId ''::'' then split_double_colon legacyPortId
                          else []);
                legacyComponentItemId = (case legacy of a # b # _ \<Rightarrow> Some a | _ \<Rightarrow> None);
                legacyHostedPortId = (case legacy of a # b # _ \<Rightarrow> Some (IdStr b) | _ \<Rightarrow> None);
                componentItemId = (case ep_hostedItemId e of
                    Some h \<Rightarrow> Some h | None \<Rightarrow> legacyComponentItemId);
                hostedPortId = (if truthy_str (ep_hostedItemId e) then Some (ep_portId e)
                                else legacyHostedPortId)
            in if \<not> truthy_str componentItemId \<or> falsy_id hostedPortId then None
               else if isArchivedItem (item_at p (the componentItemId)) then None
               else case List.find (\<lambda>a. as_serverId a = ep_itemId e
                        \<and> as_itemId a = the componentItemId
                        \<and> (as_type a = TNetwork \<or> as_type a = TGpu)) (pr_assignments p) of
                 None \<Rightarrow> None
               | Some _ \<Rightarrow>
                   (case item_at p (the componentItemId) of
                      None \<Rightarrow> None
                    | Some component \<Rightarrow>
                        List.find (\<lambda>q. js_String (IdNum (p_id q)) = js_String (the hostedPortId))
                          (nullish (it_ports component) [])))"

definition getConnectionPort :: "project \<Rightarrow> conn_endpoint \<Rightarrow> inventory_port option" where
  "getConnectionPort p e =
     (let item = item_at p (ep_itemId e) in
      if isArchivedItem item then None
      else
        let direct = (case item of None \<Rightarrow> None | Some it \<Rightarrow>
                List.find (\<lambda>q. js_String (IdNum (p_id q)) = js_String (ep_portId e))
                  (nullish (it_ports it) []));
            resolved = (if truthy_str (ep_hostedItemId e) then getHostedConnectionPort p e
                        else case direct of Some q \<Rightarrow> Some q
                               | None \<Rightarrow> getHostedConnectionPort p e)
        in case resolved of
             None \<Rightarrow> None
           | Some port \<Rightarrow>
               if truthy_num (ep_endpointId e)
                  \<and> \<not> list_ex (\<lambda>c. Some (pe_id c) = ep_endpointId e) (nullish (p_endpoints port) [])
               then None
               else if \<not> truthy_num (ep_endpointId e) \<and> nullish (p_endpoints port) [] \<noteq> []
               then None
               else Some port)"

subsection \<open>Assignments and placed items\<close>

definition removeAssignment :: "string \<Rightarrow> project \<Rightarrow> js_id \<Rightarrow> project" where
  "removeAssignment now p i =
     touchProject now (p\<lparr>pr_assignments :=
       filter (\<lambda>a. js_String (IdNum (as_id a)) \<noteq> js_String i) (pr_assignments p)\<rparr>)"

definition getPlacedServerIds :: "project \<Rightarrow> string list" where
  "getPlacedServerIds p = js_uniq (map pl_serverId
     (filter (\<lambda>pl. map_option it_type (item_at p (pl_serverId pl)) = Some TServer)
        (pr_placements p)))"

definition getPlacedCanvasItemIds :: "project \<Rightarrow> string list" where
  "getPlacedCanvasItemIds p = js_uniq (map pl_serverId (pr_placements p))"

definition getAssignedItemIds :: "project \<Rightarrow> string list" where
  "getAssignedItemIds p = js_uniq (map as_itemId (pr_assignments p))"

section \<open>Lemmas\<close>

lemma touchProject_frame [simp]:
  "pr_items (touchProject now p) = pr_items p"
  "pr_placements (touchProject now p) = pr_placements p"
  "pr_assignments (touchProject now p) = pr_assignments p"
  "pr_connections (touchProject now p) = pr_connections p"
  "pr_compatibilityPolicy (touchProject now p) = pr_compatibilityPolicy p"
  "pr_nextAssignmentId (touchProject now p) = pr_nextAssignmentId p"
  by (simp_all add: touchProject_def)

lemma touchProject_idem [simp]: "touchProject now (touchProject t p) = touchProject now p"
  by (simp add: touchProject_def)

lemma touchProject_placements:
  "touchProject now ((touchProject now p)\<lparr>pr_placements := x\<rparr>)
     = touchProject now (p\<lparr>pr_placements := x\<rparr>)"
  by (simp add: touchProject_def)

lemma item_at_touch [simp]: "item_at (touchProject now p) k = item_at p k"
  by (simp add: item_at_def)

lemma item_at_cong [simp]:
  "item_at (p\<lparr>pr_placements := x\<rparr>) k = item_at p k"
  "item_at (p\<lparr>pr_assignments := y\<rparr>) k = item_at p k"
  "item_at (p\<lparr>pr_connections := z\<rparr>) k = item_at p k"
  by (simp_all add: item_at_def)

lemma isArchivedItem_None [simp]: "\<not> isArchivedItem None"
  by (simp add: isArchivedItem_def)

subsection \<open>Removal by id\<close>

text \<open>Filtering by the ids of the records that satisfy a predicate removes exactly these records
  when ids are unique.\<close>

lemma filter_ids_exact:
  assumes "distinct (map f xs)"
  shows "filter (\<lambda>x. f x \<notin> set (map f (filter P xs))) xs = filter (\<lambda>x. \<not> P x) xs"
proof (rule filter_cong [OF refl])
  fix x assume x: "x \<in> set xs"
  have "P x" if "y \<in> set xs" "P y" "f x = f y" for y
    using assms x that by (auto simp: distinct_map dest: inj_onD)
  with x show "(f x \<notin> set (map f (filter P xs))) = (\<not> P x)" by auto
qed

lemma length_filter_complement:
  "length (filter P xs) = length xs - length (filter (\<lambda>x. \<not> P x) xs)"
  using sum_length_filter_compl [of P xs] by simp

lemma filter_keys_exact: 
  "filter (\<lambda>x. f x \<notin> set (map f (filter (\<lambda>y. f y = k) xs))) xs = filter (\<lambda>x. f x \<noteq> k) xs"
  by (rule filter_cong) auto

lemma collect_None_iff:
  "collectReturnCanvasItemTransition p k = None \<longleftrightarrow>
     item_at p k = None \<or> k \<notin> set (map pl_serverId (pr_placements p))"
  by (auto simp: collectReturnCanvasItemTransition_def filter_empty_conv)

lemma return_canvas_item_shape:
  assumes "distinct (map as_id (pr_assignments p))" "distinct (map c_id (pr_connections p))"
    and "returnCanvasItemToInventory now p k = Inr (q, impact)"
  defines "G \<equiv> \<lambda>c. \<exists>e \<in> {c_from c, c_to c}. endpointTargetsReturnedGraph k
      (map as_itemId (filter (\<lambda>a. as_serverId a = k) (pr_assignments p))) e"
  shows "q = touchProject now (p\<lparr>
           pr_placements := filter (\<lambda>pl. pl_serverId pl \<noteq> k) (pr_placements p),
           pr_assignments := filter (\<lambda>a. as_serverId a \<noteq> k) (pr_assignments p),
           pr_connections := filter (\<lambda>c. \<not> G c) (pr_connections p)\<rparr>)"
    and "impact = \<lparr>
           ri_placementsRemoved =
             length (pr_placements p) - length (filter (\<lambda>pl. pl_serverId pl \<noteq> k) (pr_placements p)),
           ri_assignmentsReleased =
             length (pr_assignments p) - length (filter (\<lambda>a. as_serverId a \<noteq> k) (pr_assignments p)),
           ri_connectionsRemoved =
             length (pr_connections p) - length (filter (\<lambda>c. \<not> G c) (pr_connections p))\<rparr>"
proof -
  let ?A = "filter (\<lambda>a. as_serverId a = k) (pr_assignments p)"
  have G: "G = (\<lambda>c. endpointTargetsReturnedGraph k (map as_itemId ?A) (c_from c)
              \<or> endpointTargetsReturnedGraph k (map as_itemId ?A) (c_to c))"
    by (auto simp: G_def)
  have "q = touchProject now (p\<lparr>
      pr_placements := filter (\<lambda>pl. pl_serverId pl \<notin> set (map pl_serverId
         (filter (\<lambda>pl. pl_serverId pl = k) (pr_placements p)))) (pr_placements p),
      pr_assignments := filter (\<lambda>a. as_id a \<notin> set (map as_id ?A)) (pr_assignments p),
      pr_connections := filter (\<lambda>c. c_id c \<notin> set (map c_id (filter G (pr_connections p))))
         (pr_connections p)\<rparr>)"
    and im: "impact = \<lparr>
      ri_placementsRemoved = length (filter (\<lambda>pl. pl_serverId pl = k) (pr_placements p)),
      ri_assignmentsReleased = length ?A,
      ri_connectionsRemoved = length (filter G (pr_connections p))\<rparr>"
    using assms(3) unfolding G
    by (simp_all only: returnCanvasItemToInventory_def collectReturnCanvasItemTransition_def
        Let_def split: if_splits) auto
  then show "q = touchProject now (p\<lparr>
           pr_placements := filter (\<lambda>pl. pl_serverId pl \<noteq> k) (pr_placements p),
           pr_assignments := filter (\<lambda>a. as_serverId a \<noteq> k) (pr_assignments p),
           pr_connections := filter (\<lambda>c. \<not> G c) (pr_connections p)\<rparr>)"
    by (simp only: filter_keys_exact filter_ids_exact [OF assms(1)] filter_ids_exact [OF assms(2)])
  show "impact = \<lparr>
           ri_placementsRemoved =
             length (pr_placements p) - length (filter (\<lambda>pl. pl_serverId pl \<noteq> k) (pr_placements p)),
           ri_assignmentsReleased =
             length (pr_assignments p) - length (filter (\<lambda>a. as_serverId a \<noteq> k) (pr_assignments p)),
           ri_connectionsRemoved =
             length (pr_connections p) - length (filter (\<lambda>c. \<not> G c) (pr_connections p))\<rparr>"
    using length_filter_complement [of "\<lambda>pl. pl_serverId pl = k" "pr_placements p"]
      length_filter_complement [of "\<lambda>a. as_serverId a = k" "pr_assignments p"]
      length_filter_complement [of G "pr_connections p"]
    by (simp only: im)
qed

text \<open>C36: Returning a canvas item to the inventory removes exactly its placements, the assignments
  it hosts and the connections that end at it or at a component it hosts, keeps everything else in
  order, and reports the numbers it removed, in a project whose assignment and connection ids are
  unique.\<close>

theorem return_canvas_item_exact:
  assumes "distinct (map as_id (pr_assignments p))" "distinct (map c_id (pr_connections p))"
    and "returnCanvasItemToInventory now p k = Inr (q, impact)"
  shows "pr_items q = pr_items p
    \<and> pr_placements q = filter (\<lambda>pl. pl_serverId pl \<noteq> k) (pr_placements p)
    \<and> pr_assignments q = filter (\<lambda>a. as_serverId a \<noteq> k) (pr_assignments p)
    \<and> pr_connections q = filter (\<lambda>c. \<forall>e \<in> {c_from c, c_to c}. ep_itemId e \<noteq> k \<and>
         (\<forall>a \<in> set (pr_assignments p). as_serverId a = k \<longrightarrow>
            \<not> connectionEndpointTargetsItem e (as_itemId a))) (pr_connections p)
    \<and> ri_placementsRemoved impact = length (pr_placements p) - length (pr_placements q)
    \<and> ri_assignmentsReleased impact = length (pr_assignments p) - length (pr_assignments q)
    \<and> ri_connectionsRemoved impact = length (pr_connections p) - length (pr_connections q)"
  unfolding return_canvas_item_shape [OF assms]
  by (auto simp: endpointTargetsReturnedGraph_def intro!: filter_cong)

theorem return_canvas_item_exact_witness:
  "\<exists>q impact. returnCanvasItemToInventory ''t1'' sample_project ''server:1'' = Inr (q, impact)
     \<and> pr_assignments q = [] \<and> ri_connectionsRemoved impact = 1"
proof -
  obtain q impact where r:
      "returnCanvasItemToInventory ''t1'' sample_project ''server:1'' = Inr (q, impact)"
    by (cases "returnCanvasItemToInventory ''t1'' sample_project ''server:1''")
      (auto simp: returnCanvasItemToInventory_def collectReturnCanvasItemTransition_def
        item_at_def sample_defs)
  have d: "distinct (map as_id (pr_assignments sample_project))"
      "distinct (map c_id (pr_connections sample_project))"
    by (simp_all add: sample_defs)
  from return_canvas_item_exact [OF d r] r show ?thesis
    by (auto simp: sample_defs connectionEndpointTargetsItem_def)
qed

text \<open>Returning an item fails, with the message the interface shows, exactly when the project
  has no such item or no placement of it.\<close>

theorem return_canvas_item_fails_iff:
  "returnCanvasItemToInventory now p k = Inl ''This item is no longer placed on the canvas.''
     \<longleftrightarrow> \<not> (item_at p k \<noteq> None \<and> k \<in> set (map pl_serverId (pr_placements p)))"
  using collect_None_iff [of p k]
  by (auto simp: returnCanvasItemToInventory_def split: option.splits)

lemma not_isl_obtain: "\<not> isl x \<Longrightarrow> (\<And>r. x = Inr r \<Longrightarrow> thesis) \<Longrightarrow> thesis"
  by (cases x) auto

subsection \<open>Editing keeps the ports in use\<close>

lemma first_error_None: "first_error f xs = None \<longleftrightarrow> (\<forall>x \<in> set xs. f x = None)"
  by (induction xs) (auto split: option.splits)

text \<open>The port of an item that an endpoint names.\<close>

definition port_named :: "inventory_item \<Rightarrow> conn_endpoint \<Rightarrow> inventory_port \<Rightarrow> bool" where
  "port_named it e q \<longleftrightarrow> q \<in> set (nullish (it_ports it) [])
     \<and> js_String (IdNum (p_id q)) = js_String (ep_portId e)
     \<and> (case ep_endpointId e of None \<Rightarrow> True
        | Some n \<Rightarrow> n \<in> set (map pe_id (nullish (p_endpoints q) [])))"

lemma retained_error_None:
  assumes "retained_error (nullish (it_ports it) []) k e = None" "connectionEndpointTargetsItem e k"
  shows "\<exists>q. port_named it e q"
  using assms
  by (auto simp: retained_error_def port_named_def list_ex_iff
      split: option.splits if_splits dest!: find_Some_iff_first)

lemma applyInventoryItemInput_Inr:
  assumes "applyInventoryItemInput now p k input = Inr q" "item_at p k = Some item"
  shows "assertConnectedPortsRetained p k input = None"
    and "q = touchProject now (set_item k (input\<lparr>it_id := it_id item, it_key := it_key item\<rparr>) p)"
  using assms by (auto simp: applyInventoryItemInput_def split: option.splits)

text \<open>C39: An accepted edit of an item keeps the item's id and key, changes no other item, no
  placement, no assignment and no connection, and the edited item still has the port, and the port
  still has the endpoint, of every connection that ends at the item.\<close>

theorem edit_keeps_connected_ports:
  assumes "applyInventoryItemInput now p k input = Inr q" "item_at p k = Some item"
  shows "\<exists>new. item_at q = (item_at p)(k \<mapsto> new) \<and> it_id new = it_id item \<and> it_key new = it_key item
    \<and> pr_placements q = pr_placements p \<and> pr_assignments q = pr_assignments p
    \<and> pr_connections q = pr_connections p
    \<and> (\<forall>c \<in> set (pr_connections q). \<forall>e \<in> {c_from c, c_to c}.
         connectionEndpointTargetsItem e k \<longrightarrow> (\<exists>port. port_named new e port))"
proof -
  let ?new = "input\<lparr>it_id := it_id item, it_key := it_key item\<rparr>"
  have q: "q = touchProject now (set_item k ?new p)"
    and ok: "assertConnectedPortsRetained p k input = None"
    using applyInventoryItemInput_Inr [OF assms] by auto
  have port: "\<exists>port. port_named ?new e port"
    if "c \<in> set (pr_connections p)" "e \<in> {c_from c, c_to c}" "connectionEndpointTargetsItem e k"
    for c e
    using retained_error_None [of ?new k e] ok that
    by (auto simp: assertConnectedPortsRetained_def first_error_None)
  show ?thesis
    using port by (intro exI [of _ ?new]) (auto simp: q item_at_set_item set_item_frame fun_eq_iff)
qed

theorem edit_keeps_connected_ports_witness:
  "\<exists>q. applyInventoryItemInput ''t1'' sample_project ''switch:1'' sample_switch = Inr q
     \<and> pr_connections q = pr_connections sample_project"
proof -
  have i: "item_at sample_project ''switch:1'' = Some sample_switch"
    by (simp add: item_at_def sample_project_def)
  have "\<not> isl (applyInventoryItemInput ''t1'' sample_project ''switch:1'' sample_switch)"
    by code_simp
  then obtain q where q:
      "applyInventoryItemInput ''t1'' sample_project ''switch:1'' sample_switch = Inr q"
    by (rule not_isl_obtain)
  from edit_keeps_connected_ports [OF q i] q show ?thesis by blast
qed

subsection \<open>Placements\<close>

abbreviation placement_keys :: "placement list \<Rightarrow> string list" where
  "placement_keys pls \<equiv> map pl_serverId pls"

definition placement_at :: "placement list \<Rightarrow> string \<Rightarrow> (rat \<times> rat) option" where
  "placement_at pls = map_of (map (\<lambda>q. (pl_serverId q, (pl_x q, pl_y q))) pls)"

lemma put_placement_eq:
  "put_placement pl pls =
     (if pl_serverId pl \<in> set (placement_keys pls)
      then map (\<lambda>e. if pl_serverId e = pl_serverId pl then pl else e) pls else pls @ [pl])"
proof -
  have "list_ex (\<lambda>e. pl_serverId e = pl_serverId pl) pls
      \<longleftrightarrow> pl_serverId pl \<in> set (placement_keys pls)"
    by (auto simp: list_ex_iff) (metis imageI)
  then show ?thesis by (simp only: put_placement_def)
qed

lemma put_placement_keys:
  "placement_keys (put_placement pl pls) =
     (if pl_serverId pl \<in> set (placement_keys pls) then placement_keys pls
      else placement_keys pls @ [pl_serverId pl])"
  by (auto simp: put_placement_eq)

lemma placement_at_simps [simp]:
  "placement_at [] k = None"
  "placement_at (q # pls) k = (if k = pl_serverId q then Some (pl_x q, pl_y q) else placement_at pls k)"
  by (simp_all add: placement_at_def)

lemma placement_at_replace:
  "k = pl_serverId pl \<Longrightarrow>
   placement_at (map (\<lambda>e. if pl_serverId e = k then pl else e) pls) j =
     (if j = k \<and> placement_at pls k \<noteq> None then Some (pl_x pl, pl_y pl) else placement_at pls j)"
  by (induction pls) auto

lemma placement_at_append:
  "placement_at (pls @ [pl]) k =
     (case placement_at pls k of
        None \<Rightarrow> if k = pl_serverId pl then Some (pl_x pl, pl_y pl) else None
      | Some xy \<Rightarrow> Some xy)"
  by (induction pls) simp_all

lemma placement_key_iff: "k \<in> set (placement_keys pls) \<longleftrightarrow> placement_at pls k \<noteq> None"
  by (induction pls) auto

lemma placement_at_put:
  "placement_at (put_placement pl pls) = (placement_at pls)(pl_serverId pl \<mapsto> (pl_x pl, pl_y pl))"
proof
  fix k
  show "placement_at (put_placement pl pls) k
      = ((placement_at pls)(pl_serverId pl \<mapsto> (pl_x pl, pl_y pl))) k"
    unfolding put_placement_eq placement_key_iff
    by (auto simp: placement_at_replace placement_at_append split: option.splits)
qed

interpretation placement_store: keyed_store placement_at
  "\<lambda>k xy. put_placement \<lparr>pl_serverId = k, pl_x = fst xy, pl_y = snd xy\<rparr>"
  "\<lambda>k. filter (\<lambda>q. pl_serverId q \<noteq> k)"
  "\<lambda>pls. distinct (placement_keys pls)"
proof
  fix pls :: "placement list" and k and xy :: "rat \<times> rat"
  show "placement_at (put_placement \<lparr>pl_serverId = k, pl_x = fst xy, pl_y = snd xy\<rparr> pls)
      = (placement_at pls)(k \<mapsto> xy)"
    by (simp add: placement_at_put)
  show "placement_at (filter (\<lambda>q. pl_serverId q \<noteq> k) pls) = (placement_at pls)(k := None)"
    by (rule ext, induction pls) auto
  assume "distinct (placement_keys pls)"
  then show "distinct (placement_keys (put_placement \<lparr>pl_serverId = k, pl_x = fst xy, pl_y = snd xy\<rparr> pls))"
    and "distinct (placement_keys (filter (\<lambda>q. pl_serverId q \<noteq> k) pls))"
    by (auto simp: put_placement_keys distinct_map_filter_neq)
qed

lemma merge_placements_Nil: "merge_placements [] pls = pls"
  by (simp add: merge_placements_def map_from_def)

lemma merge_placements_snoc:
  assumes "pl_serverId x \<notin> set (placement_keys xs)"
  shows "merge_placements (xs @ [x]) pls = put_placement x (merge_placements xs pls)"
proof -
  let ?m = "\<lambda>xs. map_of (map_from (map (\<lambda>q. (pl_serverId q, q)) xs))"
  have m: "?m (xs @ [x]) = (?m xs)(pl_serverId x \<mapsto> x)"
    by (auto simp: map_of_map_from fun_eq_iff)
  have none: "?m xs (pl_serverId x) = None"
    using assms by (auto simp: map_of_map_from map_of_eq_None_iff rev_map [symmetric] image_iff)
  have key: "pl_serverId (nullish (?m xs (pl_serverId q)) q) = pl_serverId q" for q
    by (auto simp: map_of_map_from nullish_def split: option.splits dest!: map_of_SomeD)
  let ?new = "filter (\<lambda>q. pl_serverId q \<notin> set (placement_keys pls))"
  have split: "merge_placements ys pls = map (\<lambda>q. nullish (?m ys (pl_serverId q)) q) pls @ ?new ys"
    for ys by (simp add: merge_placements_def)
  have keys: "pl_serverId x \<in> set (placement_keys (merge_placements xs pls))
      \<longleftrightarrow> pl_serverId x \<in> set (placement_keys pls)"
    using assms by (auto simp: split key image_iff)
  show ?thesis
  proof (cases "pl_serverId x \<in> set (placement_keys pls)")
    case True
    have "?new (xs @ [x]) = ?new xs" using True by simp
    moreover have "map (\<lambda>e. if pl_serverId e = pl_serverId x then x else e) (?new xs) = ?new xs"
      using True by (auto intro!: map_idI)
    ultimately show ?thesis
      unfolding put_placement_eq keys using True
      by (simp add: split key none map_from_snoc update_conv')
  next
    case False
    then have "map (\<lambda>q. nullish (?m (xs @ [x]) (pl_serverId q)) q) pls
        = map (\<lambda>q. nullish (?m xs (pl_serverId q)) q) pls"
      unfolding m by (intro map_cong refl) (fastforce simp: image_iff)
    with False show ?thesis
      unfolding put_placement_eq keys by (simp add: split)
  qed
qed

lemma merge_placements_foldl:
  "distinct (placement_keys nextPls) \<Longrightarrow>
     merge_placements nextPls pls = foldl (\<lambda>pls q. put_placement q pls) pls nextPls"
proof (induction nextPls rule: rev_induct)
  case Nil
  show ?case by (simp add: merge_placements_Nil)
next
  case (snoc x xs)
  then show ?case by (simp add: merge_placements_snoc)
qed

lemma foldl_upsertPlacement:
  assumes "\<forall>pl \<in> set pls. \<not> isArchivedItem (item_at p (pl_serverId pl))" "pls \<noteq> []"
  shows "foldl (upsertPlacement now) p pls = touchProject now (p\<lparr>pr_placements :=
           foldl (\<lambda>qs q. put_placement q qs) (pr_placements p) pls\<rparr>)"
  using assms
proof (induction pls rule: rev_induct)
  case Nil
  then show ?case by simp
next
  case (snoc x xs)
  then show ?case
    by (cases "xs = []")
      (simp_all add: upsertPlacement_def touchProject_placements)
qed

text \<open>Placing a batch of items at once gives the same project as placing them one after the
  other, when the batch names each item once and none of them is archived.\<close>

theorem upsertPlacements_sequential:
  assumes "distinct (placement_keys pls)"
    and "\<forall>pl \<in> set pls. \<not> isArchivedItem (item_at p (pl_serverId pl))"
  shows "upsertPlacements now p pls = foldl (upsertPlacement now) p pls"
proof (cases "pls = []")
  case True
  then show ?thesis by (simp add: upsertPlacements_def)
next
  case False
  with assms show ?thesis
    by (simp add: upsertPlacements_def foldl_upsertPlacement merge_placements_foldl list_ex_iff)
qed

theorem upsertPlacements_sequential_witness:
  "upsertPlacements ''t1'' sample_project [\<lparr>pl_serverId = ''nas:1'', pl_x = 1, pl_y = 2\<rparr>]
     = upsertPlacement ''t1'' sample_project \<lparr>pl_serverId = ''nas:1'', pl_x = 1, pl_y = 2\<rparr>"
proof -
  let ?pls = "[\<lparr>pl_serverId = ''nas:1'', pl_x = 1, pl_y = 2\<rparr>]"
  have "distinct (placement_keys ?pls)" by simp
  moreover have "\<forall>pl \<in> set ?pls. \<not> isArchivedItem (item_at sample_project (pl_serverId pl))"
    by (simp add: isArchivedItem_def item_at_def sample_defs)
  ultimately show ?thesis
    using upsertPlacements_sequential [of ?pls sample_project "''t1''"] by simp
qed

subsection \<open>Fields of an item\<close>

lemma dict_spread_put_all: "dict_spread m es = js_map.put_all es m"
  by (simp add: dict_spread_def js_map.put_all_def)

lemma nullish_non_empty [simp]: "nullish (non_empty xs) [] = xs"
  by (simp add: non_empty_def)

lemma map_of_filter_value:
  "distinct (map fst m) \<Longrightarrow>
     map_of (filter (\<lambda>(_, v). P v) m) k = (case map_of m k of Some v \<Rightarrow> if P v then Some v else None | None \<Rightarrow> None)"
  by (induction m) (auto split: option.splits simp: map_of_eq_None_iff image_iff)

lemma updated_properties:
  assumes "item_at p k = Some item" "distinct (map fst (nullish (it_properties item) []))"
    and "item_at (updateItemProperties now p k props) k = Some new"
  shows "new = item\<lparr>it_properties := it_properties new\<rparr>
    \<and> (\<forall>name. map_of (nullish (it_properties new) []) name =
         (case (map_of (nullish (it_properties item) []) ++ map_of (rev props)) name of
            Some v \<Rightarrow> if js_trim v \<noteq> [] then Some v else None
          | None \<Rightarrow> None))"
proof -
  let ?old = "nullish (it_properties item) []"
  have d: "distinct (map fst (dict_spread ?old props))"
    using assms(2) by (simp add: dict_spread_put_all js_map.ok_put_all)
  have new: "new = item\<lparr>it_properties :=
      non_empty (filter (\<lambda>(_, v). js_trim v \<noteq> []) (dict_spread ?old props))\<rparr>"
    using assms(1,3) by (simp add: updateItemProperties_def item_at_set_item)
  have "map_of (dict_spread ?old props) = map_of ?old ++ map_of (rev props)"
    using assms(2) by (simp add: dict_spread_put_all js_map.get_put_all)
  with new show ?thesis
    by (simp add: map_of_filter_value [OF d])
qed

text \<open>Updating the properties of an item overwrites the properties it names, the last value
  given winning, keeps the others, drops every property whose value is blank, and changes nothing
  else of the item.\<close>

theorem updateItemProperties_spec:
  assumes "item_at p k = Some item" "distinct (map fst (nullish (it_properties item) []))"
    and "item_at (updateItemProperties now p k props) k = Some new"
  shows "new = item\<lparr>it_properties := it_properties new\<rparr>
    \<and> (\<forall>name. map_of (nullish (it_properties new) []) name =
         (case (map_of (nullish (it_properties item) []) ++ map_of (rev props)) name of
            Some v \<Rightarrow> if js_trim v \<noteq> [] then Some v else None
          | None \<Rightarrow> None))"
  using assms by (rule updated_properties)

theorem updateItemProperties_spec_witness:
  "\<exists>new. item_at (updateItemProperties ''t1'' sample_project ''nas:1''
        [(''bay'', ''3''), (''note'', '' '')]) ''nas:1'' = Some new
     \<and> map_of (nullish (it_properties new) []) ''note'' = None"
proof -
  let ?q = "updateItemProperties ''t1'' sample_project ''nas:1'' [(''bay'', ''3''), (''note'', '' '')]"
  have i: "item_at sample_project ''nas:1'' = Some (blank_item TNas 1)"
    by (simp add: item_at_def sample_project_def)
  have d: "distinct (map fst (nullish (it_properties (blank_item TNas 1)) []))"
    by (simp add: blank_item_def)
  obtain new where new: "item_at ?q ''nas:1'' = Some new"
    by (simp add: updateItemProperties_def i item_at_set_item)
  from updateItemProperties_spec [OF i d new] new show ?thesis
    by (simp add: blank_item_def js_trim_def is_js_space_def)
qed

subsection \<open>Resolving an endpoint to a port\<close>

lemma getHostedConnectionPort_Some:
  assumes "getHostedConnectionPort p e = Some port"
  shows "\<exists>a \<in> set (pr_assignments p). \<exists>owner.
     as_serverId a = ep_itemId e \<and> (as_type a = TNetwork \<or> as_type a = TGpu)
   \<and> (\<forall>h. ep_hostedItemId e = Some h \<longrightarrow> as_itemId a = h)
   \<and> item_at p (as_itemId a) = Some owner \<and> \<not> isArchivedItem (Some owner)
   \<and> port \<in> set (nullish (it_ports owner) [])"
  using assms unfolding getHostedConnectionPort_def
  by (fastforce split: option.splits if_splits dest!: find_Some_iff_first)

text \<open>A connection endpoint resolves only to a port that exists: a port of the endpoint's own
  item, or a port of a network or graphics card assigned to it; neither the item nor the card is
  archived, and an endpoint that names a side of the port finds that side.\<close>

theorem getConnectionPort_sound:
  assumes "getConnectionPort p e = Some port"
  shows "(\<exists>owner. port \<in> set (nullish (it_ports owner) []) \<and> \<not> isArchivedItem (Some owner)
      \<and> (item_at p (ep_itemId e) = Some owner
         \<or> (\<exists>a \<in> set (pr_assignments p). as_serverId a = ep_itemId e
              \<and> (as_type a = TNetwork \<or> as_type a = TGpu) \<and> item_at p (as_itemId a) = Some owner)))
    \<and> \<not> isArchivedItem (item_at p (ep_itemId e))
    \<and> (truthy_num (ep_endpointId e) \<longrightarrow>
         the (ep_endpointId e) \<in> set (map pe_id (nullish (p_endpoints port) [])))"
proof -
  let ?item = "item_at p (ep_itemId e)"
  have arch: "\<not> isArchivedItem ?item"
    using assms by (auto simp: getConnectionPort_def)
  have side: "truthy_num (ep_endpointId e) \<Longrightarrow>
      the (ep_endpointId e) \<in> set (map pe_id (nullish (p_endpoints port) []))"
    using assms
    by (force simp: getConnectionPort_def list_ex_iff truthy_num_def image_iff
        split: option.splits if_splits)
  have "getHostedConnectionPort p e = Some port
      \<or> (\<exists>it. ?item = Some it \<and> port \<in> set (nullish (it_ports it) []))"
    using assms
    by (auto simp: getConnectionPort_def split: option.splits if_splits dest!: find_Some_iff_first)
  with arch side show ?thesis
    using getHostedConnectionPort_Some [of p e port] by fastforce
qed

theorem getConnectionPort_sound_witness:
  "getConnectionPort sample_project (sample_endpoint ''server:1'' 1 (Some ''network:1''))
      = Some (blank_port 1 KNetwork PRj45)
   \<and> \<not> isArchivedItem (item_at sample_project ''server:1'')"
proof -
  let ?e = "sample_endpoint ''server:1'' 1 (Some ''network:1'')"
  have r: "getConnectionPort sample_project ?e = Some (blank_port 1 KNetwork PRj45)"
    by code_simp
  from getConnectionPort_sound [OF r] r show ?thesis by (simp add: sample_endpoint_def)
qed

subsection \<open>Keys of endpoints\<close>

lemma js_split_append: "js_split d (s @ d # t) = js_split d s @ js_split d t"
proof (induction s)
  case (Cons c s)
  then show ?case by (cases "js_split d s") auto
qed simp

definition canonical_key :: "string \<Rightarrow> bool" where
  "canonical_key k = (case parseItemKey k of None \<Rightarrow> False | Some (t, n) \<Rightarrow> k = itemKey t (IdNum n))"

definition wf_endpoint :: "conn_endpoint \<Rightarrow> bool" where
  "wf_endpoint e \<longleftrightarrow> canonical_key (ep_itemId e)
     \<and> (case ep_hostedItemId e of None \<Rightarrow> True | Some h \<Rightarrow> canonical_key h)
     \<and> (case ep_portId e of IdNum _ \<Rightarrow> True | IdStr _ \<Rightarrow> False)"

lemma split_canonical:
  "canonical_key k \<Longrightarrow> \<exists>t n. k = itemKey t (IdNum n) \<and> js_split (CHR '':'') k = [type_name t, show_int n]"
  by (auto simp: canonical_key_def split_itemKey split: option.splits)

definition endpoint_tail :: "conn_endpoint \<Rightarrow> string" where
  "endpoint_tail e = (case ep_endpointId e of None \<Rightarrow> ''port'' | Some n \<Rightarrow> show_int n)"

lemma colon_notin_tail: "CHR '':'' \<notin> set (endpoint_tail e)"
  by (simp add: endpoint_tail_def split: option.splits)

lemma show_int_first: "show_int n = c # cs \<Longrightarrow> c = CHR ''-'' \<or> is_digit c"
  using show_nat_digits [of "nat n"] by (auto simp: show_int_def split: if_splits)

lemma endpoint_tail_inject: "endpoint_tail e = endpoint_tail f \<longleftrightarrow> ep_endpointId e = ep_endpointId f"
proof -
  have "show_int n \<noteq> ''port''" for n
    using show_int_first [of n "CHR ''p''" "''ort''"] by (auto simp: is_digit_def)
  moreover from this have "''port'' \<noteq> show_int n" for n by metis
  ultimately show ?thesis by (auto simp: endpoint_tail_def split: option.splits)
qed

lemma split_endpointKey:
  assumes "wf_endpoint e"
  shows "js_split (CHR '':'') (endpointKey e) =
     js_split (CHR '':'') (ep_itemId e)
     @ (case ep_hostedItemId e of None \<Rightarrow> [''direct''] | Some h \<Rightarrow> js_split (CHR '':'') h)
     @ [js_String (ep_portId e), endpoint_tail e]"
proof -
  obtain n where n: "ep_portId e = IdNum n"
    using assms by (auto simp: wf_endpoint_def split: js_id.splits)
  show ?thesis
    by (simp add: endpointKey_def endpoint_tail_def [symmetric] js_split_append n js_split_no_sep
        colon_notin_tail split: option.splits)
qed

text \<open>\<open>endpointKey\<close> gives different keys to different endpoints, when the item keys in them are
  canonical and the port id is a number; the lookup tables indexed by it therefore never confuse
  two endpoints.\<close>

theorem endpointKey_injective:
  assumes "wf_endpoint e" "wf_endpoint f" "endpointKey e = endpointKey f"
  shows "e = f"
proof -
  obtain m n where port: "ep_portId e = IdNum m" "ep_portId f = IdNum n"
    using assms(1,2) by (auto simp: wf_endpoint_def split: js_id.splits)
  obtain t a u b where item: "ep_itemId e = itemKey t (IdNum a)" "ep_itemId f = itemKey u (IdNum b)"
    using assms(1,2) by (auto simp: wf_endpoint_def dest!: split_canonical)
  have hosted: "\<And>h. ep_hostedItemId e = Some h \<Longrightarrow> \<exists>t n. h = itemKey t (IdNum n)"
      "\<And>h. ep_hostedItemId f = Some h \<Longrightarrow> \<exists>t n. h = itemKey t (IdNum n)"
    using assms(1,2) by (auto simp: wf_endpoint_def dest!: split_canonical)
  have eq: "js_split (CHR '':'') (endpointKey e) = js_split (CHR '':'') (endpointKey f)"
    using assms(3) by simp
  have "ep_itemId e = ep_itemId f" "ep_hostedItemId e = ep_hostedItemId f"
      "ep_portId e = ep_portId f" "ep_endpointId e = ep_endpointId f"
    using eq hosted
    unfolding split_endpointKey [OF assms(1)] split_endpointKey [OF assms(2)]
    by (auto simp: item port split_itemKey endpoint_tail_inject split: option.splits)
  then show ?thesis by simp
qed

theorem endpointKey_injective_witness:
  "sample_endpoint ''switch:1'' 1 None \<noteq> sample_endpoint ''switch:1'' 2 None
   \<and> endpointKey (sample_endpoint ''switch:1'' 1 None) \<noteq> endpointKey (sample_endpoint ''switch:1'' 2 None)"
proof -
  have wf: "wf_endpoint (sample_endpoint ''switch:1'' 1 None)"
      "wf_endpoint (sample_endpoint ''switch:1'' 2 None)"
    by code_simp+
  have ne: "sample_endpoint ''switch:1'' 1 None \<noteq> sample_endpoint ''switch:1'' 2 None"
    by (simp add: sample_endpoint_def)
  then have "endpointKey (sample_endpoint ''switch:1'' 1 None)
      \<noteq> endpointKey (sample_endpoint ''switch:1'' 2 None)"
    using endpointKey_injective [OF wf] by blast
  with ne show ?thesis by simp
qed

end
