(* ===== verification/Pc_Resources.thy ===== *)
theory Pc_Resources
  imports Project_State
begin

text \<open>
  The positions that a PC build's motherboard offers and their allocation:
  \<open>src/lib/pc-build-resources.ts\<close>.  \<open>allocatePcBuildResource\<close> takes the first free
  positions of the first matching group, \<open>validatePersistedAllocation\<close> checks a stored
  allocation.  The lemmas show that an allocation is valid for the request that produced it, that
  it never overlaps the assignments it was made against, and that it is found whenever a matching
  group has room.
\<close>

section \<open>Definitions\<close>

subsection \<open>Reading values\<close>

definition positiveInteger_opt :: "jsv option \<Rightarrow> int option" where
  "positiveInteger_opt v =
     (case js_Number v of
        None \<Rightarrow> None
      | Some r \<Rightarrow> if isSafeInteger_rat r \<and> 0 < r then Some \<lfloor>r\<rfloor> else None)"

definition optionalNumber :: "jsv option \<Rightarrow> rat option" where
  "optionalNumber v =
     (if v = None \<or> v = Some JNull \<or> v = Some (JStr []) then None else js_Number v)"

definition stringArray :: "string list option \<Rightarrow> string list" where
  "stringArray v = (case v of None \<Rightarrow> [] | Some xs \<Rightarrow> filter (\<lambda>s. js_trim s \<noteq> []) xs)"

definition normalized_text :: "jsv option \<Rightarrow> string option" where
  "normalized_text v =
     (case v of
        Some (JStr s) \<Rightarrow> if js_trim s \<noteq> [] then Some (js_lower (js_trim s)) else None
      | _ \<Rightarrow> None)"

definition includesNormalized :: "string list option \<Rightarrow> jsv option \<Rightarrow> bool" where
  "includesNormalized values v =
     (normalized_text v \<noteq> None \<and>
      list_ex (\<lambda>s. normalized_text (Some (JStr s)) = normalized_text v) (nullish values []))"

text \<open>\<open>a ?? b\<close> on values: \<open>null\<close> and \<open>undefined\<close> fall through.\<close>

definition nullish_jsv :: "jsv option \<Rightarrow> jsv option \<Rightarrow> jsv option" where
  "nullish_jsv a b = (if a = None \<or> a = Some JNull then b else a)"

definition spec_of :: "inventory_item \<Rightarrow> string \<Rightarrow> jsv option" where
  "spec_of i k = (case it_specs i of None \<Rightarrow> None | Some m \<Rightarrow> map_of m k)"

fun family_name :: "interface_family \<Rightarrow> string" where
  "family_name IfPcie = ''pcie''"
| "family_name IfM2ae = ''m2-ae''"
| "family_name IfM2bm = ''m2-bm''"
| "family_name IfMiniPcie = ''mini-pcie''"
| "family_name IfUsb = ''usb''"
| "family_name IfOcp = ''ocp''"
| "family_name IfMezzanine = ''mezzanine''"
| "family_name IfOnboard = ''onboard''"
| "family_name IfProprietary = ''proprietary''"

fun height_name :: "card_height \<Rightarrow> string" where
  "height_name FullHeight = ''full-height''"
| "height_name LowProfile = ''low-profile''"

subsection \<open>Resource groups\<close>

datatype resource_group =
    CpuGroup cpu_socket_group
  | MemoryGroup memory_slot_group
  | StorageGroup storage_group
  | ExpansionGroup expansion_group

fun group_count :: "resource_group \<Rightarrow> rat" where
  "group_count (CpuGroup g) = cs_count g"
| "group_count (MemoryGroup g) = ms_count g"
| "group_count (StorageGroup g) = sg_count g"
| "group_count (ExpansionGroup g) = eg_count g"

definition LOGICAL_RESOURCE_TYPES :: "(inventory_type \<times> resource_type) list" where
  "LOGICAL_RESOURCE_TYPES =
     [(TMotherboard, ResMotherboard), (TPowerSupply, ResPower), (TCase, ResCase)]"

definition cloneStorageGroup :: "storage_group \<Rightarrow> storage_group option" where
  "cloneStorageGroup g =
     (case positiveInteger_opt (Some (JNum (sg_count g))) of
        None \<Rightarrow> None
      | Some n \<Rightarrow>
          if \<not> isSafeInteger (sg_id g) \<or> sg_id g < 1 \<or> sg_key g = [] \<or> sg_label g = [] then None
          else Some (g\<lparr>sg_count := of_int n\<rparr>))"

definition cloneExpansionGroup :: "expansion_group \<Rightarrow> expansion_group option" where
  "cloneExpansionGroup g =
     (case positiveInteger_opt (Some (JNum (eg_count g))) of
        None \<Rightarrow> None
      | Some n \<Rightarrow>
          if \<not> isSafeInteger (eg_id g) \<or> eg_id g < 1 \<or> eg_key g = [] \<or> eg_label g = []
             \<or> eg_interfaceFamily g = None then None
          else Some (g\<lparr>eg_count := of_int n\<rparr>))"

definition item_host :: "inventory_item \<Rightarrow> host_compatibility option" where
  "item_host i = (case it_compatibility i of None \<Rightarrow> None | Some c \<Rightarrow> compat_host c)"

definition board_socket_count :: "inventory_item \<Rightarrow> int" where
  "board_socket_count item =
     (case positiveInteger_opt
             (map_option JNum (Option.bind (Option.bind (item_host item) host_cpu) hc_socketCount)) of
        Some n \<Rightarrow> n
      | None \<Rightarrow> nullish (positiveInteger_opt
           (nullish_jsv (spec_of item ''cpuSocketCount'') (spec_of item ''cpuSockets''))) 1)"

definition motherboardResources :: "inventory_item \<Rightarrow> motherboard_resources" where
  "motherboardResources item =
     (let host = item_host item;
          cpu = Option.bind host host_cpu;
          memory = Option.bind host host_memory;
          sockets = stringArray (Option.bind cpu hc_sockets);
          socketCount = board_socket_count item;
          memoryCount = positiveInteger_opt (map_option JNum (Option.bind memory hm_slots))
      in \<lparr>mr_cpuSockets =
            (case sockets of
               [] \<Rightarrow> []
             | s # _ \<Rightarrow>
                 [\<lparr>cs_label = (if socketCount = 1 then ''CPU socket'' else ''CPU sockets''),
                   cs_count = of_int socketCount, cs_socket = s,
                   cs_supportedGenerations =
                     (case Option.bind cpu hc_generations of
                        Some (g # gs) \<Rightarrow> Some (g # gs) | _ \<Rightarrow> None),
                   cs_maxTdpWatts = Option.bind cpu hc_maxTdpWatts\<rparr>]),
          mr_memorySlots =
            (case memoryCount of
               None \<Rightarrow> []
             | Some n \<Rightarrow>
                 [\<lparr>ms_label = ''DIMM slots'', ms_count = of_int n,
                   ms_generations = stringArray (Option.bind memory hm_generations),
                   ms_maxCapacityGb = Option.bind memory hm_maxCapacityGb,
                   ms_maxModuleCapacityGb = Option.bind memory hm_maxModuleCapacityGb,
                   ms_maxSpeedMt = Option.bind memory hm_maxSpeedMt\<rparr>]),
          mr_storageSlots =
            List.map_filter cloneStorageGroup (nullish (Option.bind host host_storageSlots) []),
          mr_expansionSlots =
            List.map_filter cloneExpansionGroup (nullish (Option.bind host host_expansionSlots) [])\<rparr>)"

subsection \<open>Occupied and free positions\<close>

definition occupiedPositions ::
  "assignment list \<Rightarrow> resource_type \<Rightarrow> int option \<Rightarrow> int set" where
  "occupiedPositions as res gid =
     set (concat (map (\<lambda>a.
        case as_allocation a of
          None \<Rightarrow> []
        | Some al \<Rightarrow>
            if al_resourceType al \<noteq> res \<or> al_groupId al \<noteq> gid then []
            else filter (\<lambda>n. isSafeInteger n \<and> 0 \<le> n) (al_positions al)) as))"

definition resourceTypeFor :: "inventory_type \<Rightarrow> resource_type option" where
  "resourceTypeFor t =
     (if t = TCpu then Some ResCpu
      else if t = TCpuCooler then Some ResCooling
      else if t = TRam then Some ResMemory
      else if t = TStorage then Some ResStorage
      else if t \<in> {TGpu, TNetwork, TSoundCard} then Some ResExpansion
      else map_of LOGICAL_RESOURCE_TYPES t)"

definition groupsFor :: "inventory_type \<Rightarrow> motherboard_resources \<Rightarrow> resource_group list" where
  "groupsFor t res =
     (if t = TCpu then map CpuGroup (mr_cpuSockets res)
      else if t = TCpuCooler then map CpuGroup (mr_cpuSockets res)
      else if t = TRam then map MemoryGroup (mr_memorySlots res)
      else if t = TStorage then map StorageGroup (mr_storageSlots res)
      else if t \<in> {TGpu, TNetwork, TSoundCard} then map ExpansionGroup (mr_expansionSlots res)
      else [])"

text \<open>The cast to a slot group reads \<open>id\<close>, which the other groups do not have.\<close>

fun groupIdFor :: "resource_type \<Rightarrow> resource_group \<Rightarrow> int option" where
  "groupIdFor res (StorageGroup g) =
     (if res = ResStorage \<or> res = ResExpansion then Some (sg_id g) else None)"
| "groupIdFor res (ExpansionGroup g) =
     (if res = ResStorage \<or> res = ResExpansion then Some (eg_id g) else None)"
| "groupIdFor res (CpuGroup g) = None"
| "groupIdFor res (MemoryGroup g) = None"

definition le_opt :: "rat option \<Rightarrow> rat option \<Rightarrow> bool" where
  "le_opt a b = (case (a, b) of (Some x, Some y) \<Rightarrow> x \<le> y | _ \<Rightarrow> True)"

text \<open>Values of an array requirement: \<open>Array.isArray(v) \<and> v.some(f)\<close>.\<close>

definition array_some :: "(jsv option \<Rightarrow> bool) \<Rightarrow> jsv option \<Rightarrow> bool" where
  "array_some f v =
     (case v of None \<Rightarrow> True | Some (JArr xs) \<Rightarrow> list_ex (\<lambda>x. f (Some x)) xs | Some _ \<Rightarrow> False)"

fun groupMatches :: "inventory_type \<Rightarrow> resource_group \<Rightarrow> jsv dict \<Rightarrow> bool" where
  "groupMatches t (CpuGroup cpu) reqs =
     (t = TCpuCooler \<or>
      ((map_of reqs ''socket'' = None
          \<or> normalized_text (Some (JStr (cs_socket cpu))) = normalized_text (map_of reqs ''socket''))
       \<and> (map_of reqs ''generation'' = None
          \<or> includesNormalized (cs_supportedGenerations cpu) (map_of reqs ''generation''))
       \<and> le_opt (optionalNumber (map_of reqs ''tdpWatts'')) (cs_maxTdpWatts cpu)))"
| "groupMatches t (MemoryGroup memory) reqs =
     ((map_of reqs ''generation'' = None
         \<or> includesNormalized (Some (ms_generations memory)) (map_of reqs ''generation''))
      \<and> le_opt (optionalNumber (map_of reqs ''moduleCapacityGb'')) (ms_maxModuleCapacityGb memory)
      \<and> le_opt (optionalNumber (map_of reqs ''speedMt'')) (ms_maxSpeedMt memory))"
| "groupMatches t (StorageGroup storage) reqs =
     (array_some (includesNormalized (sg_interfaces storage)) (map_of reqs ''interfaces'')
      \<and> array_some (includesNormalized (sg_formFactors storage)) (map_of reqs ''formFactors''))"
| "groupMatches t (ExpansionGroup expansion) reqs =
     ((map_of reqs ''interfaceFamily'' = None
         \<or> normalized_text (map_option (\<lambda>f. JStr (family_name f)) (eg_interfaceFamily expansion))
             = normalized_text (map_of reqs ''interfaceFamily''))
      \<and> le_opt (optionalNumber (map_of reqs ''connectorLanes'')) (eg_mechanicalLanes expansion)
      \<and> (map_of reqs ''height'' = None
         \<or> includesNormalized (map_option (map height_name) (eg_acceptedHeights expansion))
             (map_of reqs ''height''))
      \<and> le_opt (optionalNumber (map_of reqs ''slotWidth'')) (eg_maxSlotWidth expansion))"

text \<open>The loop of \<open>firstFreePositions\<close> from \<open>position\<close> with the positions found so far.\<close>

function free_from :: "rat \<Rightarrow> int set \<Rightarrow> rat \<Rightarrow> int \<Rightarrow> int list \<Rightarrow> int list" where
  "free_from cnt occ req position found =
     (if of_int position < cnt \<and> of_nat (length found) < req
      then free_from cnt occ req (position + 1)
             (if position \<notin> occ then found @ [position] else found)
      else found)"
  by pat_completeness auto
termination
proof (relation "measure (\<lambda>(cnt, occ, req, position, found). nat (\<lceil>cnt\<rceil> - position))", goal_cases)
  case 1
  show ?case by simp
next
  case (2 cnt occ req position found)
  then have "position < \<lceil>cnt\<rceil>" by (simp add: less_ceiling_iff)
  then show ?case by simp
qed

declare free_from.simps [simp del]

definition firstFreePositions :: "rat \<Rightarrow> int set \<Rightarrow> rat \<Rightarrow> int list" where
  "firstFreePositions cnt occ req = free_from cnt occ req 0 []"

fun resource_label :: "resource_type \<Rightarrow> string" where
  "resource_label ResCpu = ''CPU socket''"
| "resource_label ResMemory = ''memory''"
| "resource_label ResStorage = ''storage''"
| "resource_label ResExpansion = ''expansion''"
| "resource_label ResOptionalModule = ''optional module''"
| "resource_label ResControllerSlot = ''controller''"
| "resource_label ResBootDeviceSlot = ''boot device''"
| "resource_label ResCoolingProfile = ''cooling profile''"
| "resource_label ResMotherboard = ''motherboard''"
| "resource_label ResCooling = ''cooling''"
| "resource_label ResPower = ''power supply''"
| "resource_label ResCase = ''case''"

definition noCapacityMessage :: "resource_type \<Rightarrow> string" where
  "noCapacityMessage res =
     ''No available '' @ resource_label res @ '' positions can satisfy this component.''"

subsection \<open>Allocation\<close>

text \<open>The loop over the groups: the first matching group with enough free positions.\<close>

fun allocate_in_groups ::
  "allocation_request \<Rightarrow> resource_type \<Rightarrow> resource_group list \<Rightarrow> string + allocation" where
  "allocate_in_groups r res [] = Inl (noCapacityMessage res)"
| "allocate_in_groups r res (g # gs) =
     (if \<not> groupMatches (rq_componentType r) g (nullish (rq_requirements r) [])
      then allocate_in_groups r res gs
      else
        let gid = groupIdFor res g;
            positions = firstFreePositions (group_count g)
                          (occupiedPositions (rq_assignments r) res gid) (rq_requiredPositions r)
        in if of_nat (length positions) = rq_requiredPositions r
           then Inr \<lparr>al_resourceType = res, al_groupId = gid, al_positions = positions\<rparr>
           else allocate_in_groups r res gs)"

definition allocatePcBuildResource :: "allocation_request \<Rightarrow> string + allocation" where
  "allocatePcBuildResource r =
     (case resourceTypeFor (rq_componentType r) of
        None \<Rightarrow> Inl (''Component type '' @ type_name (rq_componentType r)
                  @ '' does not use a PC Build resource.'')
      | Some res \<Rightarrow>
          if \<not> isSafeInteger_rat (rq_requiredPositions r) \<or> rq_requiredPositions r < 1
          then Inl ''Required positions must be a positive whole number.''
          else if rq_componentType r \<in> set (map fst LOGICAL_RESOURCE_TYPES)
          then let positions = firstFreePositions 1
                     (occupiedPositions (rq_assignments r) res None) (rq_requiredPositions r)
               in if of_nat (length positions) = rq_requiredPositions r
                  then Inr \<lparr>al_resourceType = res, al_groupId = None, al_positions = positions\<rparr>
                  else Inl (noCapacityMessage res)
          else allocate_in_groups r res
                 (groupsFor (rq_componentType r) (motherboardResources (rq_motherboard r))))"

definition validatePersistedAllocation :: "allocation_request \<Rightarrow> allocation \<Rightarrow> bool" where
  "validatePersistedAllocation r al =
     (case resourceTypeFor (rq_componentType r) of
        None \<Rightarrow> False
      | Some res \<Rightarrow>
          if al_resourceType al \<noteq> res
             \<or> of_nat (length (al_positions al)) \<noteq> rq_requiredPositions r
             \<or> \<not> distinct (al_positions al)
             \<or> list_ex (\<lambda>n. \<not> isSafeInteger n \<or> n < 0) (al_positions al)
          then False
          else if rq_componentType r \<in> set (map fst LOGICAL_RESOURCE_TYPES)
          then al_groupId al = None \<and> list_all (\<lambda>n. n < 1) (al_positions al)
               \<and> list_all (\<lambda>n. n \<notin> occupiedPositions (rq_assignments r) res None) (al_positions al)
          else
            let groups = groupsFor (rq_componentType r) (motherboardResources (rq_motherboard r));
                reqs = nullish (rq_requirements r) []
            in if res \<noteq> ResStorage \<and> res \<noteq> ResExpansion
               then al_groupId al = None \<and>
                 (case List.find (\<lambda>g. groupMatches (rq_componentType r) g reqs) groups of
                    None \<Rightarrow> False
                  | Some g \<Rightarrow>
                      list_all (\<lambda>n. of_int n < group_count g
                          \<and> n \<notin> occupiedPositions (rq_assignments r) res None) (al_positions al))
               else al_groupId al \<noteq> None \<and>
                 (case List.find (\<lambda>g. groupIdFor res g = al_groupId al) groups of
                    None \<Rightarrow> False
                  | Some g \<Rightarrow>
                      groupMatches (rq_componentType r) g reqs
                      \<and> list_all (\<lambda>n. of_int n < group_count g
                          \<and> n \<notin> occupiedPositions (rq_assignments r) res (al_groupId al))
                          (al_positions al)))"

text \<open>The positions of a group of \<open>cnt\<close> that are still free, the specification of the search.\<close>

definition free_positions :: "rat \<Rightarrow> int set \<Rightarrow> int set" where
  "free_positions cnt occ = {n. 0 \<le> n \<and> of_int n < cnt \<and> n \<notin> occ}"

subsection \<open>A board to instantiate the theorems on\<close>

definition blank_host :: host_compatibility where
  "blank_host =
     \<lparr>host_topologyCompleteness = None, host_cpu = None, host_memory = None,
      host_storageSlots = None, host_expansionSlots = None, host_optionalModuleSlots = None,
      host_controllerSlots = None, host_bootDeviceSlots = None, host_coolingProfiles = None,
      host_management = None, host_constraintGroups = None, host_fixedPorts = None,
      host_powerConnectors = None, host_power = None, host_maxExpansionPowerWatts = None\<rparr>"

definition sample_storage_group :: "int \<Rightarrow> rat \<Rightarrow> string \<Rightarrow> storage_group" where
  "sample_storage_group n cnt iface =
     \<lparr>sg_id = n, sg_key = iface, sg_label = iface, sg_count = cnt, sg_interfaces = Some [iface],
      sg_formFactors = None, sg_pcieGeneration = None, sg_location = None, sg_hotSwap = None,
      sg_backplane = None, sg_controllerSlotIds = None, sg_directConnect = None\<rparr>"

definition sample_board :: inventory_item where
  "sample_board = (blank_item TMotherboard 1)
     \<lparr>it_specs := Some [(''cpuSocketCount'', JNum 2)],
      it_compatibility := Some \<lparr>compat_host = Some (blank_host
          \<lparr>host_cpu := Some \<lparr>hc_sockets = Some [''AM5''], hc_generations = None,
                             hc_maxTdpWatts = None, hc_socketCount = None,
                             hc_populationModes = None\<rparr>,
           host_storageSlots :=
             Some [sample_storage_group 1 1 ''nvme'', sample_storage_group 2 4 ''sata'']\<rparr>),
        compat_requirements = None\<rparr>\<rparr>"

definition allocated :: "resource_type \<Rightarrow> int option \<Rightarrow> int list \<Rightarrow> assignment \<Rightarrow> assignment" where
  "allocated res gid ns a =
     a\<lparr>as_allocation := Some \<lparr>al_resourceType = res, al_groupId = gid, al_positions = ns\<rparr>\<rparr>"

definition sample_request :: "string \<Rightarrow> allocation_request" where
  "sample_request iface =
     \<lparr>rq_componentType = TStorage, rq_requiredPositions = 1, rq_motherboard = sample_board,
      rq_assignments =
        [allocated ResStorage (Some 1) [0] (sample_assignment 1 ''pcBuild:1'' ''storage:1'' TStorage),
         allocated ResStorage (Some 2) [0] (sample_assignment 2 ''pcBuild:1'' ''storage:2'' TStorage)],
      rq_requirements = Some [(''interfaces'', JArr [JStr iface])]\<rparr>"

section \<open>Lemmas\<close>

subsection \<open>Free positions\<close>

lemma free_from_eq:
  assumes "length found \<le> n"
  shows "free_from cnt occ (of_nat n) position found
     = found @ take (n - length found) (filter (\<lambda>m. m \<notin> occ) [position..\<lceil>cnt\<rceil> - 1])"
  using assms
proof (induction cnt occ "of_nat n :: rat" position found rule: free_from.induct)
  case (1 cnt occ position found)
  show ?case
  proof (cases "of_int position < cnt \<and> length found < n")
    case True
    then have le: "position \<le> \<lceil>cnt\<rceil> - 1" by (simp add: less_ceiling_iff)
    have step: "take (n - length found) (x # xs) = x # take (n - Suc (length found)) xs"
      for x and xs :: "int list"
    proof -
      have "n - length found = Suc (n - Suc (length found))" using True by (simp add: Suc_diff_Suc)
      then show ?thesis by (subst \<open>n - length found = _\<close>) simp
    qed
    show ?thesis
      using True "1.hyps" le
      by (auto simp: free_from.simps [of cnt occ "of_nat n" position found] upto_rec1 [OF le] step)
  next
    case False
    have "take (n - length found) (filter (\<lambda>m. m \<notin> occ) [position..\<lceil>cnt\<rceil> - 1]) = []"
    proof (cases "of_int position < cnt")
      case True
      with False show ?thesis by simp
    next
      case ge: False
      then have "\<lceil>cnt\<rceil> \<le> position" by (simp add: not_less ceiling_le_iff)
      then show ?thesis by simp
    qed
    with False show ?thesis
      by (auto simp: free_from.simps [of cnt occ "of_nat n" position found])
  qed
qed

lemma firstFreePositions_eq:
  "firstFreePositions cnt occ (of_nat n)
     = take n (filter (\<lambda>m. m \<notin> occ) [0..\<lceil>cnt\<rceil> - 1])"
  by (simp add: firstFreePositions_def free_from_eq)

lemma set_free_candidates:
  "set (filter (\<lambda>m. m \<notin> occ) [0..\<lceil>cnt\<rceil> - 1]) = free_positions cnt occ"
  by (auto simp: free_positions_def less_ceiling_iff [symmetric])

lemma firstFreePositions_free:
  "set (firstFreePositions cnt occ (of_nat n)) \<subseteq> free_positions cnt occ"
  using set_free_candidates [of occ cnt] set_take_subset
  by (fastforce simp: firstFreePositions_eq)

lemma in_firstFreePositions:
  "m \<in> set (firstFreePositions cnt occ (of_nat n)) \<Longrightarrow> 0 \<le> m \<and> of_int m < cnt \<and> m \<notin> occ"
  using firstFreePositions_free by (fastforce simp: free_positions_def)

lemma distinct_firstFreePositions: "distinct (firstFreePositions cnt occ (of_nat n))"
  by (simp add: firstFreePositions_eq)

lemma length_firstFreePositions:
  "length (firstFreePositions cnt occ (of_nat n)) = min (card (free_positions cnt occ)) n"
proof -
  have "card (free_positions cnt occ) = length (filter (\<lambda>m. m \<notin> occ) [0..\<lceil>cnt\<rceil> - 1])"
    unfolding set_free_candidates [symmetric] by (rule distinct_card) simp
  then show ?thesis by (simp add: firstFreePositions_eq)
qed

lemma required_of_nat:
  assumes "isSafeInteger_rat r" "\<not> r < 1"
  obtains n where "r = of_nat n" "0 < n"
proof -
  have "r = of_int \<lfloor>r\<rfloor>" using assms(1) by (auto simp: isSafeInteger_rat_def isInteger_rat_def)
  moreover have "1 \<le> \<lfloor>r\<rfloor>" using assms(2) by (simp add: le_floor_iff not_less)
  ultimately have "r = of_nat (nat \<lfloor>r\<rfloor>)" "0 < nat \<lfloor>r\<rfloor>" by simp_all
  then show thesis by (rule that)
qed

subsection \<open>Counts of the groups\<close>

lemma positiveInteger_opt_safe:
  "positiveInteger_opt v = Some n \<Longrightarrow> 0 < n \<and> isSafeInteger n"
  by (auto simp: positiveInteger_opt_def isSafeInteger_rat_def isInteger_rat_def
      split: option.splits if_splits)

lemma positiveInteger_opt_count:
  "positiveInteger_opt (Some (JNum c)) = Some n \<Longrightarrow> c = of_int n"
  by (auto simp: positiveInteger_opt_def isSafeInteger_rat_def isInteger_rat_def split: if_splits)

lemma set_map_filter_iff: "y \<in> set (List.map_filter f xs) \<longleftrightarrow> (\<exists>x \<in> set xs. f x = Some y)"
  by (auto simp: List.map_filter_def image_iff)

lemma clone_count_safe:
  "cloneStorageGroup g = Some g' \<Longrightarrow> \<exists>n. sg_count g' = of_int n \<and> isSafeInteger n"
  "cloneExpansionGroup h = Some h' \<Longrightarrow> \<exists>n. eg_count h' = of_int n \<and> isSafeInteger n"
  by (auto simp: cloneStorageGroup_def cloneExpansionGroup_def split: option.splits if_splits
      dest: positiveInteger_opt_safe)

lemma board_socket_count_safe: "isSafeInteger (board_socket_count m)"
proof -
  have "isSafeInteger 1" by (simp add: isSafeInteger_def MAX_SAFE_INTEGER_def)
  then show ?thesis
    by (auto simp: board_socket_count_def nullish_def split: option.splits
        dest: positiveInteger_opt_safe)
qed

lemma board_groups_count_safe:
  "g \<in> set (mr_cpuSockets (motherboardResources m)) \<Longrightarrow> \<exists>n. cs_count g = of_int n \<and> isSafeInteger n"
  "h \<in> set (mr_memorySlots (motherboardResources m)) \<Longrightarrow> \<exists>n. ms_count h = of_int n \<and> isSafeInteger n"
  "i \<in> set (mr_storageSlots (motherboardResources m)) \<Longrightarrow> \<exists>n. sg_count i = of_int n \<and> isSafeInteger n"
  "j \<in> set (mr_expansionSlots (motherboardResources m)) \<Longrightarrow> \<exists>n. eg_count j = of_int n \<and> isSafeInteger n"
  using board_socket_count_safe [of m] positiveInteger_opt_safe clone_count_safe
  by (force simp: motherboardResources_def set_map_filter_iff split: list.splits option.splits)+

lemma groups_count_safe:
  "g \<in> set (groupsFor t (motherboardResources m)) \<Longrightarrow> \<exists>n. group_count g = of_int n \<and> isSafeInteger n"
  by (auto simp: groupsFor_def board_groups_count_safe split: if_splits)

lemma free_positions_safe:
  "g \<in> set (groupsFor t (motherboardResources m)) \<Longrightarrow> n \<in> free_positions (group_count g) occ
     \<Longrightarrow> isSafeInteger n \<and> 0 \<le> n"
  by (frule groups_count_safe) (auto simp: free_positions_def isSafeInteger_def MAX_SAFE_INTEGER_def)

subsection \<open>The first group with room\<close>

lemma allocate_in_groups_Inr:
  assumes "allocate_in_groups r res gs = Inr al"
  shows "\<exists>g \<in> set gs. groupMatches (rq_componentType r) g (nullish (rq_requirements r) [])
     \<and> al = \<lparr>al_resourceType = res, al_groupId = groupIdFor res g,
             al_positions = firstFreePositions (group_count g)
               (occupiedPositions (rq_assignments r) res (groupIdFor res g)) (rq_requiredPositions r)\<rparr>
     \<and> of_nat (length (al_positions al)) = rq_requiredPositions r"
  using assms by (induction gs) (auto split: if_splits)

lemma allocate_in_groups_fails:
  assumes "rq_requiredPositions r = of_nat n"
  shows "isl (allocate_in_groups r res gs) \<longleftrightarrow>
     (\<forall>g \<in> set gs. groupMatches (rq_componentType r) g (nullish (rq_requirements r) []) \<longrightarrow>
        card (free_positions (group_count g)
                (occupiedPositions (rq_assignments r) res (groupIdFor res g))) < n)"
  using assms by (induction gs) (auto simp: length_firstFreePositions)

text \<open>What an allocation is made of: either the single position of a logical resource, or positions
  of a matching group.\<close>

lemma allocatePcBuildResource_cases:
  assumes "allocatePcBuildResource r = Inr al"
  obtains (logical) n where "rq_requiredPositions r = of_nat n" "0 < n"
      "resourceTypeFor (rq_componentType r) = Some (al_resourceType al)"
      "rq_componentType r \<in> set (map fst LOGICAL_RESOURCE_TYPES)" "al_groupId al = None"
      "al_positions al = firstFreePositions 1
         (occupiedPositions (rq_assignments r) (al_resourceType al) None) (of_nat n)"
      "length (al_positions al) = n"
  | (grouped) n g where "rq_requiredPositions r = of_nat n" "0 < n"
      "resourceTypeFor (rq_componentType r) = Some (al_resourceType al)"
      "rq_componentType r \<notin> set (map fst LOGICAL_RESOURCE_TYPES)"
      "g \<in> set (groupsFor (rq_componentType r) (motherboardResources (rq_motherboard r)))"
      "groupMatches (rq_componentType r) g (nullish (rq_requirements r) [])"
      "al_groupId al = groupIdFor (al_resourceType al) g"
      "al_positions al = firstFreePositions (group_count g)
         (occupiedPositions (rq_assignments r) (al_resourceType al) (al_groupId al)) (of_nat n)"
      "length (al_positions al) = n"
proof -
  obtain res where res: "resourceTypeFor (rq_componentType r) = Some res"
    and "isSafeInteger_rat (rq_requiredPositions r)" "\<not> rq_requiredPositions r < 1"
    using assms by (auto simp: allocatePcBuildResource_def split: option.splits if_splits)
  then obtain n where n: "rq_requiredPositions r = of_nat n" "0 < n"
    using required_of_nat by blast
  show thesis
  proof (cases "rq_componentType r \<in> set (map fst LOGICAL_RESOURCE_TYPES)")
    case True
    with assms res n show thesis
      by (intro logical [OF n]) (auto simp: allocatePcBuildResource_def split: if_splits)
  next
    case False
    then have "allocate_in_groups r res
        (groupsFor (rq_componentType r) (motherboardResources (rq_motherboard r))) = Inr al"
      using assms res by (auto simp: allocatePcBuildResource_def split: if_splits)
    from allocate_in_groups_Inr [OF this] obtain g where
      "g \<in> set (groupsFor (rq_componentType r) (motherboardResources (rq_motherboard r)))"
      "groupMatches (rq_componentType r) g (nullish (rq_requirements r) [])"
      "al = \<lparr>al_resourceType = res, al_groupId = groupIdFor res g,
             al_positions = firstFreePositions (group_count g)
               (occupiedPositions (rq_assignments r) res (groupIdFor res g)) (rq_requiredPositions r)\<rparr>"
      "of_nat (length (al_positions al)) = rq_requiredPositions r"
      by blast
    with False res n show thesis by (intro grouped [OF n]) auto
  qed
qed

section \<open>Properties of the allocation\<close>

lemma allocation_facts:
  assumes "allocatePcBuildResource r = Inr al"
  shows "resourceTypeFor (rq_componentType r) = Some (al_resourceType al)"
    and "of_nat (length (al_positions al)) = rq_requiredPositions r"
    and "distinct (al_positions al)"
    and "n \<in> set (al_positions al) \<Longrightarrow> isSafeInteger n \<and> 0 \<le> n"
    and "set (al_positions al)
           \<inter> occupiedPositions (rq_assignments r) (al_resourceType al) (al_groupId al) = {}"
proof -
  show "resourceTypeFor (rq_componentType r) = Some (al_resourceType al)"
    using assms by (cases rule: allocatePcBuildResource_cases) auto
  show "of_nat (length (al_positions al)) = rq_requiredPositions r"
    using assms by (cases rule: allocatePcBuildResource_cases) auto
  show "distinct (al_positions al)"
    using assms by (cases rule: allocatePcBuildResource_cases) (simp_all add: distinct_firstFreePositions)
  show "n \<in> set (al_positions al) \<Longrightarrow> isSafeInteger n \<and> 0 \<le> n"
    using assms
  proof (cases rule: allocatePcBuildResource_cases)
    case logical
    assume "n \<in> set (al_positions al)"
    then have "n = 0" using in_firstFreePositions [of n 1] by (fastforce simp: logical(6))
    then show ?thesis by (simp add: isSafeInteger_def MAX_SAFE_INTEGER_def)
  next
    case (grouped k g)
    assume "n \<in> set (al_positions al)"
    then have "n \<in> free_positions (group_count g)
        (occupiedPositions (rq_assignments r) (al_resourceType al) (al_groupId al))"
      unfolding grouped(8) by (rule subsetD [OF firstFreePositions_free])
    then show ?thesis by (rule free_positions_safe [OF grouped(5)])
  qed
  show "set (al_positions al)
           \<inter> occupiedPositions (rq_assignments r) (al_resourceType al) (al_groupId al) = {}"
    using assms by (cases rule: allocatePcBuildResource_cases)
      (auto dest!: in_firstFreePositions)
qed

lemma occupied_iff:
  "n \<in> occupiedPositions as res gid \<longleftrightarrow>
     (\<exists>a \<in> set as. \<exists>al. as_allocation a = Some al \<and> al_resourceType al = res \<and> al_groupId al = gid
        \<and> n \<in> set (al_positions al) \<and> isSafeInteger n \<and> 0 \<le> n)"
  by (simp add: occupiedPositions_def) (rule bex_cong; force split: option.splits)

lemma group_ids_distinct:
  assumes "distinct (map sg_id (mr_storageSlots res))" "distinct (map eg_id (mr_expansionSlots res))"
    and "resourceTypeFor t = Some rt" "rt = ResStorage \<or> rt = ResExpansion"
  shows "distinct (map (groupIdFor rt) (groupsFor t res))"
  using assms
  by (auto simp: resourceTypeFor_def groupsFor_def LOGICAL_RESOURCE_TYPES_def distinct_map inj_on_def
      split: if_splits)

lemma find_by_key:
  "distinct (map f xs) \<Longrightarrow> x \<in> set xs \<Longrightarrow> List.find (\<lambda>y. f y = f x) xs = Some x"
  by (induction xs) (auto simp: image_iff)

lemma slot_group_id:
  "g \<in> set (groupsFor t res) \<Longrightarrow> resourceTypeFor t = Some rt \<Longrightarrow>
     groupIdFor rt g = None \<longleftrightarrow> rt \<noteq> ResStorage \<and> rt \<noteq> ResExpansion"
  by (auto simp: resourceTypeFor_def groupsFor_def LOGICAL_RESOURCE_TYPES_def split: if_splits)

text \<open>A CPU or memory resource has at most one group.\<close>

lemma single_group:
  assumes "resourceTypeFor t = Some rt" "rt \<noteq> ResStorage \<and> rt \<noteq> ResExpansion"
    and "g \<in> set (groupsFor t (motherboardResources m))"
  shows "groupsFor t (motherboardResources m) = [g]"
proof -
  have "length (groupsFor t (motherboardResources m)) \<le> 1"
    using assms(1,2)
    by (auto simp: resourceTypeFor_def groupsFor_def motherboardResources_def
        split: if_splits list.split option.split)
  then show ?thesis using assms(3) by (cases "groupsFor t (motherboardResources m)") auto
qed

text \<open>The guards of the validation hold for a fresh allocation; what is left is its group.\<close>

lemma validate_reduces:
  assumes "allocatePcBuildResource r = Inr al"
    and "rq_componentType r \<notin> set (map fst LOGICAL_RESOURCE_TYPES)"
  shows "validatePersistedAllocation r al =
     (let res = al_resourceType al;
          groups = groupsFor (rq_componentType r) (motherboardResources (rq_motherboard r));
          reqs = nullish (rq_requirements r) [];
          fits = (\<lambda>g. list_all (\<lambda>n. of_int n < group_count g
                     \<and> n \<notin> occupiedPositions (rq_assignments r) res (al_groupId al)) (al_positions al))
      in if res \<noteq> ResStorage \<and> res \<noteq> ResExpansion
         then al_groupId al = None \<and>
           (case List.find (\<lambda>g. groupMatches (rq_componentType r) g reqs) groups of
              None \<Rightarrow> False | Some g \<Rightarrow> fits g)
         else al_groupId al \<noteq> None \<and>
           (case List.find (\<lambda>g. groupIdFor res g = al_groupId al) groups of
              None \<Rightarrow> False
            | Some g \<Rightarrow> groupMatches (rq_componentType r) g reqs \<and> fits g))"
proof -
  have "list_ex (\<lambda>n. \<not> isSafeInteger n \<or> n < 0) (al_positions al) = False"
    using allocation_facts(4) [OF assms(1)] by (fastforce simp: list_ex_iff)
  then show ?thesis
    using assms(2) allocation_facts(1-3) [OF assms(1)]
    by (auto simp: validatePersistedAllocation_def split: option.splits)
qed

text \<open>Two assignments do not compete: their positions in the same group are disjoint.\<close>

definition alloc_disjoint :: "assignment \<Rightarrow> assignment \<Rightarrow> bool" where
  "alloc_disjoint a b =
     (case (as_allocation a, as_allocation b) of
        (Some al, Some al') \<Rightarrow>
          al_resourceType al = al_resourceType al' \<and> al_groupId al = al_groupId al'
          \<longrightarrow> set (al_positions al) \<inter> set (al_positions al') = {}
      | _ \<Rightarrow> True)"

definition disjoint_allocations :: "assignment list \<Rightarrow> bool" where
  "disjoint_allocations as = sorted_wrt alloc_disjoint as"

text \<open>The contract of an allocator of positions: what it returns competes with no assignment it
  was given.  Adding assignments one at a time, each with the allocation made against those
  before it, keeps all of them disjoint.\<close>

locale slot_allocator =
  fixes allocate :: "assignment list \<Rightarrow> 'q \<Rightarrow> string + allocation"
  assumes allocate_disjoint:
    "allocate as q = Inr al \<Longrightarrow> a \<in> set as \<Longrightarrow> alloc_disjoint a (b\<lparr>as_allocation := Some al\<rparr>)"
begin

lemma disjoint_snoc:
  "disjoint_allocations as \<Longrightarrow> allocate as q = Inr al
     \<Longrightarrow> disjoint_allocations (as @ [b\<lparr>as_allocation := Some al\<rparr>])"
  by (auto simp: disjoint_allocations_def sorted_wrt_append intro: allocate_disjoint)

end

lemma alloc_disjoint_sym: "alloc_disjoint a b = alloc_disjoint b a"
  by (auto simp: alloc_disjoint_def split: option.split)

lemma disjoint_allocationsD:
  "disjoint_allocations as \<Longrightarrow> i < j \<Longrightarrow> j < length as \<Longrightarrow> alloc_disjoint (as ! i) (as ! j)"
  by (simp add: disjoint_allocations_def sorted_wrt_iff_nth_less)

lemma disjoint_allocations_filter:
  "disjoint_allocations as \<Longrightarrow> disjoint_allocations (filter P as)"
  by (simp add: disjoint_allocations_def sorted_wrt_filter)

interpretation pc_slots: slot_allocator "\<lambda>as r. allocatePcBuildResource (r\<lparr>rq_assignments := as\<rparr>)"
proof
  fix as r al a b
  assume "allocatePcBuildResource (r\<lparr>rq_assignments := as\<rparr>) = Inr al" "a \<in> set as"
  then show "alloc_disjoint a (b\<lparr>as_allocation := Some al\<rparr>)"
    using allocation_facts(4,5) [of "r\<lparr>rq_assignments := as\<rparr>" al]
    by (fastforce simp: alloc_disjoint_def occupied_iff split: option.split)
qed

text \<open>C37: An allocation that \<open>allocatePcBuildResource\<close> returns passes
  \<open>validatePersistedAllocation\<close> for the same request, provided the board's storage groups and its
  expansion groups have distinct ids.\<close>

theorem allocation_valid:
  assumes "allocatePcBuildResource r = Inr al"
    and "distinct (map sg_id (mr_storageSlots (motherboardResources (rq_motherboard r))))"
    and "distinct (map eg_id (mr_expansionSlots (motherboardResources (rq_motherboard r))))"
  shows "validatePersistedAllocation r al"
  using assms(1)
proof (cases rule: allocatePcBuildResource_cases)
  case logical
  have "list_all (\<lambda>m. m < 1 \<and> m \<notin> occupiedPositions (rq_assignments r) (al_resourceType al) None)
      (al_positions al)"
    by (auto simp: list_all_iff logical(6) dest: in_firstFreePositions)
  moreover have "list_ex (\<lambda>n. \<not> isSafeInteger n \<or> n < 0) (al_positions al) = False"
    using allocation_facts(4) [OF assms(1)] by (fastforce simp: list_ex_iff)
  ultimately show ?thesis
    using allocation_facts(1-3) [OF assms(1)] logical(4,5)
    by (simp add: validatePersistedAllocation_def list_all_iff)
next
  case (grouped n g)
  let ?gs = "groupsFor (rq_componentType r) (motherboardResources (rq_motherboard r))"
  have free: "of_int m < group_count g
      \<and> m \<notin> occupiedPositions (rq_assignments r) (al_resourceType al) (al_groupId al)"
    if "m \<in> set (al_positions al)" for m
    using that grouped(8) in_firstFreePositions by metis
  have found: "List.find (\<lambda>h. groupIdFor (al_resourceType al) h = al_groupId al) ?gs = Some g"
    if "al_resourceType al = ResStorage \<or> al_resourceType al = ResExpansion"
    using find_by_key [OF group_ids_distinct [OF assms(2,3) grouped(3) that] grouped(5)]
    by (simp add: grouped(7))
  show ?thesis
  proof (cases "al_resourceType al = ResStorage \<or> al_resourceType al = ResExpansion")
    case True
    with grouped(3-7) found [OF True] slot_group_id [OF grouped(5,3)] free
    show ?thesis by (auto simp: validate_reduces [OF assms(1)] list_all_iff)
  next
    case False
    with grouped(3-7) single_group [OF grouped(3) _ grouped(5)] slot_group_id [OF grouped(5,3)] free
    show ?thesis by (simp add: validate_reduces [OF assms(1)] list_all_iff)
  qed
qed

theorem allocation_valid_witness:
  "validatePersistedAllocation (sample_request ''SATA'')
     \<lparr>al_resourceType = ResStorage, al_groupId = Some 2, al_positions = [1]\<rparr>"
proof (rule allocation_valid)
  show "allocatePcBuildResource (sample_request ''SATA'')
      = Inr \<lparr>al_resourceType = ResStorage, al_groupId = Some 2, al_positions = [1]\<rparr>"
    by code_simp
qed code_simp+

text \<open>C38: A returned allocation consists of as many distinct positions as requested, none of
  which belongs to an allocation of the same resource type and group that the request carries.\<close>

theorem allocation_disjoint:
  assumes "allocatePcBuildResource r = Inr al"
  shows "of_nat (length (al_positions al)) = rq_requiredPositions r
     \<and> distinct (al_positions al)
     \<and> (\<forall>a \<in> set (rq_assignments r). \<forall>al'. as_allocation a = Some al'
          \<and> al_resourceType al' = al_resourceType al \<and> al_groupId al' = al_groupId al
          \<longrightarrow> set (al_positions al) \<inter> set (al_positions al') = {})"
proof -
  have "set (al_positions al) \<inter> set (al_positions al') = {}"
    if "a \<in> set (rq_assignments r)" "as_allocation a = Some al'"
      "al_resourceType al' = al_resourceType al" "al_groupId al' = al_groupId al" for a al'
    using that allocation_facts(4,5) [OF assms] by (fastforce simp: occupied_iff)
  with allocation_facts(2,3) [OF assms] show ?thesis by blast
qed

theorem allocation_disjoint_witness:
  "\<exists>al. allocatePcBuildResource (sample_request ''sata'') = Inr al
     \<and> distinct (al_positions al) \<and> set (al_positions al) \<inter> set [0] = {}"
proof -
  have al: "allocatePcBuildResource (sample_request ''sata'')
      = Inr \<lparr>al_resourceType = ResStorage, al_groupId = Some 2, al_positions = [1]\<rparr>"
    by code_simp
  show ?thesis
    using allocation_disjoint [OF al] al by (simp add: sample_request_def allocated_def)
qed

text \<open>For a component type with slot groups and a positive whole number of positions,
  \<open>allocatePcBuildResource\<close> fails exactly when every group that matches the requirements has too
  few free positions: no request is refused while the board has room.\<close>

theorem allocation_complete:
  assumes "resourceTypeFor (rq_componentType r) = Some res"
    and "rq_componentType r \<notin> set (map fst LOGICAL_RESOURCE_TYPES)"
    and "rq_requiredPositions r = of_nat n" "1 \<le> n" "isSafeInteger (int n)"
  shows "isl (allocatePcBuildResource r) \<longleftrightarrow>
     (\<forall>g \<in> set (groupsFor (rq_componentType r) (motherboardResources (rq_motherboard r))).
        groupMatches (rq_componentType r) g (nullish (rq_requirements r) []) \<longrightarrow>
        card {m. 0 \<le> m \<and> of_int m < group_count g
                 \<and> m \<notin> occupiedPositions (rq_assignments r) res (groupIdFor res g)} < n)"
proof -
  have "isSafeInteger_rat (of_nat n)"
    using assms(5) isSafeInteger_rat_of_int [of "int n"] by simp
  then show ?thesis
    using assms allocate_in_groups_fails [OF assms(3)]
    by (simp add: allocatePcBuildResource_def free_positions_def not_less)
qed

theorem allocation_complete_witness:
  "card {m. 0 \<le> m \<and> of_int m < group_count (StorageGroup (sample_storage_group 1 1 ''nvme''))
            \<and> m \<notin> occupiedPositions (rq_assignments (sample_request ''nvme'')) ResStorage
                  (groupIdFor ResStorage (StorageGroup (sample_storage_group 1 1 ''nvme'')))} < 1"
proof -
  have "isl (allocatePcBuildResource (sample_request ''nvme''))" by code_simp
  moreover have "isSafeInteger (int 1)" "resourceTypeFor TStorage = Some ResStorage"
    "TStorage \<notin> set (map fst LOGICAL_RESOURCE_TYPES)"
    by code_simp+
  moreover have "rq_componentType (sample_request ''nvme'') = TStorage"
    "rq_requiredPositions (sample_request ''nvme'') = of_nat 1"
    "rq_motherboard (sample_request ''nvme'') = sample_board"
    "nullish (rq_requirements (sample_request ''nvme'')) [] = [(''interfaces'', JArr [JStr ''nvme''])]"
    by (simp_all add: sample_request_def)
  ultimately have "\<forall>g \<in> set (groupsFor TStorage (motherboardResources sample_board)).
     groupMatches TStorage g [(''interfaces'', JArr [JStr ''nvme''])] \<longrightarrow>
     card {m. 0 \<le> m \<and> of_int m < group_count g
              \<and> m \<notin> occupiedPositions (rq_assignments (sample_request ''nvme'')) ResStorage
                    (groupIdFor ResStorage g)} < 1"
    using allocation_complete [of "sample_request ''nvme''" ResStorage 1] by simp
  moreover have "StorageGroup (sample_storage_group 1 1 ''nvme'')
      \<in> set (groupsFor TStorage (motherboardResources sample_board))"
    "groupMatches TStorage (StorageGroup (sample_storage_group 1 1 ''nvme''))
      [(''interfaces'', JArr [JStr ''nvme''])]"
    by code_simp+
  ultimately show ?thesis by blast
qed

end
