(* ===== verification/Pc_Build.thy ===== *)
theory Pc_Build
  imports Pc_Resources "HOL-Library.Sublist"
begin

text \<open>
  The rules of a PC build: \<open>src/lib/pc-build.ts\<close> and \<open>src/components/cpu-slot-model.ts\<close>.
  \<open>normalizeComponentRequirements\<close> of the shared JavaScript package is the parameter \<open>normReqs\<close> of
  the definitions that call it: an item's normalized requirements as a dictionary.
\<close>

section \<open>Definitions\<close>

definition PC_BUILD_COMPONENT_ORDER :: "inventory_type list" where
  "PC_BUILD_COMPONENT_ORDER =
     [TMotherboard, TCpu, TCpuCooler, TRam, TStorage, TGpu, TSoundCard, TNetwork, TCase, TPowerSupply]"

definition REQUIRED_PC_BUILD_COMPONENT_TYPES :: "inventory_type list" where
  "REQUIRED_PC_BUILD_COMPONENT_TYPES =
     [TMotherboard, TCpu, TCpuCooler, TRam, TStorage, TPowerSupply]"

definition PC_BUILD_COMPONENT_TYPES :: "inventory_type set" where
  "PC_BUILD_COMPONENT_TYPES = set PC_BUILD_COMPONENT_ORDER"

definition SINGLE_PC_BUILD_COMPONENT_TYPES :: "inventory_type set" where
  "SINGLE_PC_BUILD_COMPONENT_TYPES = {TMotherboard, TCase, TPowerSupply}"

definition requiredPcBuildPositions :: "inventory_item \<Rightarrow> rat" where
  "requiredPcBuildPositions item = 1"

text \<open>A value in a boolean position.\<close>

fun truthy_jsv :: "jsv option \<Rightarrow> bool" where
  "truthy_jsv None = False"
| "truthy_jsv (Some JNull) = False"
| "truthy_jsv (Some (JBool b)) = b"
| "truthy_jsv (Some (JNum r)) = (r \<noteq> 0)"
| "truthy_jsv (Some (JStr s)) = (s \<noteq> [])"
| "truthy_jsv (Some (JArr xs)) = True"
| "truthy_jsv (Some (JObj m)) = True"

text \<open>A field with the value \<open>undefined\<close> reads like an absent one, so it is left out.\<close>

definition field :: "string \<Rightarrow> jsv option \<Rightarrow> jsv dict" where
  "field k v = (case v of None \<Rightarrow> [] | Some x \<Rightarrow> [(k, x)])"

definition pcBuildRequirements ::
  "(inventory_item \<Rightarrow> jsv dict) \<Rightarrow> inventory_item \<Rightarrow> jsv dict" where
  "pcBuildRequirements normReqs item =
     (let normalized = normReqs item in
      if it_type item = TStorage then
        (case map_of normalized ''interface'' of
           Some v \<Rightarrow> if truthy_jsv (Some v) then [(''interfaces'', JArr [v])] else []
         | None \<Rightarrow> [])
        @ (case map_of normalized ''formFactor'' of
             Some v \<Rightarrow> if truthy_jsv (Some v) then [(''formFactors'', JArr [v])] else []
           | None \<Rightarrow> [])
      else if it_type item = TRam then
        field ''generation'' (map_of normalized ''generation'')
        @ field ''moduleCapacityGb'' (map_of normalized ''moduleCapacityGb'')
        @ field ''speedMt'' (map_of normalized ''speedMt'')
      else if it_type item \<in> {TGpu, TNetwork, TSoundCard} then
        dict_spread normalized
          (nullish (Option.bind (Option.bind (it_compatibility item) compat_requirements) cq_expansion) [])
      else if it_type item = TCpuCooler then
        field ''socket'' (spec_of item ''socket'')
        @ field ''tdpWatts'' (nullish_jsv (spec_of item ''maxTdpWatts'') (spec_of item ''tdpWatts''))
      else normalized)"

definition pcBuildMotherboardAssignment :: "project \<Rightarrow> string \<Rightarrow> assignment option" where
  "pcBuildMotherboardAssignment p hostId =
     List.find (\<lambda>a. as_serverId a = hostId \<and> as_type a = TMotherboard) (pr_assignments p)"

definition pcBuildMotherboard :: "project \<Rightarrow> string \<Rightarrow> inventory_item option" where
  "pcBuildMotherboard p hostId =
     Option.bind (pcBuildMotherboardAssignment p hostId) (\<lambda>a. item_at p (as_itemId a))"

definition pcBuildComponentLimitMessage ::
  "assignment list \<Rightarrow> inventory_item \<Rightarrow> string option" where
  "pcBuildComponentLimitMessage as item =
     (if it_type item \<in> SINGLE_PC_BUILD_COMPONENT_TYPES \<and> list_ex (\<lambda>a. as_type a = it_type item) as
      then Some (''This PC Build already has a ''
             @ (if it_type item = TPowerSupply then ''power supply'' else type_name (it_type item)) @ ''.'')
      else if it_type item = TCpuCooler
              \<and> length (filter (\<lambda>a. as_type a = TCpu) as) \<le> length (filter (\<lambda>a. as_type a = TCpuCooler) as)
      then Some ''Add a CPU before adding another CPU cooler.''
      else None)"

definition allocatePcBuildAssignment ::
  "(inventory_item \<Rightarrow> jsv dict) \<Rightarrow> project \<Rightarrow> string \<Rightarrow> inventory_item \<Rightarrow> assignment list
     \<Rightarrow> string + allocation" where
  "allocatePcBuildAssignment normReqs p hostId item as =
     (case (if it_type item = TMotherboard then Some item else pcBuildMotherboard p hostId) of
        None \<Rightarrow> Inl ''Add a motherboard before assigning other PC components.''
      | Some motherboard \<Rightarrow>
          allocatePcBuildResource
            \<lparr>rq_componentType = it_type item, rq_requiredPositions = requiredPcBuildPositions item,
             rq_motherboard = motherboard, rq_assignments = as,
             rq_requirements = Some (pcBuildRequirements normReqs item)\<rparr>)"

definition visiblePcBuildSlotTypes :: "project \<Rightarrow> string \<Rightarrow> inventory_type list" where
  "visiblePcBuildSlotTypes p hostId =
     (let assignedTypes = set (map as_type (filter (\<lambda>a. as_serverId a = hostId) (pr_assignments p)))
      in filter (\<lambda>t. t \<in> set REQUIRED_PC_BUILD_COMPONENT_TYPES \<or> t \<in> assignedTypes)
           PC_BUILD_COMPONENT_ORDER)"

definition canRemovePcBuildAssignment :: "project \<Rightarrow> assignment \<Rightarrow> string + unit" where
  "canRemovePcBuildAssignment p a =
     (if as_type a \<noteq> TMotherboard then Inr ()
      else if filter (\<lambda>b. as_serverId b = as_serverId a \<and> as_id b \<noteq> as_id a) (pr_assignments p) = []
      then Inr ()
      else Inl ''Remove the components assigned to this motherboard before removing the motherboard.'')"

subsection \<open>CPU sockets of a host\<close>

definition host_has_fixed_cpu :: "inventory_item option \<Rightarrow> bool" where
  "host_has_fixed_cpu host =
     list_ex (\<lambda>c. fc_componentType c = ''cpu'' \<or> fi_type (fc_item c) = TCpu)
       (nullish (Option.bind host it_fixedComponents) [])"

definition hostCpuSocketCount :: "inventory_item option \<Rightarrow> rat" where
  "hostCpuSocketCount host =
     (case Option.bind (Option.bind (Option.bind host item_host) host_cpu) hc_socketCount of
        Some n \<Rightarrow> if isSafeInteger_rat n \<and> 0 \<le> n then n
                  else if host_has_fixed_cpu host then 0 else 1
      | None \<Rightarrow> if host_has_fixed_cpu host then 0 else 1)"

definition assignmentCpuPosition :: "assignment \<Rightarrow> int option" where
  "assignmentCpuPosition a =
     (case as_allocation a of
        None \<Rightarrow> None
      | Some al \<Rightarrow>
          if al_resourceType al \<noteq> ResCpu then None
          else case al_positions al of
                 [n] \<Rightarrow> if isSafeInteger n \<and> 0 \<le> n then Some n else None
               | _ \<Rightarrow> None)"

text \<open>The composition rules of a PC build: at most one motherboard, case and power supply, and no
  more coolers than processors.\<close>

definition count_type :: "inventory_type \<Rightarrow> assignment list \<Rightarrow> nat" where
  "count_type t as = length (filter (\<lambda>a. as_type a = t) as)"

definition pc_build_limits :: "assignment list \<Rightarrow> bool" where
  "pc_build_limits as \<longleftrightarrow>
     count_type TMotherboard as \<le> 1 \<and> count_type TCase as \<le> 1 \<and> count_type TPowerSupply as \<le> 1
     \<and> count_type TCpuCooler as \<le> count_type TCpu as"

section \<open>Lemmas\<close>

interpretation pc_assignments: slot_allocator
  "\<lambda>as (normReqs, p, hostId, item). allocatePcBuildAssignment normReqs p hostId item as"
proof (standard, clarify)
  fix as normReqs p hostId item al a b
  assume al: "allocatePcBuildAssignment normReqs p hostId item as = Inr al" and "a \<in> set as"
  then obtain board where "allocatePcBuildResource
      (\<lparr>rq_componentType = it_type item, rq_requiredPositions = requiredPcBuildPositions item,
        rq_motherboard = board, rq_assignments = [],
        rq_requirements = Some (pcBuildRequirements normReqs item)\<rparr>\<lparr>rq_assignments := as\<rparr>) = Inr al"
    by (auto simp: allocatePcBuildAssignment_def split: option.splits)
  then show "alloc_disjoint a (b\<lparr>as_allocation := Some al\<rparr>)"
    by (rule pc_slots.allocate_disjoint [OF _ \<open>a \<in> set as\<close>])
qed

lemma count_type_append [simp]: "count_type t (as @ bs) = count_type t as + count_type t bs"
  by (simp add: count_type_def)

lemma count_type_one [simp]: "count_type t [a] = (if as_type a = t then 1 else 0)"
  by (simp add: count_type_def)

lemma count_type_0: "count_type t as = 0 \<longleftrightarrow> \<not> list_ex (\<lambda>a. as_type a = t) as"
  by (auto simp: count_type_def filter_empty_conv list_ex_iff)

text \<open>A component that \<open>pcBuildComponentLimitMessage\<close> lets into a PC build keeps the
  build's composition rules: one motherboard, one case, one power supply, and never more coolers
  than processors.\<close>

theorem pc_build_limits_kept:
  assumes "pc_build_limits as" "pcBuildComponentLimitMessage as item = None"
    and "as_type a = it_type item"
  shows "pc_build_limits (as @ [a])"
  using assms count_type_0 [of "it_type item" as]
  by (auto simp: pc_build_limits_def pcBuildComponentLimitMessage_def count_type_def [symmetric]
      SINGLE_PC_BUILD_COMPONENT_TYPES_def split: if_splits)

theorem pc_build_limits_kept_witness:
  "pc_build_limits
     ([sample_assignment 1 ''pcBuild:1'' ''motherboard:1'' TMotherboard,
       sample_assignment 2 ''pcBuild:1'' ''cpu:1'' TCpu]
      @ [sample_assignment 3 ''pcBuild:1'' ''cpuCooler:1'' TCpuCooler])"
  by (rule pc_build_limits_kept [where item = "blank_item TCpuCooler 1"]) code_simp+

text \<open>The slot types a PC build shows are distinct, in the build order, contain every
  required type, and contain the type of every PC component assigned to the build.\<close>

theorem visible_slots_complete:
  "distinct (visiblePcBuildSlotTypes p h)
   \<and> subseq (visiblePcBuildSlotTypes p h) PC_BUILD_COMPONENT_ORDER
   \<and> set REQUIRED_PC_BUILD_COMPONENT_TYPES \<subseteq> set (visiblePcBuildSlotTypes p h)
   \<and> (\<forall>a \<in> set (pr_assignments p). as_serverId a = h \<and> as_type a \<in> PC_BUILD_COMPONENT_TYPES
        \<longrightarrow> as_type a \<in> set (visiblePcBuildSlotTypes p h))"
proof -
  have "set REQUIRED_PC_BUILD_COMPONENT_TYPES \<subseteq> set PC_BUILD_COMPONENT_ORDER"
    "distinct PC_BUILD_COMPONENT_ORDER"
    by code_simp+
  then show ?thesis
    by (auto simp: visiblePcBuildSlotTypes_def PC_BUILD_COMPONENT_TYPES_def intro: subseq_filter_left)
qed

theorem visible_slots_complete_witness:
  "TCpu \<in> set (visiblePcBuildSlotTypes sample_project ''server:1'')"
proof -
  have "sample_assignment 2 ''server:1'' ''cpu:1'' TCpu \<in> set (pr_assignments sample_project)"
    "TCpu \<in> PC_BUILD_COMPONENT_TYPES"
    by code_simp+
  then show ?thesis
    using visible_slots_complete [of sample_project "''server:1''"]
    by (fastforce simp: sample_assignment_def)
qed

end
