(* ===== verification/Constraints.thy ===== *)
theory Constraints
  imports Pc_Build
begin

text \<open>
  Which components a host accepts, and the transitions that assign, move, swap and remove them:
  \<open>src/lib/constraints.ts\<close>.  Of the shared JavaScript package it calls,
  \<open>isHostCompatibilityEnabled\<close> (with \<open>normalizeCompatibilityPolicy\<close> and \<open>hostReference\<close>) and
  \<open>nasPowerTopology\<close> are modelled here; \<open>planHostAllocations\<close>, the compatibility engine, is the
  parameter \<open>plan\<close> and \<open>normalizeComponentRequirements\<close> the parameter \<open>normReqs\<close>.  The identities
  that the code renders as JSON text are tuples here, which are equal exactly when the texts are.
\<close>

section \<open>Definitions\<close>

subsection \<open>Tables\<close>

definition COMPONENT_ORDER :: "inventory_type list" where
  "COMPONENT_ORDER = PC_BUILD_COMPONENT_ORDER @ [TPowerAdapter]"

definition REQUIRED_SERVER_SLOT_TYPES :: "inventory_type list" where
  "REQUIRED_SERVER_SLOT_TYPES = [TCpu, TRam, TStorage]"

text \<open>A missing entry prints as \<open>undefined\<close>.\<close>

fun SLOT_LABELS :: "inventory_type \<Rightarrow> string" where
  "SLOT_LABELS TCpu = ''CPU''"
| "SLOT_LABELS TRam = ''RAM''"
| "SLOT_LABELS TStorage = ''Storage''"
| "SLOT_LABELS TGpu = ''GPU''"
| "SLOT_LABELS TNetwork = ''Network''"
| "SLOT_LABELS TMotherboard = ''Motherboard''"
| "SLOT_LABELS TCpuCooler = ''CPU Cooler''"
| "SLOT_LABELS TCase = ''Case''"
| "SLOT_LABELS TPowerSupply = ''Power Supply''"
| "SLOT_LABELS TSoundCard = ''Sound Card''"
| "SLOT_LABELS TPowerAdapter = ''Power Adapter''"
| "SLOT_LABELS _ = ''undefined''"

definition SINGLE_ITEM_TYPES :: "inventory_type set" where
  "SINGLE_ITEM_TYPES = {TGpu, TNetwork}"

definition SERVER_COMPONENT_TYPES :: "inventory_type set" where
  "SERVER_COMPONENT_TYPES = {TCpu, TRam, TStorage, TGpu, TNetwork, TPowerAdapter}"

definition NAS_COMPONENT_TYPES :: "inventory_type set" where
  "NAS_COMPONENT_TYPES = {TCpu, TRam, TStorage, TNetwork, TPowerAdapter}"

definition SWAPPABLE_COMPONENT_TYPES :: "inventory_type set" where
  "SWAPPABLE_COMPONENT_TYPES = {TCpu, TRam}"

definition ALWAYS_ENFORCED_COMPATIBILITY_CODES :: "string set" where
  "ALWAYS_ENFORCED_COMPATIBILITY_CODES = {''compatibility.resource.exhausted'', ''memory.slots.exceeded''}"

definition NAS_COMPONENT_MESSAGE :: string where
  "NAS_COMPONENT_MESSAGE = ''A NAS can accept CPU, RAM, storage drives, and network cards; it can also accept a power adapter.''"

definition SERVER_COMPONENT_MESSAGE :: string where
  "SERVER_COMPONENT_MESSAGE = ''An OEM server can accept CPU, RAM, storage, GPU, network, and power adapter components.''"

definition PC_BUILD_COMPONENT_MESSAGE :: string where
  "PC_BUILD_COMPONENT_MESSAGE = ''A PC Build accepts motherboard-based PC components. Power adapters belong to OEM servers and NAS devices.''"

subsection \<open>The compatibility policy of the project\<close>

definition normalizeHostRefs :: "host_ref list option \<Rightarrow> host_ref list" where
  "normalizeHostRefs vs =
     foldl (\<lambda>refs v.
        if isHostType (hr_hostType v) \<and> isSafeInteger (hr_hostId v) \<and> 0 < hr_hostId v
           \<and> \<not> list_ex (\<lambda>e. hr_hostType e = hr_hostType v \<and> hr_hostId e = hr_hostId v) refs
        then refs @ [v] else refs) [] (nullish vs [])"

definition normalizeCompatibilityPolicy :: "compatibility_policy option \<Rightarrow> compatibility_policy" where
  "normalizeCompatibilityPolicy policy =
     \<lparr>po_disabledHosts = normalizeHostRefs (map_option po_disabledHosts policy),
      po_verifiedMemoryHosts =
        non_empty (normalizeHostRefs (Option.bind policy po_verifiedMemoryHosts)),
      po_ignoredWarningIds =
        js_uniq (filter (\<lambda>s. s \<noteq> []) (map js_trim
          (case policy of None \<Rightarrow> [] | Some q \<Rightarrow> po_ignoredWarningIds q)))\<rparr>"

text \<open>The match of \<open>/^([^:]+):([1-9]\d*)$/\<close>.\<close>

definition hostReference :: "string \<Rightarrow> (string \<times> int) option" where
  "hostReference hostId =
     (case js_split (CHR '':'') hostId of
        [t, n] \<Rightarrow>
          if t \<noteq> [] \<and> n \<noteq> [] \<and> list_all is_digit n \<and> hd n \<noteq> CHR ''0''
          then Some (t, int (decimal_val n)) else None
      | _ \<Rightarrow> None)"

definition isHostCompatibilityEnabled :: "project \<Rightarrow> string \<Rightarrow> bool" where
  "isHostCompatibilityEnabled p hostId =
     (case hostReference hostId of
        None \<Rightarrow> True
      | Some (t, n) \<Rightarrow>
          \<not> list_ex (\<lambda>e. type_name (hr_hostType e) = t \<and> hr_hostId e = n)
              (po_disabledHosts (normalizeCompatibilityPolicy (pr_compatibilityPolicy p))))"

subsection \<open>The power topology of a NAS\<close>

definition isNasPowerConfiguration :: "jsv option \<Rightarrow> bool" where
  "isNasPowerConfiguration v \<longleftrightarrow>
     v = Some (JStr ''internal-psu'') \<or> v = Some (JStr ''external-adapter'')"

definition nasPowerTopology :: "inventory_item \<Rightarrow> string \<times> string option" where
  "nasPowerTopology item =
     (let power = Option.bind (item_host item) host_power;
          configured = Option.bind power hp_configuration;
          configuration =
            (if isNasPowerConfiguration (map_option JStr configured) then nullish configured []
             else case spec_of item ''powerConfiguration'' of
               Some (JStr s) \<Rightarrow> if isNasPowerConfiguration (Some (JStr s)) then s else ''internal-psu''
             | _ \<Rightarrow> ''internal-psu'')
      in (configuration,
          if configuration = ''external-adapter''
          then Some (if Option.bind power hp_adapterDisposition = Some ''fixed''
                     then ''fixed'' else ''replaceable'')
          else None))"

subsection \<open>Results of the compatibility engine\<close>

record project_result = compatibility_result +
  pcr_assignmentId :: js_id
  pcr_hostId :: string
  pcr_itemId :: string

record host_plan =
  hpl_assignments :: "assignment list"
  hpl_results :: "project_result list"

record planned_transition =
  pt_project :: project
  pt_compatibility :: "project_result list"
  pt_unknownFindings :: "finding list"

text \<open>A transition that does not succeed: a result with \<open>ok: false\<close>, or an error that the
  compatibility engine throws and nothing catches.\<close>

datatype mutation_failure =
    Refused (mf_message: string) (mf_compatibility: "project_result list option")
  | Thrown (mf_message: string)

definition failed :: "string \<Rightarrow> mutation_failure" where
  "failed m = Refused m None"

text \<open>A result of type \<open>AssignmentMutationResult\<close>.\<close>

type_synonym mutation_result = "mutation_failure + planned_transition"

text \<open>The type of \<open>planHostAllocations\<close>; the left side is an error that it throws.\<close>

type_synonym planner = "project \<Rightarrow> string \<Rightarrow> string + host_plan"

definition assignmentIdentity :: "assignment \<Rightarrow> string \<times> int" where
  "assignmentIdentity a = (as_serverId a, as_id a)"

definition findAssignmentById :: "assignment list \<Rightarrow> js_id \<Rightarrow> assignment option" where
  "findAssignmentById as i =
     (case List.find (\<lambda>a. IdNum (as_id a) = i) as of
        Some a \<Rightarrow> Some a
      | None \<Rightarrow>
          (case filter (\<lambda>a. show_int (as_id a) = js_String i) as of [a] \<Rightarrow> Some a | _ \<Rightarrow> None))"

definition compatibilityFingerprint ::
  "project_result \<Rightarrow> finding \<Rightarrow> string \<times> js_id \<times> string \<times> string \<times> int option \<times> string" where
  "compatibilityFingerprint r f =
     (pcr_hostId r, pcr_assignmentId r, fd_code f, nullish (fd_field f) [], fd_resourceId f, fd_message f)"

definition shouldEnforceCompatibilityFinding :: "project \<Rightarrow> project_result \<Rightarrow> finding \<Rightarrow> bool" where
  "shouldEnforceCompatibilityFinding p r f \<longleftrightarrow>
     isHostCompatibilityEnabled p (pcr_hostId r) \<or> fd_code f \<in> ALWAYS_ENFORCED_COMPATIBILITY_CODES"

definition host_is_pc_build :: "project \<Rightarrow> string \<Rightarrow> bool" where
  "host_is_pc_build p h \<longleftrightarrow> map_option it_type (item_at p h) = Some TPcBuild"

subsection \<open>Planning the affected hosts\<close>

definition plan_host :: "planner \<Rightarrow> planned_transition \<Rightarrow> string \<Rightarrow> string + planned_transition" where
  "plan_host plan t hostId =
     (if host_is_pc_build (pt_project t) hostId then Inr t
      else try_eval (plan (pt_project t) hostId) (\<lambda>pl.
        let planned = map_from (map (\<lambda>a. (assignmentIdentity a, a)) (hpl_assignments pl))
        in Inr (t\<lparr>pt_project := (pt_project t)\<lparr>pr_assignments :=
                  map (\<lambda>a. if as_serverId a = hostId
                           then nullish (map_of planned (assignmentIdentity a)) a else a)
                    (pr_assignments (pt_project t))\<rparr>,
                pt_compatibility := pt_compatibility t @ hpl_results pl\<rparr>)))"

fun plan_each :: "planner \<Rightarrow> planned_transition \<Rightarrow> string list \<Rightarrow> string + planned_transition" where
  "plan_each plan t [] = Inr t"
| "plan_each plan t (h # hs) = try_eval (plan_host plan t h) (\<lambda>u. plan_each plan u hs)"

definition planHosts :: "planner \<Rightarrow> project \<Rightarrow> string list \<Rightarrow> string + planned_transition" where
  "planHosts plan p hostIds =
     plan_each plan \<lparr>pt_project = p, pt_compatibility = [], pt_unknownFindings = []\<rparr> (js_uniq hostIds)"

text \<open>The results of some hosts before a transition.\<close>

fun baseline_results :: "planner \<Rightarrow> project \<Rightarrow> string list \<Rightarrow> string + project_result list" where
  "baseline_results plan p [] = Inr []"
| "baseline_results plan p (h # hs) =
     try_eval (plan p h) (\<lambda>pl. map_sum id (\<lambda>rs. hpl_results pl @ rs) (baseline_results plan p hs))"

text \<open>The findings of a severity that are enforced in a project, each with its result.\<close>

definition enforced :: "project \<Rightarrow> severity \<Rightarrow> project_result list \<Rightarrow> (project_result \<times> finding) list" where
  "enforced p sev results =
     concat (map (\<lambda>r. map (Pair r) (filter (\<lambda>f. fd_severity f = sev
        \<and> shouldEnforceCompatibilityFinding p r f) (cr_findings r))) results)"

definition introduced ::
  "project \<Rightarrow> severity \<Rightarrow> project_result list \<Rightarrow> project_result list \<Rightarrow> finding list" where
  "introduced p sev baseline results =
     (let known = set (map (\<lambda>(r, f). compatibilityFingerprint r f) (enforced p sev baseline))
      in map snd (filter (\<lambda>(r, f). compatibilityFingerprint r f \<notin> known) (enforced p sev results)))"

definition evaluateTransition ::
  "planner \<Rightarrow> project \<Rightarrow> project \<Rightarrow> string list \<Rightarrow> mutation_result" where
  "evaluateTransition plan original tentative affectedHostIds =
     (let legacyHostIds = filter (\<lambda>h. \<not> host_is_pc_build original h \<and> \<not> host_is_pc_build tentative h)
            (js_uniq affectedHostIds)
      in case try_eval (baseline_results plan original legacyHostIds) (\<lambda>baseline.
                map_sum id (Pair baseline) (planHosts plan tentative legacyHostIds)) of
           Inl e \<Rightarrow> Inl (Thrown e)
         | Inr (baseline, planned) \<Rightarrow>
             let introducedErrors = introduced tentative SevError baseline (pt_compatibility planned)
             in if introducedErrors \<noteq> []
                then Inl (Refused (js_join '' '' (js_uniq (map fd_message introducedErrors)))
                       (Some (pt_compatibility planned)))
                else Inr (planned\<lparr>pt_unknownFindings :=
                       introduced tentative SevUnknown baseline (pt_compatibility planned)\<rparr>))"

subsection \<open>The guards of an assignment\<close>

text \<open>\<open>${item.name}\<close>.\<close>

definition shown_name :: "inventory_item \<Rightarrow> string" where
  "shown_name i = nullish (it_name i) ''undefined''"

definition host_label :: "inventory_item \<Rightarrow> string" where
  "host_label host = (if it_type host = TNas then ''NAS'' else ''server'')"

definition on_host :: "string \<Rightarrow> inventory_type \<Rightarrow> project \<Rightarrow> assignment list" where
  "on_host h t p = filter (\<lambda>a. as_serverId a = h \<and> as_type a = t) (pr_assignments p)"

text \<open>The guard of a power adapter on a NAS.\<close>

definition nas_adapter_error :: "project \<Rightarrow> string \<Rightarrow> inventory_item \<Rightarrow> string option" where
  "nas_adapter_error p serverId host =
     (let (configuration, adapterDisposition) = nasPowerTopology host in
      if configuration \<noteq> ''external-adapter''
      then Some ''This NAS uses an internal PSU. Change it to External power adapter before assigning an adapter.''
      else if adapterDisposition = Some ''fixed''
      then Some ''This NAS includes a fixed OEM power adapter and does not accept an assigned adapter.''
      else if on_host serverId TPowerAdapter p \<noteq> []
      then Some ''This NAS already has a power adapter.''
      else None)"

text \<open>The guard on the number of components, after the item is known to be free.\<close>

definition capacity_error ::
  "project \<Rightarrow> string \<Rightarrow> inventory_item \<Rightarrow> inventory_item \<Rightarrow> string option" where
  "capacity_error p serverId host item =
     (if it_type host = TPcBuild
      then pcBuildComponentLimitMessage
             (filter (\<lambda>a. as_serverId a = serverId) (pr_assignments p)) item
      else if it_type item = TCpu
      then (if hostCpuSocketCount (Some host) \<le> of_nat (length (on_host serverId TCpu p))
            then Some (''This '' @ host_label host @ '' has no available CPU sockets.'') else None)
      else if it_type item \<in> SINGLE_ITEM_TYPES
      then (if on_host serverId (it_type item) p \<noteq> []
            then Some (''This '' @ host_label host @ '' already has a ''
                   @ (if it_type item = TNetwork then ''network card'' else SLOT_LABELS (it_type item)) @ ''.'')
            else None)
      else None)"

definition validateAssignmentBasics :: "project \<Rightarrow> string \<Rightarrow> string \<Rightarrow> string + unit" where
  "validateAssignmentBasics p serverId itemId =
     (case item_at p serverId of
        None \<Rightarrow> Inl ''Drop components onto a server, NAS, or PC Build.''
      | Some host \<Rightarrow>
          if \<not> isHostType (it_type host) then Inl ''Drop components onto a server, NAS, or PC Build.''
          else if isArchivedItem (Some host)
          then Inl (if it_type host = TPcBuild then ''Restore this PC Build before assigning components.''
                    else ''Restore this server or NAS before assigning components.'')
          else case item_at p itemId of
            None \<Rightarrow> Inl ''That inventory item no longer exists.''
          | Some item \<Rightarrow>
              if isArchivedItem (Some item)
              then Inl (''Restore '' @ shown_name item @ '' before assigning it.'')
              else if \<not> isAssignableComponentType (it_type item)
              then Inl ''Canvas equipment belongs on the canvas, not inside another item.''
              else if it_type host = TServer \<and> it_type item \<notin> SERVER_COMPONENT_TYPES
              then Inl SERVER_COMPONENT_MESSAGE
              else if it_type host = TNas \<and> it_type item \<notin> NAS_COMPONENT_TYPES
              then Inl NAS_COMPONENT_MESSAGE
              else case (if it_type host = TNas \<and> it_type item = TPowerAdapter
                         then nas_adapter_error p serverId host else None) of
                Some m \<Rightarrow> Inl m
              | None \<Rightarrow>
                  if it_type host = TPcBuild \<and> it_type item \<notin> PC_BUILD_COMPONENT_TYPES
                  then Inl PC_BUILD_COMPONENT_MESSAGE
                  else case List.find (\<lambda>a. as_itemId a = itemId) (pr_assignments p) of
                    Some a \<Rightarrow>
                      Inl (shown_name item
                        @ (if as_serverId a \<noteq> serverId then '' is already assigned to another item.''
                           else '' is already attached to this item.''))
                  | None \<Rightarrow>
                      (case capacity_error p serverId host item of Some m \<Rightarrow> Inl m | None \<Rightarrow> Inr ()))"

subsection \<open>New assignments and their positions\<close>

definition new_assignment_id :: "project \<Rightarrow> int" where
  "new_assignment_id p =
     (case pr_nextAssignmentId p of
        None \<Rightarrow> nextNumericId (map (\<lambda>a. IdNum (as_id a)) (pr_assignments p))
      | Some n \<Rightarrow> foldl max n (map (\<lambda>a. as_id a + 1) (pr_assignments p)))"

definition newAssignment ::
  "string \<Rightarrow> project \<Rightarrow> string \<Rightarrow> string \<Rightarrow> inventory_item \<Rightarrow> allocation option \<Rightarrow> assignment" where
  "newAssignment now p serverId itemId item al =
     \<lparr>as_id = new_assignment_id p, as_serverId = serverId, as_itemId = itemId,
      as_type = it_type item, as_assignedAt = now, as_allocation = al\<rparr>"

definition assignmentForCandidate ::
  "(inventory_item \<Rightarrow> jsv dict) \<Rightarrow> string \<Rightarrow> project \<Rightarrow> string \<Rightarrow> string \<Rightarrow> inventory_item
     \<Rightarrow> string + assignment" where
  "assignmentForCandidate normReqs now p serverId itemId item =
     (if \<not> host_is_pc_build p serverId then Inr (newAssignment now p serverId itemId item None)
      else case allocatePcBuildAssignment normReqs p serverId item
                  (filter (\<lambda>a. as_serverId a = serverId) (pr_assignments p)) of
             Inl m \<Rightarrow> Inl m
           | Inr al \<Rightarrow> Inr (newAssignment now p serverId itemId item (Some al)))"

text \<open>The loop of \<open>reallocatePcBuildHost\<close>; \<open>ready\<close> are the assignments allocated so far.\<close>

fun reallocate_loop ::
  "(inventory_item \<Rightarrow> jsv dict) \<Rightarrow> project \<Rightarrow> string \<Rightarrow> assignment list \<Rightarrow> assignment list
     \<Rightarrow> string + assignment list" where
  "reallocate_loop normReqs p hostId ready [] = Inr ready"
| "reallocate_loop normReqs p hostId ready (a # as) =
     (case item_at p (as_itemId a) of
        None \<Rightarrow> Inl ''That assigned PC component no longer exists.''
      | Some item \<Rightarrow>
          if \<not> isAssignableComponentType (it_type item)
          then Inl ''That assigned PC component no longer exists.''
          else
            case allocatePcBuildAssignment normReqs
                   (p\<lparr>pr_assignments := filter (\<lambda>c. as_serverId c \<noteq> hostId) (pr_assignments p) @ ready\<rparr>)
                   hostId item ready of
              Inl m \<Rightarrow> Inl m
            | Inr al \<Rightarrow>
                reallocate_loop normReqs p hostId (ready @ [a\<lparr>as_allocation := Some al\<rparr>]) as)"

definition reallocatePcBuildHost ::
  "(inventory_item \<Rightarrow> jsv dict) \<Rightarrow> project \<Rightarrow> string \<Rightarrow> string + project" where
  "reallocatePcBuildHost normReqs p hostId =
     (if \<not> host_is_pc_build p hostId then Inr p
      else
        let hostAssignments = sort_key (\<lambda>a. js_indexOf (as_type a) PC_BUILD_COMPONENT_ORDER)
              (filter (\<lambda>a. as_serverId a = hostId) (pr_assignments p))
        in case reallocate_loop normReqs p hostId [] hostAssignments of
             Inl m \<Rightarrow> Inl m
           | Inr ready \<Rightarrow>
               let replacements = map_from (map (\<lambda>a. (assignmentIdentity a, a)) ready)
               in Inr (p\<lparr>pr_assignments :=
                    map (\<lambda>a. nullish (map_of replacements (assignmentIdentity a)) a) (pr_assignments p)\<rparr>))"

fun reallocate_each ::
  "(inventory_item \<Rightarrow> jsv dict) \<Rightarrow> project \<Rightarrow> string list \<Rightarrow> string + project" where
  "reallocate_each normReqs p [] = Inr p"
| "reallocate_each normReqs p (h # hs) =
     (case reallocatePcBuildHost normReqs p h of
        Inl m \<Rightarrow> Inl m | Inr q \<Rightarrow> reallocate_each normReqs q hs)"

definition reallocatePcBuildHosts ::
  "(inventory_item \<Rightarrow> jsv dict) \<Rightarrow> project \<Rightarrow> string list \<Rightarrow> string + project" where
  "reallocatePcBuildHosts normReqs p hostIds = reallocate_each normReqs p (js_uniq hostIds)"

definition candidateCompatibility :: "project_result list \<Rightarrow> assignment \<Rightarrow> project_result option" where
  "candidateCompatibility results a =
     List.find (\<lambda>r. pcr_hostId r = as_serverId a \<and> pcr_assignmentId r = IdNum (as_id a)) results"

subsection \<open>What a host shows\<close>

text \<open>The comparison by type and then by time; the times are ISO timestamps, on which
  \<open>localeCompare\<close> is the lexicographic order.\<close>

definition sortAssignmentsForDisplay :: "project \<Rightarrow> string \<Rightarrow> assignment list" where
  "sortAssignmentsForDisplay p serverId =
     sort_key (\<lambda>a. (js_indexOf (as_type a) COMPONENT_ORDER, as_assignedAt a))
       (filter (\<lambda>a. as_serverId a = serverId) (pr_assignments p))"

definition getVisibleServerSlotTypes :: "project \<Rightarrow> string \<Rightarrow> inventory_type list" where
  "getVisibleServerSlotTypes p serverId =
     (if host_is_pc_build p serverId then visiblePcBuildSlotTypes p serverId
      else let assignedTypes = set (map as_type (filter (\<lambda>a. as_serverId a = serverId) (pr_assignments p)))
           in filter (\<lambda>t. t \<in> set REQUIRED_SERVER_SLOT_TYPES \<or> t \<in> assignedTypes) COMPONENT_ORDER)"

definition getSlotStatus :: "project \<Rightarrow> string \<Rightarrow> slot_status list" where
  "getSlotStatus p serverId =
     map (\<lambda>t. \<lparr>st_type = t, st_label = SLOT_LABELS t, st_filled = length (on_host serverId t p),
               st_limit = (if t = TStorage \<or> t = TRam then None
                           else if t = TCpu then Some (hostCpuSocketCount (item_at p serverId))
                           else Some 1)\<rparr>) COMPONENT_ORDER"

subsection \<open>Assigning, moving, swapping and removing components\<close>

text \<open>The two parameters of a transition.\<close>

record engine =
  en_plan :: planner
  en_normReqs :: "inventory_item \<Rightarrow> jsv dict"

definition add_assignment :: "assignment \<Rightarrow> project \<Rightarrow> project" where
  "add_assignment a p = p\<lparr>pr_assignments := pr_assignments p @ [a]\<rparr>"

text \<open>The outer \<open>Inl\<close> is a thrown error, the inner one a result with \<open>ok: false\<close>.\<close>

definition validateAssignment ::
  "engine \<Rightarrow> string \<Rightarrow> project \<Rightarrow> string \<Rightarrow> string
     \<Rightarrow> string + ((string \<times> project_result option) + project_result option)" where
  "validateAssignment en now p serverId itemId =
     (case validateAssignmentBasics p serverId itemId of
        Inl m \<Rightarrow> Inr (Inl (m, None))
      | Inr _ \<Rightarrow>
          (case item_at p itemId of
             None \<Rightarrow> Inr (Inl (''That inventory item no longer exists.'', None))
           | Some item \<Rightarrow>
               if \<not> isAssignableComponentType (it_type item)
               then Inr (Inl (''That inventory item no longer exists.'', None))
               else case assignmentForCandidate (en_normReqs en) now p serverId itemId item of
                 Inl m \<Rightarrow> Inr (Inl (m, None))
               | Inr a \<Rightarrow>
                   (case evaluateTransition (en_plan en) p (add_assignment a p) [serverId] of
                      Inl (Thrown e) \<Rightarrow> Inl e
                    | Inl (Refused m rs) \<Rightarrow> Inr (Inl (m, candidateCompatibility (nullish rs []) a))
                    | Inr t \<Rightarrow> Inr (Inr (candidateCompatibility (pt_compatibility t) a)))))"

definition touch_result :: "string \<Rightarrow> mutation_result \<Rightarrow> mutation_result" where
  "touch_result now r =
     (case r of Inl f \<Rightarrow> Inl f | Inr t \<Rightarrow> Inr (t\<lparr>pt_project := touchProject now (pt_project t)\<rparr>))"

definition memory_at :: "int \<Rightarrow> assignment \<Rightarrow> assignment" where
  "memory_at n a =
     a\<lparr>as_allocation := Some \<lparr>al_resourceType = ResMemory, al_groupId = None, al_positions = [n]\<rparr>\<rparr>"

text \<open>A target position that is not a safe integer is ignored everywhere, as \<open>undefined\<close> is.\<close>

definition safe_position :: "int option \<Rightarrow> int option" where
  "safe_position v = (case v of Some n \<Rightarrow> if isSafeInteger n then Some n else None | None \<Rightarrow> None)"

definition tryAssignComponent ::
  "engine \<Rightarrow> string \<Rightarrow> project \<Rightarrow> string \<Rightarrow> string \<Rightarrow> int option \<Rightarrow> mutation_result" where
  "tryAssignComponent en now p serverId itemId targetMemoryPosition =
     (case validateAssignmentBasics p serverId itemId of
        Inl m \<Rightarrow> Inl (failed m)
      | Inr _ \<Rightarrow>
          (case item_at p itemId of
             None \<Rightarrow> Inl (failed ''That inventory item no longer exists.'')
           | Some item \<Rightarrow>
               if \<not> isAssignableComponentType (it_type item)
               then Inl (failed ''That inventory item no longer exists.'')
               else case assignmentForCandidate (en_normReqs en) now p serverId itemId item of
                 Inl m \<Rightarrow> Inl (failed m)
               | Inr a \<Rightarrow>
                   let a' = (case safe_position targetMemoryPosition of
                               Some n \<Rightarrow> if it_type item = TRam \<and> 0 \<le> n then memory_at n a else a
                             | None \<Rightarrow> a)
                   in touch_result now
                        (evaluateTransition (en_plan en) p (add_assignment a' p) [serverId])))"

definition assignComponent ::
  "engine \<Rightarrow> string \<Rightarrow> project \<Rightarrow> string \<Rightarrow> string \<Rightarrow> string + project" where
  "assignComponent en now p serverId itemId =
     (case tryAssignComponent en now p serverId itemId None of
        Inl (Thrown e) \<Rightarrow> Inl e
      | Inl (Refused _ _) \<Rightarrow> Inr p
      | Inr t \<Rightarrow> Inr (pt_project t))"

text \<open>\<open>allocation.positions[0]\<close> of an assignment with a memory allocation.\<close>

definition memory_position :: "assignment \<Rightarrow> int option" where
  "memory_position a =
     (case as_allocation a of
        None \<Rightarrow> None
      | Some al \<Rightarrow>
          if al_resourceType al = ResMemory then (case al_positions al of [] \<Rightarrow> None | n # _ \<Rightarrow> Some n)
          else None)"

text \<open>The assignment of the target host that changes places with the moved one.\<close>

definition move_target :: "project \<Rightarrow> assignment \<Rightarrow> string \<Rightarrow> int option \<Rightarrow> assignment option" where
  "move_target p source targetServerId pos =
     (if as_type source = TRam then
        (case pos of
           None \<Rightarrow> None
         | Some n \<Rightarrow>
             (case List.find (\<lambda>a. as_serverId a = targetServerId \<and> as_type a = TRam
                                 \<and> memory_position a = Some n) (pr_assignments p) of
                Some a \<Rightarrow> Some a
              | None \<Rightarrow>
                  let modules = sort_key as_id (on_host targetServerId TRam p)
                  in if 0 \<le> n \<and> nat n < length modules then Some (modules ! nat n) else None))
      else if as_type source \<in> SWAPPABLE_COMPONENT_TYPES
      then List.find (\<lambda>a. as_serverId a = targetServerId \<and> as_type a = as_type source) (pr_assignments p)
      else None)"

text \<open>The new version of one assignment of the project.\<close>

definition moved ::
  "assignment \<Rightarrow> assignment option \<Rightarrow> string \<Rightarrow> int option \<Rightarrow> assignment \<Rightarrow> assignment" where
  "moved source target targetServerId pos a =
     (if assignmentIdentity a = assignmentIdentity source
      then (let b = a\<lparr>as_serverId := targetServerId\<rparr> in
            case pos of Some n \<Rightarrow> if as_type source = TRam then memory_at n b else b | None \<Rightarrow> b)
      else if map_option assignmentIdentity target = Some (assignmentIdentity a)
      then (let b = a\<lparr>as_serverId := as_serverId source\<rparr> in
            case safe_position (memory_position source) of
              Some n \<Rightarrow> if as_type source = TRam then memory_at n b else b | None \<Rightarrow> b)
      else a)"

definition tentative_move :: "project \<Rightarrow> assignment \<Rightarrow> string \<Rightarrow> int option \<Rightarrow> project" where
  "tentative_move p source targetServerId pos =
     p\<lparr>pr_assignments := map (moved source (move_target p source targetServerId pos) targetServerId pos)
         (pr_assignments p)\<rparr>"

text \<open>The checks of a move that come before the transition; \<open>None\<close> when it may proceed.\<close>

definition move_error ::
  "project \<Rightarrow> assignment \<Rightarrow> string \<Rightarrow> int option \<Rightarrow> string option" where
  "move_error p source targetServerId pos =
     (case move_target p source targetServerId pos of
        Some target \<Rightarrow>
          if item_at p (as_itemId target) = None then Some ''That component or server no longer exists.''
          else if isArchivedItem (item_at p (as_itemId target))
          then Some ''Restore archived components before moving or swapping them.''
          else None
      | None \<Rightarrow>
          (case validateAssignmentBasics
                  (p\<lparr>pr_assignments := filter (\<lambda>a. assignmentIdentity a \<noteq> assignmentIdentity source)
                                         (pr_assignments p)\<rparr>) targetServerId (as_itemId source) of
             Inl m \<Rightarrow> Some m | Inr _ \<Rightarrow> None))"

definition moveAssignedComponent ::
  "engine \<Rightarrow> string \<Rightarrow> project \<Rightarrow> js_id \<Rightarrow> string \<Rightarrow> int option \<Rightarrow> mutation_result" where
  "moveAssignedComponent en now p assignmentId targetServerId targetMemoryPosition =
     (case findAssignmentById (pr_assignments p) assignmentId of
        None \<Rightarrow> Inl (failed ''That assigned component is no longer attached.'')
      | Some source \<Rightarrow>
          (case (item_at p (as_itemId source), item_at p (as_serverId source), item_at p targetServerId) of
             (Some item, Some sourceHost, Some targetHost) \<Rightarrow>
               let pos = safe_position targetMemoryPosition in
               if \<not> isHostType (it_type sourceHost) \<or> \<not> isHostType (it_type targetHost)
               then Inl (failed ''Drop components onto a server, NAS, or PC Build.'')
               else if isArchivedItem (Some item) \<or> isArchivedItem (Some sourceHost)
                       \<or> isArchivedItem (Some targetHost)
               then Inl (failed ''Restore archived components and hosts before moving or swapping them.'')
               else if as_serverId source = targetServerId \<and> (as_type source \<noteq> TRam \<or> pos = None)
               then map_sum Thrown (\<lambda>results. \<lparr>pt_project = p, pt_compatibility = results, pt_unknownFindings = []\<rparr>)
                      (if it_type targetHost = TPcBuild then Inr []
                       else map_sum id hpl_results (en_plan en p targetServerId))
               else case move_error p source targetServerId pos of
                 Some m \<Rightarrow> Inl (failed m)
               | None \<Rightarrow>
                   let tentative = tentative_move p source targetServerId pos in
                   if as_serverId source = targetServerId
                   then touch_result now (evaluateTransition (en_plan en) p tentative [targetServerId])
                   else case reallocatePcBuildHosts (en_normReqs en) tentative
                               [as_serverId source, targetServerId] of
                     Inl m \<Rightarrow> Inl (failed m)
                   | Inr q \<Rightarrow>
                       touch_result now (evaluateTransition (en_plan en) p q
                         [as_serverId source, targetServerId])
           | _ \<Rightarrow> Inl (failed ''That component or server no longer exists.'')))"

definition tryRemoveAssignedComponent :: "string \<Rightarrow> project \<Rightarrow> js_id \<Rightarrow> string + project" where
  "tryRemoveAssignedComponent now p assignmentId =
     (case findAssignmentById (pr_assignments p) assignmentId of
        None \<Rightarrow> Inl ''That assigned component is no longer attached.''
      | Some a \<Rightarrow>
          (case (if host_is_pc_build p (as_serverId a) then canRemovePcBuildAssignment p a else Inr ()) of
             Inl m \<Rightarrow> Inl m
           | Inr _ \<Rightarrow> Inr (touchProject now (p\<lparr>
               pr_assignments := filter (\<lambda>c. assignmentIdentity c \<noteq> assignmentIdentity a) (pr_assignments p),
               pr_connections := filter (\<lambda>c. ep_hostedItemId (c_from c) \<noteq> Some (as_itemId a)
                                           \<and> ep_hostedItemId (c_to c) \<noteq> Some (as_itemId a))
                                   (pr_connections p)\<rparr>))))"

definition getAssignedComponentConnectionIds :: "project \<Rightarrow> js_id \<Rightarrow> int list" where
  "getAssignedComponentConnectionIds p assignmentId =
     (case findAssignmentById (pr_assignments p) assignmentId of
        None \<Rightarrow> []
      | Some a \<Rightarrow> map c_id (filter (\<lambda>c. ep_hostedItemId (c_from c) = Some (as_itemId a)
                                      \<or> ep_hostedItemId (c_to c) = Some (as_itemId a)) (pr_connections p)))"

text \<open>The position a swap of memory aims at: that of the first module on the target host that has a
  memory allocation, or 0 when there is none.\<close>

definition swap_position :: "project \<Rightarrow> string \<Rightarrow> int" where
  "swap_position p targetServerId =
     (case List.find (\<lambda>a. as_serverId a = targetServerId \<and> as_type a = TRam
             \<and> map_option al_resourceType (as_allocation a) = Some ResMemory) (pr_assignments p) of
        None \<Rightarrow> 0
      | Some a \<Rightarrow> nullish (memory_position a) 0)"

definition swapAssignedComponent ::
  "engine \<Rightarrow> string \<Rightarrow> project \<Rightarrow> js_id \<Rightarrow> string \<Rightarrow> mutation_result" where
  "swapAssignedComponent en now p assignmentId targetServerId =
     (case findAssignmentById (pr_assignments p) assignmentId of
        None \<Rightarrow> Inl (failed ''That assigned component is no longer attached.'')
      | Some source \<Rightarrow>
          if as_type source \<notin> SWAPPABLE_COMPONENT_TYPES
          then Inl (failed ''Only CPU and RAM slots can be swapped.'')
          else moveAssignedComponent en now p (IdNum (as_id source)) targetServerId
                 (if as_type source = TRam then Some (swap_position p targetServerId) else None))"

subsection \<open>Notions of the specification\<close>

text \<open>An assignment without its positions, and what a re-planning of hosts may change: the
  positions of assignments on hosts that are not PC builds.\<close>

definition core :: "assignment \<Rightarrow> assignment" where
  "core a = a\<lparr>as_allocation := None\<rparr>"

definition replanned :: "project \<Rightarrow> project \<Rightarrow> bool" where
  "replanned p q \<longleftrightarrow> q = p\<lparr>pr_assignments := pr_assignments q\<rparr>
     \<and> list_all2 (\<lambda>a b. core b = core a \<and> (host_is_pc_build p (as_serverId a) \<longrightarrow> b = a))
         (pr_assignments p) (pr_assignments q)"

text \<open>What the code relies on of \<open>planHostAllocations\<close>: the planned assignments are those of the
  host, copied with a new allocation or with none.\<close>

definition planner_ok :: "planner \<Rightarrow> bool" where
  "planner_ok plan \<longleftrightarrow>
     (\<forall>p h pl. plan p h = Inr pl \<longrightarrow> (\<forall>a \<in> set (hpl_assignments pl). \<exists>b \<in> set (pr_assignments p).
        as_serverId b = h \<and> core a = core b))"

definition unique_assignment_ids :: "project \<Rightarrow> bool" where
  "unique_assignment_ids p \<longleftrightarrow> distinct (map as_id (pr_assignments p))"

text \<open>The type of the item at a key, and that assignments carry the type of their item.\<close>

definition kind_at :: "project \<Rightarrow> string \<Rightarrow> inventory_type option" where
  "kind_at p k = map_option it_type (item_at p k)"

definition types_agree :: "project \<Rightarrow> bool" where
  "types_agree p \<longleftrightarrow>
     (\<forall>a \<in> set (pr_assignments p). map_option it_type (item_at p (as_itemId a)) = Some (as_type a))"

text \<open>A PC build with components has a motherboard; the components of a host do not compete.\<close>

definition boarded :: "project \<Rightarrow> string \<Rightarrow> bool" where
  "boarded p h \<longleftrightarrow> host_is_pc_build p h \<longrightarrow> (\<forall>a \<in> set (pr_assignments p). as_serverId a = h
     \<longrightarrow> (\<exists>b \<in> set (pr_assignments p). as_serverId b = h \<and> as_type b = TMotherboard))"

definition positions_disjoint :: "project \<Rightarrow> string \<Rightarrow> bool" where
  "positions_disjoint p h \<longleftrightarrow>
     (\<forall>a \<in> set (pr_assignments p). \<forall>b \<in> set (pr_assignments p).
        as_serverId a = h \<and> as_serverId b = h \<and> as_id a \<noteq> as_id b \<longrightarrow> alloc_disjoint a b)"

text \<open>The invariant of the assignments: unique ids, no item assigned twice, hosts that are hosts,
  types that agree, and a motherboard in every PC build with components.\<close>

definition assignment_inv :: "project \<Rightarrow> bool" where
  "assignment_inv p \<longleftrightarrow> unique_assignment_ids p \<and> distinct (map as_itemId (pr_assignments p))
     \<and> types_agree p
     \<and> (\<forall>a \<in> set (pr_assignments p). \<exists>t. kind_at p (as_serverId a) = Some t \<and> isHostType t)
     \<and> (\<forall>h. boarded p h)"

section \<open>Lemmas\<close>

subsection \<open>Planning changes only positions\<close>

lemma core_sel [simp]:
  "as_id (core a) = as_id a" "as_serverId (core a) = as_serverId a"
  "as_itemId (core a) = as_itemId a" "as_type (core a) = as_type a"
  by (simp_all add: core_def)

lemma core_allocation [simp]: "core (a\<lparr>as_allocation := x\<rparr>) = core a"
  by (simp add: core_def)

lemma core_eq_sel:
  "core a = core b \<Longrightarrow> as_id a = as_id b" "core a = core b \<Longrightarrow> as_serverId a = as_serverId b"
  "core a = core b \<Longrightarrow> as_itemId a = as_itemId b" "core a = core b \<Longrightarrow> as_type a = as_type b"
  using core_sel by metis+

lemma host_is_pc_build_cong [simp]:
  "host_is_pc_build (p\<lparr>pr_assignments := as\<rparr>) h = host_is_pc_build p h"
  "host_is_pc_build (touchProject now p) h = host_is_pc_build p h"
  by (simp_all add: host_is_pc_build_def)

lemma host_is_pc_build_replanned: "replanned p q \<Longrightarrow> host_is_pc_build q h = host_is_pc_build p h"
  unfolding replanned_def using host_is_pc_build_cong(1) by metis

lemma replanned_refl: "replanned p p"
  by (simp add: replanned_def list_all2_refl)

lemma replanned_trans:
  assumes "replanned p q" "replanned q r"
  shows "replanned p r"
proof -
  have "q = p\<lparr>pr_assignments := pr_assignments q\<rparr>" "r = q\<lparr>pr_assignments := pr_assignments r\<rparr>"
    using assms by (simp_all add: replanned_def)
  then have "r = p\<lparr>pr_assignments := pr_assignments r\<rparr>"
    by (cases p; cases q; cases r) simp
  moreover have "list_all2 (\<lambda>a b. core b = core a \<and> (host_is_pc_build p (as_serverId a) \<longrightarrow> b = a))
      (pr_assignments p) (pr_assignments r)"
  proof (rule list_all2_trans)
    show "list_all2 (\<lambda>a b. core b = core a \<and> (host_is_pc_build p (as_serverId a) \<longrightarrow> b = a))
      (pr_assignments p) (pr_assignments q)"
      using assms(1) by (simp add: replanned_def)
    show "list_all2 (\<lambda>a b. core b = core a \<and> (host_is_pc_build p (as_serverId a) \<longrightarrow> b = a))
      (pr_assignments q) (pr_assignments r)"
      using assms(2) by (simp add: replanned_def host_is_pc_build_replanned [OF assms(1)])
  qed auto
  ultimately show ?thesis by (simp add: replanned_def)
qed

lemma replanned_cores:
  "replanned p q \<Longrightarrow> map core (pr_assignments q) = map core (pr_assignments p)"
  by (auto simp: replanned_def list_all2_conv_all_nth intro: nth_equalityI)

lemma map_via_core:
  assumes "map core as = map core bs"
  shows "map as_id as = map as_id bs" "map as_itemId as = map as_itemId bs"
    "map as_type as = map as_type bs" "map as_serverId as = map as_serverId bs"
proof -
  have "map (f \<circ> core) as = map (f \<circ> core) bs" for f :: "assignment \<Rightarrow> 'x"
    using assms by (metis map_map)
  then have *: "map (\<lambda>a. f (core a)) as = map (\<lambda>a. f (core a)) bs" for f :: "assignment \<Rightarrow> 'x"
    by (simp add: comp_def)
  show "map as_id as = map as_id bs" using * [of as_id] by simp
  show "map as_itemId as = map as_itemId bs" using * [of as_itemId] by simp
  show "map as_type as = map as_type bs" using * [of as_type] by simp
  show "map as_serverId as = map as_serverId bs" using * [of as_serverId] by simp
qed

lemma map_of_map_from_mem: "map_of (map_from es) k = Some v \<Longrightarrow> (k, v) \<in> set es"
  by (auto simp: map_of_map_from dest: map_of_SomeD)

lemma id_unique:
  "distinct (map as_id as) \<Longrightarrow> a \<in> set as \<Longrightarrow> b \<in> set as \<Longrightarrow> as_id a = as_id b \<Longrightarrow> a = b"
  by (auto simp: distinct_map dest: inj_onD)

lemma planner_okE:
  assumes "planner_ok plan" "plan p h = Inr pl" "a \<in> set (hpl_assignments pl)"
  obtains b where "b \<in> set (pr_assignments p)" "as_serverId b = h" "core a = core b"
  using assms unfolding planner_ok_def by blast

lemma plan_host_replanned:
  assumes "planner_ok plan" "unique_assignment_ids (pt_project t)" "plan_host plan t h = Inr u"
  shows "replanned (pt_project t) (pt_project u)"
proof (cases "host_is_pc_build (pt_project t) h")
  case True
  with assms(3) show ?thesis by (simp add: plan_host_def replanned_refl)
next
  case False
  let ?p = "pt_project t"
  obtain pl where pl: "plan ?p h = Inr pl"
    using assms(3) False by (auto simp: plan_host_def try_eval_Inr_iff)
  let ?m = "map_from (map (\<lambda>a. (assignmentIdentity a, a)) (hpl_assignments pl))"
  have "core (nullish (map_of ?m (assignmentIdentity a)) a) = core a"
    if a: "a \<in> set (pr_assignments ?p)" for a
  proof (cases "map_of ?m (assignmentIdentity a)")
    case (Some b)
    then have "b \<in> set (hpl_assignments pl)" "assignmentIdentity b = assignmentIdentity a"
      using map_of_map_from_mem [OF Some] by auto
    then obtain c where "c \<in> set (pr_assignments ?p)" "core b = core c"
      using planner_okE [OF assms(1) pl] by blast
    moreover have "as_id c = as_id a"
      using core_eq_sel(1) [OF \<open>core b = core c\<close>] \<open>assignmentIdentity b = _\<close>
      by (simp add: assignmentIdentity_def)
    ultimately have "core b = core a"
      using id_unique assms(2) a unfolding unique_assignment_ids_def by metis
    with Some show ?thesis by simp
  qed simp
  with False assms(3) pl show ?thesis
    by (auto simp: plan_host_def replanned_def list_all2_map2 intro!: list.rel_refl_strong)
qed

lemma unique_ids_replanned: "replanned p q \<Longrightarrow> unique_assignment_ids q = unique_assignment_ids p"
  using map_via_core(1) [OF replanned_cores] by (simp add: unique_assignment_ids_def)

lemma plan_each_replanned:
  assumes "planner_ok plan" "unique_assignment_ids (pt_project t)" "plan_each plan t hs = Inr u"
  shows "replanned (pt_project t) (pt_project u)"
  using assms(2,3)
proof (induction hs arbitrary: t)
  case (Cons h hs)
  then obtain v where v: "plan_host plan t h = Inr v" "plan_each plan v hs = Inr u"
    by (auto simp: try_eval_Inr_iff)
  note step = plan_host_replanned [OF assms(1) Cons.prems(1) v(1)]
  with Cons.IH [OF _ v(2)] Cons.prems(1) show ?case
    by (auto intro: replanned_trans simp: unique_ids_replanned)
qed (simp add: replanned_refl)

text \<open>What a transition that succeeds has done: planned the hosts that are not PC builds and found
  no error that the hosts did not have.\<close>

lemma evaluateTransition_ok:
  assumes "evaluateTransition plan p q hs = Inr t"
  defines "legacy \<equiv> filter (\<lambda>h. \<not> host_is_pc_build p h \<and> \<not> host_is_pc_build q h) (js_uniq hs)"
  obtains base u where "baseline_results plan p legacy = Inr base" "planHosts plan q legacy = Inr u"
    "pt_project t = pt_project u" "pt_compatibility t = pt_compatibility u"
    "introduced q SevError base (pt_compatibility u) = []"
    "pt_unknownFindings t = introduced q SevUnknown base (pt_compatibility u)"
  using assms
  by (auto simp: evaluateTransition_def try_eval_Inr_iff map_sum_Inr_iff split: sum.splits if_splits)

lemma evaluateTransition_replanned:
  assumes "planner_ok plan" "unique_assignment_ids q" "evaluateTransition plan p q hs = Inr t"
  shows "replanned q (pt_project t)"
  using assms(3)
proof (rule evaluateTransition_ok)
  fix u assume "planHosts plan q (filter (\<lambda>h. \<not> host_is_pc_build p h \<and> \<not> host_is_pc_build q h) (js_uniq hs)) = Inr u"
    and t: "pt_project t = pt_project u"
  from plan_each_replanned [OF assms(1) _ this(1) [unfolded planHosts_def]] assms(2) t show ?thesis by simp
qed

subsection \<open>Fresh ids\<close>

lemma foldl_max: "foldl max n xs = Max (insert n (set xs))" for n :: "'a :: linorder"
proof (induction xs arbitrary: n)
  case (Cons x xs)
  have "insert (max n x) (set xs) \<noteq> {}" by simp
  then show ?case
    using Cons [of "max n x"] by (cases "set xs = {}") (simp_all add: Max_insert max.assoc)
qed simp

interpretation max_id: id_supply "\<lambda>ids. foldl max n (map (\<lambda>i. i + 1) ids)" for n :: int
proof
  fix ids :: "int list"
  have "i < foldl max n (map (\<lambda>i. i + 1) ids)" if "i \<in> set ids" for i
  proof -
    have "i + 1 \<le> Max (insert n (set (map (\<lambda>i. i + 1) ids)))" using that by (intro Max_ge) auto
    then show ?thesis by (simp add: foldl_max)
  qed
  then show "foldl max n (map (\<lambda>i. i + 1) ids) \<notin> set ids" by blast
qed

lemma new_assignment_id_fresh: "new_assignment_id p \<notin> set (map as_id (pr_assignments p))"
  using least_id.supply_fresh [of "map as_id (pr_assignments p)"]
    max_id.supply_fresh [of _ "map as_id (pr_assignments p)"]
  by (auto simp: new_assignment_id_def comp_def split: option.splits)

subsection \<open>The guards\<close>

text \<open>What a passed \<open>validateAssignmentBasics\<close> establishes.\<close>

lemma validateAssignmentBasics_ok:
  assumes "validateAssignmentBasics p serverId itemId = Inr u"
  obtains host item where "item_at p serverId = Some host" "isHostType (it_type host)"
    "\<not> isArchivedItem (Some host)" "item_at p itemId = Some item" "\<not> isArchivedItem (Some item)"
    "isAssignableComponentType (it_type item)"
    "it_type host = TServer \<Longrightarrow> it_type item \<in> SERVER_COMPONENT_TYPES"
    "it_type host = TNas \<Longrightarrow> it_type item \<in> NAS_COMPONENT_TYPES"
    "it_type host = TPcBuild \<Longrightarrow> it_type item \<in> PC_BUILD_COMPONENT_TYPES"
    "itemId \<notin> set (map as_itemId (pr_assignments p))"
    "capacity_error p serverId host item = None"
proof -
  obtain host where host: "item_at p serverId = Some host"
    using assms by (auto simp: validateAssignmentBasics_def split: option.splits)
  obtain item where item: "item_at p itemId = Some item"
    using assms host by (auto simp: validateAssignmentBasics_def split: option.splits if_splits)
  have "itemId \<notin> set (map as_itemId (pr_assignments p))"
    using assms host item
    by (auto simp: validateAssignmentBasics_def find_None_iff_all split: option.splits if_splits)
  moreover have "isHostType (it_type host) \<and> \<not> isArchivedItem (Some host)
      \<and> \<not> isArchivedItem (Some item) \<and> isAssignableComponentType (it_type item)
      \<and> (it_type host = TServer \<longrightarrow> it_type item \<in> SERVER_COMPONENT_TYPES)
      \<and> (it_type host = TNas \<longrightarrow> it_type item \<in> NAS_COMPONENT_TYPES)"
    using assms host item
    by (simp add: validateAssignmentBasics_def split: if_splits)
  moreover have "(it_type host = TPcBuild \<longrightarrow> it_type item \<in> PC_BUILD_COMPONENT_TYPES)
      \<and> capacity_error p serverId host item = None"
    using assms host item
    by (simp add: validateAssignmentBasics_def split: if_splits option.splits)
  ultimately show thesis using host item that by blast
qed

subsection \<open>Reallocating a PC build\<close>

lemma allocatePcBuildAssignment_board:
  assumes "allocatePcBuildAssignment normReqs p h item as = Inr al"
  shows "it_type item = TMotherboard
     \<or> (\<exists>b \<in> set (pr_assignments p). as_serverId b = h \<and> as_type b = TMotherboard)"
proof (rule disjCI)
  assume "\<not> (\<exists>b \<in> set (pr_assignments p). as_serverId b = h \<and> as_type b = TMotherboard)"
  then have "pcBuildMotherboardAssignment p h = None"
    by (auto simp: pcBuildMotherboardAssignment_def find_None_iff_all)
  then show "it_type item = TMotherboard"
    using assms by (auto simp: allocatePcBuildAssignment_def pcBuildMotherboard_def split: if_splits)
qed


lemma reallocate_loop_sound:
  assumes "reallocate_loop normReqs p h ready as = Inr out"
  shows "map core out = map core (ready @ as)"
    and "disjoint_allocations ready \<Longrightarrow> disjoint_allocations out"
  using assms
proof (induction as arbitrary: ready)
  case (Cons a as)
  {
    case 1
    with Cons.IH(1) show ?case by (auto split: option.splits if_splits sum.splits)
  next
    case 2
    then obtain item al where
      al: "allocatePcBuildAssignment normReqs
             (p\<lparr>pr_assignments := filter (\<lambda>c. as_serverId c \<noteq> h) (pr_assignments p) @ ready\<rparr>)
             h item ready = Inr al"
      and rest: "reallocate_loop normReqs p h (ready @ [a\<lparr>as_allocation := Some al\<rparr>]) as = Inr out"
      by (auto split: option.splits if_splits sum.splits)
    have "disjoint_allocations (ready @ [a\<lparr>as_allocation := Some al\<rparr>])"
      using pc_assignments.disjoint_snoc [OF 2(1), of "(normReqs,
        p\<lparr>pr_assignments := filter (\<lambda>c. as_serverId c \<noteq> h) (pr_assignments p) @ ready\<rparr>, h, item)"] al
      by simp
    then show ?case by (rule Cons.IH(2) [OF _ rest])
  }
qed simp_all

text \<open>A PC build that has components has a motherboard once it is reallocated.\<close>

lemma reallocate_loop_board:
  assumes "reallocate_loop normReqs p h ready as = Inr out"
    and "\<forall>a \<in> set as. map_option it_type (item_at p (as_itemId a)) = Some (as_type a)"
    and "\<forall>b \<in> set ready. \<exists>c \<in> set ready. as_type c = TMotherboard"
  shows "\<forall>b \<in> set out. \<exists>c \<in> set out. as_type c = TMotherboard"
  using assms
proof (induction as arbitrary: ready)
  case (Cons a as)
  then obtain item al where item: "item_at p (as_itemId a) = Some item" "it_type item = as_type a"
    and al: "allocatePcBuildAssignment normReqs
             (p\<lparr>pr_assignments := filter (\<lambda>c. as_serverId c \<noteq> h) (pr_assignments p) @ ready\<rparr>)
             h item ready = Inr al"
    and rest: "reallocate_loop normReqs p h (ready @ [a\<lparr>as_allocation := Some al\<rparr>]) as = Inr out"
    by (auto split: option.splits if_splits sum.splits)
  have "as_type a = TMotherboard \<or> (\<exists>b \<in> set ready. as_type b = TMotherboard)"
    using allocatePcBuildAssignment_board [OF al] item by auto
  then show ?case using Cons.IH [OF rest] Cons.prems(2) by auto
qed simp

lemma sorted_wrt_sym:
  "sorted_wrt R xs \<Longrightarrow> (\<And>a b. R a b = R b a) \<Longrightarrow> a \<in> set xs \<Longrightarrow> b \<in> set xs \<Longrightarrow> a \<noteq> b \<Longrightarrow> R a b"
  by (induction xs) auto

lemma disjoint_in:
  "disjoint_allocations as \<Longrightarrow> a \<in> set as \<Longrightarrow> b \<in> set as \<Longrightarrow> a \<noteq> b \<Longrightarrow> alloc_disjoint a b"
  unfolding disjoint_allocations_def by (rule sorted_wrt_sym [OF _ alloc_disjoint_sym])

text \<open>The replacement of a host's assignments by their reallocated versions.\<close>

lemma replacement:
  assumes "distinct (map as_id as)"
    and "mset (map core ready) = mset (map core (filter (\<lambda>a. as_serverId a = h) as))"
  defines "new \<equiv> \<lambda>a. nullish (map_of (map_from (map (\<lambda>a. (assignmentIdentity a, a)) ready))
                              (assignmentIdentity a)) a"
  shows "a \<in> set as \<Longrightarrow> as_serverId a \<noteq> h \<Longrightarrow> new a = a"
    and "a \<in> set as \<Longrightarrow> as_serverId a = h \<Longrightarrow> new a \<in> set ready \<and> core (new a) = core a"
    and "r \<in> set ready \<Longrightarrow> as_serverId r = h \<and> r \<in> new ` set as"
proof -
  let ?es = "map (\<lambda>a. (assignmentIdentity a, a)) ready"
  have cores: "core ` set ready = core ` {a \<in> set as. as_serverId a = h}"
    using mset_eq_setD [OF assms(2)] by (simp only: set_map set_filter)
  have hosts: "as_serverId r = h" if "r \<in> set ready" for r
  proof -
    have "core r \<in> core ` {a \<in> set as. as_serverId a = h}" using that cores by blast
    then obtain a where "as_serverId a = h" "core r = core a" by auto
    then show ?thesis using core_eq_sel(2) [of r a] by simp
  qed
  have "distinct (map as_id (filter (\<lambda>a. as_serverId a = h) as))"
    using assms(1) by (rule distinct_map_filter)
  moreover have "mset (map as_id ready) = mset (map as_id (filter (\<lambda>a. as_serverId a = h) as))"
    using arg_cong [OF assms(2), of "image_mset as_id"] by (simp add: image_mset.compositionality comp_def)
  ultimately have ids: "distinct (map as_id ready)" using mset_eq_imp_distinct_iff by blast
  then have keys: "distinct (map fst ?es)"
    by (auto simp: distinct_map inj_on_def assignmentIdentity_def)
  have look: "map_of (map_from ?es) (assignmentIdentity r) = Some r" if "r \<in> set ready" for r
    using that map_of_rev_distinct [OF keys] map_of_is_SomeI [OF keys]
    by (auto simp: map_of_map_from)
  {
    fix a assume a: "a \<in> set as"
    show "new a = a" if "as_serverId a \<noteq> h"
    proof -
      have "map_of (map_from ?es) (assignmentIdentity a) = None"
        using that hosts map_of_map_from_mem [of ?es "assignmentIdentity a"]
        by (cases "map_of (map_from ?es) (assignmentIdentity a)") (auto simp: assignmentIdentity_def)
      then show ?thesis by (simp add: new_def)
    qed
    show "new a \<in> set ready \<and> core (new a) = core a" if h: "as_serverId a = h"
    proof -
      obtain r where "r \<in> set ready" "core r = core a" using a h cores by (metis (mono_tags, lifting) imageE image_eqI mem_Collect_eq)
      moreover have "assignmentIdentity a = assignmentIdentity r"
        using core_eq_sel(1,2) [OF \<open>core r = core a\<close>] by (simp add: assignmentIdentity_def)
      ultimately show ?thesis by (simp add: new_def look)
    qed
  }
  assume r: "r \<in> set ready"
  then obtain a where "a \<in> set as" "core r = core a" using cores by (metis (mono_tags, lifting) imageE image_eqI mem_Collect_eq)
  moreover have "assignmentIdentity a = assignmentIdentity r"
    using core_eq_sel(1,2) [OF \<open>core r = core a\<close>] by (simp add: assignmentIdentity_def)
  ultimately have "new a = r" by (simp add: new_def look [OF r])
  with \<open>a \<in> set as\<close> hosts [OF r] show "as_serverId r = h \<and> r \<in> new ` set as" by blast
qed

text \<open>The reallocation of one host.\<close>

lemma reallocatePcBuildHost_sound:
  assumes "reallocatePcBuildHost normReqs p h = Inr q" "unique_assignment_ids p"
  shows "q = p\<lparr>pr_assignments := pr_assignments q\<rparr>"
    and "list_all2 (\<lambda>a b. core b = core a \<and> (as_serverId a \<noteq> h \<longrightarrow> b = a))
           (pr_assignments p) (pr_assignments q)"
    and "host_is_pc_build p h \<or> positions_disjoint p h \<Longrightarrow> positions_disjoint q h"
    and "types_agree p \<Longrightarrow> boarded q h"
proof -
  consider (other) "\<not> host_is_pc_build p h" "q = p"
    | (pc) "host_is_pc_build p h" using assms(1) by (auto simp: reallocatePcBuildHost_def split: if_splits)
  then have "q = p\<lparr>pr_assignments := pr_assignments q\<rparr>
    \<and> list_all2 (\<lambda>a b. core b = core a \<and> (as_serverId a \<noteq> h \<longrightarrow> b = a)) (pr_assignments p) (pr_assignments q)
    \<and> (host_is_pc_build p h \<or> positions_disjoint p h \<longrightarrow> positions_disjoint q h)
    \<and> (types_agree p \<longrightarrow> boarded q h)"
  proof cases
    case other
    then show ?thesis by (simp add: boarded_def list_all2_refl)
  next
    case pc
    let ?hosted = "sort_key (\<lambda>a. js_indexOf (as_type a) PC_BUILD_COMPONENT_ORDER)
              (filter (\<lambda>a. as_serverId a = h) (pr_assignments p))"
    let ?new = "\<lambda>ready a. nullish (map_of (map_from (map (\<lambda>a. (assignmentIdentity a, a)) ready))
                              (assignmentIdentity a)) a"
    obtain ready where loop: "reallocate_loop normReqs p h [] ?hosted = Inr ready"
      and q: "q = p\<lparr>pr_assignments := map (?new ready) (pr_assignments p)\<rparr>"
      using assms(1) pc by (auto simp: reallocatePcBuildHost_def split: sum.splits)
    have cores: "map core ready = map core ?hosted" using reallocate_loop_sound(1) [OF loop] by simp
    then have "mset (map core ready) = mset (map core (filter (\<lambda>a. as_serverId a = h) (pr_assignments p)))"
      by simp
    note new = replacement [OF assms(2) [unfolded unique_assignment_ids_def] this]
    have disj: "disjoint_allocations ready"
      using reallocate_loop_sound(2) [OF loop] by (simp add: disjoint_allocations_def)
    have mem: "b \<in> set ready" if b: "b \<in> set (pr_assignments q)" "as_serverId b = h" for b
    proof -
      obtain a where a: "a \<in> set (pr_assignments p)" "b = ?new ready a"
        using b(1) by (auto simp: q)
      show ?thesis
      proof (cases "as_serverId a = h")
        case True
        show ?thesis using new(2) [OF a(1) True] unfolding a(2) by (rule conjunct1)
      next
        case False
        then show ?thesis using new(1) [OF a(1) False] b(2) unfolding a(2) by simp
      qed
    qed
    have "list_all2 (\<lambda>a b. core b = core a \<and> (as_serverId a \<noteq> h \<longrightarrow> b = a))
        (pr_assignments p) (pr_assignments q)"
    proof -
      have "core (?new ready a) = core a \<and> (as_serverId a \<noteq> h \<longrightarrow> ?new ready a = a)"
        if "a \<in> set (pr_assignments p)" for a
        using new(1,2) [OF that] by (cases "as_serverId a = h") auto
      then show ?thesis unfolding q by (simp add: list_all2_map2 list.rel_refl_strong)
    qed
    moreover have "positions_disjoint q h"
      unfolding positions_disjoint_def using mem disjoint_in [OF disj] by metis
    moreover have "boarded q h" if "types_agree p"
    proof -
      have "\<forall>b \<in> set ready. \<exists>c \<in> set ready. as_type c = TMotherboard"
        using reallocate_loop_board [OF loop] that by (auto simp: types_agree_def)
      moreover have "c \<in> set (pr_assignments q) \<and> as_serverId c = h" if "c \<in> set ready" for c
        using new(3) [OF that] by (simp add: q)
      ultimately show ?thesis unfolding boarded_def using mem by blast
    qed
    ultimately show ?thesis by (simp add: q)
  qed
  then show "q = p\<lparr>pr_assignments := pr_assignments q\<rparr>"
    "list_all2 (\<lambda>a b. core b = core a \<and> (as_serverId a \<noteq> h \<longrightarrow> b = a)) (pr_assignments p) (pr_assignments q)"
    "host_is_pc_build p h \<or> positions_disjoint p h \<Longrightarrow> positions_disjoint q h"
    "types_agree p \<Longrightarrow> boarded q h" by blast+
qed

subsection \<open>The invariant\<close>

text \<open>The invariant reads the assignments only up to their positions, and the items only up to
  their types.\<close>

lemma assignment_inv_cong:
  assumes "map core (pr_assignments q) = map core (pr_assignments p)" "kind_at q = kind_at p"
  shows "assignment_inv q = assignment_inv p"
proof -
  have *: "core ` set (pr_assignments q) = core ` set (pr_assignments p)"
    using arg_cong [OF assms(1), of set] by (simp only: set_map)
  have all: "(\<forall>a \<in> set (pr_assignments q). P (core a)) = (\<forall>a \<in> set (pr_assignments p). P (core a))" for P
    using arg_cong [OF *, of "\<lambda>C. Ball C P"] by simp
  have ex: "(\<exists>a \<in> set (pr_assignments q). P (core a)) = (\<exists>a \<in> set (pr_assignments p). P (core a))" for P
    using arg_cong [OF *, of "\<lambda>C. Bex C P"] by simp
  have "types_agree q = types_agree p"
    using all [of "\<lambda>a. kind_at p (as_itemId a) = Some (as_type a)"] assms(2)
    by (simp add: types_agree_def kind_at_def [symmetric])
  moreover have "boarded q h = boarded p h" for h
    using all [of "\<lambda>a. as_serverId a \<noteq> h"] ex [of "\<lambda>a. as_serverId a = h \<and> as_type a = TMotherboard"] assms(2)
    by (auto simp: boarded_def host_is_pc_build_def kind_at_def [symmetric])
  moreover have "(\<forall>a \<in> set (pr_assignments q). \<exists>t. kind_at q (as_serverId a) = Some t \<and> isHostType t)
      = (\<forall>a \<in> set (pr_assignments p). \<exists>t. kind_at p (as_serverId a) = Some t \<and> isHostType t)"
    using all [of "\<lambda>a. \<exists>t. kind_at p (as_serverId a) = Some t \<and> isHostType t"] assms(2) by simp
  ultimately show ?thesis
    using map_via_core(1,2) [OF assms(1)] by (simp add: assignment_inv_def unique_assignment_ids_def)
qed

lemma kind_at_cong [simp]:
  "kind_at (p\<lparr>pr_assignments := as\<rparr>) = kind_at p" "kind_at (p\<lparr>pr_connections := cs\<rparr>) = kind_at p"
  "kind_at (p\<lparr>pr_placements := pls\<rparr>) = kind_at p" "kind_at (touchProject now p) = kind_at p"
  by (rule ext, simp add: kind_at_def)+

lemma assignment_inv_touch [simp]: "assignment_inv (touchProject now p) = assignment_inv p"
  by (rule assignment_inv_cong) simp_all

lemma kind_at_only_assignments: "q = p\<lparr>pr_assignments := as\<rparr> \<Longrightarrow> kind_at q = kind_at p"
  by simp

lemma kind_at_replanned: "replanned p q \<Longrightarrow> kind_at q = kind_at p"
  unfolding replanned_def by (erule conjE, erule kind_at_only_assignments)

lemma assignment_inv_replanned: "replanned p q \<Longrightarrow> assignment_inv q = assignment_inv p"
  by (rule assignment_inv_cong [OF replanned_cores kind_at_replanned])

lemma host_is_pc_build_kind: "host_is_pc_build p h \<longleftrightarrow> kind_at p h = Some TPcBuild"
  by (simp add: host_is_pc_build_def kind_at_def)

subsection \<open>Assigning\<close>

lemma touch_result_Inr:
  "touch_result now r = Inr t \<Longrightarrow> \<exists>t'. r = Inr t' \<and> pt_project t = touchProject now (pt_project t')
     \<and> pt_compatibility t = pt_compatibility t'"
  by (auto simp: touch_result_def split: sum.splits)

lemma memory_at_core [simp]: "core (memory_at n a) = core a"
  by (simp add: memory_at_def)

lemma tryAssign_shape:
  assumes "tryAssignComponent en now p s i pos = Inr t"
  obtains item a t' where "validateAssignmentBasics p s i = Inr ()" "item_at p i = Some item"
    "core a = newAssignment now p s i item None"
    "evaluateTransition (en_plan en) p (add_assignment a p) [s] = Inr t'"
    "pt_project t = touchProject now (pt_project t')" "pt_compatibility t = pt_compatibility t'"
    "host_is_pc_build p s \<Longrightarrow> \<exists>al. allocatePcBuildAssignment (en_normReqs en) p s item
        (filter (\<lambda>a. as_serverId a = s) (pr_assignments p)) = Inr al
        \<and> (it_type item \<noteq> TRam \<or> pos = None \<longrightarrow> as_allocation a = Some al)"
proof -
  obtain item where basics: "validateAssignmentBasics p s i = Inr ()" and item: "item_at p i = Some item"
    using assms by (auto simp: tryAssignComponent_def split: sum.splits option.splits)
  obtain c where c: "assignmentForCandidate (en_normReqs en) now p s i item = Inr c"
    using assms item by (auto simp: tryAssignComponent_def split: sum.splits if_splits)
  define a where "a = (case safe_position pos of
      Some n \<Rightarrow> if it_type item = TRam \<and> 0 \<le> n then memory_at n c else c | None \<Rightarrow> c)"
  have "touch_result now (evaluateTransition (en_plan en) p (add_assignment a p) [s]) = Inr t"
    using assms item c by (auto simp: tryAssignComponent_def a_def split: sum.splits if_splits)
  then obtain t' where t': "evaluateTransition (en_plan en) p (add_assignment a p) [s] = Inr t'"
    "pt_project t = touchProject now (pt_project t')" "pt_compatibility t = pt_compatibility t'"
    using touch_result_Inr by blast
  have "core c = newAssignment now p s i item None"
    using c by (auto simp: assignmentForCandidate_def newAssignment_def core_def split: if_splits sum.splits)
  then have core: "core a = newAssignment now p s i item None"
    by (simp add: a_def split: option.splits)
  have "\<exists>al. allocatePcBuildAssignment (en_normReqs en) p s item
        (filter (\<lambda>a. as_serverId a = s) (pr_assignments p)) = Inr al
        \<and> (it_type item \<noteq> TRam \<or> pos = None \<longrightarrow> as_allocation a = Some al)" if "host_is_pc_build p s"
    using c that
    by (auto simp: assignmentForCandidate_def newAssignment_def a_def safe_position_def
        split: sum.splits option.splits)
  with basics item core t' that show thesis by blast
qed

lemma unique_ids_add:
  "unique_assignment_ids p \<Longrightarrow> as_id a = new_assignment_id p \<Longrightarrow> unique_assignment_ids (add_assignment a p)"
  using new_assignment_id_fresh [of p] by (simp add: unique_assignment_ids_def add_assignment_def)

lemma tryAssign_inv:
  assumes "planner_ok (en_plan en)" "assignment_inv p" "tryAssignComponent en now p s i pos = Inr t"
  shows "assignment_inv (pt_project t)"
  using assms(3)
proof (cases rule: tryAssign_shape)
  case (1 item a t')
  note inv = assms(2) [unfolded assignment_inv_def]
  have a: "as_id a = new_assignment_id p" "as_serverId a = s" "as_itemId a = i" "as_type a = it_type item"
    using core_sel [of a] 1(3) by (simp_all add: newAssignment_def)
  obtain host where host: "item_at p s = Some host" "isHostType (it_type host)"
    and free: "i \<notin> set (map as_itemId (pr_assignments p))"
    using 1(1) by (rule validateAssignmentBasics_ok)
  have uniq: "unique_assignment_ids (add_assignment a p)" using unique_ids_add inv a(1) by blast
  have "it_type item = TMotherboard
      \<or> (\<exists>b \<in> set (pr_assignments p). as_serverId b = s \<and> as_type b = TMotherboard)"
    if "host_is_pc_build p s"
    using 1(7) [OF that] allocatePcBuildAssignment_board by blast
  moreover have "boarded p h" for h using inv by blast
  ultimately have "boarded (add_assignment a p) h" for h
    using a unfolding boarded_def add_assignment_def by fastforce
  then have "assignment_inv (add_assignment a p)"
    using inv uniq free host a 1(2)
    by (auto simp: assignment_inv_def add_assignment_def types_agree_def kind_at_def)
  moreover have "replanned (add_assignment a p) (pt_project t')"
    by (rule evaluateTransition_replanned [OF assms(1) uniq 1(4)])
  ultimately show ?thesis by (simp add: 1(5) assignment_inv_replanned)
qed

subsection \<open>Moving\<close>

lemma boarded_cong:
  assumes "map core (pr_assignments q) = map core (pr_assignments p)" "kind_at q = kind_at p"
  shows "boarded q h = boarded p h"
proof -
  have *: "core ` set (pr_assignments q) = core ` set (pr_assignments p)"
    using arg_cong [OF assms(1), of set] by (simp only: set_map)
  show ?thesis
    using arg_cong [OF *, of "\<lambda>C. \<forall>a \<in> C. as_serverId a \<noteq> h"]
      arg_cong [OF *, of "\<lambda>C. \<exists>a \<in> C. as_serverId a = h \<and> as_type a = TMotherboard"] assms(2)
    by (auto simp: boarded_def host_is_pc_build_kind)
qed

lemma types_agree_cong:
  assumes "map core (pr_assignments q) = map core (pr_assignments p)" "kind_at q = kind_at p"
  shows "types_agree q = types_agree p"
proof -
  have *: "core ` set (pr_assignments q) = core ` set (pr_assignments p)"
    using arg_cong [OF assms(1), of set] by (simp only: set_map)
  show ?thesis
    using arg_cong [OF *, of "\<lambda>C. \<forall>a \<in> C. kind_at p (as_itemId a) = Some (as_type a)"] assms(2)
    by (simp add: types_agree_def kind_at_def [symmetric])
qed

lemma all2_cores:
  "list_all2 (\<lambda>a b. core b = core a \<and> P a b) as bs \<Longrightarrow> map core bs = map core as"
  by (induction rule: list_all2_induct) auto

text \<open>The assignments of a host are among those kept by a change of other hosts.\<close>

lemma positions_disjoint_other:
  assumes "positions_disjoint p h"
    and "list_all2 (\<lambda>a b. core b = core a \<and> (as_serverId a = h \<longrightarrow> b = a))
           (pr_assignments p) (pr_assignments q)"
  shows "positions_disjoint q h"
proof -
  have "b \<in> set (pr_assignments p)" if b: "b \<in> set (pr_assignments q)" "as_serverId b = h" for b
  proof -
    obtain i where i: "i < length (pr_assignments q)" "b = pr_assignments q ! i"
      using b(1) by (auto simp: in_set_conv_nth)
    let ?a = "pr_assignments p ! i"
    have "core b = core ?a \<and> (as_serverId ?a = h \<longrightarrow> b = ?a)" "i < length (pr_assignments p)"
      using assms(2) i by (auto simp: list_all2_conv_all_nth)
    then show ?thesis using core_eq_sel(2) [of b ?a] b(2) by auto
  qed
  then show ?thesis using assms(1) by (auto simp: positions_disjoint_def)
qed

lemma reallocate_each_sound:
  assumes "reallocate_each normReqs p hs = Inr q" "unique_assignment_ids p"
  shows "q = p\<lparr>pr_assignments := pr_assignments q\<rparr>
    \<and> map core (pr_assignments q) = map core (pr_assignments p)
    \<and> (\<forall>h. h \<in> set hs \<and> host_is_pc_build p h \<or> positions_disjoint p h \<longrightarrow> positions_disjoint q h)
    \<and> (types_agree p \<longrightarrow> (\<forall>h. h \<in> set hs \<or> boarded p h \<longrightarrow> boarded q h))"
  using assms
proof (induction hs arbitrary: p)
  case (Cons k hs)
  then obtain r where r: "reallocatePcBuildHost normReqs p k = Inr r"
    and rest: "reallocate_each normReqs r hs = Inr q" by (auto split: sum.splits)
  note sound = reallocatePcBuildHost_sound [OF r Cons.prems(2)]
  have cores: "map core (pr_assignments r) = map core (pr_assignments p)"
    using sound(2) by (rule all2_cores)
  have kinds: "kind_at r = kind_at p" using sound(1) by (rule kind_at_only_assignments)
  have uniq: "unique_assignment_ids r"
    using Cons.prems(2) map_via_core(1) [OF cores] by (simp add: unique_assignment_ids_def)
  have disj: "positions_disjoint r h" if "h = k \<and> host_is_pc_build p h \<or> positions_disjoint p h" for h
  proof (cases "h = k")
    case False
    have "list_all2 (\<lambda>a b. core b = core a \<and> (as_serverId a = h \<longrightarrow> b = a))
        (pr_assignments p) (pr_assignments r)"
      using sound(2) by (rule list_all2_mono) (use False in auto)
    then show ?thesis using False that positions_disjoint_other by blast
  qed (use sound(3) that in blast)
  have board: "boarded r h" if "types_agree p" "h = k \<or> boarded p h" for h
    using that sound(4) boarded_cong [OF cores kinds] by blast
  have "q = p\<lparr>pr_assignments := pr_assignments q\<rparr>"
    using Cons.IH [OF rest uniq] sound(1) by (cases p; cases q; cases r) simp
  then show ?case
    using Cons.IH [OF rest uniq] cores disj board types_agree_cong [OF cores kinds]
    by (auto simp: host_is_pc_build_kind kinds)
qed simp

lemma findAssignmentById_mem: "findAssignmentById as i = Some a \<Longrightarrow> a \<in> set as"
proof (cases "List.find (\<lambda>a. IdNum (as_id a) = i) as")
  case None
  assume "findAssignmentById as i = Some a"
  then have "filter (\<lambda>a. show_int (as_id a) = js_String i) as = [a]"
    using None by (auto simp: findAssignmentById_def split: list.splits)
  then have "a \<in> set (filter (\<lambda>a. show_int (as_id a) = js_String i) as)" by simp
  then show ?thesis by simp
qed (auto simp: findAssignmentById_def dest: find_Some_iff_first)

lemma move_target_host:
  "move_target p source tgt pos = Some a \<Longrightarrow> as_serverId a = tgt \<and> a \<in> set (pr_assignments p)"
proof -
  have "modules ! nat n \<in> set (pr_assignments p) \<and> as_serverId (modules ! nat n) = tgt"
    if "modules = sort_key as_id (on_host tgt TRam p)" "nat n < length modules" for modules n
    using nth_mem [OF that(2)] unfolding that(1) by (simp add: on_host_def)
  then show "move_target p source tgt pos = Some a \<Longrightarrow> ?thesis"
    by (auto simp: move_target_def split: if_splits option.splits dest!: find_Some_iff_first)
qed

lemma moved_sel [simp]:
  "as_id (moved source target tgt pos a) = as_id a"
  "as_itemId (moved source target tgt pos a) = as_itemId a"
  "as_type (moved source target tgt pos a) = as_type a"
  by (auto simp: moved_def memory_at_def split: option.split)

lemma moved_host:
  "as_serverId (moved source target tgt pos a) =
     (if assignmentIdentity a = assignmentIdentity source then tgt
      else if map_option assignmentIdentity target = Some (assignmentIdentity a) then as_serverId source
      else as_serverId a)"
  by (auto simp: moved_def memory_at_def split: option.split)

lemma hosts_cong:
  assumes "map as_serverId (pr_assignments q) = map as_serverId (pr_assignments p)"
  shows "(\<forall>a \<in> set (pr_assignments q). P (as_serverId a)) = (\<forall>a \<in> set (pr_assignments p). P (as_serverId a))"
  using arg_cong [OF assms, of "\<lambda>hs. \<forall>h \<in> set hs. P h"] by simp

text \<open>A move keeps everything of the invariant but the boards of the two hosts.\<close>

lemma tentative_move_inv:
  fixes pos :: "int option"
  assumes "assignment_inv p" "source \<in> set (pr_assignments p)"
    and "kind_at p tgt = Some k" "isHostType k"
  defines "q \<equiv> tentative_move p source tgt pos"
  shows "unique_assignment_ids q" "distinct (map as_itemId (pr_assignments q))" "types_agree q"
    and "\<forall>a \<in> set (pr_assignments q). \<exists>t. kind_at q (as_serverId a) = Some t \<and> isHostType t"
    and "h \<noteq> as_serverId source \<Longrightarrow> h \<noteq> tgt \<Longrightarrow> boarded q h"
    and "kind_at q = kind_at p"
proof -
  note inv = assms(1) [unfolded assignment_inv_def]
  let ?m = "moved source (move_target p source tgt pos) tgt pos"
  have q: "pr_assignments q = map ?m (pr_assignments p)" by (simp add: q_def tentative_move_def)
  show kinds: "kind_at q = kind_at p" by (simp add: q_def tentative_move_def)
  show "unique_assignment_ids q" "distinct (map as_itemId (pr_assignments q))"
    using inv by (simp_all add: unique_assignment_ids_def q comp_def)
  show "types_agree q"
    using inv kinds by (simp add: types_agree_def q kind_at_def [symmetric])
  show "\<forall>a \<in> set (pr_assignments q). \<exists>t. kind_at q (as_serverId a) = Some t \<and> isHostType t"
    using inv assms(2-4) kinds by (auto simp: q moved_host)
  show "boarded q h" if h: "h \<noteq> as_serverId source" "h \<noteq> tgt"
  proof -
    have target: "as_serverId a = tgt"
      if "map_option assignmentIdentity (move_target p source tgt pos) = Some (assignmentIdentity a)" for a
      using that move_target_host by (auto simp: assignmentIdentity_def)
    have same: "as_serverId (?m a) = h \<longleftrightarrow> as_serverId a = h" for a
      using h target [of a] unfolding moved_host by (auto simp: assignmentIdentity_def)
    have "boarded p h" using inv by blast
    then show ?thesis
      by (simp add: boarded_def host_is_pc_build_kind kinds q same)
  qed
qed

text \<open>The three ways a move can succeed.\<close>

lemma move_shape:
  assumes "moveAssignedComponent en now p aid tgt tpos = Inr t"
  obtains (idle) source where "findAssignmentById (pr_assignments p) aid = Some source"
      "as_serverId source = tgt" "pt_project t = p" "as_type source \<noteq> TRam \<or> safe_position tpos = None"
  | (slot) source k n t' where "findAssignmentById (pr_assignments p) aid = Some source"
      "kind_at p tgt = Some k" "isHostType k" "as_serverId source = tgt" "as_type source = TRam"
      "safe_position tpos = Some n"
      "evaluateTransition (en_plan en) p (tentative_move p source tgt (Some n)) [tgt] = Inr t'"
      "pt_project t = touchProject now (pt_project t')"
  | (across) source k r t' where "findAssignmentById (pr_assignments p) aid = Some source"
      "kind_at p tgt = Some k" "isHostType k" "as_serverId source \<noteq> tgt"
      "move_error p source tgt (safe_position tpos) = None"
      "reallocatePcBuildHosts (en_normReqs en) (tentative_move p source tgt (safe_position tpos))
         [as_serverId source, tgt] = Inr r"
      "evaluateTransition (en_plan en) p r [as_serverId source, tgt] = Inr t'"
      "pt_project t = touchProject now (pt_project t')"
      "\<exists>k'. kind_at p (as_serverId source) = Some k' \<and> isHostType k'"
proof -
  obtain source where s: "findAssignmentById (pr_assignments p) aid = Some source"
    using assms by (auto simp: moveAssignedComponent_def split: option.splits)
  obtain item sh th where i: "item_at p (as_itemId source) = Some item"
    "item_at p (as_serverId source) = Some sh" "item_at p tgt = Some th"
    using assms s by (auto simp: moveAssignedComponent_def split: option.splits)
  have th: "kind_at p tgt = Some (it_type th)" "isHostType (it_type th)"
    "kind_at p (as_serverId source) = Some (it_type sh)" "isHostType (it_type sh)"
    using assms s i by (auto simp: moveAssignedComponent_def kind_at_def split: if_splits)
  show thesis
  proof (cases "as_serverId source = tgt \<and> (as_type source \<noteq> TRam \<or> safe_position tpos = None)")
    case True
    then have "pt_project t = p"
      using assms s i by (auto simp: map_sum_Inr_iff moveAssignedComponent_def split: if_splits)
    with s True show thesis by (intro idle) auto
  next
    case moves: False
    then have err: "move_error p source tgt (safe_position tpos) = None"
      using assms s i by (auto simp: moveAssignedComponent_def split: if_splits option.splits)
    let ?q = "tentative_move p source tgt (safe_position tpos)"
    show thesis
    proof (cases "as_serverId source = tgt")
      case True
      with moves obtain n where n: "as_type source = TRam" "safe_position tpos = Some n" by auto
      have "touch_result now (evaluateTransition (en_plan en) p ?q [tgt]) = Inr t"
        using assms s i moves err True by (auto simp: moveAssignedComponent_def split: if_splits)
      then obtain t' where "evaluateTransition (en_plan en) p ?q [tgt] = Inr t'"
        "pt_project t = touchProject now (pt_project t')" using touch_result_Inr by blast
      with s th True n show thesis by (intro slot) auto
    next
      case False
      then obtain r where r: "reallocatePcBuildHosts (en_normReqs en) ?q [as_serverId source, tgt] = Inr r"
        and "touch_result now (evaluateTransition (en_plan en) p r [as_serverId source, tgt]) = Inr t"
        using assms s i moves err by (auto simp: moveAssignedComponent_def split: if_splits sum.splits)
      then obtain t' where "evaluateTransition (en_plan en) p r [as_serverId source, tgt] = Inr t'"
        "pt_project t = touchProject now (pt_project t')" using touch_result_Inr by blast
      with s th False err r show thesis by (intro across) auto
    qed
  qed
qed

lemma tentative_slot_cores:
  assumes "as_serverId source = tgt"
  shows "map core (pr_assignments (tentative_move p source tgt pos)) = map core (pr_assignments p)"
proof -
  have "core (moved source (move_target p source tgt pos) tgt pos a) = core a" for a
  proof -
    have "as_serverId a = tgt" if "move_target p source tgt pos = Some c"
      "assignmentIdentity c = assignmentIdentity a" for c
      using move_target_host [OF that(1)] that(2) by (simp add: assignmentIdentity_def)
    then show ?thesis using assms
      by (auto simp: moved_def assignmentIdentity_def core_def memory_at_def split: option.split)
  qed
  then show ?thesis by (simp add: tentative_move_def)
qed

lemma evaluate_inv:
  assumes "planner_ok plan" "assignment_inv q" "evaluateTransition plan p q hs = Inr t"
  shows "assignment_inv (pt_project t)"
proof -
  have "unique_assignment_ids q" using assms(2) by (simp add: assignment_inv_def)
  then show ?thesis
    using evaluateTransition_replanned [OF assms(1) _ assms(3)] assms(2)
    by (simp add: assignment_inv_replanned)
qed

lemma move_inv:
  assumes "planner_ok (en_plan en)" "assignment_inv p"
    and "moveAssignedComponent en now p aid tgt tpos = Inr t"
  shows "assignment_inv (pt_project t)"
  using assms(3)
proof (cases rule: move_shape)
  case idle
  with assms(2) show ?thesis by simp
next
  case (slot source k n t')
  have "assignment_inv (tentative_move p source tgt (Some n))"
    using assms(2) assignment_inv_cong [OF tentative_slot_cores [OF slot(4)]]
    by (simp add: tentative_move_def)
  then show ?thesis by (simp add: slot(8) evaluate_inv [OF assms(1) _ slot(7)])
next
  case (across source k r t')
  let ?q = "tentative_move p source tgt (safe_position tpos)"
  note ten = tentative_move_inv [OF assms(2) findAssignmentById_mem [OF across(1)] across(2,3)]
  have sound: "r = ?q\<lparr>pr_assignments := pr_assignments r\<rparr>"
    "map core (pr_assignments r) = map core (pr_assignments ?q)"
    "h \<in> {as_serverId source, tgt} \<or> boarded ?q h \<Longrightarrow> boarded r h" for h
    using reallocate_each_sound [OF across(6) [unfolded reallocatePcBuildHosts_def] ten(1)] ten(3) by auto
  have kinds: "kind_at r = kind_at ?q" using sound(1) by (rule kind_at_only_assignments)
  have "boarded r h" for h using sound(3) [of h] ten(5) [of h] by blast
  then have "assignment_inv r"
    using ten(1-4) types_agree_cong [OF sound(2) kinds] map_via_core [OF sound(2)] kinds
      hosts_cong [OF map_via_core(4) [OF sound(2)], of "\<lambda>h. \<exists>t. kind_at ?q h = Some t \<and> isHostType t"]
    by (simp add: assignment_inv_def unique_assignment_ids_def)
  then show ?thesis by (simp add: across(8) evaluate_inv [OF assms(1) _ across(7)])
qed

subsection \<open>Swapping and removing\<close>

lemma swap_inv:
  assumes "planner_ok (en_plan en)" "assignment_inv p"
    and "swapAssignedComponent en now p aid tgt = Inr t"
  shows "assignment_inv (pt_project t)"
  using assms(3) move_inv [OF assms(1,2)]
  by (auto simp: swapAssignedComponent_def split: option.splits if_splits)

lemma remove_shape:
  assumes "tryRemoveAssignedComponent now p aid = Inr q"
  obtains a where "findAssignmentById (pr_assignments p) aid = Some a"
    "host_is_pc_build p (as_serverId a) \<Longrightarrow> as_type a = TMotherboard \<Longrightarrow>
       \<forall>b \<in> set (pr_assignments p). as_serverId b = as_serverId a \<longrightarrow> as_id b = as_id a"
    "q = touchProject now (p\<lparr>
       pr_assignments := filter (\<lambda>c. assignmentIdentity c \<noteq> assignmentIdentity a) (pr_assignments p),
       pr_connections := filter (\<lambda>c. ep_hostedItemId (c_from c) \<noteq> Some (as_itemId a)
                                   \<and> ep_hostedItemId (c_to c) \<noteq> Some (as_itemId a)) (pr_connections p)\<rparr>)"
proof -
  obtain a where a: "findAssignmentById (pr_assignments p) aid = Some a"
    using assms by (auto simp: tryRemoveAssignedComponent_def split: option.splits)
  show thesis
  proof (rule that [OF a])
    assume "host_is_pc_build p (as_serverId a)" "as_type a = TMotherboard"
    then show "\<forall>b \<in> set (pr_assignments p). as_serverId b = as_serverId a \<longrightarrow> as_id b = as_id a"
      using assms a
      by (auto simp: tryRemoveAssignedComponent_def canRemovePcBuildAssignment_def filter_empty_conv
          split: if_splits)
  qed (use assms a in \<open>auto simp: tryRemoveAssignedComponent_def split: sum.splits if_splits\<close>)
qed

lemma assignment_inv_filter:
  assumes "assignment_inv p" "kind_at q = kind_at p" "pr_assignments q = filter P (pr_assignments p)"
    and "\<And>b. b \<in> set (pr_assignments p) \<Longrightarrow> as_type b = TMotherboard \<Longrightarrow> \<not> P b \<Longrightarrow>
           host_is_pc_build p (as_serverId b) \<Longrightarrow>
           \<forall>a \<in> set (pr_assignments p). as_serverId a = as_serverId b \<longrightarrow> \<not> P a"
  shows "assignment_inv q"
proof -
  note inv = assms(1) [unfolded assignment_inv_def]
  have "boarded q h" for h
  proof -
    have *: "boarded p h" using inv by blast
    have "\<exists>b \<in> set (pr_assignments p). P b \<and> as_serverId b = h \<and> as_type b = TMotherboard"
      if pc: "host_is_pc_build p h" and a: "a \<in> set (pr_assignments p)" "P a" "as_serverId a = h" for a
    proof -
      obtain b where b: "b \<in> set (pr_assignments p)" "as_serverId b = h" "as_type b = TMotherboard"
        using * pc a unfolding boarded_def by blast
      then have "P b" using assms(4) [of b] pc a by blast
      with b show ?thesis by blast
    qed
    then show ?thesis by (simp add: boarded_def host_is_pc_build_kind assms(2,3)) blast
  qed
  then show ?thesis
    using inv assms(2,3)
    by (auto simp: assignment_inv_def unique_assignment_ids_def types_agree_def
        kind_at_def [symmetric] distinct_map_filter)
qed

lemma remove_inv:
  assumes "assignment_inv p" "tryRemoveAssignedComponent now p aid = Inr q"
  shows "assignment_inv q"
  using assms(2)
proof (cases rule: remove_shape)
  case (1 a)
  have uniq: "distinct (map as_id (pr_assignments p))"
    using assms(1) by (simp add: assignment_inv_def unique_assignment_ids_def)
  have "b = a" if "b \<in> set (pr_assignments p)" "assignmentIdentity b = assignmentIdentity a" for b
    using that id_unique [OF uniq that(1) findAssignmentById_mem [OF 1(1)]]
    by (simp add: assignmentIdentity_def)
  then have board: "\<forall>c \<in> set (pr_assignments p). as_serverId c = as_serverId b
        \<longrightarrow> \<not> assignmentIdentity c \<noteq> assignmentIdentity a"
    if "b \<in> set (pr_assignments p)" "as_type b = TMotherboard"
      "\<not> assignmentIdentity b \<noteq> assignmentIdentity a" "host_is_pc_build p (as_serverId b)" for b
    using that 1(2) by (auto simp: assignmentIdentity_def)
  show ?thesis
  proof (rule assignment_inv_filter [OF assms(1)])
    show "kind_at q = kind_at p" by (simp add: 1(3))
    show "pr_assignments q = filter (\<lambda>c. assignmentIdentity c \<noteq> assignmentIdentity a) (pr_assignments p)"
      by (simp add: 1(3))
  qed (rule board)
qed

lemma return_inv:
  assumes "assignment_inv p" "returnCanvasItemToInventory now p k = Inr (q, impact)"
  shows "assignment_inv q"
proof -
  have uniq: "distinct (map as_id (pr_assignments p))"
    using assms(1) by (simp add: assignment_inv_def unique_assignment_ids_def)
  have "pr_assignments q = filter (\<lambda>a. as_id a \<notin> set (map as_id
      (filter (\<lambda>a. as_serverId a = k) (pr_assignments p)))) (pr_assignments p)"
    using assms(2)
    by (auto simp: returnCanvasItemToInventory_def collectReturnCanvasItemTransition_def
        split: if_splits)
  then have "pr_assignments q = filter (\<lambda>a. as_serverId a \<noteq> k) (pr_assignments p)"
    by (simp only: filter_ids_exact [OF uniq])
  moreover have "kind_at q = kind_at p"
    using assms(2) by (auto simp: returnCanvasItemToInventory_def split: option.splits)
  ultimately show ?thesis by (intro assignment_inv_filter [OF assms(1)]) auto
qed

subsection \<open>Edits that keep the assignments\<close>

lemma kind_at_set_item:
  "item_at p k = Some i \<Longrightarrow> it_type j = it_type i \<Longrightarrow> kind_at (set_item k j p) = kind_at p"
  by (rule ext) (simp add: kind_at_def item_at_set_item)

lemma edit_inv:
  assumes "assignment_inv p" "pr_assignments q = pr_assignments p" "kind_at q = kind_at p"
  shows "assignment_inv q"
  using assms(1) assignment_inv_cong [of q p] assms(2,3) by simp

lemma set_identity_type: "it_type (foldl (\<lambda>i (key, v). set_identity key (f v) i) item ids) = it_type item"
proof (induction ids arbitrary: item)
  case (Cons x ids)
  then show ?case by (cases x; cases "fst x") auto
qed simp

lemma field_edits_frame:
  "pr_assignments (updateItemProperties now p k props) = pr_assignments p"
  "pr_assignments (updateItemManufacturer now p k m key) = pr_assignments p"
  "pr_assignments (updateItemIdentity now p k ids) = pr_assignments p"
  "pr_assignments (updateItemSpecs now p k specs) = pr_assignments p"
  "pr_assignments (updateItemPorts now p k ports) = pr_assignments p"
  by (auto simp: updateItemProperties_def updateItemManufacturer_def updateItemIdentity_def
      updateItemSpecs_def updateItemPorts_def set_item_frame split: option.split)

lemma field_edits_kind:
  "kind_at (updateItemProperties now p k props) = kind_at p"
  "kind_at (updateItemManufacturer now p k m key) = kind_at p"
  "kind_at (updateItemIdentity now p k ids) = kind_at p"
  "kind_at (updateItemSpecs now p k specs) = kind_at p"
  "kind_at (updateItemPorts now p k ports) = kind_at p"
  by (auto simp: updateItemProperties_def updateItemManufacturer_def updateItemIdentity_def
      updateItemSpecs_def updateItemPorts_def set_identity_type
      split: option.split manufacturer_key.split intro!: kind_at_set_item)

lemma placement_edits_frame:
  "pr_assignments (upsertPlacement now p pl) = pr_assignments p"
  "pr_assignments (upsertPlacements now p pls) = pr_assignments p"
  "kind_at (upsertPlacement now p pl) = kind_at p" "kind_at (upsertPlacements now p pls) = kind_at p"
  by (simp_all add: upsertPlacement_def upsertPlacements_def)

lemma applyInventoryItemInput_frame:
  assumes "applyInventoryItemInput now p k input = Inr q"
    and "\<forall>i. item_at p k = Some i \<longrightarrow> it_type input = it_type i"
  shows "pr_assignments q = pr_assignments p \<and> kind_at q = kind_at p"
  using assms
  by (auto simp: applyInventoryItemInput_def set_item_frame split: option.splits intro!: kind_at_set_item)

end
