(* ===== verification/Assignment_Invariants.thy ===== *)
theory Assignment_Invariants
  imports Constraints
begin

text \<open>
  The project as a state machine.  A step is one of the transitions of \<open>src/lib/constraints.ts\<close>
  or \<open>src/lib/project.ts\<close>.  The contract of the compatibility engine, on which the transitions rely,
  is the locale \<open>planning_engine\<close>; inside it the assignment invariant is shown to hold in every
  reachable project and the effect of each assignment transition is stated exactly.
  \<open>Assignment_Effects\<close> interprets the locale on the modelled engine.
\<close>

section \<open>Steps\<close>

text \<open>An edit of an item through its form keeps the item's type, as the form does.\<close>

inductive project_step :: "engine \<Rightarrow> project \<Rightarrow> project \<Rightarrow> bool" for en where
  assign: "tryAssignComponent en now p s i pos = Inr t \<Longrightarrow> project_step en p (pt_project t)"
| move: "moveAssignedComponent en now p aid s pos = Inr t \<Longrightarrow> project_step en p (pt_project t)"
| swap: "swapAssignedComponent en now p aid s = Inr t \<Longrightarrow> project_step en p (pt_project t)"
| remove: "tryRemoveAssignedComponent now p aid = Inr q \<Longrightarrow> project_step en p q"
| return: "returnCanvasItemToInventory now p k = Inr (q, impact) \<Longrightarrow> project_step en p q"
| edit: "applyInventoryItemInput now p k input = Inr q
    \<Longrightarrow> \<forall>i. item_at p k = Some i \<longrightarrow> it_type input = it_type i \<Longrightarrow> project_step en p q"
| place: "project_step en p (upsertPlacement now p pl)"
| place_all: "project_step en p (upsertPlacements now p pls)"
| properties: "project_step en p (updateItemProperties now p k props)"
| manufacturer: "project_step en p (updateItemManufacturer now p k m key)"
| identity: "project_step en p (updateItemIdentity now p k ids)"
| specs: "project_step en p (updateItemSpecs now p k values)"
| ports: "project_step en p (updateItemPorts now p k ps)"

section \<open>Reachable projects\<close>

lemma project_step_inv:
  assumes "planner_ok (en_plan en)" "project_step en p q" "assignment_inv p"
  shows "assignment_inv q"
  using assms(2)
proof cases
  case edit
  then show ?thesis using applyInventoryItemInput_frame edit_inv [OF assms(3)] by blast
qed (auto intro: tryAssign_inv [OF assms(1,3)] move_inv [OF assms(1,3)] swap_inv [OF assms(1,3)]
    remove_inv [OF assms(3)] return_inv [OF assms(3)] edit_inv [OF assms(3)]
    simp: field_edits_frame field_edits_kind placement_edits_frame)

lemma assignment_inv_empty: "assignment_inv (createEmptyProject now items)"
  by (simp add: createEmptyProject_def assignment_inv_def unique_assignment_ids_def types_agree_def
      boarded_def)

lemma replanned_frame:
  assumes "replanned p q"
  shows "pr_items q = pr_items p \<and> pr_placements q = pr_placements p
     \<and> pr_connections q = pr_connections p"
proof -
  obtain as where "q = p\<lparr>pr_assignments := as\<rparr>" using assms by (auto simp: replanned_def)
  then show ?thesis by simp
qed

lemma replanned_keeps:
  assumes "replanned p q" "b \<in> set (pr_assignments p)" "host_is_pc_build p (as_serverId b)"
  shows "b \<in> set (pr_assignments q)"
proof -
  obtain i where i: "i < length (pr_assignments p)" "b = pr_assignments p ! i"
    using assms(2) by (auto simp: in_set_conv_nth)
  have len: "length (pr_assignments q) = length (pr_assignments p)"
    using assms(1) by (auto simp: replanned_def list_all2_conv_all_nth)
  have "pr_assignments q ! i = b"
    using assms(1,3) i by (auto simp: replanned_def list_all2_conv_all_nth)
  then show ?thesis using i(1) len nth_mem [of i "pr_assignments q"] by simp
qed

subsection \<open>Findings that a transition introduces\<close>

lemma set_enforced:
  "(r, f) \<in> set (enforced p sev rs) \<longleftrightarrow> r \<in> set rs \<and> f \<in> set (cr_findings r)
     \<and> fd_severity f = sev \<and> shouldEnforceCompatibilityFinding p r f"
  by (auto simp: enforced_def)

lemma introduced_Nil:
  assumes "introduced p sev base rs = []" "(r, f) \<in> set (enforced p sev rs)"
  shows "\<exists>r' f'. (r', f') \<in> set (enforced p sev base)
    \<and> compatibilityFingerprint r' f' = compatibilityFingerprint r f"
proof -
  have "compatibilityFingerprint r f
      \<in> set (map (\<lambda>(r, f). compatibilityFingerprint r f) (enforced p sev base))"
    using assms unfolding introduced_def by (force simp: filter_empty_conv)
  then obtain x where "x \<in> set (enforced p sev base)"
    "compatibilityFingerprint r f = compatibilityFingerprint (fst x) (snd x)"
    by (auto simp: case_prod_beta)
  then show ?thesis by (intro exI [of _ "fst x"] exI [of _ "snd x"]) simp
qed

lemma baseline_mem:
  "baseline_results plan p hs = Inr rs \<Longrightarrow> r \<in> set rs
    \<Longrightarrow> \<exists>h \<in> set hs. \<exists>pl. plan p h = Inr pl \<and> r \<in> set (hpl_results pl)"
  by (induction hs arbitrary: rs) (auto simp: Inr_iffs)

lemma evaluate_findings:
  assumes "evaluateTransition plan p q hs = Inr t"
    and "r \<in> set (pt_compatibility t)" "f \<in> set (cr_findings r)" "fd_severity f = SevError"
    and "shouldEnforceCompatibilityFinding q r f"
  shows "\<exists>h \<in> set hs. \<exists>pl. plan p h = Inr pl \<and> (\<exists>r' \<in> set (hpl_results pl). \<exists>f' \<in> set (cr_findings r').
       fd_severity f' = SevError \<and> shouldEnforceCompatibilityFinding q r' f'
       \<and> compatibilityFingerprint r' f' = compatibilityFingerprint r f)"
  using assms(1)
proof (rule evaluateTransition_ok)
  let ?legacy = "filter (\<lambda>h. \<not> host_is_pc_build p h \<and> \<not> host_is_pc_build q h) (js_uniq hs)"
  fix base u assume base: "baseline_results plan p ?legacy = Inr base"
    and u: "pt_compatibility t = pt_compatibility u" "introduced q SevError base (pt_compatibility u) = []"
  have "(r, f) \<in> set (enforced q SevError (pt_compatibility u))"
    using assms(2-5) u(1) by (simp add: set_enforced)
  with introduced_Nil [OF u(2)] obtain r' f' where "(r', f') \<in> set (enforced q SevError base)"
    "compatibilityFingerprint r' f' = compatibilityFingerprint r f" by blast
  with baseline_mem [OF base, of r'] show ?thesis by (fastforce simp: set_enforced)
qed

lemma evaluate_one_host:
  assumes "evaluateTransition plan p q [h] = Inr t" "kind_at q = kind_at p"
  shows "host_is_pc_build p h \<Longrightarrow> pt_compatibility t = []"
    and "\<not> host_is_pc_build p h
      \<Longrightarrow> \<exists>pl. plan q h = Inr pl \<and> pt_compatibility t = hpl_results pl"
proof -
  have same: "host_is_pc_build q h = host_is_pc_build p h" by (simp add: host_is_pc_build_kind assms(2))
  have "(host_is_pc_build p h \<longrightarrow> pt_compatibility t = [])
    \<and> (\<not> host_is_pc_build p h \<longrightarrow> (\<exists>pl. plan q h = Inr pl \<and> pt_compatibility t = hpl_results pl))"
    using assms(1)
  proof (rule evaluateTransition_ok)
    fix u assume "planHosts plan q (filter (\<lambda>h. \<not> host_is_pc_build p h \<and> \<not> host_is_pc_build q h) (js_uniq [h])) = Inr u"
      and "pt_compatibility t = pt_compatibility u"
    then show ?thesis
      by (auto simp: planHosts_def js_uniq_def plan_host_def same try_eval_Inr_iff map_sum_Inr_iff split: if_splits)
  qed
  then show "host_is_pc_build p h \<Longrightarrow> pt_compatibility t = []"
    "\<not> host_is_pc_build p h \<Longrightarrow> \<exists>pl. plan q h = Inr pl \<and> pt_compatibility t = hpl_results pl" by auto
qed

lemma evaluate_baseline:
  assumes "evaluateTransition plan p q [h] = Inr t" "kind_at q = kind_at p" "\<not> host_is_pc_build p h"
  shows "\<exists>pl. plan p h = Inr pl"
  using assms(1)
proof (rule evaluateTransition_ok)
  have same: "host_is_pc_build q h = host_is_pc_build p h" by (simp add: host_is_pc_build_kind assms(2))
  fix base assume "baseline_results plan p (filter (\<lambda>h. \<not> host_is_pc_build p h \<and> \<not> host_is_pc_build q h) (js_uniq [h])) = Inr base"
  then show ?thesis using assms(3) by (auto simp: same js_uniq_def try_eval_Inr_iff)
qed

section \<open>Effects of the transitions\<close>

text \<open>C7: Removing an assigned component, in a project whose assignments have distinct ids, removes exactly that
  assignment and exactly the connections of which one end is hosted by the component, those whose ids
  \<open>getAssignedComponentConnectionIds\<close> lists; the whole rest of the project stays as it is, except for the time of
  the last change.  A motherboard leaves its PC build only as the last component.  A connection that names the
  component itself as its item, as a port of an item on the canvas is named, is not removed.\<close>

theorem remove_effect:
  assumes "distinct (map as_id (pr_assignments p))" "tryRemoveAssignedComponent now p aid = Inr q"
  shows "\<exists>a. findAssignmentById (pr_assignments p) aid = Some a \<and> a \<in> set (pr_assignments p)
     \<and> q = p\<lparr>pr_assignments := remove1 a (pr_assignments p),
             pr_connections := filter (\<lambda>c. ep_hostedItemId (c_from c) \<noteq> Some (as_itemId a)
               \<and> ep_hostedItemId (c_to c) \<noteq> Some (as_itemId a)) (pr_connections p),
             pr_metadata := (pr_metadata p)\<lparr>md_updatedAt := now\<rparr>\<rparr>
     \<and> getAssignedComponentConnectionIds p aid
         = map c_id (filter (\<lambda>c. ep_hostedItemId (c_from c) = Some (as_itemId a)
               \<or> ep_hostedItemId (c_to c) = Some (as_itemId a)) (pr_connections p))
     \<and> (host_is_pc_build p (as_serverId a) \<and> as_type a = TMotherboard
          \<longrightarrow> filter (\<lambda>b. as_serverId b = as_serverId a) (pr_assignments q) = [])"
  using assms(2)
proof (cases rule: remove_shape)
  case (1 a)
  note mem = findAssignmentById_mem [OF 1(1)]
  have "distinct (pr_assignments p)" using assms(1) by (simp add: distinct_map)
  then have "remove1 a (pr_assignments p) = filter (\<lambda>b. b \<noteq> a) (pr_assignments p)"
    by (simp add: distinct_remove1_removeAll removeAll_filter_not_eq) (metis)
  also have "\<dots> = filter (\<lambda>c. assignmentIdentity c \<noteq> assignmentIdentity a) (pr_assignments p)"
    using id_unique [OF assms(1) _ mem] by (intro filter_cong) (auto simp: assignmentIdentity_def)
  finally have rem: "filter (\<lambda>c. assignmentIdentity c \<noteq> assignmentIdentity a) (pr_assignments p)
    = remove1 a (pr_assignments p)" by simp
  have "filter (\<lambda>b. as_serverId b = as_serverId a) (pr_assignments q) = []"
    if "host_is_pc_build p (as_serverId a)" "as_type a = TMotherboard"
    using 1(2) [OF that] by (auto simp: 1(3) filter_empty_conv assignmentIdentity_def)
  with rem mem 1(1) show ?thesis
    by (simp add: 1(3) getAssignedComponentConnectionIds_def touchProject_def)
qed

theorem remove_effect_witness:
  "\<exists>q. tryRemoveAssignedComponent ''t1'' sample_project (IdNum 1) = Inr q \<and> pr_items q = pr_items sample_project"
proof -
  have "\<not> isl (tryRemoveAssignedComponent ''t1'' sample_project (IdNum 1))" by code_simp
  then obtain q where q: "tryRemoveAssignedComponent ''t1'' sample_project (IdNum 1) = Inr q"
    by (rule not_isl_obtain)
  have "distinct (map as_id (pr_assignments sample_project))" by code_simp
  from remove_effect [OF this q] have "pr_items q = pr_items sample_project" by auto
  with q show ?thesis by blast
qed

subsection \<open>Moves\<close>

lemma move_target_type:
  "move_target p source tgt pos = Some a \<Longrightarrow> as_type a = as_type source"
proof -
  have "as_type (modules ! nat n) = TRam"
    if "modules = sort_key as_id (on_host tgt TRam p)" "nat n < length modules" for modules n
    using nth_mem [OF that(2)] unfolding that(1) by (simp add: on_host_def)
  then show "move_target p source tgt pos = Some a \<Longrightarrow> ?thesis"
    by (auto simp: move_target_def split: if_splits option.splits dest!: find_Some_iff_first)
qed

text \<open>The hosts after a move, by assignment id.\<close>

definition moved_hosts :: "assignment \<Rightarrow> assignment option \<Rightarrow> string \<Rightarrow> assignment list \<Rightarrow> string list" where
  "moved_hosts source swapped tgt as =
     map (\<lambda>a. if as_id a = as_id source then tgt
              else if map_option as_id swapped = Some (as_id a) then as_serverId source
              else as_serverId a) as"

lemma tentative_hosts:
  assumes "distinct (map as_id (pr_assignments p))" "source \<in> set (pr_assignments p)"
  shows "map as_serverId (pr_assignments (tentative_move p source tgt pos))
    = moved_hosts source (move_target p source tgt pos) tgt (pr_assignments p)"
proof -
  have eq: "assignmentIdentity a = assignmentIdentity b \<longleftrightarrow> as_id a = as_id b"
    if "a \<in> set (pr_assignments p)" "b \<in> set (pr_assignments p)" for a b
    using id_unique [OF assms(1) that] by (auto simp: assignmentIdentity_def)
  have "map_option assignmentIdentity (move_target p source tgt pos) = Some (assignmentIdentity a)
      \<longleftrightarrow> map_option as_id (move_target p source tgt pos) = Some (as_id a)"
    if "a \<in> set (pr_assignments p)" for a
    using move_target_host eq [OF _ that] by (cases "move_target p source tgt pos") auto
  with eq assms(2) show ?thesis
    by (auto simp: tentative_move_def moved_hosts_def moved_host)
qed

lemma tentative_frame:
  "map as_id (pr_assignments (tentative_move p source tgt pos)) = map as_id (pr_assignments p)"
  "map as_itemId (pr_assignments (tentative_move p source tgt pos)) = map as_itemId (pr_assignments p)"
  "map as_type (pr_assignments (tentative_move p source tgt pos)) = map as_type (pr_assignments p)"
  "pr_items (tentative_move p source tgt pos) = pr_items p"
  "pr_placements (tentative_move p source tgt pos) = pr_placements p"
  "pr_connections (tentative_move p source tgt pos) = pr_connections p"
  by (simp_all add: tentative_move_def comp_def)

subsection \<open>Positions\<close>

lemma positions_disjoint_touch [simp]: "positions_disjoint (touchProject now p) h = positions_disjoint p h"
  by (simp add: positions_disjoint_def)

lemma positions_disjoint_filter:
  assumes "positions_disjoint p h"
    and "\<And>b. b \<in> set (pr_assignments q) \<Longrightarrow> as_serverId b = h \<Longrightarrow> b \<in> set (pr_assignments p)"
  shows "positions_disjoint q h"
  using assms unfolding positions_disjoint_def by metis

lemma tentative_other_host:
  assumes "b \<in> set (pr_assignments (tentative_move p source tgt pos))" "as_serverId b = h"
    and "h \<noteq> as_serverId source" "h \<noteq> tgt"
  shows "b \<in> set (pr_assignments p)"
proof -
  let ?m = "moved source (move_target p source tgt pos) tgt pos"
  obtain a where a: "a \<in> set (pr_assignments p)" "b = ?m a"
    using assms(1) by (auto simp: tentative_move_def)
  have "?m a = a" using assms(2-4) a(2) moved_host [of source "move_target p source tgt pos" tgt pos a]
    by (auto simp: moved_def split: if_splits)
  with a show ?thesis by simp
qed

section \<open>The contract of the compatibility engine\<close>

text \<open>What the transitions rely on of \<open>planHostAllocations\<close>: the plan of a host has the assignments of
  the host with new positions or none, that of anything else is empty, and no two planned assignments
  compete for a position.\<close>

locale planning_engine =
  fixes en :: engine
  assumes plan_of_host: "en_plan en p h = Inr pl \<Longrightarrow> kind_at p h = Some k \<Longrightarrow> isHostType k
      \<Longrightarrow> mset (map core (hpl_assignments pl)) = mset (map core (filter (\<lambda>a. as_serverId a = h) (pr_assignments p)))"
    and plan_own: "en_plan en p h = Inr pl
      \<Longrightarrow> core ` set (hpl_assignments pl) \<subseteq> core ` {a \<in> set (pr_assignments p). as_serverId a = h}"
    and plan_disjoint: "en_plan en p h = Inr pl \<Longrightarrow> unique_assignment_ids p
      \<Longrightarrow> disjoint_allocations (hpl_assignments pl)"
begin

lemma planner: "planner_ok (en_plan en)"
  using plan_own unfolding planner_ok_def by blast

lemma step_invariant: "invariant_system (project_step en) assignment_inv"
  by unfold_locales (rule project_step_inv [OF planner])

lemma reachable_inv: "(project_step en)\<^sup>*\<^sup>* (createEmptyProject now items) p \<Longrightarrow> assignment_inv p"
  using invariant_system.steps_inv [OF step_invariant] assignment_inv_empty by blast

text \<open>Planning a host that is no PC build makes its positions disjoint and leaves other hosts alone.\<close>

lemma plan_host_positions:
  assumes "plan_host (en_plan en) t h = Inr u" "unique_assignment_ids (pt_project t)"
    and "kind_at (pt_project t) h = Some k" "isHostType k"
  shows "list_all2 (\<lambda>a b. core b = core a \<and> (as_serverId a \<noteq> h \<longrightarrow> b = a))
           (pr_assignments (pt_project t)) (pr_assignments (pt_project u))"
    and "\<not> host_is_pc_build (pt_project t) h \<or> positions_disjoint (pt_project t) h
           \<Longrightarrow> positions_disjoint (pt_project u) h"
proof -
  let ?as = "pr_assignments (pt_project t)"
  consider (pc) "host_is_pc_build (pt_project t) h" "u = t" | (plan) pl where
    "\<not> host_is_pc_build (pt_project t) h" "en_plan en (pt_project t) h = Inr pl"
    "pr_assignments (pt_project u) = map (\<lambda>a. if as_serverId a = h
       then nullish (map_of (map_from (map (\<lambda>a. (assignmentIdentity a, a)) (hpl_assignments pl)))
                      (assignmentIdentity a)) a else a) ?as"
    using assms(1) by (auto simp: plan_host_def try_eval_Inr_iff split: if_splits)
  then have "list_all2 (\<lambda>a b. core b = core a \<and> (as_serverId a \<noteq> h \<longrightarrow> b = a)) ?as (pr_assignments (pt_project u))
    \<and> (\<not> host_is_pc_build (pt_project t) h \<or> positions_disjoint (pt_project t) h \<longrightarrow> positions_disjoint (pt_project u) h)"
  proof cases
    case plan
    note new = replacement [OF assms(2) [unfolded unique_assignment_ids_def] plan_of_host [OF plan(2) assms(3,4)]]
    have "list_all2 (\<lambda>a b. core b = core a \<and> (as_serverId a \<noteq> h \<longrightarrow> b = a)) ?as (pr_assignments (pt_project u))"
      unfolding plan(3) using new(2) by (simp add: list_all2_map2 list.rel_refl_strong)
    moreover have "b \<in> set (hpl_assignments pl)"
      if "b \<in> set (pr_assignments (pt_project u))" "as_serverId b = h" for b
      using that new(2) unfolding plan(3) by (auto split: if_splits)
    then have "positions_disjoint (pt_project u) h"
      unfolding positions_disjoint_def using disjoint_in [OF plan_disjoint [OF plan(2) assms(2)]] by blast
    ultimately show ?thesis by blast
  qed (simp add: list_all2_refl)
  then show "list_all2 (\<lambda>a b. core b = core a \<and> (as_serverId a \<noteq> h \<longrightarrow> b = a)) ?as (pr_assignments (pt_project u))"
    "\<not> host_is_pc_build (pt_project t) h \<or> positions_disjoint (pt_project t) h
       \<Longrightarrow> positions_disjoint (pt_project u) h" by blast+
qed

lemma plan_each_positions:
  assumes "plan_each (en_plan en) t hs = Inr u" "unique_assignment_ids (pt_project t)"
    and "\<forall>h \<in> set hs. \<exists>k. kind_at (pt_project t) h = Some k \<and> isHostType k"
    and "h \<in> set hs \<and> \<not> host_is_pc_build (pt_project t) h \<or> positions_disjoint (pt_project t) h"
  shows "positions_disjoint (pt_project u) h"
  using assms
proof (induction hs arbitrary: t)
  case (Cons g hs)
  then obtain v where v: "plan_host (en_plan en) t g = Inr v" "plan_each (en_plan en) v hs = Inr u"
    by (auto simp: try_eval_Inr_iff)
  obtain k where k: "kind_at (pt_project t) g = Some k" "isHostType k" using Cons.prems(3) by auto
  note step = plan_host_positions [OF v(1) Cons.prems(2) k]
  note plan = plan_host_replanned [OF planner Cons.prems(2) v(1)]
  have "positions_disjoint (pt_project v) h"
    if "h = g \<and> \<not> host_is_pc_build (pt_project t) h \<or> positions_disjoint (pt_project t) h"
  proof (cases "h = g")
    case False
    have "list_all2 (\<lambda>a b. core b = core a \<and> (as_serverId a = h \<longrightarrow> b = a))
        (pr_assignments (pt_project t)) (pr_assignments (pt_project v))"
      using step(1) by (rule list_all2_mono) (use False in auto)
    with that False positions_disjoint_other show ?thesis by blast
  qed (use step(2) that in blast)
  moreover have "kind_at (pt_project v) = kind_at (pt_project t)" by (rule kind_at_replanned [OF plan])
  ultimately show ?case
    using Cons.IH [OF v(2)] Cons.prems(2,3,4) unique_ids_replanned [OF plan] host_is_pc_build_replanned [OF plan]
    by auto
qed simp

lemma transition_positions:
  assumes "evaluateTransition (en_plan en) p q hs = Inr t" "unique_assignment_ids q" "kind_at q = kind_at p"
    and "\<forall>h \<in> set hs. \<exists>k. kind_at p h = Some k \<and> isHostType k"
    and "h \<in> set hs \<and> \<not> host_is_pc_build p h \<or> positions_disjoint q h"
  shows "positions_disjoint (pt_project t) h"
  using assms(1)
proof (rule evaluateTransition_ok)
  let ?legacy = "filter (\<lambda>h. \<not> host_is_pc_build p h \<and> \<not> host_is_pc_build q h) (js_uniq hs)"
  fix u assume u: "planHosts (en_plan en) q ?legacy = Inr u" "pt_project t = pt_project u"
  have "\<forall>h. host_is_pc_build q h = host_is_pc_build p h" by (simp add: host_is_pc_build_kind assms(3))
  with plan_each_positions [OF u(1) [unfolded planHosts_def], of h] assms(2-5) u(2) show ?thesis by auto
qed

text \<open>An assignment and its effect on positions.\<close>

lemma assign_replans:
  assumes "distinct (map as_id (pr_assignments p))"
    and "tryAssignComponent en now p s i pos = Inr t"
  shows "\<exists>a host item. map core (pr_assignments (pt_project t)) = map core (pr_assignments p) @ [core a]
     \<and> as_id a \<notin> set (map as_id (pr_assignments p)) \<and> as_serverId a = s \<and> as_itemId a = i
     \<and> item_at p i = Some item \<and> as_type a = it_type item
     \<and> isAssignableComponentType (it_type item) \<and> \<not> isArchivedItem (Some item)
     \<and> item_at p s = Some host \<and> isHostType (it_type host) \<and> \<not> isArchivedItem (Some host)
     \<and> (it_type host = TServer \<longrightarrow> it_type item \<in> SERVER_COMPONENT_TYPES)
     \<and> (it_type host = TNas \<longrightarrow> it_type item \<in> NAS_COMPONENT_TYPES)
     \<and> (it_type host = TPcBuild \<longrightarrow> it_type item \<in> PC_BUILD_COMPONENT_TYPES)
     \<and> capacity_error p s host item = None
     \<and> i \<notin> set (map as_itemId (pr_assignments p))
     \<and> pr_items (pt_project t) = pr_items p \<and> pr_placements (pt_project t) = pr_placements p
     \<and> pr_connections (pt_project t) = pr_connections p
     \<and> (\<forall>b \<in> set (pr_assignments p). host_is_pc_build p (as_serverId b)
           \<longrightarrow> b \<in> set (pr_assignments (pt_project t)))"
  using assms(2)
proof (cases rule: tryAssign_shape)
  case (1 item a t')
  have uniq: "unique_assignment_ids p" using assms(1) by (simp add: unique_assignment_ids_def)
  have a: "as_id a = new_assignment_id p" "as_serverId a = s" "as_itemId a = i" "as_type a = it_type item"
    using core_sel [of a] 1(3) by (simp_all add: newAssignment_def)
  have plan: "replanned (add_assignment a p) (pt_project t')"
    by (rule evaluateTransition_replanned [OF planner unique_ids_add [OF uniq a(1)] 1(4)])
  have cores: "map core (pr_assignments (pt_project t')) = map core (pr_assignments p) @ [core a]"
    using replanned_cores [OF plan] by (simp add: add_assignment_def)
  have "pr_items (pt_project t') = pr_items p \<and> pr_placements (pt_project t') = pr_placements p
      \<and> pr_connections (pt_project t') = pr_connections p"
    using replanned_frame [OF plan] by (simp add: add_assignment_def)
  moreover have "b \<in> set (pr_assignments (pt_project t'))"
    if "b \<in> set (pr_assignments p)" "host_is_pc_build p (as_serverId b)" for b
    using replanned_keeps [OF plan, of b] that by (simp add: add_assignment_def)
  moreover obtain host where "isAssignableComponentType (it_type item)" "\<not> isArchivedItem (Some item)"
    "i \<notin> set (map as_itemId (pr_assignments p))" "item_at p s = Some host" "isHostType (it_type host)"
    "\<not> isArchivedItem (Some host)"
    "it_type host = TServer \<longrightarrow> it_type item \<in> SERVER_COMPONENT_TYPES"
    "it_type host = TNas \<longrightarrow> it_type item \<in> NAS_COMPONENT_TYPES"
    "it_type host = TPcBuild \<longrightarrow> it_type item \<in> PC_BUILD_COMPONENT_TYPES"
    "capacity_error p s host item = None"
    using validateAssignmentBasics_ok [OF 1(1)] 1(2) by (metis option.sel)
  ultimately show ?thesis
    using cores a 1(2) new_assignment_id_fresh [of p] 1(5)
    by (intro exI [of _ a] exI [of _ host] exI [of _ item]) simp
qed

lemma assign_positions:
  assumes "distinct (map as_id (pr_assignments p))" "tryAssignComponent en now p s i pos = Inr t"
  shows "\<not> host_is_pc_build p s \<Longrightarrow> positions_disjoint (pt_project t) s"
    and "pos = None \<Longrightarrow> positions_disjoint p h \<Longrightarrow> positions_disjoint (pt_project t) h"
proof -
  have "(\<not> host_is_pc_build p s \<longrightarrow> positions_disjoint (pt_project t) s)
    \<and> (pos = None \<longrightarrow> positions_disjoint p h \<longrightarrow> positions_disjoint (pt_project t) h)"
    using assms(2)
  proof (cases rule: tryAssign_shape)
    case (1 item a t')
    have a: "as_id a = new_assignment_id p" "as_serverId a = s"
      using core_sel [of a] 1(3) by (simp_all add: newAssignment_def)
    have uniq: "unique_assignment_ids (add_assignment a p)"
      using assms(1) a(1) unique_ids_add by (simp add: unique_assignment_ids_def)
    have host: "\<exists>k. kind_at p s = Some k \<and> isHostType k"
      using validateAssignmentBasics_ok [OF 1(1)] by (force simp: kind_at_def)
    have same: "kind_at (add_assignment a p) = kind_at p" by (simp add: add_assignment_def)
    note trans = transition_positions [OF 1(4) uniq same]
    have "alloc_disjoint b a" if that': "pos = None" "host_is_pc_build p s" "b \<in> set (pr_assignments p)" "as_serverId b = s" for b
    proof -
      obtain al where al: "allocatePcBuildAssignment (en_normReqs en) p s item
          (filter (\<lambda>a. as_serverId a = s) (pr_assignments p)) = Inr al" "as_allocation a = Some al"
        using 1(7) [OF that'(2)] that'(1) by blast
      have "alloc_disjoint b (a\<lparr>as_allocation := Some al\<rparr>)"
        using pc_assignments.allocate_disjoint [of _ "(en_normReqs en, p, s, item)" al b a] al(1) that'(3,4) by simp
      moreover have "a\<lparr>as_allocation := Some al\<rparr> = a" using al(2) by (cases a) simp
      ultimately show ?thesis by simp
    qed
    then have "positions_disjoint (add_assignment a p) h"
      if "positions_disjoint p h" "pos = None" "h \<noteq> s \<or> host_is_pc_build p s"
      using that a alloc_disjoint_sym by (fastforce simp: positions_disjoint_def add_assignment_def)
    then show ?thesis using trans [of s] trans [of h] host by (auto simp: 1(5))
  qed
  then show "\<not> host_is_pc_build p s \<Longrightarrow> positions_disjoint (pt_project t) s"
    "pos = None \<Longrightarrow> positions_disjoint p h \<Longrightarrow> positions_disjoint (pt_project t) h" by blast+
qed

text \<open>A successful move re-plans a reallocation of the tentative project, or does nothing.\<close>

lemma move_result:
  assumes "distinct (map as_id (pr_assignments p))"
    and "moveAssignedComponent en now p aid tgt tpos = Inr t"
  obtains (idle) source where "findAssignmentById (pr_assignments p) aid = Some source"
      "as_serverId source = tgt" "pt_project t = p" "as_type source \<noteq> TRam \<or> safe_position tpos = None"
  | (moves) source where "findAssignmentById (pr_assignments p) aid = Some source"
      "map core (pr_assignments (pt_project t)) = map core (pr_assignments (tentative_move p source tgt (safe_position tpos)))"
      "pr_items (pt_project t) = pr_items p" "pr_placements (pt_project t) = pr_placements p"
      "pr_connections (pt_project t) = pr_connections p"
      "\<not> (as_serverId source = tgt \<and> (as_type source \<noteq> TRam \<or> safe_position tpos = None))"
proof -
  have uniq: "unique_assignment_ids (tentative_move p source tgt pos)" for source pos
    using assms(1) by (simp add: unique_assignment_ids_def tentative_frame)
  show thesis
    using assms(2)
  proof (cases rule: move_shape)
    case (slot source k n t')
    note plan = evaluateTransition_replanned [OF planner uniq slot(7)]
    show thesis
      using moves [OF slot(1)] replanned_cores [OF plan] replanned_frame [OF plan]
      by (simp add: slot(5,6,8) tentative_frame)
  next
    case (across source k r t')
    note re = reallocate_each_sound [OF across(6) [unfolded reallocatePcBuildHosts_def] uniq]
    then have "unique_assignment_ids r"
      using uniq map_via_core(1) unfolding unique_assignment_ids_def by metis
    note plan = evaluateTransition_replanned [OF planner this across(7)]
    obtain as where "r = (tentative_move p source tgt (safe_position tpos))\<lparr>pr_assignments := as\<rparr>"
      using re by blast
    then show thesis
      using moves [OF across(1)] re replanned_cores [OF plan] replanned_frame [OF plan]
      by (simp add: across(4,8) tentative_frame)
  qed (rule idle)
qed

lemma move_replans:
  assumes "distinct (map as_id (pr_assignments p))"
    and "moveAssignedComponent en now p aid tgt tpos = Inr t"
  shows "\<exists>source swapped. findAssignmentById (pr_assignments p) aid = Some source
     \<and> swapped = (if as_serverId source = tgt \<and> (as_type source \<noteq> TRam \<or> safe_position tpos = None) then None
                  else move_target p source tgt (safe_position tpos))
     \<and> map as_id (pr_assignments (pt_project t)) = map as_id (pr_assignments p)
     \<and> map as_itemId (pr_assignments (pt_project t)) = map as_itemId (pr_assignments p)
     \<and> map as_type (pr_assignments (pt_project t)) = map as_type (pr_assignments p)
     \<and> map as_serverId (pr_assignments (pt_project t))
         = map (\<lambda>a. if as_id a = as_id source then tgt
                    else if map_option as_id swapped = Some (as_id a) then as_serverId source
                    else as_serverId a) (pr_assignments p)
     \<and> (\<forall>b. swapped = Some b \<longrightarrow> b \<in> set (pr_assignments p) \<and> as_serverId b = tgt
            \<and> as_type b = as_type source)
     \<and> pr_items (pt_project t) = pr_items p \<and> pr_placements (pt_project t) = pr_placements p
     \<and> pr_connections (pt_project t) = pr_connections p
     \<and> (as_serverId source = tgt \<and> (as_type source \<noteq> TRam \<or> safe_position tpos = None) \<longrightarrow> pt_project t = p)"
  using assms
proof (cases rule: move_result)
  case (idle source)
  have "as_serverId a = tgt" if "a \<in> set (pr_assignments p)" "as_id a = as_id source" for a
    using id_unique [OF assms(1) that(1) findAssignmentById_mem [OF idle(1)] that(2)] idle(2) by simp
  with idle show ?thesis by (intro exI [of _ source] exI [of _ None]) auto
next
  case (moves source)
  have swap: "move_target p source tgt (safe_position tpos)
      = (if as_serverId source = tgt \<and> (as_type source \<noteq> TRam \<or> safe_position tpos = None) then None
         else move_target p source tgt (safe_position tpos))"
    by (simp only: moves(6) if_False)
  have "as_serverId source = tgt \<and> (as_type source \<noteq> TRam \<or> safe_position tpos = None) \<longrightarrow> pt_project t = p"
    using moves(6) by blast
  then show ?thesis
    using moves(1,3-5) swap map_via_core [OF moves(2)] move_target_host move_target_type
      tentative_hosts [OF assms(1) findAssignmentById_mem [OF moves(1)], unfolded moved_hosts_def]
    by (intro exI [of _ source] exI [of _ "move_target p source tgt (safe_position tpos)"]) (simp add: tentative_frame)
qed

lemma move_positions:
  assumes "distinct (map as_id (pr_assignments p))" "moveAssignedComponent en now p aid tgt tpos = Inr t"
    and "findAssignmentById (pr_assignments p) aid = Some source" "as_serverId source \<noteq> tgt"
    and "h = as_serverId source \<or> h = tgt \<or> positions_disjoint p h"
  shows "positions_disjoint (pt_project t) h"
  using assms(2)
proof (cases rule: move_shape)
  case (across source' k r t')
  have s: "source' = source" using across(1) assms(3) by simp
  let ?q = "tentative_move p source tgt (safe_position tpos)"
  have uniq: "unique_assignment_ids ?q" using assms(1) by (simp add: unique_assignment_ids_def tentative_frame)
  note re = reallocate_each_sound [OF across(6) [unfolded reallocatePcBuildHosts_def s] uniq]
  then have "unique_assignment_ids r"
    using uniq map_via_core(1) unfolding unique_assignment_ids_def by metis
  have q: "kind_at ?q = kind_at p" "host_is_pc_build ?q h = host_is_pc_build p h"
    by (simp_all add: tentative_move_def)
  have r: "kind_at r = kind_at p" using re kind_at_only_assignments q(1) by metis
  have "positions_disjoint ?q h" if "positions_disjoint p h" "h \<noteq> as_serverId source" "h \<noteq> tgt"
    by (rule positions_disjoint_filter [OF that(1)]) (rule tentative_other_host [OF _ _ that(2,3)])
  then have "h \<in> {as_serverId source, tgt} \<and> \<not> host_is_pc_build p h \<or> positions_disjoint r h"
    using re assms(5) q(2) by auto
  with transition_positions [OF across(7) \<open>unique_assignment_ids r\<close> r, of h] across(2,3,9) show ?thesis
    by (simp add: across(8) s)
qed (use assms(3,4) in auto)

end

end
