(* ===== verification/Compat_Text.thy ===== *)
theory Compat_Text
  imports Pc_Resources "HOL-Library.Code_Target_Nat"
begin

text \<open>
  Reading and comparing the texts and numbers of the compatibility data: the value readers and
  normalizers of \<open>shared/compatibility/index.mjs\<close>, the CPU generation aliases of
  \<open>shared/compatibility/cpu-generation-aliases.mjs\<close> and the M.2 keys and USB generations of
  \<open>packages/catalog-protocol/src/m2-ae-compatibility.ts\<close>.  Each regular expression is a function
  on strings.  Names that \<open>src/lib\<close> uses too carry the suffix \<open>_js\<close>.  \<open>toUpperCase\<close> is modelled on
  the characters whose capital is a Latin-1 character again; a number is printed with at most 20
  decimals and without an exponent.
\<close>

section \<open>Definitions\<close>

subsection \<open>Strings\<close>

text \<open>\<open>s.replace(/[P]+/g, r)\<close>.\<close>

function replace_runs :: "(char \<Rightarrow> bool) \<Rightarrow> string \<Rightarrow> string \<Rightarrow> string" where
  "replace_runs P r [] = []"
| "replace_runs P r (c # cs) =
     (if P c then r @ replace_runs P r (dropWhile P cs) else c # replace_runs P r cs)"
  by pat_completeness auto
termination
  by (relation "measure (\<lambda>(P, r, s). length s)") (auto simp: le_imp_less_Suc length_dropWhile_le)

definition upper_char :: "char \<Rightarrow> string" where
  "upper_char c = (let n = (of_char c :: nat) in
     if n = 223 then ''SS''
     else if (97 \<le> n \<and> n \<le> 122) \<or> (224 \<le> n \<and> n \<le> 254 \<and> n \<noteq> 247)
     then [char_of (n - 32)] else [c])"

definition js_upper :: "string \<Rightarrow> string" where
  "js_upper s = concat (map upper_char s)"

text \<open>\<open>[a-z]\<close>, \<open>[a-z0-9]\<close> and \<open>\w\<close>.\<close>

definition is_lower_letter :: "char \<Rightarrow> bool" where
  "is_lower_letter c = (let n = (of_char c :: nat) in 97 \<le> n \<and> n \<le> 122)"

definition is_alnum :: "char \<Rightarrow> bool" where
  "is_alnum c \<longleftrightarrow> is_lower_letter c \<or> is_digit c"

definition is_word_char :: "char \<Rightarrow> bool" where
  "is_word_char c \<longleftrightarrow> is_alnum c \<or> c = CHR ''_'' \<or> (let n = (of_char c :: nat) in 65 \<le> n \<and> n \<le> 90)"

subsection \<open>Numbers\<close>

primrec fraction_digits :: "nat \<Rightarrow> rat \<Rightarrow> string" where
  "fraction_digits 0 f = []"
| "fraction_digits (Suc n) f =
     (if f = 0 then []
      else digit_char (nat \<lfloor>10 * f\<rfloor>) # fraction_digits n (10 * f - of_int \<lfloor>10 * f\<rfloor>))"

definition show_num :: "rat \<Rightarrow> string" where
  "show_num r =
     (let a = \<bar>r\<bar>; f = a - of_int \<lfloor>a\<rfloor>
      in (if r < 0 then ''-'' else []) @ show_nat (nat \<lfloor>a\<rfloor>)
         @ (if f = 0 then [] else ''.'' @ fraction_digits 20 f))"

definition signed_literal :: "string \<Rightarrow> rat option" where
  "signed_literal s =
     (case s of
        [] \<Rightarrow> None
      | c # cs \<Rightarrow> if c = CHR ''-'' then map_option uminus (unsigned_literal cs)
                  else if c = CHR ''+'' then unsigned_literal cs else unsigned_literal s)"

definition optionalNumber_js :: "jsv option \<Rightarrow> rat option" where
  "optionalNumber_js v =
     (case v of
        Some (JNum r) \<Rightarrow> Some r
      | Some (JStr s) \<Rightarrow> if js_trim s = [] then None else signed_literal (js_trim s)
      | _ \<Rightarrow> None)"

subsection \<open>Readers\<close>

definition optionalText :: "string \<Rightarrow> string option" where
  "optionalText s =
     (let t = replace_runs is_js_space '' '' (js_trim s) in if t = [] then None else Some t)"

text \<open>A value that is a string.\<close>

definition text_of :: "jsv option \<Rightarrow> string option" where
  "text_of v = (case v of Some (JStr s) \<Rightarrow> Some s | _ \<Rightarrow> None)"

definition optionalString :: "jsv option \<Rightarrow> string option" where
  "optionalString v = Option.bind (text_of v) optionalText"

fun array_values :: "jsv option \<Rightarrow> jsv list" where
  "array_values None = []"
| "array_values (Some JNull) = []"
| "array_values (Some (JArr xs)) = xs"
| "array_values (Some v) = [v]"

definition optionalStringArray :: "jsv option \<Rightarrow> string list" where
  "optionalStringArray v = js_uniq (List.map_filter (\<lambda>x. optionalString (Some x)) (array_values v))"

text \<open>\<open>optionalStringArray\<close> on a list that the types declare to hold strings.\<close>

definition text_array :: "string list option \<Rightarrow> string list" where
  "text_array v = js_uniq (List.map_filter optionalText (nullish v []))"

definition normalizedText :: "string option \<Rightarrow> string option" where
  "normalizedText v = map_option js_lower (Option.bind v optionalText)"

definition includesNormalized_js :: "string list \<Rightarrow> string option \<Rightarrow> bool" where
  "includesNormalized_js values v =
     (normalizedText v \<noteq> None \<and> list_ex (\<lambda>s. normalizedText (Some s) = normalizedText v) values)"

subsection \<open>Normal forms of the data\<close>

definition normalizeRamGeneration :: "jsv option \<Rightarrow> string option" where
  "normalizeRamGeneration v = map_option js_upper (optionalString v)"

text \<open>\<open>replace(/^FC(?=(?:LGA|BGA|PGA)\d)/, '')\<close>.\<close>

definition strip_fc :: "string \<Rightarrow> string" where
  "strip_fc s =
     (if js_starts ''FC'' s
         \<and> list_ex (\<lambda>q. js_starts q (drop 2 s) \<and> (case drop 5 s of c # _ \<Rightarrow> is_digit c | [] \<Rightarrow> False))
             [''LGA'', ''BGA'', ''PGA'']
      then drop 2 s else s)"

definition socket_separator :: "char \<Rightarrow> bool" where
  "socket_separator c \<longleftrightarrow> is_js_space c \<or> c = CHR ''_'' \<or> c = CHR ''-''"

definition normalizeCpuSocket :: "string option \<Rightarrow> string option" where
  "normalizeCpuSocket v =
     map_option (\<lambda>s. strip_fc (replace_runs socket_separator [] (js_upper s))) (Option.bind v optionalText)"

definition canonicalInterfaces :: "string dict" where
  "canonicalInterfaces =
     [(''m.2'', ''M.2''), (''nvme'', ''NVMe''), (''pcie'', ''PCIe''), (''sas'', ''SAS''),
      (''sata'', ''SATA''), (''u.2'', ''U.2''), (''usb'', ''USB'')]"

definition normalizeStorageInterface :: "jsv option \<Rightarrow> string option" where
  "normalizeStorageInterface v =
     map_option (\<lambda>s. nullish (map_of canonicalInterfaces (js_lower s)) s) (optionalString v)"

definition STORAGE_FORM_FACTOR_ALIASES :: "string dict" where
  "STORAGE_FORM_FACTOR_ALIASES =
     [(''2.5'', ''2.5-inch''), (''2.5-inch'', ''2.5-inch''), (''3.5'', ''3.5-inch''),
      (''3.5-inch'', ''3.5-inch''), (''m.2-2230'', ''2230''), (''m2-2230'', ''2230''),
      (''m.2-2242'', ''2242''), (''m2-2242'', ''2242''), (''m.2-2260'', ''2260''),
      (''m2-2260'', ''2260''), (''m.2-2280'', ''2280''), (''m2-2280'', ''2280''),
      (''m.2-22110'', ''22110''), (''m2-22110'', ''22110'')]"

text \<open>\<open>replace(/\binches?\b/g, 'inch')\<close>; the first argument says whether the previous character is a
  word character.\<close>

definition word_ends :: "string \<Rightarrow> bool" where
  "word_ends s = (case s of [] \<Rightarrow> True | c # _ \<Rightarrow> \<not> is_word_char c)"

function replace_inches :: "bool \<Rightarrow> string \<Rightarrow> string" where
  "replace_inches w [] = []"
| "replace_inches w (c # cs) =
     (if \<not> w \<and> js_starts ''inches'' (c # cs) \<and> word_ends (drop 5 cs)
      then ''inch'' @ replace_inches True (drop 5 cs)
      else if \<not> w \<and> js_starts ''inche'' (c # cs) \<and> word_ends (drop 4 cs)
      then ''inch'' @ replace_inches True (drop 4 cs)
      else c # replace_inches (is_word_char c) cs)"
  by pat_completeness auto
termination
  by (relation "measure (\<lambda>(w, s). length s)") auto

definition normalizeStorageFormFactor :: "string option \<Rightarrow> string option" where
  "normalizeStorageFormFactor v =
     map_option (\<lambda>s.
        let unquoted = filter (\<lambda>c. c \<noteq> char_of (34 :: nat) \<and> c \<noteq> char_of (39 :: nat)) (js_lower s);
            compact = replace_runs socket_separator ''-'' (replace_inches False unquoted)
        in nullish (map_of STORAGE_FORM_FACTOR_ALIASES compact) compact) (Option.bind v optionalText)"

subsection \<open>PCIe descriptors\<close>

text \<open>The match of \<open>/PCIe\s*([\d.]+)\s*x(\d+)/i\<close> at the front of a string, and anywhere in it: the
  classes of neighbouring parts are disjoint, so the longest match of each part is the only one.\<close>

definition pcie_at :: "string \<Rightarrow> (string \<times> string) option" where
  "pcie_at s =
     (if \<not> js_starts ''pcie'' (js_lower s) then None
      else let r1 = dropWhile is_js_space (drop 4 s);
               generation = takeWhile (\<lambda>c. is_digit c \<or> c = CHR ''.'') r1;
               r2 = dropWhile is_js_space (dropWhile (\<lambda>c. is_digit c \<or> c = CHR ''.'') r1)
           in case r2 of
                [] \<Rightarrow> None
              | x # r3 \<Rightarrow>
                  let lanes = takeWhile is_digit r3
                  in if generation \<noteq> [] \<and> lower_char x = CHR ''x'' \<and> lanes \<noteq> []
                     then Some (generation, lanes) else None)"

fun pcie_match :: "string \<Rightarrow> (string \<times> string) option" where
  "pcie_match [] = None"
| "pcie_match (c # cs) = (case pcie_at (c # cs) of Some m \<Rightarrow> Some m | None \<Rightarrow> pcie_match cs)"

definition parsePcieDescriptor :: "jsv option \<Rightarrow> jsv dict" where
  "parsePcieDescriptor v =
     (case v of
        Some (JStr s) \<Rightarrow>
          (case pcie_match s of
             None \<Rightarrow> []
           | Some (g, l) \<Rightarrow>
               (case (optionalNumber_js (Some (JStr g)), optionalNumber_js (Some (JStr l))) of
                  (Some pcieGeneration, Some connectorLanes) \<Rightarrow>
                    [(''pcieGeneration'', JNum pcieGeneration), (''connectorLanes'', JNum connectorLanes)]
                | _ \<Rightarrow> []))
      | _ \<Rightarrow> [])"

subsection \<open>CPU generations\<close>

text \<open>\<open>normalized\<close> of the alias module: runs of other characters become one blank.\<close>

definition alias_text :: "string \<Rightarrow> string" where
  "alias_text s = js_trim (replace_runs (\<lambda>c. \<not> is_alnum c) '' '' (js_lower (js_trim s)))"

definition DIRECT_ALIASES :: "string list dict" where
  "DIRECT_ALIASES =
     [(''10th gen'', [''product:intel:10th-gen'']),
      (''10th generation'', [''product:intel:10th-gen'']),
      (''products formerly comet lake'', [''product:intel:10th-gen'', ''codename:intel:comet-lake'']),
      (''comet lake'', [''product:intel:10th-gen'', ''codename:intel:comet-lake'']),
      (''11th gen'', [''product:intel:11th-gen'']),
      (''11th generation'', [''product:intel:11th-gen'']),
      (''products formerly rocket lake'', [''product:intel:11th-gen'', ''codename:intel:rocket-lake'']),
      (''rocket lake'', [''product:intel:11th-gen'', ''codename:intel:rocket-lake'']),
      (''13th gen'', [''product:intel:13th-gen'']),
      (''13th generation'', [''product:intel:13th-gen'']),
      (''ryzen pro 4000'', [''product:amd:ryzen-pro-4000'']),
      (''ryzen 4000'', [''product:amd:ryzen-4000'']),
      (''zen 2'', [''architecture:amd:zen-2'']),
      (''zen 3'', [''architecture:amd:zen-3''])]"

definition intelOrdinalProductToken :: "string \<Rightarrow> string option" where
  "intelOrdinalProductToken key =
     (let n = takeWhile is_digit key; r = dropWhile is_digit key; suffix = take 2 r
      in if n \<noteq> [] \<and> length n \<le> 3 \<and> suffix \<in> {''st'', ''nd'', ''rd'', ''th''}
            \<and> (drop 2 r = '' gen'' \<or> drop 2 r = '' generation'')
         then Some (''product:intel:'' @ n @ suffix @ ''-gen'') else None)"

definition canonicalCpuGenerationTokens :: "string option \<Rightarrow> string list" where
  "canonicalCpuGenerationTokens v =
     (let key = (case v of None \<Rightarrow> [] | Some s \<Rightarrow> alias_text s) in
      if key = [] then []
      else case intelOrdinalProductToken key of
          Some t \<Rightarrow> [t]
        | None \<Rightarrow> nullish (map_of DIRECT_ALIASES key) [''literal:'' @ key])"

text \<open>\<open>/\b4[0-9]{3}[a-z]{0,2}\b/\<close> on a text of words of \<open>[a-z0-9]\<close>.\<close>

definition ryzen_4000_word :: "string \<Rightarrow> bool" where
  "ryzen_4000_word w \<longleftrightarrow> take 1 w = ''4'' \<and> 4 \<le> length w \<and> length w \<le> 6
     \<and> list_all is_digit (take 3 (drop 1 w)) \<and> list_all is_lower_letter (drop 4 w)"

text \<open>\<open>values.filter(Boolean).join(' ')\<close>.\<close>

definition join_texts :: "string option list \<Rightarrow> string" where
  "join_texts vs = js_join '' '' (filter (\<lambda>s. s \<noteq> []) (List.map_filter id vs))"

definition inferCpuProductGenerationTokens :: "inventory_item \<Rightarrow> string list" where
  "inferCpuProductGenerationTokens item =
     (let identity = js_split (CHR '' '') (alias_text (join_texts
            [it_manufacturer item, it_family item, it_model item, it_number item, it_name item]))
      in if ''pro'' \<in> set identity \<and> list_ex ryzen_4000_word identity then [''product:amd:ryzen-pro-4000'']
         else if ''ryzen'' \<in> set identity \<and> list_ex ryzen_4000_word identity then [''product:amd:ryzen-4000'']
         else [])"

subsection \<open>M.2 keys and USB generations\<close>

datatype module_key = KeyA | KeyE | KeyAE

definition canonicalModuleKey :: "string \<Rightarrow> module_key option" where
  "canonicalModuleKey v =
     (let t = replace_runs is_js_space [] (js_upper (js_trim v)) in
      if t = ''A'' then Some KeyA
      else if t = ''E'' then Some KeyE
      else if t \<in> {''A+E'', ''A-E'', ''A&E'', ''A/E'', ''E+A'', ''E-A'', ''E&A'', ''E/A''} then Some KeyAE
      else None)"

definition moduleKeyFitsSocket :: "string \<Rightarrow> string \<Rightarrow> bool" where
  "moduleKeyFitsSocket moduleKey socketKey =
     (let m = canonicalModuleKey moduleKey; socket = canonicalModuleKey socketKey in
      if m = None \<or> socket = None \<or> socket = Some KeyAE then m \<noteq> None \<and> m = socket
      else m = socket \<or> m = Some KeyAE)"

definition USB_GENERATIONS_V12 :: "string list" where
  "USB_GENERATIONS_V12 =
     [''USB 1.1'', ''USB 2.0'', ''USB 3.2 Gen 1'', ''USB 3.2 Gen 2'', ''USB 3.2 Gen 2x2'', ''USB4 20Gbps'',
      ''USB4 40Gbps'', ''USB4 80Gbps'']"

definition USB_GENERATION_ALIASES :: "string dict" where
  "USB_GENERATION_ALIASES =
     [(''1.1'', ''USB 1.1''), (''2.0'', ''USB 2.0''), (''usb 1.1'', ''USB 1.1''), (''usb 2.0'', ''USB 2.0''),
      (''usb 3.0'', ''USB 3.2 Gen 1''), (''usb 3.1 gen 1'', ''USB 3.2 Gen 1''),
      (''usb 3.1 gen 2'', ''USB 3.2 Gen 2''), (''usb 3.2 gen 1'', ''USB 3.2 Gen 1''),
      (''usb 3.2 gen 2'', ''USB 3.2 Gen 2''), (''usb 3.2 gen 2x2'', ''USB 3.2 Gen 2x2''),
      (''usb 4'', ''USB4 20Gbps''), (''usb4 20gbps'', ''USB4 20Gbps''), (''usb4 40gbps'', ''USB4 40Gbps''),
      (''usb4 80gbps'', ''USB4 80Gbps'')]"

text \<open>\<open>normalize('NFKC')\<close> on the Latin-1 characters that it maps to ASCII.\<close>

definition nfkc_char :: "char \<Rightarrow> char" where
  "nfkc_char c = (let n = (of_char c :: nat) in
     if n = 160 then CHR '' '' else if n = 170 then CHR ''a'' else if n = 178 then CHR ''2''
     else if n = 179 then CHR ''3'' else if n = 185 then CHR ''1'' else if n = 186 then CHR ''o'' else c)"

definition normalizeUsbGenerationV12 :: "string option \<Rightarrow> bool \<Rightarrow> string option" where
  "normalizeUsbGenerationV12 v legacyBoundary =
     (case v of
        None \<Rightarrow> None
      | Some s \<Rightarrow>
          if js_trim s = [] then None
          else let t = js_lower (replace_runs is_js_space '' '' (js_trim (map nfkc_char s))) in
            case map_of USB_GENERATION_ALIASES t of
              Some canonical \<Rightarrow> if legacyBoundary \<or> js_lower canonical = t then Some canonical else None
            | None \<Rightarrow> None)"

definition usbGenerationAtLeastV12 :: "string option \<Rightarrow> string option \<Rightarrow> bool option" where
  "usbGenerationAtLeastV12 actual minimum =
     (case (normalizeUsbGenerationV12 actual False, normalizeUsbGenerationV12 minimum False) of
        (Some a, Some b) \<Rightarrow> Some (js_indexOf b USB_GENERATIONS_V12 \<le> js_indexOf a USB_GENERATIONS_V12)
      | _ \<Rightarrow> None)"

end
