(* ===== verification/Compat_Requirements.thy ===== *)
theory Compat_Requirements
  imports Compat_Text Constraints
begin

text \<open>
  What a component requires and what a host offers, in the normal form in which the compatibility
  engine compares them: \<open>normalizeComponentRequirements\<close>, \<open>normalizeHostCapabilities\<close>, the valid
  resource groups of a host and the optional module slots of a component, from
  \<open>shared/compatibility/index.mjs\<close>.  Requirements are a dictionary of the fields that are not
  \<open>undefined\<close>.  The host's data have their declared types, so that the coercions of numeric fields
  are the identity; the legacy field names \<open>aliases\<close> and \<open>acceptedKeys\<close> of a module slot are not
  part of the type and are not modelled.
\<close>

section \<open>Definitions\<close>

subsection \<open>Values\<close>

definition text_field :: "string \<Rightarrow> string option \<Rightarrow> jsv dict" where
  "text_field k v = field k (map_option JStr v)"

definition num_field :: "string \<Rightarrow> rat option \<Rightarrow> jsv dict" where
  "num_field k v = field k (map_option JNum v)"

definition texts_field :: "string \<Rightarrow> string list \<Rightarrow> jsv dict" where
  "texts_field k v = [(k, JArr (map JStr v))]"

text \<open>A property of a value, \<open>undefined\<close> when the value is not an object.\<close>

definition get_field :: "jsv option \<Rightarrow> string \<Rightarrow> jsv option" where
  "get_field v k = (case v of Some (JObj m) \<Rightarrow> map_of m k | _ \<Rightarrow> None)"

text \<open>Reading normalized requirements.\<close>

definition req_text :: "jsv dict \<Rightarrow> string \<Rightarrow> string option" where
  "req_text r k = text_of (map_of r k)"

definition req_num :: "jsv dict \<Rightarrow> string \<Rightarrow> rat option" where
  "req_num r k = (case map_of r k of Some (JNum n) \<Rightarrow> Some n | _ \<Rightarrow> None)"

definition req_bool :: "jsv dict \<Rightarrow> string \<Rightarrow> bool option" where
  "req_bool r k = (case map_of r k of Some (JBool b) \<Rightarrow> Some b | _ \<Rightarrow> None)"

definition req_list :: "jsv dict \<Rightarrow> string \<Rightarrow> jsv list" where
  "req_list r k = (case map_of r k of Some (JArr xs) \<Rightarrow> xs | _ \<Rightarrow> [])"

definition req_texts :: "jsv dict \<Rightarrow> string \<Rightarrow> string list" where
  "req_texts r k = List.map_filter (\<lambda>v. text_of (Some v)) (req_list r k)"

definition req_nums :: "jsv dict \<Rightarrow> string \<Rightarrow> rat list" where
  "req_nums r k = List.map_filter (\<lambda>v. case v of JNum n \<Rightarrow> Some n | _ \<Rightarrow> None) (req_list r k)"

definition EXPANSION_TYPES :: "inventory_type set" where
  "EXPANSION_TYPES = {TGpu, TNetwork, TSoundCard}"

definition isExpansion :: "inventory_type \<Rightarrow> bool" where
  "isExpansion t \<longleftrightarrow> t \<in> EXPANSION_TYPES"

subsection \<open>Requirements of a component\<close>

text \<open>One entry of \<open>requiredBuses\<close>.\<close>

definition required_bus :: "jsv \<Rightarrow> jsv list" where
  "required_bus bus =
     (case normalizedText (text_of (get_field (Some bus) ''family'')) of
        None \<Rightarrow> []
      | Some family \<Rightarrow>
          if family \<noteq> ''pcie'' \<and> family \<noteq> ''usb'' then []
          else [JObj ([(''family'', JStr family)]
                @ num_field ''minimumLanes'' (optionalNumber_js (get_field (Some bus) ''minimumLanes''))
                @ num_field ''minimumPcieGeneration''
                    (optionalNumber_js (get_field (Some bus) ''minimumPcieGeneration''))
                @ text_field ''minimumUsbGeneration''
                    (optionalString (get_field (Some bus) ''minimumUsbGeneration'')))])"

definition inferred_family :: "inventory_type \<Rightarrow> string option \<Rightarrow> string option" where
  "inferred_family t legacyInterface =
     (case legacyInterface of
        None \<Rightarrow> None
      | Some s \<Rightarrow>
          let l = js_lower s; has = (\<lambda>q. js_includes l q) in
          if t \<noteq> TSoundCard then None
          else if has ''m.2'' \<or> has ''m2'' \<or> has ''a+e'' then Some ''m2-ae''
          else if has ''usb'' then Some ''usb''
          else if has ''onboard'' \<or> has ''on board'' \<or> has ''on-board'' then Some ''onboard''
          else if has ''pcie'' \<or> has ''pci express'' then Some ''pcie''
          else None)"

text \<open>\<open>structuredNumber\<close>: a structured field that is present decides even when it is not a number.\<close>

definition structuredNumber :: "jsv dict option \<Rightarrow> string \<Rightarrow> rat option \<Rightarrow> rat option" where
  "structuredNumber structured k fallback =
     (case Option.bind structured (\<lambda>m. map_of m k) of
        Some v \<Rightarrow> optionalNumber_js (Some v)
      | None \<Rightarrow> fallback)"

definition expansion_requirements :: "inventory_type \<Rightarrow> jsv dict \<Rightarrow> jsv dict option \<Rightarrow> jsv dict" where
  "expansion_requirements t specs structured =
     (let spec = map_of specs;
          st = (\<lambda>k. Option.bind structured (\<lambda>m. map_of m k));
          legacy = parsePcieDescriptor (nullish_jsv (spec ''pcie'') (spec ''interface''));
          legacyInterface = optionalString
            (nullish_jsv (nullish_jsv (spec ''interface'') (spec ''slot'')) (spec ''pcie''));
          interfaceFamily = optionalString
            (nullish_jsv (st ''interfaceFamily'') (map_option JStr (inferred_family t legacyInterface)));
          requiredBuses = concat (map required_bus
            (case st ''requiredBuses'' of
               Some (JArr bs) \<Rightarrow> bs
             | _ \<Rightarrow> (case get_field (spec ''hostInterface'') ''requiredBuses'' of
                        Some (JArr bs) \<Rightarrow> bs
                      | _ \<Rightarrow> if truthy_jsv (st ''busFamily'')
                             then [JObj (field ''family'' (st ''busFamily''))] else [])));
          powerMw = structuredNumber structured ''powerMw'' None;
          powerWatts = structuredNumber structured ''powerWatts''
            (case powerMw of None \<Rightarrow> optionalNumber_js (spec ''powerWatts'') | Some m \<Rightarrow> Some (m / 1000))
      in [(''type'', JStr (type_name t))]
         @ text_field ''interfaceFamily'' interfaceFamily
         @ text_field ''interfaceKey'' (optionalString (st ''interfaceKey''))
         @ text_field ''key'' (optionalString (st ''key''))
         @ text_field ''moduleSize'' (optionalString (st ''moduleSize''))
         @ text_field ''usbGeneration'' (optionalString (st ''usbGeneration''))
         @ text_field ''connector'' (optionalString (st ''connector''))
         @ (if requiredBuses \<noteq> [] then [(''requiredBuses'', JArr requiredBuses)] else [])
         @ text_field ''ocpVersion'' (optionalString (st ''ocpVersion''))
         @ num_field ''pcieGeneration'' (structuredNumber structured ''pcieGeneration'' (req_num legacy ''pcieGeneration''))
         @ num_field ''connectorLanes'' (structuredNumber structured ''connectorLanes'' (req_num legacy ''connectorLanes''))
         @ num_field ''minimumElectricalLanes'' (structuredNumber structured ''minimumElectricalLanes'' None)
         @ text_field ''height'' (optionalString (st ''height''))
         @ num_field ''slotWidth'' (structuredNumber structured ''slotWidth'' None)
         @ num_field ''powerWatts'' powerWatts
         @ num_field ''lengthMm'' (structuredNumber structured ''lengthMm'' (optionalNumber_js (spec ''lengthMm'')))
         @ num_field ''heightMm'' (structuredNumber structured ''heightMm'' (optionalNumber_js (spec ''heightMm''))))"

definition cpu_requirements :: "jsv dict \<Rightarrow> jsv dict" where
  "cpu_requirements structured =
     [(''type'', JStr ''cpu'')]
     @ text_field ''socket'' (normalizeCpuSocket (text_of (map_of structured ''socket'')))
     @ text_field ''generation'' (optionalString (map_of structured ''generation''))
     @ num_field ''tdpWatts'' (optionalNumber_js (map_of structured ''tdpWatts''))"

definition memory_requirements :: "jsv dict \<Rightarrow> jsv dict \<Rightarrow> jsv dict" where
  "memory_requirements specs structured =
     (let pick = (\<lambda>k. nullish_jsv (map_of structured k) (map_of specs k));
          capacityGb = optionalNumber_js (pick ''capacityGb'')
      in [(''type'', JStr ''ram'')]
         @ num_field ''capacityGb'' capacityGb
         @ [(''moduleCount'', JNum 1)]
         @ num_field ''moduleCapacityGb'' capacityGb
         @ text_field ''generation'' (normalizeRamGeneration (pick ''generation''))
         @ num_field ''speedMt'' (optionalNumber_js (pick ''speedMt''))
         @ text_field ''formFactor'' (optionalString (pick ''formFactor''))
         @ text_field ''moduleType'' (optionalString (pick ''moduleType''))
         @ field ''ecc'' (case map_of structured ''ecc'' of
             Some (JBool b) \<Rightarrow> Some (JBool b)
           | _ \<Rightarrow> (case map_of specs ''ecc'' of Some (JBool b) \<Rightarrow> Some (JBool b) | _ \<Rightarrow> None))
         @ text_field ''rank'' (optionalString (map_of specs ''rank'')))"

definition storage_requirements :: "jsv dict \<Rightarrow> jsv dict" where
  "storage_requirements specs =
     [(''type'', JStr ''storage'')]
     @ num_field ''capacityGb'' (optionalNumber_js (map_of specs ''capacityGb''))
     @ num_field ''capacityTb'' (optionalNumber_js (map_of specs ''capacityTb''))
     @ text_field ''interface'' (normalizeStorageInterface (map_of specs ''interface''))
     @ text_field ''formFactor'' (optionalString (map_of specs ''formFactor''))
     @ parsePcieDescriptor (map_of specs ''pcie'')"

text \<open>\<open>a ?? b ?? c\<close> on values.\<close>

definition first_value :: "jsv option list \<Rightarrow> jsv option" where
  "first_value vs = foldr nullish_jsv vs None"

text \<open>\<open>xs.map(normalizeCpuSocket).filter(Boolean)\<close>.\<close>

definition normal_sockets :: "string list \<Rightarrow> string list" where
  "normal_sockets xs = filter (\<lambda>s. s \<noteq> []) (List.map_filter (\<lambda>s. normalizeCpuSocket (Some s)) xs)"

definition cooler_requirements :: "jsv dict \<Rightarrow> jsv dict \<Rightarrow> jsv dict" where
  "cooler_requirements specs structured =
     (let spec = map_of specs; st = map_of structured in
      [(''type'', JStr ''cpuCooler'')]
      @ texts_field ''supportedSockets'' (normal_sockets (optionalStringArray (first_value
          [st ''supportedSockets'', st ''sockets'', spec ''supportedSockets'', spec ''sockets''])))
      @ num_field ''coolingCapacityWatts'' (optionalNumber_js (first_value
          [st ''coolingCapacityWatts'', st ''maxTdpWatts'', spec ''coolingCapacityWatts'',
           spec ''maxTdpWatts'', spec ''tdpWatts'']))
      @ num_field ''heightMm'' (optionalNumber_js (first_value
          [st ''heightMm'', spec ''heightMm'', spec ''coolerHeightMm'']))
      @ num_field ''radiatorSizeMm'' (optionalNumber_js (first_value
          [st ''radiatorSizeMm'', spec ''radiatorSizeMm''])))"

definition supply_connector :: "jsv \<Rightarrow> jsv list" where
  "supply_connector c =
     (case (optionalString (get_field (Some c) ''connector''), optionalNumber_js (get_field (Some c) ''count'')) of
        (Some name, Some n) \<Rightarrow>
          if isSafeInteger_rat n \<and> 0 < n then [JObj [(''connector'', JStr name), (''count'', JNum n)]] else []
      | _ \<Rightarrow> [])"

definition supply_requirements :: "jsv dict \<Rightarrow> jsv dict" where
  "supply_requirements specs =
     (let spec = map_of specs in
      [(''type'', JStr ''powerSupply'')]
      @ num_field ''wattageWatts'' (optionalNumber_js (first_value
          [spec ''wattageWatts'', spec ''wattage'', spec ''powerWatts'']))
      @ text_field ''formFactor'' (optionalString (spec ''formFactor''))
      @ [(''connectors'', JArr (concat (map supply_connector
           (case spec ''connectors'' of Some (JArr cs) \<Rightarrow> cs | _ \<Rightarrow> []))))])"

definition case_requirements :: "jsv dict \<Rightarrow> jsv dict" where
  "case_requirements specs =
     (let spec = map_of specs in
      [(''type'', JStr ''case'')]
      @ texts_field ''supportedMotherboardFormFactors'' (optionalStringArray (first_value
          [spec ''supportedMotherboardFormFactors'', spec ''motherboardFormFactors'', spec ''formFactors'']))
      @ texts_field ''supportedPsuFormFactors'' (optionalStringArray (first_value
          [spec ''supportedPsuFormFactors'', spec ''psuFormFactors'']))
      @ num_field ''maxCoolerHeightMm'' (optionalNumber_js (first_value
          [spec ''maxCoolerHeightMm'', spec ''cpuCoolerHeightMm'']))
      @ num_field ''maxExpansionLengthMm'' (optionalNumber_js (first_value
          [spec ''maxExpansionLengthMm'', spec ''maxGpuLengthMm'']))
      @ num_field ''maxExpansionHeightMm'' (optionalNumber_js (first_value
          [spec ''maxExpansionHeightMm'', spec ''maxGpuHeightMm'']))
      @ num_field ''maxExpansionSlotWidth'' (optionalNumber_js (first_value
          [spec ''maxExpansionSlotWidth'', spec ''maxGpuSlotWidth'']))
      @ [(''supportedRadiatorSizesMm'', JArr (map JNum (List.map_filter (\<lambda>s. optionalNumber_js (Some (JStr s)))
           (optionalStringArray (first_value
              [spec ''supportedRadiatorSizesMm'', spec ''radiatorSizesMm''])))))])"

text \<open>\<open>normalizeComponentRequirements\<close> on the fields it reads, which a fixed component has too.\<close>

definition requirements_of ::
  "inventory_type \<Rightarrow> jsv dict option \<Rightarrow> inventory_compatibility option \<Rightarrow> jsv dict" where
  "requirements_of t specs0 c =
     (let specs = nullish specs0 [];
          structured = (\<lambda>sel. Option.bind (Option.bind c compat_requirements) sel)
      in if t = TCpu then cpu_requirements (nullish (structured cq_cpu) [])
         else if t = TRam then memory_requirements specs (nullish (structured cq_memory) [])
         else if t = TStorage then storage_requirements specs
         else if isExpansion t then expansion_requirements t specs (structured cq_expansion)
         else if t = TCpuCooler
         then cooler_requirements specs (nullish (structured cq_cooling) (nullish (structured cq_cpuCooler) []))
         else if t = TPowerSupply then supply_requirements specs
         else if t = TCase then case_requirements specs
         else if t = TMotherboard
         then [(''type'', JStr ''motherboard'')] @ text_field ''formFactor'' (optionalString (map_of specs ''formFactor''))
         else [(''type'', JStr (type_name t))])"

definition normalizeComponentRequirements :: "inventory_item \<Rightarrow> jsv dict" where
  "normalizeComponentRequirements item = requirements_of (it_type item) (it_specs item) (it_compatibility item)"

subsection \<open>Capabilities of a host\<close>

definition no_capabilities :: host_compatibility where
  "no_capabilities =
     \<lparr>host_topologyCompleteness = None, host_cpu = None, host_memory = None, host_storageSlots = None,
      host_expansionSlots = None, host_optionalModuleSlots = None, host_controllerSlots = None,
      host_bootDeviceSlots = None, host_coolingProfiles = None, host_management = None,
      host_constraintGroups = None, host_fixedPorts = None, host_powerConnectors = None,
      host_power = None, host_maxExpansionPowerWatts = None\<rparr>"

fun socket_key_name :: "socket_key \<Rightarrow> string" where
  "socket_key_name SocketA = ''A''"
| "socket_key_name SocketE = ''E''"

definition positive_safe :: "int \<Rightarrow> bool" where
  "positive_safe n \<longleftrightarrow> isSafeInteger n \<and> 0 < n"

definition normalize_host_cpu :: "host_cpu \<Rightarrow> host_cpu" where
  "normalize_host_cpu c =
     c\<lparr>hc_sockets := map_option normal_sockets (hc_sockets c),
       hc_populationModes := map_option (filter (\<lambda>n. isSafeInteger_rat n \<and> 0 < n)) (hc_populationModes c)\<rparr>"

definition normalize_storage_group :: "storage_group \<Rightarrow> storage_group" where
  "normalize_storage_group g =
     g\<lparr>sg_controllerSlotIds := map_option (filter positive_safe) (sg_controllerSlotIds g)\<rparr>"

definition normalize_module_group :: "optional_module_group \<Rightarrow> optional_module_group" where
  "normalize_module_group g =
     g\<lparr>om_keyAliases := Some (text_array (om_keyAliases g)),
       om_socketKeys := Some (js_uniq (nullish (om_socketKeys g) [])),
       om_moduleSizes := Some (text_array (om_moduleSizes g)),
       om_intendedModuleKinds := Some (text_array (om_intendedModuleKinds g)),
       om_availableBuses := map_option (map (\<lambda>b. b\<lparr>ab_usbGeneration := Option.bind (ab_usbGeneration b) optionalText\<rparr>))
         (om_availableBuses g)\<rparr>"

definition normalizeHostCapabilities :: "inventory_item option \<Rightarrow> host_compatibility" where
  "normalizeHostCapabilities item =
     (case Option.bind (Option.bind item it_compatibility) compat_host of
        None \<Rightarrow> no_capabilities
      | Some h \<Rightarrow>
          h\<lparr>host_cpu := map_option normalize_host_cpu (host_cpu h),
            host_storageSlots := map_option (map normalize_storage_group) (host_storageSlots h),
            host_optionalModuleSlots := map_option (map normalize_module_group) (host_optionalModuleSlots h)\<rparr>)"

subsection \<open>Resource groups\<close>

text \<open>The groups with a unique positive id, a key and a positive count; the functions read the id, the
  key and the count of a group.\<close>

definition validResourceGroups ::
  "('g \<Rightarrow> int) \<Rightarrow> ('g \<Rightarrow> string) \<Rightarrow> ('g \<Rightarrow> rat) \<Rightarrow> 'g list option \<Rightarrow> 'g list" where
  "validResourceGroups gid gkey gcount groups =
     (let gs = nullish groups [] in
      filter (\<lambda>g. positive_safe (gid g) \<and> count_list (map gid gs) (gid g) = 1
                  \<and> optionalText (gkey g) \<noteq> None \<and> isInteger_rat (gcount g) \<and> 0 < gcount g) gs)"

definition valid_modules :: "host_compatibility \<Rightarrow> optional_module_group list" where
  "valid_modules caps = validResourceGroups om_id om_key om_count (host_optionalModuleSlots caps)"

text \<open>The text that a template literal makes of a value, \<open>${v ?? ''}\<close>.\<close>

fun display_text :: "jsv \<Rightarrow> string" where
  "display_text JNull = []"
| "display_text (JBool b) = (if b then ''true'' else ''false'')"
| "display_text (JNum r) = show_num r"
| "display_text (JStr s) = s"
| "display_text (JArr xs) = js_join '','' (map display_text xs)"
| "display_text (JObj m) = ''[object Object]''"

definition optionalModuleKinds :: "inventory_item \<Rightarrow> string list" where
  "optionalModuleKinds component =
     (let explicit = js_uniq (List.map_filter optionalString
            [spec_of component ''moduleKind'',
             Option.bind (Option.bind (Option.bind (it_compatibility component) compat_requirements)
               cq_optionalModule) (\<lambda>m. map_of m ''kind'')])
      in if explicit \<noteq> [] then explicit
         else if it_type component = TNetwork \<and> spec_of component ''networkTechnology'' = Some (JStr ''wifi'')
         then [''network-adapter'', ''wireless-card'']
         else if it_type component = TSoundCard then [''sound-card'']
         else if it_type component = TNetwork
         then (let descriptor = js_lower (nullish (it_subtype component) [] @ '' ''
                     @ (case spec_of component ''formFactor'' of None \<Rightarrow> [] | Some v \<Rightarrow> display_text v))
               in if js_includes descriptor ''flex'' then [''flex-io-module'', ''network-card''] else [''network-card''])
         else [])"

definition text_includes :: "string option \<Rightarrow> string \<Rightarrow> bool" where
  "text_includes t q = (case t of None \<Rightarrow> False | Some s \<Rightarrow> js_includes s q)"

definition physical_module_group :: "string \<Rightarrow> optional_module_group \<Rightarrow> bool" where
  "physical_module_group physicalFamily g =
     (case normalizedText (map_option family_name (om_interfaceFamily g)) of
        Some f \<Rightarrow> f = physicalFamily
      | None \<Rightarrow> physicalFamily = ''m2-ae''
          \<and> (text_includes (normalizedText (Some (om_key g))) ''wlan-m2''
             \<or> text_includes (normalizedText (Some (om_key g))) ''m2-ae''
             \<or> text_includes (normalizedText (Some (om_label g))) ''m.2 wlan''
             \<or> text_includes (normalizedText (Some (om_label g))) ''m.2 a/e''))"

definition optionalModuleGroupsFor :: "host_compatibility \<Rightarrow> inventory_item \<Rightarrow> optional_module_group list" where
  "optionalModuleGroupsFor caps component =
     (let physical = (case normalizedText (req_text (normalizeComponentRequirements component) ''interfaceFamily'') of
                        None \<Rightarrow> []
                      | Some family \<Rightarrow> filter (physical_module_group family) (valid_modules caps));
          acceptedKinds = optionalModuleKinds component
      in if physical \<noteq> [] then physical
         else filter (\<lambda>g. list_ex (\<lambda>k. k \<in> set acceptedKinds) (text_array (om_acceptedModuleKinds g)))
                (valid_modules caps))"

subsection \<open>The policy for verified memory limits\<close>

definition isVerifiedMemoryLimitEnabled :: "project \<Rightarrow> string \<Rightarrow> bool" where
  "isVerifiedMemoryLimitEnabled p hostId =
     (case hostReference hostId of
        None \<Rightarrow> False
      | Some (t, n) \<Rightarrow>
          list_ex (\<lambda>e. type_name (hr_hostType e) = t \<and> hr_hostId e = n)
            (nullish (po_verifiedMemoryHosts (normalizeCompatibilityPolicy (pr_compatibilityPolicy p))) []))"

definition host_ref_known :: "project \<Rightarrow> host_ref \<Rightarrow> bool" where
  "host_ref_known p r =
     (case item_at p (type_name (hr_hostType r) @ '':'' @ show_int (hr_hostId r)) of
        None \<Rightarrow> False
      | Some i \<Rightarrow> isHostType (it_type i))"

definition normalizeProjectCompatibilityPolicy :: "project \<Rightarrow> project" where
  "normalizeProjectCompatibilityPolicy p =
     (let policy = normalizeCompatibilityPolicy (pr_compatibilityPolicy p);
          verified = filter (host_ref_known p) (nullish (po_verifiedMemoryHosts policy) [])
      in p\<lparr>pr_compatibilityPolicy := Some (policy
             \<lparr>po_disabledHosts := filter (host_ref_known p) (po_disabledHosts policy),
              po_verifiedMemoryHosts := (if verified \<noteq> [] then Some verified
                                         else po_verifiedMemoryHosts policy)\<rparr>)\<rparr>)"

end
