(* ===== verification/Compat_Evaluate.thy ===== *)
theory Compat_Evaluate
  imports Compat_Requirements
begin

text \<open>
  The rules of the compatibility engine: \<open>evaluateAssignmentCompatibility\<close> and
  \<open>evaluateProjectCompatibility\<close> of \<open>shared/compatibility/index.mjs\<close>.  The code passes one array of
  findings along and pushes to it; here every rule maps the findings so far to the findings after
  it.  Reading a property of \<open>undefined\<close> throws in JavaScript: the rules that can do so return
  \<open>Inl\<close> with the message of the \<open>TypeError\<close>.
\<close>

section \<open>Definitions\<close>

subsection \<open>Findings\<close>

definition new_finding :: "string \<Rightarrow> severity \<Rightarrow> string \<Rightarrow> string \<Rightarrow> int option \<Rightarrow> finding" where
  "new_finding code sev message fld rid =
     \<lparr>fd_code = code, fd_severity = sev, fd_classification = None, fd_message = message,
      fd_field = Some fld, fd_resourceId = rid\<rparr>"

definition finding_key :: "finding \<Rightarrow> string \<times> string option \<times> int option" where
  "finding_key f = (fd_code f, fd_field f, fd_resourceId f)"

definition addFinding :: "finding list \<Rightarrow> finding \<Rightarrow> finding list" where
  "addFinding fs f =
     (let f' = f\<lparr>fd_classification := Some (nullish (fd_classification f)
                  (if fd_severity f = SevUnknown then Informational else Actionable))\<rparr>
      in if list_ex (\<lambda>e. finding_key e = finding_key f') fs then fs else fs @ [f'])"

definition addMissing :: "finding list \<Rightarrow> string \<Rightarrow> string \<Rightarrow> int option \<Rightarrow> finding list" where
  "addMissing fs fld message rid =
     addFinding fs ((new_finding ''compatibility.data.missing'' SevUnknown message fld
                       (if truthy_num rid then rid else None))\<lparr>fd_classification := Some Informational\<rparr>)"

abbreviation missing :: "string \<Rightarrow> string \<Rightarrow> int option \<Rightarrow> finding list \<Rightarrow> finding list" where
  "missing fld message rid fs \<equiv> addMissing fs fld message rid"

abbreviation report :: "string \<Rightarrow> severity \<Rightarrow> string \<Rightarrow> string \<Rightarrow> int option \<Rightarrow> finding list \<Rightarrow> finding list" where
  "report code sev message fld rid fs \<equiv> addFinding fs (new_finding code sev message fld rid)"

definition statusFor :: "finding list \<Rightarrow> compat_status" where
  "statusFor fs =
     (if list_ex (\<lambda>f. fd_severity f = SevError) fs then Incompatible
      else if list_ex (\<lambda>f. fd_severity f = SevUnknown) fs then UnknownStatus
      else Compatible)"

definition result_of :: "finding list \<Rightarrow> compatibility_result" where
  "result_of fs = \<lparr>cr_status = statusFor fs, cr_findings = fs, cr_allocation = None\<rparr>"

subsection \<open>Assigned components\<close>

definition itemLookup :: "inventory_item dict \<Rightarrow> string \<Rightarrow> inventory_item option" where
  "itemLookup items k =
     (case map_of items k of
        Some i \<Rightarrow> Some i
      | None \<Rightarrow> List.find (\<lambda>i. js_String (it_id i) = k \<or> (truthy_str (it_key i) \<and> it_key i = Some k)) (map snd items))"

definition component_key :: "inventory_item \<Rightarrow> string" where
  "component_key i = nullish (it_key i) (type_name (it_type i) @ '':'' @ js_String (it_id i))"

definition assignedComponents ::
  "assignment list \<Rightarrow> inventory_item dict \<Rightarrow> inventory_item option \<Rightarrow> inventory_item list" where
  "assignedComponents as items component =
     map snd (map_from (map (\<lambda>i. (component_key i, i))
       (List.map_filter (\<lambda>a. itemLookup items (as_itemId a)) as
        @ (case component of None \<Rightarrow> [] | Some c \<Rightarrow> [c]))))"

definition assignedItemOfType ::
  "assignment list \<Rightarrow> inventory_item dict \<Rightarrow> inventory_type \<Rightarrow> inventory_item option \<Rightarrow> inventory_item option" where
  "assignedItemOfType as items t component = List.find (\<lambda>i. it_type i = t) (assignedComponents as items component)"

definition effectiveHostForAssignment ::
  "inventory_item \<Rightarrow> assignment list \<Rightarrow> inventory_item dict \<Rightarrow> inventory_item option \<Rightarrow> inventory_item" where
  "effectiveHostForAssignment host as items component =
     (if it_type host \<noteq> TPcBuild then host
      else case assignedItemOfType as items TMotherboard component of
          None \<Rightarrow> host
        | Some motherboard \<Rightarrow>
            host\<lparr>it_compatibility := Some
              \<lparr>compat_host = Some (nullish (Option.bind (it_compatibility motherboard) compat_host) no_capabilities),
               compat_requirements = Option.bind (it_compatibility host) compat_requirements\<rparr>\<rparr>)"

subsection \<open>CPU\<close>

text \<open>\<open>!Array.isArray(xs) || xs.length === 0\<close>.\<close>

definition none_recorded :: "'a list option \<Rightarrow> bool" where
  "none_recorded v \<longleftrightarrow> nullish v [] = []"

definition plural :: "rat \<Rightarrow> string" where
  "plural n = (if n = 1 then [] else ''s'')"

definition cpu_generation_rule :: "host_cpu option \<Rightarrow> jsv dict \<Rightarrow> inventory_item \<Rightarrow> finding list \<Rightarrow> finding list" where
  "cpu_generation_rule support reqs component fs =
     (let generation = req_text reqs ''generation'';
          tokens = js_uniq (canonicalCpuGenerationTokens generation @ inferCpuProductGenerationTokens component);
          accepted = nullish (Option.bind support hc_generations) [];
          acceptedTokens = concat (map (\<lambda>g. canonicalCpuGenerationTokens (Some g)) accepted);
          product = (\<lambda>t. js_starts ''product:'' t)
      in if accepted = [] then missing ''host.cpu.generations'' ''Host CPU generation support is not recorded.'' None fs
         else if \<not> truthy_str generation \<and> tokens = []
         then missing ''component.cpu.generation'' ''CPU generation is not recorded.'' None fs
         else if (truthy_str generation \<and> includesNormalized_js accepted generation)
                 \<or> list_ex (\<lambda>t. product t \<and> t \<in> set acceptedTokens) tokens
                 \<or> (\<not> list_ex product acceptedTokens \<and> list_ex (\<lambda>t. t \<in> set acceptedTokens) tokens)
         then fs
         else report ''cpu.generation.unsupported'' SevError
                (''CPU generation '' @ nullish generation ''unknown'' @ '' is not supported by this host.'')
                ''component.cpu.generation'' None fs)"

definition cpu_socket_rule :: "host_cpu option \<Rightarrow> jsv dict \<Rightarrow> finding list \<Rightarrow> finding list" where
  "cpu_socket_rule support reqs fs =
     (let accepted = Option.bind support hc_sockets; actual = req_text reqs ''socket'' in
      if none_recorded accepted then missing ''host.cpu.sockets'' ''Host CPU socket support is not recorded.'' None fs
      else if \<not> truthy_str actual then missing ''component.cpu.socket'' ''CPU socket is not recorded.'' None fs
      else if \<not> includesNormalized_js (the accepted) actual
      then report ''cpu.socket.mismatch'' SevError
             (''CPU socket '' @ the actual @ '' is not supported by this host.'') ''component.cpu.socket'' None fs
      else fs)"

definition cpu_power_rule :: "host_cpu option \<Rightarrow> jsv dict \<Rightarrow> finding list \<Rightarrow> finding list" where
  "cpu_power_rule support reqs fs =
     (case (Option.bind support hc_maxTdpWatts, req_num reqs ''tdpWatts'') of
        (None, _) \<Rightarrow> missing ''host.cpu.maxTdpWatts'' ''Host CPU TDP limit is not recorded.'' None fs
      | (Some limit, None) \<Rightarrow> missing ''component.cpu.tdpWatts'' ''CPU TDP is not recorded.'' None fs
      | (Some limit, Some tdp) \<Rightarrow>
          if limit < tdp
          then report ''cpu.tdp.exceeded'' SevError
                 (''CPU TDP '' @ show_num tdp @ ''W exceeds the host limit of '' @ show_num limit @ ''W.'')
                 ''component.cpu.tdpWatts'' None fs
          else fs)"

definition cpu_count_rule :: "host_cpu option \<Rightarrow> rat \<Rightarrow> finding list \<Rightarrow> finding list" where
  "cpu_count_rule support cpuCount fs =
     (case Option.bind support hc_socketCount of
        None \<Rightarrow> fs
      | Some socketCount \<Rightarrow>
          if isSafeInteger_rat socketCount \<and> 0 < socketCount \<and> socketCount < cpuCount
          then report ''cpu.sockets.exceeded'' SevError
                 (show_num cpuCount @ '' assigned CPUs exceed the host's '' @ show_num socketCount @ '' sockets.'')
                 ''host.cpu.socketCount'' None fs
          else fs)"

definition cpu_population_rule :: "host_cpu option \<Rightarrow> rat \<Rightarrow> finding list \<Rightarrow> finding list" where
  "cpu_population_rule support cpuCount fs =
     (let modes = nullish (Option.bind support hc_populationModes) [] in
      if modes \<noteq> [] \<and> cpuCount \<notin> set modes
      then report ''cpu.population.incomplete'' SevWarning
             (show_num cpuCount @ '' populated CPU socket'' @ plural cpuCount
              @ '' does not match the supported population modes ('' @ js_join '', '' (map show_num modes) @ '').'')
             ''host.cpu.populationModes'' None fs
      else fs)"

definition evaluateCpu ::
  "host_compatibility \<Rightarrow> jsv dict \<Rightarrow> assignment list \<Rightarrow> inventory_item dict \<Rightarrow> inventory_item
     \<Rightarrow> finding list \<Rightarrow> finding list" where
  "evaluateCpu caps reqs as items component fs =
     (let support = host_cpu caps;
          cpuCount = rat_of_nat (length (filter (\<lambda>i. it_type i = TCpu) (assignedComponents as items (Some component))));
          fs = cpu_socket_rule support reqs fs;
          fs = cpu_generation_rule support reqs component fs;
          fs = cpu_power_rule support reqs fs;
          fs = cpu_count_rule support cpuCount fs
      in cpu_population_rule support cpuCount fs)"

subsection \<open>Memory\<close>

definition fixed_memory :: "fixed_component \<Rightarrow> bool" where
  "fixed_memory c \<longleftrightarrow> fc_componentType c = ''ram'' \<or> fc_componentType c = ''memory'' \<or> fi_type (fc_item c) = TRam"

text \<open>The capacity of each fixed memory component, the only field of its requirements that is read.\<close>

definition fixedMemoryRequirements :: "inventory_item \<Rightarrow> rat option list" where
  "fixedMemoryRequirements host =
     map (\<lambda>c. let spec = (\<lambda>k. Option.bind (fi_specs (fc_item c)) (\<lambda>m. map_of m k)) in
              case optionalNumber_js (spec ''capacityMib'') of
                None \<Rightarrow> optionalNumber_js (spec ''capacityGb'')
              | Some mib \<Rightarrow> Some (mib / 1024))
       (filter fixed_memory (nullish (it_fixedComponents host) []))"

definition effectiveMemorySupport :: "host_memory \<Rightarrow> bool \<Rightarrow> host_memory" where
  "effectiveMemorySupport support useVerified =
     (let totalMib = (if useVerified \<and> hm_verifiedMaxCapacityMib support \<noteq> None
                      then hm_verifiedMaxCapacityMib support else hm_oemMaxCapacityMib support);
          moduleMib = (if useVerified \<and> hm_verifiedMaxModuleCapacityMib support \<noteq> None
                       then hm_verifiedMaxModuleCapacityMib support else hm_oemMaxModuleCapacityMib support)
      in support
         \<lparr>hm_maxCapacityGb := (case totalMib of None \<Rightarrow> hm_maxCapacityGb support | Some m \<Rightarrow> Some (m / 1024)),
          hm_maxModuleCapacityGb := (case moduleMib of None \<Rightarrow> hm_maxModuleCapacityGb support
                                     | Some m \<Rightarrow> Some (m / 1024))\<rparr>)"

fun form_factor_name :: "memory_form_factor \<Rightarrow> string" where
  "form_factor_name FormDimm = ''DIMM''"
| "form_factor_name FormSoDimm = ''SO-DIMM''"
| "form_factor_name FormOnboard = ''Onboard''"

fun module_type_name :: "memory_module_type \<Rightarrow> string" where
  "module_type_name ModUdimm = ''UDIMM''"
| "module_type_name ModRdimm = ''RDIMM''"
| "module_type_name ModLrdimm = ''LRDIMM''"
| "module_type_name ModOnboard = ''Onboard''"

definition memory_generation_rule :: "host_memory option \<Rightarrow> jsv dict \<Rightarrow> finding list \<Rightarrow> finding list" where
  "memory_generation_rule support reqs fs =
     (let accepted = Option.bind support hm_generations; generation = req_text reqs ''generation'' in
      if none_recorded accepted
      then missing ''host.memory.generations'' ''Host memory generations are not recorded.'' None fs
      else if \<not> truthy_str generation
      then missing ''component.memory.generation'' ''Memory generation is not recorded.'' None fs
      else if \<not> includesNormalized_js (the accepted) generation
      then report ''memory.generation.mismatch'' SevError (the generation @ '' memory is not supported by this host.'')
             ''component.memory.generation'' None fs
      else fs)"

definition memory_slots_rule :: "host_memory option \<Rightarrow> jsv dict list \<Rightarrow> finding list \<Rightarrow> finding list" where
  "memory_slots_rule support modules fs =
     (case Option.bind support hm_slots of
        None \<Rightarrow> missing ''host.memory.slots'' ''Host memory slot count is not recorded.'' None fs
      | Some slots \<Rightarrow>
          let moduleCount = rat_of_nat (length modules) in
          if slots < moduleCount
          then report ''memory.slots.exceeded'' SevError
                 (show_num moduleCount @ '' memory modules exceed the host's '' @ show_num slots @ '' slots.'')
                 ''component.memory.slots'' None fs
          else fs)"

definition memory_capacity_rule ::
  "host_memory option \<Rightarrow> rat option list \<Rightarrow> finding list \<Rightarrow> finding list" where
  "memory_capacity_rule support entries fs =
     (case Option.bind support hm_maxCapacityGb of
        None \<Rightarrow> missing ''host.memory.maxCapacityGb'' ''Host memory capacity limit is not recorded.'' None fs
      | Some limit \<Rightarrow>
          let known = List.map_filter id entries;
              capacity = sum_list known;
              fs = (if length known \<noteq> length entries
                    then missing ''component.memory.capacityGb'' ''Memory capacity is not recorded.'' None fs else fs)
          in if limit < capacity
             then report ''memory.capacity.exceeded'' SevError
                    (show_num capacity @ ''GB installed memory exceeds the host limit of '' @ show_num limit @ ''GB.'')
                    ''component.memory.capacityGb'' None fs
             else fs)"

definition memory_module_rule :: "host_memory option \<Rightarrow> rat option list \<Rightarrow> finding list \<Rightarrow> finding list" where
  "memory_module_rule support entries fs =
     (case Option.bind support hm_maxModuleCapacityGb of
        None \<Rightarrow> missing ''host.memory.maxModuleCapacityGb'' ''Host per-module memory limit is not recorded.'' None fs
      | Some limit \<Rightarrow>
          let known = List.map_filter id entries;
              fs = (if length known \<noteq> length entries
                    then missing ''component.memory.moduleCapacityGb'' ''Memory module capacity is not known.'' None fs
                    else fs)
          in case known of
               [] \<Rightarrow> fs
             | k # ks \<Rightarrow>
                 let largestModule = fold max ks k in
                 if limit < largestModule
                 then report ''memory.module-capacity.exceeded'' SevError
                        (show_num largestModule @ ''GB modules exceed the host limit of '' @ show_num limit
                         @ ''GB per module.'') ''component.memory.moduleCapacityGb'' None fs
                 else fs)"

definition memory_speed_rule :: "host_memory option \<Rightarrow> jsv dict \<Rightarrow> finding list \<Rightarrow> finding list" where
  "memory_speed_rule support reqs fs =
     (case (Option.bind support hm_maxSpeedMt, req_num reqs ''speedMt'') of
        (None, _) \<Rightarrow> missing ''host.memory.maxSpeedMt'' ''Host memory speed limit is not recorded.'' None fs
      | (Some limit, None) \<Rightarrow> missing ''component.memory.speedMt'' ''Memory speed is not recorded.'' None fs
      | (Some limit, Some speed) \<Rightarrow>
          if limit < speed
          then report ''memory.speed.negotiated'' SevWarning
                 (show_num speed @ ''MT/s memory will operate at up to '' @ show_num limit @ ''MT/s.'')
                 ''component.memory.speedMt'' None fs
          else fs)"

text \<open>The physical form factor and the electrical module type are compared alike.\<close>

definition memory_text_rule ::
  "string list \<Rightarrow> string option \<Rightarrow> (finding list \<Rightarrow> finding list) \<Rightarrow> (string \<Rightarrow> finding list \<Rightarrow> finding list)
     \<Rightarrow> finding list \<Rightarrow> finding list" where
  "memory_text_rule accepted actual absent mismatch fs =
     (if accepted \<noteq> [] \<and> \<not> truthy_str actual then absent fs
      else if accepted \<noteq> [] \<and> \<not> includesNormalized_js accepted actual then mismatch (the actual) fs
      else fs)"

definition registered_memory :: "jsv dict \<Rightarrow> bool" where
  "registered_memory reqs \<longleftrightarrow> normalizedText (req_text reqs ''moduleType'') \<in> {Some ''rdimm'', Some ''lrdimm''}"

definition effective_ecc :: "jsv dict \<Rightarrow> bool option" where
  "effective_ecc reqs = (case req_bool reqs ''ecc'' of Some b \<Rightarrow> Some b
     | None \<Rightarrow> if registered_memory reqs then None else Some False)"

definition memory_ecc_rule :: "host_memory option \<Rightarrow> jsv dict \<Rightarrow> finding list \<Rightarrow> string + finding list" where
  "memory_ecc_rule support reqs fs =
     (let moduleType = nullish (req_text reqs ''moduleType'') [];
          effectiveEcc = effective_ecc reqs;
          fs = (if registered_memory reqs \<and> effectiveEcc \<noteq> Some True
                then (if effectiveEcc = None
                      then missing ''component.memory.ecc'' (moduleType @ '' ECC capability is not recorded.'') None fs
                      else report ''memory.registered-ecc.required'' SevError (moduleType @ '' memory must use ECC.'')
                             ''component.memory.ecc'' None fs)
                else fs)
      in if effectiveEcc \<noteq> Some True then Inr fs
         else case support of
             None \<Rightarrow> Inl ''Cannot read properties of undefined (reading 'eccSupport')''
           | Some s \<Rightarrow>
               if hm_eccSupport s = Some EccUnsupported
               then Inr (report ''memory.ecc.unsupported'' SevError ''ECC memory is not supported by this host.''
                           ''component.memory.ecc'' None fs)
               else Inr fs)"

text \<open>The memory rules before the ECC rule.\<close>

definition memory_rules ::
  "host_memory option \<Rightarrow> jsv dict \<Rightarrow> jsv dict list \<Rightarrow> inventory_item \<Rightarrow> finding list \<Rightarrow> finding list" where
  "memory_rules support reqs modules host fs =
     (let fs = memory_generation_rule support reqs fs;
          fs = memory_slots_rule support modules fs;
          fs = memory_capacity_rule support
                 (map (\<lambda>m. req_num m ''capacityGb'') modules @ fixedMemoryRequirements host) fs;
          fs = memory_module_rule support (map (\<lambda>m. req_num m ''moduleCapacityGb'') modules) fs;
          fs = memory_speed_rule support reqs fs;
          fs = memory_text_rule (map form_factor_name (nullish (Option.bind support hm_formFactors) []))
                 (req_text reqs ''formFactor'')
                 (missing ''component.memory.formFactor'' ''Memory physical form factor is not recorded.'' None)
                 (\<lambda>f. report ''memory.form-factor.mismatch'' SevError (f @ '' memory does not fit this host.'')
                        ''component.memory.formFactor'' None) fs
      in memory_text_rule (map module_type_name (nullish (Option.bind support hm_moduleTypes) []))
                 (req_text reqs ''moduleType'')
                 (missing ''component.memory.moduleType'' ''Memory electrical module type is not recorded.'' None)
                 (\<lambda>m. report ''memory.module-type.mismatch'' SevError
                        (m @ '' memory is not electrically supported by this host.'')
                        ''component.memory.moduleType'' None) fs)"

definition evaluateMemory ::
  "host_compatibility \<Rightarrow> jsv dict \<Rightarrow> assignment list \<Rightarrow> inventory_item dict \<Rightarrow> inventory_item
     \<Rightarrow> inventory_item \<Rightarrow> bool \<Rightarrow> finding list \<Rightarrow> string + finding list" where
  "evaluateMemory caps reqs as items component host useVerified fs =
     (let support = map_option (\<lambda>s. effectiveMemorySupport s useVerified) (host_memory caps);
          modules = map normalizeComponentRequirements
            (filter (\<lambda>i. it_type i = TRam) (assignedComponents as items (Some component)))
      in memory_ecc_rule support reqs (memory_rules support reqs modules host fs))"

subsection \<open>Storage\<close>

definition storage_form_missing :: "jsv dict \<Rightarrow> finding list \<Rightarrow> finding list" where
  "storage_form_missing reqs fs =
     (if truthy_str (req_text reqs ''formFactor'') then fs
      else missing ''component.storage.formFactor'' ''Storage form factor is not recorded.'' None fs)"

definition single_group_id :: "storage_group list \<Rightarrow> int option" where
  "single_group_id gs = (case gs of [g] \<Rightarrow> Some (sg_id g) | _ \<Rightarrow> None)"

definition storage_interface_rule :: "storage_group list \<Rightarrow> jsv dict \<Rightarrow> string \<Rightarrow> finding list \<Rightarrow> finding list" where
  "storage_interface_rule groups reqs iface fs =
     (let unknownGroups = filter (\<lambda>g. none_recorded (sg_interfaces g)) groups in
      storage_form_missing reqs
        (if unknownGroups \<noteq> []
         then fold (\<lambda>g. missing ''host.storageSlots.interfaces''
                     ''Accepted storage interfaces are not recorded for this slot group.'' (Some (sg_id g))) unknownGroups fs
         else report ''storage.interface.mismatch'' SevError
                (''No storage slot accepts the '' @ iface @ '' interface.'') ''component.storage.interface''
                (single_group_id groups) fs))"

definition storage_form_rule ::
  "storage_group list \<Rightarrow> jsv dict \<Rightarrow> string \<Rightarrow> string \<Rightarrow> finding list \<Rightarrow> finding list" where
  "storage_form_rule interfaceGroups reqs iface form fs =
     (let expected = normalizeStorageFormFactor (Some form) in
      case List.find (\<lambda>g. list_ex (\<lambda>v. normalizeStorageFormFactor (Some v) = expected) (nullish (sg_formFactors g) []))
             interfaceGroups of
        None \<Rightarrow>
          (let unknownGroups = filter (\<lambda>g. none_recorded (sg_formFactors g)) interfaceGroups in
           if unknownGroups \<noteq> []
           then fold (\<lambda>g. missing ''host.storageSlots.formFactors''
                       ''Accepted storage form factors are not recorded for this slot group.'' (Some (sg_id g)))
                  unknownGroups fs
           else report ''storage.form-factor.mismatch'' SevError
                  (''No '' @ iface @ '' storage slot accepts the '' @ form @ '' form factor.'')
                  ''component.storage.formFactor'' (single_group_id interfaceGroups) fs)
      | Some slot \<Rightarrow>
          (case (req_num reqs ''pcieGeneration'', sg_pcieGeneration slot) of
             (Some want, Some have) \<Rightarrow>
               if normalizedText (Some iface) = Some ''nvme'' \<and> have < want
               then report ''storage.pcie-generation.negotiated'' SevWarning
                      (''PCIe '' @ show_num want @ '' storage will negotiate at the slot's PCIe '' @ show_num have
                       @ '' generation.'') ''component.storage.pcieGeneration'' (Some (sg_id slot)) fs
               else fs
           | _ \<Rightarrow> fs))"

definition evaluateStorage :: "host_compatibility \<Rightarrow> jsv dict \<Rightarrow> finding list \<Rightarrow> finding list" where
  "evaluateStorage caps reqs fs =
     (let groups = nullish (host_storageSlots caps) [] in
      if groups = [] then missing ''host.storageSlots'' ''Host storage slot capabilities are not recorded.'' None fs
      else if \<not> truthy_str (req_text reqs ''interface'')
      then storage_form_missing reqs
             (missing ''component.storage.interface'' ''Storage interface is not recorded.'' None fs)
      else let iface = the (req_text reqs ''interface'');
               interfaceGroups = filter (\<lambda>g. includesNormalized_js (nullish (sg_interfaces g) []) (Some iface)) groups
           in if interfaceGroups = [] then storage_interface_rule groups reqs iface fs
              else if \<not> truthy_str (req_text reqs ''formFactor'') then storage_form_missing reqs fs
              else storage_form_rule interfaceGroups reqs iface (the (req_text reqs ''formFactor'')) fs)"

subsection \<open>Expansion cards\<close>

text \<open>The comparison of an optional requirement with an optional offer: a finding when one is not
  recorded, and one when both are and do not match.\<close>

definition compare_rule ::
  "'a option \<Rightarrow> 'b option \<Rightarrow> ('a \<Rightarrow> 'b \<Rightarrow> bool) \<Rightarrow> (finding list \<Rightarrow> finding list) \<Rightarrow> (finding list \<Rightarrow> finding list)
     \<Rightarrow> ('a \<Rightarrow> 'b \<Rightarrow> finding list \<Rightarrow> finding list) \<Rightarrow> finding list \<Rightarrow> finding list" where
  "compare_rule want have fits no_want no_have clash fs =
     (case want of
        None \<Rightarrow> no_want fs
      | Some w \<Rightarrow> (case have of None \<Rightarrow> no_have fs | Some h \<Rightarrow> if fits w h then fs else clash w h fs))"

text \<open>A string that is not empty, as the code tests it.\<close>

definition truthy_text :: "string option \<Rightarrow> string option" where
  "truthy_text v = (if truthy_str v then v else None)"

fun group_text :: "string \<Rightarrow> expansion_group \<Rightarrow> string option" where
  "group_text k g =
     (if k = ''keying'' then eg_keying g else if k = ''moduleSize'' then eg_moduleSize g
      else if k = ''usbGeneration'' then eg_usbGeneration g else if k = ''connector'' then eg_connector g
      else if k = ''ocpVersion'' then eg_ocpVersion g else if k = ''interfaceKey'' then eg_interfaceKey g
      else None)"

definition exactFieldsByFamily :: "(string \<times> string \<times> string) list dict" where
  "exactFieldsByFamily =
     [(''m2-ae'', [(''key'', ''keying'', ''M.2 key''), (''moduleSize'', ''moduleSize'', ''module size'')]),
      (''m2-bm'', [(''key'', ''keying'', ''M.2 key''), (''moduleSize'', ''moduleSize'', ''module size'')]),
      (''usb'', [(''usbGeneration'', ''usbGeneration'', ''USB generation''),
                 (''connector'', ''connector'', ''USB connector'')]),
      (''ocp'', [(''ocpVersion'', ''ocpVersion'', ''OCP version'')]),
      (''mezzanine'', [(''interfaceKey'', ''interfaceKey'', ''mezzanine interface'')]),
      (''proprietary'', [(''interfaceKey'', ''interfaceKey'', ''proprietary interface'')])]"

definition exact_field_rule ::
  "expansion_group \<Rightarrow> jsv dict \<Rightarrow> string \<times> string \<times> string \<Rightarrow> finding list \<Rightarrow> finding list" where
  "exact_field_rule g reqs e =
     (case e of (rf, gf, label) \<Rightarrow>
        compare_rule (truthy_text (req_text reqs rf)) (truthy_text (group_text gf g))
          (\<lambda>w h. normalizedText (Some w) = normalizedText (Some h))
          (missing (''component.expansion.'' @ rf) (label @ '' is not recorded.'') (Some (eg_id g)))
          (missing (''host.expansionSlots.'' @ gf) (''Host '' @ label @ '' support is not recorded.'') (Some (eg_id g)))
          (\<lambda>w h. report (''expansion.'' @ rf @ ''.mismatch'') SevError
                   (w @ '' does not match the slot's '' @ h @ '' '' @ label @ ''.'') (''component.expansion.'' @ rf)
                   (Some (eg_id g))))"

definition pcie_rules :: "expansion_group \<Rightarrow> jsv dict \<Rightarrow> finding list \<Rightarrow> finding list" where
  "pcie_rules g reqs fs =
     (let rid = Some (eg_id g);
          fs = compare_rule (req_num reqs ''connectorLanes'') (eg_mechanicalLanes g) (\<lambda>w h. w \<le> h)
                 (missing ''component.expansion.connectorLanes'' ''Card connector width is not recorded.'' rid)
                 (missing ''host.expansionSlots.mechanicalLanes'' ''Slot mechanical width is not recorded.'' rid)
                 (\<lambda>w h. report ''expansion.mechanical-lanes.insufficient'' SevError
                    (''The card's x'' @ show_num w @ '' connector does not fit the x'' @ show_num h @ '' slot.'')
                    ''component.expansion.connectorLanes'' rid) fs;
          fs = compare_rule (req_num reqs ''pcieGeneration'') (eg_pcieGeneration g) (\<lambda>w h. w \<le> h)
                 (missing ''component.expansion.pcieGeneration'' ''Card PCIe generation is not recorded.'' rid)
                 (missing ''host.expansionSlots.pcieGeneration'' ''Slot PCIe generation is not recorded.'' rid)
                 (\<lambda>w h. report ''expansion.pcie-generation.negotiated'' SevWarning
                    (''PCIe '' @ show_num w @ '' hardware will negotiate at PCIe '' @ show_num h @ ''.'')
                    ''component.expansion.pcieGeneration'' rid) fs;
          fs = compare_rule (eg_electricalLanes g) (req_num reqs ''minimumElectricalLanes'') (\<lambda>h w. w \<le> h)
                 (missing ''host.expansionSlots.electricalLanes'' ''Slot electrical lane count is not recorded.'' rid)
                 id
                 (\<lambda>h w. report ''expansion.minimum-lanes.insufficient'' SevError
                    (''The slot provides x'' @ show_num h @ '', below the card's required x'' @ show_num w @ ''.'')
                    ''component.expansion.minimumElectricalLanes'' rid) fs;
          fs = compare_rule (truthy_text (req_text reqs ''height''))
                 (if none_recorded (eg_acceptedHeights g) then None else eg_acceptedHeights g)
                 (\<lambda>w h. w \<in> set (map height_name h))
                 (missing ''component.expansion.height'' ''Card height is not recorded.'' rid)
                 (missing ''host.expansionSlots.acceptedHeights'' ''Accepted card heights are not recorded.'' rid)
                 (\<lambda>w h. report ''expansion.height.unsupported'' SevError
                    (w @ '' cards are not supported by this slot.'') ''component.expansion.height'' rid) fs
      in compare_rule (req_num reqs ''slotWidth'') (eg_maxSlotWidth g) (\<lambda>w h. w \<le> h)
           (missing ''component.expansion.slotWidth'' ''Card occupied width is not recorded.'' rid)
           (missing ''host.expansionSlots.maxSlotWidth'' ''Slot occupied-width limit is not recorded.'' rid)
           (\<lambda>w h. report ''expansion.width.exceeded'' SevError
              (show_num w @ ''-slot hardware exceeds the '' @ show_num h @ ''-slot width limit.'')
              ''component.expansion.slotWidth'' rid) fs)"

definition slot_power_rule :: "expansion_group \<Rightarrow> jsv dict \<Rightarrow> finding list \<Rightarrow> finding list" where
  "slot_power_rule g reqs fs =
     (let rid = Some (eg_id g) in
      if req_text reqs ''interfaceFamily'' = Some ''pcie'' \<or> req_num reqs ''powerWatts'' \<noteq> None \<or> eg_maxPowerWatts g \<noteq> None
      then compare_rule (req_num reqs ''powerWatts'') (eg_maxPowerWatts g) (\<lambda>w h. w \<le> h)
             (missing ''component.expansion.powerWatts'' ''Expansion-card power draw is not recorded.'' rid)
             (missing ''host.expansionSlots.maxPowerWatts'' ''Per-slot power limit is not recorded.'' rid)
             (\<lambda>w h. report ''expansion.slot-power.exceeded'' SevError
                (show_num w @ ''W card draw exceeds the slot limit of '' @ show_num h @ ''W.'')
                ''component.expansion.powerWatts'' rid) fs
      else fs)"

definition evaluateExpansionGroup :: "expansion_group \<Rightarrow> jsv dict \<Rightarrow> nat \<Rightarrow> finding list" where
  "evaluateExpansionGroup g reqs populatedCpuSockets =
     (let fs = (case eg_requiredCpuSockets g of
                  None \<Rightarrow> []
                | Some n \<Rightarrow>
                    if isSafeInteger_rat n \<and> of_nat populatedCpuSockets < n
                    then report ''expansion.cpu-population.insufficient'' SevError
                           (eg_label g @ '' requires '' @ show_num n @ '' populated CPU sockets.'')
                           ''host.expansionSlots.requiredCpuSockets'' (Some (eg_id g)) []
                    else []);
          fs = (if req_text reqs ''interfaceFamily'' = Some ''pcie'' then pcie_rules g reqs fs else fs);
          fs = fold (exact_field_rule g reqs)
                 (nullish (Option.bind (req_text reqs ''interfaceFamily'') (map_of exactFieldsByFamily)) []) fs
      in slot_power_rule g reqs fs)"

definition expansionCandidateRank :: "nat \<times> finding list \<Rightarrow> nat \<times> nat \<times> nat \<times> nat" where
  "expansionCandidateRank c =
     (case c of (index, fs) \<Rightarrow>
        let errors = length (filter (\<lambda>f. fd_severity f = SevError) fs);
            unknowns = length (filter (\<lambda>f. fd_severity f = SevUnknown) fs)
        in (if errors = 0 \<and> unknowns = 0 then 0 else if errors = 0 then 1 else 2, errors, unknowns, index))"

text \<open>The comparison of ranks is the lexicographic order of the tuples; the reduction keeps the best
  candidate so far.\<close>

definition compareCandidateRank :: "nat \<times> finding list \<Rightarrow> nat \<times> finding list \<Rightarrow> bool" where
  "compareCandidateRank l r \<longleftrightarrow> expansionCandidateRank l < expansionCandidateRank r"

definition best_candidate :: "finding list list \<Rightarrow> nat \<times> finding list" where
  "best_candidate candidates =
     (case enumerate 0 candidates of
        [] \<Rightarrow> (0, [])
      | c # cs \<Rightarrow> foldl (\<lambda>best c. if compareCandidateRank c best then c else best) c cs)"

definition evaluateExpansionPower ::
  "host_compatibility \<Rightarrow> assignment list \<Rightarrow> inventory_item dict \<Rightarrow> inventory_item \<Rightarrow> finding list \<Rightarrow> finding list" where
  "evaluateExpansionPower caps as items component fs =
     (let powerRequirements = filter (\<lambda>r. req_text r ''interfaceFamily'' = Some ''pcie'' \<or> req_num r ''powerWatts'' \<noteq> None)
            (map normalizeComponentRequirements
               (filter (\<lambda>i. isExpansion (it_type i)) (assignedComponents as items (Some component))));
          known = List.map_filter (\<lambda>r. req_num r ''powerWatts'') powerRequirements;
          total = sum_list known
      in if powerRequirements = [] then fs
         else case host_maxExpansionPowerWatts caps of
             None \<Rightarrow> missing ''host.maxExpansionPowerWatts'' ''Host expansion power budget is not recorded.'' None fs
           | Some budget \<Rightarrow>
               let fs = (if length known \<noteq> length powerRequirements
                         then missing ''host.expansionPowerAssignments.powerWatts''
                                ''Power draw is missing for assigned expansion hardware.'' None fs else fs)
               in if budget < total
                  then report ''expansion.total-power.exceeded'' SevError
                         (show_num total @ ''W known expansion draw exceeds the host budget of '' @ show_num budget @ ''W.'')
                         ''host.maxExpansionPowerWatts'' None fs
                  else fs)"

definition expansion_slot_rule ::
  "host_compatibility \<Rightarrow> jsv dict \<Rightarrow> assignment list \<Rightarrow> inventory_item dict \<Rightarrow> finding list \<Rightarrow> finding list" where
  "expansion_slot_rule caps reqs as items fs =
     (let groups = nullish (host_expansionSlots caps) [] in
      if groups = [] then missing ''host.expansionSlots'' ''Host expansion slot capabilities are not recorded.'' None fs
      else if \<not> truthy_str (req_text reqs ''interfaceFamily'')
      then missing ''component.expansion.interfaceFamily'' ''Expansion interface family is not recorded.'' None fs
      else let family = the (req_text reqs ''interfaceFamily'');
               matching = filter (\<lambda>g. map_option family_name (eg_interfaceFamily g) = Some family) groups
           in if matching = []
              then report ''expansion.interface.mismatch'' SevError
                     (''No expansion slot accepts the '' @ family @ '' interface.'')
                     ''component.expansion.interfaceFamily'' None fs
              else let populated = length (filter (\<lambda>i. it_type i = TCpu) (assignedComponents as items None));
                       budget = (\<lambda>g. if length matching = 1 \<and> eg_maxPowerWatts g = None
                                         \<and> host_maxExpansionPowerWatts caps \<noteq> None
                                      then g\<lparr>eg_maxPowerWatts := host_maxExpansionPowerWatts caps\<rparr> else g);
                       selected = best_candidate (map (\<lambda>g. evaluateExpansionGroup (budget g) reqs populated) matching)
                   in foldl addFinding fs (snd selected))"

definition evaluateExpansion ::
  "host_compatibility \<Rightarrow> jsv dict \<Rightarrow> assignment list \<Rightarrow> inventory_item dict \<Rightarrow> inventory_item
     \<Rightarrow> finding list \<Rightarrow> finding list" where
  "evaluateExpansion caps reqs as items component fs =
     evaluateExpansionPower caps as items component (expansion_slot_rule caps reqs as items fs)"

subsection \<open>Optional modules\<close>

fun bus_name :: "bus_family \<Rightarrow> string" where
  "bus_name BusPcie = ''pcie''"
| "bus_name BusUsb = ''usb''"

text \<open>The rules of a bus the slot exposes.\<close>

definition pcie_bus_rules :: "int option \<Rightarrow> available_bus \<Rightarrow> jsv dict \<Rightarrow> finding list \<Rightarrow> finding list" where
  "pcie_bus_rules rid bus requirement fs =
     (let fs = compare_rule (req_num requirement ''minimumLanes'') (ab_lanes bus) (\<lambda>w h. w \<le> h) id
                 (missing ''host.optionalModuleSlots.availableBuses.lanes''
                    ''PCIe lane evidence is not recorded for this slot.'' rid)
                 (\<lambda>w h. report ''optional-module.bus.pcie-lanes.insufficient'' SevError
                    (''The slot provides x'' @ show_num h @ '', below the module's required x'' @ show_num w @ ''.'')
                    ''host.optionalModuleSlots.availableBuses.lanes'' rid) fs
      in compare_rule (req_num requirement ''minimumPcieGeneration'') (ab_pcieGeneration bus) (\<lambda>w h. w \<le> h) id
           (missing ''host.optionalModuleSlots.availableBuses.pcieGeneration''
              ''PCIe generation evidence is not recorded for this slot.'' rid)
           (\<lambda>w h. report ''optional-module.bus.pcie-generation.insufficient'' SevError
              (''The slot provides PCIe Gen'' @ show_num h @ '', below the module's required Gen'' @ show_num w @ ''.'')
              ''host.optionalModuleSlots.availableBuses.pcieGeneration'' rid) fs)"

definition usb_bus_rule :: "int option \<Rightarrow> available_bus \<Rightarrow> jsv dict \<Rightarrow> finding list \<Rightarrow> finding list" where
  "usb_bus_rule rid bus requirement fs =
     (case req_text requirement ''minimumUsbGeneration'' of
        None \<Rightarrow> fs
      | Some minimum \<Rightarrow>
          (case usbGenerationAtLeastV12 (ab_usbGeneration bus) (Some minimum) of
             None \<Rightarrow> missing ''host.optionalModuleSlots.availableBuses.usbGeneration''
                       ''USB generation evidence is not recorded for this slot.'' rid fs
           | Some sufficient \<Rightarrow>
               if sufficient then fs
               else report ''optional-module.bus.usb-generation.insufficient'' SevError
                      (''The slot provides '' @ nullish (ab_usbGeneration bus) ''undefined''
                       @ '', below the module's required '' @ minimum @ ''.'')
                      ''host.optionalModuleSlots.availableBuses.usbGeneration'' rid fs))"

definition evaluateRequiredBus :: "optional_module_group \<Rightarrow> jsv \<Rightarrow> finding list \<Rightarrow> finding list" where
  "evaluateRequiredBus g r fs =
     (let requirement = (case r of JObj m \<Rightarrow> m | _ \<Rightarrow> []);
          family = nullish (req_text requirement ''family'') [];
          rid = Some (om_id g)
      in case om_availableBuses g of
           None \<Rightarrow> missing ''host.optionalModuleSlots.availableBuses''
                     (''The slot's '' @ js_upper family @ '' bus availability is not recorded.'') rid fs
         | Some buses \<Rightarrow>
             (case List.find (\<lambda>b. normalizedText (Some (bus_name (ab_family b))) = normalizedText (Some family)) buses of
                None \<Rightarrow> report ''optional-module.bus.missing'' SevError
                          (''The slot does not expose the required '' @ js_upper family @ '' bus.'')
                          ''host.optionalModuleSlots.availableBuses'' rid fs
              | Some bus \<Rightarrow>
                  if family = ''pcie'' then pcie_bus_rules rid bus requirement fs
                  else usb_bus_rule rid bus requirement fs))"

definition evaluateOptionalModuleGroup :: "optional_module_group \<Rightarrow> jsv dict \<Rightarrow> finding list" where
  "evaluateOptionalModuleGroup g reqs =
     (let rid = Some (om_id g);
          socketKeys = map socket_key_name (js_uniq (nullish (om_socketKeys g) []));
          moduleSizes = text_array (om_moduleSizes g);
          fs = compare_rule (truthy_text (req_text reqs ''key'')) (if socketKeys = [] then None else Some socketKeys)
                 (\<lambda>k ks. list_ex (moduleKeyFitsSocket k) ks) id
                 (missing ''host.optionalModuleSlots.socketKeys'' ''Physical socket keying is not recorded for this slot.'' rid)
                 (\<lambda>k ks. report ''optional-module.socket-key.mismatch'' SevError
                    (''The '' @ k @ '' module key does not fit this socket.'')
                    ''host.optionalModuleSlots.socketKeys'' rid) [];
          fs = compare_rule (truthy_text (req_text reqs ''moduleSize'')) (if moduleSizes = [] then None else Some moduleSizes)
                 (\<lambda>s sizes. includesNormalized_js sizes (Some s)) id
                 (missing ''host.optionalModuleSlots.moduleSizes'' ''Supported module sizes are not recorded for this slot.'' rid)
                 (\<lambda>s sizes. report ''optional-module.module-size.mismatch'' SevError
                    (''The '' @ s @ '' module size does not fit this slot.'')
                    ''host.optionalModuleSlots.moduleSizes'' rid) fs
      in fold (evaluateRequiredBus g) (req_list reqs ''requiredBuses'') fs)"

definition evaluateOptionalModule :: "host_compatibility \<Rightarrow> inventory_item \<Rightarrow> finding list \<Rightarrow> finding list" where
  "evaluateOptionalModule caps component fs =
     (let kinds = optionalModuleKinds component;
          reqs = normalizeComponentRequirements component;
          groups = valid_modules caps;
          physical = optionalModuleGroupsFor caps component
      in if groups = []
         then missing ''host.optionalModuleSlots'' ''Host optional module capabilities are not recorded.'' None fs
         else if physical \<noteq> [] \<and> truthy_str (req_text reqs ''interfaceFamily'')
         then foldl addFinding fs (snd (best_candidate (map (\<lambda>g. evaluateOptionalModuleGroup g reqs) physical)))
         else if list_ex (\<lambda>g. list_ex (\<lambda>k. k \<in> set kinds) (text_array (om_acceptedModuleKinds g))) groups then fs
         else report ''optional-module.kind.mismatch'' SevError
                (''No optional module slot accepts '' @ js_join '' or '' kinds @ ''.'')
                ''host.optionalModuleSlots.acceptedModuleKinds'' None fs)"

subsection \<open>PC build parts\<close>

definition evaluateCpuCooler ::
  "host_compatibility \<Rightarrow> jsv dict \<Rightarrow> assignment list \<Rightarrow> inventory_item dict \<Rightarrow> inventory_item
     \<Rightarrow> finding list \<Rightarrow> finding list" where
  "evaluateCpuCooler caps reqs as items component fs =
     (let cpuReqs = map_option normalizeComponentRequirements (assignedItemOfType as items TCpu (Some component));
          sockets = req_texts reqs ''supportedSockets'';
          targetSocket = (case Option.bind cpuReqs (\<lambda>r. req_text r ''socket'') of
                            Some s \<Rightarrow> Some s
                          | None \<Rightarrow> (case nullish (Option.bind (host_cpu caps) hc_sockets) [] of
                                       [] \<Rightarrow> None | s # _ \<Rightarrow> Some s));
          fs = (if sockets = []
                then missing ''component.cooling.supportedSockets'' ''CPU cooler socket support is not recorded.'' None fs
                else if \<not> truthy_str targetSocket
                then missing ''host.cpu.sockets'' ''The active CPU socket is not known.'' None fs
                else if \<not> includesNormalized_js sockets targetSocket
                then report ''cooling.socket.mismatch'' SevError
                       (''The CPU cooler does not support the '' @ the targetSocket @ '' socket.'')
                       ''component.cooling.supportedSockets'' None fs
                else fs)
      in compare_rule (Option.bind cpuReqs (\<lambda>r. req_num r ''tdpWatts'')) (req_num reqs ''coolingCapacityWatts'')
           (\<lambda>tdp capacity. tdp \<le> capacity)
           (missing ''component.cpu.tdpWatts'' ''CPU TDP is not recorded for cooler sizing.'' None)
           (missing ''component.cooling.coolingCapacityWatts'' ''CPU cooler capacity is not recorded.'' None)
           (\<lambda>tdp capacity. report ''cooling.capacity.insufficient'' SevWarning
              (show_num capacity @ ''W cooler capacity is below the CPU's '' @ show_num tdp @ ''W TDP.'')
              ''component.cooling.coolingCapacityWatts'' None) fs)"

text \<open>A form factor against the ones a case supports.\<close>

definition case_form_rule ::
  "string list \<Rightarrow> string option \<Rightarrow> string \<times> string \<Rightarrow> string \<times> string \<Rightarrow> string \<Rightarrow> (string \<Rightarrow> string)
     \<Rightarrow> finding list \<Rightarrow> finding list" where
  "case_form_rule supported form absent_case absent_part code message fs =
     (if supported = [] then missing (fst absent_case) (snd absent_case) None fs
      else if \<not> truthy_str form then missing (fst absent_part) (snd absent_part) None fs
      else if \<not> includesNormalized_js supported form
      then report code SevError (message (the form)) (fst absent_part) None fs
      else fs)"

definition case_dimension_rule ::
  "jsv dict \<Rightarrow> jsv dict \<Rightarrow> string \<times> string \<times> string \<times> string \<Rightarrow> finding list \<Rightarrow> finding list" where
  "case_dimension_rule reqs caseReqs d =
     (case d of (fld, limitField, code, label) \<Rightarrow>
        compare_rule (req_num reqs fld) (req_num caseReqs limitField) (\<lambda>w limit. w \<le> limit) id
          (missing (''case.'' @ limitField) (''Case expansion '' @ label @ '' limit is not recorded.'') None)
          (\<lambda>w limit. report code SevError (''Expansion-card '' @ label @ '' exceeds the case limit.'')
             (''component.expansion.'' @ fld) None))"

definition evaluateCaseConstraint ::
  "inventory_item option \<Rightarrow> inventory_item \<Rightarrow> jsv dict \<Rightarrow> finding list \<Rightarrow> finding list" where
  "evaluateCaseConstraint caseItem component reqs fs =
     (case caseItem of
        None \<Rightarrow> fs
      | Some c \<Rightarrow>
          let caseReqs = normalizeComponentRequirements c; t = it_type component in
          if t = TCase then fs
          else if t = TMotherboard
          then case_form_rule (req_texts caseReqs ''supportedMotherboardFormFactors'') (req_text reqs ''formFactor'')
                 (''case.supportedMotherboardFormFactors'', ''Case motherboard form-factor support is not recorded.'')
                 (''component.motherboard.formFactor'', ''Motherboard form factor is not recorded.'')
                 ''case.motherboard-form-factor.mismatch''
                 (\<lambda>f. f @ '' motherboards are not supported by this case.'') fs
          else if t = TPowerSupply
          then case_form_rule (req_texts caseReqs ''supportedPsuFormFactors'') (req_text reqs ''formFactor'')
                 (''case.supportedPsuFormFactors'', ''Case power-supply form-factor support is not recorded.'')
                 (''component.powerSupply.formFactor'', ''Power-supply form factor is not recorded.'')
                 ''case.psu-form-factor.mismatch''
                 (\<lambda>f. f @ '' power supplies are not supported by this case.'') fs
          else if t = TCpuCooler
          then (let fs = compare_rule (req_num reqs ''heightMm'') (req_num caseReqs ''maxCoolerHeightMm'')
                           (\<lambda>h limit. h \<le> limit) id
                           (missing ''case.maxCoolerHeightMm'' ''Case CPU cooler height limit is not recorded.'' None)
                           (\<lambda>h limit. report ''case.cooler-height.exceeded'' SevError
                              (show_num h @ ''mm cooler height exceeds the case limit of '' @ show_num limit @ ''mm.'')
                              ''component.cooling.heightMm'' None) fs;
                    sizes = req_nums caseReqs ''supportedRadiatorSizesMm''
                in compare_rule (req_num reqs ''radiatorSizeMm'') (if sizes = [] then None else Some sizes)
                     (\<lambda>r ss. r \<in> set ss) id
                     (missing ''case.supportedRadiatorSizesMm'' ''Case radiator support is not recorded.'' None)
                     (\<lambda>r ss. report ''case.radiator-size.unsupported'' SevError
                        (show_num r @ ''mm radiators are not supported by this case.'')
                        ''component.cooling.radiatorSizeMm'' None) fs)
          else if isExpansion t
          then fold (case_dimension_rule reqs caseReqs)
                 [(''lengthMm'', ''maxExpansionLengthMm'', ''case.expansion-length.exceeded'', ''length''),
                  (''heightMm'', ''maxExpansionHeightMm'', ''case.expansion-height.exceeded'', ''height''),
                  (''slotWidth'', ''maxExpansionSlotWidth'', ''case.expansion-width.exceeded'', ''slot width'')] fs
          else fs)"

definition supply_power_rule :: "rat option list \<Rightarrow> jsv dict \<Rightarrow> finding list \<Rightarrow> finding list" where
  "supply_power_rule draws reqs fs =
     (let known = List.map_filter id draws; total = sum_list known in
      case req_num reqs ''wattageWatts'' of
        None \<Rightarrow> missing ''component.powerSupply.wattageWatts'' ''Power-supply wattage is not recorded.'' None fs
      | Some wattage \<Rightarrow>
          let fs = (if length known \<noteq> length draws
                    then missing ''pcBuild.powerDrawWatts''
                           ''Power draw is missing for installed CPU or expansion hardware.'' None fs else fs)
          in if wattage < total
             then report ''power.capacity.exceeded'' SevError
                    (show_num total @ ''W known component draw exceeds the '' @ show_num wattage @ ''W power supply.'')
                    ''component.powerSupply.wattageWatts'' None fs
             else if wattage * 8 / 10 < total
             then report ''power.headroom.low'' SevWarning
                    (show_num total @ ''W known component draw leaves less than 20% PSU headroom.'')
                    ''component.powerSupply.wattageWatts'' None fs
             else fs)"

definition normalizeConnector :: "string \<Rightarrow> string option" where
  "normalizeConnector v = map_option (replace_runs (\<lambda>c. \<not> is_alnum c) []) (normalizedText (Some v))"

definition supply_connector_rule :: "jsv list \<Rightarrow> power_connector_group \<Rightarrow> finding list \<Rightarrow> finding list" where
  "supply_connector_rule connectors required fs =
     (let available = sum_list (map (\<lambda>c. nullish (optionalNumber_js (get_field (Some c) ''count'')) 0)
            (filter (\<lambda>c. Option.bind (text_of (get_field (Some c) ''connector'')) normalizeConnector
                           = normalizeConnector (pc_connector required)) connectors))
      in if available < pc_count required
         then report ''power.connector.insufficient'' SevError
                (pc_label required @ '' requires '' @ show_num (pc_count required) @ '' '' @ pc_connector required
                 @ '' lead'' @ plural (pc_count required) @ '', but this PSU provides '' @ show_num available @ ''.'')
                ''component.powerSupply.connectors'' (Some (pc_id required)) fs
         else fs)"

definition evaluatePowerSupply ::
  "assignment list \<Rightarrow> inventory_item dict \<Rightarrow> inventory_item \<Rightarrow> jsv dict \<Rightarrow> finding list \<Rightarrow> finding list" where
  "evaluatePowerSupply as items component reqs fs =
     (let draws = map (\<lambda>i. let r = normalizeComponentRequirements i in
                          case req_num r ''tdpWatts'' of Some w \<Rightarrow> Some w | None \<Rightarrow> req_num r ''powerWatts'')
            (filter (\<lambda>i. it_type i = TCpu \<or> isExpansion (it_type i)) (assignedComponents as items (Some component)));
          fs = supply_power_rule draws reqs fs;
          required = filter pc_required (nullish (host_powerConnectors
            (normalizeHostCapabilities (assignedItemOfType as items TMotherboard (Some component)))) [])
      in if required = [] then fs
         else if req_list reqs ''connectors'' = []
         then missing ''component.powerSupply.connectors'' ''Power-supply motherboard leads are not recorded.'' None fs
         else fold (supply_connector_rule (req_list reqs ''connectors'')) required fs)"

subsection \<open>The evaluation of one assignment\<close>

datatype slot_group = GStorage storage_group | GExpansion expansion_group | GModule optional_module_group

fun slot_id :: "slot_group \<Rightarrow> int" where
  "slot_id (GStorage g) = sg_id g"
| "slot_id (GExpansion g) = eg_id g"
| "slot_id (GModule g) = om_id g"

fun slot_key :: "slot_group \<Rightarrow> string" where
  "slot_key (GStorage g) = sg_key g"
| "slot_key (GExpansion g) = eg_key g"
| "slot_key (GModule g) = om_key g"

fun slot_count :: "slot_group \<Rightarrow> rat" where
  "slot_count (GStorage g) = sg_count g"
| "slot_count (GExpansion g) = eg_count g"
| "slot_count (GModule g) = om_count g"

text \<open>The groups of a resource type, \<open>undefined\<close> when the host records none.\<close>

definition slot_groups :: "host_compatibility \<Rightarrow> resource_type \<Rightarrow> slot_group list option" where
  "slot_groups caps t =
     (if t = ResStorage then map_option (map GStorage) (host_storageSlots caps)
      else if t = ResExpansion then map_option (map GExpansion) (host_expansionSlots caps)
      else if t = ResOptionalModule then map_option (map GModule) (host_optionalModuleSlots caps)
      else None)"

fun narrow_host :: "slot_group \<Rightarrow> host_compatibility \<Rightarrow> host_compatibility" where
  "narrow_host (GStorage g) h = h\<lparr>host_storageSlots := Some [g]\<rparr>"
| "narrow_host (GExpansion g) h = h\<lparr>host_expansionSlots := Some [g]\<rparr>"
| "narrow_host (GModule g) h = h\<lparr>host_optionalModuleSlots := Some [g]\<rparr>"

definition candidateHost :: "inventory_item \<Rightarrow> slot_group \<Rightarrow> inventory_item" where
  "candidateHost host g =
     host\<lparr>it_compatibility := Some
       \<lparr>compat_host = Some (narrow_host g (nullish (Option.bind (it_compatibility host) compat_host) no_capabilities)),
        compat_requirements = Option.bind (it_compatibility host) compat_requirements\<rparr>\<rparr>"

fun resource_name :: "resource_type \<Rightarrow> string" where
  "resource_name ResCpu = ''cpu''"
| "resource_name ResMemory = ''memory''"
| "resource_name ResStorage = ''storage''"
| "resource_name ResExpansion = ''expansion''"
| "resource_name ResOptionalModule = ''optionalModule''"
| "resource_name ResControllerSlot = ''controllerSlot''"
| "resource_name ResBootDeviceSlot = ''bootDeviceSlot''"
| "resource_name ResCoolingProfile = ''coolingProfile''"
| "resource_name ResMotherboard = ''motherboard''"
| "resource_name ResCooling = ''cooling''"
| "resource_name ResPower = ''power''"
| "resource_name ResCase = ''case''"

definition evaluate_on ::
  "inventory_item \<Rightarrow> inventory_item \<Rightarrow> inventory_item \<Rightarrow> assignment list \<Rightarrow> inventory_item dict \<Rightarrow> bool
     \<Rightarrow> inventory_item \<Rightarrow> string + finding list" where
  "evaluate_on host effective narrowed as items useVerified component =
     (let caps = normalizeHostCapabilities (Some narrowed);
          reqs = normalizeComponentRequirements component;
          t = it_type component;
          evaluated =
            (if t = TCpu then Inr (evaluateCpu caps reqs as items component [])
             else if t = TRam then evaluateMemory caps reqs as items component effective useVerified []
             else if t = TStorage then Inr (evaluateStorage caps reqs [])
             else if optionalModuleGroupsFor caps component \<noteq> [] then Inr (evaluateOptionalModule caps component [])
             else if isExpansion t then Inr (evaluateExpansion caps reqs as items component [])
             else if t = TCpuCooler \<and> it_type host = TPcBuild
             then Inr (evaluateCpuCooler caps reqs as items component [])
             else if t = TPowerSupply \<and> it_type host = TPcBuild
             then Inr (evaluatePowerSupply as items component reqs [])
             else Inr [])
      in if it_type host = TPcBuild
         then map_sum id (evaluateCaseConstraint (assignedItemOfType as items TCase (Some component)) component reqs)
                evaluated
         else evaluated)"

definition evaluateAssignmentCompatibility ::
  "inventory_item \<Rightarrow> inventory_item \<Rightarrow> assignment list \<Rightarrow> inventory_item dict \<Rightarrow> bool \<Rightarrow> allocation option
     \<Rightarrow> string + compatibility_result" where
  "evaluateAssignmentCompatibility host component as items useVerified assigned =
     (let effective = effectiveHostForAssignment host as items (Some component);
          groupId = (case assigned of None \<Rightarrow> None | Some al \<Rightarrow> if truthy_num (al_groupId al) then al_groupId al else None);
          assignedGroups = (case (assigned, groupId) of
             (Some al, Some n) \<Rightarrow> slot_groups (normalizeHostCapabilities (Some effective)) (al_resourceType al)
           | _ \<Rightarrow> None);
          assignedGroup = Option.bind assignedGroups (\<lambda>gs. List.find (\<lambda>g. Some (slot_id g) = groupId) gs)
      in if assignedGroups \<noteq> None \<and> assignedGroup = None
         then Inr (result_of (report ''compatibility.resource.invalid'' SevError
                ''The assigned host resource no longer exists.''
                (''host.'' @ resource_name (al_resourceType (the assigned)) @ ''Resources'') groupId []))
         else map_sum id result_of (evaluate_on host effective
                (case assignedGroup of None \<Rightarrow> effective | Some g \<Rightarrow> candidateHost effective g)
                as items useVerified component))"

subsection \<open>The evaluation of a project\<close>

definition isLenovoM720q :: "inventory_item \<Rightarrow> string + bool" where
  "isLenovoM720q host =
     (case normalizedText (Some (join_texts [it_manufacturer host, it_model host, it_name host])) of
        None \<Rightarrow> Inl ''Cannot read properties of undefined (reading 'includes')''
      | Some identity \<Rightarrow> Inr (js_includes identity ''lenovo'' \<and> js_includes identity ''m720q''))"

definition m720q_conflict :: "project \<Rightarrow> string \<Rightarrow> bool" where
  "m720q_conflict p hostId =
     (let components = List.map_filter (\<lambda>a. itemLookup (pr_items p) (as_itemId a))
            (filter (\<lambda>a. as_serverId a = hostId) (pr_assignments p))
      in list_ex (\<lambda>i. it_type i = TStorage
             \<and> normalizedText (req_text (normalizeComponentRequirements i) ''interface'') = Some ''sata''
             \<and> normalizedText (req_text (normalizeComponentRequirements i) ''formFactor'')
                 \<in> {Some ''2.5-inch'', Some ''2.5 inch'', Some (''2.5'' @ [char_of (34 :: nat)])}) components
         \<and> list_ex (\<lambda>i. isExpansion (it_type i)
             \<and> normalizedText (req_text (normalizeComponentRequirements i) ''interfaceFamily'') = Some ''pcie'') components)"

fun m720q_hosts :: "project \<Rightarrow> assignment list \<Rightarrow> string + string list" where
  "m720q_hosts p [] = Inr []"
| "m720q_hosts p (a # as) =
     (case itemLookup (pr_items p) (as_serverId a) of
        None \<Rightarrow> m720q_hosts p as
      | Some host \<Rightarrow>
          (case isLenovoM720q host of
             Inl e \<Rightarrow> Inl e
           | Inr lenovo \<Rightarrow>
               map_sum id (\<lambda>hs. if lenovo \<and> m720q_conflict p (as_serverId a) then as_serverId a # hs else hs)
                 (m720q_hosts p as)))"

definition m720qConflictHostIds :: "project \<Rightarrow> string + string list" where
  "m720qConflictHostIds p = m720q_hosts p (pr_assignments p)"

definition power_finding :: "finding \<Rightarrow> bool" where
  "power_finding f \<longleftrightarrow> fd_code f = ''expansion.total-power.exceeded''
     \<or> fd_field f = Some ''host.maxExpansionPowerWatts''
     \<or> fd_field f = Some ''host.expansionPowerAssignments.powerWatts''"

text \<open>The loop over the assignments; \<open>powered\<close> and \<open>warned\<close> are the two sets of hosts that already
  have their power findings and their M720q warning.\<close>

fun project_results ::
  "project \<Rightarrow> string list \<Rightarrow> string list \<Rightarrow> string list \<Rightarrow> assignment list \<Rightarrow> string + project_result list" where
  "project_results p conflicts powered warned [] = Inr []"
| "project_results p conflicts powered warned (a # as) =
     (case (itemLookup (pr_items p) (as_serverId a), itemLookup (pr_items p) (as_itemId a)) of
        (Some host, Some component) \<Rightarrow>
          if \<not> isHostType (it_type host) then project_results p conflicts powered warned as
          else (case evaluateAssignmentCompatibility host component
                       (filter (\<lambda>b. as_serverId b = as_serverId a) (pr_assignments p)) (pr_items p)
                       (isVerifiedMemoryLimitEnabled p (as_serverId a)) (as_allocation a) of
                  Inl e \<Rightarrow> Inl e
                | Inr result \<Rightarrow>
                    let h = as_serverId a; expansion = isExpansion (it_type component);
                        fs = (if expansion \<and> h \<in> set powered
                              then filter (\<lambda>f. \<not> power_finding f) (cr_findings result) else cr_findings result);
                        warn = (h \<in> set conflicts \<and> h \<notin> set warned \<and> (it_type component = TStorage \<or> expansion));
                        fs = (if warn
                              then report ''lenovo.m720q.pcie-sata-mutual-exclusion'' SevWarning
                                     ''The Lenovo ThinkCentre M720q PCIe riser and 2.5-inch SATA bay can be mutually exclusive in the same physical configuration.''
                                     ''host.resourceConstraints'' None fs
                              else fs)
                    in map_sum id (\<lambda>rs. \<lparr>cr_status = statusFor fs, cr_findings = fs, cr_allocation = None,
                            pcr_assignmentId = IdNum (as_id a), pcr_hostId = h, pcr_itemId = as_itemId a\<rparr> # rs)
                         (project_results p conflicts (if expansion then h # powered else powered)
                            (if warn then h # warned else warned) as))
      | _ \<Rightarrow> project_results p conflicts powered warned as)"

definition evaluateProjectCompatibility :: "project \<Rightarrow> string + project_result list" where
  "evaluateProjectCompatibility p =
     (case m720qConflictHostIds p of
        Inl e \<Rightarrow> Inl e
      | Inr conflicts \<Rightarrow> project_results p conflicts [] [] (pr_assignments p))"

subsection \<open>Notions of the properties\<close>

text \<open>The codes of warnings: a warning never decides the status of a result.\<close>

definition WARNING_CODES :: "string set" where
  "WARNING_CODES =
     {''cooling.capacity.insufficient'', ''power.headroom.low'', ''cpu.population.incomplete'',
      ''memory.speed.negotiated'', ''storage.pcie-generation.negotiated'', ''expansion.pcie-generation.negotiated'',
      ''lenovo.m720q.pcie-sata-mutual-exclusion''}"

definition finding_ok :: "finding \<Rightarrow> bool" where
  "finding_ok f \<longleftrightarrow>
     fd_classification f = Some (if fd_severity f = SevUnknown then Informational else Actionable)
     \<and> (fd_severity f = SevWarning \<longleftrightarrow> fd_code f \<in> WARNING_CODES)"

definition findings_ok :: "finding list \<Rightarrow> bool" where
  "findings_ok fs \<longleftrightarrow> distinct (map finding_key fs) \<and> (\<forall>f \<in> set fs. finding_ok f)"

abbreviation clean :: "finding list \<Rightarrow> bool" where
  "clean fs \<equiv> statusFor fs = Compatible"

text \<open>A rule keeps findings well formed and never makes a result compatible that was not.\<close>

definition keeps :: "(finding list \<Rightarrow> finding list) \<Rightarrow> bool" where
  "keeps R \<longleftrightarrow> (\<forall>fs. findings_ok fs \<longrightarrow> findings_ok (R fs) \<and> (clean (R fs) \<longrightarrow> clean fs))"

definition classified :: "finding \<Rightarrow> finding" where
  "classified f = f\<lparr>fd_classification := Some (nullish (fd_classification f)
     (if fd_severity f = SevUnknown then Informational else Actionable))\<rparr>"

text \<open>A finding whose severity its code determines.\<close>

definition proper :: "finding \<Rightarrow> bool" where
  "proper f \<longleftrightarrow> (fd_severity f = SevWarning \<longleftrightarrow> fd_code f \<in> WARNING_CODES)
     \<and> (fd_classification f = None
        \<or> fd_classification f = Some (if fd_severity f = SevUnknown then Informational else Actionable))"

text \<open>The allocation names a group that the host, which records groups of its type, does not have.\<close>

definition stale_allocation :: "host_compatibility \<Rightarrow> allocation option \<Rightarrow> bool" where
  "stale_allocation caps assigned \<longleftrightarrow>
     (case assigned of None \<Rightarrow> False
      | Some al \<Rightarrow> (case (al_groupId al, slot_groups caps (al_resourceType al)) of
          (Some n, Some gs) \<Rightarrow> n \<noteq> 0 \<and> (\<forall>g \<in> set gs. slot_id g \<noteq> n)
        | _ \<Rightarrow> False))"

text \<open>A server with two memory slots and a module that fits it, and an ECC module.\<close>

definition ram_host :: inventory_item where
  "ram_host = (blank_item TServer 1)\<lparr>it_compatibility := Some \<lparr>compat_host = Some (no_capabilities
     \<lparr>host_memory := Some \<lparr>hm_generations = Some [''DDR4''], hm_formFactors = Some [FormSoDimm], hm_slots = Some 2,
        hm_maxCapacityGb = Some 64, hm_maxModuleCapacityGb = Some 32, hm_oemMaxCapacityMib = None,
        hm_oemMaxModuleCapacityMib = None, hm_verifiedMaxCapacityMib = None, hm_verifiedMaxModuleCapacityMib = None,
        hm_maxSpeedMt = Some 3200, hm_eccSupport = Some EccUnsupported, hm_slotsPerCpu = None,
        hm_moduleTypes = Some [ModUdimm]\<rparr>\<rparr>),
     compat_requirements = None\<rparr>\<rparr>"

definition ram_module :: "bool \<Rightarrow> inventory_item" where
  "ram_module ecc = (blank_item TRam 1)\<lparr>it_specs := Some
     [(''capacityGb'', JNum 16), (''generation'', JStr ''ddr4''), (''speedMt'', JStr ''3200''),
      (''formFactor'', JStr ''SO-DIMM''), (''moduleType'', JStr ''UDIMM''), (''ecc'', JBool ecc)]\<rparr>"

section \<open>Lemmas\<close>

subsection \<open>Rules keep findings well formed\<close>

named_theorems keeps_intros \<open>rules that keep findings well formed\<close>

lemma clean_iff: "clean fs \<longleftrightarrow> (\<forall>f \<in> set fs. fd_severity f = SevWarning)"
proof -
  have "s = SevWarning \<longleftrightarrow> s \<noteq> SevError \<and> s \<noteq> SevUnknown" for s by (cases s) simp_all
  then show ?thesis by (auto simp: statusFor_def list_ex_iff)
qed

lemma findings_ok_Nil [simp]: "findings_ok []"
  by (simp add: findings_ok_def)

lemma classified_simps [simp]:
  "finding_key (classified f) = finding_key f" "fd_severity (classified f) = fd_severity f"
  "fd_code (classified f) = fd_code f"
  by (simp_all add: classified_def finding_key_def)

lemma addFinding_classified:
  "addFinding fs f = (if finding_key f \<in> finding_key ` set fs then fs else fs @ [classified f])"
proof -
  have "list_ex (\<lambda>e. finding_key e = finding_key (classified f)) fs \<longleftrightarrow> finding_key f \<in> finding_key ` set fs"
    by (auto simp: list_ex_iff image_iff) metis
  then show ?thesis
    unfolding addFinding_def Let_def classified_def [symmetric] by simp
qed

lemma addFinding_ok:
  assumes "findings_ok fs" and "proper f"
  shows "findings_ok (addFinding fs f)"
    and "clean (addFinding fs f) \<longleftrightarrow> clean fs \<and> fd_severity f = SevWarning"
proof -
  have "findings_ok (addFinding fs f) \<and> (clean (addFinding fs f) \<longleftrightarrow> clean fs \<and> fd_severity f = SevWarning)"
  proof (cases "finding_key f \<in> finding_key ` set fs")
    case True
    then obtain e where "e \<in> set fs" "finding_key f = finding_key e" by auto
    with assms have "fd_severity e = SevWarning \<longleftrightarrow> fd_severity f = SevWarning"
      by (auto simp: findings_ok_def finding_ok_def proper_def finding_key_def)
    with True assms(1) \<open>e \<in> set fs\<close> show ?thesis by (auto simp: addFinding_classified clean_iff)
  next
    case False
    from assms(2) have "finding_ok (classified f)"
      by (auto simp: finding_ok_def proper_def classified_def)
    with False assms(1) show ?thesis by (auto simp: addFinding_classified findings_ok_def clean_iff)
  qed
  then show "findings_ok (addFinding fs f)"
    and "clean (addFinding fs f) \<longleftrightarrow> clean fs \<and> fd_severity f = SevWarning" by simp_all
qed

lemma new_finding_sel:
  "fd_severity (new_finding code sev m fld rid) = sev" "fd_code (new_finding code sev m fld rid) = code"
  "fd_classification (new_finding code sev m fld rid) = None"
  by (simp_all add: new_finding_def)

lemma missing_code [simp]: "''compatibility.data.missing'' \<notin> WARNING_CODES"
  by (simp add: WARNING_CODES_def)

lemma proper_missing: "proper ((new_finding ''compatibility.data.missing'' SevUnknown m fld rid)\<lparr>fd_classification := Some Informational\<rparr>)"
  by (simp add: proper_def new_finding_def)

lemma addMissing_ok:
  assumes "findings_ok fs"
  shows "findings_ok (addMissing fs fld m rid)" and "\<not> clean (addMissing fs fld m rid)"
  using addFinding_ok [OF assms proper_missing] unfolding addMissing_def
  by (simp_all add: new_finding_def)

lemma report_ok:
  assumes "findings_ok fs" and "sev = SevWarning \<longleftrightarrow> code \<in> WARNING_CODES"
  shows "findings_ok (report code sev m fld rid fs)"
    and "clean (report code sev m fld rid fs) \<longleftrightarrow> clean fs \<and> sev = SevWarning"
proof -
  have "proper (new_finding code sev m fld rid)"
    unfolding proper_def new_finding_sel using assms(2) by blast
  note ok = addFinding_ok [OF assms(1) this]
  show "findings_ok (report code sev m fld rid fs)" by (rule ok(1))
  show "clean (report code sev m fld rid fs) \<longleftrightarrow> clean fs \<and> sev = SevWarning"
    using ok(2) unfolding new_finding_sel .
qed

lemma keeps_id [keeps_intros]: "keeps id" "keeps (\<lambda>fs. fs)"
  by (simp_all add: keeps_def)

lemma keeps_missing [keeps_intros]: "keeps (\<lambda>fs. addMissing fs fld m rid)"
  by (simp add: keeps_def addMissing_ok)

lemma keeps_report [keeps_intros]:
  assumes "sev = SevWarning \<longleftrightarrow> code \<in> WARNING_CODES"
  shows "keeps (\<lambda>fs. addFinding fs (new_finding code sev m fld rid))"
  unfolding keeps_def using report_ok [OF _ assms] by blast

lemma keeps_comp: "keeps R \<Longrightarrow> keeps S \<Longrightarrow> keeps (\<lambda>fs. S (R fs))"
  unfolding keeps_def by blast

lemma keeps_if [keeps_intros]: "(b \<Longrightarrow> keeps R) \<Longrightarrow> (\<not> b \<Longrightarrow> keeps S) \<Longrightarrow> keeps (\<lambda>fs. if b then R fs else S fs)"
  by (cases b) simp_all

lemma keeps_option [keeps_intros]:
  "(v = None \<Longrightarrow> keeps R) \<Longrightarrow> (\<And>x. v = Some x \<Longrightarrow> keeps (S x)) \<Longrightarrow> keeps (\<lambda>fs. case v of None \<Rightarrow> R fs | Some x \<Rightarrow> S x fs)"
  by (cases v) simp_all

lemma keeps_compare [keeps_intros]:
  "keeps a \<Longrightarrow> keeps b \<Longrightarrow> (\<And>x y. keeps (c x y)) \<Longrightarrow> keeps (compare_rule want have fits a b c)"
  unfolding compare_rule_def [abs_def] by (intro keeps_option keeps_if keeps_id)

lemma keeps_fold [keeps_intros]:
  assumes "\<And>x. keeps (R x)"
  shows "keeps (fold R xs)"
proof (induction xs)
  case (Cons x xs)
  then show ?case using keeps_comp [OF assms [of x] Cons] by (simp add: comp_def)
qed (simp add: keeps_def)

lemma keepsD:
  assumes "keeps R" and "findings_ok fs"
  shows "findings_ok (R fs)" and "clean (R fs) \<Longrightarrow> clean fs"
  using assms by (auto simp: keeps_def)

lemma keeps_let [keeps_intros]: "keeps R \<Longrightarrow> keeps S \<Longrightarrow> keeps (\<lambda>fs. let x = R fs in S x)"
  unfolding Let_def by (rule keeps_comp)

lemma keeps_let_value [keeps_intros]: "(\<And>x. x = v \<Longrightarrow> keeps (S x)) \<Longrightarrow> keeps (\<lambda>fs. let x = v in S x fs)"
  by (simp add: Let_def)

lemma keeps_list [keeps_intros]:
  "keeps R \<Longrightarrow> (\<And>x xs. keeps (S x xs)) \<Longrightarrow> keeps (\<lambda>fs. case v of [] \<Rightarrow> R fs | x # xs \<Rightarrow> S x xs fs)"
  by (cases v) simp_all

lemma mismatch_code [simp]: "''expansion.'' @ rf @ ''.mismatch'' \<notin> WARNING_CODES"
proof
  assume "''expansion.'' @ rf @ ''.mismatch'' \<in> WARNING_CODES"
  then have "last (''expansion.'' @ rf @ ''.mismatch'') \<in> last ` WARNING_CODES" by (rule imageI)
  then show False by (simp add: WARNING_CODES_def)
qed

lemma keeps_cpu:
  "keeps (cpu_socket_rule s r)" "keeps (cpu_generation_rule s r c)" "keeps (cpu_power_rule s r)"
  "keeps (cpu_count_rule s n)" "keeps (cpu_population_rule s n)"
  unfolding cpu_socket_rule_def [abs_def] cpu_generation_rule_def [abs_def] cpu_power_rule_def [abs_def]
    cpu_count_rule_def [abs_def] cpu_population_rule_def [abs_def] prod.case
  by (intro keeps_intros; simp add: WARNING_CODES_def)+

lemma keeps_memory:
  "keeps (memory_generation_rule s r)" "keeps (memory_slots_rule s ms)" "keeps (memory_capacity_rule s es)"
  "keeps (memory_module_rule s es)" "keeps (memory_speed_rule s r)"
  unfolding memory_generation_rule_def [abs_def] memory_slots_rule_def [abs_def] memory_capacity_rule_def [abs_def]
    memory_module_rule_def [abs_def] memory_speed_rule_def [abs_def] prod.case
  by (intro keeps_intros; simp add: WARNING_CODES_def)+

lemma keeps_memory_text:
  "keeps absent \<Longrightarrow> (\<And>t. keeps (mismatch t)) \<Longrightarrow> keeps (memory_text_rule accepted actual absent mismatch)"
  unfolding memory_text_rule_def [abs_def] by (intro keeps_intros)

lemma keeps_storage:
  "keeps (storage_form_missing r)" "keeps (storage_interface_rule gs r i)" "keeps (storage_form_rule gs r i f)"
proof -
  show form: "keeps (storage_form_missing r)" for r
    unfolding storage_form_missing_def [abs_def] by (intro keeps_intros)
  show "keeps (storage_interface_rule gs r i)"
    unfolding storage_interface_rule_def [abs_def]
    by (intro keeps_let_value keeps_comp [OF _ form]) (intro keeps_intros; simp add: WARNING_CODES_def)
  show "keeps (storage_form_rule gs r i f)"
    unfolding storage_form_rule_def [abs_def] prod.case by (intro keeps_intros; simp add: WARNING_CODES_def)
qed

lemma keeps_evaluateStorage: "keeps (evaluateStorage caps r)"
  unfolding evaluateStorage_def [abs_def]
  by (intro keeps_intros keeps_storage keeps_comp [OF keeps_missing keeps_storage(1)])

lemma finding_ok_proper: "finding_ok f \<Longrightarrow> proper f"
  by (auto simp: finding_ok_def proper_def)

lemma keeps_add_all:
  assumes "\<forall>g \<in> set gs. proper g"
  shows "keeps (\<lambda>fs. foldl addFinding fs gs)"
  using assms
proof (induction gs)
  case (Cons g gs)
  then have "keeps (\<lambda>fs. foldl addFinding (addFinding fs g) gs)"
    by (intro keeps_comp [of "\<lambda>fs. addFinding fs g" "\<lambda>fs. foldl addFinding fs gs"])
       (auto simp: keeps_def addFinding_ok)
  then show ?case by simp
qed (simp add: keeps_def)

lemma foldl_best_in: "foldl (\<lambda>best c. if P c best then c else best) b cs \<in> set (b # cs)"
  by (induction cs arbitrary: b) auto

lemma best_candidate_in: "cs \<noteq> [] \<Longrightarrow> snd (best_candidate cs) \<in> set cs"
proof -
  assume "cs \<noteq> []"
  then obtain c es where e: "enumerate 0 cs = c # es" by (cases cs) auto
  have "best_candidate cs \<in> set (enumerate 0 cs)"
    unfolding best_candidate_def e using foldl_best_in [of compareCandidateRank c es] by simp
  then have "snd (best_candidate cs) \<in> set (map snd (enumerate 0 cs))" unfolding set_map by (rule imageI)
  then show ?thesis by (simp only: map_snd_enumerate)
qed

lemma keeps_best:
  assumes "\<And>c. c \<in> set cs \<Longrightarrow> findings_ok c"
  shows "keeps (\<lambda>fs. foldl addFinding fs (snd (best_candidate cs)))"
proof (cases "cs = []")
  case True
  then show ?thesis by (simp add: best_candidate_def keeps_def)
next
  case False
  from assms [OF best_candidate_in [OF False]] show ?thesis
    by (intro keeps_add_all) (auto simp: findings_ok_def intro: finding_ok_proper)
qed

lemma keeps_exact_field: "keeps (exact_field_rule g r e)"
proof (cases e)
  case (fields rf gf label)
  show ?thesis
    unfolding exact_field_rule_def fields prod.case
    by (insert mismatch_code [of rf], intro keeps_intros) simp_all
qed

lemma keeps_pcie: "keeps (pcie_rules g r)" "keeps (slot_power_rule g r)"
  unfolding pcie_rules_def [abs_def] slot_power_rule_def [abs_def]
  by (intro keeps_intros; simp add: WARNING_CODES_def)+

lemma findings_ok_expansion_group: "findings_ok (evaluateExpansionGroup g r n)"
proof -
  define start where "start = (case eg_requiredCpuSockets g of None \<Rightarrow> []
      | Some k \<Rightarrow> if isSafeInteger_rat k \<and> of_nat n < k
                  then report ''expansion.cpu-population.insufficient'' SevError
                         (eg_label g @ '' requires '' @ show_num k @ '' populated CPU sockets.'')
                         ''host.expansionSlots.requiredCpuSockets'' (Some (eg_id g)) [] else [])"
  have "findings_ok start"
    by (auto simp: start_def WARNING_CODES_def intro!: report_ok(1) split: option.split)
  moreover have "keeps (\<lambda>fs. slot_power_rule g r (fold (exact_field_rule g r) xs
      ((if req_text r ''interfaceFamily'' = Some ''pcie'' then pcie_rules g r else id) fs)))" for xs
    by (intro keeps_comp [OF _ keeps_pcie(2)] keeps_comp [OF _ keeps_fold [OF keeps_exact_field]])
       (auto intro: keeps_pcie keeps_id)
  ultimately show ?thesis
    unfolding evaluateExpansionGroup_def Let_def start_def [symmetric]
    using keepsD(1) by (cases "req_text r ''interfaceFamily'' = Some ''pcie''") fastforce+
qed

lemma keeps_expansion: "keeps (evaluateExpansion caps r as items c)"
proof -
  have slots: "keeps (expansion_slot_rule caps r as items)"
    unfolding expansion_slot_rule_def [abs_def]
    by (intro keeps_intros) (auto simp: WARNING_CODES_def findings_ok_expansion_group intro!: keeps_best)
  have power: "keeps (evaluateExpansionPower caps as items c)"
    unfolding evaluateExpansionPower_def [abs_def] by (intro keeps_intros; simp add: WARNING_CODES_def)
  show ?thesis
    unfolding evaluateExpansion_def [abs_def] by (rule keeps_comp [OF slots power])
qed

lemma keeps_bus: "keeps (evaluateRequiredBus g b)"
proof -
  have "keeps (pcie_bus_rules rid bus m)" "keeps (usb_bus_rule rid bus m)" for rid bus m
    unfolding pcie_bus_rules_def [abs_def] usb_bus_rule_def [abs_def]
    by (intro keeps_intros; simp add: WARNING_CODES_def)+
  then show ?thesis
    unfolding evaluateRequiredBus_def [abs_def] by (intro keeps_intros) (simp_all add: WARNING_CODES_def)
qed

lemma findings_ok_module_group: "findings_ok (evaluateOptionalModuleGroup g r)"
  unfolding evaluateOptionalModuleGroup_def Let_def
  by (rule keepsD(1) [OF keeps_fold [OF keeps_bus]])
     (intro keepsD(1) [OF keeps_compare] keeps_intros findings_ok_Nil; simp add: WARNING_CODES_def)

lemma keeps_module: "keeps (evaluateOptionalModule caps c)"
  unfolding evaluateOptionalModule_def [abs_def]
  by (intro keeps_intros keeps_best) (auto simp: WARNING_CODES_def findings_ok_module_group)

lemma keeps_parts:
  "keeps (evaluateCpuCooler caps r as items c)" "keeps (evaluatePowerSupply as items c r)"
  "keeps (evaluateCaseConstraint caseItem c r)"
proof -
  have form: "keeps (case_form_rule sup form a b code m)" if "code \<notin> WARNING_CODES" for sup form a b code m
    unfolding case_form_rule_def [abs_def] using that by (intro keeps_intros) simp_all
  have dimension: "keeps (fold (case_dimension_rule r cr)
      [(''lengthMm'', ''maxExpansionLengthMm'', ''case.expansion-length.exceeded'', ''length''),
       (''heightMm'', ''maxExpansionHeightMm'', ''case.expansion-height.exceeded'', ''height''),
       (''slotWidth'', ''maxExpansionSlotWidth'', ''case.expansion-width.exceeded'', ''slot width'')])" for cr
  proof -
    have one: "keeps (case_dimension_rule r cr (f, l, code, label))" if "code \<notin> WARNING_CODES" for f l code label
      unfolding case_dimension_rule_def prod.case using that by (intro keeps_intros) simp_all
    show ?thesis
      unfolding fold_simps comp_def id_def
      by (intro keeps_comp [OF one] keeps_comp [OF keeps_comp [OF one one] one] one) (simp_all add: WARNING_CODES_def)
  qed
  have psu: "keeps (supply_power_rule d r)" "keeps (supply_connector_rule cs q)" for d cs q
    unfolding supply_power_rule_def [abs_def] supply_connector_rule_def [abs_def]
    by (intro keeps_intros; simp add: WARNING_CODES_def)+
  show "keeps (evaluateCpuCooler caps r as items c)"
    unfolding evaluateCpuCooler_def [abs_def] by (intro keeps_intros; simp add: WARNING_CODES_def)
  show "keeps (evaluatePowerSupply as items c r)"
    unfolding evaluatePowerSupply_def [abs_def] by (intro keeps_intros psu)
  show "keeps (evaluateCaseConstraint caseItem c r)"
    unfolding evaluateCaseConstraint_def [abs_def]
    by (intro keeps_intros form dimension) (simp_all add: WARNING_CODES_def)
qed

lemma keeps_evaluateCpu: "keeps (evaluateCpu caps r as items c)"
  unfolding evaluateCpu_def [abs_def] by (intro keeps_let_value keeps_let keeps_cpu)

lemma keeps_memory_rules: "keeps (memory_rules s r ms h)"
  unfolding memory_rules_def [abs_def]
  by (intro keeps_let keeps_memory keeps_memory_text keeps_intros) (simp_all add: WARNING_CODES_def)

lemma memory_ecc_rule_ok:
  assumes "findings_ok fs" and "memory_ecc_rule s r fs = Inr gs"
  shows "findings_ok gs" and "clean gs \<Longrightarrow> clean fs"
proof -
  define mid where "mid = (if registered_memory r \<and> effective_ecc r \<noteq> Some True
      then (if effective_ecc r = None
            then missing ''component.memory.ecc'' (nullish (req_text r ''moduleType'') [] @ '' ECC capability is not recorded.'') None fs
            else report ''memory.registered-ecc.required'' SevError (nullish (req_text r ''moduleType'') [] @ '' memory must use ECC.'')
                   ''component.memory.ecc'' None fs) else fs)"
  have "gs = mid \<or> gs = report ''memory.ecc.unsupported'' SevError ''ECC memory is not supported by this host.''
      ''component.memory.ecc'' None mid"
    using assms(2) unfolding memory_ecc_rule_def Let_def mid_def [symmetric] by (auto split: if_splits option.splits)
  moreover have "findings_ok mid \<and> (clean mid \<longrightarrow> clean fs)"
    using assms(1) unfolding mid_def by (auto simp: addMissing_ok report_ok WARNING_CODES_def)
  moreover have "findings_ok (report ''memory.ecc.unsupported'' SevError m fl None mid)
      \<and> \<not> clean (report ''memory.ecc.unsupported'' SevError m fl None mid)" for m fl
    using calculation(2) by (simp add: report_ok WARNING_CODES_def)
  ultimately show "findings_ok gs" and "clean gs \<Longrightarrow> clean fs" by auto
qed

subsection \<open>Results of an evaluation\<close>

lemma evaluateMemory_ok:
  "findings_ok fs \<Longrightarrow> evaluateMemory caps r as items c h v fs = Inr gs \<Longrightarrow> findings_ok gs"
  unfolding evaluateMemory_def Let_def
  by (rule memory_ecc_rule_ok(1) [OF keepsD(1) [OF keeps_memory_rules]])

lemmas keeps_evaluators =
  keeps_evaluateCpu keeps_evaluateStorage keeps_module keeps_expansion keeps_parts

lemma evaluate_on_ok:
  assumes "evaluate_on host eff narrowed as items v c = Inr fs"
  shows "findings_ok fs"
proof -
  note start = keepsD(1) [OF _ findings_ok_Nil]
  show ?thesis
    using assms evaluateMemory_ok [OF findings_ok_Nil] keeps_evaluators [THEN start]
      keepsD(1) [OF keeps_parts(3)]
    unfolding evaluate_on_def Let_def by (auto simp: map_sum_Inr_iff split: if_splits)
qed

lemma memory_ecc_rule_Inl:
  "memory_ecc_rule s r fs = Inl e \<longleftrightarrow>
     effective_ecc r = Some True \<and> s = None \<and> e = ''Cannot read properties of undefined (reading 'eccSupport')''"
  by (auto simp: memory_ecc_rule_def Let_def split: option.splits if_splits)

lemma evaluate_on_Inl:
  "evaluate_on host eff narrowed as items v c = Inl e \<longleftrightarrow>
     it_type c = TRam \<and> effective_ecc (normalizeComponentRequirements c) = Some True
     \<and> host_memory (normalizeHostCapabilities (Some narrowed)) = None
     \<and> e = ''Cannot read properties of undefined (reading 'eccSupport')''"
  unfolding evaluate_on_def Let_def evaluateMemory_def
  by (auto simp: map_sum_Inl_iff memory_ecc_rule_Inl split: if_splits)

lemma findings_ok_filter: "findings_ok fs \<Longrightarrow> findings_ok (filter P fs)"
  by (auto simp: findings_ok_def distinct_map inj_on_def)

lemma evaluateAssignment_ok:
  assumes "evaluateAssignmentCompatibility host c as items v al = Inr r"
  shows "findings_ok (cr_findings r)" and "cr_status r = statusFor (cr_findings r)"
proof -
  have report: "findings_ok (report ''compatibility.resource.invalid'' SevError m fld rid [])" for m fld rid
    by (intro report_ok(1)) (simp_all add: WARNING_CODES_def)
  have "\<exists>fs. r = result_of fs \<and> findings_ok fs"
    using assms report evaluate_on_ok unfolding evaluateAssignmentCompatibility_def Let_def
    by (simp only: map_sum_Inr_iff sum.inject split: if_splits) blast+
  then show "findings_ok (cr_findings r)" "cr_status r = statusFor (cr_findings r)"
    by (auto simp: result_of_def)
qed

lemma project_results_ok:
  "project_results p cs pw w as = Inr rs \<Longrightarrow> r \<in> set rs
     \<Longrightarrow> findings_ok (cr_findings r) \<and> cr_status r = statusFor (cr_findings r)"
proof (induction as arbitrary: pw w rs)
  case (Cons a as)
  show ?case
  proof (cases "\<exists>host c. itemLookup (pr_items p) (as_serverId a) = Some host
      \<and> itemLookup (pr_items p) (as_itemId a) = Some c \<and> isHostType (it_type host)")
    case False
    then have "project_results p cs pw w as = Inr rs"
      using Cons.prems(1) by (auto split: option.splits if_splits)
    with Cons show ?thesis by blast
  next
    case True
    then obtain host c where it: "itemLookup (pr_items p) (as_serverId a) = Some host"
      "itemLookup (pr_items p) (as_itemId a) = Some c" "isHostType (it_type host)" by blast
    let ?e = "evaluateAssignmentCompatibility host c
                       (filter (\<lambda>b. as_serverId b = as_serverId a) (pr_assignments p)) (pr_items p)
                       (isVerifiedMemoryLimitEnabled p (as_serverId a)) (as_allocation a)"
    obtain result where e: "?e = Inr result"
      using Cons.prems(1) it by (cases ?e) simp_all
    define keep where "keep = (if isExpansion (it_type c) \<and> as_serverId a \<in> set pw
                              then filter (\<lambda>f. \<not> power_finding f) (cr_findings result) else cr_findings result)"
    have keep: "findings_ok keep"
      using evaluateAssignment_ok(1) [OF e] findings_ok_filter by (simp add: keep_def)
    let ?h = "as_serverId a" and ?x = "isExpansion (it_type c)"
    define warn where "warn = (?h \<in> set cs \<and> ?h \<notin> set w \<and> (it_type c = TStorage \<or> ?x))"
    define fs where "fs = (if warn
        then report ''lenovo.m720q.pcie-sata-mutual-exclusion'' SevWarning
               ''The Lenovo ThinkCentre M720q PCIe riser and 2.5-inch SATA bay can be mutually exclusive in the same physical configuration.''
               ''host.resourceConstraints'' None keep else keep)"
    have fs: "findings_ok fs"
      using keep report_ok(1) [OF keep] by (simp add: fs_def WARNING_CODES_def)
    have "map_sum id (\<lambda>rs. \<lparr>cr_status = statusFor fs, cr_findings = fs, cr_allocation = None,
         pcr_assignmentId = IdNum (as_id a), pcr_hostId = ?h, pcr_itemId = as_itemId a\<rparr> # rs)
        (project_results p cs (if ?x then ?h # pw else pw) (if warn then ?h # w else w) as) = Inr rs"
      using Cons.prems(1)
      by (simp only: project_results.simps it e option.case prod.case sum.case not_True_eq_False if_False Let_def
          fs_def keep_def warn_def)
    then obtain rs' where step: "project_results p cs (if ?x then ?h # pw else pw) (if warn then ?h # w else w) as = Inr rs'"
      "rs = \<lparr>cr_status = statusFor fs, cr_findings = fs, cr_allocation = None,
         pcr_assignmentId = IdNum (as_id a), pcr_hostId = ?h, pcr_itemId = as_itemId a\<rparr> # rs'"
      unfolding map_sum_Inr_iff by blast
    from Cons.IH [OF step(1)] step(2) fs Cons.prems(2) show ?thesis by auto
  qed
qed simp

text \<open>The results of the evaluation of an assignment and those of the evaluation of a project are well formed: no
  two findings have the same code, field and resource; the status follows from the findings; missing data are the
  informational findings and all others ask for action; and a finding is a warning exactly when its code is one of
  the seven warning codes.\<close>

theorem evaluation_well_formed:
  assumes "evaluateAssignmentCompatibility host c as items v al = Inr r \<and> fs = cr_findings r \<and> st = cr_status r
    \<or> evaluateProjectCompatibility p = Inr rs \<and> pr \<in> set rs \<and> fs = cr_findings pr \<and> st = cr_status pr"
  shows "distinct (map finding_key fs) \<and> st = statusFor fs
    \<and> (\<forall>f \<in> set fs.
         fd_classification f = Some (if fd_severity f = SevUnknown then Informational else Actionable)
         \<and> (fd_severity f = SevWarning \<longleftrightarrow> fd_code f \<in> WARNING_CODES))"
proof -
  have "findings_ok fs \<and> st = statusFor fs"
    using assms evaluateAssignment_ok project_results_ok
    by (auto simp: evaluateProjectCompatibility_def split: sum.splits)
  then show ?thesis by (auto simp: findings_ok_def finding_ok_def)
qed

theorem evaluation_well_formed_witness:
  "\<exists>r. evaluateAssignmentCompatibility ram_host (ram_module True) [] [] False None = Inr r
     \<and> cr_status r = Incompatible \<and> distinct (map finding_key (cr_findings r))"
proof -
  let ?e = "evaluateAssignmentCompatibility ram_host (ram_module True) [] [] False None"
  have ok: "\<not> isl ?e" and st: "map_sum id cr_status ?e = Inr Incompatible" by code_simp+
  from ok obtain r where r: "?e = Inr r" by (cases ?e) auto
  from evaluation_well_formed [of ram_host "ram_module True" "[]" "[]" False None r "cr_findings r" "cr_status r"] st r
  show ?thesis by simp
qed

lemma narrow_memory:
  "host_memory (normalizeHostCapabilities (Some (candidateHost h g))) = host_memory (normalizeHostCapabilities (Some h))"
  by (cases g) (auto simp: candidateHost_def normalizeHostCapabilities_def no_capabilities_def split: option.splits)

text \<open>C13: Error: the evaluation of a component throws exactly when an ECC memory module meets a host that records
  no memory capabilities (the last memory rule reads the ECC support of \<open>undefined\<close>), unless the allocation stored with
  its assignment names a resource group that the host, which records groups of that type, does not have: then
  the evaluation has already returned.\<close>

theorem evaluation_throws_iff:
  "(\<exists>e. evaluateAssignmentCompatibility host c as items v al = Inl e) \<longleftrightarrow>
     it_type c = TRam \<and> effective_ecc (normalizeComponentRequirements c) = Some True
     \<and> host_memory (normalizeHostCapabilities (Some (effectiveHostForAssignment host as items (Some c)))) = None
     \<and> \<not> stale_allocation (normalizeHostCapabilities (Some (effectiveHostForAssignment host as items (Some c)))) al"
proof -
  let ?eff = "effectiveHostForAssignment host as items (Some c)"
  let ?gid = "case al of None \<Rightarrow> None | Some al \<Rightarrow> if truthy_num (al_groupId al) then al_groupId al else None"
  let ?gs = "case (al, ?gid) of (Some al, Some n) \<Rightarrow> slot_groups (normalizeHostCapabilities (Some ?eff)) (al_resourceType al)
           | _ \<Rightarrow> None"
  let ?g = "Option.bind ?gs (\<lambda>gs. List.find (\<lambda>g. Some (slot_id g) = ?gid) gs)"
  have stale: "stale_allocation (normalizeHostCapabilities (Some ?eff)) al \<longleftrightarrow> ?gs \<noteq> None \<and> ?g = None"
    by (auto simp: stale_allocation_def find_None_iff_all truthy_num_def split: option.splits)
  have mem: "host_memory (normalizeHostCapabilities (Some (case g of None \<Rightarrow> ?eff | Some g \<Rightarrow> candidateHost ?eff g)))
      = host_memory (normalizeHostCapabilities (Some ?eff))" for g
    by (cases g) (simp_all add: narrow_memory)
  show ?thesis
    unfolding evaluateAssignmentCompatibility_def Let_def stale
    by (simp add: map_sum_Inl_iff evaluate_on_Inl mem)
qed

subsection \<open>What a compatible result guarantees\<close>

lemmas clean_simps = addMissing_ok report_ok WARNING_CODES_def

lemma nullish_the: "nullish v [] \<noteq> [] \<Longrightarrow> the v = nullish v []"
  by (cases v) auto

lemma length_map_filter_le: "length (List.map_filter id xs) \<le> length xs"
  by (induction xs) (auto simp: map_filter_simps split: option.split)

lemma length_map_filter_id: "length (List.map_filter id xs) = length xs \<longleftrightarrow> None \<notin> set xs"
proof (induction xs)
  case (Cons x xs)
  then show ?case
    using length_map_filter_le [of xs] by (cases x) (auto simp: map_filter_simps id_def)
qed (simp add: map_filter_simps)

lemma map_Some_map_filter: "None \<notin> set xs \<Longrightarrow> map Some (List.map_filter id xs) = xs"
proof (induction xs)
  case (Cons x xs)
  then show ?case by (cases x) (auto simp: map_filter_simps)
qed (simp add: map_filter_simps)

lemma fold_max_ge: "x \<in> set (k # ks) \<Longrightarrow> (x :: rat) \<le> fold max ks k"
proof (induction ks arbitrary: k x)
  case (Cons j ks)
  have "max j k \<le> fold max ks (max j k)" by (rule Cons.IH) simp
  moreover from Cons.prems have "x \<le> max j k \<or> x \<in> set ks" by auto
  ultimately show ?case using Cons.IH [of x "max j k"] by auto
qed simp

lemma clean_generation:
  assumes "findings_ok fs" "clean (memory_generation_rule s r fs)"
  shows "includesNormalized_js (nullish (Option.bind s hm_generations) []) (req_text r ''generation'')"
  using assms nullish_the [of "Option.bind s hm_generations"]
  by (auto simp: memory_generation_rule_def none_recorded_def clean_simps split: if_splits)

lemma clean_slots:
  assumes "findings_ok fs" "clean (memory_slots_rule s ms fs)"
  shows "\<exists>n. Option.bind s hm_slots = Some n \<and> of_nat (length ms) \<le> n"
  using assms by (auto simp: memory_slots_rule_def clean_simps split: if_splits option.splits)

lemma clean_capacity:
  assumes "findings_ok fs" "clean (memory_capacity_rule s es fs)"
  shows "\<exists>limit cs. Option.bind s hm_maxCapacityGb = Some limit \<and> es = map Some cs \<and> sum_list cs \<le> limit"
proof -
  from assms obtain limit where limit: "Option.bind s hm_maxCapacityGb = Some limit"
    by (auto simp: memory_capacity_rule_def clean_simps split: option.splits)
  with assms have known: "length (List.map_filter id es) = length es" and "sum_list (List.map_filter id es) \<le> limit"
    by (auto simp: memory_capacity_rule_def clean_simps split: if_splits)
  with limit map_Some_map_filter [of es] show ?thesis unfolding length_map_filter_id by metis
qed

lemma clean_module:
  assumes "findings_ok fs" "clean (memory_module_rule s es fs)"
  shows "\<exists>limit cs. Option.bind s hm_maxModuleCapacityGb = Some limit \<and> es = map Some cs \<and> (\<forall>c \<in> set cs. c \<le> limit)"
proof -
  from assms obtain limit where limit: "Option.bind s hm_maxModuleCapacityGb = Some limit"
    by (auto simp: memory_module_rule_def clean_simps split: option.splits)
  let ?known = "List.map_filter id es"
  from limit assms have known: "length ?known = length es"
    by (auto simp: memory_module_rule_def clean_simps split: if_splits list.splits)
  from limit assms known have "\<forall>c \<in> set ?known. c \<le> limit"
  proof (cases ?known)
    case (Cons k ks)
    with limit assms known have "fold max ks k \<le> limit"
      by (auto simp: memory_module_rule_def clean_simps split: if_splits)
    with Cons fold_max_ge [of _ k ks] show ?thesis by (metis order_trans)
  qed simp
  with limit known map_Some_map_filter [of es] show ?thesis unfolding length_map_filter_id by metis
qed

lemma clean_ecc:
  assumes "findings_ok fs" "memory_ecc_rule s r fs = Inr gs" "clean gs"
  shows "\<not> (effective_ecc r = Some True \<and> Option.bind s hm_eccSupport = Some EccUnsupported)"
  using assms by (auto simp: memory_ecc_rule_def clean_simps split: if_splits option.splits)

lemma clean_memory:
  assumes "memory_ecc_rule s r (memory_rules s r ms h []) = Inr gs" "clean gs"
  obtains f1 f2 f3 f4 where
    "findings_ok f1" "clean (memory_generation_rule s r f1)" "findings_ok f2" "clean (memory_slots_rule s ms f2)"
    "findings_ok f3" "clean (memory_capacity_rule s (map (\<lambda>m. req_num m ''capacityGb'') ms @ fixedMemoryRequirements h) f3)"
    "findings_ok f4" "clean (memory_module_rule s (map (\<lambda>m. req_num m ''moduleCapacityGb'') ms) f4)"
proof -
  let ?f2 = "memory_generation_rule s r []"
  let ?f3 = "memory_slots_rule s ms ?f2"
  let ?f4 = "memory_capacity_rule s (map (\<lambda>m. req_num m ''capacityGb'') ms @ fixedMemoryRequirements h) ?f3"
  let ?f5 = "memory_module_rule s (map (\<lambda>m. req_num m ''moduleCapacityGb'') ms) ?f4"
  have ok: "findings_ok ?f2" "findings_ok ?f3" "findings_ok ?f4" "findings_ok ?f5"
    by (intro keepsD(1) [OF keeps_memory(1)] keepsD(1) [OF keeps_memory(2)] keepsD(1) [OF keeps_memory(3)]
          keepsD(1) [OF keeps_memory(4)] findings_ok_Nil)+
  have clean: "clean (memory_rules s r ms h [])"
    using memory_ecc_rule_ok(2) [OF keepsD(1) [OF keeps_memory_rules findings_ok_Nil] assms(1)] assms(2) .
  have tail: "keeps (\<lambda>fs. memory_text_rule a1 b1
        (missing ''component.memory.moduleType'' ''Memory electrical module type is not recorded.'' None)
        (\<lambda>m. report ''memory.module-type.mismatch'' SevError (m @ '' memory is not electrically supported by this host.'')
           ''component.memory.moduleType'' None)
      (memory_text_rule a2 b2
        (missing ''component.memory.formFactor'' ''Memory physical form factor is not recorded.'' None)
        (\<lambda>f. report ''memory.form-factor.mismatch'' SevError (f @ '' memory does not fit this host.'')
           ''component.memory.formFactor'' None)
      (memory_speed_rule s r fs)))" for a1 b1 a2 b2
    by (rule keeps_comp [OF keeps_comp [OF keeps_memory(5)]]; intro keeps_memory_text keeps_intros; simp add: WARNING_CODES_def)
  have c5: "clean ?f5"
    using clean unfolding memory_rules_def Let_def by (rule keepsD(2) [OF tail ok(4)])
  then have c4: "clean ?f4" by (rule keepsD(2) [OF keeps_memory(4) ok(3)])
  then have c3: "clean ?f3" by (rule keepsD(2) [OF keeps_memory(3) ok(2)])
  then have c2: "clean ?f2" by (rule keepsD(2) [OF keeps_memory(2) ok(1)])
  show ?thesis using that [OF findings_ok_Nil c2 ok(1) c3 ok(2) c4 ok(3) c5] .
qed

lemma evaluate_on_memory:
  assumes "it_type c = TRam" "evaluate_on host eff narrowed as items v c = Inr fs" "clean fs"
  shows "\<exists>gs. evaluateMemory (normalizeHostCapabilities (Some narrowed)) (normalizeComponentRequirements c) as items c eff v []
      = Inr gs \<and> clean gs"
  using assms keepsD(2) [OF keeps_parts(3) evaluateMemory_ok [OF findings_ok_Nil]]
  unfolding evaluate_on_def Let_def by (auto simp: map_sum_Inr_iff split: if_splits)

text \<open>C12: Safety: a memory module that the engine calls compatible fits the host.  With the memory support of the
  host (the board of a PC build), read with the verified limits when the project opted into them: the generation
  is accepted; the modules, this one included, do not exceed the slots; every capacity is known, fixed memory
  included, and their sum is within the limit; no module exceeds the limit per module; and an ECC module is
  not put on a host that does not support ECC.\<close>

theorem compatible_memory_fits:
  assumes "it_type c = TRam"
    and "evaluateAssignmentCompatibility host c as items v None = Inr r" and "cr_status r = Compatible"
    and eff: "eff = effectiveHostForAssignment host as items (Some c)"
    and mods: "modules = map normalizeComponentRequirements
           (filter (\<lambda>i. it_type i = TRam) (assignedComponents as items (Some c)))"
    and reqs: "reqs = normalizeComponentRequirements c"
  shows "\<exists>s. map_option (\<lambda>s. effectiveMemorySupport s v) (host_memory (normalizeHostCapabilities (Some eff))) = Some s
    \<and> includesNormalized_js (nullish (hm_generations s) []) (req_text reqs ''generation'')
    \<and> (\<exists>n. hm_slots s = Some n \<and> of_nat (length modules) \<le> n)
    \<and> (\<exists>limit gb. hm_maxCapacityGb s = Some limit
         \<and> map (\<lambda>m. req_num m ''capacityGb'') modules @ fixedMemoryRequirements eff = map Some gb \<and> sum_list gb \<le> limit)
    \<and> (\<exists>limit gb. hm_maxModuleCapacityGb s = Some limit
         \<and> map (\<lambda>m. req_num m ''moduleCapacityGb'') modules = map Some gb \<and> (\<forall>x \<in> set gb. x \<le> limit))
    \<and> \<not> (effective_ecc reqs = Some True \<and> hm_eccSupport s = Some EccUnsupported)"
proof -
  let ?s = "map_option (\<lambda>s. effectiveMemorySupport s v) (host_memory (normalizeHostCapabilities (Some eff)))"
  obtain fs where "evaluate_on host eff eff as items v c = Inr fs" "clean fs"
    using assms(2,3) unfolding evaluateAssignmentCompatibility_def Let_def eff [symmetric]
    by (auto simp: map_sum_Inr_iff result_of_def)
  then obtain gs where gs: "memory_ecc_rule ?s reqs (memory_rules ?s reqs modules eff []) = Inr gs" "clean gs"
    using evaluate_on_memory [OF assms(1), of host eff eff as items v fs]
    unfolding evaluateMemory_def Let_def mods [symmetric] reqs [symmetric] by blast
  note rules = clean_memory [OF gs]
  have slots: "\<exists>n. Option.bind ?s hm_slots = Some n \<and> of_nat (length modules) \<le> n"
    by (rule rules) (rule clean_slots)
  then obtain s where s: "?s = Some s" by (cases ?s) auto
  have gen: "includesNormalized_js (nullish (Option.bind ?s hm_generations) []) (req_text reqs ''generation'')"
    by (rule rules) (rule clean_generation)
  have cap: "\<exists>limit gb. Option.bind ?s hm_maxCapacityGb = Some limit
      \<and> map (\<lambda>m. req_num m ''capacityGb'') modules @ fixedMemoryRequirements eff = map Some gb \<and> sum_list gb \<le> limit"
    by (rule rules) (rule clean_capacity)
  have module: "\<exists>limit gb. Option.bind ?s hm_maxModuleCapacityGb = Some limit
      \<and> map (\<lambda>m. req_num m ''moduleCapacityGb'') modules = map Some gb \<and> (\<forall>x \<in> set gb. x \<le> limit)"
    by (rule rules) (rule clean_module)
  have ecc: "\<not> (effective_ecc reqs = Some True \<and> Option.bind ?s hm_eccSupport = Some EccUnsupported)"
    by (rule clean_ecc [OF keepsD(1) [OF keeps_memory_rules findings_ok_Nil] gs])
  show ?thesis using s gen slots cap module ecc unfolding s by auto
qed

theorem compatible_memory_fits_witness:
  "\<exists>s n. host_memory (normalizeHostCapabilities (Some ram_host)) = Some s \<and> hm_slots s = Some n \<and> 1 \<le> n"
proof -
  let ?e = "evaluateAssignmentCompatibility ram_host (ram_module False) [] [] False None"
  have st: "map_sum id cr_status ?e = Inr Compatible" by code_simp
  then obtain r where r: "?e = Inr r" "cr_status r = Compatible" by (cases ?e) auto
  have t: "it_type (ram_module False) = TRam" by (simp add: ram_module_def blank_item_def)
  have eff: "effectiveHostForAssignment ram_host [] [] (Some (ram_module False)) = ram_host"
    by (simp add: effectiveHostForAssignment_def ram_host_def blank_item_def)
  have one: "length (filter (\<lambda>i. it_type i = TRam) (assignedComponents [] [] (Some (ram_module False)))) = 1"
    by code_simp
  show ?thesis
    using compatible_memory_fits [OF t r refl refl refl] one unfolding eff
    by (auto simp: effectiveMemorySupport_def)
qed

end
