(* ===== verification/Host_Planner.thy ===== *)
theory Host_Planner
  imports Compat_Evaluate
begin

text \<open>
  The allocation of the positions of a host to the components assigned to it:
  \<open>planHostAllocations\<close>, \<open>planPcBuildAllocations\<close> and \<open>normalizeCompatibilityProject\<close> of
  \<open>shared/compatibility/index.mjs\<close>.  The planner first keeps the stored allocations that are still
  valid and then gives every other component the first free consecutive positions of the best group.
  The occupied positions, a \<open>Map\<close> of \<open>Set\<close>s that the code fills as it goes, are an association list
  that each step returns.  \<open>Inl\<close> is the error that an evaluation throws.  \<open>assignedAt\<close> is an ISO
  timestamp, on which \<open>localeCompare\<close> is the order of the characters.
\<close>

section \<open>Definitions\<close>

subsection \<open>Positions\<close>

type_synonym occupancy = "((resource_type \<times> int option) \<times> int list) list"

definition occupiedSet :: "occupancy \<Rightarrow> resource_type \<Rightarrow> int option \<Rightarrow> int list" where
  "occupiedSet occ t g = nullish (map_of occ (t, g)) []"

definition positionsAreFree :: "occupancy \<Rightarrow> resource_type \<Rightarrow> int option \<Rightarrow> int list \<Rightarrow> bool" where
  "positionsAreFree occ t g ps = list_all (\<lambda>p. p \<notin> set (occupiedSet occ t g)) ps"

definition reservePositions :: "occupancy \<Rightarrow> allocation \<Rightarrow> occupancy" where
  "reservePositions occ al =
     AList.update (al_resourceType al, al_groupId al)
       (occupiedSet occ (al_resourceType al) (al_groupId al) @ al_positions al) occ"

definition consecutive :: "int \<Rightarrow> int \<Rightarrow> int list" where
  "consecutive start width = map (\<lambda>i. start + i) [0..width - 1]"

definition firstConsecutivePositions ::
  "occupancy \<Rightarrow> resource_type \<Rightarrow> int option \<Rightarrow> rat option \<Rightarrow> rat \<Rightarrow> int list option" where
  "firstConsecutivePositions occ t g slots width =
     (case slots of
        None \<Rightarrow> None
      | Some n \<Rightarrow>
          if \<not> isInteger_rat n \<or> n \<le> 0 \<or> \<not> isInteger_rat width \<or> width \<le> 0 \<or> n < width then None
          else map_option (\<lambda>start. consecutive start \<lfloor>width\<rfloor>)
                 (List.find (\<lambda>start. positionsAreFree occ t g (consecutive start \<lfloor>width\<rfloor>)) [0..\<lfloor>n\<rfloor> - \<lfloor>width\<rfloor>]))"

definition positionsAreConsecutive :: "int list \<Rightarrow> rat \<Rightarrow> bool" where
  "positionsAreConsecutive ps width \<longleftrightarrow>
     of_nat (length ps) = width \<and> list_all (\<lambda>p. 0 \<le> p) ps \<and> successively (\<lambda>p q. q = p + 1) ps"

subsection \<open>Order of the assignments\<close>

definition compareAssignments :: "assignment \<Rightarrow> string \<times> int" where
  "compareAssignments a = (as_assignedAt a, as_id a)"

definition compareHostAllocationAssignments :: "inventory_item dict \<Rightarrow> assignment \<Rightarrow> nat \<times> string \<times> int" where
  "compareHostAllocationAssignments items a =
     (if map_option it_type (itemLookup items (as_itemId a)) = Some TCpu then 0 else 1, compareAssignments a)"

subsection \<open>Results\<close>

definition resultWithFinding :: "compatibility_result \<Rightarrow> finding \<Rightarrow> compatibility_result" where
  "resultWithFinding result f = result_of (addFinding (cr_findings result) f)"

definition resources_field :: "resource_type \<Rightarrow> string" where
  "resources_field t = ''host.'' @ resource_name t @ ''Resources''"

definition invalidResourceResult :: "compatibility_result \<Rightarrow> resource_type \<Rightarrow> compatibility_result" where
  "invalidResourceResult result t =
     resultWithFinding result (new_finding ''compatibility.resource.invalid'' SevUnknown
       (''The host's '' @ resource_name t @ '' resource definition is missing, duplicated, or invalid.'')
       (resources_field t) None)"

definition exhaustedResourceResult :: "compatibility_result \<Rightarrow> resource_type \<Rightarrow> compatibility_result" where
  "exhaustedResourceResult result t =
     resultWithFinding result (new_finding ''compatibility.resource.exhausted'' SevError
       (''No available '' @ resource_name t @ '' positions can satisfy this component.'') (resources_field t) None)"

definition missingComponentResult :: compatibility_result where
  "missingComponentResult =
     resultWithFinding (result_of []) (new_finding ''compatibility.component.missing'' SevUnknown
       ''The assigned inventory component could not be found.'' ''component'' None)"

definition physicalResourceError :: "compatibility_result \<Rightarrow> resource_type \<Rightarrow> bool \<Rightarrow> compatibility_result" where
  "physicalResourceError result t exhausted =
     (if exhausted then exhaustedResourceResult result t
      else resultWithFinding result (new_finding ''compatibility.resource.invalid'' SevError
             (''The PC Build's '' @ resource_name t @ '' resource definition is missing or invalid.'')
             (resources_field t) None))"

definition planResult :: "assignment \<Rightarrow> compatibility_result \<Rightarrow> allocation option \<Rightarrow> project_result" where
  "planResult a result al =
     \<lparr>cr_status = cr_status result, cr_findings = cr_findings result, cr_allocation = al,
      pcr_assignmentId = IdNum (as_id a), pcr_hostId = as_serverId a, pcr_itemId = as_itemId a\<rparr>"

definition resultCanOccupyResource :: "compatibility_result \<Rightarrow> bool \<Rightarrow> bool" where
  "resultCanOccupyResource result enabled \<longleftrightarrow>
     cr_status result = Compatible
     \<or> (\<not> enabled \<and> (cr_status result = Incompatible \<or> cr_status result = UnknownStatus))"

subsection \<open>Resources\<close>

definition allocationSize :: "inventory_item \<Rightarrow> resource_type option \<Rightarrow> rat option" where
  "allocationSize component t =
     (let reqs = normalizeComponentRequirements component; kind = it_type component in
      if t = Some ResCpu \<or> t = Some ResOptionalModule \<or> kind = TRam \<or> kind = TStorage then Some 1
      else if isExpansion kind
      then (case req_num reqs ''slotWidth'' of
              Some w \<Rightarrow> if isInteger_rat w \<and> 0 < w then Some w else None
            | None \<Rightarrow> None)
      else Some 0)"

definition resourceTypeFor_js :: "host_compatibility \<Rightarrow> inventory_item \<Rightarrow> resource_type option" where
  "resourceTypeFor_js caps component =
     (let kind = it_type component in
      if kind = TCpu then Some ResCpu
      else if kind = TRam then Some ResMemory
      else if kind = TStorage then Some ResStorage
      else if optionalModuleGroupsFor caps component \<noteq> [] then Some ResOptionalModule
      else if isExpansion kind then Some ResExpansion
      else None)"

definition scalar_resource :: "resource_type \<Rightarrow> bool" where
  "scalar_resource t \<longleftrightarrow> t = ResMemory \<or> t = ResCpu"

definition valid_slots :: "slot_group list option \<Rightarrow> slot_group list" where
  "valid_slots = validResourceGroups slot_id slot_key slot_count"

definition requiredGroups :: "host_compatibility \<Rightarrow> resource_type \<Rightarrow> slot_group list \<times> slot_group list" where
  "requiredGroups caps t = (nullish (slot_groups caps t) [], valid_slots (slot_groups caps t))"

definition scalarCapacity :: "host_compatibility \<Rightarrow> resource_type \<Rightarrow> rat option" where
  "scalarCapacity caps t =
     (let capacity = (if t = ResCpu
            then (case Option.bind (host_cpu caps) hc_socketCount of
                    Some n \<Rightarrow> Some n
                  | None \<Rightarrow> if none_recorded (Option.bind (host_cpu caps) hc_sockets) then None else Some 1)
            else Option.bind (host_memory caps) hm_slots)
      in case capacity of Some n \<Rightarrow> if isInteger_rat n \<and> 0 < n then Some n else None | None \<Rightarrow> None)"

definition allocationMatchesResource ::
  "allocation \<Rightarrow> resource_type \<Rightarrow> slot_group option \<Rightarrow> rat \<Rightarrow> occupancy \<Rightarrow> rat option \<Rightarrow> bool" where
  "allocationMatchesResource al t slot width occ capacity =
     (al_resourceType al = t
      \<and> (if scalar_resource t then al_groupId al = None \<and> capacity \<noteq> None
         else (case slot of None \<Rightarrow> False | Some g \<Rightarrow> al_groupId al = Some (slot_id g)))
      \<and> positionsAreConsecutive (al_positions al) width
      \<and> (let limit = (if scalar_resource t then the capacity else slot_count (the slot)) in
         list_all (\<lambda>p. of_int p < limit) (al_positions al))
      \<and> positionsAreFree occ t (al_groupId al) (al_positions al))"

subsection \<open>Planning a server or a NAS\<close>

text \<open>What the passes over the assignments of a host share.\<close>

record plan_context =
  cx_host :: inventory_item
  cx_items :: "inventory_item dict"
  cx_caps :: host_compatibility
  cx_enabled :: bool
  cx_verified :: bool

definition evaluate_in ::
  "plan_context \<Rightarrow> inventory_item \<Rightarrow> assignment list \<Rightarrow> slot_group option \<Rightarrow> string + compatibility_result" where
  "evaluate_in cx component as slot =
     evaluateAssignmentCompatibility
       (case slot of None \<Rightarrow> cx_host cx | Some g \<Rightarrow> candidateHost (cx_host cx) g)
       component as (cx_items cx) (cx_verified cx) None"

text \<open>The stored allocation of one assignment, when it can be kept.\<close>

definition keep_allocation ::
  "plan_context \<Rightarrow> assignment list \<Rightarrow> occupancy \<Rightarrow> assignment
     \<Rightarrow> string + (allocation \<times> compatibility_result) option" where
  "keep_allocation cx prior occ a =
     (case (itemLookup (cx_items cx) (as_itemId a), as_allocation a) of
        (Some component, Some al) \<Rightarrow>
          (let width = nullish (allocationSize component (resourceTypeFor_js (cx_caps cx) component)) 0 in
           case resourceTypeFor_js (cx_caps cx) component of
             None \<Rightarrow> Inr None
           | Some t \<Rightarrow>
               if width = 0 then Inr None
               else let slot = (if scalar_resource t then None
                       else List.find (\<lambda>g. Some (slot_id g) = al_groupId al) (snd (requiredGroups (cx_caps cx) t)))
                    in if \<not> scalar_resource t \<and> slot = None then Inr None
                       else try_eval (evaluate_in cx component prior slot) (\<lambda>result.
                         Inr (if resultCanOccupyResource result (cx_enabled cx)
                                 \<and> allocationMatchesResource al t slot width occ (scalarCapacity (cx_caps cx) t)
                              then Some (al, result) else None)))
      | _ \<Rightarrow> Inr None)"

type_synonym kept_map = "(int \<times> allocation \<times> compatibility_result) list"

fun preserve_loop ::
  "plan_context \<Rightarrow> assignment list \<Rightarrow> occupancy \<Rightarrow> kept_map \<Rightarrow> assignment list \<Rightarrow> string + occupancy \<times> kept_map" where
  "preserve_loop cx prior occ preserved [] = Inr (occ, preserved)"
| "preserve_loop cx prior occ preserved (a # as) =
     try_eval (keep_allocation cx prior occ a) (\<lambda>kept.
       case kept of
         None \<Rightarrow> preserve_loop cx (prior @ [a]) occ preserved as
       | Some (al, result) \<Rightarrow>
           preserve_loop cx (prior @ [a]) (reservePositions occ al)
             (AList.update (as_id a) (al, result) preserved) as)"

text \<open>The candidates among the groups: \<open>x ??= v\<close> keeps the first value.\<close>

type_synonym candidate = "slot_group \<times> int list \<times> compatibility_result"

record scan =
  sc_compatible :: "candidate option"
  sc_unknown :: "candidate option"
  sc_unknownResult :: "compatibility_result option"
  sc_exhaustedUnknown :: "compatibility_result option"
  sc_incompatible :: "candidate option"
  sc_exhaustedIncompatible :: "compatibility_result option"
  sc_incompatibleResult :: "compatibility_result option"

definition or_else :: "'a option \<Rightarrow> 'a \<Rightarrow> 'a option" where
  "or_else x v = (case x of None \<Rightarrow> Some v | Some y \<Rightarrow> Some y)"

definition empty_scan :: scan where
  "empty_scan = \<lparr>sc_compatible = None, sc_unknown = None, sc_unknownResult = None, sc_exhaustedUnknown = None,
     sc_incompatible = None, sc_exhaustedIncompatible = None, sc_incompatibleResult = None\<rparr>"

definition scan_group :: "bool \<Rightarrow> resource_type \<Rightarrow> slot_group \<Rightarrow> int list option \<Rightarrow> compatibility_result \<Rightarrow> scan \<Rightarrow> scan" where
  "scan_group enabled t g positions result sc =
     (case cr_status result of
        Compatible \<Rightarrow>
          (case positions of
             Some ps \<Rightarrow> sc\<lparr>sc_compatible := Some (g, ps, result)\<rparr>
           | None \<Rightarrow> sc\<lparr>sc_incompatibleResult := or_else (sc_incompatibleResult sc) (exhaustedResourceResult result t)\<rparr>)
      | UnknownStatus \<Rightarrow>
          (case positions of
             Some ps \<Rightarrow> if enabled then sc\<lparr>sc_unknownResult := or_else (sc_unknownResult sc) result\<rparr>
                        else sc\<lparr>sc_unknown := or_else (sc_unknown sc) (g, ps, result)\<rparr>
           | None \<Rightarrow> sc\<lparr>sc_exhaustedUnknown := or_else (sc_exhaustedUnknown sc) (exhaustedResourceResult result t)\<rparr>)
      | Incompatible \<Rightarrow>
          (let sc = sc\<lparr>sc_incompatibleResult := or_else (sc_incompatibleResult sc) result\<rparr> in
           if enabled then sc
           else case positions of
               Some ps \<Rightarrow> sc\<lparr>sc_incompatible := or_else (sc_incompatible sc) (g, ps, result)\<rparr>
             | None \<Rightarrow> sc\<lparr>sc_exhaustedIncompatible :=
                 or_else (sc_exhaustedIncompatible sc) (exhaustedResourceResult result t)\<rparr>))"

fun scan_groups ::
  "plan_context \<Rightarrow> inventory_item \<Rightarrow> assignment list \<Rightarrow> resource_type \<Rightarrow> rat \<Rightarrow> occupancy \<Rightarrow> slot_group list \<Rightarrow> scan
     \<Rightarrow> string + scan" where
  "scan_groups cx component processed t width occ [] sc = Inr sc"
| "scan_groups cx component processed t width occ (g # gs) sc =
     try_eval (evaluate_in cx component processed (Some g)) (\<lambda>result.
       let sc' = scan_group (cx_enabled cx) t g
             (firstConsecutivePositions occ t (Some (slot_id g)) (Some (slot_count g)) width) result sc
       in if sc_compatible sc' \<noteq> None then Inr sc'
          else scan_groups cx component processed t width occ gs sc')"

text \<open>The decision for one assignment that keeps no stored allocation: the result and the allocation.\<close>

type_synonym decision = "compatibility_result \<times> allocation option"

definition decide_scalar ::
  "plan_context \<Rightarrow> inventory_item \<Rightarrow> assignment list \<Rightarrow> resource_type \<Rightarrow> rat \<Rightarrow> occupancy \<Rightarrow> string + decision" where
  "decide_scalar cx component processed t width occ =
     try_eval (evaluate_in cx component processed None) (\<lambda>result.
       let capacity = scalarCapacity (cx_caps cx) t in
       if \<not> (resultCanOccupyResource result (cx_enabled cx) \<or> (t = ResCpu \<and> cr_status result = UnknownStatus))
       then Inr (result, None)
       else if capacity = None then Inr (invalidResourceResult result t, None)
       else case firstConsecutivePositions occ t None capacity width of
           None \<Rightarrow> Inr (exhaustedResourceResult result t, None)
         | Some ps \<Rightarrow> Inr (result, Some \<lparr>al_resourceType = t, al_groupId = None, al_positions = ps\<rparr>))"

definition first_some :: "'a option \<Rightarrow> 'a option \<Rightarrow> 'a option" where
  "first_some x y = (case x of None \<Rightarrow> y | Some v \<Rightarrow> Some v)"

definition decide_grouped ::
  "plan_context \<Rightarrow> inventory_item \<Rightarrow> assignment list \<Rightarrow> resource_type \<Rightarrow> rat \<Rightarrow> occupancy \<Rightarrow> string + decision" where
  "decide_grouped cx component processed t width occ =
     (let (all_groups, valid) = requiredGroups (cx_caps cx) t in
      try_eval (scan_groups cx component processed t width occ valid empty_scan) (\<lambda>sc.
        case first_some (sc_compatible sc) (first_some (sc_unknown sc) (sc_incompatible sc)) of
          Some (g, ps, result) \<Rightarrow>
            Inr (result, Some \<lparr>al_resourceType = t, al_groupId = Some (slot_id g), al_positions = ps\<rparr>)
        | None \<Rightarrow>
            try_eval (evaluate_in cx component processed None) (\<lambda>base.
              Inr (nullish (first_some (sc_unknownResult sc) (sc_exhaustedUnknown sc))
                     (if valid = [] \<and> all_groups \<noteq> [] then invalidResourceResult base t
                      else nullish (first_some (sc_exhaustedIncompatible sc) (sc_incompatibleResult sc)) base), None))))"

definition decide :: "plan_context \<Rightarrow> inventory_item \<Rightarrow> assignment list \<Rightarrow> occupancy \<Rightarrow> string + decision" where
  "decide cx component processed occ =
     (let resourceType = resourceTypeFor_js (cx_caps cx) component;
          width = nullish (allocationSize component resourceType) 0
      in case resourceType of
           None \<Rightarrow> try_eval (evaluate_in cx component processed None) (\<lambda>result. Inr (result, None))
         | Some t \<Rightarrow>
             if width = 0
             then try_eval (evaluate_in cx component processed None) (\<lambda>result. Inr (invalidResourceResult result t, None))
             else if scalar_resource t then decide_scalar cx component processed t width occ
             else decide_grouped cx component processed t width occ)"

definition reserve_option :: "occupancy \<Rightarrow> allocation option \<Rightarrow> occupancy" where
  "reserve_option occ al = (case al of None \<Rightarrow> occ | Some x \<Rightarrow> reservePositions occ x)"

fun plan_loop ::
  "plan_context \<Rightarrow> kept_map \<Rightarrow> assignment list \<Rightarrow> occupancy \<Rightarrow> assignment list
     \<Rightarrow> string + (assignment \<times> project_result) list" where
  "plan_loop cx preserved processed occ [] = Inr []"
| "plan_loop cx preserved processed occ (a # as) =
     (let clean = a\<lparr>as_allocation := None\<rparr> in
      case itemLookup (cx_items cx) (as_itemId a) of
        None \<Rightarrow> map_sum id (\<lambda>rest. (clean, planResult a missingComponentResult None) # rest)
                  (plan_loop cx preserved (processed @ [a]) occ as)
      | Some component \<Rightarrow>
          (case map_of preserved (as_id a) of
             Some (al, result) \<Rightarrow>
               (let planned = a\<lparr>as_allocation := Some al\<rparr> in
                map_sum id (\<lambda>rest. (planned, planResult a result (Some al)) # rest)
                  (plan_loop cx preserved (processed @ [planned]) occ as))
           | None \<Rightarrow>
               try_eval (decide cx component processed occ) (\<lambda>(result, al).
                 map_sum id (\<lambda>rest. (a\<lparr>as_allocation := al\<rparr>, planResult a result al) # rest)
                   (plan_loop cx preserved (processed @ [clean]) (reserve_option occ al) as))))"

definition host_assignments :: "project \<Rightarrow> string \<Rightarrow> assignment list" where
  "host_assignments p hostId = filter (\<lambda>a. as_serverId a = hostId) (pr_assignments p)"

definition context_for :: "project \<Rightarrow> string \<Rightarrow> inventory_item \<Rightarrow> plan_context" where
  "context_for p hostId host =
     \<lparr>cx_host = host, cx_items = pr_items p, cx_caps = normalizeHostCapabilities (Some host),
      cx_enabled = isHostCompatibilityEnabled p hostId, cx_verified = isVerifiedMemoryLimitEnabled p hostId\<rparr>"

definition plan_of :: "(assignment \<times> project_result) list \<Rightarrow> host_plan" where
  "plan_of planned = \<lparr>hpl_assignments = map fst planned, hpl_results = map snd planned\<rparr>"

subsection \<open>Planning a PC build\<close>

record pc_resource =
  rs_type :: resource_type
  rs_count :: "rat option"
  rs_width :: rat
  rs_groups :: "slot_group list option"

definition single_resource :: "resource_type \<Rightarrow> rat option \<Rightarrow> pc_resource" where
  "single_resource t n = \<lparr>rs_type = t, rs_count = n, rs_width = 1, rs_groups = None\<rparr>"

definition cpu_socket_total :: "inventory_item option \<Rightarrow> host_compatibility \<Rightarrow> rat option" where
  "cpu_socket_total motherboard caps =
     first_some (Option.bind (host_cpu caps) hc_socketCount)
       (first_some (Option.bind motherboard (\<lambda>m. optionalNumber_js
            (nullish_jsv (spec_of m ''cpuSocketCount'') (spec_of m ''cpuSockets''))))
          (if none_recorded (Option.bind (host_cpu caps) hc_sockets) then None else Some 1))"

definition pc_storage_group :: "jsv dict \<Rightarrow> slot_group \<Rightarrow> bool" where
  "pc_storage_group reqs g =
     (case g of
        GStorage s \<Rightarrow>
          (\<not> truthy_str (req_text reqs ''interface'')
             \<or> includesNormalized_js (nullish (sg_interfaces s) []) (req_text reqs ''interface''))
          \<and> (\<not> truthy_str (req_text reqs ''formFactor'')
             \<or> includesNormalized_js (nullish (sg_formFactors s) []) (req_text reqs ''formFactor''))
      | _ \<Rightarrow> False)"

definition pc_expansion_group :: "jsv dict \<Rightarrow> slot_group \<Rightarrow> bool" where
  "pc_expansion_group reqs g =
     (case g of
        GExpansion e \<Rightarrow> \<not> truthy_str (req_text reqs ''interfaceFamily'')
          \<or> map_option family_name (eg_interfaceFamily e) = req_text reqs ''interfaceFamily''
      | _ \<Rightarrow> False)"

definition pcBuildResourceDefinition ::
  "inventory_item \<Rightarrow> inventory_item option \<Rightarrow> host_compatibility \<Rightarrow> pc_resource option" where
  "pcBuildResourceDefinition component motherboard caps =
     (let reqs = normalizeComponentRequirements component; t = it_type component in
      if t = TMotherboard then Some (single_resource ResMotherboard (Some 1))
      else if t = TPowerSupply then Some (single_resource ResPower (Some 1))
      else if t = TCase then Some (single_resource ResCase (Some 1))
      else if t = TCpu then Some (single_resource ResCpu (cpu_socket_total motherboard caps))
      else if t = TCpuCooler then Some (single_resource ResCooling (cpu_socket_total motherboard caps))
      else if t = TRam then Some (single_resource ResMemory (Option.bind (host_memory caps) hm_slots))
      else if t = TStorage
      then Some \<lparr>rs_type = ResStorage, rs_count = None, rs_width = 1,
             rs_groups = Some (filter (pc_storage_group reqs) (valid_slots (slot_groups caps ResStorage)))\<rparr>
      else if isExpansion t
      then (let optionalGroups = optionalModuleGroupsFor caps component in
            if optionalGroups \<noteq> []
            then Some \<lparr>rs_type = ResOptionalModule, rs_count = None, rs_width = 1,
                   rs_groups = Some (map GModule optionalGroups)\<rparr>
            else Some \<lparr>rs_type = ResExpansion, rs_count = None, rs_width = nullish (req_num reqs ''slotWidth'') 1,
                   rs_groups = Some (filter (pc_expansion_group reqs) (valid_slots (slot_groups caps ResExpansion)))\<rparr>)
      else None)"

text \<open>The first group with room.\<close>

fun first_group :: "occupancy \<Rightarrow> resource_type \<Rightarrow> rat \<Rightarrow> slot_group list \<Rightarrow> (int option \<times> int list) option" where
  "first_group occ t width [] = None"
| "first_group occ t width (g # gs) =
     (case firstConsecutivePositions occ t (Some (slot_id g)) (Some (slot_count g)) width of
        Some ps \<Rightarrow> Some (Some (slot_id g), ps)
      | None \<Rightarrow> first_group occ t width gs)"

definition select_positions :: "occupancy \<Rightarrow> pc_resource \<Rightarrow> (int option \<times> int list) option" where
  "select_positions occ rs =
     (case rs_groups rs of
        Some gs \<Rightarrow> first_group occ (rs_type rs) (rs_width rs) gs
      | None \<Rightarrow> map_option (\<lambda>ps. (None, ps)) (firstConsecutivePositions occ (rs_type rs) None (rs_count rs) (rs_width rs)))"

definition has_definition :: "pc_resource \<Rightarrow> bool" where
  "has_definition rs \<longleftrightarrow>
     (case rs_groups rs of
        Some gs \<Rightarrow> gs \<noteq> []
      | None \<Rightarrow> (case rs_count rs of None \<Rightarrow> False | Some n \<Rightarrow> isInteger_rat n \<and> 0 < n))
     \<and> isInteger_rat (rs_width rs) \<and> 0 < rs_width rs"

text \<open>The decision for one component, the host capabilities being those of the board; the third part says
  whether later components see this one.\<close>

definition decide_pc ::
  "plan_context \<Rightarrow> inventory_item option \<Rightarrow> inventory_item \<Rightarrow> assignment list \<Rightarrow> occupancy
     \<Rightarrow> string + (decision \<times> bool)" where
  "decide_pc cx motherboard component processed occ =
     try_eval (evaluate_in cx component processed None) (\<lambda>result.
       case pcBuildResourceDefinition component motherboard (cx_caps cx) of
         None \<Rightarrow> Inr ((result, None), True)
       | Some rs \<Rightarrow>
           if \<not> resultCanOccupyResource result (cx_enabled cx) then Inr ((result, None), True)
           else case select_positions occ rs of
               None \<Rightarrow> Inr ((physicalResourceError result (rs_type rs) (has_definition rs), None), False)
             | Some (g, ps) \<Rightarrow>
                 Inr ((result, Some \<lparr>al_resourceType = rs_type rs, al_groupId = g, al_positions = ps\<rparr>), True))"

fun plan_pc_loop ::
  "plan_context \<Rightarrow> inventory_item option \<Rightarrow> assignment list \<Rightarrow> occupancy \<Rightarrow> assignment list
     \<Rightarrow> string + (assignment \<times> project_result) list" where
  "plan_pc_loop cx motherboard processed occ [] = Inr []"
| "plan_pc_loop cx motherboard processed occ (a # as) =
     (case itemLookup (cx_items cx) (as_itemId a) of
        None \<Rightarrow> map_sum id (\<lambda>rest. (a\<lparr>as_allocation := None\<rparr>, planResult a missingComponentResult None) # rest)
                  (plan_pc_loop cx motherboard processed occ as)
      | Some component \<Rightarrow>
          try_eval (decide_pc cx motherboard component processed occ) (\<lambda>((result, al), seen).
            let planned = a\<lparr>as_allocation := al\<rparr> in
            map_sum id (\<lambda>rest. (planned, planResult a result al) # rest)
              (plan_pc_loop cx motherboard (if seen then processed @ [planned] else processed)
                 (reserve_option occ al) as)))"

definition planPcBuildAllocations :: "project \<Rightarrow> string \<Rightarrow> inventory_item \<Rightarrow> string + host_plan" where
  "planPcBuildAllocations p hostId host =
     (let assignments = sort_key compareAssignments (host_assignments p hostId);
          motherboard = assignedItemOfType assignments (pr_items p) TMotherboard None;
          effective = effectiveHostForAssignment host assignments (pr_items p) motherboard
      in map_sum id plan_of (plan_pc_loop
           ((context_for p hostId host)\<lparr>cx_caps := normalizeHostCapabilities (Some effective)\<rparr>)
           motherboard [] [] assignments))"

subsection \<open>The planner\<close>

definition planHostAllocations :: "project \<Rightarrow> string \<Rightarrow> string + host_plan" where
  "planHostAllocations p hostId =
     (case itemLookup (pr_items p) hostId of
        None \<Rightarrow> Inr (plan_of [])
      | Some host \<Rightarrow>
          if \<not> isHostType (it_type host) then Inr (plan_of [])
          else if it_type host = TPcBuild then planPcBuildAllocations p hostId host
          else let assignments = sort_key (compareHostAllocationAssignments (pr_items p)) (host_assignments p hostId);
                   cx = context_for p hostId host
               in try_eval (preserve_loop cx [] [] [] assignments) (\<lambda>(occ, preserved).
                    map_sum id plan_of (plan_loop cx preserved [] occ assignments)))"

text \<open>The planned assignments of all hosts, keyed by host and id.\<close>

fun plan_all :: "project \<Rightarrow> string list \<Rightarrow> string + ((string \<times> int) \<times> assignment) list" where
  "plan_all p [] = Inr []"
| "plan_all p (h # hs) =
     try_eval (planHostAllocations p h) (\<lambda>plan.
       map_sum id (\<lambda>rest. map (\<lambda>a. ((h, as_id a), a)) (hpl_assignments plan) @ rest) (plan_all p hs))"

definition normalizeCompatibilityProject :: "project \<Rightarrow> string + project" where
  "normalizeCompatibilityProject p =
     map_sum id (\<lambda>entries.
        let planned = map_from entries in
        p\<lparr>pr_assignments := map (\<lambda>a. nullish (map_of planned (as_serverId a, as_id a)) a) (pr_assignments p)\<rparr>)
       (plan_all p (map fst (filter (\<lambda>(k, i). isHostType (it_type i)) (pr_items p))))"

end
