(* ===== verification/Planner_Invariants.thy ===== *)
theory Planner_Invariants
  imports Host_Planner
begin

text \<open>
  Correctness of the planner: it plans every assignment of the host and changes nothing but
  allocations; no two planned allocations share a position; and every allocation lies within the
  capacity of the host.
\<close>

section \<open>Definitions\<close>

text \<open>The positions of an allocation with the resource they belong to, and the occupied ones.\<close>

type_synonym slot = "resource_type \<times> int option \<times> int"

definition slots :: "allocation \<Rightarrow> slot set" where
  "slots al = (\<lambda>p. (al_resourceType al, al_groupId al, p)) ` set (al_positions al)"

definition slots_of :: "assignment \<Rightarrow> slot set" where
  "slots_of a = (case as_allocation a of None \<Rightarrow> {} | Some al \<Rightarrow> slots al)"

definition taken :: "occupancy \<Rightarrow> slot set" where
  "taken occ = {(t, g, p). p \<in> set (occupiedSet occ t g)}"

definition kept_slots :: "kept_map \<Rightarrow> assignment \<Rightarrow> slot set" where
  "kept_slots kept a = (case map_of kept (as_id a) of None \<Rightarrow> {} | Some (al, r) \<Rightarrow> slots al)"

text \<open>An allocation that the host of the capabilities can give to a component.\<close>

definition alloc_fits :: "host_compatibility \<Rightarrow> inventory_item \<Rightarrow> allocation \<Rightarrow> bool" where
  "alloc_fits caps component al \<longleftrightarrow>
     (\<exists>w. resourceTypeFor_js caps component = Some (al_resourceType al)
        \<and> allocationSize component (Some (al_resourceType al)) = Some w
        \<and> positionsAreConsecutive (al_positions al) w
        \<and> (if scalar_resource (al_resourceType al)
           then al_groupId al = None
             \<and> (\<exists>n. scalarCapacity caps (al_resourceType al) = Some n \<and> (\<forall>p \<in> set (al_positions al). of_int p < n))
           else (\<exists>g \<in> set (snd (requiredGroups caps (al_resourceType al))).
                   al_groupId al = Some (slot_id g) \<and> (\<forall>p \<in> set (al_positions al). of_int p < slot_count g))))"

text \<open>What a candidate of the scan of the groups is.\<close>

definition candidate_ok ::
  "plan_context \<Rightarrow> inventory_item \<Rightarrow> assignment list \<Rightarrow> resource_type \<Rightarrow> rat \<Rightarrow> occupancy \<Rightarrow> slot_group list \<Rightarrow> candidate
     \<Rightarrow> bool" where
  "candidate_ok cx component processed t w occ valid cand =
     (case cand of (g, ps, result) \<Rightarrow>
        g \<in> set valid \<and> firstConsecutivePositions occ t (Some (slot_id g)) (Some (slot_count g)) w = Some ps
        \<and> evaluate_in cx component processed (Some g) = Inr result \<and> resultCanOccupyResource result (cx_enabled cx))"

definition scan_ok ::
  "plan_context \<Rightarrow> inventory_item \<Rightarrow> assignment list \<Rightarrow> resource_type \<Rightarrow> rat \<Rightarrow> occupancy \<Rightarrow> slot_group list \<Rightarrow> scan \<Rightarrow> bool" where
  "scan_ok cx component processed t w occ valid sc \<longleftrightarrow>
     (\<forall>cand. cand \<in> set_option (sc_compatible sc) \<union> set_option (sc_unknown sc) \<union> set_option (sc_incompatible sc)
        \<longrightarrow> candidate_ok cx component processed t w occ valid cand)"

text \<open>The stored allocations that the first pass keeps: one per assignment seen, free of each other, all
  of them occupied.\<close>

definition kept_ok :: "plan_context \<Rightarrow> assignment list \<Rightarrow> occupancy \<Rightarrow> kept_map \<Rightarrow> bool" where
  "kept_ok cx seen occ kept \<longleftrightarrow>
     (\<forall>n al r. map_of kept n = Some (al, r) \<longrightarrow> slots al \<subseteq> taken occ
        \<and> (\<exists>a c. a \<in> set seen \<and> as_id a = n \<and> as_allocation a = Some al
             \<and> itemLookup (cx_items cx) (as_itemId a) = Some c \<and> alloc_fits (cx_caps cx) c al))
     \<and> (\<forall>m n al r al' r'. map_of kept m = Some (al, r) \<longrightarrow> map_of kept n = Some (al', r') \<longrightarrow> m \<noteq> n
          \<longrightarrow> slots al \<inter> slots al' = {})"

text \<open>A server with two memory slots, the first of them stored for the module that was assigned last.\<close>

definition plan_project :: project where
  "plan_project = sample_project
     \<lparr>pr_items := [(''server:1'', ram_host), (''ram:1'', ram_module False),
        (''ram:2'', (ram_module False)\<lparr>it_id := IdNum 2\<rparr>), (''ram:3'', (ram_module False)\<lparr>it_id := IdNum 3\<rparr>)],
      pr_assignments :=
        [sample_assignment 1 ''server:1'' ''ram:1'' TRam,
         (sample_assignment 2 ''server:1'' ''ram:2'' TRam)
           \<lparr>as_allocation := Some \<lparr>al_resourceType = ResMemory, al_groupId = None, al_positions = [0]\<rparr>\<rparr>,
         sample_assignment 3 ''server:1'' ''ram:3'' TRam]\<rparr>"

section \<open>Lemmas\<close>

subsection \<open>The store of occupied positions\<close>

text \<open>The contract of the store: reserving an allocation occupies exactly its positions, and an
  allocation is free when none of them is.\<close>

locale position_store =
  fixes occupied :: "'s \<Rightarrow> slot set"
    and reserve :: "'s \<Rightarrow> allocation \<Rightarrow> 's"
    and free :: "'s \<Rightarrow> allocation \<Rightarrow> bool"
  assumes occupied_reserve: "occupied (reserve s al) = occupied s \<union> slots al"
    and free_iff: "free s al \<longleftrightarrow> slots al \<inter> occupied s = {}"
begin

lemma reserve_mono: "occupied s \<subseteq> occupied (reserve s al)"
  by (simp add: occupied_reserve)

lemma free_antimono: "occupied s \<subseteq> occupied t \<Longrightarrow> free t al \<Longrightarrow> free s al"
  by (auto simp: free_iff)

lemma occupied_reserve_all: "occupied (foldl reserve s als) = occupied s \<union> \<Union> (slots ` set als)"
  by (induction als arbitrary: s) (auto simp: occupied_reserve)

text \<open>Allocations that are each free when they are reserved do not overlap.\<close>

lemma reserved_disjoint:
  "free (foldl reserve s als) al \<Longrightarrow> b \<in> set als \<Longrightarrow> slots al \<inter> slots b = {}"
  by (auto simp: free_iff occupied_reserve_all)

end

interpretation positions: position_store taken reservePositions
  "\<lambda>occ al. positionsAreFree occ (al_resourceType al) (al_groupId al) (al_positions al)"
proof
  fix occ al
  show "taken (reservePositions occ al) = taken occ \<union> slots al"
    by (auto simp: taken_def reservePositions_def slots_def occupiedSet_def update_conv' split: if_splits)
  show "positionsAreFree occ (al_resourceType al) (al_groupId al) (al_positions al) \<longleftrightarrow> slots al \<inter> taken occ = {}"
    by (auto simp: taken_def positionsAreFree_def slots_def list_all_iff)
qed

lemma taken_Nil [simp]: "taken [] = {}"
  by (simp add: taken_def occupiedSet_def)

lemma alloc_disjoint_slots: "alloc_disjoint a b \<longleftrightarrow> slots_of a \<inter> slots_of b = {}"
  by (auto simp: alloc_disjoint_def slots_of_def slots_def split: option.split)

lemma taken_reserve_option:
  "taken (reserve_option occ al) = taken occ \<union> slots_of (a\<lparr>as_allocation := al\<rparr>)"
  by (cases al) (simp_all add: reserve_option_def slots_of_def positions.occupied_reserve)

lemma set_consecutive: "set (consecutive start w) = {start..<start + w}"
proof -
  have "(\<lambda>i. start + i) ` {0..w - 1} = {start..start + (w - 1)}"
    by (simp add: image_add_atLeastAtMost)
  then show ?thesis by (auto simp: consecutive_def)
qed

lemma firstConsecutive_sound:
  assumes "firstConsecutivePositions occ t g slts w = Some ps"
  shows "\<exists>n start. slts = Some n \<and> isInteger_rat n \<and> isInteger_rat w \<and> 0 < w \<and> 0 \<le> start
           \<and> start + \<lfloor>w\<rfloor> \<le> \<lfloor>n\<rfloor> \<and> ps = consecutive start \<lfloor>w\<rfloor> \<and> positionsAreFree occ t g ps"
proof -
  from assms obtain n start where "slts = Some n" "isInteger_rat n" "isInteger_rat w" "0 < w"
    and f: "List.find (\<lambda>start. positionsAreFree occ t g (consecutive start \<lfloor>w\<rfloor>)) [0..\<lfloor>n\<rfloor> - \<lfloor>w\<rfloor>] = Some start"
    and "ps = consecutive start \<lfloor>w\<rfloor>"
    by (auto simp: firstConsecutivePositions_def split: option.splits if_splits)
  with find_Some_iff_first [OF f] show ?thesis by auto
qed

subsection \<open>The shape of a plan\<close>

lemma plan_loop_core: "plan_loop cx kept processed occ as = Inr out \<Longrightarrow> map (core \<circ> fst) out = map core as"
  by (induction as arbitrary: processed occ out)
     (auto simp: Inr_iffs split: option.splits prod.splits)

lemma plan_pc_loop_core: "plan_pc_loop cx board processed occ as = Inr out \<Longrightarrow> map (core \<circ> fst) out = map core as"
  by (induction as arbitrary: processed occ out)
     (auto simp: Inr_iffs split: option.splits prod.splits)

subsection \<open>The decision for one assignment\<close>

lemma successively_consecutive: "successively (\<lambda>p q. q = p + 1) (map (\<lambda>i. start + i) [m..n :: int])"
proof (induction "nat (n - m + 1)" arbitrary: m)
  case 0
  then show ?case by simp
next
  case (Suc k)
  then have "m \<le> n" by simp
  moreover have "successively (\<lambda>p q. q = p + 1) (map (\<lambda>i. start + i) [m + 1..n])"
    using Suc by (intro Suc.hyps(1)) simp
  ultimately show ?case
    by (cases "m + 1 \<le> n") (simp_all add: upto_rec1 [of m n] upto_rec1 [of "m + 1" n])
qed

lemma positions_consecutive:
  assumes "isInteger_rat w" "0 < w" "0 \<le> start"
  shows "positionsAreConsecutive (consecutive start \<lfloor>w\<rfloor>) w"
proof -
  have "0 < \<lfloor>w\<rfloor>" "of_int \<lfloor>w\<rfloor> = w" using assms(1,2) by (auto simp: isInteger_rat_def)
  then have "of_nat (nat \<lfloor>w\<rfloor>) = w" by simp
  with assms(3) show ?thesis
    using successively_consecutive [of start 0 "\<lfloor>w\<rfloor> - 1"]
    by (simp add: positionsAreConsecutive_def consecutive_def list_all_iff)
qed

lemma firstConsecutive_fits:
  assumes "firstConsecutivePositions occ t g (Some n) w = Some ps"
  shows "positionsAreConsecutive ps w" "\<forall>p \<in> set ps. of_int p < n" "positionsAreFree occ t g ps"
proof -
  from firstConsecutive_sound [OF assms] obtain start where *: "isInteger_rat n" "isInteger_rat w" "0 < w"
    "0 \<le> start" "start + \<lfloor>w\<rfloor> \<le> \<lfloor>n\<rfloor>" "ps = consecutive start \<lfloor>w\<rfloor>" "positionsAreFree occ t g ps"
    by auto
  then show "positionsAreConsecutive ps w" "positionsAreFree occ t g ps"
    using positions_consecutive by simp_all
  have "of_int \<lfloor>n\<rfloor> = n" using *(1) by (simp add: isInteger_rat_def)
  moreover have "p < \<lfloor>n\<rfloor>" if "p \<in> set ps" for p using *(5,6) that by (simp add: set_consecutive)
  ultimately show "\<forall>p \<in> set ps. of_int p < n" by (metis of_int_less_iff)
qed

lemma scan_group_ok:
  assumes "scan_ok cx c pr t w occ valid sc" "g \<in> set valid" "evaluate_in cx c pr (Some g) = Inr result"
  shows "scan_ok cx c pr t w occ valid (scan_group (cx_enabled cx) t g
    (firstConsecutivePositions occ t (Some (slot_id g)) (Some (slot_count g)) w) result sc)"
  using assms unfolding scan_ok_def scan_group_def candidate_ok_def resultCanOccupyResource_def or_else_def
  by (cases "cr_status result"; cases "firstConsecutivePositions occ t (Some (slot_id g)) (Some (slot_count g)) w")
     (auto split: option.splits)

lemma scan_groups_ok:
  assumes "scan_groups cx c pr t w occ gs sc = Inr sc'" "scan_ok cx c pr t w occ valid sc" "set gs \<subseteq> set valid"
  shows "scan_ok cx c pr t w occ valid sc'"
  using assms
  by (induction gs arbitrary: sc) (auto simp: Inr_iffs scan_group_ok split: if_splits)

lemma first_some_cases: "first_some x y = Some v \<longleftrightarrow> x = Some v \<or> (x = None \<and> y = Some v)"
  by (cases x) (auto simp: first_some_def)

lemma decide_grouped_Some:
  assumes "decide_grouped cx c pr t w occ = Inr (result, Some al)"
  shows "\<exists>g ps. candidate_ok cx c pr t w occ (snd (requiredGroups (cx_caps cx) t)) (g, ps, result)
    \<and> al = \<lparr>al_resourceType = t, al_groupId = Some (slot_id g), al_positions = ps\<rparr>"
proof -
  let ?valid = "snd (requiredGroups (cx_caps cx) t)"
  from assms obtain sc where sc: "scan_groups cx c pr t w occ ?valid empty_scan = Inr sc"
    and sel: "(case first_some (sc_compatible sc) (first_some (sc_unknown sc) (sc_incompatible sc)) of
          Some (g, ps, result) \<Rightarrow>
            Inr (result, Some \<lparr>al_resourceType = t, al_groupId = Some (slot_id g), al_positions = ps\<rparr>)
        | None \<Rightarrow>
            try_eval (evaluate_in cx c pr None) (\<lambda>base.
              Inr (nullish (first_some (sc_unknownResult sc) (sc_exhaustedUnknown sc))
                     (if ?valid = [] \<and> fst (requiredGroups (cx_caps cx) t) \<noteq> [] then invalidResourceResult base t
                      else nullish (first_some (sc_exhaustedIncompatible sc) (sc_incompatibleResult sc)) base), None)))
      = Inr (result, Some al)"
    unfolding decide_grouped_def Let_def case_prod_beta try_eval_Inr_iff by blast
  obtain g ps where sel: "first_some (sc_compatible sc) (first_some (sc_unknown sc) (sc_incompatible sc)) = Some (g, ps, result)"
    and al: "al = \<lparr>al_resourceType = t, al_groupId = Some (slot_id g), al_positions = ps\<rparr>"
    using sel by (cases "first_some (sc_compatible sc) (first_some (sc_unknown sc) (sc_incompatible sc))")
      (auto simp: try_eval_Inr_iff)
  have "scan_ok cx c pr t w occ ?valid sc"
    by (rule scan_groups_ok [OF sc]) (simp_all add: scan_ok_def empty_scan_def)
  moreover from sel have "(g, ps, result) \<in> set_option (sc_compatible sc) \<union> set_option (sc_unknown sc)
      \<union> set_option (sc_incompatible sc)"
    by (auto simp: first_some_cases)
  ultimately have "candidate_ok cx c pr t w occ ?valid (g, ps, result)" unfolding scan_ok_def by blast
  with al show ?thesis by blast
qed

lemma decide_sound:
  assumes "decide cx c pr occ = Inr (result, Some al)"
  shows "alloc_fits (cx_caps cx) c al" "slots al \<inter> taken occ = {}"
proof -
  from assms obtain t where t: "resourceTypeFor_js (cx_caps cx) c = Some t"
    by (auto simp: decide_def Inr_iffs split: option.splits)
  define w where "w = nullish (allocationSize c (Some t)) 0"
  from assms t have nz: "w \<noteq> 0" by (auto simp: decide_def Inr_iffs w_def)
  then have w: "allocationSize c (Some t) = Some w" unfolding w_def by (cases "allocationSize c (Some t)") simp_all
  have "alloc_fits (cx_caps cx) c al \<and> positionsAreFree occ (al_resourceType al) (al_groupId al) (al_positions al)"
  proof (cases "scalar_resource t")
    case True
    with assms t nz have "decide_scalar cx c pr t w occ = Inr (result, Some al)" by (simp add: decide_def w_def)
    then obtain ps n where "scalarCapacity (cx_caps cx) t = Some n"
      "firstConsecutivePositions occ t None (Some n) w = Some ps"
      "al = \<lparr>al_resourceType = t, al_groupId = None, al_positions = ps\<rparr>"
      by (auto simp: decide_scalar_def Inr_iffs split: option.splits if_splits)
    with True t w firstConsecutive_fits [of occ t None n w ps] show ?thesis by (auto simp: alloc_fits_def)
  next
    case False
    with assms t nz have "decide_grouped cx c pr t w occ = Inr (result, Some al)" by (simp add: decide_def w_def)
    from decide_grouped_Some [OF this] obtain g ps where
      "candidate_ok cx c pr t w occ (snd (requiredGroups (cx_caps cx) t)) (g, ps, result)"
      and al: "al = \<lparr>al_resourceType = t, al_groupId = Some (slot_id g), al_positions = ps\<rparr>" by blast
    then have "g \<in> set (snd (requiredGroups (cx_caps cx) t))"
      "firstConsecutivePositions occ t (Some (slot_id g)) (Some (slot_count g)) w = Some ps"
      by (simp_all add: candidate_ok_def)
    with False t w al firstConsecutive_fits [of occ t "Some (slot_id g)" "slot_count g" w ps] show ?thesis
      by (auto simp: alloc_fits_def)
  qed
  then show "alloc_fits (cx_caps cx) c al" "slots al \<inter> taken occ = {}"
    by (simp_all add: positions.free_iff)
qed

lemma keep_allocation_sound:
  assumes "keep_allocation cx prior occ a = Inr (Some (al, result))"
  shows "as_allocation a = Some al" "slots al \<inter> taken occ = {}"
    "\<exists>c. itemLookup (cx_items cx) (as_itemId a) = Some c \<and> alloc_fits (cx_caps cx) c al"
proof -
  from assms obtain c where c: "itemLookup (cx_items cx) (as_itemId a) = Some c" and a: "as_allocation a = Some al"
    by (auto simp: keep_allocation_def Inr_iffs split: option.splits if_splits)
  from assms c a obtain t where t: "resourceTypeFor_js (cx_caps cx) c = Some t"
    by (auto simp: keep_allocation_def split: option.splits)
  define w where "w = nullish (allocationSize c (Some t)) 0"
  define slot where "slot = (if scalar_resource t then None
    else List.find (\<lambda>g. Some (slot_id g) = al_groupId al) (snd (requiredGroups (cx_caps cx) t)))"
  from assms c a t have nz: "w \<noteq> 0" by (auto simp: keep_allocation_def w_def split: if_splits)
  then have w: "allocationSize c (Some t) = Some w" unfolding w_def by (cases "allocationSize c (Some t)") simp_all
  from assms c a t nz have m: "allocationMatchesResource al t slot w occ (scalarCapacity (cx_caps cx) t)"
    unfolding keep_allocation_def Let_def w_def [symmetric] slot_def [symmetric]
    by (simp add: w_def [symmetric] slot_def [symmetric] Inr_iffs split: if_splits)
  then have free: "positionsAreFree occ (al_resourceType al) (al_groupId al) (al_positions al)"
    and "al_resourceType al = t" by (auto simp: allocationMatchesResource_def)
  show "as_allocation a = Some al" by (rule a)
  show "slots al \<inter> taken occ = {}" using free unfolding positions.free_iff .
  have "alloc_fits (cx_caps cx) c al"
  proof (cases "scalar_resource t")
    case True
    with m t w show ?thesis
      by (auto simp: alloc_fits_def allocationMatchesResource_def list_all_iff)
  next
    case False
    with m obtain g where "slot = Some g" by (cases slot) (auto simp: allocationMatchesResource_def)
    with False find_Some_iff_first have "g \<in> set (snd (requiredGroups (cx_caps cx) t))" "al_groupId al = Some (slot_id g)"
      unfolding slot_def by fastforce+
    with False m t w \<open>slot = Some g\<close> show ?thesis
      by (auto simp: alloc_fits_def allocationMatchesResource_def list_all_iff intro!: bexI [of _ g])
  qed
  with c show "\<exists>c. itemLookup (cx_items cx) (as_itemId a) = Some c \<and> alloc_fits (cx_caps cx) c al" by blast
qed

subsection \<open>No position is given twice\<close>

lemma kept_ok_update:
  assumes kept: "kept_ok cx seen occ kept" and new: "keep_allocation cx prior occ a = Inr (Some (al, r))"
    and fresh: "as_id a \<notin> as_id ` set seen"
  shows "kept_ok cx (seen @ [a]) (reservePositions occ al) (AList.update (as_id a) (al, r) kept)"
proof -
  note sound = keep_allocation_sound [OF new]
  have none: "map_of kept (as_id a) = None"
    using kept fresh unfolding kept_ok_def by (metis imageI not_None_eq surj_pair)
  have old: "slots al' \<subseteq> taken occ" if "map_of kept n = Some (al', r')" for n al' r'
    using kept that unfolding kept_ok_def by blast
  show ?thesis
    unfolding kept_ok_def positions.occupied_reserve update_conv'
  proof (intro conjI allI impI, goal_cases)
    case (1 n al' r')
    then show ?case using old [of n al' r'] by (auto split: if_splits)
  next
    case (2 n al' r')
    show ?case
    proof (cases "n = as_id a")
      case True
      with 2 sound(1,3) show ?thesis by (auto intro!: exI [of _ a])
    next
      case False
      with 2 kept show ?thesis unfolding kept_ok_def by (simp, blast)
    qed
  next
    case (3 m n al1 r1 al2 r2)
    then show ?case
      using kept old sound(2) unfolding kept_ok_def
      by (cases "m = as_id a"; cases "n = as_id a") (auto, blast+)
  qed
qed

lemma kept_ok_snoc: "kept_ok cx seen occ kept \<Longrightarrow> kept_ok cx (seen @ [a]) occ kept"
  unfolding kept_ok_def by fastforce

lemma preserve_loop_ok:
  assumes "preserve_loop cx prior occ kept as = Inr (occ', kept')" "kept_ok cx prior occ kept"
    "distinct (map as_id (prior @ as))"
  shows "kept_ok cx (prior @ as) occ' kept'"
  using assms
proof (induction as arbitrary: prior occ kept)
  case (Cons a as)
  from Cons.prems(1) obtain k where k: "keep_allocation cx prior occ a = Inr k"
    and rest: "(case k of None \<Rightarrow> preserve_loop cx (prior @ [a]) occ kept as
      | Some (al, r) \<Rightarrow> preserve_loop cx (prior @ [a]) (reservePositions occ al)
          (AList.update (as_id a) (al, r) kept) as) = Inr (occ', kept')"
    by (auto simp: try_eval_Inr_iff)
  have fresh: "as_id a \<notin> as_id ` set prior" and d: "distinct (map as_id ((prior @ [a]) @ as))"
    using Cons.prems(3) by auto
  show ?case
  proof (cases k)
    case None
    with Cons.IH [OF _ kept_ok_snoc [OF Cons.prems(2)] d] rest show ?thesis by simp
  next
    case (Some e)
    obtain al r where e: "e = (al, r)" by (cases e)
    from kept_ok_update [OF Cons.prems(2) _ fresh] k Some e
    have "kept_ok cx (prior @ [a]) (reservePositions occ al) (AList.update (as_id a) (al, r) kept)" by blast
    with Cons.IH [OF _ this d] rest Some e show ?thesis by simp
  qed
qed simp

lemma slots_of_simps [simp]:
  "slots_of (a\<lparr>as_allocation := None\<rparr>) = {}" "slots_of (a\<lparr>as_allocation := Some al\<rparr>) = slots al"
  by (simp_all add: slots_of_def)

text \<open>The three ways in which the loop plans the next assignment.\<close>

lemma plan_loop_Cons:
  assumes "plan_loop cx kept processed occ (a # as) = Inr out"
  obtains (gone) rest where "itemLookup (cx_items cx) (as_itemId a) = None"
      "plan_loop cx kept (processed @ [a]) occ as = Inr rest"
      "out = (a\<lparr>as_allocation := None\<rparr>, planResult a missingComponentResult None) # rest"
  | (kept) c al r rest where "itemLookup (cx_items cx) (as_itemId a) = Some c" "map_of kept (as_id a) = Some (al, r)"
      "plan_loop cx kept (processed @ [a\<lparr>as_allocation := Some al\<rparr>]) occ as = Inr rest"
      "out = (a\<lparr>as_allocation := Some al\<rparr>, planResult a r (Some al)) # rest"
  | (new) c al r rest where "itemLookup (cx_items cx) (as_itemId a) = Some c" "map_of kept (as_id a) = None"
      "decide cx c processed occ = Inr (r, al)"
      "plan_loop cx kept (processed @ [a\<lparr>as_allocation := None\<rparr>]) (reserve_option occ al) as = Inr rest"
      "out = (a\<lparr>as_allocation := al\<rparr>, planResult a r al) # rest"
proof (cases "itemLookup (cx_items cx) (as_itemId a)")
  case None
  with assms show ?thesis by (auto simp: Inr_iffs intro: gone)
next
  case (Some c)
  show ?thesis
  proof (cases "map_of kept (as_id a)")
    case None
    with assms Some show ?thesis by (auto simp: Inr_iffs intro: new)
  next
    case k: (Some e)
    obtain al r where "e = (al, r)" by (cases e)
    with assms Some k show ?thesis by (auto simp: Inr_iffs intro: kept)
  qed
qed

lemma plan_loop_disjoint:
  assumes "plan_loop cx kept processed occ as = Inr out"
    and "\<And>a. a \<in> set as \<Longrightarrow> kept_slots kept a \<subseteq> taken occ"
    and "sorted_wrt (\<lambda>a b. kept_slots kept a \<inter> kept_slots kept b = {}) as"
  shows "disjoint_allocations (map fst out)
    \<and> (\<forall>b \<in> set (map fst out). slots_of b \<inter> taken occ = {} \<or> (\<exists>a \<in> set as. slots_of b = kept_slots kept a))"
  using assms
proof (induction as arbitrary: processed occ out)
  case Nil
  then show ?case by (simp add: disjoint_allocations_def)
next
  case (Cons a as)
  from Cons.prems(3) have sorted: "sorted_wrt (\<lambda>a b. kept_slots kept a \<inter> kept_slots kept b = {}) as"
    and apart: "\<And>b. b \<in> set as \<Longrightarrow> kept_slots kept a \<inter> kept_slots kept b = {}" by simp_all
  have step: ?case
    if out: "out = (b, r) # rest" and rest: "plan_loop cx kept processed' occ' as = Inr rest"
      and occ': "taken occ' = taken occ \<union> slots_of b"
      and b: "slots_of b \<inter> taken occ = {} \<or> slots_of b = kept_slots kept a" for b r rest processed' occ'
  proof -
    have "kept_slots kept x \<subseteq> taken occ'" if "x \<in> set as" for x
      using Cons.prems(2) [of x] that occ' by auto
    from Cons.IH [OF rest this sorted] have IH: "disjoint_allocations (map fst rest)"
      "\<And>x. x \<in> set (map fst rest) \<Longrightarrow> slots_of x \<inter> taken occ' = {} \<or> (\<exists>y \<in> set as. slots_of x = kept_slots kept y)"
      by auto
    have "slots_of b \<inter> slots_of x = {}" if x: "x \<in> set (map fst rest)" for x
    proof (cases "slots_of x \<inter> taken occ' = {}")
      case True
      then show ?thesis using occ' by auto
    next
      case False
      with IH(2) [OF x] obtain y where y: "y \<in> set as" "slots_of x = kept_slots kept y" by auto
      with b apart [of y] Cons.prems(2) [of y] show ?thesis by auto
    qed
    moreover have "slots_of x \<inter> taken occ = {} \<or> (\<exists>y \<in> set (a # as). slots_of x = kept_slots kept y)"
      if "x \<in> set (map fst rest)" for x
      using IH(2) [OF that] occ' by auto
    ultimately show ?thesis
      using IH(1) b out by (auto simp: disjoint_allocations_def alloc_disjoint_slots)
  qed
  from Cons.prems(1) show ?case
  proof (cases rule: plan_loop_Cons)
    case (gone rest)
    then show ?thesis by (intro step) auto
  next
    case (kept c al r rest)
    moreover have "kept_slots kept a = slots al" using kept(2) by (simp add: kept_slots_def)
    ultimately show ?thesis using Cons.prems(2) [of a] by (intro step) auto
  next
    case (new c al r rest)
    have "slots_of (a\<lparr>as_allocation := al\<rparr>) \<inter> taken occ = {}"
      using new(3) decide_sound(2) by (cases al) auto
    with new(4,5) taken_reserve_option [of occ al a] show ?thesis by (intro step) auto
  qed
qed

lemma plan_loop_fits:
  assumes "plan_loop cx kept processed occ as = Inr out" "b \<in> set (map fst out)" "as_allocation b = Some al"
    and "\<And>a al r c. a \<in> set as \<Longrightarrow> map_of kept (as_id a) = Some (al, r) \<Longrightarrow> itemLookup (cx_items cx) (as_itemId a) = Some c
           \<Longrightarrow> alloc_fits (cx_caps cx) c al"
  shows "\<exists>c. itemLookup (cx_items cx) (as_itemId b) = Some c \<and> alloc_fits (cx_caps cx) c al"
  using assms
proof (induction as arbitrary: processed occ out)
  case (Cons a as)
  have IH: "plan_loop cx kept pr oc as = Inr rest \<Longrightarrow> b \<in> set (map fst rest) \<Longrightarrow>
      \<exists>c. itemLookup (cx_items cx) (as_itemId b) = Some c \<and> alloc_fits (cx_caps cx) c al" for pr oc rest
    by (rule Cons.IH [OF _ _ Cons.prems(3)]) (auto intro: Cons.prems(4))
  from Cons.prems(1) show ?case
  proof (cases rule: plan_loop_Cons)
    case (gone rest)
    then show ?thesis using IH [OF gone(2)] Cons.prems(2,3) by auto
  next
    case (kept c al' r rest)
    then show ?thesis using IH [OF kept(3)] Cons.prems(2,3) Cons.prems(4) [of a al' r c] by auto
  next
    case (new c al' r rest)
    then show ?thesis using IH [OF new(4)] Cons.prems(2,3) decide_sound(1) [of cx c processed occ r al] by auto
  qed
qed simp

lemma kept_ok_slots:
  assumes "kept_ok cx as occ kept" "distinct (map as_id as)"
  shows "a \<in> set as \<Longrightarrow> kept_slots kept a \<subseteq> taken occ"
    and "sorted_wrt (\<lambda>a b. kept_slots kept a \<inter> kept_slots kept b = {}) as"
    and "a \<in> set as \<Longrightarrow> map_of kept (as_id a) = Some (al, r) \<Longrightarrow> itemLookup (cx_items cx) (as_itemId a) = Some c
      \<Longrightarrow> alloc_fits (cx_caps cx) c al"
proof -
  show "kept_slots kept a \<subseteq> taken occ" if "a \<in> set as" for a
    using assms(1) unfolding kept_ok_def kept_slots_def by (auto split: option.split)
  have apart: "kept_slots kept a \<inter> kept_slots kept b = {}" if "as_id a \<noteq> as_id b" for a b
  proof -
    have "\<forall>m n al r al' r'. map_of kept m = Some (al, r) \<longrightarrow> map_of kept n = Some (al', r') \<longrightarrow> m \<noteq> n
        \<longrightarrow> slots al \<inter> slots al' = {}" using assms(1) unfolding kept_ok_def by blast
    with that show ?thesis unfolding kept_slots_def by (simp split: option.split prod.split)
  qed
  show "sorted_wrt (\<lambda>a b. kept_slots kept a \<inter> kept_slots kept b = {}) as"
    using assms(2) unfolding sorted_wrt_iff_nth_less by (intro allI impI apart) (auto simp: distinct_conv_nth)
  assume a: "a \<in> set as" and "map_of kept (as_id a) = Some (al, r)"
    and c: "itemLookup (cx_items cx) (as_itemId a) = Some c"
  with assms(1) obtain b c' where b: "b \<in> set as" "as_id b = as_id a"
    "itemLookup (cx_items cx) (as_itemId b) = Some c'" "alloc_fits (cx_caps cx) c' al"
    unfolding kept_ok_def by blast
  with a assms(2) have "b = a" by (metis distinct_map inj_onD)
  with b c show "alloc_fits (cx_caps cx) c al" by simp
qed

lemma first_group_sound:
  "first_group occ t w gs = Some (g, ps) \<Longrightarrow> positionsAreFree occ t g ps"
  by (induction gs) (auto split: option.splits dest: firstConsecutive_fits(3))

lemma select_positions_sound:
  assumes "select_positions occ rs = Some (g, ps)"
  shows "positionsAreFree occ (rs_type rs) g ps"
proof (cases "rs_groups rs")
  case None
  with assms have *: "firstConsecutivePositions occ (rs_type rs) None (rs_count rs) (rs_width rs) = Some ps" "g = None"
    by (auto simp: select_positions_def)
  from firstConsecutive_sound [OF *(1)] *(2) show ?thesis by auto
next
  case (Some gs)
  with assms show ?thesis by (auto simp: select_positions_def intro: first_group_sound)
qed

lemma decide_pc_sound:
  assumes "decide_pc cx board c pr occ = Inr ((r, Some al), seen)"
  shows "slots al \<inter> taken occ = {}"
proof -
  from assms obtain rs where rs: "pcBuildResourceDefinition c board (cx_caps cx) = Some rs"
    by (cases "pcBuildResourceDefinition c board (cx_caps cx)") (auto simp: decide_pc_def Inr_iffs)
  with assms obtain g ps where sel: "select_positions occ rs = Some (g, ps)"
    by (cases "select_positions occ rs") (auto simp: decide_pc_def Inr_iffs split: if_splits)
  with assms rs have "al = \<lparr>al_resourceType = rs_type rs, al_groupId = g, al_positions = ps\<rparr>"
    by (auto simp: decide_pc_def Inr_iffs split: if_splits)
  with select_positions_sound [OF sel]
  have "positionsAreFree occ (al_resourceType al) (al_groupId al) (al_positions al)" by simp
  then show ?thesis unfolding positions.free_iff .
qed

lemma plan_pc_loop_disjoint:
  assumes "plan_pc_loop cx board processed occ as = Inr out"
  shows "disjoint_allocations (map fst out) \<and> (\<forall>b \<in> set (map fst out). slots_of b \<inter> taken occ = {})"
  using assms
proof (induction as arbitrary: processed occ out)
  case Nil
  then show ?case by (simp add: disjoint_allocations_def)
next
  case (Cons a as)
  from Cons.prems obtain al r pr rest where out: "out = (a\<lparr>as_allocation := al\<rparr>, r) # rest"
    and rest: "plan_pc_loop cx board pr (reserve_option occ al) as = Inr rest"
    and free: "slots_of (a\<lparr>as_allocation := al\<rparr>) \<inter> taken occ = {}"
  proof (cases "itemLookup (cx_items cx) (as_itemId a)")
    case None
    with Cons.prems that [of None] show ?thesis by (auto simp: Inr_iffs reserve_option_def)
  next
    case (Some c)
    with Cons.prems obtain al res seen rest where d: "decide_pc cx board c processed occ = Inr ((res, al), seen)"
      and "out = (a\<lparr>as_allocation := al\<rparr>, planResult a res al) # rest"
      "plan_pc_loop cx board (if seen then processed @ [a\<lparr>as_allocation := al\<rparr>] else processed)
        (reserve_option occ al) as = Inr rest"
      by (auto simp: Inr_iffs)
    moreover have "slots_of (a\<lparr>as_allocation := al\<rparr>) \<inter> taken occ = {}"
      using d decide_pc_sound by (cases al) auto
    ultimately show ?thesis using that by blast
  qed
  from Cons.IH [OF rest] taken_reserve_option [of occ al a] out free show ?case
    by (auto simp: disjoint_allocations_def alloc_disjoint_slots)
qed

text \<open>The parts of a successful plan.\<close>

lemma planHost_cases:
  assumes "planHostAllocations p h = Inr plan"
  obtains (none) "plan = plan_of []" "\<And>i. itemLookup (pr_items p) h = Some i \<Longrightarrow> \<not> isHostType (it_type i)"
  | (pc) host out cx board where "it_type host = TPcBuild" "itemLookup (pr_items p) h = Some host"
      "plan = plan_of out" "plan_pc_loop cx board [] [] (sort_key compareAssignments (host_assignments p h)) = Inr out"
  | (host) host occ kept out as where "itemLookup (pr_items p) h = Some host" "isHostType (it_type host)"
      "it_type host \<noteq> TPcBuild" "as = sort_key (compareHostAllocationAssignments (pr_items p)) (host_assignments p h)"
      "preserve_loop (context_for p h host) [] [] [] as = Inr (occ, kept)"
      "plan_loop (context_for p h host) kept [] occ as = Inr out" "plan = plan_of out"
proof -
  consider "itemLookup (pr_items p) h = None \<or> (\<exists>i. itemLookup (pr_items p) h = Some i \<and> \<not> isHostType (it_type i))"
    | i where "itemLookup (pr_items p) h = Some i" "isHostType (it_type i)"
    by (cases "itemLookup (pr_items p) h") auto
  then show ?thesis
  proof cases
    case 1
    with assms show ?thesis by (auto simp: planHostAllocations_def intro: none)
  next
    case (2 i)
    show ?thesis
    proof (cases "it_type i = TPcBuild")
      case True
      with 2 assms pc show ?thesis
        by (auto simp: planHostAllocations_def planPcBuildAllocations_def map_sum_Inr_iff)
    next
      case False
      with 2 assms host show ?thesis
        by (auto simp: planHostAllocations_def Inr_iffs)
    qed
  qed
qed

lemma plan_of_sel [simp]: "hpl_assignments (plan_of out) = map fst out" "hpl_results (plan_of out) = map snd out"
  by (simp_all add: plan_of_def)

lemma plan_loop_results:
  "plan_loop cx kept processed occ as = Inr out \<Longrightarrow> (b, r) \<in> set out \<Longrightarrow>
     pcr_assignmentId r = IdNum (as_id b) \<and> pcr_hostId r = as_serverId b \<and> pcr_itemId r = as_itemId b
     \<and> cr_allocation r = as_allocation b"
proof (induction as arbitrary: processed occ out)
  case (Cons a as)
  from Cons.prems(1) show ?case
    by (cases rule: plan_loop_Cons) (use Cons.IH Cons.prems(2) in \<open>auto simp: planResult_def\<close>)
qed simp

lemma plan_pc_loop_results:
  "plan_pc_loop cx board processed occ as = Inr out \<Longrightarrow> (b, r) \<in> set out \<Longrightarrow>
     pcr_assignmentId r = IdNum (as_id b) \<and> pcr_hostId r = as_serverId b \<and> pcr_itemId r = as_itemId b
     \<and> cr_allocation r = as_allocation b"
  by (induction as arbitrary: processed occ out) (auto simp: Inr_iffs planResult_def split: option.splits)

lemma map_core_sort: "mset (map core (sort_key k as)) = mset (map core as)"
  by simp

text \<open>The planned assignments are those of the host, with new allocations.\<close>

lemma plan_cores:
  assumes "planHostAllocations p h = Inr plan"
  shows "set (map core (hpl_assignments plan)) \<subseteq> set (map core (host_assignments p h))"
  using assms
proof (cases rule: planHost_cases)
  case (pc host out cx board)
  from plan_pc_loop_core [OF pc(4)] show ?thesis
    unfolding pc(3) plan_of_sel map_map by (metis eq_refl set_map set_sort)
next
  case (host host occ kept out as)
  from plan_loop_core [OF host(6)] show ?thesis
    unfolding host(4,7) plan_of_sel map_map by (metis eq_refl set_map set_sort)
qed simp

lemma plan_host_mset:
  assumes "planHostAllocations p h = Inr plan" "itemLookup (pr_items p) h = Some i" "isHostType (it_type i)"
  shows "mset (map core (hpl_assignments plan)) = mset (map core (host_assignments p h))"
  using assms(1)
proof (cases rule: planHost_cases)
  case none
  with assms(2,3) show ?thesis by simp
next
  case (pc host out cx board)
  with plan_pc_loop_core [OF pc(4)] show ?thesis by (metis map_map map_core_sort plan_of_sel(1))
next
  case (host host occ kept out as)
  with plan_loop_core [OF host(6)] show ?thesis by (metis map_map map_core_sort plan_of_sel(1))
qed

lemma plan_disjoint_allocations:
  assumes "planHostAllocations p h = Inr plan" "distinct (map as_id (pr_assignments p))"
  shows "disjoint_allocations (hpl_assignments plan)"
  using assms(1)
proof (cases rule: planHost_cases)
  case none
  then show ?thesis by (simp add: disjoint_allocations_def)
next
  case (pc host out cx board)
  with plan_pc_loop_disjoint [OF pc(4)] show ?thesis by simp
next
  case (host i occ kept out as)
  have d: "distinct (map as_id as)"
    using assms(2) unfolding host(4) host_assignments_def by (simp add: distinct_map inj_on_def)
  have "kept_ok (context_for p h i) as occ kept"
    using preserve_loop_ok [OF host(5)] d by (simp add: kept_ok_def)
  note kept = kept_ok_slots [OF this d]
  from plan_loop_disjoint [OF host(6) kept(1,2)] host(7) show ?thesis by simp
qed

text \<open>C10: Functional: the plan of a host covers every assignment of the host exactly once and changes nothing but
  allocations, and its results correspond one to one to its assignments, each with the id, the host, the item
  and the allocation of its assignment.\<close>

theorem plan_covers_host:
  assumes "planHostAllocations p h = Inr plan" "itemLookup (pr_items p) h = Some i" "isHostType (it_type i)"
  shows "mset (map core (hpl_assignments plan)) = mset (map core (host_assignments p h))
    \<and> list_all2 (\<lambda>a r. pcr_assignmentId r = IdNum (as_id a) \<and> pcr_hostId r = as_serverId a
         \<and> pcr_itemId r = as_itemId a \<and> cr_allocation r = as_allocation a) (hpl_assignments plan) (hpl_results plan)"
proof -
  have zip: "list_all2 P (map fst out) (map snd out)" if "\<And>b r. (b, r) \<in> set out \<Longrightarrow> P b r" for P out
    using that by (simp add: list_all2_map1 list_all2_map2 list_all2_same case_prod_beta)
  from assms(1) show ?thesis
  proof (cases rule: planHost_cases)
    case none
    with assms(2,3) show ?thesis by simp
  next
    case (pc host out cx board)
    with zip [of out] plan_pc_loop_results [OF pc(4)] plan_host_mset [OF assms] show ?thesis by simp
  next
    case (host host occ kept out as)
    with zip [of out] plan_loop_results [OF host(6)] plan_host_mset [OF assms] show ?thesis by simp
  qed
qed

lemma plan_project_planned:
  obtains plan where "planHostAllocations plan_project ''server:1'' = Inr plan"
    "map (\<lambda>a. map_option al_positions (as_allocation a)) (hpl_assignments plan) = [Some [1], Some [0], None]"
proof -
  let ?e = "planHostAllocations plan_project ''server:1''"
  have "map_sum id (\<lambda>pl. map (\<lambda>a. map_option al_positions (as_allocation a)) (hpl_assignments pl)) ?e
      = Inr [Some [1], Some [0], None]" by code_simp
  then show ?thesis using that by (cases ?e) auto
qed

lemma plan_project_facts:
  "itemLookup (pr_items plan_project) ''server:1'' = Some ram_host" "isHostType (it_type ram_host)"
  "it_type ram_host \<noteq> TPcBuild" "distinct (map as_id (pr_assignments plan_project))"
  by code_simp+

theorem plan_covers_host_witness:
  "\<exists>plan. planHostAllocations plan_project ''server:1'' = Inr plan
     \<and> mset (map core (hpl_assignments plan)) = mset (map core (host_assignments plan_project ''server:1''))"
proof -
  obtain plan where plan: "planHostAllocations plan_project ''server:1'' = Inr plan" by (rule plan_project_planned)
  from plan_covers_host [OF plan plan_project_facts(1,2)] plan show ?thesis by blast
qed

text \<open>C8: Safety: a plan never gives a position twice.  Whatever allocations are stored, two assignments of the
  plan of a host (server, NAS or PC build) have no common position in the same resource group.\<close>

theorem plan_no_overbooking:
  assumes "planHostAllocations p h = Inr plan" "distinct (map as_id (pr_assignments p))"
  shows "disjoint_allocations (hpl_assignments plan)"
  using assms by (rule plan_disjoint_allocations)

theorem plan_no_overbooking_witness:
  "\<exists>plan. planHostAllocations plan_project ''server:1'' = Inr plan \<and> disjoint_allocations (hpl_assignments plan)
     \<and> map (\<lambda>a. map_option al_positions (as_allocation a)) (hpl_assignments plan) = [Some [1], Some [0], None]"
proof -
  obtain plan where plan: "planHostAllocations plan_project ''server:1'' = Inr plan"
    "map (\<lambda>a. map_option al_positions (as_allocation a)) (hpl_assignments plan) = [Some [1], Some [0], None]"
    by (rule plan_project_planned)
  show ?thesis
    by (rule exI [of _ plan], intro conjI plan plan_no_overbooking [OF plan(1) plan_project_facts(4)])
qed

text \<open>C9: Bounds: every allocation in the plan of a server or a NAS is one the host can give to that component: the
  resource type of the component, as many consecutive positions as the component needs, and within the
  sockets or slots of the host, or within the count of one of its valid slot groups.\<close>

theorem plan_within_capacity:
  assumes "planHostAllocations p h = Inr plan" "distinct (map as_id (pr_assignments p))"
    and "itemLookup (pr_items p) h = Some i" "it_type i \<noteq> TPcBuild"
    and "a \<in> set (hpl_assignments plan)" "as_allocation a = Some al"
  shows "\<exists>c. itemLookup (pr_items p) (as_itemId a) = Some c \<and> alloc_fits (normalizeHostCapabilities (Some i)) c al"
  using assms(1)
proof (cases rule: planHost_cases)
  case none
  with assms(5) show ?thesis by simp
next
  case (pc host out cx board)
  with assms(3,4) show ?thesis by simp
next
  case (host i' occ kept out as)
  with assms(3) have i: "i' = i" by simp
  have d: "distinct (map as_id as)"
    using assms(2) unfolding host(4) host_assignments_def by (simp add: distinct_map inj_on_def)
  have "kept_ok (context_for p h i') as occ kept"
    using preserve_loop_ok [OF host(5)] d by (simp add: kept_ok_def)
  note kept = kept_ok_slots(3) [OF this d]
  from plan_loop_fits [OF host(6) _ assms(6) kept] assms(5) host(7) i show ?thesis
    by (auto simp: context_for_def)
qed

theorem plan_within_capacity_witness:
  "\<exists>(a :: assignment) c al. itemLookup (pr_items plan_project) (as_itemId a) = Some c \<and> al_positions al = [1]
     \<and> alloc_fits (normalizeHostCapabilities (Some ram_host)) c al"
proof -
  obtain plan where plan: "planHostAllocations plan_project ''server:1'' = Inr plan"
    "map (\<lambda>a. map_option al_positions (as_allocation a)) (hpl_assignments plan) = [Some [1], Some [0], None]"
    by (rule plan_project_planned)
  then obtain a al where "a \<in> set (hpl_assignments plan)" "as_allocation a = Some al" "al_positions al = [1]"
    by (cases "hpl_assignments plan") auto
  with plan_within_capacity [OF plan(1) plan_project_facts(4,1,3), of a al] show ?thesis by blast
qed

end
