(* ===== verification/Assignment_Effects.thy ===== *)
theory Assignment_Effects
  imports Assignment_Invariants Planner_Invariants
begin

text \<open>
  The transitions of \<open>src/lib/constraints.ts\<close> on the modelled compatibility engine.
  \<open>compat_engine\<close> passes \<open>planHostAllocations\<close> and \<open>normalizeComponentRequirements\<close> of
  \<open>shared/compatibility/index.mjs\<close>, which \<open>constraints.ts\<close> and \<open>pc-build.ts\<close> import, to the
  definitions of \<open>Constraints\<close>.  The properties of assigning, moving and removing components are
  those of the locale \<open>planning_engine\<close> for this engine.
\<close>

section \<open>The engine\<close>

definition compat_engine :: engine where
  "compat_engine = \<lparr>en_plan = planHostAllocations, en_normReqs = normalizeComponentRequirements\<rparr>"

subsection \<open>Samples\<close>

text \<open>A PC build with a two-slot motherboard, one of whose slots is taken, and a server with two memory
  slots and three modules.\<close>

definition memory_board :: inventory_item where
  "memory_board = (blank_item TMotherboard 1)
     \<lparr>it_compatibility := Some \<lparr>compat_host = Some (blank_host
          \<lparr>host_memory := Some \<lparr>hm_generations = None, hm_formFactors = None, hm_slots = Some 2,
             hm_maxCapacityGb = None, hm_maxModuleCapacityGb = None, hm_oemMaxCapacityMib = None,
             hm_oemMaxModuleCapacityMib = None, hm_verifiedMaxCapacityMib = None,
             hm_verifiedMaxModuleCapacityMib = None, hm_maxSpeedMt = None, hm_eccSupport = None,
             hm_slotsPerCpu = None, hm_moduleTypes = None\<rparr>\<rparr>),
        compat_requirements = None\<rparr>\<rparr>"

definition sample_build :: project where
  "sample_build = sample_project
     \<lparr>pr_items := [(''pcBuild:1'', blank_item TPcBuild 1), (''server:1'', blank_item TServer 1),
        (''motherboard:1'', memory_board), (''ram:1'', blank_item TRam 1), (''ram:2'', blank_item TRam 2)],
      pr_assignments :=
        [allocated ResMotherboard None [0]
           (sample_assignment 1 ''pcBuild:1'' ''motherboard:1'' TMotherboard),
         allocated ResMemory None [0] (sample_assignment 2 ''pcBuild:1'' ''ram:1'' TRam)],
      pr_connections := []\<rparr>"

definition full_server :: project where
  "full_server = sample_project
     \<lparr>pr_items := [(''server:1'', ram_host), (''ram:1'', ram_module False),
        (''ram:2'', (ram_module False)\<lparr>it_id := IdNum 2\<rparr>), (''ram:3'', (ram_module False)\<lparr>it_id := IdNum 3\<rparr>),
        (''network:1'', sample_network)],
      pr_assignments :=
        [sample_assignment 1 ''server:1'' ''ram:1'' TRam, sample_assignment 2 ''server:1'' ''ram:2'' TRam,
         sample_assignment 3 ''server:1'' ''ram:3'' TRam]\<rparr>"

section \<open>The contract of the engine\<close>

lemma compat_engine_sel [simp]:
  "en_plan compat_engine = planHostAllocations" "en_normReqs compat_engine = normalizeComponentRequirements"
  by (simp_all add: compat_engine_def)

lemma kind_at_lookup: "kind_at p h = Some k \<Longrightarrow> \<exists>i. itemLookup (pr_items p) h = Some i \<and> it_type i = k"
  by (auto simp: kind_at_def item_at_def itemLookup_def)

interpretation compat: planning_engine compat_engine
proof
  fix p h pl k
  assume plan: "en_plan compat_engine p h = Inr pl"
  then show "core ` set (hpl_assignments pl) \<subseteq> core ` {a \<in> set (pr_assignments p). as_serverId a = h}"
    using plan_cores [of p h pl] by (simp add: host_assignments_def)
  show "disjoint_allocations (hpl_assignments pl)" if "unique_assignment_ids p"
    using plan that plan_disjoint_allocations by (simp add: unique_assignment_ids_def)
  assume "kind_at p h = Some k" "isHostType k"
  then show "mset (map core (hpl_assignments pl)) = mset (map core (filter (\<lambda>a. as_serverId a = h) (pr_assignments p)))"
    using plan plan_host_mset [of p h pl] kind_at_lookup [of p h k] by (auto simp: host_assignments_def)
qed

section \<open>Reachable projects\<close>

text \<open>C1: In every project that the application reaches from an empty one by assigning, moving,
  swapping and removing components, returning equipment, placing and editing items: assignment ids
  are unique, no item is assigned twice, every assignment refers to an existing host of a host type
  and to an existing item whose type it carries, and every PC build that holds a component holds a
  motherboard.\<close>

theorem reachable_projects_consistent:
  assumes "(project_step compat_engine)\<^sup>*\<^sup>* (createEmptyProject now items) p"
  shows "distinct (map as_id (pr_assignments p)) \<and> distinct (map as_itemId (pr_assignments p))
     \<and> (\<forall>a \<in> set (pr_assignments p).
          (\<exists>item. item_at p (as_itemId a) = Some item \<and> it_type item = as_type a)
          \<and> (\<exists>host. item_at p (as_serverId a) = Some host \<and> isHostType (it_type host)
               \<and> (it_type host = TPcBuild \<longrightarrow> (\<exists>b \<in> set (pr_assignments p).
                     as_serverId b = as_serverId a \<and> as_type b = TMotherboard))))"
  using compat.reachable_inv [OF assms]
  by (fastforce simp: assignment_inv_def unique_assignment_ids_def types_agree_def kind_at_def
      boarded_def host_is_pc_build_def)

theorem reachable_projects_consistent_witness:
  "\<exists>t. tryAssignComponent compat_engine ''t1''
         (createEmptyProject ''t0'' [blank_item TServer 1, blank_item TCpu 1]) ''server:1'' ''cpu:1'' None
       = Inr t \<and> distinct (map as_itemId (pr_assignments (pt_project t)))"
proof -
  let ?p = "createEmptyProject ''t0'' [blank_item TServer 1, blank_item TCpu 1]"
  have "\<not> isl (tryAssignComponent compat_engine ''t1'' ?p ''server:1'' ''cpu:1'' None)" by code_simp
  then obtain t where t: "tryAssignComponent compat_engine ''t1'' ?p ''server:1'' ''cpu:1'' None = Inr t"
    by (rule not_isl_obtain)
  then have "(project_step compat_engine)\<^sup>*\<^sup>* ?p (pt_project t)" by (blast intro: assign)
  from reachable_projects_consistent [OF this] t show ?thesis by blast
qed

section \<open>Assigning\<close>

text \<open>C2: A successful assignment, in a project whose assignments have distinct ids, appends exactly one
  assignment, of the item to the host, under an id that no assignment has; the item was not assigned before, neither
  it nor the host is archived, it is of a type that the host's type accepts, and the host has room for it by its
  own limits.  Items, placements and connections do not change, and the other assignments change at most in
  their positions, those of PC builds not at all.\<close>

theorem assign_effect:
  assumes "distinct (map as_id (pr_assignments p))"
    and "tryAssignComponent compat_engine now p s i pos = Inr t"
  shows "\<exists>a host item. map core (pr_assignments (pt_project t)) = map core (pr_assignments p) @ [core a]
     \<and> as_id a \<notin> set (map as_id (pr_assignments p)) \<and> as_serverId a = s \<and> as_itemId a = i
     \<and> item_at p i = Some item \<and> as_type a = it_type item
     \<and> isAssignableComponentType (it_type item) \<and> \<not> isArchivedItem (Some item)
     \<and> item_at p s = Some host \<and> isHostType (it_type host) \<and> \<not> isArchivedItem (Some host)
     \<and> (it_type host = TServer \<longrightarrow> it_type item \<in> SERVER_COMPONENT_TYPES)
     \<and> (it_type host = TNas \<longrightarrow> it_type item \<in> NAS_COMPONENT_TYPES)
     \<and> (it_type host = TPcBuild \<longrightarrow> it_type item \<in> PC_BUILD_COMPONENT_TYPES)
     \<and> capacity_error p s host item = None
     \<and> i \<notin> set (map as_itemId (pr_assignments p))
     \<and> pr_items (pt_project t) = pr_items p \<and> pr_placements (pt_project t) = pr_placements p
     \<and> pr_connections (pt_project t) = pr_connections p
     \<and> (\<forall>b \<in> set (pr_assignments p). host_is_pc_build p (as_serverId b)
           \<longrightarrow> b \<in> set (pr_assignments (pt_project t)))"
  using assms by (rule compat.assign_replans)

lemma sample_assign:
  obtains t where "tryAssignComponent compat_engine ''t1'' sample_project ''server:1'' ''ram:1'' None = Inr t"
proof -
  have "\<not> isl (tryAssignComponent compat_engine ''t1'' sample_project ''server:1'' ''ram:1'' None)" by code_simp
  then show thesis by (rule not_isl_obtain) (rule that)
qed

theorem assign_effect_witness:
  "\<exists>t. tryAssignComponent compat_engine ''t1'' sample_project ''server:1'' ''ram:1'' None = Inr t
     \<and> pr_connections (pt_project t) = pr_connections sample_project"
proof -
  obtain t where t: "tryAssignComponent compat_engine ''t1'' sample_project ''server:1'' ''ram:1'' None = Inr t"
    by (rule sample_assign)
  have "distinct (map as_id (pr_assignments sample_project))" by code_simp
  from assign_effect [OF this t] t show ?thesis by blast
qed

text \<open>C6: A successful assignment to a server or a NAS introduces no compatibility error.  It has evaluated the host
  before the change and again with the candidate, and every error of the second evaluation that is enforced, because
  the host enforces its compatibility or the code is one of the two that are always enforced, has the fingerprint of an
  error of the first that was enforced as well.  PC builds are not evaluated here: the transition reports no finding of
  theirs, and the allocation of the component checks it instead.\<close>

theorem assign_introduces_no_error:
  assumes "tryAssignComponent compat_engine now p s i pos = Inr t"
  shows "(host_is_pc_build p s \<longrightarrow> pt_compatibility t = [])
     \<and> (\<not> host_is_pc_build p s \<longrightarrow> (\<exists>item a before after. item_at p i = Some item
          \<and> core a = newAssignment now p s i item None
          \<and> planHostAllocations p s = Inr before \<and> planHostAllocations (add_assignment a p) s = Inr after
          \<and> pt_compatibility t = hpl_results after
          \<and> (\<forall>r \<in> set (hpl_results after). \<forall>f \<in> set (cr_findings r).
               fd_severity f = SevError \<and> shouldEnforceCompatibilityFinding p r f \<longrightarrow>
               (\<exists>r' \<in> set (hpl_results before). \<exists>f' \<in> set (cr_findings r').
                  fd_severity f' = SevError \<and> shouldEnforceCompatibilityFinding p r' f'
                  \<and> compatibilityFingerprint r' f' = compatibilityFingerprint r f))))"
  using assms
proof (cases rule: tryAssign_shape)
  case (1 item a t')
  have kinds: "kind_at (add_assignment a p) = kind_at p" by (simp add: add_assignment_def)
  have enf: "shouldEnforceCompatibilityFinding (add_assignment a p) = shouldEnforceCompatibilityFinding p"
    by (simp add: fun_eq_iff shouldEnforceCompatibilityFinding_def isHostCompatibilityEnabled_def
        add_assignment_def split: option.split)
  show ?thesis
  proof (cases "host_is_pc_build p s")
    case True
    then show ?thesis using evaluate_one_host(1) [OF 1(4) kinds] 1(6) by simp
  next
    case False
    obtain after where after: "planHostAllocations (add_assignment a p) s = Inr after"
      "pt_compatibility t' = hpl_results after"
      using evaluate_one_host(2) [OF 1(4) kinds False] by auto
    obtain before where before: "planHostAllocations p s = Inr before"
      using evaluate_baseline [OF 1(4) kinds False] by auto
    have "\<exists>r' \<in> set (hpl_results before). \<exists>f' \<in> set (cr_findings r').
        fd_severity f' = SevError \<and> shouldEnforceCompatibilityFinding p r' f'
        \<and> compatibilityFingerprint r' f' = compatibilityFingerprint r f"
      if "r \<in> set (hpl_results after)" "f \<in> set (cr_findings r)" "fd_severity f = SevError"
        "shouldEnforceCompatibilityFinding p r f" for r f
      using evaluate_findings [OF 1(4), of r f] that after(2) before by (fastforce simp: enf)
    then show ?thesis using False 1(2,3,6) after before
      by (intro conjI impI exI [of _ item] exI [of _ a] exI [of _ before] exI [of _ after]) simp_all
  qed
qed

theorem assign_introduces_no_error_witness:
  "\<exists>t before r f. tryAssignComponent compat_engine ''t1'' full_server ''server:1'' ''network:1'' None = Inr t
     \<and> planHostAllocations full_server ''server:1'' = Inr before
     \<and> r \<in> set (pt_compatibility t) \<and> f \<in> set (cr_findings r) \<and> fd_code f = ''memory.slots.exceeded''
     \<and> (\<exists>r' \<in> set (hpl_results before). \<exists>f' \<in> set (cr_findings r').
          compatibilityFingerprint r' f' = compatibilityFingerprint r f)"
proof -
  let ?t = "tryAssignComponent compat_engine ''t1'' full_server ''server:1'' ''network:1'' None"
  have "\<not> isl ?t \<and> list_ex (\<lambda>r. list_ex (\<lambda>f. fd_severity f = SevError \<and> fd_code f = ''memory.slots.exceeded'')
      (cr_findings r)) (pt_compatibility (projr ?t))" by code_simp
  then obtain t r f where t: "?t = Inr t" "r \<in> set (pt_compatibility t)" "f \<in> set (cr_findings r)"
    "fd_severity f = SevError" "fd_code f = ''memory.slots.exceeded''"
    by (cases ?t) (auto simp: list_ex_iff)
  have "\<not> host_is_pc_build full_server ''server:1''" by code_simp
  note main = mp [OF conjunct2 [OF assign_introduces_no_error [OF t(1)]] this]
  obtain before where ev: "planHostAllocations full_server ''server:1'' = Inr before"
    "\<forall>r \<in> set (pt_compatibility t). \<forall>f \<in> set (cr_findings r).
       fd_severity f = SevError \<and> shouldEnforceCompatibilityFinding full_server r f \<longrightarrow>
       (\<exists>r' \<in> set (hpl_results before). \<exists>f' \<in> set (cr_findings r').
          fd_severity f' = SevError \<and> shouldEnforceCompatibilityFinding full_server r' f'
          \<and> compatibilityFingerprint r' f' = compatibilityFingerprint r f)"
    using main by (elim exE conjE) metis
  moreover have "shouldEnforceCompatibilityFinding full_server r f"
    using t(5) by (simp add: shouldEnforceCompatibilityFinding_def ALWAYS_ENFORCED_COMPATIBILITY_CODES_def)
  ultimately have "\<exists>r' \<in> set (hpl_results before). \<exists>f' \<in> set (cr_findings r').
      compatibilityFingerprint r' f' = compatibilityFingerprint r f" using t(2-4) by metis
  with ev(1) t show ?thesis
    by (intro exI [of _ t] exI [of _ before] exI [of _ r] exI [of _ f]) simp
qed

text \<open>C5: A successful assignment to a server or a NAS leaves no two components of the host in the same
  position, whatever positions were stored, also when a memory slot is named; and every assignment that names no
  memory slot keeps the positions of the components of each host disjoint, PC builds included.\<close>

theorem assign_keeps_positions_disjoint:
  assumes "distinct (map as_id (pr_assignments p))" "tryAssignComponent compat_engine now p s i pos = Inr t"
  shows "(\<not> host_is_pc_build p s \<longrightarrow> positions_disjoint (pt_project t) s)
     \<and> (pos = None \<longrightarrow> (\<forall>h. positions_disjoint p h \<longrightarrow> positions_disjoint (pt_project t) h))"
  using compat.assign_positions [OF assms] by blast

theorem assign_keeps_positions_disjoint_witness:
  "\<exists>t u. tryAssignComponent compat_engine ''t1'' sample_build ''pcBuild:1'' ''ram:2'' None = Inr t
     \<and> positions_disjoint (pt_project t) ''pcBuild:1''
     \<and> tryAssignComponent compat_engine ''t1'' sample_project ''server:1'' ''ram:1'' None = Inr u
     \<and> positions_disjoint (pt_project u) ''server:1''"
proof -
  have "\<not> isl (tryAssignComponent compat_engine ''t1'' sample_build ''pcBuild:1'' ''ram:2'' None)" by code_simp
  then obtain t where
    t: "tryAssignComponent compat_engine ''t1'' sample_build ''pcBuild:1'' ''ram:2'' None = Inr t"
    by (rule not_isl_obtain)
  obtain u where u: "tryAssignComponent compat_engine ''t1'' sample_project ''server:1'' ''ram:1'' None = Inr u"
    by (rule sample_assign)
  have d: "distinct (map as_id (pr_assignments sample_build))" "positions_disjoint sample_build ''pcBuild:1''"
    "distinct (map as_id (pr_assignments sample_project))" "\<not> host_is_pc_build sample_project ''server:1''"
    by code_simp+
  from assign_keeps_positions_disjoint [OF d(1) t] assign_keeps_positions_disjoint [OF d(3) u] d t u
  show ?thesis by blast
qed

text \<open>In a PC build, naming a memory slot bypasses the check: assigning a module to a slot that
  another module occupies succeeds and leaves two modules in the same position.\<close>

theorem assign_to_taken_memory_slot:
  "positions_disjoint sample_build ''pcBuild:1''
   \<and> (case tryAssignComponent compat_engine ''t1'' sample_build ''pcBuild:1'' ''ram:2'' (Some 0) of
        Inl _ \<Rightarrow> False
      | Inr t \<Rightarrow> \<not> positions_disjoint (pt_project t) ''pcBuild:1'')"
  by code_simp

section \<open>Moving\<close>

text \<open>C3: A successful move, in a project whose assignments have distinct ids, leaves the ids, items and types of all assignments in place and order and
  changes neither items nor placements nor connections; the moved assignment is on the target host, the
  assignment that \<open>move_target\<close> finds there, if any, which has the same type, changes places with it, and
  every other assignment stays on its host.  A move of a component to the host it is on gives back the project
  unchanged, unless it is a memory module and a slot is named.\<close>

theorem move_effect:
  assumes "distinct (map as_id (pr_assignments p))"
    and "moveAssignedComponent compat_engine now p aid tgt tpos = Inr t"
  shows "\<exists>source swapped. findAssignmentById (pr_assignments p) aid = Some source
     \<and> swapped = (if as_serverId source = tgt \<and> (as_type source \<noteq> TRam \<or> safe_position tpos = None) then None
                  else move_target p source tgt (safe_position tpos))
     \<and> map as_id (pr_assignments (pt_project t)) = map as_id (pr_assignments p)
     \<and> map as_itemId (pr_assignments (pt_project t)) = map as_itemId (pr_assignments p)
     \<and> map as_type (pr_assignments (pt_project t)) = map as_type (pr_assignments p)
     \<and> map as_serverId (pr_assignments (pt_project t))
         = map (\<lambda>a. if as_id a = as_id source then tgt
                    else if map_option as_id swapped = Some (as_id a) then as_serverId source
                    else as_serverId a) (pr_assignments p)
     \<and> (\<forall>b. swapped = Some b \<longrightarrow> b \<in> set (pr_assignments p) \<and> as_serverId b = tgt
            \<and> as_type b = as_type source)
     \<and> pr_items (pt_project t) = pr_items p \<and> pr_placements (pt_project t) = pr_placements p
     \<and> pr_connections (pt_project t) = pr_connections p
     \<and> (as_serverId source = tgt \<and> (as_type source \<noteq> TRam \<or> safe_position tpos = None) \<longrightarrow> pt_project t = p)"
  using assms by (rule compat.move_replans)

theorem move_effect_witness:
  "\<exists>t. moveAssignedComponent compat_engine ''t1'' sample_project (IdNum 2) ''server:2'' None = Inr t
     \<and> map as_itemId (pr_assignments (pt_project t)) = [''network:1'', ''cpu:1'']"
proof -
  have "\<not> isl (moveAssignedComponent compat_engine ''t1'' sample_project (IdNum 2) ''server:2'' None)"
    by code_simp
  then obtain t where
    t: "moveAssignedComponent compat_engine ''t1'' sample_project (IdNum 2) ''server:2'' None = Inr t"
    by (rule not_isl_obtain)
  have "distinct (map as_id (pr_assignments sample_project))"
    "map as_itemId (pr_assignments sample_project) = [''network:1'', ''cpu:1'']" by code_simp+
  with move_effect [OF _ t] t show ?thesis by auto
qed

text \<open>C4: Moving a component from one host to another leaves no two components of either host in the
  same position, whatever positions were stored, on servers, NAS and PC builds alike, and keeps the
  positions of every other host disjoint.\<close>

theorem move_makes_positions_disjoint:
  assumes "distinct (map as_id (pr_assignments p))"
    and "moveAssignedComponent compat_engine now p aid tgt tpos = Inr t"
    and "findAssignmentById (pr_assignments p) aid = Some source" "as_serverId source \<noteq> tgt"
  shows "positions_disjoint (pt_project t) (as_serverId source) \<and> positions_disjoint (pt_project t) tgt
     \<and> (\<forall>h. positions_disjoint p h \<longrightarrow> positions_disjoint (pt_project t) h)"
  using compat.move_positions [OF assms] by blast

theorem move_makes_positions_disjoint_witness:
  "\<exists>t. moveAssignedComponent compat_engine ''t1'' sample_build (IdNum 2) ''server:1'' None = Inr t
     \<and> positions_disjoint (pt_project t) ''pcBuild:1''"
proof -
  have "\<not> isl (moveAssignedComponent compat_engine ''t1'' sample_build (IdNum 2) ''server:1'' None)"
    by code_simp
  then obtain t where
    t: "moveAssignedComponent compat_engine ''t1'' sample_build (IdNum 2) ''server:1'' None = Inr t"
    by (rule not_isl_obtain)
  have "distinct (map as_id (pr_assignments sample_build))"
    "findAssignmentById (pr_assignments sample_build) (IdNum 2)
       = Some (allocated ResMemory None [0] (sample_assignment 2 ''pcBuild:1'' ''ram:1'' TRam))"
    by code_simp+
  with move_makes_positions_disjoint [OF _ t] t show ?thesis
    by (fastforce simp: allocated_def sample_assignment_def)
qed

end
