(* ===== verification/Engine_Patches.thy ===== *)
theory Engine_Patches
  imports Project_State
begin

text \<open>
  The boundary between the interface and the domain engine: references of the engine protocol and
  their translation (\<open>src/engine/topology.ts\<close>), the application of an engine patch to the project
  (\<open>src/engine/project-patches.ts\<close>), assignment and placement changes
  (\<open>src/engine/assignments.ts\<close>, \<open>src/engine/placements.ts\<close>).  The request itself goes through
  \<open>client.mutate\<close>; the model returns the operation that is sent, \<open>None\<close> when nothing is.
  The casts of protocol strings to the types of the project are unchecked in the code; the protocol
  records carry the types directly.
\<close>

section \<open>Definitions\<close>

subsection \<open>Results\<close>

definition and_then :: "'e + 'a \<Rightarrow> ('a \<Rightarrow> 'e + 'b) \<Rightarrow> 'e + 'b" where
  "and_then r f = (case r of Inl e \<Rightarrow> Inl e | Inr v \<Rightarrow> f v)"

fun traverse :: "('a \<Rightarrow> 'e + 'b) \<Rightarrow> 'a list \<Rightarrow> 'e + 'b list" where
  "traverse f [] = Inr []"
| "traverse f (x # xs) = and_then (f x) (\<lambda>y. and_then (traverse f xs) (\<lambda>ys. Inr (y # ys)))"

subsection \<open>References\<close>

record item_ref =
  ir_item_type :: string
  ir_id :: int

record endpoint_ref =
  er_item :: item_ref
  er_port_id :: js_id
  er_endpoint_id :: "int option"
  er_hosted_item :: "item_ref option"

definition toTopologyItemRef :: "project \<Rightarrow> string \<Rightarrow> string + item_ref" where
  "toTopologyItemRef p runtimeKey =
     (case (parseItemKey runtimeKey, item_at p runtimeKey) of
        (Some (t, n), Some item) \<Rightarrow>
          if t \<noteq> it_type item \<or> IdNum n \<noteq> it_id item
          then Inl (''Topology endpoint references invalid inventory item '' @ runtimeKey @ ''.'')
          else Inr \<lparr>ir_item_type = type_name t, ir_id = n\<rparr>
      | _ \<Rightarrow> Inl (''Topology endpoint references invalid inventory item '' @ runtimeKey @ ''.''))"

definition fromTopologyItemRef :: "item_ref \<Rightarrow> string + string" where
  "fromTopologyItemRef r =
     (let key = ir_item_type r @ '':'' @ show_int (ir_id r) in
      if parseItemKey key = None
      then Inl (''Topology engine returned invalid inventory item '' @ key @ ''.'') else Inr key)"

definition toTopologyEndpointRef :: "project \<Rightarrow> conn_endpoint \<Rightarrow> string + endpoint_ref" where
  "toTopologyEndpointRef p e =
     and_then (toTopologyItemRef p (ep_itemId e)) (\<lambda>item.
     and_then (if truthy_str (ep_hostedItemId e)
               then and_then (toTopologyItemRef p (nullish (ep_hostedItemId e) [])) (\<lambda>h. Inr (Some h))
               else Inr None) (\<lambda>hosted.
     Inr \<lparr>er_item = item, er_port_id = ep_portId e, er_endpoint_id = ep_endpointId e,
          er_hosted_item = hosted\<rparr>))"

definition fromTopologyEndpointRef :: "endpoint_ref \<Rightarrow> string + conn_endpoint" where
  "fromTopologyEndpointRef r =
     and_then (fromTopologyItemRef (er_item r)) (\<lambda>item.
     and_then (case er_hosted_item r of
                 None \<Rightarrow> Inr None
               | Some h \<Rightarrow> and_then (fromTopologyItemRef h) (\<lambda>k. Inr (Some k))) (\<lambda>hosted.
     Inr \<lparr>ep_itemId = item, ep_portId = er_port_id r, ep_endpointId = er_endpoint_id r,
          ep_hostedItemId = hosted\<rparr>))"

subsection \<open>Patches\<close>

record topology_route =
  tr_source_side :: "route_side option"
  tr_target_side :: "route_side option"
  tr_bend_points :: "bend_point list"
  tr_avoid_cable_overlap :: bool

record topology_connection =
  tc_id :: int
  tc_from :: endpoint_ref
  tc_to :: endpoint_ref
  tc_connection_type :: connection_type
  tc_negotiated_speed_bps :: "int option"
  tc_label :: "string option"
  tc_route :: "topology_route option"
  tc_created_at :: string

record derived_state =
  ds_connection_id :: int
  ds_connection_type :: connection_type
  ds_negotiated_speed_bps :: "int option"

record canvas_placement =
  cp_item :: item_ref
  cp_x :: rat
  cp_y :: rat

record engine_assignment =
  ea_id :: int
  ea_host :: item_ref
  ea_item :: item_ref
  ea_component_type :: inventory_type
  ea_assigned_at :: string
  ea_allocation :: "allocation option"

datatype project_patch =
    SetProjectName string
  | AddConnection topology_connection
  | RemoveConnection topology_connection
  | SetConnectionLabel int "string option"
  | SetConnectionRoute int "topology_route option"
  | SetConnectionDerived "derived_state list"
  | PatchPlacements "canvas_placement list" "item_ref list"
  | PatchAssignments "engine_assignment list" "int list"
  | BatchPatch "project_patch list"

definition runtimeAssignment :: "engine_assignment \<Rightarrow> string + assignment" where
  "runtimeAssignment a =
     and_then (fromTopologyItemRef (ea_host a)) (\<lambda>host.
     and_then (fromTopologyItemRef (ea_item a)) (\<lambda>item.
     Inr \<lparr>as_id = ea_id a, as_serverId = host, as_itemId = item, as_type = ea_component_type a,
          as_assignedAt = ea_assigned_at a, as_allocation = ea_allocation a\<rparr>))"

definition runtimeRoute :: "topology_route option \<Rightarrow> route_prefs option" where
  "runtimeRoute route =
     (case route of
        None \<Rightarrow> None
      | Some r \<Rightarrow>
          let result = \<lparr>rp_sourceSide = tr_source_side r, rp_targetSide = tr_target_side r,
                        rp_bendPoints = non_empty (tr_bend_points r),
                        rp_avoidCableOverlap = (if tr_avoid_cable_overlap r then Some True else None)\<rparr>
          in if result = \<lparr>rp_sourceSide = None, rp_targetSide = None, rp_bendPoints = None,
                          rp_avoidCableOverlap = None\<rparr>
             then None else Some result)"

definition runtimeConnection :: "topology_connection \<Rightarrow> string + connection" where
  "runtimeConnection c =
     and_then (fromTopologyEndpointRef (tc_from c)) (\<lambda>from.
     and_then (fromTopologyEndpointRef (tc_to c)) (\<lambda>to.
     Inr \<lparr>c_id = tc_id c, c_from = from, c_to = to, c_type = tc_connection_type c,
          c_negotiatedSpeedBps = tc_negotiated_speed_bps c, c_label = tc_label c,
          c_route = runtimeRoute (tc_route c), c_createdAt = tc_created_at c\<rparr>))"

text \<open>The loop over the current records of a patch: removed ones are dropped, the first record with
  the key of an upsert is replaced by it and the upsert is used up; the upserts left over are
  returned.\<close>

fun patch_walk :: "('a \<Rightarrow> 'k) \<Rightarrow> 'k list \<Rightarrow> ('k \<times> 'u) list \<Rightarrow> 'a list
    \<Rightarrow> ('u + 'a) list \<times> ('k \<times> 'u) list" where
  "patch_walk key removed upsert [] = ([], upsert)"
| "patch_walk key removed upsert (x # xs) =
     (if key x \<in> set removed then patch_walk key removed upsert xs
      else case map_of upsert (key x) of
        Some u \<Rightarrow> (case patch_walk key removed (AList.delete (key x) upsert) xs of
                     (ys, rest) \<Rightarrow> (Inl u # ys, rest))
      | None \<Rightarrow> (case patch_walk key removed upsert xs of (ys, rest) \<Rightarrow> (Inr x # ys, rest)))"

definition placed :: "string \<Rightarrow> canvas_placement \<Rightarrow> placement" where
  "placed k c = \<lparr>pl_serverId = k, pl_x = cp_x c, pl_y = cp_y c\<rparr>"

text \<open>The replacements carry their key, which is the one of the record they replace.\<close>

definition patch_placements ::
  "(string \<times> canvas_placement) list \<Rightarrow> string list \<Rightarrow> placement list \<Rightarrow> placement list" where
  "patch_placements upsert removed pls =
     (case patch_walk pl_serverId removed (map (\<lambda>(k, c). (k, placed k c)) (map_from upsert)) pls of
        (ys, rest) \<Rightarrow> map (\<lambda>y. case y of Inl u \<Rightarrow> u | Inr x \<Rightarrow> x) ys @ map snd rest)"

definition patch_assignments ::
  "engine_assignment list \<Rightarrow> int list \<Rightarrow> assignment list \<Rightarrow> string + assignment list" where
  "patch_assignments upsert removed as =
     (case patch_walk as_id removed (map_from (map (\<lambda>a. (ea_id a, a)) upsert)) as of
        (ys, rest) \<Rightarrow>
          and_then (traverse (\<lambda>y. case y of Inl u \<Rightarrow> runtimeAssignment u | Inr x \<Rightarrow> Inr x) ys) (\<lambda>zs.
          and_then (traverse (\<lambda>(k, u). runtimeAssignment u) rest) (\<lambda>ws.
          Inr (sort_key as_id (zs @ ws)))))"

fun applyProjectPatch :: "project \<Rightarrow> project_patch \<Rightarrow> int \<Rightarrow> string + project"
  and apply_patches :: "project \<Rightarrow> project_patch list \<Rightarrow> int \<Rightarrow> string + project" where
  "apply_patches p [] rv = Inr p"
| "apply_patches p (q # qs) rv =
     (case applyProjectPatch p q rv of Inl e \<Rightarrow> Inl e | Inr p' \<Rightarrow> apply_patches p' qs rv)"
| "applyProjectPatch p (BatchPatch qs) rv = apply_patches p qs rv"
| "applyProjectPatch p (SetProjectName name) rv =
     Inr (p\<lparr>pr_revision := Some rv, pr_metadata := (pr_metadata p)\<lparr>md_name := name\<rparr>\<rparr>)"
| "applyProjectPatch p (AddConnection c) rv =
     and_then (runtimeConnection c) (\<lambda>c'.
       Inr (p\<lparr>pr_revision := Some rv, pr_connections := pr_connections p @ [c']\<rparr>))"
| "applyProjectPatch p (RemoveConnection c) rv =
     Inr (p\<lparr>pr_revision := Some rv,
            pr_connections := filter (\<lambda>d. c_id d \<noteq> tc_id c) (pr_connections p)\<rparr>)"
| "applyProjectPatch p (SetConnectionLabel n label) rv =
     Inr (p\<lparr>pr_revision := Some rv,
            pr_connections := map (\<lambda>d. if c_id d \<noteq> n then d else d\<lparr>c_label := label\<rparr>) (pr_connections p)\<rparr>)"
| "applyProjectPatch p (SetConnectionRoute n route) rv =
     Inr (p\<lparr>pr_revision := Some rv,
            pr_connections := map (\<lambda>d. if c_id d \<noteq> n then d else d\<lparr>c_route := runtimeRoute route\<rparr>)
              (pr_connections p)\<rparr>)"
| "applyProjectPatch p (SetConnectionDerived states) rv =
     (let m = map_from (map (\<lambda>s. (ds_connection_id s, s)) states) in
      Inr (p\<lparr>pr_revision := Some rv,
             pr_connections := map (\<lambda>d. case map_of m (c_id d) of
                 None \<Rightarrow> d
               | Some s \<Rightarrow> d\<lparr>c_type := ds_connection_type s,
                             c_negotiatedSpeedBps := ds_negotiated_speed_bps s\<rparr>) (pr_connections p)\<rparr>))"
| "applyProjectPatch p (PatchPlacements upsert removed) rv =
     and_then (traverse (\<lambda>c. and_then (fromTopologyItemRef (cp_item c)) (\<lambda>k. Inr (k, c))) upsert) (\<lambda>us.
     and_then (traverse fromTopologyItemRef removed) (\<lambda>rs.
       Inr (p\<lparr>pr_revision := Some rv, pr_placements := patch_placements us rs (pr_placements p)\<rparr>)))"
| "applyProjectPatch p (PatchAssignments upsert removed) rv =
     and_then (patch_assignments upsert removed (pr_assignments p)) (\<lambda>as.
       Inr (p\<lparr>pr_revision := Some rv, pr_assignments := as\<rparr>))"

text \<open>The result of an engine request; only patches matter here.\<close>

datatype engine_result = ResPatch int project_patch project_patch | ResOther string

definition applyEngineResponsePatch :: "project \<Rightarrow> engine_result \<Rightarrow> string + project" where
  "applyEngineResponsePatch p response =
     (case response of
        ResOther _ \<Rightarrow> Inr p
      | ResPatch revision forward backward \<Rightarrow> applyProjectPatch p forward revision)"

subsection \<open>Assignment changes\<close>

definition engineAssignment :: "project \<Rightarrow> assignment \<Rightarrow> string + engine_assignment" where
  "engineAssignment p a =
     and_then (toTopologyItemRef p (as_serverId a)) (\<lambda>host.
     and_then (toTopologyItemRef p (as_itemId a)) (\<lambda>item.
     Inr \<lparr>ea_id = as_id a, ea_host = host, ea_item = item, ea_component_type = as_type a,
          ea_assigned_at = as_assignedAt a, ea_allocation = as_allocation a\<rparr>))"

definition allocationsEqual :: "allocation option \<Rightarrow> allocation option \<Rightarrow> bool" where
  "allocationsEqual left right =
     (case (left, right) of
        (Some l, Some r) \<Rightarrow>
          al_resourceType l = al_resourceType r \<and> al_groupId l = al_groupId r
          \<and> length (al_positions l) = length (al_positions r)
          \<and> list_all (\<lambda>(i, n). n = al_positions r ! i) (enumerate 0 (al_positions l))
      | _ \<Rightarrow> left = None \<and> right = None)"

definition assignment_map :: "assignment list \<Rightarrow> (int \<times> assignment) list" where
  "assignment_map as = map_from (map (\<lambda>a. (as_id a, a)) as)"

definition assignmentsEqual :: "assignment list \<Rightarrow> assignment list \<Rightarrow> bool" where
  "assignmentsEqual left right =
     (length left = length right
      \<and> list_all (\<lambda>a. case map_of (assignment_map right) (as_id a) of
            None \<Rightarrow> False
          | Some c \<Rightarrow> as_serverId a = as_serverId c \<and> as_itemId a = as_itemId c \<and> as_type a = as_type c
                      \<and> as_assignedAt a = as_assignedAt c
                      \<and> allocationsEqual (as_allocation a) (as_allocation c)) left)"

definition changed_ids :: "project \<Rightarrow> project \<Rightarrow> int list" where
  "changed_ids previousProject nextProject =
     sort (js_uniq (map fst (assignment_map (pr_assignments previousProject))
                    @ map fst (assignment_map (pr_assignments nextProject))))"

record 'a change =
  ch_previous :: "'a option"
  ch_next :: "'a option"

definition opt_result :: "('a \<Rightarrow> 'e + 'b) \<Rightarrow> 'a option \<Rightarrow> 'e + 'b option" where
  "opt_result f v = (case v of None \<Rightarrow> Inr None | Some x \<Rightarrow> and_then (f x) (\<lambda>y. Inr (Some y)))"

definition assignmentChanges ::
  "project \<Rightarrow> project \<Rightarrow> string + engine_assignment change list" where
  "assignmentChanges previousProject nextProject =
     (let previous = assignment_map (pr_assignments previousProject);
          nextM = assignment_map (pr_assignments nextProject);
          changed = filter (\<lambda>i. case (map_of previous i, map_of nextM i) of
              (Some a, Some b) \<Rightarrow> \<not> assignmentsEqual [a] [b] | _ \<Rightarrow> True)
            (changed_ids previousProject nextProject)
      in traverse (\<lambda>i.
           and_then (opt_result (engineAssignment previousProject) (map_of previous i)) (\<lambda>before.
           and_then (opt_result (engineAssignment nextProject) (map_of nextM i)) (\<lambda>after.
           Inr \<lparr>ch_previous = before, ch_next = after\<rparr>))) changed)"

text \<open>The loop over the ids: \<open>canonical\<close> is the map that is updated.\<close>

fun transition_loop ::
  "(int \<times> assignment) list \<Rightarrow> (int \<times> assignment) list \<Rightarrow> (int \<times> assignment) list \<Rightarrow> int list
     \<Rightarrow> string + (int \<times> assignment) list" where
  "transition_loop previous nextM canonical [] = Inr canonical"
| "transition_loop previous nextM canonical (i # is) =
     (let before = map_of previous i;
          after = map_of nextM i;
          current = map_of canonical i;
          unchanged = (case (before, after) of (Some a, Some b) \<Rightarrow> assignmentsEqual [a] [b] | _ \<Rightarrow> False);
          currentMatchesBefore =
            (case before of
               Some b \<Rightarrow> (case current of Some c \<Rightarrow> assignmentsEqual [c] [b] | None \<Rightarrow> False)
             | None \<Rightarrow> current = None)
      in if unchanged then transition_loop previous nextM canonical is
         else if \<not> currentMatchesBefore
         then Inl (''Assignment '' @ show_int i @ '' changed before this action could be saved.'')
         else transition_loop previous nextM
                (case after of Some a \<Rightarrow> AList.update i a canonical | None \<Rightarrow> AList.delete i canonical) is)"

definition applyAssignmentTransition :: "project \<Rightarrow> project \<Rightarrow> project \<Rightarrow> string + project" where
  "applyAssignmentTransition canonicalProject previousProject nextProject =
     and_then (transition_loop
        (assignment_map (pr_assignments previousProject))
        (assignment_map (pr_assignments nextProject))
        (assignment_map (pr_assignments canonicalProject))
        (changed_ids previousProject nextProject)) (\<lambda>canonical.
     Inr (canonicalProject
       \<lparr>pr_metadata := (pr_metadata canonicalProject)
           \<lparr>md_updatedAt := md_updatedAt (pr_metadata nextProject)\<rparr>,
        pr_assignments := sort_key as_id (map snd canonical)\<rparr>))"

definition updateProjectAssignments ::
  "project \<Rightarrow> project \<Rightarrow> string + engine_assignment change list option" where
  "updateProjectAssignments previousProject nextProject =
     and_then (assignmentChanges previousProject nextProject) (\<lambda>changes. Inr (non_empty changes))"

definition acknowledgeOptimisticAssignments ::
  "project \<Rightarrow> project \<Rightarrow> engine_result \<Rightarrow> string + project" where
  "acknowledgeOptimisticAssignments canonicalProject optimisticProject response =
     and_then (applyEngineResponsePatch canonicalProject response) (\<lambda>committed.
       if \<not> assignmentsEqual (pr_assignments committed) (pr_assignments optimisticProject)
       then Inl ''Committed assignments did not match the optimistic workspace change.''
       else Inr (optimisticProject\<lparr>pr_revision := pr_revision committed\<rparr>))"

subsection \<open>Placement changes\<close>

definition enginePlacement :: "project \<Rightarrow> placement \<Rightarrow> string + canvas_placement" where
  "enginePlacement p pl =
     and_then (toTopologyItemRef p (pl_serverId pl)) (\<lambda>item.
       Inr \<lparr>cp_item = item, cp_x = pl_x pl, cp_y = pl_y pl\<rparr>)"

definition placement_map :: "placement list \<Rightarrow> (string \<times> placement) list" where
  "placement_map pls = map_from (map (\<lambda>pl. (pl_serverId pl, pl)) pls)"

definition placement_point :: "placement option \<Rightarrow> (rat \<times> rat) option" where
  "placement_point v = map_option (\<lambda>pl. (pl_x pl, pl_y pl)) v"

definition updateProjectPlacements ::
  "project \<Rightarrow> placement list \<Rightarrow> string + canvas_placement change list option" where
  "updateProjectPlacements p pls =
     (let current = placement_map (pr_placements p);
          changed = filter (\<lambda>pl. placement_point (map_of current (pl_serverId pl))
                                   \<noteq> placement_point (Some pl)) pls
      in and_then (traverse (\<lambda>pl.
           and_then (opt_result (enginePlacement p) (map_of current (pl_serverId pl))) (\<lambda>previous.
           and_then (enginePlacement p pl) (\<lambda>next.
           Inr \<lparr>ch_previous = previous, ch_next = Some next\<rparr>))) changed) (\<lambda>changes.
         Inr (non_empty changes)))"

definition replaceProjectPlacements ::
  "project \<Rightarrow> project \<Rightarrow> string + canvas_placement change list option" where
  "replaceProjectPlacements currentProject targetProject =
     (let current = placement_map (pr_placements currentProject);
          target = placement_map (pr_placements targetProject);
          itemIds = sort (js_uniq (map fst current @ map fst target));
          changed = filter (\<lambda>k. placement_point (map_of current k) \<noteq> placement_point (map_of target k)) itemIds
      in and_then (traverse (\<lambda>k.
           and_then (opt_result (enginePlacement currentProject) (map_of current k)) (\<lambda>previous.
           and_then (opt_result (enginePlacement targetProject) (map_of target k)) (\<lambda>next.
           Inr \<lparr>ch_previous = previous, ch_next = next\<rparr>))) changed) (\<lambda>changes.
         Inr (non_empty changes)))"

text \<open>The specification's view of a list of assignments: a lookup by id.\<close>

definition assignment_of :: "assignment list \<Rightarrow> int \<Rightarrow> assignment option" where
  "assignment_of as i = map_of (map (\<lambda>a. (as_id a, a)) as) i"

text \<open>One write of the transition.\<close>

definition write_assignment ::
  "(int \<times> assignment) list \<Rightarrow> int \<Rightarrow> (int \<times> assignment) list \<Rightarrow> (int \<times> assignment) list" where
  "write_assignment nextM i canonical =
     (case map_of nextM i of Some a \<Rightarrow> AList.update i a canonical | None \<Rightarrow> AList.delete i canonical)"

text \<open>The sample project after a processor moved to the second server.\<close>

definition sample_next :: project where
  "sample_next = sample_project\<lparr>pr_assignments :=
     [sample_assignment 1 ''server:1'' ''network:1'' TNetwork,
      sample_assignment 2 ''server:2'' ''cpu:1'' TCpu]\<rparr>"

section \<open>Lemmas\<close>

lemma and_then_Inr [simp]: "and_then r f = Inr v \<longleftrightarrow> (\<exists>x. r = Inr x \<and> f x = Inr v)"
  by (auto simp: and_then_def split: sum.splits)

lemma and_then_simps [simp]: "and_then (Inr x) f = f x" "and_then (Inl e) f = Inl e"
  by (simp_all add: and_then_def)

subsection \<open>Lookups by id\<close>

lemma list_eq_enumerate:
  "length xs = length ys \<and> list_all (\<lambda>(i, n). n = ys ! i) (enumerate 0 xs) \<longleftrightarrow> xs = ys"
  by (auto simp: list_all_iff in_set_enumerate_eq list_eq_iff_nth_eq)

lemma allocationsEqual_iff [simp]: "allocationsEqual l r \<longleftrightarrow> l = r"
proof (cases "l \<noteq> None \<and> r \<noteq> None")
  case True
  then obtain a b where [simp]: "l = Some a" "r = Some b" by auto
  have "a = b \<longleftrightarrow> al_resourceType a = al_resourceType b \<and> al_groupId a = al_groupId b
        \<and> al_positions a = al_positions b"
      by (auto intro: allocation.equality)
  then show ?thesis
    using list_eq_enumerate [of "al_positions a" "al_positions b"] by (auto simp: allocationsEqual_def)
qed (auto simp: allocationsEqual_def split: option.splits)

lemma assignmentsEqual_single [simp]: "assignmentsEqual [a] [b] \<longleftrightarrow> a = b"
  by (cases a; cases b) (auto simp: assignmentsEqual_def assignment_map_def map_from_def)

lemma assignment_of_Some:
  "distinct (map as_id as) \<Longrightarrow> assignment_of as i = Some a \<longleftrightarrow> a \<in> set as \<and> as_id a = i"
  by (auto simp: assignment_of_def comp_def map_of_eq_Some_iff)

lemma map_of_assignment_map:
  "distinct (map as_id as) \<Longrightarrow> map_of (assignment_map as) = assignment_of as"
  by (rule ext) (simp add: assignment_map_def assignment_of_def map_of_map_from map_of_rev_distinct comp_def)

lemma assignment_map_keys: "fst ` set (assignment_map as) = as_id ` set as"
proof -
  have "fst ` set (assignment_map as) = dom (map_of (assignment_map as))"
    by (rule dom_map_of_conv_image_fst [symmetric])
  also have "\<dots> = dom (map_of (rev (map (\<lambda>a. (as_id a, a)) as)))"
    by (rule arg_cong [of _ _ dom], rule ext) (simp only: assignment_map_def map_of_map_from)
  also have "\<dots> = as_id ` set as" by (simp add: dom_map_of_conv_image_fst image_image)
  finally show ?thesis .
qed

lemma assignment_map_consistent: "(i, a) \<in> set (assignment_map as) \<Longrightarrow> as_id a = i"
proof -
  assume "(i, a) \<in> set (assignment_map as)"
  then have "map_of (assignment_map as) i = Some a" by (simp add: assignment_map_def)
  then show ?thesis by (auto simp: assignment_map_def map_of_map_from dest: map_of_SomeD)
qed


lemma assignmentsEqual_sets:
  assumes "distinct (map as_id left)" "distinct (map as_id right)"
  shows "assignmentsEqual left right \<longleftrightarrow> set left = set right"
proof -
  have "(case assignment_of right (as_id a) of None \<Rightarrow> False
      | Some c \<Rightarrow> as_serverId a = as_serverId c \<and> as_itemId a = as_itemId c \<and> as_type a = as_type c
          \<and> as_assignedAt a = as_assignedAt c \<and> allocationsEqual (as_allocation a) (as_allocation c))
      \<longleftrightarrow> a \<in> set right" for a
  proof (cases "assignment_of right (as_id a)")
    case None
    then show ?thesis using assignment_of_Some [OF assms(2), of "as_id a" a] by simp
  next
    case (Some c)
    then have c: "c \<in> set right" "as_id c = as_id a" using assignment_of_Some [OF assms(2)] by auto
    have "a = c" if "a \<in> set right" using assms(2) that c by (auto simp: distinct_map dest: inj_onD)
    moreover have "as_serverId a = as_serverId c \<and> as_itemId a = as_itemId c \<and> as_type a = as_type c
        \<and> as_assignedAt a = as_assignedAt c \<and> as_allocation a = as_allocation c \<longleftrightarrow> a = c"
      using c(2) by (auto intro: assignment.equality)
    ultimately show ?thesis using Some c by auto
  qed
  then have "assignmentsEqual left right \<longleftrightarrow> length left = length right \<and> set left \<subseteq> set right"
    by (auto simp: assignmentsEqual_def map_of_assignment_map [OF assms(2)] list_all_iff)
  moreover have "length left = card (set left)" "length right = card (set right)"
    using assms by (simp_all add: distinct_card [symmetric] distinct_map)
  ultimately show ?thesis by (auto dest: card_subset_eq [rotated])
qed

subsection \<open>The transition of assignments\<close>

text \<open>An id of the loop is unchanged when both versions agree, and it may be written when the
  canonical version is the one the action started from.\<close>

lemma map_of_write: "map_of (write_assignment nextM i canonical) = (map_of canonical)(i := map_of nextM i)"
  by (auto simp: write_assignment_def update_conv' delete_conv' split: option.split)

lemma transition_step:
  assumes "map_of previous i \<noteq> None \<or> map_of nextM i \<noteq> None"
  shows "transition_loop previous nextM canonical (i # ids) =
    (if map_of previous i = map_of nextM i then transition_loop previous nextM canonical ids
     else if map_of canonical i \<noteq> map_of previous i
     then Inl (''Assignment '' @ show_int i @ '' changed before this action could be saved.'')
     else transition_loop previous nextM (write_assignment nextM i canonical) ids)"
  using assms
  by (cases "map_of previous i"; cases "map_of nextM i"; cases "map_of canonical i")
    (simp_all add: write_assignment_def)

lemma transition_loop_fails:
  assumes "distinct ids" "\<forall>i \<in> set ids. map_of previous i \<noteq> None \<or> map_of nextM i \<noteq> None"
  shows "isl (transition_loop previous nextM canonical ids) \<longleftrightarrow>
    (\<exists>i \<in> set ids. map_of previous i \<noteq> map_of nextM i \<and> map_of canonical i \<noteq> map_of previous i)"
  using assms
proof (induction ids arbitrary: canonical)
  case (Cons i ids)
  have "(\<exists>j \<in> set ids. map_of previous j \<noteq> map_of nextM j
          \<and> map_of (write_assignment nextM i canonical) j \<noteq> map_of previous j)
      \<longleftrightarrow> (\<exists>j \<in> set ids. map_of previous j \<noteq> map_of nextM j \<and> map_of canonical j \<noteq> map_of previous j)"
    using Cons.prems(1) by (intro bex_cong) (auto simp: map_of_write)
  then show ?case
    using Cons.prems Cons.IH [of canonical] Cons.IH [of "write_assignment nextM i canonical"]
    by (simp add: transition_step del: transition_loop.simps)
qed simp

lemma transition_loop_result:
  assumes "distinct ids" "\<forall>i \<in> set ids. map_of previous i \<noteq> None \<or> map_of nextM i \<noteq> None"
    and "transition_loop previous nextM canonical ids = Inr m"
  shows "map_of m = (\<lambda>i. if i \<in> set ids \<and> map_of previous i \<noteq> map_of nextM i then map_of nextM i
                        else map_of canonical i)"
    and "distinct (map fst canonical) \<Longrightarrow> distinct (map fst m)"
  using assms
proof (induction ids arbitrary: canonical)
  case (Cons i ids)
  {
    case 1
    then show ?case
      using Cons.IH(1) [of canonical] Cons.IH(1) [of "write_assignment nextM i canonical"]
      by (auto simp: transition_step map_of_write fun_eq_iff simp del: transition_loop.simps split: if_splits)
  next
    case 2
    have "distinct (map fst (write_assignment nextM i canonical))"
      using 2(1) by (auto simp: write_assignment_def distinct_update distinct_delete split: option.split)
    then show ?case
      using 2 Cons.IH(2) [of canonical] Cons.IH(2) [of "write_assignment nextM i canonical"]
      by (auto simp: transition_step simp del: transition_loop.simps split: if_splits)
  }
qed simp_all

lemma map_snd_consistent:
  assumes "\<And>i a. (i, a) \<in> set m \<Longrightarrow> as_id a = i"
  shows "map (\<lambda>a. (as_id a, a)) (map snd m) = m" "map as_id (map snd m) = map fst m"
proof -
  have *: "as_id (snd x) = fst x" if "x \<in> set m" for x
    using assms [of "fst x" "snd x"] that by simp
  show "map (\<lambda>a. (as_id a, a)) (map snd m) = m"
    using * by (simp add: map_idI comp_def)
  show "map as_id (map snd m) = map fst m" using * by simp
qed

lemma option_eqI: "(\<And>a. x = Some a \<longleftrightarrow> y = Some a) \<Longrightarrow> x = y"
  by (cases x; cases y) auto

lemma distinct_sort_ids: "distinct (map f (sort_key g xs)) = distinct (map f xs)"
  by (simp add: distinct_map)

lemma assignment_of_sort:
  assumes "distinct (map as_id as)"
  shows "assignment_of (sort_key f as) = assignment_of as"
proof
  fix i
  have "distinct (map as_id (sort_key f as))" using assms by (simp add: distinct_map)
  then show "assignment_of (sort_key f as) i = assignment_of as i"
    using assignment_of_Some [OF assms] assignment_of_Some [of "sort_key f as"]
    by (intro option_eqI) simp
qed

lemma changed_ids:
  "set (changed_ids p n) = as_id ` set (pr_assignments p) \<union> as_id ` set (pr_assignments n)"
  "distinct (changed_ids p n)"
  by (simp_all add: changed_ids_def assignment_map_keys)

lemma assignment_of_None: "assignment_of as i = None \<longleftrightarrow> i \<notin> as_id ` set as"
  by (auto simp: assignment_of_def map_of_eq_None_iff image_image)

lemma changed_ids_known:
  assumes "distinct (map as_id (pr_assignments p))" "distinct (map as_id (pr_assignments n))"
  shows "\<forall>i \<in> set (changed_ids p n). map_of (assignment_map (pr_assignments p)) i \<noteq> None
      \<or> map_of (assignment_map (pr_assignments n)) i \<noteq> None"
  using assms by (auto simp: changed_ids map_of_assignment_map assignment_of_None)

lemma changed_in_ids:
  "assignment_of (pr_assignments p) i \<noteq> assignment_of (pr_assignments n) i \<Longrightarrow> i \<in> set (changed_ids p n)"
  using assignment_of_None [of "pr_assignments p" i] assignment_of_None [of "pr_assignments n" i]
  by (auto simp: changed_ids)

text \<open>C40: \<open>applyAssignmentTransition\<close> is refused exactly when an assignment that the action changes is
  no longer, in the canonical project, the one the action started from: no concurrent change is
  overwritten, and unrelated changes never cause a conflict.\<close>

theorem transition_conflict_iff:
  assumes "distinct (map as_id (pr_assignments c))" "distinct (map as_id (pr_assignments p))"
    and "distinct (map as_id (pr_assignments n))"
  shows "isl (applyAssignmentTransition c p n) \<longleftrightarrow>
    (\<exists>i. assignment_of (pr_assignments p) i \<noteq> assignment_of (pr_assignments n) i
       \<and> assignment_of (pr_assignments c) i \<noteq> assignment_of (pr_assignments p) i)"
proof -
  have "isl (applyAssignmentTransition c p n) \<longleftrightarrow> isl (transition_loop
        (assignment_map (pr_assignments p)) (assignment_map (pr_assignments n))
        (assignment_map (pr_assignments c)) (changed_ids p n))"
    by (auto simp: applyAssignmentTransition_def and_then_def split: sum.split)
  also have "\<dots> \<longleftrightarrow> (\<exists>i \<in> set (changed_ids p n).
       assignment_of (pr_assignments p) i \<noteq> assignment_of (pr_assignments n) i
       \<and> assignment_of (pr_assignments c) i \<noteq> assignment_of (pr_assignments p) i)"
    using transition_loop_fails [OF changed_ids(2) changed_ids_known [OF assms(2,3)]]
    by (simp add: map_of_assignment_map assms)
  finally show ?thesis using changed_in_ids by blast
qed

theorem transition_conflict_iff_witness:
  "isl (applyAssignmentTransition (removeAssignment ''t1'' sample_project (IdNum 2)) sample_project sample_next)"
proof -
  let ?c = "removeAssignment ''t1'' sample_project (IdNum 2)"
  have d: "distinct (map as_id (pr_assignments ?c))" "distinct (map as_id (pr_assignments sample_project))"
    "distinct (map as_id (pr_assignments sample_next))" by code_simp+
  have "assignment_of (pr_assignments sample_project) 2 \<noteq> assignment_of (pr_assignments sample_next) 2
     \<and> assignment_of (pr_assignments ?c) 2 \<noteq> assignment_of (pr_assignments sample_project) 2"
    by code_simp
  then show ?thesis unfolding transition_conflict_iff [OF d] by blast
qed

text \<open>A transition that is not refused merges: every assignment that the action changed has the
  action's version (or is gone), every other one has the canonical version; the ids stay unique, the
  assignments are sorted by id, and items, placements and connections are those of the canonical
  project.\<close>

theorem transition_merges:
  assumes "distinct (map as_id (pr_assignments c))" "distinct (map as_id (pr_assignments p))"
    and "distinct (map as_id (pr_assignments n))" "applyAssignmentTransition c p n = Inr q"
  shows "assignment_of (pr_assignments q) = (\<lambda>i.
       if assignment_of (pr_assignments p) i \<noteq> assignment_of (pr_assignments n) i
       then assignment_of (pr_assignments n) i else assignment_of (pr_assignments c) i)
    \<and> distinct (map as_id (pr_assignments q)) \<and> sorted (map as_id (pr_assignments q))
    \<and> pr_items q = pr_items c \<and> pr_placements q = pr_placements c
    \<and> pr_connections q = pr_connections c \<and> pr_revision q = pr_revision c"
proof -
  obtain m where loop: "transition_loop
        (assignment_map (pr_assignments p)) (assignment_map (pr_assignments n))
        (assignment_map (pr_assignments c)) (changed_ids p n) = Inr m"
    and q: "q = c\<lparr>pr_metadata := (pr_metadata c)\<lparr>md_updatedAt := md_updatedAt (pr_metadata n)\<rparr>,
        pr_assignments := sort_key as_id (map snd m)\<rparr>"
    using assms(4) by (auto simp: applyAssignmentTransition_def)
  note res = transition_loop_result [OF changed_ids(2) changed_ids_known [OF assms(2,3)] loop]
  have look: "map_of m = (\<lambda>i.
       if assignment_of (pr_assignments p) i \<noteq> assignment_of (pr_assignments n) i
       then assignment_of (pr_assignments n) i else assignment_of (pr_assignments c) i)"
    using res(1) changed_in_ids by (auto simp: map_of_assignment_map assms(1-3) fun_eq_iff)
  have dist: "distinct (map fst m)" by (rule res(2)) (simp add: assignment_map_def)
  have cons: "as_id a = i" if "(i, a) \<in> set m" for i a
  proof -
    have "map_of m i = Some a" using that dist by simp
    then show ?thesis
      using assignment_of_Some [OF assms(3), of i a] assignment_of_Some [OF assms(1), of i a]
      by (simp add: look split: if_splits)
  qed
  note m = map_snd_consistent [of m, OF cons]
  have "assignment_of (map snd m) = map_of m" by (rule ext) (simp only: assignment_of_def m(1))
  moreover have "distinct (map as_id (map snd m))" using dist by (simp only: m(2))
  ultimately show ?thesis
    by (simp add: q look assignment_of_sort distinct_sort_ids del: map_map)
qed

theorem transition_merges_witness:
  "\<exists>q. applyAssignmentTransition (removeAssignment ''t1'' sample_project (IdNum 1)) sample_project sample_next
       = Inr q \<and> assignment_of (pr_assignments q) 2 = assignment_of (pr_assignments sample_next) 2"
proof -
  let ?c = "removeAssignment ''t1'' sample_project (IdNum 1)"
  have d: "distinct (map as_id (pr_assignments ?c))" "distinct (map as_id (pr_assignments sample_project))"
    "distinct (map as_id (pr_assignments sample_next))" by code_simp+
  have "\<not> isl (applyAssignmentTransition ?c sample_project sample_next)" by code_simp
  then obtain q where q: "applyAssignmentTransition ?c sample_project sample_next = Inr q"
    by (rule not_isl_obtain)
  have "assignment_of (pr_assignments sample_project) 2 \<noteq> assignment_of (pr_assignments sample_next) 2"
    by code_simp
  with transition_merges [OF d q] q show ?thesis by auto
qed

subsection \<open>Patches\<close>

lemma patch_walk_eq:
  assumes "distinct (map key xs)"
  shows "patch_walk key removed upsert xs =
    (map (\<lambda>x. case map_of upsert (key x) of Some u \<Rightarrow> Inl u | None \<Rightarrow> Inr x)
        (filter (\<lambda>x. key x \<notin> set removed) xs),
     filter (\<lambda>(k, u). k \<notin> key ` set (filter (\<lambda>x. key x \<notin> set removed) xs)) upsert)"
  using assms
proof (induction xs arbitrary: upsert)
  case (Cons x xs)
  have other: "map_of (AList.delete (key x) upsert) (key y) = map_of upsert (key y)" if "y \<in> set xs" for y
  proof -
    have "key y \<noteq> key x" using Cons.prems that by (metis distinct.simps(2) image_eqI list.set_map list.simps(9))
    then show ?thesis by (simp add: delete_conv')
  qed
  show ?case
  proof (cases "key x \<in> set removed")
    case True
    then show ?thesis using Cons.prems Cons.IH [of upsert] by simp
  next
    case kept: False
    show ?thesis
    proof (cases "map_of upsert (key x)")
      case None
      then have "fst a \<noteq> key x" if "a \<in> set upsert" for a
        using that by (metis map_of_eq_None_iff image_eqI)
      then show ?thesis using kept None Cons.prems Cons.IH [of upsert]
        by (auto simp: case_prod_beta intro!: filter_cong)
    next
      case (Some u)
      have "map (\<lambda>y. case map_of (AList.delete (key x) upsert) (key y) of Some u \<Rightarrow> Inl u | None \<Rightarrow> Inr y)
            (filter (\<lambda>x. key x \<notin> set removed) xs)
          = map (\<lambda>y. case map_of upsert (key y) of Some u \<Rightarrow> Inl u | None \<Rightarrow> Inr y)
            (filter (\<lambda>x. key x \<notin> set removed) xs)"
        using other by simp
      then show ?thesis using kept Some Cons.prems Cons.IH [of "AList.delete (key x) upsert"]
        by (simp add: AList.delete_eq filter_filter case_prod_beta) (rule filter_cong, auto)
    qed
  qed
qed (auto intro!: filter_True [symmetric])

lemma map_of_filter_key: "map_of (filter (\<lambda>(k, u). P k) m) k = (if P k then map_of m k else None)"
  by (induction m) auto

lemma placement_at_replaced:
  assumes "\<And>k u. (k, u) \<in> set up \<Longrightarrow> pl_serverId u = k"
  shows "placement_at (map (\<lambda>x. case map_of up (pl_serverId x) of Some u \<Rightarrow> u | None \<Rightarrow> x) xs) k
    = (if k \<in> set (placement_keys xs)
       then (case map_of up k of Some u \<Rightarrow> Some (pl_x u, pl_y u) | None \<Rightarrow> placement_at xs k) else None)"
proof (induction xs)
  case (Cons x xs)
  show ?case
  proof (cases "map_of up (pl_serverId x)")
    case None
    then show ?thesis using Cons.IH by (auto simp: placement_at_def split: option.split)
  next
    case (Some u)
    then have "pl_serverId u = pl_serverId x" using assms map_of_SomeD by fast
    then show ?thesis using Some Cons.IH by (auto simp: placement_at_def split: option.split)
  qed
qed (simp add: placement_at_def)

lemma placement_at_values:
  assumes "\<And>k u. (k, u) \<in> set m \<Longrightarrow> pl_serverId u = k"
  shows "placement_at (map snd m) k = map_option (\<lambda>u. (pl_x u, pl_y u)) (map_of m k)"
  using assms
proof (induction m)
  case (Cons e m)
  have "placement_at (map snd m) k = map_option (\<lambda>u. (pl_x u, pl_y u)) (map_of m k)"
    by (rule Cons.IH) (rule Cons.prems, simp)
  moreover have "pl_serverId (snd e) = fst e" by (rule Cons.prems) simp
  ultimately show ?case by (simp add: placement_at_def)
qed (simp add: placement_at_def)

lemma keys_of_values:
  assumes "\<And>k u. (k, u) \<in> set m \<Longrightarrow> f u = k"
  shows "map f (map snd m) = map fst m"
proof -
  have "f (snd x) = fst x" if "x \<in> set m" for x using assms [of "fst x" "snd x"] that by simp
  then show ?thesis by simp
qed

lemma map_of_map_value: "map_of (map (\<lambda>(k, c). (k, f k c)) m) k = map_option (f k) (map_of m k)"
  by (induction m) auto

lemma placement_at_app:
  "placement_at (pls @ qls) k = (case placement_at pls k of None \<Rightarrow> placement_at qls k | Some v \<Rightarrow> Some v)"
  by (auto simp: placement_at_def map_add_def split: option.split)

lemma placement_at_filter:
  "placement_at (filter (\<lambda>x. P (pl_serverId x)) pls) k = (if P k then placement_at pls k else None)"
  by (induction pls) (auto simp: placement_at_def)

text \<open>A \<open>patch-placements\<close> patch gives every upserted item the coordinates of its last upsert,
  drops the items to remove that are not upserted, keeps the coordinates of all others, and never
  produces two placements of an item.\<close>

theorem patch_placements_lookup:
  assumes "distinct (map pl_serverId pls)"
  shows "distinct (map pl_serverId (patch_placements us removed pls))
    \<and> placement_at (patch_placements us removed pls) k =
       (case map_of (rev us) k of
          Some c \<Rightarrow> Some (cp_x c, cp_y c)
        | None \<Rightarrow> if k \<in> set removed then None else placement_at pls k)"
proof -
  let ?up = "map (\<lambda>(k, c). (k, placed k c)) (map_from us)"
  let ?kept = "filter (\<lambda>x. pl_serverId x \<notin> set removed) pls"
  let ?rest = "filter (\<lambda>(k, u). k \<notin> pl_serverId ` set ?kept) ?up"
  let ?f = "\<lambda>x. case map_of ?up (pl_serverId x) of Some u \<Rightarrow> u | None \<Rightarrow> x"
  have up: "pl_serverId u = k" if "(k, u) \<in> set ?up" for k u using that by (auto simp: placed_def)
  have rest: "pl_serverId u = k" if "(k, u) \<in> set ?rest" for k u using that up [of k u] by simp
  have eq: "patch_placements us removed pls = map ?f ?kept @ map snd ?rest"
    unfolding patch_placements_def patch_walk_eq [OF assms] by (auto split: option.split)
  have look: "map_of ?up k = map_option (placed k) (map_of (rev us) k)" for k
    unfolding map_of_map_from [symmetric] by (rule map_of_map_value)
  have keys: "map pl_serverId (map ?f ?kept) = map pl_serverId ?kept"
    using up by (auto split: option.split dest: map_of_SomeD)
  have restkeys: "map pl_serverId (map snd ?rest) = map fst ?rest" using rest by (rule keys_of_values)
  have "distinct (map pl_serverId ?kept)" using assms by (rule distinct_map_filter)
  moreover have "distinct (map fst ?rest)"
    by (rule distinct_map_filter) (simp add: comp_def case_prod_beta distinct_map_from)
  moreover have "set (map fst ?rest) \<inter> set (map pl_serverId ?kept) = {}" by auto
  ultimately have "distinct (map pl_serverId (patch_placements us removed pls))"
    unfolding eq map_append keys restkeys distinct_append by blast
  moreover have A: "placement_at (map ?f ?kept) k = (if k \<in> set (placement_keys ?kept)
       then (case map_of ?up k of Some u \<Rightarrow> Some (pl_x u, pl_y u) | None \<Rightarrow> placement_at ?kept k) else None)"
    using up by (rule placement_at_replaced)
  have B: "placement_at (map snd ?rest) k = map_option (\<lambda>u. (pl_x u, pl_y u)) (map_of ?rest k)"
    using rest by (rule placement_at_values)
  have R: "map_of ?rest k = (if k \<notin> pl_serverId ` set ?kept then map_of ?up k else None)"
    by (rule map_of_filter_key)
  have "placement_at (patch_placements us removed pls) k =
       (case map_of (rev us) k of
          Some c \<Rightarrow> Some (cp_x c, cp_y c)
        | None \<Rightarrow> if k \<in> set removed then None else placement_at pls k)"
    using placement_key_iff [of k pls]
    by (simp only: eq placement_at_app A B R, simp only: look)
      (cases "map_of (rev us) k"; cases "placement_at pls k";
       auto simp: placed_def placement_at_filter [of "\<lambda>s. s \<notin> set removed"])
  ultimately show ?thesis by blast
qed

theorem patch_placements_lookup_witness:
  "placement_at (patch_placements
      [(''switch:1'', \<lparr>cp_item = \<lparr>ir_item_type = ''switch'', ir_id = 1\<rparr>, cp_x = 7, cp_y = 9\<rparr>)]
      [''server:1'', ''switch:1''] (pr_placements sample_project)) ''switch:1'' = Some (7, 9)"
proof -
  have "distinct (map pl_serverId (pr_placements sample_project))" by code_simp
  from patch_placements_lookup [OF this] show ?thesis by simp
qed

lemma traverse_map:
  "traverse f xs = Inr ys \<Longrightarrow> ys = map (\<lambda>x. projr (f x)) xs \<and> (\<forall>x \<in> set xs. \<not> isl (f x))"
  by (induction xs arbitrary: ys) auto

lemma runtimeAssignment_id: "\<not> isl (runtimeAssignment u) \<Longrightarrow> as_id (projr (runtimeAssignment u)) = ea_id u"
  by (cases "runtimeAssignment u") (auto simp: runtimeAssignment_def)

lemma assignment_of_append:
  "assignment_of (as @ bs) i = (case assignment_of as i of None \<Rightarrow> assignment_of bs i | Some a \<Rightarrow> Some a)"
  by (auto simp: assignment_of_def map_add_def split: option.split)

lemma assignment_of_map:
  "(\<And>a. a \<in> set as \<Longrightarrow> as_id (g a) = as_id a) \<Longrightarrow> assignment_of (map g as) i = map_option g (assignment_of as i)"
  by (induction as) (auto simp: assignment_of_def)

lemma assignment_of_filter:
  "assignment_of (filter (\<lambda>a. P (as_id a)) as) i = (if P i then assignment_of as i else None)"
  by (induction as) (auto simp: assignment_of_def)

lemma assignment_of_values:
  "(\<And>x. x \<in> set m \<Longrightarrow> as_id (f (snd x)) = fst x)
     \<Longrightarrow> assignment_of (map (\<lambda>x. f (snd x)) m) i = map_option f (map_of m i)"
  by (induction m) (auto simp: assignment_of_def)

lemma not_isl_projr: "\<not> isl r \<Longrightarrow> r = Inr (projr r)"
  by (cases r) auto

lemma assignment_of_mem: "assignment_of as i = Some a \<Longrightarrow> a \<in> set as \<and> as_id a = i"
  by (auto simp: assignment_of_def dest: map_of_SomeD)

text \<open>The assignments after a patch: the kept ones, replaced where an upsert has their id, and the
  upserts that are left over.\<close>

lemma patch_assignments_shape:
  fixes us :: "engine_assignment list" and removed :: "int list" and as :: "assignment list"
  defines "up \<equiv> map_from (map (\<lambda>u. (ea_id u, u)) us)"
    and "kept \<equiv> filter (\<lambda>a. as_id a \<notin> set removed) as"
    and "run \<equiv> \<lambda>u. projr (runtimeAssignment u)"
  defines "g \<equiv> \<lambda>a. case map_of up (as_id a) of Some u \<Rightarrow> run u | None \<Rightarrow> a"
    and "rest \<equiv> filter (\<lambda>(k, u). k \<notin> as_id ` set kept) up"
  assumes "distinct (map as_id as)" "patch_assignments us removed as = Inr bs"
  shows "bs = sort_key as_id (map g kept @ map (\<lambda>x. run (snd x)) rest)"
    and "a \<in> set kept \<Longrightarrow> map_of up (as_id a) = Some u \<Longrightarrow> \<not> isl (runtimeAssignment u)"
    and "(k, u) \<in> set rest \<Longrightarrow> \<not> isl (runtimeAssignment u)"
    and "a \<in> set kept \<Longrightarrow> as_id (g a) = as_id a"
    and "x \<in> set rest \<Longrightarrow> as_id (run (snd x)) = fst x"
proof -
  let ?pick = "\<lambda>a. case map_of up (as_id a) of Some u \<Rightarrow> Inl u | None \<Rightarrow> Inr a"
  let ?conv = "\<lambda>y. case y of Inl u \<Rightarrow> runtimeAssignment u | Inr x \<Rightarrow> Inr x"
  obtain zs ws where zs: "traverse ?conv (map ?pick kept) = Inr zs"
    and ws: "traverse (\<lambda>(k, u). runtimeAssignment u) rest = Inr ws"
    and bs: "bs = sort_key as_id (zs @ ws)"
    using assms(7) unfolding patch_assignments_def patch_walk_eq [OF assms(6)]
    by (auto simp: up_def kept_def rest_def)
  have key: "ea_id u = k" if "map_of up k = Some u" for k u
    using that by (auto simp: up_def map_of_map_from dest: map_of_SomeD)
  show okz: "\<not> isl (runtimeAssignment u)" if "a \<in> set kept" "map_of up (as_id a) = Some u" for a u
    using traverse_map [OF zs] that by fastforce
  show okw: "\<not> isl (runtimeAssignment u)" if "(k, u) \<in> set rest" for k u
    using traverse_map [OF ws] that by fastforce
  have "?conv (?pick a) = (case map_of up (as_id a) of Some u \<Rightarrow> runtimeAssignment u | None \<Rightarrow> Inr a)" for a
    by (simp split: option.split)
  then have "projr (?conv (?pick a)) = g a" for a by (simp add: g_def run_def split: option.split)
  then have "zs = map g kept"
    using traverse_map [OF zs] by (simp add: comp_def)
  moreover have "ws = map (\<lambda>x. run (snd x)) rest"
    using traverse_map [OF ws] by (simp add: case_prod_beta run_def)
  ultimately show "bs = sort_key as_id (map g kept @ map (\<lambda>x. run (snd x)) rest)"
    using bs by simp
  show gid: "as_id (g a) = as_id a" if "a \<in> set kept" for a
  proof (cases "map_of up (as_id a)")
    case (Some u)
    then show ?thesis using okz [OF that Some] key [OF Some] by (simp add: g_def run_def runtimeAssignment_id)
  qed (simp add: g_def)
  show rid: "as_id (run (snd x)) = fst x" if "x \<in> set rest" for x
  proof -
    have "map_of up (fst x) = Some (snd x)" using that by (auto simp: rest_def up_def)
    then have "ea_id (snd x) = fst x" by (rule key)
    moreover have "\<not> isl (runtimeAssignment (snd x))" using that by (intro okw [of "fst x"]) simp
    ultimately show ?thesis by (simp add: run_def runtimeAssignment_id)
  qed
qed

text \<open>A \<open>patch-assignments\<close> patch that applies gives every upserted id the translation of its last
  upsert, drops the ids to remove that are not upserted, keeps all other assignments, and leaves the
  assignments sorted with unique ids.\<close>

theorem patch_assignments_lookup:
  assumes "distinct (map as_id as)" "patch_assignments us removed as = Inr bs"
  shows "distinct (map as_id bs) \<and> sorted (map as_id bs)
    \<and> (\<forall>i. case map_of (rev (map (\<lambda>u. (ea_id u, u)) us)) i of
          Some u \<Rightarrow> \<exists>b. runtimeAssignment u = Inr b \<and> assignment_of bs i = Some b
        | None \<Rightarrow> assignment_of bs i = (if i \<in> set removed then None else assignment_of as i))"
proof -
  let ?up = "map_from (map (\<lambda>u. (ea_id u, u)) us)"
  let ?kept = "filter (\<lambda>a. as_id a \<notin> set removed) as"
  let ?rest = "filter (\<lambda>(k, u). k \<notin> as_id ` set ?kept) ?up"
  let ?run = "\<lambda>u. projr (runtimeAssignment u)"
  let ?g = "\<lambda>a. case map_of ?up (as_id a) of Some u \<Rightarrow> ?run u | None \<Rightarrow> a"
  note bs = patch_assignments_shape(1) [OF assms] and okz = patch_assignments_shape(2) [OF assms]
    and okw = patch_assignments_shape(3) [OF assms] and gid = patch_assignments_shape(4) [OF assms]
    and rid = patch_assignments_shape(5) [OF assms]
  have ids: "map as_id (map ?g ?kept @ map (\<lambda>x. ?run (snd x)) ?rest) = map as_id ?kept @ map fst ?rest"
    using gid rid by simp
  have "distinct (map as_id ?kept @ map fst ?rest)"
    unfolding distinct_append
    using distinct_map_filter [OF assms(1)] distinct_map_filter [of fst ?up] by auto
  then have dist: "distinct (map as_id (map ?g ?kept @ map (\<lambda>x. ?run (snd x)) ?rest))"
    by (simp only: ids)
  have look: "assignment_of bs i = (case map_option ?g (assignment_of ?kept i) of
      None \<Rightarrow> map_option ?run (map_of ?rest i) | Some a \<Rightarrow> Some a)" for i
  proof -
    have "assignment_of (map ?g ?kept) i = map_option ?g (assignment_of ?kept i)"
      using gid by (rule assignment_of_map)
    moreover have "assignment_of (map (\<lambda>x. ?run (snd x)) ?rest) i = map_option ?run (map_of ?rest i)"
      using rid by (rule assignment_of_values)
    ultimately show ?thesis
      by (simp only: bs assignment_of_sort [OF dist] assignment_of_append)
  qed
  have rest: "map_of ?rest i = (if i \<notin> as_id ` set ?kept then map_of ?up i else None)" for i
    by (rule map_of_filter_key)
  have kept: "assignment_of ?kept i = (if i \<notin> set removed then assignment_of as i else None)" for i
    by (rule assignment_of_filter)
  have "case map_of ?up i of
          Some u \<Rightarrow> \<exists>b. runtimeAssignment u = Inr b \<and> assignment_of bs i = Some b
        | None \<Rightarrow> assignment_of bs i = (if i \<in> set removed then None else assignment_of as i)" for i
  proof (cases "assignment_of ?kept i")
    case None
    then have "i \<notin> as_id ` set ?kept"
      using assignment_of_None [of ?kept i] by blast
    then have "map_of ?rest i = map_of ?up i" using rest [of i] by presburger
    then have "assignment_of bs i = map_option ?run (map_of ?up i)" by (simp only: look None option.simps)
    moreover have "\<not> isl (runtimeAssignment u)" if "map_of ?up i = Some u" for u
      using okw [of i u] that \<open>i \<notin> as_id ` set ?kept\<close> by (auto dest: map_of_SomeD)
    ultimately show ?thesis
      using None kept [of i] by (cases "map_of ?up i") (auto simp: not_isl_projr split: if_splits)
  next
    case (Some a)
    then have a: "a \<in> set ?kept" "as_id a = i" using assignment_of_mem by blast+
    have "assignment_of bs i = Some (?g a)" by (simp only: look Some) simp
    then show ?thesis
      using a okz [OF a(1)] Some kept [of i] by (cases "map_of ?up i") (auto simp: not_isl_projr split: if_splits)
  qed
  moreover have "map_of ?up i = map_of (rev (map (\<lambda>u. (ea_id u, u)) us)) i" for i
    by (rule map_of_map_from)
  ultimately show ?thesis using dist by (simp add: bs distinct_sort_ids del: map_append)
qed

definition sample_upsert :: engine_assignment where
  "sample_upsert =
     \<lparr>ea_id = 2, ea_host = \<lparr>ir_item_type = ''server'', ir_id = 2\<rparr>,
      ea_item = \<lparr>ir_item_type = ''cpu'', ir_id = 1\<rparr>, ea_component_type = TCpu,
      ea_assigned_at = ''t0'', ea_allocation = None\<rparr>"

theorem patch_assignments_lookup_witness:
  "\<exists>bs. patch_assignments [sample_upsert] [1] (pr_assignments sample_project) = Inr bs
     \<and> distinct (map as_id bs) \<and> assignment_of bs 1 = None"
proof -
  have "\<not> isl (patch_assignments [sample_upsert] [1] (pr_assignments sample_project))" by code_simp
  then obtain bs where bs: "patch_assignments [sample_upsert] [1] (pr_assignments sample_project) = Inr bs"
    by (rule not_isl_obtain)
  have "distinct (map as_id (pr_assignments sample_project))" by code_simp
  from patch_assignments_lookup [OF this bs] bs show ?thesis
    by (auto simp: sample_upsert_def dest!: spec [of _ 1])
qed

subsection \<open>References\<close>

lemma canonical_itemKey: "canonical_key k \<longleftrightarrow> (\<exists>t n. k = itemKey t (IdNum n))"
  by (auto simp: canonical_key_def parseItemKey_itemKey split: option.splits)

lemma fromTopologyItemRef_itemKey:
  "fromTopologyItemRef \<lparr>ir_item_type = type_name t, ir_id = n\<rparr> = Inr (itemKey t (IdNum n))"
proof -
  have "type_name t @ '':'' @ show_int n = itemKey t (IdNum n)" by (simp add: itemKey_def)
  then show ?thesis by (simp add: fromTopologyItemRef_def parseItemKey_itemKey del: append.simps)
qed

lemma item_ref_round_trip:
  assumes "canonical_key k" "toTopologyItemRef p k = Inr r"
  shows "fromTopologyItemRef r = Inr k"
proof -
  obtain t n where k: "k = itemKey t (IdNum n)" using assms(1) by (auto simp: canonical_itemKey)
  then have "r = \<lparr>ir_item_type = type_name t, ir_id = n\<rparr>"
    using assms(2) by (auto simp: toTopologyItemRef_def parseItemKey_itemKey split: option.splits if_splits)
  then show ?thesis by (simp add: fromTopologyItemRef_itemKey k)
qed

text \<open>What the interface sends to the engine it reads back: an assignment and a connection endpoint
  with canonical keys survive the translation to engine references and back unchanged.\<close>

theorem engine_references_round_trip:
  assumes "canonical_key (as_serverId a)" "canonical_key (as_itemId a)" "engineAssignment p a = Inr ea"
    and "wf_endpoint e" "toTopologyEndpointRef p e = Inr er"
  shows "runtimeAssignment ea = Inr a \<and> fromTopologyEndpointRef er = Inr e"
proof -
  obtain host item where h: "toTopologyItemRef p (as_serverId a) = Inr host"
    "toTopologyItemRef p (as_itemId a) = Inr item"
    and ea: "ea = \<lparr>ea_id = as_id a, ea_host = host, ea_item = item, ea_component_type = as_type a,
          ea_assigned_at = as_assignedAt a, ea_allocation = as_allocation a\<rparr>"
    using assms(3) by (auto simp: engineAssignment_def)
  have "runtimeAssignment ea = Inr a"
    using item_ref_round_trip [OF assms(1) h(1)] item_ref_round_trip [OF assms(2) h(2)]
    by (simp add: runtimeAssignment_def ea)
  moreover have "fromTopologyEndpointRef er = Inr e"
  proof (cases "ep_hostedItemId e")
    case None
    then show ?thesis
      using assms(4,5) item_ref_round_trip [of "ep_itemId e" p]
      by (auto simp: toTopologyEndpointRef_def fromTopologyEndpointRef_def wf_endpoint_def)
  next
    case (Some hosted)
    then have c: "canonical_key hosted" "canonical_key (ep_itemId e)" using assms(4) by (simp_all add: wf_endpoint_def)
    then have "hosted \<noteq> []" by (auto simp: canonical_itemKey itemKey_def)
    then show ?thesis
      using assms(5) Some item_ref_round_trip [OF c(1), of p] item_ref_round_trip [OF c(2), of p]
      by (auto simp: toTopologyEndpointRef_def fromTopologyEndpointRef_def)
  qed
  ultimately show ?thesis by blast
qed

theorem engine_references_round_trip_witness:
  "\<exists>ea er. engineAssignment sample_project (sample_assignment 2 ''server:1'' ''cpu:1'' TCpu) = Inr ea
     \<and> toTopologyEndpointRef sample_project (sample_endpoint ''server:1'' 1 (Some ''network:1'')) = Inr er
     \<and> runtimeAssignment ea = Inr (sample_assignment 2 ''server:1'' ''cpu:1'' TCpu)
     \<and> fromTopologyEndpointRef er = Inr (sample_endpoint ''server:1'' 1 (Some ''network:1''))"
proof -
  let ?a = "sample_assignment 2 ''server:1'' ''cpu:1'' TCpu"
  let ?e = "sample_endpoint ''server:1'' 1 (Some ''network:1'')"
  have "\<not> isl (engineAssignment sample_project ?a)" "\<not> isl (toTopologyEndpointRef sample_project ?e)"
    by code_simp+
  then obtain ea er where r: "engineAssignment sample_project ?a = Inr ea"
    "toTopologyEndpointRef sample_project ?e = Inr er" by (metis not_isl_obtain)
  have "canonical_key (as_serverId ?a)" "canonical_key (as_itemId ?a)" "wf_endpoint ?e" by code_simp+
  with engine_references_round_trip [OF _ _ r(1) _ r(2)] r show ?thesis by blast
qed

subsection \<open>Whole patches\<close>

lemma patch_frame_lemma:
  "applyProjectPatch p patch rv = Inr q \<Longrightarrow>
     pr_items q = pr_items p \<and> pr_id q = pr_id p \<and> (q = p \<or> pr_revision q = Some rv)"
  "apply_patches p patches rv = Inr q \<Longrightarrow>
     pr_items q = pr_items p \<and> pr_id q = pr_id p \<and> (q = p \<or> pr_revision q = Some rv)"
proof (induction p patch rv and p patches rv arbitrary: q and q rule: applyProjectPatch_apply_patches.induct)
  case (2 p patch patches rv)
  from 2(3) obtain p' where p': "applyProjectPatch p patch rv = Inr p'" "apply_patches p' patches rv = Inr q"
    by (auto split: sum.splits)
  from 2(1) [OF p'(1)] 2(2) [OF p'] show ?case by auto
qed auto

text \<open>A batch is its patches one after another: applying the concatenation of two batches is
  applying the first and then the second, and it fails where the first failing patch fails.  No patch
  touches the items or the identity of the project, and a patch that changes anything sets the
  revision the engine reported.\<close>

theorem patches_compose:
  "applyProjectPatch p (BatchPatch (xs @ ys)) rv
     = and_then (applyProjectPatch p (BatchPatch xs) rv) (\<lambda>q. applyProjectPatch q (BatchPatch ys) rv)
   \<and> (\<forall>q. applyProjectPatch p patch rv = Inr q \<longrightarrow>
        pr_items q = pr_items p \<and> pr_id q = pr_id p \<and> (q = p \<or> pr_revision q = Some rv))"
proof -
  have "apply_patches p (xs @ ys) rv = and_then (apply_patches p xs rv) (\<lambda>q. apply_patches q ys rv)"
    by (induction xs arbitrary: p) (auto split: sum.split)
  with patch_frame_lemma(1) show ?thesis by auto
qed

theorem patches_compose_witness:
  "\<exists>q. applyProjectPatch sample_project (BatchPatch [SetProjectName ''rack'', PatchAssignments [] [1]]) 7 = Inr q
     \<and> pr_items q = pr_items sample_project"
proof -
  let ?b = "BatchPatch [SetProjectName ''rack'', PatchAssignments [] [1]]"
  have "\<not> isl (applyProjectPatch sample_project ?b 7)" by code_simp
  then obtain q where q: "applyProjectPatch sample_project ?b 7 = Inr q" by (rule not_isl_obtain)
  with patches_compose [of sample_project "[]" "[]" 7 ?b] show ?thesis by blast
qed

text \<open>An optimistic change is acknowledged exactly when the assignments the engine committed are,
  as a set, the optimistic ones; the project then keeps everything of the optimistic one but takes the
  committed revision.\<close>

theorem acknowledge_iff:
  assumes "applyEngineResponsePatch c response = Inr committed"
    and "distinct (map as_id (pr_assignments committed))" "distinct (map as_id (pr_assignments optimistic))"
  shows "acknowledgeOptimisticAssignments c optimistic response =
    (if set (pr_assignments committed) = set (pr_assignments optimistic)
     then Inr (optimistic\<lparr>pr_revision := pr_revision committed\<rparr>)
     else Inl ''Committed assignments did not match the optimistic workspace change.'')"
  using assms by (simp add: acknowledgeOptimisticAssignments_def assignmentsEqual_sets)

theorem acknowledge_iff_witness:
  "acknowledgeOptimisticAssignments sample_project sample_next
     (ResPatch 5 (PatchAssignments [sample_upsert] []) (BatchPatch []))
   = Inr (sample_next\<lparr>pr_revision := Some 5\<rparr>)"
proof -
  let ?r = "ResPatch 5 (PatchAssignments [sample_upsert] []) (BatchPatch [])"
  have c: "applyEngineResponsePatch sample_project ?r = Inr (sample_next\<lparr>pr_revision := Some 5\<rparr>)"
    by code_simp
  have "distinct (map as_id (pr_assignments (sample_next\<lparr>pr_revision := Some 5\<rparr>)))"
    "distinct (map as_id (pr_assignments sample_next))" by code_simp+
  from acknowledge_iff [OF c this] show ?thesis by simp
qed

end
