(* ===== verification/Canvas_Geometry.thy ===== *)
theory Canvas_Geometry
  imports Constraints
begin

text \<open>
  The size of the cards on the canvas (\<open>src/lib/project.ts\<close>, from \<open>getServerCardHeight\<close> on) and
  the layout of power equipment (\<open>src/lib/power-equipment-layout.ts\<close>).  Sizes are whole pixels.
  The lemmas bound the sizes and show that a card never shrinks when a component is assigned to it,
  which is what lets the canvas check only the host of an assignment for collisions.
\<close>

section \<open>Definitions\<close>

subsection \<open>Sizes\<close>

definition SERVER_CARD_WIDTH :: int where "SERVER_CARD_WIDTH = 282"
definition SERVER_CARD_HEADER_HEIGHT :: int where "SERVER_CARD_HEADER_HEIGHT = 54"
definition SERVER_CARD_BOARD_PORT_ROW_HEIGHT :: int where "SERVER_CARD_BOARD_PORT_ROW_HEIGHT = 42"
definition SERVER_CARD_ROW_HEIGHT :: int where "SERVER_CARD_ROW_HEIGHT = 44"
definition SERVER_CARD_HOSTED_PORT_ROW_HEIGHT :: int where "SERVER_CARD_HOSTED_PORT_ROW_HEIGHT = 42"
definition SERVER_CARD_VERTICAL_PADDING :: int where "SERVER_CARD_VERTICAL_PADDING = 28"
definition EQUIPMENT_CARD_HEIGHT :: int where "EQUIPMENT_CARD_HEIGHT = 124"
definition EQUIPMENT_CARD_MIN_WIDTH :: int where "EQUIPMENT_CARD_MIN_WIDTH = 282"
definition EQUIPMENT_PORT_CHIP_WIDTH :: int where "EQUIPMENT_PORT_CHIP_WIDTH = 30"
definition EQUIPMENT_PORT_CHIP_GAP :: int where "EQUIPMENT_PORT_CHIP_GAP = 6"
definition EQUIPMENT_CARD_HORIZONTAL_PADDING :: int where "EQUIPMENT_CARD_HORIZONTAL_PADDING = 32"
definition NAS_CARD_WIDTH :: int where "NAS_CARD_WIDTH = 360"
definition NAS_CARD_HEADER_HEIGHT :: int where "NAS_CARD_HEADER_HEIGHT = 54"
definition NAS_CARD_SECTION_HEIGHT :: int where "NAS_CARD_SECTION_HEIGHT = 50"
definition NAS_CARD_VERTICAL_PADDING :: int where "NAS_CARD_VERTICAL_PADDING = 84"
definition PC_BUILD_CARD_WIDTH :: int where "PC_BUILD_CARD_WIDTH = 318"
definition MONITOR_CARD_WIDTH :: int where "MONITOR_CARD_WIDTH = 360"
definition POWER_EQUIPMENT_CARD_WIDTH :: int where "POWER_EQUIPMENT_CARD_WIDTH = 420"
definition VERTICAL_UPS_CARD_WIDTH :: int where "VERTICAL_UPS_CARD_WIDTH = 248"
definition VERTICAL_POWER_STRIP_CARD_WIDTH :: int where "VERTICAL_POWER_STRIP_CARD_WIDTH = 176"
definition PC_BUILD_CARD_BASE_HEIGHT :: int where "PC_BUILD_CARD_BASE_HEIGHT = 72"
definition PC_BUILD_EMPTY_SLOT_HEIGHT :: int where "PC_BUILD_EMPTY_SLOT_HEIGHT = 34"
definition PC_BUILD_ASSIGNED_SLOT_HEIGHT :: int where "PC_BUILD_ASSIGNED_SLOT_HEIGHT = 46"
definition PC_BUILD_HOSTED_PORT_ROW_HEIGHT :: int where "PC_BUILD_HOSTED_PORT_ROW_HEIGHT = 56"
definition PC_BUILD_MOTHERBOARD_IO_HEIGHT :: int where "PC_BUILD_MOTHERBOARD_IO_HEIGHT = 58"
definition PC_BUILD_OPERATING_SYSTEM_HEIGHT :: int where "PC_BUILD_OPERATING_SYSTEM_HEIGHT = 36"
definition STANDALONE_CARD_BASE_HEIGHT :: int where "STANDALONE_CARD_BASE_HEIGHT = 123"
definition STANDALONE_PORT_GROUP_FIXED_HEIGHT :: int where "STANDALONE_PORT_GROUP_FIXED_HEIGHT = 44"
definition STANDALONE_VERTICAL_PORT_GROUP_FIXED_HEIGHT :: int where
  "STANDALONE_VERTICAL_PORT_GROUP_FIXED_HEIGHT = 44"
definition POWER_STRIP_HEADER_HEIGHT_DELTA :: int where "POWER_STRIP_HEADER_HEIGHT_DELTA = 8"
definition STANDALONE_PORT_ROW_HEIGHT :: int where "STANDALONE_PORT_ROW_HEIGHT = 44"
definition STANDALONE_PORT_ROW_GAP :: int where "STANDALONE_PORT_ROW_GAP = 6"
definition STANDALONE_HORIZONTAL_GROUP_GAP :: int where "STANDALONE_HORIZONTAL_GROUP_GAP = 8"
definition MONITOR_PORT_COLUMNS :: int where "MONITOR_PORT_COLUMNS = 5"
definition POWER_EQUIPMENT_PORT_COLUMNS :: int where "POWER_EQUIPMENT_PORT_COLUMNS = 6"

lemmas size_defs =
  SERVER_CARD_WIDTH_def SERVER_CARD_HEADER_HEIGHT_def SERVER_CARD_BOARD_PORT_ROW_HEIGHT_def
  SERVER_CARD_ROW_HEIGHT_def SERVER_CARD_HOSTED_PORT_ROW_HEIGHT_def SERVER_CARD_VERTICAL_PADDING_def
  EQUIPMENT_CARD_HEIGHT_def EQUIPMENT_CARD_MIN_WIDTH_def EQUIPMENT_PORT_CHIP_WIDTH_def
  EQUIPMENT_PORT_CHIP_GAP_def EQUIPMENT_CARD_HORIZONTAL_PADDING_def NAS_CARD_WIDTH_def
  NAS_CARD_HEADER_HEIGHT_def NAS_CARD_SECTION_HEIGHT_def NAS_CARD_VERTICAL_PADDING_def
  PC_BUILD_CARD_WIDTH_def MONITOR_CARD_WIDTH_def POWER_EQUIPMENT_CARD_WIDTH_def
  VERTICAL_UPS_CARD_WIDTH_def VERTICAL_POWER_STRIP_CARD_WIDTH_def PC_BUILD_CARD_BASE_HEIGHT_def
  PC_BUILD_EMPTY_SLOT_HEIGHT_def PC_BUILD_ASSIGNED_SLOT_HEIGHT_def
  PC_BUILD_HOSTED_PORT_ROW_HEIGHT_def PC_BUILD_MOTHERBOARD_IO_HEIGHT_def
  PC_BUILD_OPERATING_SYSTEM_HEIGHT_def STANDALONE_CARD_BASE_HEIGHT_def
  STANDALONE_PORT_GROUP_FIXED_HEIGHT_def STANDALONE_VERTICAL_PORT_GROUP_FIXED_HEIGHT_def
  POWER_STRIP_HEADER_HEIGHT_DELTA_def STANDALONE_PORT_ROW_HEIGHT_def STANDALONE_PORT_ROW_GAP_def
  STANDALONE_HORIZONTAL_GROUP_GAP_def MONITOR_PORT_COLUMNS_def POWER_EQUIPMENT_PORT_COLUMNS_def

subsection \<open>Power equipment layout\<close>

datatype equipment_orientation = Horizontal | Vertical
datatype outlet_group_order = BatterySurge | SurgeBattery

definition POWER_EQUIPMENT_ORIENTATION_PROPERTY :: string where
  "POWER_EQUIPMENT_ORIENTATION_PROPERTY = ''canvasOrientation''"

definition UPS_OUTLET_GROUP_ORDER_PROPERTY :: string where
  "UPS_OUTLET_GROUP_ORDER_PROPERTY = ''upsOutletGroupOrder''"

definition property_of :: "inventory_item \<Rightarrow> string \<Rightarrow> string option" where
  "property_of item k = Option.bind (it_properties item) (\<lambda>m. map_of m k)"

definition getPowerEquipmentOrientation :: "inventory_item \<Rightarrow> equipment_orientation" where
  "getPowerEquipmentOrientation item =
     (if property_of item POWER_EQUIPMENT_ORIENTATION_PROPERTY = Some ''vertical''
      then Vertical else Horizontal)"

definition getUpsOutletGroupOrder :: "inventory_item \<Rightarrow> outlet_group_order" where
  "getUpsOutletGroupOrder item =
     (if property_of item UPS_OUTLET_GROUP_ORDER_PROPERTY = Some ''surge-battery''
      then SurgeBattery else BatterySurge)"

definition getSwappedUpsOutletGroupOrder :: "inventory_item \<Rightarrow> outlet_group_order" where
  "getSwappedUpsOutletGroupOrder item =
     (if getUpsOutletGroupOrder item = BatterySurge then SurgeBattery else BatterySurge)"

definition orderUpsOutletGroups :: "('g \<Rightarrow> string) \<Rightarrow> inventory_item \<Rightarrow> 'g list \<Rightarrow> 'g list" where
  "orderUpsOutletGroups gid item groups =
     (let battery = List.find (\<lambda>g. gid g = ''battery'') groups;
          surge = List.find (\<lambda>g. gid g = ''surge'') groups;
          remaining = filter (\<lambda>g. gid g \<noteq> ''battery'' \<and> gid g \<noteq> ''surge'') groups;
          ordered = (if getUpsOutletGroupOrder item = BatterySurge then [battery, surge] else [surge, battery])
      in List.map_filter id ordered @ remaining)"

text \<open>The property value of an order.\<close>

fun order_name :: "outlet_group_order \<Rightarrow> string" where
  "order_name BatterySurge = ''battery-surge''"
| "order_name SurgeBattery = ''surge-battery''"

subsection \<open>Hosts\<close>

definition hosted :: "project \<Rightarrow> string \<Rightarrow> assignment list" where
  "hosted p k = filter (\<lambda>a. as_serverId a = k) (pr_assignments p)"

definition has_ports :: "project \<Rightarrow> assignment \<Rightarrow> bool" where
  "has_ports p a \<longleftrightarrow> nullish (Option.bind (item_at p (as_itemId a)) it_ports) [] \<noteq> []"

definition getNasCardHeight :: "project \<Rightarrow> string \<Rightarrow> int" where
  "getNasCardHeight p k =
     NAS_CARD_HEADER_HEIGHT + NAS_CARD_VERTICAL_PADDING
     + NAS_CARD_SECTION_HEIGHT * (if list_ex (\<lambda>a. as_serverId a = k \<and> as_type a = TNetwork) (pr_assignments p)
                                  then 3 else 2)"

definition getServerCardHeight :: "project \<Rightarrow> string \<Rightarrow> int" where
  "getServerCardHeight p k =
     (let t = map_option it_type (item_at p k) in
      if t = Some TNas then getNasCardHeight p k
      else if t \<noteq> None \<and> t \<noteq> Some TServer then EQUIPMENT_CARD_HEIGHT
      else
        let assignments = hosted p k;
            storageRows = max 1 (int (length (filter (\<lambda>a. as_type a = TStorage) assignments)));
            optionalRows = (if list_ex (\<lambda>a. as_type a = TGpu) assignments then 1 else 0)
                         + (if list_ex (\<lambda>a. as_type a = TNetwork) assignments then 1 else 0);
            hostedPortRows = int (length (filter (\<lambda>a. (as_type a = TNetwork \<or> as_type a = TGpu)
                                                   \<and> has_ports p a) assignments));
            visibleRows = 2 + storageRows + optionalRows
        in SERVER_CARD_HEADER_HEIGHT + SERVER_CARD_BOARD_PORT_ROW_HEIGHT + SERVER_CARD_VERTICAL_PADDING
           + visibleRows * SERVER_CARD_ROW_HEIGHT + hostedPortRows * SERVER_CARD_HOSTED_PORT_ROW_HEIGHT)"

definition positiveInteger :: "jsv option \<Rightarrow> int" where
  "positiveInteger v =
     (case js_Number v of
        None \<Rightarrow> 0
      | Some r \<Rightarrow> if isSafeInteger_rat r \<and> 0 < r then \<lfloor>r\<rfloor> else 0)"

text \<open>\<open>String(v ?? '').trim()\<close> is empty: a list renders as its elements joined by commas.\<close>

fun blank_text :: "jsv option \<Rightarrow> bool" where
  "blank_text None = True"
| "blank_text (Some JNull) = True"
| "blank_text (Some (JStr s)) = (js_trim s = [])"
| "blank_text (Some (JArr [])) = True"
| "blank_text (Some (JArr [x])) = blank_text (Some x)"
| "blank_text (Some _) = False"

text \<open>The height of the row of one assigned component, and of the slots of one type.\<close>

definition pc_row_height :: "project \<Rightarrow> assignment \<Rightarrow> int" where
  "pc_row_height p a =
     PC_BUILD_ASSIGNED_SLOT_HEIGHT
     + (if as_type a \<noteq> TMotherboard \<and> has_ports p a then PC_BUILD_HOSTED_PORT_ROW_HEIGHT else 0)"

definition pc_type_height :: "project \<Rightarrow> assignment list \<Rightarrow> inventory_type \<Rightarrow> int" where
  "pc_type_height p assignments t =
     (let matching = filter (\<lambda>a. as_type a = t) assignments
      in if matching = [] then PC_BUILD_EMPTY_SLOT_HEIGHT else sum_list (map (pc_row_height p) matching))"

definition getPcBuildCardHeight :: "project \<Rightarrow> string \<Rightarrow> int" where
  "getPcBuildCardHeight p k =
     (let assignments = hosted p k;
          assignedTypes = set (map as_type assignments);
          visibleTypes = filter (\<lambda>t. t \<in> set REQUIRED_PC_BUILD_COMPONENT_TYPES \<or> t \<in> assignedTypes)
            PC_BUILD_COMPONENT_ORDER;
          motherboardAssignment = List.find (\<lambda>a. as_type a = TMotherboard) assignments;
          motherboard = Option.bind motherboardAssignment (\<lambda>a. item_at p (as_itemId a))
      in PC_BUILD_CARD_BASE_HEIGHT
         + (if nullish (Option.bind motherboard it_ports) [] \<noteq> [] then PC_BUILD_MOTHERBOARD_IO_HEIGHT else 0)
         + (if \<not> blank_text (Option.bind (item_at p k) (\<lambda>i. spec_of i ''operatingSystem''))
            then PC_BUILD_OPERATING_SYSTEM_HEIGHT else 0)
         + sum_list (map (pc_type_height p assignments) visibleTypes))"

subsection \<open>Standalone equipment\<close>

text \<open>\<open>Math.ceil(n / columns)\<close>.\<close>

definition ceil_div :: "int \<Rightarrow> int \<Rightarrow> int" where
  "ceil_div n c = (n + c - 1) div c"

definition standalonePortGroupHeight :: "int \<Rightarrow> int \<Rightarrow> int" where
  "standalonePortGroupHeight portCount columns =
     (if portCount \<le> 0 then 0
      else let rows = ceil_div portCount columns
           in STANDALONE_PORT_GROUP_FIXED_HEIGHT + rows * STANDALONE_PORT_ROW_HEIGHT
              + max 0 (rows - 1) * STANDALONE_PORT_ROW_GAP)"

definition standaloneVerticalPortGroupHeight :: "int \<Rightarrow> int" where
  "standaloneVerticalPortGroupHeight portCount =
     (if portCount \<le> 0 then 0
      else STANDALONE_VERTICAL_PORT_GROUP_FIXED_HEIGHT + portCount * STANDALONE_PORT_ROW_HEIGHT
           + max 0 (portCount - 1) * STANDALONE_PORT_ROW_GAP)"

definition standaloneHorizontalGroupGap :: "int list \<Rightarrow> int" where
  "standaloneHorizontalGroupGap portCounts =
     max 0 (int (length (filter (\<lambda>n. 0 < n) portCounts)) - 1) * STANDALONE_HORIZONTAL_GROUP_GAP"

definition getMonitorCardHeight :: "inventory_item \<Rightarrow> int" where
  "getMonitorCardHeight item =
     (let ports = nullish (it_ports item) [];
          displayPorts = int (length (filter (\<lambda>q. p_type q \<noteq> PAcInput) ports));
          powerPorts = (if list_ex (\<lambda>q. p_type q = PAcInput \<and> p_key q = Some ''ac-input'') ports then 1 else 0)
      in STANDALONE_CARD_BASE_HEIGHT
         + standalonePortGroupHeight displayPorts MONITOR_PORT_COLUMNS
         + standalonePortGroupHeight powerPorts MONITOR_PORT_COLUMNS
         + standaloneHorizontalGroupGap [displayPorts, powerPorts])"

definition battery_port :: "int \<Rightarrow> nat \<times> inventory_port \<Rightarrow> bool" where
  "battery_port batteryOutlets e =
     (case e of (index, port) \<Rightarrow>
        let description = js_lower (nullish (p_label port) [] @ '' '' @ nullish (p_notes port) [])
        in js_includes description ''battery''
           \<or> (\<not> js_includes description ''surge'' \<and> int index < batteryOutlets))"

definition ups_outlet_counts :: "inventory_item \<Rightarrow> int \<times> int" where
  "ups_outlet_counts item =
     (let explicitPorts = filter (\<lambda>q. p_type q = PAcOutlet) (nullish (it_ports item) []);
          batteryOutlets = positiveInteger (spec_of item ''batteryBackupOutlets'');
          surgeOutlets = positiveInteger (spec_of item ''surgeProtectedOutlets'');
          declared = positiveInteger (spec_of item ''outlets'');
          totalOutlets = (if explicitPorts \<noteq> [] then int (length explicitPorts)
                          else if declared \<noteq> 0 then declared else batteryOutlets + surgeOutlets)
      in if explicitPorts \<noteq> []
         then (let battery = int (length (filter (battery_port batteryOutlets) (enumerate 0 explicitPorts)))
               in (battery, int (length (filter (\<lambda>e. \<not> battery_port batteryOutlets e)
                                           (enumerate 0 explicitPorts)))))
         else (let battery = min totalOutlets batteryOutlets in (battery, max 0 (totalOutlets - battery))))"

definition getUpsCardHeight :: "inventory_item \<Rightarrow> int" where
  "getUpsCardHeight item =
     (let (batteryCount, surgeCount) = ups_outlet_counts item in
      if getPowerEquipmentOrientation item = Vertical
      then STANDALONE_CARD_BASE_HEIGHT + standaloneVerticalPortGroupHeight (max batteryCount surgeCount)
      else STANDALONE_CARD_BASE_HEIGHT
           + standalonePortGroupHeight batteryCount POWER_EQUIPMENT_PORT_COLUMNS
           + standalonePortGroupHeight surgeCount POWER_EQUIPMENT_PORT_COLUMNS
           + standaloneHorizontalGroupGap [batteryCount, surgeCount])"

definition getPowerStripCardHeight :: "inventory_item \<Rightarrow> int" where
  "getPowerStripCardHeight item =
     (let explicitCount = int (length (filter (\<lambda>q. p_type q = PAcOutlet) (nullish (it_ports item) [])));
          outletCount = (if explicitCount \<noteq> 0 then explicitCount
                         else positiveInteger (spec_of item ''outlets''))
      in if getPowerEquipmentOrientation item = Vertical
         then STANDALONE_CARD_BASE_HEIGHT + POWER_STRIP_HEADER_HEIGHT_DELTA
              + standaloneVerticalPortGroupHeight outletCount
         else STANDALONE_CARD_BASE_HEIGHT + POWER_STRIP_HEADER_HEIGHT_DELTA
              + standalonePortGroupHeight outletCount POWER_EQUIPMENT_PORT_COLUMNS)"

definition getEquipmentPortColumns :: "inventory_item option \<Rightarrow> int" where
  "getEquipmentPortColumns item = int (length (nullish (Option.bind item it_ports) []))"

definition getEquipmentCardWidth :: "inventory_item option \<Rightarrow> int" where
  "getEquipmentCardWidth item =
     (if map_option it_type item \<notin> {Some TSwitch, Some TPatchPanel} then EQUIPMENT_CARD_MIN_WIDTH
      else let portColumns = getEquipmentPortColumns item in
        if portColumns = 0 then EQUIPMENT_CARD_MIN_WIDTH
        else max EQUIPMENT_CARD_MIN_WIDTH
               (EQUIPMENT_CARD_HORIZONTAL_PADDING + portColumns * EQUIPMENT_PORT_CHIP_WIDTH
                + max 0 (portColumns - 1) * EQUIPMENT_PORT_CHIP_GAP))"

definition getEquipmentCardHeight :: "inventory_item option \<Rightarrow> int" where
  "getEquipmentCardHeight item =
     (if map_option it_type item \<notin> {Some TSwitch, Some TPatchPanel} then EQUIPMENT_CARD_HEIGHT
      else if nullish (Option.bind item it_ports) [] = [] then EQUIPMENT_CARD_HEIGHT
      else if map_option it_type item = Some TPatchPanel then 244 else 156)"

definition getCanvasItemWidth :: "project \<Rightarrow> string \<Rightarrow> int" where
  "getCanvasItemWidth p k =
     (case item_at p k of
        None \<Rightarrow> getEquipmentCardWidth None
      | Some item \<Rightarrow>
          if it_type item = TServer then SERVER_CARD_WIDTH
          else if it_type item = TNas then NAS_CARD_WIDTH
          else if it_type item = TPcBuild then PC_BUILD_CARD_WIDTH
          else if it_type item = TMonitor then MONITOR_CARD_WIDTH
          else if it_type item = TUps
          then (if getPowerEquipmentOrientation item = Vertical then VERTICAL_UPS_CARD_WIDTH
                else POWER_EQUIPMENT_CARD_WIDTH)
          else if it_type item = TPowerStrip
          then (if getPowerEquipmentOrientation item = Vertical then VERTICAL_POWER_STRIP_CARD_WIDTH
                else POWER_EQUIPMENT_CARD_WIDTH)
          else getEquipmentCardWidth (Some item))"

definition getCanvasItemHeight :: "project \<Rightarrow> string \<Rightarrow> int" where
  "getCanvasItemHeight p k =
     (case item_at p k of
        None \<Rightarrow> getEquipmentCardHeight None
      | Some item \<Rightarrow>
          if it_type item = TNas then getNasCardHeight p k
          else if it_type item = TPcBuild then getPcBuildCardHeight p k
          else if it_type item = TMonitor then getMonitorCardHeight item
          else if it_type item = TUps then getUpsCardHeight item
          else if it_type item = TPowerStrip then getPowerStripCardHeight item
          else if it_type item \<noteq> TServer then getEquipmentCardHeight (Some item)
          else getServerCardHeight p k)"

subsection \<open>Notions of the specification\<close>

text \<open>The cards depend on the assignments only through their hosts, items and types.\<close>

definition unallocated :: "project \<Rightarrow> project" where
  "unallocated p = p\<lparr>pr_assignments := map core (pr_assignments p)\<rparr>"

section \<open>Lemmas\<close>

lemma nonneg_port_groups [simp]:
  "0 \<le> standalonePortGroupHeight n c" if "0 < c"
  using that unfolding standalonePortGroupHeight_def ceil_div_def size_defs
  by (auto simp: pos_imp_zdiv_nonneg_iff intro!: add_nonneg_nonneg mult_nonneg_nonneg)

lemma nonneg_vertical_port_group [simp]: "0 \<le> standaloneVerticalPortGroupHeight n"
  unfolding standaloneVerticalPortGroupHeight_def size_defs by auto

lemma nonneg_group_gap [simp]: "0 \<le> standaloneHorizontalGroupGap ns"
  unfolding standaloneHorizontalGroupGap_def size_defs by auto

lemma port_columns_positive [simp]: "0 < MONITOR_PORT_COLUMNS" "0 < POWER_EQUIPMENT_PORT_COLUMNS"
  by (simp_all add: size_defs)

lemma pc_row_height_bounds: "46 \<le> pc_row_height p a"
  by (simp add: pc_row_height_def size_defs)

lemma sum_rows_bound: "46 * int (length as) \<le> sum_list (map (pc_row_height p) as)"
  using pc_row_height_bounds [of p] by (induction as) (auto simp: algebra_simps intro: add_mono)

lemma pc_type_height_bound: "34 \<le> pc_type_height p as t"
proof (cases "filter (\<lambda>a. as_type a = t) as")
  case Nil
  then show ?thesis by (simp add: pc_type_height_def size_defs)
next
  case (Cons a bs)
  then show ?thesis
    using sum_rows_bound [of "a # bs" p] by (simp add: pc_type_height_def size_defs)
qed

lemma pc_type_height_snoc: "pc_type_height p as t \<le> pc_type_height p (as @ [a]) t"
proof -
  have "0 \<le> pc_row_height p a" "34 \<le> pc_row_height p a"
    using pc_row_height_bounds [of p a] by simp_all
  then show ?thesis
    by (auto simp: pc_type_height_def size_defs)
qed

lemma sum_filter_mono:
  assumes "\<And>t. P t \<Longrightarrow> Q t" and "\<And>t. f t \<le> g t" and "\<And>t. 0 \<le> (g t :: int)"
  shows "sum_list (map f (filter P ts)) \<le> sum_list (map g (filter Q ts))"
  using assms by (induction ts) (auto intro: add_mono add_increasing)

lemma find_snoc: "List.find P (xs @ [x]) = (case List.find P xs of None \<Rightarrow> if P x then Some x else None | s \<Rightarrow> s)"
  by (induction xs) auto

lemma add_assignment_simps [simp]:
  "item_at (add_assignment a p) k = item_at p k"
  "has_ports (add_assignment a p) b = has_ports p b"
  "pc_row_height (add_assignment a p) = pc_row_height p"
  "pc_type_height (add_assignment a p) = pc_type_height p"
  "hosted (add_assignment a p) k = hosted p k @ (if as_serverId a = k then [a] else [])"
  "pr_assignments (add_assignment a p) = pr_assignments p @ [a]"
proof -
  show *: "item_at (add_assignment a p) k = item_at p k"
    "pr_assignments (add_assignment a p) = pr_assignments p @ [a]" for k
    by (simp_all add: add_assignment_def)
  show ports: "has_ports (add_assignment a p) b = has_ports p b" for b
    by (simp add: has_ports_def *)
  show rows: "pc_row_height (add_assignment a p) = pc_row_height p"
    by (simp add: pc_row_height_def ports fun_eq_iff)
  show "pc_type_height (add_assignment a p) = pc_type_height p"
    by (simp add: pc_type_height_def rows fun_eq_iff)
  show "hosted (add_assignment a p) k = hosted p k @ (if as_serverId a = k then [a] else [])"
    by (simp add: hosted_def *)
qed

lemma pc_build_height_grows: "getPcBuildCardHeight p k \<le> getPcBuildCardHeight (add_assignment a p) k"
proof (cases "as_serverId a = k")
  case True
  have "sum_list (map (pc_type_height p (hosted p k))
          (filter (\<lambda>t. t \<in> set REQUIRED_PC_BUILD_COMPONENT_TYPES \<or> t \<in> set (map as_type (hosted p k))) ts))
      \<le> sum_list (map (pc_type_height p (hosted p k @ [a]))
          (filter (\<lambda>t. t \<in> set REQUIRED_PC_BUILD_COMPONENT_TYPES \<or> t \<in> set (map as_type (hosted p k @ [a]))) ts))"
    for ts
    using pc_type_height_bound [of p "hosted p k @ [a]"] pc_type_height_snoc
    by (intro sum_filter_mono) (auto intro: order_trans [of 0 34])
  note types = this
  have io: "(if nullish (Option.bind (Option.bind (List.find (\<lambda>a. as_type a = TMotherboard) (hosted p k))
               (\<lambda>a. item_at p (as_itemId a))) it_ports) [] \<noteq> [] then PC_BUILD_MOTHERBOARD_IO_HEIGHT else 0)
      \<le> (if nullish (Option.bind (Option.bind (List.find (\<lambda>a. as_type a = TMotherboard) (hosted p k @ [a]))
               (\<lambda>a. item_at p (as_itemId a))) it_ports) [] \<noteq> [] then PC_BUILD_MOTHERBOARD_IO_HEIGHT else 0)"
    by (cases "List.find (\<lambda>a. as_type a = TMotherboard) (hosted p k)") (simp_all add: find_snoc size_defs)
  show ?thesis
    unfolding getPcBuildCardHeight_def Let_def add_assignment_simps if_P [OF True]
    by (intro add_mono order_refl io types)
next
  case False
  then show ?thesis by (simp add: getPcBuildCardHeight_def)
qed

lemma if_mono_int: "(c \<Longrightarrow> x \<le> x') \<Longrightarrow> (\<not> c \<Longrightarrow> y \<le> y') \<Longrightarrow> (if c then x else y) \<le> (if c then x' else (y' :: int))"
  by simp

lemma nas_height_grows: "getNasCardHeight p k \<le> getNasCardHeight (add_assignment a p) k"
  by (auto simp: getNasCardHeight_def size_defs)

lemma server_height_grows: "getServerCardHeight p k \<le> getServerCardHeight (add_assignment a p) k"
proof -
  let ?H = "hosted p k" and ?H' = "hosted (add_assignment a p) k"
  let ?ports = "\<lambda>b. (as_type b = TNetwork \<or> as_type b = TGpu) \<and> has_ports p b"
  have len: "int (length (filter P ?H)) \<le> int (length (filter P ?H'))" for P by simp
  have some: "(if list_ex P ?H then 1 else 0) \<le> (if list_ex P ?H' then 1 else (0::int))" for P by auto
  have "(2 + max 1 (int (length (filter (\<lambda>a. as_type a = TStorage) ?H)))
          + ((if list_ex (\<lambda>a. as_type a = TGpu) ?H then 1 else 0)
             + (if list_ex (\<lambda>a. as_type a = TNetwork) ?H then 1 else 0))) * SERVER_CARD_ROW_HEIGHT
      \<le> (2 + max 1 (int (length (filter (\<lambda>a. as_type a = TStorage) ?H')))
          + ((if list_ex (\<lambda>a. as_type a = TGpu) ?H' then 1 else 0)
             + (if list_ex (\<lambda>a. as_type a = TNetwork) ?H' then 1 else 0))) * SERVER_CARD_ROW_HEIGHT"
    by (intro mult_right_mono add_mono max.mono order_refl len some) (simp add: size_defs)
  moreover have "int (length (filter ?ports ?H)) * SERVER_CARD_HOSTED_PORT_ROW_HEIGHT
      \<le> int (length (filter ?ports ?H')) * SERVER_CARD_HOSTED_PORT_ROW_HEIGHT"
    by (intro mult_right_mono len) (simp add: size_defs)
  ultimately show ?thesis
    unfolding getServerCardHeight_def Let_def add_assignment_simps(1,2)
    using nas_height_grows [of p k a] by (intro if_mono_int add_mono order_refl) simp_all
qed

lemma canvas_height_grows: "getCanvasItemHeight p k \<le> getCanvasItemHeight (add_assignment a p) k"
  unfolding getCanvasItemHeight_def add_assignment_simps(1)
  using nas_height_grows [of p k a] pc_build_height_grows [of p k a] server_height_grows [of p k a]
  by (simp split: option.split)

lemma unallocated_hosted: "hosted (unallocated p) k = map core (hosted p k)"
  by (simp add: hosted_def unallocated_def filter_map comp_def)

lemma unallocated_item [simp]: "item_at (unallocated p) k = item_at p k"
  by (simp add: unallocated_def item_at_def)

lemma unallocated_ports [simp]: "has_ports (unallocated p) (core a) = has_ports p a"
  by (simp add: has_ports_def)

lemma unallocated_row [simp]: "pc_row_height (unallocated p) (core a) = pc_row_height p a"
  by (simp add: pc_row_height_def)

lemma unallocated_type_height [simp]:
  "pc_type_height (unallocated p) (map core as) = pc_type_height p as"
  by (intro ext) (simp add: pc_type_height_def filter_map comp_def cong: map_cong)

lemma canvas_height_core: "getCanvasItemHeight (unallocated p) k = getCanvasItemHeight p k"
proof -
  have nas: "getNasCardHeight (unallocated p) k = getNasCardHeight p k"
    by (simp add: getNasCardHeight_def unallocated_def list_ex_iff)
  have server: "getServerCardHeight (unallocated p) k = getServerCardHeight p k"
    unfolding Let_def getServerCardHeight_def unallocated_hosted unallocated_item nas filter_map comp_def length_map
      list_ex_map unallocated_ports core_sel ..
  have pc: "getPcBuildCardHeight (unallocated p) k = getPcBuildCardHeight p k"
    unfolding getPcBuildCardHeight_def Let_def unallocated_hosted unallocated_item unallocated_type_height find_map
      map_map comp_def core_sel bind_map_option ..
  show ?thesis unfolding getCanvasItemHeight_def unallocated_item nas server pc ..
qed

lemma canvas_height_frame:
  assumes "pr_assignments p = pr_assignments q" "pr_items p = pr_items q"
  shows "getCanvasItemHeight p k = getCanvasItemHeight q k"
proof -
  have eqs: "item_at p = item_at q" "hosted p = hosted q" "has_ports p = has_ports q" "pc_row_height p = pc_row_height q"
    using assms by (auto simp: item_at_def hosted_def has_ports_def pc_row_height_def fun_eq_iff)
  then have pc: "pc_type_height p = pc_type_height q" by (intro ext) (simp add: pc_type_height_def)
  show ?thesis
    unfolding getCanvasItemHeight_def getServerCardHeight_def getNasCardHeight_def getPcBuildCardHeight_def eqs assms pc ..
qed

lemma canvas_height_cores:
  assumes "map core (pr_assignments p) = map core (pr_assignments q)" "pr_items p = pr_items q"
  shows "getCanvasItemHeight p k = getCanvasItemHeight q k"
  using canvas_height_frame [of "unallocated p" "unallocated q" k] assms
  by (simp add: canvas_height_core) (simp add: unallocated_def)

lemma getPcBuildCardHeight_bound: "276 \<le> getPcBuildCardHeight p k"
proof -
  have "sum_list (map (\<lambda>_. 34) (filter (\<lambda>t. t \<in> set REQUIRED_PC_BUILD_COMPONENT_TYPES) PC_BUILD_COMPONENT_ORDER))
      \<le> sum_list (map (pc_type_height p (hosted p k))
          (filter (\<lambda>t. t \<in> set REQUIRED_PC_BUILD_COMPONENT_TYPES \<or> t \<in> set (map as_type (hosted p k)))
             PC_BUILD_COMPONENT_ORDER))"
    using pc_type_height_bound [of p "hosted p k"]
    by (intro sum_filter_mono) (auto intro: order_trans [of 0 34])
  moreover have "sum_list (map (\<lambda>_. 34 :: int)
      (filter (\<lambda>t. t \<in> set REQUIRED_PC_BUILD_COMPONENT_TYPES) PC_BUILD_COMPONENT_ORDER)) = 204"
    by code_simp
  ultimately show ?thesis
    unfolding getPcBuildCardHeight_def Let_def size_defs by simp
qed

lemma getNasCardHeight_bound: "238 \<le> getNasCardHeight p k"
  by (simp add: getNasCardHeight_def size_defs)

lemma getServerCardHeight_bound: "124 \<le> getServerCardHeight p k"
proof -
  have "0 \<le> int n * 42" "1 \<le> max 1 (int n)" for n by simp_all
  then show ?thesis
    using getNasCardHeight_bound [of p k] unfolding getServerCardHeight_def Let_def size_defs by simp
qed

lemma standalone_heights:
  "123 \<le> getMonitorCardHeight item" "123 \<le> getUpsCardHeight item" "131 \<le> getPowerStripCardHeight item"
  unfolding getMonitorCardHeight_def getUpsCardHeight_def getPowerStripCardHeight_def Let_def case_prod_beta
    STANDALONE_CARD_BASE_HEIGHT_def POWER_STRIP_HEADER_HEIGHT_DELTA_def
  by simp_all

text \<open>The outlets of a UPS are split in two groups that together hold every explicit outlet.\<close>

lemma ups_outlets_explicit:
  assumes "filter (\<lambda>q. p_type q = PAcOutlet) (nullish (it_ports item) []) \<noteq> []"
  shows "fst (ups_outlet_counts item) + snd (ups_outlet_counts item)
    = int (length (filter (\<lambda>q. p_type q = PAcOutlet) (nullish (it_ports item) [])))"
  using assms sum_length_filter_compl
    [of "battery_port (positiveInteger (spec_of item ''batteryBackupOutlets''))"
        "enumerate 0 (filter (\<lambda>q. p_type q = PAcOutlet) (nullish (it_ports item) []))"]
  unfolding ups_outlet_counts_def Let_def by simp

lemma find_unique:
  assumes "g \<in> set gs" and "distinct (map gid gs)"
  shows "List.find (\<lambda>x. gid x = gid g) gs = Some g"
  using assms by (induction gs) (auto simp: rev_image_eqI)

lemma mset_pick_two:
  assumes "distinct (map gid gs)" and "b \<in> set gs" and "s \<in> set gs" and "gid b \<noteq> gid s"
  shows "mset gs = add_mset b (add_mset s (mset (filter (\<lambda>g. gid g \<noteq> gid b \<and> gid g \<noteq> gid s) gs)))"
proof (rule multiset_eqI)
  fix g
  have one: "count (mset gs) x = (if x \<in> set gs then 1 else 0)" for x
    using assms(1) by (auto simp: distinct_map dest: distinct_count_atmost_1 [THEN iffD1])
  have same: "gid x = gid y \<Longrightarrow> x \<in> set gs \<Longrightarrow> y \<in> set gs \<Longrightarrow> x = y" for x y
    using assms(1) by (auto simp: distinct_map dest: inj_onD)
  show "count (mset gs) g
      = count (add_mset b (add_mset s (mset (filter (\<lambda>g. gid g \<noteq> gid b \<and> gid g \<noteq> gid s) gs)))) g"
    using assms(2-4) same [of g b] same [of g s] by (auto simp: one)
qed

text \<open>Bounds: no card is narrower than 176 or lower than 123 pixels, and the card of a switch or a patch panel
  is wide enough for all its port chips in one row, with the gaps and the padding.\<close>

theorem canvas_card_bounds:
  shows "176 \<le> getCanvasItemWidth p k \<and> 123 \<le> getCanvasItemHeight p k
    \<and> (case item_at p k of
         Some item \<Rightarrow> (it_type item = TSwitch \<or> it_type item = TPatchPanel \<longrightarrow>
           36 * int (length (nullish (it_ports item) [])) - 6 + EQUIPMENT_CARD_HORIZONTAL_PADDING
             \<le> getCanvasItemWidth p k)
       | None \<Rightarrow> True)"
proof -
  have "176 \<le> getCanvasItemWidth p k"
    unfolding getCanvasItemWidth_def getEquipmentCardWidth_def Let_def size_defs
    by (simp add: le_max_iff_disj split: option.split)
  moreover have "123 \<le> getCanvasItemHeight p k"
    using order_trans [OF _ getPcBuildCardHeight_bound] order_trans [OF _ getNasCardHeight_bound]
      order_trans [OF _ getServerCardHeight_bound] order_trans [OF _ standalone_heights(3)] standalone_heights(1,2)
    unfolding getCanvasItemHeight_def getEquipmentCardHeight_def EQUIPMENT_CARD_HEIGHT_def
    by (simp split: option.split)
  ultimately show ?thesis
    unfolding getCanvasItemWidth_def getEquipmentCardWidth_def getEquipmentPortColumns_def Let_def size_defs
    by (auto split: option.split)
qed

theorem canvas_card_bounds_witness:
  "176 \<le> getCanvasItemWidth sample_project ''switch:1'' \<and> 123 \<le> getCanvasItemHeight sample_project ''switch:1''
    \<and> 98 \<le> getCanvasItemWidth sample_project ''switch:1''"
proof -
  have i: "item_at sample_project ''switch:1'' = Some sample_switch" by code_simp
  show ?thesis
    using canvas_card_bounds [of sample_project "''switch:1''"]
    unfolding i by (simp add: sample_defs size_defs)
qed

lemma property_of_nullish: "property_of item k = map_of (nullish (it_properties item) []) k"
  by (cases "it_properties item") (simp_all add: property_of_def)

lemma order_name_not_blank: "js_trim (order_name d) \<noteq> []"
  by (cases d) (simp_all add: js_trim_def is_js_space_def)

text \<open>Functional: swapping the outlet groups of a UPS exchanges the battery and the surge group and keeps the
  order of the others: after the property holds the value the card stores for the swap, both groups are at the
  front in the opposite order, and the list is always a rearrangement of the given groups.\<close>

theorem swap_outlet_groups:
  assumes "distinct (map gid gs)" and "b \<in> set gs" and "gid b = ''battery''" and "s \<in> set gs"
    and "gid s = ''surge''"
    and "item_at p k = Some item" and "distinct (map fst (nullish (it_properties item) []))"
    and "item_at (updateItemProperties now p k
           [(UPS_OUTLET_GROUP_ORDER_PROPERTY, order_name (getSwappedUpsOutletGroupOrder item))]) k = Some item'"
  shows "\<exists>x y rest. {x, y} = {b, s}
    \<and> orderUpsOutletGroups gid item gs = x # y # rest \<and> orderUpsOutletGroups gid item' gs = y # x # rest
    \<and> mset (x # y # rest) = mset gs"
proof -
  let ?rest = "filter (\<lambda>g. gid g \<noteq> ''battery'' \<and> gid g \<noteq> ''surge'') gs"
  have find: "List.find (\<lambda>g. gid g = ''battery'') gs = Some b" "List.find (\<lambda>g. gid g = ''surge'') gs = Some s"
    using assms(1-5) find_unique [of b gs gid] find_unique [of s gs gid] by simp_all
  have order: "orderUpsOutletGroups gid i gs
      = (if getUpsOutletGroupOrder i = BatterySurge then b # s # ?rest else s # b # ?rest)" for i
    by (simp add: orderUpsOutletGroups_def find map_filter_simps)
  have "property_of item' UPS_OUTLET_GROUP_ORDER_PROPERTY
      = Some (order_name (getSwappedUpsOutletGroupOrder item))"
    using updated_properties [OF assms(6-8)] unfolding property_of_nullish by (simp add: order_name_not_blank)
  then have "getUpsOutletGroupOrder item' = getSwappedUpsOutletGroupOrder item"
    unfolding getUpsOutletGroupOrder_def [of item']
    by (cases "getSwappedUpsOutletGroupOrder item") simp_all
  moreover have "mset gs = add_mset b (add_mset s (mset ?rest))"
    using mset_pick_two [OF assms(1,2,4)] assms(3,5) by simp
  ultimately show ?thesis
    by (cases "getUpsOutletGroupOrder item")
       (auto simp: order getSwappedUpsOutletGroupOrder_def add_mset_commute intro!: exI)
qed

theorem swap_outlet_groups_witness:
  "\<exists>item'. item_at (updateItemProperties ''t1'' sample_project ''nas:1''
       [(UPS_OUTLET_GROUP_ORDER_PROPERTY, ''surge-battery'')]) ''nas:1'' = Some item'
     \<and> (\<exists>rest. orderUpsOutletGroups id item' [''other'', ''battery'', ''surge''] = ''surge'' # ''battery'' # rest)"
proof -
  let ?item = "blank_item TNas 1"
  let ?q = "updateItemProperties ''t1'' sample_project ''nas:1''
       [(UPS_OUTLET_GROUP_ORDER_PROPERTY, order_name (getSwappedUpsOutletGroupOrder ?item))]"
  have i: "item_at sample_project ''nas:1'' = Some ?item" by code_simp
  have d: "distinct (map fst (nullish (it_properties ?item) []))" by code_simp
  have n: "order_name (getSwappedUpsOutletGroupOrder ?item) = ''surge-battery''" by code_simp
  have o: "orderUpsOutletGroups id ?item [''other'', ''battery'', ''surge''] = [''battery'', ''surge'', ''other'']"
    by code_simp
  obtain item' where new: "item_at ?q ''nas:1'' = Some item'"
    by (simp add: updateItemProperties_def i item_at_set_item)
  have g: "distinct (map id [''other'', ''battery'', ''surge''])" by simp
  show ?thesis
    using swap_outlet_groups [OF g, where b = "''battery''" and s = "''surge''", OF _ _ _ _ i d new] new
    unfolding n o by auto
qed

end
