(* ===== verification/Planner_Stability.thy ===== *)
theory Planner_Stability
  imports Planner_Invariants
begin

text \<open>
  Planning is stable: planning a host again after its plan was stored gives the same allocations.
  The first pass of the second run keeps the stored allocations; the only ones it does not keep, those
  of CPUs whose compatibility is unknown, are decided again with at least the same positions occupied
  and find the same ones first.
\<close>

section \<open>Definitions\<close>

text \<open>The group that the first pass looks up for a stored allocation.\<close>

definition kept_slot :: "plan_context \<Rightarrow> allocation \<Rightarrow> slot_group option" where
  "kept_slot cx al = (if scalar_resource (al_resourceType al) then None
     else List.find (\<lambda>g. Some (slot_id g) = al_groupId al) (snd (requiredGroups (cx_caps cx) (al_resourceType al))))"

definition may_keep :: "plan_context \<Rightarrow> compatibility_result \<Rightarrow> bool" where
  "may_keep cx r = resultCanOccupyResource r (cx_enabled cx)"

text \<open>A scan of the groups that has found no candidate.\<close>

definition no_candidate :: "scan \<Rightarrow> bool" where
  "no_candidate sc \<longleftrightarrow> sc_compatible sc = None \<and> sc_unknown sc = None \<and> sc_incompatible sc = None"

text \<open>The evaluation that the allocation of a planned assignment rests on.\<close>

definition supported :: "plan_context \<Rightarrow> assignment list \<Rightarrow> assignment \<Rightarrow> compatibility_result \<Rightarrow> allocation \<Rightarrow> bool" where
  "supported cx pr b r al \<longleftrightarrow>
     (\<exists>c. itemLookup (cx_items cx) (as_itemId b) = Some c \<and> as_allocation b = Some al
        \<and> alloc_fits (cx_caps cx) c al \<and> allocationSize c (Some (al_resourceType al)) \<noteq> Some 0
        \<and> evaluate_in cx c pr (kept_slot cx al) = Inr r)"

definition keepable :: "plan_context \<Rightarrow> assignment list \<Rightarrow> assignment \<Rightarrow> bool" where
  "keepable cx pr b \<longleftrightarrow> (\<exists>r al. supported cx pr b r al \<and> may_keep cx r)"

text \<open>The planned assignments whose allocation the first pass of the next run keeps.\<close>

fun keepers :: "plan_context \<Rightarrow> assignment list \<Rightarrow> assignment list \<Rightarrow> assignment list" where
  "keepers cx pr [] = []"
| "keepers cx pr (b # bs) = (if keepable cx pr b then b # keepers cx (pr @ [b]) bs else keepers cx (pr @ [b]) bs)"

text \<open>Every stored allocation of a list has support; the allocations that a first pass has kept have.\<close>

fun checked :: "plan_context \<Rightarrow> assignment list \<Rightarrow> assignment list \<Rightarrow> bool" where
  "checked cx pr [] \<longleftrightarrow> True"
| "checked cx pr (b # bs) \<longleftrightarrow>
     (\<forall>al. as_allocation b = Some al \<longrightarrow> (\<exists>r. supported cx pr b r al)) \<and> checked cx (pr @ [b]) bs"

fun kept_from :: "plan_context \<Rightarrow> kept_map \<Rightarrow> assignment list \<Rightarrow> assignment list \<Rightarrow> bool" where
  "kept_from cx kept pr [] \<longleftrightarrow> True"
| "kept_from cx kept pr (a # as) \<longleftrightarrow>
     (\<forall>al r. map_of kept (as_id a) = Some (al, r) \<longrightarrow> supported cx pr a r al \<and> may_keep cx r)
     \<and> kept_from cx kept (pr @ [a]) as"

section \<open>Lemmas\<close>

subsection \<open>Evaluations depend on the items only\<close>

lemma assignedComponents_items:
  assumes "map as_itemId as = map as_itemId bs"
  shows "assignedComponents as = assignedComponents bs"
proof -
  have "List.map_filter (\<lambda>a. itemLookup items (as_itemId a)) xs
      = List.map_filter (itemLookup items) (map as_itemId xs)" for items and xs :: "assignment list"
    by (induction xs) (auto simp: map_filter_simps split: option.split)
  with assms show ?thesis by (simp add: assignedComponents_def fun_eq_iff)
qed

lemma evaluate_in_items:
  assumes "map as_itemId as = map as_itemId bs"
  shows "evaluate_in cx c as slot = evaluate_in cx c bs slot"
proof -
  note eq = assignedComponents_items [OF assms]
  have eff: "effectiveHostForAssignment h as = effectiveHostForAssignment h bs" for h
    by (simp add: effectiveHostForAssignment_def assignedItemOfType_def eq fun_eq_iff)
  have type: "assignedItemOfType as = assignedItemOfType bs"
    unfolding assignedItemOfType_def [abs_def] eq ..
  have rules: "evaluateCpu caps r as items = evaluateCpu caps r bs items"
    "evaluateMemory caps r as items = evaluateMemory caps r bs items"
    "evaluateExpansion caps r as items = evaluateExpansion caps r bs items"
    "evaluateCpuCooler caps r as items = evaluateCpuCooler caps r bs items"
    "evaluatePowerSupply as items = evaluatePowerSupply bs items" for caps r items
    unfolding evaluateCpu_def [abs_def] evaluateMemory_def [abs_def] evaluateExpansion_def [abs_def]
      expansion_slot_rule_def [abs_def] evaluateExpansionPower_def [abs_def] evaluateCpuCooler_def [abs_def]
      evaluatePowerSupply_def [abs_def] type eq by (rule refl)+
  have on: "evaluate_on h e n as = evaluate_on h e n bs" for h e n
    unfolding evaluate_on_def [abs_def] rules type ..
  show ?thesis
    unfolding evaluate_in_def evaluateAssignmentCompatibility_def eff on ..
qed

subsection \<open>Searching with more positions occupied\<close>

lemma positionsAreFree_slots:
  "positionsAreFree occ t g ps \<longleftrightarrow> slots \<lparr>al_resourceType = t, al_groupId = g, al_positions = ps\<rparr> \<inter> taken occ = {}"
  using positions.free_iff [of occ "\<lparr>al_resourceType = t, al_groupId = g, al_positions = ps\<rparr>"] by simp

lemma positionsAreFree_antimono:
  "taken occ \<subseteq> taken occ' \<Longrightarrow> positionsAreFree occ' t g ps \<Longrightarrow> positionsAreFree occ t g ps"
  unfolding positionsAreFree_slots by blast

lemma find_None_mono: "List.find P xs = None \<Longrightarrow> (\<And>x. Q x \<Longrightarrow> P x) \<Longrightarrow> List.find Q xs = None"
  by (auto simp: find_None_iff)

lemma find_same:
  assumes "List.find P xs = Some x" "\<And>y. Q y \<Longrightarrow> P y" "Q x"
  shows "List.find Q xs = Some x"
  using assms(1)
proof (induction xs)
  case (Cons y xs)
  then show ?case using assms(2) [of y] assms(3) by (auto split: if_splits)
qed simp

lemma firstConsecutive_None_mono:
  assumes "firstConsecutivePositions occ t g n w = None" "taken occ \<subseteq> taken occ'"
  shows "firstConsecutivePositions occ' t g n w = None"
proof -
  have "positionsAreFree occ' t g ps \<Longrightarrow> positionsAreFree occ t g ps" for ps
    by (rule positionsAreFree_antimono [OF assms(2)])
  with assms(1) show ?thesis
    unfolding firstConsecutivePositions_def by (auto split: option.splits if_splits intro: find_None_mono)
qed

lemma firstConsecutive_same:
  assumes "firstConsecutivePositions occ t g slts w = Some ps" "taken occ \<subseteq> taken occ'" "positionsAreFree occ' t g ps"
  shows "firstConsecutivePositions occ' t g slts w = Some ps"
proof -
  from assms(1) obtain n start where n: "slts = Some n"
      "\<not> (\<not> isInteger_rat n \<or> n \<le> 0 \<or> \<not> isInteger_rat w \<or> w \<le> 0 \<or> n < w)"
    and f: "List.find (\<lambda>start. positionsAreFree occ t g (consecutive start \<lfloor>w\<rfloor>)) [0..\<lfloor>n\<rfloor> - \<lfloor>w\<rfloor>] = Some start"
    and ps: "ps = consecutive start \<lfloor>w\<rfloor>"
    by (auto simp: firstConsecutivePositions_def split: option.splits if_splits)
  have "List.find (\<lambda>start. positionsAreFree occ' t g (consecutive start \<lfloor>w\<rfloor>)) [0..\<lfloor>n\<rfloor> - \<lfloor>w\<rfloor>] = Some start"
    by (rule find_same [OF f positionsAreFree_antimono [OF assms(2)]]) (use assms(3) ps in simp_all)
  with n ps show ?thesis by (simp add: firstConsecutivePositions_def)
qed

lemma no_candidate_step:
  assumes "no_candidate (scan_group e t g ps r sc)"
  shows "no_candidate sc" and "no_candidate sc2 \<Longrightarrow> ps2 = None \<or> ps2 = ps \<Longrightarrow> no_candidate (scan_group e t g ps2 r sc2)"
  using assms unfolding no_candidate_def scan_group_def or_else_def
  by (cases "cr_status r"; cases ps; auto split: option.splits if_splits)+

lemma scan_groups_start:
  "scan_groups cx c pr t w occ gs sc = Inr sc' \<Longrightarrow> no_candidate sc' \<Longrightarrow> no_candidate sc"
  by (induction gs arbitrary: sc) (auto simp: Inr_iffs dest: no_candidate_step(1) split: if_splits)

lemma scan_group_none_mono:
  assumes "no_candidate (scan_group e t g ps r sc)" "no_candidate sc2" "ps = None \<longrightarrow> ps2 = None"
  shows "no_candidate (scan_group e t g ps2 r sc2)"
  using assms unfolding no_candidate_def scan_group_def or_else_def
  by (cases "cr_status r"; cases ps; cases ps2; auto split: option.splits if_splits)

lemma scan_groups_none:
  assumes "scan_groups cx c pr t w occ gs sc = Inr sc'" "no_candidate sc'" "taken occ \<subseteq> taken occ'" "no_candidate sc2"
  shows "\<exists>sc2'. scan_groups cx c pr t w occ' gs sc2 = Inr sc2' \<and> no_candidate sc2'"
  using assms(1,4)
proof (induction gs arbitrary: sc sc2)
  case (Cons g gs)
  define fc where "fc = (\<lambda>oc. firstConsecutivePositions oc t (Some (slot_id g)) (Some (slot_count g)) w)"
  have fc: "firstConsecutivePositions oc t (Some (slot_id g)) (Some (slot_count g)) w = fc oc" for oc
    by (simp only: fc_def)
  from Cons.prems(1) obtain r where r: "evaluate_in cx c pr (Some g) = Inr r"
    and rest: "(if sc_compatible (scan_group (cx_enabled cx) t g (fc occ) r sc) \<noteq> None
        then Inr (scan_group (cx_enabled cx) t g (fc occ) r sc)
        else scan_groups cx c pr t w occ gs (scan_group (cx_enabled cx) t g (fc occ) r sc)) = Inr sc'"
    unfolding scan_groups.simps try_eval_Inr_iff Let_def fc by blast
  have first: "no_candidate (scan_group (cx_enabled cx) t g (fc occ) r sc)
    \<and> scan_groups cx c pr t w occ gs (scan_group (cx_enabled cx) t g (fc occ) r sc) = Inr sc'"
  proof (cases "sc_compatible (scan_group (cx_enabled cx) t g (fc occ) r sc)")
    case None
    with rest assms(2) show ?thesis by (auto intro: scan_groups_start)
  next
    case (Some x)
    with rest assms(2) show ?thesis by (simp add: no_candidate_def)
  qed
  have "fc occ = None \<longrightarrow> fc occ' = None"
    unfolding fc_def using firstConsecutive_None_mono [OF _ assms(3)] by blast
  then have next_none: "no_candidate (scan_group (cx_enabled cx) t g (fc occ') r sc2)"
    by (rule scan_group_none_mono [OF conjunct1 [OF first] Cons.prems(2)])
  with Cons.IH first obtain sc2' where
    "scan_groups cx c pr t w occ' gs (scan_group (cx_enabled cx) t g (fc occ') r sc2) = Inr sc2'" "no_candidate sc2'"
    by blast
  moreover have comp_none: "sc_compatible (scan_group (cx_enabled cx) t g (fc occ') r sc2) = None"
    using next_none by (simp only: no_candidate_def)
  have "scan_groups cx c pr t w occ' (g # gs) sc2
      = scan_groups cx c pr t w occ' gs (scan_group (cx_enabled cx) t g (fc occ') r sc2)"
    unfolding scan_groups.simps r try_eval_simps Let_def fc comp_none by (simp only: simp_thms if_False)
  ultimately show ?case by (simp only:) blast
qed simp

lemma decide_grouped_None:
  assumes "decide_grouped cx c pr t w occ = Inr (r, None)" "taken occ \<subseteq> taken occ'"
  shows "\<exists>r'. decide_grouped cx c pr t w occ' = Inr (r', None)"
proof -
  let ?valid = "snd (requiredGroups (cx_caps cx) t)"
  define sel where "sel = (\<lambda>sc :: scan. first_some (sc_compatible sc) (first_some (sc_unknown sc) (sc_incompatible sc)))"
  have sel: "sel sc = None \<longleftrightarrow> no_candidate sc" for sc
    by (auto simp: sel_def no_candidate_def first_some_def split: option.splits)
  from assms(1) obtain sc where sc: "scan_groups cx c pr t w occ ?valid empty_scan = Inr sc"
    and d: "(case sel sc of
          Some (g, ps, result) \<Rightarrow>
            Inr (result, Some \<lparr>al_resourceType = t, al_groupId = Some (slot_id g), al_positions = ps\<rparr>)
        | None \<Rightarrow>
            try_eval (evaluate_in cx c pr None) (\<lambda>base.
              Inr (nullish (first_some (sc_unknownResult sc) (sc_exhaustedUnknown sc))
                     (if ?valid = [] \<and> fst (requiredGroups (cx_caps cx) t) \<noteq> [] then invalidResourceResult base t
                      else nullish (first_some (sc_exhaustedIncompatible sc) (sc_incompatibleResult sc)) base), None)))
      = Inr (r, None)"
    unfolding decide_grouped_def Let_def case_prod_beta try_eval_Inr_iff sel_def by blast
  have none: "sel sc = None" using d by (cases "sel sc") auto
  with d obtain base where base: "evaluate_in cx c pr None = Inr base" by (auto simp: try_eval_Inr_iff)
  have "no_candidate empty_scan" by (simp add: no_candidate_def empty_scan_def)
  with scan_groups_none [OF sc _ assms(2)] none obtain sc2 where
    sc2: "scan_groups cx c pr t w occ' ?valid empty_scan = Inr sc2" and "sel sc2 = None"
    unfolding sel by blast
  then show ?thesis
    unfolding decide_grouped_def Let_def case_prod_beta sc2 sel_def try_eval_simps base by simp
qed

lemma decide_scalar_None:
  assumes "decide_scalar cx c pr t w occ = Inr (r, None)" "taken occ \<subseteq> taken occ'"
  shows "\<exists>r'. decide_scalar cx c pr t w occ' = Inr (r', None)"
proof -
  from assms(1) obtain r0 where r0: "evaluate_in cx c pr None = Inr r0" by (auto simp: decide_scalar_def Inr_iffs)
  show ?thesis
    using assms(1) firstConsecutive_None_mono [OF _ assms(2), of t None "scalarCapacity (cx_caps cx) t" w]
    unfolding decide_scalar_def r0 by (auto split: if_splits option.splits)
qed

lemma decide_None:
  assumes "decide cx c pr occ = Inr (r, None)" "taken occ \<subseteq> taken occ'"
  shows "\<exists>r'. decide cx c pr occ' = Inr (r', None)"
  using assms decide_scalar_None [OF _ assms(2)] decide_grouped_None [OF _ assms(2)] unfolding decide_def Let_def
  by (cases "resourceTypeFor_js (cx_caps cx) c") (auto split: if_splits)

lemma decide_items:
  assumes "map as_itemId pr = map as_itemId pr'"
  shows "decide cx c pr occ = decide cx c pr' occ"
proof -
  note eq = evaluate_in_items [OF assms]
  have "scan_groups cx c pr t w oc gs sc = scan_groups cx c pr' t w oc gs sc" for t w oc gs sc
  proof (induction gs arbitrary: sc)
    case (Cons g gs)
    show ?case unfolding scan_groups.simps eq Cons.IH ..
  qed simp
  then have scan: "scan_groups cx c pr = scan_groups cx c pr'" by (intro ext)
  show ?thesis unfolding decide_def decide_scalar_def decide_grouped_def eq scan ..
qed

lemma valid_slots_unique:
  assumes "g \<in> set (valid_slots gs)" "g' \<in> set (valid_slots gs)" "slot_id g = slot_id g'"
  shows "g = g'"
proof -
  let ?gs = "nullish gs []"
  have one: "count_list (map slot_id ?gs) (slot_id g) = 1" and mem: "g \<in> set ?gs" "g' \<in> set ?gs"
    using assms by (auto simp: valid_slots_def validResourceGroups_def)
  have "length (filter (\<lambda>x. slot_id x = slot_id g) ?gs) = 1"
    using one by (simp add: count_list_eq_length_filter filter_map comp_def eq_commute)
  then obtain y where "filter (\<lambda>x. slot_id x = slot_id g) ?gs = [y]" by (auto simp: length_Suc_conv)
  then have "{x \<in> set ?gs. slot_id x = slot_id g} = {y}" by (metis set_filter list.set(1) list.set(2))
  with mem assms(3) show ?thesis by (metis (mono_tags, lifting) mem_Collect_eq singletonD)
qed

lemma find_unique_key:
  assumes "g \<in> set gs" "P g" "\<And>x. x \<in> set gs \<Longrightarrow> P x \<Longrightarrow> x = g"
  shows "List.find P gs = Some g"
  using assms
proof (induction gs)
  case (Cons y gs)
  show ?case
  proof (cases "P y")
    case True
    then have "y = g" using Cons.prems(3) [of y] by simp
    with True show ?thesis by simp
  next
    case False
    with Cons.prems(1,2) have "g \<in> set gs" by auto
    then have "List.find P gs = Some g"
      by (rule Cons.IH [OF _ Cons.prems(2)]) (rule Cons.prems(3), auto)
    with False show ?thesis by simp
  qed
qed simp

lemma kept_slot_group:
  assumes "\<not> scalar_resource t" "g \<in> set (snd (requiredGroups (cx_caps cx) t))"
  shows "kept_slot cx \<lparr>al_resourceType = t, al_groupId = Some (slot_id g), al_positions = ps\<rparr> = Some g"
proof -
  have "List.find (\<lambda>x. Some (slot_id x) = Some (slot_id g)) (valid_slots (slot_groups (cx_caps cx) t)) = Some g"
  proof (rule find_unique_key)
    show g: "g \<in> set (valid_slots (slot_groups (cx_caps cx) t))" using assms(2) by (simp add: requiredGroups_def)
    fix x assume "x \<in> set (valid_slots (slot_groups (cx_caps cx) t))" "Some (slot_id x) = Some (slot_id g)"
    then show "x = g" using valid_slots_unique [OF _ g] by simp
  qed simp
  with assms(1) show ?thesis by (simp only: kept_slot_def requiredGroups_def snd_conv if_False allocation.simps)
qed

lemma decide_supported:
  assumes "decide cx c pr occ = Inr (r, Some al)"
  shows "evaluate_in cx c pr (kept_slot cx al) = Inr r"
    and "may_keep cx r \<or> scalar_resource (al_resourceType al)"
proof -
  from assms obtain t where t: "resourceTypeFor_js (cx_caps cx) c = Some t"
    by (auto simp: decide_def Inr_iffs split: option.splits)
  have "evaluate_in cx c pr (kept_slot cx al) = Inr r \<and> (may_keep cx r \<or> scalar_resource (al_resourceType al))"
  proof (cases "scalar_resource t")
    case True
    with assms t obtain w where "decide_scalar cx c pr t w occ = Inr (r, Some al)"
      by (auto simp: decide_def Inr_iffs split: if_splits)
    with True show ?thesis
      by (auto simp: decide_scalar_def Inr_iffs kept_slot_def split: option.splits if_splits)
  next
    case False
    with assms t obtain w where "decide_grouped cx c pr t w occ = Inr (r, Some al)"
      by (auto simp: decide_def Inr_iffs split: if_splits)
    from decide_grouped_Some [OF this] obtain g ps where
      "candidate_ok cx c pr t w occ (snd (requiredGroups (cx_caps cx) t)) (g, ps, r)"
      "al = \<lparr>al_resourceType = t, al_groupId = Some (slot_id g), al_positions = ps\<rparr>" by blast
    with False show ?thesis by (auto simp: candidate_ok_def kept_slot_group may_keep_def)
  qed
  then show "evaluate_in cx c pr (kept_slot cx al) = Inr r" "may_keep cx r \<or> scalar_resource (al_resourceType al)"
    by blast+
qed

text \<open>The same decision with more positions occupied, for a CPU that is allocated in spite of missing data.\<close>

lemma decide_again:
  assumes "decide cx c pr occ = Inr (r, Some al)" "scalar_resource (al_resourceType al)"
    and "taken occ \<subseteq> taken occ'" "slots al \<inter> taken occ' = {}"
  shows "decide cx c pr occ' = Inr (r, Some al)"
proof -
  from assms(1) obtain t where t: "resourceTypeFor_js (cx_caps cx) c = Some t"
    by (auto simp: decide_def Inr_iffs split: option.splits)
  define w where "w = nullish (allocationSize c (Some t)) 0"
  have nz: "w \<noteq> 0" using assms(1) t by (auto simp: decide_def Inr_iffs w_def)
  have scalar: "scalar_resource t"
  proof (rule ccontr)
    assume "\<not> scalar_resource t"
    with assms(1) t nz have "decide_grouped cx c pr t w occ = Inr (r, Some al)" by (simp add: decide_def w_def)
    from decide_grouped_Some [OF this] \<open>\<not> scalar_resource t\<close> assms(2) show False by auto
  qed
  with assms(1) t nz have d: "decide_scalar cx c pr t w occ = Inr (r, Some al)" by (simp add: decide_def w_def)
  then obtain ps where ev: "evaluate_in cx c pr None = Inr r"
    and can: "resultCanOccupyResource r (cx_enabled cx) \<or> (t = ResCpu \<and> cr_status r = UnknownStatus)"
    and cap: "scalarCapacity (cx_caps cx) t \<noteq> None"
    and ps: "firstConsecutivePositions occ t None (scalarCapacity (cx_caps cx) t) w = Some ps"
    and al: "al = \<lparr>al_resourceType = t, al_groupId = None, al_positions = ps\<rparr>"
    by (auto simp: decide_scalar_def Inr_iffs split: option.splits if_splits)
  have "positionsAreFree occ' t None ps" using assms(4) by (simp add: positionsAreFree_slots al)
  from firstConsecutive_same [OF ps assms(3) this]
  have "decide_scalar cx c pr t w occ' = Inr (r, Some al)"
    using can cap by (simp add: decide_scalar_def ev al)
  with t nz scalar show ?thesis by (simp add: decide_def w_def)
qed


lemma keep_supported:
  assumes "keep_allocation cx pr occ a = Inr (Some (al, r))"
  shows "supported cx pr a r al" "may_keep cx r"
proof -
  from assms obtain c where c: "itemLookup (cx_items cx) (as_itemId a) = Some c" and a: "as_allocation a = Some al"
    by (auto simp: keep_allocation_def Inr_iffs split: option.splits if_splits)
  from assms c a obtain t where t: "resourceTypeFor_js (cx_caps cx) c = Some t"
    by (auto simp: keep_allocation_def split: option.splits)
  define w where "w = nullish (allocationSize c (Some t)) 0"
  define slot where "slot = (if scalar_resource t then None
    else List.find (\<lambda>g. Some (slot_id g) = al_groupId al) (snd (requiredGroups (cx_caps cx) t)))"
  from assms c a t have nz: "w \<noteq> 0" by (auto simp: keep_allocation_def w_def split: if_splits)
  from assms c a t nz have m: "allocationMatchesResource al t slot w occ (scalarCapacity (cx_caps cx) t)"
    "evaluate_in cx c pr slot = Inr r" "resultCanOccupyResource r (cx_enabled cx)"
    unfolding keep_allocation_def Let_def w_def [symmetric] slot_def [symmetric]
    by (auto simp add: w_def [symmetric] slot_def [symmetric] Inr_iffs split: if_splits)
  then have "slot = kept_slot cx al" by (auto simp: allocationMatchesResource_def slot_def kept_slot_def)
  moreover have "al_resourceType al = t" using m(1) by (auto simp: allocationMatchesResource_def)
  moreover have "allocationSize c (Some t) \<noteq> Some 0" using nz by (auto simp: w_def)
  ultimately show "supported cx pr a r al"
    using m(2) c a keep_allocation_sound(3) [OF assms] by (auto simp: supported_def)
  show "may_keep cx r" using m(3) by (simp add: may_keep_def)
qed

lemma supported_fun:
  "supported cx pr b r al \<Longrightarrow> supported cx pr b r' al' \<Longrightarrow> r' = r \<and> al' = al"
  by (auto simp: supported_def)

lemma supported_items:
  "map as_itemId pr = map as_itemId pr' \<Longrightarrow> supported cx pr b r al = supported cx pr' b r al"
  using evaluate_in_items [of pr pr'] by (simp add: supported_def)

text \<open>A stored allocation with support is kept when its positions are free and its evaluation allows it.\<close>

lemma keep_again:
  assumes "supported cx pr b r al" "slots al \<inter> taken occ = {}"
  shows "keep_allocation cx pr occ b = Inr (if may_keep cx r then Some (al, r) else None)"
proof -
  from assms(1) obtain c where c: "itemLookup (cx_items cx) (as_itemId b) = Some c" "as_allocation b = Some al"
    and fits: "alloc_fits (cx_caps cx) c al" and ev: "evaluate_in cx c pr (kept_slot cx al) = Inr r"
    and size: "allocationSize c (Some (al_resourceType al)) \<noteq> Some 0"
    by (auto simp: supported_def)
  define t where "t = al_resourceType al"
  from fits obtain w where w: "resourceTypeFor_js (cx_caps cx) c = Some t" "allocationSize c (Some t) = Some w"
    "positionsAreConsecutive (al_positions al) w" by (auto simp: alloc_fits_def t_def)
  have free: "positionsAreFree occ t (al_groupId al) (al_positions al)"
    using assms(2) positions.free_iff [of occ al] by (simp add: t_def)
  have nz: "w \<noteq> 0" using size w(2) by (simp add: t_def)
  show ?thesis
    proof (cases "scalar_resource t")
      case True
      with fits have "al_groupId al = None \<and> (\<exists>n. scalarCapacity (cx_caps cx) t = Some n \<and> (\<forall>p \<in> set (al_positions al). of_int p < n))"
        by (auto simp: alloc_fits_def t_def)
      then have "allocationMatchesResource al t None w occ (scalarCapacity (cx_caps cx) t)"
        using True w(3) free by (auto simp: allocationMatchesResource_def t_def list_all_iff)
      moreover have "kept_slot cx al = None" using True by (simp add: kept_slot_def t_def)
      ultimately show ?thesis
        using c w ev nz True by (simp add: keep_allocation_def may_keep_def)
    next
      case False
      with fits obtain g where g: "g \<in> set (snd (requiredGroups (cx_caps cx) t))" "al_groupId al = Some (slot_id g)"
        "\<forall>p \<in> set (al_positions al). of_int p < slot_count g" by (auto simp: alloc_fits_def t_def)
      have "al = \<lparr>al_resourceType = t, al_groupId = Some (slot_id g), al_positions = al_positions al\<rparr>"
        using g(2) by (cases al) (simp add: t_def)
      with kept_slot_group [OF False g(1), of "al_positions al"] have slot: "kept_slot cx al = Some g" by simp
      then have find: "List.find (\<lambda>g. Some (slot_id g) = al_groupId al) (snd (requiredGroups (cx_caps cx) t)) = Some g"
        using False by (simp add: kept_slot_def t_def)
      have "allocationMatchesResource al t (Some g) w occ cap" for cap
        using False w(3) g free by (auto simp: allocationMatchesResource_def t_def list_all_iff)
      then show ?thesis
        using c w ev slot nz False find by (simp add: keep_allocation_def may_keep_def)
    qed
qed

subsection \<open>The first pass of the second run\<close>

lemma keepable_items:
  "map as_itemId pr = map as_itemId pr' \<Longrightarrow> keepable cx pr b = keepable cx pr' b"
  using supported_items [of pr pr'] by (simp add: keepable_def)

lemma keepers_items:
  "map as_itemId pr = map as_itemId pr' \<Longrightarrow> keepers cx pr bs = keepers cx pr' bs"
proof (induction bs arbitrary: pr pr')
  case (Cons b bs)
  have "map as_itemId (pr @ [b]) = map as_itemId (pr' @ [b])" using Cons.prems by simp
  from Cons.IH [OF this] keepable_items [OF Cons.prems] show ?case by simp
qed simp

lemma checked_items:
  "map as_itemId pr = map as_itemId pr' \<Longrightarrow> checked cx pr bs = checked cx pr' bs"
proof (induction bs arbitrary: pr pr')
  case (Cons b bs)
  have "map as_itemId (pr @ [b]) = map as_itemId (pr' @ [b])" using Cons.prems by simp
  from Cons.IH [OF this] supported_items [OF Cons.prems] show ?case by simp
qed simp

lemma set_keepers: "set (keepers cx pr bs) \<subseteq> set bs"
  by (induction bs arbitrary: pr) auto

lemma preserve_again:
  assumes "checked cx pr bs" "disjoint_allocations bs" "\<forall>b \<in> set bs. slots_of b \<inter> taken occ = {}"
    and "distinct (map as_id bs)"
  shows "\<exists>occ' kept'. preserve_loop cx pr occ kept bs = Inr (occ', kept')
     \<and> taken occ' = taken occ \<union> \<Union> (slots_of ` set (keepers cx pr bs))
     \<and> (\<forall>b \<in> set (keepers cx pr bs). map_option fst (map_of kept' (as_id b)) = as_allocation b)
     \<and> (\<forall>n. n \<notin> as_id ` set (keepers cx pr bs) \<longrightarrow> map_of kept' n = map_of kept n)"
  using assms
proof (induction bs arbitrary: pr occ kept)
  case (Cons b bs)
  have rest: "checked cx (pr @ [b]) bs" "disjoint_allocations bs" "distinct (map as_id bs)"
    using Cons.prems by (auto simp: disjoint_allocations_def)
  have apart: "slots_of x \<inter> slots_of b = {}" if "x \<in> set bs" for x
    using Cons.prems(2) that by (auto simp: disjoint_allocations_def alloc_disjoint_slots)
  show ?case
  proof (cases "keepable cx pr b")
    case True
    then obtain r al where sup: "supported cx pr b r al" "may_keep cx r" by (auto simp: keepable_def)
    then have al: "as_allocation b = Some al" by (auto simp: supported_def)
    then have slots: "slots_of b = slots al" by (simp add: slots_of_def)
    have keep: "keep_allocation cx pr occ b = Inr (Some (al, r))"
      using keep_again [OF sup(1), of occ] sup(2) Cons.prems(3) slots by simp
    have "\<forall>x \<in> set bs. slots_of x \<inter> taken (reservePositions occ al) = {}"
      using Cons.prems(3) apart slots by (auto simp: positions.occupied_reserve)
    from Cons.IH [OF rest(1,2) this rest(3), of "AList.update (as_id b) (al, r) kept"] obtain occ' kept' where
      IH: "preserve_loop cx (pr @ [b]) (reservePositions occ al) (AList.update (as_id b) (al, r) kept) bs = Inr (occ', kept')"
        "taken occ' = taken (reservePositions occ al) \<union> \<Union> (slots_of ` set (keepers cx (pr @ [b]) bs))"
        "\<forall>b \<in> set (keepers cx (pr @ [b]) bs). map_option fst (map_of kept' (as_id b)) = as_allocation b"
        "\<forall>n. n \<notin> as_id ` set (keepers cx (pr @ [b]) bs) \<longrightarrow> map_of kept' n = map_of (AList.update (as_id b) (al, r) kept) n"
      by blast
    have "as_id b \<notin> as_id ` set (keepers cx (pr @ [b]) bs)"
      using Cons.prems(4) set_keepers [of cx "pr @ [b]" bs] by auto
    with IH True al slots keep show ?thesis
      by (auto simp: update_conv' positions.occupied_reserve)
  next
    case False
    have keep: "keep_allocation cx pr occ b = Inr None"
    proof (cases "as_allocation b")
      case None
      then show ?thesis by (simp add: keep_allocation_def split: option.split)
    next
      case (Some al)
      with Cons.prems(1) obtain r where sup: "supported cx pr b r al" by auto
      with False have "\<not> may_keep cx r" by (auto simp: keepable_def)
      with keep_again [OF sup, of occ] Cons.prems(3) Some show ?thesis by (simp add: slots_of_def)
    qed
    have "\<forall>x \<in> set bs. slots_of x \<inter> taken occ = {}" using Cons.prems(3) by simp
    from Cons.IH [OF rest(1,2) this rest(3), of kept] keep False show ?thesis by simp
  qed
qed simp

lemma preserve_loop_other:
  "preserve_loop cx pr occ kept as = Inr (occ', kept') \<Longrightarrow> n \<notin> as_id ` set as \<Longrightarrow> map_of kept' n = map_of kept n"
  by (induction as arbitrary: pr occ kept) (auto simp: try_eval_Inr_iff update_conv' split: option.splits)

lemma preserve_loop_kept:
  assumes "preserve_loop cx pr occ kept as = Inr (occ', kept')" "distinct (map as_id as)"
    and "\<forall>a \<in> set as. map_of kept (as_id a) = None"
  shows "kept_from cx kept' pr as"
  using assms
proof (induction as arbitrary: pr occ kept)
  case (Cons a as)
  from Cons.prems(1) obtain k where k: "keep_allocation cx pr occ a = Inr k"
    and rest: "(case k of None \<Rightarrow> preserve_loop cx (pr @ [a]) occ kept as
      | Some (al, r) \<Rightarrow> preserve_loop cx (pr @ [a]) (reservePositions occ al)
          (AList.update (as_id a) (al, r) kept) as) = Inr (occ', kept')"
    by (auto simp: try_eval_Inr_iff)
  have ids: "distinct (map as_id as)" "as_id a \<notin> as_id ` set as" using Cons.prems(2) by auto
  show ?case
  proof (cases k)
    case None
    with rest have loop: "preserve_loop cx (pr @ [a]) occ kept as = Inr (occ', kept')" by simp
    with preserve_loop_other [OF loop ids(2)] Cons.IH [OF loop ids(1)] Cons.prems(3) show ?thesis by simp
  next
    case (Some e)
    obtain al r where e: "e = (al, r)" by (cases e)
    let ?kept = "AList.update (as_id a) (al, r) kept"
    from rest Some e have loop: "preserve_loop cx (pr @ [a]) (reservePositions occ al) ?kept as = Inr (occ', kept')"
      by simp
    have "\<forall>x \<in> set as. map_of ?kept (as_id x) = None"
      using Cons.prems(3) ids(2) by (auto simp: update_conv' image_iff)
    with Cons.IH [OF loop ids(1)] preserve_loop_other [OF loop ids(2)] keep_supported k Some e show ?thesis
      by (simp add: update_conv')
  qed
qed simp

subsection \<open>The second pass of the second run\<close>

text \<open>What the first run plans has support, so it is checked for the second run.\<close>

lemma allocation_same: "as_allocation a = Some al \<Longrightarrow> a\<lparr>as_allocation := Some al\<rparr> = a"
  by (cases a) simp

lemma decide_checked:
  assumes "itemLookup (cx_items cx) (as_itemId a) = Some c" "decide cx c pr occ = Inr (r, Some al)"
  shows "supported cx pr (a\<lparr>as_allocation := Some al\<rparr>) r al"
proof -
  have "allocationSize c (Some (al_resourceType al)) \<noteq> Some 0"
  proof
    assume zero: "allocationSize c (Some (al_resourceType al)) = Some 0"
    moreover have "resourceTypeFor_js (cx_caps cx) c = Some (al_resourceType al)"
      using decide_sound(1) [OF assms(2)] by (auto simp: alloc_fits_def)
    ultimately show False using assms(2) by (auto simp: decide_def Inr_iffs)
  qed
  with assms decide_sound(1) [OF assms(2)] decide_supported(1) [OF assms(2)] show ?thesis
    by (simp add: supported_def)
qed

lemma kept_from_items:
  "map as_itemId pr = map as_itemId pr' \<Longrightarrow> kept_from cx kept pr as = kept_from cx kept pr' as"
proof (induction as arbitrary: pr pr')
  case (Cons a as)
  have "map as_itemId (pr @ [a]) = map as_itemId (pr' @ [a])" using Cons.prems by simp
  from Cons.IH [OF this] supported_items [OF Cons.prems] show ?case by simp
qed simp

lemma plan_checked:
  assumes "plan_loop cx kept pr occ as = Inr out" "kept_from cx kept pr as"
  shows "checked cx pr (map fst out)"
  using assms
proof (induction as arbitrary: pr occ out)
  case (Cons a as)
  have IH: "checked cx (pr @ [b]) (map fst rest)"
    if "plan_loop cx kept (pr @ [x]) oc as = Inr rest" "as_itemId x = as_itemId a" "as_itemId b = as_itemId a" for x b oc rest
  proof -
    have "map as_itemId (pr @ [a]) = map as_itemId (pr @ [x])" "map as_itemId (pr @ [x]) = map as_itemId (pr @ [b])"
      using that(2,3) by simp_all
    note items = kept_from_items [OF this(1), of cx kept as] checked_items [OF this(2), of cx "map fst rest"]
    from Cons.prems(2) Cons.IH [OF that(1)] items show ?thesis by simp
  qed
  from Cons.prems(1) show ?case
  proof (cases rule: plan_loop_Cons)
    case (gone rest)
    then show ?thesis using IH by simp
  next
    case (kept c al r rest)
    with Cons.prems(2) have "supported cx pr a r al" by simp
    moreover from this have "a\<lparr>as_allocation := Some al\<rparr> = a" by (auto simp: supported_def allocation_same)
    ultimately show ?thesis using IH [OF kept(3)] kept(4) by (auto simp: supported_def)
  next
    case (new c al r rest)
    then show ?thesis using IH [OF new(4)] decide_checked [OF new(1), of pr occ r] by (cases al) auto
  qed
qed simp


text \<open>The positions that the first run keeps are kept again.\<close>

lemma preserve_loop_taken:
  "preserve_loop cx pr occ kept as = Inr (occ', kept') \<Longrightarrow> distinct (map as_id as)
     \<Longrightarrow> taken occ' \<subseteq> taken occ \<union> \<Union> (kept_slots kept' ` set as)"
proof (induction as arbitrary: pr occ kept)
  case (Cons a as)
  from Cons.prems(1) obtain k where k: "keep_allocation cx pr occ a = Inr k"
    and rest: "(case k of None \<Rightarrow> preserve_loop cx (pr @ [a]) occ kept as
      | Some (al, r) \<Rightarrow> preserve_loop cx (pr @ [a]) (reservePositions occ al)
          (AList.update (as_id a) (al, r) kept) as) = Inr (occ', kept')"
    by (auto simp: try_eval_Inr_iff)
  have ids: "distinct (map as_id as)" "as_id a \<notin> as_id ` set as" using Cons.prems(2) by auto
  show ?case
  proof (cases k)
    case None
    with rest have loop: "preserve_loop cx (pr @ [a]) occ kept as = Inr (occ', kept')" by simp
    from Cons.IH [OF loop ids(1)] show ?thesis by auto
  next
    case (Some e)
    obtain al r where e: "e = (al, r)" by (cases e)
    from rest Some e have loop: "preserve_loop cx (pr @ [a]) (reservePositions occ al)
        (AList.update (as_id a) (al, r) kept) as = Inr (occ', kept')" by simp
    have "kept_slots kept' a = slots al"
      using preserve_loop_other [OF loop ids(2)] by (simp add: kept_slots_def update_conv')
    with Cons.IH [OF loop ids(1)] show ?thesis by (auto simp: positions.occupied_reserve)
  qed
qed simp

lemma plan_keepers:
  assumes "plan_loop cx kept pr occ as = Inr out" "kept_from cx kept pr as" "a \<in> set as"
  shows "kept_slots kept a = {} \<or> (\<exists>b \<in> set (keepers cx pr (map fst out)). kept_slots kept a = slots_of b)
     \<or> itemLookup (cx_items cx) (as_itemId a) = None"
  using assms
proof (induction as arbitrary: pr occ out)
  case (Cons x as)
  have IH: ?case
    if rest: "plan_loop cx kept (pr @ [y]) oc as = Inr rest" "out = (b, r) # rest"
      and items: "as_itemId y = as_itemId x" "as_itemId b = as_itemId x" and mem: "a \<in> set as" for y b r oc rest
  proof -
    have prior: "map as_itemId (pr @ [x]) = map as_itemId (pr @ [y])" "map as_itemId (pr @ [y]) = map as_itemId (pr @ [b])"
      using items by simp_all
    from Cons.prems(2) kept_from_items [OF prior(1), of cx kept as] have "kept_from cx kept (pr @ [y]) as" by simp
    from Cons.IH [OF rest(1) this mem] keepers_items [OF prior(2), of cx "map fst rest"] rest(2) show ?thesis
      by auto
  qed
  from Cons.prems(1) show ?case
  proof (cases rule: plan_loop_Cons)
    case (gone rest)
    show ?thesis
    proof (cases "a = x")
      case False
      with Cons.prems(3) have "a \<in> set as" by simp
      then show ?thesis by (intro IH [OF gone(2,3)]) simp_all
    qed (use gone(1) in simp)
  next
    case (kept c al r rest)
    show ?thesis
    proof (cases "a = x")
      case True
      from Cons.prems(2) kept(2) have sup: "supported cx pr x r al" "may_keep cx r" by simp_all
      then have "x\<lparr>as_allocation := Some al\<rparr> = x" "keepable cx pr x"
        unfolding keepable_def by (auto simp: supported_def allocation_same)
      then have "x \<in> set (keepers cx pr (map fst out))" "slots_of x = slots al"
        using kept(4) slots_of_simps(2) [of al x] by simp_all
      moreover have "kept_slots kept a = slots al" using True kept(2) by (simp add: kept_slots_def)
      ultimately show ?thesis by blast
    next
      case False
      with Cons.prems(3) have "a \<in> set as" by simp
      then show ?thesis by (intro IH [OF kept(3,4)]) simp_all
    qed
  next
    case (new c al r rest)
    show ?thesis
    proof (cases "a = x")
      case False
      with Cons.prems(3) have "a \<in> set as" by simp
      then show ?thesis by (intro IH [OF new(4,5)]) simp_all
    qed (use new(2) in \<open>simp add: kept_slots_def\<close>)
  qed
qed simp

text \<open>The planned assignment of one step of the first run, and the same step of the second run.\<close>

lemma plan_again:
  assumes "plan_loop cx kept pr occ as = Inr out" "kept_from cx kept pr as" "map as_itemId pr = map as_itemId pr2"
    and "taken occ \<subseteq> taken occ2" "disjoint_allocations (map fst out)" "distinct (map as_id as)"
    and "\<forall>b \<in> set (keepers cx pr2 (map fst out)).
           map_option fst (map_of kept2 (as_id b)) = as_allocation b \<and> slots_of b \<subseteq> taken occ2"
    and "\<forall>b \<in> set (map fst out). as_id b \<notin> as_id ` set (keepers cx pr2 (map fst out))
           \<longrightarrow> map_of kept2 (as_id b) = None \<and> slots_of b \<inter> taken occ2 = {}"
  shows "\<exists>out2. plan_loop cx kept2 pr2 occ2 (map fst out) = Inr out2 \<and> map fst out2 = map fst out"
  using assms
proof (induction as arbitrary: pr pr2 occ occ2 out)
  case (Cons a as)
  text \<open>The rest of the lists, once the step has been made with the same result.\<close>
  have step: "\<exists>out2. plan_loop cx kept2 (pr2 @ [y]) occ2' (map fst rest) = Inr out2 \<and> map fst out2 = map fst rest"
    if rest: "plan_loop cx kept (pr @ [x]) occ' as = Inr rest" "out = (b, r) # rest"
      and items: "as_itemId x = as_itemId a" "as_itemId y = as_itemId a" "as_itemId b = as_itemId a" "as_id b = as_id a"
      and occ: "taken occ' \<subseteq> taken occ \<union> slots_of b" "taken occ2' = taken occ2 \<union> slots_of b"
    for x y b r rest occ' occ2'
  proof (rule Cons.IH [OF rest(1)])
    have prior: "map as_itemId (pr @ [a]) = map as_itemId (pr @ [x])" "map as_itemId (pr2 @ [b]) = map as_itemId (pr2 @ [y])"
      using items by simp_all
    note keep = keepers_items [OF prior(2), of cx "map fst rest"]
    show "kept_from cx kept (pr @ [x]) as"
      using Cons.prems(2) kept_from_items [OF prior(1), of cx kept as] by simp
    show "map as_itemId (pr @ [x]) = map as_itemId (pr2 @ [y])" using Cons.prems(3) items by simp
    show "taken occ' \<subseteq> taken occ2'" using Cons.prems(4) occ by blast
    show "disjoint_allocations (map fst rest)" using Cons.prems(5) rest(2) by (simp add: disjoint_allocations_def)
    show "distinct (map as_id as)" using Cons.prems(6) by simp
    show "\<forall>b \<in> set (keepers cx (pr2 @ [y]) (map fst rest)).
        map_option fst (map_of kept2 (as_id b)) = as_allocation b \<and> slots_of b \<subseteq> taken occ2'"
      using Cons.prems(7) occ(2) unfolding keep [symmetric] rest(2) by (auto split: if_splits)
    have ids: "as_id ` set (map fst rest) = as_id ` set as"
      using arg_cong [OF plan_loop_core [OF rest(1)], of "\<lambda>xs. set (map as_id xs)"]
      by (simp add: image_image comp_def)
    show "\<forall>c \<in> set (map fst rest). as_id c \<notin> as_id ` set (keepers cx (pr2 @ [y]) (map fst rest))
        \<longrightarrow> map_of kept2 (as_id c) = None \<and> slots_of c \<inter> taken occ2' = {}"
    proof (intro ballI impI)
      fix c assume c: "c \<in> set (map fst rest)" "as_id c \<notin> as_id ` set (keepers cx (pr2 @ [y]) (map fst rest))"
      have "as_id c \<in> as_id ` set as" using c(1) ids by blast
      then have "as_id c \<noteq> as_id b" using Cons.prems(6) items(4) by auto
      with c(2) have "as_id c \<notin> as_id ` set (keepers cx pr2 (map fst out))"
        unfolding keep [symmetric] rest(2) by (auto split: if_splits)
      with Cons.prems(8) c(1) rest(2) have "map_of kept2 (as_id c) = None" "slots_of c \<inter> taken occ2 = {}" by auto
      moreover have "slots_of b \<inter> slots_of c = {}"
        using Cons.prems(5) c(1) rest(2) by (auto simp: disjoint_allocations_def alloc_disjoint_slots)
      ultimately show "map_of kept2 (as_id c) = None \<and> slots_of c \<inter> taken occ2' = {}" using occ(2) by auto
    qed
  qed
  have head: "map_option fst (map_of kept2 (as_id b)) = as_allocation b \<and> slots_of b \<subseteq> taken occ2"
    if "out = (b, r) # rest" "keepable cx pr2 b" for b r rest
    using Cons.prems(7) that by simp
  have head': "map_of kept2 (as_id b) = None \<and> slots_of b \<inter> taken occ2 = {}"
    if "out = (b, r) # rest" "\<not> keepable cx pr2 b" "as_id b = as_id a" "plan_loop cx kept pr' oc as = Inr rest" for b r rest pr' oc
  proof -
    have "as_id ` set (map fst rest) = as_id ` set as"
      using arg_cong [OF plan_loop_core [OF that(4)], of "\<lambda>xs. set (map as_id xs)"] by (simp add: image_image comp_def)
    then have "as_id b \<notin> as_id ` set (keepers cx (pr2 @ [b]) (map fst rest))"
      using Cons.prems(6) that(3) image_mono [OF set_keepers, of as_id cx "pr2 @ [b]" "map fst rest"] by auto
    with Cons.prems(8) that(1,2) show ?thesis by simp
  qed
  from Cons.prems(1) show ?case
  proof (cases rule: plan_loop_Cons)
    case (gone rest)
    then show ?thesis
      using step [OF gone(2,3), of "a\<lparr>as_allocation := None\<rparr>" occ2] by (auto simp: Inr_iffs)
  next
    case (kept c al r rest)
    let ?b = "a\<lparr>as_allocation := Some al\<rparr>"
    from Cons.prems(2) kept(2) have sup: "supported cx pr a r al" "may_keep cx r" by simp_all
    then have b: "?b = a" by (auto simp: supported_def allocation_same)
    have "keepable cx pr a" using sup unfolding keepable_def by blast
    then have "keepable cx pr2 ?b" using keepable_items [OF Cons.prems(3), of cx a] b by simp
    from head [OF kept(4) this] obtain r' where k: "map_of kept2 (as_id a) = Some (al, r')" "slots al \<subseteq> taken occ2"
      by auto
    from step [OF kept(3,4), of ?b occ2] k(2) obtain out2 where
      "plan_loop cx kept2 (pr2 @ [?b]) occ2 (map fst rest) = Inr out2" "map fst out2 = map fst rest"
      by auto
    with kept(1,4) k(1) show ?thesis by (simp add: b)
  next
    case (new c al r rest)
    let ?b = "a\<lparr>as_allocation := al\<rparr>"
    have ev: "decide cx c pr2 oc = decide cx c pr oc" for oc by (rule decide_items [OF Cons.prems(3) [symmetric]])
    have occ': "taken (reserve_option occ al) = taken occ \<union> slots_of ?b"
      "taken (reserve_option occ2 al) = taken occ2 \<union> slots_of ?b" by (rule taken_reserve_option)+
    have again: ?thesis if d: "decide cx c pr2 occ2 = Inr (r', al)" and none: "map_of kept2 (as_id a) = None" for r'
    proof -
      from step [OF new(4,5), of "a\<lparr>as_allocation := None\<rparr>" "reserve_option occ2 al"] occ' obtain out2 where
        "plan_loop cx kept2 (pr2 @ [a\<lparr>as_allocation := None\<rparr>]) (reserve_option occ2 al) (map fst rest) = Inr out2"
        "map fst out2 = map fst rest" by auto
      with new(1,5) d none show ?thesis by simp
    qed
    show ?thesis
    proof (cases al)
      case None
      then have "\<not> keepable cx pr2 ?b" by (auto simp: keepable_def supported_def)
      from head' [OF new(5) this _ new(4)] have "map_of kept2 (as_id a) = None" by simp
      moreover obtain r' where "decide cx c pr2 occ2 = Inr (r', None)"
        using decide_None [OF _ Cons.prems(4)] new(3) ev None by metis
      ultimately show ?thesis using again None by blast
    next
      case (Some x)
      note sup = decide_checked [OF new(1) new(3) [unfolded Some]]
      have sup2: "supported cx pr2 ?b r x" using sup supported_items [OF Cons.prems(3)] Some by simp
      show ?thesis
      proof (cases "keepable cx pr2 ?b")
        case True
        from head [OF new(5) this] Some obtain r' where k: "map_of kept2 (as_id a) = Some (x, r')" "slots x \<subseteq> taken occ2"
          by auto
        from step [OF new(4,5), of ?b occ2] k(2) occ'(1) Some obtain out2 where
          "plan_loop cx kept2 (pr2 @ [?b]) occ2 (map fst rest) = Inr out2" "map fst out2 = map fst rest"
          by auto
        with new(1,5) k(1) Some show ?thesis by simp
      next
        case False
        with sup2 have "\<not> may_keep cx r" by (auto simp: keepable_def)
        with decide_supported(2) [OF new(3) [unfolded Some]] have "scalar_resource (al_resourceType x)" by blast
        moreover from head' [OF new(5) False _ new(4)] Some
        have none: "map_of kept2 (as_id a) = None" "slots x \<inter> taken occ2 = {}" by simp_all
        ultimately have "decide cx c pr2 occ2 = Inr (r, al)"
          using decide_again [OF new(3) [unfolded Some] _ Cons.prems(4)] ev Some by simp
        with again none(1) show ?thesis by blast
      qed
    qed
  qed
qed simp


lemma kept_from_lookup:
  "kept_from cx kept pr as \<Longrightarrow> a \<in> set as \<Longrightarrow> map_of kept (as_id a) = Some (al, r)
    \<Longrightarrow> itemLookup (cx_items cx) (as_itemId a) \<noteq> None"
  by (induction as arbitrary: pr) (auto simp: supported_def)

lemma replan:
  assumes "preserve_loop cx [] [] [] as = Inr (occ, kept)" "plan_loop cx kept [] occ as = Inr out"
    and "distinct (map as_id as)"
  shows "\<exists>occ2 kept2 out2. preserve_loop cx [] [] [] (map fst out) = Inr (occ2, kept2)
     \<and> plan_loop cx kept2 [] occ2 (map fst out) = Inr out2 \<and> map fst out2 = map fst out"
proof -
  let ?bs = "map fst out"
  have "kept_ok cx as occ kept" using preserve_loop_ok [OF assms(1)] assms(3) by (simp add: kept_ok_def)
  note kept_ok = kept_ok_slots [OF this assms(3)]
  have from1: "kept_from cx kept [] as" by (rule preserve_loop_kept [OF assms(1,3)]) simp
  have disj: "disjoint_allocations ?bs" using plan_loop_disjoint [OF assms(2) kept_ok(1,2)] by blast
  have "map as_id ?bs = map as_id as"
    using arg_cong [OF plan_loop_core [OF assms(2)], of "map as_id"] by (simp add: comp_def)
  then have ids: "distinct (map as_id ?bs)" using assms(3) by simp
  obtain occ2 kept2 where run: "preserve_loop cx [] [] [] ?bs = Inr (occ2, kept2)"
    and occ2: "taken occ2 = \<Union> (slots_of ` set (keepers cx [] ?bs))"
    and kept2: "\<forall>b \<in> set (keepers cx [] ?bs). map_option fst (map_of kept2 (as_id b)) = as_allocation b"
      "\<forall>n. n \<notin> as_id ` set (keepers cx [] ?bs) \<longrightarrow> map_of kept2 n = None"
    using preserve_again [OF plan_checked [OF assms(2) from1] disj _ ids, of "[]" "[]"] by auto
  have "kept_slots kept a \<subseteq> taken occ2" if "a \<in> set as" for a
    using plan_keepers [OF assms(2) from1 that] kept_from_lookup [OF from1 that]
    unfolding occ2 kept_slots_def by (cases "map_of kept (as_id a)") fastforce+
  then have "\<Union> (kept_slots kept ` set as) \<subseteq> taken occ2" by (rule UN_least)
  with preserve_loop_taken [OF assms(1,3)] have sub: "taken occ \<subseteq> taken occ2" by simp
  have free: "slots_of b \<inter> taken occ2 = {}" if b: "b \<in> set ?bs" "as_id b \<notin> as_id ` set (keepers cx [] ?bs)" for b
  proof -
    have "slots_of b \<inter> slots_of c = {}" if "c \<in> set (keepers cx [] ?bs)" for c
    proof -
      have "c \<in> set ?bs" "c \<noteq> b" using that b(2) set_keepers [of cx "[]" ?bs] by auto
      with disjoint_in [OF disj] b(1) show ?thesis by (simp add: alloc_disjoint_slots)
    qed
    then show ?thesis unfolding occ2 by blast
  qed
  have "\<exists>out2. plan_loop cx kept2 [] occ2 ?bs = Inr out2 \<and> map fst out2 = ?bs"
    by (rule plan_again [OF assms(2) from1 refl sub disj assms(3)]) (use kept2 occ2 free in auto)
  with run show ?thesis by blast
qed

end
