(* ===== verification/Plan_Normalization.thy ===== *)
theory Plan_Normalization
  imports Planner_Stability
begin

text \<open>
  Normalizing a project twice is normalizing it once: \<open>normalizeCompatibilityProject\<close> of
  \<open>shared/compatibility/index.mjs\<close> stores the plans of all hosts, and the plan of a host whose plan is
  stored already is that plan.  A server or a NAS keeps its stored allocations (theory
  \<open>Planner_Stability\<close>); a PC build is planned afresh, from the same components in the same order.
\<close>

section \<open>Definitions\<close>

text \<open>A project that stores the plan of a host and differs from the planned project in assignments only.\<close>

definition stores_plan :: "project \<Rightarrow> project \<Rightarrow> string \<Rightarrow> host_plan \<Rightarrow> bool" where
  "stores_plan p q h plan \<longleftrightarrow> pr_items q = pr_items p \<and> pr_compatibilityPolicy q = pr_compatibilityPolicy p
     \<and> mset (host_assignments q h) = mset (hpl_assignments plan)"

text \<open>The assignment that takes the place of another one when the project is normalized.\<close>

definition replacement :: "((string \<times> int) \<times> assignment) list \<Rightarrow> assignment \<Rightarrow> assignment" where
  "replacement entries a = nullish (map_of (map_from entries) (as_serverId a, as_id a)) a"

section \<open>Lemmas\<close>

subsection \<open>Planning a host again\<close>

lemma sort_key_unique:
  assumes "mset ys = mset xs" "sorted (map f ys)" "distinct (map f ys)"
  shows "sort_key f xs = ys"
proof -
  have set: "set (sort_key f xs) = set ys" using assms(1) by (metis set_mset_mset set_sort)
  have "mset (map f ys) = mset (map f (sort_key f xs))" using assms(1) by simp
  then have "sort (map f (sort_key f xs)) = map f ys" using assms(2) by (intro properties_for_sort) simp_all
  then have "map f (sort_key f xs) = map f ys" by (simp add: sorted_sort_id)
  then show ?thesis by (rule map_inj_on) (use assms(3) set in \<open>simp add: distinct_map\<close>)
qed

lemma via_core:
  assumes "map core as = map core bs" "\<And>a. f (core a) = f a"
  shows "map f as = map f bs"
proof -
  have "map f xs = map f (map core xs)" for xs using assms(2) by simp
  with assms(1) show ?thesis by metis
qed

lemma sort_keys_core:
  "compareAssignments (core a) = compareAssignments a"
  "compareHostAllocationAssignments items (core a) = compareHostAllocationAssignments items a"
  by (simp_all add: compareAssignments_def compareHostAllocationAssignments_def core_def)

lemma sort_keys_distinct:
  assumes "distinct (map as_id bs)"
  shows "distinct (map compareAssignments bs)" "distinct (map (compareHostAllocationAssignments items) bs)"
  using assms by (auto simp: distinct_map inj_on_def compareAssignments_def compareHostAllocationAssignments_def)

text \<open>The sorted assignments of a project in which the host's assignments are the planned ones.\<close>

lemma sort_planned:
  assumes "map core bs = map core (sort_key f xs)" "mset ys = mset bs" "\<And>a. f (core a) = f a" "distinct (map f bs)"
  shows "sort_key f ys = bs"
proof (rule sort_key_unique)
  have "map f bs = map f (sort_key f xs)" using assms(1) by (rule via_core) (rule assms(3))
  then show "sorted (map f bs)" by simp
qed (use assms in simp_all)

lemma plan_pc_loop_again:
  "map core as = map core bs \<Longrightarrow> plan_pc_loop cx board pr occ as = plan_pc_loop cx board pr occ bs"
proof (induction as arbitrary: bs pr occ)
  case (Cons a as)
  then obtain b bs' where bs: "bs = b # bs'" and core: "core a = core b" and rest: "map core as = map core bs'"
    by (auto simp: map_eq_Cons_conv)
  from core have same: "a\<lparr>as_allocation := x\<rparr> = b\<lparr>as_allocation := x\<rparr>" for x by (cases a; cases b) (simp add: core_def)
  have sel: "as_itemId a = as_itemId b" "as_id a = as_id b" "as_serverId a = as_serverId b"
    using core by (metis core_sel)+
  then have result: "planResult a r al = planResult b r al" for r al by (simp add: planResult_def)
  note IH = Cons.IH [OF rest]
  show ?case unfolding bs plan_pc_loop.simps same sel result IH ..
qed simp


lemma host_assignments_id: "distinct (map as_id (pr_assignments p)) \<Longrightarrow> distinct (map as_id (host_assignments p h))"
  by (simp add: host_assignments_def distinct_map inj_on_def)

lemma context_for_same:
  assumes "pr_items q = pr_items p" "pr_compatibilityPolicy q = pr_compatibilityPolicy p"
  shows "context_for q = context_for p"
  unfolding context_for_def [abs_def] isHostCompatibilityEnabled_def [abs_def] isVerifiedMemoryLimitEnabled_def [abs_def]
    assms ..

lemma replan_host:
  assumes "planHostAllocations p h = Inr plan" "stores_plan p q h plan"
    and "itemLookup (pr_items p) h = Some host" "isHostType (it_type host)" "it_type host \<noteq> TPcBuild"
    and "distinct (map as_id (pr_assignments p))"
  shows "\<exists>plan'. planHostAllocations q h = Inr plan' \<and> hpl_assignments plan' = hpl_assignments plan"
proof -
  let ?key = "compareHostAllocationAssignments (pr_items p)"
  from assms(1,3,5) obtain occ kept out as where as: "as = sort_key ?key (host_assignments p h)"
    and run: "preserve_loop (context_for p h host) [] [] [] as = Inr (occ, kept)"
      "plan_loop (context_for p h host) kept [] occ as = Inr out" and plan: "plan = plan_of out"
    by (cases rule: planHost_cases) (use assms(4) in auto)
  have ids: "distinct (map as_id as)" using host_assignments_id [OF assms(6)] unfolding as by (simp add: distinct_map)
  have cores: "map core (map fst out) = map core as" using plan_loop_core [OF run(2)] by simp
  have "map as_id (map fst out) = map as_id as" using cores by (rule via_core) simp
  with ids have out_ids: "distinct (map as_id (map fst out))" by simp
  have "sort_key ?key (host_assignments q h) = map fst out"
    using cores assms(2) sort_keys_core(2) sort_keys_distinct(2) [OF out_ids] unfolding as
    by (intro sort_planned) (simp_all add: stores_plan_def plan)
  moreover from replan [OF run ids] obtain occ2 kept2 out2 where
    "preserve_loop (context_for p h host) [] [] [] (map fst out) = Inr (occ2, kept2)"
    "plan_loop (context_for p h host) kept2 [] occ2 (map fst out) = Inr out2" "map fst out2 = map fst out" by blast
  ultimately show ?thesis
    using assms(2-5) context_for_same [of q p] plan by (simp add: planHostAllocations_def stores_plan_def)
qed

lemma replan_pc_build:
  assumes "planHostAllocations p h = Inr plan" "stores_plan p q h plan"
    and "itemLookup (pr_items p) h = Some host" "it_type host = TPcBuild"
    and "distinct (map as_id (pr_assignments p))"
  shows "planHostAllocations q h = Inr plan"
proof -
  let ?as = "sort_key compareAssignments (host_assignments p h)"
  have host: "isHostType (it_type host)" using assms(4) by (simp add: isHostType_def HOST_TYPES_def)
  let ?bs = "hpl_assignments plan"
  have cores: "map core ?bs = map core ?as"
    using assms(1)
  proof (cases rule: planHost_cases)
    case (pc host out cx board)
    with plan_pc_loop_core [OF pc(4)] show ?thesis by simp
  qed (use assms(3,4) host in auto)
  have "map as_id ?bs = map as_id ?as" using cores by (rule via_core) simp
  then have "distinct (map as_id ?bs)" using host_assignments_id [OF assms(5), of h] by (simp add: distinct_map)
  then have q: "sort_key compareAssignments (host_assignments q h) = ?bs"
    by (intro sort_planned [OF cores _ sort_keys_core(1)] sort_keys_distinct(1))
      (use assms(2) in \<open>simp_all only: stores_plan_def\<close>)
  have items: "map as_itemId ?bs = map as_itemId ?as" using cores by (rule via_core) simp
  note eq = assignedComponents_items [OF items]
  have type: "assignedItemOfType ?bs = assignedItemOfType ?as"
    unfolding assignedItemOfType_def [abs_def] eq ..
  have eff: "effectiveHostForAssignment x ?bs = effectiveHostForAssignment x ?as" for x
    unfolding effectiveHostForAssignment_def [abs_def] type ..
  have same: "pr_items q = pr_items p" "context_for q = context_for p"
    using assms(2) context_for_same [of q p] by (simp_all add: stores_plan_def)
  have "planPcBuildAllocations q h host = planPcBuildAllocations p h host"
    unfolding planPcBuildAllocations_def Let_def q same type eff plan_pc_loop_again [OF cores] ..
  then show ?thesis using assms(1,3,4) same host by (simp add: planHostAllocations_def)
qed

lemma replan_any:
  assumes "planHostAllocations p h = Inr plan" "distinct (map as_id (pr_assignments p))"
    and "pr_items q = pr_items p" "pr_compatibilityPolicy q = pr_compatibilityPolicy p"
    and "\<And>i. itemLookup (pr_items p) h = Some i \<Longrightarrow> isHostType (it_type i)
           \<Longrightarrow> mset (host_assignments q h) = mset (hpl_assignments plan)"
  shows "\<exists>plan'. planHostAllocations q h = Inr plan' \<and> hpl_assignments plan' = hpl_assignments plan"
proof -
  consider (no) "\<And>i. itemLookup (pr_items p) h = Some i \<Longrightarrow> \<not> isHostType (it_type i)"
    | (host) i where "itemLookup (pr_items p) h = Some i" "isHostType (it_type i)" by blast
  then show ?thesis
  proof cases
    case no
    then have "planHostAllocations r h = Inr (plan_of [])" if "pr_items r = pr_items p" for r
      using that by (auto simp: planHostAllocations_def split: option.split)
    from this [of p] this [of q] assms(1,3) show ?thesis by simp
  next
    case (host i)
    with assms have "stores_plan p q h plan" by (simp add: stores_plan_def)
    with replan_host [OF assms(1) this host _ assms(2)] replan_pc_build [OF assms(1) this host(1) _ assms(2)] show ?thesis
      by (cases "it_type i = TPcBuild") auto
  qed
qed


subsection \<open>Planning a project again\<close>

lemma plan_all_plans: "plan_all p hs = Inr entries \<Longrightarrow> h \<in> set hs \<Longrightarrow> \<exists>plan. planHostAllocations p h = Inr plan"
  by (induction hs arbitrary: entries) (auto simp: Inr_iffs)

lemma plan_all_entries:
  "e \<in> set entries
     \<longleftrightarrow> (\<exists>h plan b. h \<in> set hs \<and> planHostAllocations p h = Inr plan \<and> b \<in> set (hpl_assignments plan) \<and> e = ((h, as_id b), b))"
  if "plan_all p hs = Inr entries" for e
  using that
proof (induction hs arbitrary: entries)
  case (Cons h hs)
  then obtain plan rest where "planHostAllocations p h = Inr plan" "plan_all p hs = Inr rest"
    "entries = map (\<lambda>a. ((h, as_id a), a)) (hpl_assignments plan) @ rest"
    by (auto simp: Inr_iffs)
  with Cons.IH [of rest] show ?case by auto
qed simp

lemma plan_host_cores:
  assumes "planHostAllocations p h = Inr plan" "b \<in> set (hpl_assignments plan)"
  obtains a where "a \<in> set (pr_assignments p)" "as_serverId a = h" "core a = core b"
  using plan_cores [OF assms(1)] assms(2) unfolding host_assignments_def by (auto dest!: subsetD)

lemma plan_all_again:
  assumes "plan_all p hs = Inr entries"
    and "\<And>h plan. h \<in> set hs \<Longrightarrow> planHostAllocations p h = Inr plan
          \<Longrightarrow> \<exists>plan'. planHostAllocations q h = Inr plan' \<and> hpl_assignments plan' = hpl_assignments plan"
  shows "plan_all q hs = Inr entries"
  using assms
proof (induction hs arbitrary: entries)
  case (Cons h hs)
  from Cons.prems(1) obtain plan rest where plan: "planHostAllocations p h = Inr plan" "plan_all p hs = Inr rest"
    "entries = map (\<lambda>a. ((h, as_id a), a)) (hpl_assignments plan) @ rest"
    by (auto simp: Inr_iffs)
  from Cons.prems(2) [OF _ plan(1)] obtain plan' where
    "planHostAllocations q h = Inr plan'" "hpl_assignments plan' = hpl_assignments plan" by auto
  with Cons.IH [OF plan(2) Cons.prems(2)] plan(3) show ?case by simp
qed simp

lemma normalize_replaces:
  "normalizeCompatibilityProject p = Inr q \<longleftrightarrow>
     (\<exists>entries. plan_all p (map fst (filter (\<lambda>(k, i). isHostType (it_type i)) (pr_items p))) = Inr entries
       \<and> q = p\<lparr>pr_assignments := map (replacement entries) (pr_assignments p)\<rparr>)"
  by (auto simp: normalizeCompatibilityProject_def replacement_def [abs_def] map_sum_Inr_iff)

lemma replacement_cases:
  assumes "plan_all p hs = Inr entries"
  obtains (same) "replacement entries a = a"
      "\<And>plan b. as_serverId a \<in> set hs \<Longrightarrow> planHostAllocations p (as_serverId a) = Inr plan
         \<Longrightarrow> b \<in> set (hpl_assignments plan) \<Longrightarrow> as_id b \<noteq> as_id a"
  | (planned) plan where "as_serverId a \<in> set hs" "planHostAllocations p (as_serverId a) = Inr plan"
      "replacement entries a \<in> set (hpl_assignments plan)" "as_id (replacement entries a) = as_id a"
proof (cases "map_of (map_from entries) (as_serverId a, as_id a)")
  case None
  then have "(as_serverId a, as_id a) \<notin> fst ` set entries"
    by (simp add: map_of_map_from map_of_eq_None_iff)
  then have no: "((as_serverId a, as_id a), b) \<notin> set entries" for b by force
  have "as_id b \<noteq> as_id a" if "as_serverId a \<in> set hs" "planHostAllocations p (as_serverId a) = Inr plan"
      "b \<in> set (hpl_assignments plan)" for plan b
    using no [of b] that unfolding plan_all_entries [OF assms] by metis
  moreover have "replacement entries a = a" using None by (simp add: replacement_def)
  ultimately show ?thesis by (intro same)
next
  case (Some b)
  then have "((as_serverId a, as_id a), b) \<in> set entries" by (auto simp: map_of_map_from dest: map_of_SomeD)
  moreover have "replacement entries a = b" using Some by (simp add: replacement_def)
  ultimately show ?thesis unfolding plan_all_entries [OF assms] by (auto intro: planned)
qed


lemma normalized_host_assignments:
  assumes "plan_all p hs = Inr entries" "q = p\<lparr>pr_assignments := map (replacement entries) (pr_assignments p)\<rparr>"
    and "h \<in> set hs" "planHostAllocations p h = Inr plan" "itemLookup (pr_items p) h = Some i" "isHostType (it_type i)"
    and "distinct (map as_id (pr_assignments p))"
  shows "mset (host_assignments q h) = mset (hpl_assignments plan)"
proof -
  let ?r = "replacement entries"
  have server: "as_serverId (?r a) = as_serverId a" for a
    using assms(1)
  proof (cases rule: replacement_cases [where a = a])
    case (planned pl)
    from plan_host_cores [OF planned(2,3)] show ?thesis by (metis core_sel(2))
  qed (simp add: replacement_def)
  note mset = plan_host_mset [OF assms(4-6)]
  have mem: "?r a \<in> set (hpl_assignments plan) \<and> as_id (?r a) = as_id a" if "a \<in> set (host_assignments p h)" for a
  proof -
    from that have h: "as_serverId a = h" by (simp add: host_assignments_def)
    have "core a \<in> set (map core (hpl_assignments plan))"
      using that mset by (metis image_eqI set_map set_mset_mset)
    then obtain b where b: "b \<in> set (hpl_assignments plan)" "core b = core a" by auto
    then have "as_id b = as_id a" by (metis core_sel(1))
    with b h assms(3,4) show ?thesis by (cases rule: replacement_cases [OF assms(1), of a]) auto
  qed
  have host: "host_assignments q h = map ?r (host_assignments p h)"
    unfolding assms(2) host_assignments_def by (simp add: filter_map comp_def server)
  have same: "image_mset as_id (mset (hpl_assignments plan)) = mset (map as_id (host_assignments p h))"
    using arg_cong [OF mset, of "image_mset as_id"] by (simp add: image_mset.compositionality comp_def)
  have ids: "distinct (map as_id (host_assignments p h))" by (rule host_assignments_id [OF assms(7)])
  have plan_ids: "distinct (map as_id (hpl_assignments plan))"
    "as_id ` set (hpl_assignments plan) = as_id ` set (host_assignments p h)"
    using same ids by (metis mset_eq_imp_distinct_iff mset_map, metis mset_eq_setD mset_map set_map)
  have rids: "map as_id (map ?r (host_assignments p h)) = map as_id (host_assignments p h)" using mem by simp
  have "set (map ?r (host_assignments p h)) = set (hpl_assignments plan)"
  proof
    show "set (map ?r (host_assignments p h)) \<subseteq> set (hpl_assignments plan)" using mem by auto
    show "set (hpl_assignments plan) \<subseteq> set (map ?r (host_assignments p h))"
    proof
      fix b assume b: "b \<in> set (hpl_assignments plan)"
      then obtain a where "a \<in> set (host_assignments p h)" "as_id a = as_id b" using plan_ids(2) by force
      with mem [of a] b plan_ids(1) have "?r a = b" by (metis distinct_map inj_onD)
      with \<open>a \<in> _\<close> show "b \<in> set (map ?r (host_assignments p h))" by auto
    qed
  qed
  moreover have "distinct (map ?r (host_assignments p h))" using ids rids by (metis distinct_map)
  moreover have "distinct (hpl_assignments plan)" using plan_ids(1) by (simp add: distinct_map)
  ultimately show ?thesis unfolding host by (metis set_eq_iff_mset_eq_distinct)
qed

text \<open>C11: Equivalence: normalizing a project settles it: once \<open>normalizeCompatibilityProject\<close> has given the
  components of every host their positions, normalizing the result changes nothing, so loading and saving a
  project again and again keeps every allocation where it is.\<close>

theorem normalization_idempotent:
  assumes "normalizeCompatibilityProject p = Inr q" "distinct (map as_id (pr_assignments p))"
  shows "normalizeCompatibilityProject q = Inr q"
proof -
  let ?hs = "map fst (filter (\<lambda>(k, i). isHostType (it_type i)) (pr_items p))"
  from assms(1) obtain entries where entries: "plan_all p ?hs = Inr entries"
    and q: "q = p\<lparr>pr_assignments := map (replacement entries) (pr_assignments p)\<rparr>"
    unfolding normalize_replaces by blast
  have "\<exists>plan'. planHostAllocations q h = Inr plan' \<and> hpl_assignments plan' = hpl_assignments plan"
    if h: "h \<in> set ?hs" "planHostAllocations p h = Inr plan" for h plan
    by (rule replan_any [OF h(2) assms(2)])
      (use normalized_host_assignments [OF entries q h _ _ assms(2)] q in simp_all)
  from plan_all_again [OF entries this] have again: "plan_all q ?hs = Inr entries" .
  have "replacement entries (replacement entries a) = replacement entries a" for a
    using entries
  proof (cases rule: replacement_cases [where a = a])
    case (planned plan)
    from plan_host_cores [OF planned(2,3)] have "as_serverId (replacement entries a) = as_serverId a" by (metis core_sel(2))
    with planned(4) have "replacement entries (replacement entries a)
        = nullish (map_of (map_from entries) (as_serverId a, as_id a)) (replacement entries a)"
      by (simp add: replacement_def [of entries "replacement entries a"])
    then show ?thesis by (cases "map_of (map_from entries) (as_serverId a, as_id a)") (simp_all add: replacement_def)
  qed simp
  with again q show ?thesis unfolding normalize_replaces by (intro exI [of _ entries]) simp
qed

theorem normalization_idempotent_witness:
  "\<exists>q. normalizeCompatibilityProject plan_project = Inr q \<and> normalizeCompatibilityProject q = Inr q
     \<and> image_mset (\<lambda>a. map_option al_positions (as_allocation a)) (mset (host_assignments q ''server:1''))
       = {#Some [1], Some [0], None#}"
proof -
  obtain plan where plan: "planHostAllocations plan_project ''server:1'' = Inr plan"
    "map (\<lambda>a. map_option al_positions (as_allocation a)) (hpl_assignments plan) = [Some [1], Some [0], None]"
    by (rule plan_project_planned)
  have hosts: "map fst (filter (\<lambda>(k, i). isHostType (it_type i)) (pr_items plan_project)) = [''server:1'']"
    by code_simp
  obtain entries where entries: "plan_all plan_project [''server:1''] = Inr entries" using plan(1) by simp
  let ?q = "plan_project\<lparr>pr_assignments := map (replacement entries) (pr_assignments plan_project)\<rparr>"
  have q: "normalizeCompatibilityProject plan_project = Inr ?q"
    unfolding normalize_replaces hosts using entries by blast
  have "mset (host_assignments ?q ''server:1'') = mset (hpl_assignments plan)"
    by (rule normalized_host_assignments [OF entries refl _ plan(1) plan_project_facts(1,2,4)]) simp
  moreover have "image_mset (\<lambda>a. map_option al_positions (as_allocation a)) (mset (hpl_assignments plan))
      = {#Some [1], Some [0], None#}"
    using arg_cong [OF plan(2), of mset] by simp
  ultimately show ?thesis
    using q normalization_idempotent [OF q plan_project_facts(4)] by (intro exI [of _ ?q]) simp
qed

end
