(* ===== verification/Network_Ports.thy ===== *)
theory Network_Ports
  imports Sample_Project Compat_Text
begin

text \<open>
  Network ports and the negotiation of a cable: \<open>shared/network-adapter-ports.ts\<close>,
  \<open>src/lib/network-port-speeds.ts\<close> and \<open>formatPortType\<close> of \<open>src/lib/format.ts\<close>.  A negotiation
  takes the first operating mode of the first port that every port has, and the greatest speed that
  every port has; both results are pairs in the code's order, mode and bits per second.
\<close>

section \<open>Definitions\<close>

subsection \<open>Port types\<close>

fun port_type_name :: "port_type \<Rightarrow> string" where
  "port_type_name PRj45 = ''rj45''"
| "port_type_name PSfp = ''sfp''"
| "port_type_name PSfpPlus = ''sfp-plus''"
| "port_type_name PSfp28 = ''sfp28''"
| "port_type_name PQsfp = ''qsfp''"
| "port_type_name PQsfpPlus = ''qsfp-plus''"
| "port_type_name PQsfp28 = ''qsfp28''"
| "port_type_name PQsfp56 = ''qsfp56''"
| "port_type_name PQsfpDd = ''qsfp-dd''"
| "port_type_name POsfp = ''osfp''"
| "port_type_name PFc = ''fc''"
| "port_type_name PInfiniband = ''infiniband''"
| "port_type_name PHdmi = ''hdmi''"
| "port_type_name PDisplayport = ''displayport''"
| "port_type_name PMiniDisplayport = ''mini-displayport''"
| "port_type_name PBarrel = ''barrel''"
| "port_type_name PAcInput = ''ac-input''"
| "port_type_name PAcOutlet = ''ac-outlet''"

fun technology_name :: "network_technology \<Rightarrow> string" where
  "technology_name NtEthernet = ''ethernet''"
| "technology_name NtWifi = ''wifi''"
| "technology_name NtFibreChannel = ''fibre-channel''"
| "technology_name NtInfiniband = ''infiniband''"
| "technology_name NtConverged = ''converged''"
| "technology_name NtCellular = ''cellular''"
| "technology_name NtOther = ''other''"

definition formatPortType :: "port_type \<Rightarrow> string" where
  "formatPortType t =
     (if t = PAcInput then ''AC''
      else if t = PSfpPlus then ''SFP+''
      else if t = PDisplayport then ''DP''
      else if t = PMiniDisplayport then ''MiniDP''
      else js_upper (port_type_name t))"

definition SWITCH_NETWORK_PORT_TYPES :: "port_type set" where
  "SWITCH_NETWORK_PORT_TYPES = {PRj45, PSfp, PSfpPlus}"

definition SUPPORTED_SWITCH_PORT_SPEEDS :: "string list" where
  "SUPPORTED_SWITCH_PORT_SPEEDS = [''1G'', ''2.5G'', ''5G'', ''10G'']"

definition defaultSwitchPortSpeed :: "port_type \<Rightarrow> string option" where
  "defaultSwitchPortSpeed t =
     (if t = PSfpPlus then Some ''10G''
      else if t = PRj45 \<or> t = PSfp then Some ''1G''
      else None)"

subsection \<open>Modes and speeds of a port\<close>

definition RADIO_TECHNOLOGIES :: "string set" where
  "RADIO_TECHNOLOGIES = {''wifi'', ''cellular''}"

definition PHYSICAL_NETWORK_CONNECTORS :: "port_type set" where
  "PHYSICAL_NETWORK_CONNECTORS =
     {PRj45, PSfp, PSfpPlus, PSfp28, PQsfp, PQsfpPlus, PQsfp28, PQsfp56, PQsfpDd, POsfp, PFc, PInfiniband}"

definition NETWORK_CONNECTOR_FAMILIES :: "port_type set list" where
  "NETWORK_CONNECTOR_FAMILIES =
     [{PSfp, PSfpPlus, PSfp28}, {PQsfp, PQsfpPlus, PQsfp28, PQsfp56, PQsfpDd}]"

definition normalizedValues :: "string list option \<Rightarrow> string list" where
  "normalizedValues values =
     js_uniq (filter (\<lambda>s. s \<noteq> []) (map (\<lambda>s. js_lower (js_trim s)) (nullish values [])))"

definition portModes :: "inventory_port \<Rightarrow> string list" where
  "portModes port =
     (let explicit = normalizedValues (p_operatingModes port) in
      if explicit \<noteq> [] then explicit
      else case p_networkTechnology port of Some t \<Rightarrow> [technology_name t] | None \<Rightarrow> [''ethernet''])"

text \<open>The match of \<open>/^(\d+(?:\.\d+)?)\s*([GM])(?:BPS|BE|B\/S)?$/\<close>: the number and whether the unit
  is giga.\<close>

definition speed_literal :: "string \<Rightarrow> (rat \<times> bool) option" where
  "speed_literal t =
     (let ip = takeWhile is_digit t; r = dropWhile is_digit t;
          fp = (case r of c # cs \<Rightarrow> if c = CHR ''.'' then takeWhile is_digit cs else [] | [] \<Rightarrow> []);
          r1 = (case r of c # cs \<Rightarrow> if c = CHR ''.'' \<and> fp \<noteq> [] then dropWhile is_digit cs else r | [] \<Rightarrow> [])
      in if ip = [] then None
         else case dropWhile is_js_space r1 of
             [] \<Rightarrow> None
           | u # suffix \<Rightarrow>
               if (u = CHR ''G'' \<or> u = CHR ''M'') \<and> suffix \<in> {'''', ''BPS'', ''BE'', ''B/S''}
               then Some (scale10 (decimal_val (ip @ fp)) (- int (length fp)), u = CHR ''G'')
               else None)"

definition legacySpeedBps :: "string option \<Rightarrow> int option" where
  "legacySpeedBps speed =
     (if \<not> truthy_str speed then None
      else case speed_literal (js_upper (js_trim (the speed))) of
          None \<Rightarrow> None
        | Some (n, giga) \<Rightarrow>
            (let v = n * (if giga then 1000000000 else 1000000) in
             if isSafeInteger_rat v \<and> 0 < v then Some \<lfloor>v\<rfloor> else None))"

definition legacyCompatibleSpeeds :: "port_type \<Rightarrow> int \<Rightarrow> int list" where
  "legacyCompatibleSpeeds t maximum =
     filter (\<lambda>s. s \<le> maximum)
       (if t = PRj45 then [1000000000, 2500000000, 5000000000, 10000000000]
        else if t = PSfp then [1000000000]
        else if t = PSfpPlus then [1000000000, 10000000000]
        else if t = PSfp28 then [1000000000, 10000000000, 25000000000]
        else [maximum])"

definition supportedNetworkPortSpeedsBps :: "inventory_port \<Rightarrow> int list" where
  "supportedNetworkPortSpeedsBps port =
     (let legacyMaximum = legacySpeedBps (p_speed port);
          legacySpeeds = (if nullish (p_supportedSpeedsBps port) [] \<noteq> [] \<or> truthy_num (p_speedBps port)
                            \<or> \<not> truthy_num legacyMaximum
                          then [] else legacyCompatibleSpeeds (p_type port) (the legacyMaximum));
          speeds = filter (\<lambda>v. isSafeInteger v \<and> 0 < v)
            (nullish (p_supportedSpeedsBps port) [] @ (case p_speedBps port of None \<Rightarrow> [] | Some v \<Rightarrow> [v])
             @ legacySpeeds)
      in sort (js_uniq speeds))"

subsection \<open>Negotiation\<close>

definition areNetworkConnectorsCompatible :: "port_type \<Rightarrow> port_type \<Rightarrow> bool" where
  "areNetworkConnectorsCompatible s t =
     (s = t \<or> list_ex (\<lambda>family. s \<in> family \<and> t \<in> family) NETWORK_CONNECTOR_FAMILIES)"

definition isPhysicalNetworkAdapterPort :: "inventory_port \<Rightarrow> bool" where
  "isPhysicalNetworkAdapterPort port =
     (if p_kind port \<noteq> KNetwork \<and> p_kind port \<noteq> KServerPort \<and> p_kind port \<noteq> KSwitchPort \<and> p_kind port \<noteq> KKeystone
      then False
      else p_type port \<in> PHYSICAL_NETWORK_CONNECTORS
        \<and> nullish (map_option technology_name (p_networkTechnology port)) '''' \<notin> RADIO_TECHNOLOGIES)"

definition physicalNetworkAdapterPorts :: "inventory_port list option \<Rightarrow> inventory_port list" where
  "physicalNetworkAdapterPorts ports = filter isPhysicalNetworkAdapterPort (nullish ports [])"

text \<open>\<open>xs.at(-1)\<close>.\<close>

definition at_last :: "'a list \<Rightarrow> 'a option" where
  "at_last xs = (if xs = [] then None else Some (last xs))"

type_synonym negotiation = "string \<times> int"

definition negotiateNetworkConnection :: "inventory_port \<Rightarrow> inventory_port \<Rightarrow> negotiation option" where
  "negotiateNetworkConnection first second =
     (if \<not> isPhysicalNetworkAdapterPort first \<or> \<not> isPhysicalNetworkAdapterPort second then None
      else if \<not> areNetworkConnectorsCompatible (p_type first) (p_type second) then None
      else case List.find (\<lambda>m. m \<in> set (portModes second)) (portModes first) of
          None \<Rightarrow> None
        | Some m \<Rightarrow>
            if m = [] then None
            else let speedBps = at_last (filter (\<lambda>s. s \<in> set (supportedNetworkPortSpeedsBps second))
                   (supportedNetworkPortSpeedsBps first))
                 in if truthy_num speedBps then Some (m, the speedBps) else None)"

definition negotiateNetworkPath :: "inventory_port list \<Rightarrow> negotiation option" where
  "negotiateNetworkPath ports =
     (case ports of
        [] \<Rightarrow> None
      | first # rest \<Rightarrow>
          if list_ex (\<lambda>q. \<not> isPhysicalNetworkAdapterPort q) ports then None
          else if list_ex (\<lambda>q. \<not> areNetworkConnectorsCompatible (p_type first) (p_type q)) rest then None
          else let sharedModes = filter (\<lambda>m. list_all (\<lambda>q. m \<in> set (portModes q)) rest) (portModes first) in
            if sharedModes = [] then None
            else let speedBps = at_last (filter (\<lambda>s. list_all (\<lambda>q. s \<in> set (supportedNetworkPortSpeedsBps q)) rest)
                   (supportedNetworkPortSpeedsBps first))
                 in if truthy_num speedBps then Some (hd sharedModes, the speedBps) else None)"

text \<open>What the ports of a path have in common.\<close>

definition common_modes :: "inventory_port list \<Rightarrow> string set" where
  "common_modes ports = {m. \<forall>q \<in> set ports. m \<in> set (portModes q)}"

definition common_speeds :: "inventory_port list \<Rightarrow> int set" where
  "common_speeds ports = {s. \<forall>q \<in> set ports. s \<in> set (supportedNetworkPortSpeedsBps q)}"

definition may_be_cabled :: "inventory_port list \<Rightarrow> bool" where
  "may_be_cabled ports \<longleftrightarrow> (\<forall>q \<in> set ports. isPhysicalNetworkAdapterPort q)
     \<and> (\<forall>q \<in> set ports. \<forall>r \<in> set ports. areNetworkConnectorsCompatible (p_type q) (p_type r))"

text \<open>A network card with one 2.5G port, and a switch port that supports 1G and 10G.\<close>

definition card_port :: inventory_port where
  "card_port = (blank_port 1 KNetwork PRj45)\<lparr>p_speed := Some ''2.5G''\<rparr>"

definition uplink_port :: inventory_port where
  "uplink_port = (blank_port 2 KSwitchPort PRj45)\<lparr>p_supportedSpeedsBps := Some [10000000000, 1000000000]\<rparr>"

section \<open>Lemmas\<close>

lemma connectors_sym: "areNetworkConnectorsCompatible s t \<Longrightarrow> areNetworkConnectorsCompatible t s"
  unfolding areNetworkConnectorsCompatible_def list_ex_iff by blast

lemma connectors_trans:
  "areNetworkConnectorsCompatible s t \<Longrightarrow> areNetworkConnectorsCompatible t u \<Longrightarrow> areNetworkConnectorsCompatible s u"
  by (auto simp: areNetworkConnectorsCompatible_def NETWORK_CONNECTOR_FAMILIES_def)

lemma speeds_sorted: "sorted (supportedNetworkPortSpeedsBps q)"
  by (simp add: supportedNetworkPortSpeedsBps_def)

lemma speeds_positive: "s \<in> set (supportedNetworkPortSpeedsBps q) \<Longrightarrow> 0 < s"
  by (auto simp: supportedNetworkPortSpeedsBps_def)

lemma modes_not_blank: "m \<in> set (portModes q) \<Longrightarrow> m \<noteq> []"
  by (auto simp: portModes_def normalizedValues_def split: if_splits option.splits elim: technology_name.elims)

lemma find_filter: "List.find P xs = (if filter P xs = [] then None else Some (hd (filter P xs)))"
  by (induction xs) auto

lemma at_last_sorted: "sorted xs \<Longrightarrow> at_last xs = Some s \<longleftrightarrow> s \<in> set xs \<and> (\<forall>t \<in> set xs. t \<le> s)"
  for xs :: "int list"
  by (cases xs rule: rev_cases) (auto simp: at_last_def sorted_append intro: antisym)

lemma path_common:
  "s \<in> common_speeds (q # qs) \<longleftrightarrow> s \<in> set (filter (\<lambda>s. list_all (\<lambda>q. s \<in> set (supportedNetworkPortSpeedsBps q)) qs)
     (supportedNetworkPortSpeedsBps q))"
  "m \<in> common_modes (q # qs) \<longleftrightarrow> m \<in> set (filter (\<lambda>m. list_all (\<lambda>q. m \<in> set (portModes q)) qs) (portModes q))"
  by (auto simp: common_speeds_def common_modes_def list_all_iff)

lemma path_may_be_cabled:
  "may_be_cabled (q # qs) \<longleftrightarrow> \<not> list_ex (\<lambda>q. \<not> isPhysicalNetworkAdapterPort q) (q # qs)
     \<and> \<not> list_ex (\<lambda>r. \<not> areNetworkConnectorsCompatible (p_type q) (p_type r)) qs"
proof -
  have "areNetworkConnectorsCompatible (p_type a) (p_type b)"
    if "\<forall>r \<in> set qs. areNetworkConnectorsCompatible (p_type q) (p_type r)" "a \<in> set (q # qs)" "b \<in> set (q # qs)" for a b
  proof -
    have "areNetworkConnectorsCompatible (p_type q) (p_type x)" if "x \<in> set (q # qs)" for x
      using \<open>\<forall>r \<in> set qs. _ r\<close> that by (auto simp: areNetworkConnectorsCompatible_def)
    from this [OF that(2)] this [OF that(3)] show ?thesis by (blast intro: connectors_sym connectors_trans)
  qed
  then show ?thesis unfolding may_be_cabled_def list_ex_iff by (metis list.set_intros(1,2))
qed

lemma path_iff:
  "negotiateNetworkPath ports = Some (m, s) \<longleftrightarrow>
     ports \<noteq> [] \<and> may_be_cabled ports
     \<and> List.find (\<lambda>x. x \<in> common_modes ports) (portModes (hd ports)) = Some m
     \<and> s \<in> common_speeds ports \<and> (\<forall>t \<in> common_speeds ports. t \<le> s)"
proof (cases ports)
  case (Cons q qs)
  let ?modes = "filter (\<lambda>m. list_all (\<lambda>q. m \<in> set (portModes q)) qs) (portModes q)"
  let ?speeds = "filter (\<lambda>s. list_all (\<lambda>q. s \<in> set (supportedNetworkPortSpeedsBps q)) qs) (supportedNetworkPortSpeedsBps q)"
  have sorted: "sorted ?speeds" using speeds_sorted by (rule sorted_wrt_filter)
  have pos: "0 < x" if "x \<in> set ?speeds" for x using that by (auto intro: speeds_positive)
  have last0: "?speeds \<noteq> [] \<Longrightarrow> last ?speeds \<noteq> 0" using last_in_set [of ?speeds] pos by force
  have modes: "filter (\<lambda>x. x \<in> common_modes ports) (portModes q) = ?modes"
    unfolding Cons path_common(2) by (rule filter_cong) auto
  have "negotiateNetworkPath ports = Some (m, s) \<longleftrightarrow>
      may_be_cabled ports \<and> ?modes \<noteq> [] \<and> hd ?modes = m \<and> at_last ?speeds = Some s"
    using last0 unfolding Cons path_may_be_cabled
    by (auto simp: negotiateNetworkPath_def at_last_def)
  also have "\<dots> \<longleftrightarrow> may_be_cabled ports \<and> List.find (\<lambda>x. x \<in> common_modes ports) (portModes q) = Some m
      \<and> s \<in> common_speeds ports \<and> (\<forall>t \<in> common_speeds ports. t \<le> s)"
    unfolding at_last_sorted [OF sorted] find_filter modes unfolding Cons path_common(1) Ball_def by auto
  finally show ?thesis by (simp add: Cons)
qed (simp add: negotiateNetworkPath_def)

text \<open>C34: Functional: \<open>negotiateNetworkPath\<close> negotiates exactly what the ports of a path have in common: it gives a
  result iff there is a port, all are physical network ports with pairwise compatible connectors, and they share
  a mode and a speed; the mode is then the first of the first port's modes that all ports have, and the speed the
  greatest that all ports support.\<close>

theorem path_negotiates_iff:
  "negotiateNetworkPath ports = Some (m, s) \<longleftrightarrow>
     ports \<noteq> [] \<and> may_be_cabled ports
     \<and> List.find (\<lambda>x. x \<in> common_modes ports) (portModes (hd ports)) = Some m
     \<and> s \<in> common_speeds ports \<and> (\<forall>t \<in> common_speeds ports. t \<le> s)"
  by (rule path_iff)

theorem path_negotiates_iff_witness:
  "may_be_cabled [card_port, uplink_port] \<and> 1000000000 \<in> common_speeds [card_port, uplink_port]
   \<and> 2500000000 \<notin> common_speeds [card_port, uplink_port]"
proof -
  have "negotiateNetworkPath [card_port, uplink_port] = Some (''ethernet'', 1000000000)" by code_simp
  then show ?thesis using path_negotiates_iff [of "[card_port, uplink_port]" "''ethernet''" 1000000000] by fastforce
qed

text \<open>Equivalence: a path of two ports is negotiated like a direct connection of them, and so the two ends of a
  cable, whichever is asked, agree on the speed.\<close>

theorem connection_is_path:
  "negotiateNetworkConnection q r = negotiateNetworkPath [q, r]
   \<and> map_option snd (negotiateNetworkConnection q r) = map_option snd (negotiateNetworkConnection r q)"
proof -
  have path: "negotiateNetworkConnection a b = negotiateNetworkPath [a, b]" for a b
    using modes_not_blank [of "hd (filter (\<lambda>m. m \<in> set (portModes b)) (portModes a))" a]
      hd_in_set [of "filter (\<lambda>m. m \<in> set (portModes b)) (portModes a)"]
    by (auto simp: negotiateNetworkConnection_def negotiateNetworkPath_def find_filter)
  have speed: "\<exists>m. negotiateNetworkPath [b, a] = Some (m, s)" if "negotiateNetworkPath [a, b] = Some (m, s)" for a b m s
  proof -
    have same: "common_modes [b, a] = common_modes [a, b]" "common_speeds [b, a] = common_speeds [a, b]"
      "may_be_cabled [b, a] \<longleftrightarrow> may_be_cabled [a, b]"
      by (auto simp: common_modes_def common_speeds_def may_be_cabled_def)
    from that have "m \<in> common_modes [a, b]" unfolding path_iff by (auto simp: find_Some_iff)
    then have "List.find (\<lambda>x. x \<in> common_modes [a, b]) (portModes b) \<noteq> None"
      by (auto simp: find_None_iff common_modes_def)
    with that show ?thesis unfolding path_iff same by auto
  qed
  have "map_option snd (negotiateNetworkPath [q, r]) = map_option snd (negotiateNetworkPath [r, q])"
  proof (cases "negotiateNetworkPath [q, r]")
    case None
    then show ?thesis using speed [of r q] by (cases "negotiateNetworkPath [r, q]") auto
  next
    case (Some n)
    then show ?thesis using speed [of q r] by (cases n) auto
  qed
  with path show ?thesis by simp
qed

end
