(* ===== verification/Connection_Endpoints.thy ===== *)
theory Connection_Endpoints
  imports Project_State Network_Ports
begin

text \<open>
  The endpoints that the connection dialog offers: \<open>src/lib/connection-endpoints.ts\<close>.  A placed host
  offers its own ports, the ports of the network and graphics cards assigned to it, and the power
  endpoints that the topology engine reports (an argument).  The lemmas relate the offer to
  \<open>getConnectionPort\<close>, which reads an endpoint back: every offered port resolves to itself, except that
  no port of a card in a PC build resolves at all.

  The order of two group labels is \<open>localeCompare\<close>, which depends on the browser's locale: the
  collation key is an argument.  A label is the name of the item, which the type declares present.
\<close>

section \<open>Definitions\<close>

record power_endpoint =
  pw_endpoint :: conn_endpoint
  pw_output :: bool
  pw_kind :: string
  pw_label :: string
  pw_allowFanOut :: bool

record endpoint_option =
  eo_key :: string
  eo_endpoint :: conn_endpoint
  eo_host :: inventory_item
  eo_owner :: inventory_item
  eo_port :: inventory_port
  eo_label :: string
  eo_powerEndpoint :: "power_endpoint option"

record endpoint_group =
  gr_key :: string
  gr_host :: inventory_item
  gr_label :: "string option"
  gr_options :: "endpoint_option list"

definition CONNECTION_HOST_TYPES :: "inventory_type set" where
  "CONNECTION_HOST_TYPES = {TServer, TNas, TSwitch, TPatchPanel, TPcBuild, TMonitor, TUps, TPowerStrip}"

definition portNumber :: "inventory_port \<Rightarrow> string" where
  "portNumber port = js_pad2 (show_int (p_slotNumber port))"

definition portSpeedSuffix :: "inventory_port \<Rightarrow> string" where
  "portSpeedSuffix port = (if truthy_str (p_speed port) then '' / '' @ the (p_speed port) else [])"

definition directPortLabel :: "inventory_item \<Rightarrow> inventory_port \<Rightarrow> string" where
  "directPortLabel host port =
     (let type = formatPortType (p_type port) in
      if it_type host = TServer \<or> it_type host = TNas
      then ''Board / '' @ type @ '' '' @ portNumber port @ portSpeedSuffix port
      else ''Port '' @ portNumber port @ '' / '' @ type @ portSpeedSuffix port)"

definition side_label :: "port_side \<Rightarrow> string" where
  "side_label side = (if side = Front then ''Front'' else ''Back'')"

definition patchPanelEndpointLabel :: "inventory_port \<Rightarrow> port_side \<Rightarrow> string" where
  "patchPanelEndpointLabel port side =
     ''Port '' @ portNumber port @ '' / '' @ side_label side @ '' / '' @ formatPortType (p_type port)"

definition item_name :: "inventory_item \<Rightarrow> string" where
  "item_name i = nullish (it_name i) ''undefined''"

definition hostedPortLabel :: "inventory_item \<Rightarrow> inventory_port \<Rightarrow> string" where
  "hostedPortLabel owner port =
     item_name owner @ '' / '' @ formatPortType (p_type port) @ '' '' @ portNumber port @ portSpeedSuffix port"

text \<open>The options for the endpoints of one port, or for the port itself when it has none; the label of a
  port with endpoints depends on the side.\<close>

definition port_endpoint_ref :: "string \<Rightarrow> string option \<Rightarrow> inventory_port \<Rightarrow> int option \<Rightarrow> conn_endpoint" where
  "port_endpoint_ref hostKey hosted port side =
     \<lparr>ep_itemId = hostKey, ep_portId = IdNum (p_id port), ep_endpointId = side, ep_hostedItemId = hosted\<rparr>"

definition endpoint_option_for ::
  "inventory_item \<Rightarrow> inventory_item \<Rightarrow> inventory_port \<Rightarrow> conn_endpoint \<Rightarrow> string \<Rightarrow> endpoint_option" where
  "endpoint_option_for host owner port e label =
     \<lparr>eo_key = endpointKey e, eo_endpoint = e, eo_host = host, eo_owner = owner, eo_port = port,
      eo_label = label, eo_powerEndpoint = None\<rparr>"

definition direct_port_options :: "inventory_item \<Rightarrow> inventory_port \<Rightarrow> endpoint_option list" where
  "direct_port_options host port =
     (let ref = port_endpoint_ref (runtimeItemKey host) None port in
      if nullish (p_endpoints port) [] \<noteq> []
      then map (\<lambda>pe. endpoint_option_for host host port (ref (Some (pe_id pe))) (patchPanelEndpointLabel port (pe_side pe)))
             (nullish (p_endpoints port) [])
      else [endpoint_option_for host host port (ref None) (directPortLabel host port)])"

definition directEndpointOptions :: "inventory_item \<Rightarrow> endpoint_option list" where
  "directEndpointOptions host =
     concat (map (direct_port_options host)
       (filter (\<lambda>port. it_type host \<notin> {TMonitor, TUps, TPowerStrip} \<or> p_type port \<noteq> PBarrel)
          (nullish (it_ports host) [])))"

definition hosted_port_options ::
  "inventory_item \<Rightarrow> assignment \<Rightarrow> inventory_item \<Rightarrow> inventory_port \<Rightarrow> endpoint_option list" where
  "hosted_port_options host a owner port =
     (let ref = port_endpoint_ref (runtimeItemKey host) (Some (as_itemId a)) port in
      if nullish (p_endpoints port) [] \<noteq> []
      then map (\<lambda>pe. endpoint_option_for host owner port (ref (Some (pe_id pe)))
                       (hostedPortLabel owner port @ '' / '' @ side_label (pe_side pe)))
             (nullish (p_endpoints port) [])
      else [endpoint_option_for host owner port (ref None) (hostedPortLabel owner port)])"

definition hosted_assignment_options :: "project \<Rightarrow> inventory_item \<Rightarrow> assignment \<Rightarrow> endpoint_option list" where
  "hosted_assignment_options p host a =
     (case item_at p (as_itemId a) of
        None \<Rightarrow> []
      | Some owner \<Rightarrow>
          if isArchivedItem (Some owner) then []
          else concat (map (hosted_port_options host a owner)
                 (if it_type owner = TNetwork then physicalNetworkAdapterPorts (it_ports owner)
                  else nullish (it_ports owner) [])))"

definition hostedEndpointOptions :: "project \<Rightarrow> inventory_item \<Rightarrow> endpoint_option list" where
  "hostedEndpointOptions p host =
     (if it_type host \<noteq> TServer \<and> it_type host \<noteq> TNas \<and> it_type host \<noteq> TPcBuild then []
      else concat (map (hosted_assignment_options p host)
        (filter (\<lambda>a. as_serverId a = runtimeItemKey host \<and> (as_type a = TNetwork \<or> as_type a = TGpu))
           (pr_assignments p))))"

definition power_option :: "project \<Rightarrow> inventory_item \<Rightarrow> power_endpoint \<Rightarrow> endpoint_option list" where
  "power_option p host pe =
     (let e = pw_endpoint pe;
          owner = (if truthy_str (ep_hostedItemId e) then item_at p (the (ep_hostedItemId e)) else Some host)
      in case owner of
           None \<Rightarrow> []
         | Some owner \<Rightarrow>
             if isArchivedItem (Some owner) then []
             else case List.find (\<lambda>q. IdNum (p_id q) = ep_portId e) (nullish (it_ports owner) []) of
                 None \<Rightarrow> []
               | Some port \<Rightarrow>
                   [\<lparr>eo_key = endpointKey e, eo_endpoint = e, eo_host = host, eo_owner = owner, eo_port = port,
                     eo_label = pw_label pe, eo_powerEndpoint = Some pe\<rparr>])"

definition powerEndpointOptions :: "project \<Rightarrow> inventory_item \<Rightarrow> power_endpoint list \<Rightarrow> endpoint_option list" where
  "powerEndpointOptions p host pes =
     concat (map (power_option p host) (filter (\<lambda>pe. ep_itemId (pw_endpoint pe) = runtimeItemKey host) pes))"

definition getEndpointGroupForHost :: "project \<Rightarrow> inventory_item \<Rightarrow> power_endpoint list \<Rightarrow> endpoint_group option" where
  "getEndpointGroupForHost p host pes =
     (if it_type host \<notin> CONNECTION_HOST_TYPES \<or> isArchivedItem (Some host) then None
      else let options = directEndpointOptions host @ hostedEndpointOptions p host @ powerEndpointOptions p host pes in
        if options = [] then None
        else Some \<lparr>gr_key = runtimeItemKey host, gr_host = host, gr_label = it_name host, gr_options = options\<rparr>)"

definition getHostEndpointGroups :: "(string \<Rightarrow> 'k :: linorder) \<Rightarrow> project \<Rightarrow> power_endpoint list \<Rightarrow> endpoint_group list" where
  "getHostEndpointGroups collate p pes =
     (let placedHostKeys = set (map pl_serverId (pr_placements p)) in
      sort_key (\<lambda>g. collate (nullish (gr_label g) ''undefined''))
        (List.map_filter (\<lambda>host. getEndpointGroupForHost p host pes)
           (filter (\<lambda>i. \<not> isArchivedItem (Some i) \<and> runtimeItemKey i \<in> placedHostKeys) (map snd (pr_items p)))))"

text \<open>Items whose ports can be told apart: the ids of ports and of port endpoints are positive, and those of
  the ports distinct, as the server assigns them.\<close>

definition ports_ok :: "inventory_item \<Rightarrow> bool" where
  "ports_ok i \<longleftrightarrow> distinct (map p_id (nullish (it_ports i) []))
     \<and> (\<forall>q \<in> set (nullish (it_ports i) []). 0 < p_id q \<and> (\<forall>e \<in> set (nullish (p_endpoints q) []). 0 < pe_id e))"

definition endpoints_ok :: "project \<Rightarrow> inventory_item \<Rightarrow> bool" where
  "endpoints_ok p host \<longleftrightarrow> item_at p (runtimeItemKey host) = Some host
     \<and> (\<forall>i \<in> set (map snd (pr_items p)). ports_ok i) \<and> (\<forall>a \<in> set (pr_assignments p). as_itemId a \<noteq> [])"

text \<open>An endpoint of a port names the port itself, or one of its endpoints.\<close>

definition names_port :: "inventory_port \<Rightarrow> int option \<Rightarrow> bool" where
  "names_port q side \<longleftrightarrow> (case side of None \<Rightarrow> nullish (p_endpoints q) [] = []
     | Some n \<Rightarrow> 0 < n \<and> n \<in> pe_id ` set (nullish (p_endpoints q) []))"

text \<open>A PC build with a graphics card that has one port, beside the server with a network card.\<close>

definition cabled_project :: project where
  "cabled_project = sample_project
     \<lparr>pr_items := pr_items sample_project
        @ [(''gpu:1'', (blank_item TGpu 1)\<lparr>it_ports := Some [blank_port 1 KVideo PHdmi]\<rparr>)],
      pr_assignments := pr_assignments sample_project @ [sample_assignment 3 ''pcBuild:1'' ''gpu:1'' TGpu]\<rparr>"

section \<open>Lemmas\<close>

lemma find_by_id:
  "q \<in> set ports \<Longrightarrow> distinct (map p_id ports) \<Longrightarrow> List.find (\<lambda>r. p_id r = p_id q) ports = Some q"
  by (induction ports) force+

lemma find_port:
  "q \<in> set ports \<Longrightarrow> distinct (map p_id ports)
     \<Longrightarrow> List.find (\<lambda>r. js_String (IdNum (p_id r)) = js_String (IdNum (p_id q))) ports = Some q"
  using find_by_id by simp

lemma names_port_side:
  assumes "names_port q side"
  shows "\<not> (truthy_num side \<and> \<not> list_ex (\<lambda>c. Some (pe_id c) = side) (nullish (p_endpoints q) []))"
    and "\<not> (\<not> truthy_num side \<and> nullish (p_endpoints q) [] \<noteq> [])"
  using assms by (auto simp: names_port_def list_ex_iff split: option.splits)

lemma resolve_direct:
  assumes "item_at p k = Some i" "\<not> isArchivedItem (Some i)" "ports_ok i" "q \<in> set (nullish (it_ports i) [])"
    and "names_port q side"
  shows "getConnectionPort p (port_endpoint_ref k None q side) = Some q"
proof -
  have "List.find (\<lambda>r. js_String (IdNum (p_id r)) = js_String (IdNum (p_id q))) (nullish (it_ports i) []) = Some q"
    using assms(3,4) unfolding ports_ok_def by (intro find_port) simp_all
  with assms(1,2) names_port_side [OF assms(5)] show ?thesis
    by (simp add: getConnectionPort_def port_endpoint_ref_def del: js_String.simps)
qed

lemma resolve_hosted:
  assumes "item_at p k = Some host" "\<not> isArchivedItem (Some host)" "as_itemId a \<noteq> []" "a \<in> set (pr_assignments p)"
    and "as_serverId a = k" "as_type a = TNetwork \<or> as_type a = TGpu"
    and "item_at p (as_itemId a) = Some owner" "\<not> isArchivedItem (Some owner)"
    and "ports_ok owner" "q \<in> set (nullish (it_ports owner) [])" "names_port q side"
  shows "getConnectionPort p (port_endpoint_ref k (Some (as_itemId a)) q side)
    = (if it_type host = TServer \<or> it_type host = TNas then Some q else None)"
proof -
  let ?e = "port_endpoint_ref k (Some (as_itemId a)) q side"
  have "List.find (\<lambda>r. js_String (IdNum (p_id r)) = js_String (IdNum (p_id q))) (nullish (it_ports owner) []) = Some q"
    using assms(9,10) unfolding ports_ok_def by (intro find_port) simp_all
  moreover have "List.find (\<lambda>b. as_serverId b = k \<and> as_itemId b = as_itemId a \<and> (as_type b = TNetwork \<or> as_type b = TGpu))
      (pr_assignments p) \<noteq> None"
    using assms(4-6) by (auto simp: find_None_iff)
  moreover have "p_id q \<noteq> 0" using assms(9,10) unfolding ports_ok_def by auto
  ultimately have "getHostedConnectionPort p ?e = (if it_type host = TServer \<or> it_type host = TNas then Some q else None)"
    using assms(1,3,7,8)
    by (auto simp: getHostedConnectionPort_def port_endpoint_ref_def falsy_id_def simp del: js_String.simps)
  with assms(1-3) names_port_side [OF assms(11)] show ?thesis
    by (auto simp: getConnectionPort_def port_endpoint_ref_def simp del: js_String.simps)
qed

text \<open>The options of a host name its ports and the ports of its cards.\<close>

lemma endpoint_option_for_sel [simp]:
  "eo_endpoint (endpoint_option_for h w q e l) = e" "eo_port (endpoint_option_for h w q e l) = q"
  "eo_powerEndpoint (endpoint_option_for h w q e l) = None"
  by (simp_all add: endpoint_option_for_def)

lemma directEndpointOptions_power: "o1 \<in> set (directEndpointOptions host) \<Longrightarrow> eo_powerEndpoint o1 = None"
  by (auto simp: directEndpointOptions_def direct_port_options_def Let_def split: if_splits)

lemma hosted_port_options_power: "o1 \<in> set (hosted_port_options host a owner q) \<Longrightarrow> eo_powerEndpoint o1 = None"
  by (auto simp: hosted_port_options_def Let_def split: if_splits)

lemma port_options:
  assumes "o1 \<in> set (if nullish (p_endpoints q) [] \<noteq> []
      then map (\<lambda>pe. endpoint_option_for h w q (ref (Some (pe_id pe))) (l pe)) (nullish (p_endpoints q) [])
      else [endpoint_option_for h w q (ref None) l0])"
    and "ports_ok w" "q \<in> set (nullish (it_ports w) [])"
  shows "\<exists>side. names_port q side \<and> eo_port o1 = q \<and> eo_endpoint o1 = ref side"
proof (cases "nullish (p_endpoints q) [] = []")
  case True
  with assms(1) show ?thesis by (intro exI [of _ None]) (simp add: names_port_def)
next
  case False
  with assms(1) obtain pe where "pe \<in> set (nullish (p_endpoints q) [])"
    "o1 = endpoint_option_for h w q (ref (Some (pe_id pe))) (l pe)" by auto
  with assms(2,3) show ?thesis by (intro exI [of _ "Some (pe_id pe)"]) (auto simp: names_port_def ports_ok_def)
qed

lemma direct_option:
  assumes "o1 \<in> set (directEndpointOptions host)" "ports_ok host"
  shows "\<exists>q \<in> set (nullish (it_ports host) []). \<exists>side. names_port q side \<and> eo_port o1 = q
    \<and> eo_endpoint o1 = port_endpoint_ref (runtimeItemKey host) None q side"
proof -
  from assms(1) obtain q where q: "q \<in> set (nullish (it_ports host) [])" "o1 \<in> set (direct_port_options host q)"
    by (auto simp: directEndpointOptions_def)
  from port_options [OF q(2) [unfolded direct_port_options_def Let_def] assms(2) q(1)] q(1) show ?thesis by blast
qed

lemma hosted_port_option:
  assumes "o1 \<in> set (hosted_port_options host a owner q)" "ports_ok owner" "q \<in> set (nullish (it_ports owner) [])"
  shows "\<exists>side. names_port q side \<and> eo_port o1 = q
    \<and> eo_endpoint o1 = port_endpoint_ref (runtimeItemKey host) (Some (as_itemId a)) q side"
  by (rule port_options [OF assms(1) [unfolded hosted_port_options_def Let_def] assms(2,3)])

lemma hosted_option:
  assumes "o1 \<in> set (hostedEndpointOptions p host)"
  shows "(it_type host = TServer \<or> it_type host = TNas \<or> it_type host = TPcBuild)
    \<and> (\<exists>a \<in> set (pr_assignments p). \<exists>owner. \<exists>q \<in> set (nullish (it_ports owner) []).
         as_serverId a = runtimeItemKey host \<and> (as_type a = TNetwork \<or> as_type a = TGpu)
         \<and> item_at p (as_itemId a) = Some owner \<and> \<not> isArchivedItem (Some owner)
         \<and> o1 \<in> set (hosted_port_options host a owner q))"
proof -
  from assms have type: "it_type host = TServer \<or> it_type host = TNas \<or> it_type host = TPcBuild"
    by (auto simp: hostedEndpointOptions_def split: if_splits)
  with assms obtain a where a: "a \<in> set (pr_assignments p)" "as_serverId a = runtimeItemKey host"
    "as_type a = TNetwork \<or> as_type a = TGpu" "o1 \<in> set (hosted_assignment_options p host a)"
    by (auto simp: hostedEndpointOptions_def split: if_splits)
  then obtain owner where owner: "item_at p (as_itemId a) = Some owner" "\<not> isArchivedItem (Some owner)"
    by (cases "item_at p (as_itemId a)") (auto simp: hosted_assignment_options_def split: if_splits)
  with a(4) obtain q where "q \<in> set (nullish (it_ports owner) [])" "o1 \<in> set (hosted_port_options host a owner q)"
    by (auto simp: hosted_assignment_options_def physicalNetworkAdapterPorts_def split: if_splits)
  with a owner type show ?thesis by blast
qed

lemma power_option_shown:
  assumes "o1 \<in> set (powerEndpointOptions p host pes)"
  shows "\<exists>pe \<in> set pes. eo_powerEndpoint o1 = Some pe \<and> eo_endpoint o1 = pw_endpoint pe
    \<and> ep_itemId (eo_endpoint o1) = runtimeItemKey host
    \<and> (if truthy_str (ep_hostedItemId (eo_endpoint o1))
       then item_at p (the (ep_hostedItemId (eo_endpoint o1))) = Some (eo_owner o1) else eo_owner o1 = host)
    \<and> \<not> isArchivedItem (Some (eo_owner o1))
    \<and> eo_port o1 \<in> set (nullish (it_ports (eo_owner o1)) []) \<and> IdNum (p_id (eo_port o1)) = ep_portId (eo_endpoint o1)"
proof -
  from assms obtain pe where pe: "pe \<in> set pes" "ep_itemId (pw_endpoint pe) = runtimeItemKey host"
    "o1 \<in> set (power_option p host pe)" by (auto simp: powerEndpointOptions_def)
  let ?owner = "if truthy_str (ep_hostedItemId (pw_endpoint pe))
    then item_at p (the (ep_hostedItemId (pw_endpoint pe))) else Some host"
  note o1 = pe(3) [unfolded power_option_def Let_def]
  then obtain owner where owner: "?owner = Some owner" by (cases ?owner) (simp_all only: option.case list.set empty_iff)
  note o1 = o1 [unfolded owner option.case]
  then have live: "\<not> isArchivedItem (Some owner)" by (auto split: if_splits)
  with o1 obtain q where q: "List.find (\<lambda>q. IdNum (p_id q) = ep_portId (pw_endpoint pe)) (nullish (it_ports owner) []) = Some q"
    by (cases "List.find (\<lambda>q. IdNum (p_id q) = ep_portId (pw_endpoint pe)) (nullish (it_ports owner) [])") simp_all
  with o1 live have "eo_powerEndpoint o1 = Some pe" "eo_endpoint o1 = pw_endpoint pe" "eo_owner o1 = owner" "eo_port o1 = q"
    by simp_all
  with find_Some_iff_first [OF q] pe(1,2) owner live show ?thesis
    by (intro bexI [of _ pe]) (auto split: if_splits)
qed

text \<open>C35: Functional: what the connection dialog offers can be read back.  In a project whose items are filed under
  their keys and whose ports have distinct positive ids, as the server assigns them (\<open>endpoints_ok\<close>): every network
  option of a group, a port of the host itself or of a network or graphics card in it, is the port that
  \<open>getConnectionPort\<close> resolves its endpoint to, except the ports of the cards in a PC build, whose endpoints resolve to
  nothing; and every power option is one of the given power endpoints of the host, with the port of that id of the
  host or of the component that the endpoint names, which is not archived.\<close>

theorem offered_endpoint_resolves:
  assumes "endpoints_ok p host" "getEndpointGroupForHost p host pes = Some g" "o1 \<in> set (gr_options g)"
  shows "(eo_powerEndpoint o1 = None \<longrightarrow> getConnectionPort p (eo_endpoint o1)
      = (if it_type host = TPcBuild \<and> ep_hostedItemId (eo_endpoint o1) \<noteq> None then None else Some (eo_port o1)))
    \<and> (\<forall>pe. eo_powerEndpoint o1 = Some pe \<longrightarrow> pe \<in> set pes \<and> eo_endpoint o1 = pw_endpoint pe
      \<and> ep_itemId (eo_endpoint o1) = runtimeItemKey host
      \<and> (if truthy_str (ep_hostedItemId (eo_endpoint o1))
         then item_at p (the (ep_hostedItemId (eo_endpoint o1))) = Some (eo_owner o1) else eo_owner o1 = host)
      \<and> \<not> isArchivedItem (Some (eo_owner o1))
      \<and> eo_port o1 \<in> set (nullish (it_ports (eo_owner o1)) []) \<and> IdNum (p_id (eo_port o1)) = ep_portId (eo_endpoint o1))"
proof (cases "o1 \<in> set (powerEndpointOptions p host pes)")
  case True
  from power_option_shown [OF this] show ?thesis by auto
next
  case power: False
  have host: "item_at p (runtimeItemKey host) = Some host" "\<not> isArchivedItem (Some host)"
    using assms(1,2) by (auto simp: endpoints_ok_def getEndpointGroupForHost_def split: if_splits)
  have item_ok: "ports_ok i" if "item_at p k = Some i" for k i
  proof -
    from that have "(k, i) \<in> set (pr_items p)" unfolding item_at_def by (rule map_of_SomeD)
    with assms(1) show ?thesis unfolding endpoints_ok_def by force
  qed
  from power assms(2,3) consider "o1 \<in> set (directEndpointOptions host)" | "o1 \<in> set (hostedEndpointOptions p host)"
    by (auto simp: getEndpointGroupForHost_def split: if_splits)
  then show ?thesis
  proof cases
    case 1
    from direct_option [OF this item_ok [OF host(1)]] obtain q side where
      "q \<in> set (nullish (it_ports host) [])" "names_port q side" "eo_port o1 = q"
      "eo_endpoint o1 = port_endpoint_ref (runtimeItemKey host) None q side" by blast
    with resolve_direct [OF host item_ok [OF host(1)]] 1 show ?thesis
      by (simp add: port_endpoint_ref_def directEndpointOptions_power)
  next
    case 2
    from hosted_option [OF this] obtain a owner q where a: "a \<in> set (pr_assignments p)" "as_serverId a = runtimeItemKey host"
      "as_type a = TNetwork \<or> as_type a = TGpu" "item_at p (as_itemId a) = Some owner" "\<not> isArchivedItem (Some owner)"
      "q \<in> set (nullish (it_ports owner) [])" "o1 \<in> set (hosted_port_options host a owner q)"
      "it_type host = TServer \<or> it_type host = TNas \<or> it_type host = TPcBuild" by blast
    from hosted_port_option [OF a(7) item_ok [OF a(4)] a(6)] obtain side where side: "names_port q side" "eo_port o1 = q"
      "eo_endpoint o1 = port_endpoint_ref (runtimeItemKey host) (Some (as_itemId a)) q side"
      by blast
    have "as_itemId a \<noteq> []" using assms(1) a(1) by (auto simp: endpoints_ok_def)
    from resolve_hosted [OF host this a(1-5) item_ok [OF a(4)] a(6) side(1)] side a(7,8) show ?thesis
      by (auto simp: port_endpoint_ref_def hosted_port_options_power)
  qed
qed

theorem offered_endpoint_resolves_witness:
  "getConnectionPort cabled_project (sample_endpoint ''server:1'' 1 (Some ''network:1'')) = Some (blank_port 1 KNetwork PRj45)
   \<and> getConnectionPort cabled_project (sample_endpoint ''pcBuild:1'' 1 (Some ''gpu:1'')) = None"
proof -
  let ?offers = "\<lambda>h e q o1. eo_powerEndpoint o1 = None \<and> eo_endpoint o1 = e \<and> eo_port o1 = q"
  have read: "getConnectionPort cabled_project e = (if it_type h = TPcBuild \<and> ep_hostedItemId e \<noteq> None then None else Some q)"
    if "endpoints_ok cabled_project h"
      "map_option (\<lambda>g. list_ex (?offers h e q) (gr_options g)) (getEndpointGroupForHost cabled_project h []) = Some True"
    for h e q
    using that(2) offered_endpoint_resolves [OF that(1)] by (auto simp: list_ex_iff)
  have "getConnectionPort cabled_project (sample_endpoint ''server:1'' 1 (Some ''network:1''))
      = (if it_type (blank_item TServer 1) = TPcBuild
            \<and> ep_hostedItemId (sample_endpoint ''server:1'' 1 (Some ''network:1'')) \<noteq> None
         then None else Some (blank_port 1 KNetwork PRj45))"
    by (rule read) code_simp+
  moreover have "getConnectionPort cabled_project (sample_endpoint ''pcBuild:1'' 1 (Some ''gpu:1''))
      = (if it_type (blank_item TPcBuild 1) = TPcBuild
            \<and> ep_hostedItemId (sample_endpoint ''pcBuild:1'' 1 (Some ''gpu:1'')) \<noteq> None
         then None else Some (blank_port 1 KVideo PHdmi))"
    by (rule read) code_simp+
  ultimately show ?thesis by (simp add: sample_endpoint_def blank_item_def)
qed

end
