(* ===== verification/Compat_Policy.thy ===== *)
theory Compat_Policy
  imports Compat_Requirements
begin

text \<open>
  The edits of the compatibility policy of a project: \<open>src/lib/compatibility-policy.ts\<close>.  Each edit
  starts from the normalized policy.  A host is named by its runtime key; the key's type is one of the
  inventory types, a key of any other form leaves the project as it is.  The lemmas relate the edits to the
  readers \<open>isHostCompatibilityEnabled\<close> and \<open>isVerifiedMemoryLimitEnabled\<close>, which the planner and the
  assignment rules use.
\<close>

section \<open>Definitions\<close>

definition withoutPolicy :: "project \<Rightarrow> project" where
  "withoutPolicy p = p\<lparr>pr_compatibilityPolicy := None, pr_revision := None\<rparr>"

text \<open>\<open>JSON.stringify\<close> of two values of the model differ exactly when the values do.\<close>

definition compatibilityPolicyOnlyChanged :: "project \<Rightarrow> project \<Rightarrow> bool" where
  "compatibilityPolicyOnlyChanged left right \<longleftrightarrow>
     pr_compatibilityPolicy left \<noteq> pr_compatibilityPolicy right \<and> withoutPolicy left = withoutPolicy right"

text \<open>The host that a key names, when its type is an inventory type.\<close>

definition key_host_ref :: "string \<Rightarrow> host_ref option" where
  "key_host_ref hostId =
     (case hostReference hostId of
        None \<Rightarrow> None
      | Some (t, n) \<Rightarrow>
          map_option (\<lambda>ty. \<lparr>hr_hostType = ty, hr_hostId = n\<rparr>)
            (List.find (\<lambda>ty. type_name ty = t) (map INVENTORY_TYPE_BY_TABLE INVENTORY_TABLE_KEYS)))"

definition set_policy :: "compatibility_policy \<Rightarrow> project \<Rightarrow> project" where
  "set_policy policy p = p\<lparr>pr_compatibilityPolicy := Some policy\<rparr>"

definition setHostCompatibilityEnabled :: "project \<Rightarrow> string \<Rightarrow> bool \<Rightarrow> project" where
  "setHostCompatibilityEnabled p hostId enabled =
     (let policy = normalizeCompatibilityPolicy (pr_compatibilityPolicy p) in
      case key_host_ref hostId of
        None \<Rightarrow> p
      | Some r \<Rightarrow>
          if \<not> isHostType (hr_hostType r) then p
          else let disabledHosts = filter (\<lambda>e. e \<noteq> r) (po_disabledHosts policy) in
            set_policy (policy\<lparr>po_disabledHosts := (if enabled then disabledHosts else disabledHosts @ [r])\<rparr>) p)"

definition setAuditWarningIgnored :: "project \<Rightarrow> string \<Rightarrow> bool \<Rightarrow> project" where
  "setAuditWarningIgnored p warningId ignored =
     (let policy = normalizeCompatibilityPolicy (pr_compatibilityPolicy p); ids = po_ignoredWarningIds policy in
      set_policy (policy\<lparr>po_ignoredWarningIds :=
        (if ignored then (if warningId \<in> set ids then ids else ids @ [warningId])
         else filter (\<lambda>w. w \<noteq> warningId) ids)\<rparr>) p)"

definition setVerifiedMemoryLimitEnabled :: "project \<Rightarrow> string \<Rightarrow> bool \<Rightarrow> project" where
  "setVerifiedMemoryLimitEnabled p hostId enabled =
     (let policy = normalizeCompatibilityPolicy (pr_compatibilityPolicy p) in
      case key_host_ref hostId of
        None \<Rightarrow> p
      | Some r \<Rightarrow>
          let verified = filter (\<lambda>e. e \<noteq> r) (nullish (po_verifiedMemoryHosts policy) []) in
          set_policy (policy\<lparr>po_verifiedMemoryHosts := Some (if enabled then verified @ [r] else verified)\<rparr>) p)"

definition clearIgnoredAuditWarnings :: "project \<Rightarrow> project" where
  "clearIgnoredAuditWarnings p =
     set_policy ((normalizeCompatibilityPolicy (pr_compatibilityPolicy p))\<lparr>po_ignoredWarningIds := []\<rparr>) p"

definition enableCompatibilityForAllHosts :: "project \<Rightarrow> project" where
  "enableCompatibilityForAllHosts p =
     set_policy ((normalizeCompatibilityPolicy (pr_compatibilityPolicy p))\<lparr>po_disabledHosts := []\<rparr>) p"

text \<open>A reference to a host that the policy can hold.\<close>

definition valid_host_ref :: "host_ref \<Rightarrow> bool" where
  "valid_host_ref r \<longleftrightarrow> isHostType (hr_hostType r) \<and> isSafeInteger (hr_hostId r) \<and> 0 < hr_hostId r"

text \<open>A key that refers to a host.\<close>

definition refers :: "string \<Rightarrow> host_ref \<Rightarrow> bool" where
  "refers k r \<longleftrightarrow> hostReference k = Some (type_name (hr_hostType r), hr_hostId r)"

section \<open>Lemmas\<close>

lemma set_normalizeHostRefs: "set (normalizeHostRefs vs) = {r \<in> set (nullish vs []). valid_host_ref r}"
proof -
  have "set (foldl (\<lambda>refs v.
        if isHostType (hr_hostType v) \<and> isSafeInteger (hr_hostId v) \<and> 0 < hr_hostId v
           \<and> \<not> list_ex (\<lambda>e. hr_hostType e = hr_hostType v \<and> hr_hostId e = hr_hostId v) refs
        then refs @ [v] else refs) acc xs) = set acc \<union> {r \<in> set xs. valid_host_ref r}" for acc xs
  proof (induction xs arbitrary: acc)
    case (Cons v xs)
    have "v \<in> set acc" if "list_ex (\<lambda>e. hr_hostType e = hr_hostType v \<and> hr_hostId e = hr_hostId v) acc"
      using that by (auto simp: list_ex_iff) (metis (full_types) host_ref.surjective old.unit.exhaust)
    then show ?case unfolding foldl_Cons Cons.IH valid_host_ref_def by auto
  qed simp
  from this [of "[]" "nullish vs []"] show ?thesis by (simp add: normalizeHostRefs_def)
qed

lemma show_nat_first: "0 < n \<Longrightarrow> hd (show_nat n) \<noteq> CHR ''0''"
proof (induction n rule: show_nat.induct)
  case (1 n)
  show ?case
  proof (cases "n < 10")
    case True
    have "(of_char (CHR ''0'') :: nat) = 48" by simp
    with True "1.prems" of_char_digit [of n] show ?thesis by (auto simp: show_nat.simps [of n])
  next
    case False
    with "1.IH" show ?thesis by (simp add: show_nat.simps [of n])
  qed
qed

lemma hostReference_key: "0 < n \<Longrightarrow> hostReference (itemKey t (IdNum n)) = Some (type_name t, n)"
  using show_nat_first [of "nat n"] show_nat_digits [of "nat n"] type_name_plain [of t]
  by (simp add: hostReference_def split_itemKey show_int_def)

lemma key_host_ref_key:
  "0 < n \<Longrightarrow> key_host_ref (itemKey t (IdNum n)) = Some \<lparr>hr_hostType = t, hr_hostId = n\<rparr>"
  by (simp add: key_host_ref_def hostReference_key type_name_inject find_table_type)

lemma refers_unique: "refers k r \<Longrightarrow> refers k r' \<Longrightarrow> r = r'"
  by (cases r; cases r') (simp add: refers_def type_name_inject)

lemma disabled_iff:
  "isHostCompatibilityEnabled p k \<longleftrightarrow>
     \<not> (\<exists>r \<in> set (po_disabledHosts (normalizeCompatibilityPolicy (pr_compatibilityPolicy p))). refers k r)"
  by (auto simp: isHostCompatibilityEnabled_def refers_def list_ex_iff split: option.splits)

lemma verified_iff:
  "isVerifiedMemoryLimitEnabled p k \<longleftrightarrow>
     (\<exists>r \<in> set (nullish (po_verifiedMemoryHosts (normalizeCompatibilityPolicy (pr_compatibilityPolicy p))) []). refers k r)"
  by (auto simp: isVerifiedMemoryLimitEnabled_def refers_def list_ex_iff split: option.splits)

lemma set_policy_hosts:
  "set (po_disabledHosts (normalizeCompatibilityPolicy (pr_compatibilityPolicy (set_policy q p))))
     = {r \<in> set (po_disabledHosts q). valid_host_ref r}"
  "set (nullish (po_verifiedMemoryHosts (normalizeCompatibilityPolicy (pr_compatibilityPolicy (set_policy q p)))) [])
     = {r \<in> set (nullish (po_verifiedMemoryHosts q) []). valid_host_ref r}"
  by (simp_all add: normalizeCompatibilityPolicy_def set_policy_def set_normalizeHostRefs)

lemma normalized_hosts_valid:
  "r \<in> set (po_disabledHosts (normalizeCompatibilityPolicy q)) \<Longrightarrow> valid_host_ref r"
  "r \<in> set (nullish (po_verifiedMemoryHosts (normalizeCompatibilityPolicy q)) []) \<Longrightarrow> valid_host_ref r"
  by (auto simp: normalizeCompatibilityPolicy_def set_normalizeHostRefs)

lemma policy_switch_facts:
  assumes "valid_host_ref \<lparr>hr_hostType = t, hr_hostId = n\<rparr>"
  shows "isHostCompatibilityEnabled (setHostCompatibilityEnabled p (itemKey t (IdNum n)) e) k
      = (if hostReference k = Some (type_name t, n) then e else isHostCompatibilityEnabled p k)"
    and "isVerifiedMemoryLimitEnabled (setHostCompatibilityEnabled p (itemKey t (IdNum n)) e) k
      = isVerifiedMemoryLimitEnabled p k"
    and "isVerifiedMemoryLimitEnabled (setVerifiedMemoryLimitEnabled p (itemKey t (IdNum n)) e) k
      = (if hostReference k = Some (type_name t, n) then e else isVerifiedMemoryLimitEnabled p k)"
    and "isHostCompatibilityEnabled (setVerifiedMemoryLimitEnabled p (itemKey t (IdNum n)) e) k
      = isHostCompatibilityEnabled p k"
proof -
  let ?r = "\<lparr>hr_hostType = t, hr_hostId = n\<rparr>" and ?q = "normalizeCompatibilityPolicy (pr_compatibilityPolicy p)"
  have host: "isHostType t" "0 < n" using assms by (simp_all add: valid_host_ref_def)
  note valid = normalized_hosts_valid [of _ "pr_compatibilityPolicy p"] and unique = refers_unique [of k _ ?r]
  have k: "hostReference k = Some (type_name t, n) \<longleftrightarrow> refers k ?r" by (simp add: refers_def)
  let ?ds = "filter (\<lambda>r. r \<noteq> ?r) (po_disabledHosts ?q)"
    and ?vs = "filter (\<lambda>r. r \<noteq> ?r) (nullish (po_verifiedMemoryHosts ?q) [])"
  have enabled: "setHostCompatibilityEnabled p (itemKey t (IdNum n)) e
      = set_policy (?q\<lparr>po_disabledHosts := (if e then ?ds else ?ds @ [?r])\<rparr>) p"
    using host by (simp add: setHostCompatibilityEnabled_def key_host_ref_key)
  have verified: "setVerifiedMemoryLimitEnabled p (itemKey t (IdNum n)) e
      = set_policy (?q\<lparr>po_verifiedMemoryHosts := Some (if e then ?vs @ [?r] else ?vs)\<rparr>) p"
    using host by (simp add: setVerifiedMemoryLimitEnabled_def key_host_ref_key)
  show "isHostCompatibilityEnabled (setHostCompatibilityEnabled p (itemKey t (IdNum n)) e) k
      = (if hostReference k = Some (type_name t, n) then e else isHostCompatibilityEnabled p k)"
    unfolding disabled_iff enabled set_policy_hosts k using assms valid(1) unique by (cases e) auto
  show "isVerifiedMemoryLimitEnabled (setHostCompatibilityEnabled p (itemKey t (IdNum n)) e) k
      = isVerifiedMemoryLimitEnabled p k"
    unfolding verified_iff enabled set_policy_hosts using valid(2) by auto
  show "isVerifiedMemoryLimitEnabled (setVerifiedMemoryLimitEnabled p (itemKey t (IdNum n)) e) k
      = (if hostReference k = Some (type_name t, n) then e else isVerifiedMemoryLimitEnabled p k)"
    unfolding verified_iff verified set_policy_hosts k using assms valid(2) unique by (cases e) auto
  show "isHostCompatibilityEnabled (setVerifiedMemoryLimitEnabled p (itemKey t (IdNum n)) e) k
      = isHostCompatibilityEnabled p k"
    unfolding disabled_iff verified set_policy_hosts using valid(1) by auto
qed

text \<open>Functional: the policy switches do what they say and nothing else.  Switching the checks of a host on or off
  decides exactly what the planner reads for that host, and leaves every other host and every verified memory
  limit as they were; the switch of the verified memory limit likewise.\<close>

theorem policy_switches:
  assumes "valid_host_ref \<lparr>hr_hostType = t, hr_hostId = n\<rparr>"
  shows "isHostCompatibilityEnabled (setHostCompatibilityEnabled p (itemKey t (IdNum n)) e) k
      = (if hostReference k = Some (type_name t, n) then e else isHostCompatibilityEnabled p k)
    \<and> isVerifiedMemoryLimitEnabled (setHostCompatibilityEnabled p (itemKey t (IdNum n)) e) k
      = isVerifiedMemoryLimitEnabled p k
    \<and> isVerifiedMemoryLimitEnabled (setVerifiedMemoryLimitEnabled p (itemKey t (IdNum n)) e) k
      = (if hostReference k = Some (type_name t, n) then e else isVerifiedMemoryLimitEnabled p k)
    \<and> isHostCompatibilityEnabled (setVerifiedMemoryLimitEnabled p (itemKey t (IdNum n)) e) k
      = isHostCompatibilityEnabled p k"
  by (intro conjI policy_switch_facts assms)

theorem policy_switches_witness:
  "\<not> isHostCompatibilityEnabled (setHostCompatibilityEnabled sample_project (itemKey TServer (IdNum 1)) False) ''server:1''
   \<and> isHostCompatibilityEnabled (setHostCompatibilityEnabled sample_project (itemKey TServer (IdNum 1)) False) ''server:2''"
proof -
  have "valid_host_ref \<lparr>hr_hostType = TServer, hr_hostId = 1\<rparr>" "hostReference ''server:1'' = Some (type_name TServer, 1)"
    "hostReference ''server:2'' = Some (type_name TServer, 2)" "isHostCompatibilityEnabled sample_project ''server:2''"
    by code_simp+
  with policy_switches [of TServer 1 sample_project False] show ?thesis by simp
qed

end
