(* ===== verification/Undo_History.thy ===== *)
theory Undo_History
  imports Compat_Policy
begin

text \<open>
  Undo and redo: \<open>src/lib/history.ts\<close>, \<open>src/app/project-history-snapshot.ts\<close> and the hook of
  \<open>src/app/use-project-history.ts\<close>.  The history is generic; the application's snapshots hold the
  project, the metadata of the items, the workbook and the canvases of other workspaces.

  The refs of the hook are the fields of a record.  \<open>applyHistory\<close> awaits requests to the server: each is a
  function of the environment \<open>history_env\<close> that gives the answer or the message of the error, and the
  requests of one call are answered one after another, before the next call, as the hook's busy flag demands.
  An error keeps the changes that were made before it.  \<open>structuredClone\<close> and the copies of maps are
  identities, as no value of the model is mutated; \<open>JSON.stringify\<close> of two values of the model are equal
  exactly when the values are.
\<close>

section \<open>Definitions\<close>

subsection \<open>The history\<close>

definition MAX_HISTORY_ENTRIES :: nat where
  "MAX_HISTORY_ENTRIES = 50"

record 'a history =
  h_past :: "'a list"
  h_future :: "'a list"

definition createEmptyHistory :: "'a history" where
  "createEmptyHistory = \<lparr>h_past = [], h_future = []\<rparr>"

text \<open>\<open>xs.slice(-n)\<close>.\<close>

definition keep_last :: "nat \<Rightarrow> 'a list \<Rightarrow> 'a list" where
  "keep_last n xs = drop (length xs - n) xs"

definition pushHistory :: "'a history \<Rightarrow> 'a \<Rightarrow> 'a history" where
  "pushHistory h snapshot = \<lparr>h_past = keep_last MAX_HISTORY_ENTRIES (h_past h @ [snapshot]), h_future = []\<rparr>"

definition undoHistory :: "'a history \<Rightarrow> 'a \<Rightarrow> ('a history \<times> 'a) option" where
  "undoHistory h current =
     (if h_past h = [] then None
      else Some (\<lparr>h_past = butlast (h_past h), h_future = take MAX_HISTORY_ENTRIES (current # h_future h)\<rparr>,
                 last (h_past h)))"

definition redoHistory :: "'a history \<Rightarrow> 'a \<Rightarrow> ('a history \<times> 'a) option" where
  "redoHistory h current =
     (case h_future h of
        [] \<Rightarrow> None
      | n # future \<Rightarrow> Some (\<lparr>h_past = keep_last MAX_HISTORY_ENTRIES (h_past h @ [current]), h_future = future\<rparr>, n))"

text \<open>A session: the history and the current state; an edit pushes the state it replaces.\<close>

type_synonym 'a session = "'a history \<times> 'a"

inductive session_step :: "'a session \<Rightarrow> 'a session \<Rightarrow> bool" where
  edit: "session_step (h, c) (pushHistory h c, x)"
| undo: "undoHistory h c = Some (h', p) \<Longrightarrow> session_step (h, c) (h', p)"
| redo: "redoHistory h c = Some (h', n) \<Longrightarrow> session_step (h, c) (h', n)"

text \<open>What a session stands for: a line of states with a cursor.\<close>

definition timeline :: "'a session \<Rightarrow> 'a list" where
  "timeline s = (let (h, c) = s in h_past h @ c # h_future h)"

definition cursor :: "'a session \<Rightarrow> nat" where
  "cursor s = length (h_past (fst s))"

definition session_ok :: "'a session \<Rightarrow> bool" where
  "session_ok s \<longleftrightarrow> length (timeline s) \<le> Suc MAX_HISTORY_ENTRIES"

subsection \<open>Snapshots\<close>

record metadata_value =
  mv_definitionId :: int
  mv_value :: jsv

record metadata_input =
  mi_values :: "metadata_value list"
  mi_tagIds :: "int list"

record metadata_ref =
  mf_type :: string
  mf_id :: int

record metadata_item =
  mh_ref :: metadata_ref
  mh_metadata :: metadata_input

type_synonym metadata_state = "metadata_item dict"

record project_summary =
  ps_id :: int
  ps_name :: string
  ps_description :: "string option"
  ps_iconKey :: string
  ps_revision :: int
  ps_workbookRevision :: "int option"
  ps_includesGlobalInventory :: bool
  ps_archivedAtMs :: "int option"

record workspace_summary =
  ww_id :: int
  ww_projectId :: int
  ww_systems :: bool
  ww_name :: string
  ww_iconKey :: string
  ww_colorKey :: string
  ww_sortOrder :: int
  ww_revision :: int
  ww_systemKey :: "string option"
  ww_viewport :: "(jsv option) \<times> (jsv option) \<times> (jsv option)"
  ww_settings :: "jsv dict option"

record workbook =
  wb_project :: project_summary
  wb_defaultWorkspaceId :: int
  wb_workspaces :: "workspace_summary list"

record snapshot =
  sn_project :: project
  sn_metadata :: metadata_state
  sn_workbook :: "workbook option"
  sn_workspaces :: "project dict"

definition inventoryMetadataHistoryKey :: "metadata_ref \<Rightarrow> string" where
  "inventoryMetadataHistoryKey r = mf_type r @ '':'' @ show_int (mf_id r)"

definition setInventoryMetadataHistoryItem :: "metadata_state \<Rightarrow> metadata_ref \<Rightarrow> metadata_input \<Rightarrow> metadata_state" where
  "setInventoryMetadataHistoryItem state r metadata =
     AList.update (inventoryMetadataHistoryKey r) \<lparr>mh_ref = r, mh_metadata = metadata\<rparr> state"

definition createProjectHistorySnapshot ::
  "project \<Rightarrow> metadata_state \<Rightarrow> workbook option \<Rightarrow> project dict \<Rightarrow> snapshot" where
  "createProjectHistorySnapshot p metadata wb workspaces =
     \<lparr>sn_project = p, sn_metadata = metadata, sn_workbook = wb, sn_workspaces = workspaces\<rparr>"

definition backfill_snapshot :: "metadata_ref \<Rightarrow> metadata_input \<Rightarrow> snapshot \<Rightarrow> snapshot" where
  "backfill_snapshot r metadata s =
     (if map_of (sn_metadata s) (inventoryMetadataHistoryKey r) \<noteq> None then s
      else createProjectHistorySnapshot (sn_project s) (setInventoryMetadataHistoryItem (sn_metadata s) r metadata)
             (sn_workbook s) (sn_workspaces s))"

definition backfillProjectHistoryMetadata :: "snapshot history \<Rightarrow> metadata_ref \<Rightarrow> metadata_input \<Rightarrow> snapshot history" where
  "backfillProjectHistoryMetadata h r metadata =
     \<lparr>h_past = map (backfill_snapshot r metadata) (h_past h), h_future = map (backfill_snapshot r metadata) (h_future h)\<rparr>"

definition metadataHistoryChanges :: "metadata_state \<Rightarrow> metadata_state \<Rightarrow> metadata_item list" where
  "metadataHistoryChanges current target =
     concat (map (\<lambda>(k, item). if map_option mh_metadata (map_of current k) = Some (mh_metadata item) then [] else [item]) target)"

subsection \<open>Comparing projects\<close>

definition at_revision_0 :: "project \<Rightarrow> project" where
  "at_revision_0 p = p\<lparr>pr_revision := Some 0\<rparr>"

definition projectHistoryContentEqual :: "project \<Rightarrow> project \<Rightarrow> bool" where
  "projectHistoryContentEqual left right \<longleftrightarrow> at_revision_0 left = at_revision_0 right"

definition projectWithoutInventoryProperties :: "project \<Rightarrow> project" where
  "projectWithoutInventoryProperties p =
     (at_revision_0 p)\<lparr>pr_items := map (\<lambda>(k, i). (k, i\<lparr>it_properties := None\<rparr>)) (pr_items p)\<rparr>"

definition projectWithoutInventoryItems :: "project \<Rightarrow> project" where
  "projectWithoutInventoryItems p = (at_revision_0 p)\<lparr>pr_items := []\<rparr>"

definition projectWithoutPlacements :: "project \<Rightarrow> project" where
  "projectWithoutPlacements p = (at_revision_0 p)\<lparr>pr_placements := []\<rparr>"

definition placementsOnlyChanged :: "project \<Rightarrow> project \<Rightarrow> bool" where
  "placementsOnlyChanged current target \<longleftrightarrow>
     \<not> projectHistoryContentEqual current target
     \<and> projectWithoutPlacements current = projectWithoutPlacements target"

definition inventoryPropertiesOnlyChanged :: "project \<Rightarrow> project \<Rightarrow> bool" where
  "inventoryPropertiesOnlyChanged current target \<longleftrightarrow>
     \<not> projectHistoryContentEqual current target
     \<and> projectWithoutInventoryProperties current = projectWithoutInventoryProperties target"

definition inventoryPropertyHistoryChanges :: "project \<Rightarrow> project \<Rightarrow> ((inventory_type \<times> js_id) \<times> string dict) list" where
  "inventoryPropertyHistoryChanges current target =
     concat (map (\<lambda>(k, targetItem).
        case item_at current k of
          None \<Rightarrow> []
        | Some currentItem \<Rightarrow>
            if nullish (it_properties currentItem) [] = nullish (it_properties targetItem) [] then []
            else [((it_type targetItem, it_id targetItem), nullish (it_properties targetItem) [])])
       (pr_items target))"

definition inventoryItemsOnlyChanged :: "project \<Rightarrow> project \<Rightarrow> bool" where
  "inventoryItemsOnlyChanged current target \<longleftrightarrow>
     \<not> projectHistoryContentEqual current target
     \<and> projectWithoutInventoryItems current = projectWithoutInventoryItems target
     \<and> length (pr_items current) = length (pr_items target)
     \<and> list_all (\<lambda>(k, _). item_at target k \<noteq> None) (pr_items current)"

definition inventoryItemHistoryChanges :: "project \<Rightarrow> project \<Rightarrow> inventory_item list" where
  "inventoryItemHistoryChanges current target =
     concat (map (\<lambda>(k, targetItem). if item_at current k = Some targetItem then [] else [targetItem]) (pr_items target))"

subsection \<open>The hook\<close>

record history_state =
  hs_project :: "project option"
  hs_metadata :: metadata_state
  hs_workbook :: "workbook option"
  hs_workspaces :: "project dict"
  hs_history :: "snapshot history"
  hs_selectedItem :: "string option"
  hs_selectedConnection :: "int option"
  hs_message :: "string option"
  hs_scheduled :: "project list"

text \<open>The answer of a request, and the project that the caller's callback stored in the shared ref meanwhile,
  if it did.\<close>

type_synonym 'a answer = "(string + 'a) \<times> project option"

type_synonym scope = "(int \<times> int) option"

record restored_metadata =
  rm_affectedProjectIds :: "int list"
  rm_items :: "jsv list"

record history_env =
  he_restoreWorkspace :: "project \<Rightarrow> project answer"
  he_restoreMetadata :: "metadata_item list \<Rightarrow> restored_metadata answer"
  he_refreshMetadata :: "int list \<Rightarrow> (metadata_ref \<times> jsv) list \<Rightarrow> unit answer"
  he_updatePolicy :: "int \<Rightarrow> compatibility_policy option \<Rightarrow> compatibility_policy answer"
  he_updateProperties :: "(inventory_type \<times> js_id) \<times> string dict \<Rightarrow> scope \<Rightarrow> project answer"
  he_updateItem :: "inventory_item \<Rightarrow> scope \<Rightarrow> project answer"
  he_restorePlacement :: "project \<Rightarrow> project answer"
  he_restoreWorkbook :: "workbook \<Rightarrow> workbook answer"

text \<open>A part of the hook: the new state, and an error or a value.\<close>

type_synonym 'a run = "history_state \<times> (string + 'a)"

definition run_then :: "'a run \<Rightarrow> (history_state \<Rightarrow> 'a \<Rightarrow> 'b run) \<Rightarrow> 'b run" where
  "run_then r f = (case r of (st, Inl e) \<Rightarrow> (st, Inl e) | (st, Inr v) \<Rightarrow> f st v)"

definition call :: "history_state \<Rightarrow> 'a answer \<Rightarrow> 'a run" where
  "call st a = ((case snd a of None \<Rightarrow> st | Some p \<Rightarrow> st\<lparr>hs_project := Some p\<rparr>), fst a)"

fun restore_workspaces :: "history_env \<Rightarrow> (string \<times> project) list \<Rightarrow> history_state \<Rightarrow> unit run" where
  "restore_workspaces env [] st = (st, Inr ())"
| "restore_workspaces env ((k, w) # ws) st =
     run_then (call st (he_restoreWorkspace env w)) (\<lambda>st restored.
       restore_workspaces env ws (st\<lparr>hs_workspaces := AList.update k restored (hs_workspaces st)\<rparr>))"

definition restore_metadata :: "history_env \<Rightarrow> snapshot \<Rightarrow> history_state \<Rightarrow> unit run" where
  "restore_metadata env target st =
     (let changes = metadataHistoryChanges (hs_metadata st) (sn_metadata target) in
      if changes = [] then (st, Inr ())
      else run_then (call st (he_restoreMetadata env changes)) (\<lambda>st restored.
        let st = st\<lparr>hs_metadata := sn_metadata target\<rparr> in
        if length (rm_items restored) < length changes
        then (st, Inl ''Cannot read properties of undefined (reading metadata)'')
        else call st (he_refreshMetadata env (rm_affectedProjectIds restored)
               (zip (map mh_ref changes) (rm_items restored)))))"

text \<open>One request after another; the value is the answer of the last.\<close>

fun update_each :: "('c \<Rightarrow> project answer) \<Rightarrow> 'c list \<Rightarrow> project option \<Rightarrow> history_state \<Rightarrow> project option run" where
  "update_each f [] latest st = (st, Inr latest)"
| "update_each f (c # cs) latest st = run_then (call st (f c)) (\<lambda>st p. update_each f cs (Some p) st)"

definition history_scope :: "project \<Rightarrow> scope" where
  "history_scope p =
     (if truthy_num (md_projectId (pr_metadata p)) \<and> truthy_num (md_workspaceId (pr_metadata p))
      then Some (the (md_projectId (pr_metadata p)), the (md_workspaceId (pr_metadata p))) else None)"

text \<open>How the target differs from the current project.\<close>

record history_diff =
  hd_projectChanged :: bool
  hd_workbookChanged :: bool
  hd_policyOnly :: bool
  hd_propertiesOnly :: bool
  hd_inventoryOnly :: bool
  hd_placementOnly :: bool

definition changed_workspaces :: "snapshot \<Rightarrow> snapshot \<Rightarrow> (string \<times> project) list" where
  "changed_workspaces current target =
     filter (\<lambda>(k, w). case map_of (sn_workspaces current) k of None \<Rightarrow> True
        | Some c \<Rightarrow> \<not> projectHistoryContentEqual c w) (sn_workspaces target)"

definition comparable_target :: "bool \<Rightarrow> project \<Rightarrow> project \<Rightarrow> project" where
  "comparable_target workspacesChanged current target =
     (if workspacesChanged
      then target\<lparr>pr_metadata := (pr_metadata target)\<lparr>md_updatedAt := md_updatedAt (pr_metadata current)\<rparr>\<rparr>
      else target)"

definition history_diff_of :: "bool \<Rightarrow> project \<Rightarrow> snapshot \<Rightarrow> workbook option \<Rightarrow> history_diff" where
  "history_diff_of workspacesChanged current target wb =
     (let goal = sn_project target;
          changed = (\<not> projectHistoryContentEqual (comparable_target workspacesChanged current goal) current) in
      \<lparr>hd_projectChanged = changed,
       hd_workbookChanged = (sn_workbook target \<noteq> None \<and> sn_workbook target \<noteq> wb),
       hd_policyOnly = (changed \<and> compatibilityPolicyOnlyChanged current goal),
       hd_propertiesOnly = (changed \<and> inventoryPropertiesOnlyChanged current goal),
       hd_inventoryOnly = (changed \<and> inventoryItemsOnlyChanged current goal),
       hd_placementOnly = (changed \<and> placementsOnlyChanged current goal)\<rparr>)"

text \<open>The requests that bring the server to the target, and the project that the hook goes on with;
  the second part of the value says whether a placement request answered.\<close>

definition optional_run :: "bool \<Rightarrow> 'a run \<Rightarrow> history_state \<Rightarrow> 'a option run" where
  "optional_run b r st = (if b then run_then r (\<lambda>st v. (st, Inr (Some v))) else (st, Inr None))"

definition rebased_project ::
  "history_diff \<Rightarrow> project \<Rightarrow> project \<Rightarrow> project \<Rightarrow> compatibility_policy option \<Rightarrow> project option \<Rightarrow> project option
     \<Rightarrow> project option \<Rightarrow> project" where
  "rebased_project d current goal latest policyResult propertyProject inventoryProject placementProject =
     (case policyResult of Some policy \<Rightarrow> current\<lparr>pr_compatibilityPolicy := Some policy\<rparr>
      | None \<Rightarrow> case propertyProject of Some q \<Rightarrow> q
      | None \<Rightarrow> case inventoryProject of Some q \<Rightarrow> q
      | None \<Rightarrow> case placementProject of Some q \<Rightarrow> q
      | None \<Rightarrow> if hd_projectChanged d then goal\<lparr>pr_revision := pr_revision current\<rparr> else latest)"

definition rebase_project ::
  "history_env \<Rightarrow> history_diff \<Rightarrow> bool \<Rightarrow> project \<Rightarrow> project \<Rightarrow> history_state \<Rightarrow> (project \<times> bool) run" where
  "rebase_project env d workspacesChanged current goal st =
     (let scope = history_scope current in
      run_then (optional_run (hd_policyOnly d) (call st (he_updatePolicy env
          (nullish (md_projectId (pr_metadata current)) 1) (pr_compatibilityPolicy goal))) st) (\<lambda>st policyResult.
      run_then (update_each (\<lambda>c. he_updateProperties env c scope)
          (if hd_propertiesOnly d then inventoryPropertyHistoryChanges current goal else []) None st) (\<lambda>st propertyProject.
      run_then (update_each (\<lambda>i. he_updateItem env i scope)
          (if hd_inventoryOnly d \<and> \<not> hd_propertiesOnly d then inventoryItemHistoryChanges current goal else []) None st)
        (\<lambda>st inventoryProject.
      run_then (optional_run (hd_placementOnly d) (call st (he_restorePlacement env goal)) st) (\<lambda>st placementProject.
        (st, Inr
          (rebased_project d current goal (if workspacesChanged then nullish (hs_project st) current else current)
             policyResult propertyProject inventoryProject placementProject,
           placementProject \<noteq> None)))))))"

definition keep_selection :: "project \<Rightarrow> history_state \<Rightarrow> history_state" where
  "keep_selection p st = st
     \<lparr>hs_selectedItem := (if truthy_str (hs_selectedItem st) \<and> item_at p (the (hs_selectedItem st)) \<noteq> None
        then hs_selectedItem st else None),
      hs_selectedConnection := (if truthy_num (hs_selectedConnection st)
          \<and> list_ex (\<lambda>c. Some (c_id c) = hs_selectedConnection st) (pr_connections p)
        then hs_selectedConnection st else None)\<rparr>"

text \<open>The state once every request has answered.\<close>

definition show_restored ::
  "history_diff \<Rightarrow> snapshot history \<Rightarrow> project \<Rightarrow> bool \<Rightarrow> workbook option \<Rightarrow> history_state \<Rightarrow> history_state" where
  "show_restored d h rebased placed restored st =
     (let final = (case restored of None \<Rightarrow> rebased
            | Some wb \<Rightarrow> rebased\<lparr>pr_metadata := (pr_metadata rebased)\<lparr>md_name := ps_name (wb_project wb)\<rparr>\<rparr>);
          st = st\<lparr>hs_workbook := (case restored of None \<Rightarrow> hs_workbook st | Some wb \<Rightarrow> Some wb),
            hs_project := Some final, hs_history := h,
            hs_scheduled := hs_scheduled st @
              (if hd_projectChanged d \<and> \<not> hd_workbookChanged d \<and> \<not> hd_policyOnly d \<and> \<not> hd_propertiesOnly d
                  \<and> \<not> hd_inventoryOnly d \<and> \<not> placed
               then [rebased] else [])\<rparr>
      in (keep_selection final st)\<lparr>hs_message := None\<rparr>)"

definition restore_snapshot ::
  "history_env \<Rightarrow> project \<Rightarrow> snapshot \<Rightarrow> snapshot history \<Rightarrow> snapshot \<Rightarrow> history_state \<Rightarrow> unit run" where
  "restore_snapshot env current now h target st =
     (let workspaces = changed_workspaces now target in
      run_then (restore_workspaces env workspaces st) (\<lambda>st _.
      run_then (restore_metadata env target st) (\<lambda>st _.
        let d = history_diff_of (workspaces \<noteq> []) current target (hs_workbook st) in
        run_then (rebase_project env d (workspaces \<noteq> []) current (sn_project target) st) (\<lambda>st (rebased, placed).
        run_then (optional_run (hd_workbookChanged d) (call st (he_restoreWorkbook env (the (sn_workbook target)))) st)
          (\<lambda>st restored. (show_restored d h rebased placed restored st, Inr ()))))))"

datatype direction = Undo | Redo

definition snapshot_now :: "project \<Rightarrow> history_state \<Rightarrow> snapshot" where
  "snapshot_now current st =
     createProjectHistorySnapshot current (hs_metadata st) (hs_workbook st) (hs_workspaces st)"

definition applyHistory :: "history_env \<Rightarrow> direction \<Rightarrow> history_state \<Rightarrow> history_state" where
  "applyHistory env dir st =
     (case hs_project st of
        None \<Rightarrow> st
      | Some current \<Rightarrow>
          let now = snapshot_now current st in
          case (if dir = Undo then undoHistory (hs_history st) now else redoHistory (hs_history st) now) of
            None \<Rightarrow> st
          | Some (h, target) \<Rightarrow>
              (case restore_snapshot env current now h target st of
                 (st', Inl e) \<Rightarrow> st'\<lparr>hs_message := Some e\<rparr>
               | (st', Inr _) \<Rightarrow> st'))"

subsection \<open>Recording a change\<close>

text \<open>\<open>setHistory\<close> with a pushed snapshot: a new snapshot without canvases gets those of the session.\<close>

definition push_snapshot :: "snapshot \<Rightarrow> history_state \<Rightarrow> history_state" where
  "push_snapshot s st = st\<lparr>hs_history := pushHistory (hs_history st)
     (if sn_workspaces s \<noteq> [] \<or> hs_workspaces st = [] then s else s\<lparr>sn_workspaces := hs_workspaces st\<rparr>)\<rparr>"

definition recordWorkspaceChange :: "project \<Rightarrow> project \<Rightarrow> history_state \<Rightarrow> history_state" where
  "recordWorkspaceChange before after st =
     (let projectId = md_projectId (pr_metadata before); workspaceId = md_workspaceId (pr_metadata before) in
      if hs_project st = None \<or> \<not> truthy_num projectId \<or> \<not> truthy_num workspaceId
         \<or> md_projectId (pr_metadata after) \<noteq> projectId \<or> md_workspaceId (pr_metadata after) \<noteq> workspaceId
      then st
      else let key = show_int (the projectId) @ '':'' @ show_int (the workspaceId);
               st = push_snapshot (createProjectHistorySnapshot (the (hs_project st)) (hs_metadata st) (hs_workbook st)
                 (AList.update key before (hs_workspaces st))) st
           in st\<lparr>hs_workspaces := AList.update key after (hs_workspaces st)\<rparr>)"

definition recordWorkbookChange :: "workbook \<Rightarrow> workbook \<Rightarrow> history_state \<Rightarrow> history_state" where
  "recordWorkbookChange before after st =
     (case hs_project st of
        None \<Rightarrow> st
      | Some current \<Rightarrow>
          if before = after then st
          else let st = (push_snapshot (createProjectHistorySnapshot current (hs_metadata st) (Some before) []) st)
                     \<lparr>hs_workbook := Some after\<rparr>
               in if ps_name (wb_project before) = ps_name (wb_project after) then st
                  else st\<lparr>hs_project := Some (current\<lparr>pr_metadata :=
                         (pr_metadata current)\<lparr>md_name := ps_name (wb_project after)\<rparr>\<rparr>)\<rparr>)"

text \<open>A server that stores what it is asked to store.\<close>

definition honest :: "history_env \<Rightarrow> bool" where
  "honest env \<longleftrightarrow> (\<forall>i q r. fst (he_updatePolicy env i (Some q)) = Inr r \<longrightarrow> r = q)
     \<and> (\<forall>q r. fst (he_restorePlacement env q) = Inr r \<longrightarrow> projectHistoryContentEqual r q)"

text \<open>The message of an error with which a request of the environment can fail; a restored metadata with too few items
  fails as well.\<close>

definition request_error :: "history_env \<Rightarrow> string \<Rightarrow> bool" where
  "request_error env e \<longleftrightarrow>
     (\<exists>w. fst (he_restoreWorkspace env w) = Inl e) \<or> (\<exists>ms. fst (he_restoreMetadata env ms) = Inl e)
     \<or> (\<exists>is ms. fst (he_refreshMetadata env is ms) = Inl e) \<or> (\<exists>i q. fst (he_updatePolicy env i q) = Inl e)
     \<or> (\<exists>c sc. fst (he_updateProperties env c sc) = Inl e) \<or> (\<exists>i sc. fst (he_updateItem env i sc) = Inl e)
     \<or> (\<exists>q. fst (he_restorePlacement env q) = Inl e) \<or> (\<exists>w. fst (he_restoreWorkbook env w) = Inl e)
     \<or> (e = ''Cannot read properties of undefined (reading metadata)''
         \<and> (\<exists>ms r. fst (he_restoreMetadata env ms) = Inr r \<and> length (rm_items r) < length ms))"

text \<open>Two states of the project between which undo does not go item by item.\<close>

definition whole_change :: "project \<Rightarrow> project \<Rightarrow> bool" where
  "whole_change p q \<longleftrightarrow> \<not> inventoryPropertiesOnlyChanged p q
     \<and> \<not> inventoryItemsOnlyChanged p q \<and> \<not> inventoryItemsOnlyChanged q p"

text \<open>A step of the history that concerns the project alone.\<close>

definition project_step :: "snapshot \<Rightarrow> bool" where
  "project_step s \<longleftrightarrow> sn_workspaces s = [] \<and> sn_workbook s = None \<and> pr_compatibilityPolicy (sn_project s) \<noteq> None"

text \<open>An environment in which the requests for placements and the policy succeed, and a session after one move on the canvas.\<close>

definition echo_env :: history_env where
  "echo_env = \<lparr>he_restoreWorkspace = (\<lambda>p. (Inr p, None)),
     he_restoreMetadata = (\<lambda>items. (Inr \<lparr>rm_affectedProjectIds = [], rm_items = map (\<lambda>_. JNull) items\<rparr>, None)),
     he_refreshMetadata = (\<lambda>_ _. (Inr (), None)),
     he_updatePolicy = (\<lambda>_ q. (case q of None \<Rightarrow> Inl ''no policy'' | Some r \<Rightarrow> Inr r, None)),
     he_updateProperties = (\<lambda>_ _. (Inl ''unused'', None)), he_updateItem = (\<lambda>_ _. (Inl ''unused'', None)),
     he_restorePlacement = (\<lambda>q. (Inr (q\<lparr>pr_revision := Some 9\<rparr>), None)),
     he_restoreWorkbook = (\<lambda>w. (Inr w, None))\<rparr>"

text \<open>The same without a connection for placements.\<close>

definition failing_env :: history_env where
  "failing_env = echo_env\<lparr>he_restorePlacement := (\<lambda>_. (Inl ''Offline.'', None))\<rparr>"

definition policy_project :: project where
  "policy_project = clearIgnoredAuditWarnings sample_project"

definition moved_state :: history_state where
  "moved_state =
     \<lparr>hs_project = Some (policy_project\<lparr>pr_placements := []\<rparr>), hs_metadata = [], hs_workbook = None, hs_workspaces = [],
      hs_history = pushHistory createEmptyHistory (createProjectHistorySnapshot policy_project [] None []),
      hs_selectedItem = None, hs_selectedConnection = None, hs_message = None, hs_scheduled = []\<rparr>"

section \<open>Lemmas\<close>

subsection \<open>The session as a line of states\<close>

inductive_cases session_stepE: "session_step s t"

lemma keep_last_all: "length xs \<le> n \<Longrightarrow> keep_last n xs = xs"
  by (simp add: keep_last_def)

lemma length_keep_last [simp]: "length (keep_last n xs) = min n (length xs)"
  by (simp add: keep_last_def)

lemma timeline_simps: "timeline (h, c) = h_past h @ c # h_future h" "cursor (h, c) = length (h_past h)"
  by (simp_all add: timeline_def cursor_def)

lemma session_ok_iff: "session_ok (h, c) \<longleftrightarrow> length (h_past h) + length (h_future h) \<le> MAX_HISTORY_ENTRIES"
  by (simp add: session_ok_def timeline_simps)

lemma undo_step:
  assumes "undoHistory h c = Some (h', p)" "session_ok (h, c)"
  shows "timeline (h', p) = timeline (h, c)" "cursor (h, c) = Suc (cursor (h', p))" "redoHistory h' p = Some (h, c)"
proof -
  from assms obtain as where h: "h_past h = as @ [p]" and h': "h' = \<lparr>h_past = as, h_future = c # h_future h\<rparr>"
    by (cases "h_past h" rule: rev_cases) (auto simp: undoHistory_def session_ok_iff)
  then show "timeline (h', p) = timeline (h, c)" "cursor (h, c) = Suc (cursor (h', p))"
    by (simp_all add: timeline_simps)
  have "keep_last MAX_HISTORY_ENTRIES (as @ [p]) = as @ [p]"
    using assms(2) h by (intro keep_last_all) (simp add: session_ok_iff)
  with h h' show "redoHistory h' p = Some (h, c)" by (simp add: redoHistory_def)
qed

lemma redo_step:
  assumes "redoHistory h c = Some (h', n)" "session_ok (h, c)"
  shows "timeline (h', n) = timeline (h, c)" "cursor (h', n) = Suc (cursor (h, c))" "undoHistory h' n = Some (h, c)"
proof -
  from assms obtain fs where h: "h_future h = n # fs" and h': "h' = \<lparr>h_past = h_past h @ [c], h_future = fs\<rparr>"
    by (cases "h_future h") (auto simp: redoHistory_def session_ok_iff keep_last_all)
  then show "timeline (h', n) = timeline (h, c)" "cursor (h', n) = Suc (cursor (h, c))"
    by (simp_all add: timeline_simps)
  from assms(2) h h' show "undoHistory h' n = Some (h, c)" by (simp add: undoHistory_def session_ok_iff)
qed

lemma edit_step:
  "timeline (pushHistory h c, x) = keep_last (Suc MAX_HISTORY_ENTRIES) (take (Suc (cursor (h, c))) (timeline (h, c)) @ [x])"
  by (simp add: timeline_simps pushHistory_def keep_last_def MAX_HISTORY_ENTRIES_def)

interpretation sessions: invariant_system session_step session_ok
proof
  fix s t :: "'a session" assume "session_step s t" "session_ok s"
  then show "session_ok t"
  proof cases
    case (edit h c x)
    then show ?thesis by (simp add: session_ok_iff pushHistory_def)
  next
    case (undo h c h' p)
    with \<open>session_ok s\<close> undo_step(1) [OF undo(3)] show ?thesis by (simp add: session_ok_def)
  next
    case (redo h c h' n)
    with \<open>session_ok s\<close> redo_step(1) [OF redo(3)] show ?thesis by (simp add: session_ok_def)
  qed
qed

text \<open>C29: Refinement: a session of edits, undos and redos is a cursor on a line of at most 51 states.  In every reachable
  session, undo and redo leave the line as it is and move the cursor one place back or forward, each takes the other
  back exactly, and an edit cuts the line after the cursor, appends the new state and drops the oldest state when the
  line is full.\<close>

theorem session_refines_timeline:
  assumes "session_step\<^sup>*\<^sup>* (createEmptyHistory, start) (h, c)"
  shows "length (timeline (h, c)) \<le> 51
    \<and> (undoHistory h c = Some (h', p) \<longrightarrow> timeline (h', p) = timeline (h, c) \<and> cursor (h, c) = Suc (cursor (h', p))
         \<and> redoHistory h' p = Some (h, c))
    \<and> (redoHistory h c = Some (h', p) \<longrightarrow> timeline (h', p) = timeline (h, c) \<and> cursor (h', p) = Suc (cursor (h, c))
         \<and> undoHistory h' p = Some (h, c))
    \<and> timeline (pushHistory h c, x) = keep_last 51 (take (Suc (cursor (h, c))) (timeline (h, c)) @ [x])"
proof -
  have "session_ok (createEmptyHistory, start)" by (simp add: session_ok_iff createEmptyHistory_def)
  from sessions.steps_inv [OF assms this] have ok: "session_ok (h, c)" .
  have "length (timeline (h, c)) \<le> 51" using ok by (simp add: session_ok_def MAX_HISTORY_ENTRIES_def)
  moreover have "timeline (pushHistory h c, x) = keep_last 51 (take (Suc (cursor (h, c))) (timeline (h, c)) @ [x])"
    using edit_step [of h c x] by (simp add: MAX_HISTORY_ENTRIES_def)
  ultimately show ?thesis using undo_step [of h c h' p, OF _ ok] redo_step [of h c h' p, OF _ ok] by blast
qed

theorem session_refines_timeline_witness:
  "\<exists>h c h'. session_step\<^sup>*\<^sup>* (createEmptyHistory, 0 :: nat) (h, c) \<and> undoHistory h c = Some (h', 1)
     \<and> timeline (h', 1) = [0, 1, 2] \<and> redoHistory h' 1 = Some (h, c)"
proof -
  let ?h1 = "pushHistory createEmptyHistory (0 :: nat)" let ?h = "pushHistory ?h1 1"
  have "session_step\<^sup>*\<^sup>* (createEmptyHistory, 0 :: nat) (?h, 2)"
    using session_step.edit [of createEmptyHistory "0 :: nat" 1] session_step.edit [of ?h1 1 2]
    by (meson converse_rtranclp_into_rtranclp rtranclp.rtrancl_refl)
  moreover have "undoHistory ?h 2 = Some (\<lparr>h_past = [0], h_future = [2]\<rparr>, 1)" "timeline (?h, 2) = [0, 1, 2]"
    by code_simp+
  ultimately show ?thesis
    using session_refines_timeline [of 0 ?h 2 "\<lparr>h_past = [0], h_future = [2]\<rparr>" 1] by metis
qed

subsection \<open>Undo and redo in the application\<close>

text \<open>What the requests leave alone until the snapshot is restored.\<close>

definition same_view :: "history_state \<Rightarrow> history_state \<Rightarrow> bool" where
  "same_view st st' \<longleftrightarrow> hs_history st' = hs_history st \<and> hs_workbook st' = hs_workbook st
     \<and> hs_selectedItem st' = hs_selectedItem st \<and> hs_selectedConnection st' = hs_selectedConnection st
     \<and> hs_scheduled st' = hs_scheduled st"

lemma same_view_refl [simp]: "same_view st st"
  by (simp add: same_view_def)

lemma same_view_trans: "same_view st st' \<Longrightarrow> same_view st' st'' \<Longrightarrow> same_view st st''"
  by (simp add: same_view_def)

lemma run_then_cases:
  assumes "run_then r f = (st', v)"
  obtains (fails) e where "r = (st', Inl e)" "v = Inl e" | (goes) st1 x where "r = (st1, Inr x)" "f st1 x = (st', v)"
  using assms by (cases r; cases "snd r") (auto simp: run_then_def)

lemma call_same_view: "call st a = (st', v) \<Longrightarrow> same_view st st'"
  by (auto simp: call_def same_view_def split: option.splits)

lemma restore_workspaces_same_view: "restore_workspaces env ws st = (st', v) \<Longrightarrow> same_view st st'"
proof (induction env ws st arbitrary: st' v rule: restore_workspaces.induct)
  case (2 env k w ws st)
  from "2.prems" [unfolded restore_workspaces.simps] show ?case
  proof (cases rule: run_then_cases)
    case (goes st1 x)
    from "2.IH" [OF goes(2)] call_same_view [OF goes(1)] show ?thesis by (simp add: same_view_def)
  qed (rule call_same_view)
qed simp

lemma restore_metadata_same_view: "restore_metadata env target st = (st', v) \<Longrightarrow> same_view st st'"
  unfolding restore_metadata_def Let_def
  by (auto split: if_splits elim!: run_then_cases dest!: call_same_view simp: same_view_def)

lemma update_each_same_view: "update_each f cs latest st = (st', v) \<Longrightarrow> same_view st st'"
proof (induction f cs latest st arbitrary: st' v rule: update_each.induct)
  case (2 f c cs latest st)
  from "2.prems" [unfolded update_each.simps] show ?case
  proof (cases rule: run_then_cases)
    case (goes st1 x)
    from same_view_trans [OF call_same_view [OF goes(1)] "2.IH" [OF goes(2)]] show ?thesis .
  qed (rule call_same_view)
qed simp

lemma optional_run_same_view:
  "optional_run b (call st a) st = (st', v) \<Longrightarrow> same_view st st'"
  unfolding optional_run_def by (auto split: if_splits elim!: run_then_cases dest: call_same_view)

lemma rebase_project_same_view: "rebase_project env d w current goal st = (st', v) \<Longrightarrow> same_view st st'"
  unfolding rebase_project_def Let_def
  by (elim run_then_cases) (auto dest!: update_each_same_view optional_run_same_view simp: same_view_def)

lemma show_restored_shown:
  "hs_history (show_restored d h rebased placed restored st) = h"
  "hs_message (show_restored d h rebased placed restored st) = None"
  by (simp_all add: show_restored_def keep_selection_def)

lemma restore_snapshot_cases:
  assumes "restore_snapshot env current now h target st = (st', v)"
  obtains (fails) e where "v = Inl e" "same_view st st'"
  | (shown) d rebased placed restored st1 st2 st3 where
      "v = Inr ()" "st' = show_restored d h rebased placed restored st3" "same_view st st3"
      "d = history_diff_of (changed_workspaces now target \<noteq> []) current target (hs_workbook st1)"
      "rebase_project env d (changed_workspaces now target \<noteq> []) current (sn_project target) st1 = (st2, Inr (rebased, placed))"
      "optional_run (hd_workbookChanged d) (call st2 (he_restoreWorkbook env (the (sn_workbook target)))) st2
        = (st3, Inr restored)" "same_view st st1"
proof -
  let ?ws = "changed_workspaces now target"
  from assms [unfolded restore_snapshot_def Let_def] show thesis
  proof (cases rule: run_then_cases)
    case (fails e)
    with restore_workspaces_same_view [OF fails(1)] that(1) show ?thesis by simp
  next
    case (goes st0 u)
    note view0 = restore_workspaces_same_view [OF goes(1)]
    from goes(2) show ?thesis
    proof (cases rule: run_then_cases)
      case (fails e)
      from that(1) [OF fails(2)] same_view_trans [OF view0 restore_metadata_same_view [OF fails(1)]] show ?thesis .
    next
      case (goes st1 u)
      note view1 = same_view_trans [OF view0 restore_metadata_same_view [OF goes(1)]]
      from goes(2) show ?thesis
      proof (cases rule: run_then_cases)
        case (fails e)
        from that(1) [OF fails(2)] same_view_trans [OF view1 rebase_project_same_view [OF fails(1)]] show ?thesis .
      next
        case (goes st2 r)
        note run2 = goes(1) and view2 = same_view_trans [OF view1 rebase_project_same_view [OF goes(1)]]
        obtain rebased placed where r: "r = (rebased, placed)" by (cases r)
        from goes(2) [unfolded r prod.case] show ?thesis
        proof (cases rule: run_then_cases)
          case (fails e)
          from that(1) [OF fails(2)] same_view_trans [OF view2 optional_run_same_view [OF fails(1)]] show ?thesis .
        next
          case (goes st3 restored)
          note view3 = same_view_trans [OF view2 optional_run_same_view [OF goes(1)]]
          from that(2) [OF _ _ view3 refl run2 [unfolded r] goes(1) view1] goes(2) show ?thesis by simp
        qed
      qed
    qed
  qed
qed

subsection \<open>The errors of an undo\<close>

lemma call_error: "call st a = (st', Inl e) \<Longrightarrow> fst a = Inl e"
  by (simp add: call_def)

lemma restore_workspaces_error: "restore_workspaces env ws st = (st', Inl e) \<Longrightarrow> request_error env e"
proof (induction env ws st arbitrary: st' rule: restore_workspaces.induct)
  case (2 env k w ws st)
  from "2.prems" [unfolded restore_workspaces.simps] show ?case
  proof (cases rule: run_then_cases)
    case (goes st1 x)
    from "2.IH" [OF goes(2)] show ?thesis .
  qed (auto simp: request_error_def dest: call_error)
qed simp

lemma restore_metadata_error:
  assumes "restore_metadata env target st = (st', Inl e)"
  shows "request_error env e"
proof -
  let ?changes = "metadataHistoryChanges (hs_metadata st) (sn_metadata target)"
  have "?changes \<noteq> []" using assms by (auto simp: restore_metadata_def)
  with assms have "run_then (call st (he_restoreMetadata env ?changes)) (\<lambda>st restored.
        let st = st\<lparr>hs_metadata := sn_metadata target\<rparr> in
        if length (rm_items restored) < length ?changes
        then (st, Inl ''Cannot read properties of undefined (reading metadata)'')
        else call st (he_refreshMetadata env (rm_affectedProjectIds restored)
               (zip (map mh_ref ?changes) (rm_items restored)))) = (st', Inl e)"
    by (simp add: restore_metadata_def Let_def)
  then show ?thesis
  proof (cases rule: run_then_cases)
    case (goes st1 r)
    have "fst (he_restoreMetadata env ?changes) = Inr r" using goes(1) by (simp add: call_def)
    with goes(2) show ?thesis
      by (auto simp: request_error_def Let_def split: if_splits dest!: call_error)
  qed (auto simp: request_error_def dest: call_error)
qed

lemma update_each_error:
  "update_each f cs latest st = (st', Inl e) \<Longrightarrow> \<exists>c. fst (f c) = Inl e"
proof (induction f cs latest st arbitrary: st' rule: update_each.induct)
  case (2 f c cs latest st)
  from "2.prems" [unfolded update_each.simps] show ?case
  proof (cases rule: run_then_cases)
    case (goes st1 x)
    from "2.IH" [OF goes(2)] show ?thesis .
  qed (auto dest: call_error)
qed simp

lemma optional_run_error: "optional_run b (call st a) st = (st', Inl e) \<Longrightarrow> fst a = Inl e"
  unfolding optional_run_def by (auto split: if_splits elim!: run_then_cases dest: call_error)

lemma rebase_project_error: "rebase_project env d w current goal st = (st', Inl e) \<Longrightarrow> request_error env e"
  unfolding rebase_project_def Let_def
  by (elim run_then_cases) (auto dest!: update_each_error optional_run_error simp: request_error_def)

lemma restore_snapshot_error:
  assumes "restore_snapshot env current now h target st = (st', Inl e)"
  shows "request_error env e"
  using assms unfolding restore_snapshot_def Let_def
  by (elim run_then_cases)
    (auto dest: restore_workspaces_error restore_metadata_error rebase_project_error optional_run_error
      simp: request_error_def split: prod.splits elim!: run_then_cases)

text \<open>C31: Error: undo and redo are all or nothing for the history.  \<open>restore_snapshot\<close> sends the requests of a step one
  after another.  If one fails, its error is the message shown, and the history, the workbook, the selection and the
  scheduled saves stay as they were, so that the step is still there to be tried again; if every one is answered, the
  message is cleared, the history is the one that \<open>undoHistory\<close> or \<open>redoHistory\<close> gives, and a project is shown.\<close>

theorem apply_history_all_or_nothing:
  assumes "hs_project st = Some current"
    and "(if dir = Undo then undoHistory (hs_history st) (snapshot_now current st)
          else redoHistory (hs_history st) (snapshot_now current st)) = Some (h, target)"
    and "restore_snapshot env current (snapshot_now current st) h target st = (st', v)"
  shows "(\<forall>e. v = Inl e \<longrightarrow> request_error env e \<and> hs_message (applyHistory env dir st) = Some e
         \<and> same_view st (applyHistory env dir st))
     \<and> (v = Inr () \<longrightarrow> hs_message (applyHistory env dir st) = None \<and> hs_history (applyHistory env dir st) = h
         \<and> hs_project (applyHistory env dir st) \<noteq> None)"
proof -
  have res: "applyHistory env dir st = (case v of Inl e \<Rightarrow> st'\<lparr>hs_message := Some e\<rparr> | Inr _ \<Rightarrow> st')"
    unfolding applyHistory_def Let_def assms(1,2) option.simps prod.simps assms(3) ..
  from assms(3) show ?thesis
  proof (cases rule: restore_snapshot_cases)
    case (fails e)
    with res restore_snapshot_error assms(3) show ?thesis by (auto simp: same_view_def)
  next
    case shown
    with res show ?thesis by (simp add: show_restored_shown) (simp add: show_restored_def keep_selection_def)
  qed
qed

theorem apply_history_all_or_nothing_witness:
  "hs_message (applyHistory failing_env Undo moved_state) = Some ''Offline.''
   \<and> hs_history (applyHistory failing_env Undo moved_state) = hs_history moved_state
   \<and> hs_message (applyHistory echo_env Undo moved_state) = None
   \<and> hs_history (applyHistory echo_env Undo moved_state) \<noteq> hs_history moved_state"
proof -
  let ?p = "policy_project\<lparr>pr_placements := []\<rparr>" and ?now = "snapshot_now (policy_project\<lparr>pr_placements := []\<rparr>) moved_state"
  let ?h = "\<lparr>h_past = [], h_future = [?now]\<rparr>" and ?s = "createProjectHistorySnapshot policy_project [] None []"
  have st: "hs_project moved_state = Some ?p" by (simp add: moved_state_def)
  have undo: "(if Undo = Undo then undoHistory (hs_history moved_state) ?now else redoHistory (hs_history moved_state) ?now)
      = Some (?h, ?s)"
    by (simp add: moved_state_def pushHistory_def createEmptyHistory_def keep_last_def MAX_HISTORY_ENTRIES_def undoHistory_def)
  have "snd (restore_snapshot failing_env ?p ?now ?h ?s moved_state) = Inl ''Offline.''"
    "snd (restore_snapshot echo_env ?p ?now ?h ?s moved_state) = Inr ()" by code_simp+
  then obtain st1 st2 where
    "restore_snapshot failing_env ?p ?now ?h ?s moved_state = (st1, Inl ''Offline.'')"
    "restore_snapshot echo_env ?p ?now ?h ?s moved_state = (st2, Inr ())" by (metis prod.collapse)
  from apply_history_all_or_nothing [OF st undo this(1)] apply_history_all_or_nothing [OF st undo this(2)]
  have "hs_message (applyHistory failing_env Undo moved_state) = Some ''Offline.''"
    "same_view moved_state (applyHistory failing_env Undo moved_state)"
    "hs_message (applyHistory echo_env Undo moved_state) = None"
    "hs_history (applyHistory echo_env Undo moved_state) = ?h" by simp_all
  moreover have "h_future (hs_history moved_state) \<noteq> h_future ?h"
    by (simp add: moved_state_def pushHistory_def createEmptyHistory_def)
  ultimately show ?thesis by (metis same_view_def)
qed

text \<open>Content equality.\<close>

lemma content_equal_refl [simp]: "projectHistoryContentEqual p p"
  by (simp add: projectHistoryContentEqual_def)

lemma content_equal_revision [simp]: "projectHistoryContentEqual (p\<lparr>pr_revision := r\<rparr>) p"
  by (simp add: projectHistoryContentEqual_def at_revision_0_def)

lemma content_equal_sym: "projectHistoryContentEqual p q \<Longrightarrow> projectHistoryContentEqual q p"
  by (simp add: projectHistoryContentEqual_def)

lemma policy_only_content:
  assumes "compatibilityPolicyOnlyChanged p q" "pr_compatibilityPolicy q = Some x"
  shows "projectHistoryContentEqual (p\<lparr>pr_compatibilityPolicy := Some x\<rparr>) q"
proof -
  have "withoutPolicy p = withoutPolicy q" using assms(1) by (simp add: compatibilityPolicyOnlyChanged_def)
  then show ?thesis using assms(2)
    by (cases p; cases q) (simp add: projectHistoryContentEqual_def at_revision_0_def withoutPolicy_def)
qed

text \<open>The comparisons look through the revision.\<close>

lemma content_equal_items: "projectHistoryContentEqual p p' \<Longrightarrow> pr_items p = pr_items p'"
  by (cases p; cases p') (simp add: projectHistoryContentEqual_def at_revision_0_def)

lemma whole_change_content:
  assumes "projectHistoryContentEqual p p'"
  shows "whole_change p q \<longleftrightarrow> whole_change p' q"
  using assms content_equal_items [OF assms]
  by (simp add: whole_change_def inventoryPropertiesOnlyChanged_def inventoryItemsOnlyChanged_def
      projectWithoutInventoryProperties_def projectWithoutInventoryItems_def item_at_def projectHistoryContentEqual_def)

lemma whole_change_sym: "whole_change p q \<longleftrightarrow> whole_change q p"
  by (auto simp: whole_change_def inventoryPropertiesOnlyChanged_def projectHistoryContentEqual_def)

lemma run_then_value [simp]: "run_then (st, Inr v) f = f st v" "run_then (st, Inl e) f = (st, Inl e)"
  by (simp_all add: run_then_def)

lemma optional_run_Some:
  "optional_run b (call st a) st = (st', Inr (Some v)) \<Longrightarrow> b \<and> fst a = Inr v"
  by (auto simp: optional_run_def call_def split: if_splits elim!: run_then_cases)

lemma optional_run_None:
  "optional_run b (call st a) st = (st', Inr None) \<Longrightarrow> \<not> b"
  by (auto simp: optional_run_def split: if_splits elim!: run_then_cases)

lemma rebase_content:
  assumes "rebase_project env (history_diff_of False current target wb) False current (sn_project target) st
      = (st', Inr (rebased, placed))"
    and "honest env" "whole_change current (sn_project target)" "pr_compatibilityPolicy (sn_project target) \<noteq> None"
  shows "projectHistoryContentEqual rebased (sn_project target)"
proof -
  let ?d = "history_diff_of False current target wb" and ?goal = "sn_project target"
  have d: "\<not> hd_propertiesOnly ?d" "\<not> hd_inventoryOnly ?d"
    using assms(3) by (simp_all add: history_diff_of_def whole_change_def)
  from assms(4) obtain x where x: "pr_compatibilityPolicy ?goal = Some x" by blast
  from assms(1) obtain st1 policyResult st2 placement where
    policy: "optional_run (hd_policyOnly ?d) (call st (he_updatePolicy env
        (nullish (md_projectId (pr_metadata current)) 1) (pr_compatibilityPolicy ?goal))) st = (st1, Inr policyResult)"
    and place: "optional_run (hd_placementOnly ?d) (call st1 (he_restorePlacement env ?goal)) st1 = (st2, Inr placement)"
    and rebased: "rebased = rebased_project ?d current ?goal current policyResult None None placement"
    unfolding rebase_project_def Let_def using d by (auto elim!: run_then_cases)
  show ?thesis
  proof (cases policyResult)
    case (Some q)
    with optional_run_Some [OF policy [unfolded Some]] x assms(2) rebased show ?thesis
      using policy_only_content [of current ?goal x] by (auto simp: history_diff_of_def honest_def rebased_project_def)
  next
    case None
    show ?thesis
    proof (cases placement)
      case (Some q)
      with None optional_run_Some [OF place [unfolded Some]] assms(2) rebased show ?thesis by (auto simp: honest_def rebased_project_def)
    next
      case None
      with \<open>policyResult = None\<close> rebased show ?thesis
        by (auto simp: history_diff_of_def comparable_target_def rebased_project_def intro: content_equal_sym)
    qed
  qed
qed

lemma apply_reaches:
  assumes "hs_project st = Some current"
    and "(if dir = Undo then undoHistory (hs_history st) (snapshot_now current st)
          else redoHistory (hs_history st) (snapshot_now current st)) = Some (h, target)"
    and "hs_message (applyHistory env dir st) = None" "honest env" "project_step target"
    and "whole_change current (sn_project target)"
  obtains p where "hs_project (applyHistory env dir st) = Some p" "projectHistoryContentEqual p (sn_project target)"
    "hs_history (applyHistory env dir st) = h"
proof -
  let ?now = "snapshot_now current st"
  obtain st' v where run: "restore_snapshot env current ?now h target st = (st', v)"
    by (cases "restore_snapshot env current ?now h target st")
  have res: "applyHistory env dir st = (case v of Inl e \<Rightarrow> st'\<lparr>hs_message := Some e\<rparr> | Inr _ \<Rightarrow> st')"
    unfolding applyHistory_def Let_def assms(1,2) option.simps prod.simps run ..
  have no_ws: "changed_workspaces ?now target = []" using assms(5) by (simp add: changed_workspaces_def project_step_def)
  from run show ?thesis
  proof (cases rule: restore_snapshot_cases)
    case (fails e)
    with res assms(3) show ?thesis by simp
  next
    case (shown d rebased placed restored st1 st2 st3)
    have "\<not> hd_workbookChanged d" using assms(5) shown(4) by (simp add: history_diff_of_def project_step_def)
    with shown(6) have "restored = None" by (simp add: optional_run_def)
    moreover have "projectHistoryContentEqual rebased (sn_project target)"
      using rebase_content [of env current target "hs_workbook st1" st1 st2 rebased placed]
        shown(4,5) no_ws assms(4-6) by (simp add: project_step_def)
    ultimately show ?thesis
      using res shown(1,2) that by (simp add: show_restored_def keep_selection_def)
  qed
qed

text \<open>C30: Round trip: redo takes undo back.  Take a change that undo reverts as a whole: not one of the properties of items
  alone, nor one of the items alone, which undo sends item by item (\<open>whole_change\<close>), between snapshots that hold a
  project with a compatibility policy and neither a workbook nor canvases of other workspaces (\<open>project_step\<close>).  With a
  server that stores what it is asked to store, if undoing it and redoing it both succeed, then undo shows the content of
  the snapshot and redo shows the content that the project had before (all but the revision); and the history, which
  keeps at most fifty entries before the state and fifty after, has as many before it as it had and as many after it.\<close>

theorem undo_redo_restores_project:
  assumes "hs_project st = Some p" "h_past (hs_history st) \<noteq> []" "s = last (h_past (hs_history st))"
    and "project_step s" "project_step (snapshot_now p st)" "whole_change p (sn_project s)" "honest env"
    and "st1 = applyHistory env Undo st" "hs_message st1 = None"
    and "st2 = applyHistory env Redo st1" "hs_message st2 = None"
  shows "\<exists>q r. hs_project st1 = Some q \<and> projectHistoryContentEqual q (sn_project s)
    \<and> hs_project st2 = Some r \<and> projectHistoryContentEqual r p
    \<and> length (h_past (hs_history st2)) = min 50 (length (h_past (hs_history st)))
    \<and> length (h_future (hs_history st2)) = min 49 (length (h_future (hs_history st)))"
proof -
  let ?now = "snapshot_now p st"
  let ?h = "\<lparr>h_past = butlast (h_past (hs_history st)), h_future = take MAX_HISTORY_ENTRIES (?now # h_future (hs_history st))\<rparr>"
  have "undoHistory (hs_history st) ?now = Some (?h, s)" using assms(2,3) by (simp add: undoHistory_def)
  with apply_reaches [OF assms(1) _ _ assms(7) assms(4,6), of Undo ?h] assms(8,9) obtain q where
    q: "hs_project st1 = Some q" "projectHistoryContentEqual q (sn_project s)" "hs_history st1 = ?h" by auto
  obtain h2 where redo: "redoHistory ?h (snapshot_now q st1) = Some (h2, ?now)"
    and h2: "h_future h2 = take 49 (h_future (hs_history st))"
      "length (h_past h2) = min 50 (Suc (length (h_past (hs_history st)) - 1))"
    by (simp add: redoHistory_def MAX_HISTORY_ENTRIES_def)
  have now: "sn_project ?now = p" by (simp add: snapshot_now_def createProjectHistorySnapshot_def)
  have "whole_change q p"
    using assms(6) whole_change_content [OF q(2), of p] whole_change_sym by blast
  with apply_reaches [OF q(1) _ _ assms(7,5), of Redo h2] redo q(3) assms(10,11) now obtain r where
    "hs_project st2 = Some r" "projectHistoryContentEqual r p" "hs_history st2 = h2" by auto
  moreover have "Suc (length (h_past (hs_history st)) - 1) = length (h_past (hs_history st))"
    using assms(2) by (cases "h_past (hs_history st)") simp_all
  ultimately show ?thesis using q h2 by simp
qed

theorem undo_redo_restores_project_witness:
  "\<exists>q r. hs_project (applyHistory echo_env Undo moved_state) = Some q \<and> projectHistoryContentEqual q policy_project
     \<and> hs_project (applyHistory echo_env Redo (applyHistory echo_env Undo moved_state)) = Some r
     \<and> projectHistoryContentEqual r (policy_project\<lparr>pr_placements := []\<rparr>)"
proof -
  let ?p = "policy_project\<lparr>pr_placements := []\<rparr>" and ?s = "createProjectHistorySnapshot policy_project [] None []"
  have last: "last (h_past (hs_history moved_state)) = ?s" "h_past (hs_history moved_state) \<noteq> []"
    by (simp_all add: moved_state_def pushHistory_def createEmptyHistory_def keep_last_def MAX_HISTORY_ENTRIES_def)
  have st: "hs_project moved_state = Some ?p" by (simp add: moved_state_def)
  have steps: "project_step ?s" "project_step (snapshot_now ?p moved_state)" "whole_change ?p (sn_project ?s)" by code_simp+
  have "honest echo_env" by (simp add: honest_def echo_env_def)
  moreover have "hs_message (applyHistory echo_env Undo moved_state) = None"
    "hs_message (applyHistory echo_env Redo (applyHistory echo_env Undo moved_state)) = None" by code_simp+
  ultimately have "\<exists>q r. hs_project (applyHistory echo_env Undo moved_state) = Some q
      \<and> projectHistoryContentEqual q (sn_project ?s)
      \<and> hs_project (applyHistory echo_env Redo (applyHistory echo_env Undo moved_state)) = Some r
      \<and> projectHistoryContentEqual r ?p
      \<and> length (h_past (hs_history (applyHistory echo_env Redo (applyHistory echo_env Undo moved_state))))
        = min 50 (length (h_past (hs_history moved_state)))
      \<and> length (h_future (hs_history (applyHistory echo_env Redo (applyHistory echo_env Undo moved_state))))
        = min 49 (length (h_future (hs_history moved_state)))"
    using undo_redo_restores_project [OF st last(2) last(1) [symmetric] steps, OF _ refl _ refl] by blast
  then show ?thesis by (simp add: createProjectHistorySnapshot_def) blast
qed

subsection \<open>Metadata of the items in the history\<close>

text \<open>Backfilling the metadata of an item that has just been loaded gives every snapshot a value for it, keeps the
  values that snapshots had, and changes no project.\<close>

lemma backfill_lookup:
  "map_of (sn_metadata (backfill_snapshot r m s)) k
     = (if k = inventoryMetadataHistoryKey r \<and> map_of (sn_metadata s) k = None
        then Some \<lparr>mh_ref = r, mh_metadata = m\<rparr> else map_of (sn_metadata s) k)"
  "sn_project (backfill_snapshot r m s) = sn_project s"
  by (auto simp: backfill_snapshot_def createProjectHistorySnapshot_def setInventoryMetadataHistoryItem_def update_conv')

text \<open>Sending the changes gives every item of the target its metadata.\<close>

lemma metadata_changes_reach:
  assumes "map_of target k = Some item"
    and "item \<notin> set (metadataHistoryChanges current target)"
  shows "map_option mh_metadata (map_of current k) = Some (mh_metadata item)"
  using map_of_SomeD [OF assms(1)] assms(2) by (auto simp: metadataHistoryChanges_def split: if_splits)

end
