(* ===== verification/Settling.thy ===== *)
theory Settling
  imports JS_Prelude
begin

text \<open>
  Systems of asynchronous calls that come to rest: every step the program makes by itself takes some of
  the work that is left, and a state in which it can make none is settled.
\<close>

locale settling_system =
  fixes step :: "'s \<Rightarrow> 's \<Rightarrow> bool"
    and inv :: "'s \<Rightarrow> bool"
    and work :: "'s \<Rightarrow> nat"
    and settled :: "'s \<Rightarrow> bool"
  assumes step_keeps: "step s t \<Longrightarrow> inv s \<Longrightarrow> inv t"
    and step_works: "step s t \<Longrightarrow> inv s \<Longrightarrow> work t < work s"
    and stuck_settled: "inv s \<Longrightarrow> (\<And>t. \<not> step s t) \<Longrightarrow> settled s"
begin

lemma run_bounded: "(step ^^ n) s t \<Longrightarrow> inv s \<Longrightarrow> inv t \<and> n + work t \<le> work s"
proof (induction n arbitrary: t)
  case (Suc n)
  then obtain u where u: "(step ^^ n) s u" "step u t" by auto
  from Suc.IH [OF u(1) Suc.prems(2)] step_keeps [OF u(2)] step_works [OF u(2)] show ?case by fastforce
qed simp

lemma run_keeps: "step\<^sup>*\<^sup>* s t \<Longrightarrow> inv s \<Longrightarrow> inv t"
  by (induction rule: rtranclp_induct) (auto intro: step_keeps)

lemma run_settles: "step\<^sup>*\<^sup>* s t \<Longrightarrow> inv s \<Longrightarrow> \<nexists>u. step t u \<Longrightarrow> settled t"
  using run_keeps stuck_settled by blast

lemma settles: "inv s \<Longrightarrow> \<exists>t. step\<^sup>*\<^sup>* s t \<and> settled t"
proof (induction "work s" arbitrary: s rule: less_induct)
  case less
  show ?case
  proof (cases "\<exists>u. step s u")
    case True
    then obtain u where u: "step s u" by blast
    from less.hyps [OF step_works [OF u less.prems] step_keeps [OF u less.prems]] u show ?thesis
      by (meson converse_rtranclp_into_rtranclp)
  qed (use less.prems stuck_settled in blast)
qed

end

end
