(* ===== verification/Save_Queue.thy ===== *)
theory Save_Queue
  imports Settling
begin

text \<open>
  How the browser saves a project: \<open>src/app/use-project-save-queue.ts\<close> and the class of
  \<open>src/lib/project-persistence-coordinator.ts\<close>.  Edits are saved half a second after the last one;
  a save that is asked for while another runs replaces the queued one; commands of the domain engine run
  one at a time, each after the saves before it have settled.

  The refs of the hook and the fields of the coordinator are one record.  Project objects are compared by
  reference in the code: here they are values of the type variable, equal when they are the same object.  The
  code runs to completion between two awaits, so the steps of the relation are the segments between them: a
  call of the user interface, the answer of a request, the continuation after an await, the timer.
  Which answer comes next, and when, is not determined.
\<close>

section \<open>Definitions\<close>

datatype save_status = Saved | Saving | SaveError

text \<open>Where a call is: not begun (behind others in the coordinator), waiting for the saves to drain,
  past that wait (with the error of the drain, if any), rebuilding the engine, running its mutation.\<close>

datatype phase = Queued | Settling bool | Settled bool "string option" | Rebuilding | Mutating

record 'p save_state =
  sq_project :: "'p option"
  sq_lastPersisted :: "'p option"
  sq_queued :: "(nat \<times> 'p) option"
  sq_pending :: "'p option"
  sq_inFlight :: "(nat \<times> 'p) option"
  sq_generation :: nat
  sq_timer :: bool
  sq_waiters :: "nat list"
  sq_status :: save_status
  sq_warning :: "string option"
  sq_tasks :: "(nat \<times> phase) list"
  sq_direct :: "(nat \<times> phase) list"
  sq_results :: "(nat \<times> string option) list"
  sq_next :: nat
  sq_busy :: bool

definition initial_save_state :: "'p \<Rightarrow> 'p save_state" where
  "initial_save_state p =
     \<lparr>sq_project = Some p, sq_lastPersisted = Some p, sq_queued = None, sq_pending = None, sq_inFlight = None,
      sq_generation = 0, sq_timer = False, sq_waiters = [], sq_status = Saved, sq_warning = None,
      sq_tasks = [], sq_direct = [], sq_results = [], sq_next = 0, sq_busy = False\<rparr>"

subsection \<open>The queue\<close>

text \<open>The end of the drain: every waiter is resolved or rejected.\<close>

definition settle_phase :: "nat list \<Rightarrow> string option \<Rightarrow> nat \<times> phase \<Rightarrow> nat \<times> phase" where
  "settle_phase waiters err t =
     (case t of (i, Settling had) \<Rightarrow> if i \<in> set waiters then (i, Settled had err) else t | _ \<Rightarrow> t)"

definition drained :: "string option \<Rightarrow> 'p save_state \<Rightarrow> 'p save_state" where
  "drained err s = s\<lparr>sq_inFlight := None, sq_waiters := [],
     sq_tasks := map (settle_phase (sq_waiters s) err) (sq_tasks s),
     sq_direct := map (settle_phase (sq_waiters s) err) (sq_direct s)\<rparr>"

text \<open>The head of the loop: take the queued save or end the drain.\<close>

definition next_save :: "string option \<Rightarrow> 'p save_state \<Rightarrow> 'p save_state" where
  "next_save err s =
     (case sq_queued s of
        Some q \<Rightarrow> s\<lparr>sq_inFlight := Some q, sq_queued := None\<rparr>
      | None \<Rightarrow> drained err s)"

definition processQueuedProjectSaves :: "'p save_state \<Rightarrow> 'p save_state" where
  "processQueuedProjectSaves s = (if sq_inFlight s \<noteq> None then s else next_save None s)"

text \<open>The request answers with the saved project.\<close>

definition save_answered :: "'p \<Rightarrow> 'p save_state \<Rightarrow> 'p save_state" where
  "save_answered saved s =
     (case sq_inFlight s of
        None \<Rightarrow> s
      | Some (g, p) \<Rightarrow>
          if g \<noteq> sq_generation s then next_save None s
          else let s = s\<lparr>sq_lastPersisted := Some saved\<rparr> in
            if sq_queued s = None \<and> sq_project s = Some p
            then next_save None (s\<lparr>sq_project := Some saved, sq_warning := None, sq_status := Saved\<rparr>)
            else next_save None s)"

text \<open>The request fails.\<close>

definition save_failed :: "string \<Rightarrow> 'p save_state \<Rightarrow> 'p save_state" where
  "save_failed msg s =
     (case sq_inFlight s of
        None \<Rightarrow> s
      | Some (g, p) \<Rightarrow>
          if g \<noteq> sq_generation s \<or> sq_queued s \<noteq> None \<or> sq_project s \<noteq> Some p then next_save None s
          else next_save (Some msg) (s\<lparr>sq_project := (case sq_lastPersisted s of None \<Rightarrow> sq_project s | Some q \<Rightarrow> Some q),
                 sq_status := SaveError, sq_warning := Some msg\<rparr>))"

definition enqueueProjectSave :: "'p \<Rightarrow> 'p save_state \<Rightarrow> 'p save_state" where
  "enqueueProjectSave p s = processQueuedProjectSaves (s\<lparr>sq_queued := Some (sq_generation s, p)\<rparr>)"

text \<open>\<open>waitForQueuedProjectSaves\<close> in the call \<open>i\<close>: the new phase of the call, and the state.\<close>

definition waitForQueuedProjectSaves :: "nat \<Rightarrow> bool \<Rightarrow> 'p save_state \<Rightarrow> phase \<times> 'p save_state" where
  "waitForQueuedProjectSaves i had s =
     (if sq_inFlight s = None \<and> sq_queued s = None then (Settled had None, s)
      else (Settling had, s\<lparr>sq_waiters := sq_waiters s @ [i]\<rparr>))"

text \<open>\<open>settleLegacyProjectPersistence\<close> up to its first await, in the call \<open>i\<close>.\<close>

definition settle_begin :: "nat \<Rightarrow> 'p save_state \<Rightarrow> phase \<times> 'p save_state" where
  "settle_begin i s =
     (let had = (sq_pending s \<noteq> None \<or> sq_queued s \<noteq> None \<or> sq_inFlight s \<noteq> None);
          pending = sq_pending s;
          s = s\<lparr>sq_timer := False, sq_pending := None\<rparr>
      in waitForQueuedProjectSaves i had (case pending of None \<Rightarrow> s | Some p \<Rightarrow> enqueueProjectSave p s))"

definition scheduleProjectSave :: "'p \<Rightarrow> 'p save_state \<Rightarrow> 'p save_state" where
  "scheduleProjectSave p s = s\<lparr>sq_pending := Some p, sq_status := Saving, sq_timer := True\<rparr>"

definition resetPendingSaves :: "'p save_state \<Rightarrow> 'p save_state" where
  "resetPendingSaves s =
     s\<lparr>sq_generation := Suc (sq_generation s), sq_queued := None, sq_pending := None, sq_timer := False\<rparr>"

subsection \<open>The coordinator\<close>

text \<open>\<open>run\<close>: the call gets its place in the chain; the first one makes the interface busy.\<close>

definition coordinator_run :: "'p save_state \<Rightarrow> 'p save_state" where
  "coordinator_run s = s\<lparr>sq_tasks := sq_tasks s @ [(sq_next s, Queued)], sq_next := Suc (sq_next s), sq_busy := True\<rparr>"

text \<open>The call at the head ends with its result; the last one makes the interface idle.\<close>

definition coordinator_end :: "string option \<Rightarrow> 'p save_state \<Rightarrow> 'p save_state" where
  "coordinator_end r s =
     s\<lparr>sq_tasks := tl (sq_tasks s), sq_results := (fst (hd (sq_tasks s)), r) # sq_results s,
       sq_busy := (tl (sq_tasks s) \<noteq> [])\<rparr>"

definition set_head :: "phase \<Rightarrow> 'p save_state \<Rightarrow> 'p save_state" where
  "set_head ph s = s\<lparr>sq_tasks := (fst (hd (sq_tasks s)), ph) # tl (sq_tasks s)\<rparr>"

definition head_phase :: "'p save_state \<Rightarrow> phase option" where
  "head_phase s = (case sq_tasks s of [] \<Rightarrow> None | (i, ph) # _ \<Rightarrow> Some ph)"

definition start_head :: "'p save_state \<Rightarrow> 'p save_state" where
  "start_head s = (case settle_begin (fst (hd (sq_tasks s))) s of (ph, s') \<Rightarrow> set_head ph s')"

text \<open>A call that does not go through the coordinator: the navigation between workspaces.\<close>

definition direct_settle :: "'p save_state \<Rightarrow> 'p save_state" where
  "direct_settle s =
     (case settle_begin (sq_next s) s of
        (ph, s') \<Rightarrow> s'\<lparr>sq_direct := (sq_next s, ph) # sq_direct s', sq_next := Suc (sq_next s)\<rparr>)"

definition direct_end :: "nat \<Rightarrow> string option \<Rightarrow> 'p save_state \<Rightarrow> 'p save_state" where
  "direct_end i r s = s\<lparr>sq_direct := filter (\<lambda>t. fst t \<noteq> i) (sq_direct s), sq_results := (i, r) # sq_results s\<rparr>"

definition set_direct :: "nat \<Rightarrow> phase \<Rightarrow> 'p save_state \<Rightarrow> 'p save_state" where
  "set_direct i ph s = s\<lparr>sq_direct := map (\<lambda>t. if fst t = i then (i, ph) else t) (sq_direct s)\<rparr>"

subsection \<open>The commands of the engine\<close>

text \<open>\<open>commitEngineMutation\<close> stores in the refs that the queue uses: before its request the optimistic project, when
  the command has one; at the answer the committed project, shown and counted as saved, whatever the refs hold by
  then.  The committed project depends on the answer.\<close>

definition commit_begun :: "'p option \<Rightarrow> 'p save_state \<Rightarrow> 'p save_state" where
  "commit_begun optimistic s =
     s\<lparr>sq_project := (case optimistic of None \<Rightarrow> sq_project s | Some p \<Rightarrow> Some p),
       sq_status := Saving, sq_warning := None\<rparr>"

definition commit_answered :: "'p \<Rightarrow> 'p save_state \<Rightarrow> 'p save_state" where
  "commit_answered committed s =
     s\<lparr>sq_project := Some committed, sq_lastPersisted := Some committed, sq_status := Saved, sq_warning := None\<rparr>"

subsection \<open>Steps\<close>

text \<open>The program's own steps: they need no call of the user interface.  After the wait the engine is rebuilt
  when something was saved and the engine's revision is not the saved one, which depends on the engine.  A mutation is
  the empty one of the timer or a command of the engine, which stores projects if there is one; it fails with no
  store of its own, without a project as well.\<close>

inductive internal_step :: "'p save_state \<Rightarrow> 'p save_state \<Rightarrow> bool" where
  answered: "sq_inFlight s \<noteq> None \<Longrightarrow> internal_step s (save_answered saved s)"
| failed: "sq_inFlight s \<noteq> None \<Longrightarrow> internal_step s (save_failed msg s)"
| timer: "sq_timer s \<Longrightarrow> internal_step s (coordinator_run (s\<lparr>sq_timer := False\<rparr>))"
| start: "head_phase s = Some Queued \<Longrightarrow> internal_step s (start_head s)"
| rejected: "head_phase s = Some (Settled had (Some e)) \<Longrightarrow> internal_step s (coordinator_end (Some e) s)"
| rebuild: "head_phase s = Some (Settled True None) \<Longrightarrow> sq_lastPersisted s \<noteq> None \<Longrightarrow> internal_step s (set_head Rebuilding s)"
| rebuilt: "head_phase s = Some Rebuilding \<Longrightarrow> internal_step s (set_head Mutating s)"
| rebuilt_command: "head_phase s = Some Rebuilding \<Longrightarrow> sq_project s \<noteq> None
    \<Longrightarrow> internal_step s (set_head Mutating (commit_begun opt s))"
| rebuild_failed: "head_phase s = Some Rebuilding \<Longrightarrow> internal_step s (coordinator_end (Some e) s)"
| mutate: "head_phase s = Some (Settled had None) \<Longrightarrow> internal_step s (set_head Mutating s)"
| mutate_command: "head_phase s = Some (Settled had None) \<Longrightarrow> sq_project s \<noteq> None
    \<Longrightarrow> internal_step s (set_head Mutating (commit_begun opt s))"
| committed: "head_phase s = Some Mutating \<Longrightarrow> sq_project s \<noteq> None
    \<Longrightarrow> internal_step s (coordinator_end None (commit_answered p s))"
| mutated: "head_phase s = Some Mutating \<Longrightarrow> internal_step s (coordinator_end r s)"
| direct_rebuild: "(i, Settled True None) \<in> set (sq_direct s) \<Longrightarrow> sq_lastPersisted s \<noteq> None
    \<Longrightarrow> internal_step s (set_direct i Rebuilding s)"
| direct_settled: "(i, Settled had r) \<in> set (sq_direct s) \<Longrightarrow> internal_step s (direct_end i r s)"
| direct_rebuilt: "(i, Rebuilding) \<in> set (sq_direct s) \<Longrightarrow> internal_step s (direct_end i r s)"

text \<open>The calls of the user interface, and its stores in the shared refs: those of a snapshot of the server, of a
  restored view and of the recovery from a failed command.\<close>

inductive user_step :: "'p save_state \<Rightarrow> 'p save_state \<Rightarrow> bool" where
  store: "user_step s (s\<lparr>sq_project := p, sq_lastPersisted := q, sq_status := st, sq_warning := w\<rparr>)"
| schedule: "user_step s (scheduleProjectSave p s)"
| run: "user_step s (coordinator_run s)"
| reset: "user_step s (resetPendingSaves s)"

inductive navigation_step :: "'p save_state \<Rightarrow> 'p save_state \<Rightarrow> bool" where
  navigate: "navigation_step s (direct_settle s)"

definition save_step :: "'p save_state \<Rightarrow> 'p save_state \<Rightarrow> bool" where
  "save_step s t \<longleftrightarrow> internal_step s t \<or> user_step s t \<or> navigation_step s t"

text \<open>The steps without navigation: every settlement is part of a call of the coordinator.\<close>

definition coordinated_step :: "'p save_state \<Rightarrow> 'p save_state \<Rightarrow> bool" where
  "coordinated_step s t \<longleftrightarrow> internal_step s t \<or> user_step s t"

subsection \<open>Invariants\<close>

definition calls :: "'p save_state \<Rightarrow> (nat \<times> phase) list" where
  "calls s = sq_tasks s @ sq_direct s"

text \<open>Every call ever made has its place among the calls or a result, and never two.\<close>

definition calls_ok :: "'p save_state \<Rightarrow> bool" where
  "calls_ok s \<longleftrightarrow> distinct (map fst (calls s) @ map fst (sq_results s))
     \<and> set (map fst (calls s) @ map fst (sq_results s)) = {..<sq_next s}"

definition waiting_ok :: "'p save_state \<Rightarrow> bool" where
  "waiting_ok s \<longleftrightarrow> (sq_queued s \<noteq> None \<longrightarrow> sq_inFlight s \<noteq> None)
     \<and> (\<forall>i had. (i, Settling had) \<in> set (calls s) \<longrightarrow> i \<in> set (sq_waiters s))
     \<and> (sq_waiters s \<noteq> [] \<longrightarrow> sq_inFlight s \<noteq> None)
     \<and> (sq_pending s \<noteq> None \<longrightarrow> sq_timer s \<or> (\<exists>i. (i, Queued) \<in> set (sq_tasks s)))
     \<and> (\<forall>t \<in> set (tl (sq_tasks s)). snd t = Queued)
     \<and> (\<forall>t \<in> set (sq_direct s). snd t \<noteq> Queued \<and> snd t \<noteq> Mutating)
     \<and> (sq_busy s \<longleftrightarrow> sq_tasks s \<noteq> [])"

definition save_inv :: "'p save_state \<Rightarrow> bool" where
  "save_inv s \<longleftrightarrow> calls_ok s \<and> waiting_ok s"

definition idle :: "'p save_state \<Rightarrow> bool" where
  "idle s \<longleftrightarrow> sq_inFlight s = None \<and> sq_queued s = None \<and> sq_pending s = None \<and> \<not> sq_timer s
     \<and> sq_tasks s = [] \<and> sq_direct s = [] \<and> \<not> sq_busy s"

text \<open>A session in which one edit is saved: the scheduled edit, the timer, the settlement, the answer, the empty
  mutation of the timer's call.\<close>

definition edited_state :: "nat save_state" where
  "edited_state = scheduleProjectSave 1 ((initial_save_state 0)\<lparr>sq_project := Some 1\<rparr>)"

definition saving_state :: "nat save_state" where
  "saving_state = start_head (coordinator_run (edited_state\<lparr>sq_timer := False\<rparr>))"

definition saved_state :: "nat save_state" where
  "saved_state = coordinator_end None (set_head Mutating (save_answered 2 saving_state))"

text \<open>How much is left to do: the program's steps make it less.\<close>

fun phase_work :: "phase \<Rightarrow> nat" where
  "phase_work Queued = 5"
| "phase_work (Settling had) = 4"
| "phase_work (Settled had r) = 3"
| "phase_work Rebuilding = 2"
| "phase_work Mutating = 1"

fun weight :: "(nat \<times> phase) list \<Rightarrow> nat" where
  "weight [] = 0"
| "weight (t # ts) = phase_work (snd t) + weight ts"

definition work :: "'p save_state \<Rightarrow> nat" where
  "work s = weight (calls s) + (if sq_inFlight s = None then 0 else 1)
     + (if sq_queued s = None then 0 else 1) + (if sq_pending s = None then 0 else 3) + (if sq_timer s then 6 else 0)"

section \<open>Lemmas\<close>

subsection \<open>What the segments do\<close>

lemma settle_phase_simps [simp]:
  "fst (settle_phase w e t) = fst t" "snd (settle_phase w e t) = Queued \<longleftrightarrow> snd t = Queued"
  "snd (settle_phase w e t) = Mutating \<longleftrightarrow> snd t = Mutating"
  "phase_work (snd (settle_phase w e t)) \<le> phase_work (snd t)"
  by (cases t; cases "snd t"; simp add: settle_phase_def)+

lemma settle_phase_Settling:
  "settle_phase w e t = (i, Settling had) \<Longrightarrow> t = (i, Settling had) \<and> i \<notin> set w"
  by (cases t; cases "snd t") (auto simp: settle_phase_def split: if_splits)

lemma settle_phase_Queued: "settle_phase w e (i, Queued) = (i, Queued)"
  by (simp add: settle_phase_def)

text \<open>The answers change the calls in their phases only.\<close>

lemma answered_cases:
  assumes "sq_inFlight s \<noteq> None" "t = save_answered saved s \<or> t = save_failed msg s"
  obtains (more) s' where "sq_queued s \<noteq> None" "t = s'\<lparr>sq_inFlight := sq_queued s, sq_queued := None\<rparr>"
      "\<exists>p l w st. s' = s\<lparr>sq_project := p, sq_lastPersisted := l, sq_warning := w, sq_status := st\<rparr>"
  | (drain) s' e where "sq_queued s = None" "t = drained e s'"
      "\<exists>p l w st. s' = s\<lparr>sq_project := p, sq_lastPersisted := l, sq_warning := w, sq_status := st\<rparr>"
proof -
  have same: "\<exists>p l w st. s = s\<lparr>sq_project := p, sq_lastPersisted := l, sq_warning := w, sq_status := st\<rparr>"
    by (rule exI [of _ "sq_project s"], rule exI [of _ "sq_lastPersisted s"], rule exI [of _ "sq_warning s"],
        rule exI [of _ "sq_status s"]) simp
  have "\<exists>s' e p l w st. t = next_save e s' \<and> s' = s\<lparr>sq_project := p, sq_lastPersisted := l, sq_warning := w, sq_status := st\<rparr>"
  proof -
    obtain g p where fl: "sq_inFlight s = Some (g, p)" using assms(1) by auto
    let ?up = "\<lambda>p l w st. s\<lparr>sq_project := p, sq_lastPersisted := l, sq_warning := w, sq_status := st\<rparr>"
    have "t = next_save None s
       \<or> (\<exists>l. t = next_save None (s\<lparr>sq_lastPersisted := l\<rparr>))
       \<or> (\<exists>p l w st. t = next_save None (s\<lparr>sq_lastPersisted := l, sq_project := p, sq_warning := w, sq_status := st\<rparr>))
       \<or> (\<exists>e p w st. t = next_save e (s\<lparr>sq_project := p, sq_status := st, sq_warning := w\<rparr>))"
      using assms(2) fl by (auto simp: save_answered_def save_failed_def split: if_splits) blast
    moreover have "s = ?up (sq_project s) (sq_lastPersisted s) (sq_warning s) (sq_status s)"
      "s\<lparr>sq_lastPersisted := l\<rparr> = ?up (sq_project s) l (sq_warning s) (sq_status s)"
      "s\<lparr>sq_lastPersisted := l, sq_project := q, sq_warning := w, sq_status := st\<rparr> = ?up q l w st"
      "s\<lparr>sq_project := q, sq_status := st, sq_warning := w\<rparr> = ?up q (sq_lastPersisted s) w st" for q l w st
      by simp_all
    ultimately show ?thesis by metis
  qed
  then obtain s' e p l w st where t: "t = next_save e s'"
    and s': "s' = s\<lparr>sq_project := p, sq_lastPersisted := l, sq_warning := w, sq_status := st\<rparr>" by blast
  show thesis
  proof (cases "sq_queued s")
    case None
    with t s' show ?thesis by (intro drain [of e s']) (auto simp: next_save_def)
  next
    case (Some q)
    with t s' show ?thesis by (intro more [of s']) (auto simp: next_save_def)
  qed
qed

lemma settle_begin_cases:
  assumes "settle_begin i s = (ph, s')" "waiting_ok s"
  obtains (free) "ph = Settled False None" "s' = s\<lparr>sq_timer := False, sq_pending := None\<rparr>"
      "sq_inFlight s = None" "sq_queued s = None" "sq_pending s = None"
  | (wait) x y where "ph = Settling True" "x \<noteq> None"
      "s' = s\<lparr>sq_timer := False, sq_pending := None, sq_inFlight := x, sq_queued := y, sq_waiters := sq_waiters s @ [i]\<rparr>"
      "(sq_pending s = None \<and> x = sq_inFlight s \<and> y = sq_queued s)
       \<or> (\<exists>p. sq_pending s = Some p \<and> sq_inFlight s = None \<and> x = Some (sq_generation s, p) \<and> y = None)
       \<or> (\<exists>p. sq_pending s = Some p \<and> sq_inFlight s \<noteq> None \<and> x = sq_inFlight s \<and> y = Some (sq_generation s, p))"
proof (cases "sq_pending s")
  case None
  show ?thesis
  proof (cases "sq_inFlight s")
    case None
    with assms(2) have "sq_queued s = None" unfolding waiting_ok_def by blast
    with assms(1) None \<open>sq_pending s = None\<close> show ?thesis
      by (intro free) (auto simp: settle_begin_def waitForQueuedProjectSaves_def)
  next
    case (Some q)
    have "s' = s\<lparr>sq_timer := False, sq_pending := None, sq_waiters := sq_waiters s @ [i]\<rparr>" "ph = Settling True"
      using assms(1) Some \<open>sq_pending s = None\<close>
      by (auto simp: settle_begin_def waitForQueuedProjectSaves_def)
    with Some \<open>sq_pending s = None\<close> show ?thesis by (intro wait [of "sq_inFlight s" "sq_queued s"]) simp_all
  qed
next
  case (Some p)
  show ?thesis
  proof (cases "sq_inFlight s")
    case None
    with assms(1) Some show ?thesis
      by (intro wait [of "Some (sq_generation s, p)" None])
        (auto simp: settle_begin_def waitForQueuedProjectSaves_def enqueueProjectSave_def
          processQueuedProjectSaves_def next_save_def)
  next
    case (Some q)
    with assms(1) \<open>sq_pending s = Some p\<close> show ?thesis
      by (intro wait [of "sq_inFlight s" "Some (sq_generation s, p)"])
        (auto simp: settle_begin_def waitForQueuedProjectSaves_def enqueueProjectSave_def
          processQueuedProjectSaves_def next_save_def)
  qed
qed

lemma head_phase_Some: "head_phase s = Some ph \<longleftrightarrow> (\<exists>i ts. sq_tasks s = (i, ph) # ts)"
  by (auto simp: head_phase_def split: list.splits)

lemma commit_sel [simp]:
  "sq_queued (commit_begun opt s) = sq_queued s" "sq_queued (commit_answered p s) = sq_queued s"
  "sq_pending (commit_begun opt s) = sq_pending s" "sq_pending (commit_answered p s) = sq_pending s"
  "sq_inFlight (commit_begun opt s) = sq_inFlight s" "sq_inFlight (commit_answered p s) = sq_inFlight s"
  "sq_generation (commit_begun opt s) = sq_generation s" "sq_generation (commit_answered p s) = sq_generation s"
  "sq_timer (commit_begun opt s) = sq_timer s" "sq_timer (commit_answered p s) = sq_timer s"
  "sq_waiters (commit_begun opt s) = sq_waiters s" "sq_waiters (commit_answered p s) = sq_waiters s"
  "sq_tasks (commit_begun opt s) = sq_tasks s" "sq_tasks (commit_answered p s) = sq_tasks s"
  "sq_direct (commit_begun opt s) = sq_direct s" "sq_direct (commit_answered p s) = sq_direct s"
  "sq_results (commit_begun opt s) = sq_results s" "sq_results (commit_answered p s) = sq_results s"
  "sq_next (commit_begun opt s) = sq_next s" "sq_next (commit_answered p s) = sq_next s"
  "sq_busy (commit_begun opt s) = sq_busy s" "sq_busy (commit_answered p s) = sq_busy s"
  by (simp_all add: commit_begun_def commit_answered_def)

lemma commit_same [simp]:
  "head_phase (commit_begun opt s) = head_phase s" "head_phase (commit_answered p s) = head_phase s"
  "calls (commit_begun opt s) = calls s" "calls (commit_answered p s) = calls s"
  "work (commit_begun opt s) = work s" "work (commit_answered p s) = work s"
  "save_inv (commit_begun opt s) = save_inv s" "save_inv (commit_answered p s) = save_inv s"
  by (simp_all add: head_phase_def calls_def work_def save_inv_def calls_ok_def waiting_ok_def)

subsection \<open>Every call has its place\<close>

lemma calls_ok_cong:
  assumes "map fst (sq_tasks t) = map fst (sq_tasks s)" "map fst (sq_direct t) = map fst (sq_direct s)"
    and "sq_results t = sq_results s" "sq_next t = sq_next s"
  shows "calls_ok t \<longleftrightarrow> calls_ok s"
  using assms by (simp add: calls_ok_def calls_def)

lemma calls_ok_run: "calls_ok s \<Longrightarrow> calls_ok (coordinator_run s)"
  by (auto simp: calls_ok_def calls_def coordinator_run_def)

lemma calls_ok_end: "calls_ok s \<Longrightarrow> sq_tasks s \<noteq> [] \<Longrightarrow> calls_ok (coordinator_end r s)"
  by (cases "sq_tasks s") (auto simp: calls_ok_def calls_def coordinator_end_def)

lemma calls_ok_set_head: "sq_tasks s \<noteq> [] \<Longrightarrow> calls_ok (set_head ph s) \<longleftrightarrow> calls_ok s"
  by (cases "sq_tasks s") (simp_all add: set_head_def calls_ok_def calls_def)

lemma calls_ok_set_direct: "calls_ok (set_direct i ph s) \<longleftrightarrow> calls_ok s"
  by (rule calls_ok_cong) (simp_all add: set_direct_def comp_def)

lemma calls_ok_direct_end:
  assumes "calls_ok s" "i \<in> fst ` set (sq_direct s)"
  shows "calls_ok (direct_end i r s)"
proof -
  have "map fst (filter (\<lambda>t. fst t \<noteq> i) ts) = filter (\<lambda>j. j \<noteq> i) (map fst ts)" for ts :: "(nat \<times> phase) list"
    by (induction ts) auto
  with assms show ?thesis
    by (auto simp: calls_ok_def calls_def direct_end_def)
qed

lemma drained_sel [simp]:
  "sq_tasks (drained e s) = map (settle_phase (sq_waiters s) e) (sq_tasks s)"
  "sq_direct (drained e s) = map (settle_phase (sq_waiters s) e) (sq_direct s)"
  "sq_inFlight (drained e s) = None" "sq_queued (drained e s) = sq_queued s" "sq_pending (drained e s) = sq_pending s"
  "sq_timer (drained e s) = sq_timer s" "sq_waiters (drained e s) = []" "sq_results (drained e s) = sq_results s"
  "sq_next (drained e s) = sq_next s" "sq_busy (drained e s) = sq_busy s"
  by (simp_all add: drained_def)

lemma fst_settle_phase: "fst \<circ> settle_phase w e = fst"
  by (rule ext) simp

lemma answered_inv:
  assumes "save_inv s" "sq_inFlight s \<noteq> None" "t = save_answered saved s \<or> t = save_failed msg s"
  shows "save_inv t"
  using assms(2,3)
proof (cases rule: answered_cases)
  case (more s')
  from more(3) obtain p l w st where s': "s' = s\<lparr>sq_project := p, sq_lastPersisted := l, sq_warning := w, sq_status := st\<rparr>"
    by blast
  have "calls_ok t \<longleftrightarrow> calls_ok s" by (rule calls_ok_cong) (simp_all add: more(2) s')
  moreover have "waiting_ok s \<Longrightarrow> waiting_ok t"
    using more(1) by (auto simp: more(2) s' waiting_ok_def calls_def)
  ultimately show ?thesis using assms(1) by (simp add: save_inv_def)
next
  case (drain s' e)
  from drain(3) obtain p l w st where s': "s' = s\<lparr>sq_project := p, sq_lastPersisted := l, sq_warning := w, sq_status := st\<rparr>"
    by blast
  have "calls_ok t \<longleftrightarrow> calls_ok s" by (rule calls_ok_cong) (simp_all add: drain(2) s' fst_settle_phase)
  moreover have "waiting_ok t" if inv: "waiting_ok s"
  proof -
    let ?f = "settle_phase (sq_waiters s) e"
    have no_settling: "(i, Settling had) \<notin> set (map ?f (calls s))" for i had
    proof
      assume "(i, Settling had) \<in> set (map ?f (calls s))"
      then obtain t' where "t' \<in> set (calls s)" "?f t' = (i, Settling had)" by auto
      with settle_phase_Settling inv show False unfolding waiting_ok_def by metis
    qed
    have queued: "\<exists>i. (i, Queued) \<in> set (map ?f (sq_tasks s))" if "(i, Queued) \<in> set (sq_tasks s)" for i
      using imageI [OF that, of ?f] by (auto simp: settle_phase_Queued)
    have tail: "snd x = Queued" if "x \<in> set (tl (map ?f (sq_tasks s)))" for x
      using that inv by (cases "sq_tasks s") (auto simp: waiting_ok_def)
    show ?thesis
      unfolding waiting_ok_def drain(2)
    proof (intro conjI)
      show "\<forall>t \<in> set (tl (sq_tasks (drained e s'))). snd t = Queued" using tail by (simp add: s' del: set_map)
      show "sq_pending (drained e s') \<noteq> None \<longrightarrow> sq_timer (drained e s') \<or> (\<exists>i. (i, Queued) \<in> set (sq_tasks (drained e s')))"
        using inv queued unfolding waiting_ok_def s' by (auto simp del: set_map)
      show "\<forall>i had. (i, Settling had) \<in> set (calls (drained e s')) \<longrightarrow> i \<in> set (sq_waiters (drained e s'))"
        using no_settling by (auto simp: calls_def s')
    qed (use inv drain(1) in \<open>auto simp: waiting_ok_def s'\<close>)
  qed
  ultimately show ?thesis using assms(1) by (simp add: save_inv_def)
qed

lemma waiting_free: "waiting_ok s \<Longrightarrow> sq_inFlight s = None \<Longrightarrow> sq_waiters s = [] \<and> sq_queued s = None"
  unfolding waiting_ok_def by blast

lemma settle_begin_waiting:
  assumes "settle_begin i s = (ph, s')" "waiting_ok s"
  shows "sq_pending s' = None \<and> (sq_queued s' \<noteq> None \<longrightarrow> sq_inFlight s' \<noteq> None)
    \<and> (sq_waiters s' \<noteq> [] \<longrightarrow> sq_inFlight s' \<noteq> None) \<and> set (sq_waiters s) \<subseteq> set (sq_waiters s')
    \<and> (\<forall>had. ph = Settling had \<longrightarrow> i \<in> set (sq_waiters s')) \<and> ph \<noteq> Queued \<and> ph \<noteq> Mutating
    \<and> sq_tasks s' = sq_tasks s \<and> sq_direct s' = sq_direct s \<and> sq_results s' = sq_results s \<and> sq_next s' = sq_next s
    \<and> sq_busy s' = sq_busy s"
  using assms
proof (cases rule: settle_begin_cases)
  case free
  with waiting_free [OF assms(2)] show ?thesis by simp
next
  case (wait x y)
  then show ?thesis by (simp add: subset_insertI)
qed

lemma start_inv:
  assumes "save_inv s" "head_phase s = Some Queued"
  shows "save_inv (start_head s)"
proof -
  from assms(2) obtain i ts where tasks: "sq_tasks s = (i, Queued) # ts" by (auto simp: head_phase_Some)
  obtain ph s' where beg: "settle_begin i s = (ph, s')" by (cases "settle_begin i s")
  have inv: "waiting_ok s" "calls_ok s" using assms(1) by (simp_all add: save_inv_def)
  note facts = settle_begin_waiting [OF beg inv(1)]
  have t: "start_head s = s'\<lparr>sq_tasks := (i, ph) # ts\<rparr>"
    using tasks beg facts by (simp add: start_head_def set_head_def)
  have "calls_ok (start_head s) \<longleftrightarrow> calls_ok s" by (rule calls_ok_cong) (use facts tasks t in simp_all)
  moreover have "waiting_ok (start_head s)"
    unfolding waiting_ok_def t
  proof (intro conjI)
    have "(j, Settling had) \<in> set (calls s)" if "(j, Settling had) \<in> set (ts @ sq_direct s)" for j had
      using that tasks by (auto simp: calls_def)
    with inv(1) have old: "j \<in> set (sq_waiters s)" if "(j, Settling had) \<in> set (ts @ sq_direct s)" for j had
      using that unfolding waiting_ok_def by blast
    show "\<forall>j had. (j, Settling had) \<in> set (calls (s'\<lparr>sq_tasks := (i, ph) # ts\<rparr>))
        \<longrightarrow> j \<in> set (sq_waiters (s'\<lparr>sq_tasks := (i, ph) # ts\<rparr>))"
      using facts old by (fastforce simp: calls_def)
  qed (use inv(1) facts tasks in \<open>simp_all add: waiting_ok_def\<close>)
  ultimately show ?thesis using inv(2) by (simp add: save_inv_def)
qed

lemma direct_settle_inv:
  assumes "save_inv s"
  shows "save_inv (direct_settle s)"
proof -
  obtain ph s' where beg: "settle_begin (sq_next s) s = (ph, s')" by (cases "settle_begin (sq_next s) s")
  have inv: "waiting_ok s" "calls_ok s" using assms by (simp_all add: save_inv_def)
  note facts = settle_begin_waiting [OF beg inv(1)]
  have t: "direct_settle s = s'\<lparr>sq_direct := (sq_next s, ph) # sq_direct s, sq_next := Suc (sq_next s)\<rparr>"
    using beg facts by (simp add: direct_settle_def)
  have "calls_ok (direct_settle s)"
  proof -
    have "calls s' = calls s" "sq_next s' = sq_next s" "sq_results s' = sq_results s" "sq_tasks s' = sq_tasks s"
      using facts by (simp_all add: calls_def)
    with inv(2) show ?thesis unfolding t by (auto simp: calls_ok_def calls_def)
  qed
  moreover have "waiting_ok (direct_settle s)"
    unfolding waiting_ok_def t
  proof (intro conjI)
    have old: "j \<in> set (sq_waiters s)" if "(j, Settling had) \<in> set (calls s)" for j had
      using that inv(1) unfolding waiting_ok_def by blast
    show "\<forall>j had. (j, Settling had) \<in> set (calls (s'\<lparr>sq_direct := (sq_next s, ph) # sq_direct s, sq_next := Suc (sq_next s)\<rparr>))
        \<longrightarrow> j \<in> set (sq_waiters (s'\<lparr>sq_direct := (sq_next s, ph) # sq_direct s, sq_next := Suc (sq_next s)\<rparr>))"
      using facts old by (fastforce simp: calls_def)
  qed (use inv(1) facts in \<open>simp_all add: waiting_ok_def\<close>)
  ultimately show ?thesis by (simp add: save_inv_def)
qed

lemma run_inv: "save_inv s \<Longrightarrow> save_inv (coordinator_run s)"
  using calls_ok_run [of s]
  by (cases "sq_tasks s") (auto simp: save_inv_def waiting_ok_def calls_def coordinator_run_def)

lemma end_inv:
  assumes "save_inv s" "head_phase s = Some ph" "ph \<noteq> Queued"
  shows "save_inv (coordinator_end r s)"
proof -
  from assms(2) obtain i ts where tasks: "sq_tasks s = (i, ph) # ts" by (auto simp: head_phase_Some)
  have "calls_ok (coordinator_end r s)" using calls_ok_end [of s r] tasks assms(1) by (simp add: save_inv_def)
  moreover have "set (tl ts) \<subseteq> set ts" by (cases ts) auto
  then have "waiting_ok (coordinator_end r s)"
    using assms(1,3) tasks by (auto simp: save_inv_def waiting_ok_def coordinator_end_def calls_def)
  ultimately show ?thesis by (simp add: save_inv_def)
qed

lemma set_head_inv:
  assumes "save_inv s" "head_phase s = Some ph" "ph \<noteq> Queued" "\<And>had. ph' \<noteq> Settling had"
  shows "save_inv (set_head ph' s)"
proof -
  from assms(2) obtain i ts where tasks: "sq_tasks s = (i, ph) # ts" by (auto simp: head_phase_Some)
  have "calls_ok (set_head ph' s)" using calls_ok_set_head [of s ph'] tasks assms(1) by (simp add: save_inv_def)
  moreover have "waiting_ok (set_head ph' s)"
    using assms(1,3,4) tasks by (auto simp: save_inv_def waiting_ok_def set_head_def calls_def)
  ultimately show ?thesis by (simp add: save_inv_def)
qed

lemma direct_end_inv: "save_inv s \<Longrightarrow> i \<in> fst ` set (sq_direct s) \<Longrightarrow> save_inv (direct_end i r s)"
  using calls_ok_direct_end [of s i r]
  by (auto simp: save_inv_def waiting_ok_def direct_end_def calls_def)

lemma set_direct_inv: "save_inv s \<Longrightarrow> save_inv (set_direct i Rebuilding s)"
  using calls_ok_set_direct [of i Rebuilding s]
  by (auto simp: save_inv_def waiting_ok_def set_direct_def calls_def)

lemma internal_inv:
  assumes "internal_step s t" "save_inv s"
  shows "save_inv t"
  using assms(1)
proof cases
  case (answered saved)
  with answered_inv [OF assms(2), of t saved] show ?thesis by blast
next
  case (failed msg)
  with answered_inv [OF assms(2), of t _ msg] show ?thesis by blast
next
  case timer
  have "waiting_ok (coordinator_run (s\<lparr>sq_timer := False\<rparr>))"
    using assms(2) by (cases "sq_tasks s") (auto simp: save_inv_def waiting_ok_def calls_def coordinator_run_def)
  moreover have "calls_ok (s\<lparr>sq_timer := False\<rparr>) \<longleftrightarrow> calls_ok s" by (rule calls_ok_cong) simp_all
  ultimately show ?thesis using calls_ok_run [of "s\<lparr>sq_timer := False\<rparr>"] assms(2) timer(1) by (simp add: save_inv_def)
next
  case start
  with start_inv [OF assms(2)] show ?thesis by simp
next
  case (direct_rebuild i)
  with set_direct_inv [OF assms(2)] show ?thesis by simp
next
  case (direct_settled i had r)
  with direct_end_inv [OF assms(2), of i r] show ?thesis by force
next
  case (direct_rebuilt i r)
  with direct_end_inv [OF assms(2), of i r] show ?thesis by force
qed (auto intro: end_inv set_head_inv simp: assms(2))

lemma user_inv:
  assumes "user_step s t" "save_inv s"
  shows "save_inv t"
  using assms(1)
proof cases
  case (store p q st w)
  have "calls_ok t \<longleftrightarrow> calls_ok s" "waiting_ok t \<longleftrightarrow> waiting_ok s"
    unfolding store by (rule calls_ok_cong; simp) (simp add: waiting_ok_def calls_def)
  with assms(2) show ?thesis by (simp add: save_inv_def)
next
  case (schedule p)
  have "calls_ok t \<longleftrightarrow> calls_ok s" unfolding schedule scheduleProjectSave_def by (rule calls_ok_cong) simp_all
  moreover have "waiting_ok s \<Longrightarrow> waiting_ok t"
    unfolding schedule scheduleProjectSave_def by (simp add: waiting_ok_def calls_def)
  ultimately show ?thesis using assms(2) by (simp add: save_inv_def)
next
  case run
  with run_inv [OF assms(2)] show ?thesis by simp
next
  case reset
  have "calls_ok t \<longleftrightarrow> calls_ok s" unfolding reset resetPendingSaves_def by (rule calls_ok_cong) simp_all
  moreover have "waiting_ok s \<Longrightarrow> waiting_ok t"
    unfolding reset resetPendingSaves_def by (simp add: waiting_ok_def calls_def)
  ultimately show ?thesis using assms(2) by (simp add: save_inv_def)
qed

lemma initial_inv: "save_inv (initial_save_state p)"
  by (simp add: save_inv_def waiting_ok_def calls_ok_def calls_def initial_save_state_def)

interpretation save_queue: invariant_system save_step save_inv
  by unfold_locales (auto simp: save_step_def navigation_step.simps intro: internal_inv user_inv direct_settle_inv)

subsection \<open>Every call settles\<close>

lemma phase_work_pos: "0 < phase_work ph"
  by (cases ph) simp_all

lemma weight_append [simp]: "weight (ts @ us) = weight ts + weight us"
  by (induction ts) simp_all

lemma weight_settle: "weight (map (settle_phase w e) ts) \<le> weight ts"
  by (induction ts) (simp_all add: add_mono)

lemma weight_filter: "weight (filter P ts) \<le> weight ts"
  by (induction ts) auto

lemma weight_without: "(i, ph) \<in> set ts \<Longrightarrow> weight (filter (\<lambda>t. fst t \<noteq> i) ts) < weight ts"
proof (induction ts)
  case (Cons t ts)
  with phase_work_pos [of "snd t"] weight_filter [of "\<lambda>t. fst t \<noteq> i" ts] show ?case by auto
qed simp

lemma weight_rebuild:
  "(i, Settled had r) \<in> set ts \<Longrightarrow> distinct (map fst ts)
     \<Longrightarrow> weight (map (\<lambda>t. if fst t = i then (i, Rebuilding) else t) ts) < weight ts"
proof (induction ts)
  case (Cons t ts)
  show ?case
  proof (cases "t = (i, Settled had r)")
    case True
    with Cons.prems(2) have "map (\<lambda>t. if fst t = i then (i, Rebuilding) else t) ts = ts"
      by (intro map_idI) force
    with True show ?thesis by simp
  next
    case False
    with Cons.prems have "(i, Settled had r) \<in> set ts" by auto
    moreover from this have "i \<in> fst ` set ts" by force
    with Cons.prems(2) have "fst t \<noteq> i" by auto
    ultimately show ?thesis using Cons by simp
  qed
qed simp

lemma start_work:
  assumes "waiting_ok s" "sq_tasks s = (i, Queued) # ts"
  shows "work (start_head s) < work s"
proof -
  obtain ph s' where beg: "settle_begin i s = (ph, s')" by (cases "settle_begin i s")
  have t: "start_head s = s'\<lparr>sq_tasks := (i, ph) # ts\<rparr>"
    using assms(2) beg settle_begin_waiting [OF beg assms(1)] by (simp add: start_head_def set_head_def)
  from beg assms(1) show ?thesis
  proof (cases rule: settle_begin_cases)
    case free
    then show ?thesis using assms(2) by (simp add: t work_def calls_def)
  next
    case (wait x y)
    then show ?thesis using assms(2) by (auto simp: t work_def calls_def split: if_splits)
  qed
qed

lemma answered_work:
  assumes "sq_inFlight s \<noteq> None" "t = save_answered saved s \<or> t = save_failed msg s"
  shows "work t < work s"
  using assms
proof (cases rule: answered_cases)
  case (more s')
  then show ?thesis using assms(1) by (auto simp: work_def calls_def)
next
  case (drain s' e)
  then obtain p l w st where s': "s' = s\<lparr>sq_project := p, sq_lastPersisted := l, sq_warning := w, sq_status := st\<rparr>" by blast
  have "weight (calls t) \<le> weight (calls s)"
    using weight_settle [of "sq_waiters s'" e "calls s"] by (simp add: drain(2) calls_def s')
  with assms(1) drain(1) show ?thesis by (auto simp: work_def drain(2) s' calls_def)
qed

lemma end_work: "sq_tasks s \<noteq> [] \<Longrightarrow> work (coordinator_end r s) < work s"
  using phase_work_pos by (cases "sq_tasks s") (auto simp: work_def coordinator_end_def calls_def)

lemma set_head_work:
  "head_phase s = Some ph \<Longrightarrow> phase_work ph' < phase_work ph \<Longrightarrow> work (set_head ph' s) < work s"
  by (auto simp: head_phase_Some work_def set_head_def calls_def)

lemma internal_work:
  assumes "internal_step s t" "save_inv s"
  shows "work t < work s"
proof -
  have inv: "waiting_ok s" "distinct (map fst (sq_direct s))"
    using assms(2) by (auto simp: save_inv_def calls_ok_def calls_def)
  from assms(1) show ?thesis
  proof cases
    case (answered saved)
    then show ?thesis using answered_work [of s t saved] by blast
  next
    case (failed msg)
    then show ?thesis using answered_work [of s t _ msg] by blast
  next
    case timer
    then show ?thesis by (simp add: work_def coordinator_run_def calls_def)
  next
    case start
    then show ?thesis using start_work [OF inv(1)] by (auto simp: head_phase_Some)
  next
    case (direct_rebuild i)
    then show ?thesis
      using weight_rebuild [OF _ inv(2)] by (fastforce simp: work_def set_direct_def calls_def)
  next
    case (direct_settled i had r)
    then show ?thesis using weight_without by (force simp: work_def direct_end_def calls_def)
  next
    case (direct_rebuilt i r)
    then show ?thesis using weight_without by (force simp: work_def direct_end_def calls_def)
  next
    case (rebuilt_command opt)
    then show ?thesis using set_head_work [of "commit_begun opt s" Rebuilding Mutating] by simp
  next
    case (mutate_command had opt)
    then show ?thesis using set_head_work [of "commit_begun opt s" "Settled had None" Mutating] by simp
  next
    case (committed p)
    then show ?thesis using end_work [of "commit_answered p s" None] by (auto simp: head_phase_Some)
  qed (auto intro!: end_work set_head_work simp: head_phase_Some)
qed

lemma internal_progress:
  assumes "save_inv s" "\<nexists>t. internal_step s t"
  shows "idle s"
proof -
  have inv: "waiting_ok s" using assms(1) by (simp add: save_inv_def)
  have stuck: "\<not> internal_step s t" for t using assms(2) by blast
  have fl: "sq_inFlight s = None" using stuck internal_step.answered [of s "the (sq_project s)"] by metis
  have quiet: "sq_waiters s = []" "sq_queued s = None" using waiting_free [OF inv fl] by simp_all
  have timer: "\<not> sq_timer s" using stuck internal_step.timer [of s] by metis
  have no_wait: "(i, Settling had) \<notin> set (calls s)" for i had
    using inv quiet(1) unfolding waiting_ok_def by fastforce
  have tasks: "sq_tasks s = []"
  proof (rule ccontr)
    assume "sq_tasks s \<noteq> []"
    then obtain i ph ts where ts: "sq_tasks s = (i, ph) # ts" by (cases "sq_tasks s") auto
    then have "head_phase s = Some ph" by (auto simp: head_phase_Some)
    moreover have "ph \<noteq> Settling had" for had using no_wait [of i had] ts by (auto simp: calls_def)
    moreover have "ph \<noteq> Settled had r" for had r
      using stuck internal_step.rejected [of s had] internal_step.mutate [of s had] \<open>head_phase s = Some ph\<close>
      by (cases r) metis+
    moreover have "ph \<noteq> Queued" "ph \<noteq> Rebuilding" "ph \<noteq> Mutating"
      using stuck internal_step.start [of s] internal_step.rebuilt [of s] internal_step.mutated [of s] \<open>head_phase s = Some ph\<close>
      by metis+
    ultimately show False by (cases ph) blast+
  qed
  have direct: "sq_direct s = []"
  proof (rule ccontr)
    assume "sq_direct s \<noteq> []"
    then obtain i ph where d: "(i, ph) \<in> set (sq_direct s)" by (cases "sq_direct s") auto
    then have "ph \<noteq> Queued" "ph \<noteq> Mutating" using inv unfolding waiting_ok_def by force+
    moreover have "ph \<noteq> Settling had" for had using no_wait [of i had] d by (auto simp: calls_def)
    ultimately show False
      using d stuck internal_step.direct_settled internal_step.direct_rebuilt by (metis phase.exhaust)
  qed
  have "sq_pending s = None" "\<not> sq_busy s" using inv timer tasks unfolding waiting_ok_def by auto
  with fl quiet timer tasks direct show ?thesis by (simp add: idle_def)
qed

interpretation save_settling: settling_system internal_step save_inv work idle
  by unfold_locales (fact internal_inv internal_work internal_progress | blast intro: internal_progress)+

text \<open>C20: Liveness: every save and every command settles.  From any reachable state, whatever the server answers, the
  program makes at most \<open>work s\<close> steps of its own before the user's next; and when it can make none, nothing is in
  flight, queued, pending or scheduled, the interface is not busy, and every call ever made has exactly one result.\<close>

theorem saves_settle:
  assumes "save_step\<^sup>*\<^sup>* (initial_save_state p) s"
  shows "((internal_step ^^ n) s t \<longrightarrow> n \<le> work s)
    \<and> (internal_step\<^sup>*\<^sup>* s t \<and> (\<nexists>u. internal_step t u)
         \<longrightarrow> idle t \<and> distinct (map fst (sq_results t)) \<and> fst ` set (sq_results t) = {..<sq_next t})"
proof (intro conjI impI)
  have inv: "save_inv s" by (rule save_queue.steps_inv [OF assms initial_inv])
  show "n \<le> work s" if "(internal_step ^^ n) s t" using save_settling.run_bounded [OF that inv] by simp
  assume t: "internal_step\<^sup>*\<^sup>* s t \<and> (\<nexists>u. internal_step t u)"
  then have inv_t: "save_inv t" and "idle t"
    using save_settling.run_keeps [OF _ inv] save_settling.run_settles [OF _ inv] by blast+
  moreover from \<open>idle t\<close> inv_t have "distinct (map fst (sq_results t)) \<and> fst ` set (sq_results t) = {..<sq_next t}"
    by (simp add: idle_def save_inv_def calls_ok_def calls_def)
  ultimately show "idle t" "distinct (map fst (sq_results t))" "fst ` set (sq_results t) = {..<sq_next t}" by simp_all
qed

lemma edited_reachable: "save_step\<^sup>*\<^sup>* (initial_save_state 0) edited_state"
proof -
  have "user_step (initial_save_state 0) ((initial_save_state 0)\<lparr>sq_project := Some (1 :: nat), sq_lastPersisted := Some 0, sq_status := Saved, sq_warning := None\<rparr>)"
    by (rule user_step.store)
  moreover have "edited_state
      = scheduleProjectSave 1 ((initial_save_state 0)\<lparr>sq_project := Some 1, sq_lastPersisted := Some 0, sq_status := Saved, sq_warning := None\<rparr>)"
    by (simp add: edited_state_def initial_save_state_def)
  then have "user_step ((initial_save_state 0)\<lparr>sq_project := Some (1 :: nat), sq_lastPersisted := Some 0, sq_status := Saved, sq_warning := None\<rparr>) edited_state"
    using user_step.schedule by metis
  ultimately show ?thesis by (meson save_step_def r_into_rtranclp rtranclp.rtrancl_into_rtrancl)
qed

lemma saving_steps: "internal_step\<^sup>*\<^sup>* edited_state saving_state"
proof -
  let ?a = "coordinator_run (edited_state\<lparr>sq_timer := False\<rparr>)"
  have "internal_step edited_state ?a"
    by (rule internal_step.timer) (simp add: edited_state_def scheduleProjectSave_def)
  moreover have "head_phase ?a = Some Queued" by code_simp
  then have "internal_step ?a saving_state" unfolding saving_state_def by (rule internal_step.start)
  ultimately show ?thesis by (meson r_into_rtranclp rtranclp.rtrancl_into_rtrancl)
qed

lemma saved_steps: "internal_step\<^sup>*\<^sup>* saving_state saved_state"
proof -
  let ?a = "save_answered 2 saving_state"
  have "sq_inFlight saving_state = Some (0, 1)" by code_simp
  then have "internal_step saving_state ?a" by (intro internal_step.answered) simp
  moreover have "head_phase ?a = Some (Settled True None)" by code_simp
  then have "internal_step ?a (set_head Mutating ?a)" by (rule internal_step.mutate)
  moreover have "head_phase (set_head Mutating ?a) = Some Mutating" by code_simp
  then have "internal_step (set_head Mutating ?a) saved_state" unfolding saved_state_def by (rule internal_step.mutated)
  ultimately show ?thesis by (meson r_into_rtranclp rtranclp.rtrancl_into_rtrancl)
qed

lemma idle_stuck: "idle s \<Longrightarrow> \<not> internal_step s t"
  by (auto simp: idle_def head_phase_def elim!: internal_step.cases)

theorem saves_settle_witness:
  "internal_step\<^sup>*\<^sup>* edited_state saved_state \<and> idle saved_state \<and> fst ` set (sq_results saved_state) = {..<1}
   \<and> sq_project saved_state = Some 2 \<and> sq_status saved_state = Saved"
proof -
  have steps: "internal_step\<^sup>*\<^sup>* edited_state saved_state" by (rule rtranclp_trans [OF saving_steps saved_steps])
  have "idle saved_state" by code_simp
  with idle_stuck have "\<nexists>u. internal_step saved_state u" by blast
  with saves_settle [OF edited_reachable, of 0 saved_state] steps
  have "idle saved_state \<and> fst ` set (sq_results saved_state) = {..<sq_next saved_state}" by blast
  moreover have "sq_next saved_state = 1" "sq_project saved_state = Some 2" "sq_status saved_state = Saved" by code_simp+
  ultimately show ?thesis using steps by simp
qed

subsection \<open>Saves and commands do not overlap\<close>

text \<open>Without navigation, only the call at the head of the chain can wait for a save.\<close>

definition coordinated :: "'p save_state \<Rightarrow> bool" where
  "coordinated s \<longleftrightarrow> save_inv s \<and> sq_direct s = []
     \<and> (sq_inFlight s \<noteq> None \<longrightarrow> (\<exists>had. head_phase s = Some (Settling had)))"

lemma coordinated_None: "coordinated s \<Longrightarrow> (\<And>had. head_phase s \<noteq> Some (Settling had)) \<Longrightarrow> sq_inFlight s = None"
  unfolding coordinated_def by blast

lemma coordinated_internal:
  assumes "internal_step s t" "coordinated s"
  shows "coordinated t"
proof -
  have inv: "save_inv s" "sq_direct s = []" using assms(2) by (simp_all add: coordinated_def)
  have inv_t: "save_inv t" by (rule internal_inv [OF assms(1) inv(1)])
  have head: "sq_inFlight s = None" if "head_phase s = Some ph" "\<And>had. ph \<noteq> Settling had" for ph
    using that coordinated_None [OF assms(2)] by simp
  have ans: "coordinated t" if "sq_inFlight s \<noteq> None" "t = save_answered saved s \<or> t = save_failed msg s" for saved msg
    using that
  proof (cases rule: answered_cases)
    case (more s')
    from assms(2) that(1) obtain had where "head_phase s = Some (Settling had)" by (auto simp: coordinated_def)
    with more inv inv_t show ?thesis by (auto simp: coordinated_def head_phase_def)
  next
    case (drain s' e)
    with inv inv_t show ?thesis by (auto simp: coordinated_def)
  qed
  from assms(1) show ?thesis
  proof cases
    case (answered saved)
    with ans [of saved] show ?thesis by blast
  next
    case (failed msg)
    with ans [of _ msg] show ?thesis by blast
  next
    case timer
    with assms(2) inv_t show ?thesis
      by (cases "sq_tasks s") (auto simp: coordinated_def coordinator_run_def head_phase_def)
  next
    case start
    then obtain i ts where tasks: "sq_tasks s = (i, Queued) # ts" by (auto simp: head_phase_Some)
    obtain ph s' where beg: "settle_begin i s = (ph, s')" by (cases "settle_begin i s")
    have w: "waiting_ok s" using inv(1) by (simp add: save_inv_def)
    have t: "t = s'\<lparr>sq_tasks := (i, ph) # ts\<rparr>"
      using start tasks beg settle_begin_waiting [OF beg w] by (simp add: start_head_def set_head_def)
    from beg w show ?thesis
    proof (cases rule: settle_begin_cases)
      case free
      with inv inv_t show ?thesis by (simp add: coordinated_def t)
    next
      case (wait x y)
      then have "head_phase t = Some (Settling True)" by (simp add: t head_phase_def)
      with wait(3) inv inv_t show ?thesis by (auto simp: coordinated_def t)
    qed
  qed (use inv inv_t head in \<open>auto simp: coordinated_def coordinator_end_def set_head_def\<close>)
qed

lemma coordinated_user:
  assumes "user_step s t" "coordinated s"
  shows "coordinated t"
  using assms(1) user_inv [OF assms(1)] assms(2)
  by (cases rule: user_step.cases)
    (auto simp: coordinated_def head_phase_def coordinator_run_def scheduleProjectSave_def resetPendingSaves_def split: list.splits)

interpretation coordinated_queue: invariant_system coordinated_step coordinated
  by unfold_locales (auto simp: coordinated_step_def intro: coordinated_internal coordinated_user)

text \<open>C21: Safety: while a command of the coordinator runs, no save does.  As long as every settlement goes through the
  coordinator, a reachable state in which a mutation or a rebuild of the engine is under way has no save in flight
  and none queued, and every other call waits for its turn.\<close>

theorem commands_exclude_saves:
  assumes "coordinated_step\<^sup>*\<^sup>* (initial_save_state p) s"
    and "head_phase s = Some Mutating \<or> head_phase s = Some Rebuilding"
  shows "sq_inFlight s = None \<and> sq_queued s = None \<and> (\<forall>c \<in> set (tl (sq_tasks s)). snd c = Queued)"
proof -
  have "coordinated (initial_save_state p)"
    using initial_inv [of p] by (simp add: coordinated_def initial_save_state_def)
  from coordinated_queue.steps_inv [OF assms(1) this] have s: "coordinated s" .
  have fl: "sq_inFlight s = None" by (rule coordinated_None [OF s]) (use assms(2) in auto)
  have w: "waiting_ok s" using s by (simp add: coordinated_def save_inv_def)
  with waiting_free [OF w fl] fl show ?thesis unfolding waiting_ok_def by simp
qed

theorem commands_exclude_saves_witness:
  "\<exists>s. coordinated_step\<^sup>*\<^sup>* (initial_save_state (0 :: nat)) s \<and> head_phase s = Some Mutating \<and> sq_inFlight s = None"
proof -
  let ?s = "set_head Mutating (start_head (coordinator_run (initial_save_state (0 :: nat))))"
  let ?run = "coordinator_run (initial_save_state (0 :: nat))"
  have "coordinated_step (initial_save_state 0) ?run" by (simp add: coordinated_step_def user_step.run)
  moreover have "head_phase ?run = Some Queued" "head_phase (start_head ?run) = Some (Settled False None)" by code_simp+
  then have "coordinated_step ?run (start_head ?run)" "coordinated_step (start_head ?run) ?s"
    by (auto simp: coordinated_step_def intro: internal_step.start internal_step.mutate)
  ultimately have "coordinated_step\<^sup>*\<^sup>* (initial_save_state 0) ?s"
    by (meson r_into_rtranclp rtranclp.rtrancl_into_rtrancl)
  moreover have "head_phase ?s = Some Mutating" by code_simp
  ultimately show ?thesis using commands_exclude_saves [of 0 ?s] by blast
qed

text \<open>Error: the navigation between workspaces settles outside the coordinator, and so a save can run while a command
  does: there is a reachable state with a mutation under way and a save in flight.\<close>

theorem navigation_overlaps_command:
  "\<exists>s. save_step\<^sup>*\<^sup>* (initial_save_state (0 :: nat)) s \<and> head_phase s = Some Mutating \<and> sq_inFlight s = Some (0, 1)"
proof -
  let ?run = "coordinator_run (initial_save_state (0 :: nat))"
  let ?mut = "set_head Mutating (start_head ?run)"
  let ?edit = "scheduleProjectSave 1 ?mut"
  have "head_phase ?run = Some Queued" "head_phase (start_head ?run) = Some (Settled False None)" by code_simp+
  then have "save_step (initial_save_state 0) ?run" "save_step ?run (start_head ?run)" "save_step (start_head ?run) ?mut"
    "save_step ?mut ?edit" "save_step ?edit (direct_settle ?edit)"
    by (auto simp: save_step_def intro: internal_step.start internal_step.mutate user_step.run user_step.schedule
        navigation_step.navigate)
  then have "save_step\<^sup>*\<^sup>* (initial_save_state 0) (direct_settle ?edit)"
    by (meson r_into_rtranclp rtranclp.rtrancl_into_rtrancl)
  moreover have "head_phase (direct_settle ?edit) = Some Mutating \<and> sq_inFlight (direct_settle ?edit) = Some (0, 1)"
    by code_simp
  ultimately show ?thesis by blast
qed

subsection \<open>A reset discards what was under way\<close>















text \<open>Error: the reset does not reach a command under way.  A command runs, the interface resets the queue and shows
  another project (5, as the navigation to another workspace does), and the command's answer replaces it by the project
  of the workspace that was left (1), shown and counted as saved.\<close>

definition command_state :: "nat save_state" where
  "command_state = set_head Mutating (commit_begun (Some 1) (start_head (coordinator_run (initial_save_state 0))))"

definition navigated_state :: "nat save_state" where
  "navigated_state = (resetPendingSaves command_state)
     \<lparr>sq_project := Some 5, sq_lastPersisted := Some 5, sq_status := Saved, sq_warning := None\<rparr>"

theorem command_outlives_reset:
  "save_step\<^sup>*\<^sup>* (initial_save_state 0) navigated_state \<and> sq_project navigated_state = Some 5
   \<and> internal_step navigated_state (coordinator_end None (commit_answered 1 navigated_state))
   \<and> sq_project (coordinator_end None (commit_answered 1 navigated_state)) = Some 1"
proof -
  let ?run = "coordinator_run (initial_save_state (0 :: nat))"
  have "head_phase ?run = Some Queued" "head_phase (start_head ?run) = Some (Settled False None)"
    "sq_project (start_head ?run) \<noteq> None" by code_simp+
  then have "save_step (initial_save_state 0) ?run" "save_step ?run (start_head ?run)"
    "save_step (start_head ?run) command_state"
    by (auto simp: save_step_def command_state_def intro: internal_step.start internal_step.mutate_command user_step.run)
  moreover have "save_step command_state (resetPendingSaves command_state)"
    "save_step (resetPendingSaves command_state) navigated_state"
    by (auto simp: save_step_def navigated_state_def intro: user_step.reset user_step.store)
  ultimately have "save_step\<^sup>*\<^sup>* (initial_save_state 0) navigated_state"
    by (meson r_into_rtranclp rtranclp.rtrancl_into_rtrancl)
  moreover have "head_phase navigated_state = Some Mutating" "sq_project navigated_state = Some 5"
    "sq_project (coordinator_end None (commit_answered 1 navigated_state)) = Some 1" by code_simp+
  ultimately show ?thesis by (auto intro: internal_step.committed)
qed

end
