(* ===== verification/Switch_Ports.thy ===== *)
theory Switch_Ports
  imports Network_Ports
begin

text \<open>
  The port groups of a switch: \<open>src/lib/switch-ports.ts\<close>.  A group is mutable in the code; here an
  operation returns the list of groups with that group replaced, which its key, unique in the map the
  groups come from, finds.  The loop that fills a group is a partial function: \<open>None\<close> would be a loop that
  does not end.
\<close>

section \<open>Definitions\<close>

record switch_group =
  spg_key :: string
  spg_type :: port_type
  spg_speed :: "string option"
  spg_role :: "port_role option"
  spg_ports :: "inventory_port list"

fun role_name :: "port_role \<Rightarrow> string" where
  "role_name RAccess = ''access''"
| "role_name RTrunk = ''trunk''"
| "role_name RUplink = ''uplink''"
| "role_name RManagement = ''management''"
| "role_name RDisabled = ''disabled''"

definition isSwitchNetworkPortType :: "port_type \<Rightarrow> bool" where
  "isSwitchNetworkPortType t \<longleftrightarrow> t \<in> SWITCH_NETWORK_PORT_TYPES"

definition isSupportedSwitchPortSpeed :: "string option \<Rightarrow> bool" where
  "isSupportedSwitchPortSpeed speed \<longleftrightarrow> (case speed of None \<Rightarrow> False | Some s \<Rightarrow> s \<in> set SUPPORTED_SWITCH_PORT_SPEEDS)"

definition getSwitchPortSpeedForType :: "port_type \<Rightarrow> string option \<Rightarrow> string option" where
  "getSwitchPortSpeedForType t speed =
     (if \<not> isSwitchNetworkPortType t then speed
      else if isSupportedSwitchPortSpeed speed then speed else defaultSwitchPortSpeed t)"

definition groupKey :: "port_type \<Rightarrow> string option \<Rightarrow> port_role option \<Rightarrow> string" where
  "groupKey t speed role =
     js_join ''|'' [port_type_name t, nullish speed [], nullish (map_option role_name role) []]"

definition add_to_group :: "switch_group dict \<Rightarrow> inventory_port \<Rightarrow> switch_group dict" where
  "add_to_group groups port =
     (let key = groupKey (p_type port) (p_speed port) (p_role port) in
      case map_of groups key of
        Some g \<Rightarrow> AList.update key (g\<lparr>spg_ports := spg_ports g @ [port]\<rparr>) groups
      | None \<Rightarrow> AList.update key \<lparr>spg_key = key, spg_type = p_type port, spg_speed = p_speed port,
                  spg_role = p_role port, spg_ports = [port]\<rparr> groups)"

definition groupSwitchPorts :: "inventory_port list \<Rightarrow> switch_group list" where
  "groupSwitchPorts ports = map snd (foldl add_to_group [] (sort_key p_slotNumber ports))"

definition endpointUsesPort :: "conn_endpoint \<Rightarrow> string \<Rightarrow> int \<Rightarrow> bool" where
  "endpointUsesPort e k portId \<longleftrightarrow> ep_itemId e = k \<and> js_String (ep_portId e) = show_int portId"

definition portHasConnection :: "connection list \<Rightarrow> string \<Rightarrow> int \<Rightarrow> bool" where
  "portHasConnection connections k portId \<longleftrightarrow>
     list_ex (\<lambda>c. endpointUsesPort (c_from c) k portId \<or> endpointUsesPort (c_to c) k portId) connections"

definition portHasUserMetadata :: "inventory_port \<Rightarrow> bool" where
  "portHasUserMetadata port \<longleftrightarrow>
     list_ex (\<lambda>t. truthy_str (map_option js_trim t)) [p_label port, p_notes port, p_ipAddress port]"

definition createPortId :: "inventory_port list \<Rightarrow> int" where
  "createPortId ports = foldl (\<lambda>highest q. max highest (p_id q)) 0 ports + 1"

definition all_ports :: "switch_group list \<Rightarrow> inventory_port list" where
  "all_ports groups = concat (map spg_ports groups)"

text \<open>\<open>map((port, index) => ...)\<close> from an index on.\<close>

fun renumber :: "int \<Rightarrow> inventory_port list \<Rightarrow> inventory_port list" where
  "renumber n [] = []"
| "renumber n (q # qs) = q\<lparr>p_slotNumber := n\<rparr> # renumber (n + 1) qs"

definition flattenAndRenumber :: "switch_group list \<Rightarrow> inventory_port list" where
  "flattenAndRenumber groups = renumber 1 (all_ports groups)"

definition normalizeSwitchPortGroupSpeed :: "switch_group \<Rightarrow> switch_group" where
  "normalizeSwitchPortGroupSpeed g =
     (let speed = getSwitchPortSpeedForType (spg_type g) (spg_speed g) in
      if speed = spg_speed g then g
      else g\<lparr>spg_speed := speed, spg_ports := map (\<lambda>q. q\<lparr>p_speed := speed\<rparr>) (spg_ports g)\<rparr>)"

definition new_switch_port :: "int \<Rightarrow> int \<Rightarrow> port_type \<Rightarrow> string option \<Rightarrow> port_role option \<Rightarrow> inventory_port" where
  "new_switch_port n slot t speed role = (blank_port n KSwitchPort t)
     \<lparr>p_slotNumber := slot, p_speed := (if truthy_str speed then speed else None), p_role := role\<rparr>"

definition update_group :: "string \<Rightarrow> (switch_group \<Rightarrow> switch_group) \<Rightarrow> switch_group list \<Rightarrow> switch_group list" where
  "update_group key f groups = map (\<lambda>g. if spg_key g = key then f g else g) groups"

definition find_group :: "string \<Rightarrow> switch_group list \<Rightarrow> switch_group option" where
  "find_group key groups = List.find (\<lambda>g. spg_key g = key) groups"

definition push_port :: "switch_group list \<Rightarrow> switch_group \<Rightarrow> switch_group" where
  "push_port groups g =
     (let currentPorts = all_ports groups in
      g\<lparr>spg_ports := spg_ports g @ [new_switch_port (createPortId currentPorts) (int (length currentPorts) + 1)
          (spg_type g) (spg_speed g) (spg_role g)]\<rparr>)"

partial_function (option) grow_group :: "string \<Rightarrow> nat \<Rightarrow> switch_group list \<Rightarrow> switch_group list option" where
  "grow_group key n groups =
     (case find_group key groups of
        None \<Rightarrow> Some groups
      | Some g \<Rightarrow> if length (spg_ports g) < n then grow_group key n (update_group key (push_port groups) groups)
                  else Some groups)"

declare grow_group.simps [code]

text \<open>\<open>Math.trunc\<close>.\<close>

definition js_trunc :: "rat \<Rightarrow> int" where
  "js_trunc r = (if 0 \<le> r then \<lfloor>r\<rfloor> else \<lceil>r\<rceil>)"

definition clamp_count :: "rat \<Rightarrow> nat" where
  "clamp_count n = nat (max 0 (min 128 (js_trunc n)))"

definition protected_port :: "connection list \<Rightarrow> string \<Rightarrow> inventory_port \<Rightarrow> bool" where
  "protected_port connections k port \<longleftrightarrow> portHasConnection connections k (p_id port) \<or> portHasUserMetadata port"

definition finish_resize :: "string \<Rightarrow> switch_group list \<Rightarrow> inventory_port list" where
  "finish_resize key groups =
     flattenAndRenumber (filter (\<lambda>g. spg_ports g \<noteq> []) (update_group key normalizeSwitchPortGroupSpeed groups))"

definition resizeSwitchPortGroup ::
  "inventory_port list \<Rightarrow> connection list \<Rightarrow> string \<Rightarrow> string \<Rightarrow> rat \<Rightarrow> (string + inventory_port list) option" where
  "resizeSwitchPortGroup ports connections k key n =
     (let nextCount = clamp_count n; groups = groupSwitchPorts ports in
      case find_group key groups of
        None \<Rightarrow> Some (Inl ''That port group no longer exists.'')
      | Some g \<Rightarrow>
          if nextCount < length (spg_ports g)
          then (case List.find (protected_port connections k) (drop nextCount (spg_ports g)) of
              Some q \<Rightarrow> Some (Inl (''Port '' @ js_pad2 (show_int (p_slotNumber q))
                @ '' has a connection or saved details. Clear it before reducing this group.''))
            | None \<Rightarrow> Some (Inr (finish_resize key
                (update_group key (\<lambda>g. g\<lparr>spg_ports := take nextCount (spg_ports g)\<rparr>) groups))))
          else map_option (\<lambda>gs. Inr (finish_resize key gs)) (grow_group key nextCount groups))"

text \<open>The update of a group's definition: \<open>type\<close> and \<open>speed\<close> keep their value when not given, \<open>role\<close> does not.\<close>

definition updateSwitchPortGroupDefinition ::
  "inventory_port list \<Rightarrow> string \<Rightarrow> port_type option \<Rightarrow> string option \<Rightarrow> port_role option \<Rightarrow> inventory_port list" where
  "updateSwitchPortGroupDefinition ports key newType newSpeed newRole =
     (let groups = groupSwitchPorts ports in
      if find_group key groups = None then ports
      else flattenAndRenumber (update_group key (\<lambda>g.
        let t = nullish newType (spg_type g);
            speed = getSwitchPortSpeedForType t (case newSpeed of None \<Rightarrow> spg_speed g | Some s \<Rightarrow> Some s)
        in g\<lparr>spg_type := t, spg_speed := speed, spg_role := newRole,
             spg_ports := map (\<lambda>q. q\<lparr>p_type := t, p_speed := speed, p_role := newRole\<rparr>) (spg_ports g)\<rparr>) groups))"

definition port_templates :: "(port_type \<times> string \<times> port_role) list" where
  "port_templates =
     [(PRj45, ''1G'', RAccess), (PRj45, ''2.5G'', RAccess), (PRj45, ''5G'', RAccess), (PRj45, ''10G'', RAccess),
      (PSfp, ''1G'', RUplink), (PSfpPlus, ''10G'', RUplink)]"

definition addSwitchPortGroup :: "inventory_port list \<Rightarrow> inventory_port list" where
  "addSwitchPortGroup ports =
     (let existingKeys = set (map spg_key (groupSwitchPorts ports));
          (t, speed, role) = nullish (List.find (\<lambda>(t, speed, role). groupKey t (Some speed) (Some role) \<notin> existingKeys)
             port_templates) (PRj45, ''1G'', RAccess)
      in ports @ [new_switch_port (createPortId ports) (int (length ports) + 1) t (Some speed) (Some role)])"

text \<open>A port that differs from another in its place and speed only.\<close>

definition same_port :: "inventory_port \<Rightarrow> inventory_port \<Rightarrow> bool" where
  "same_port q r \<longleftrightarrow> r = q\<lparr>p_slotNumber := p_slotNumber r, p_speed := p_speed r\<rparr>"

definition same_but_slot :: "inventory_port \<Rightarrow> inventory_port \<Rightarrow> bool" where
  "same_but_slot q r \<longleftrightarrow> r = q\<lparr>p_slotNumber := p_slotNumber r\<rparr>"

section \<open>Lemmas\<close>

subsection \<open>Grouping\<close>

lemma createPortId_fresh: "q \<in> set ports \<Longrightarrow> p_id q < createPortId ports"
proof -
  have "\<forall>q \<in> set ports. p_id q \<le> foldl (\<lambda>highest q. max highest (p_id q)) m ports" for m
  proof (induction ports rule: rev_induct)
    case (snoc q ports)
    then show ?case by (auto intro: max.coboundedI1)
  qed simp
  then show "q \<in> set ports \<Longrightarrow> p_id q < createPortId ports" by (auto simp: createPortId_def)
qed

definition groups_ok :: "switch_group dict \<Rightarrow> bool" where
  "groups_ok m \<longleftrightarrow> distinct (map fst m) \<and> (\<forall>k g. map_of m k = Some g \<longrightarrow> spg_key g = k)"

lemma mset_all_ports_update:
  "distinct (map fst m) \<Longrightarrow> map_of m k = Some g
     \<Longrightarrow> mset (all_ports (map snd (AList.update k g' m))) + mset (spg_ports g) = mset (all_ports (map snd m)) + mset (spg_ports g')"
proof (induction m)
  case (Cons e m)
  then show ?case by (cases e) (auto simp: all_ports_def)
qed simp

lemma mset_all_ports_new:
  "map_of m k = None \<Longrightarrow> mset (all_ports (map snd (AList.update k g m))) = mset (all_ports (map snd m)) + mset (spg_ports g)"
  by (induction m) (auto simp: all_ports_def split: if_splits)

lemma add_to_group_facts:
  assumes "groups_ok m"
  shows "groups_ok (add_to_group m q)"
    and "mset (all_ports (map snd (add_to_group m q))) = add_mset q (mset (all_ports (map snd m)))"
proof -
  let ?k = "groupKey (p_type q) (p_speed q) (p_role q)"
  have ok: "groups_ok (AList.update ?k g m)" if "spg_key g = ?k" for g
    using assms that by (auto simp: groups_ok_def distinct_update update_conv')
  have dist: "distinct (map fst m)" using assms by (simp add: groups_ok_def)
  have "groups_ok (add_to_group m q)
    \<and> mset (all_ports (map snd (add_to_group m q))) = add_mset q (mset (all_ports (map snd m)))"
  proof (cases "map_of m ?k")
    case None
    then show ?thesis using ok mset_all_ports_new [OF None] by (simp add: add_to_group_def)
  next
    case (Some g)
    then have "spg_key g = ?k" using assms by (simp add: groups_ok_def)
    with Some show ?thesis
      using ok mset_all_ports_update [OF dist Some, of "g\<lparr>spg_ports := spg_ports g @ [q]\<rparr>"] by (simp add: add_to_group_def)
  qed
  then show "groups_ok (add_to_group m q)"
    "mset (all_ports (map snd (add_to_group m q))) = add_mset q (mset (all_ports (map snd m)))" by simp_all
qed

lemma foldl_groups:
  "groups_ok m \<Longrightarrow> groups_ok (foldl add_to_group m qs)
     \<and> mset (all_ports (map snd (foldl add_to_group m qs))) = mset (all_ports (map snd m)) + mset qs"
  by (induction qs arbitrary: m) (simp_all add: add_to_group_facts)

definition keyed :: "switch_group list \<Rightarrow> bool" where
  "keyed groups \<longleftrightarrow> distinct (map spg_key groups)"

lemma groupSwitchPorts_facts:
  "keyed (groupSwitchPorts ports)" "mset (all_ports (groupSwitchPorts ports)) = mset ports"
proof -
  let ?m = "foldl add_to_group [] (sort_key p_slotNumber ports)"
  have m: "groups_ok ?m" "mset (all_ports (map snd ?m)) = mset ports"
    using foldl_groups [of "[]" "sort_key p_slotNumber ports"] by (simp_all add: groups_ok_def all_ports_def)
  have "spg_key (snd e) = fst e" if "e \<in> set ?m" for e
    using m(1) that map_of_is_SomeI [of ?m "fst e" "snd e"] by (simp add: groups_ok_def)
  then have keys: "map (spg_key \<circ> snd) ?m = map fst ?m" by simp
  show "keyed (groupSwitchPorts ports)"
    using m(1) unfolding keyed_def groupSwitchPorts_def groups_ok_def map_map keys by simp
  show "mset (all_ports (groupSwitchPorts ports)) = mset ports"
    using m(2) by (simp add: groupSwitchPorts_def)
qed

subsection \<open>Updating a group\<close>

lemma find_group_Some: "find_group k gs = Some g \<Longrightarrow> spg_key g = k \<and> g \<in> set gs"
  by (auto simp: find_group_def dest: find_Some_iff_first)

lemma update_group_at:
  assumes "keyed (xs @ g # ys)" "spg_key g = k"
  shows "update_group k f (xs @ g # ys) = xs @ f g # ys"
proof -
  have other: "map (\<lambda>g. if spg_key g = k then f g else g) hs = hs" if "k \<notin> spg_key ` set hs" for hs
    using that by (induction hs) auto
  have "k \<notin> spg_key ` set xs" "k \<notin> spg_key ` set ys" using assms by (auto simp: keyed_def)
  then show ?thesis by (simp add: update_group_def assms(2) other)
qed

lemma find_group_at:
  assumes "keyed (xs @ g # ys)" "spg_key g = k"
  shows "find_group k (xs @ g # ys) = Some g"
proof -
  have "k \<notin> spg_key ` set xs" using assms by (auto simp: keyed_def)
  then have "List.find (\<lambda>g. spg_key g = k) (xs @ g # ys) = Some g" using assms(2) by (induction xs) auto
  then show ?thesis by (simp add: find_group_def)
qed

lemma find_group_split:
  assumes "find_group k gs = Some g"
  obtains xs ys where "gs = xs @ g # ys" "spg_key g = k"
  using find_group_Some [OF assms] by (auto simp: in_set_conv_decomp)

lemma all_ports_simps [simp]:
  "all_ports [] = []" "all_ports (g # gs) = spg_ports g @ all_ports gs" "all_ports (gs @ hs) = all_ports gs @ all_ports hs"
  by (simp_all add: all_ports_def)

lemma all_ports_filter [simp]: "all_ports (filter (\<lambda>g. spg_ports g \<noteq> []) gs) = all_ports gs"
  by (induction gs) simp_all

text \<open>The loop ends, with as many ports in the group as asked for, all of them new ones.\<close>

lemma grow_group:
  assumes "keyed (xs @ g # ys)" "spg_key g = k"
  shows "\<exists>new. grow_group k n (xs @ g # ys) = Some (xs @ g\<lparr>spg_ports := spg_ports g @ new\<rparr> # ys)
     \<and> length new = n - length (spg_ports g)
     \<and> (distinct (map p_id (all_ports (xs @ g # ys)))
          \<longrightarrow> distinct (map p_id (all_ports (xs @ g\<lparr>spg_ports := spg_ports g @ new\<rparr> # ys))))"
  using assms
proof (induction "n - length (spg_ports g)" arbitrary: g)
  case 0
  then show ?case using find_group_at [OF 0(2,3)]
    by (intro exI [of _ "[]"]) (simp add: grow_group.simps)
next
  case (Suc m)
  let ?gs = "xs @ g # ys"
  let ?q = "new_switch_port (createPortId (all_ports ?gs)) (int (length (all_ports ?gs)) + 1) (spg_type g) (spg_speed g) (spg_role g)"
  let ?g = "g\<lparr>spg_ports := spg_ports g @ [?q]\<rparr>"
  have "push_port ?gs g = ?g" by (simp add: push_port_def)
  then have step: "grow_group k n ?gs = grow_group k n (xs @ ?g # ys)"
    using Suc.hyps(2) find_group_at [OF Suc.prems] update_group_at [OF Suc.prems, of "push_port ?gs"]
    by (subst grow_group.simps) (simp, arith)
  have "p_id ?q \<notin> p_id ` set (all_ports ?gs)"
    using createPortId_fresh [of _ "all_ports ?gs"] by (force simp: new_switch_port_def blank_port_def)
  then have fresh: "distinct (map p_id (all_ports (xs @ ?g # ys)))" if "distinct (map p_id (all_ports ?gs))"
    using that by auto
  have hyp: "m = n - length (spg_ports ?g)" "keyed (xs @ ?g # ys)" "spg_key ?g = k"
    using Suc.hyps(2) Suc.prems by (simp_all add: keyed_def)
  from Suc.hyps(1) [OF hyp] obtain new where
    "grow_group k n (xs @ ?g # ys) = Some (xs @ ?g\<lparr>spg_ports := spg_ports ?g @ new\<rparr> # ys)"
    "length new = n - length (spg_ports ?g)"
    "distinct (map p_id (all_ports (xs @ ?g # ys)))
       \<longrightarrow> distinct (map p_id (all_ports (xs @ ?g\<lparr>spg_ports := spg_ports ?g @ new\<rparr> # ys)))" by blast
  with step fresh Suc.hyps(2) show ?case by (intro exI [of _ "?q # new"]) simp
qed

subsection \<open>Renumbering\<close>

lemma same_port_refl: "same_port q q"
  by (simp add: same_port_def)

lemma same_port_trans: "same_port q r \<Longrightarrow> same_port r s \<Longrightarrow> same_port q s"
  unfolding same_port_def by (cases q; cases r; cases s) simp

lemma renumber_same: "list_all2 same_port qs (renumber n qs)"
  by (induction n qs rule: renumber.induct) (simp_all add: same_port_def)

lemma renumber_slots: "map p_slotNumber (renumber n qs) = [n..n + int (length qs) - 1]"
  by (induction n qs rule: renumber.induct) (simp_all add: upto_rec1)

lemma normalizeSwitchPortGroupSpeed_same:
  "list_all2 same_port (spg_ports g) (spg_ports (normalizeSwitchPortGroupSpeed g))"
  by (simp add: normalizeSwitchPortGroupSpeed_def same_port_def list_all2_map2 list_all2_same)

lemma renumber_append: "renumber n (qs @ rs) = renumber n qs @ renumber (n + int (length qs)) rs"
  by (induction n qs rule: renumber.induct) (simp_all add: algebra_simps)

lemma renumber_slot_only: "list_all2 same_but_slot qs (renumber n qs)"
  by (induction n qs rule: renumber.induct) (simp_all add: same_but_slot_def)

lemma same_but_slot_same: "same_but_slot q r \<Longrightarrow> same_port q r"
  unfolding same_but_slot_def same_port_def by (cases q; cases r) simp

lemma finish_resize_parts:
  assumes "keyed (xs @ g # ys)" "spg_key g = k"
  obtains as bs cs where "finish_resize k (xs @ g # ys) = as @ bs @ cs"
    "list_all2 same_but_slot (all_ports xs) as" "list_all2 same_port (spg_ports g) bs"
    "list_all2 same_but_slot (all_ports ys) cs"
    "map p_slotNumber (as @ bs @ cs) = [1..int (length (as @ bs @ cs))]"
proof -
  let ?g = "normalizeSwitchPortGroupSpeed g"
  let ?all = "all_ports xs @ spg_ports ?g @ all_ports ys"
  let ?as = "renumber 1 (all_ports xs)" and ?bs = "renumber (1 + int (length (all_ports xs))) (spg_ports ?g)"
    and ?cs = "renumber (1 + int (length (all_ports xs)) + int (length (spg_ports ?g))) (all_ports ys)"
  have all: "finish_resize k (xs @ g # ys) = renumber 1 ?all"
    unfolding finish_resize_def flattenAndRenumber_def update_group_at [OF assms] all_ports_filter by simp
  have parts: "renumber 1 ?all = ?as @ ?bs @ ?cs" by (simp add: renumber_append)
  have bs: "list_all2 same_port (spg_ports g) ?bs"
    by (rule list_all2_trans [OF same_port_trans normalizeSwitchPortGroupSpeed_same renumber_same])
  have "length (renumber 1 ?all) = length ?all" using list_all2_lengthD [OF renumber_same, of ?all 1] by simp
  then have "map p_slotNumber (?as @ ?bs @ ?cs) = [1..int (length (?as @ ?bs @ ?cs))]"
    unfolding parts [symmetric] using renumber_slots [of 1 ?all] by simp
  with that [OF all [unfolded parts] renumber_slot_only bs renumber_slot_only] show thesis .
qed

lemma same_port_ids: "list_all2 same_port qs rs \<Longrightarrow> map p_id rs = map p_id qs"
proof (induction rule: list_all2_induct)
  case (Cons q qs r rs)
  have "p_id r = p_id q" using Cons(1) unfolding same_port_def by (cases q; cases r) simp
  with Cons show ?case by simp
qed simp

lemma same_ports_of:
  assumes "list_all2 same_port qs rs" "q \<in> set qs"
  shows "\<exists>r \<in> set rs. same_port q r"
  using assms by (induction rule: list_all2_induct) auto

subsection \<open>Resizing\<close>

lemma find_None_list_ex: "List.find P xs = None \<longleftrightarrow> \<not> list_ex P xs"
  by (auto simp: find_None_iff list_ex_iff)

lemma distinct_replace_take: "distinct (xs @ ys @ zs) \<Longrightarrow> distinct (xs @ take n ys @ zs)"
  by (auto dest: in_set_takeD)

text \<open>What a successful resize hands to the renumbering: the groups with the target group at its new size, the ports it
  gives up being free.\<close>

lemma resize_groups:
  assumes ok: "resizeSwitchPortGroup ports connections k key n = Some (Inr ports')"
  obtains xs g ys qs where "groupSwitchPorts ports = xs @ g # ys" "spg_key g = key"
    "keyed (xs @ g\<lparr>spg_ports := qs\<rparr> # ys)" "ports' = finish_resize key (xs @ g\<lparr>spg_ports := qs\<rparr> # ys)"
    "length qs = clamp_count n" "take (length (spg_ports g)) qs = take (clamp_count n) (spg_ports g)"
    "\<forall>q \<in> set (drop (clamp_count n) (spg_ports g)). \<not> protected_port connections k q"
    "distinct (map p_id ports) \<Longrightarrow> distinct (map p_id (all_ports (xs @ g\<lparr>spg_ports := qs\<rparr> # ys)))"
proof -
  let ?n = "clamp_count n"
  from ok obtain g where g: "find_group key (groupSwitchPorts ports) = Some g"
    by (auto simp: resizeSwitchPortGroup_def split: option.splits)
  then obtain xs ys where gs: "groupSwitchPorts ports = xs @ g # ys" "spg_key g = key"
    by (rule find_group_split)
  have keyed: "keyed (xs @ g # ys)" using groupSwitchPorts_facts(1) [of ports] gs by simp
  then have keyed': "keyed (xs @ g\<lparr>spg_ports := qs\<rparr> # ys)" for qs by (simp add: keyed_def)
  have ids: "distinct (map p_id (all_ports (xs @ g # ys)))" if "distinct (map p_id ports)"
    using that groupSwitchPorts_facts(2) [of ports] unfolding gs(1) by (metis mset_eq_imp_distinct_iff mset_map)
  note at = find_group_at [OF keyed gs(2)] update_group_at [OF keyed gs(2)]
  show thesis
  proof (cases "?n < length (spg_ports g)")
    case True
    from ok g True have out: "ports' = finish_resize key (xs @ g\<lparr>spg_ports := take ?n (spg_ports g)\<rparr> # ys)"
      and free: "List.find (protected_port connections k) (drop ?n (spg_ports g)) = None"
      by (auto simp: resizeSwitchPortGroup_def gs(1) at split: option.splits)
    show thesis
    proof (rule that [OF gs keyed' out])
      show "distinct (map p_id (all_ports (xs @ g\<lparr>spg_ports := take ?n (spg_ports g)\<rparr> # ys)))" if "distinct (map p_id ports)"
        using ids [OF that] distinct_replace_take [of "map p_id (all_ports xs)" "map p_id (spg_ports g)" "map p_id (all_ports ys)" ?n]
        by (simp add: take_map)
    qed (use True free in \<open>simp_all add: find_None_iff\<close>)
  next
    case False
    obtain new where grow: "grow_group key ?n (xs @ g # ys) = Some (xs @ g\<lparr>spg_ports := spg_ports g @ new\<rparr> # ys)"
      "length new = ?n - length (spg_ports g)"
      "distinct (map p_id (all_ports (xs @ g # ys)))
         \<longrightarrow> distinct (map p_id (all_ports (xs @ g\<lparr>spg_ports := spg_ports g @ new\<rparr> # ys)))"
      using grow_group [OF keyed gs(2), of ?n] by blast
    have out: "ports' = finish_resize key (xs @ g\<lparr>spg_ports := spg_ports g @ new\<rparr> # ys)"
      using ok False grow(1) by (simp add: resizeSwitchPortGroup_def gs(1) at)
    show thesis
      by (rule that [OF gs keyed' out]) (use False grow(2,3) ids in simp_all)
  qed
qed

section \<open>Properties\<close>

text \<open>C32: \<open>resizeSwitchPortGroup\<close> always returns: the loop that adds ports ends, whatever ports, cables, group
  and count it is given.  It refuses exactly when the group is gone or when one of the ports it would remove
  (those of the group past the count, cut to 0..128) is cabled or carries a label, notes or an address.\<close>

theorem resize_returns:
  "\<exists>r. resizeSwitchPortGroup ports connections k key n = Some r
     \<and> isl r = (case find_group key (groupSwitchPorts ports) of
         None \<Rightarrow> True
       | Some g \<Rightarrow> list_ex (protected_port connections k) (drop (clamp_count n) (spg_ports g)))"
proof (cases "find_group key (groupSwitchPorts ports)")
  case (Some g)
  then obtain xs ys where "groupSwitchPorts ports = xs @ g # ys" "spg_key g = key" by (rule find_group_split)
  then obtain gs where "grow_group key (clamp_count n) (groupSwitchPorts ports) = Some gs"
    using grow_group [of xs g ys key "clamp_count n"] groupSwitchPorts_facts(1) [of ports] by auto
  with Some show ?thesis
    using find_None_list_ex [of "protected_port connections k" "drop (clamp_count n) (spg_ports g)"]
    by (cases "clamp_count n < length (spg_ports g)";
        cases "List.find (protected_port connections k) (drop (clamp_count n) (spg_ports g))")
      (simp_all add: resizeSwitchPortGroup_def)
qed (simp add: resizeSwitchPortGroup_def)

text \<open>C33: A successful resize changes only the group it is asked to, and loses nothing that is in use.  With distinct
  port ids, the ports of the other groups are all still there, in their order and changed in their place only; the
  group has exactly the count asked for, cut to 0..128: first the ports it had, as many as fit, changed at most in
  their place and their speed, then new ones; the ports it gives up are free: neither cabled nor with saved details,
  so that every port that is stays; the ids stay distinct and the places are 1, 2, 3, ....\<close>

theorem resize_keeps_protected:
  assumes "resizeSwitchPortGroup ports connections k key n = Some (Inr ports')" "distinct (map p_id ports)"
  shows "\<exists>xs g ys as bs cs. groupSwitchPorts ports = xs @ g # ys \<and> spg_key g = key \<and> ports' = as @ bs @ cs
     \<and> list_all2 same_but_slot (all_ports xs) as \<and> list_all2 same_but_slot (all_ports ys) cs
     \<and> length bs = clamp_count n
     \<and> list_all2 same_port (take (clamp_count n) (spg_ports g)) (take (length (spg_ports g)) bs)
     \<and> (\<forall>q \<in> set (drop (clamp_count n) (spg_ports g)). \<not> protected_port connections k q)
     \<and> (\<forall>q \<in> set ports. protected_port connections k q \<longrightarrow> (\<exists>q' \<in> set ports'. same_port q q'))
     \<and> distinct (map p_id ports') \<and> map p_slotNumber ports' = [1..int (length ports')]"
proof -
  obtain xs g ys qs where r: "groupSwitchPorts ports = xs @ g # ys" "spg_key g = key"
    "keyed (xs @ g\<lparr>spg_ports := qs\<rparr> # ys)" "ports' = finish_resize key (xs @ g\<lparr>spg_ports := qs\<rparr> # ys)"
    "length qs = clamp_count n" "take (length (spg_ports g)) qs = take (clamp_count n) (spg_ports g)"
    "\<forall>q \<in> set (drop (clamp_count n) (spg_ports g)). \<not> protected_port connections k q"
    "distinct (map p_id (all_ports (xs @ g\<lparr>spg_ports := qs\<rparr> # ys)))"
    using resize_groups [OF assms(1)] assms(2) by metis
  obtain as bs cs where p: "ports' = as @ bs @ cs" "list_all2 same_but_slot (all_ports xs) as"
    "list_all2 same_port qs bs" "list_all2 same_but_slot (all_ports ys) cs"
    "map p_slotNumber ports' = [1..int (length ports')]"
    using finish_resize_parts [OF r(3)] r(2,4) by (metis switch_group.select_convs(5) switch_group.surjective switch_group.update_convs(5)
      switch_group.select_convs(1))
  have whole: "list_all2 same_port (all_ports xs @ qs @ all_ports ys) ports'"
    unfolding p(1) using p(2-4) by (intro list_all2_appendI) (auto elim: list_all2_mono dest: same_but_slot_same)
  have ids: "distinct (map p_id ports')" using same_port_ids [OF whole] r(8) by simp
  have "q \<in> set (all_ports xs @ qs @ all_ports ys)" if "q \<in> set ports" "protected_port connections k q" for q
  proof -
    have "q \<in> set (all_ports (xs @ g # ys))"
      using that(1) groupSwitchPorts_facts(2) [of ports] mset_eq_setD unfolding r(1) by blast
    moreover have "q \<in> set (take (clamp_count n) (spg_ports g))" if "q \<in> set (spg_ports g)"
      using that r(7) \<open>protected_port connections k q\<close> by (metis append_take_drop_id Un_iff set_append)
    moreover have "set (take (clamp_count n) (spg_ports g)) \<subseteq> set qs" using r(6) set_take_subset by metis
    ultimately show ?thesis by auto
  qed
  then have kept: "\<exists>q' \<in> set ports'. same_port q q'" if "q \<in> set ports" "protected_port connections k q" for q
    using same_ports_of [OF whole] that by blast
  have "list_all2 same_port (take (clamp_count n) (spg_ports g)) (take (length (spg_ports g)) bs)"
    using p(3) list_all2_takeI [OF p(3), of "length (spg_ports g)"] r(6) by simp
  moreover have "length bs = clamp_count n" using list_all2_lengthD [OF p(3)] r(5) by simp
  ultimately show ?thesis using r(1,2,7) p(1,2,4,5) ids kept by (intro exI conjI ballI impI) blast+
qed

definition sample_switch_ports :: "inventory_port list" where
  "sample_switch_ports =
     [new_switch_port 1 1 PRj45 (Some ''1G'') (Some RAccess),
      (new_switch_port 4 2 PRj45 (Some ''1G'') (Some RAccess))\<lparr>p_label := Some ''NAS''\<rparr>,
      new_switch_port 2 3 PSfp (Some ''1G'') (Some RUplink)]"

theorem resize_keeps_protected_witness:
  "\<exists>ports'. resizeSwitchPortGroup sample_switch_ports [] ''switch:1'' ''rj45|1G|access'' (7/2) = Some (Inr ports')
     \<and> map p_id ports' = [1, 4, 5, 2] \<and> map p_slotNumber ports' = [1..int (length ports')]"
proof -
  have "(case resizeSwitchPortGroup sample_switch_ports [] ''switch:1'' ''rj45|1G|access'' (7/2) of
    Some (Inr ports') \<Rightarrow> map p_id ports' = [1, 4, 5, 2] | _ \<Rightarrow> False)" by code_simp
  then obtain ports' where r: "resizeSwitchPortGroup sample_switch_ports [] ''switch:1'' ''rj45|1G|access'' (7/2) = Some (Inr ports')"
    "map p_id ports' = [1, 4, 5, 2]"
    by (auto split: option.splits sum.splits)
  have "distinct (map p_id sample_switch_ports)" by code_simp
  from resize_keeps_protected [OF r(1) this] have "map p_slotNumber ports' = [1..int (length ports')]"
    by (elim exE conjE)
  with r show ?thesis by (intro exI [of _ ports'] conjI)
qed

end
