(* ===== verification/Committed_Patches.thy ===== *)
theory Committed_Patches
  imports Engine_Patches
begin

text \<open>
  The operation that repeats a committed patch on the local engine: \<open>operationForCommittedPatch\<close> and
  \<open>routesEqualExceptBends\<close> of \<open>src/engine/client.ts\<close>.  Another client's change arrives as a patch with its
  inverse; the engine takes operations, which name the old and the new records.
\<close>

section \<open>Definitions\<close>

record 'a bend_change =
  bc_connection :: int
  bc_expected :: "'a list"
  bc_bends :: "'a list"

text \<open>The operations of \<open>EngineOperation\<close> that a patch can become.\<close>

datatype engine_operation =
    UpdateProjectMetadata string
  | CreateConnection endpoint_ref endpoint_ref string
  | RemoveConnectionOp int
  | UpdateConnectionLabel int "string option"
  | UpdateConnectionRoute int "topology_route option"
  | UpdatePlacements "canvas_placement change list"
  | UpdateAssignments "engine_assignment change list"
  | CanonicalizeConnectionRoutes "bend_point bend_change list"

definition item_ref_key :: "item_ref \<Rightarrow> string" where
  "item_ref_key r = ir_item_type r @ '':'' @ show_int (ir_id r)"

text \<open>The changes of keyed records: those of the inverse patch before, those of the patch after.\<close>

definition record_changes :: "('a \<Rightarrow> 'k) \<Rightarrow> 'a list \<Rightarrow> 'a list \<Rightarrow> 'k list \<Rightarrow> 'a change list" where
  "record_changes key before after ks =
     map (\<lambda>k. \<lparr>ch_previous = map_of (map_from (map (\<lambda>x. (key x, x)) before)) k,
               ch_next = map_of (map_from (map (\<lambda>x. (key x, x)) after)) k\<rparr>) ks"

definition placement_operation ::
  "canvas_placement list \<Rightarrow> item_ref list \<Rightarrow> canvas_placement list \<Rightarrow> item_ref list \<Rightarrow> engine_operation" where
  "placement_operation upsert removed before removedBefore =
     (let key = (\<lambda>x. item_ref_key (cp_item x)) in
      UpdatePlacements (record_changes key before upsert
        (js_uniq (map key before @ map key upsert @ map item_ref_key removedBefore @ map item_ref_key removed))))"

definition assignment_operation ::
  "engine_assignment list \<Rightarrow> int list \<Rightarrow> engine_assignment list \<Rightarrow> int list \<Rightarrow> engine_operation" where
  "assignment_operation upsert removed before removedBefore =
     UpdateAssignments (record_changes ea_id before upsert
       (sort (js_uniq (map ea_id before @ map ea_id upsert @ removedBefore @ removed))))"

text \<open>The first argument is \<open>undefined\<close> when the inverse has no patch for the connection.\<close>

definition routesEqualExceptBends :: "topology_route option option \<Rightarrow> topology_route option \<Rightarrow> bool" where
  "routesEqualExceptBends previous nxt =
     (case (previous, nxt) of
        (Some (Some r), Some r') \<Rightarrow> tr_source_side r = tr_source_side r' \<and> tr_target_side r = tr_target_side r'
          \<and> tr_avoid_cable_overlap r = tr_avoid_cable_overlap r'
      | (Some None, None) \<Rightarrow> True
      | _ \<Rightarrow> False)"

fun route_patch :: "project_patch \<Rightarrow> (int \<times> topology_route option) option" where
  "route_patch (SetConnectionRoute c r) = Some (c, r)"
| "route_patch _ = None"

definition batch_children :: "project_patch option \<Rightarrow> project_patch list" where
  "batch_children undo = (case undo of Some (BatchPatch ps) \<Rightarrow> ps | _ \<Rightarrow> [])"

definition inverse_routes :: "project_patch list \<Rightarrow> (int \<times> topology_route option) list" where
  "inverse_routes children = map_from (List.map_filter route_patch children)"

definition bend_points_of :: "topology_route option \<Rightarrow> bend_point list" where
  "bend_points_of r = (case r of None \<Rightarrow> [] | Some r \<Rightarrow> tr_bend_points r)"

definition bend_operation :: "(int \<times> topology_route option) list \<Rightarrow> project_patch list \<Rightarrow> engine_operation" where
  "bend_operation inverseRoutes patches =
     CanonicalizeConnectionRoutes (map (\<lambda>(c, r).
       \<lparr>bc_connection = c, bc_expected = bend_points_of (nullish (map_of inverseRoutes c) None),
        bc_bends = bend_points_of r\<rparr>) (List.map_filter route_patch patches))"

text \<open>The children of a batch are tried in order; the inverse of a child stands at the mirrored place.\<close>

fun operationForCommittedPatch :: "project_patch \<Rightarrow> project_patch option \<Rightarrow> engine_operation option"
and first_operation :: "project_patch list \<Rightarrow> project_patch list \<Rightarrow> engine_operation option" where
  "operationForCommittedPatch (SetProjectName n) _ = Some (UpdateProjectMetadata n)"
| "operationForCommittedPatch (AddConnection c) _ = Some (CreateConnection (tc_from c) (tc_to c) (tc_created_at c))"
| "operationForCommittedPatch (RemoveConnection c) _ = Some (RemoveConnectionOp (tc_id c))"
| "operationForCommittedPatch (SetConnectionLabel c l) _ = Some (UpdateConnectionLabel c l)"
| "operationForCommittedPatch (SetConnectionRoute c r) _ = Some (UpdateConnectionRoute c r)"
| "operationForCommittedPatch (SetConnectionDerived ds) _ = None"
| "operationForCommittedPatch (PatchPlacements upsert removed) undo =
     (case undo of Some (PatchPlacements before removedBefore) \<Rightarrow>
        Some (placement_operation upsert removed before removedBefore)
      | _ \<Rightarrow> None)"
| "operationForCommittedPatch (PatchAssignments upsert removed) undo =
     (case undo of Some (PatchAssignments before removedBefore) \<Rightarrow>
        Some (assignment_operation upsert removed before removedBefore)
      | _ \<Rightarrow> None)"
| "operationForCommittedPatch (BatchPatch ps) undo =
     (let inverseChildren = batch_children undo;
          inverseRoutes = inverse_routes inverseChildren;
          routeChildren = list_all (\<lambda>q. route_patch q \<noteq> None) ps;
          bendOnly = (ps \<noteq> [] \<and> routeChildren
            \<and> list_all (\<lambda>(c, r). routesEqualExceptBends (map_of inverseRoutes c) r) (List.map_filter route_patch ps))
      in if bendOnly then Some (bend_operation inverseRoutes ps)
         else if routeChildren then None
         else first_operation ps (rev inverseChildren))"
| "first_operation [] inverses = None"
| "first_operation (q # qs) inverses =
     (case operationForCommittedPatch q (case inverses of [] \<Rightarrow> None | i # _ \<Rightarrow> Some i) of
        Some op \<Rightarrow> Some op
      | None \<Rightarrow> first_operation qs (tl inverses))"

section \<open>Lemmas\<close>

text \<open>The operation of an assignment patch names every assignment that the patch or its inverse touches,
  once and in the order of the ids, with the record the inverse would restore and the one the patch puts.\<close>

lemma assignment_operation_changes:
  assumes "distinct (map ea_id upsert)" "a \<in> set upsert"
  shows "\<exists>changes c. assignment_operation upsert removed before removedBefore = UpdateAssignments changes
    \<and> c \<in> set changes \<and> ch_next c = Some a"
proof -
  have "map_of (map_from (map (\<lambda>x. (ea_id x, x)) upsert)) (ea_id a) = Some a"
    using assms by (simp add: map_of_map_from map_of_rev_distinct o_def)
  then show ?thesis using assms(2) by (auto simp: assignment_operation_def record_changes_def)
qed

end
