(* ===== verification/Engine_Client.thy ===== *)
theory Engine_Client
  imports Committed_Patches Settling
begin

text \<open>
  The client of the engine: the class of \<open>src/engine/client.ts\<close>.  It owns a worker in which the engine
  runs, sends it requests, posts the commands that the worker accepted to the server, and starts a new worker from a
  snapshot of the server whenever the two may have diverged.

  A call of a method is an entry of \<open>ec_calls\<close> with the place at which it waits; when its promise settles
  the entry becomes a result.  The worker, the server and the timers are the environment: any of their answers can come at
  any time, and the code that runs until the next await is one step.  The worker's messages and the server's responses are
  decoded by a library, so an answer is a response or the message of an error.
\<close>

section \<open>Definitions\<close>

subsection \<open>State\<close>

datatype engine_phase = EIdle | ELoading | EReady | EConflict | ERebuilding | EFailed | EUnsupported | EDisposed

record engine_state =
  es_phase :: engine_phase
  es_revision :: "int option"
  es_reason :: "string option"
  es_error :: "string option"

datatype engine_input = Operation engine_operation | OtherInput string

record engine_request =
  rq_id :: nat
  rq_base :: int
  rq_input :: engine_input

record engine_response =
  rs_request :: nat
  rs_base :: int
  rs_result :: engine_result

text \<open>What a call does with the answer of the worker, and once the recovery it waits for has ended.\<close>

datatype continuation = CReturn | CMutate engine_request | CApply int

datatype after_recovery = ThenThrow nat string | ThenRebuilt | ThenSync | ThenDone

text \<open>Where a call waits: for its turn among the mutations, for the mutations before it, for the microtask of
  \<open>query\<close>, for the worker, the server or the recovery.\<close>

datatype wait_point =
    InTail bool engine_input
  | AwaitTail "nat option" engine_input
  | AwaitTailSync "nat option" int string
  | Coalesced
  | AwaitWorker continuation
  | AwaitServer engine_request int
  | AwaitRecovery after_recovery

datatype outcome = Threw string | Responded engine_response | Committed string | SyncedTo int | Finished

datatype recovery_stage = Fetching | Initializing int | InitFailed string

record recovery =
  rc_reason :: string
  rc_attempt :: nat
  rc_stage :: recovery_stage

record client =
  ec_state :: engine_state
  ec_workerRevision :: "int option"
  ec_active :: "nat option"
  ec_worker :: bool
  ec_nextId :: nat
  ec_pending :: "(nat \<times> nat) list"
  ec_recovery :: "recovery option"
  ec_queued :: "(nat \<times> engine_input) option"
  ec_tail :: "nat list"
  ec_calls :: "(nat \<times> wait_point) list"
  ec_results :: "(nat \<times> outcome) list"
  ec_nextCall :: nat

record client_options =
  co_supportsWasm :: bool
  co_maxStartupAttempts :: nat

definition new_client :: client where
  "new_client =
     \<lparr>ec_state = \<lparr>es_phase = EIdle, es_revision = None, es_reason = None, es_error = None\<rparr>, ec_workerRevision = None,
      ec_active = None, ec_worker = False, ec_nextId = 1, ec_pending = [], ec_recovery = None, ec_queued = None,
      ec_tail = [], ec_calls = [], ec_results = [], ec_nextCall = 0\<rparr>"

abbreviation phase_of :: "client \<Rightarrow> engine_phase" where
  "phase_of s \<equiv> es_phase (ec_state s)"

abbreviation revision_of :: "client \<Rightarrow> int option" where
  "revision_of s \<equiv> es_revision (ec_state s)"

definition setState :: "engine_phase \<Rightarrow> int option \<Rightarrow> string option \<Rightarrow> string option \<Rightarrow> client \<Rightarrow> client" where
  "setState ph r reason err s =
     s\<lparr>ec_state := \<lparr>es_phase = ph, es_revision = r, es_reason = reason, es_error = err\<rparr>\<rparr>"

subsection \<open>Calls\<close>

definition begin_call :: "wait_point \<Rightarrow> client \<Rightarrow> client" where
  "begin_call w s = s\<lparr>ec_calls := (ec_nextCall s, w) # ec_calls s, ec_nextCall := Suc (ec_nextCall s)\<rparr>"

definition wait_at :: "nat \<Rightarrow> wait_point \<Rightarrow> client \<Rightarrow> client" where
  "wait_at i w s = s\<lparr>ec_calls := map (\<lambda>c. if fst c = i then (i, w) else c) (ec_calls s)\<rparr>"

definition settle_calls :: "(nat \<times> outcome) list \<Rightarrow> client \<Rightarrow> client" where
  "settle_calls rs s =
     s\<lparr>ec_calls := filter (\<lambda>c. fst c \<notin> fst ` set rs) (ec_calls s),
       ec_tail := filter (\<lambda>i. i \<notin> fst ` set rs) (ec_tail s),
       ec_results := rs @ ec_results s\<rparr>"

text \<open>A call that ends before its first await.\<close>

definition immediate :: "outcome \<Rightarrow> client \<Rightarrow> client" where
  "immediate r s = s\<lparr>ec_results := (ec_nextCall s, r) # ec_results s, ec_nextCall := Suc (ec_nextCall s)\<rparr>"

subsection \<open>The worker\<close>

definition disposed_message :: string where
  "disposed_message = ''Workspace engine client is disposed.''"

definition not_ready_message :: string where
  "not_ready_message = ''Workspace engine is not ready.''"

definition init_rejected :: "string \<Rightarrow> client \<Rightarrow> client" where
  "init_rejected e s = s\<lparr>ec_recovery := map_option (\<lambda>r.
     case rc_stage r of Initializing _ \<Rightarrow> r\<lparr>rc_stage := InitFailed e\<rparr> | _ \<Rightarrow> r) (ec_recovery s)\<rparr>"

definition terminateWorker :: "string \<Rightarrow> client \<Rightarrow> client" where
  "terminateWorker e s =
     settle_calls (map (\<lambda>(_, i). (i, Threw e)) (ec_pending s))
       ((init_rejected e s)\<lparr>ec_worker := False, ec_workerRevision := None, ec_active := None, ec_pending := []\<rparr>)"

definition takeRequestId :: "client \<Rightarrow> nat \<times> client" where
  "takeRequestId s =
     (ec_nextId s, s\<lparr>ec_nextId := (if 4294967295 \<le> ec_nextId s then 1 else ec_nextId s + 1)\<rparr>)"

definition dispatchRequest :: "nat \<Rightarrow> continuation \<Rightarrow> engine_request \<Rightarrow> client \<Rightarrow> client" where
  "dispatchRequest i k rq s =
     (if \<not> ec_worker s then settle_calls [(i, Threw ''Workspace engine worker is unavailable.'')] s
      else wait_at i (AwaitWorker k) (s\<lparr>ec_pending := AList.update (rq_id rq) i (ec_pending s)\<rparr>))"

definition dispatch :: "nat \<Rightarrow> continuation \<Rightarrow> engine_input \<Rightarrow> client \<Rightarrow> client" where
  "dispatch i k inp s =
     (case ec_workerRevision s of
        None \<Rightarrow> settle_calls [(i, Threw ''Workspace engine worker revision is unavailable.'')] s
      | Some revision \<Rightarrow> (case takeRequestId s of (n, s') \<Rightarrow>
          dispatchRequest i k \<lparr>rq_id = n, rq_base = revision, rq_input = inp\<rparr> s'))"

subsection \<open>Recovery\<close>

definition recovered :: "client \<Rightarrow> string option \<Rightarrow> after_recovery \<Rightarrow> outcome" where
  "recovered s err k =
     (case err of
        Some e \<Rightarrow> Threw e
      | None \<Rightarrow> (case k of
            ThenThrow _ e \<Rightarrow> Threw e
          | ThenRebuilt \<Rightarrow> Committed ''rebuilt''
          | ThenSync \<Rightarrow> (case revision_of s of
                Some r \<Rightarrow> if phase_of s = EReady then SyncedTo r
                  else Threw ''The workspace engine did not return to a ready state.''
              | None \<Rightarrow> Threw ''The workspace engine did not return to a ready state.'')
          | ThenDone \<Rightarrow> Finished))"

text \<open>The \<open>finally\<close> of a mutation.\<close>

definition end_mutation :: "nat \<Rightarrow> client \<Rightarrow> client" where
  "end_mutation n s = (if ec_active s = Some n then s\<lparr>ec_active := None\<rparr> else s)"

fun end_after :: "wait_point \<Rightarrow> client \<Rightarrow> client" where
  "end_after (AwaitRecovery (ThenThrow n _)) s = end_mutation n s"
| "end_after _ s = s"

fun waits_for_recovery :: "client \<Rightarrow> string option \<Rightarrow> nat \<times> wait_point \<Rightarrow> (nat \<times> outcome) option" where
  "waits_for_recovery s err (i, AwaitRecovery k) = Some (i, recovered s err k)"
| "waits_for_recovery s err _ = None"

definition finish_recovery :: "string option \<Rightarrow> client \<Rightarrow> client" where
  "finish_recovery err s =
     settle_calls (List.map_filter (waits_for_recovery s err) (ec_calls s))
       (fold (\<lambda>c. end_after (snd c)) (ec_calls s) (s\<lparr>ec_recovery := None\<rparr>))"

definition next_attempt :: "client_options \<Rightarrow> string \<Rightarrow> nat \<Rightarrow> string \<Rightarrow> client \<Rightarrow> client" where
  "next_attempt cf reason n lastError s =
     (if n < co_maxStartupAttempts cf
      then (if phase_of s = EDisposed then finish_recovery (Some disposed_message) s
            else s\<lparr>ec_recovery := Some \<lparr>rc_reason = reason, rc_attempt = n, rc_stage = Fetching\<rparr>\<rparr>)
      else finish_recovery (Some lastError) (setState EFailed (revision_of s) (Some reason) (Some lastError) s))"

definition recover :: "client_options \<Rightarrow> engine_phase \<Rightarrow> string \<Rightarrow> client \<Rightarrow> client" where
  "recover cf ph reason s =
     (if ec_recovery s \<noteq> None then s
      else next_attempt cf reason 0 ''Workspace engine failed to start.'' (setState ph (revision_of s) (Some reason) None s))"

text \<open>\<open>rebuild\<close> in the call \<open>i\<close>, which goes on with \<open>k\<close>.\<close>

definition rebuild_in :: "client_options \<Rightarrow> nat \<Rightarrow> after_recovery \<Rightarrow> string \<Rightarrow> client \<Rightarrow> client" where
  "rebuild_in cf i k reason s =
     (if phase_of s = EDisposed
      then settle_calls [(i, Threw disposed_message)] (end_after (AwaitRecovery k) s)
      else recover cf ERebuilding reason (wait_at i (AwaitRecovery k) s))"

text \<open>The \<open>catch\<close> of the attempt.\<close>

definition attempt_failed :: "client_options \<Rightarrow> recovery \<Rightarrow> string \<Rightarrow> client \<Rightarrow> client" where
  "attempt_failed cf r e s =
     (let s = terminateWorker e s in
      if phase_of s = EDisposed then finish_recovery (Some disposed_message) s
      else next_attempt cf (rc_reason r) (rc_attempt r + 1) e s)"

definition snapshot_fetched :: "client_options \<Rightarrow> recovery \<Rightarrow> int \<Rightarrow> client \<Rightarrow> client" where
  "snapshot_fetched cf r revision s =
     (if phase_of s = EDisposed then attempt_failed cf r disposed_message s
      else (terminateWorker ''Workspace engine worker was replaced.'' s)
        \<lparr>ec_worker := True, ec_recovery := Some (r\<lparr>rc_stage := Initializing revision\<rparr>)\<rparr>)"

definition worker_ready :: "client_options \<Rightarrow> recovery \<Rightarrow> int \<Rightarrow> client \<Rightarrow> client" where
  "worker_ready cf r revision s =
     (if phase_of s = EDisposed then attempt_failed cf r disposed_message s
      else finish_recovery None (setState EReady (Some revision) None None (s\<lparr>ec_workerRevision := Some revision\<rparr>)))"

text \<open>The worker crashes, or a request to it times out: the worker is given up and, when the client was ready, replaced.\<close>

definition worker_lost :: "client_options \<Rightarrow> string \<Rightarrow> client \<Rightarrow> client" where
  "worker_lost cf e s =
     (let shouldRecover = (phase_of s = EReady); s = terminateWorker e s in
      if shouldRecover then recover cf ERebuilding e s else s)"

subsection \<open>Answers\<close>

definition answered :: "client_options \<Rightarrow> nat \<Rightarrow> continuation \<Rightarrow> engine_response \<Rightarrow> client \<Rightarrow> client" where
  "answered cf i k response s =
     (case k of
        CReturn \<Rightarrow> settle_calls [(i, Responded response)] s
      | CMutate rq \<Rightarrow> (case rs_result response of
            ResPatch revision _ _ \<Rightarrow> wait_at i (AwaitServer rq revision) (s\<lparr>ec_active := Some (rq_id rq)\<rparr>)
          | _ \<Rightarrow> settle_calls [(i, Responded response)] s)
      | CApply committed \<Rightarrow>
          if (case rs_result response of ResPatch revision _ _ \<Rightarrow> revision = committed | _ \<Rightarrow> False)
          then settle_calls [(i, Committed ''applied'')]
                 (setState EReady (Some committed) None None (s\<lparr>ec_workerRevision := Some committed\<rparr>))
          else rebuild_in cf i ThenRebuilt ''The committed project patch could not be reconciled.'' s)"

definition worker_answered :: "client_options \<Rightarrow> nat \<Rightarrow> nat \<Rightarrow> continuation \<Rightarrow> engine_response \<Rightarrow> client \<Rightarrow> client" where
  "worker_answered cf n i k response s =
     (let s = s\<lparr>ec_pending := AList.delete n (ec_pending s)\<rparr>;
          s = (case rs_result response of ResPatch revision _ _ \<Rightarrow> s\<lparr>ec_workerRevision := Some revision\<rparr> | _ \<Rightarrow> s)
      in answered cf i k response s)"

definition request_failed :: "nat \<Rightarrow> nat \<Rightarrow> string \<Rightarrow> client \<Rightarrow> client" where
  "request_failed n i e s = settle_calls [(i, Threw e)] (s\<lparr>ec_pending := AList.delete n (ec_pending s)\<rparr>)"

definition command_failed :: "client_options \<Rightarrow> nat \<Rightarrow> engine_request \<Rightarrow> bool \<Rightarrow> string \<Rightarrow> client \<Rightarrow> client" where
  "command_failed cf i rq conflict e s =
     rebuild_in cf i (ThenThrow (rq_id rq) e) e
       (if conflict then setState EConflict (revision_of s) (Some e) None s else s)"

definition command_answered :: "client_options \<Rightarrow> nat \<Rightarrow> engine_request \<Rightarrow> int \<Rightarrow> engine_response \<Rightarrow> client \<Rightarrow> client" where
  "command_answered cf i rq optimistic canonical s =
     (if (case rs_result canonical of ResPatch revision _ _ \<Rightarrow> revision = optimistic | _ \<Rightarrow> False)
      then settle_calls [(i, Responded canonical)] (end_mutation (rq_id rq)
             (setState EReady (Some optimistic) None None (s\<lparr>ec_workerRevision := Some optimistic\<rparr>)))
      else command_failed cf i rq False ''Canonical engine response did not match the optimistic result.'' s)"

subsection \<open>Turns\<close>

text \<open>A mutation or transient request whose predecessors have settled.\<close>

definition start_mutation :: "nat \<Rightarrow> engine_input \<Rightarrow> client \<Rightarrow> client" where
  "start_mutation i inp s =
     (if phase_of s \<noteq> EReady then settle_calls [(i, Threw not_ready_message)] s
      else case revision_of s of
          None \<Rightarrow> settle_calls [(i, Threw ''Canonical workspace revision is unavailable.'')] s
        | Some revision \<Rightarrow>
            if ec_workerRevision s \<noteq> Some revision
            then settle_calls [(i, Threw ''Workspace engine has an uncommitted optimistic revision.'')] s
            else (case takeRequestId s of (n, s') \<Rightarrow>
              let rq = \<lparr>rq_id = n, rq_base = revision, rq_input = inp\<rparr> in dispatchRequest i (CMutate rq) rq s'))"

definition start_request :: "nat \<Rightarrow> engine_input \<Rightarrow> client \<Rightarrow> client" where
  "start_request i inp s =
     (if phase_of s \<noteq> EReady then settle_calls [(i, Threw not_ready_message)] s else dispatch i CReturn inp s)"

definition start_turn :: "nat \<Rightarrow> bool \<Rightarrow> engine_input \<Rightarrow> client \<Rightarrow> client" where
  "start_turn i mutates inp s = (if mutates then start_mutation i inp s else start_request i inp s)"

definition synchronize :: "client_options \<Rightarrow> nat \<Rightarrow> int \<Rightarrow> string \<Rightarrow> client \<Rightarrow> client" where
  "synchronize cf i expected reason s =
     (if phase_of s = EReady \<and> revision_of s = Some expected \<and> ec_workerRevision s = Some expected
      then settle_calls [(i, SyncedTo expected)] s
      else rebuild_in cf i ThenSync reason s)"

definition tail_settled :: "nat option \<Rightarrow> client \<Rightarrow> bool" where
  "tail_settled w s \<longleftrightarrow> (case w of None \<Rightarrow> True | Some j \<Rightarrow> j \<notin> set (ec_tail s))"

subsection \<open>Methods\<close>

definition client_start :: "client_options \<Rightarrow> client \<Rightarrow> client" where
  "client_start cf s =
     (if phase_of s = EDisposed then immediate (Threw disposed_message) s
      else if \<not> co_supportsWasm cf then immediate Finished (setState EUnsupported None None None s)
      else recover cf ELoading ''Starting workspace engine'' (begin_call (AwaitRecovery ThenDone) s))"

definition client_query :: "engine_input \<Rightarrow> client \<Rightarrow> client" where
  "client_query inp s =
     (if phase_of s \<noteq> EReady then immediate (Threw not_ready_message) s
      else let s = (case ec_queued s of None \<Rightarrow> s
             | Some (j, _) \<Rightarrow> settle_calls [(j, Threw ''Engine query was superseded by a newer read.'')] s)
        in begin_call Coalesced (s\<lparr>ec_queued := Some (ec_nextCall s, inp)\<rparr>))"

definition queryConsistent :: "engine_input \<Rightarrow> client \<Rightarrow> client" where
  "queryConsistent inp s =
     begin_call (AwaitTail (if ec_tail s = [] then None else Some (last (ec_tail s))) inp) s"

definition enqueue :: "bool \<Rightarrow> engine_input \<Rightarrow> client \<Rightarrow> client" where
  "enqueue mutates inp s = begin_call (InTail mutates inp) (s\<lparr>ec_tail := ec_tail s @ [ec_nextCall s]\<rparr>)"

definition applyCommittedResponse :: "client_options \<Rightarrow> string + engine_response \<Rightarrow> client \<Rightarrow> client" where
  "applyCommittedResponse cf decoded s =
     (case decoded of
        Inl e \<Rightarrow> immediate (Threw e) s
      | Inr response \<Rightarrow> (case rs_result response of
            ResOther _ \<Rightarrow> immediate (Committed ''ignored'') s
          | ResPatch committed forward backward \<Rightarrow>
              if revision_of s = Some committed then immediate (Committed ''acknowledged'') s
              else if ec_active s = Some (rs_request response) \<and> revision_of s = Some (rs_base response)
                      \<and> ec_workerRevision s = Some committed
              then immediate (Committed ''acknowledged'') (setState EReady (Some committed) None None s)
              else let i = ec_nextCall s; t = begin_call (AwaitRecovery ThenRebuilt) s in
                if revision_of s \<noteq> Some (rs_base response)
                then rebuild_in cf i ThenRebuilt ''A committed project revision was missed.'' t
                else case operationForCommittedPatch forward (Some backward) of
                    None \<Rightarrow> rebuild_in cf i ThenRebuilt ''The committed project patch is not supported locally.'' t
                  | Some operation \<Rightarrow> dispatch i (CApply committed) (Operation operation) t))"

definition client_rebuild :: "client_options \<Rightarrow> string \<Rightarrow> client \<Rightarrow> client" where
  "client_rebuild cf reason s =
     rebuild_in cf (ec_nextCall s) ThenDone reason (begin_call (AwaitRecovery ThenDone) s)"

definition synchronizeCanonicalRevision :: "int \<Rightarrow> string \<Rightarrow> client \<Rightarrow> client" where
  "synchronizeCanonicalRevision expected reason s =
     (if expected < 1 \<or> 9007199254740991 < expected
      then immediate (Threw ''The canonical workspace revision is invalid.'') s
      else begin_call (AwaitTailSync (if ec_tail s = [] then None else Some (last (ec_tail s))) expected reason) s)"

definition dispose :: "client \<Rightarrow> client" where
  "dispose s =
     (if phase_of s = EDisposed then s
      else let s = (case ec_queued s of None \<Rightarrow> s
             | Some (j, _) \<Rightarrow> settle_calls [(j, Threw disposed_message)] s)
        in setState EDisposed None None None (terminateWorker disposed_message (s\<lparr>ec_queued := None\<rparr>)))"

subsection \<open>Steps\<close>

text \<open>What happens without a call from outside: promises that settle, timers and the answers of worker and server.\<close>

inductive internal_engine_step :: "client_options \<Rightarrow> client \<Rightarrow> client \<Rightarrow> bool" for cf where
  turn: "ec_tail s = i # is \<Longrightarrow> (i, InTail mutates inp) \<in> set (ec_calls s)
    \<Longrightarrow> internal_engine_step cf s (start_turn i mutates inp s)"
| consistent: "(i, AwaitTail w inp) \<in> set (ec_calls s) \<Longrightarrow> tail_settled w s
    \<Longrightarrow> internal_engine_step cf s (start_request i inp s)"
| sync: "(i, AwaitTailSync w expected reason) \<in> set (ec_calls s) \<Longrightarrow> tail_settled w s
    \<Longrightarrow> internal_engine_step cf s (synchronize cf i expected reason s)"
| microtask: "ec_queued s = Some (i, inp)
    \<Longrightarrow> internal_engine_step cf s (dispatch i CReturn inp (s\<lparr>ec_queued := None\<rparr>))"
| answer: "map_of (ec_pending s) n = Some i \<Longrightarrow> (i, AwaitWorker k) \<in> set (ec_calls s)
    \<Longrightarrow> internal_engine_step cf s (worker_answered cf n i k response s)"
| failure: "map_of (ec_pending s) n = Some i \<Longrightarrow> internal_engine_step cf s (request_failed n i e s)"
| timeout: "ec_pending s \<noteq> []
    \<Longrightarrow> internal_engine_step cf s (worker_lost cf ''Workspace engine request timed out.'' s)"
| command: "(i, AwaitServer rq optimistic) \<in> set (ec_calls s)
    \<Longrightarrow> internal_engine_step cf s (command_answered cf i rq optimistic canonical s)"
| rejection: "(i, AwaitServer rq optimistic) \<in> set (ec_calls s)
    \<Longrightarrow> internal_engine_step cf s (command_failed cf i rq conflict e s)"
| fetched: "ec_recovery s = Some r \<Longrightarrow> rc_stage r = Fetching
    \<Longrightarrow> internal_engine_step cf s (snapshot_fetched cf r revision s)"
| fetch_failed: "ec_recovery s = Some r \<Longrightarrow> rc_stage r = Fetching
    \<Longrightarrow> internal_engine_step cf s (attempt_failed cf r e s)"
| ready: "ec_recovery s = Some r \<Longrightarrow> rc_stage r = Initializing revision
    \<Longrightarrow> internal_engine_step cf s (worker_ready cf r revision s)"
| init_failure: "ec_recovery s = Some r \<Longrightarrow> rc_stage r = Initializing revision
    \<Longrightarrow> internal_engine_step cf s (init_rejected e s)"
| init_failed: "ec_recovery s = Some r \<Longrightarrow> rc_stage r = InitFailed e
    \<Longrightarrow> internal_engine_step cf s (attempt_failed cf r e s)"

text \<open>The calls of the application, and a worker that crashes.\<close>

inductive outer_engine_step :: "client_options \<Rightarrow> client \<Rightarrow> client \<Rightarrow> bool" for cf where
  start: "outer_engine_step cf s (client_start cf s)"
| query: "outer_engine_step cf s (client_query inp s)"
| consistent_query: "outer_engine_step cf s (queryConsistent inp s)"
| enqueued: "outer_engine_step cf s (enqueue mutates inp s)"
| committed: "outer_engine_step cf s (applyCommittedResponse cf decoded s)"
| rebuild: "outer_engine_step cf s (client_rebuild cf reason s)"
| synchronized: "outer_engine_step cf s (synchronizeCanonicalRevision expected reason s)"
| disposed: "outer_engine_step cf s (dispose s)"
| crash: "ec_worker s \<Longrightarrow> outer_engine_step cf s (worker_lost cf e s)"

definition engine_step :: "client_options \<Rightarrow> client \<Rightarrow> client \<Rightarrow> bool" where
  "engine_step cf s t \<longleftrightarrow> internal_engine_step cf s t \<or> outer_engine_step cf s t"

subsection \<open>Invariants\<close>

fun tail_wait :: "wait_point \<Rightarrow> bool" where
  "tail_wait (InTail _ _) = True"
| "tail_wait (AwaitWorker _) = True"
| "tail_wait (AwaitServer _ _) = True"
| "tail_wait (AwaitRecovery _) = True"
| "tail_wait _ = False"

fun exclusive :: "wait_point \<Rightarrow> bool" where
  "exclusive (AwaitWorker (CMutate _)) = True"
| "exclusive (AwaitServer _ _) = True"
| "exclusive _ = False"

text \<open>The books of the client: every call ever made waits somewhere or has its result, and never both; a call waits for
  its turn only in the chain of mutations, for the worker only under a pending request, for the microtask only as the queued
  query; and the mutation that runs is the head of the chain.\<close>

definition ledger_ok :: "(nat \<times> wait_point) list \<Rightarrow> (nat \<times> outcome) list \<Rightarrow> nat \<Rightarrow> bool" where
  "ledger_ok calls results m \<longleftrightarrow> distinct (map fst calls @ map fst results)
     \<and> fst ` set calls \<union> fst ` set results = {..<m}"

definition tail_ok :: "(nat \<times> wait_point) list \<Rightarrow> nat list \<Rightarrow> bool" where
  "tail_ok calls tail \<longleftrightarrow> (\<forall>i \<in> set tail. \<exists>w. map_of calls i = Some w \<and> tail_wait w)
     \<and> (\<forall>i m inp. map_of calls i = Some (InTail m inp) \<longrightarrow> i \<in> set tail)
     \<and> (\<forall>i w. map_of calls i = Some w \<longrightarrow> exclusive w \<longrightarrow> tail \<noteq> [] \<and> hd tail = i)"

definition pending_ok :: "(nat \<times> wait_point) list \<Rightarrow> (nat \<times> nat) list \<Rightarrow> nat \<Rightarrow> bool" where
  "pending_ok calls pending n \<longleftrightarrow> distinct (map fst pending) \<and> distinct (map snd pending)
     \<and> (\<forall>i. (\<exists>k. map_of calls i = Some (AwaitWorker k)) \<longleftrightarrow> i \<in> snd ` set pending)
     \<and> (\<forall>q \<in> set pending. fst q < n)"

definition queued_ok :: "(nat \<times> wait_point) list \<Rightarrow> (nat \<times> engine_input) option \<Rightarrow> bool" where
  "queued_ok calls queued \<longleftrightarrow> (\<forall>i. map_of calls i = Some Coalesced \<longleftrightarrow> (\<exists>inp. queued = Some (i, inp)))"

definition books_ok :: "client \<Rightarrow> bool" where
  "books_ok s \<longleftrightarrow> ledger_ok (ec_calls s) (ec_results s) (ec_nextCall s) \<and> tail_ok (ec_calls s) (ec_tail s)
     \<and> pending_ok (ec_calls s) (ec_pending s) (ec_nextId s) \<and> queued_ok (ec_calls s) (ec_queued s)
     \<and> (ec_pending s \<noteq> [] \<longrightarrow> ec_worker s)"

text \<open>A recovery is under way whenever a call waits for one, and it has attempts left.\<close>

definition attempts_ok :: "client_options \<Rightarrow> client \<Rightarrow> bool" where
  "attempts_ok cf s \<longleftrightarrow> (case ec_recovery s of None \<Rightarrow> True
     | Some r \<Rightarrow> rc_attempt r < co_maxStartupAttempts cf \<and> ((\<exists>v. rc_stage r = Initializing v) \<longrightarrow> ec_worker s))"

definition nobody_forgotten :: "client \<Rightarrow> bool" where
  "nobody_forgotten s \<longleftrightarrow> (\<forall>i k. map_of (ec_calls s) i = Some (AwaitRecovery k) \<longrightarrow> ec_recovery s \<noteq> None)"

definition client_inv :: "client_options \<Rightarrow> client \<Rightarrow> bool" where
  "client_inv cf s \<longleftrightarrow> books_ok s \<and> attempts_ok cf s \<and> nobody_forgotten s \<and> (phase_of s = EDisposed \<longrightarrow> \<not> ec_worker s)"

text \<open>How much is left to do.  Waiting for a recovery is the last thing a call does; everything else may begin one.\<close>

definition recovery_cost :: "client_options \<Rightarrow> nat" where
  "recovery_cost cf = 3 * co_maxStartupAttempts cf"

fun wait_work :: "nat \<Rightarrow> wait_point \<Rightarrow> nat" where
  "wait_work m (InTail _ _) = m + 4"
| "wait_work m (AwaitTail _ _) = m + 3"
| "wait_work m (AwaitTailSync _ _ _) = m + 2"
| "wait_work m Coalesced = m + 3"
| "wait_work m (AwaitWorker (CMutate _)) = m + 3"
| "wait_work m (AwaitWorker _) = m + 2"
| "wait_work m (AwaitServer _ _) = m + 2"
| "wait_work m (AwaitRecovery _) = 1"

definition calls_work :: "nat \<Rightarrow> (nat \<times> wait_point) list \<Rightarrow> nat" where
  "calls_work m cs = sum_list (map (\<lambda>c. wait_work m (snd c)) cs)"

fun stage_work :: "recovery_stage \<Rightarrow> nat" where
  "stage_work Fetching = 3"
| "stage_work (Initializing _) = 2"
| "stage_work (InitFailed _) = 1"

definition recovery_work :: "client_options \<Rightarrow> recovery option \<Rightarrow> nat" where
  "recovery_work cf r = (case r of None \<Rightarrow> 0
     | Some r \<Rightarrow> 3 * (co_maxStartupAttempts cf - Suc (rc_attempt r)) + stage_work (rc_stage r))"

definition client_work :: "client_options \<Rightarrow> client \<Rightarrow> nat" where
  "client_work cf s = calls_work (recovery_cost cf) (ec_calls s) + recovery_work cf (ec_recovery s)"

section \<open>Lemmas\<close>

lemma takeRequestId_id:
  "ec_nextId s < 4294967295 \<Longrightarrow> takeRequestId s = (ec_nextId s, s\<lparr>ec_nextId := ec_nextId s + 1\<rparr>)"
  by (simp add: takeRequestId_def)

lemma map_of_wait: "map_of (map (\<lambda>c. if fst c = i then (i, w) else c) cs) j
    = (if j = i \<and> map_of cs i \<noteq> None then Some w else map_of cs j)"
  by (induction cs) auto

lemma map_of_settled: "map_of (filter (\<lambda>c. fst c \<notin> A) cs) j = (if j \<in> A then None else map_of cs j)"
  by (induction cs) auto

lemma keys_wait: "map fst (map (\<lambda>c. if fst c = i then (i, w) else c) cs) = map fst cs"
  by (induction cs) auto

lemma map_of_dom: "i \<in> fst ` set cs \<longleftrightarrow> map_of cs i \<noteq> None"
  by (metis map_of_eq_None_iff)

lemma hd_filter: "xs \<noteq> [] \<Longrightarrow> P (hd xs) \<Longrightarrow> filter P xs \<noteq> [] \<and> hd (filter P xs) = hd xs"
  by (cases xs) auto

subsection \<open>The books\<close>

lemma ledger_ok_settle:
  assumes "ledger_ok cs rs m" "distinct (map fst ds)" "fst ` set ds \<subseteq> fst ` set cs"
  shows "ledger_ok (filter (\<lambda>c. fst c \<notin> fst ` set ds) cs) (ds @ rs) m"
proof -
  have "distinct (map fst (filter (\<lambda>c. fst c \<notin> fst ` set ds) cs))"
    using assms(1) by (simp add: ledger_ok_def distinct_map_filter)
  moreover have keys: "fst ` set (filter (\<lambda>c. fst c \<notin> fst ` set ds) cs) = fst ` set cs - fst ` set ds" by auto
  moreover have C: "fst ` set cs \<inter> fst ` set rs = {}" "fst ` set cs \<union> fst ` set rs = {..<m}"
    using assms(1) by (simp_all add: ledger_ok_def)
  have "D \<inter> R = {} \<and> C - D \<union> (D \<union> R) = M \<and> (C - D) \<inter> (D \<union> R) = {}"
    if "C \<inter> R = {}" "C \<union> R = M" "D \<subseteq> C" for C D R M :: "nat set"
    using that by blast
  note this [OF C assms(3)]
  ultimately show ?thesis using assms(1,2)
    unfolding ledger_ok_def map_append distinct_append set_map set_append image_Un by simp
qed

lemma tail_ok_settle:
  assumes "tail_ok cs tail"
  shows "tail_ok (filter (\<lambda>c. fst c \<notin> A) cs) (filter (\<lambda>i. i \<notin> A) tail)"
proof -
  have "filter (\<lambda>i. i \<notin> A) tail \<noteq> [] \<and> hd (filter (\<lambda>i. i \<notin> A) tail) = i"
    if "i \<notin> A" "map_of cs i = Some w" "exclusive w" for i w
    using assms that hd_filter [of tail "\<lambda>i. i \<notin> A"] unfolding tail_ok_def by blast
  with assms show ?thesis unfolding tail_ok_def map_of_settled by simp
qed

lemma pending_ok_settle:
  assumes "pending_ok cs pending n" "A \<inter> snd ` set pending = {}"
  shows "pending_ok (filter (\<lambda>c. fst c \<notin> A) cs) pending n"
  using assms unfolding pending_ok_def map_of_settled by (auto split: if_splits)

lemma pending_ok_clear:
  assumes "pending_ok cs pending n" "snd ` set pending \<subseteq> A"
  shows "pending_ok (filter (\<lambda>c. fst c \<notin> A) cs) [] n"
  using assms unfolding pending_ok_def map_of_settled by (auto split: if_splits) (metis image_eqI snd_conv subsetD)

lemma pending_delete:
  assumes "pending_ok cs pending n" "map_of pending q = Some i"
  shows "snd ` set (AList.delete q pending) = snd ` set pending - {i}"
    "distinct (map fst (AList.delete q pending)) \<and> distinct (map snd (AList.delete q pending))
      \<and> (\<forall>x \<in> set (AList.delete q pending). fst x < n)"
proof -
  have d: "distinct (map fst pending)" "distinct (map snd pending)" using assms(1) by (simp_all add: pending_ok_def)
  have q: "(q, i) \<in> set pending" using assms(2) by (rule map_of_SomeD)
  have "x = (q, i)" if "x \<in> set pending" "snd x = i \<or> fst x = q" for x
    using that q d by (auto simp: distinct_map inj_on_def)
  with q show "snd ` set (AList.delete q pending) = snd ` set pending - {i}"
    by (auto simp: AList.delete_eq image_iff)
  show "distinct (map fst (AList.delete q pending)) \<and> distinct (map snd (AList.delete q pending))
      \<and> (\<forall>x \<in> set (AList.delete q pending). fst x < n)"
    using d assms(1) by (auto simp: AList.delete_eq pending_ok_def distinct_map_filter)
qed

lemma pending_ok_delete:
  assumes "pending_ok cs pending n" "map_of pending q = Some i"
  shows "pending_ok (filter (\<lambda>c. fst c \<notin> {i}) cs) (AList.delete q pending) n"
    and "\<forall>k. w \<noteq> AwaitWorker k \<Longrightarrow> pending_ok (map (\<lambda>c. if fst c = i then (i, w) else c) cs) (AList.delete q pending) n"
proof -
  have "i \<in> snd ` set pending" using map_of_SomeD [OF assms(2)] by force
  with assms(1) have "map_of cs i \<noteq> None" unfolding pending_ok_def by fastforce
  then show "pending_ok (filter (\<lambda>c. fst c \<notin> {i}) cs) (AList.delete q pending) n"
    "\<forall>k. w \<noteq> AwaitWorker k \<Longrightarrow> pending_ok (map (\<lambda>c. if fst c = i then (i, w) else c) cs) (AList.delete q pending) n"
    using assms(1) pending_delete [OF assms] unfolding pending_ok_def map_of_settled map_of_wait by auto
qed

lemma pending_ok_wait:
  assumes "pending_ok cs pending n" "\<forall>k. w \<noteq> AwaitWorker k" "\<forall>k. map_of cs i \<noteq> Some (AwaitWorker k)"
  shows "pending_ok (map (\<lambda>c. if fst c = i then (i, w) else c) cs) pending n"
  using assms unfolding pending_ok_def map_of_wait by auto

lemma pending_ok_send:
  assumes "pending_ok cs pending n" "map_of cs i \<noteq> None" "\<forall>k. map_of cs i \<noteq> Some (AwaitWorker k)"
  shows "pending_ok (map (\<lambda>c. if fst c = i then (i, AwaitWorker k) else c) cs) (AList.update n i pending) (n + 1)"
proof -
  have "n \<notin> fst ` set pending" using assms(1) by (auto simp: pending_ok_def)
  then have "AList.update n i pending = pending @ [(n, i)]" by (induction pending) auto
  then show ?thesis using assms unfolding pending_ok_def map_of_wait by auto
qed

lemma queued_ok_settle:
  assumes "queued_ok cs queued"
  shows "queued_ok (filter (\<lambda>c. fst c \<notin> A) cs)
    (case queued of Some (i, inp) \<Rightarrow> if i \<in> A then None else queued | None \<Rightarrow> None)"
  using assms unfolding queued_ok_def map_of_settled by (auto split: option.splits if_splits)

lemma queued_ok_wait:
  assumes "queued_ok cs queued" "w \<noteq> Coalesced" "map_of cs i \<noteq> Some Coalesced"
  shows "queued_ok (map (\<lambda>c. if fst c = i then (i, w) else c) cs) queued"
  using assms unfolding queued_ok_def map_of_wait by auto

lemma tail_ok_wait:
  assumes "tail_ok cs tail" "(\<exists>m inp. w = InTail m inp) \<longrightarrow> i \<in> set tail" "tail_wait w \<or> i \<notin> set tail"
    "exclusive w \<longrightarrow> tail \<noteq> [] \<and> hd tail = i"
  shows "tail_ok (map (\<lambda>c. if fst c = i then (i, w) else c) cs) tail"
  using assms unfolding tail_ok_def map_of_wait by (auto split: if_splits)

lemma ledger_ok_wait: "ledger_ok cs rs m \<Longrightarrow> ledger_ok (map (\<lambda>c. if fst c = i then (i, w) else c) cs) rs m"
  using keys_wait [of i w cs] unfolding ledger_ok_def by (metis set_map)

lemma ledger_ok_begin: "ledger_ok cs rs m \<Longrightarrow> ledger_ok ((m, w) # cs) rs (Suc m)"
  unfolding ledger_ok_def by (auto simp: lessThan_Suc)

lemma ledger_ok_fresh: "ledger_ok cs rs m \<Longrightarrow> map_of cs m = None"
  unfolding ledger_ok_def using map_of_dom [of m cs] by auto

lemma ledger_ok_immediate: "ledger_ok cs rs m \<Longrightarrow> ledger_ok cs ((m, r) # rs) (Suc m)"
  unfolding ledger_ok_def by (auto simp: lessThan_Suc)

subsection \<open>The operations keep the books\<close>

fun idle_wait :: "wait_point \<Rightarrow> bool" where
  "idle_wait (AwaitWorker _) = False"
| "idle_wait Coalesced = False"
| "idle_wait _ = True"

lemma idle_wait_iff: "idle_wait w \<longleftrightarrow> (\<forall>k. w \<noteq> AwaitWorker k) \<and> w \<noteq> Coalesced"
  by (cases w) auto

lemma pending_waits: "books_ok s \<Longrightarrow> i \<in> snd ` set (ec_pending s) \<longleftrightarrow> (\<exists>k. map_of (ec_calls s) i = Some (AwaitWorker k))"
  unfolding books_ok_def pending_ok_def by blast

lemma queued_waits: "books_ok s \<Longrightarrow> map_of (ec_calls s) i = Some Coalesced \<longleftrightarrow> (\<exists>inp. ec_queued s = Some (i, inp))"
  unfolding books_ok_def queued_ok_def by blast

lemma queued_kept:
  assumes "books_ok s" "\<And>i. i \<in> A \<Longrightarrow> map_of (ec_calls s) i \<noteq> Some Coalesced"
  shows "queued_ok (filter (\<lambda>c. fst c \<notin> A) (ec_calls s)) (ec_queued s)"
proof -
  have "(case ec_queued s of Some (i, inp) \<Rightarrow> if i \<in> A then None else ec_queued s | None \<Rightarrow> None) = ec_queued s"
  proof (cases "ec_queued s")
    case (Some q)
    then have "map_of (ec_calls s) (fst q) = Some Coalesced" using queued_waits [OF assms(1), of "fst q"] by (cases q) simp
    with assms(2) Some show ?thesis by (cases q) auto
  qed simp
  moreover have "queued_ok (ec_calls s) (ec_queued s)" using assms(1) by (simp add: books_ok_def)
  ultimately show ?thesis using queued_ok_settle by metis
qed

lemma books_settle:
  assumes "books_ok s" "distinct (map fst ds)"
    "\<And>i r. (i, r) \<in> set ds \<Longrightarrow> \<exists>w. map_of (ec_calls s) i = Some w \<and> idle_wait w"
  shows "books_ok (settle_calls ds s)"
proof -
  have idle: "\<exists>w. map_of (ec_calls s) i = Some w \<and> idle_wait w" if "i \<in> fst ` set ds" for i using assms(3) that by auto
  have sub: "fst ` set ds \<subseteq> fst ` set (ec_calls s)" using idle map_of_dom by (metis option.distinct(1) subsetI)
  have "i \<notin> snd ` set (ec_pending s)" if "i \<in> fst ` set ds" for i
    using idle [OF that] pending_waits [OF assms(1), of i] by (auto simp: idle_wait_iff)
  then have "fst ` set ds \<inter> snd ` set (ec_pending s) = {}" by blast
  moreover have "queued_ok (filter (\<lambda>c. fst c \<notin> fst ` set ds) (ec_calls s)) (ec_queued s)"
  proof (rule queued_kept [OF assms(1)])
    show "map_of (ec_calls s) i \<noteq> Some Coalesced" if "i \<in> fst ` set ds" for i using idle [OF that] by auto
  qed
  ultimately show ?thesis
    using assms(1,2) sub by (simp add: books_ok_def settle_calls_def ledger_ok_settle tail_ok_settle pending_ok_settle)
qed

lemma books_settle_one:
  "books_ok s \<Longrightarrow> map_of (ec_calls s) i = Some w \<Longrightarrow> idle_wait w \<Longrightarrow> books_ok (settle_calls [(i, r)] s)"
  by (rule books_settle) auto

lemma books_wait:
  assumes "books_ok s" "map_of (ec_calls s) i = Some w" "idle_wait w" "idle_wait w'" "(\<exists>m inp. w' = InTail m inp) \<longrightarrow> i \<in> set (ec_tail s)"
    "tail_wait w' \<or> i \<notin> set (ec_tail s)" "exclusive w' \<longrightarrow> ec_tail s \<noteq> [] \<and> hd (ec_tail s) = i"
  shows "books_ok (wait_at i w' s)"
proof -
  have ok: "ledger_ok (ec_calls s) (ec_results s) (ec_nextCall s)" "tail_ok (ec_calls s) (ec_tail s)"
    "pending_ok (ec_calls s) (ec_pending s) (ec_nextId s)" "queued_ok (ec_calls s) (ec_queued s)"
    "ec_pending s \<noteq> [] \<longrightarrow> ec_worker s" using assms(1) by (simp_all add: books_ok_def)
  have w: "\<forall>k. map_of (ec_calls s) i \<noteq> Some (AwaitWorker k)" "map_of (ec_calls s) i \<noteq> Some Coalesced"
    "\<forall>k. w' \<noteq> AwaitWorker k" "w' \<noteq> Coalesced" using assms(2-4) by (auto simp: idle_wait_iff)
  show ?thesis
    using ledger_ok_wait [OF ok(1), of i w'] tail_ok_wait [OF ok(2) assms(5-7)] pending_ok_wait [OF ok(3) w(3,1)]
      queued_ok_wait [OF ok(4) w(4,2)] ok(5)
    by (simp add: books_ok_def wait_at_def)
qed

lemma map_of_fresh: "books_ok s \<Longrightarrow> map_of (ec_calls s) (ec_nextCall s) = None"
  by (auto simp: books_ok_def dest: ledger_ok_fresh)

lemma fresh_not_in_tail: "books_ok s \<Longrightarrow> ec_nextCall s \<notin> set (ec_tail s)"
  using map_of_fresh [of s] by (fastforce simp: books_ok_def tail_ok_def)

lemma books_begin:
  assumes "books_ok s" "idle_wait w" "\<forall>m inp. w \<noteq> InTail m inp" "\<not> exclusive w"
  shows "books_ok (begin_call w s)"
proof -
  have m: "map_of (ec_calls s) (ec_nextCall s) = None" using assms(1) by (rule map_of_fresh)
  have "tail_ok ((ec_nextCall s, w) # ec_calls s) (ec_tail s)"
    using assms m fresh_not_in_tail [OF assms(1)] unfolding books_ok_def tail_ok_def by (auto split: if_splits)
  moreover have "ec_nextCall s \<notin> snd ` set (ec_pending s)" "\<nexists>inp. ec_queued s = Some (ec_nextCall s, inp)"
    using pending_waits [OF assms(1), of "ec_nextCall s"] queued_waits [OF assms(1), of "ec_nextCall s"] m by simp_all
  then have "pending_ok ((ec_nextCall s, w) # ec_calls s) (ec_pending s) (ec_nextId s)"
    "queued_ok ((ec_nextCall s, w) # ec_calls s) (ec_queued s)"
    using assms(1,2) unfolding books_ok_def pending_ok_def queued_ok_def idle_wait_iff by (auto split: if_splits)
  ultimately show ?thesis using assms(1) by (simp add: books_ok_def begin_call_def ledger_ok_begin)
qed

lemma books_immediate: "books_ok s \<Longrightarrow> books_ok (immediate r s)"
  by (simp add: books_ok_def immediate_def ledger_ok_immediate)

lemma books_terminate: 
  assumes "books_ok s"
  shows "books_ok (terminateWorker e s)"
proof -
  let ?ds = "map (\<lambda>(_, i). (i, Threw e)) (ec_pending s)"
  have ids: "map fst ?ds = map snd (ec_pending s)" by (simp add: case_prod_beta comp_def)
  then have set: "fst ` set ?ds = snd ` set (ec_pending s)" by (metis set_map)
  have waiting: "\<exists>k. map_of (ec_calls s) i = Some (AwaitWorker k)" if "i \<in> snd ` set (ec_pending s)" for i
    using assms that by (simp add: books_ok_def pending_ok_def)
  then have sub: "fst ` set ?ds \<subseteq> fst ` set (ec_calls s)" unfolding set using map_of_dom by fastforce
  have "queued_ok (filter (\<lambda>c. fst c \<notin> fst ` set ?ds) (ec_calls s)) (ec_queued s)"
    unfolding set by (rule queued_kept [OF assms]) (use waiting in fastforce)
  moreover have "distinct (map fst ?ds)" unfolding ids using assms by (simp add: books_ok_def pending_ok_def)
  ultimately have "ledger_ok (filter (\<lambda>c. fst c \<notin> fst ` set ?ds) (ec_calls s)) (?ds @ ec_results s) (ec_nextCall s)"
    "queued_ok (filter (\<lambda>c. fst c \<notin> fst ` set ?ds) (ec_calls s)) (ec_queued s)"
    using assms sub by (simp_all only: books_ok_def ledger_ok_settle)
  moreover have "pending_ok (filter (\<lambda>c. fst c \<notin> fst ` set ?ds) (ec_calls s)) [] (ec_nextId s)"
    using assms pending_ok_clear [of "ec_calls s" "ec_pending s" "ec_nextId s" "snd ` set (ec_pending s)"]
    unfolding set by (simp add: books_ok_def)
  ultimately show ?thesis
    using assms by (simp add: books_ok_def terminateWorker_def init_rejected_def settle_calls_def tail_ok_settle del: list.set_map)
qed

lemma mem_map_filter: "(i, r) \<in> set (List.map_filter (waits_for_recovery s err) cs) \<longleftrightarrow>
    (\<exists>k. (i, AwaitRecovery k) \<in> set cs \<and> r = recovered s err k)"
proof -
  have "waits_for_recovery s err c = Some (i, r) \<longleftrightarrow> (\<exists>k. c = (i, AwaitRecovery k) \<and> r = recovered s err k)" for c
    by (cases c; cases "snd c") auto
  then show ?thesis by (induction cs) (auto simp: List.map_filter_simps split: option.splits)
qed

lemma end_after_frame:
  "\<exists>a. end_after w s = s\<lparr>ec_active := a\<rparr>"
  by (cases "(w, s)" rule: end_after.cases) (auto simp: end_mutation_def intro: exI [of _ "ec_active s"])

lemma fold_end_after_frame: "\<exists>a. fold (\<lambda>c. end_after (snd c)) cs s = s\<lparr>ec_active := a\<rparr>"
proof (induction cs arbitrary: s)
  case (Cons c cs)
  obtain a where "end_after (snd c) s = s\<lparr>ec_active := a\<rparr>" using end_after_frame by blast
  with Cons.IH [of "s\<lparr>ec_active := a\<rparr>"] show ?case by auto
next
  case Nil
  show ?case by (rule exI [of _ "ec_active s"]) simp
qed

lemma books_frame:
  "books_ok (s\<lparr>ec_active := a\<rparr>) = books_ok s" "books_ok (s\<lparr>ec_recovery := r\<rparr>) = books_ok s"
  "books_ok (s\<lparr>ec_workerRevision := v\<rparr>) = books_ok s" "books_ok (s\<lparr>ec_state := es\<rparr>) = books_ok s"
  "books_ok (setState ph v' reason err s) = books_ok s"
  by (simp_all add: books_ok_def setState_def)

lemma map_filter_distinct:
  "distinct (map fst cs) \<Longrightarrow> distinct (map fst (List.map_filter (waits_for_recovery s err) cs))"
proof (induction cs)
  case (Cons c cs)
  then show ?case
    by (cases "(s, err, c)" rule: waits_for_recovery.cases)
      (force simp: List.map_filter_simps mem_map_filter image_iff)+
qed (simp add: List.map_filter_simps)

text \<open>The end of a recovery: no call waits for it any more.\<close>

lemma recovery_ends:
  assumes "books_ok s"
  shows "books_ok (finish_recovery err s)" "ec_recovery (finish_recovery err s) = None"
    "map_of (ec_calls (finish_recovery err s)) i \<noteq> Some (AwaitRecovery k)"
    "ec_state (finish_recovery err s) = ec_state s" "ec_worker (finish_recovery err s) = ec_worker s"
    "ec_nextId (finish_recovery err s) = ec_nextId s"
proof -
  obtain a where f: "fold (\<lambda>c. end_after (snd c)) (ec_calls s) (s\<lparr>ec_recovery := None\<rparr>) = s\<lparr>ec_recovery := None, ec_active := a\<rparr>"
    using fold_end_after_frame by blast
  let ?ds = "List.map_filter (waits_for_recovery s err) (ec_calls s)"
  have d: "distinct (map fst (ec_calls s))" using assms by (simp add: books_ok_def ledger_ok_def)
  show "books_ok (finish_recovery err s)"
    unfolding finish_recovery_def f
    by (rule books_settle) (use assms d in \<open>auto simp: books_frame map_filter_distinct mem_map_filter\<close>)
  show "map_of (ec_calls (finish_recovery err s)) i \<noteq> Some (AwaitRecovery k)"
  proof
    assume k: "map_of (ec_calls (finish_recovery err s)) i = Some (AwaitRecovery k)"
    then have "map_of (ec_calls s) i = Some (AwaitRecovery k)" "i \<notin> fst ` set ?ds"
      unfolding finish_recovery_def f by (simp_all add: settle_calls_def map_of_settled split: if_splits)
    with map_of_SomeD [OF this(1)] mem_map_filter [of i "recovered s err k" s err "ec_calls s"] show False by force
  qed
qed (use fold_end_after_frame [of "ec_calls s" "s\<lparr>ec_recovery := None\<rparr>"] in
  \<open>auto simp: finish_recovery_def settle_calls_def\<close>)

subsection \<open>The work of an operation\<close>

lemma calls_work_simps [simp]:
  "calls_work m [] = 0" "calls_work m (c # cs) = wait_work m (snd c) + calls_work m cs"
  by (simp_all add: calls_work_def)

lemma calls_work_settle: "calls_work m (filter P cs) \<le> calls_work m cs"
  by (induction cs) auto

lemma calls_work_settled:
  "map_of cs i = Some w \<Longrightarrow> i \<in> A \<Longrightarrow> calls_work m (filter (\<lambda>c. fst c \<notin> A) cs) + wait_work m w \<le> calls_work m cs"
proof (induction cs)
  case (Cons c cs)
  then show ?case using calls_work_settle [of m "\<lambda>c. fst c \<notin> A" cs] by (auto split: if_splits)
qed simp

lemma calls_work_wait:
  "distinct (map fst cs) \<Longrightarrow> map_of cs i = Some w
     \<Longrightarrow> calls_work m (map (\<lambda>c. if fst c = i then (i, w') else c) cs) + wait_work m w = calls_work m cs + wait_work m w'"
proof (induction cs)
  case (Cons c cs)
  then show ?case
  proof (cases "fst c = i")
    case True
    have "map (\<lambda>c. if fst c = i then (i, w') else c) cs = cs" using Cons.prems(1) True by (intro map_idI) (metis distinct.simps(2) image_eqI list.set_map list.simps(9))
    with True Cons.prems show ?thesis by simp
  qed auto
qed simp

lemma books_distinct: "books_ok s \<Longrightarrow> distinct (map fst (ec_calls s))"
  by (simp add: books_ok_def ledger_ok_def)

lemma settle_sel [simp]:
  "ec_state (settle_calls ds s) = ec_state s" "ec_worker (settle_calls ds s) = ec_worker s"
  "ec_recovery (settle_calls ds s) = ec_recovery s" "ec_nextId (settle_calls ds s) = ec_nextId s"
  "ec_workerRevision (settle_calls ds s) = ec_workerRevision s" "ec_active (settle_calls ds s) = ec_active s"
  "ec_pending (settle_calls ds s) = ec_pending s" "ec_queued (settle_calls ds s) = ec_queued s"
  by (simp_all add: settle_calls_def)

lemma wait_sel [simp]:
  "ec_state (wait_at i w s) = ec_state s" "ec_worker (wait_at i w s) = ec_worker s"
  "ec_recovery (wait_at i w s) = ec_recovery s" "ec_nextId (wait_at i w s) = ec_nextId s"
  "ec_pending (wait_at i w s) = ec_pending s" "ec_queued (wait_at i w s) = ec_queued s" "ec_tail (wait_at i w s) = ec_tail s"
  "ec_nextCall (wait_at i w s) = ec_nextCall s" "ec_workerRevision (wait_at i w s) = ec_workerRevision s"
  by (simp_all add: wait_at_def)

lemma setState_sel [simp]:
  "ec_state (setState ph r reason err s) = \<lparr>es_phase = ph, es_revision = r, es_reason = reason, es_error = err\<rparr>"
  "ec_worker (setState ph r reason err s) = ec_worker s" "ec_recovery (setState ph r reason err s) = ec_recovery s"
  "ec_nextId (setState ph r reason err s) = ec_nextId s" "ec_calls (setState ph r reason err s) = ec_calls s"
  "ec_tail (setState ph r reason err s) = ec_tail s" "ec_pending (setState ph r reason err s) = ec_pending s"
  "ec_workerRevision (setState ph r reason err s) = ec_workerRevision s" "ec_active (setState ph r reason err s) = ec_active s"
  "ec_queued (setState ph r reason err s) = ec_queued s" "ec_nextCall (setState ph r reason err s) = ec_nextCall s"
  by (simp_all add: setState_def)

text \<open>What an operation that takes the client from one state to another has done: the invariant holds, at
  most \<open>n\<close> request ids are gone, and at most \<open>m\<close> work is left.\<close>

definition leaves :: "client_options \<Rightarrow> client \<Rightarrow> nat \<Rightarrow> nat \<Rightarrow> bool" where
  "leaves cf t n m \<longleftrightarrow> client_inv cf t \<and> ec_nextId t \<le> n \<and> client_work cf t \<le> m"

lemma leaves_mono: "leaves cf t n m \<Longrightarrow> n \<le> n' \<Longrightarrow> m \<le> m' \<Longrightarrow> leaves cf t n' m'"
  by (auto simp: leaves_def)

lemma attempts_cong: "ec_recovery t = ec_recovery s \<Longrightarrow> ec_worker t = ec_worker s \<Longrightarrow> attempts_ok cf t = attempts_ok cf s"
  by (simp add: attempts_ok_def split: option.splits)

lemma nobody_forgotten_fewer:
  "nobody_forgotten s \<Longrightarrow> ec_recovery t = ec_recovery s
     \<Longrightarrow> (\<And>j k. map_of (ec_calls t) j = Some (AwaitRecovery k) \<Longrightarrow> map_of (ec_calls s) j = Some (AwaitRecovery k))
     \<Longrightarrow> nobody_forgotten t"
  unfolding nobody_forgotten_def by metis

lemma settle_leaves:
  assumes "client_inv cf s" "map_of (ec_calls s) i = Some w" "idle_wait w"
  shows "leaves cf (settle_calls [(i, r)] s) (ec_nextId s) (client_work cf s - wait_work (recovery_cost cf) w)"
proof -
  have "map_of (ec_calls s) j = Some (AwaitRecovery k)"
    if "map_of (ec_calls (settle_calls [(i, r)] s)) j = Some (AwaitRecovery k)" for j k
    using that map_of_settled [of "{i}" "ec_calls s" j] by (simp add: settle_calls_def split: if_splits)
  then have "nobody_forgotten (settle_calls [(i, r)] s)"
    using assms(1) by (auto simp: client_inv_def elim: nobody_forgotten_fewer)
  moreover have "client_work cf (settle_calls [(i, r)] s) + wait_work (recovery_cost cf) w \<le> client_work cf s"
    using calls_work_settled [OF assms(2), of "{i}" "recovery_cost cf"] by (simp add: client_work_def settle_calls_def)
  moreover have "attempts_ok cf (settle_calls [(i, r)] s)"
    using assms(1) attempts_cong [of "settle_calls [(i, r)] s" s] by (simp add: client_inv_def)
  ultimately show ?thesis
    using assms books_settle_one [of s i w r] by (simp add: leaves_def client_inv_def)
qed

lemma finish_leaves:
  assumes "books_ok s" "phase_of s = EDisposed \<longrightarrow> \<not> ec_worker s"
  shows "leaves cf (finish_recovery err s) (ec_nextId s) (calls_work (recovery_cost cf) (ec_calls s))"
proof -
  note f = recovery_ends [OF assms(1), of err]
  have "calls_work (recovery_cost cf) (ec_calls (finish_recovery err s)) \<le> calls_work (recovery_cost cf) (ec_calls s)"
    using fold_end_after_frame [of "ec_calls s" "s\<lparr>ec_recovery := None\<rparr>"]
    by (auto simp: finish_recovery_def settle_calls_def calls_work_settle)
  then show ?thesis
    using f assms(2) by (simp add: leaves_def client_inv_def attempts_ok_def nobody_forgotten_def client_work_def recovery_work_def)
qed

lemma next_attempt_leaves:
  assumes "books_ok s" "phase_of s = EDisposed \<longrightarrow> \<not> ec_worker s"
  shows "leaves cf (next_attempt cf reason n e s) (ec_nextId s)
    (calls_work (recovery_cost cf) (ec_calls s) + 3 * (co_maxStartupAttempts cf - n))"
proof -
  have fetching: "leaves cf (s\<lparr>ec_recovery := Some \<lparr>rc_reason = reason, rc_attempt = n, rc_stage = Fetching\<rparr>\<rparr>) (ec_nextId s)
      (calls_work (recovery_cost cf) (ec_calls s) + 3 * (co_maxStartupAttempts cf - n))" if "n < co_maxStartupAttempts cf"
    using assms that
    by (simp add: leaves_def client_inv_def books_frame attempts_ok_def nobody_forgotten_def client_work_def recovery_work_def)
  have "leaves cf (finish_recovery err t) (ec_nextId s)
      (calls_work (recovery_cost cf) (ec_calls s) + 3 * (co_maxStartupAttempts cf - n))"
    if "t = s \<or> t = setState EFailed r q v s" for err t r q v
    using that finish_leaves [of t cf err] assms by (auto simp: books_frame intro: leaves_mono)
  from this [OF disjI1, OF refl] this [OF disjI2, OF refl] fetching show ?thesis
    unfolding next_attempt_def by (simp only: split: if_split) blast
qed

lemma recover_leaves:
  assumes "books_ok s" "attempts_ok cf s" "phase_of s = EDisposed \<longrightarrow> \<not> ec_worker s" "ph \<noteq> EDisposed"
  shows "leaves cf (recover cf ph reason s) (ec_nextId s) (client_work cf s + recovery_cost cf)"
proof (cases "ec_recovery s")
  case None
  then show ?thesis
    using next_attempt_leaves [of "setState ph (revision_of s) (Some reason) None s" cf reason 0] assms(1,4)
    by (simp add: recover_def books_frame client_work_def recovery_work_def recovery_cost_def)
next
  case (Some r)
  then show ?thesis using assms by (simp add: recover_def leaves_def client_inv_def nobody_forgotten_def)
qed

lemma rebuild_leaves:
  assumes "client_inv cf s" "map_of (ec_calls s) i = Some w" "idle_wait w" 
  shows "leaves cf (rebuild_in cf i k reason s) (ec_nextId s)
    (client_work cf s + recovery_cost cf + 1 - wait_work (recovery_cost cf) w)"
proof (cases "phase_of s = EDisposed")
  case True
  obtain a where a: "end_after (AwaitRecovery k) s = s\<lparr>ec_active := a\<rparr>" using end_after_frame by blast
  have "client_inv cf (s\<lparr>ec_active := a\<rparr>)"
    using assms(1) by (auto simp: client_inv_def books_frame attempts_ok_def nobody_forgotten_def split: option.splits)
  from settle_leaves [OF this, of i w] assms(2,3) True a show ?thesis
    by (simp add: rebuild_in_def client_work_def) (rule leaves_mono, blast, simp, arith)
next
  case False
  let ?t = "wait_at i (AwaitRecovery k) s"
  have "books_ok ?t" using assms by (intro books_wait) (auto simp: client_inv_def)
  moreover have work: "client_work cf ?t + wait_work (recovery_cost cf) w = client_work cf s + 1"
    using calls_work_wait [OF books_distinct assms(2), of "recovery_cost cf" "AwaitRecovery k"] assms(1)
    by (simp add: client_work_def wait_at_def client_inv_def)
  moreover have "attempts_ok cf ?t" "phase_of ?t = EDisposed \<longrightarrow> \<not> ec_worker ?t"
    using assms(1) attempts_cong [of ?t s cf] by (simp_all add: client_inv_def)
  ultimately have "leaves cf (recover cf ERebuilding reason ?t) (ec_nextId s) (client_work cf ?t + recovery_cost cf)"
    using recover_leaves [of ?t cf ERebuilding reason] by simp
  with False work show ?thesis by (simp add: rebuild_in_def) (rule leaves_mono, assumption, simp, arith)
qed

lemma init_rejected_facts:
  "attempts_ok cf s \<Longrightarrow> attempts_ok cf (init_rejected e s)" "ec_recovery (init_rejected e s) = None \<longleftrightarrow> ec_recovery s = None"
  "recovery_work cf (ec_recovery (init_rejected e s)) \<le> recovery_work cf (ec_recovery s)"
  "ec_recovery s = Some r \<Longrightarrow> rc_stage r = Initializing v
     \<Longrightarrow> recovery_work cf (ec_recovery (init_rejected e s)) < recovery_work cf (ec_recovery s)"
  "ec_recovery s = Some r \<Longrightarrow> \<exists>r'. ec_recovery (init_rejected e s) = Some r' \<and> rc_attempt r' = rc_attempt r
     \<and> (\<forall>v. rc_stage r' \<noteq> Initializing v)"
  by (auto simp: init_rejected_def attempts_ok_def recovery_work_def split: option.splits recovery_stage.splits)

lemma init_rejected_sel [simp]:
  "ec_state (init_rejected e s) = ec_state s" "ec_worker (init_rejected e s) = ec_worker s"
  "ec_calls (init_rejected e s) = ec_calls s" "ec_nextId (init_rejected e s) = ec_nextId s"
  "ec_pending (init_rejected e s) = ec_pending s" "ec_tail (init_rejected e s) = ec_tail s"
  by (simp_all add: init_rejected_def)

lemma terminate_sel [simp]:
  "ec_state (terminateWorker e s) = ec_state s" "\<not> ec_worker (terminateWorker e s)"
  "ec_nextId (terminateWorker e s) = ec_nextId s" "ec_pending (terminateWorker e s) = []"
  "ec_recovery (terminateWorker e s) = ec_recovery (init_rejected e s)" "ec_queued (terminateWorker e s) = ec_queued s"
  by (simp_all add: terminateWorker_def, simp_all add: init_rejected_def)

lemma terminate_calls:
  "ec_calls (terminateWorker e s) = filter (\<lambda>c. fst c \<notin> snd ` set (ec_pending s)) (ec_calls s)"
proof -
  have "fst ` (\<lambda>(_, i). (i, Threw e)) ` set (ec_pending s) = snd ` set (ec_pending s)" by (force simp: image_iff)
  then show ?thesis by (simp add: terminateWorker_def settle_calls_def)
qed

lemma terminate_leaves:
  assumes "client_inv cf s"
  shows "leaves cf (terminateWorker e s) (ec_nextId s) (client_work cf s)"
    and "ec_pending s \<noteq> [] \<Longrightarrow> client_work cf (terminateWorker e s) + recovery_cost cf < client_work cf s"
proof -
  let ?m = "recovery_cost cf"
  have "attempts_ok cf (terminateWorker e s)"
    using assms init_rejected_facts(5) [of s _ e] init_rejected_facts(2) [of e s]
    by (fastforce simp: client_inv_def attempts_ok_def split: option.splits)
  moreover have "nobody_forgotten (terminateWorker e s)"
    unfolding nobody_forgotten_def terminate_calls map_of_settled
    using assms init_rejected_facts(2) [of e s] by (auto simp: client_inv_def nobody_forgotten_def split: if_splits)
  moreover have "client_work cf (terminateWorker e s) \<le> client_work cf s"
    using calls_work_settle [of ?m] init_rejected_facts(3) [of cf e s] by (simp add: client_work_def terminate_calls add_mono)
  ultimately show "leaves cf (terminateWorker e s) (ec_nextId s) (client_work cf s)"
    using assms books_terminate by (simp add: leaves_def client_inv_def)
  assume "ec_pending s \<noteq> []"
  then obtain i where i: "i \<in> snd ` set (ec_pending s)" by (cases "ec_pending s") auto
  then obtain k where "map_of (ec_calls s) i = Some (AwaitWorker k)"
    using assms pending_waits [of s i] by (auto simp: client_inv_def)
  from calls_work_settled [OF this i, of ?m] have
    "calls_work ?m (ec_calls (terminateWorker e s)) + ?m < calls_work ?m (ec_calls s)"
    by (cases k) (simp_all add: terminate_calls)
  then show "client_work cf (terminateWorker e s) + ?m < client_work cf s"
    using init_rejected_facts(3) [of cf e s] by (simp add: client_work_def)
qed

lemma inv_frame:
  "client_inv cf (s\<lparr>ec_active := a\<rparr>) = client_inv cf s" "client_inv cf (s\<lparr>ec_workerRevision := v\<rparr>) = client_inv cf s"
  "ph \<noteq> EDisposed \<Longrightarrow> client_inv cf s \<Longrightarrow> client_inv cf (setState ph r reason err s)"
  "client_work cf (s\<lparr>ec_active := a\<rparr>) = client_work cf s" "client_work cf (s\<lparr>ec_workerRevision := v\<rparr>) = client_work cf s"
  "client_work cf (setState ph r reason err s) = client_work cf s"
  by (auto simp: client_inv_def books_frame attempts_ok_def nobody_forgotten_def client_work_def split: option.splits)

text \<open>A call whose wait is over stands aside until the operation says where it goes next.\<close>

definition park :: "nat \<Rightarrow> client \<Rightarrow> client" where
  "park i s = wait_at i (if i \<in> set (ec_tail s) then InTail True (OtherInput []) else AwaitTail None (OtherInput [])) s"

lemma wait_again: "wait_at i w (wait_at i w' s) = wait_at i w s"
  by (auto simp: wait_at_def intro!: client.equality map_cong)

lemma settle_waiting: "settle_calls [(i, r)] (wait_at i w s) = settle_calls [(i, r)] s"
proof -
  have "filter (\<lambda>c. fst c \<noteq> i) (map (\<lambda>c. if fst c = i then (i, w) else c) cs) = filter (\<lambda>c. fst c \<noteq> i) cs" for cs
    by (induction cs) auto
  then show ?thesis by (simp add: settle_calls_def wait_at_def)
qed

lemma wait_frame:
  "wait_at i w (s\<lparr>ec_active := a\<rparr>) = (wait_at i w s)\<lparr>ec_active := a\<rparr>"
  "wait_at i w (s\<lparr>ec_workerRevision := v\<rparr>) = (wait_at i w s)\<lparr>ec_workerRevision := v\<rparr>"
  "wait_at i w (setState ph r reason err s) = setState ph r reason err (wait_at i w s)"
  by (simp_all add: wait_at_def setState_def)

lemma end_after_wait: "end_after v (wait_at i w s) = wait_at i w (end_after v s)"
  by (cases "(v, s)" rule: end_after.cases) (simp_all add: end_mutation_def wait_at_def)

lemma rebuild_waiting: "rebuild_in cf i k reason (wait_at i w s) = rebuild_in cf i k reason s"
  by (simp add: rebuild_in_def wait_again end_after_wait settle_waiting)

lemma park_frame [simp]:
  "ec_state (park i s) = ec_state s" "ec_worker (park i s) = ec_worker s" "ec_nextId (park i s) = ec_nextId s"
  "ec_recovery (park i s) = ec_recovery s" "ec_tail (park i s) = ec_tail s"
  by (simp_all add: park_def)

lemma books_unpend:
  assumes "books_ok s" "map_of (ec_pending s) n = Some i"
  shows "books_ok (park i (s\<lparr>ec_pending := AList.delete n (ec_pending s)\<rparr>))"
proof -
  let ?w = "if i \<in> set (ec_tail s) then InTail True (OtherInput []) else AwaitTail None (OtherInput [])"
  have ok: "ledger_ok (ec_calls s) (ec_results s) (ec_nextCall s)" "tail_ok (ec_calls s) (ec_tail s)"
    "pending_ok (ec_calls s) (ec_pending s) (ec_nextId s)" "queued_ok (ec_calls s) (ec_queued s)"
    "ec_pending s \<noteq> [] \<longrightarrow> ec_worker s" using assms(1) by (simp_all add: books_ok_def)
  have "i \<in> snd ` set (ec_pending s)" using map_of_SomeD [OF assms(2)] by force
  then have "map_of (ec_calls s) i \<noteq> Some Coalesced" using pending_waits [OF assms(1), of i] by auto
  then have "queued_ok (map (\<lambda>c. if fst c = i then (i, ?w) else c) (ec_calls s)) (ec_queued s)"
    by (intro queued_ok_wait [OF ok(4)]) auto
  moreover have "tail_ok (map (\<lambda>c. if fst c = i then (i, ?w) else c) (ec_calls s)) (ec_tail s)"
    by (intro tail_ok_wait [OF ok(2)]) auto
  moreover have "ec_worker s" using assms(2) ok(5) by auto
  ultimately show ?thesis
    using ledger_ok_wait [OF ok(1), of i ?w] pending_ok_delete(2) [OF ok(3) assms(2), of ?w]
    by (simp add: books_ok_def park_def wait_at_def split: if_splits)
qed

lemma unpend_inv:
  assumes "client_inv cf s" "map_of (ec_pending s) n = Some i" "map_of (ec_calls s) i = Some w"
  defines "t \<equiv> park i (s\<lparr>ec_pending := AList.delete n (ec_pending s)\<rparr>)"
  obtains w' where "client_inv cf t" "map_of (ec_calls t) i = Some w'" "idle_wait w'"
    "client_work cf t + wait_work (recovery_cost cf) w = client_work cf s + wait_work (recovery_cost cf) w'"
proof -
  let ?s = "s\<lparr>ec_pending := AList.delete n (ec_pending s)\<rparr>"
  obtain w' where t: "t = wait_at i w' ?s" "idle_wait w'" "\<forall>k. w' \<noteq> AwaitRecovery k" by (auto simp: t_def park_def)
  have books: "books_ok t" using books_unpend [OF _ assms(2)] assms(1) by (simp add: t_def client_inv_def)
  have calls: "ec_calls t = map (\<lambda>c. if fst c = i then (i, w') else c) (ec_calls s)" by (simp add: t(1) wait_at_def)
  have "map_of (ec_calls s) j = Some (AwaitRecovery k)" if "map_of (ec_calls t) j = Some (AwaitRecovery k)" for j k
    using that t(3) unfolding calls map_of_wait by (auto split: if_splits)
  then have "nobody_forgotten t"
    using assms(1) nobody_forgotten_fewer [of s t] by (simp add: client_inv_def t(1))
  moreover have "attempts_ok cf t" using assms(1) attempts_cong [of t s cf] by (simp add: t(1) client_inv_def)
  ultimately have "client_inv cf t" using books assms(1) by (simp add: client_inv_def t(1))
  moreover have "client_work cf t + wait_work (recovery_cost cf) w = client_work cf s + wait_work (recovery_cost cf) w'"
    using calls_work_wait [OF books_distinct assms(3)] assms(1) by (simp add: client_work_def calls client_inv_def) (simp add: t(1))
  ultimately show ?thesis using that [of w'] t(2) assms(3) by (simp add: calls map_of_wait)
qed

text \<open>A request that goes out, under a fresh id, from a call that waits for nothing.\<close>

lemma send_leaves:
  assumes "client_inv cf s" "map_of (ec_calls s) i = Some w" "idle_wait w" "ec_nextId s < 4294967295" "rq_id rq = ec_nextId s"
    "exclusive (AwaitWorker k) \<longrightarrow> ec_tail s \<noteq> [] \<and> hd (ec_tail s) = i"
  shows "leaves cf (dispatchRequest i k rq (s\<lparr>ec_nextId := ec_nextId s + 1\<rparr>)) (ec_nextId s + 1)
    (client_work cf s + wait_work (recovery_cost cf) (AwaitWorker k) - wait_work (recovery_cost cf) w)"
proof -
  let ?s = "s\<lparr>ec_nextId := ec_nextId s + 1\<rparr>"
  have ok: "ledger_ok (ec_calls s) (ec_results s) (ec_nextCall s)" "tail_ok (ec_calls s) (ec_tail s)"
    "pending_ok (ec_calls s) (ec_pending s) (ec_nextId s)" "queued_ok (ec_calls s) (ec_queued s)"
    "ec_pending s \<noteq> [] \<longrightarrow> ec_worker s" using assms(1) by (simp_all add: books_ok_def client_inv_def)
  have inv: "client_inv cf ?s" using assms(1) ok(3)
    by (auto simp: client_inv_def books_ok_def pending_ok_def attempts_ok_def nobody_forgotten_def less_Suc_eq split: option.splits)
  show ?thesis
  proof (cases "ec_worker s")
    case False
    from settle_leaves [OF inv, of i w] assms(2,3) False show ?thesis
      unfolding dispatchRequest_def by (simp add: client_work_def) (rule leaves_mono, blast, simp, arith)
  next
    case True
    let ?cs = "map (\<lambda>c. if fst c = i then (i, AwaitWorker k) else c) (ec_calls s)"
    let ?t = "wait_at i (AwaitWorker k) (?s\<lparr>ec_pending := AList.update (rq_id rq) i (ec_pending ?s)\<rparr>)"
    have w: "\<forall>k. map_of (ec_calls s) i \<noteq> Some (AwaitWorker k)" "map_of (ec_calls s) i \<noteq> Some Coalesced"
      "map_of (ec_calls s) i \<noteq> None" using assms(2,3) by (auto simp: idle_wait_iff)
    have "pending_ok ?cs (AList.update (rq_id rq) i (ec_pending s)) (ec_nextId s + 1)"
      using pending_ok_send [OF ok(3) w(3,1)] assms(5) by simp
    moreover have "tail_ok ?cs (ec_tail s)" using assms(6) by (intro tail_ok_wait [OF ok(2)]) auto
    moreover have "queued_ok ?cs (ec_queued s)" by (rule queued_ok_wait [OF ok(4) _ w(2)]) simp
    ultimately have "books_ok ?t" using ledger_ok_wait [OF ok(1), of i "AwaitWorker k"] True by (simp add: books_ok_def wait_at_def)
    moreover have "nobody_forgotten ?t"
      using assms(1) unfolding client_inv_def
      by (elim conjE nobody_forgotten_fewer) (auto simp: wait_at_def map_of_wait split: if_splits)
    moreover have "attempts_ok cf ?t" using assms(1) attempts_cong [of ?t s cf] by (simp add: client_inv_def)
    moreover have "client_work cf ?t + wait_work (recovery_cost cf) w
        = client_work cf s + wait_work (recovery_cost cf) (AwaitWorker k)"
      using calls_work_wait [OF books_distinct assms(2), of "recovery_cost cf" "AwaitWorker k"] assms(1)
      by (simp add: client_work_def wait_at_def client_inv_def)
    ultimately have "leaves cf ?t (ec_nextId s + 1)
        (client_work cf s + wait_work (recovery_cost cf) (AwaitWorker k) - wait_work (recovery_cost cf) w)"
      using assms(1) by (simp add: leaves_def client_inv_def)
    with True show ?thesis by (simp add: dispatchRequest_def)
  qed
qed

lemma dispatch_leaves:
  assumes "client_inv cf s" "map_of (ec_calls s) i = Some w" "idle_wait w" "ec_nextId s < 4294967295"
    "\<not> exclusive (AwaitWorker k)"
  shows "leaves cf (dispatch i k inp s) (ec_nextId s + 1)
    (client_work cf s + wait_work (recovery_cost cf) (AwaitWorker k) - wait_work (recovery_cost cf) w)"
proof (cases "ec_workerRevision s")
  case None
  then show ?thesis using settle_leaves [OF assms(1-3)]
    by (simp add: dispatch_def) (rule leaves_mono, blast, simp, arith)
next
  case (Some v)
  then show ?thesis using send_leaves [OF assms(1-4), of _ k] assms(4,5) by (simp add: dispatch_def takeRequestId_id)
qed

subsection \<open>Steps\<close>

definition gains :: "client_options \<Rightarrow> client \<Rightarrow> client \<Rightarrow> bool" where
  "gains cf s t \<longleftrightarrow> client_inv cf t \<and> ec_nextId t \<le> ec_nextId s + 1 \<and> client_work cf t < client_work cf s"

lemma gainsI: "leaves cf t n m \<Longrightarrow> n \<le> ec_nextId s + 1 \<Longrightarrow> m < client_work cf s \<Longrightarrow> gains cf s t"
  by (auto simp: leaves_def gains_def)

lemma work_of_call: "map_of (ec_calls s) i = Some w \<Longrightarrow> wait_work (recovery_cost cf) w \<le> client_work cf s"
  using calls_work_settled [of "ec_calls s" i w "{i}" "recovery_cost cf"] by (simp add: client_work_def)

lemma wait_work_pos: "0 < wait_work m w"
  by (cases "(m, w)" rule: wait_work.cases) auto

lemma call_at: "client_inv cf s \<Longrightarrow> (i, w) \<in> set (ec_calls s) \<Longrightarrow> map_of (ec_calls s) i = Some w"
  by (simp add: client_inv_def books_distinct)

lemma settle_gains:
  assumes "client_inv cf s" "map_of (ec_calls s) i = Some w" "idle_wait w"
  shows "gains cf s (settle_calls [(i, r)] s)"
  by (rule gainsI [OF settle_leaves [OF assms]])
    (use work_of_call [OF assms(2), of cf] wait_work_pos [of "recovery_cost cf" w] in linarith)+

lemma rebuild_gains:
  assumes "client_inv cf s" "map_of (ec_calls s) i = Some w" "idle_wait w" "recovery_cost cf + 1 < wait_work (recovery_cost cf) w"
  shows "gains cf s (rebuild_in cf i k reason s)"
  by (rule gainsI [OF rebuild_leaves [OF assms(1-3)]]) (use work_of_call [OF assms(2), of cf] assms(4) in linarith)+

lemma dispatch_gains:
  assumes "client_inv cf s" "map_of (ec_calls s) i = Some w" "idle_wait w" "ec_nextId s < 4294967295"
    "recovery_cost cf + 2 < wait_work (recovery_cost cf) w"
  shows "gains cf s (dispatch i CReturn inp s)"
  by (rule gainsI [OF dispatch_leaves [OF assms(1-4)]]) (use work_of_call [OF assms(2), of cf] assms(5) in simp_all)

lemma start_request_gains:
  assumes "client_inv cf s" "map_of (ec_calls s) i = Some w" "idle_wait w" "ec_nextId s < 4294967295"
    "recovery_cost cf + 2 < wait_work (recovery_cost cf) w"
  shows "gains cf s (start_request i inp s)"
  using settle_gains [OF assms(1-3)] dispatch_gains [OF assms] by (simp add: start_request_def)

lemma start_turn_gains:
  assumes "client_inv cf s" "ec_tail s = i # is" "map_of (ec_calls s) i = Some (InTail mutates inp)" "ec_nextId s < 4294967295"
  shows "gains cf s (start_turn i mutates inp s)"
proof -
  note settle = settle_gains [OF assms(1,3)]
  have send: "gains cf s (dispatchRequest i (CMutate rq) rq (s\<lparr>ec_nextId := ec_nextId s + 1\<rparr>))" if "rq_id rq = ec_nextId s" for rq
    by (rule gainsI [OF send_leaves [OF assms(1,3) _ assms(4) that]])
      (use assms(2) work_of_call [OF assms(3), of cf] in simp_all)
  show ?thesis
    using settle send start_request_gains [OF assms(1,3) _ assms(4)] assms(4)
    by (auto simp: start_turn_def start_mutation_def takeRequestId_id split: option.splits)
qed

lemma dispatch_waiting: "dispatch i k inp (wait_at i w s) = dispatch i k inp s"
proof -
  have w: "takeRequestId (wait_at i w s) = (fst (takeRequestId s), wait_at i w (snd (takeRequestId s)))"
    by (simp add: takeRequestId_def wait_at_def)
  have "wait_at i w' ((wait_at i w s)\<lparr>ec_pending := p\<rparr>) = wait_at i w' (s\<lparr>ec_pending := p\<rparr>)" for w' p s
    by (auto simp: wait_at_def intro!: client.equality)
  then have "dispatchRequest i k rq (wait_at i w s) = dispatchRequest i k rq s" for rq s
    by (simp add: dispatchRequest_def settle_waiting)
  then show ?thesis
    by (cases "takeRequestId s") (simp add: dispatch_def settle_waiting w split: option.splits)
qed

lemma microtask_gains:
  assumes "client_inv cf s" "ec_queued s = Some (i, inp)" "ec_nextId s < 4294967295"
  shows "gains cf s (dispatch i CReturn inp (s\<lparr>ec_queued := None\<rparr>))"
proof -
  let ?w = "AwaitTail None inp" and ?t = "wait_at i (AwaitTail None inp) (s\<lparr>ec_queued := None\<rparr>)"
  have ok: "ledger_ok (ec_calls s) (ec_results s) (ec_nextCall s)" "tail_ok (ec_calls s) (ec_tail s)"
    "pending_ok (ec_calls s) (ec_pending s) (ec_nextId s)" "queued_ok (ec_calls s) (ec_queued s)" "ec_pending s \<noteq> [] \<longrightarrow> ec_worker s"
    using assms(1) by (simp_all add: books_ok_def client_inv_def)
  have i: "map_of (ec_calls s) i = Some Coalesced" using ok(4) assms(2) by (simp add: queued_ok_def)
  have calls: "ec_calls ?t = map (\<lambda>c. if fst c = i then (i, ?w) else c) (ec_calls s)" by (simp add: wait_at_def)
  have "i \<notin> set (ec_tail s)" using ok(2) i by (fastforce simp: tail_ok_def)
  then have "tail_ok (ec_calls ?t) (ec_tail s)" unfolding calls by (intro tail_ok_wait [OF ok(2)]) auto
  moreover have "pending_ok (ec_calls ?t) (ec_pending s) (ec_nextId s)"
    unfolding calls by (rule pending_ok_wait [OF ok(3)]) (simp_all add: i)
  moreover have "queued_ok (ec_calls ?t) None"
    using ok(4) assms(2) unfolding queued_ok_def calls map_of_wait by auto (metis option.distinct(1))
  ultimately have "books_ok ?t" using ledger_ok_wait [OF ok(1), of i ?w] ok(5) by (simp add: books_ok_def wait_at_def)
  moreover have "map_of (ec_calls s) j = Some (AwaitRecovery k)" if "map_of (ec_calls ?t) j = Some (AwaitRecovery k)" for j k
    using that unfolding calls map_of_wait by (auto split: if_splits)
  then have "nobody_forgotten ?t" using assms(1) nobody_forgotten_fewer [of s ?t] by (simp add: client_inv_def)
  moreover have "attempts_ok cf ?t" using assms(1) attempts_cong [of ?t s cf] by (simp add: client_inv_def)
  ultimately have inv: "client_inv cf ?t" using assms(1) by (simp add: client_inv_def)
  have t: "map_of (ec_calls ?t) i = Some ?w" by (simp add: calls map_of_wait i)
  have "client_work cf ?t = client_work cf s"
    using calls_work_wait [OF books_distinct i, of "recovery_cost cf" ?w] assms(1) by (simp add: client_work_def calls client_inv_def)
  with dispatch_gains [OF inv t, of inp] assms(3) show ?thesis by (simp add: dispatch_waiting gains_def)
qed

text \<open>The worker's answers, the losses and the recovery.\<close>

lemma answer_gains:
  assumes "client_inv cf s" "map_of (ec_pending s) n = Some i" "(i, AwaitWorker k) \<in> set (ec_calls s)"
  shows "gains cf s (worker_answered cf n i k response s)"
proof -
  let ?s = "s\<lparr>ec_pending := AList.delete n (ec_pending s)\<rparr>" and ?K = "recovery_cost cf"
  note i = call_at [OF assms(1,3)]
  obtain w where p: "client_inv cf (park i ?s)" "map_of (ec_calls (park i ?s)) i = Some w" "idle_wait w"
    "client_work cf (park i ?s) + wait_work ?K (AwaitWorker k) = client_work cf s + wait_work ?K w"
    using unpend_inv [OF assms(1,2) i] by blast
  have head: "ec_tail s \<noteq> [] \<and> hd (ec_tail s) = i" if "k = CMutate rq" for rq
    using assms(1) i that by (simp add: client_inv_def books_ok_def tail_ok_def)
  note pos = work_of_call [OF i, of cf] work_of_call [OF p(2), of cf]
  have answered: "gains cf s (answered cf i k response t)"
    if "t = ?s\<lparr>ec_workerRevision := v\<rparr>" for t v
  proof -
    let ?p = "(park i ?s)\<lparr>ec_workerRevision := v\<rparr>"
    have inv: "client_inv cf ?p" using p(1) by (simp add: inv_frame)
    have calls: "map_of (ec_calls ?p) i = Some w" using p(2) by simp
    have t: "?p = wait_at i (if i \<in> set (ec_tail s) then InTail True (OtherInput []) else AwaitTail None (OtherInput [])) t"
      unfolding that park_def by (simp add: wait_at_def)
    have work: "client_work cf ?p + wait_work ?K (AwaitWorker k) = client_work cf s + wait_work ?K w"
      using p(4) by (simp add: inv_frame)
    have settle: "gains cf s (settle_calls [(i, r)] t)" for r
    proof -
      have "leaves cf (settle_calls [(i, r)] t) (ec_nextId ?p) (client_work cf ?p - wait_work ?K w)"
        using settle_leaves [OF inv calls p(3), of r] unfolding t settle_waiting .
      then show ?thesis by (rule gainsI) (use work pos wait_work_pos [of ?K "AwaitWorker k"] in simp_all)
    qed
    have server: "gains cf s (wait_at i (AwaitServer rq revision) (t\<lparr>ec_active := a\<rparr>))" if "k = CMutate rq" for rq revision a
    proof -
      let ?q = "?p\<lparr>ec_active := a\<rparr>" and ?w = "AwaitServer rq revision"
      have q: "wait_at i ?w (t\<lparr>ec_active := a\<rparr>) = wait_at i ?w ?q" unfolding t by (simp add: wait_at_def)
      have qinv: "client_inv cf ?q" using inv by (simp add: inv_frame)
      have books: "books_ok (wait_at i ?w ?q)"
        using qinv calls p(3) head [OF that] by (intro books_wait) (auto simp: client_inv_def)
      have forgotten: "nobody_forgotten (wait_at i ?w ?q)"
        using qinv unfolding client_inv_def
        by (elim conjE nobody_forgotten_fewer) (auto simp: wait_at_def map_of_wait split: if_splits)
      have "client_work cf (wait_at i ?w ?q) + wait_work ?K w = client_work cf ?p + wait_work ?K ?w"
        using calls_work_wait [OF books_distinct calls, of ?K ?w] inv by (simp add: client_work_def wait_at_def client_inv_def)
      then have "client_work cf (wait_at i ?w ?q) < client_work cf s" using work that by simp
      moreover have "attempts_ok cf (wait_at i ?w ?q)"
        using qinv attempts_cong [of "wait_at i ?w ?q" ?q cf] by (simp add: client_inv_def)
      ultimately show ?thesis
        using books forgotten qinv unfolding q by (simp add: gains_def client_inv_def)
    qed
    have rebuild: "gains cf s (rebuild_in cf i ThenRebuilt reason t)" if "k = CApply c" for reason c
    proof -
      have "leaves cf (rebuild_in cf i ThenRebuilt reason t) (ec_nextId ?p) (client_work cf ?p + ?K + 1 - wait_work ?K w)"
        using rebuild_leaves [OF inv calls p(3), of ThenRebuilt reason] unfolding t rebuild_waiting .
      then show ?thesis by (rule gainsI) (use work pos that in simp_all)
    qed
    have applied: "gains cf s (settle_calls [(i, r)] (setState EReady x y z (t\<lparr>ec_workerRevision := v'\<rparr>)))" for r x y z v'
    proof -
      let ?q = "setState EReady x y z (?p\<lparr>ec_workerRevision := v'\<rparr>)"
      have "client_inv cf ?q" "client_work cf ?q = client_work cf ?p" using inv by (simp_all add: inv_frame)
      from settle_leaves [OF this(1), of i w] this(2) calls p(3)
      have "leaves cf (settle_calls [(i, r)] ?q) (ec_nextId ?p) (client_work cf ?p - wait_work ?K w)" by simp
      moreover have "settle_calls [(i, r)] ?q = settle_calls [(i, r)] (setState EReady x y z (t\<lparr>ec_workerRevision := v'\<rparr>))"
        unfolding t wait_frame [symmetric] settle_waiting ..
      ultimately have "leaves cf (settle_calls [(i, r)] (setState EReady x y z (t\<lparr>ec_workerRevision := v'\<rparr>))) (ec_nextId ?p)
          (client_work cf ?p - wait_work ?K w)" by simp
      then show ?thesis by (rule gainsI) (use work pos wait_work_pos [of ?K "AwaitWorker k"] in simp_all)
    qed
    show ?thesis
      using settle server rebuild applied unfolding answered_def by (auto split: continuation.splits engine_result.splits)
  qed
  have "?s = ?s\<lparr>ec_workerRevision := ec_workerRevision s\<rparr>" by (rule client.equality) simp_all
  from answered [OF this] answered [OF refl] show ?thesis
    by (auto simp: worker_answered_def split: engine_result.splits)
qed

lemma failure_gains:
  assumes "client_inv cf s" "map_of (ec_pending s) n = Some i"
  shows "gains cf s (request_failed n i e s)"
proof -
  let ?s = "s\<lparr>ec_pending := AList.delete n (ec_pending s)\<rparr>" and ?K = "recovery_cost cf"
  have "i \<in> snd ` set (ec_pending s)" using map_of_SomeD [OF assms(2)] by force
  then obtain k where i: "map_of (ec_calls s) i = Some (AwaitWorker k)"
    using assms(1) pending_waits [of s i] by (auto simp: client_inv_def)
  obtain w where p: "client_inv cf (park i ?s)" "map_of (ec_calls (park i ?s)) i = Some w" "idle_wait w"
    "client_work cf (park i ?s) + wait_work ?K (AwaitWorker k) = client_work cf s + wait_work ?K w"
    using unpend_inv [OF assms i] by blast
  have "leaves cf (settle_calls [(i, Threw e)] ?s) (ec_nextId s) (client_work cf (park i ?s) - wait_work ?K w)"
    using settle_leaves [OF p(1-3), of "Threw e"] unfolding park_def settle_waiting by simp
  then show ?thesis
    unfolding request_failed_def
    by (rule gainsI) (use p(4) work_of_call [OF i, of cf] work_of_call [OF p(2), of cf] wait_work_pos [of ?K "AwaitWorker k"] in simp_all)
qed

lemma lost_leaves:
  assumes "client_inv cf s"
  shows "leaves cf (worker_lost cf e s) (ec_nextId s) (client_work cf (terminateWorker e s) + recovery_cost cf)"
proof -
  have t: "client_inv cf (terminateWorker e s)" using terminate_leaves(1) [OF assms] by (simp add: leaves_def)
  then have "leaves cf (recover cf ERebuilding e (terminateWorker e s)) (ec_nextId s)
      (client_work cf (terminateWorker e s) + recovery_cost cf)"
    using recover_leaves [of "terminateWorker e s" cf ERebuilding e] by (simp add: client_inv_def)
  with t show ?thesis by (simp add: worker_lost_def leaves_def)
qed

lemma command_gains:
  assumes "client_inv cf s" "(i, AwaitServer rq optimistic) \<in> set (ec_calls s)"
  shows "gains cf s (command_failed cf i rq conflict e s)" "gains cf s (command_answered cf i rq optimistic canonical s)"
proof -
  note i = call_at [OF assms]
  show failed: "gains cf s (command_failed cf i rq conflict e s)" for conflict e
  proof -
    let ?s = "if conflict then setState EConflict (revision_of s) (Some e) None s else s"
    have "client_inv cf ?s" "ec_calls ?s = ec_calls s" "client_work cf ?s = client_work cf s" "ec_nextId ?s = ec_nextId s"
      using assms(1) by (simp_all add: inv_frame)
    then show ?thesis
      using rebuild_gains [of cf ?s i "AwaitServer rq optimistic"] i unfolding command_failed_def by (simp add: gains_def)
  qed
  let ?t = "setState EReady (Some optimistic) None None (s\<lparr>ec_workerRevision := Some optimistic\<rparr>)"
  obtain a where a: "end_mutation (rq_id rq) ?t = ?t\<lparr>ec_active := a\<rparr>"
    using end_after_frame [of "AwaitRecovery (ThenThrow (rq_id rq) [])" ?t] by auto
  have "client_inv cf (?t\<lparr>ec_active := a\<rparr>)" "client_work cf (?t\<lparr>ec_active := a\<rparr>) = client_work cf s"
    using assms(1) by (simp_all add: inv_frame)
  then have "gains cf s (settle_calls [(i, r)] (?t\<lparr>ec_active := a\<rparr>))" for r
    using settle_gains [of cf "?t\<lparr>ec_active := a\<rparr>" i "AwaitServer rq optimistic"] i by (simp add: gains_def)
  with failed show "gains cf s (command_answered cf i rq optimistic canonical s)"
    by (simp add: command_answered_def a)
qed

lemma recovery_books:
  "client_inv cf s \<Longrightarrow> ec_recovery s = Some r \<Longrightarrow> rc_attempt r < co_maxStartupAttempts cf"
  by (simp add: client_inv_def attempts_ok_def)

lemma attempt_failed_gains:
  assumes "client_inv cf s" "ec_recovery s = Some r"
  shows "gains cf s (attempt_failed cf r e s)"
proof -
  let ?t = "terminateWorker e s" and ?K = "recovery_cost cf"
  have t: "client_inv cf ?t" using terminate_leaves(1) [OF assms(1)] by (simp add: leaves_def)
  have calls: "calls_work ?K (ec_calls ?t) \<le> calls_work ?K (ec_calls s)" by (simp add: terminate_calls calls_work_settle)
  have n: "3 * (co_maxStartupAttempts cf - (rc_attempt r + 1)) < recovery_work cf (ec_recovery s)"
    using recovery_books [OF assms] by (cases "rc_stage r") (simp_all add: assms(2) recovery_work_def)
  have "leaves cf (finish_recovery (Some disposed_message) ?t) (ec_nextId s) (calls_work ?K (ec_calls ?t))"
    using finish_leaves [of ?t cf] t by (simp add: client_inv_def)
  moreover have "leaves cf (next_attempt cf (rc_reason r) (rc_attempt r + 1) e ?t) (ec_nextId s)
      (calls_work ?K (ec_calls ?t) + 3 * (co_maxStartupAttempts cf - (rc_attempt r + 1)))"
    using next_attempt_leaves [of ?t cf] t by (simp add: client_inv_def)
  ultimately show ?thesis
    using calls n by (auto simp: attempt_failed_def client_work_def elim!: gainsI)
qed

lemma fetched_gains:
  assumes "client_inv cf s" "ec_recovery s = Some r" "rc_stage r = Fetching"
  shows "gains cf s (snapshot_fetched cf r revision s)"
proof (cases "phase_of s = EDisposed")
  case True
  then show ?thesis using attempt_failed_gains [OF assms(1,2)] by (simp add: snapshot_fetched_def)
next
  case False
  let ?t = "terminateWorker ''Workspace engine worker was replaced.'' s"
  let ?u = "?t\<lparr>ec_worker := True, ec_recovery := Some (r\<lparr>rc_stage := Initializing revision\<rparr>)\<rparr>"
  have t: "client_inv cf ?t" using terminate_leaves(1) [OF assms(1)] by (simp add: leaves_def)
  then have "client_inv cf ?u"
    using recovery_books [OF assms(1,2)] False
    by (simp add: client_inv_def books_ok_def attempts_ok_def nobody_forgotten_def)
  moreover have "client_work cf ?u < client_work cf s"
    using calls_work_settle [of "recovery_cost cf" _ "ec_calls s"] assms(2,3)
    by (simp add: client_work_def terminate_calls recovery_work_def le_imp_less_Suc)
  ultimately show ?thesis using False by (simp add: gains_def snapshot_fetched_def)
qed

lemma ready_gains:
  assumes "client_inv cf s" "ec_recovery s = Some r" "rc_stage r = Initializing revision"
  shows "gains cf s (worker_ready cf r revision s)"
proof (cases "phase_of s = EDisposed")
  case True
  then show ?thesis using attempt_failed_gains [OF assms(1,2)] by (simp add: worker_ready_def)
next
  case False
  let ?t = "setState EReady (Some revision) None None (s\<lparr>ec_workerRevision := Some revision\<rparr>)"
  have "leaves cf (finish_recovery None ?t) (ec_nextId s) (calls_work (recovery_cost cf) (ec_calls s))"
    using finish_leaves [of ?t cf None] assms(1) by (simp add: client_inv_def books_frame)
  then show ?thesis using False assms(2,3)
    by (auto simp: worker_ready_def client_work_def recovery_work_def elim!: gainsI)
qed

lemma init_rejected_gains:
  assumes "client_inv cf s" "ec_recovery s = Some r" "rc_stage r = Initializing revision"
  shows "gains cf s (init_rejected e s)"
proof -
  have "books_ok (init_rejected e s)" using assms(1) by (simp add: client_inv_def init_rejected_def books_frame)
  moreover have "nobody_forgotten (init_rejected e s)"
    using assms(1,2) init_rejected_facts(2) [of e s] by (simp add: nobody_forgotten_def)
  ultimately show ?thesis
    using assms(1) init_rejected_facts(1) [of cf s e] init_rejected_facts(4) [OF assms(2,3), of cf e]
    by (simp add: gains_def client_inv_def client_work_def)
qed

lemma internal_engine_gains:
  assumes "internal_engine_step cf s t" "client_inv cf s" "ec_nextId s < 4294967295"
  shows "gains cf s t"
  using assms(1)
proof cases
  case timeout
  show ?thesis unfolding timeout(1)
    by (rule gainsI [OF lost_leaves [OF assms(2)]]) (use terminate_leaves(2) [OF assms(2) timeout(2)] in simp_all)
next
  case (consistent i w inp)
  then show ?thesis using start_request_gains [OF assms(2) call_at [OF assms(2)] _ assms(3)] by simp
next
  case (sync i w expected reason)
  note i = call_at [OF assms(2) sync(2)]
  show ?thesis using settle_gains [OF assms(2) i] rebuild_gains [OF assms(2) i] sync(1) by (simp add: synchronize_def)
qed (use assms in \<open>auto intro: start_turn_gains call_at microtask_gains answer_gains failure_gains command_gains fetched_gains
  attempt_failed_gains ready_gains init_rejected_gains\<close>)

subsection \<open>The calls of the application\<close>

lemma fresh_call:
  assumes "client_inv cf s"
  shows "map_of (ec_calls s) (ec_nextCall s) = None" "ec_nextCall s \<notin> set (ec_tail s)"
    "ec_nextCall s \<notin> snd ` set (ec_pending s)" "ec_queued s \<noteq> Some (ec_nextCall s, x)"
proof -
  have books: "books_ok s" using assms by (simp add: client_inv_def)
  show m: "map_of (ec_calls s) (ec_nextCall s) = None" using books by (rule map_of_fresh)
  show "ec_nextCall s \<notin> set (ec_tail s)" using books by (rule fresh_not_in_tail)
  show "ec_nextCall s \<notin> snd ` set (ec_pending s)" using pending_waits [OF books, of "ec_nextCall s"] m by simp
  show "ec_queued s \<noteq> Some (ec_nextCall s, x)" using queued_waits [OF books, of "ec_nextCall s"] m by auto
qed

lemma inv_immediate: "client_inv cf s \<Longrightarrow> client_inv cf (immediate r s)"
proof -
  assume inv: "client_inv cf s"
  then have "books_ok (immediate r s)" by (simp add: client_inv_def books_immediate)
  with inv attempts_cong [of "immediate r s" s cf] show ?thesis
    by (simp add: client_inv_def nobody_forgotten_def immediate_def)
qed

lemma immediate_sel [simp]: "ec_nextId (immediate r s) = ec_nextId s"
  by (simp add: immediate_def)

lemma begin_sel [simp]:
  "ec_state (begin_call w s) = ec_state s" "ec_worker (begin_call w s) = ec_worker s" "ec_nextId (begin_call w s) = ec_nextId s"
  "ec_recovery (begin_call w s) = ec_recovery s" "ec_tail (begin_call w s) = ec_tail s"
  "ec_calls (begin_call w s) = (ec_nextCall s, w) # ec_calls s"
  by (simp_all add: begin_call_def)

lemma inv_begin:
  assumes "client_inv cf s" "idle_wait w" "\<forall>m inp. w \<noteq> InTail m inp" "\<not> exclusive w" "\<forall>k. w \<noteq> AwaitRecovery k"
  shows "client_inv cf (begin_call w s)"
proof -
  have "nobody_forgotten (begin_call w s)"
    using assms(1,5) by (auto simp: client_inv_def nobody_forgotten_def split: if_splits)
  moreover have "attempts_ok cf (begin_call w s)" using assms(1) attempts_cong [of "begin_call w s" s cf] by (simp add: client_inv_def)
  ultimately show ?thesis using assms books_begin [of s w] by (simp add: client_inv_def)
qed

text \<open>A call that has just begun can be taken to wait anywhere until its first await.\<close>

lemma begin_elsewhere:
  assumes "client_inv cf s"
  shows "begin_call w s = wait_at (ec_nextCall s) w (begin_call (AwaitTail None (OtherInput [])) s)"
proof -
  have "ec_nextCall s \<notin> fst ` set (ec_calls s)"
    using map_of_fresh [of s] map_of_dom [of "ec_nextCall s" "ec_calls s"] assms by (simp add: client_inv_def)
  then have "map (\<lambda>c. if fst c = ec_nextCall s then (ec_nextCall s, w) else c) (ec_calls s) = ec_calls s"
    by (intro map_idI) force
  then show ?thesis by (simp add: begin_call_def wait_at_def)
qed

lemma begun:
  assumes "client_inv cf s"
  defines "t \<equiv> begin_call (AwaitTail None (OtherInput [])) s"
  shows "client_inv cf t" "map_of (ec_calls t) (ec_nextCall s) = Some (AwaitTail None (OtherInput []))" "ec_nextId t = ec_nextId s"
  using inv_begin [OF assms(1), of "AwaitTail None (OtherInput [])"] by (simp_all add: t_def)

lemma rebuild_begun:
  assumes "client_inv cf s"
  shows "client_inv cf (rebuild_in cf (ec_nextCall s) k reason (begin_call w s))"
    and "ec_nextId (rebuild_in cf (ec_nextCall s) k reason (begin_call w s)) \<le> ec_nextId s"
proof -
  have "leaves cf (rebuild_in cf (ec_nextCall s) k reason (begin_call (AwaitTail None (OtherInput [])) s)) (ec_nextId s)
    (client_work cf (begin_call (AwaitTail None (OtherInput [])) s) + recovery_cost cf + 1
      - wait_work (recovery_cost cf) (AwaitTail None (OtherInput [])))"
    using rebuild_leaves [OF begun(1,2) [OF assms], of k reason] by simp
  then show "client_inv cf (rebuild_in cf (ec_nextCall s) k reason (begin_call w s))"
    "ec_nextId (rebuild_in cf (ec_nextCall s) k reason (begin_call w s)) \<le> ec_nextId s"
    unfolding begin_elsewhere [OF assms, of w] rebuild_waiting by (simp_all add: leaves_def)
qed

lemma dispatch_begun:
  assumes "client_inv cf s" "ec_nextId s < 4294967295"
  shows "client_inv cf (dispatch (ec_nextCall s) (CApply c) inp (begin_call w s))"
    and "ec_nextId (dispatch (ec_nextCall s) (CApply c) inp (begin_call w s)) \<le> ec_nextId s + 1"
proof -
  have "leaves cf (dispatch (ec_nextCall s) (CApply c) inp (begin_call (AwaitTail None (OtherInput [])) s)) (ec_nextId s + 1)
    (client_work cf (begin_call (AwaitTail None (OtherInput [])) s) + wait_work (recovery_cost cf) (AwaitWorker (CApply c))
      - wait_work (recovery_cost cf) (AwaitTail None (OtherInput [])))"
    using dispatch_leaves [OF begun(1,2) [OF assms(1)], of "CApply c" inp] assms(2) by simp
  then show "client_inv cf (dispatch (ec_nextCall s) (CApply c) inp (begin_call w s))"
    "ec_nextId (dispatch (ec_nextCall s) (CApply c) inp (begin_call w s)) \<le> ec_nextId s + 1"
    unfolding begin_elsewhere [OF assms(1), of w] dispatch_waiting by (simp_all add: leaves_def)
qed

lemma drop_query:
  assumes "client_inv cf s" "ec_queued s = Some (j, inp)"
  shows "client_inv cf ((settle_calls [(j, r)] s)\<lparr>ec_queued := None\<rparr>)"
proof -
  let ?t = "(settle_calls [(j, r)] s)\<lparr>ec_queued := None\<rparr>"
  have ok: "ledger_ok (ec_calls s) (ec_results s) (ec_nextCall s)" "tail_ok (ec_calls s) (ec_tail s)"
    "pending_ok (ec_calls s) (ec_pending s) (ec_nextId s)" "queued_ok (ec_calls s) (ec_queued s)" "ec_pending s \<noteq> [] \<longrightarrow> ec_worker s"
    using assms(1) by (simp_all add: books_ok_def client_inv_def)
  have j: "map_of (ec_calls s) j = Some Coalesced" using ok(4) assms(2) by (simp add: queued_ok_def)
  then have "{j} \<inter> snd ` set (ec_pending s) = {}"
    using assms(1) pending_waits [of s j] by (auto simp: client_inv_def)
  from pending_ok_settle [OF ok(3) this] ledger_ok_settle [OF ok(1), of "[(j, r)]"] tail_ok_settle [OF ok(2), of "{j}"]
    queued_ok_settle [OF ok(4), of "{j}"] j map_of_dom [of j "ec_calls s"] ok(5) assms(2)
  have "books_ok ?t" by (simp add: books_ok_def settle_calls_def)
  moreover have "map_of (ec_calls s) i = Some (AwaitRecovery k)" if "map_of (ec_calls ?t) i = Some (AwaitRecovery k)" for i k
    using that map_of_settled [of "{j}" "ec_calls s" i] by (simp add: settle_calls_def split: if_splits)
  then have "nobody_forgotten ?t" using assms(1) nobody_forgotten_fewer [of s ?t] by (simp add: client_inv_def)
  moreover have "attempts_ok cf ?t" using assms(1) attempts_cong [of ?t s cf] by (simp add: client_inv_def)
  ultimately show ?thesis using assms(1) by (simp add: client_inv_def)
qed

definition without_query :: "string \<Rightarrow> client \<Rightarrow> client" where
  "without_query e s = (case ec_queued s of None \<Rightarrow> s | Some (j, _) \<Rightarrow> (settle_calls [(j, Threw e)] s)\<lparr>ec_queued := None\<rparr>)"

lemma without_query_inv: "client_inv cf s \<Longrightarrow> client_inv cf (without_query e s)"
  using drop_query [of cf s] by (auto simp: without_query_def split: option.splits)

lemma without_query_sel [simp]:
  "ec_queued (without_query e s) = None" "ec_state (without_query e s) = ec_state s" "ec_nextId (without_query e s) = ec_nextId s"
  "ec_nextCall (without_query e s) = ec_nextCall s"
  by (auto simp: without_query_def settle_calls_def split: option.splits)

lemma query_inv:
  assumes "client_inv cf s"
  shows "client_inv cf (client_query inp s)"
proof -
  let ?s = "without_query ''Engine query was superseded by a newer read.'' s"
  let ?t = "begin_call Coalesced (?s\<lparr>ec_queued := Some (ec_nextCall ?s, inp)\<rparr>)"
  have inv: "client_inv cf ?s" by (rule without_query_inv [OF assms])
  then have ok: "ledger_ok (ec_calls ?s) (ec_results ?s) (ec_nextCall ?s)" "tail_ok (ec_calls ?s) (ec_tail ?s)"
    "pending_ok (ec_calls ?s) (ec_pending ?s) (ec_nextId ?s)" "queued_ok (ec_calls ?s) None" "ec_pending ?s \<noteq> [] \<longrightarrow> ec_worker ?s"
    by (simp_all add: books_ok_def client_inv_def)
  note fresh = fresh_call [OF inv]
  have "tail_ok (ec_calls ?t) (ec_tail ?s)"
    using ok(2) fresh unfolding tail_ok_def by (auto split: if_splits)
  moreover have "pending_ok (ec_calls ?t) (ec_pending ?s) (ec_nextId ?s)"
    using ok(3) fresh unfolding pending_ok_def by (auto split: if_splits)
  moreover have "queued_ok (ec_calls ?t) (Some (ec_nextCall ?s, inp))"
    using ok(4) fresh unfolding queued_ok_def by (auto split: if_splits)
  ultimately have "books_ok ?t" using ledger_ok_begin [OF ok(1), of Coalesced] ok(5) by (simp add: books_ok_def begin_call_def)
  moreover have "nobody_forgotten ?t" using inv by (auto simp: client_inv_def nobody_forgotten_def split: if_splits)
  moreover have "attempts_ok cf ?t" using inv attempts_cong [of ?t ?s cf] by (simp add: client_inv_def)
  ultimately have "client_inv cf ?t" using inv by (simp add: client_inv_def)
  moreover have "client_query inp s = (if phase_of s \<noteq> EReady then immediate (Threw not_ready_message) s else ?t)"
    by (auto simp: client_query_def without_query_def begin_call_def settle_calls_def split: option.splits)
  ultimately show ?thesis using inv_immediate [OF assms] by simp
qed

lemma enqueue_inv:
  assumes "client_inv cf s"
  shows "client_inv cf (enqueue mutates inp s)"
proof -
  let ?t = "enqueue mutates inp s"
  have ok: "ledger_ok (ec_calls s) (ec_results s) (ec_nextCall s)" "tail_ok (ec_calls s) (ec_tail s)"
    "pending_ok (ec_calls s) (ec_pending s) (ec_nextId s)" "queued_ok (ec_calls s) (ec_queued s)" "ec_pending s \<noteq> [] \<longrightarrow> ec_worker s"
    using assms by (simp_all add: books_ok_def client_inv_def)
  note fresh = fresh_call [OF assms]
  let ?cs = "(ec_nextCall s, InTail mutates inp) # ec_calls s"
  have "tail_ok ?cs (ec_tail s @ [ec_nextCall s])"
    using ok(2) fresh unfolding tail_ok_def by (auto split: if_splits)
  moreover have "pending_ok ?cs (ec_pending s) (ec_nextId s)"
    using ok(3) fresh unfolding pending_ok_def by (auto split: if_splits)
  moreover have "queued_ok ?cs (ec_queued s)"
    using ok(4) fresh unfolding queued_ok_def by (auto split: if_splits)
  ultimately have "books_ok ?t" using ledger_ok_begin [OF ok(1)] ok(5) by (simp add: books_ok_def enqueue_def begin_call_def)
  moreover have "nobody_forgotten ?t" using assms by (auto simp: client_inv_def nobody_forgotten_def enqueue_def split: if_splits)
  moreover have "attempts_ok cf ?t" using assms attempts_cong [of ?t s cf] by (simp add: client_inv_def enqueue_def)
  ultimately show ?thesis using assms by (simp add: client_inv_def enqueue_def)
qed

lemma client_start_inv:
  assumes "client_inv cf s"
  shows "client_inv cf (client_start cf s)" "ec_nextId (client_start cf s) \<le> ec_nextId s"
proof -
  let ?t = "begin_call (AwaitRecovery ThenDone) s"
  have "books_ok ?t" using assms by (intro books_begin) (simp_all add: client_inv_def)
  moreover have "attempts_ok cf ?t" using assms attempts_cong [of ?t s cf] by (simp add: client_inv_def)
  ultimately have "leaves cf (recover cf ELoading ''Starting workspace engine'' ?t) (ec_nextId s) (client_work cf ?t + recovery_cost cf)"
    using recover_leaves [of ?t cf ELoading] assms by (simp add: client_inv_def)
  then show "client_inv cf (client_start cf s)" "ec_nextId (client_start cf s) \<le> ec_nextId s"
    using assms by (simp_all add: client_start_def leaves_def inv_immediate inv_frame)
qed

lemma committed_inv:
  assumes "client_inv cf s" "ec_nextId s < 4294967295"
  shows "client_inv cf (applyCommittedResponse cf decoded s)"
    "ec_nextId (applyCommittedResponse cf decoded s) \<le> ec_nextId s + 1"
  using inv_immediate [OF assms(1)] rebuild_begun [OF assms(1)] dispatch_begun [OF assms] inv_frame(3) [OF _ assms(1)]
  by (auto simp: applyCommittedResponse_def inv_immediate le_SucI split: sum.splits engine_result.splits option.splits)

lemma dispose_unfolds:
  "dispose s = (if phase_of s = EDisposed then s
     else setState EDisposed None None None (terminateWorker disposed_message (without_query disposed_message s)))"
proof -
  have "terminateWorker e (s\<lparr>ec_queued := None\<rparr>) = terminateWorker e s" if "ec_queued s = None" for e
    using that by (intro arg_cong [of _ _ "terminateWorker e"] client.equality) simp_all
  then show ?thesis by (auto simp: dispose_def without_query_def split: option.splits)
qed

lemma dispose_inv:
  assumes "client_inv cf s"
  shows "client_inv cf (dispose s)"
proof -
  let ?t = "terminateWorker disposed_message (without_query disposed_message s)"
  have "client_inv cf ?t" using terminate_leaves(1) [OF without_query_inv [OF assms]] by (simp add: leaves_def)
  then have "client_inv cf (setState EDisposed None None None ?t)"
    by (simp add: client_inv_def books_frame attempts_ok_def nobody_forgotten_def split: option.splits)
  with assms show ?thesis by (simp add: dispose_unfolds)
qed

lemma query_nextId: "ec_nextId (client_query inp s) = ec_nextId s"
  by (auto simp: client_query_def split: option.splits)

lemma enqueue_nextId: "ec_nextId (enqueue mutates inp s) = ec_nextId s"
  by (simp add: enqueue_def)

lemma dispose_nextId: "ec_nextId (dispose s) = ec_nextId s"
  by (simp add: dispose_unfolds)

lemma outer_engine_keeps:
  assumes "outer_engine_step cf s t" "client_inv cf s" "ec_nextId s < 4294967295"
  shows "client_inv cf t \<and> ec_nextId t \<le> ec_nextId s + 1"
  using assms(1)
proof cases
  case start
  then show ?thesis using client_start_inv [OF assms(2)] by (simp add: le_SucI)
next
  case (committed decoded)
  then show ?thesis using committed_inv [OF assms(2,3)] by simp
next
  case (rebuild reason)
  then show ?thesis using rebuild_begun [OF assms(2), of ThenDone reason] by (simp add: client_rebuild_def le_SucI)
next
  case (synchronized expected reason)
  then show ?thesis using inv_immediate [OF assms(2)] inv_begin [OF assms(2)] by (simp add: synchronizeCanonicalRevision_def)
next
  case (crash e)
  then show ?thesis using lost_leaves [OF assms(2), of e] by (auto simp: leaves_def)
next
  case (consistent_query inp)
  then show ?thesis using inv_begin [OF assms(2)] by (simp add: queryConsistent_def)
qed (use assms in \<open>auto simp: query_inv query_nextId enqueue_inv enqueue_nextId dispose_inv dispose_nextId\<close>)

lemma engine_step_keeps:
  "engine_step cf s t \<Longrightarrow> client_inv cf s \<Longrightarrow> ec_nextId s < 4294967295 \<Longrightarrow> client_inv cf t \<and> ec_nextId t \<le> ec_nextId s + 1"
  using internal_engine_gains [of cf s t] outer_engine_keeps [of cf s t] by (auto simp: engine_step_def gains_def)

lemma new_client_inv: "client_inv cf new_client"
  by (simp add: client_inv_def new_client_def books_ok_def ledger_ok_def tail_ok_def pending_ok_def queued_ok_def attempts_ok_def
    nobody_forgotten_def)

text \<open>Fewer steps than there are request ids.\<close>

lemma engine_run:
  "(engine_step cf ^^ n) new_client s \<Longrightarrow> n < 4294967295 \<Longrightarrow> client_inv cf s \<and> ec_nextId s \<le> n + 1"
proof (induction n arbitrary: s)
  case (Suc n)
  then obtain u where "(engine_step cf ^^ n) new_client u" "engine_step cf u s" by auto
  with Suc engine_step_keeps [of cf u s] show ?case by fastforce
next
  case 0
  have "ec_nextId new_client = 1" by (simp add: new_client_def)
  with 0 new_client_inv show ?case by auto
qed

subsection \<open>Every call settles\<close>

lemma finish_nextCall: "ec_nextCall (finish_recovery err s) = ec_nextCall s"
  using fold_end_after_frame [of "ec_calls s" "s\<lparr>ec_recovery := None\<rparr>"] by (auto simp: finish_recovery_def settle_calls_def)

lemma nextCall_frame [simp]:
  "ec_nextCall (settle_calls ds s) = ec_nextCall s" "ec_nextCall (terminateWorker e s) = ec_nextCall s"
  "ec_nextCall (init_rejected e s) = ec_nextCall s" "ec_nextCall (end_after w s) = ec_nextCall s"
  "ec_nextCall (end_mutation n s) = ec_nextCall s" "ec_nextCall (next_attempt cf reason m e s) = ec_nextCall s"
  using end_after_frame [of w s]
  by (auto simp: settle_calls_def terminateWorker_def init_rejected_def end_mutation_def next_attempt_def finish_nextCall)

lemma nextCall_ops [simp]:
  "ec_nextCall (recover cf ph reason s) = ec_nextCall s" "ec_nextCall (rebuild_in cf i k reason s) = ec_nextCall s"
  "ec_nextCall (dispatchRequest i c rq s) = ec_nextCall s" "ec_nextCall (dispatch i c inp s) = ec_nextCall s"
  "ec_nextCall (attempt_failed cf r e s) = ec_nextCall s" "ec_nextCall (worker_lost cf e s) = ec_nextCall s"
  by (simp_all add: recover_def rebuild_in_def dispatchRequest_def dispatch_def takeRequestId_def attempt_failed_def
    worker_lost_def finish_nextCall split: option.split)

lemma internal_nextCall: "internal_engine_step cf s t \<Longrightarrow> ec_nextCall t = ec_nextCall s"
  by (cases rule: internal_engine_step.cases)
    (auto simp: start_turn_def start_mutation_def start_request_def takeRequestId_def synchronize_def worker_answered_def
      answered_def request_failed_def command_answered_def command_failed_def snapshot_fetched_def worker_ready_def finish_nextCall
      split: option.split engine_result.split continuation.split)

definition at_rest :: "client \<Rightarrow> bool" where
  "at_rest s \<longleftrightarrow> ec_calls s = [] \<and> ec_tail s = [] \<and> ec_pending s = [] \<and> ec_queued s = None \<and> ec_recovery s = None"

lemma stuck_at_rest:
  assumes inv: "client_inv cf s" and stuck: "\<And>t. \<not> internal_engine_step cf s t"
  shows "at_rest s"
proof -
  have pending: "ec_pending s = []" using stuck timeout by blast
  have queued: "ec_queued s = None" using stuck microtask [of s] by (cases "ec_queued s") (simp, metis surj_pair)
  have recovery: "ec_recovery s = None"
  proof (cases "ec_recovery s")
    case (Some r)
    then show ?thesis using stuck fetched ready init_failed by (cases "rc_stage r") blast+
  qed
  have calls: "map_of (ec_calls s) i = Some w \<Longrightarrow> (\<exists>m inp. w = InTail m inp) \<or> (\<exists>v inp. w = AwaitTail v inp)
      \<or> (\<exists>v r e. w = AwaitTailSync v r e)" for i w
    using inv pending queued recovery stuck pending_waits [of s i] queued_waits [of s i] command [OF map_of_SomeD, of s i]
    by (cases w) (auto simp: client_inv_def nobody_forgotten_def)
  have tail: "ec_tail s = []"
  proof (cases "ec_tail s")
    case (Cons i tail)
    then obtain w where "map_of (ec_calls s) i = Some w" "tail_wait w"
      using inv by (auto simp: client_inv_def books_ok_def tail_ok_def)
    with calls [of i w] turn [OF Cons map_of_SomeD] stuck show ?thesis by auto
  qed
  have "map_of (ec_calls s) i = None" for i
  proof (cases "map_of (ec_calls s) i")
    case (Some w)
    have "i \<in> set (ec_tail s)" if "w = InTail m inp" for m inp
      using inv Some that by (auto simp: client_inv_def books_ok_def tail_ok_def)
    moreover have "tail_settled v s" for v using tail by (simp add: tail_settled_def split: option.split)
    ultimately show ?thesis
      using calls [OF Some] map_of_SomeD [OF Some] tail stuck consistent [of i _ _ s cf] sync [of i _ _ _ s cf] by auto blast+
  qed
  then have "ec_calls s = []" by (metis map_of_eq_None_iff fst_conv image_eqI list.set_cases neq_Nil_conv list.set_intros(1))
  with pending queued recovery tail show ?thesis by (simp add: at_rest_def)
qed

text \<open>The ids that are left cover the work that is left.\<close>

definition ids_suffice :: "client_options \<Rightarrow> client \<Rightarrow> bool" where
  "ids_suffice cf s \<longleftrightarrow> client_inv cf s \<and> ec_nextId s + client_work cf s < 4294967295"

lemma internal_ids: "internal_engine_step cf s t \<Longrightarrow> ids_suffice cf s \<Longrightarrow> ids_suffice cf t \<and> client_work cf t < client_work cf s"
  using internal_engine_gains [of cf s t] by (simp add: ids_suffice_def gains_def)

interpretation engine_settling: settling_system "internal_engine_step cf" "ids_suffice cf" "client_work cf" at_rest for cf
  by unfold_locales (use internal_ids stuck_at_rest in \<open>unfold ids_suffice_def, blast+\<close>)

text \<open>C23: Liveness: every call of the engine client settles.  From any state that the client can reach before it
  runs out of request ids, whatever the worker and the server answer, the client makes at most \<open>client_work\<close> steps
  of its own before the application's next call; and when it can make none, no call waits anywhere, no recovery is under way
  and every call ever made has exactly one result.\<close>

theorem engine_calls_settle:
  assumes "(engine_step cf ^^ n) new_client s" "n + client_work cf s < 4294967294"
  shows "((internal_engine_step cf ^^ m) s t \<longrightarrow> m \<le> client_work cf s)
    \<and> ((internal_engine_step cf)\<^sup>*\<^sup>* s t \<and> (\<nexists>u. internal_engine_step cf t u)
         \<longrightarrow> at_rest t \<and> distinct (map fst (ec_results t)) \<and> fst ` set (ec_results t) = {..<ec_nextCall s})"
proof (intro conjI impI)
  have ids: "ids_suffice cf s" using engine_run [OF assms(1)] assms(2) by (simp add: ids_suffice_def)
  show "m \<le> client_work cf s" if "(internal_engine_step cf ^^ m) s t" using engine_settling.run_bounded [OF that ids] by simp
  assume t: "(internal_engine_step cf)\<^sup>*\<^sup>* s t \<and> (\<nexists>u. internal_engine_step cf t u)"
  then have "client_inv cf t" and rest: "at_rest t"
    using engine_settling.run_keeps [OF _ ids] engine_settling.run_settles [OF _ ids] by (auto simp: ids_suffice_def)
  moreover have "ec_nextCall t = ec_nextCall s"
    using conjunct1 [OF t] by (induction rule: rtranclp_induct) (simp_all add: internal_nextCall)
  ultimately show "at_rest t" "distinct (map fst (ec_results t))" "fst ` set (ec_results t) = {..<ec_nextCall s}"
    by (simp_all add: client_inv_def books_ok_def ledger_ok_def at_rest_def)
qed

text \<open>C24: Safety: one command at a time.  In every state that the client can reach before it runs out of request ids, at
  most one call awaits the worker's or the server's verdict on a mutation, and it is the first of the chain of
  mutations.\<close>

theorem commands_one_at_a_time:
  assumes "(engine_step cf ^^ n) new_client s" "n < 4294967295"
    and "(i, w) \<in> set (ec_calls s)" "exclusive w" "(j, v) \<in> set (ec_calls s)" "exclusive v"
  shows "i = j \<and> w = v \<and> ec_tail s \<noteq> [] \<and> hd (ec_tail s) = i"
proof -
  have inv: "client_inv cf s" using engine_run [OF assms(1,2)] by simp
  then have "tail_ok (ec_calls s) (ec_tail s)" by (simp add: client_inv_def books_ok_def)
  then have "exclusive x \<Longrightarrow> map_of (ec_calls s) k = Some x \<Longrightarrow> ec_tail s \<noteq> [] \<and> hd (ec_tail s) = k" for k x
    unfolding tail_ok_def by blast
  from this [OF assms(4)] this [OF assms(6)] call_at [OF inv assms(3)] call_at [OF inv assms(5)] show ?thesis by auto
qed

subsection \<open>Disposal\<close>

text \<open>A client that has been disposed of and waits for no command.\<close>

definition laid_to_rest :: "client \<Rightarrow> bool" where
  "laid_to_rest s \<longleftrightarrow> phase_of s = EDisposed \<and> revision_of s = None \<and> \<not> ec_worker s \<and> ec_pending s = []
     \<and> (\<forall>i rq v. (i, AwaitServer rq v) \<notin> set (ec_calls s))"

lemma no_command_settled:
  "\<forall>i rq v. (i, AwaitServer rq v) \<notin> set (ec_calls s) \<Longrightarrow> (i, AwaitServer rq v) \<notin> set (ec_calls (settle_calls ds s))"
  by (auto simp: settle_calls_def)

lemma no_command_waits:
  "\<forall>i rq v. (i, AwaitServer rq v) \<notin> set (ec_calls s) \<Longrightarrow> \<forall>rq v. w \<noteq> AwaitServer rq v
     \<Longrightarrow> (i, AwaitServer rq v) \<notin> set (ec_calls (wait_at j w s))"
  by (auto simp: wait_at_def split: if_splits)

lemma rest_settle: "laid_to_rest s \<Longrightarrow> laid_to_rest (settle_calls ds s)"
  by (simp add: laid_to_rest_def no_command_settled)

lemma rest_frame:
  "laid_to_rest (s\<lparr>ec_active := a\<rparr>) = laid_to_rest s" "laid_to_rest (s\<lparr>ec_recovery := r\<rparr>) = laid_to_rest s"
  "laid_to_rest (s\<lparr>ec_queued := q\<rparr>) = laid_to_rest s" "laid_to_rest (s\<lparr>ec_nextId := n\<rparr>) = laid_to_rest s"
  "laid_to_rest (s\<lparr>ec_workerRevision := v\<rparr>) = laid_to_rest s" "laid_to_rest (immediate x s) = laid_to_rest s"
  "laid_to_rest (init_rejected e s) = laid_to_rest s"
  by (simp_all add: laid_to_rest_def immediate_def init_rejected_def)

lemma rest_begin: "laid_to_rest s \<Longrightarrow> \<forall>rq v. w \<noteq> AwaitServer rq v \<Longrightarrow> laid_to_rest (begin_call w s)"
  by (auto simp: laid_to_rest_def begin_call_def)

lemma rest_terminate: "laid_to_rest s \<Longrightarrow> laid_to_rest (terminateWorker e s)"
  by (auto simp: laid_to_rest_def terminate_calls)

lemma rest_finish:
  assumes "laid_to_rest s"
  shows "laid_to_rest (finish_recovery err s)"
proof -
  obtain a where "fold (\<lambda>c. end_after (snd c)) (ec_calls s) (s\<lparr>ec_recovery := None\<rparr>) = s\<lparr>ec_recovery := None, ec_active := a\<rparr>"
    using fold_end_after_frame by blast
  with assms show ?thesis by (simp add: finish_recovery_def rest_settle rest_frame)
qed

lemma rest_dispatch: "laid_to_rest s \<Longrightarrow> laid_to_rest (dispatch i k inp s)"
  by (simp add: dispatch_def takeRequestId_def dispatchRequest_def laid_to_rest_def no_command_settled split: option.split)

lemma rest_rebuild: "laid_to_rest s \<Longrightarrow> laid_to_rest (rebuild_in cf i k reason s)"
  using end_after_frame [of "AwaitRecovery k" s] by (auto simp: rebuild_in_def laid_to_rest_def no_command_settled)

lemma rest_attempt: "laid_to_rest s \<Longrightarrow> laid_to_rest (attempt_failed cf r e s)"
  using rest_finish [OF rest_terminate [of s e]] by (simp add: attempt_failed_def) (simp add: laid_to_rest_def)

lemma rest_phase: "laid_to_rest s \<Longrightarrow> phase_of s = EDisposed"
  by (simp add: laid_to_rest_def)

lemma rest_internal:
  assumes "internal_engine_step cf s t" "laid_to_rest s"
  shows "laid_to_rest t"
  using assms(1)
proof cases
  case (turn i tail mutates inp)
  then show ?thesis using assms(2) rest_phase [OF assms(2)]
    by (simp add: start_turn_def start_mutation_def start_request_def rest_settle)
next
  case (microtask i inp)
  then show ?thesis using assms(2) by (simp add: rest_dispatch rest_frame)
qed (use assms(2) rest_phase [OF assms(2)] in \<open>auto simp: start_request_def synchronize_def snapshot_fetched_def worker_ready_def
  rest_settle rest_rebuild rest_attempt rest_frame, auto simp: laid_to_rest_def\<close>)

lemma rest_outer:
  assumes "outer_engine_step cf s t" "laid_to_rest s"
  shows "laid_to_rest t"
  using assms(1)
proof cases
  case (committed decoded)
  have "revision_of s = None" using assms(2) by (simp add: laid_to_rest_def)
  with committed assms(2) show ?thesis
    by (simp add: applyCommittedResponse_def rest_frame rest_rebuild rest_begin split: sum.split engine_result.split)
next
  case (enqueued mutates inp)
  then show ?thesis using assms(2) by (auto simp: enqueue_def laid_to_rest_def begin_call_def)
qed (use assms(2) rest_phase [OF assms(2)] in \<open>auto simp: client_start_def client_query_def queryConsistent_def client_rebuild_def
  synchronizeCanonicalRevision_def dispose_def rest_begin rest_rebuild rest_frame, auto simp: laid_to_rest_def\<close>)

text \<open>C25: Safety: disposal is final when no command is under way.  Once the client is disposed of while no call awaits the
  server's verdict on a command, it stays disposed whatever happens, and it never has a worker again.\<close>

theorem disposed_is_final:
  assumes "phase_of s \<noteq> EDisposed" "\<forall>i rq v. (i, AwaitServer rq v) \<notin> set (ec_calls s)"
    and "(engine_step cf)\<^sup>*\<^sup>* (dispose s) t"
  shows "phase_of t = EDisposed \<and> \<not> ec_worker t"
proof -
  have "laid_to_rest (dispose s)"
    using assms(1,2) by (simp add: dispose_unfolds laid_to_rest_def terminate_calls) (simp add: without_query_def no_command_settled split: option.split)
  with assms(3) have "laid_to_rest t"
    by (induction rule: rtranclp_induct) (auto simp: engine_step_def intro: rest_internal rest_outer)
  then show ?thesis by (simp add: laid_to_rest_def)
qed

section \<open>Traces\<close>

text \<open>A client that starts at revision 5, renames its project and posts the command; while the server has not answered, it is
  either disposed of, or it hears of its own revision 6 and of another client's revision 7 over the event stream.\<close>

definition three_attempts :: client_options where
  "three_attempts = \<lparr>co_supportsWasm = True, co_maxStartupAttempts = 3\<rparr>"

definition renamed :: "nat \<Rightarrow> int \<Rightarrow> engine_response" where
  "renamed n base = \<lparr>rs_request = n, rs_base = base,
     rs_result = ResPatch (base + 1) (SetProjectName ''Rack'') (SetProjectName ''Lab'')\<rparr>"

definition renaming :: engine_request where
  "renaming = \<lparr>rq_id = 1, rq_base = 5, rq_input = Operation (UpdateProjectMetadata ''Rack'')\<rparr>"

definition start_recovery :: "recovery_stage \<Rightarrow> recovery" where
  "start_recovery st = \<lparr>rc_reason = ''Starting workspace engine'', rc_attempt = 0, rc_stage = st\<rparr>"

definition loading_client :: client where
  "loading_client = client_start three_attempts new_client"

definition fetched_client :: client where
  "fetched_client = snapshot_fetched three_attempts (start_recovery Fetching) 5 loading_client"

definition ready_client :: client where
  "ready_client = worker_ready three_attempts (start_recovery (Initializing 5)) 5 fetched_client"

definition mutating_client :: client where
  "mutating_client = enqueue True (rq_input renaming) ready_client"

definition sending_client :: client where
  "sending_client = start_turn 1 True (rq_input renaming) mutating_client"

definition posting_client :: client where
  "posting_client = worker_answered three_attempts 1 1 (CMutate renaming) (renamed 1 5) sending_client"

definition finished_client :: client where
  "finished_client = command_answered three_attempts 1 renaming 6 (renamed 1 5) posting_client"

definition disposed_client :: client where
  "disposed_client = dispose posting_client"

definition undone_client :: client where
  "undone_client = command_answered three_attempts 1 renaming 6 (renamed 1 5) disposed_client"

definition told_client :: client where
  "told_client = applyCommittedResponse three_attempts (Inr (renamed 1 5)) posting_client"

definition following_client :: client where
  "following_client = applyCommittedResponse three_attempts (Inr (renamed 9 6)) told_client"

definition ahead_client :: client where
  "ahead_client = worker_answered three_attempts 2 3 (CApply 7) (renamed 2 6) following_client"

definition rewound_client :: client where
  "rewound_client = command_answered three_attempts 1 renaming 6 (renamed 1 5) ahead_client"

lemmas engine_operations =
  setState_def begin_call_def wait_at_def settle_calls_def immediate_def init_rejected_def terminateWorker_def takeRequestId_def
  dispatchRequest_def dispatch_def recovered_def end_mutation_def finish_recovery_def next_attempt_def recover_def
  rebuild_in_def attempt_failed_def snapshot_fetched_def worker_ready_def answered_def worker_answered_def
  command_answered_def start_mutation_def start_turn_def client_start_def enqueue_def applyCommittedResponse_def dispose_def
  List.map_filter_simps three_attempts_def renamed_def renaming_def start_recovery_def

lemma loading_client: "loading_client = new_client\<lparr>ec_state := \<lparr>es_phase = ELoading, es_revision = None,
    es_reason = Some ''Starting workspace engine'', es_error = None\<rparr>, ec_recovery := Some (start_recovery Fetching),
    ec_calls := [(0, AwaitRecovery ThenDone)], ec_nextCall := 1\<rparr>"
  by (simp add: loading_client_def new_client_def engine_operations)

lemma fetched_client: "fetched_client = loading_client\<lparr>ec_worker := True, ec_recovery := Some (start_recovery (Initializing 5))\<rparr>"
  by (simp add: fetched_client_def loading_client new_client_def engine_operations)

lemma ready_client: "ready_client = new_client\<lparr>ec_state := \<lparr>es_phase = EReady, es_revision = Some 5,
    es_reason = None, es_error = None\<rparr>, ec_workerRevision := Some 5, ec_worker := True, ec_results := [(0, Finished)],
    ec_nextCall := 1\<rparr>"
  by (simp add: ready_client_def fetched_client loading_client new_client_def engine_operations)

lemma mutating_client: "mutating_client = ready_client\<lparr>ec_tail := [1], ec_calls := [(1, InTail True (rq_input renaming))],
    ec_nextCall := 2\<rparr>"
  by (simp add: mutating_client_def ready_client new_client_def engine_operations)

lemma sending_client: "sending_client = mutating_client\<lparr>ec_nextId := 2, ec_pending := [(1, 1)],
    ec_calls := [(1, AwaitWorker (CMutate renaming))]\<rparr>"
  by (simp add: sending_client_def mutating_client ready_client new_client_def engine_operations)

lemma posting_client: "posting_client = mutating_client\<lparr>ec_nextId := 2, ec_workerRevision := Some 6, ec_active := Some 1,
    ec_calls := [(1, AwaitServer renaming 6)]\<rparr>"
  by (simp add: posting_client_def sending_client mutating_client ready_client new_client_def engine_operations)

lemma told_client: "told_client = posting_client\<lparr>ec_state := \<lparr>es_phase = EReady, es_revision = Some 6,
    es_reason = None, es_error = None\<rparr>, ec_results := [(2, Committed ''acknowledged''), (0, Finished)], ec_nextCall := 3\<rparr>"
  by (simp add: told_client_def posting_client mutating_client ready_client new_client_def engine_operations)

lemma following_client: "following_client = told_client\<lparr>ec_nextId := 3, ec_pending := [(2, 3)],
    ec_calls := [(3, AwaitWorker (CApply 7)), (1, AwaitServer renaming 6)], ec_nextCall := 4\<rparr>"
  by (simp add: following_client_def told_client posting_client mutating_client ready_client new_client_def engine_operations)

lemma ahead_client: "ahead_client = told_client\<lparr>ec_nextId := 3, ec_workerRevision := Some 7,
    ec_state := \<lparr>es_phase = EReady, es_revision = Some 7, es_reason = None, es_error = None\<rparr>, 
    ec_results := [(3, Committed ''applied''), (2, Committed ''acknowledged''), (0, Finished)], ec_nextCall := 4\<rparr>"
  by (simp add: ahead_client_def following_client told_client posting_client mutating_client ready_client new_client_def engine_operations)

lemmas trace_states = loading_client fetched_client ready_client mutating_client sending_client posting_client told_client
  following_client ahead_client new_client_def start_recovery_def

lemma loading_steps: "internal_engine_step three_attempts loading_client fetched_client"
  "internal_engine_step three_attempts fetched_client ready_client"
  "internal_engine_step three_attempts mutating_client sending_client"
  "internal_engine_step three_attempts sending_client posting_client"
  "internal_engine_step three_attempts posting_client finished_client"
  "internal_engine_step three_attempts disposed_client undone_client"
  "internal_engine_step three_attempts following_client ahead_client"
  "internal_engine_step three_attempts ahead_client rewound_client"
  subgoal unfolding fetched_client_def by (rule fetched) (simp_all add: trace_states)
  subgoal unfolding ready_client_def by (rule ready) (simp_all add: trace_states)
  subgoal unfolding sending_client_def by (rule turn [of _ _ "[]"]) (simp_all add: trace_states)
  subgoal unfolding posting_client_def by (rule answer) (simp_all add: trace_states)
  subgoal unfolding finished_client_def by (rule command) (simp add: trace_states)
  subgoal unfolding undone_client_def by (rule command) (simp add: disposed_client_def trace_states engine_operations)
  subgoal unfolding ahead_client_def by (rule answer) (simp_all add: trace_states)
  subgoal unfolding rewound_client_def by (rule command) (simp add: trace_states)
  done

lemma posting_reachable: "(engine_step three_attempts ^^ 6) new_client posting_client"
proof -
  have "engine_step three_attempts new_client loading_client" "engine_step three_attempts ready_client mutating_client"
    by (simp_all add: engine_step_def loading_client_def mutating_client_def outer_engine_step.start outer_engine_step.enqueued)
  moreover have "engine_step three_attempts loading_client fetched_client" "engine_step three_attempts fetched_client ready_client"
    "engine_step three_attempts mutating_client sending_client" "engine_step three_attempts sending_client posting_client"
    using loading_steps by (simp_all add: engine_step_def)
  ultimately have "(engine_step three_attempts ^^ Suc (Suc (Suc (Suc (Suc (Suc 0)))))) new_client posting_client"
    by (blast intro: relpowp_Suc_I relpowp_0_I)
  then show ?thesis by (simp add: eval_nat_numeral)
qed

lemma posting_steps: "(engine_step three_attempts)\<^sup>*\<^sup>* new_client posting_client"
  using posting_reachable by (rule relpowp_imp_rtranclp)

lemma at_rest_stuck: "at_rest s \<Longrightarrow> \<not> internal_engine_step cf s t"
  by (auto simp: at_rest_def elim: internal_engine_step.cases)

theorem engine_calls_settle_witness:
  "(internal_engine_step three_attempts)\<^sup>*\<^sup>* posting_client finished_client \<and> at_rest finished_client
     \<and> fst ` set (ec_results finished_client) = {..<2} \<and> revision_of finished_client = Some 6"
proof -
  have step: "(internal_engine_step three_attempts)\<^sup>*\<^sup>* posting_client finished_client" using loading_steps(5) by blast
  have "at_rest finished_client" "revision_of finished_client = Some 6"
    by (simp_all add: at_rest_def finished_client_def trace_states engine_operations)
  moreover from this(1) have "\<nexists>u. internal_engine_step three_attempts finished_client u" by (simp add: at_rest_stuck)
  with engine_calls_settle [OF posting_reachable, of 0 finished_client] step
  have "fst ` set (ec_results finished_client) = {..<ec_nextCall posting_client}"
    by (simp add: client_work_def recovery_work_def recovery_cost_def trace_states three_attempts_def)
  moreover have "ec_nextCall posting_client = 2" by (simp add: trace_states)
  ultimately show ?thesis using step by simp
qed

theorem commands_one_at_a_time_witness:
  "ec_tail (enqueue False (OtherInput []) posting_client) = [1, 2] \<and> hd (ec_tail (enqueue False (OtherInput []) posting_client)) = 1"
proof -
  have "engine_step three_attempts posting_client (enqueue False (OtherInput []) posting_client)"
    by (simp add: engine_step_def outer_engine_step.enqueued)
  with posting_reachable have "(engine_step three_attempts ^^ Suc 6) new_client (enqueue False (OtherInput []) posting_client)"
    by (rule relpowp_Suc_I)
  from commands_one_at_a_time [OF this, of 1 "AwaitServer renaming 6" 1 "AwaitServer renaming 6"] show ?thesis
    by (simp add: enqueue_def begin_call_def trace_states)
qed

theorem disposed_is_final_witness:
  "phase_of sending_client = EReady \<and> phase_of (client_start three_attempts (dispose sending_client)) = EDisposed
     \<and> \<not> ec_worker (client_start three_attempts (dispose sending_client))"
proof -
  have "phase_of sending_client = EReady" "ec_calls sending_client = [(1, AwaitWorker (CMutate renaming))]"
    by (simp_all add: trace_states)
  moreover have "(engine_step three_attempts)\<^sup>*\<^sup>* (dispose sending_client) (client_start three_attempts (dispose sending_client))"
    by (intro r_into_rtranclp) (simp add: engine_step_def outer_engine_step.start)
  ultimately show ?thesis using disposed_is_final [of sending_client] by simp
qed

text \<open>Error: disposal can be undone.  When the client is disposed of while a command is under way, the server's answer
  puts it back to \<open>ready\<close>, and a revision conflict makes it recover: a client that was disposed of then has a worker
  again.\<close>

theorem disposal_undone:
  "\<exists>s. (engine_step three_attempts)\<^sup>*\<^sup>* new_client s \<and> phase_of s = EDisposed \<and> \<not> ec_worker s
     \<and> (\<exists>t. internal_engine_step three_attempts s t \<and> phase_of t = EReady)
     \<and> (\<exists>t. (internal_engine_step three_attempts)\<^sup>*\<^sup>* s t \<and> phase_of t = ERebuilding \<and> ec_worker t)"
proof (intro exI conjI)
  let ?conflict = "command_failed three_attempts 1 renaming True ''Revision conflict.'' disposed_client"
  let ?r = "\<lparr>rc_reason = ''Revision conflict.'', rc_attempt = 0, rc_stage = Fetching\<rparr>"
  let ?spawned = "snapshot_fetched three_attempts ?r 6 ?conflict"
  note states = disposed_client_def command_failed_def trace_states engine_operations
  show "(engine_step three_attempts)\<^sup>*\<^sup>* new_client disposed_client"
    by (rule rtranclp.rtrancl_into_rtrancl [OF posting_steps]) (simp add: disposed_client_def engine_step_def outer_engine_step.disposed)
  show "phase_of disposed_client = EDisposed" "\<not> ec_worker disposed_client" by (simp_all add: states)
  show "internal_engine_step three_attempts disposed_client undone_client" by (rule loading_steps(6))
  show "phase_of undone_client = EReady" by (simp add: undone_client_def states)
  have "internal_engine_step three_attempts disposed_client ?conflict" by (rule rejection) (simp add: states)
  moreover have "internal_engine_step three_attempts ?conflict ?spawned" by (rule fetched) (simp_all add: states)
  ultimately show "(internal_engine_step three_attempts)\<^sup>*\<^sup>* disposed_client ?spawned" by (blast intro: rtranclp_trans)
  show "phase_of ?spawned = ERebuilding" "ec_worker ?spawned" by (simp_all add: states)
qed

text \<open>Error: a late answer takes the client back.  The event stream can tell the client of its own revision 6 and of
  another client's revision 7, which it applies, before the server's answer to its command arrives; the answer then sets the
  canonical revision and the worker's, both 7, to 6, although the worker has the project of revision 7.\<close>

theorem late_answer_rewinds:
  "\<exists>s t. (engine_step three_attempts)\<^sup>*\<^sup>* new_client s \<and> phase_of s = EReady \<and> revision_of s = Some 7 \<and> ec_workerRevision s = Some 7
     \<and> internal_engine_step three_attempts s t \<and> phase_of t = EReady \<and> revision_of t = Some 6 \<and> ec_workerRevision t = Some 6"
proof (intro exI conjI)
  have "engine_step three_attempts posting_client told_client" "engine_step three_attempts told_client following_client"
    by (simp_all add: told_client_def following_client_def engine_step_def outer_engine_step.committed)
  moreover have "engine_step three_attempts following_client ahead_client" using loading_steps(7) by (simp add: engine_step_def)
  ultimately show "(engine_step three_attempts)\<^sup>*\<^sup>* new_client ahead_client"
    using posting_steps by (meson rtranclp.rtrancl_into_rtrancl)
  show "phase_of ahead_client = EReady" "revision_of ahead_client = Some 7" "ec_workerRevision ahead_client = Some 7"
    by (simp_all add: trace_states)
  show "internal_engine_step three_attempts ahead_client rewound_client" by (rule loading_steps(8))
  show "phase_of rewound_client = EReady" "revision_of rewound_client = Some 6" "ec_workerRevision rewound_client = Some 6"
    by (simp_all add: rewound_client_def trace_states engine_operations)
qed

end
