(* ===== verification/Json_Checks.thy ===== *)
theory Json_Checks
  imports Item_Keys
begin

text \<open>
  Validation of JSON documents: the elementary assertions at the head of \<open>server/db/validation.mjs\<close> and the ids of
  \<open>server/db/relational-ids.mjs\<close>.

  A document is a \<open>jsv\<close>, a property that is missing is \<open>None\<close>.  An assertion is \<open>Inr ()\<close> or the message of the
  error it throws; reading a property of \<open>null\<close> or \<open>undefined\<close> throws \<open>type_error\<close>.  Only own properties are modelled,
  not those that objects, arrays and strings inherit.  A number in a message is rendered in decimal when it is an integer and as a
  fraction otherwise.
\<close>

section \<open>Definitions\<close>

subsection \<open>Values\<close>

text \<open>\<open>v.k\<close> for a value other than \<open>null\<close> and \<open>undefined\<close>, and \<open>v?.k\<close>.\<close>

fun prop_of :: "jsv \<Rightarrow> string \<Rightarrow> jsv option" where
  "prop_of (JObj m) k = map_of m k"
| "prop_of _ k = None"

definition opt_prop :: "jsv option \<Rightarrow> string \<Rightarrow> jsv option" where
  "opt_prop v k = (case v of None \<Rightarrow> None | Some v \<Rightarrow> prop_of v k)"

definition type_error :: string where
  "type_error = ''TypeError''"

text \<open>\<open>typeof v === 'object' && !Array.isArray(v)\<close> for a truthy \<open>v\<close>.\<close>

fun is_object :: "jsv option \<Rightarrow> bool" where
  "is_object (Some (JObj _)) = True"
| "is_object _ = False"

fun is_array :: "jsv option \<Rightarrow> bool" where
  "is_array (Some (JArr _)) = True"
| "is_array _ = False"

fun array_of :: "jsv option \<Rightarrow> jsv list" where
  "array_of (Some (JArr xs)) = xs"
| "array_of _ = []"

fun truthy :: "jsv option \<Rightarrow> bool" where
  "truthy None = False"
| "truthy (Some JNull) = False"
| "truthy (Some (JBool b)) = b"
| "truthy (Some (JNum r)) = (r \<noteq> 0)"
| "truthy (Some (JStr s)) = (s \<noteq> [])"
| "truthy (Some _) = True"

text \<open>\<open>===\<close>: two arrays or objects of a document are never the same one.\<close>

fun strict_eq :: "jsv option \<Rightarrow> jsv option \<Rightarrow> bool" where
  "strict_eq None None = True"
| "strict_eq (Some JNull) (Some JNull) = True"
| "strict_eq (Some (JBool a)) (Some (JBool b)) = (a = b)"
| "strict_eq (Some (JNum a)) (Some (JNum b)) = (a = b)"
| "strict_eq (Some (JStr a)) (Some (JStr b)) = (a = b)"
| "strict_eq _ _ = False"

text \<open>\<open>allowed.has(v)\<close> for a set of strings, and \<open>typeof v === 'string' && v.trim() !== ''\<close>.\<close>

fun one_of :: "string list \<Rightarrow> jsv option \<Rightarrow> bool" where
  "one_of allowed (Some (JStr s)) = (s \<in> set allowed)"
| "one_of allowed _ = False"

fun has_text :: "jsv option \<Rightarrow> bool" where
  "has_text (Some (JStr s)) = (js_trim s \<noteq> [])"
| "has_text _ = False"

fun is_string :: "jsv option \<Rightarrow> bool" where
  "is_string (Some (JStr _)) = True"
| "is_string _ = False"

definition number_with :: "(rat \<Rightarrow> bool) \<Rightarrow> jsv option \<Rightarrow> bool" where
  "number_with P v = (case v of Some (JNum r) \<Rightarrow> P r | _ \<Rightarrow> False)"

definition show_rat :: "rat \<Rightarrow> string" where
  "show_rat r = (if isInteger_rat r then show_int \<lfloor>r\<rfloor>
     else show_int (fst (quotient_of r)) @ ''/'' @ show_int (snd (quotient_of r)))"

text \<open>\<open>String(v)\<close>.\<close>

fun js_text :: "jsv \<Rightarrow> string" where
  "js_text JNull = ''null''"
| "js_text (JBool b) = (if b then ''true'' else ''false'')"
| "js_text (JNum r) = show_rat r"
| "js_text (JStr s) = s"
| "js_text (JArr xs) = js_join '','' (map (\<lambda>x. if x = JNull then [] else js_text x) xs)"
| "js_text (JObj _) = ''[object Object]''"

definition string_of :: "jsv option \<Rightarrow> string" where
  "string_of v = (case v of None \<Rightarrow> ''undefined'' | Some v \<Rightarrow> js_text v)"

definition at_index :: "string \<Rightarrow> nat \<Rightarrow> string" where
  "at_index path n = path @ ''['' @ show_nat n @ '']''"

subsection \<open>Assertions\<close>

definition check :: "bool \<Rightarrow> string \<Rightarrow> string + unit" where
  "check b e = (if b then Inr () else Inl e)"

text \<open>Assertions one after the other, and one for each element of an array.\<close>

fun checks :: "(string + unit) list \<Rightarrow> string + unit" where
  "checks [] = Inr ()"
| "checks (c # cs) = try_eval c (\<lambda>_. checks cs)"

definition check_each :: "(nat \<Rightarrow> 'a \<Rightarrow> string + unit) \<Rightarrow> 'a list \<Rightarrow> string + unit" where
  "check_each f xs = checks (map (\<lambda>(i, x). f i x) (enumerate 0 xs))"

text \<open>A loop that adds keys to a set, or to a map that remembers where each was seen, and throws when one is there already.  Each of its
  steps fails, or passes and claims no key, or claims a key, with the place and the message of a conflict with an earlier place.\<close>

type_synonym ('k, 'p) claim = "string + ('k \<times> 'p \<times> ('p \<Rightarrow> string)) option"

fun claims :: "('k \<times> 'p) list \<Rightarrow> ('k, 'p) claim list \<Rightarrow> string + unit" where
  "claims seen [] = Inr ()"
| "claims seen (c # cs) = try_eval c (\<lambda>k. case k of
     None \<Rightarrow> claims seen cs
   | Some (k, p, dup) \<Rightarrow> (case map_of seen k of Some q \<Rightarrow> Inl (dup q) | None \<Rightarrow> claims ((k, p) # seen) cs))"

definition claim_key :: "string + unit \<Rightarrow> 'k \<Rightarrow> 'p \<Rightarrow> ('p \<Rightarrow> string) \<Rightarrow> ('k, 'p) claim" where
  "claim_key c k p dup = try_eval c (\<lambda>_. Inr (Some (k, p, dup)))"

definition claim_none :: "string + unit \<Rightarrow> ('k, 'p) claim" where
  "claim_none c = try_eval c (\<lambda>_. Inr None)"

definition optional :: "jsv option \<Rightarrow> (jsv \<Rightarrow> string + unit) \<Rightarrow> string + unit" where
  "optional v f = (case v of None \<Rightarrow> Inr () | Some v \<Rightarrow> f v)"

subsection \<open>Relational ids\<close>

text \<open>\<open>assertRelationalId\<close> where its result is not used; the predicate is the one of \<open>lib/ids.ts\<close>.\<close>

definition id_error :: "string \<Rightarrow> string" where
  "id_error field = field @ '' must be a positive safe-integer relational ID.''"

definition requireRelationalId :: "jsv option \<Rightarrow> string \<Rightarrow> string + unit" where
  "requireRelationalId v field = check (isRelationalId v) (id_error field)"

fun positive_digits :: "string \<Rightarrow> bool" where
  "positive_digits (c # cs) = (is_digit c \<and> c \<noteq> CHR ''0'' \<and> list_all is_digit cs)"
| "positive_digits [] = False"

fun parseLegacyRelationalId :: "jsv option \<Rightarrow> string \<Rightarrow> string + int" where
  "parseLegacyRelationalId v field =
     (if isRelationalId v then (case v of Some (JNum r) \<Rightarrow> Inr \<lfloor>r\<rfloor> | _ \<Rightarrow> Inl [])
      else case v of
        Some (JStr s) \<Rightarrow> if positive_digits s \<and> isSafeInteger (int (decimal_val s)) then Inr (int (decimal_val s))
          else Inl (field @ '' cannot be migrated to a positive safe-integer relational ID.'')
      | _ \<Rightarrow> Inl (field @ '' cannot be migrated to a positive safe-integer relational ID.''))"

definition isLegacyRelationalId :: "jsv option \<Rightarrow> bool" where
  "isLegacyRelationalId v =
     (isRelationalId v \<or> (case v of
        Some (JStr s) \<Rightarrow> positive_digits s \<and> isSafeInteger (int (decimal_val s))
      | _ \<Rightarrow> False))"

subsection \<open>Elementary assertions\<close>

definition assertUniqueCanonicalIds :: "jsv list \<Rightarrow> string \<Rightarrow> string + unit" where
  "assertUniqueCanonicalIds records path =
     claims [] (map (\<lambda>(i, record). let id = prop_of record ''id'' in
       claim_key (requireRelationalId id (at_index path i @ ''.id'')) id i
         (\<lambda>j. at_index path i @ ''.id duplicates canonical id '' @ string_of id @ '' from '' @ at_index path j @ ''.id.''))
       (enumerate 0 records))"

definition assertOptionalObject :: "jsv option \<Rightarrow> string \<Rightarrow> string + unit" where
  "assertOptionalObject v path = check (v = None \<or> is_object v) (path @ '' must be an object.'')"

definition assertRequiredString :: "jsv option \<Rightarrow> string \<Rightarrow> string + unit" where
  "assertRequiredString v path = check (has_text v) (path @ '' must be a non-empty string.'')"

definition assertOptionalString :: "jsv option \<Rightarrow> string \<Rightarrow> string + unit" where
  "assertOptionalString v path = check (v = None \<or> has_text v) (path @ '' must be a non-empty string.'')"

text \<open>The id of a group: a number, or the trimmed key of a legacy document.\<close>

definition assertLegacyCompatibilityGroupId :: "jsv option \<Rightarrow> string \<Rightarrow> string + jsv" where
  "assertLegacyCompatibilityGroupId v path =
     (case v of
        Some (JStr s) \<Rightarrow> if js_trim s \<noteq> [] then Inr (JStr (js_trim s))
          else Inl (path @ '' must be a positive integer or a non-empty legacy key.'')
      | Some v' \<Rightarrow> if isRelationalId v then Inr v'
          else Inl (path @ '' must be a positive integer or a non-empty legacy key.'')
      | None \<Rightarrow> Inl (path @ '' must be a positive integer or a non-empty legacy key.''))"

definition assertOptionalStringArray :: "jsv option \<Rightarrow> string \<Rightarrow> string + unit" where
  "assertOptionalStringArray v path = optional v (\<lambda>v. checks
     [check (is_array (Some v)) (path @ '' must be an array.''),
      check_each (\<lambda>i x. assertRequiredString (Some x) (at_index path i)) (array_of (Some v))])"

fun trimmed :: "jsv \<Rightarrow> jsv" where
  "trimmed (JStr s) = JStr (js_trim s)"
| "trimmed v = v"

definition assertUniqueStringArray :: "jsv option \<Rightarrow> string \<Rightarrow> string + unit" where
  "assertUniqueStringArray v path =
     check (is_array v \<and> list_all (\<lambda>x. has_text (Some x)) (array_of v) \<and> distinct (map trimmed (array_of v)))
       (path @ '' must contain unique strings.'')"

definition assertOptionalEnum :: "jsv option \<Rightarrow> string list \<Rightarrow> string \<Rightarrow> string + unit" where
  "assertOptionalEnum v allowed path = check (v = None \<or> one_of allowed v) (path @ '' has an unsupported value.'')"

definition assertOptionalNonNegativeNumber :: "jsv option \<Rightarrow> string \<Rightarrow> string + unit" where
  "assertOptionalNonNegativeNumber v path =
     check (v = None \<or> number_with (\<lambda>r. 0 \<le> r) v) (path @ '' must be a finite non-negative number.'')"

definition assertOptionalPositiveNumber :: "jsv option \<Rightarrow> string \<Rightarrow> string + unit" where
  "assertOptionalPositiveNumber v path =
     check (v = None \<or> number_with (\<lambda>r. 0 < r) v) (path @ '' must be a finite positive number.'')"

definition assertOptionalPositiveInteger :: "jsv option \<Rightarrow> string \<Rightarrow> string + unit" where
  "assertOptionalPositiveInteger v path =
     check (v = None \<or> number_with (\<lambda>r. isInteger_rat r \<and> 1 \<le> r) v) (path @ '' must be a positive integer.'')"

definition assertOptionalNonNegativeInteger :: "jsv option \<Rightarrow> string \<Rightarrow> string + unit" where
  "assertOptionalNonNegativeInteger v path =
     check (v = None \<or> number_with (\<lambda>r. isSafeInteger_rat r \<and> 0 \<le> r) v) (path @ '' must be a non-negative safe integer.'')"

definition assertOptionalBoolean :: "jsv option \<Rightarrow> string \<Rightarrow> string + unit" where
  "assertOptionalBoolean v path =
     check (case v of None \<Rightarrow> True | Some (JBool _) \<Rightarrow> True | _ \<Rightarrow> False) (path @ '' must be a boolean.'')"

definition assertOptionalPositiveIntegerArray :: "jsv option \<Rightarrow> string \<Rightarrow> string + unit" where
  "assertOptionalPositiveIntegerArray v path = optional v (\<lambda>v. checks
     [check (is_array (Some v)) (path @ '' must be an array.''),
      claims [] (map (\<lambda>(i, x). claim_key (requireRelationalId (Some x) (at_index path i)) x () (\<lambda>_. at_index path i @ '' must be unique.''))
        (enumerate 0 (array_of (Some v))))])"

definition assertOptionalEnumArray :: "jsv option \<Rightarrow> string list \<Rightarrow> string \<Rightarrow> string + unit" where
  "assertOptionalEnumArray v allowed path = optional v (\<lambda>v. checks
     [check (is_array (Some v)) (path @ '' must be an array.''),
      claims [] (map (\<lambda>(i, x). claim_key (assertOptionalEnum (Some x) allowed (at_index path i)) x () (\<lambda>_. at_index path i @ '' must be unique.''))
        (enumerate 0 (array_of (Some v))))])"

section \<open>Lemmas\<close>

lemma check_Inr [simp]: "check b e = Inr () \<longleftrightarrow> b"
  by (simp add: check_def)

lemma checks_Inr [simp]: "checks cs = Inr () \<longleftrightarrow> (\<forall>c \<in> set cs. c = Inr ())"
  by (induction cs) (auto simp: try_eval_Inr_iff)

declare checks.simps [simp del]

lemma enumerate_all: "(\<forall>p \<in> set (enumerate n xs). P (snd p)) \<longleftrightarrow> (\<forall>x \<in> set xs. P x)"
  by (induction xs arbitrary: n) auto

lemma enumerate_map: "map (\<lambda>p. f (snd p)) (enumerate n xs) = map f xs"
  by (induction xs arbitrary: n) auto

lemma check_each_Inr [simp]: "check_each f xs = Inr () \<longleftrightarrow> (\<forall>(i, x) \<in> set (enumerate 0 xs). f i x = Inr ())"
  by (auto simp: check_each_def)

text \<open>An array all of whose elements pass an assertion that does not depend on the index.\<close>

lemma check_each_all: "(\<And>i x. f i x = Inr () \<longleftrightarrow> P x) \<Longrightarrow> check_each f xs = Inr () \<longleftrightarrow> (\<forall>x \<in> set xs. P x)"
  using enumerate_all [of 0 xs P] by (simp add: case_prod_beta)

lemma optional_Inr [simp]: "optional v f = Inr () \<longleftrightarrow> (\<forall>w. v = Some w \<longrightarrow> f w = Inr ())"
  by (cases v) (simp_all add: optional_def)

lemma claim_Inr [simp]: "(\<exists>x. claim_key c k p dup = Inr x) \<longleftrightarrow> c = Inr ()" "(\<exists>x. claim_none c = Inr x) \<longleftrightarrow> c = Inr ()"
  by (auto simp: claim_key_def claim_none_def try_eval_Inr_iff)

text \<open>The loop accepts exactly when every step passes and the claimed keys are distinct.\<close>

definition keys_claimed :: "('k, 'p) claim list \<Rightarrow> 'k list" where
  "keys_claimed cs = List.map_filter (\<lambda>c. case c of Inr (Some (k, _)) \<Rightarrow> Some k | _ \<Rightarrow> None) cs"

lemma claimed_simps [simp]: "keys_claimed [] = []" "keys_claimed (Inr None # cs) = keys_claimed cs"
  "keys_claimed (Inr (Some (k, p, dup)) # cs) = k # keys_claimed cs" "keys_claimed (cs @ ds) = keys_claimed cs @ keys_claimed ds"
  by (simp_all add: keys_claimed_def List.map_filter_def)

lemma claims_seen:
  "claims seen cs = Inr () \<longleftrightarrow> (\<forall>c \<in> set cs. \<exists>k. c = Inr k) \<and> distinct (keys_claimed cs) \<and> set (keys_claimed cs) \<inter> fst ` set seen = {}"
proof (induction cs arbitrary: seen)
  case (Cons c cs)
  show ?case
  proof (cases c)
    case (Inr k)
    show ?thesis
    proof (cases k)
      case (Some x)
      obtain j p dup where "x = (j, p, dup)" by (cases x)
      then show ?thesis
        using Inr Some Cons.IH [of "(j, p) # seen"] map_of_eq_None_iff [of seen j] by (auto split: option.split)
    qed (use Inr Cons.IH in simp)
  qed simp
qed simp

lemma claims_Inr: "claims [] cs = Inr () \<longleftrightarrow> (\<forall>c \<in> set cs. \<exists>k. c = Inr k) \<and> distinct (keys_claimed cs)"
  by (simp add: claims_seen)

lemma claimed_keys: "(\<And>x. x \<in> set xs \<Longrightarrow> \<exists>p dup. f x = Inr (Some (g x, p, dup))) \<Longrightarrow> keys_claimed (map f xs) = map g xs"
proof (induction xs)
  case (Cons x xs)
  then obtain p dup where "f x = Inr (Some (g x, p, dup))" by fastforce
  with Cons show ?case by simp
qed simp

text \<open>A loop over an array in which each element claims one key.\<close>

lemma claims_array:
  assumes "\<And>p. f p = claim_key (c p) (g (snd p)) (place p) (dup p)" "\<And>p. c p = Inr () \<longleftrightarrow> P (snd p)"
  shows "claims [] (map f (enumerate 0 xs)) = Inr () \<longleftrightarrow> (\<forall>x \<in> set xs. P x) \<and> distinct (map g xs)"
proof -
  have pass: "(\<forall>d \<in> set (map f (enumerate 0 xs)). \<exists>k. d = Inr k) \<longleftrightarrow> (\<forall>x \<in> set xs. P x)"
    using enumerate_all [of 0 xs P] by (simp add: assms)
  have keys: "keys_claimed (map f (enumerate 0 xs)) = map g xs" if all: "\<forall>x \<in> set xs. P x"
  proof -
    have "\<forall>p \<in> set (enumerate 0 xs). c p = Inr ()" unfolding assms(2) using all by (simp only: enumerate_all)
    then have "keys_claimed (map f (enumerate 0 xs)) = map (\<lambda>p. g (snd p)) (enumerate 0 xs)"
      by (intro claimed_keys) (simp add: assms(1) claim_key_def)
    then show ?thesis by (simp only: enumerate_map)
  qed
  show ?thesis unfolding claims_Inr pass using keys by auto
qed

text \<open>The same for elements of which some claim no key, and for nested loops.\<close>

lemma claims_optional:
  assumes "\<And>p. f p = (case g (snd p) of None \<Rightarrow> claim_none (c p) | Some k \<Rightarrow> claim_key (c p) k (place p) (dup p k))"
    "\<And>p. c p = Inr () \<longleftrightarrow> P (snd p)"
  shows "claims [] (map f (enumerate 0 xs)) = Inr () \<longleftrightarrow> (\<forall>x \<in> set xs. P x) \<and> distinct (List.map_filter g xs)"
proof -
  have step: "(\<exists>k. f p = Inr k) \<longleftrightarrow> P (snd p)" for p by (cases "g (snd p)") (simp_all add: assms)
  have pass: "(\<forall>d \<in> set (map f (enumerate 0 xs)). \<exists>k. d = Inr k) \<longleftrightarrow> (\<forall>x \<in> set xs. P x)"
    using enumerate_all [of 0 xs P] by (simp add: step)
  have keys: "keys_claimed (map f (enumerate n xs)) = List.map_filter g xs" if "\<forall>x \<in> set xs. P x" for n
    using that
  proof (induction xs arbitrary: n)
    case (Cons x xs)
    then have "c (n, x) = Inr ()" by (simp add: assms(2))
    then have "f (n, x) = (case g x of None \<Rightarrow> Inr None | Some k \<Rightarrow> Inr (Some (k, place (n, x), dup (n, x) k)))"
      by (cases "g x") (simp_all add: assms(1) claim_none_def claim_key_def)
    with Cons show ?case by (cases "g x") (simp_all add: List.map_filter_simps)
  qed (simp add: List.map_filter_simps)
  show ?thesis unfolding claims_Inr pass using keys by auto
qed

lemma keys_claimed_concat: "keys_claimed (concat css) = concat (map keys_claimed css)"
  by (induction css) simp_all

text \<open>The records of an array that passes have distinct ids.\<close>

lemma unique_ids_Inr:
  "assertUniqueCanonicalIds records path = Inr () \<longleftrightarrow>
     (\<forall>r \<in> set records. isRelationalId (prop_of r ''id'')) \<and> distinct (map (\<lambda>r. prop_of r ''id'') records)"
  unfolding assertUniqueCanonicalIds_def
  by (rule claims_array [where c = "\<lambda>p. requireRelationalId (prop_of (snd p) ''id'') (at_index path (fst p) @ ''.id'')"
      and place = fst])
    (auto simp: case_prod_beta requireRelationalId_def)

lemma unique_integers_Inr:
  "assertOptionalPositiveIntegerArray v path = Inr () \<longleftrightarrow>
     v = None \<or> (\<exists>xs. v = Some (JArr xs) \<and> (\<forall>x \<in> set xs. isRelationalId (Some x)) \<and> distinct xs)"
proof -
  have "claims [] (map (\<lambda>(i, x). claim_key (requireRelationalId (Some x) (at_index path i)) x ()
        (\<lambda>_. at_index path i @ '' must be unique.'')) (enumerate 0 xs)) = Inr ()
      \<longleftrightarrow> (\<forall>x \<in> set xs. isRelationalId (Some x)) \<and> distinct (map (\<lambda>x. x) xs)" for xs
    by (rule claims_array [where c = "\<lambda>p. requireRelationalId (Some (snd p)) (at_index path (fst p))" and place = "\<lambda>_. ()"])
      (auto simp: case_prod_beta requireRelationalId_def)
  then show ?thesis
    by (cases v rule: is_array.cases) (simp_all add: assertOptionalPositiveIntegerArray_def)
qed

end
