(* ===== verification/Power_Ports.thy ===== *)
theory Power_Ports
  imports Json_Checks Constraints
begin

text \<open>
  The power ports of equipment: \<open>shared/power-ports.mjs\<close>, over the records as they are stored.  An item of one of the power types
  has a canonical set of power ports, which \<open>withCanonicalPowerPorts\<close> gives it; the server does so whenever it writes an item,
  and its validation demands it (\<open>assertCanonicalPowerTopology\<close> of \<open>server/db/validation.mjs\<close>).

  The functions are modelled for the power types, for which alone they are called; an array length that JavaScript
  cannot allocate is not modelled, nor the error that a port which is \<open>null\<close> causes.
\<close>

section \<open>Definitions\<close>

type_synonym obj = "(string \<times> jsv) list"

definition POWER_ITEM_TYPES :: "string list" where
  "POWER_ITEM_TYPES = [''ups'', ''powerStrip'', ''monitor'', ''powerAdapter'', ''powerSupply'', ''nas'']"

text \<open>\<open>{ ...a, ...b }\<close>.\<close>

definition spread :: "obj \<Rightarrow> obj \<Rightarrow> obj" where
  "spread a b = foldl (\<lambda>m (k, v). AList.update k v m) a b"

fun obj_of :: "jsv option \<Rightarrow> obj" where
  "obj_of (Some (JObj m)) = m"
| "obj_of _ = []"

subsection \<open>The power configuration of a NAS\<close>

definition power_of :: "obj \<Rightarrow> jsv option" where
  "power_of item = opt_prop (opt_prop (map_of item ''compatibility'') ''host'') ''power''"

definition stored_nas_topology :: "obj \<Rightarrow> string \<times> string option" where
  "stored_nas_topology item =
     (let configured = opt_prop (power_of item) ''configuration'';
          declared = opt_prop (map_of item ''specs'') ''powerConfiguration'';
          configuration = (if isNasPowerConfiguration configured then string_of configured
            else if isNasPowerConfiguration declared then string_of declared else ''internal-psu'')
      in (configuration,
          if configuration = ''external-adapter''
          then Some (if opt_prop (power_of item) ''adapterDisposition'' = Some (JStr ''fixed'') then ''fixed'' else ''replaceable'')
          else None))"

definition nasOwnsPowerEndpoint :: "obj \<Rightarrow> bool" where
  "nasOwnsPowerEndpoint item =
     (let (configuration, adapterDisposition) = stored_nas_topology item in
      configuration = ''internal-psu'' \<or> adapterDisposition = Some ''fixed'')"

definition withNasPowerConfiguration :: "obj \<Rightarrow> string \<Rightarrow> obj" where
  "withNasPowerConfiguration item configuration =
     (let compatibility = obj_of (map_of item ''compatibility'');
          host = obj_of (map_of compatibility ''host'');
          currentPower = obj_of (map_of host ''power'');
          power = AList.update ''configuration'' (JStr configuration) currentPower;
          power = (if configuration = ''external-adapter''
            then AList.update ''adapterDisposition'' (JStr
                   (if map_of currentPower ''adapterDisposition'' = Some (JStr ''fixed'') then ''fixed'' else ''replaceable'')) power
            else power);
          power = (if configuration = ''internal-psu'' then AList.delete ''adapterDisposition'' power else power)
      in spread item
           [(''specs'', JObj (AList.update ''powerConfiguration'' (JStr configuration) (obj_of (map_of item ''specs'')))),
            (''compatibility'', JObj (AList.update ''host'' (JObj (AList.update ''power'' (JObj power) host)) compatibility))])"

subsection \<open>The canonical ports\<close>

record power_template =
  pt_id :: int
  pt_key :: string
  pt_type :: string
  pt_slot :: int
  pt_label :: string

definition template_obj :: "power_template \<Rightarrow> obj" where
  "template_obj t =
     [(''id'', JNum (of_int (pt_id t))), (''key'', JStr (pt_key t)), (''kind'', JStr ''power-port''),
      (''type'', JStr (pt_type t)), (''slotNumber'', JNum (of_int (pt_slot t))), (''label'', JStr (pt_label t))]"

definition powerPort :: "int \<Rightarrow> string \<Rightarrow> string \<Rightarrow> int \<Rightarrow> string \<Rightarrow> power_template" where
  "powerPort i k ty slot lbl = \<lparr>pt_id = i, pt_key = k, pt_type = ty, pt_slot = slot, pt_label = lbl\<rparr>"

fun positive_whole :: "jsv option \<Rightarrow> nat" where
  "positive_whole (Some (JNum r)) = (if isSafeInteger_rat r \<and> 0 < r then nat \<lfloor>r\<rfloor> else 0)"
| "positive_whole _ = 0"

definition spec_count :: "obj \<Rightarrow> string \<Rightarrow> nat" where
  "spec_count item k = positive_whole (opt_prop (map_of item ''specs'') k)"

definition canonicalPowerPortTemplates :: "obj \<Rightarrow> power_template list" where
  "canonicalPowerPortTemplates item =
     (let type = string_of (map_of item ''type'');
          input = (\<lambda>slot. powerPort 1 ''ac-input'' ''ac-input'' slot ''AC input'')
      in if type = ''nas'' then (if nasOwnsPowerEndpoint item then [input 1] else [])
         else if type \<in> {''monitor'', ''powerAdapter'', ''powerSupply''} then [input 1]
         else if type = ''powerStrip'' then
           input 0 # map (\<lambda>n. powerPort (int n + 2) (''outlet-'' @ show_nat (n + 1)) ''ac-outlet'' (int n + 1)
                                (''Outlet '' @ show_nat (n + 1))) [0..<spec_count item ''outlets'']
         else
           (let declaredTotal = spec_count item ''outlets''; batteryCount = spec_count item ''batteryBackupOutlets'';
                declaredSurgeCount = spec_count item ''surgeProtectedOutlets'';
                total = max declaredTotal (batteryCount + declaredSurgeCount);
                surgeCount = max declaredSurgeCount (total - batteryCount)
            in map (\<lambda>n. powerPort (int n + 1) (''battery-outlet-'' @ show_nat (n + 1)) ''ac-outlet'' (int n + 1)
                          (''Battery outlet '' @ show_nat (n + 1))) [0..<batteryCount]
             @ map (\<lambda>n. powerPort (int (batteryCount + n + 1)) (''surge-outlet-'' @ show_nat (n + 1)) ''ac-outlet''
                          (int (batteryCount + n + 1)) (''Surge outlet '' @ show_nat (n + 1))) [0..<surgeCount]))"

function nextFreePositiveId :: "int list \<Rightarrow> int \<Rightarrow> int" where
  "nextFreePositiveId used n = (if n \<in> set used then nextFreePositiveId used (n + 1) else n)"
  by pat_completeness auto
termination
proof (relation "measure (\<lambda>(used, n). card {m. n \<le> m \<and> m \<in> set used})", goal_cases)
  case (2 used n)
  have "{m. n + 1 \<le> m \<and> m \<in> set used} \<subset> {m. n \<le> m \<and> m \<in> set used}"
    by (rule psubsetI) (use 2 in \<open>auto simp: set_eq_iff intro!: exI [of _ n]\<close>)
  then show ?case by (auto intro!: psubset_card_mono)
qed simp

declare nextFreePositiveId.simps [simp del]

fun port_id :: "jsv option \<Rightarrow> int option" where
  "port_id (Some (JNum r)) = (if isSafeInteger_rat r \<and> 0 < r then Some \<lfloor>r\<rfloor> else None)"
| "port_id _ = None"

definition key_is :: "string \<Rightarrow> jsv \<Rightarrow> bool" where
  "key_is k port \<longleftrightarrow> prop_of port ''key'' = Some (JStr k)"

text \<open>The loop over the templates, with the ids in use.\<close>

fun canonical_from :: "jsv list \<Rightarrow> int list \<Rightarrow> power_template list \<Rightarrow> jsv list" where
  "canonical_from existing used [] = []"
| "canonical_from existing used (t # ts) =
     (let persisted = List.find (key_is (pt_key t)) existing in
      case Option.bind persisted (\<lambda>port. port_id (prop_of port ''id'')) of
        Some i \<Rightarrow> JObj (spread (spread (obj_of persisted) (template_obj t)) [(''id'', JNum (of_int i))])
          # canonical_from existing used ts
      | None \<Rightarrow> let i = nextFreePositiveId used (pt_id t) in
          JObj (spread (spread (obj_of persisted) (template_obj t)) [(''id'', JNum (of_int i))])
          # canonical_from existing (i # used) ts)"

definition canonicalPowerPorts :: "obj \<Rightarrow> jsv list" where
  "canonicalPowerPorts item =
     (let existing = array_of (map_of item ''ports'') in
      canonical_from existing (List.map_filter (\<lambda>port. port_id (prop_of port ''id'')) existing) (canonicalPowerPortTemplates item))"

subsection \<open>Normalization\<close>

definition matches_template :: "jsv \<Rightarrow> power_template \<Rightarrow> bool" where
  "matches_template port t \<longleftrightarrow> prop_of port ''kind'' = Some (JStr ''power-port'') \<and> prop_of port ''type'' = Some (JStr (pt_type t))
     \<and> prop_of port ''slotNumber'' = Some (JNum (of_int (pt_slot t)))"

text \<open>A port without a key takes the key of the first template it matches that no port has.\<close>

fun keyed_ports :: "power_template list \<Rightarrow> string list \<Rightarrow> jsv list \<Rightarrow> jsv list" where
  "keyed_ports templates claimed [] = []"
| "keyed_ports templates claimed (port # ports) =
     (if truthy (prop_of port ''key'') then port # keyed_ports templates claimed ports
      else case List.find (\<lambda>t. pt_key t \<notin> set claimed \<and> matches_template port t) templates of
        None \<Rightarrow> port # keyed_ports templates claimed ports
      | Some t \<Rightarrow> JObj (AList.update ''key'' (JStr (pt_key t)) (obj_of (Some port)))
          # keyed_ports templates (pt_key t # claimed) ports)"

fun claimed_key :: "jsv option \<Rightarrow> string option" where
  "claimed_key (Some (JStr s)) = (if s = [] then None else Some s)"
| "claimed_key _ = None"

definition is_power_endpoint :: "jsv \<Rightarrow> bool" where
  "is_power_endpoint port \<longleftrightarrow> prop_of port ''kind'' = Some (JStr ''power-port'')
     \<or> prop_of port ''type'' = Some (JStr ''ac-input'') \<or> prop_of port ''type'' = Some (JStr ''ac-outlet'')"

definition normalized_ports :: "obj \<Rightarrow> jsv list" where
  "normalized_ports item =
     (let ports = array_of (map_of item ''ports'') in
      keyed_ports (canonicalPowerPortTemplates item) (List.map_filter (\<lambda>port. claimed_key (prop_of port ''key'')) ports) ports)"

definition withCanonicalPowerPorts :: "obj \<Rightarrow> obj" where
  "withCanonicalPowerPorts item =
     (if \<not> one_of POWER_ITEM_TYPES (map_of item ''type'') then item
      else let normalizedPorts = normalized_ports item;
             canonical = canonicalPowerPorts (AList.update ''ports'' (JArr normalizedPorts) item);
             retained = filter (\<lambda>port. \<not> is_power_endpoint port) normalizedPorts;
             merged = retained @ canonical
        in if merged \<noteq> [] then AList.update ''ports'' (JArr merged) item else AList.delete ''ports'' item)"

text \<open>The key of a port in the documents before schema 10.\<close>

definition legacyPowerPortKey :: "obj \<Rightarrow> jsv option \<Rightarrow> string option" where
  "legacyPowerPortKey item legacyPortId =
     (case legacyPortId of
        Some (JStr s) \<Rightarrow>
          if s = ''ac-input'' then Some ''ac-input''
          else if js_starts ''outlet-'' s \<and> drop 7 s \<noteq> [] \<and> list_all is_digit (drop 7 s)
          then (let outletNumber = int (decimal_val (drop 7 s));
                    type = map_of item ''type''; batteryCount = int (spec_count item ''batteryBackupOutlets'')
                in if type = Some (JStr ''powerStrip'') then Some (''outlet-'' @ show_int outletNumber)
                   else if type = Some (JStr ''ups'')
                   then Some (if outletNumber \<le> batteryCount then ''battery-outlet-'' @ show_int outletNumber
                              else ''surge-outlet-'' @ show_int (outletNumber - batteryCount))
                   else None)
          else None
      | _ \<Rightarrow> None)"

subsection \<open>Validation\<close>

definition assertCanonicalPowerTopology :: "string \<Rightarrow> obj \<Rightarrow> string \<Rightarrow> bool \<Rightarrow> string + unit" where
  "assertCanonicalPowerTopology itemId item type allowLegacyIds =
     (if allowLegacyIds \<or> type \<notin> set POWER_ITEM_TYPES then Inr ()
      else let expectedPorts = canonicalPowerPorts (AList.update ''type'' (JStr type) item);
             ports = array_of (map_of item ''ports'')
        in checks
          [check_each (\<lambda>_ port. check (is_power_endpoint port \<longrightarrow>
               list_ex (\<lambda>e. strict_eq (prop_of e ''key'') (prop_of port ''key'')) expectedPorts)
             (''Inventory item '' @ itemId @ '' has noncanonical power port ''
                @ string_of (case prop_of port ''key'' of Some JNull \<Rightarrow> prop_of port ''id'' | None \<Rightarrow> prop_of port ''id'' | k \<Rightarrow> k) @ ''.''))
             ports,
           check_each (\<lambda>_ e. check (case List.find (\<lambda>port. strict_eq (prop_of port ''key'') (prop_of e ''key'')) ports of
                None \<Rightarrow> False
              | Some port \<Rightarrow> strict_eq (prop_of port ''kind'') (prop_of e ''kind'') \<and> strict_eq (prop_of port ''type'') (prop_of e ''type'')
                  \<and> strict_eq (prop_of port ''slotNumber'') (prop_of e ''slotNumber''))
             (''Inventory item '' @ itemId @ '' is missing canonical power port '' @ string_of (prop_of e ''key'') @ ''.''))
             expectedPorts])"

section \<open>Lemmas\<close>

lemma nextFree_unused: "nextFreePositiveId used n \<notin> set used"
proof (induction used n rule: nextFreePositiveId.induct)
  case (1 used n)
  then show ?case by (cases "n \<in> set used") (simp_all add: nextFreePositiveId.simps [of used n])
qed

lemma show_nat_inject: "show_nat m = show_nat n \<longleftrightarrow> m = n"
  by (metis decimal_val_show_nat)

lemma map_of_spread: "map_of (spread a b) = map_of a ++ map_of (rev b)"
  by (induction b arbitrary: a) (auto simp: spread_def update_conv' fun_eq_iff map_add_def split: option.splits)

subsection \<open>Templates\<close>

lemma template_keys_distinct: "distinct (map pt_key (canonicalPowerPortTemplates item))"
proof -
  have outlets: "distinct (map (\<lambda>n. pre @ show_nat (n + 1)) [0..<m])" for pre m
    by (simp add: distinct_map inj_on_def show_nat_inject)
  have surge: "''battery-outlet-'' @ x \<noteq> ''surge-outlet-'' @ y" for x y by simp
  show ?thesis
    using outlets [of "''outlet-''"] outlets [of "''battery-outlet-''"] outlets [of "''surge-outlet-''"]
    by (auto simp: canonicalPowerPortTemplates_def powerPort_def o_def)
qed

lemma template_keys_nonempty: "t \<in> set (canonicalPowerPortTemplates item) \<Longrightarrow> pt_key t \<noteq> []"
  by (auto simp: canonicalPowerPortTemplates_def powerPort_def split: if_splits)

text \<open>The templates do not depend on the ports.\<close>

lemma templates_cong:
  "(\<And>k. k \<noteq> ''ports'' \<Longrightarrow> map_of a k = map_of b k) \<Longrightarrow> canonicalPowerPortTemplates a = canonicalPowerPortTemplates b"
  by (simp add: canonicalPowerPortTemplates_def nasOwnsPowerEndpoint_def stored_nas_topology_def power_of_def spec_count_def)

subsection \<open>The canonical ports\<close>

definition shows_template :: "power_template \<Rightarrow> jsv \<Rightarrow> bool" where
  "shows_template t port \<longleftrightarrow> key_is (pt_key t) port \<and> prop_of port ''kind'' = Some (JStr ''power-port'')
     \<and> prop_of port ''type'' = Some (JStr (pt_type t)) \<and> prop_of port ''slotNumber'' = Some (JNum (of_int (pt_slot t)))"

lemma canonical_shows: "shows_template t (JObj (spread (spread m (template_obj t)) [(''id'', i)]))"
  by (simp add: shows_template_def key_is_def map_of_spread template_obj_def)

lemma canonical_from_shows: "list_all2 shows_template ts (canonical_from existing used ts)"
  by (induction existing used ts rule: canonical_from.induct) (auto simp: canonical_shows split: option.split)

lemma canonical_shown:
  "port \<in> set (canonical_from existing used ts) \<Longrightarrow> \<exists>t \<in> set ts. shows_template t port"
  using canonical_from_shows [of ts existing used] by (metis in_set_conv_nth list_all2_conv_all_nth nth_mem)

lemma canonical_for:
  "t \<in> set ts \<Longrightarrow> \<exists>port \<in> set (canonical_from existing used ts). shows_template t port"
  using canonical_from_shows [of ts existing used] by (metis in_set_conv_nth list_all2_conv_all_nth nth_mem)

lemma shown_once: "distinct (map pt_key ts) \<Longrightarrow> t \<in> set ts \<Longrightarrow> u \<in> set ts \<Longrightarrow> shows_template u port \<Longrightarrow> key_is (pt_key t) port \<Longrightarrow> u = t"
  by (auto simp: shows_template_def key_is_def distinct_map inj_on_def)

subsection \<open>Normalization\<close>

lemma is_power_shown: "shows_template t port \<Longrightarrow> is_power_endpoint port"
  by (simp add: shows_template_def is_power_endpoint_def)

text \<open>Giving a port its key leaves everything else.\<close>

lemma keyed_ports_nth:
  "length (keyed_ports ts claimed ports) = length ports \<and>
   (\<forall>i < length ports. \<forall>k. k \<noteq> ''key'' \<longrightarrow> prop_of (keyed_ports ts claimed ports ! i) k = prop_of (ports ! i) k)"
proof (induction ts claimed ports rule: keyed_ports.induct)
  case (2 ts claimed port ports)
  have obj: "prop_of (JObj (AList.update ''key'' v (obj_of (Some port)))) k = prop_of port k"
    if "matches_template port t" "k \<noteq> ''key''" for t v k
    using that by (cases port) (auto simp: matches_template_def update_conv')
  show ?case
  proof (cases "truthy (prop_of port ''key'')")
    case True
    with 2(1) show ?thesis by (auto simp: nth_Cons split: nat.split)
  next
    case False
    show ?thesis
    proof (cases "List.find (\<lambda>t. pt_key t \<notin> set claimed \<and> matches_template port t) ts")
      case None
      with False 2(2) [OF False] show ?thesis by (auto simp: nth_Cons split: nat.split)
    next
      case (Some t)
      then have "matches_template port t" by (metis find_Some_iff_first)
      with False Some 2(3) [OF False Some] obj show ?thesis by (auto simp: nth_Cons split: nat.split)
    qed
  qed
qed simp

lemma keyed_ports_ids: "map (\<lambda>p. prop_of p ''id'') (keyed_ports ts claimed ports) = map (\<lambda>p. prop_of p ''id'') ports"
  using keyed_ports_nth [of ts claimed ports] by (auto intro!: nth_equalityI)

lemma keyed_ports_other: "port \<in> set (keyed_ports ts claimed ports) \<Longrightarrow> \<not> is_power_endpoint port \<Longrightarrow> port \<in> set ports"
proof (induction ts claimed ports rule: keyed_ports.induct)
  case (2 ts claimed p ports)
  have "is_power_endpoint (JObj (AList.update ''key'' v (obj_of (Some p))))" if "matches_template p t" for t v
    using that by (cases p) (auto simp: matches_template_def is_power_endpoint_def update_conv')
  with 2 show ?case by (auto split: if_splits option.splits dest: find_Some_iff_first)
qed simp

definition item_ports :: "obj \<Rightarrow> jsv list" where
  "item_ports item = array_of (map_of item ''ports'')"

lemma with_canonical_ports:
  assumes "one_of POWER_ITEM_TYPES (map_of item ''type'')"
  defines "N \<equiv> normalized_ports item"
  shows "item_ports (withCanonicalPowerPorts item) = filter (\<lambda>p. \<not> is_power_endpoint p) N
      @ canonical_from N (List.map_filter (\<lambda>p. port_id (prop_of p ''id'')) N) (canonicalPowerPortTemplates item)"
    and "canonicalPowerPortTemplates (AList.update ''type'' (JStr type) (withCanonicalPowerPorts item))
      = canonicalPowerPortTemplates (AList.update ''type'' (JStr type) item)"
proof -
  have "canonicalPowerPortTemplates (AList.update ''ports'' v item) = canonicalPowerPortTemplates item" for v
    by (rule templates_cong) (simp add: update_conv')
  then show "item_ports (withCanonicalPowerPorts item) = filter (\<lambda>p. \<not> is_power_endpoint p) N
      @ canonical_from N (List.map_filter (\<lambda>p. port_id (prop_of p ''id'')) N) (canonicalPowerPortTemplates item)"
    using assms(1)
    by (auto simp: withCanonicalPowerPorts_def item_ports_def N_def canonicalPowerPorts_def update_conv' delete_conv')
  show "canonicalPowerPortTemplates (AList.update ''type'' (JStr type) (withCanonicalPowerPorts item))
      = canonicalPowerPortTemplates (AList.update ''type'' (JStr type) item)"
    by (rule templates_cong) (auto simp: withCanonicalPowerPorts_def update_conv' delete_conv')
qed

text \<open>No port that stays as it is has the key of a canonical port.\<close>

definition keys_free :: "obj \<Rightarrow> bool" where
  "keys_free item \<longleftrightarrow> list_all (\<lambda>port. is_power_endpoint port
     \<or> \<not> list_ex (\<lambda>t. key_is (pt_key t) port) (canonicalPowerPortTemplates item)) (item_ports item)"

lemma keys_free_retained:
  assumes "keys_free item" "port \<in> set (normalized_ports item)" "\<not> is_power_endpoint port" "t \<in> set (canonicalPowerPortTemplates item)"
  shows "\<not> key_is (pt_key t) port"
proof -
  have "port \<in> set (item_ports item)"
    using assms(2,3) keyed_ports_other unfolding normalized_ports_def item_ports_def by (auto simp: Let_def)
  with assms show ?thesis by (auto simp: keys_free_def list_all_iff list_ex_iff)
qed

lemma key_is_eq: "key_is k port \<longleftrightarrow> strict_eq (prop_of port ''key'') (Some (JStr k))"
  by (cases "(prop_of port ''key'', Some (JStr k))" rule: strict_eq.cases) (auto simp: key_is_def)

text \<open>What the normalization produces, the validation accepts.\<close>

lemma canonical_accepted:
  assumes "map_of item ''type'' = Some (JStr type)" "type \<in> set POWER_ITEM_TYPES" "keys_free item"
  shows "assertCanonicalPowerTopology itemId (withCanonicalPowerPorts item) type allowLegacyIds = Inr ()"
proof -
  let ?ts = "canonicalPowerPortTemplates item" and ?item = "withCanonicalPowerPorts item" and ?N = "normalized_ports item"
  let ?C = "canonical_from ?N (List.map_filter (\<lambda>p. port_id (prop_of p ''id'')) ?N) ?ts"
  define E where "E = canonicalPowerPorts (AList.update ''type'' (JStr type) ?item)"
  have typed: "one_of POWER_ITEM_TYPES (map_of item ''type'')" using assms(1,2) by simp
  have ports: "array_of (map_of ?item ''ports'') = filter (\<lambda>p. \<not> is_power_endpoint p) ?N @ ?C"
    using with_canonical_ports(1) [OF typed] by (simp add: item_ports_def)
  have "canonicalPowerPortTemplates (AList.update ''type'' (JStr type) item) = ?ts"
    by (rule templates_cong) (use assms(1) in \<open>simp add: update_conv'\<close>)
  with with_canonical_ports(2) [OF typed, of type] obtain existing used where E: "E = canonical_from existing used ?ts"
    by (simp add: E_def canonicalPowerPorts_def Let_def)
  have known: "list_ex (\<lambda>e. strict_eq (prop_of e ''key'') (prop_of port ''key'')) E"
    if "port \<in> set (array_of (map_of ?item ''ports''))" "is_power_endpoint port" for port
  proof -
    have "port \<in> set ?C" using that unfolding ports by simp
    then obtain t where t: "t \<in> set ?ts" "shows_template t port" by (blast dest: canonical_shown)
    then obtain e where "e \<in> set E" "shows_template t e" using canonical_for [of t] E by blast
    with t(2) show ?thesis by (auto simp: list_ex_iff shows_template_def key_is_def intro!: bexI [of _ e])
  qed
  have found: "case List.find (\<lambda>port. strict_eq (prop_of port ''key'') (prop_of e ''key'')) (array_of (map_of ?item ''ports'')) of
      None \<Rightarrow> False
    | Some port \<Rightarrow> strict_eq (prop_of port ''kind'') (prop_of e ''kind'') \<and> strict_eq (prop_of port ''type'') (prop_of e ''type'')
        \<and> strict_eq (prop_of port ''slotNumber'') (prop_of e ''slotNumber'')" if "e \<in> set E" for e
  proof -
    have "e \<in> set (canonical_from existing used ?ts)" using that E by simp
    then obtain t where t: "t \<in> set ?ts" "shows_template t e" by (blast dest: canonical_shown)
    then have key: "strict_eq (prop_of port ''key'') (prop_of e ''key'') \<longleftrightarrow> key_is (pt_key t) port" for port
      using key_is_eq [of "pt_key t" port] by (simp add: shows_template_def key_is_def)
    obtain c where "c \<in> set ?C" "shows_template t c" using canonical_for [OF t(1)] by blast
    then have "List.find (key_is (pt_key t)) (array_of (map_of ?item ''ports'')) \<noteq> None"
      unfolding ports find_None_iff_all by (auto simp: shows_template_def)
    then obtain port where port: "List.find (key_is (pt_key t)) (array_of (map_of ?item ''ports'')) = Some port" by auto
    then have "key_is (pt_key t) port" "port \<in> set (array_of (map_of ?item ''ports''))" by (auto dest: find_Some_iff_first)
    moreover from this keys_free_retained [OF assms(3) _ _ t(1)] have "port \<in> set ?C" unfolding ports by auto
    then obtain u where "u \<in> set ?ts" "shows_template u port" by (blast dest: canonical_shown)
    ultimately have "shows_template t port" using shown_once [OF template_keys_distinct t(1)] by blast
    with t(2) port show ?thesis unfolding key by (simp add: shows_template_def)
  qed
  show ?thesis
    unfolding assertCanonicalPowerTopology_def Let_def E_def [symmetric]
    using known found by (auto simp: check_each_Inr in_set_enumerate_eq)
qed

subsection \<open>Ids\<close>

definition ids_ok :: "jsv list \<Rightarrow> bool" where
  "ids_ok ports \<longleftrightarrow> list_all (\<lambda>p. port_id (prop_of p ''id'') \<noteq> None) ports \<and> distinct (map (\<lambda>p. port_id (prop_of p ''id'')) ports)"

fun canonical_ids :: "jsv list \<Rightarrow> int list \<Rightarrow> power_template list \<Rightarrow> int list" where
  "canonical_ids existing used [] = []"
| "canonical_ids existing used (t # ts) =
     (case Option.bind (List.find (key_is (pt_key t)) existing) (\<lambda>port. port_id (prop_of port ''id'')) of
        Some i \<Rightarrow> i # canonical_ids existing used ts
      | None \<Rightarrow> (let i = nextFreePositiveId used (pt_id t) in i # canonical_ids existing (i # used) ts))"

lemma canonical_from_ids:
  "map (\<lambda>p. prop_of p ''id'') (canonical_from existing used ts) = map (\<lambda>i. Some (JNum (of_int i))) (canonical_ids existing used ts)"
  by (induction existing used ts rule: canonical_from.induct) (auto simp: map_of_spread split: option.split)

text \<open>A canonical port has the id of the port with its key, or one that no port has.\<close>

definition kept_id :: "jsv list \<Rightarrow> power_template list \<Rightarrow> int \<Rightarrow> bool" where
  "kept_id existing ts i \<longleftrightarrow> (\<exists>t \<in> set ts. \<exists>p \<in> set existing. key_is (pt_key t) p \<and> port_id (prop_of p ''id'') = Some i)"

lemma canonical_ids_new: "i \<in> set (canonical_ids existing used ts) \<Longrightarrow> i \<notin> set used \<or> kept_id existing ts i"
proof (induction existing used ts rule: canonical_ids.induct)
  case (2 existing used t ts)
  let ?p = "Option.bind (List.find (key_is (pt_key t)) existing) (\<lambda>port. port_id (prop_of port ''id''))"
  show ?case
  proof (cases ?p)
    case None
    with 2 nextFree_unused [of used "pt_id t"] show ?thesis by (auto simp: kept_id_def)
  next
    case (Some j)
    then have "kept_id existing (t # ts) j" by (auto simp: kept_id_def bind_eq_Some_conv dest: find_Some_iff_first)
    with 2 Some show ?thesis by (auto simp: kept_id_def)
  qed
qed simp

lemma canonical_ids_distinct:
  "ids_ok existing \<Longrightarrow> distinct (map pt_key ts) \<Longrightarrow> (\<forall>p \<in> set existing. \<forall>i. port_id (prop_of p ''id'') = Some i \<longrightarrow> i \<in> set used)
     \<Longrightarrow> distinct (canonical_ids existing used ts)"
proof (induction existing used ts rule: canonical_ids.induct)
  case (2 existing used t ts)
  let ?p = "Option.bind (List.find (key_is (pt_key t)) existing) (\<lambda>port. port_id (prop_of port ''id''))"
  have same: "p = q" if "p \<in> set existing" "q \<in> set existing" "port_id (prop_of p ''id'') = port_id (prop_of q ''id'')" for p q
    using that 2(3) by (auto simp: ids_ok_def distinct_map inj_on_def)
  have used: "kept_id existing ts i \<Longrightarrow> i \<in> set used" for i using 2(5) by (auto simp: kept_id_def)
  show ?case
  proof (cases ?p)
    case None
    let ?i = "nextFreePositiveId used (pt_id t)"
    have "distinct (canonical_ids existing (?i # used) ts)" using 2 None by simp
    with None canonical_ids_new [of ?i existing "?i # used" ts] used [of ?i] nextFree_unused [of used "pt_id t"] show ?thesis by auto
  next
    case (Some j)
    then obtain p where p: "p \<in> set existing" "key_is (pt_key t) p" "port_id (prop_of p ''id'') = Some j"
      by (auto simp: bind_eq_Some_conv dest: find_Some_iff_first)
    have "j \<in> set used" using p(1,3) 2(5) by blast
    moreover have "\<not> kept_id existing ts j"
      using p same 2(4) by (fastforce simp: kept_id_def key_is_def)
    ultimately have "j \<notin> set (canonical_ids existing used ts)" using canonical_ids_new by blast
    with Some 2 show ?thesis by simp
  qed
qed simp

lemma canonical_ports_ids:
  assumes "one_of POWER_ITEM_TYPES (map_of item ''type'')" "keys_free item" "ids_ok (item_ports item)"
  shows "distinct (map (\<lambda>p. prop_of p ''id'') (item_ports (withCanonicalPowerPorts item)))"
proof -
  let ?N = "normalized_ports item" and ?ts = "canonicalPowerPortTemplates item"
  let ?used = "List.map_filter (\<lambda>p. port_id (prop_of p ''id'')) ?N" and ?R = "filter (\<lambda>p. \<not> is_power_endpoint p) ?N"
  have ids: "map (\<lambda>p. prop_of p ''id'') ?N = map (\<lambda>p. prop_of p ''id'') (item_ports item)"
    by (simp add: normalized_ports_def item_ports_def keyed_ports_ids)
  have "map port_id (map (\<lambda>p. prop_of p ''id'') ?N) = map port_id (map (\<lambda>p. prop_of p ''id'') (item_ports item))"
    by (simp only: ids)
  then have same: "map (\<lambda>p. port_id (prop_of p ''id'')) ?N = map (\<lambda>p. port_id (prop_of p ''id'')) (item_ports item)"
    by (simp add: o_def)
  have all: "list_all (\<lambda>p. f p \<noteq> None) xs \<longleftrightarrow> None \<notin> set (map f xs)" for f :: "jsv \<Rightarrow> int option" and xs
    by (induction xs) auto
  have N: "ids_ok ?N" using assms(3) unfolding ids_ok_def all same .
  have used: "\<forall>p \<in> set ?N. \<forall>i. port_id (prop_of p ''id'') = Some i \<longrightarrow> i \<in> set ?used"
    by (force simp: List.map_filter_def image_iff)
  have dist: "distinct (canonical_ids ?N ?used ?ts)" by (rule canonical_ids_distinct [OF N template_keys_distinct used])
  have raw: "prop_of p ''id'' = Some (JNum (of_int i)) \<Longrightarrow> p \<in> set ?N \<Longrightarrow> port_id (prop_of p ''id'') = Some i" for p i
    using N by (auto simp: ids_ok_def list_all_iff split: if_splits)
  have apart: "prop_of r ''id'' \<noteq> Some (JNum (of_int i))" if "r \<in> set ?R" "i \<in> set (canonical_ids ?N ?used ?ts)" for r i
  proof
    assume r: "prop_of r ''id'' = Some (JNum (of_int i))"
    with that(1) raw have rid: "port_id (prop_of r ''id'') = Some i" "r \<in> set ?N" by auto
    then have "kept_id ?N ?ts i" using canonical_ids_new [OF that(2)] used by blast
    then obtain t p where p: "t \<in> set ?ts" "p \<in> set ?N" "key_is (pt_key t) p" "port_id (prop_of p ''id'') = Some i"
      by (auto simp: kept_id_def)
    then have "p = r" using rid N by (auto simp: ids_ok_def distinct_map inj_on_def)
    with keys_free_retained [OF assms(2) p(2) _ p(1)] p(3) that(1) show False by simp
  qed
  have "distinct (map (\<lambda>p. port_id (prop_of p ''id'')) ?R)" using N by (simp add: ids_ok_def distinct_map_filter)
  then have "distinct (map port_id (map (\<lambda>p. prop_of p ''id'') ?R))" by (simp add: o_def)
  then have "distinct (map (\<lambda>p. prop_of p ''id'') ?R)" by (simp only: distinct_map)
  moreover have "distinct (map (\<lambda>i. Some (JNum (of_int i))) (canonical_ids ?N ?used ?ts))"
    using dist by (simp add: distinct_map inj_on_def)
  moreover have "set (map (\<lambda>p. prop_of p ''id'') ?R) \<inter> set (map (\<lambda>i. Some (JNum (of_int i))) (canonical_ids ?N ?used ?ts)) = {}"
    using apart by fastforce
  ultimately show ?thesis unfolding with_canonical_ports(1) [OF assms(1)] map_append canonical_from_ids distinct_append by blast
qed

section \<open>Properties\<close>

text \<open>C28: Round trip: an item that has been given its canonical power ports passes the validation of the server, and its
  ports have distinct ids.  Whatever power ports the item had and in whatever order, \<open>assertCanonicalPowerTopology\<close> accepts the
  result of \<open>withCanonicalPowerPorts\<close>, provided that no port of another kind has the key of a canonical power port; and when
  the item's ports had distinct relational ids, so have the resulting ones.\<close>

theorem canonical_ports_accepted:
  assumes "map_of item ''type'' = Some (JStr type)" "type \<in> set POWER_ITEM_TYPES" "keys_free item"
  shows "assertCanonicalPowerTopology itemId (withCanonicalPowerPorts item) type allowLegacyIds = Inr ()
    \<and> (ids_ok (item_ports item) \<longrightarrow> distinct (map (\<lambda>p. prop_of p ''id'') (item_ports (withCanonicalPowerPorts item))))"
  using canonical_accepted [OF assms] canonical_ports_ids [OF _ assms(3)] assms(1,2) by simp

text \<open>A UPS with one battery outlet and one surge outlet, of whose ports one has lost its key, one is of no use any more and one
  is a network port.\<close>

definition sample_ups :: obj where
  "sample_ups =
     [(''id'', JNum 1), (''type'', JStr ''ups''), (''name'', JStr ''UPS''),
      (''specs'', JObj [(''outlets'', JNum 2), (''batteryBackupOutlets'', JNum 1)]),
      (''ports'', JArr
        [JObj [(''id'', JNum 4), (''kind'', JStr ''power-port''), (''type'', JStr ''ac-outlet''), (''slotNumber'', JNum 2)],
         JObj [(''id'', JNum 9), (''key'', JStr ''outlet-7''), (''kind'', JStr ''power-port''), (''type'', JStr ''ac-outlet''),
               (''slotNumber'', JNum 7)],
         JObj [(''id'', JNum 1), (''key'', JStr ''lan''), (''kind'', JStr ''network''), (''type'', JStr ''rj45''), (''slotNumber'', JNum 1)]])]"

theorem canonical_ports_accepted_witness:
  "assertCanonicalPowerTopology ''ups:1'' (withCanonicalPowerPorts sample_ups) ''ups'' False = Inr ()
   \<and> map (\<lambda>p. (prop_of p ''id'', prop_of p ''key'')) (item_ports (withCanonicalPowerPorts sample_ups))
     = [(Some (JNum 1), Some (JStr ''lan'')), (Some (JNum 2), Some (JStr ''battery-outlet-1'')),
        (Some (JNum 4), Some (JStr ''surge-outlet-1''))]"
proof
  have type: "map_of sample_ups ''type'' = Some (JStr ''ups'')" "''ups'' \<in> set POWER_ITEM_TYPES" by code_simp+
  have "keys_free sample_ups" by code_simp
  from canonical_ports_accepted [OF type this]
  show "assertCanonicalPowerTopology ''ups:1'' (withCanonicalPowerPorts sample_ups) ''ups'' False = Inr ()" by blast
qed code_simp

end
