(* ===== verification/Stored_Inventory.thy ===== *)
theory Stored_Inventory
  imports Power_Ports
begin

text \<open>
  The validation of inventory documents: \<open>assertInventoryItem\<close>, the shape of the inventory store and what they call in
  \<open>server/db/validation.mjs\<close>.  \<open>Date.parse\<close> accepts strings that the language leaves to the implementation, so whether a
  string is a date is an argument (\<open>isDate\<close>).
\<close>

section \<open>Definitions\<close>

record shape_options =
  so_allowLegacyIds :: bool
  so_allowLegacyMissingSwitchSpeed :: bool
  so_runtimeReferences :: bool
  so_requireRevision :: bool

definition default_options :: shape_options where
  "default_options = \<lparr>so_allowLegacyIds = False, so_allowLegacyMissingSwitchSpeed = False, so_runtimeReferences = False,
     so_requireRevision = False\<rparr>"

definition server_inventory_types :: "string list" where
  "server_inventory_types =
     [''server'', ''nas'', ''pcBuild'', ''switch'', ''patchPanel'', ''monitor'', ''ups'', ''powerStrip'', ''cpu'', ''ram'', ''storage'',
      ''gpu'', ''network'', ''motherboard'', ''cpuCooler'', ''case'', ''powerSupply'', ''soundCard'', ''powerAdapter'', ''wireless'']"

definition server_component_types :: "string list" where
  "server_component_types =
     [''cpu'', ''ram'', ''storage'', ''gpu'', ''network'', ''motherboard'', ''cpuCooler'', ''case'', ''powerSupply'', ''soundCard'',
      ''powerAdapter'', ''wireless'']"

definition table_types :: "(string \<times> string) list" where
  "table_types =
     [(''servers'', ''server''), (''pcBuilds'', ''pcBuild''), (''cpus'', ''cpu''), (''ram'', ''ram''), (''storage'', ''storage''),
      (''networkCards'', ''network''), (''gpus'', ''gpu''), (''motherboards'', ''motherboard''), (''cpuCoolers'', ''cpuCooler''),
      (''cases'', ''case''), (''powerSupplies'', ''powerSupply''), (''soundCards'', ''soundCard''), (''wirelessCards'', ''wireless''),
      (''powerAdapters'', ''powerAdapter''), (''nas'', ''nas''), (''switches'', ''switch''), (''patchPanels'', ''patchPanel''),
      (''monitors'', ''monitor''), (''upsSystems'', ''ups''), (''powerStrips'', ''powerStrip'')]"

definition port_kind_names :: "string list" where
  "port_kind_names = [''switch-port'', ''keystone'', ''server-port'', ''power-port'', ''network'', ''video'']"

definition port_type_names :: "string list" where
  "port_type_names = [''rj45'', ''sfp'', ''sfp-plus'', ''hdmi'', ''displayport'', ''mini-displayport'', ''barrel'', ''ac-input'', ''ac-outlet'']"

definition port_role_names :: "string list" where
  "port_role_names = [''access'', ''trunk'', ''uplink'', ''management'', ''disabled'']"

definition memory_form_factor_names :: "string list" where
  "memory_form_factor_names = [''DIMM'', ''SO-DIMM'', ''Onboard'']"

definition memory_module_names :: "string list" where
  "memory_module_names = [''UDIMM'', ''RDIMM'', ''LRDIMM'', ''Onboard'']"

definition interface_family_names :: "string list" where
  "interface_family_names = [''pcie'', ''m2-ae'', ''usb'', ''onboard'']"

definition constraint_collections :: "(string \<times> string) list" where
  "constraint_collections =
     [(''storage-slot'', ''storageSlots''), (''expansion-slot'', ''expansionSlots''), (''optional-module-slot'', ''optionalModuleSlots''),
      (''controller-slot'', ''controllerSlots''), (''boot-device-slot'', ''bootDeviceSlots''), (''cooling-profile'', ''coolingProfiles'')]"

subsection \<open>Groups of resources\<close>

definition unit_of :: "string + 'a \<Rightarrow> string + unit" where
  "unit_of r = map_sum (\<lambda>e. e) (\<lambda>_. ()) r"

text \<open>Each group claims its id, trimmed when it is a legacy one, and then its key.\<close>

definition assertCompatibilityGroupIds :: "jsv list \<Rightarrow> string \<Rightarrow> bool \<Rightarrow> string + unit" where
  "assertCompatibilityGroupIds groups path legacy =
     claims [] (concat (map (\<lambda>(i, g).
       let idPath = at_index path i @ ''.id''; keyPath = at_index path i @ ''.key'';
           id = (if legacy then assertLegacyCompatibilityGroupId (prop_of g ''id'') idPath
                 else map_sum (\<lambda>e. e) (\<lambda>_. the (prop_of g ''id'')) (requireRelationalId (prop_of g ''id'') idPath));
           key = (case prop_of g ''key'' of
               Some JNull \<Rightarrow> if legacy then Some (JStr (string_of (prop_of g ''id''))) else None
             | None \<Rightarrow> if legacy then Some (JStr (string_of (prop_of g ''id''))) else None
             | k \<Rightarrow> k)
       in [try_eval id (\<lambda>id. claim_key (assertRequiredString key keyPath) (Inl id) () (\<lambda>_. idPath @ '' must be unique.'')),
           claim_key (Inr ()) (Inr key) () (\<lambda>_. keyPath @ '' must be unique.'')])
       (enumerate 0 groups)))"

text \<open>What every group begins with.\<close>

definition group_identity :: "bool \<Rightarrow> jsv \<Rightarrow> string \<Rightarrow> string + unit" where
  "group_identity legacy g path = checks
     [assertOptionalObject (Some g) path,
      (if legacy then checks [unit_of (assertLegacyCompatibilityGroupId (prop_of g ''id'') (path @ ''.id'')),
                              optional (prop_of g ''key'') (\<lambda>k. assertRequiredString (Some k) (path @ ''.key''))]
       else checks [requireRelationalId (prop_of g ''id'') (path @ ''.id''), assertRequiredString (prop_of g ''key'') (path @ ''.key'')]),
      assertRequiredString (prop_of g ''label'') (path @ ''.label'')]"

definition positive_count :: "jsv \<Rightarrow> string \<Rightarrow> string + unit" where
  "positive_count g path = check (number_with (\<lambda>r. isInteger_rat r \<and> 1 \<le> r) (prop_of g ''count'')) (path @ ''.count must be a positive integer.'')"

text \<open>The groups of a collection, each with the checks of its kind.\<close>

definition group_collection :: "(jsv \<Rightarrow> string \<Rightarrow> (string + unit) list) \<Rightarrow> jsv option \<Rightarrow> string \<Rightarrow> bool \<Rightarrow> string + unit" where
  "group_collection f v path legacy = optional v (\<lambda>v. checks
     [check (is_array (Some v)) (path @ '' must be an array.''),
      check_each (\<lambda>i g. checks (group_identity legacy g (at_index path i) # f g (at_index path i))) (array_of (Some v)),
      assertCompatibilityGroupIds (array_of (Some v)) path legacy])"

definition assertStorageSlots :: "jsv option \<Rightarrow> string \<Rightarrow> bool \<Rightarrow> string + unit" where
  "assertStorageSlots = group_collection (\<lambda>g path.
     [positive_count g path,
      assertOptionalStringArray (prop_of g ''interfaces'') (path @ ''.interfaces''),
      assertOptionalStringArray (prop_of g ''formFactors'') (path @ ''.formFactors''),
      assertOptionalPositiveNumber (prop_of g ''pcieGeneration'') (path @ ''.pcieGeneration''),
      assertOptionalString (prop_of g ''location'') (path @ ''.location''),
      assertOptionalBoolean (prop_of g ''hotSwap'') (path @ ''.hotSwap''),
      assertOptionalString (prop_of g ''backplane'') (path @ ''.backplane''),
      assertOptionalPositiveIntegerArray (prop_of g ''controllerSlotIds'') (path @ ''.controllerSlotIds''),
      assertOptionalBoolean (prop_of g ''directConnect'') (path @ ''.directConnect'')])"

definition assertExpansionSlots :: "jsv option \<Rightarrow> string \<Rightarrow> bool \<Rightarrow> string + unit" where
  "assertExpansionSlots = group_collection (\<lambda>g path.
     [positive_count g path,
      check (one_of interface_family_names (prop_of g ''interfaceFamily'')) (path @ ''.interfaceFamily has an unsupported value.''),
      assertOptionalPositiveNumber (prop_of g ''pcieGeneration'') (path @ ''.pcieGeneration''),
      assertOptionalPositiveInteger (prop_of g ''mechanicalLanes'') (path @ ''.mechanicalLanes''),
      assertOptionalPositiveInteger (prop_of g ''electricalLanes'') (path @ ''.electricalLanes''),
      optional (prop_of g ''acceptedHeights'') (\<lambda>v. checks
        [check (is_array (Some v)) (path @ ''.acceptedHeights must be an array.''),
         check_each (\<lambda>i h. assertOptionalEnum (Some h) [''full-height'', ''low-profile''] (at_index (path @ ''.acceptedHeights'') i))
           (array_of (Some v))]),
      assertOptionalPositiveInteger (prop_of g ''maxSlotWidth'') (path @ ''.maxSlotWidth''),
      assertOptionalNonNegativeNumber (prop_of g ''maxPowerWatts'') (path @ ''.maxPowerWatts''),
      assertOptionalBoolean (prop_of g ''proprietaryRiser'') (path @ ''.proprietaryRiser''),
      assertOptionalString (prop_of g ''riserCapability'') (path @ ''.riserCapability''),
      assertOptionalPositiveInteger (prop_of g ''requiredCpuSockets'') (path @ ''.requiredCpuSockets''),
      assertOptionalString (prop_of g ''riserGroup'') (path @ ''.riserGroup'')])"

definition assertCountedResourceGroups :: "(jsv \<Rightarrow> string \<Rightarrow> (string + unit) list) \<Rightarrow> jsv option \<Rightarrow> string \<Rightarrow> bool \<Rightarrow> string + unit" where
  "assertCountedResourceGroups validateGroup = group_collection (\<lambda>g path. positive_count g path # validateGroup g path)"

definition assertConstraintGroups :: "jsv option \<Rightarrow> string \<Rightarrow> bool \<Rightarrow> string + unit" where
  "assertConstraintGroups = group_collection (\<lambda>g path.
     [check (one_of [''mutually-exclusive''] (prop_of g ''kind'')) (path @ ''.kind has an unsupported value.''),
      check (is_array (prop_of g ''members'') \<and> 2 \<le> length (array_of (prop_of g ''members'')))
        (path @ ''.members must contain at least two resources.''),
      check_each (\<lambda>i m. let memberPath = at_index (path @ ''.members'') i in checks
        [assertOptionalObject (Some m) memberPath,
         check (one_of (map fst constraint_collections) (prop_of m ''resourceType'')) (memberPath @ ''.resourceType has an unsupported value.''),
         requireRelationalId (prop_of m ''resourceId'') (memberPath @ ''.resourceId'')])
        (array_of (prop_of g ''members''))])"

definition assertMotherboardPowerConnectors :: "jsv option \<Rightarrow> string \<Rightarrow> bool \<Rightarrow> string + unit" where
  "assertMotherboardPowerConnectors = group_collection (\<lambda>g path.
     [assertOptionalEnum (prop_of g ''kind'') [''main-power'', ''cpu-power''] (path @ ''.kind''),
      assertRequiredString (prop_of g ''connector'') (path @ ''.connector''),
      positive_count g path,
      check (case prop_of g ''required'' of Some (JBool _) \<Rightarrow> True | _ \<Rightarrow> False) (path @ ''.required must be a boolean.'')])"

fun num_greater :: "jsv option \<Rightarrow> jsv option \<Rightarrow> bool" where
  "num_greater (Some (JNum a)) (Some (JNum b)) = (a > b)"
| "num_greater _ _ = False"

definition has_group :: "jsv \<Rightarrow> string \<Rightarrow> jsv option \<Rightarrow> bool" where
  "has_group host collection i = list_ex (\<lambda>g. strict_eq (prop_of g ''id'') i) (array_of (prop_of host collection))"

definition storage_controllers :: "jsv \<Rightarrow> string \<Rightarrow> string + unit" where
  "storage_controllers host base =
     check_each (\<lambda>i g. check_each (\<lambda>_ c. check (has_group host ''controllerSlots'' (Some c))
         (at_index (base @ ''.storageSlots'') i @ ''.controllerSlotIds references missing controller slot '' @ js_text c @ ''.''))
       (array_of (prop_of g ''controllerSlotIds''))) (array_of (prop_of host ''storageSlots''))"

definition boot_controllers :: "jsv \<Rightarrow> string \<Rightarrow> string + unit" where
  "boot_controllers host base =
     check_each (\<lambda>i g. optional (prop_of g ''controllerSlotId'') (\<lambda>c. check (has_group host ''controllerSlots'' (Some c))
         (at_index (base @ ''.bootDeviceSlots'') i @ ''.controllerSlotId references missing controller slot '' @ js_text c @ ''.'')))
       (array_of (prop_of host ''bootDeviceSlots''))"

definition required_sockets :: "jsv \<Rightarrow> string \<Rightarrow> string + unit" where
  "required_sockets host base =
     checks (map (\<lambda>collection. check_each (\<lambda>i g.
         check (\<not> num_greater (prop_of g ''requiredCpuSockets'') (opt_prop (prop_of host ''cpu'') ''socketCount''))
           (at_index (base @ ''.'' @ collection) i @ ''.requiredCpuSockets exceeds the CPU socket count.''))
       (array_of (prop_of host collection))) [''expansionSlots'', ''controllerSlots'', ''bootDeviceSlots''])"

fun member_resolves :: "jsv \<Rightarrow> jsv option \<Rightarrow> jsv option \<Rightarrow> bool" where
  "member_resolves host (Some (JStr t)) resource =
     (case map_of constraint_collections t of Some collection \<Rightarrow> has_group host collection resource | None \<Rightarrow> False)"
| "member_resolves host _ resource = False"

definition constraint_members :: "jsv \<Rightarrow> string \<Rightarrow> string + unit" where
  "constraint_members host base =
     check_each (\<lambda>i g. check_each (\<lambda>j m. check (member_resolves host (prop_of m ''resourceType'') (prop_of m ''resourceId''))
         (at_index (at_index (base @ ''.constraintGroups'') i @ ''.members'') j @ '' references a missing resource.''))
       (array_of (prop_of g ''members''))) (array_of (prop_of host ''constraintGroups''))"

definition assertHostTopologyReferences :: "jsv \<Rightarrow> string \<Rightarrow> bool \<Rightarrow> string + unit" where
  "assertHostTopologyReferences host base legacy =
     (if legacy then Inr ()
      else checks [storage_controllers host base, boot_controllers host base, required_sockets host base, constraint_members host base])"

subsection \<open>Compatibility data\<close>

definition host_cpu_checks :: "jsv \<Rightarrow> string \<Rightarrow> string + unit" where
  "host_cpu_checks cpu path = checks
     [assertOptionalObject (Some cpu) path,
      assertOptionalStringArray (prop_of cpu ''sockets'') (path @ ''.sockets''),
      assertOptionalStringArray (prop_of cpu ''generations'') (path @ ''.generations''),
      assertOptionalNonNegativeNumber (prop_of cpu ''maxTdpWatts'') (path @ ''.maxTdpWatts''),
      assertOptionalPositiveInteger (prop_of cpu ''socketCount'') (path @ ''.socketCount''),
      assertOptionalPositiveIntegerArray (prop_of cpu ''populationModes'') (path @ ''.populationModes''),
      check (\<not> list_ex (\<lambda>mode. num_greater (Some mode) (prop_of cpu ''socketCount'')) (array_of (prop_of cpu ''populationModes'')))
        (path @ ''.populationModes cannot exceed socketCount.'')]"

definition host_memory_checks :: "jsv \<Rightarrow> string \<Rightarrow> string + unit" where
  "host_memory_checks memory path = checks
     ([assertOptionalObject (Some memory) path,
       assertOptionalStringArray (prop_of memory ''generations'') (path @ ''.generations''),
       assertOptionalNonNegativeInteger (prop_of memory ''slots'') (path @ ''.slots''),
       assertOptionalNonNegativeNumber (prop_of memory ''maxCapacityGb'') (path @ ''.maxCapacityGb''),
       assertOptionalNonNegativeNumber (prop_of memory ''maxModuleCapacityGb'') (path @ ''.maxModuleCapacityGb'')]
      @ map (\<lambda>f. assertOptionalNonNegativeInteger (prop_of memory f) (path @ ''.'' @ f))
          [''oemMaxCapacityMib'', ''oemMaxModuleCapacityMib'', ''verifiedMaxCapacityMib'', ''verifiedMaxModuleCapacityMib'']
      @ [check (\<not> (prop_of memory ''slots'' = Some (JNum 0)
           \<and> (prop_of memory ''maxModuleCapacityGb'' \<noteq> None \<or> prop_of memory ''oemMaxModuleCapacityMib'' \<noteq> None
              \<or> prop_of memory ''verifiedMaxModuleCapacityMib'' \<noteq> None)))
           (path @ '' cannot declare module capacity limits with zero replaceable slots.''),
         assertOptionalNonNegativeNumber (prop_of memory ''maxSpeedMt'') (path @ ''.maxSpeedMt''),
         assertOptionalEnum (prop_of memory ''eccSupport'') [''supported'', ''unsupported'', ''conditional'', ''unknown''] (path @ ''.eccSupport''),
         assertOptionalPositiveInteger (prop_of memory ''slotsPerCpu'') (path @ ''.slotsPerCpu''),
         assertOptionalEnumArray (prop_of memory ''formFactors'') memory_form_factor_names (path @ ''.formFactors''),
         assertOptionalEnumArray (prop_of memory ''moduleTypes'') memory_module_names (path @ ''.moduleTypes'')])"

definition host_management_checks :: "jsv \<Rightarrow> string \<Rightarrow> string + unit" where
  "host_management_checks m path = checks
     [assertOptionalObject (Some m) path,
      assertOptionalString (prop_of m ''controllerFamily'') (path @ ''.controllerFamily''),
      assertOptionalString (prop_of m ''controllerGeneration'') (path @ ''.controllerGeneration''),
      assertOptionalBoolean (prop_of m ''dedicatedPort'') (path @ ''.dedicatedPort''),
      assertOptionalBoolean (prop_of m ''sharedNic'') (path @ ''.sharedNic''),
      assertOptionalString (prop_of m ''portType'') (path @ ''.portType''),
      assertOptionalString (prop_of m ''speed'') (path @ ''.speed'')]"

definition host_power_checks :: "jsv \<Rightarrow> string \<Rightarrow> string + unit" where
  "host_power_checks pw path = checks
     [assertOptionalObject (Some pw) path,
      assertOptionalEnum (prop_of pw ''adapterDisposition'') [''fixed'', ''replaceable''] (path @ ''.adapterDisposition''),
      optional (prop_of pw ''supportedPowerMw'') (\<lambda>v. checks
        [check (is_array (Some v)) (path @ ''.supportedPowerMw must be an array.''),
         check_each (\<lambda>i x. assertOptionalPositiveInteger (Some x) (at_index (path @ ''.supportedPowerMw'') i)) (array_of (Some v))]),
      check (\<not> (prop_of pw ''configuration'' = Some (JStr ''external-adapter'')
           \<and> \<not> one_of [''fixed'', ''replaceable''] (prop_of pw ''adapterDisposition'')))
        (path @ ''.adapterDisposition is required for an external adapter.''),
      check (\<not> (prop_of pw ''configuration'' = Some (JStr ''internal-psu'') \<and> prop_of pw ''adapterDisposition'' \<noteq> None))
        (path @ ''.adapterDisposition must be omitted for an internal PSU.''),
      assertOptionalEnum (prop_of pw ''redundancy'') [''none'', ''optional'', ''required'', ''supported''] (path @ ''.redundancy''),
      assertOptionalNonNegativeNumber (prop_of pw ''maxGraphicsPowerWatts'') (path @ ''.maxGraphicsPowerWatts''),
      assertOptionalPositiveInteger (prop_of pw ''psuBayCount'') (path @ ''.psuBayCount''),
      assertOptionalEnum (prop_of pw ''psuType'') [''fixed'', ''cabled'', ''hot-plug''] (path @ ''.psuType''),
      assertOptionalBoolean (prop_of pw ''mixedPsuAllowed'') (path @ ''.mixedPsuAllowed''),
      assertOptionalStringArray (prop_of pw ''redundancyModes'') (path @ ''.redundancyModes'')]"

definition host_checks :: "jsv \<Rightarrow> string \<Rightarrow> bool \<Rightarrow> string + unit" where
  "host_checks host path legacy = checks
     [assertOptionalObject (Some host) path,
      optional (prop_of host ''cpu'') (\<lambda>v. host_cpu_checks v (path @ ''.cpu'')),
      optional (prop_of host ''memory'') (\<lambda>v. host_memory_checks v (path @ ''.memory'')),
      assertStorageSlots (prop_of host ''storageSlots'') (path @ ''.storageSlots'') legacy,
      assertExpansionSlots (prop_of host ''expansionSlots'') (path @ ''.expansionSlots'') legacy,
      assertMotherboardPowerConnectors (prop_of host ''powerConnectors'') (path @ ''.powerConnectors'') legacy,
      assertCountedResourceGroups
        (\<lambda>g path. [assertOptionalStringArray (prop_of g ''acceptedModuleKinds'') (path @ ''.acceptedModuleKinds'')])
        (prop_of host ''optionalModuleSlots'') (path @ ''.optionalModuleSlots'') legacy,
      assertCountedResourceGroups
        (\<lambda>g path. [assertOptionalStringArray (prop_of g ''acceptedControllerKinds'') (path @ ''.acceptedControllerKinds''),
                   assertOptionalString (prop_of g ''interfaceFamily'') (path @ ''.interfaceFamily''),
                   assertOptionalBoolean (prop_of g ''dedicated'') (path @ ''.dedicated''),
                   assertOptionalPositiveInteger (prop_of g ''requiredCpuSockets'') (path @ ''.requiredCpuSockets'')])
        (prop_of host ''controllerSlots'') (path @ ''.controllerSlots'') legacy,
      assertCountedResourceGroups
        (\<lambda>g path. [assertOptionalStringArray (prop_of g ''acceptedDeviceKinds'') (path @ ''.acceptedDeviceKinds''),
                   assertOptionalStringArray (prop_of g ''interfaces'') (path @ ''.interfaces''),
                   assertOptionalStringArray (prop_of g ''formFactors'') (path @ ''.formFactors''),
                   optional (prop_of g ''controllerSlotId'') (\<lambda>v. requireRelationalId (Some v) (path @ ''.controllerSlotId'')),
                   assertOptionalPositiveInteger (prop_of g ''requiredCpuSockets'') (path @ ''.requiredCpuSockets'')])
        (prop_of host ''bootDeviceSlots'') (path @ ''.bootDeviceSlots'') legacy,
      assertCountedResourceGroups
        (\<lambda>g path. [assertOptionalNonNegativeNumber (prop_of g ''fanCount'') (path @ ''.fanCount''),
                   assertOptionalBoolean (prop_of g ''redundant'') (path @ ''.redundant''),
                   assertOptionalStringArray (prop_of g ''conditions'') (path @ ''.conditions'')])
        (prop_of host ''coolingProfiles'') (path @ ''.coolingProfiles'') legacy,
      optional (prop_of host ''management'') (\<lambda>v. host_management_checks v (path @ ''.management'')),
      assertConstraintGroups (prop_of host ''constraintGroups'') (path @ ''.constraintGroups'') legacy,
      optional (prop_of host ''power'') (\<lambda>v. host_power_checks v (path @ ''.power'')),
      assertOptionalNonNegativeNumber (prop_of host ''maxExpansionPowerWatts'') (path @ ''.maxExpansionPowerWatts''),
      assertHostTopologyReferences host path legacy]"

definition requirement_checks :: "jsv \<Rightarrow> string \<Rightarrow> string + unit" where
  "requirement_checks requirements path = checks
     [assertOptionalObject (Some requirements) path,
      optional (prop_of requirements ''cpu'') (\<lambda>cpu. checks
        [assertOptionalObject (Some cpu) (path @ ''.cpu''),
         assertOptionalString (prop_of cpu ''socket'') (path @ ''.cpu.socket''),
         assertOptionalString (prop_of cpu ''generation'') (path @ ''.cpu.generation''),
         assertOptionalNonNegativeNumber (prop_of cpu ''tdpWatts'') (path @ ''.cpu.tdpWatts'')]),
      optional (prop_of requirements ''memory'') (\<lambda>memory. checks
        [assertOptionalObject (Some memory) (path @ ''.memory''),
         assertOptionalPositiveNumber (prop_of memory ''capacityGb'') (path @ ''.memory.capacityGb''),
         assertOptionalString (prop_of memory ''generation'') (path @ ''.memory.generation''),
         assertOptionalPositiveNumber (prop_of memory ''speedMt'') (path @ ''.memory.speedMt''),
         assertOptionalEnum (prop_of memory ''formFactor'') memory_form_factor_names (path @ ''.memory.formFactor''),
         assertOptionalEnum (prop_of memory ''moduleType'') memory_module_names (path @ ''.memory.moduleType''),
         assertOptionalBoolean (prop_of memory ''ecc'') (path @ ''.memory.ecc'')]),
      optional (prop_of requirements ''expansion'') (\<lambda>expansion. checks
        [assertOptionalObject (Some expansion) (path @ ''.expansion''),
         assertOptionalEnum (prop_of expansion ''interfaceFamily'') interface_family_names (path @ ''.expansion.interfaceFamily''),
         assertOptionalPositiveNumber (prop_of expansion ''pcieGeneration'') (path @ ''.expansion.pcieGeneration''),
         assertOptionalPositiveInteger (prop_of expansion ''connectorLanes'') (path @ ''.expansion.connectorLanes''),
         assertOptionalPositiveInteger (prop_of expansion ''minimumElectricalLanes'') (path @ ''.expansion.minimumElectricalLanes''),
         assertOptionalEnum (prop_of expansion ''height'') [''full-height'', ''low-profile''] (path @ ''.expansion.height''),
         assertOptionalPositiveInteger (prop_of expansion ''slotWidth'') (path @ ''.expansion.slotWidth''),
         assertOptionalNonNegativeNumber (prop_of expansion ''powerWatts'') (path @ ''.expansion.powerWatts'')])]"

definition assertInventoryCompatibility :: "string \<Rightarrow> jsv option \<Rightarrow> bool \<Rightarrow> string + unit" where
  "assertInventoryCompatibility itemId compatibility legacy = optional compatibility (\<lambda>c.
     let base = ''Inventory item '' @ itemId @ '' compatibility'' in checks
       [assertOptionalObject (Some c) base,
        optional (prop_of c ''host'') (\<lambda>host. host_checks host (base @ ''.host'') legacy),
        optional (prop_of c ''requirements'') (\<lambda>requirements. requirement_checks requirements (base @ ''.requirements''))])"

subsection \<open>Items\<close>

definition hardware_checks :: "string \<Rightarrow> jsv \<Rightarrow> (string + unit) list" where
  "hardware_checks label item =
     [check (one_of [''desktop'', ''workstation'', ''server''] (prop_of item ''hardwareClass''))
        (label @ '' must declare a valid hardware class.''),
      check (one_of [''server'', ''desktop'', ''workstation'', ''other''] (prop_of item ''usageRole''))
        (label @ '' must declare a valid usage role.'')]"

definition ram_checks :: "string \<Rightarrow> jsv \<Rightarrow> (string + unit) list" where
  "ram_checks label item =
     (let specs = prop_of item ''specs''; spec = opt_prop specs;
          requirements = opt_prop (opt_prop (prop_of item ''compatibility'') ''requirements'') ''memory''
      in [check (prop_of item ''secondaryManufacturer'' = None \<and> spec ''moduleCount'' = None \<and> spec ''secondarySpeedMt'' = None
            \<and> spec ''module'' = None \<and> spec ''modules'' = None) (label @ '' must represent one physical RAM stick.''),
          check (number_with (\<lambda>r. 0 < r) (spec ''capacityGb'')) (label @ '' RAM capacityGb must be a positive number per stick.''),
          check (spec ''speed'' = None) (label @ '' RAM specs.speed is legacy; use specs.speedMt.''),
          assertOptionalPositiveNumber (spec ''speedMt'') (label @ ''.specs.speedMt''),
          assertOptionalString (spec ''generation'') (label @ ''.specs.generation''),
          assertOptionalString (spec ''formFactor'') (label @ ''.specs.formFactor''),
          assertOptionalEnum (spec ''moduleType'') memory_module_names (label @ ''.specs.moduleType''),
          assertOptionalBoolean (spec ''ecc'') (label @ ''.specs.ecc''),
          assertOptionalString (spec ''rank'') (label @ ''.specs.rank''),
          assertOptionalPositiveNumber (spec ''voltageVolts'') (label @ ''.specs.voltageVolts''),
          check (\<not> (one_of [''RDIMM'', ''LRDIMM''] (spec ''moduleType'') \<and> spec ''ecc'' = Some (JBool False)))
            (label @ '' '' @ string_of (spec ''moduleType'') @ '' memory must use ECC.''),
          (if truthy requirements then checks (map (\<lambda>f.
               check (opt_prop requirements f = None \<or> spec f = None \<or> strict_eq (opt_prop requirements f) (spec f))
                 (label @ '' RAM '' @ f @ '' contradicts its structured requirement.''))
               [''capacityGb'', ''generation'', ''speedMt'', ''formFactor'', ''moduleType'', ''ecc''])
           else Inr ())])"

text \<open>A fixed component claims its id and then passes the rest of its checks.\<close>

definition fixed_component_claims :: "string \<Rightarrow> jsv \<Rightarrow> (jsv option, unit) claim list" where
  "fixed_component_claims path c =
     [claim_key (checks [check (is_object (Some c)) (path @ '' must be an object.''),
                         requireRelationalId (prop_of c ''id'') (path @ ''.id'')])
        (prop_of c ''id'') () (\<lambda>_. path @ ''.id must be unique within the host.''),
      claim_none (checks
        [assertOptionalEnum (prop_of c ''disposition'') [''fixed'', ''soldered''] (path @ ''.disposition''),
         check (truthy (prop_of c ''disposition'')) (path @ ''.disposition is required.''),
         assertOptionalString (prop_of c ''componentType'') (path @ ''.componentType''),
         assertOptionalString (prop_of c ''label'') (path @ ''.label''),
         check (truthy (prop_of c ''componentType'') \<and> truthy (prop_of c ''label'')) (path @ '' requires componentType and label.''),
         check (is_object (prop_of c ''item'')) (path @ ''.item must be an object.''),
         check (one_of server_inventory_types (opt_prop (prop_of c ''item'') ''type'')
             \<and> strict_eq (opt_prop (prop_of c ''item'') ''type'') (prop_of c ''componentType''))
           (path @ ''.item.type must match componentType.''),
         check (has_text (opt_prop (prop_of c ''item'') ''name'')) (path @ ''.item.name is required.''),
         assertOptionalString (prop_of c ''templateKey'') (path @ ''.templateKey''),
         assertOptionalPositiveInteger (prop_of c ''templateRevision'') (path @ ''.templateRevision'')])]"

definition smart_outlet_claims :: "string \<Rightarrow> jsv list \<Rightarrow> nat \<Rightarrow> jsv \<Rightarrow> (jsv option, unit) claim list" where
  "smart_outlet_claims label ports i outlet =
     (let path = at_index (label @ ''.smart.outlets'') i; portId = prop_of outlet ''portId'' in
      [claim_key (checks
         [check (is_object (Some outlet)) (path @ '' must be an object.''),
          requireRelationalId portId (path @ ''.portId''),
          check (list_ex (\<lambda>p. prop_of p ''type'' = Some (JStr ''ac-outlet'') \<and> strict_eq (prop_of p ''id'') portId) ports)
            (path @ ''.portId must reference an AC outlet.'')])
         portId () (\<lambda>_. path @ ''.portId must be unique.''),
       claim_none (check (has_text (prop_of outlet ''name'')) (path @ ''.name must be a non-empty string.''))])"

definition smart_checks :: "string \<Rightarrow> jsv \<Rightarrow> string \<Rightarrow> jsv \<Rightarrow> string + unit" where
  "smart_checks label item type smart = checks
     ([check (type = ''powerStrip'') (label @ '' smart configuration is supported only for power strips.''),
       check (is_object (Some smart)) (label @ ''.smart must be an object.''),
       check (prop_of smart ''enabled'' = Some (JBool True)) (label @ ''.smart.enabled must be true.'')]
      @ map (\<lambda>f. assertOptionalString (prop_of smart f) (label @ ''.smart.'' @ f)) [''displayName'', ''managementIp'', ''macAddress'']
      @ [check (is_array (prop_of smart ''outlets'')) (label @ ''.smart.outlets must be an array.''),
         check (case prop_of item ''ports'' of None \<Rightarrow> True | Some JNull \<Rightarrow> True | Some (JArr ps) \<Rightarrow> JNull \<notin> set ps | _ \<Rightarrow> False) type_error,
         claims [] (concat (map (\<lambda>(i, outlet). smart_outlet_claims label (array_of (prop_of item ''ports'')) i outlet)
           (enumerate 0 (array_of (prop_of smart ''outlets'')))))])"

definition stored_id :: "bool \<Rightarrow> jsv option \<Rightarrow> bool" where
  "stored_id legacy v = (if legacy then isLegacyRelationalId v else isRelationalId v)"

definition port_endpoint_claims :: "string \<Rightarrow> bool \<Rightarrow> jsv \<Rightarrow> jsv \<Rightarrow> (jsv option, unit) claim" where
  "port_endpoint_claims label legacy port e =
     claim_key (check (truthy (Some e) \<and> stored_id legacy (prop_of e ''id'') \<and> one_of [''front'', ''back''] (prop_of e ''side''))
         (label @ '' port '' @ string_of (prop_of port ''id'') @ '' has an invalid endpoint.''))
       (prop_of e ''id'') () (\<lambda>_. label @ '' port '' @ string_of (prop_of port ''id'') @ '' endpoint '' @ string_of (prop_of e ''id'')
          @ '' must be unique.'')"

text \<open>A port claims its id, then its key unless the document is a legacy one, and then passes the rest of its checks.\<close>

definition port_claims :: "string \<Rightarrow> string \<Rightarrow> shape_options \<Rightarrow> jsv \<Rightarrow> (jsv option + string, unit) claim list" where
  "port_claims label type opts port =
     (let legacy = so_allowLegacyIds opts; portLabel = label @ '' port '' @ string_of (prop_of port ''id'') in
      [claim_key (check (truthy (Some port) \<and> stored_id legacy (prop_of port ''id'') \<and> one_of port_kind_names (prop_of port ''kind'')
           \<and> one_of port_type_names (prop_of port ''type'')
           \<and> number_with (\<lambda>r. isSafeInteger_rat r \<and> 0 \<le> r) (prop_of port ''slotNumber''))
           (label @ '' has an invalid port.''))
         (Inl (prop_of port ''id'')) () (\<lambda>_. portLabel @ '' must be unique.''),
       (case prop_of port ''key'' of
          Some (JStr key) \<Rightarrow> if legacy \<or> key = [] then claim_none (Inr ())
            else claim_key (Inr ()) (Inr key) () (\<lambda>_. label @ '' port key '' @ key @ '' must be unique.'')
        | _ \<Rightarrow> claim_none (Inr ())),
       claim_none (checks
         [check (prop_of port ''role'' = None \<or> one_of port_role_names (prop_of port ''role'')) (portLabel @ '' has an unsupported role.''),
          check (\<not> (type = ''switch'' \<and> one_of [''rj45'', ''sfp'', ''sfp-plus''] (prop_of port ''type'')
               \<and> \<not> (so_allowLegacyMissingSwitchSpeed opts \<and> prop_of port ''speed'' = None)
               \<and> \<not> one_of [''1G'', ''2.5G'', ''5G'', ''10G''] (prop_of port ''speed'')))
            (''Switch network port '' @ string_of (prop_of port ''id'') @ '' must advertise 1G, 2.5G, 5G, or 10G.''),
          optional (prop_of port ''endpoints'') (\<lambda>v. checks
            [check (is_array (Some v)) (portLabel @ '' endpoints must be an array.''),
             claims [] (map (port_endpoint_claims label legacy port) (array_of (Some v)))])])])"

definition assertInventoryItem ::
  "(string \<Rightarrow> bool) \<Rightarrow> string \<Rightarrow> jsv option \<Rightarrow> jsv option \<Rightarrow> shape_options \<Rightarrow> string + unit" where
  "assertInventoryItem isDate itemId v expectedType opts =
     (case v of
        Some (JObj m) \<Rightarrow>
          (let item = JObj m; label = ''Inventory item '' @ itemId; legacy = so_allowLegacyIds opts;
               type = (case prop_of item ''type'' of None \<Rightarrow> expectedType | Some JNull \<Rightarrow> expectedType | t \<Rightarrow> t);
               typeName = string_of type; ports = array_of (prop_of item ''ports'')
           in checks
             ([(if legacy then check (isLegacyRelationalId (prop_of item ''id'')) (label @ '' is missing a valid legacy id.'')
                else requireRelationalId (prop_of item ''id'') (label @ ''.id'')),
               check (has_text (prop_of item ''name'')) (label @ '' is missing a name.''),
               check (one_of server_inventory_types type) (label @ '' has an unsupported type.''),
               check (strict_eq type expectedType) (label @ '' is in the wrong table.'')]
              @ (if \<not> legacy \<and> typeName = ''server'' then hardware_checks label item else [])
              @ (if \<not> legacy \<and> typeName = ''ram'' then ram_checks label item else [])
              @ [optional (prop_of item ''aliases'') (\<lambda>a. checks
                   [assertUniqueStringArray (Some a) (label @ ''.aliases''),
                    check (length (array_of (Some a)) \<le> 64) (label @ ''.aliases cannot exceed 64 entries.'')]),
                 optional (prop_of item ''fixedComponents'') (\<lambda>f. checks
                   [check (is_array (Some f)) (label @ ''.fixedComponents must be an array.''),
                    claims [] (concat (map (\<lambda>(i, c). fixed_component_claims (at_index (label @ ''.fixedComponents'') i) c)
                      (enumerate 0 (array_of (Some f)))))]),
                 check (\<not> (\<not> legacy \<and> typeName = ''nas''
                      \<and> \<not> isNasPowerConfiguration (opt_prop (prop_of item ''specs'') ''powerConfiguration'')))
                   (label @ '' must declare a valid NAS power configuration.''),
                 optional (prop_of item ''smart'') (smart_checks label item typeName),
                 check (case prop_of item ''archivedAt'' of None \<Rightarrow> True | Some (JStr s) \<Rightarrow> isDate s | _ \<Rightarrow> False)
                   (label @ '' has an invalid archivedAt timestamp.''),
                 assertInventoryCompatibility itemId (prop_of item ''compatibility'') legacy,
                 check (prop_of item ''ports'' = None \<or> is_array (prop_of item ''ports'')) (label @ '' ports must be an array.''),
                 claims [] (concat (map (port_claims label typeName opts) ports)),
                 assertCanonicalPowerTopology itemId m typeName legacy]))
      | _ \<Rightarrow> Inl (''Inventory item '' @ itemId @ '' must be an object.''))"

definition assertInventoryStoreShape :: "(string \<Rightarrow> bool) \<Rightarrow> jsv option \<Rightarrow> string + unit" where
  "assertInventoryStoreShape isDate store =
     (if \<not> is_object store then Inl ''Inventory store must be an object.''
      else case opt_prop store ''items'' of
        Some (JObj items) \<Rightarrow> checks (map (\<lambda>(itemId, item).
          if item = JNull then Inl type_error
          else assertInventoryItem isDate itemId (Some item) (prop_of item ''type'') default_options) items)
      | _ \<Rightarrow> checks (map (\<lambda>(table, type). let records = opt_prop store table in checks
          [check (is_array records) (''Inventory store is missing a '' @ table @ '' array.''),
           assertUniqueCanonicalIds (array_of records) (''Inventory '' @ table),
           checks (map (\<lambda>item. assertInventoryItem isDate (type @ '':'' @ string_of (prop_of item ''id'')) (Some item) (Some (JStr type))
             default_options) (array_of records))]) table_types))"

section \<open>Properties\<close>

lemma distinct_tagged: "distinct (concat (map (\<lambda>x. Inl (f x) # g x) xs)) \<Longrightarrow> distinct (map f xs)"
  by (induction xs) force+

text \<open>The ports of an item that passes have distinct ids.\<close>

lemma port_ids_distinct:
  assumes "claims [] (concat (map (port_claims label type opts) ports)) = Inr ()"
  shows "distinct (map (\<lambda>p. prop_of p ''id'') ports)"
proof -
  let ?second = "\<lambda>p. keys_claimed (tl (port_claims label type opts p))"
  have pass: "\<forall>p \<in> set ports. \<forall>c \<in> set (port_claims label type opts p). \<exists>k. c = Inr k"
    and keys: "distinct (concat (map (\<lambda>p. keys_claimed (port_claims label type opts p)) ports))"
    using assms unfolding claims_Inr keys_claimed_concat by (auto simp: o_def)
  have "keys_claimed (port_claims label type opts p) = Inl (prop_of p ''id'') # ?second p" if p: "p \<in> set ports" for p
  proof -
    obtain c place dup cs where claim: "port_claims label type opts p = claim_key c (Inl (prop_of p ''id'')) place dup # cs"
      by (simp add: port_claims_def)
    with pass p have "c = Inr ()" using claim_Inr(1) [of c "Inl (prop_of p ''id'')" place dup] by fastforce
    with claim show ?thesis by (simp add: claim_key_def)
  qed
  then have "map (\<lambda>p. keys_claimed (port_claims label type opts p)) ports = map (\<lambda>p. Inl (prop_of p ''id'') # ?second p) ports" by simp
  with keys have "distinct (concat (map (\<lambda>p. Inl (prop_of p ''id'') # ?second p) ports))" by simp
  then show ?thesis by (rule distinct_tagged)
qed

text \<open>The groups of a host refer to groups that it has.\<close>

definition topology_resolves :: "jsv \<Rightarrow> bool" where
  "topology_resolves host \<longleftrightarrow>
     (\<forall>g \<in> set (array_of (prop_of host ''storageSlots'')). \<forall>c \<in> set (array_of (prop_of g ''controllerSlotIds'')).
        has_group host ''controllerSlots'' (Some c))
     \<and> (\<forall>g \<in> set (array_of (prop_of host ''bootDeviceSlots'')). \<forall>c. prop_of g ''controllerSlotId'' = Some c
          \<longrightarrow> has_group host ''controllerSlots'' (Some c))
     \<and> (\<forall>g \<in> set (array_of (prop_of host ''constraintGroups'')). \<forall>m \<in> set (array_of (prop_of g ''members'')).
          member_resolves host (prop_of m ''resourceType'') (prop_of m ''resourceId''))"

lemma enumerate_member: "x \<in> set xs \<Longrightarrow> \<exists>i. (i, x) \<in> set (enumerate 0 xs)"
  by (metis enumerate_all [of 0 xs "\<lambda>y. y \<noteq> x"] snd_conv surj_pair)

lemma check_each_member: "check_each f xs = Inr () \<Longrightarrow> x \<in> set xs \<Longrightarrow> \<exists>i. f i x = Inr ()"
  using enumerate_member [of x xs] by (auto simp: check_each_Inr)

lemma check_each_nested:
  assumes "check_each (\<lambda>i g. check_each (\<lambda>j x. check (P g x) (msg i g j x)) (xs g)) gs = Inr ()" "g \<in> set gs" "x \<in> set (xs g)"
  shows "P g x"
proof -
  obtain i where "check_each (\<lambda>j x. check (P g x) (msg i g j x)) (xs g) = Inr ()" using check_each_member [OF assms(1,2)] by (elim exE)
  from check_each_member [OF this assms(3)] show ?thesis by simp
qed

lemma topology_accepted:
  assumes "assertHostTopologyReferences host base False = Inr ()"
  shows "topology_resolves host"
proof -
  have accepted: "storage_controllers host base = Inr ()" "boot_controllers host base = Inr ()" "constraint_members host base = Inr ()"
    using assms by (simp_all add: assertHostTopologyReferences_def)
  have "has_group host ''controllerSlots'' (Some c)"
    if "g \<in> set (array_of (prop_of host ''storageSlots''))" "c \<in> set (array_of (prop_of g ''controllerSlotIds''))" for g c
    by (rule check_each_nested [where P = "\<lambda>_ c. has_group host ''controllerSlots'' (Some c)"
          and xs = "\<lambda>g. array_of (prop_of g ''controllerSlotIds'')", OF accepted(1) [unfolded storage_controllers_def] that])
  moreover have "has_group host ''controllerSlots'' (Some c)"
    if "g \<in> set (array_of (prop_of host ''bootDeviceSlots''))" "prop_of g ''controllerSlotId'' = Some c" for g c
    using check_each_member [OF accepted(2) [unfolded boot_controllers_def] that(1)] that(2) by auto
  moreover have "member_resolves host (prop_of m ''resourceType'') (prop_of m ''resourceId'')"
    if "g \<in> set (array_of (prop_of host ''constraintGroups''))" "m \<in> set (array_of (prop_of g ''members''))" for g m
    by (rule check_each_nested [where P = "\<lambda>_ m. member_resolves host (prop_of m ''resourceType'') (prop_of m ''resourceId'')"
          and xs = "\<lambda>g. array_of (prop_of g ''members'')", OF accepted(3) [unfolded constraint_members_def] that])
  ultimately show ?thesis unfolding topology_resolves_def by blast
qed

text \<open>C27: Safety: the server accepts only consistent items.  When \<open>assertInventoryItem\<close> accepts an item of a current document, its
  ports have distinct ids, and the slots, boot devices and constraints of its host data refer to groups that it declares.\<close>

theorem accepted_item_consistent:
  assumes "assertInventoryItem isDate itemId v expectedType opts = Inr ()" "\<not> so_allowLegacyIds opts"
  shows "\<exists>m. v = Some (JObj m) \<and> distinct (map (\<lambda>p. prop_of p ''id'') (item_ports m))
     \<and> (\<forall>host. opt_prop (map_of m ''compatibility'') ''host'' = Some host \<longrightarrow> topology_resolves host)"
proof -
  obtain m where v: "v = Some (JObj m)" using assms(1) by (auto simp: assertInventoryItem_def split: option.splits jsv.splits)
  obtain label type where ports: "claims [] (concat (map (port_claims label type opts) (item_ports m))) = Inr ()"
    and compatibility: "assertInventoryCompatibility itemId (map_of m ''compatibility'') False = Inr ()"
    using assms by (auto simp: assertInventoryItem_def v item_ports_def)
  have "topology_resolves host" if host: "opt_prop (map_of m ''compatibility'') ''host'' = Some host" for host
  proof -
    obtain c where "map_of m ''compatibility'' = Some c" "prop_of c ''host'' = Some host" using host by (auto simp: opt_prop_def split: option.splits)
    with compatibility obtain path where "host_checks host path False = Inr ()" by (auto simp: assertInventoryCompatibility_def)
    then have "assertHostTopologyReferences host path False = Inr ()" by (simp only: host_checks_def checks_Inr list.set ball_simps)
    then show ?thesis by (rule topology_accepted)
  qed
  with v port_ids_distinct [OF ports] show ?thesis by blast
qed

text \<open>A server whose drives hang on its controller.\<close>

definition sample_stored_server :: jsv where
  "sample_stored_server =
     JObj [(''id'', JNum 1), (''type'', JStr ''server''), (''name'', JStr ''Host''), (''hardwareClass'', JStr ''server''),
       (''usageRole'', JStr ''server''),
       (''ports'', JArr (map (\<lambda>n. JObj [(''id'', JNum n), (''kind'', JStr ''server-port''), (''type'', JStr ''rj45''),
          (''slotNumber'', JNum n)]) [1, 2])),
       (''compatibility'', JObj [(''host'', JObj
          [(''storageSlots'', JArr [JObj [(''id'', JNum 1), (''key'', JStr ''bay''), (''label'', JStr ''Bays''), (''count'', JNum 8),
             (''controllerSlotIds'', JArr [JNum 5])]]),
           (''controllerSlots'', JArr [JObj [(''id'', JNum 5), (''key'', JStr ''raid''), (''label'', JStr ''RAID''), (''count'', JNum 1)]])])])]"

theorem accepted_item_consistent_witness:
  "assertInventoryItem (\<lambda>_. True) ''server:1'' (Some sample_stored_server) (Some (JStr ''server'')) default_options = Inr ()
   \<and> (\<exists>m. sample_stored_server = JObj m \<and> distinct (map (\<lambda>p. prop_of p ''id'') (item_ports m)))"
proof
  show accepted: "assertInventoryItem (\<lambda>_. True) ''server:1'' (Some sample_stored_server) (Some (JStr ''server'')) default_options = Inr ()"
    by code_simp
  show "\<exists>m. sample_stored_server = JObj m \<and> distinct (map (\<lambda>p. prop_of p ''id'') (item_ports m))"
    using accepted_item_consistent [OF accepted] by (auto simp: default_options_def)
qed

end
