(* ===== verification/Stored_Project.thy ===== *)
theory Stored_Project
  imports Stored_Inventory
begin

text \<open>
  The validation of project documents, \<open>assertProjectShape\<close> and \<open>assertLegacyProjectShape\<close> of
  \<open>server/db/validation.mjs\<close>, and of the agent stores.  The checks of the references run on a document whose shape
  has been accepted; there the properties they read have the expected types.
\<close>

section \<open>Definitions\<close>

subsection \<open>References\<close>

definition parseInventoryKey :: "jsv option \<Rightarrow> (string \<times> int) option" where
  "parseInventoryKey key =
     (case key of
        Some (JStr s) \<Rightarrow>
          (let parts = js_split (CHR '':'') s; type = hd parts;
               rawId = (if 2 \<le> length parts then Some (JStr (parts ! 1)) else None)
           in if \<not> isLegacyRelationalId rawId then None
              else case parseLegacyRelationalId rawId (''inventory key '' @ s) of
                  Inr i \<Rightarrow> if type \<in> set server_inventory_types then Some (type, i) else None
                | Inl _ \<Rightarrow> None)
      | _ \<Rightarrow> None)"

definition isTypedInventoryReference :: "jsv option \<Rightarrow> jsv option \<Rightarrow> bool" where
  "isTypedInventoryReference type i \<longleftrightarrow> one_of server_inventory_types type \<and> isRelationalId i"

definition isRuntimeOrTypedReference :: "jsv option \<Rightarrow> jsv option \<Rightarrow> jsv option \<Rightarrow> bool" where
  "isRuntimeOrTypedReference reference type i \<longleftrightarrow> parseInventoryKey reference \<noteq> None \<or> isTypedInventoryReference type i"

text \<open>A reference in the form that the options ask for.\<close>

definition reference_ok :: "shape_options \<Rightarrow> jsv option \<Rightarrow> jsv option \<Rightarrow> jsv option \<Rightarrow> bool" where
  "reference_ok opts reference type i =
     (if so_allowLegacyIds opts then is_string reference \<or> (one_of server_inventory_types type \<and> isLegacyRelationalId i)
      else if so_runtimeReferences opts then isRuntimeOrTypedReference reference type i
      else isTypedInventoryReference type i)"

subsection \<open>The shape of a project\<close>

definition logical_resources :: "string list" where
  "logical_resources = [''motherboard'', ''power'', ''case'']"

definition grouped_resources :: "string list" where
  "grouped_resources = [''storage'', ''expansion'', ''optionalModule'', ''controllerSlot'', ''bootDeviceSlot'', ''coolingProfile'']"

definition resource_names :: "string list" where
  "resource_names = [''cpu'', ''memory'', ''storage'', ''expansion'', ''motherboard'', ''cooling'', ''power'', ''case'',
     ''optionalModule'', ''controllerSlot'', ''bootDeviceSlot'', ''coolingProfile'']"

definition assertAssignmentAllocation :: "jsv \<Rightarrow> bool \<Rightarrow> string + unit" where
  "assertAssignmentAllocation a legacy = optional (prop_of a ''allocation'') (\<lambda>al.
     let path = ''Project assignment '' @ string_of (prop_of a ''id'') @ '' allocation''; resource = prop_of al ''resourceType'';
         groupId = prop_of al ''groupId'';
         unsupported = path @ ''.groupId is not supported for '' @ string_of resource @ '' allocations.''
     in checks
       [assertOptionalObject (Some al) path,
        check (one_of resource_names resource) (path @ ''.resourceType has an unsupported value.''),
        (if one_of logical_resources resource then check (groupId = None) unsupported
         else if one_of grouped_resources resource
         then (if legacy then unit_of (assertLegacyCompatibilityGroupId groupId (path @ ''.groupId''))
               else requireRelationalId groupId (path @ ''.groupId''))
         else check (groupId = None \<or> (legacy \<and> one_of [''cpu'', ''cooling'', ''memory''] resource \<and> one_of [''cpu'', ''dimm''] groupId))
                unsupported),
        check (is_array (prop_of al ''positions'') \<and> array_of (prop_of al ''positions'') \<noteq> [])
          (path @ ''.positions must be a non-empty array.''),
        claims [] (map (\<lambda>(i, pos). claim_key
            (check (number_with (\<lambda>r. isInteger_rat r \<and> 0 \<le> r) (Some pos))
              (at_index (path @ ''.positions'') i @ '' must be a non-negative integer.''))
            pos () (\<lambda>_. at_index (path @ ''.positions'') i @ '' must be unique.''))
          (enumerate 0 (array_of (prop_of al ''positions''))))])"

definition isValidEndpoint :: "jsv option \<Rightarrow> shape_options \<Rightarrow> bool" where
  "isValidEndpoint v opts \<longleftrightarrow>
     (let p = opt_prop v in truthy v \<and> reference_ok opts (p ''itemId'') (p ''itemType'') (p ''itemId'')
        \<and> stored_id (so_allowLegacyIds opts) (p ''portId'')
        \<and> (p ''endpointId'' = None \<or> stored_id (so_allowLegacyIds opts) (p ''endpointId''))
        \<and> (p ''hostedItemId'' = None \<or> reference_ok opts (p ''hostedItemId'') (p ''hostedItemType'') (p ''hostedItemId'')))"

definition policy_checks :: "jsv \<Rightarrow> bool \<Rightarrow> string + unit" where
  "policy_checks policy legacy = checks
     ([assertOptionalObject (Some policy) ''compatibilityPolicy'']
      @ (if legacy then [assertUniqueStringArray (case prop_of policy ''disabledHostIds'' of
             None \<Rightarrow> Some (JArr []) | Some JNull \<Rightarrow> Some (JArr []) | v \<Rightarrow> v) ''compatibilityPolicy.disabledHostIds'']
         else map (\<lambda>f. let hosts = (case prop_of policy f of None \<Rightarrow> Some (JArr []) | Some JNull \<Rightarrow> Some (JArr []) | v \<Rightarrow> v) in checks
            [check (is_array hosts) (''compatibilityPolicy.'' @ f @ '' must be an array.''),
             claims [] (map (\<lambda>(i, host).
               let path = at_index (''compatibilityPolicy.'' @ f) i;
                   key = string_of (prop_of host ''hostType'') @ '':'' @ string_of (prop_of host ''hostId'')
               in claim_key (checks
                    [check (truthy (Some host) \<and> one_of server_inventory_types (prop_of host ''hostType''))
                       (path @ ''.hostType has an unsupported value.''),
                     requireRelationalId (prop_of host ''hostId'') (path @ ''.hostId'')])
                    key () (\<lambda>_. path @ '' duplicates host '' @ key @ ''.''))
               (enumerate 0 (array_of hosts)))]) [''disabledHosts'', ''verifiedMemoryHosts''])
      @ [assertUniqueStringArray (prop_of policy ''ignoredWarningIds'') ''compatibilityPolicy.ignoredWarningIds''])"

definition placement_shape :: "shape_options \<Rightarrow> jsv \<Rightarrow> string + unit" where
  "placement_shape opts p = check (truthy (Some p) \<and> reference_ok opts (prop_of p ''serverId'') (prop_of p ''itemType'') (prop_of p ''itemId'')
     \<and> number_with (\<lambda>_. True) (prop_of p ''x'') \<and> number_with (\<lambda>_. True) (prop_of p ''y''))
     ''Each placement must include serverId, x, and y.''"

definition assignment_shape :: "shape_options \<Rightarrow> jsv \<Rightarrow> string + unit" where
  "assignment_shape opts a = checks
     [check (truthy (Some a) \<and> stored_id (so_allowLegacyIds opts) (prop_of a ''id'')
        \<and> reference_ok opts (prop_of a ''serverId'') (prop_of a ''hostType'') (prop_of a ''hostId'')
        \<and> reference_ok opts (prop_of a ''itemId'') (prop_of a ''itemType'') (prop_of a ''itemId'')
        \<and> one_of server_component_types (prop_of a ''type''))
        ''Each assignment must include id, serverId, itemId, and component type.'',
      assertAssignmentAllocation a (so_allowLegacyIds opts)]"

definition positive_speed :: "jsv option \<Rightarrow> bool" where
  "positive_speed v \<longleftrightarrow> v = None \<or> number_with (\<lambda>r. isSafeInteger_rat r \<and> 0 < r) v"

definition connection_shape :: "shape_options \<Rightarrow> jsv \<Rightarrow> string + unit" where
  "connection_shape opts c = checks
     [check (truthy (Some c)
        \<and> (if so_allowLegacyIds opts then is_string (prop_of c ''id'') \<or> isLegacyRelationalId (prop_of c ''id'')
           else isRelationalId (prop_of c ''id''))
        \<and> is_string (prop_of c ''createdAt'') \<and> is_string (prop_of c ''type'')
        \<and> isValidEndpoint (prop_of c ''from'') opts \<and> isValidEndpoint (prop_of c ''to'') opts)
        ''Each connection must include id, from, to, type, and createdAt.'',
      check (positive_speed (prop_of c ''negotiatedSpeedBps''))
        ''Connection negotiated speed must be a positive integer in bits per second.'',
      check (positive_speed (prop_of c ''negotiatedSpeedMbps''))
        ''Legacy connection negotiated speed must be a positive integer in megabits per second.'',
      check (prop_of c ''negotiatedSpeedBps'' = None \<or> prop_of c ''negotiatedSpeedMbps'' = None)
        ''Connection negotiated speed cannot use both BPS and legacy Mbps fields.'']"

definition assertProjectStoreShape :: "jsv option \<Rightarrow> shape_options \<Rightarrow> string + unit" where
  "assertProjectStoreShape store opts =
     (let p = opt_prop store; legacy = so_allowLegacyIds opts in checks
       ([check (is_object store) ''Project store must be an object.'',
         check (\<not> ((so_requireRevision opts \<or> p ''revision'' \<noteq> None)
             \<and> \<not> number_with (\<lambda>r. isSafeInteger_rat r \<and> 1 \<le> r) (p ''revision'')))
           ''Project store revision must be a positive safe integer.'',
         check (is_array (p ''placements'')) ''Project store is missing a placements array.'',
         check (is_array (p ''assignments'')) ''Project store is missing an assignments array.'',
         check (p ''connections'' = None \<or> is_array (p ''connections'')) ''Project store connections must be an array.'',
         optional (p ''compatibilityPolicy'') (\<lambda>policy. policy_checks policy legacy)]
        @ (if legacy then [] else
            [assertUniqueCanonicalIds (array_of (p ''assignments'')) ''Project assignments'',
             assertUniqueCanonicalIds (array_of (p ''connections'')) ''Project connections''])
        @ [checks (map (placement_shape opts) (array_of (p ''placements''))),
           checks (map (assignment_shape opts) (array_of (p ''assignments''))),
           checks (map (connection_shape opts) (array_of (p ''connections'')))]))"

subsection \<open>The references of a project\<close>

definition typed_key :: "jsv option \<Rightarrow> jsv option \<Rightarrow> string" where
  "typed_key type i = string_of type @ '':'' @ string_of i"

definition projectReference :: "jsv option \<Rightarrow> jsv option \<Rightarrow> jsv option \<Rightarrow> string option" where
  "projectReference reference type i =
     (case reference of
        Some (JStr s) \<Rightarrow> Some s
      | _ \<Rightarrow> if truthy type \<and> i \<noteq> None then Some (typed_key type i) else None)"

definition projectItem :: "jsv \<Rightarrow> jsv option \<Rightarrow> jsv option \<Rightarrow> jsv option \<Rightarrow> jsv option" where
  "projectItem project reference type i =
     (case projectReference reference type i of
        None \<Rightarrow> None
      | Some k \<Rightarrow> opt_prop (prop_of project ''items'') k)"

definition show_reference :: "string option \<Rightarrow> string" where
  "show_reference r = (case r of None \<Rightarrow> ''undefined'' | Some s \<Rightarrow> s)"

definition host_reference :: "jsv \<Rightarrow> string option" where
  "host_reference a = projectReference (prop_of a ''serverId'') (prop_of a ''hostType'') (prop_of a ''hostId'')"

definition component_reference :: "jsv \<Rightarrow> string option" where
  "component_reference a = projectReference (prop_of a ''itemId'') (prop_of a ''itemType'') (prop_of a ''itemId'')"

definition host_of :: "jsv \<Rightarrow> jsv \<Rightarrow> jsv option" where
  "host_of project a = projectItem project (prop_of a ''serverId'') (prop_of a ''hostType'') (prop_of a ''hostId'')"

definition component_of :: "jsv \<Rightarrow> jsv \<Rightarrow> jsv option" where
  "component_of project a = projectItem project (prop_of a ''itemId'') (prop_of a ''itemType'') (prop_of a ''itemId'')"

definition project_list :: "jsv \<Rightarrow> string \<Rightarrow> jsv list" where
  "project_list project k = array_of (prop_of project k)"

text \<open>A reference that is there and not empty.\<close>

definition named :: "string option \<Rightarrow> string option" where
  "named r = (if r = Some [] then None else r)"

definition assignment_references :: "jsv \<Rightarrow> nat \<Rightarrow> jsv \<Rightarrow> string + unit" where
  "assignment_references project n a =
     (let path = at_index ''Project assignments'' n; host = host_of project a; item = component_of project a;
          itemReference = component_reference a; al = prop_of a ''allocation''
      in checks
        [check (truthy host) (path @ '' references missing host '' @ show_reference (host_reference a) @ ''.''),
         check (truthy item) (path @ '' references missing component '' @ show_reference itemReference @ ''.''),
         check (strict_eq (prop_of a ''type'') (opt_prop item ''type''))
           (path @ ''.type '' @ string_of (prop_of a ''type'') @ '' does not match referenced inventory item ''
             @ show_reference itemReference @ '' type '' @ string_of (opt_prop item ''type'') @ ''.''),
         check (\<not> (opt_prop item ''type'' = Some (JStr ''ram'') \<and> al \<noteq> None
             \<and> (opt_prop al ''resourceType'' \<noteq> Some (JStr ''memory'') \<or> length (array_of (opt_prop al ''positions'')) \<noteq> 1)))
           (path @ '' RAM allocation must occupy exactly one memory slot.'')])"

definition assertProjectAssignmentReferences :: "jsv \<Rightarrow> string + unit" where
  "assertProjectAssignmentReferences project =
     claims [] (map (\<lambda>(n, a). case named (component_reference a) of
         None \<Rightarrow> claim_none (assignment_references project n a)
       | Some r \<Rightarrow> claim_key (assignment_references project n a) r n
           (\<lambda>m. at_index ''Project assignments'' n @ ''.itemId duplicates component '' @ r @ '' from ''
             @ at_index ''Project assignments'' m @ ''.itemId.''))
       (enumerate 0 (project_list project ''assignments'')))"

definition policy_references :: "jsv \<Rightarrow> string \<Rightarrow> string + unit" where
  "policy_references project f =
     check_each (\<lambda>n host. let reference = typed_key (prop_of host ''hostType'') (prop_of host ''hostId'') in
       check (truthy (opt_prop (prop_of project ''items'') reference))
         (at_index (''Project compatibilityPolicy.'' @ f) n @ '' references missing host '' @ reference @ ''.''))
       (array_of (opt_prop (prop_of project ''compatibilityPolicy'') f))"

definition placement_item :: "jsv \<Rightarrow> jsv \<Rightarrow> jsv option" where
  "placement_item project p = projectItem project (prop_of p ''serverId'') (prop_of p ''itemType'') (prop_of p ''itemId'')"

definition assertProjectPlacementReferences :: "jsv \<Rightarrow> string + unit" where
  "assertProjectPlacementReferences project = checks
     [check_each (\<lambda>n p. check (truthy (placement_item project p))
        (at_index ''Project placements'' n @ '' references missing item ''
          @ show_reference (projectReference (prop_of p ''serverId'') (prop_of p ''itemType'') (prop_of p ''itemId'')) @ ''.''))
        (project_list project ''placements''),
      policy_references project ''disabledHosts'',
      policy_references project ''verifiedMemoryHosts'']"

definition hosted_reference :: "jsv option \<Rightarrow> string option" where
  "hosted_reference e =
     (if opt_prop e ''hostedItemId'' = None then None
      else projectReference (opt_prop e ''hostedItemId'') (opt_prop e ''hostedItemType'') (opt_prop e ''hostedItemId''))"

text \<open>The item whose port an endpoint names, and the port.\<close>

definition endpoint_host :: "jsv \<Rightarrow> jsv option \<Rightarrow> jsv option" where
  "endpoint_host project e = projectItem project (opt_prop e ''itemId'') (opt_prop e ''itemType'') (opt_prop e ''itemId'')"

definition endpoint_owner :: "jsv \<Rightarrow> jsv option \<Rightarrow> jsv option" where
  "endpoint_owner project e =
     (if named (hosted_reference e) \<noteq> None
      then projectItem project (opt_prop e ''hostedItemId'') (opt_prop e ''hostedItemType'') (opt_prop e ''hostedItemId'')
      else endpoint_host project e)"

definition endpoint_port :: "jsv \<Rightarrow> jsv option \<Rightarrow> jsv option" where
  "endpoint_port project e =
     List.find (\<lambda>port. strict_eq (prop_of port ''id'') (opt_prop e ''portId'')) (array_of (opt_prop (endpoint_owner project e) ''ports''))"

definition assertProjectEndpointReference :: "jsv \<Rightarrow> jsv option \<Rightarrow> string \<Rightarrow> string + unit" where
  "assertProjectEndpointReference project e path =
     (let hostReference = projectReference (opt_prop e ''itemId'') (opt_prop e ''itemType'') (opt_prop e ''itemId'');
          hostedReference = hosted_reference e; port = endpoint_port project e;
          portEndpoints = array_of (opt_prop port ''endpoints''); endpointId = opt_prop e ''endpointId'';
          portId = string_of (opt_prop e ''portId'')
      in checks
        [check (truthy (endpoint_host project e)) (path @ '' references missing item '' @ show_reference hostReference @ ''.''),
         check (truthy (endpoint_owner project e)) (path @ '' references missing hosted item '' @ show_reference hostedReference @ ''.''),
         check (\<not> (named hostedReference \<noteq> None
             \<and> \<not> list_ex (\<lambda>a. host_reference a = hostReference \<and> component_reference a = hostedReference)
                   (project_list project ''assignments'')))
           (path @ '' hosted item '' @ show_reference hostedReference @ '' is not assigned to host '' @ show_reference hostReference @ ''.''),
         check (port \<noteq> None) (path @ ''.portId references missing port '' @ portId @ '' on ''
           @ show_reference (if hostedReference = None then hostReference else hostedReference) @ ''.''),
         (if endpointId \<noteq> None
          then check (list_ex (\<lambda>c. strict_eq (prop_of c ''id'') endpointId) portEndpoints)
            (path @ ''.endpointId references missing endpoint '' @ string_of endpointId @ '' on port '' @ portId @ ''.'')
          else check (portEndpoints = []) (path @ ''.endpointId is required for multi-sided port '' @ portId @ ''.''))])"

definition assertProjectConnectionReferences :: "jsv \<Rightarrow> string + unit" where
  "assertProjectConnectionReferences project =
     check_each (\<lambda>n c. let path = at_index ''Project connections'' n in checks
       [assertProjectEndpointReference project (prop_of c ''from'') (path @ ''.from''),
        assertProjectEndpointReference project (prop_of c ''to'') (path @ ''.to'')])
       (project_list project ''connections'')"

subsection \<open>The allocations of a project\<close>

definition capability_source :: "jsv \<Rightarrow> jsv \<Rightarrow> jsv option" where
  "capability_source project a =
     (let host = host_of project a in
      if opt_prop host ''type'' = Some (JStr ''pcBuild'')
      then Option.bind (List.find (\<lambda>c. prop_of c ''type'' = Some (JStr ''motherboard'') \<and> host_reference c = host_reference a)
             (project_list project ''assignments'')) (component_of project)
      else host)"

text \<open>How many positions an allocation can use, and the name of the group; \<open>Inl\<close> is a group that does not exist.\<close>

definition allocation_capacity :: "jsv option \<Rightarrow> jsv \<Rightarrow> jsv \<Rightarrow> string + jsv option \<times> string" where
  "allocation_capacity source hostCompatibility al =
     (let resource = prop_of al ''resourceType''; specs = opt_prop source ''specs'' in
      if one_of [''cpu'', ''cooling''] resource then
        (let pick = (\<lambda>v other. case v of None \<Rightarrow> other | Some JNull \<Rightarrow> other | _ \<Rightarrow> v);
             configuredCount = pick (opt_prop specs ''cpuSocketCount'') (pick (opt_prop specs ''cpuSockets'') (Some (JNum 1)))
         in Inr (if array_of (opt_prop (prop_of hostCompatibility ''cpu'') ''sockets'') \<noteq> [] \<and> number_with isInteger_rat configuredCount
                 then configuredCount else None, ''compatibility.host.cpu''))
      else if one_of [''memory''] resource then Inr (opt_prop (prop_of hostCompatibility ''memory'') ''slots'', ''compatibility.host.memory'')
      else
        (let groupsField = (if one_of [''storage''] resource then ''storageSlots'' else ''expansionSlots'');
             groupPath = ''compatibility.host.'' @ groupsField
         in case List.find (\<lambda>g. strict_eq (prop_of g ''id'') (prop_of al ''groupId'')) (array_of (prop_of hostCompatibility groupsField)) of
              None \<Rightarrow> Inl (''allocation.groupId references missing '' @ groupPath @ '' group '' @ string_of (prop_of al ''groupId'') @ ''.'')
            | Some g \<Rightarrow> Inr (prop_of g ''count'', groupPath @ '' group '' @ string_of (prop_of g ''id''))))"

definition assertAllocationReferences :: "jsv \<Rightarrow> jsv \<Rightarrow> jsv \<Rightarrow> string + unit" where
  "assertAllocationReferences project a al =
     (let label = ''Project assignment '' @ string_of (prop_of a ''id'') @ '' ''; resource = prop_of al ''resourceType'';
          positions = array_of (prop_of al ''positions''); source = capability_source project a;
          hostCompatibility = opt_prop (opt_prop source ''compatibility'') ''host''
      in if opt_prop (host_of project a) ''type'' = Some (JStr ''pcBuild'') \<and> one_of logical_resources resource
         then check (list_all (\<lambda>pos. pos = JNum 0) positions)
           (label @ ''allocation.positions must reference the single '' @ string_of resource @ '' position.'')
         else if \<not> truthy hostCompatibility
         then Inl (label @ ''allocation references a host without compatibility capabilities.'')
         else case allocation_capacity source (the hostCompatibility) al of
             Inl e \<Rightarrow> Inl (label @ e)
           | Inr (capacity, groupPath) \<Rightarrow> check_each (\<lambda>n pos.
               check (number_with isInteger_rat capacity \<and> \<not> num_greater (Some pos) capacity \<and> Some pos \<noteq> capacity)
                 (label @ at_index ''allocation.positions'' n @ '' is outside '' @ groupPath @ ''.'')) positions)"

definition assertProjectAllocationReferences :: "jsv \<Rightarrow> string + unit" where
  "assertProjectAllocationReferences project =
     checks (map (\<lambda>a. case prop_of a ''allocation'' of None \<Rightarrow> Inr () | Some al \<Rightarrow> assertAllocationReferences project a al)
       (project_list project ''assignments''))"

text \<open>The positions that the assignments use, each with the place where it stands: host, resource, group and position.\<close>

type_synonym position_key = "string option \<times> jsv option \<times> jsv option \<times> jsv"

definition allocation_keys :: "jsv \<Rightarrow> position_key list" where
  "allocation_keys a =
     (case prop_of a ''allocation'' of None \<Rightarrow> []
      | Some al \<Rightarrow>
          (let groupId = (if one_of [''cpu'', ''cooling'', ''memory''] (prop_of al ''resourceType'') then Some (JStr [])
             else prop_of al ''groupId'')
           in map (\<lambda>pos. (host_reference a, prop_of al ''resourceType'', groupId, pos)) (array_of (prop_of al ''positions''))))"

definition allocation_place :: "nat \<times> nat \<Rightarrow> string" where
  "allocation_place p = at_index (at_index ''Project assignments'' (fst p) @ ''.allocation.positions'') (snd p)"

definition assertProjectAllocationExclusivity :: "jsv \<Rightarrow> string + unit" where
  "assertProjectAllocationExclusivity project =
     claims [] (concat (map (\<lambda>(n, a). map (\<lambda>(m, key). claim_key (Inr ()) key (n, m)
         (\<lambda>previous. allocation_place (n, m) @ '' conflicts with '' @ allocation_place previous @ ''.''))
         (enumerate 0 (allocation_keys a)))
       (enumerate 0 (project_list project ''assignments''))))"

subsection \<open>Projects\<close>

definition runtime_options :: shape_options where
  "runtime_options = default_options\<lparr>so_runtimeReferences := True\<rparr>"

definition assertProjectShape :: "(string \<Rightarrow> bool) \<Rightarrow> jsv option \<Rightarrow> string + unit" where
  "assertProjectShape isDate v =
     (case v of
        Some (JObj m) \<Rightarrow> (let project = JObj m in checks
          [assertInventoryStoreShape isDate (Some (JObj (case map_of m ''items'' of None \<Rightarrow> [] | Some items \<Rightarrow> [(''items'', items)]))),
           assertProjectStoreShape (Some project) runtime_options,
           assertProjectPlacementReferences project,
           assertProjectAssignmentReferences project,
           assertProjectConnectionReferences project,
           assertProjectAllocationReferences project,
           assertProjectAllocationExclusivity project])
      | _ \<Rightarrow> Inl ''Project payload must be an object.'')"

text \<open>\<open>JSON.stringify\<close> of a key, without the escapes.\<close>

definition quoted :: "string \<Rightarrow> string" where
  "quoted s = [CHR 0x22] @ s @ [CHR 0x22]"

text \<open>The items of a legacy document: the key or the record gives the type and the id, and an item without an id takes the
  next one of its type.\<close>

definition legacy_identity :: "(string \<times> int) list \<Rightarrow> string \<Rightarrow> jsv \<Rightarrow> jsv option \<times> int" where
  "legacy_identity nextIds originalKey item =
     (let parsed = (case parseInventoryKey (Some (JStr originalKey)) of
            None \<Rightarrow> parseInventoryKey (prop_of item ''key'') | p \<Rightarrow> p)
      in case parsed of
           Some (type, i) \<Rightarrow> (Some (JStr type), i)
         | None \<Rightarrow> (prop_of item ''type'', case js_Number (prop_of item ''id'') of
               Some r \<Rightarrow> if isInteger_rat r then \<lfloor>r\<rfloor> else nullish (map_of nextIds (string_of (prop_of item ''type''))) 0 + 1
             | None \<Rightarrow> nullish (map_of nextIds (string_of (prop_of item ''type''))) 0 + 1))"

fun legacy_items :: "(string \<Rightarrow> bool) \<Rightarrow> (string \<times> int) list \<Rightarrow> (string \<times> string) list \<Rightarrow> (string \<times> jsv) list \<Rightarrow> string + unit" where
  "legacy_items isDate nextIds seen [] = Inr ()"
| "legacy_items isDate nextIds seen ((originalKey, item) # items) =
     (let itemPath = ''Project items['' @ quoted originalKey @ '']''; (type, i) = legacy_identity nextIds originalKey item;
          typeName = string_of type; normalizedKey = typeName @ '':'' @ show_int i
      in try_eval (checks
           [check (is_object (Some item)) (itemPath @ '' must be an object.''),
            check (one_of server_inventory_types type) (itemPath @ ''.type has an unsupported value.''),
            (case map_of seen normalizedKey of
               Some previousKey \<Rightarrow> Inl (itemPath @ '' normalizes to duplicate inventory key '' @ normalizedKey
                 @ '' from Project items['' @ quoted previousKey @ ''].'')
             | None \<Rightarrow> Inr ()),
            assertInventoryItem isDate originalKey
              (Some (JObj (AList.update ''type'' (JStr typeName) (AList.update ''id'' (JNum (of_int i)) (obj_of (Some item))))))
              type (default_options\<lparr>so_allowLegacyMissingSwitchSpeed := True, so_allowLegacyIds := True\<rparr>)])
         (\<lambda>_. legacy_items isDate (AList.update typeName (max (nullish (map_of nextIds typeName) 0) i) nextIds)
           ((normalizedKey, originalKey) # seen) items))"

definition assertLegacyProjectShape :: "(string \<Rightarrow> bool) \<Rightarrow> jsv option \<Rightarrow> string + unit" where
  "assertLegacyProjectShape isDate v = checks
     [check (is_object v) ''Project payload must be an object.'',
      check (is_object (opt_prop v ''items'')) ''Project items must be an object.'',
      legacy_items isDate (map (\<lambda>t. (t, 0)) server_inventory_types) [] (obj_of (opt_prop v ''items'')),
      assertProjectStoreShape v (default_options\<lparr>so_allowLegacyIds := True\<rparr>)]"

subsection \<open>Agents\<close>

definition host_type_names :: "string list" where
  "host_type_names = [''server'', ''nas'', ''pcBuild'']"

definition assertAgentRecordCollection :: "jsv option \<Rightarrow> string \<Rightarrow> string + unit" where
  "assertAgentRecordCollection records path = checks
     [check (is_object records) (path @ '' must be an object.''),
      claims [] (map (\<lambda>(key, record). let label = path @ ''.'' @ key in claim_key (checks
          [check (is_object (Some record)) (label @ '' must be an object.''),
           requireRelationalId (prop_of record ''id'') (label @ ''.id''),
           check (one_of host_type_names (prop_of record ''hostType'')) (label @ ''.hostType must be a supported compute-host type.''),
           requireRelationalId (prop_of record ''hostId'') (label @ ''.hostId''),
           check (prop_of record ''serverId'' = None) (label @ ''.serverId is a legacy relationship and cannot be persisted.''),
           check (string_of (prop_of record ''id'') = key) (label @ ''.id must match its object key.'')])
         (prop_of record ''id'') () (\<lambda>_. label @ ''.id must be unique.''))
        (obj_of records))]"

definition assertHardwareSnapshotCollection :: "jsv option \<Rightarrow> string \<Rightarrow> string + unit" where
  "assertHardwareSnapshotCollection records path = checks
     [check (is_object records) (path @ '' must be an object.''),
      checks (map (\<lambda>(key, record). let label = path @ ''.'' @ key in checks
        [check (is_object (Some record)) (label @ '' must be an object.''),
         requireRelationalId (prop_of record ''id'') (label @ ''.id''),
         check (string_of (prop_of record ''id'') = key) (label @ ''.id must match its object key.''),
         requireRelationalId (prop_of record ''deviceId'') (label @ ''.deviceId''),
         check (one_of host_type_names (prop_of record ''hostType'')) (label @ ''.hostType is invalid.''),
         requireRelationalId (prop_of record ''hostId'') (label @ ''.hostId''),
         check (is_array (prop_of record ''components'') \<and> array_of (prop_of record ''components'') \<noteq> []
             \<and> length (array_of (prop_of record ''components'')) \<le> 1024) (label @ ''.components must contain 1 to 1024 entries.'')])
        (obj_of records))]"

definition assertHardwareEventCollection :: "jsv option \<Rightarrow> string \<Rightarrow> string + unit" where
  "assertHardwareEventCollection records path = checks
     [check (is_object records) (path @ '' must be an object.''),
      checks (map (\<lambda>(key, record). let label = path @ ''.'' @ key in checks
        [check (is_object (Some record)) (label @ '' must be an object.''),
         requireRelationalId (prop_of record ''id'') (label @ ''.id''),
         check (string_of (prop_of record ''id'') = key) (label @ ''.id must match its object key.''),
         requireRelationalId (prop_of record ''snapshotId'') (label @ ''.snapshotId''),
         requireRelationalId (prop_of record ''deviceId'') (label @ ''.deviceId''),
         check (one_of host_type_names (prop_of record ''hostType'')) (label @ ''.hostType is invalid.''),
         requireRelationalId (prop_of record ''hostId'') (label @ ''.hostId''),
         check (is_array (prop_of record ''changedKinds'') \<and> list_all (\<lambda>k. is_string (Some k)) (array_of (prop_of record ''changedKinds'')))
           (label @ ''.changedKinds must be a string array.'')])
        (obj_of records))]"

definition assertAgentsStoreShape :: "jsv option \<Rightarrow> string + unit" where
  "assertAgentsStoreShape store = checks
     [check (is_object store) ''Agents store must be an object.'',
      assertAgentRecordCollection (opt_prop store ''enrollments'') ''agents.enrollments'',
      assertAgentRecordCollection (opt_prop store ''devices'') ''agents.devices'',
      assertHardwareSnapshotCollection (opt_prop store ''hardwareSnapshots'') ''agents.hardwareSnapshots'',
      assertHardwareEventCollection (opt_prop store ''hardwareEvents'') ''agents.hardwareEvents'']"

definition assertAgentStatusStoreShape :: "jsv option \<Rightarrow> string + unit" where
  "assertAgentStatusStoreShape store = checks
     [check (is_object store) ''Agent status store must be an object.'',
      check (is_object (opt_prop store ''hosts'')) ''agentStatus.hosts must be an object.'',
      checks (map (\<lambda>(key, status). let label = ''agentStatus.hosts.'' @ key in checks
        [check (is_object (Some status)) (label @ '' must be an object.''),
         check (one_of host_type_names (prop_of status ''hostType'')) (label @ ''.hostType must be a supported compute-host type.''),
         requireRelationalId (prop_of status ''hostId'') (label @ ''.hostId''),
         check (typed_key (prop_of status ''hostType'') (prop_of status ''hostId'') = key) (label @ '' must match its typed host reference.''),
         check (prop_of status ''serverId'' = None) (label @ ''.serverId is a legacy relationship and cannot be persisted.'')])
        (obj_of (opt_prop store ''hosts'')))]"

section \<open>Lemmas\<close>

lemma strict_eq_string: "strict_eq (Some (JStr s)) v \<longleftrightarrow> v = Some (JStr s)"
  by (cases "(Some (JStr s), v)" rule: strict_eq.cases) auto

lemma strict_eq_same: "strict_eq v w \<Longrightarrow> v = w"
  by (cases "(v, w)" rule: strict_eq.cases) auto

lemma one_of_string: "one_of names v \<Longrightarrow> \<exists>s \<in> set names. v = Some (JStr s)"
  by (cases "(names, v)" rule: one_of.cases) auto

subsection \<open>References\<close>

lemma parse_nonempty: "parseInventoryKey v \<noteq> None \<Longrightarrow> \<exists>s. v = Some (JStr s) \<and> s \<noteq> []"
  by (auto simp: parseInventoryKey_def isLegacyRelationalId_def Item_Keys.isRelationalId_def split: option.splits jsv.splits if_splits)

lemma typed_number: "isRelationalId v \<Longrightarrow> \<exists>r. v = Some (JNum r)"
  by (auto simp: Item_Keys.isRelationalId_def split: option.splits jsv.splits)

text \<open>A component of a document in the runtime form has a reference that names something.\<close>

lemma component_named:
  assumes "reference_ok runtime_options (prop_of a ''itemId'') (prop_of a ''itemType'') (prop_of a ''itemId'')"
  shows "\<exists>s. component_reference a = Some s \<and> s \<noteq> []"
proof -
  have "parseInventoryKey (prop_of a ''itemId'') \<noteq> None \<or> isTypedInventoryReference (prop_of a ''itemType'') (prop_of a ''itemId'')"
    using assms by (simp add: reference_ok_def runtime_options_def default_options_def isRuntimeOrTypedReference_def)
  then show ?thesis
  proof
    assume "parseInventoryKey (prop_of a ''itemId'') \<noteq> None"
    then show ?thesis using parse_nonempty by (fastforce simp: component_reference_def projectReference_def)
  next
    assume "isTypedInventoryReference (prop_of a ''itemType'') (prop_of a ''itemId'')"
    then obtain t r where "prop_of a ''itemType'' = Some (JStr t)" "t \<in> set server_inventory_types" "prop_of a ''itemId'' = Some (JNum r)"
      unfolding isTypedInventoryReference_def using one_of_string typed_number by blast
    then show ?thesis
      by (auto simp: component_reference_def projectReference_def typed_key_def server_inventory_types_def)
  qed
qed

lemma placements_resolve:
  assumes "assertProjectPlacementReferences p = Inr ()"
  shows "\<forall>pl \<in> set (project_list p ''placements''). truthy (placement_item p pl)"
proof -
  have "check_each (\<lambda>n pl. check (truthy (placement_item p pl)) (msg n pl)) xs = Inr ()
      \<longleftrightarrow> (\<forall>pl \<in> set xs. truthy (placement_item p pl))" for msg xs
    by (rule check_each_all) simp
  with assms show ?thesis by (simp only: assertProjectPlacementReferences_def checks_Inr list.set ball_simps) blast
qed

lemma policy_references_Inr:
  "policy_references p f = Inr () \<longleftrightarrow>
     (\<forall>h \<in> set (array_of (opt_prop (prop_of p ''compatibilityPolicy'') f)).
        truthy (opt_prop (prop_of p ''items'') (typed_key (prop_of h ''hostType'') (prop_of h ''hostId''))))"
  unfolding policy_references_def by (rule check_each_all) (simp add: Let_def)

lemma assignments_resolve:
  assumes "assertProjectAssignmentReferences p = Inr ()"
  shows "\<forall>a \<in> set (project_list p ''assignments''). truthy (host_of p a) \<and> truthy (component_of p a)
      \<and> strict_eq (prop_of a ''type'') (opt_prop (component_of p a) ''type'')"
    and "distinct (List.map_filter (\<lambda>a. named (component_reference a)) (project_list p ''assignments''))"
proof -
  let ?P = "\<lambda>a. assignment_references p 0 a = Inr ()"
  have P: "assignment_references p n a = Inr () \<longleftrightarrow> ?P a" for n a by (simp add: assignment_references_def)
  have "(\<forall>a \<in> set (project_list p ''assignments''). ?P a)
      \<and> distinct (List.map_filter (\<lambda>a. named (component_reference a)) (project_list p ''assignments''))"
    by (rule claims_optional [where P = ?P and place = fst and c = "\<lambda>q. assignment_references p (fst q) (snd q)"
          and dup = "\<lambda>q r m. at_index ''Project assignments'' (fst q) @ ''.itemId duplicates component '' @ r @ '' from ''
             @ at_index ''Project assignments'' m @ ''.itemId.''",
          THEN iffD1, OF _ _ assms [unfolded assertProjectAssignmentReferences_def]])
      (simp only: case_prod_beta, rule P)
  then show "\<forall>a \<in> set (project_list p ''assignments''). truthy (host_of p a) \<and> truthy (component_of p a)
      \<and> strict_eq (prop_of a ''type'') (opt_prop (component_of p a) ''type'')"
    "distinct (List.map_filter (\<lambda>a. named (component_reference a)) (project_list p ''assignments''))"
    by (simp_all add: assignment_references_def)
qed

subsection \<open>Connections\<close>

definition endpoint_resolves :: "jsv \<Rightarrow> jsv option \<Rightarrow> bool" where
  "endpoint_resolves p e \<longleftrightarrow>
     (\<exists>owner port. endpoint_owner p e = Some owner \<and> port \<in> set (array_of (prop_of owner ''ports''))
        \<and> prop_of port ''id'' = opt_prop e ''portId''
        \<and> (case opt_prop e ''endpointId'' of None \<Rightarrow> array_of (prop_of port ''endpoints'') = []
           | Some i \<Rightarrow> \<exists>x \<in> set (array_of (prop_of port ''endpoints'')). prop_of x ''id'' = Some i))
     \<and> (named (hosted_reference e) \<noteq> None \<longrightarrow> (\<exists>a \<in> set (project_list p ''assignments'').
          host_reference a = projectReference (opt_prop e ''itemId'') (opt_prop e ''itemType'') (opt_prop e ''itemId'')
          \<and> component_reference a = hosted_reference e))"

lemma endpoint_accepted:
  assumes "assertProjectEndpointReference p e path = Inr ()"
  shows "endpoint_resolves p e"
proof -
  have owner: "truthy (endpoint_owner p e)" and port: "endpoint_port p e \<noteq> None"
    and hosted: "named (hosted_reference e) \<noteq> None \<longrightarrow> (\<exists>a \<in> set (project_list p ''assignments'').
          host_reference a = projectReference (opt_prop e ''itemId'') (opt_prop e ''itemType'') (opt_prop e ''itemId'')
          \<and> component_reference a = hosted_reference e)"
    and ends: "opt_prop e ''endpointId'' \<noteq> None \<Longrightarrow> list_ex (\<lambda>c. strict_eq (prop_of c ''id'') (opt_prop e ''endpointId''))
        (array_of (opt_prop (endpoint_port p e) ''endpoints''))"
      "opt_prop e ''endpointId'' = None \<Longrightarrow> array_of (opt_prop (endpoint_port p e) ''endpoints'') = []"
    using assms by (auto simp: assertProjectEndpointReference_def list_ex_iff split: if_splits)
  obtain o' where o': "endpoint_owner p e = Some o'" using owner by (cases "endpoint_owner p e") auto
  obtain q where q: "endpoint_port p e = Some q" using port by auto
  then have "strict_eq (prop_of q ''id'') (opt_prop e ''portId'') \<and> q \<in> set (array_of (prop_of o' ''ports''))"
    unfolding endpoint_port_def o' by (intro find_Some_iff_first) (simp add: opt_prop_def)
  moreover have "case opt_prop e ''endpointId'' of None \<Rightarrow> array_of (prop_of q ''endpoints'') = []
      | Some i \<Rightarrow> \<exists>x \<in> set (array_of (prop_of q ''endpoints'')). prop_of x ''id'' = Some i"
  proof (cases "opt_prop e ''endpointId''")
    case None
    with ends(2) show ?thesis by (simp add: q opt_prop_def)
  next
    case (Some i)
    with ends(1) obtain x where "x \<in> set (array_of (prop_of q ''endpoints''))" "strict_eq (prop_of x ''id'') (Some i)"
      by (auto simp: q opt_prop_def list_ex_iff)
    with Some strict_eq_same show ?thesis by auto
  qed
  ultimately show ?thesis unfolding endpoint_resolves_def using o' hosted strict_eq_same by blast
qed

lemma connections_resolve:
  assumes "assertProjectConnectionReferences p = Inr ()"
  shows "\<forall>c \<in> set (project_list p ''connections''). endpoint_resolves p (prop_of c ''from'') \<and> endpoint_resolves p (prop_of c ''to'')"
proof
  fix c
  assume "c \<in> set (project_list p ''connections'')"
  then obtain n where "(n, c) \<in> set (enumerate 0 (project_list p ''connections''))"
    by (metis add_0 in_set_conv_nth in_set_enumerate_eq diff_zero fst_conv less_eq_nat.simps(1) snd_conv add.commute)
  with assms have "checks [assertProjectEndpointReference p (prop_of c ''from'') (at_index ''Project connections'' n @ ''.from''),
      assertProjectEndpointReference p (prop_of c ''to'') (at_index ''Project connections'' n @ ''.to'')] = Inr ()"
    by (fastforce simp: assertProjectConnectionReferences_def)
  then show "endpoint_resolves p (prop_of c ''from'') \<and> endpoint_resolves p (prop_of c ''to'')"
    using endpoint_accepted by fastforce
qed

subsection \<open>Allocations\<close>

text \<open>The check of exclusivity accepts exactly the documents whose assignments use pairwise different positions.\<close>

lemma exclusivity_iff:
  "assertProjectAllocationExclusivity p = Inr () \<longleftrightarrow> distinct (concat (map allocation_keys (project_list p ''assignments'')))"
proof -
  define f where "f = (\<lambda>n (q :: nat \<times> position_key). claim_key (Inr ()) (snd q) (n, fst q)
      (\<lambda>previous. allocation_place (n, fst q) @ '' conflicts with '' @ allocation_place previous @ ''.''))"
  have pass: "\<exists>k. f n q = Inr k" for n q by (simp add: f_def)
  have inner: "keys_claimed (map (f n) (enumerate m ks)) = ks" for n m ks
    by (induction ks arbitrary: m) (simp_all add: f_def claim_key_def)
  have outer: "concat (map (\<lambda>q. keys_claimed (map (f (fst q)) (enumerate 0 (allocation_keys (snd q))))) (enumerate n xs))
      = concat (map allocation_keys xs)" for n xs
    by (induction xs arbitrary: n) (simp_all add: inner)
  let ?cs = "concat (map (\<lambda>q. map (f (fst q)) (enumerate 0 (allocation_keys (snd q)))) (enumerate 0 (project_list p ''assignments'')))"
  have cs: "assertProjectAllocationExclusivity p = claims [] ?cs"
    by (simp only: assertProjectAllocationExclusivity_def f_def case_prod_unfold)
  have all: "\<forall>d \<in> set ?cs. \<exists>k. d = Inr k" using pass by auto
  have keys: "keys_claimed ?cs = concat (map allocation_keys (project_list p ''assignments''))"
    unfolding keys_claimed_concat map_map o_def by (rule outer)
  from all show ?thesis unfolding cs claims_Inr keys by blast
qed

text \<open>Every position of an allocation lies within the capacity of its host, or is the single position of a PC build.\<close>

definition allocation_fits :: "jsv \<Rightarrow> jsv \<Rightarrow> jsv \<Rightarrow> bool" where
  "allocation_fits p a al \<longleftrightarrow>
     (opt_prop (host_of p a) ''type'' = Some (JStr ''pcBuild'') \<and> (\<forall>pos \<in> set (array_of (prop_of al ''positions'')). pos = JNum 0))
     \<or> (\<exists>c path. allocation_capacity (capability_source p a)
            (the (opt_prop (opt_prop (capability_source p a) ''compatibility'') ''host'')) al = Inr (Some (JNum c), path)
          \<and> (\<forall>r. JNum r \<in> set (array_of (prop_of al ''positions'')) \<longrightarrow> r < c))"

lemma allocation_accepted:
  assumes "assertAllocationReferences p a al = Inr ()" "array_of (prop_of al ''positions'') \<noteq> []"
  shows "allocation_fits p a al"
proof -
  let ?positions = "array_of (prop_of al ''positions'')"
  let ?host = "the (opt_prop (opt_prop (capability_source p a) ''compatibility'') ''host'')"
  show ?thesis
  proof (cases "opt_prop (host_of p a) ''type'' = Some (JStr ''pcBuild'') \<and> one_of logical_resources (prop_of al ''resourceType'')")
    case True
    with assms(1) show ?thesis by (auto simp: assertAllocationReferences_def allocation_fits_def list_all_iff)
  next
    case False
    with assms(1) obtain capacity path msg where c: "allocation_capacity (capability_source p a) ?host al = Inr (capacity, path)"
      and each: "check_each (\<lambda>n pos. check (number_with isInteger_rat capacity \<and> \<not> num_greater (Some pos) capacity \<and> Some pos \<noteq> capacity) (msg n))
        ?positions = Inr ()"
      by (auto simp: assertAllocationReferences_def split: if_splits sum.splits)
    have "\<forall>pos \<in> set ?positions. number_with isInteger_rat capacity \<and> \<not> num_greater (Some pos) capacity \<and> Some pos \<noteq> capacity"
      by (rule check_each_all [THEN iffD1, OF _ each]) simp
    moreover from this assms(2) have "number_with isInteger_rat capacity" by (cases ?positions) auto
    then obtain r where "capacity = Some (JNum r)" by (auto simp: number_with_def split: option.splits jsv.splits)
    ultimately have "\<forall>x. JNum x \<in> set ?positions \<longrightarrow> x < r" by fastforce
    with c \<open>capacity = Some (JNum r)\<close> show ?thesis unfolding allocation_fits_def by blast
  qed
qed

section \<open>Properties\<close>

text \<open>What the rest of the program may rely on in an accepted project: every placement, assignment and connection refers to
  items, ports and endpoints that exist, and so does every host of the two lists of the compatibility policy; no two assignments and no
  two connections have the same id; every component is assigned once; and every allocation lies within its host, no two sharing a
  position.\<close>

definition policy_hosts :: "jsv \<Rightarrow> jsv list" where
  "policy_hosts p = array_of (opt_prop (prop_of p ''compatibilityPolicy'') ''disabledHosts'')
     @ array_of (opt_prop (prop_of p ''compatibilityPolicy'') ''verifiedMemoryHosts'')"

definition document_consistent :: "jsv \<Rightarrow> bool" where
  "document_consistent p \<longleftrightarrow>
     (let assignments = project_list p ''assignments''; connections = project_list p ''connections'' in
      (\<forall>pl \<in> set (project_list p ''placements''). truthy (placement_item p pl))
      \<and> (\<forall>h \<in> set (policy_hosts p).
           truthy (opt_prop (prop_of p ''items'') (typed_key (prop_of h ''hostType'') (prop_of h ''hostId''))))
      \<and> (\<forall>a \<in> set assignments. truthy (host_of p a)
           \<and> (\<exists>item. component_of p a = Some item \<and> prop_of item ''type'' = prop_of a ''type''))
      \<and> distinct (map (\<lambda>a. prop_of a ''id'') assignments) \<and> distinct (map component_reference assignments)
      \<and> distinct (map (\<lambda>c. prop_of c ''id'') connections)
      \<and> (\<forall>c \<in> set connections. endpoint_resolves p (prop_of c ''from'') \<and> endpoint_resolves p (prop_of c ''to''))
      \<and> (\<forall>a \<in> set assignments. \<forall>al. prop_of a ''allocation'' = Some al \<longrightarrow> allocation_fits p a al)
      \<and> distinct (concat (map allocation_keys assignments)))"

lemma store_shape:
  assumes "assertProjectStoreShape (Some p) runtime_options = Inr ()"
  shows "\<forall>a \<in> set (project_list p ''assignments''). assignment_shape runtime_options a = Inr ()"
    "distinct (map (\<lambda>a. prop_of a ''id'') (project_list p ''assignments''))"
    "distinct (map (\<lambda>c. prop_of c ''id'') (project_list p ''connections''))"
  using assms by (simp_all add: assertProjectStoreShape_def runtime_options_def default_options_def unique_ids_Inr opt_prop_def project_list_def)

lemma in_map_filter: "y \<in> set (List.map_filter g xs) \<longleftrightarrow> (\<exists>x \<in> set xs. g x = Some y)"
  by (induction xs) (auto simp: List.map_filter_simps split: option.splits)

lemma distinct_named:
  "\<forall>x \<in> set xs. named (f x) = f x \<and> f x \<noteq> None \<Longrightarrow> distinct (List.map_filter (\<lambda>x. named (f x)) xs) \<Longrightarrow> distinct (map f xs)"
proof (induction xs)
  case (Cons x xs)
  then obtain y where y: "f x = Some y" "named (f x) = Some y" by fastforce
  then have "y \<notin> set (List.map_filter (\<lambda>x. named (f x)) xs)" using Cons.prems by (simp add: List.map_filter_simps)
  then have "\<forall>z \<in> set xs. f z \<noteq> Some y" using Cons.prems(1) by (auto simp: in_map_filter)
  then have "f x \<notin> f ` set xs" using y by force
  moreover have "distinct (map f xs)" using Cons y by (simp add: List.map_filter_simps)
  ultimately show ?case by simp
qed simp

lemma policy_resolves:
  assumes "assertProjectPlacementReferences p = Inr ()" "h \<in> set (policy_hosts p)"
  shows "truthy (opt_prop (prop_of p ''items'') (typed_key (prop_of h ''hostType'') (prop_of h ''hostId'')))"
proof -
  have "policy_references p ''disabledHosts'' = Inr ()" "policy_references p ''verifiedMemoryHosts'' = Inr ()"
    using assms(1) by (simp_all only: assertProjectPlacementReferences_def checks_Inr list.set ball_simps)
  with assms(2) show ?thesis unfolding policy_references_Inr policy_hosts_def by auto
qed

text \<open>C26: Safety: the server accepts only consistent projects.  Whatever document a client submits, when
  \<open>assertProjectShape\<close> accepts it, the references of its placements, assignments, connections, allocations and of the
  hosts of its compatibility policy resolve; no two assignments have the same id and no two connections; no component is
  assigned twice, each has the type its assignment records, every allocation lies within its host and no two share a
  position of one.  The items are filed under their keys; their own ids are not compared.\<close>

theorem accepted_project_consistent:
  assumes "assertProjectShape isDate v = Inr ()"
  shows "\<exists>p. v = Some p \<and> document_consistent p"
proof -
  obtain m where v: "v = Some (JObj m)" using assms by (auto simp: assertProjectShape_def split: option.splits jsv.splits)
  let ?p = "JObj m" and ?as = "project_list (JObj m) ''assignments''"
  have accepted: "assertProjectStoreShape (Some ?p) runtime_options = Inr ()" "assertProjectPlacementReferences ?p = Inr ()"
    "assertProjectAssignmentReferences ?p = Inr ()" "assertProjectConnectionReferences ?p = Inr ()"
    "assertProjectAllocationReferences ?p = Inr ()" "assertProjectAllocationExclusivity ?p = Inr ()"
    using assms by (simp_all add: assertProjectShape_def v)
  note shape = store_shape [OF accepted(1)]
  have named: "named (component_reference a) = component_reference a \<and> component_reference a \<noteq> None" if "a \<in> set ?as" for a
  proof -
    have "reference_ok runtime_options (prop_of a ''itemId'') (prop_of a ''itemType'') (prop_of a ''itemId'')"
      using shape(1) that by (simp add: assignment_shape_def)
    from component_named [OF this] show ?thesis by (auto simp: named_def)
  qed
  have "distinct (map component_reference ?as)"
    using distinct_named [of ?as component_reference] named assignments_resolve(2) [OF accepted(3)] by blast
  moreover have "\<exists>item. component_of ?p a = Some item \<and> prop_of item ''type'' = prop_of a ''type''" if "a \<in> set ?as" for a
  proof -
    have "truthy (component_of ?p a)" "strict_eq (prop_of a ''type'') (opt_prop (component_of ?p a) ''type'')"
      using assignments_resolve(1) [OF accepted(3)] that by blast+
    then show ?thesis by (cases "component_of ?p a") (auto simp: opt_prop_def dest!: strict_eq_same)
  qed
  moreover have "allocation_fits ?p a al" if a: "a \<in> set ?as" "prop_of a ''allocation'' = Some al" for a al
  proof (rule allocation_accepted)
    show "assertAllocationReferences ?p a al = Inr ()"
      using accepted(5) a by (fastforce simp: assertProjectAllocationReferences_def)
    show "array_of (prop_of al ''positions'') \<noteq> []"
      using shape(1) a by (fastforce simp: assignment_shape_def assertAssignmentAllocation_def)
  qed
  ultimately have "document_consistent ?p"
    using placements_resolve [OF accepted(2)] policy_resolves [OF accepted(2)] assignments_resolve(1) [OF accepted(3)] shape(2,3)
      connections_resolve [OF accepted(4)] exclusivity_iff [of ?p] accepted(6)
    by (simp add: document_consistent_def)
  with v show ?thesis by blast
qed

text \<open>A project with a server whose compatibility is not enforced, a switch it is connected to, and a memory module in it.\<close>

definition stored_assignment :: "rat \<Rightarrow> string \<Rightarrow> string \<Rightarrow> obj \<Rightarrow> jsv" where
  "stored_assignment i item type al =
     JObj [(''id'', JNum i), (''serverId'', JStr ''server:1''), (''itemId'', JStr item), (''type'', JStr type), (''allocation'', JObj al)]"

definition stored_port :: "string \<Rightarrow> jsv" where
  "stored_port kind = JObj [(''id'', JNum 1), (''kind'', JStr kind), (''type'', JStr ''rj45''), (''slotNumber'', JNum 1), (''speed'', JStr ''1G'')]"

definition stored_items :: obj where
  "stored_items =
     [(''server:1'', JObj [(''id'', JNum 1), (''type'', JStr ''server''), (''name'', JStr ''Host''), (''hardwareClass'', JStr ''server''),
         (''usageRole'', JStr ''server''), (''ports'', JArr [stored_port ''server-port'']),
         (''compatibility'', JObj [(''host'', JObj
            [(''memory'', JObj [(''slots'', JNum 2)]),
             (''optionalModuleSlots'', JArr [JObj [(''id'', JNum 1), (''key'', JStr ''wlan''), (''label'', JStr ''WLAN''), (''count'', JNum 1)]])])])]),
      (''switch:1'', JObj [(''id'', JNum 1), (''type'', JStr ''switch''), (''name'', JStr ''Switch''), (''ports'', JArr [stored_port ''switch-port''])]),
      (''ram:1'', JObj [(''id'', JNum 1), (''type'', JStr ''ram''), (''name'', JStr ''DIMM''), (''specs'', JObj [(''capacityGb'', JNum 16)])]),
      (''network:1'', JObj [(''id'', JNum 1), (''type'', JStr ''network''), (''name'', JStr ''WLAN card'')])]"

definition stored_document :: "jsv list \<Rightarrow> jsv" where
  "stored_document assignments =
     JObj [(''items'', JObj stored_items),
       (''placements'', JArr [JObj [(''serverId'', JStr ''server:1''), (''x'', JNum 10), (''y'', JNum 20)]]),
       (''assignments'', JArr assignments),
       (''connections'', JArr [JObj [(''id'', JNum 1), (''type'', JStr ''network''), (''createdAt'', JStr ''2024''),
         (''from'', JObj [(''itemId'', JStr ''server:1''), (''portId'', JNum 1)]),
         (''to'', JObj [(''itemId'', JStr ''switch:1''), (''portId'', JNum 1)])]]),
       (''compatibilityPolicy'', JObj
         [(''disabledHosts'', JArr [JObj [(''hostType'', JStr ''server''), (''hostId'', JNum 1)]]), (''verifiedMemoryHosts'', JArr []), (''ignoredWarningIds'', JArr [])])]"

definition memory_assignment :: jsv where
  "memory_assignment = stored_assignment 1 ''ram:1'' ''ram'' [(''resourceType'', JStr ''memory''), (''positions'', JArr [JNum 1])]"

definition module_assignment :: jsv where
  "module_assignment = stored_assignment 2 ''network:1'' ''network''
     [(''resourceType'', JStr ''optionalModule''), (''groupId'', JNum 1), (''positions'', JArr [JNum 0])]"

theorem accepted_project_consistent_witness:
  "assertProjectShape (\<lambda>_. True) (Some (stored_document [memory_assignment])) = Inr ()
   \<and> document_consistent (stored_document [memory_assignment])"
proof
  show "assertProjectShape (\<lambda>_. True) (Some (stored_document [memory_assignment])) = Inr ()" by code_simp
  from accepted_project_consistent [OF this] show "document_consistent (stored_document [memory_assignment])" by simp
qed

text \<open>Error: an allocation of an optional module is rejected.  The shape of a project with a WLAN card in the optional module slot
  of its server is accepted, and the server declares that slot; the references are not, because every resource other than
  processors, memory and storage is looked up among the expansion slots.\<close>

theorem optional_module_rejected:
  "assertProjectStoreShape (Some (stored_document [memory_assignment, module_assignment])) runtime_options = Inr ()
   \<and> (\<exists>host g. host_of (stored_document [memory_assignment, module_assignment]) module_assignment = Some host
        \<and> g \<in> set (array_of (opt_prop (opt_prop (prop_of host ''compatibility'') ''host'') ''optionalModuleSlots''))
        \<and> prop_of g ''id'' = Some (JNum 1) \<and> prop_of g ''count'' = Some (JNum 1))
   \<and> assertProjectShape (\<lambda>_. True) (Some (stored_document [memory_assignment, module_assignment]))
     = Inl ''Project assignment 2 allocation.groupId references missing compatibility.host.expansionSlots group 1.''"
proof (intro conjI exI)
  let ?p = "stored_document [memory_assignment, module_assignment]"
  let ?g = "JObj [(''id'', JNum 1), (''key'', JStr ''wlan''), (''label'', JStr ''WLAN''), (''count'', JNum 1)]"
  show "assertProjectStoreShape (Some ?p) runtime_options = Inr ()" by code_simp
  show "assertProjectShape (\<lambda>_. True) (Some ?p)
     = Inl ''Project assignment 2 allocation.groupId references missing compatibility.host.expansionSlots group 1.''" by code_simp
  show "host_of ?p module_assignment = Some (snd (hd stored_items))" by code_simp
  show "?g \<in> set (array_of (opt_prop (opt_prop (prop_of (snd (hd stored_items)) ''compatibility'') ''host'') ''optionalModuleSlots''))"
    by code_simp
qed simp_all

end
