(* ===== verification/Permission_Catalog.thy ===== *)
theory Permission_Catalog
  imports Json_Checks
begin

text \<open>
  The permissions of the server and its built-in roles, \<open>server/auth/permission-catalog.mjs\<close>, and the names that
  \<open>authorization-model.mjs\<close> gives to accounts, roles and permissions in the rules of the authorization engine.

  A timestamp is the instant it denotes, in milliseconds: \<open>Date.parse\<close> and \<open>toISOString\<close> convert between the two, and every timestamp the
  server writes is the result of \<open>toISOString\<close>.
\<close>

section \<open>Definitions\<close>

type_synonym instant = int

record permission =
  pm_id :: int
  pm_key :: string
  pm_group :: string
  pm_description :: string
  pm_risk :: string

definition definePermission :: "int \<Rightarrow> string \<Rightarrow> string \<Rightarrow> string \<Rightarrow> string \<Rightarrow> permission" where
  "definePermission i key grp description risk =
     \<lparr>pm_id = i, pm_key = key, pm_group = grp, pm_description = description, pm_risk = risk\<rparr>"

definition PERMISSIONS :: "permission list" where
  "PERMISSIONS =
  [definePermission 101 ''workspace.view'' ''workspace'' ''Open the workspace and read shared equipment state.'' ''standard'',
   definePermission 102 ''workspace.edit'' ''workspace'' ''Modify general workspace state.'' ''standard'',
   definePermission 201 ''inventory.view'' ''inventory'' ''Read inventory records.'' ''standard'',
   definePermission 202 ''inventory.create'' ''inventory'' ''Create inventory records.'' ''standard'',
   definePermission 203 ''inventory.edit'' ''inventory'' ''Modify inventory records.'' ''standard'',
   definePermission 204 ''inventory.archive'' ''inventory'' ''Archive and restore eligible inventory records.'' ''elevated'',
   definePermission 205 ''inventory.delete'' ''inventory'' ''Permanently remove eligible inventory records.'' ''destructive'',
   definePermission 206 ''inventory.metadata.manage'' ''inventory'' ''Configure installation-wide custom fields and tags.'' ''elevated'',
   definePermission 301 ''canvas.view'' ''canvas'' ''View the project canvas.'' ''standard'',
   definePermission 302 ''canvas.edit'' ''canvas'' ''Place, move, and remove canvas equipment.'' ''standard'',
   definePermission 303 ''connections.edit'' ''canvas'' ''Create, route, modify, and remove connections.'' ''standard'',
   definePermission 401 ''project.view'' ''project'' ''Read project configuration and audit state.'' ''standard'',
   definePermission 402 ''project.settings.manage'' ''project'' ''Modify shared project settings and policies.'' ''elevated'',
   definePermission 501 ''registry.view'' ''registry'' ''Read registry catalog and link state.'' ''standard'',
   definePermission 502 ''registry.manage'' ''registry'' ''Configure registry sources, links, and catalog updates.'' ''elevated'',
   definePermission 503 ''registry.contribute'' ''registry'' ''Enroll and send sanitized catalog contributions.'' ''elevated'',
   definePermission 601 ''backups.view'' ''backups'' ''View backup status and history.'' ''standard'',
   definePermission 602 ''backups.create'' ''backups'' ''Create backups.'' ''standard'',
   definePermission 603 ''backups.download'' ''backups'' ''Download backup archives.'' ''elevated'',
   definePermission 604 ''backups.delete'' ''backups'' ''Delete backup archives.'' ''destructive'',
   definePermission 605 ''backups.schedule'' ''backups'' ''Configure scheduled backup retention.'' ''elevated'',
   definePermission 606 ''backups.restore'' ''backups'' ''Replace application data from a backup.'' ''destructive'',
   definePermission 701 ''agents.view'' ''agents'' ''View agent status and enrollment details.'' ''standard'',
   definePermission 702 ''agents.manage'' ''agents'' ''Create, revoke, and configure agent enrollment.'' ''elevated'',
   definePermission 801 ''audit.view'' ''audit'' ''View compatibility and security audit information.'' ''standard'',
   definePermission 802 ''audit.manage'' ''audit'' ''Acknowledge and manage audit findings.'' ''standard'',
   definePermission 901 ''users.view'' ''access'' ''View users and invitations.'' ''elevated'',
   definePermission 902 ''users.manage'' ''access'' ''Manage non-owner users and invitations.'' ''elevated'',
   definePermission 903 ''roles.view'' ''access'' ''View roles and permission assignments.'' ''elevated'',
   definePermission 904 ''roles.manage'' ''access'' ''Manage custom roles and assignments.'' ''elevated'',
   definePermission 1001 ''authentication.view'' ''security'' ''View authentication configuration and identity methods.'' ''elevated'',
   definePermission 1002 ''authentication.manage'' ''security'' ''Configure local and OIDC authentication.'' ''elevated'',
   definePermission 1003 ''security.events.view'' ''security'' ''View authentication and authorization security events.'' ''elevated'',
   definePermission 1101 ''updates.view'' ''updates'' ''View application update status.'' ''standard'',
   definePermission 1102 ''updates.manage'' ''updates'' ''Change update channel and update preferences.'' ''elevated'',
   definePermission 1201 ''notifications.view'' ''notifications'' ''View notification configuration, incidents, and delivery history.'' ''standard'',
   definePermission 1202 ''notifications.manage'' ''notifications'' ''Configure notification policies, destinations, acknowledgements, and retries.'' ''elevated'',
   definePermission 1301 ''sharing.configure'' ''sharing'' ''Configure the lab.gd connection and share definitions.'' ''elevated'',
   definePermission 1302 ''sharing.publish'' ''sharing'' ''Preview, publish, update, unpublish, and delete lab.gd shares.'' ''elevated'']"

definition PERMISSION_BY_ID :: "int \<Rightarrow> permission option" where
  "PERMISSION_BY_ID = map_of (map (\<lambda>p. (pm_id p, p)) PERMISSIONS)"

definition PERMISSION_BY_KEY :: "string \<Rightarrow> permission option" where
  "PERMISSION_BY_KEY = map_of (map (\<lambda>p. (pm_key p, p)) PERMISSIONS)"

definition REQUIRED_WORKSPACE_PERMISSION_KEYS :: "string list" where
  "REQUIRED_WORKSPACE_PERMISSION_KEYS =
     [''workspace.view'', ''inventory.view'', ''canvas.view'', ''project.view'', ''authentication.view'']"

text \<open>All these keys are in the catalog (\<open>required_ids\<close> below).\<close>

definition REQUIRED_WORKSPACE_PERMISSION_IDS :: "int list" where
  "REQUIRED_WORKSPACE_PERMISSION_IDS =
     map (\<lambda>key. case PERMISSION_BY_KEY key of None \<Rightarrow> 0 | Some p \<Rightarrow> pm_id p) REQUIRED_WORKSPACE_PERMISSION_KEYS"

definition js_ends :: "string \<Rightarrow> string \<Rightarrow> bool" where
  "js_ends suffix s = js_starts (rev suffix) (rev s)"

definition READ_PERMISSIONS :: "int list" where
  "READ_PERMISSIONS = map pm_id (filter (\<lambda>p. js_ends ''.view'' (pm_key p)) PERMISSIONS)"

definition EDITOR_KEYS :: "string list" where
  "EDITOR_KEYS =
     [''workspace.view'', ''workspace.edit'', ''inventory.view'', ''inventory.create'', ''inventory.edit'',
      ''inventory.archive'', ''canvas.view'', ''canvas.edit'', ''connections.edit'', ''project.view'',
      ''registry.view'', ''registry.contribute'', ''backups.view'', ''backups.create'', ''backups.download'',
      ''agents.view'', ''agents.manage'', ''audit.view'', ''audit.manage'', ''updates.view'', ''notifications.view'']"

record built_in_role =
  bi_id :: int
  bi_key :: string
  bi_name :: string
  bi_description :: string
  bi_permissionIds :: "int list"

definition BUILT_IN_ROLE_DEFINITIONS :: "built_in_role list" where
  "BUILT_IN_ROLE_DEFINITIONS =
  [\<lparr>bi_id = 1, bi_key = ''owner'', bi_name = ''Owner'', bi_description = ''Protected installation owner with unrestricted access.'',
     bi_permissionIds = map pm_id PERMISSIONS\<rparr>,
   \<lparr>bi_id = 2, bi_key = ''administrator'', bi_name = ''Administrator'',
     bi_description = ''Full day-to-day administration without owner recovery authority.'', bi_permissionIds = map pm_id PERMISSIONS\<rparr>,
   \<lparr>bi_id = 3, bi_key = ''editor'', bi_name = ''Editor'', bi_description = ''Operate inventory, canvas, connections, agents, and contributions.'',
     bi_permissionIds = map pm_id (filter (\<lambda>p. pm_key p \<in> set EDITOR_KEYS) PERMISSIONS)\<rparr>,
   \<lparr>bi_id = 4, bi_key = ''viewer'', bi_name = ''Viewer'', bi_description = ''Read-only access to workspace information.'',
     bi_permissionIds = READ_PERMISSIONS\<rparr>]"

definition permissionByKey :: "string \<Rightarrow> string + permission" where
  "permissionByKey key = (case PERMISSION_BY_KEY key of None \<Rightarrow> Inl (''Unknown permission: '' @ key) | Some p \<Rightarrow> Inr p)"

definition permissionKeysForBuiltInRole :: "string \<Rightarrow> string + string list" where
  "permissionKeysForBuiltInRole key =
     (case List.find (\<lambda>r. bi_key r = key) BUILT_IN_ROLE_DEFINITIONS of
        None \<Rightarrow> Inl (''Unknown built-in role: '' @ key)
      | Some r \<Rightarrow> Inr (map (\<lambda>i. case PERMISSION_BY_ID i of None \<Rightarrow> [] | Some p \<Rightarrow> pm_key p) (bi_permissionIds r)))"

subsection \<open>Roles of the store\<close>

record role =
  ro_id :: int
  ro_key :: string
  ro_name :: string
  ro_description :: string
  ro_builtIn :: bool
  ro_active :: bool
  ro_createdAt :: instant
  ro_updatedAt :: instant

record role_permission =
  rp_id :: int
  rp_roleId :: int
  rp_permissionId :: int

definition createBuiltInAuthorizationRecords :: "instant \<Rightarrow> role list \<times> role_permission list \<times> int \<times> int" where
  "createBuiltInAuthorizationRecords timestamp =
     (let roles = map (\<lambda>r. \<lparr>ro_id = bi_id r, ro_key = bi_key r, ro_name = bi_name r, ro_description = bi_description r,
            ro_builtIn = True, ro_active = True, ro_createdAt = timestamp, ro_updatedAt = timestamp\<rparr>) BUILT_IN_ROLE_DEFINITIONS;
          pairs = concat (map (\<lambda>r. map (Pair (bi_id r)) (bi_permissionIds r)) BUILT_IN_ROLE_DEFINITIONS);
          relations = map (\<lambda>(n, r, p). \<lparr>rp_id = int n, rp_roleId = r, rp_permissionId = p\<rparr>) (enumerate 1 pairs)
      in (roles, relations, 5, int (length pairs) + 1))"

subsection \<open>Names in the rules\<close>

definition GLOBAL_AUTHORIZATION_DOMAIN :: string where
  "GLOBAL_AUTHORIZATION_DOMAIN = ''global:0''"

text \<open>The key is split at its last dot.\<close>

definition permissionTarget :: "string \<Rightarrow> string + string \<times> string" where
  "permissionTarget key =
     (let n = length (takeWhile (\<lambda>c. c \<noteq> CHR ''.'') (rev key)); separator = int (length key) - int n - 1
      in if separator \<le> 0 \<or> separator = int (length key) - 1 then Inl (''Invalid permission key: '' @ key)
         else Inr (take (nat separator) key, drop (nat separator + 1) key))"

definition isPositiveSafeInteger :: "int \<Rightarrow> bool" where
  "isPositiveSafeInteger i \<longleftrightarrow> isSafeInteger i \<and> 0 < i"

definition accountSubject :: "int \<Rightarrow> string + string" where
  "accountSubject i = (if isPositiveSafeInteger i then Inr (''account:'' @ show_int i) else Inl ''Account ID must be a positive safe integer.'')"

definition roleSubject :: "int \<Rightarrow> string + string" where
  "roleSubject i = (if isPositiveSafeInteger i then Inr (''role:'' @ show_int i) else Inl ''Role ID must be a positive safe integer.'')"

definition authorizationDomain :: "(string \<times> int) option \<Rightarrow> string + string" where
  "authorizationDomain sc =
     (if sc = None \<or> sc = Some (''global'', 0) then Inr GLOBAL_AUTHORIZATION_DOMAIN else Inl ''Unsupported authorization scope.'')"

section \<open>Lemmas\<close>

text \<open>The ids and the keys of the catalog are distinct, its ids are relational ids, and each key splits in two.\<close>

lemma distinct_permission_ids: "distinct (map pm_id PERMISSIONS)"
  by (simp add: PERMISSIONS_def definePermission_def)

lemma distinct_permission_keys: "distinct (map pm_key PERMISSIONS)"
  by (simp add: PERMISSIONS_def definePermission_def)

lemma permission_ids_safe: "p \<in> set PERMISSIONS \<Longrightarrow> isPositiveSafeInteger (pm_id p)"
  by (auto simp: PERMISSIONS_def definePermission_def isPositiveSafeInteger_def isSafeInteger_def MAX_SAFE_INTEGER_def)

lemma required_ids: "REQUIRED_WORKSPACE_PERMISSION_IDS = [101, 201, 301, 401, 1001]"
  by code_simp

lemma by_id_Some: "PERMISSION_BY_ID i = Some p \<longleftrightarrow> p \<in> set PERMISSIONS \<and> pm_id p = i"
  using distinct_permission_ids map_of_map_key [OF distinct_permission_ids, of p]
  by (auto simp: PERMISSION_BY_ID_def dest: map_of_SomeD)

lemma by_key_Some: "PERMISSION_BY_KEY k = Some p \<longleftrightarrow> p \<in> set PERMISSIONS \<and> pm_key p = k"
  using distinct_permission_keys map_of_map_key [OF distinct_permission_keys, of p]
  by (auto simp: PERMISSION_BY_KEY_def dest: map_of_SomeD)

definition known_permission :: "int \<Rightarrow> bool" where
  "known_permission i \<longleftrightarrow> PERMISSION_BY_ID i \<noteq> None"

lemma known_permission_iff: "known_permission i \<longleftrightarrow> i \<in> pm_id ` set PERMISSIONS"
  by (auto simp: known_permission_def by_id_Some)

lemma required_known: "i \<in> set REQUIRED_WORKSPACE_PERMISSION_IDS \<Longrightarrow> known_permission i"
  by (auto simp: required_ids known_permission_iff PERMISSIONS_def definePermission_def)

text \<open>The object and the action of a key determine it.\<close>

lemma permissionTarget_join:
  assumes "permissionTarget key = Inr (ob, act)" shows "key = ob @ CHR ''.'' # act"
proof -
  let ?n = "length (takeWhile (\<lambda>c. c \<noteq> CHR ''.'') (rev key))"
  have n: "?n < length key" using assms by (auto simp: permissionTarget_def Let_def split: if_splits)
  then have "rev key ! ?n = CHR ''.''" using nth_length_takeWhile [of "\<lambda>c. c \<noteq> CHR ''.''" "rev key"] by simp
  then have "key ! (length key - Suc ?n) = CHR ''.''" using n by (simp add: rev_nth)
  moreover have "nat (int (length key) - int ?n - 1) = length key - Suc ?n" using n by simp
  ultimately show ?thesis
    using assms n id_take_nth_drop [of "length key - Suc ?n" key]
    by (auto simp: permissionTarget_def Let_def split: if_splits)
qed

lemma targets_defined:
  assumes "p \<in> set PERMISSIONS" shows "\<exists>ob act. permissionTarget (pm_key p) = Inr (ob, act) \<and> ob \<noteq> ''*'' \<and> act \<noteq> ''*''"
proof -
  have "\<forall>p \<in> set PERMISSIONS. case permissionTarget (pm_key p) of Inl _ \<Rightarrow> False | Inr (ob, act) \<Rightarrow> ob \<noteq> ''*'' \<and> act \<noteq> ''*''"
    by code_simp
  with assms show ?thesis by (cases "permissionTarget (pm_key p)") auto
qed

text \<open>The names of accounts and roles.\<close>

definition account_name :: "int \<Rightarrow> string" where
  "account_name i = ''account:'' @ show_int i"

definition role_name :: "int \<Rightarrow> string" where
  "role_name i = ''role:'' @ show_int i"

lemma names_inject [simp]:
  "account_name i = account_name j \<longleftrightarrow> i = j" "role_name i = role_name j \<longleftrightarrow> i = j"
  "account_name i \<noteq> role_name j" "role_name i \<noteq> account_name j"
  by (simp_all add: account_name_def role_name_def)

lemma subject_names:
  "isPositiveSafeInteger i \<Longrightarrow> accountSubject i = Inr (account_name i)"
  "isPositiveSafeInteger i \<Longrightarrow> roleSubject i = Inr (role_name i)"
  "authorizationDomain None = Inr GLOBAL_AUTHORIZATION_DOMAIN"
  "authorizationDomain (Some (''global'', 0)) = Inr GLOBAL_AUTHORIZATION_DOMAIN"
  by (simp_all add: accountSubject_def roleSubject_def account_name_def role_name_def authorizationDomain_def)

end
