(* ===== verification/Auth_Store.thy ===== *)
theory Auth_Store
  imports Permission_Catalog
begin

text \<open>
  The authentication store of the server and the check that every version of it passes before it is kept,
  \<open>server/auth/model.mjs\<close>.

  The records have the fields that the code writes; a field that the code declares nullable is an option.  The tests of the check that
  the types decide (\<open>typeof\<close>, \<open>Array.isArray\<close>, a timestamp that \<open>Date.parse\<close> reads) have no counterpart.  What the server takes from its
  platform is the record \<open>platform\<close>: Unicode normalization, SHA-256, the protocol and the host name that \<open>new URL\<close> finds in a text
  (\<open>None\<close> when it throws), and the hash of a password.
\<close>

section \<open>Definitions\<close>

record platform =
  pf_nfkc :: "string \<Rightarrow> string"
  pf_sha256 :: "string \<Rightarrow> string"
  pf_url :: "string \<Rightarrow> (string \<times> string) option"
  pf_passwordHash :: "string \<Rightarrow> string"

subsection \<open>Records\<close>

record account =
  ac_id :: int
  ac_username :: string
  ac_email :: "string option"
  ac_displayName :: string
  ac_protectedOwner :: bool
  ac_active :: bool
  ac_createdAt :: "instant option"
  ac_updatedAt :: "instant option"

record local_credential =
  lc_id :: int
  lc_accountId :: int
  lc_passwordHash :: string
  lc_createdAt :: "instant option"
  lc_updatedAt :: "instant option"

record oidc_identity =
  oi_id :: int
  oi_accountId :: int
  oi_issuer :: "string option"
  oi_subject :: string
  oi_email :: "string option"
  oi_displayName :: "string option"
  oi_createdAt :: "instant option"
  oi_lastLoginAt :: "instant option"

record session =
  se_id :: int
  se_accountId :: "int option"
  se_tokenHash :: string
  se_remember :: bool
  se_createdAt :: instant
  se_lastSeenAt :: instant
  se_idleExpiresAt :: instant
  se_absoluteExpiresAt :: instant
  se_userAgent :: "string option"
  se_ip :: "string option"
  se_revokedAt :: "instant option"

record recovery_token =
  rt_id :: int
  rt_accountId :: "int option"
  rt_tokenHash :: string
  rt_createdAt :: instant
  rt_expiresAt :: instant
  rt_usedAt :: "instant option"

record security_event =
  sv_id :: int
  sv_accountId :: "int option"
  sv_type :: string
  sv_detail :: "string option"
  sv_ip :: "string option"
  sv_userAgent :: "string option"
  sv_createdAt :: instant

record oidc_transaction =
  ot_id :: int
  ot_accountId :: "int option"
  ot_purpose :: string
  ot_invitationId :: "int option"
  ot_tokenHash :: string
  ot_state :: string
  ot_nonce :: string
  ot_codeVerifier :: string
  ot_returnTo :: string
  ot_createdAt :: instant
  ot_expiresAt :: instant
  ot_usedAt :: "instant option"

record account_role =
  ar_id :: int
  ar_accountId :: int
  ar_roleId :: int
  ar_scopeKind :: string
  ar_scopeId :: int

record invitation =
  in_id :: int
  in_email :: string
  in_identityType :: string
  in_roleIds :: "int list"
  in_tokenHash :: string
  in_status :: string
  in_createdByAccountId :: int
  in_accountId :: "int option"
  in_createdAt :: instant
  in_expiresAt :: instant
  in_acceptedAt :: "instant option"
  in_revokedAt :: "instant option"

record identity_link_request =
  lr_id :: int
  lr_accountId :: int
  lr_identityType :: string
  lr_status :: string
  lr_tokenHash :: string
  lr_createdAt :: instant
  lr_expiresAt :: instant
  lr_confirmedAt :: "instant option"

record oidc_settings =
  os_issuer :: "string option"
  os_clientId :: "string option"
  os_scopes :: "string list"
  os_externalUrl :: "string option"
  os_clientSecretConfigured :: bool

record auth_configuration =
  cf_enabled :: bool
  cf_localEnabled :: bool
  cf_oidcEnabled :: bool
  cf_oidc :: oidc_settings
  cf_updatedAt :: "instant option"

record auth_store =
  au_version :: int
  au_nextAccountId :: int
  au_nextLocalCredentialId :: int
  au_nextOidcIdentityId :: int
  au_nextSessionId :: int
  au_nextRecoveryTokenId :: int
  au_nextSecurityEventId :: int
  au_nextOidcTransactionId :: int
  au_nextRoleId :: int
  au_nextRolePermissionId :: int
  au_nextAccountRoleId :: int
  au_nextInvitationId :: int
  au_nextIdentityLinkRequestId :: int
  au_accounts :: "account list"
  au_localCredentials :: "local_credential list"
  au_oidcIdentities :: "oidc_identity list"
  au_sessions :: "session list"
  au_recoveryTokens :: "recovery_token list"
  au_securityEvents :: "security_event list"
  au_oidcTransactions :: "oidc_transaction list"
  au_roles :: "role list"
  au_rolePermissions :: "role_permission list"
  au_accountRoles :: "account_role list"
  au_invitations :: "invitation list"
  au_identityLinkRequests :: "identity_link_request list"
  au_configuration :: auth_configuration
  au_setupRequired :: bool
  au_completedAt :: "instant option"

definition AUTH_STORE_VERSION :: int where
  "AUTH_STORE_VERSION = 2"

text \<open>\<open>createAuthenticationStore\<close> at the instant \<open>now\<close> of the creation of the built-in roles.\<close>

definition createAuthenticationStore :: "instant \<Rightarrow> bool \<Rightarrow> auth_store" where
  "createAuthenticationStore now setupRequired =
     (case createBuiltInAuthorizationRecords now of (roles, relations, nextRole, nextRelation) \<Rightarrow>
     \<lparr>au_version = AUTH_STORE_VERSION, au_nextAccountId = 1, au_nextLocalCredentialId = 1, au_nextOidcIdentityId = 1,
      au_nextSessionId = 1, au_nextRecoveryTokenId = 1, au_nextSecurityEventId = 1, au_nextOidcTransactionId = 1,
      au_nextRoleId = nextRole, au_nextRolePermissionId = nextRelation, au_nextAccountRoleId = 1, au_nextInvitationId = 1,
      au_nextIdentityLinkRequestId = 1, au_accounts = [], au_localCredentials = [], au_oidcIdentities = [], au_sessions = [],
      au_recoveryTokens = [], au_securityEvents = [], au_oidcTransactions = [], au_roles = roles, au_rolePermissions = relations,
      au_accountRoles = [], au_invitations = [], au_identityLinkRequests = [],
      au_configuration = \<lparr>cf_enabled = False, cf_localEnabled = False, cf_oidcEnabled = False,
        cf_oidc = \<lparr>os_issuer = None, os_clientId = None, os_scopes = [''openid'', ''profile'', ''email''], os_externalUrl = None,
          os_clientSecretConfigured = False\<rparr>, cf_updatedAt = None\<rparr>,
      au_setupRequired = setupRequired, au_completedAt = None\<rparr>)"

definition deriveAuthenticationMode :: "auth_store \<Rightarrow> string" where
  "deriveAuthenticationMode s =
     (let c = au_configuration s; l = cf_localEnabled c; d = cf_oidcEnabled c in
      if \<not> cf_enabled c then ''disabled''
      else if l \<and> d then ''hybrid'' else if l then ''local'' else if d then ''oidc'' else ''disabled'')"

subsection \<open>The regular expressions\<close>

definition lower_letter :: "char \<Rightarrow> bool" where
  "lower_letter c = (let n = (of_char c :: nat) in 97 \<le> n \<and> n \<le> 122)"

definition upper_letter :: "char \<Rightarrow> bool" where
  "upper_letter c = (let n = (of_char c :: nat) in 65 \<le> n \<and> n \<le> 90)"

text \<open>\<open>/^[a-z0-9._-]{3,64}$/\<close>, \<open>/^[a-z][a-z0-9-]{1,63}$/\<close>, \<open>/^[a-f0-9]{64}$/\<close>, \<open>/^[A-Za-z0-9._:-]{1,100}$/\<close> and \<open>/^[^\s@]+@[^\s@]+\.[^\s@]+$/\<close>.\<close>

definition username_ok :: "string \<Rightarrow> bool" where
  "username_ok s \<longleftrightarrow> 3 \<le> length s \<and> length s \<le> 64 \<and> list_all (\<lambda>c. lower_letter c \<or> is_digit c \<or> c \<in> set ''._-'') s"

fun role_key_ok :: "string \<Rightarrow> bool" where
  "role_key_ok [] = False"
| "role_key_ok (c # cs) = (lower_letter c \<and> 1 \<le> length cs \<and> length cs \<le> 63 \<and> list_all (\<lambda>c. lower_letter c \<or> is_digit c \<or> c = CHR ''-'') cs)"

definition token_hash_ok :: "string \<Rightarrow> bool" where
  "token_hash_ok s \<longleftrightarrow> length s = 64 \<and> list_all (\<lambda>c. is_digit c \<or> c \<in> set ''abcdef'') s"

definition scope_ok :: "string \<Rightarrow> bool" where
  "scope_ok s \<longleftrightarrow> 1 \<le> length s \<and> length s \<le> 100 \<and> list_all (\<lambda>c. lower_letter c \<or> upper_letter c \<or> is_digit c \<or> c \<in> set ''._:-'') s"

definition email_ok :: "string \<Rightarrow> bool" where
  "email_ok s = (case js_split (CHR ''@'') s of
     [l, d] \<Rightarrow> l \<noteq> [] \<and> list_all (\<lambda>c. \<not> is_js_space c) s \<and> CHR ''.'' \<in> set (butlast (tl d))
   | _ \<Rightarrow> False)"

subsection \<open>Elementary assertions\<close>

definition assertPositiveId :: "int \<Rightarrow> string \<Rightarrow> string + unit" where
  "assertPositiveId v path = check (isPositiveSafeInteger v) (path @ '' must be a positive safe integer.'')"

definition assertHttpsOrLocalUrl :: "platform \<Rightarrow> string option \<Rightarrow> string \<Rightarrow> string + unit" where
  "assertHttpsOrLocalUrl P v path = (case v of None \<Rightarrow> Inr () | Some t \<Rightarrow>
     (case pf_url P t of
        None \<Rightarrow> Inl (path @ '' must be a valid URL.'')
      | Some (protocol, host) \<Rightarrow>
          check (protocol = ''https:'' \<or> protocol = ''http:'' \<and> (host = ''localhost'' \<or> host = ''127.0.0.1''))
            (path @ '' must use HTTPS.'')))"

definition assertTokenHash :: "string \<Rightarrow> string \<Rightarrow> string + unit" where
  "assertTokenHash v path = check (token_hash_ok v) (path @ '' is invalid.'')"

definition assertUniqueIds :: "int list \<Rightarrow> string \<Rightarrow> string + unit" where
  "assertUniqueIds ids path = checks
     [check_each (\<lambda>n i. assertPositiveId i (at_index path n @ ''.id'')) ids,
      check (distinct ids) (path @ '' IDs must be unique.'')]"

definition assertNextId :: "int \<Rightarrow> int list \<Rightarrow> string \<Rightarrow> string + unit" where
  "assertNextId nextId ids path = checks
     [assertPositiveId nextId path,
      check (\<not> list_ex (\<lambda>i. nextId \<le> i) ids) (path @ '' must exceed every persisted ID.'')]"

definition table_path :: "string \<Rightarrow> nat \<Rightarrow> string \<Rightarrow> string" where
  "table_path table n field = at_index (''authentication.'' @ table) n @ field"

subsection \<open>The tables\<close>

text \<open>A record of a table that claims a key in the middle of its assertions.\<close>

definition claim_between :: "string + unit \<Rightarrow> 'k \<Rightarrow> string \<Rightarrow> string + unit \<Rightarrow> ('k, unit) claim list" where
  "claim_between before k duplicate after = [claim_key before k () (\<lambda>_. duplicate), claim_none after]"

definition claim_table :: "(nat \<Rightarrow> 'a \<Rightarrow> ('k, unit) claim list) \<Rightarrow> 'a list \<Rightarrow> string + unit" where
  "claim_table f xs = claims [] (concat (map (\<lambda>(n, x). f n x) (enumerate 0 xs)))"

text \<open>The accounts, with the usernames and the email addresses seen so far.\<close>

fun assert_accounts :: "string list \<Rightarrow> string list \<Rightarrow> nat \<Rightarrow> account list \<Rightarrow> string + unit" where
  "assert_accounts usernames emails n [] = Inr ()"
| "assert_accounts usernames emails n (a # as) =
     try_eval (checks
       [check (username_ok (ac_username a)) (table_path ''accounts'' n ''.username is invalid.''),
        check (ac_username a \<notin> set usernames) ''Authentication usernames must be unique.'',
        check (1 \<le> length (ac_displayName a) \<and> length (ac_displayName a) \<le> 100) (table_path ''accounts'' n ''.displayName is invalid.''),
        (case ac_email a of None \<Rightarrow> Inr () | Some e \<Rightarrow> checks
          [check (js_lower e = e \<and> email_ok e) (table_path ''accounts'' n ''.email is invalid.''),
           check (e \<notin> set emails) ''Authentication account emails must be unique.''])])
     (\<lambda>_. assert_accounts (ac_username a # usernames) (case ac_email a of None \<Rightarrow> emails | Some e \<Rightarrow> e # emails) (Suc n) as)"

definition assert_account_ref :: "int list \<Rightarrow> string \<Rightarrow> nat \<Rightarrow> int \<Rightarrow> string + unit" where
  "assert_account_ref accountIds table n i = checks
     [assertPositiveId i (table_path table n ''.accountId''),
      check (i \<in> set accountIds) (table_path table n ''.accountId references a missing account.'')]"

definition assert_credentials :: "int list \<Rightarrow> local_credential list \<Rightarrow> string + unit" where
  "assert_credentials accountIds = claim_table (\<lambda>n c. claim_between
     (assert_account_ref accountIds ''localCredentials'' n (lc_accountId c))
     (lc_accountId c) ''Each account may have only one local credential.''
     (check (20 \<le> length (lc_passwordHash c)) (table_path ''localCredentials'' n ''.passwordHash is invalid.'')))"

text \<open>The key of an OIDC identity: the text of the issuer and the subject, with a zero character between them.\<close>

definition oidc_key :: "oidc_identity \<Rightarrow> string" where
  "oidc_key d = (case oi_issuer d of None \<Rightarrow> ''null'' | Some t \<Rightarrow> t) @ char_of (0 :: nat) # oi_subject d"

definition assert_identities :: "platform \<Rightarrow> int list \<Rightarrow> oidc_identity list \<Rightarrow> string + unit" where
  "assert_identities P accountIds = claim_table (\<lambda>n d. claim_between
     (checks
       [assert_account_ref accountIds ''oidcIdentities'' n (oi_accountId d),
        assertHttpsOrLocalUrl P (oi_issuer d) (table_path ''oidcIdentities'' n ''.issuer''),
        check (1 \<le> length (oi_subject d) \<and> length (oi_subject d) \<le> 255) (table_path ''oidcIdentities'' n ''.subject is invalid.''),
        check (case oi_email d of None \<Rightarrow> True | Some e \<Rightarrow> js_lower e = e) (table_path ''oidcIdentities'' n ''.email is invalid.'')])
     (oidc_key d) ''OIDC issuer and subject pairs must be unique.'' (Inr ()))"

text \<open>The accounts that sessions, recovery tokens, security events and OIDC transactions name.\<close>

definition assert_owners :: "int list \<Rightarrow> string \<Rightarrow> int option list \<Rightarrow> string + unit" where
  "assert_owners accountIds table = check_each (\<lambda>n r. case r of None \<Rightarrow> Inr () | Some i \<Rightarrow> assert_account_ref accountIds table n i)"

definition assert_sessions :: "session list \<Rightarrow> string + unit" where
  "assert_sessions = claim_table (\<lambda>n x. claim_between (assertTokenHash (se_tokenHash x) (table_path ''sessions'' n ''.tokenHash''))
     (se_tokenHash x) ''Authentication session token hashes must be unique.'' (Inr ()))"

definition assert_recoveries :: "recovery_token list \<Rightarrow> string + unit" where
  "assert_recoveries = claim_table (\<lambda>n x. claim_between (assertTokenHash (rt_tokenHash x) (table_path ''recoveryTokens'' n ''.tokenHash''))
     (rt_tokenHash x) ''Authentication recovery token hashes must be unique.'' (Inr ()))"

definition assert_events :: "security_event list \<Rightarrow> string + unit" where
  "assert_events = check_each (\<lambda>n x. check (1 \<le> length (sv_type x) \<and> length (sv_type x) \<le> 100)
     (table_path ''securityEvents'' n ''.type is invalid.''))"

definition assert_transactions :: "oidc_transaction list \<Rightarrow> string + unit" where
  "assert_transactions = claim_table (\<lambda>n x. claim_between (assertTokenHash (ot_tokenHash x) (table_path ''oidcTransactions'' n ''.tokenHash''))
     (ot_tokenHash x) ''OIDC transaction token hashes must be unique.''
     (checks (map (\<lambda>(field, v). check (16 \<le> length v \<and> length v \<le> 512) (table_path ''oidcTransactions'' n (''.'' @ field @ '' is invalid.'')))
         [(''state'', ot_state x), (''nonce'', ot_nonce x), (''codeVerifier'', ot_codeVerifier x)]
       @ [check (js_starts ''/'' (ot_returnTo x) \<and> \<not> js_starts ''//'' (ot_returnTo x)) (table_path ''oidcTransactions'' n ''.returnTo is invalid.'')])))"

definition assert_roles :: "role list \<Rightarrow> string + unit" where
  "assert_roles = claim_table (\<lambda>n r. claim_between (check (role_key_ok (ro_key r)) (table_path ''roles'' n ''.key is invalid.''))
     (ro_key r) ''Authentication role keys must be unique.''
     (checks
       [check (1 \<le> length (ro_name r) \<and> length (ro_name r) \<le> 80) (table_path ''roles'' n ''.name is invalid.''),
        check (length (ro_description r) \<le> 255) (table_path ''roles'' n ''.description is invalid.'')]))"

definition assert_built_ins :: "role list \<Rightarrow> string + unit" where
  "assert_built_ins roles = checks (map (\<lambda>b.
     check (case List.find (\<lambda>r. ro_id r = bi_id b \<and> ro_key r = bi_key b \<and> ro_builtIn r) roles of None \<Rightarrow> False | Some r \<Rightarrow> ro_active r)
       (''Built-in role '' @ bi_key b @ '' is missing or invalid.'')) BUILT_IN_ROLE_DEFINITIONS)"

definition assert_role_permissions :: "int list \<Rightarrow> role_permission list \<Rightarrow> string + unit" where
  "assert_role_permissions roleIds = claim_table (\<lambda>n x. claim_between
     (checks
       [assertPositiveId (rp_roleId x) (table_path ''rolePermissions'' n ''.roleId''),
        assertPositiveId (rp_permissionId x) (table_path ''rolePermissions'' n ''.permissionId''),
        check (rp_roleId x \<in> set roleIds) (table_path ''rolePermissions'' n ''.roleId references a missing role.''),
        check (known_permission (rp_permissionId x)) (table_path ''rolePermissions'' n ''.permissionId references an unknown permission.'')])
     (rp_roleId x, rp_permissionId x) ''Role permission relationships must be unique.'' (Inr ()))"

definition assert_account_roles :: "int list \<Rightarrow> int list \<Rightarrow> account_role list \<Rightarrow> string + unit" where
  "assert_account_roles accountIds roleIds = claim_table (\<lambda>n x. claim_between
     (checks
       [assertPositiveId (ar_accountId x) (table_path ''accountRoles'' n ''.accountId''),
        assertPositiveId (ar_roleId x) (table_path ''accountRoles'' n ''.roleId''),
        check (ar_accountId x \<in> set accountIds) (table_path ''accountRoles'' n ''.accountId references a missing account.''),
        check (ar_roleId x \<in> set roleIds) (table_path ''accountRoles'' n ''.roleId references a missing role.''),
        check (ar_scopeKind x = ''global'' \<and> ar_scopeId x = 0) (table_path ''accountRoles'' n '' uses an unsupported scope.'')])
     (ar_accountId x, ar_roleId x) ''Account role relationships must be unique.'' (Inr ()))"

definition assert_owner_role :: "auth_store \<Rightarrow> string + unit" where
  "assert_owner_role s =
     (case List.find ac_protectedOwner (au_accounts s) of
        None \<Rightarrow> Inr ()
      | Some owner \<Rightarrow> check (list_ex (\<lambda>x. ar_accountId x = ac_id owner \<and>
            Some (ar_roleId x) = map_option ro_id (List.find (\<lambda>r. ro_key r = ''owner'') (au_roles s))) (au_accountRoles s))
          ''The protected owner must retain the Owner role.'')"

definition invitation_checks :: "int list \<Rightarrow> int list \<Rightarrow> nat \<Rightarrow> invitation \<Rightarrow> string + unit" where
  "invitation_checks accountIds roleIds n x = checks
     [check (in_identityType x \<in> {''local'', ''oidc''}) (table_path ''invitations'' n ''.identityType is invalid.''),
      check (js_lower (in_email x) = in_email x) (table_path ''invitations'' n ''.email is invalid.''),
      check (in_status x \<in> {''pending'', ''accepted'', ''expired'', ''revoked''}) (table_path ''invitations'' n ''.status is invalid.''),
      assertTokenHash (in_tokenHash x) (table_path ''invitations'' n ''.tokenHash''),
      assertPositiveId (in_createdByAccountId x) (table_path ''invitations'' n ''.createdByAccountId''),
      check (in_createdByAccountId x \<in> set accountIds) (table_path ''invitations'' n ''.createdByAccountId references a missing account.''),
      check (set (in_roleIds x) \<subseteq> set roleIds) (table_path ''invitations'' n ''.roleIds are invalid.''),
      check (case in_accountId x of None \<Rightarrow> True | Some i \<Rightarrow> i \<in> set accountIds)
        (table_path ''invitations'' n ''.accountId references a missing account.'')]"

definition assert_invitations :: "int list \<Rightarrow> int list \<Rightarrow> invitation list \<Rightarrow> string + unit" where
  "assert_invitations accountIds roleIds = claim_table (\<lambda>n x.
     [claim_none (invitation_checks accountIds roleIds n x),
      if in_status x = ''pending''
      then claim_key (Inr ()) (in_email x) () (\<lambda>_. ''Pending invitation emails must be unique.'') else claim_none (Inr ())])"

definition assert_link_requests :: "int list \<Rightarrow> identity_link_request list \<Rightarrow> string + unit" where
  "assert_link_requests accountIds = check_each (\<lambda>n x. checks
     [assert_account_ref accountIds ''identityLinkRequests'' n (lr_accountId x),
      check (lr_identityType x \<in> {''local'', ''oidc''}) (table_path ''identityLinkRequests'' n ''.identityType is invalid.''),
      check (lr_status x \<in> {''pending'', ''confirmed'', ''expired'', ''revoked''}) (table_path ''identityLinkRequests'' n ''.status is invalid.''),
      assertTokenHash (lr_tokenHash x) (table_path ''identityLinkRequests'' n ''.tokenHash'')])"

definition assert_configuration :: "platform \<Rightarrow> auth_configuration \<Rightarrow> string + unit" where
  "assert_configuration P c = (let d = cf_oidc c in checks
     [check (cf_enabled c \<longrightarrow> cf_localEnabled c \<or> cf_oidcEnabled c) ''Enabled authentication requires at least one login method.'',
      assertHttpsOrLocalUrl P (os_issuer d) ''authentication.configuration.oidc.issuer'',
      assertHttpsOrLocalUrl P (os_externalUrl d) ''authentication.configuration.oidc.externalUrl'',
      check (case os_clientId d of None \<Rightarrow> True | Some t \<Rightarrow> 1 \<le> length t \<and> length t \<le> 255) ''authentication.configuration.oidc.clientId is invalid.'',
      check (os_scopes d \<noteq> [] \<and> list_all scope_ok (os_scopes d)) ''authentication.configuration.oidc.scopes is invalid.'',
      check (distinct (os_scopes d)) ''authentication.configuration.oidc.scopes must be unique.''])"

text \<open>The ids of each table with the counter of its next id, in the order of the code.\<close>

definition id_tables :: "auth_store \<Rightarrow> (string \<times> string \<times> int list \<times> int) list" where
  "id_tables s =
     [(''accounts'', ''nextAccountId'', map ac_id (au_accounts s), au_nextAccountId s),
      (''localCredentials'', ''nextLocalCredentialId'', map lc_id (au_localCredentials s), au_nextLocalCredentialId s),
      (''oidcIdentities'', ''nextOidcIdentityId'', map oi_id (au_oidcIdentities s), au_nextOidcIdentityId s),
      (''sessions'', ''nextSessionId'', map se_id (au_sessions s), au_nextSessionId s),
      (''recoveryTokens'', ''nextRecoveryTokenId'', map rt_id (au_recoveryTokens s), au_nextRecoveryTokenId s),
      (''securityEvents'', ''nextSecurityEventId'', map sv_id (au_securityEvents s), au_nextSecurityEventId s),
      (''oidcTransactions'', ''nextOidcTransactionId'', map ot_id (au_oidcTransactions s), au_nextOidcTransactionId s),
      (''roles'', ''nextRoleId'', map ro_id (au_roles s), au_nextRoleId s),
      (''rolePermissions'', ''nextRolePermissionId'', map rp_id (au_rolePermissions s), au_nextRolePermissionId s),
      (''accountRoles'', ''nextAccountRoleId'', map ar_id (au_accountRoles s), au_nextAccountRoleId s),
      (''invitations'', ''nextInvitationId'', map in_id (au_invitations s), au_nextInvitationId s),
      (''identityLinkRequests'', ''nextIdentityLinkRequestId'', map lr_id (au_identityLinkRequests s), au_nextIdentityLinkRequestId s)]"

definition assertAuthenticationStoreShape :: "platform \<Rightarrow> auth_store \<Rightarrow> string + unit" where
  "assertAuthenticationStoreShape P s = (let accountIds = map ac_id (au_accounts s); roleIds = map ro_id (au_roles s) in checks
     ([check (au_version s = AUTH_STORE_VERSION) ''Authentication store version is unsupported.'']
      @ map (\<lambda>(table, _, ids, _). assertUniqueIds ids (''authentication.'' @ table)) (id_tables s)
      @ map (\<lambda>(_, counter, ids, next_id). assertNextId next_id ids (''authentication.'' @ counter)) (id_tables s)
      @ [assert_accounts [] [] 0 (au_accounts s),
         check (length (filter ac_protectedOwner (au_accounts s)) \<le> 1) ''Authentication may contain only one protected owner.'',
         assert_credentials accountIds (au_localCredentials s),
         assert_identities P accountIds (au_oidcIdentities s),
         assert_owners accountIds ''sessions'' (map se_accountId (au_sessions s)),
         assert_owners accountIds ''recoveryTokens'' (map rt_accountId (au_recoveryTokens s)),
         assert_owners accountIds ''securityEvents'' (map sv_accountId (au_securityEvents s)),
         assert_owners accountIds ''oidcTransactions'' (map ot_accountId (au_oidcTransactions s)),
         assert_sessions (au_sessions s),
         assert_recoveries (au_recoveryTokens s),
         assert_events (au_securityEvents s),
         assert_transactions (au_oidcTransactions s),
         assert_roles (au_roles s),
         assert_built_ins (au_roles s),
         assert_role_permissions roleIds (au_rolePermissions s),
         assert_account_roles accountIds roleIds (au_accountRoles s),
         assert_owner_role s,
         assert_invitations accountIds roleIds (au_invitations s),
         assert_link_requests accountIds (au_identityLinkRequests s),
         assert_configuration P (au_configuration s)]))"

subsection \<open>The owner\<close>

definition createOwnerAccount :: "int \<Rightarrow> string \<Rightarrow> string \<Rightarrow> instant \<Rightarrow> account" where
  "createOwnerAccount i username displayName now =
     \<lparr>ac_id = i, ac_username = username, ac_email = None, ac_displayName = displayName, ac_protectedOwner = True, ac_active = True,
      ac_createdAt = Some now, ac_updatedAt = Some now\<rparr>"

definition add_account_role :: "int \<Rightarrow> int \<Rightarrow> auth_store \<Rightarrow> auth_store" where
  "add_account_role accountId roleId s = s\<lparr>au_nextAccountRoleId := au_nextAccountRoleId s + 1,
     au_accountRoles := au_accountRoles s @ [\<lparr>ar_id = au_nextAccountRoleId s, ar_accountId = accountId, ar_roleId = roleId,
       ar_scopeKind = ''global'', ar_scopeId = 0\<rparr>]\<rparr>"

text \<open>\<open>ensureProtectedOwnerRole\<close>, the store after it; no caller uses the assignment it returns.\<close>

definition ensureProtectedOwnerRole :: "int \<Rightarrow> auth_store \<Rightarrow> string + auth_store" where
  "ensureProtectedOwnerRole accountId s =
     try_eval (assertPositiveId accountId ''authentication protected owner account ID'') (\<lambda>_.
       (case List.find (\<lambda>r. ro_key r = ''owner'' \<and> ro_builtIn r) (au_roles s) of
          None \<Rightarrow> Inl ''The built-in Owner role is unavailable.''
        | Some r \<Rightarrow>
            if list_ex (\<lambda>x. ar_accountId x = accountId \<and> ar_roleId x = ro_id r \<and> ar_scopeKind x = ''global'' \<and> ar_scopeId x = 0) (au_accountRoles s)
            then Inr s else Inr (add_account_role accountId (ro_id r) s)))"

section \<open>What the check accepts\<close>

lemma claim_between_step:
  "claims seen (claim_between b k d a @ cs) = Inr () \<longleftrightarrow>
     b = Inr () \<and> k \<notin> fst ` set seen \<and> a = Inr () \<and> claims ((k, ()) # seen) cs = Inr ()"
  by (cases b; cases a)
    (auto simp: claim_between_def claim_key_def claim_none_def map_of_eq_None_iff split: option.splits dest: map_of_SomeD
      intro: rev_image_eqI)

lemma claim_table_between:
  assumes "\<And>n x. b n x = Inr () \<longleftrightarrow> P x" "\<And>n x. a n x = Inr () \<longleftrightarrow> Q x"
  shows "claim_table (\<lambda>n x. claim_between (b n x) (k x) d (a n x)) xs = Inr () \<longleftrightarrow> (\<forall>x \<in> set xs. P x \<and> Q x) \<and> distinct (map k xs)"
proof -
  have "claims seen (concat (map (\<lambda>(n, x). claim_between (b n x) (k x) d (a n x)) (enumerate m xs))) = Inr () \<longleftrightarrow>
      (\<forall>x \<in> set xs. P x \<and> Q x) \<and> distinct (map k xs) \<and> set (map k xs) \<inter> fst ` set seen = {}" for seen m
  proof (induction xs arbitrary: seen m)
    case (Cons x xs)
    then show ?case by (auto simp: claim_between_step assms)
  qed simp
  from this [of "[]" 0] show ?thesis by (simp add: claim_table_def)
qed

lemma assertPositiveId_Inr [simp]: "assertPositiveId i path = Inr () \<longleftrightarrow> isPositiveSafeInteger i"
  by (simp add: assertPositiveId_def)

lemma assertTokenHash_Inr [simp]: "assertTokenHash t path = Inr () \<longleftrightarrow> token_hash_ok t"
  by (simp add: assertTokenHash_def)

definition url_ok :: "platform \<Rightarrow> string option \<Rightarrow> bool" where
  "url_ok P v \<longleftrightarrow> (\<forall>t. v = Some t \<longrightarrow> (\<exists>protocol host. pf_url P t = Some (protocol, host) \<and>
     (protocol = ''https:'' \<or> protocol = ''http:'' \<and> (host = ''localhost'' \<or> host = ''127.0.0.1''))))"

lemma assertHttpsOrLocalUrl_Inr [simp]: "assertHttpsOrLocalUrl P v path = Inr () \<longleftrightarrow> url_ok P v"
  by (auto simp: assertHttpsOrLocalUrl_def url_ok_def split: option.splits)

text \<open>The ids of a table and its counter.\<close>

definition table_ok :: "int list \<Rightarrow> int \<Rightarrow> bool" where
  "table_ok ids next_id \<longleftrightarrow> distinct ids \<and> (\<forall>i \<in> set ids. isPositiveSafeInteger i \<and> i < next_id) \<and> isPositiveSafeInteger next_id"

lemma table_Inr:
  "assertUniqueIds ids path = Inr () \<and> assertNextId next_id ids path' = Inr () \<longleftrightarrow> table_ok ids next_id"
proof -
  have "check_each (\<lambda>n i. assertPositiveId i (at_index path n @ ''.id'')) ids = Inr () \<longleftrightarrow> (\<forall>i \<in> set ids. isPositiveSafeInteger i)"
    by (rule check_each_all) simp
  then show ?thesis
    by (auto simp: assertUniqueIds_def assertNextId_def table_ok_def list_ex_iff simp del: check_each_Inr)
qed

definition account_ok :: "account \<Rightarrow> bool" where
  "account_ok a \<longleftrightarrow> username_ok (ac_username a) \<and> 1 \<le> length (ac_displayName a) \<and> length (ac_displayName a) \<le> 100 \<and>
     (\<forall>e. ac_email a = Some e \<longrightarrow> js_lower e = e \<and> email_ok e)"

definition accounts_ok :: "account list \<Rightarrow> bool" where
  "accounts_ok as \<longleftrightarrow> (\<forall>a \<in> set as. account_ok a) \<and> distinct (map ac_username as) \<and> distinct (List.map_filter ac_email as) \<and>
     length (filter ac_protectedOwner as) \<le> 1"

lemma assert_accounts_seen:
  "assert_accounts us es n as = Inr () \<longleftrightarrow> (\<forall>a \<in> set as. account_ok a) \<and> distinct (map ac_username as) \<and>
     set (map ac_username as) \<inter> set us = {} \<and> distinct (List.map_filter ac_email as) \<and> set (List.map_filter ac_email as) \<inter> set es = {}"
proof (induction as arbitrary: us es n)
  case (Cons a as)
  then show ?case
    by (cases "ac_email a") (auto simp: try_eval_Inr_iff account_ok_def List.map_filter_simps)
qed (simp add: List.map_filter_simps)

lemma account_ref_Inr: "assert_account_ref A table n i = Inr () \<longleftrightarrow> isPositiveSafeInteger i \<and> i \<in> set A"
  by (simp add: assert_account_ref_def)

definition credentials_ok :: "int list \<Rightarrow> local_credential list \<Rightarrow> bool" where
  "credentials_ok A cs \<longleftrightarrow> (\<forall>c \<in> set cs. isPositiveSafeInteger (lc_accountId c) \<and> lc_accountId c \<in> set A \<and> 20 \<le> length (lc_passwordHash c)) \<and>
     distinct (map lc_accountId cs)"

lemma credentials_Inr: "assert_credentials A cs = Inr () \<longleftrightarrow> credentials_ok A cs"
  unfolding assert_credentials_def
  by (subst claim_table_between [where P = "\<lambda>c. isPositiveSafeInteger (lc_accountId c) \<and> lc_accountId c \<in> set A"
        and Q = "\<lambda>c. 20 \<le> length (lc_passwordHash c)"])
    (auto simp: account_ref_Inr credentials_ok_def)

definition identity_ok :: "platform \<Rightarrow> int list \<Rightarrow> oidc_identity \<Rightarrow> bool" where
  "identity_ok P A d \<longleftrightarrow> isPositiveSafeInteger (oi_accountId d) \<and> oi_accountId d \<in> set A \<and> url_ok P (oi_issuer d) \<and>
     1 \<le> length (oi_subject d) \<and> length (oi_subject d) \<le> 255 \<and> (\<forall>e. oi_email d = Some e \<longrightarrow> js_lower e = e)"

lemma identities_Inr: "assert_identities P A ds = Inr () \<longleftrightarrow> (\<forall>d \<in> set ds. identity_ok P A d) \<and> distinct (map oidc_key ds)"
  unfolding assert_identities_def
  by (subst claim_table_between [where P = "identity_ok P A" and Q = "\<lambda>_. True"])
    (auto simp: account_ref_Inr identity_ok_def split: option.splits)

definition owners_ok :: "int list \<Rightarrow> int option list \<Rightarrow> bool" where
  "owners_ok A rs \<longleftrightarrow> (\<forall>i. Some i \<in> set rs \<longrightarrow> isPositiveSafeInteger i \<and> i \<in> set A)"

lemma owners_Inr: "assert_owners A table rs = Inr () \<longleftrightarrow> owners_ok A rs"
proof -
  have "check_each (\<lambda>n r. case r of None \<Rightarrow> Inr () | Some i \<Rightarrow> assert_account_ref A table n i) rs = Inr () \<longleftrightarrow>
      (\<forall>r \<in> set rs. \<forall>i. r = Some i \<longrightarrow> isPositiveSafeInteger i \<and> i \<in> set A)"
    by (rule check_each_all) (auto simp: account_ref_Inr split: option.splits)
  then show ?thesis unfolding assert_owners_def owners_ok_def by blast
qed

lemma sessions_Inr:
  "assert_sessions xs = Inr () \<longleftrightarrow> (\<forall>x \<in> set xs. token_hash_ok (se_tokenHash x)) \<and> distinct (map se_tokenHash xs)"
  unfolding assert_sessions_def
  by (subst claim_table_between [where P = "\<lambda>x. token_hash_ok (se_tokenHash x)" and Q = "\<lambda>_. True"]) simp_all

lemma recoveries_Inr:
  "assert_recoveries xs = Inr () \<longleftrightarrow> (\<forall>x \<in> set xs. token_hash_ok (rt_tokenHash x)) \<and> distinct (map rt_tokenHash xs)"
  unfolding assert_recoveries_def
  by (subst claim_table_between [where P = "\<lambda>x. token_hash_ok (rt_tokenHash x)" and Q = "\<lambda>_. True"]) simp_all

lemma events_Inr: "assert_events xs = Inr () \<longleftrightarrow> (\<forall>x \<in> set xs. 1 \<le> length (sv_type x) \<and> length (sv_type x) \<le> 100)"
  unfolding assert_events_def by (rule check_each_all) simp

definition transaction_ok :: "oidc_transaction \<Rightarrow> bool" where
  "transaction_ok x \<longleftrightarrow> token_hash_ok (ot_tokenHash x) \<and> (\<forall>v \<in> {ot_state x, ot_nonce x, ot_codeVerifier x}. 16 \<le> length v \<and> length v \<le> 512) \<and>
     js_starts ''/'' (ot_returnTo x) \<and> \<not> js_starts ''//'' (ot_returnTo x)"

lemma transactions_Inr: "assert_transactions xs = Inr () \<longleftrightarrow> (\<forall>x \<in> set xs. transaction_ok x) \<and> distinct (map ot_tokenHash xs)"
  unfolding assert_transactions_def
  by (subst claim_table_between [where P = "\<lambda>x. token_hash_ok (ot_tokenHash x)" and Q = "\<lambda>x.
        (\<forall>v \<in> {ot_state x, ot_nonce x, ot_codeVerifier x}. 16 \<le> length v \<and> length v \<le> 512) \<and>
        js_starts ''/'' (ot_returnTo x) \<and> \<not> js_starts ''//'' (ot_returnTo x)"])
    (auto simp: transaction_ok_def)

definition role_ok :: "role \<Rightarrow> bool" where
  "role_ok r \<longleftrightarrow> role_key_ok (ro_key r) \<and> 1 \<le> length (ro_name r) \<and> length (ro_name r) \<le> 80 \<and> length (ro_description r) \<le> 255"

lemma roles_Inr: "assert_roles rs = Inr () \<longleftrightarrow> (\<forall>r \<in> set rs. role_ok r) \<and> distinct (map ro_key rs)"
  unfolding assert_roles_def
  by (subst claim_table_between [where P = "\<lambda>r. role_key_ok (ro_key r)" and Q = "\<lambda>r. 1 \<le> length (ro_name r) \<and>
        length (ro_name r) \<le> 80 \<and> length (ro_description r) \<le> 255"]) (auto simp: role_ok_def)

definition built_ins_ok :: "role list \<Rightarrow> bool" where
  "built_ins_ok rs \<longleftrightarrow> (\<forall>b \<in> set BUILT_IN_ROLE_DEFINITIONS. \<exists>r.
     List.find (\<lambda>r. ro_id r = bi_id b \<and> ro_key r = bi_key b \<and> ro_builtIn r) rs = Some r \<and> ro_active r)"

lemma built_ins_Inr: "assert_built_ins rs = Inr () \<longleftrightarrow> built_ins_ok rs"
  by (auto simp: assert_built_ins_def built_ins_ok_def split: option.splits)

definition relation_ok :: "int list \<Rightarrow> role_permission \<Rightarrow> bool" where
  "relation_ok R x \<longleftrightarrow> isPositiveSafeInteger (rp_roleId x) \<and> isPositiveSafeInteger (rp_permissionId x) \<and>
     rp_roleId x \<in> set R \<and> known_permission (rp_permissionId x)"

lemma role_permissions_Inr:
  "assert_role_permissions R xs = Inr () \<longleftrightarrow> (\<forall>x \<in> set xs. relation_ok R x) \<and> distinct (map (\<lambda>x. (rp_roleId x, rp_permissionId x)) xs)"
  unfolding assert_role_permissions_def
  by (subst claim_table_between [where P = "relation_ok R" and Q = "\<lambda>_. True"]) (auto simp: relation_ok_def)

definition assignment_ok :: "int list \<Rightarrow> int list \<Rightarrow> account_role \<Rightarrow> bool" where
  "assignment_ok A R x \<longleftrightarrow> isPositiveSafeInteger (ar_accountId x) \<and> isPositiveSafeInteger (ar_roleId x) \<and>
     ar_accountId x \<in> set A \<and> ar_roleId x \<in> set R \<and> ar_scopeKind x = ''global'' \<and> ar_scopeId x = 0"

lemma account_roles_Inr:
  "assert_account_roles A R xs = Inr () \<longleftrightarrow> (\<forall>x \<in> set xs. assignment_ok A R x) \<and> distinct (map (\<lambda>x. (ar_accountId x, ar_roleId x)) xs)"
  unfolding assert_account_roles_def
  by (subst claim_table_between [where P = "assignment_ok A R" and Q = "\<lambda>_. True"]) (auto simp: assignment_ok_def)

definition invitation_ok :: "int list \<Rightarrow> int list \<Rightarrow> invitation \<Rightarrow> bool" where
  "invitation_ok A R x \<longleftrightarrow> in_identityType x \<in> {''local'', ''oidc''} \<and> js_lower (in_email x) = in_email x \<and>
     in_status x \<in> {''pending'', ''accepted'', ''expired'', ''revoked''} \<and> token_hash_ok (in_tokenHash x) \<and>
     isPositiveSafeInteger (in_createdByAccountId x) \<and> in_createdByAccountId x \<in> set A \<and> set (in_roleIds x) \<subseteq> set R \<and>
     (\<forall>i. in_accountId x = Some i \<longrightarrow> i \<in> set A)"

definition is_pending :: "invitation \<Rightarrow> bool" where
  "is_pending x \<longleftrightarrow> in_status x = ''pending''"

definition pending_emails :: "invitation list \<Rightarrow> string list" where
  "pending_emails xs = map in_email (filter is_pending xs)"

lemma invitation_checks_Inr: "invitation_checks A R n x = Inr () \<longleftrightarrow> invitation_ok A R x"
  by (auto simp: invitation_checks_def invitation_ok_def split: option.splits)

lemma invitations_Inr: "assert_invitations A R xs = Inr () \<longleftrightarrow> (\<forall>x \<in> set xs. invitation_ok A R x) \<and> distinct (pending_emails xs)"
proof -
  let ?f = "\<lambda>n x. [claim_none (invitation_checks A R n x),
      if in_status x = ''pending''
      then claim_key (Inr ()) (in_email x) () (\<lambda>_. ''Pending invitation emails must be unique.'') else claim_none (Inr ())]"
  have all: "(\<forall>c \<in> set (concat (map (\<lambda>(n, x). ?f n x) (enumerate m xs))). \<exists>k. c = Inr k) \<longleftrightarrow> (\<forall>x \<in> set xs. invitation_ok A R x)" for m
    by (induction xs arbitrary: m) (simp_all add: ball_Un invitation_checks_Inr)
  have keys: "keys_claimed (concat (map (\<lambda>(n, x). ?f n x) (enumerate m xs))) = pending_emails xs" if "\<forall>x \<in> set xs. invitation_ok A R x" for m
    using that
  proof (induction xs arbitrary: m)
    case (Cons x xs)
    then have "invitation_checks A R m x = Inr ()" "\<And>m. keys_claimed (concat (map (\<lambda>(n, x). ?f n x) (enumerate m xs))) = pending_emails xs"
      by (simp_all add: invitation_checks_Inr)
    then show ?case by (simp add: pending_emails_def is_pending_def claim_none_def claim_key_def)
  qed (simp add: pending_emails_def)
  show ?thesis unfolding assert_invitations_def claim_table_def claims_Inr all using keys [of 0] by auto
qed

definition link_request_ok :: "int list \<Rightarrow> identity_link_request \<Rightarrow> bool" where
  "link_request_ok A x \<longleftrightarrow> isPositiveSafeInteger (lr_accountId x) \<and> lr_accountId x \<in> set A \<and> lr_identityType x \<in> {''local'', ''oidc''} \<and>
     lr_status x \<in> {''pending'', ''confirmed'', ''expired'', ''revoked''} \<and> token_hash_ok (lr_tokenHash x)"

lemma link_requests_Inr: "assert_link_requests A xs = Inr () \<longleftrightarrow> (\<forall>x \<in> set xs. link_request_ok A x)"
  unfolding assert_link_requests_def
  by (rule check_each_all) (simp add: account_ref_Inr link_request_ok_def)

definition configuration_ok :: "platform \<Rightarrow> auth_configuration \<Rightarrow> bool" where
  "configuration_ok P c \<longleftrightarrow> (let d = cf_oidc c in
     (cf_enabled c \<longrightarrow> cf_localEnabled c \<or> cf_oidcEnabled c) \<and> url_ok P (os_issuer d) \<and> url_ok P (os_externalUrl d) \<and>
     (\<forall>t. os_clientId d = Some t \<longrightarrow> 1 \<le> length t \<and> length t \<le> 255) \<and>
     os_scopes d \<noteq> [] \<and> (\<forall>t \<in> set (os_scopes d). scope_ok t) \<and> distinct (os_scopes d))"

lemma configuration_Inr: "assert_configuration P c = Inr () \<longleftrightarrow> configuration_ok P c"
  by (auto simp: assert_configuration_def configuration_ok_def list_all_iff split: option.splits)

text \<open>The owner, where there is one, holds the first role with the key \<open>owner\<close>.\<close>

definition owner_role_held :: "auth_store \<Rightarrow> bool" where
  "owner_role_held s \<longleftrightarrow> (\<forall>owner. List.find ac_protectedOwner (au_accounts s) = Some owner \<longrightarrow>
     (\<exists>x \<in> set (au_accountRoles s). ar_accountId x = ac_id owner \<and>
       Some (ar_roleId x) = map_option ro_id (List.find (\<lambda>r. ro_key r = ''owner'') (au_roles s))))"

lemma owner_role_Inr: "assert_owner_role s = Inr () \<longleftrightarrow> owner_role_held s"
  by (auto simp: assert_owner_role_def owner_role_held_def list_ex_iff split: option.splits)

definition store_ok :: "platform \<Rightarrow> auth_store \<Rightarrow> bool" where
  "store_ok P s \<longleftrightarrow> (let A = map ac_id (au_accounts s); R = map ro_id (au_roles s) in
     au_version s = AUTH_STORE_VERSION \<and>
     (\<forall>(table, counter, ids, next_id) \<in> set (id_tables s). table_ok ids next_id) \<and>
     accounts_ok (au_accounts s) \<and>
     credentials_ok A (au_localCredentials s) \<and>
     (\<forall>d \<in> set (au_oidcIdentities s). identity_ok P A d) \<and> distinct (map oidc_key (au_oidcIdentities s)) \<and>
     owners_ok A (map se_accountId (au_sessions s)) \<and>
     owners_ok A (map rt_accountId (au_recoveryTokens s)) \<and>
     owners_ok A (map sv_accountId (au_securityEvents s)) \<and>
     owners_ok A (map ot_accountId (au_oidcTransactions s)) \<and>
     (\<forall>x \<in> set (au_sessions s). token_hash_ok (se_tokenHash x)) \<and> distinct (map se_tokenHash (au_sessions s)) \<and>
     (\<forall>x \<in> set (au_recoveryTokens s). token_hash_ok (rt_tokenHash x)) \<and> distinct (map rt_tokenHash (au_recoveryTokens s)) \<and>
     (\<forall>x \<in> set (au_securityEvents s). 1 \<le> length (sv_type x) \<and> length (sv_type x) \<le> 100) \<and>
     (\<forall>x \<in> set (au_oidcTransactions s). transaction_ok x) \<and> distinct (map ot_tokenHash (au_oidcTransactions s)) \<and>
     (\<forall>r \<in> set (au_roles s). role_ok r) \<and> distinct (map ro_key (au_roles s)) \<and>
     built_ins_ok (au_roles s) \<and>
     (\<forall>x \<in> set (au_rolePermissions s). relation_ok R x) \<and>
       distinct (map (\<lambda>x. (rp_roleId x, rp_permissionId x)) (au_rolePermissions s)) \<and>
     (\<forall>x \<in> set (au_accountRoles s). assignment_ok A R x) \<and>
       distinct (map (\<lambda>x. (ar_accountId x, ar_roleId x)) (au_accountRoles s)) \<and>
     owner_role_held s \<and>
     (\<forall>x \<in> set (au_invitations s). invitation_ok A R x) \<and> distinct (pending_emails (au_invitations s)) \<and>
     (\<forall>x \<in> set (au_identityLinkRequests s). link_request_ok A x) \<and>
     configuration_ok P (au_configuration s))"

lemma assert_accounts_Inr:
  "assert_accounts [] [] 0 as = Inr () \<and> length (filter ac_protectedOwner as) \<le> 1 \<longleftrightarrow> accounts_ok as"
  by (auto simp: assert_accounts_seen accounts_ok_def)

lemma store_shape_iff: "assertAuthenticationStoreShape P s = Inr () \<longleftrightarrow> store_ok P s"
proof -
  have tables: "(\<forall>c \<in> set (map (\<lambda>(table, _, ids, _). assertUniqueIds ids (''authentication.'' @ table)) ts). c = Inr ()) \<and>
      (\<forall>c \<in> set (map (\<lambda>(_, counter, ids, next_id). assertNextId next_id ids (''authentication.'' @ counter)) ts). c = Inr ()) \<longleftrightarrow>
      (\<forall>(table, counter, ids, next_id) \<in> set ts. table_ok ids next_id)" for ts :: "(string \<times> string \<times> int list \<times> int) list"
  proof (induction ts)
    case (Cons t ts)
    obtain table counter ids next_id where "t = (table, counter, ids, next_id)" by (cases t)
    with Cons table_Inr [of ids "''authentication.'' @ table" next_id "''authentication.'' @ counter"] show ?case by auto
  qed simp
  show ?thesis
    unfolding assertAuthenticationStoreShape_def store_ok_def Let_def checks_Inr set_append ball_Un list.set ball_simps
      check_Inr credentials_Inr identities_Inr owners_Inr sessions_Inr recoveries_Inr events_Inr transactions_Inr roles_Inr
      built_ins_Inr role_permissions_Inr account_roles_Inr owner_role_Inr invitations_Inr link_requests_Inr configuration_Inr
      tables [symmetric] assert_accounts_Inr [symmetric]
    by blast
qed

end
