(* ===== verification/Authorization.thy ===== *)
theory Authorization
  imports Auth_Store
begin

text \<open>
  The rules that the server compiles from the authentication store, \<open>server/auth/authorization-service.mjs\<close>, and the model in which
  the rule engine reads them, \<open>createAuthorizationModel\<close>.

  The engine (the package \<open>casbin\<close>) is a parameter: from the grouping rules and the policies that were added it decides a
  request.  What the code relies on is \<open>casbin_engine\<close>: the engine answers as the matcher of the model says, with links between names
  followed through at most ten roles.
\<close>

section \<open>Definitions\<close>

subsection \<open>The rule engine\<close>

text \<open>Grouping rules (name, role, domain) and policies (subject, domain, object, action), in the order they were added.\<close>

type_synonym rules = "(string \<times> string \<times> string) list \<times> (string \<times> string \<times> string \<times> string) list"
type_synonym engine = "rules \<Rightarrow> string \<Rightarrow> string \<Rightarrow> string \<Rightarrow> string \<Rightarrow> bool"

fun has_link :: "nat \<Rightarrow> (string \<times> string \<times> string) list \<Rightarrow> string \<Rightarrow> string \<Rightarrow> string \<Rightarrow> bool" where
  "has_link 0 gs dm a b = (a = b)"
| "has_link (Suc n) gs dm a b = (a = b \<or> list_ex (\<lambda>(x, y, d). x = a \<and> d = dm \<and> has_link n gs dm y b) gs)"

text \<open>\<open>createAuthorizationModel\<close>: some policy matches, and the matcher
  \<open>g(r.sub, p.sub, r.dm) && r.dm == p.dm && (p.obj == "*" || r.obj == p.obj) && (p.act == "*" || r.act == p.act)\<close>.\<close>

definition authorizationModel :: engine where
  "authorizationModel rs sub dm ob act =
     list_ex (\<lambda>(psub, pdom, pobj, pact). has_link 10 (fst rs) dm sub psub \<and> dm = pdom \<and> (pobj = ''*'' \<or> ob = pobj) \<and>
       (pact = ''*'' \<or> act = pact)) (snd rs)"

definition casbin_engine :: "engine \<Rightarrow> bool" where
  "casbin_engine E \<longleftrightarrow> (\<forall>rs sub dm ob act. E rs sub dm ob act = authorizationModel rs sub dm ob act)"

subsection \<open>The service\<close>

text \<open>A loop over an array that adds a rule, passes or throws at each element.\<close>

fun collect :: "('a \<Rightarrow> 'e + 'b option) \<Rightarrow> 'a list \<Rightarrow> 'e + 'b list" where
  "collect f [] = Inr []"
| "collect f (x # xs) = try_eval (f x) (\<lambda>r. try_eval (collect f xs) (\<lambda>rs. Inr (case r of None \<Rightarrow> rs | Some b \<Rightarrow> b # rs)))"

record authorization =
  az_rules :: rules
  az_cache :: "(int \<times> string list) list"

definition active_ids :: "('a \<Rightarrow> int) \<Rightarrow> ('a \<Rightarrow> bool) \<Rightarrow> 'a list \<Rightarrow> int list" where
  "active_ids f active xs = map fst (map_from (map (\<lambda>x. (f x, x)) (filter active xs)))"

definition grouping_rules :: "auth_store \<Rightarrow> string + (string \<times> string \<times> string) list" where
  "grouping_rules s = collect (\<lambda>x.
     if ar_accountId x \<notin> set (active_ids ac_id ac_active (au_accounts s)) \<or> ar_roleId x \<notin> set (active_ids ro_id ro_active (au_roles s))
     then Inr None
     else try_eval (authorizationDomain (Some (ar_scopeKind x, ar_scopeId x))) (\<lambda>dm.
       try_eval (accountSubject (ar_accountId x)) (\<lambda>acc. try_eval (roleSubject (ar_roleId x)) (\<lambda>rol. Inr (Some (acc, rol, dm))))))
     (au_accountRoles s)"

definition role_policies :: "auth_store \<Rightarrow> string + (string \<times> string \<times> string \<times> string) list" where
  "role_policies s = collect (\<lambda>x.
     if rp_roleId x \<notin> set (active_ids ro_id ro_active (au_roles s)) then Inr None
     else (case PERMISSION_BY_ID (rp_permissionId x) of
         None \<Rightarrow> Inl (''Role permission '' @ show_int (rp_id x) @ '' references unknown permission '' @ show_int (rp_permissionId x) @ ''.'')
       | Some p \<Rightarrow> try_eval (permissionTarget (pm_key p)) (\<lambda>(ob, act). try_eval (roleSubject (rp_roleId x)) (\<lambda>rol.
           try_eval (authorizationDomain None) (\<lambda>dm. Inr (Some (rol, dm, ob, act)))))))
     (au_rolePermissions s)"

definition owner_policies :: "auth_store \<Rightarrow> string + (string \<times> string \<times> string \<times> string) list" where
  "owner_policies s =
     (case List.find (\<lambda>a. ac_protectedOwner a \<and> ac_active a) (au_accounts s) of
        None \<Rightarrow> Inr []
      | Some owner \<Rightarrow> try_eval (accountSubject (ac_id owner)) (\<lambda>acc.
          try_eval (authorizationDomain None) (\<lambda>dm. Inr [(acc, dm, ''*'', ''*'')])))"

definition permission_keys :: "engine \<Rightarrow> rules \<Rightarrow> int \<Rightarrow> string + string list" where
  "permission_keys E rs accountId = collect (\<lambda>p.
     try_eval (permissionTarget (pm_key p)) (\<lambda>(ob, act). try_eval (accountSubject accountId) (\<lambda>acc.
       try_eval (authorizationDomain None) (\<lambda>dm. Inr (if E rs acc dm ob act then Some (pm_key p) else None)))))
     PERMISSIONS"

definition compile :: "engine \<Rightarrow> auth_store \<Rightarrow> string + authorization" where
  "compile E s =
     try_eval (grouping_rules s) (\<lambda>gs. try_eval (role_policies s) (\<lambda>ps. try_eval (owner_policies s) (\<lambda>qs.
       let rs = (gs, ps @ qs) in
       try_eval (collect (\<lambda>i. try_eval (permission_keys E rs i) (\<lambda>ks. Inr (Some (i, ks)))) (active_ids ac_id ac_active (au_accounts s)))
         (\<lambda>cache. Inr \<lparr>az_rules = rs, az_cache = cache\<rparr>))))"

text \<open>\<open>authorize\<close> for the global scope, after the first \<open>rebuild\<close>.\<close>

definition authorize :: "engine \<Rightarrow> authorization \<Rightarrow> int \<Rightarrow> string \<Rightarrow> string + bool" where
  "authorize E az accountId key =
     try_eval (permissionByKey key) (\<lambda>_. try_eval (permissionTarget key) (\<lambda>(ob, act). try_eval (accountSubject accountId) (\<lambda>acc.
       try_eval (authorizationDomain None) (\<lambda>dm. Inr (E (az_rules az) acc dm ob act)))))"

definition permissionsForSync :: "authorization \<Rightarrow> int \<Rightarrow> string list" where
  "permissionsForSync az accountId = nullish (map_of (az_cache az) accountId) []"

section \<open>What the rules grant\<close>

text \<open>What the store says: an active account has the permissions of its active roles, and the active owner has all.\<close>

definition is_active_account :: "auth_store \<Rightarrow> int \<Rightarrow> bool" where
  "is_active_account s i \<longleftrightarrow> (\<exists>a \<in> set (au_accounts s). ac_id a = i \<and> ac_active a)"

definition is_active_owner :: "auth_store \<Rightarrow> int \<Rightarrow> bool" where
  "is_active_owner s i \<longleftrightarrow> (\<exists>a \<in> set (au_accounts s). ac_id a = i \<and> ac_active a \<and> ac_protectedOwner a)"

definition has_active_role :: "auth_store \<Rightarrow> int \<Rightarrow> int \<Rightarrow> bool" where
  "has_active_role s i r \<longleftrightarrow> (\<exists>x \<in> set (au_accountRoles s). ar_accountId x = i \<and> ar_roleId x = r) \<and> (\<exists>q \<in> set (au_roles s). ro_id q = r \<and> ro_active q)"

definition role_grants :: "auth_store \<Rightarrow> int \<Rightarrow> int \<Rightarrow> bool" where
  "role_grants s r p \<longleftrightarrow> (\<exists>x \<in> set (au_rolePermissions s). rp_roleId x = r \<and> rp_permissionId x = p)"

definition granted :: "auth_store \<Rightarrow> int \<Rightarrow> int \<Rightarrow> bool" where
  "granted s i p \<longleftrightarrow> is_active_account s i \<and> (is_active_owner s i \<or> (\<exists>r. has_active_role s i r \<and> role_grants s r p))"

lemma collect_all:
  assumes "\<And>x. x \<in> set xs \<Longrightarrow> f x = Inr (g x)" shows "collect f xs = Inr (List.map_filter g xs)"
  using assms by (induction xs) (auto simp: List.map_filter_simps split: option.splits)

lemma set_map_filter: "set (List.map_filter g xs) = {y. \<exists>x \<in> set xs. g x = Some y}"
  by (induction xs) (auto simp: List.map_filter_simps split: option.splits)

lemma set_active_ids: "set (active_ids f active xs) = f ` {x \<in> set xs. active x}"
proof -
  have "fst ` set (map_from es) = fst ` set es" for es :: "(int \<times> 'a) list"
  proof -
    have "map_of (map_from es) k = None \<longleftrightarrow> map_of es k = None" for k
      by (simp add: map_of_map_from map_of_eq_None_iff)
    then show ?thesis by (auto simp: map_of_eq_None_iff)
  qed
  then show ?thesis by (auto simp: active_ids_def image_image)
qed

lemma distinct_active_ids: "distinct (active_ids f active xs)"
  by (simp add: active_ids_def)

text \<open>A name that is no role of a grouping rule has only itself behind it, and a name whose roles are in no rule only them.\<close>

lemma has_link_self [simp]: "has_link n gs d a a"
  by (cases n) simp_all

lemma has_link_one:
  assumes "\<And>x y d'. (x, y, d') \<in> set gs \<Longrightarrow> \<forall>z e. (y, z, e) \<notin> set gs"
  shows "has_link (Suc (Suc n)) gs d a b \<longleftrightarrow> a = b \<or> (a, b, d) \<in> set gs"
proof -
  have "has_link (Suc n) gs d y b \<longleftrightarrow> y = b" if "(x, y, d') \<in> set gs" for x y d'
    using assms [OF that] by (auto simp: list_ex_iff)
  then show ?thesis by (fastforce simp: list_ex_iff)
qed

section \<open>The rules of an accepted store\<close>

definition grouping_of :: "auth_store \<Rightarrow> account_role \<Rightarrow> (string \<times> string \<times> string) option" where
  "grouping_of s x = (if is_active_account s (ar_accountId x) \<and> has_active_role s (ar_accountId x) (ar_roleId x)
     then Some (account_name (ar_accountId x), role_name (ar_roleId x), GLOBAL_AUTHORIZATION_DOMAIN) else None)"

lemma active_account_ids: "i \<in> set (active_ids ac_id ac_active (au_accounts s)) \<longleftrightarrow> is_active_account s i"
  by (auto simp: set_active_ids is_active_account_def)

lemma active_role_ids: "r \<in> set (active_ids ro_id ro_active (au_roles s)) \<longleftrightarrow> (\<exists>q \<in> set (au_roles s). ro_id q = r \<and> ro_active q)"
  by (auto simp: set_active_ids)

lemma store_ok_assignment:
  assumes "store_ok P s" "x \<in> set (au_accountRoles s)"
  shows "isPositiveSafeInteger (ar_accountId x)" "isPositiveSafeInteger (ar_roleId x)" "ar_scopeKind x = ''global''" "ar_scopeId x = 0"
  using assms by (auto simp: store_ok_def assignment_ok_def)

lemma store_ok_relation:
  assumes "store_ok P s" "x \<in> set (au_rolePermissions s)"
  shows "isPositiveSafeInteger (rp_roleId x)" "known_permission (rp_permissionId x)"
  using assms by (auto simp: store_ok_def relation_ok_def)

lemma grouping_rules_ok:
  assumes "store_ok P s" shows "grouping_rules s = Inr (List.map_filter (grouping_of s) (au_accountRoles s))"
  unfolding grouping_rules_def
proof (rule collect_all, goal_cases)
  case (1 x)
  then show ?case
    using store_ok_assignment [OF assms 1]
    by (auto simp: grouping_of_def active_account_ids active_role_ids has_active_role_def subject_names)
qed

definition policy_of :: "auth_store \<Rightarrow> role_permission \<Rightarrow> (string \<times> string \<times> string \<times> string) option" where
  "policy_of s x = (if \<exists>q \<in> set (au_roles s). ro_id q = rp_roleId x \<and> ro_active q
     then (case PERMISSION_BY_ID (rp_permissionId x) of None \<Rightarrow> None | Some p \<Rightarrow>
       (case permissionTarget (pm_key p) of Inl _ \<Rightarrow> None | Inr (ob, act) \<Rightarrow>
         Some (role_name (rp_roleId x), GLOBAL_AUTHORIZATION_DOMAIN, ob, act))) else None)"

lemma role_policies_ok:
  assumes "store_ok P s" shows "role_policies s = Inr (List.map_filter (policy_of s) (au_rolePermissions s))"
  unfolding role_policies_def
proof (rule collect_all, goal_cases)
  case (1 x)
  obtain p where "PERMISSION_BY_ID (rp_permissionId x) = Some p" "p \<in> set PERMISSIONS"
    using store_ok_relation(2) [OF assms 1] by (auto simp: known_permission_def by_id_Some)
  with targets_defined [of p] store_ok_relation(1) [OF assms 1] show ?case
    by (auto simp: policy_of_def active_role_ids subject_names)
qed

definition rules_of :: "auth_store \<Rightarrow> rules" where
  "rules_of s = (List.map_filter (grouping_of s) (au_accountRoles s),
     List.map_filter (policy_of s) (au_rolePermissions s) @
     (case List.find (\<lambda>a. ac_protectedOwner a \<and> ac_active a) (au_accounts s) of
        None \<Rightarrow> [] | Some owner \<Rightarrow> [(account_name (ac_id owner), GLOBAL_AUTHORIZATION_DOMAIN, ''*'', ''*'')]))"

lemma in_grouping_rules:
  "(a, b, d) \<in> set (fst (rules_of s)) \<longleftrightarrow> d = GLOBAL_AUTHORIZATION_DOMAIN \<and>
     (\<exists>i r. a = account_name i \<and> b = role_name r \<and> is_active_account s i \<and> has_active_role s i r)"
  by (auto simp: rules_of_def set_map_filter grouping_of_def has_active_role_def)

lemma link_from_account:
  "has_link 10 (fst (rules_of s)) GLOBAL_AUTHORIZATION_DOMAIN (account_name i) b \<longleftrightarrow>
     b = account_name i \<or> (\<exists>r. b = role_name r \<and> is_active_account s i \<and> has_active_role s i r)"
proof -
  have "has_link (Suc (Suc 8)) (fst (rules_of s)) GLOBAL_AUTHORIZATION_DOMAIN (account_name i) b \<longleftrightarrow>
      account_name i = b \<or> (account_name i, b, GLOBAL_AUTHORIZATION_DOMAIN) \<in> set (fst (rules_of s))"
    by (rule has_link_one) (auto simp: in_grouping_rules)
  then show ?thesis by (auto simp: in_grouping_rules numeral_eq_Suc)
qed

text \<open>The target of a permission names it.\<close>

lemma target_inject:
  assumes "p \<in> set PERMISSIONS" "q \<in> set PERMISSIONS" "permissionTarget (pm_key p) = Inr t" "permissionTarget (pm_key q) = Inr t"
  shows "p = q"
proof -
  have "pm_key p = pm_key q" using assms(3,4) permissionTarget_join by (cases t) metis
  then show ?thesis using assms(1,2) distinct_permission_keys by (simp add: distinct_map inj_on_def)
qed

lemma in_role_policies:
  assumes "p \<in> set PERMISSIONS" "permissionTarget (pm_key p) = Inr (ob, act)"
  shows "(b, d, pob, pact) \<in> set (List.map_filter (policy_of s) (au_rolePermissions s)) \<and> (pob = ''*'' \<or> ob = pob) \<and> (pact = ''*'' \<or> act = pact)
    \<longleftrightarrow> d = GLOBAL_AUTHORIZATION_DOMAIN \<and> pob = ob \<and> pact = act \<and>
      (\<exists>r. b = role_name r \<and> role_grants s r (pm_id p) \<and> (\<exists>q \<in> set (au_roles s). ro_id q = r \<and> ro_active q))" (is "?l \<longleftrightarrow> ?r")
proof
  assume l: ?l
  then obtain x where x: "x \<in> set (au_rolePermissions s)" "policy_of s x = Some (b, d, pob, pact)" by (auto simp: set_map_filter)
  then obtain q where q: "PERMISSION_BY_ID (rp_permissionId x) = Some q" "permissionTarget (pm_key q) = Inr (pob, pact)"
      "b = role_name (rp_roleId x)" "d = GLOBAL_AUTHORIZATION_DOMAIN" "\<exists>q \<in> set (au_roles s). ro_id q = rp_roleId x \<and> ro_active q"
    by (auto simp: policy_of_def split: if_splits option.splits sum.splits)
  then have q': "q \<in> set PERMISSIONS" "pm_id q = rp_permissionId x" by (auto simp: by_id_Some)
  with q(2) targets_defined [of q] l have "pob = ob" "pact = act" by auto
  with target_inject [OF assms(1) q'(1) assms(2)] q(2) have "q = p" by simp
  with q q' x \<open>pob = ob\<close> \<open>pact = act\<close> show ?r by (auto simp: role_grants_def)
next
  assume r: ?r
  then obtain x where "x \<in> set (au_rolePermissions s)" "b = role_name (rp_roleId x)" "rp_permissionId x = pm_id p"
      "\<exists>q \<in> set (au_roles s). ro_id q = rp_roleId x \<and> ro_active q"
    by (auto simp: role_grants_def)
  moreover have "PERMISSION_BY_ID (pm_id p) = Some p" using assms(1) by (simp add: by_id_Some)
  ultimately have "x \<in> set (au_rolePermissions s) \<and> policy_of s x = Some (b, GLOBAL_AUTHORIZATION_DOMAIN, ob, act)"
    using assms(2) by (simp add: policy_of_def)
  with r show ?l by (auto simp: set_map_filter)
qed

lemma unique_owner:
  assumes "store_ok P s" "a \<in> set (au_accounts s)" "ac_protectedOwner a" "b \<in> set (au_accounts s)" "ac_protectedOwner b"
  shows "a = b"
proof -
  have "length (filter ac_protectedOwner (au_accounts s)) \<le> 1" using assms(1) by (simp add: store_ok_def accounts_ok_def)
  moreover have "a \<in> set (filter ac_protectedOwner (au_accounts s))" "b \<in> set (filter ac_protectedOwner (au_accounts s))"
    using assms by simp_all
  ultimately show ?thesis by (cases "filter ac_protectedOwner (au_accounts s)") auto
qed

lemma active_owner_found:
  assumes "store_ok P s"
  shows "is_active_owner s i \<longleftrightarrow> (\<exists>a. List.find (\<lambda>a. ac_protectedOwner a \<and> ac_active a) (au_accounts s) = Some a \<and> ac_id a = i)"
proof (cases "List.find (\<lambda>a. ac_protectedOwner a \<and> ac_active a) (au_accounts s)")
  case None
  then have "\<forall>a \<in> set (au_accounts s). \<not> (ac_protectedOwner a \<and> ac_active a)" by (simp only: find_None_iff_all)
  with None show ?thesis unfolding is_active_owner_def None by auto
next
  case (Some a)
  with find_Some_iff_first [OF Some] unique_owner [OF assms] show ?thesis by (auto simp: is_active_owner_def)
qed

lemma rules_grant:
  assumes "store_ok P s" "p \<in> set PERMISSIONS" "permissionTarget (pm_key p) = Inr (ob, act)"
  shows "authorizationModel (rules_of s) (account_name i) GLOBAL_AUTHORIZATION_DOMAIN ob act \<longleftrightarrow> granted s i (pm_id p)"
proof -
  let ?acc = "account_name i"
  let ?ps = "List.map_filter (policy_of s) (au_rolePermissions s)"
  have "(\<exists>(b, d, pob, pact) \<in> set ?ps. has_link 10 (fst (rules_of s)) GLOBAL_AUTHORIZATION_DOMAIN ?acc b \<and> GLOBAL_AUTHORIZATION_DOMAIN = d \<and>
      (pob = ''*'' \<or> ob = pob) \<and> (pact = ''*'' \<or> act = pact)) \<longleftrightarrow> is_active_account s i \<and> (\<exists>r. has_active_role s i r \<and> role_grants s r (pm_id p))" (is "?l \<longleftrightarrow> ?r")
  proof
    assume ?l
    then obtain b d pob pact where "(b, d, pob, pact) \<in> set ?ps" "has_link 10 (fst (rules_of s)) GLOBAL_AUTHORIZATION_DOMAIN ?acc b"
        "pob = ''*'' \<or> ob = pob" "pact = ''*'' \<or> act = pact" by auto
    moreover from this obtain r where "b = role_name r" "role_grants s r (pm_id p)"
      using in_role_policies [OF assms(2,3), of b d pob pact s] by blast
    ultimately show ?r by (auto simp: link_from_account)
  next
    assume ?r
    then obtain r where r: "is_active_account s i" "has_active_role s i r" "role_grants s r (pm_id p)" by blast
    then have "(role_name r, GLOBAL_AUTHORIZATION_DOMAIN, ob, act) \<in> set ?ps"
      using in_role_policies [OF assms(2,3), of "role_name r" GLOBAL_AUTHORIZATION_DOMAIN ob act s] by (auto simp: has_active_role_def)
    moreover have "has_link 10 (fst (rules_of s)) GLOBAL_AUTHORIZATION_DOMAIN ?acc (role_name r)"
      unfolding link_from_account using r by blast
    ultimately show ?l by (intro bexI) auto
  qed
  moreover have "(\<exists>(b, d, pob, pact) \<in> set (case List.find (\<lambda>a. ac_protectedOwner a \<and> ac_active a) (au_accounts s) of
        None \<Rightarrow> [] | Some owner \<Rightarrow> [(account_name (ac_id owner), GLOBAL_AUTHORIZATION_DOMAIN, ''*'', ''*'')]).
      has_link 10 (fst (rules_of s)) GLOBAL_AUTHORIZATION_DOMAIN ?acc b \<and> GLOBAL_AUTHORIZATION_DOMAIN = d \<and>
      (pob = ''*'' \<or> ob = pob) \<and> (pact = ''*'' \<or> act = pact)) \<longleftrightarrow> is_active_owner s i"
    unfolding active_owner_found [OF assms(1)]
    by (cases "List.find (\<lambda>a. ac_protectedOwner a \<and> ac_active a) (au_accounts s)") (auto simp: link_from_account)
  moreover have "is_active_owner s i \<Longrightarrow> is_active_account s i" by (auto simp: is_active_owner_def is_active_account_def)
  ultimately show ?thesis
    unfolding authorizationModel_def list_ex_iff granted_def by (simp add: rules_of_def bex_Un) blast
qed

section \<open>The compiled service\<close>

lemma casbin_is_model: "casbin_engine E \<longleftrightarrow> E = authorizationModel"
  by (simp add: casbin_engine_def fun_eq_iff)

lemma account_id_safe: "store_ok P s \<Longrightarrow> a \<in> set (au_accounts s) \<Longrightarrow> isPositiveSafeInteger (ac_id a)"
  by (auto simp: store_ok_def id_tables_def table_ok_def)

lemma active_account_safe: "store_ok P s \<Longrightarrow> is_active_account s i \<Longrightarrow> isPositiveSafeInteger i"
  by (auto simp: is_active_account_def dest: account_id_safe)

lemma owner_policies_ok:
  assumes "store_ok P s"
  shows "owner_policies s = Inr (case List.find (\<lambda>a. ac_protectedOwner a \<and> ac_active a) (au_accounts s) of
    None \<Rightarrow> [] | Some owner \<Rightarrow> [(account_name (ac_id owner), GLOBAL_AUTHORIZATION_DOMAIN, ''*'', ''*'')])"
  using account_id_safe [OF assms]
  by (auto simp: owner_policies_def subject_names split: option.splits dest!: find_Some_iff_first)

definition granted_keys :: "auth_store \<Rightarrow> int \<Rightarrow> string list" where
  "granted_keys s i = map pm_key (filter (\<lambda>p. granted s i (pm_id p)) PERMISSIONS)"

lemma map_filter_if: "List.map_filter (\<lambda>x. if Q x then Some (f x) else None) xs = map f (filter Q xs)"
  by (induction xs) (simp_all add: List.map_filter_simps)

lemma permission_keys_ok:
  assumes "store_ok P s" "casbin_engine E" "is_active_account s i"
  shows "permission_keys E (rules_of s) i = Inr (granted_keys s i)"
proof -
  have "permission_keys E (rules_of s) i =
      Inr (List.map_filter (\<lambda>p. if granted s i (pm_id p) then Some (pm_key p) else None) PERMISSIONS)"
    unfolding permission_keys_def
  proof (rule collect_all, goal_cases)
    case (1 p)
    then obtain ob act where "permissionTarget (pm_key p) = Inr (ob, act)" using targets_defined by blast
    with assms rules_grant [OF assms(1) 1 this] active_account_safe [OF assms(1,3)] show ?case
      by (simp add: subject_names casbin_is_model)
  qed
  then show ?thesis by (simp add: map_filter_if granted_keys_def)
qed

definition compiled :: "auth_store \<Rightarrow> authorization" where
  "compiled s = \<lparr>az_rules = rules_of s,
     az_cache = map (\<lambda>i. (i, granted_keys s i)) (active_ids ac_id ac_active (au_accounts s))\<rparr>"

lemma map_filter_Some: "List.map_filter (\<lambda>x. Some (f x)) xs = map f xs"
  by (induction xs) (simp_all add: List.map_filter_simps)

lemma compile_ok:
  assumes "store_ok P s" "casbin_engine E" shows "compile E s = Inr (compiled s)"
proof -
  have "collect (\<lambda>i. try_eval (permission_keys E (rules_of s) i) (\<lambda>ks. Inr (Some (i, ks)))) (active_ids ac_id ac_active (au_accounts s)) =
      Inr (List.map_filter (\<lambda>i. Some (i, granted_keys s i)) (active_ids ac_id ac_active (au_accounts s)) :: (int \<times> string list) list)"
    by (rule collect_all) (simp add: permission_keys_ok [OF assms] active_account_ids)
  then show ?thesis
    using grouping_rules_ok [OF assms(1)] role_policies_ok [OF assms(1)] owner_policies_ok [OF assms(1)]
    by (simp add: compile_def compiled_def rules_of_def map_filter_Some)
qed

lemma granted_active: "granted s i p \<Longrightarrow> is_active_account s i"
  by (simp add: granted_def)

lemma compiled_keys: "permissionsForSync (compiled s) i = granted_keys s i"
proof (cases "is_active_account s i")
  case True
  then have "map_of (az_cache (compiled s)) i = Some (granted_keys s i)"
    by (intro map_of_is_SomeI) (auto simp: compiled_def o_def distinct_active_ids active_account_ids)
  then show ?thesis by (simp add: permissionsForSync_def)
next
  case False
  then have "i \<notin> fst ` set (az_cache (compiled s))" by (auto simp: compiled_def active_account_ids)
  then have "map_of (az_cache (compiled s)) i = None" by (simp add: map_of_eq_None_iff)
  moreover have "granted_keys s i = []" using False by (auto simp: granted_keys_def filter_empty_conv dest: granted_active)
  ultimately show ?thesis by (simp add: permissionsForSync_def)
qed

lemma compiled_authorize:
  assumes "store_ok P s" "casbin_engine E" "isPositiveSafeInteger i" "p \<in> set PERMISSIONS"
  shows "authorize E (compiled s) i (pm_key p) = Inr (granted s i (pm_id p))"
proof -
  obtain ob act where t: "permissionTarget (pm_key p) = Inr (ob, act)" using targets_defined [OF assms(4)] by blast
  have "permissionByKey (pm_key p) = Inr p"
    using assms(4) by (simp add: permissionByKey_def by_key_Some [THEN iffD2])
  with t rules_grant [OF assms(1,4) t] assms(2,3) show ?thesis
    by (simp add: authorize_def subject_names casbin_is_model compiled_def)
qed

end
