(* ===== verification/Access_Service.thy ===== *)
theory Access_Service
  imports Authorization
begin

text \<open>
  Administration of users and roles, the class of \<open>server/auth/access-service.mjs\<close>.

  Each operation runs a mutator on a copy of the store; \<open>performMutation\<close> appends an event, checks the result, rebuilds the rules and then
  replaces the store, and puts both back when a step fails.  An operation is one step here: the class runs them one at a time (its queue of
  promises), and what another service writes while one waits for its rules is not modelled.  Request bodies are \<open>jsv\<close> values; the answers of the disk, which may fail
  at three places, are the record \<open>io\<close>.
\<close>

section \<open>Definitions\<close>

subsection \<open>Reading the request\<close>

definition positiveId :: "jsv option \<Rightarrow> string \<Rightarrow> string + int" where
  "positiveId v label = (case js_Number v of
     None \<Rightarrow> Inl (label @ '' is invalid.'')
   | Some r \<Rightarrow> if isSafeInteger_rat r \<and> 0 < r then Inr \<lfloor>r\<rfloor> else Inl (label @ '' is invalid.''))"

text \<open>\<open>x ?? y\<close> for two values, and \<open>String(x ?? '')\<close>.\<close>

fun coalesce :: "jsv option \<Rightarrow> jsv option \<Rightarrow> jsv option" where
  "coalesce None y = y"
| "coalesce (Some JNull) y = y"
| "coalesce x y = x"

definition text_of :: "jsv option \<Rightarrow> string" where
  "text_of v = string_of (coalesce v (Some (JStr [])))"

definition cleanText :: "platform \<Rightarrow> jsv option \<Rightarrow> string \<Rightarrow> nat \<Rightarrow> string + string" where
  "cleanText P v label maxLength = (let t = js_trim (pf_nfkc P (text_of v)) in
     if t = [] \<or> maxLength < length t then Inl (label @ '' must contain 1-'' @ show_nat maxLength @ '' characters.'') else Inr t)"

text \<open>\<open>.replace(/[^a-z0-9]+/g, '-').replace(/^-+|-+$/g, '')\<close>: the flag says that the last character went into a dash.\<close>

fun dash_runs :: "bool \<Rightarrow> string \<Rightarrow> string" where
  "dash_runs d [] = []"
| "dash_runs d (c # cs) = (if lower_letter c \<or> is_digit c then c # dash_runs False cs
     else if d then dash_runs True cs else CHR ''-'' # dash_runs True cs)"

definition strip_dashes :: "string \<Rightarrow> string" where
  "strip_dashes s = rev (dropWhile (\<lambda>c. c = CHR ''-'') (rev (dropWhile (\<lambda>c. c = CHR ''-'') s)))"

definition cleanRoleKey :: "platform \<Rightarrow> jsv option \<Rightarrow> string + string" where
  "cleanRoleKey P v = (let key = strip_dashes (dash_runs False (js_lower (js_trim (pf_nfkc P (text_of v))))) in
     if role_key_ok key then Inr key else Inl ''Role key is invalid.'')"

text \<open>\<open>values.map(f)\<close> for a function that may throw.\<close>

definition map_throw :: "('a \<Rightarrow> 'e + 'b) \<Rightarrow> 'a list \<Rightarrow> 'e + 'b list" where
  "map_throw f = collect (\<lambda>x. try_eval (f x) (\<lambda>y. Inr (Some y)))"

definition normalizedPermissionIds :: "jsv option \<Rightarrow> string + int list" where
  "normalizedPermissionIds values =
     (if \<not> is_array values then Inl ''Permission IDs must be an array.''
      else try_eval (map_throw (\<lambda>v. positiveId (Some v) ''Permission ID'') (array_of values)) (\<lambda>given.
        let ids = js_uniq (REQUIRED_WORKSPACE_PERMISSION_IDS @ given) in
        try_eval (checks (map (\<lambda>i. check (known_permission i) (''Permission '' @ show_int i @ '' is unknown.'')) ids)) (\<lambda>_. Inr (sort ids))))"

definition normalizedRoleIds :: "auth_store \<Rightarrow> jsv option \<Rightarrow> string + int list" where
  "normalizedRoleIds s values =
     (if \<not> is_array values then Inl ''Role IDs must be an array.''
      else try_eval (map_throw (\<lambda>v. positiveId (Some v) ''Role ID'') (array_of values)) (\<lambda>given.
        let ids = js_uniq given in
        try_eval (checks (map (\<lambda>i. check (List.find (\<lambda>r. ro_id r = i \<and> ro_active r) (au_roles s) \<noteq> None)
          (''Role '' @ show_int i @ '' is unavailable.'')) ids)) (\<lambda>_. Inr (sort ids))))"

subsection \<open>Delegation\<close>

definition permissionIdsForActor :: "authorization \<Rightarrow> int \<Rightarrow> string + int list" where
  "permissionIdsForActor az actorId = map_throw (\<lambda>key. case PERMISSION_BY_KEY key of
     None \<Rightarrow> Inl (''Permission '' @ key @ '' is unknown.'') | Some p \<Rightarrow> Inr (pm_id p)) (permissionsForSync az actorId)"

definition assertDelegatedPermissionIds :: "authorization \<Rightarrow> int \<Rightarrow> int list \<Rightarrow> string + unit" where
  "assertDelegatedPermissionIds az actorId permissionIds =
     try_eval (permissionIdsForActor az actorId) (\<lambda>allowed.
       check (filter (\<lambda>i. i \<notin> set allowed) permissionIds = []) ''You cannot grant permissions that you do not have.'')"

definition role_permission_ids :: "auth_store \<Rightarrow> int list \<Rightarrow> int list" where
  "role_permission_ids s roleIds = map rp_permissionId (filter (\<lambda>x. rp_roleId x \<in> set roleIds) (au_rolePermissions s))"

definition assertAssignableRoleIds :: "authorization \<Rightarrow> int \<Rightarrow> auth_store \<Rightarrow> jsv option \<Rightarrow> string + int list" where
  "assertAssignableRoleIds az actorId s values =
     try_eval (normalizedRoleIds s values) (\<lambda>roleIds.
     try_eval (check (\<not> list_ex (\<lambda>i. map_option ro_key (List.find (\<lambda>r. ro_id r = i) (au_roles s)) = Some ''owner'') roleIds)
       ''The Owner role cannot be assigned.'') (\<lambda>_.
     try_eval (assertDelegatedPermissionIds az actorId (role_permission_ids s roleIds)) (\<lambda>_. Inr roleIds)))"

subsection \<open>Events and answers\<close>

definition detail_text :: "jsv option \<Rightarrow> string option" where
  "detail_text detail = (case detail of None \<Rightarrow> None | Some JNull \<Rightarrow> None | Some v \<Rightarrow> Some (take 255 (js_text v)))"

definition appendEvent :: "int option \<Rightarrow> string \<Rightarrow> jsv option \<Rightarrow> instant \<Rightarrow> auth_store \<Rightarrow> auth_store" where
  "appendEvent actorId type detail timestamp s =
     (let events = au_securityEvents s @ [\<lparr>sv_id = au_nextSecurityEventId s, sv_accountId = actorId, sv_type = type,
            sv_detail = detail_text detail, sv_ip = None, sv_userAgent = None, sv_createdAt = timestamp\<rparr>]
      in s\<lparr>au_nextSecurityEventId := au_nextSecurityEventId s + 1, au_securityEvents := drop (length events - 500) events\<rparr>)"

record public_role =
  pr_role :: role
  pr_permissionIds :: "int list"
  pr_empty :: bool

definition publicRole :: "auth_store \<Rightarrow> role \<Rightarrow> public_role" where
  "publicRole s r = (let permissionIds = sort (role_permission_ids s [ro_id r]) in
     \<lparr>pr_role = r, pr_permissionIds = permissionIds, pr_empty = (permissionIds = [])\<rparr>)"

record public_user =
  pu_account :: account
  pu_roleIds :: "int list"
  pu_local :: bool
  pu_oidc :: bool

text \<open>All fields of an account are public.\<close>

definition publicUser :: "auth_store \<Rightarrow> account \<Rightarrow> public_user" where
  "publicUser s a =
     \<lparr>pu_account = a,
      pu_roleIds = map ar_roleId (filter (\<lambda>x. ar_accountId x = ac_id a \<and> ar_scopeKind x = ''global'' \<and> ar_scopeId x = 0) (au_accountRoles s)),
      pu_local = list_ex (\<lambda>c. lc_accountId c = ac_id a) (au_localCredentials s),
      pu_oidc = list_ex (\<lambda>d. oi_accountId d = ac_id a) (au_oidcIdentities s)\<rparr>"

definition listUsers :: "auth_store \<Rightarrow> public_user list" where
  "listUsers s = map (publicUser s) (au_accounts s)"

definition listRoles :: "auth_store \<Rightarrow> public_role list" where
  "listRoles s = map (publicRole s) (au_roles s)"

definition listPermissions :: "(permission \<times> bool) list" where
  "listPermissions = map (\<lambda>p. (p, pm_id p \<in> set REQUIRED_WORKSPACE_PERMISSION_IDS)) PERMISSIONS"

datatype access_result = UserResult public_user | RoleResult public_role | IdResult int

subsection \<open>Users\<close>

text \<open>The assignments to the record that \<open>find\<close> returned.\<close>

fun update_first :: "('a \<Rightarrow> bool) \<Rightarrow> ('a \<Rightarrow> 'a) \<Rightarrow> 'a list \<Rightarrow> 'a list" where
  "update_first Q f [] = []"
| "update_first Q f (x # xs) = (if Q x then f x # xs else x # update_first Q f xs)"

type_synonym mutator = "instant \<Rightarrow> auth_store \<Rightarrow> string + access_result \<times> auth_store"

definition revoke_sessions :: "int \<Rightarrow> instant \<Rightarrow> session list \<Rightarrow> session list" where
  "revoke_sessions accountId timestamp =
     map (\<lambda>x. if se_accountId x = Some accountId \<and> se_revokedAt x = None then x\<lparr>se_revokedAt := Some timestamp\<rparr> else x)"

text \<open>The account of a request, unless it is the protected owner.\<close>

definition find_user :: "auth_store \<Rightarrow> int \<Rightarrow> string \<Rightarrow> string + account" where
  "find_user s accountId refusal =
     (case List.find (\<lambda>a. ac_id a = accountId) (au_accounts s) of
        None \<Rightarrow> Inl ''User was not found.''
      | Some a \<Rightarrow> if ac_protectedOwner a then Inl refusal else Inr a)"

definition update_user :: "platform \<Rightarrow> int \<Rightarrow> jsv \<Rightarrow> mutator" where
  "update_user P accountId input timestamp s =
     try_eval (find_user s accountId ''The protected owner cannot be modified from Access administration.'') (\<lambda>a.
     try_eval (case prop_of input ''displayName'' of None \<Rightarrow> Inr (ac_displayName a) | Some v \<Rightarrow> cleanText P (Some v) ''Display name'' 100) (\<lambda>name.
       let active = (case prop_of input ''active'' of None \<Rightarrow> ac_active a | Some v \<Rightarrow> v = JBool True);
           a' = a\<lparr>ac_displayName := name, ac_active := active, ac_updatedAt := Some timestamp\<rparr>;
           s' = s\<lparr>au_accounts := update_first (\<lambda>a. ac_id a = accountId) (\<lambda>_. a') (au_accounts s),
                  au_sessions := (if active then au_sessions s else revoke_sessions accountId timestamp (au_sessions s))\<rparr>
       in Inr (UserResult (publicUser s' a'), s')))"

definition delete_user :: "int \<Rightarrow> mutator" where
  "delete_user accountId timestamp s =
     try_eval (find_user s accountId ''The protected owner cannot be deleted.'') (\<lambda>_.
       Inr (IdResult accountId,
         s\<lparr>au_localCredentials := filter (\<lambda>c. lc_accountId c \<noteq> accountId) (au_localCredentials s),
           au_oidcIdentities := filter (\<lambda>d. oi_accountId d \<noteq> accountId) (au_oidcIdentities s),
           au_sessions := filter (\<lambda>x. se_accountId x \<noteq> Some accountId) (au_sessions s),
           au_recoveryTokens := filter (\<lambda>x. rt_accountId x \<noteq> Some accountId) (au_recoveryTokens s),
           au_oidcTransactions := filter (\<lambda>x. ot_accountId x \<noteq> Some accountId) (au_oidcTransactions s),
           au_accountRoles := filter (\<lambda>x. ar_accountId x \<noteq> accountId) (au_accountRoles s),
           au_invitations := map (\<lambda>x. if in_accountId x = Some accountId then x\<lparr>in_accountId := None\<rparr> else x) (au_invitations s),
           au_identityLinkRequests := filter (\<lambda>x. lr_accountId x \<noteq> accountId) (au_identityLinkRequests s),
           au_accounts := filter (\<lambda>a. ac_id a \<noteq> accountId) (au_accounts s)\<rparr>))"

definition assign_roles :: "authorization \<Rightarrow> int \<Rightarrow> int \<Rightarrow> jsv option \<Rightarrow> mutator" where
  "assign_roles az actorId accountId values timestamp s =
     try_eval (find_user s accountId ''The protected owner roles cannot be changed.'') (\<lambda>a.
     try_eval (assertAssignableRoleIds az actorId s values) (\<lambda>roleIds.
       let s' = fold (add_account_role accountId) roleIds (s\<lparr>au_accountRoles := filter (\<lambda>x. ar_accountId x \<noteq> accountId) (au_accountRoles s)\<rparr>)
       in Inr (UserResult (publicUser s' a), s')))"

definition revoke_user_sessions :: "int \<Rightarrow> mutator" where
  "revoke_user_sessions accountId timestamp s =
     try_eval (find_user s accountId ''The protected owner sessions cannot be revoked from Access administration.'') (\<lambda>_.
       Inr (IdResult accountId, s\<lparr>au_sessions := revoke_sessions accountId timestamp (au_sessions s)\<rparr>))"

subsection \<open>Roles\<close>

definition add_role_permission :: "int \<Rightarrow> int \<Rightarrow> auth_store \<Rightarrow> auth_store" where
  "add_role_permission roleId permissionId s = s\<lparr>au_nextRolePermissionId := au_nextRolePermissionId s + 1,
     au_rolePermissions := au_rolePermissions s @ [\<lparr>rp_id = au_nextRolePermissionId s, rp_roleId = roleId, rp_permissionId = permissionId\<rparr>]\<rparr>"

definition number_array :: "int list \<Rightarrow> jsv option" where
  "number_array ids = Some (JArr (map (\<lambda>i. JNum (of_int i)) ids))"

definition replaceRolePermissions :: "int \<Rightarrow> jsv option \<Rightarrow> auth_store \<Rightarrow> string + auth_store" where
  "replaceRolePermissions roleId values s =
     try_eval (normalizedPermissionIds values) (\<lambda>permissionIds.
       Inr (fold (add_role_permission roleId) permissionIds
         (s\<lparr>au_rolePermissions := filter (\<lambda>x. rp_roleId x \<noteq> roleId) (au_rolePermissions s)\<rparr>)))"

definition create_role :: "platform \<Rightarrow> authorization \<Rightarrow> int \<Rightarrow> jsv \<Rightarrow> mutator" where
  "create_role P az actorId input timestamp s =
     try_eval (cleanRoleKey P (coalesce (prop_of input ''key'') (prop_of input ''name''))) (\<lambda>key.
     if list_ex (\<lambda>r. ro_key r = key) (au_roles s) then Inl ''Role key already exists.'' else
     try_eval (cleanText P (prop_of input ''name'') ''Role name'' 80) (\<lambda>name.
       let r = \<lparr>ro_id = au_nextRoleId s, ro_key = key, ro_name = name,
             ro_description = take 255 (js_trim (pf_nfkc P (text_of (prop_of input ''description'')))),
             ro_builtIn = False, ro_active = True, ro_createdAt = timestamp, ro_updatedAt = timestamp\<rparr>;
           s1 = s\<lparr>au_nextRoleId := au_nextRoleId s + 1, au_roles := au_roles s @ [r]\<rparr>
       in try_eval (normalizedPermissionIds (coalesce (prop_of input ''permissionIds'') (Some (JArr [])))) (\<lambda>permissionIds.
          try_eval (assertDelegatedPermissionIds az actorId permissionIds) (\<lambda>_.
          try_eval (replaceRolePermissions (ro_id r) (number_array permissionIds) s1) (\<lambda>s2.
            Inr (RoleResult (publicRole s2 r), s2))))))"

text \<open>The body of the request that \<open>duplicateRole\<close> makes of its own.\<close>

definition duplicate_input :: "auth_store \<Rightarrow> role \<Rightarrow> jsv \<Rightarrow> jsv" where
  "duplicate_input s source input = JObj
     ([(''name'', case coalesce (prop_of input ''name'') (Some (JStr (ro_name source @ '' copy''))) of None \<Rightarrow> JNull | Some v \<Rightarrow> v)]
      @ (case prop_of input ''key'' of None \<Rightarrow> [] | Some v \<Rightarrow> [(''key'', v)])
      @ [(''description'', case coalesce (prop_of input ''description'') (Some (JStr (ro_description source))) of None \<Rightarrow> JNull | Some v \<Rightarrow> v),
         (''permissionIds'', JArr (map (\<lambda>i. JNum (of_int i)) (role_permission_ids s [ro_id source])))])"

text \<open>The role of a request, unless it is built in.\<close>

definition find_role :: "auth_store \<Rightarrow> int \<Rightarrow> string \<Rightarrow> string + role" where
  "find_role s roleId refusal =
     (case List.find (\<lambda>r. ro_id r = roleId) (au_roles s) of
        None \<Rightarrow> Inl ''Role was not found.''
      | Some r \<Rightarrow> if ro_builtIn r then Inl refusal else Inr r)"

definition put_role :: "role \<Rightarrow> auth_store \<Rightarrow> auth_store" where
  "put_role r s = s\<lparr>au_roles := update_first (\<lambda>q. ro_id q = ro_id r) (\<lambda>_. r) (au_roles s)\<rparr>"

definition update_role :: "platform \<Rightarrow> int \<Rightarrow> jsv \<Rightarrow> mutator" where
  "update_role P roleId input timestamp s =
     try_eval (find_role s roleId ''Built-in roles cannot be modified.'') (\<lambda>r.
     try_eval (case prop_of input ''name'' of None \<Rightarrow> Inr (ro_name r) | Some v \<Rightarrow> cleanText P (Some v) ''Role name'' 80) (\<lambda>name.
       let r' = r\<lparr>ro_name := name,
             ro_description := (case prop_of input ''description'' of None \<Rightarrow> ro_description r
               | Some v \<Rightarrow> take 255 (js_trim (pf_nfkc P (text_of (Some v))))),
             ro_active := (case prop_of input ''active'' of None \<Rightarrow> ro_active r | Some v \<Rightarrow> v = JBool True),
             ro_updatedAt := timestamp\<rparr>;
           s' = put_role r' s
       in Inr (RoleResult (publicRole s' r'), s')))"

definition set_role_permissions :: "authorization \<Rightarrow> int \<Rightarrow> int \<Rightarrow> jsv option \<Rightarrow> mutator" where
  "set_role_permissions az actorId roleId values timestamp s =
     try_eval (find_role s roleId ''Built-in role permissions cannot be modified.'') (\<lambda>r.
     try_eval (normalizedPermissionIds values) (\<lambda>permissionIds.
     try_eval (assertDelegatedPermissionIds az actorId permissionIds) (\<lambda>_.
     try_eval (replaceRolePermissions roleId (number_array permissionIds) s) (\<lambda>s1.
       let r' = r\<lparr>ro_updatedAt := timestamp\<rparr>; s2 = put_role r' s1
       in Inr (RoleResult (publicRole s2 r'), s2)))))"

definition delete_role :: "int \<Rightarrow> mutator" where
  "delete_role roleId timestamp s =
     try_eval (find_role s roleId ''Built-in roles cannot be deleted.'') (\<lambda>_.
       if list_ex (\<lambda>x. ar_roleId x = roleId) (au_accountRoles s) then Inl ''Assigned roles cannot be deleted.''
       else if list_ex (\<lambda>x. in_status x = ''pending'' \<and> roleId \<in> set (in_roleIds x)) (au_invitations s)
       then Inl ''Roles used by pending invitations cannot be deleted.''
       else Inr (IdResult roleId,
         s\<lparr>au_rolePermissions := filter (\<lambda>x. rp_roleId x \<noteq> roleId) (au_rolePermissions s),
           au_roles := filter (\<lambda>r. ro_id r \<noteq> roleId) (au_roles s)\<rparr>))"

subsection \<open>Mutations\<close>

record access_service =
  ax_store :: auth_store
  ax_authorization :: authorization

text \<open>The error of the transaction that writes the new store, of the flush after it, and of the transaction that writes the old one back.\<close>

record io =
  io_write :: "string option"
  io_flush :: "string option"
  io_rollback :: "string option"

text \<open>\<open>store.updateAuthentication\<close> with a mutator that replaces the whole draft.  The tables are written and read back in the
  transaction: that they give back the records as they were written is assumed.\<close>

definition updateAuthentication :: "platform \<Rightarrow> string option \<Rightarrow> auth_store \<Rightarrow> access_service \<Rightarrow> (string + unit) \<times> access_service" where
  "updateAuthentication P failure s sv =
     (case assertAuthenticationStoreShape P s of
        Inl e \<Rightarrow> (Inl e, sv)
      | Inr _ \<Rightarrow> (case failure of Some e \<Rightarrow> (Inl e, sv) | None \<Rightarrow> (Inr (), sv\<lparr>ax_store := s\<rparr>)))"

text \<open>\<open>rebuild\<close>: a store that does not compile leaves the rules as they are.\<close>

definition rebuild :: "engine \<Rightarrow> auth_store \<Rightarrow> access_service \<Rightarrow> (string + unit) \<times> access_service" where
  "rebuild E s sv = (case compile E s of Inl e \<Rightarrow> (Inl e, sv) | Inr az \<Rightarrow> (Inr (), sv\<lparr>ax_authorization := az\<rparr>))"

definition roll_back :: "engine \<Rightarrow> platform \<Rightarrow> io \<Rightarrow> auth_store \<Rightarrow> string \<Rightarrow> access_service \<Rightarrow> (string + 'r) \<times> access_service" where
  "roll_back E P d previous e sv =
     (case updateAuthentication P (io_rollback d) previous (snd (rebuild E previous sv)) of
        (Inl e', sv') \<Rightarrow> (Inl e', sv')
      | (Inr _, sv') \<Rightarrow> (Inl e, sv'))"

definition performMutation ::
  "engine \<Rightarrow> platform \<Rightarrow> io \<Rightarrow> int option \<Rightarrow> string \<Rightarrow> jsv option \<Rightarrow> instant \<Rightarrow> (auth_store \<Rightarrow> string + 'r \<times> auth_store)
     \<Rightarrow> access_service \<Rightarrow> (string + 'r) \<times> access_service" where
  "performMutation E P d actorId eventType detail timestamp mut sv =
     (let previous = ax_store sv in
      case mut previous of
        Inl e \<Rightarrow> (Inl e, sv)
      | Inr (result, draft) \<Rightarrow>
          (let new = appendEvent actorId eventType detail timestamp draft in
           case assertAuthenticationStoreShape P new of
             Inl e \<Rightarrow> (Inl e, sv)
           | Inr _ \<Rightarrow>
               (case rebuild E new sv of
                  (Inl e, sv1) \<Rightarrow> roll_back E P d previous e sv1
                | (Inr _, sv1) \<Rightarrow>
                    (case updateAuthentication P (io_write d) new sv1 of
                       (Inl e, sv2) \<Rightarrow> roll_back E P d previous e sv2
                     | (Inr _, sv2) \<Rightarrow>
                         (case io_flush d of Some e \<Rightarrow> roll_back E P d previous e sv2 | None \<Rightarrow> (Inr result, sv2))))))"

subsection \<open>The operations\<close>

definition updateUser :: "engine \<Rightarrow> platform \<Rightarrow> io \<Rightarrow> instant \<Rightarrow> int \<Rightarrow> jsv option \<Rightarrow> jsv \<Rightarrow> access_service
    \<Rightarrow> (string + access_result) \<times> access_service" where
  "updateUser E P d now actorId v input sv =
     (case positiveId v ''Account ID'' of Inl e \<Rightarrow> (Inl e, sv) | Inr accountId \<Rightarrow>
        performMutation E P d (Some actorId) ''user-updated'' (Some (JNum (of_int accountId))) now (update_user P accountId input now) sv)"

definition deleteUser :: "engine \<Rightarrow> platform \<Rightarrow> io \<Rightarrow> instant \<Rightarrow> int \<Rightarrow> jsv option \<Rightarrow> access_service
    \<Rightarrow> (string + access_result) \<times> access_service" where
  "deleteUser E P d now actorId v sv =
     (case positiveId v ''Account ID'' of Inl e \<Rightarrow> (Inl e, sv) | Inr accountId \<Rightarrow>
        performMutation E P d (Some actorId) ''user-deleted'' (Some (JNum (of_int accountId))) now (delete_user accountId now) sv)"

definition assignRoles :: "engine \<Rightarrow> platform \<Rightarrow> io \<Rightarrow> instant \<Rightarrow> int \<Rightarrow> jsv option \<Rightarrow> jsv option \<Rightarrow> access_service
    \<Rightarrow> (string + access_result) \<times> access_service" where
  "assignRoles E P d now actorId v values sv =
     (case positiveId v ''Account ID'' of Inl e \<Rightarrow> (Inl e, sv) | Inr accountId \<Rightarrow>
        performMutation E P d (Some actorId) ''user-roles-updated'' (Some (JNum (of_int accountId))) now
          (assign_roles (ax_authorization sv) actorId accountId values now) sv)"

definition revokeUserSessions :: "engine \<Rightarrow> platform \<Rightarrow> io \<Rightarrow> instant \<Rightarrow> int \<Rightarrow> jsv option \<Rightarrow> access_service
    \<Rightarrow> (string + access_result) \<times> access_service" where
  "revokeUserSessions E P d now actorId v sv =
     (case positiveId v ''Account ID'' of Inl e \<Rightarrow> (Inl e, sv) | Inr accountId \<Rightarrow>
        performMutation E P d (Some actorId) ''user-sessions-revoked'' (Some (JNum (of_int accountId))) now (revoke_user_sessions accountId now) sv)"

definition createRole :: "engine \<Rightarrow> platform \<Rightarrow> io \<Rightarrow> instant \<Rightarrow> int \<Rightarrow> jsv \<Rightarrow> access_service
    \<Rightarrow> (string + access_result) \<times> access_service" where
  "createRole E P d now actorId input sv =
     performMutation E P d (Some actorId) ''role-created'' (prop_of input ''name'') now (create_role P (ax_authorization sv) actorId input now) sv"

definition duplicateRole :: "engine \<Rightarrow> platform \<Rightarrow> io \<Rightarrow> instant \<Rightarrow> int \<Rightarrow> jsv option \<Rightarrow> jsv \<Rightarrow> access_service
    \<Rightarrow> (string + access_result) \<times> access_service" where
  "duplicateRole E P d now actorId v input sv =
     (case positiveId v ''Role ID'' of Inl e \<Rightarrow> (Inl e, sv) | Inr roleId \<Rightarrow>
        (case List.find (\<lambda>r. ro_id r = roleId) (au_roles (ax_store sv)) of
           None \<Rightarrow> (Inl ''Role was not found.'', sv)
         | Some source \<Rightarrow> createRole E P d now actorId (duplicate_input (ax_store sv) source input) sv))"

definition updateRole :: "engine \<Rightarrow> platform \<Rightarrow> io \<Rightarrow> instant \<Rightarrow> int \<Rightarrow> jsv option \<Rightarrow> jsv \<Rightarrow> access_service
    \<Rightarrow> (string + access_result) \<times> access_service" where
  "updateRole E P d now actorId v input sv =
     (case positiveId v ''Role ID'' of Inl e \<Rightarrow> (Inl e, sv) | Inr roleId \<Rightarrow>
        performMutation E P d (Some actorId) ''role-updated'' (Some (JNum (of_int roleId))) now (update_role P roleId input now) sv)"

definition setRolePermissions :: "engine \<Rightarrow> platform \<Rightarrow> io \<Rightarrow> instant \<Rightarrow> int \<Rightarrow> jsv option \<Rightarrow> jsv option \<Rightarrow> access_service
    \<Rightarrow> (string + access_result) \<times> access_service" where
  "setRolePermissions E P d now actorId v values sv =
     (case positiveId v ''Role ID'' of Inl e \<Rightarrow> (Inl e, sv) | Inr roleId \<Rightarrow>
        performMutation E P d (Some actorId) ''role-permissions-updated'' (Some (JNum (of_int roleId))) now
          (set_role_permissions (ax_authorization sv) actorId roleId values now) sv)"

definition deleteRole :: "engine \<Rightarrow> platform \<Rightarrow> io \<Rightarrow> instant \<Rightarrow> int \<Rightarrow> jsv option \<Rightarrow> access_service
    \<Rightarrow> (string + access_result) \<times> access_service" where
  "deleteRole E P d now actorId v sv =
     (case positiveId v ''Role ID'' of Inl e \<Rightarrow> (Inl e, sv) | Inr roleId \<Rightarrow>
        performMutation E P d (Some actorId) ''role-deleted'' (Some (JNum (of_int roleId))) now (delete_role roleId now) sv)"

text \<open>The requests of \<open>access-routes.mjs\<close>, with the id of the path and the body.\<close>

datatype access_call =
    UpdateUser "jsv option" jsv
  | DeleteUser "jsv option"
  | AssignRoles "jsv option" "jsv option"
  | RevokeUserSessions "jsv option"
  | CreateRole jsv
  | DuplicateRole "jsv option" jsv
  | UpdateRole "jsv option" jsv
  | SetRolePermissions "jsv option" "jsv option"
  | DeleteRole "jsv option"

fun access :: "engine \<Rightarrow> platform \<Rightarrow> io \<Rightarrow> instant \<Rightarrow> int \<Rightarrow> access_call \<Rightarrow> access_service \<Rightarrow> (string + access_result) \<times> access_service" where
  "access E P d now actorId (UpdateUser v input) = updateUser E P d now actorId v input"
| "access E P d now actorId (DeleteUser v) = deleteUser E P d now actorId v"
| "access E P d now actorId (AssignRoles v values) = assignRoles E P d now actorId v values"
| "access E P d now actorId (RevokeUserSessions v) = revokeUserSessions E P d now actorId v"
| "access E P d now actorId (CreateRole input) = createRole E P d now actorId input"
| "access E P d now actorId (DuplicateRole v input) = duplicateRole E P d now actorId v input"
| "access E P d now actorId (UpdateRole v input) = updateRole E P d now actorId v input"
| "access E P d now actorId (SetRolePermissions v values) = setRolePermissions E P d now actorId v values"
| "access E P d now actorId (DeleteRole v) = deleteRole E P d now actorId v"

section \<open>Mutations keep the rules in step with the store\<close>

text \<open>The store passes its check and the rules are the ones compiled from it.\<close>

definition in_step :: "engine \<Rightarrow> platform \<Rightarrow> access_service \<Rightarrow> bool" where
  "in_step E P sv \<longleftrightarrow> assertAuthenticationStoreShape P (ax_store sv) = Inr () \<and> compile E (ax_store sv) = Inr (ax_authorization sv)"

lemma in_step_store_ok: "in_step E P sv \<Longrightarrow> store_ok P (ax_store sv)"
  by (simp add: in_step_def store_shape_iff)

lemma in_step_compiled: "in_step E P sv \<Longrightarrow> casbin_engine E \<Longrightarrow> ax_authorization sv = compiled (ax_store sv)"
  using compile_ok by (fastforce simp: in_step_def store_shape_iff)

lemma rolled_back:
  assumes "in_step E P sv" "io_rollback d = None"
  shows "roll_back E P d (ax_store sv) e sv1 = (Inl e, sv)"
  using assms by (cases sv; cases sv1) (simp add: roll_back_def rebuild_def updateAuthentication_def in_step_def)

text \<open>A mutation whose rollback can be written either fails and changes nothing, or keeps the store of its mutator with the event, which
  passes the check, and its rules.\<close>

lemma mutation_cases:
  assumes "in_step E P sv" "io_rollback d = None"
  obtains e where "performMutation E P d actorId type detail now mut sv = (Inl e, sv)"
  | result draft where "mut (ax_store sv) = Inr (result, draft)"
      "performMutation E P d actorId type detail now mut sv =
        (Inr result, \<lparr>ax_store = appendEvent actorId type detail now draft,
           ax_authorization = ax_authorization (snd (performMutation E P d actorId type detail now mut sv))\<rparr>)"
      "in_step E P (snd (performMutation E P d actorId type detail now mut sv))"
proof -
  let ?m = "performMutation E P d actorId type detail now mut sv"
  note undone = rolled_back [OF assms]
  show ?thesis
  proof (cases "mut (ax_store sv)")
    case (Inl e)
    then show ?thesis using that(1) [of e] by (simp add: performMutation_def)
  next
    case (Inr x)
    obtain result draft where x: "x = (result, draft)" by (cases x)
    let ?new = "appendEvent actorId type detail now draft"
    show ?thesis
    proof (cases "assertAuthenticationStoreShape P ?new")
      case (Inl e)
      then show ?thesis using that(1) [of e] Inr x by (simp add: performMutation_def)
    next
      case shape: (Inr u)
      show ?thesis
      proof (cases "compile E ?new")
        case (Inl e)
        then show ?thesis using that(1) [of e] Inr x shape by (simp add: performMutation_def rebuild_def undone)
      next
        case az: (Inr az)
        show ?thesis
        proof (cases "io_write d = None \<and> io_flush d = None")
          case True
          have m: "?m = (Inr result, sv\<lparr>ax_authorization := az, ax_store := ?new\<rparr>)"
            using True Inr x shape az by (simp add: performMutation_def rebuild_def updateAuthentication_def)
          show ?thesis
          proof (rule that(2))
            show "mut (ax_store sv) = Inr (result, draft)" using Inr x by simp
          qed (use m shape az in \<open>simp_all add: in_step_def\<close>)
        next
          case False
          then have "\<exists>e. ?m = (Inl e, sv)"
            using Inr x shape az
            by (cases "io_write d"; cases "io_flush d") (simp_all add: undone performMutation_def rebuild_def updateAuthentication_def)
          then show ?thesis using that(1) by blast
        qed
      qed
    qed
  qed
qed

section \<open>What a call changes\<close>

text \<open>The mutator of a call, with the ids it reads.\<close>

fun mutates :: "platform \<Rightarrow> authorization \<Rightarrow> instant \<Rightarrow> int \<Rightarrow> access_call \<Rightarrow> auth_store \<Rightarrow> string + access_result \<times> auth_store" where
  "mutates P az now actorId (UpdateUser v input) s = try_eval (positiveId v ''Account ID'') (\<lambda>i. update_user P i input now s)"
| "mutates P az now actorId (DeleteUser v) s = try_eval (positiveId v ''Account ID'') (\<lambda>i. delete_user i now s)"
| "mutates P az now actorId (AssignRoles v values) s = try_eval (positiveId v ''Account ID'') (\<lambda>i. assign_roles az actorId i values now s)"
| "mutates P az now actorId (RevokeUserSessions v) s = try_eval (positiveId v ''Account ID'') (\<lambda>i. revoke_user_sessions i now s)"
| "mutates P az now actorId (CreateRole input) s = create_role P az actorId input now s"
| "mutates P az now actorId (DuplicateRole v input) s = try_eval (positiveId v ''Role ID'') (\<lambda>i.
     case List.find (\<lambda>r. ro_id r = i) (au_roles s) of None \<Rightarrow> Inl ''Role was not found.''
     | Some source \<Rightarrow> create_role P az actorId (duplicate_input s source input) now s)"
| "mutates P az now actorId (UpdateRole v input) s = try_eval (positiveId v ''Role ID'') (\<lambda>i. update_role P i input now s)"
| "mutates P az now actorId (SetRolePermissions v values) s =
     try_eval (positiveId v ''Role ID'') (\<lambda>i. set_role_permissions az actorId i values now s)"
| "mutates P az now actorId (DeleteRole v) s = try_eval (positiveId v ''Role ID'') (\<lambda>i. delete_role i now s)"

lemma performed:
  "(\<exists>e. access E P d now actorId call sv = (Inl e, sv) \<and> (\<exists>e. mutates P (ax_authorization sv) now actorId call (ax_store sv) = Inl e)) \<or>
   (\<exists>type detail mut. access E P d now actorId call sv = performMutation E P d (Some actorId) type detail now mut sv \<and>
      1 \<le> length type \<and> length type \<le> 100 \<and> mut (ax_store sv) = mutates P (ax_authorization sv) now actorId call (ax_store sv))"
proof (cases call)
  case (UpdateUser v input)
  then show ?thesis by (cases "positiveId v ''Account ID''") (force simp: updateUser_def)+
next
  case (DeleteUser v)
  then show ?thesis by (cases "positiveId v ''Account ID''") (force simp: deleteUser_def)+
next
  case (AssignRoles v vs)
  then show ?thesis by (cases "positiveId v ''Account ID''") (force simp: assignRoles_def)+
next
  case (RevokeUserSessions v)
  then show ?thesis by (cases "positiveId v ''Account ID''") (force simp: revokeUserSessions_def)+
next
  case (CreateRole input)
  then show ?thesis by (force simp: createRole_def)
next
  case (DuplicateRole v input)
  then show ?thesis
    by (cases "positiveId v ''Role ID''"; cases "List.find (\<lambda>r. ro_id r = projr (positiveId v ''Role ID'')) (au_roles (ax_store sv))")
      (force simp: duplicateRole_def createRole_def)+
next
  case (UpdateRole v input)
  then show ?thesis by (cases "positiveId v ''Role ID''") (force simp: updateRole_def)+
next
  case (SetRolePermissions v vs)
  then show ?thesis by (cases "positiveId v ''Role ID''") (force simp: setRolePermissions_def)+
next
  case (DeleteRole v)
  then show ?thesis by (cases "positiveId v ''Role ID''") (force simp: deleteRole_def)+
qed

lemma access_cases:
  assumes "in_step E P sv" "io_rollback d = None"
  obtains (failed) e where "access E P d now actorId call sv = (Inl e, sv)"
  | (done_with) result draft type detail sv' where "access E P d now actorId call sv = (Inr result, sv')"
      "mutates P (ax_authorization sv) now actorId call (ax_store sv) = Inr (result, draft)"
      "ax_store sv' = appendEvent (Some actorId) type detail now draft" "in_step E P sv'"
proof -
  consider e where "access E P d now actorId call sv = (Inl e, sv)"
    | type detail mut where "access E P d now actorId call sv = performMutation E P d (Some actorId) type detail now mut sv"
        "mut (ax_store sv) = mutates P (ax_authorization sv) now actorId call (ax_store sv)"
    using performed [of E P d now actorId call sv] by blast
  then show ?thesis
  proof cases
    case (2 type detail mut)
    from assms show ?thesis
    proof (rule mutation_cases [where actorId = "Some actorId" and type = type and detail = detail and now = now and mut = mut])
      fix result draft
      let ?m = "performMutation E P d (Some actorId) type detail now mut sv"
      assume m: "mut (ax_store sv) = Inr (result, draft)" "in_step E P (snd ?m)"
        "?m = (Inr result, \<lparr>ax_store = appendEvent (Some actorId) type detail now draft, ax_authorization = ax_authorization (snd ?m)\<rparr>)"
      show ?thesis
      proof (rule done_with)
        show "access E P d now actorId call sv = (Inr result, snd ?m)" using 2(1) m(3) by (metis snd_conv)
        show "ax_store (snd ?m) = appendEvent (Some actorId) type detail now draft" by (subst m(3)) simp
      qed (use 2 m in simp_all)
    qed (use 2 failed in simp)
  qed (rule failed)
qed

end
