(* ===== verification/Access_Safety.thy ===== *)
theory Access_Safety
  imports Access_Service
begin

text \<open>
  What the administration of users and roles can and cannot change: the protected owner and the built-in roles are out of its reach,
  and nobody gains a permission that the acting account does not have, except through the reactivation of a user or a role.
\<close>

section \<open>The steps of a mutator\<close>

lemma update_first_map:
  "distinct (map k xs) \<Longrightarrow> update_first (\<lambda>x. k x = i) (\<lambda>_. y) xs = map (\<lambda>x. if k x = i then y else x) xs"
proof (induction xs)
  case (Cons x xs)
  then show ?case by (auto simp: image_iff intro!: map_idI [symmetric])
qed simp

lemma filter_update_first:
  "k y = i \<Longrightarrow> i \<noteq> j \<Longrightarrow> filter (\<lambda>x. k x = j) (update_first (\<lambda>x. k x = i) (\<lambda>_. y) xs) = filter (\<lambda>x. k x = j) xs"
  by (induction xs) auto

lemma filter_other: "i \<noteq> j \<Longrightarrow> filter (\<lambda>x. f x \<noteq> i \<and> f x = j) xs = filter (\<lambda>x. f x = j) xs"
  by (rule filter_cong) auto

lemma filter_revoke:
  "i \<noteq> j \<Longrightarrow> filter (\<lambda>x. se_accountId x = Some j) (revoke_sessions i t xs) = filter (\<lambda>x. se_accountId x = Some j) xs"
  by (induction xs) (auto simp: revoke_sessions_def)

fun new_assignments :: "int \<Rightarrow> int \<Rightarrow> int list \<Rightarrow> account_role list" where
  "new_assignments n i [] = []"
| "new_assignments n i (r # rs) =
     \<lparr>ar_id = n, ar_accountId = i, ar_roleId = r, ar_scopeKind = ''global'', ar_scopeId = 0\<rparr> # new_assignments (n + 1) i rs"

lemma fold_add_account_role:
  "fold (add_account_role i) rs s = s\<lparr>au_nextAccountRoleId := au_nextAccountRoleId s + int (length rs),
     au_accountRoles := au_accountRoles s @ new_assignments (au_nextAccountRoleId s) i rs\<rparr>"
  by (induction rs arbitrary: s) (simp_all add: add_account_role_def add.assoc)

lemma new_assignments_facts:
  "map ar_roleId (new_assignments n i rs) = rs" "x \<in> set (new_assignments n i rs) \<Longrightarrow> ar_accountId x = i"
  by (induction n i rs rule: new_assignments.induct) auto

fun new_relations :: "int \<Rightarrow> int \<Rightarrow> int list \<Rightarrow> role_permission list" where
  "new_relations n r [] = []"
| "new_relations n r (p # ps) = \<lparr>rp_id = n, rp_roleId = r, rp_permissionId = p\<rparr> # new_relations (n + 1) r ps"

lemma fold_add_role_permission:
  "fold (add_role_permission r) ps s = s\<lparr>au_nextRolePermissionId := au_nextRolePermissionId s + int (length ps),
     au_rolePermissions := au_rolePermissions s @ new_relations (au_nextRolePermissionId s) r ps\<rparr>"
  by (induction ps arbitrary: s) (simp_all add: add_role_permission_def add.assoc)

lemma new_relations_facts:
  "map rp_permissionId (new_relations n r ps) = ps" "x \<in> set (new_relations n r ps) \<Longrightarrow> rp_roleId x = r"
  by (induction n r ps rule: new_relations.induct) auto

lemma new_relations_permission: "x \<in> set (new_relations n r ps) \<Longrightarrow> rp_permissionId x \<in> set ps"
  using arg_cong [OF new_relations_facts(1), of set n r ps] by auto

lemma new_assignments_role: "x \<in> set (new_assignments n i rs) \<Longrightarrow> ar_roleId x \<in> set rs"
  using arg_cong [OF new_assignments_facts(1), of set n i rs] by auto

lemma find_user_Inr: "find_user s i m = Inr a \<Longrightarrow> a \<in> set (au_accounts s) \<and> ac_id a = i \<and> \<not> ac_protectedOwner a"
  by (auto simp: find_user_def split: option.splits if_splits dest!: find_Some_iff_first)

lemma find_role_Inr: "find_role s i m = Inr r \<Longrightarrow> r \<in> set (au_roles s) \<and> ro_id r = i \<and> \<not> ro_builtIn r"
  by (auto simp: find_role_def split: option.splits if_splits dest!: find_Some_iff_first)

lemma store_ok_ids:
  assumes "store_ok P s"
  shows "distinct (map ac_id (au_accounts s))" "distinct (map ro_id (au_roles s))"
    "r \<in> set (au_roles s) \<Longrightarrow> ro_id r < au_nextRoleId s"
  using assms by (auto simp: store_ok_def id_tables_def table_ok_def)

lemma same_account: "store_ok P s \<Longrightarrow> a \<in> set (au_accounts s) \<Longrightarrow> b \<in> set (au_accounts s) \<Longrightarrow> ac_id a = ac_id b \<Longrightarrow> a = b"
  using store_ok_ids(1) by (auto simp: distinct_map dest: inj_onD)

lemma same_role: "store_ok P s \<Longrightarrow> r \<in> set (au_roles s) \<Longrightarrow> q \<in> set (au_roles s) \<Longrightarrow> ro_id r = ro_id q \<Longrightarrow> r = q"
  using store_ok_ids(2) by (auto simp: distinct_map dest: inj_onD)

lemma try_evalE: "try_eval x f = Inr y \<Longrightarrow> (\<And>v. x = Inr v \<Longrightarrow> f v = Inr y \<Longrightarrow> thesis) \<Longrightarrow> thesis"
  by (cases x) simp_all

text \<open>A user that a call may change is not the owner, a role that it may change is not built in.\<close>

lemma user_not_owner:
  "store_ok P s \<Longrightarrow> find_user s i m = Inr a \<Longrightarrow> b \<in> set (au_accounts s) \<Longrightarrow> ac_protectedOwner b \<Longrightarrow> ac_id b \<noteq> i"
  using find_user_Inr same_account by metis

lemma role_not_built_in:
  "store_ok P s \<Longrightarrow> find_role s i m = Inr r \<Longrightarrow> q \<in> set (au_roles s) \<Longrightarrow> ro_builtIn q \<Longrightarrow> ro_id q \<noteq> i"
  using find_role_Inr same_role by metis

text \<open>What a successful mutator did, one line each.\<close>

lemma update_user_Inr:
  assumes "update_user P i input t s = Inr (res, s')"
  obtains a name active where "find_user s i ''The protected owner cannot be modified from Access administration.'' = Inr a"
    "active = (case prop_of input ''active'' of None \<Rightarrow> ac_active a | Some v \<Rightarrow> v = JBool True)"
    "s' = s\<lparr>au_accounts := update_first (\<lambda>a. ac_id a = i) (\<lambda>_. a\<lparr>ac_displayName := name, ac_active := active, ac_updatedAt := Some t\<rparr>) (au_accounts s),
       au_sessions := (if active then au_sessions s else revoke_sessions i t (au_sessions s))\<rparr>"
  using assms unfolding update_user_def try_eval_Inr_iff Let_def by blast

lemma assign_roles_Inr:
  assumes "assign_roles az actor i vs t s = Inr (res, s')"
  obtains a roleIds where "find_user s i ''The protected owner roles cannot be changed.'' = Inr a"
    "assertAssignableRoleIds az actor s vs = Inr roleIds"
    "s' = s\<lparr>au_nextAccountRoleId := au_nextAccountRoleId s + int (length roleIds),
       au_accountRoles := filter (\<lambda>x. ar_accountId x \<noteq> i) (au_accountRoles s) @ new_assignments (au_nextAccountRoleId s) i roleIds\<rparr>"
  using assms by (auto simp: assign_roles_def try_eval_Inr_iff fold_add_account_role)

text \<open>Normalizing a normalized list of permissions changes nothing.\<close>

lemma map_throw_Inr: "map_throw f xs = Inr ys \<longleftrightarrow> list_all2 (\<lambda>x y. f x = Inr y) xs ys"
proof (induction xs arbitrary: ys)
  case (Cons x xs)
  have "map_throw f (x # xs) = try_eval (f x) (\<lambda>y. try_eval (map_throw f xs) (\<lambda>ys. Inr (y # ys)))"
    by (cases "f x") (simp_all add: map_throw_def)
  with Cons show ?case by (cases ys) (auto simp: try_eval_Inr_iff)
qed (auto simp: map_throw_def)

lemma positiveId_number: "positiveId (Some (JNum (of_int i))) label = (if isPositiveSafeInteger i then Inr i else Inl (label @ '' is invalid.''))"
  by (simp add: positiveId_def isPositiveSafeInteger_def)

lemma positiveId_Inr: "positiveId v label = Inr i \<Longrightarrow> isPositiveSafeInteger i"
  by (auto simp: positiveId_def isPositiveSafeInteger_def isSafeInteger_rat_def isInteger_rat_def split: option.splits if_splits)

lemma known_permission_safe: "known_permission i \<Longrightarrow> isPositiveSafeInteger i"
  by (auto simp: known_permission_iff permission_ids_safe)

lemma normalized_facts:
  assumes "normalizedPermissionIds v = Inr ids"
  shows "distinct ids" "sorted ids" "\<forall>i \<in> set ids. known_permission i" "set REQUIRED_WORKSPACE_PERMISSION_IDS \<subseteq> set ids"
  using assms by (auto simp: normalizedPermissionIds_def try_eval_Inr_iff split: if_splits)

lemma normalized_again:
  assumes "normalizedPermissionIds v = Inr ids" shows "normalizedPermissionIds (number_array ids) = Inr ids"
proof -
  note facts = normalized_facts [OF assms]
  have "map_throw (\<lambda>v. positiveId (Some v) ''Permission ID'') (map (\<lambda>i. JNum (of_int i)) ids) = Inr ids"
    using facts(3) by (auto simp: map_throw_Inr list.rel_map positiveId_number known_permission_safe intro!: list.rel_refl_strong)
  moreover have "sort (js_uniq (REQUIRED_WORKSPACE_PERMISSION_IDS @ ids)) = ids"
    using facts by (intro sorted_distinct_set_unique) auto
  moreover have "checks (map (\<lambda>i. check (known_permission i) (''Permission '' @ show_int i @ '' is unknown.''))
      (js_uniq (REQUIRED_WORKSPACE_PERMISSION_IDS @ ids))) = Inr ()"
    using facts(3) by (auto simp: required_known simp del: append_Cons)
  ultimately show ?thesis by (simp add: normalizedPermissionIds_def number_array_def del: append_Cons append.simps checks_Inr)
qed

lemma replaced_relations:
  assumes "normalizedPermissionIds v = Inr ids"
  shows "replaceRolePermissions r (number_array ids) s = Inr (s\<lparr>au_nextRolePermissionId := au_nextRolePermissionId s + int (length ids),
     au_rolePermissions := filter (\<lambda>x. rp_roleId x \<noteq> r) (au_rolePermissions s) @ new_relations (au_nextRolePermissionId s) r ids\<rparr>)"
  by (simp add: replaceRolePermissions_def normalized_again [OF assms] fold_add_role_permission)

lemma create_role_Inr:
  assumes "create_role P az actor input t s = Inr (res, s')"
  obtains key name desc ids where "role_key_ok key" "\<forall>r \<in> set (au_roles s). ro_key r \<noteq> key"
    "normalizedPermissionIds (coalesce (prop_of input ''permissionIds'') (Some (JArr []))) = Inr ids"
    "assertDelegatedPermissionIds az actor ids = Inr ()"
    "s' = s\<lparr>au_nextRoleId := au_nextRoleId s + 1,
       au_roles := au_roles s @ [\<lparr>ro_id = au_nextRoleId s, ro_key = key, ro_name = name, ro_description = desc, ro_builtIn = False,
         ro_active = True, ro_createdAt = t, ro_updatedAt = t\<rparr>],
       au_nextRolePermissionId := au_nextRolePermissionId s + int (length ids),
       au_rolePermissions := filter (\<lambda>x. rp_roleId x \<noteq> au_nextRoleId s) (au_rolePermissions s)
         @ new_relations (au_nextRolePermissionId s) (au_nextRoleId s) ids\<rparr>"
proof -
  obtain key where key: "cleanRoleKey P (coalesce (prop_of input ''key'') (prop_of input ''name'')) = Inr key"
    using assms unfolding create_role_def try_eval_Inr_iff by blast
  with assms have fresh: "\<not> list_ex (\<lambda>r. ro_key r = key) (au_roles s)"
    unfolding create_role_def by (auto simp only: try_eval_simps split: if_splits)
  obtain name where name: "cleanText P (prop_of input ''name'') ''Role name'' 80 = Inr name"
    using assms [unfolded create_role_def key try_eval_simps if_not_P [OF fresh]] by (elim try_evalE) (rule that)
  obtain ids where ids: "normalizedPermissionIds (coalesce (prop_of input ''permissionIds'') (Some (JArr []))) = Inr ids"
      "assertDelegatedPermissionIds az actor ids = Inr ()"
    using assms [unfolded create_role_def key try_eval_simps if_not_P [OF fresh] name Let_def] by (elim try_evalE) (rule that, assumption, simp)
  show ?thesis
  proof (rule that [OF _ _ ids])
    show "role_key_ok key" using key by (simp add: cleanRoleKey_def split: if_splits)
    show "\<forall>r \<in> set (au_roles s). ro_key r \<noteq> key" using fresh by (simp add: list_ex_iff)
    show "s' = s\<lparr>au_nextRoleId := au_nextRoleId s + 1,
       au_roles := au_roles s @ [\<lparr>ro_id = au_nextRoleId s, ro_key = key, ro_name = name,
         ro_description = take 255 (js_trim (pf_nfkc P (text_of (prop_of input ''description'')))), ro_builtIn = False,
         ro_active = True, ro_createdAt = t, ro_updatedAt = t\<rparr>],
       au_nextRolePermissionId := au_nextRolePermissionId s + int (length ids),
       au_rolePermissions := filter (\<lambda>x. rp_roleId x \<noteq> au_nextRoleId s) (au_rolePermissions s)
         @ new_relations (au_nextRolePermissionId s) (au_nextRoleId s) ids\<rparr>"
      using assms unfolding create_role_def key name Let_def try_eval_simps if_not_P [OF fresh] ids replaced_relations [OF ids(1)]
      by simp
  qed
qed

lemma set_role_permissions_Inr:
  assumes "set_role_permissions az actor i vs t s = Inr (res, s')"
  obtains r ids where "find_role s i ''Built-in role permissions cannot be modified.'' = Inr r" "normalizedPermissionIds vs = Inr ids"
    "assertDelegatedPermissionIds az actor ids = Inr ()"
    "s' = s\<lparr>au_nextRolePermissionId := au_nextRolePermissionId s + int (length ids),
       au_rolePermissions := filter (\<lambda>x. rp_roleId x \<noteq> i) (au_rolePermissions s) @ new_relations (au_nextRolePermissionId s) i ids,
       au_roles := update_first (\<lambda>q. ro_id q = i) (\<lambda>_. r\<lparr>ro_updatedAt := t\<rparr>) (au_roles s)\<rparr>"
proof -
  obtain r where r: "find_role s i ''Built-in role permissions cannot be modified.'' = Inr r"
    using assms unfolding set_role_permissions_def try_eval_Inr_iff by blast
  obtain ids where ids: "normalizedPermissionIds vs = Inr ids" "assertDelegatedPermissionIds az actor ids = Inr ()"
    using assms [unfolded set_role_permissions_def r try_eval_simps] by (elim try_evalE) (rule that, assumption, simp)
  show ?thesis
    using assms [unfolded set_role_permissions_def r ids replaced_relations [OF ids(1)] try_eval_simps put_role_def Let_def] find_role_Inr [OF r]
    by (intro that [OF r ids]) auto
qed

lemma update_role_Inr:
  assumes "update_role P i input t s = Inr (res, s')"
  obtains r name desc active where "find_role s i ''Built-in roles cannot be modified.'' = Inr r"
    "active = (case prop_of input ''active'' of None \<Rightarrow> ro_active r | Some v \<Rightarrow> v = JBool True)"
    "s' = s\<lparr>au_roles := update_first (\<lambda>q. ro_id q = i)
       (\<lambda>_. r\<lparr>ro_name := name, ro_description := desc, ro_active := active, ro_updatedAt := t\<rparr>) (au_roles s)\<rparr>"
proof -
  obtain r where r: "find_role s i ''Built-in roles cannot be modified.'' = Inr r"
    using assms unfolding update_role_def try_eval_Inr_iff by blast
  show ?thesis
    using assms find_role_Inr [OF r] unfolding update_role_def r try_eval_simps try_eval_Inr_iff Let_def put_role_def
    by (auto intro!: that [OF r])
qed

lemma delete_role_Inr:
  assumes "delete_role i t s = Inr (res, s')"
  obtains r where "find_role s i ''Built-in roles cannot be deleted.'' = Inr r" "\<forall>x \<in> set (au_accountRoles s). ar_roleId x \<noteq> i"
    "s' = s\<lparr>au_rolePermissions := filter (\<lambda>x. rp_roleId x \<noteq> i) (au_rolePermissions s),
       au_roles := filter (\<lambda>r. ro_id r \<noteq> i) (au_roles s)\<rparr>"
  using assms by (auto simp: delete_role_def try_eval_Inr_iff list_ex_iff split: if_splits)

section \<open>The protected owner and the built-in roles\<close>

text \<open>What the store keeps for an account, and for a role.\<close>

definition account_view :: "auth_store \<Rightarrow> int
    \<Rightarrow> account list \<times> local_credential list \<times> oidc_identity list \<times> session list \<times> account_role list" where
  "account_view s i = (filter (\<lambda>a. ac_id a = i) (au_accounts s), filter (\<lambda>c. lc_accountId c = i) (au_localCredentials s),
     filter (\<lambda>d. oi_accountId d = i) (au_oidcIdentities s), filter (\<lambda>x. se_accountId x = Some i) (au_sessions s),
     filter (\<lambda>x. ar_accountId x = i) (au_accountRoles s))"

definition role_view :: "auth_store \<Rightarrow> int \<Rightarrow> role list \<times> role_permission list" where
  "role_view s r = (filter (\<lambda>q. ro_id q = r) (au_roles s), filter (\<lambda>x. rp_roleId x = r) (au_rolePermissions s))"

lemma appendEvent_frame [simp]:
  "au_accounts (appendEvent a ty de t s) = au_accounts s" "au_localCredentials (appendEvent a ty de t s) = au_localCredentials s"
  "au_oidcIdentities (appendEvent a ty de t s) = au_oidcIdentities s" "au_sessions (appendEvent a ty de t s) = au_sessions s"
  "au_accountRoles (appendEvent a ty de t s) = au_accountRoles s" "au_roles (appendEvent a ty de t s) = au_roles s"
  "au_rolePermissions (appendEvent a ty de t s) = au_rolePermissions s" "au_invitations (appendEvent a ty de t s) = au_invitations s"
  by (simp_all add: appendEvent_def)

lemma filter_new_assignments: "i \<noteq> j \<Longrightarrow> filter (\<lambda>x. ar_accountId x = j) (new_assignments n i rs) = []"
  by (auto simp: filter_empty_conv dest: new_assignments_facts(2))

lemma filter_new_relations: "r \<noteq> q \<Longrightarrow> filter (\<lambda>x. rp_roleId x = q) (new_relations n r ps) = []"
  by (auto simp: filter_empty_conv dest: new_relations_facts(2))

lemma update_user_view:
  assumes "update_user P i input t s = Inr (res, s')"
  shows "i \<noteq> j \<Longrightarrow> account_view s' j = account_view s j" "role_view s' r = role_view s r"
proof -
  obtain a name active where a: "find_user s i ''The protected owner cannot be modified from Access administration.'' = Inr a"
    and s': "s' = s\<lparr>au_accounts := update_first (\<lambda>a. ac_id a = i) (\<lambda>_. a\<lparr>ac_displayName := name, ac_active := active, ac_updatedAt := Some t\<rparr>) (au_accounts s),
       au_sessions := (if active then au_sessions s else revoke_sessions i t (au_sessions s))\<rparr>"
    using assms by (rule update_user_Inr)
  have "ac_id a = i" using find_user_Inr [OF a] by simp
  then show "i \<noteq> j \<Longrightarrow> account_view s' j = account_view s j"
    by (simp add: s' account_view_def filter_revoke filter_update_first)
  show "role_view s' r = role_view s r" by (simp add: s' role_view_def)
qed

lemma delete_user_view:
  assumes "delete_user i t s = Inr (res, s')"
  shows "i \<noteq> j \<Longrightarrow> account_view s' j = account_view s j" "role_view s' r = role_view s r"
proof -
  obtain a where "s' = s\<lparr>au_localCredentials := filter (\<lambda>c. lc_accountId c \<noteq> i) (au_localCredentials s),
           au_oidcIdentities := filter (\<lambda>d. oi_accountId d \<noteq> i) (au_oidcIdentities s),
           au_sessions := filter (\<lambda>x. se_accountId x \<noteq> Some i) (au_sessions s),
           au_recoveryTokens := filter (\<lambda>x. rt_accountId x \<noteq> Some i) (au_recoveryTokens s),
           au_oidcTransactions := filter (\<lambda>x. ot_accountId x \<noteq> Some i) (au_oidcTransactions s),
           au_accountRoles := filter (\<lambda>x. ar_accountId x \<noteq> i) (au_accountRoles s),
           au_invitations := map (\<lambda>x. if in_accountId x = Some i then x\<lparr>in_accountId := None\<rparr> else x) (au_invitations s),
           au_identityLinkRequests := filter (\<lambda>x. lr_accountId x \<noteq> i) (au_identityLinkRequests s),
           au_accounts := filter (\<lambda>a. ac_id a \<noteq> i) (au_accounts s)\<rparr>"
    using assms by (auto simp: delete_user_def try_eval_Inr_iff)
  then show "i \<noteq> j \<Longrightarrow> account_view s' j = account_view s j" "role_view s' r = role_view s r"
    by (simp_all add: account_view_def role_view_def filter_other)
qed

lemma assign_roles_view:
  assumes "assign_roles az actor i vs t s = Inr (res, s')"
  shows "i \<noteq> j \<Longrightarrow> account_view s' j = account_view s j" "role_view s' r = role_view s r"
  using assms by (auto elim!: assign_roles_Inr simp: account_view_def role_view_def filter_new_assignments filter_other)

lemma revoke_user_sessions_view:
  assumes "revoke_user_sessions i t s = Inr (res, s')"
  shows "i \<noteq> j \<Longrightarrow> account_view s' j = account_view s j" "role_view s' r = role_view s r"
  using assms by (auto simp: revoke_user_sessions_def try_eval_Inr_iff account_view_def role_view_def filter_revoke)

lemma create_role_view:
  assumes "create_role P az actor input t s = Inr (res, s')"
  shows "account_view s' j = account_view s j" "au_nextRoleId s \<noteq> r \<Longrightarrow> role_view s' r = role_view s r"
  using assms by (auto elim!: create_role_Inr simp: account_view_def role_view_def filter_new_relations filter_other)

lemma update_role_view:
  assumes "update_role P i input t s = Inr (res, s')"
  shows "account_view s' j = account_view s j" "i \<noteq> r \<Longrightarrow> role_view s' r = role_view s r"
  using assms
  by (auto elim!: update_role_Inr dest!: find_role_Inr simp: account_view_def role_view_def filter_update_first)

lemma set_role_permissions_view:
  assumes "set_role_permissions az actor i vs t s = Inr (res, s')"
  shows "account_view s' j = account_view s j" "i \<noteq> r \<Longrightarrow> role_view s' r = role_view s r"
  using assms
  by (auto elim!: set_role_permissions_Inr dest!: find_role_Inr
      simp: account_view_def role_view_def filter_update_first filter_new_relations filter_other)

lemma delete_role_view:
  assumes "delete_role i t s = Inr (res, s')"
  shows "account_view s' j = account_view s j" "i \<noteq> r \<Longrightarrow> role_view s' r = role_view s r"
  using assms by (auto elim!: delete_role_Inr simp: account_view_def role_view_def filter_other)

text \<open>No call changes what the store keeps for the protected owner and for the built-in roles.\<close>

lemma mutates_view:
  assumes "mutates P az now actor call s = Inr (res, s')" "store_ok P s"
  shows "owner \<in> set (au_accounts s) \<Longrightarrow> ac_protectedOwner owner \<Longrightarrow> account_view s' (ac_id owner) = account_view s (ac_id owner)"
    and "r \<in> set (au_roles s) \<Longrightarrow> ro_builtIn r \<Longrightarrow> role_view s' (ro_id r) = role_view s (ro_id r)"
proof -
  have user: "\<lbrakk>find_user s i m = Inr a; b \<in> set (au_accounts s); ac_protectedOwner b\<rbrakk> \<Longrightarrow> i \<noteq> ac_id b" for i m a b
    using user_not_owner [OF assms(2)] by blast
  have role: "\<lbrakk>find_role s i m = Inr q; b \<in> set (au_roles s); ro_builtIn b\<rbrakk> \<Longrightarrow> i \<noteq> ro_id b" for i m q b
    using role_not_built_in [OF assms(2)] by blast
  have new: "r \<in> set (au_roles s) \<Longrightarrow> au_nextRoleId s \<noteq> ro_id r" using store_ok_ids(3) [OF assms(2)] by force
  show "account_view s' (ac_id owner) = account_view s (ac_id owner)" if o: "owner \<in> set (au_accounts s)" "ac_protectedOwner owner"
  proof (cases call)
    case (UpdateUser v input)
    then obtain i where i: "update_user P i input now s = Inr (res, s')" using assms(1) by (auto simp: try_eval_Inr_iff)
    then obtain m a where "find_user s i m = Inr a" by (auto simp: update_user_def try_eval_Inr_iff)
    then show ?thesis using update_user_view(1) [OF i] user o by blast
  next
    case (DeleteUser v)
    then obtain i where i: "delete_user i now s = Inr (res, s')" using assms(1) by (auto simp: try_eval_Inr_iff)
    then obtain m a where "find_user s i m = Inr a" by (auto simp: delete_user_def try_eval_Inr_iff)
    then show ?thesis using delete_user_view(1) [OF i] user o by blast
  next
    case (AssignRoles v vs)
    then obtain i where i: "assign_roles az actor i vs now s = Inr (res, s')" using assms(1) by (auto simp: try_eval_Inr_iff)
    then obtain m a where "find_user s i m = Inr a" by (auto simp: assign_roles_def try_eval_Inr_iff)
    then show ?thesis using assign_roles_view(1) [OF i] user o by blast
  next
    case (RevokeUserSessions v)
    then obtain i where i: "revoke_user_sessions i now s = Inr (res, s')" using assms(1) by (auto simp: try_eval_Inr_iff)
    then obtain m a where "find_user s i m = Inr a" by (auto simp: revoke_user_sessions_def try_eval_Inr_iff)
    then show ?thesis using revoke_user_sessions_view(1) [OF i] user o by blast
  qed (use assms(1) in \<open>auto simp: try_eval_Inr_iff create_role_view update_role_view set_role_permissions_view delete_role_view
      split: option.splits\<close>)
  show "role_view s' (ro_id r) = role_view s (ro_id r)" if r: "r \<in> set (au_roles s)" "ro_builtIn r"
  proof (cases call)
    case (UpdateRole v input)
    then obtain i where i: "update_role P i input now s = Inr (res, s')" using assms(1) by (auto simp: try_eval_Inr_iff)
    then obtain m q where "find_role s i m = Inr q" by (auto simp: update_role_def try_eval_Inr_iff)
    then show ?thesis using update_role_view(2) [OF i] role r by blast
  next
    case (SetRolePermissions v vs)
    then obtain i where i: "set_role_permissions az actor i vs now s = Inr (res, s')" using assms(1) by (auto simp: try_eval_Inr_iff)
    then obtain m q where "find_role s i m = Inr q" by (auto simp: set_role_permissions_def try_eval_Inr_iff)
    then show ?thesis using set_role_permissions_view(2) [OF i] role r by blast
  next
    case (DeleteRole v)
    then obtain i where i: "delete_role i now s = Inr (res, s')" using assms(1) by (auto simp: try_eval_Inr_iff)
    then obtain m q where "find_role s i m = Inr q" by (auto simp: delete_role_def try_eval_Inr_iff)
    then show ?thesis using delete_role_view(2) [OF i] role r by blast
  qed (use assms(1) new [OF r(1)] in \<open>auto simp: try_eval_Inr_iff update_user_view delete_user_view assign_roles_view
      revoke_user_sessions_view create_role_view split: option.splits\<close>)
qed

section \<open>Permissions do not spread\<close>

text \<open>The calls that make an inactive user or an inactive role active again.\<close>

fun reactivates :: "access_call \<Rightarrow> bool" where
  "reactivates (UpdateUser v input) = (prop_of input ''active'' = Some (JBool True))"
| "reactivates (UpdateRole v input) = (prop_of input ''active'' = Some (JBool True))"
| "reactivates _ = False"

lemma by_key: "p \<in> set PERMISSIONS \<Longrightarrow> PERMISSION_BY_KEY (pm_key p) = Some p"
  by (simp add: by_key_Some)

lemma actor_permissions:
  "permissionIdsForActor (compiled s) actor = Inr (map pm_id (filter (\<lambda>p. granted s actor (pm_id p)) PERMISSIONS))"
proof -
  have "list_all2 (\<lambda>key y. (case PERMISSION_BY_KEY key of None \<Rightarrow> Inl (''Permission '' @ key @ '' is unknown.'') | Some p \<Rightarrow> Inr (pm_id p)) = Inr y)
      (map pm_key ps) (map pm_id ps)" if "set ps \<subseteq> set PERMISSIONS" for ps
    using that by (induction ps) (simp_all add: by_key)
  then show ?thesis by (simp add: permissionIdsForActor_def map_throw_Inr compiled_keys granted_keys_def)
qed

lemma delegated: "assertDelegatedPermissionIds (compiled s) actor ids = Inr () \<Longrightarrow> p \<in> set ids \<Longrightarrow> granted s actor p"
  by (auto simp: assertDelegatedPermissionIds_def actor_permissions filter_empty_conv)

lemma assignable:
  assumes "assertAssignableRoleIds (compiled s) actor s vs = Inr roleIds" "r \<in> set roleIds"
  shows "role_grants s r p \<Longrightarrow> granted s actor p"
    and "\<exists>q \<in> set (au_roles s). ro_id q = r \<and> ro_active q"
    and "map_option ro_key (List.find (\<lambda>q. ro_id q = r) (au_roles s)) \<noteq> Some ''owner''"
proof -
  have norm: "normalizedRoleIds s vs = Inr roleIds"
    and own: "\<not> list_ex (\<lambda>i. map_option ro_key (List.find (\<lambda>r. ro_id r = i) (au_roles s)) = Some ''owner'') roleIds"
    and del: "assertDelegatedPermissionIds (compiled s) actor (role_permission_ids s roleIds) = Inr ()"
    using assms(1) by (auto simp: assertAssignableRoleIds_def try_eval_Inr_iff)
  show "role_grants s r p \<Longrightarrow> granted s actor p"
    using delegated [OF del] assms(2) by (force simp: role_permission_ids_def role_grants_def)
  have "List.find (\<lambda>q. ro_id q = r \<and> ro_active q) (au_roles s) \<noteq> None"
    using norm assms(2) by (auto simp: normalizedRoleIds_def try_eval_Inr_iff split: if_splits)
  then show "\<exists>q \<in> set (au_roles s). ro_id q = r \<and> ro_active q" by (auto dest!: find_Some_iff_first)
  show "map_option ro_key (List.find (\<lambda>q. ro_id q = r) (au_roles s)) \<noteq> Some ''owner''"
    using own assms(2) by (auto simp: list_ex_iff)
qed

lemma in_update_first: "x \<in> set (update_first Q (\<lambda>_. y) xs) \<Longrightarrow> x = y \<or> x \<in> set xs"
  by (induction xs) (auto split: if_splits)

lemma granted_mono:
  assumes "granted s' i p"
    "\<And>a. a \<in> set (au_accounts s') \<Longrightarrow> ac_active a \<Longrightarrow>
       \<exists>b \<in> set (au_accounts s). ac_id b = ac_id a \<and> ac_active b \<and> ac_protectedOwner b = ac_protectedOwner a"
    "\<And>r. has_active_role s' i r \<Longrightarrow> role_grants s' r p \<Longrightarrow> has_active_role s i r \<and> role_grants s r p \<or> Q"
  shows "granted s i p \<or> Q"
  using assms(1,3) unfolding granted_def is_active_account_def is_active_owner_def by (metis assms(2))

lemma create_role_grants:
  assumes "create_role P (compiled s) actor input t s = Inr (res, s')" "store_ok P s" "granted s' i p"
  shows "granted s i p"
proof -
  have "granted s i p \<or> False"
  proof (rule granted_mono [OF assms(3)])
    fix a assume "a \<in> set (au_accounts s')" "ac_active a"
    then show "\<exists>b \<in> set (au_accounts s). ac_id b = ac_id a \<and> ac_active b \<and> ac_protectedOwner b = ac_protectedOwner a"
      using assms(1) by (auto elim!: create_role_Inr)
  next
    fix r assume r: "has_active_role s' i r" "role_grants s' r p"
    have "ar_roleId x \<noteq> au_nextRoleId s" if "x \<in> set (au_accountRoles s)" for x
      using that assms(2) store_ok_ids(3) [OF assms(2)] by (fastforce simp: store_ok_def assignment_ok_def)
    then have "r \<noteq> au_nextRoleId s" using r(1) assms(1) by (auto elim!: create_role_Inr simp: has_active_role_def)
    then show "has_active_role s i r \<and> role_grants s r p \<or> False"
      using r assms(1) by (auto elim!: create_role_Inr simp: has_active_role_def role_grants_def dest: new_relations_facts(2))
  qed
  then show ?thesis by simp
qed

lemma update_user_grants:
  assumes "update_user P k input t s = Inr (res, s')" "prop_of input ''active'' \<noteq> Some (JBool True)" "granted s' i p"
  shows "granted s i p"
proof -
  obtain a name active where a: "find_user s k ''The protected owner cannot be modified from Access administration.'' = Inr a"
    and act: "active = (case prop_of input ''active'' of None \<Rightarrow> ac_active a | Some v \<Rightarrow> v = JBool True)"
    and s': "s' = s\<lparr>au_accounts := update_first (\<lambda>a. ac_id a = k) (\<lambda>_. a\<lparr>ac_displayName := name, ac_active := active, ac_updatedAt := Some t\<rparr>) (au_accounts s),
       au_sessions := (if active then au_sessions s else revoke_sessions k t (au_sessions s))\<rparr>"
    using assms(1) by (rule update_user_Inr)
  have act: "active \<Longrightarrow> ac_active a" using act assms(2) by (auto split: option.splits)
  have "granted s i p \<or> False"
  proof (rule granted_mono [OF assms(3)])
    fix b assume "b \<in> set (au_accounts s')" "ac_active b"
    then show "\<exists>c \<in> set (au_accounts s). ac_id c = ac_id b \<and> ac_active c \<and> ac_protectedOwner c = ac_protectedOwner b"
      using find_user_Inr [OF a] act by (fastforce simp: s' dest: in_update_first)
  qed (simp add: s' has_active_role_def role_grants_def)
  then show ?thesis by simp
qed

lemma update_role_grants:
  assumes "update_role P k input t s = Inr (res, s')" "prop_of input ''active'' \<noteq> Some (JBool True)" "granted s' i p"
  shows "granted s i p"
proof -
  obtain r name desc active where r: "find_role s k ''Built-in roles cannot be modified.'' = Inr r"
    and act: "active = (case prop_of input ''active'' of None \<Rightarrow> ro_active r | Some v \<Rightarrow> v = JBool True)"
    and s': "s' = s\<lparr>au_roles := update_first (\<lambda>q. ro_id q = k)
       (\<lambda>_. r\<lparr>ro_name := name, ro_description := desc, ro_active := active, ro_updatedAt := t\<rparr>) (au_roles s)\<rparr>"
    using assms(1) by (rule update_role_Inr)
  have act: "active \<Longrightarrow> ro_active r" using act assms(2) by (auto split: option.splits)
  have "granted s i p \<or> False"
  proof (rule granted_mono [OF assms(3)])
    fix q assume "has_active_role s' i q" "role_grants s' q p"
    then show "has_active_role s i q \<and> role_grants s q p \<or> False"
      using find_role_Inr [OF r] act by (fastforce simp: s' has_active_role_def role_grants_def dest: in_update_first)
  qed (auto simp: s')
  then show ?thesis by simp
qed

lemma delete_role_grants:
  assumes "delete_role k t s = Inr (res, s')" "granted s' i p" shows "granted s i p"
proof -
  have "granted s i p \<or> False"
    by (rule granted_mono [OF assms(2)]) (use assms(1) in \<open>auto elim!: delete_role_Inr simp: has_active_role_def role_grants_def\<close>)
  then show ?thesis by simp
qed

lemma delete_user_grants:
  assumes "delete_user k t s = Inr (res, s')" "granted s' i p" shows "granted s i p"
proof -
  have "granted s i p \<or> False"
    by (rule granted_mono [OF assms(2)])
      (use assms(1) in \<open>auto simp: delete_user_def try_eval_Inr_iff has_active_role_def role_grants_def\<close>)
  then show ?thesis by simp
qed

lemma revoke_user_sessions_grants:
  assumes "revoke_user_sessions k t s = Inr (res, s')" "granted s' i p" shows "granted s i p"
proof -
  have "granted s i p \<or> False"
    by (rule granted_mono [OF assms(2)])
      (use assms(1) in \<open>auto simp: revoke_user_sessions_def try_eval_Inr_iff has_active_role_def role_grants_def\<close>)
  then show ?thesis by simp
qed

lemma assign_roles_grants:
  assumes "assign_roles (compiled s) actor k vs t s = Inr (res, s')" "granted s' i p"
  shows "granted s i p \<or> granted s actor p"
proof (rule granted_mono [OF assms(2)])
  obtain a roleIds where a: "assertAssignableRoleIds (compiled s) actor s vs = Inr roleIds"
    and s': "s' = s\<lparr>au_nextAccountRoleId := au_nextAccountRoleId s + int (length roleIds),
       au_accountRoles := filter (\<lambda>x. ar_accountId x \<noteq> k) (au_accountRoles s) @ new_assignments (au_nextAccountRoleId s) k roleIds\<rparr>"
    using assms(1) by (rule assign_roles_Inr)
  fix r assume "has_active_role s' i r" "role_grants s' r p"
  then show "has_active_role s i r \<and> role_grants s r p \<or> granted s actor p"
    using assignable(1) [OF a, of r p] by (auto simp: s' has_active_role_def role_grants_def dest: new_assignments_role)
qed (use assms(1) in \<open>auto elim!: assign_roles_Inr\<close>)

lemma set_role_permissions_grants:
  assumes "set_role_permissions (compiled s) actor k vs t s = Inr (res, s')" "granted s' i p"
  shows "granted s i p \<or> granted s actor p"
proof (rule granted_mono [OF assms(2)])
  obtain r ids where r: "find_role s k ''Built-in role permissions cannot be modified.'' = Inr r"
    and d: "assertDelegatedPermissionIds (compiled s) actor ids = Inr ()"
    and s': "s' = s\<lparr>au_nextRolePermissionId := au_nextRolePermissionId s + int (length ids),
       au_rolePermissions := filter (\<lambda>x. rp_roleId x \<noteq> k) (au_rolePermissions s) @ new_relations (au_nextRolePermissionId s) k ids,
       au_roles := update_first (\<lambda>q. ro_id q = k) (\<lambda>_. r\<lparr>ro_updatedAt := t\<rparr>) (au_roles s)\<rparr>"
    using assms(1) by (rule set_role_permissions_Inr)
  fix q assume q: "has_active_role s' i q" "role_grants s' q p"
  have "has_active_role s i q"
    using q(1) find_role_Inr [OF r] by (fastforce simp: s' has_active_role_def dest: in_update_first)
  moreover have "role_grants s q p \<or> granted s actor p"
    using q(2) delegated [OF d] by (auto simp: s' role_grants_def dest: new_relations_permission)
  ultimately show "has_active_role s i q \<and> role_grants s q p \<or> granted s actor p" by blast
qed (use assms(1) in \<open>auto elim!: set_role_permissions_Inr\<close>)

lemma mutates_grants:
  assumes "mutates P (compiled s) now actor call s = Inr (res, s')" "store_ok P s" "\<not> reactivates call" "granted s' i p"
  shows "granted s i p \<or> granted s actor p"
  using assms(1,3,4)
  by (cases call)
    (auto simp: try_eval_Inr_iff split: option.splits dest: create_role_grants [OF _ assms(2)] update_user_grants update_role_grants
      delete_role_grants delete_user_grants revoke_user_sessions_grants assign_roles_grants set_role_permissions_grants)

end
