(* ===== verification/Auth_Sessions.thy ===== *)
theory Auth_Sessions
  imports Access_Safety
begin

text \<open>
  Sessions of the server, the class of \<open>server/auth/session-service.mjs\<close>.

  A session is found by the hash of its token; it ends when it is revoked, when it has been idle for too long, or at a fixed time after
  its creation.  The random bytes of a new token and the clock are arguments, instants are milliseconds, and an operation is one step that
  reads the clock once.  A cookie that is missing or empty is the empty token.
\<close>

section \<open>Definitions\<close>

definition IDLE_MS :: int where
  "IDLE_MS = 24 * 60 * 60 * 1000"

definition REMEMBERED_IDLE_MS :: int where
  "REMEMBERED_IDLE_MS = 7 * 24 * 60 * 60 * 1000"

definition ABSOLUTE_MS :: int where
  "ABSOLUTE_MS = 30 * 24 * 60 * 60 * 1000"

definition TOUCH_INTERVAL_MS :: int where
  "TOUCH_INTERVAL_MS = 5 * 60 * 1000"

definition hashOpaqueToken :: "platform \<Rightarrow> string \<Rightarrow> string" where
  "hashOpaqueToken P token = pf_sha256 P token"

text \<open>\<open>store.updateAuthentication\<close> with a mutator that changes the draft; \<open>failure\<close> is the error of its transaction.\<close>

definition write_sessions :: "platform \<Rightarrow> string option \<Rightarrow> (session list \<Rightarrow> session list) \<Rightarrow> access_service \<Rightarrow> (string + unit) \<times> access_service" where
  "write_sessions P failure f sv = updateAuthentication P failure ((ax_store sv)\<lparr>au_sessions := f (au_sessions (ax_store sv))\<rparr>) sv"

definition text_or_null :: "nat \<Rightarrow> jsv option \<Rightarrow> string option" where
  "text_or_null n v = (case v of Some (JStr t) \<Rightarrow> Some (take n t) | _ \<Rightarrow> None)"

definition new_session :: "platform \<Rightarrow> instant \<Rightarrow> int \<Rightarrow> jsv option \<Rightarrow> jsv option \<Rightarrow> jsv option \<Rightarrow> string \<Rightarrow> auth_store \<Rightarrow> session" where
  "new_session P now accountId remember userAgent ip token s =
     \<lparr>se_id = au_nextSessionId s, se_accountId = Some accountId, se_tokenHash = hashOpaqueToken P token, se_remember = (remember = Some (JBool True)),
      se_createdAt = now, se_lastSeenAt = now, se_idleExpiresAt = now + (if truthy remember then REMEMBERED_IDLE_MS else IDLE_MS),
      se_absoluteExpiresAt = now + ABSOLUTE_MS, se_userAgent = text_or_null 255 userAgent, se_ip = text_or_null 64 ip, se_revokedAt = None\<rparr>"

definition create_session :: "platform \<Rightarrow> string option \<Rightarrow> instant \<Rightarrow> int \<Rightarrow> jsv option \<Rightarrow> jsv option \<Rightarrow> jsv option \<Rightarrow> string \<Rightarrow> access_service
    \<Rightarrow> (string + string \<times> session) \<times> access_service" where
  "create_session P failure now accountId remember userAgent ip token sv =
     (let s = ax_store sv; x = new_session P now accountId remember userAgent ip token s in
      case updateAuthentication P failure (s\<lparr>au_nextSessionId := au_nextSessionId s + 1, au_sessions := au_sessions s @ [x]\<rparr>) sv of
        (Inl e, sv') \<Rightarrow> (Inl e, sv')
      | (Inr _, sv') \<Rightarrow> (Inr (token, x), sv'))"

definition revoke_where :: "(session \<Rightarrow> bool) \<Rightarrow> platform \<Rightarrow> string option \<Rightarrow> instant \<Rightarrow> access_service \<Rightarrow> (string + bool) \<times> access_service" where
  "revoke_where Q P failure now sv =
     (let found = (\<lambda>x. Q x \<and> se_revokedAt x = None) in
      case write_sessions P failure (update_first found (\<lambda>x. x\<lparr>se_revokedAt := Some now\<rparr>)) sv of
        (Inl e, sv') \<Rightarrow> (Inl e, sv')
      | (Inr _, sv') \<Rightarrow> (Inr (list_ex found (au_sessions (ax_store sv))), sv'))"

definition revoke :: "platform \<Rightarrow> string option \<Rightarrow> instant \<Rightarrow> string \<Rightarrow> access_service \<Rightarrow> (string + bool) \<times> access_service" where
  "revoke P failure now token sv =
     (if token = [] then (Inr False, sv) else revoke_where (\<lambda>x. se_tokenHash x = hashOpaqueToken P token) P failure now sv)"

definition revokeById :: "platform \<Rightarrow> string option \<Rightarrow> instant \<Rightarrow> int \<Rightarrow> int \<Rightarrow> access_service \<Rightarrow> (string + bool) \<times> access_service" where
  "revokeById P failure now i accountId = revoke_where (\<lambda>x. se_id x = i \<and> se_accountId x = Some accountId) P failure now"

definition revokeAllForAccount :: "platform \<Rightarrow> string option \<Rightarrow> instant \<Rightarrow> int \<Rightarrow> int option \<Rightarrow> access_service \<Rightarrow> (string + unit) \<times> access_service" where
  "revokeAllForAccount P failure now accountId exceptSessionId =
     write_sessions P failure (map (\<lambda>x. if se_accountId x = Some accountId \<and> Some (se_id x) \<noteq> exceptSessionId \<and> se_revokedAt x = None
       then x\<lparr>se_revokedAt := Some now\<rparr> else x))"

text \<open>The session of a request was seen: it may stay idle from now on, but not beyond its absolute end.\<close>

definition touch :: "instant \<Rightarrow> session \<Rightarrow> session" where
  "touch now x = (if se_revokedAt x \<noteq> None then x
     else x\<lparr>se_lastSeenAt := now,
            se_idleExpiresAt := min (now + (if se_remember x then REMEMBERED_IDLE_MS else IDLE_MS)) (se_absoluteExpiresAt x)\<rparr>)"

definition authenticateToken :: "platform \<Rightarrow> string option \<Rightarrow> instant \<Rightarrow> string \<Rightarrow> access_service
    \<Rightarrow> (string + (account \<times> session) option) \<times> access_service" where
  "authenticateToken P failure now token sv =
     (if token = [] then (Inr None, sv)
      else case List.find (\<lambda>x. se_tokenHash x = hashOpaqueToken P token) (au_sessions (ax_store sv)) of
        None \<Rightarrow> (Inr None, sv)
      | Some x \<Rightarrow>
          if se_revokedAt x \<noteq> None then (Inr None, sv)
          else if se_idleExpiresAt x \<le> now \<or> se_absoluteExpiresAt x \<le> now then
            (case revoke P failure now token sv of (Inl e, sv') \<Rightarrow> (Inl e, sv') | (Inr _, sv') \<Rightarrow> (Inr None, sv'))
          else (case List.find (\<lambda>a. Some (ac_id a) = se_accountId x \<and> ac_active a) (au_accounts (ax_store sv)) of
            None \<Rightarrow> (Inr None, sv)
          | Some a \<Rightarrow>
              if TOUCH_INTERVAL_MS \<le> now - se_lastSeenAt x then
                (case write_sessions P failure (update_first (\<lambda>y. se_id y = se_id x) (touch now)) sv of
                   (Inl e, sv') \<Rightarrow> (Inl e, sv')
                 | (Inr _, sv') \<Rightarrow> (Inr (Some (a, x)), sv'))
              else (Inr (Some (a, x)), sv)))"

section \<open>The operations write sessions only\<close>

text \<open>Every operation either leaves the service as it is or writes a new list of sessions that passes the check.\<close>

inductive writes :: "platform \<Rightarrow> access_service \<Rightarrow> (int \<times> session list) \<Rightarrow> access_service \<Rightarrow> bool" for P sv where
  written: "assertAuthenticationStoreShape P ((ax_store sv)\<lparr>au_nextSessionId := n, au_sessions := xs\<rparr>) = Inr () \<Longrightarrow>
    writes P sv (n, xs) (sv\<lparr>ax_store := (ax_store sv)\<lparr>au_nextSessionId := n, au_sessions := xs\<rparr>\<rparr>)"

inductive_simps writes_iff: "writes P sv nxs sv'"

lemma updateAuthentication_cases:
  obtains (failed) e where "updateAuthentication P failure s sv = (Inl e, sv)"
  | (passed) "updateAuthentication P failure s sv = (Inr (), sv\<lparr>ax_store := s\<rparr>)" "assertAuthenticationStoreShape P s = Inr ()"
  by (cases "assertAuthenticationStoreShape P s"; cases failure) (auto simp: updateAuthentication_def)

lemma write_sessions_cases:
  obtains (failed) e where "write_sessions P failure f sv = (Inl e, sv)"
  | (passed) sv' where "write_sessions P failure f sv = (Inr (), sv')"
      "writes P sv (au_nextSessionId (ax_store sv), f (au_sessions (ax_store sv))) sv'"
proof (cases rule: updateAuthentication_cases [of P failure "(ax_store sv)\<lparr>au_sessions := f (au_sessions (ax_store sv))\<rparr>" sv])
  case (failed e)
  then show ?thesis using that(1) by (simp add: write_sessions_def)
next
  case passed
  have eq: "(ax_store sv)\<lparr>au_sessions := f (au_sessions (ax_store sv))\<rparr> =
      (ax_store sv)\<lparr>au_nextSessionId := au_nextSessionId (ax_store sv), au_sessions := f (au_sessions (ax_store sv))\<rparr>" by simp
  show ?thesis
    using passed unfolding eq by (intro that(2) [OF _ written]) (simp_all only: write_sessions_def eq)
qed

text \<open>Rules do not read sessions.\<close>

lemma compile_sessions: "compile E (s\<lparr>au_nextSessionId := n, au_sessions := xs\<rparr>) = compile E s"
  by (simp add: compile_def grouping_rules_def role_policies_def owner_policies_def)

lemma writes_in_step: "writes P sv nxs sv' \<Longrightarrow> in_step E P sv \<Longrightarrow> in_step E P sv'"
  by (auto simp: writes_iff in_step_def compile_sessions)

lemma writes_sessions: "writes P sv (n, xs) sv' \<Longrightarrow> au_sessions (ax_store sv') = xs"
  by (auto simp: writes_iff)

lemma create_session_cases:
  obtains (failed) e where "create_session P failure now i remember ua ip token sv = (Inl e, sv)"
  | (passed) sv' where "create_session P failure now i remember ua ip token sv = (Inr (token, new_session P now i remember ua ip token (ax_store sv)), sv')"
      "writes P sv (au_nextSessionId (ax_store sv) + 1, au_sessions (ax_store sv) @ [new_session P now i remember ua ip token (ax_store sv)]) sv'"
  by (cases rule: updateAuthentication_cases [of P failure "(ax_store sv)\<lparr>au_nextSessionId := au_nextSessionId (ax_store sv) + 1,
        au_sessions := au_sessions (ax_store sv) @ [new_session P now i remember ua ip token (ax_store sv)]\<rparr>" sv])
    (auto simp: create_session_def Let_def writes_iff intro: that)

lemma revoke_where_cases:
  obtains (failed) e where "revoke_where Q P failure now sv = (Inl e, sv)"
  | (passed) b sv' where "revoke_where Q P failure now sv = (Inr b, sv')"
      "writes P sv (au_nextSessionId (ax_store sv),
         update_first (\<lambda>x. Q x \<and> se_revokedAt x = None) (\<lambda>x. x\<lparr>se_revokedAt := Some now\<rparr>) (au_sessions (ax_store sv))) sv'"
  by (cases rule: write_sessions_cases [of P failure "update_first (\<lambda>x. Q x \<and> se_revokedAt x = None) (\<lambda>x. x\<lparr>se_revokedAt := Some now\<rparr>)" sv])
    (auto simp: revoke_where_def intro: that)

end
