(* ===== verification/Invitations.thy ===== *)
theory Invitations
  imports Auth_Sessions
begin

text \<open>
  Invitations, the class of \<open>server/auth/invitation-service.mjs\<close>, and the passwords and names of \<open>server/auth/passwords.mjs\<close>.

  An invitation names an email address and roles; who has its token makes an account with these roles of it, with a password or with an
  identity of OpenID Connect.  The operations are mutations of \<open>Access_Service\<close>; tokens and the clock are arguments as in \<open>Auth_Sessions\<close>, and
  the claims of an identity are a \<open>jsv\<close> value.
\<close>

section \<open>Definitions\<close>

subsection \<open>Passwords and names\<close>

definition COMMON_PASSWORDS :: "string list" where
  "COMMON_PASSWORDS = [''123456789012'', ''administrator'', ''changemeplease'', ''homelabinventory'', ''letmeinplease'', ''password1234'',
     ''password12345'', ''qwerty123456'', ''welcome12345'']"

definition assertPasswordPolicy :: "platform \<Rightarrow> jsv option \<Rightarrow> string + string" where
  "assertPasswordPolicy P password = (let normalized = pf_nfkc P (text_of password) in
     if length normalized < 12 then Inl ''Password must contain at least 12 characters.''
     else if length normalized > 512 then Inl ''Password must contain no more than 512 characters.''
     else if js_lower normalized \<in> set COMMON_PASSWORDS then Inl ''Choose a password that is not commonly used.''
     else Inr normalized)"

definition hashPassword :: "platform \<Rightarrow> jsv option \<Rightarrow> string + string" where
  "hashPassword P password = try_eval (assertPasswordPolicy P password) (\<lambda>t. Inr (pf_passwordHash P t))"

definition normalizeUsername :: "platform \<Rightarrow> jsv option \<Rightarrow> string + string" where
  "normalizeUsername P v = (let username = js_lower (js_trim (pf_nfkc P (text_of v))) in
     if username_ok username then Inr username
     else Inl ''Username must be 3-64 characters using letters, numbers, dots, underscores, or hyphens.'')"

definition normalizeEmail :: "platform \<Rightarrow> jsv option \<Rightarrow> string + string" where
  "normalizeEmail P v = (let email = js_lower (js_trim (pf_nfkc P (text_of v))) in
     if \<not> email_ok email \<or> 254 < length email then Inl ''Email address is invalid.'' else Inr email)"

definition cleanDisplayName :: "platform \<Rightarrow> jsv option \<Rightarrow> string + string" where
  "cleanDisplayName P v = (let name = js_trim (pf_nfkc P (text_of v)) in
     if name = [] \<or> 100 < length name then Inl ''Display name must contain 1-100 characters.'' else Inr name)"

text \<open>\<open>v || w\<close>.\<close>

definition truthy_or :: "jsv option \<Rightarrow> jsv option \<Rightarrow> jsv option" where
  "truthy_or v w = (if truthy v then v else w)"

definition username_taken :: "auth_store \<Rightarrow> string \<Rightarrow> bool" where
  "username_taken s u = list_ex (\<lambda>a. ac_username a = u) (au_accounts s)"

function next_username :: "auth_store \<Rightarrow> string \<Rightarrow> nat \<Rightarrow> string + string" where
  "next_username s base suffix =
     (if suffix < 10000 then
        (let candidate = take (max 3 (63 - length (show_nat suffix))) base @ ''-'' @ show_nat suffix in
         if \<not> username_taken s candidate then Inr candidate else next_username s base (suffix + 1))
      else Inl ''Unable to allocate a unique username.'')"
  by pat_completeness auto
termination by (relation "measure (\<lambda>(s, base, suffix). 10000 - suffix)") auto

declare next_username.simps [simp del]

definition uniqueUsername :: "platform \<Rightarrow> auth_store \<Rightarrow> jsv option \<Rightarrow> string \<Rightarrow> string + string" where
  "uniqueUsername P s preferred email =
     (let source = truthy_or preferred (Some (JStr (hd (js_split (CHR ''@'') email))));
          base = (case normalizeUsername P source of Inl _ \<Rightarrow> ''user'' | Inr u \<Rightarrow> u) in
      if \<not> username_taken s base then Inr base else next_username s base 2)"

subsection \<open>Invitations\<close>

definition INVITATION_LIFETIME_MS :: int where
  "INVITATION_LIFETIME_MS = 24 * 60 * 60 * 1000"

record public_invitation =
  pi_id :: int
  pi_email :: string
  pi_identityType :: string
  pi_roleIds :: "int list"
  pi_status :: string
  pi_createdByAccountId :: int
  pi_accountId :: "int option"
  pi_createdAt :: instant
  pi_expiresAt :: instant
  pi_acceptedAt :: "instant option"
  pi_revokedAt :: "instant option"

definition publicInvitation :: "invitation \<Rightarrow> public_invitation" where
  "publicInvitation x = \<lparr>pi_id = in_id x, pi_email = in_email x, pi_identityType = in_identityType x, pi_roleIds = in_roleIds x,
     pi_status = in_status x, pi_createdByAccountId = in_createdByAccountId x, pi_accountId = in_accountId x, pi_createdAt = in_createdAt x,
     pi_expiresAt = in_expiresAt x, pi_acceptedAt = in_acceptedAt x, pi_revokedAt = in_revokedAt x\<rparr>"

definition listInvitations :: "instant \<Rightarrow> auth_store \<Rightarrow> public_invitation list" where
  "listInvitations now s = map (\<lambda>x. (publicInvitation x)\<lparr>pi_status :=
     (if in_status x = ''pending'' \<and> in_expiresAt x \<le> now then ''expired'' else in_status x)\<rparr>) (au_invitations s)"

definition activeRoleIds :: "auth_store \<Rightarrow> jsv option \<Rightarrow> string + int list" where
  "activeRoleIds s v =
     (if \<not> is_array v \<or> array_of v = [] then Inl ''Select at least one role.''
      else let numbers = js_uniq (map (\<lambda>x. js_Number (Some x)) (array_of v)) in
        if list_ex (\<lambda>n. case n of None \<Rightarrow> True | Some r \<Rightarrow> \<not> (isSafeInteger_rat r \<and> 0 < r)) numbers then Inl ''Role IDs are invalid.''
        else let ids = map (\<lambda>n. \<lfloor>the n\<rfloor>) numbers in
          try_eval (checks (map (\<lambda>i. check (list_ex (\<lambda>r. ro_id r = i \<and> ro_active r) (au_roles s)) (''Role '' @ show_int i @ '' is unavailable.'')) ids))
            (\<lambda>_. Inr (sort ids)))"

definition findPendingByToken :: "platform \<Rightarrow> auth_store \<Rightarrow> string \<Rightarrow> instant \<Rightarrow> string + invitation" where
  "findPendingByToken P s token now =
     (case List.find (\<lambda>x. in_tokenHash x = hashOpaqueToken P token) (au_invitations s) of
        None \<Rightarrow> Inl ''Invitation is invalid or no longer available.''
      | Some x \<Rightarrow> if in_status x \<noteq> ''pending'' \<or> in_revokedAt x \<noteq> None then Inl ''Invitation is invalid or no longer available.''
          else if in_expiresAt x \<le> now then Inl ''Invitation has expired.'' else Inr x)"

definition inspect :: "platform \<Rightarrow> string \<Rightarrow> instant \<Rightarrow> auth_store \<Rightarrow> string + public_invitation" where
  "inspect P token now s = map_sum id publicInvitation (findPendingByToken P s token now)"

text \<open>\<open>assertAssignableRoleIds(actorId, draft, activeRoleIds(draft, roleIds))\<close>.\<close>

definition invited_roles :: "authorization \<Rightarrow> int \<Rightarrow> auth_store \<Rightarrow> jsv option \<Rightarrow> string + int list" where
  "invited_roles az actorId s v = try_eval (activeRoleIds s v) (\<lambda>ids. assertAssignableRoleIds az actorId s (number_array ids))"

definition create_invitation :: "platform \<Rightarrow> authorization \<Rightarrow> int \<Rightarrow> string \<Rightarrow> string \<Rightarrow> jsv option \<Rightarrow> string \<Rightarrow> instant \<Rightarrow> auth_store
    \<Rightarrow> string + public_invitation \<times> auth_store" where
  "create_invitation P az actorId email identityType roleIds token now s =
     (if list_ex (\<lambda>a. ac_email a = Some email) (au_accounts s) then Inl ''An account already uses this email address.''
      else if list_ex (\<lambda>x. in_email x = email \<and> in_status x = ''pending'' \<and> now < in_expiresAt x) (au_invitations s)
      then Inl ''A pending invitation already exists for this email address.''
      else try_eval (invited_roles az actorId s roleIds) (\<lambda>ids.
        let x = \<lparr>in_id = au_nextInvitationId s, in_email = email, in_identityType = identityType, in_roleIds = ids,
              in_tokenHash = hashOpaqueToken P token, in_status = ''pending'', in_createdByAccountId = actorId, in_accountId = None,
              in_createdAt = now, in_expiresAt = now + INVITATION_LIFETIME_MS, in_acceptedAt = None, in_revokedAt = None\<rparr>
        in Inr (publicInvitation x, s\<lparr>au_nextInvitationId := au_nextInvitationId s + 1, au_invitations := au_invitations s @ [x]\<rparr>)))"

definition createInvitation :: "engine \<Rightarrow> platform \<Rightarrow> io \<Rightarrow> instant \<Rightarrow> int \<Rightarrow> jsv \<Rightarrow> string \<Rightarrow> access_service
    \<Rightarrow> (string + public_invitation) \<times> access_service" where
  "createInvitation E P d now actorId input token sv =
     (case normalizeEmail P (prop_of input ''email'') of Inl e \<Rightarrow> (Inl e, sv) | Inr email \<Rightarrow>
        (case prop_of input ''identityType'' of
           Some (JStr t) \<Rightarrow>
             if t \<in> {''local'', ''oidc''} then
               performMutation E P d (Some actorId) ''invitation-created'' (Some (JStr email)) now
                 (create_invitation P (ax_authorization sv) actorId email t (prop_of input ''roleIds'') token now) sv
             else (Inl ''Invitation login method must be local or OIDC.'', sv)
         | _ \<Rightarrow> (Inl ''Invitation login method must be local or OIDC.'', sv)))"

definition resend_invitation :: "platform \<Rightarrow> authorization \<Rightarrow> int \<Rightarrow> int \<Rightarrow> string \<Rightarrow> instant \<Rightarrow> auth_store
    \<Rightarrow> string + public_invitation \<times> auth_store" where
  "resend_invitation P az actorId i token now s =
     (case List.find (\<lambda>x. in_id x = i) (au_invitations s) of
        None \<Rightarrow> Inl ''Invitation cannot be resent.''
      | Some x \<Rightarrow> if in_status x \<notin> {''pending'', ''expired''} then Inl ''Invitation cannot be resent.''
          else try_eval (invited_roles az actorId s (number_array (in_roleIds x))) (\<lambda>ids.
            let x' = x\<lparr>in_roleIds := ids, in_tokenHash := hashOpaqueToken P token, in_status := ''pending'', in_createdAt := now,
                  in_expiresAt := now + INVITATION_LIFETIME_MS, in_revokedAt := None\<rparr>
            in Inr (publicInvitation x', s\<lparr>au_invitations := update_first (\<lambda>x. in_id x = i) (\<lambda>_. x') (au_invitations s)\<rparr>)))"

definition resendInvitation :: "engine \<Rightarrow> platform \<Rightarrow> io \<Rightarrow> instant \<Rightarrow> int \<Rightarrow> jsv option \<Rightarrow> string \<Rightarrow> access_service
    \<Rightarrow> (string + public_invitation) \<times> access_service" where
  "resendInvitation E P d now actorId v token sv =
     (case positiveId v ''Invitation ID'' of Inl e \<Rightarrow> (Inl e, sv) | Inr i \<Rightarrow>
        performMutation E P d (Some actorId) ''invitation-resent'' (Some (JNum (of_int i))) now
          (resend_invitation P (ax_authorization sv) actorId i token now) sv)"

definition revoke_invitation :: "int \<Rightarrow> instant \<Rightarrow> auth_store \<Rightarrow> string + int \<times> auth_store" where
  "revoke_invitation i now s =
     (case List.find (\<lambda>x. in_id x = i) (au_invitations s) of
        None \<Rightarrow> Inl ''Invitation is not pending.''
      | Some x \<Rightarrow> if in_status x \<noteq> ''pending'' then Inl ''Invitation is not pending.''
          else Inr (i, s\<lparr>au_invitations :=
            update_first (\<lambda>x. in_id x = i) (\<lambda>x. x\<lparr>in_status := ''revoked'', in_revokedAt := Some now\<rparr>) (au_invitations s)\<rparr>))"

definition revokeInvitation :: "engine \<Rightarrow> platform \<Rightarrow> io \<Rightarrow> instant \<Rightarrow> int \<Rightarrow> jsv option \<Rightarrow> access_service \<Rightarrow> (string + int) \<times> access_service" where
  "revokeInvitation E P d now actorId v sv =
     (case positiveId v ''Invitation ID'' of Inl e \<Rightarrow> (Inl e, sv) | Inr i \<Rightarrow>
        performMutation E P d (Some actorId) ''invitation-revoked'' (Some (JNum (of_int i))) now (revoke_invitation i now) sv)"

subsection \<open>Activation\<close>

definition new_account :: "int \<Rightarrow> string \<Rightarrow> string \<Rightarrow> string \<Rightarrow> instant \<Rightarrow> account" where
  "new_account i username email displayName now = \<lparr>ac_id = i, ac_username = username, ac_email = Some email, ac_displayName = displayName,
     ac_protectedOwner = False, ac_active = True, ac_createdAt = Some now, ac_updatedAt = Some now\<rparr>"

text \<open>The roles of the invitation for the new account, and the invitation accepted.\<close>

definition accepted :: "int \<Rightarrow> instant \<Rightarrow> invitation \<Rightarrow> invitation" where
  "accepted i now x = x\<lparr>in_accountId := Some i, in_status := ''accepted'', in_acceptedAt := Some now\<rparr>"

definition accept_invitation :: "int \<Rightarrow> instant \<Rightarrow> invitation \<Rightarrow> (invitation \<Rightarrow> bool) \<Rightarrow> auth_store \<Rightarrow> string + int \<times> auth_store" where
  "accept_invitation i now current Q s =
     try_eval (activeRoleIds s (number_array (in_roleIds current))) (\<lambda>ids.
       let s' = fold (add_account_role i) ids s
       in Inr (i, s'\<lparr>au_invitations := update_first Q (accepted i now) (au_invitations s')\<rparr>))"

definition accept_local :: "platform \<Rightarrow> string \<Rightarrow> jsv \<Rightarrow> string \<Rightarrow> string \<Rightarrow> instant \<Rightarrow> auth_store \<Rightarrow> string + int \<times> auth_store" where
  "accept_local P token input passwordHash displayName now s =
     try_eval (findPendingByToken P s token now) (\<lambda>current.
     if list_ex (\<lambda>a. ac_email a = Some (in_email current)) (au_accounts s)
     then Inl ''An account already uses this email address. Sign in and link the other login method instead.''
     else try_eval (uniqueUsername P s (prop_of input ''username'') (in_email current)) (\<lambda>username.
       let i = au_nextAccountId s;
           credential = \<lparr>lc_id = au_nextLocalCredentialId s, lc_accountId = i, lc_passwordHash = passwordHash, lc_createdAt = Some now, lc_updatedAt = Some now\<rparr>
       in accept_invitation i now current (\<lambda>x. in_tokenHash x = hashOpaqueToken P token)
            (s\<lparr>au_nextAccountId := i + 1, au_accounts := au_accounts s @ [new_account i username (in_email current) displayName now],
               au_nextLocalCredentialId := au_nextLocalCredentialId s + 1, au_localCredentials := au_localCredentials s @ [credential]\<rparr>)))"

text \<open>The session that follows is written in a transaction of its own, whose error is \<open>failure\<close>.\<close>

definition activateLocal :: "engine \<Rightarrow> platform \<Rightarrow> io \<Rightarrow> string option \<Rightarrow> instant \<Rightarrow> string \<Rightarrow> jsv \<Rightarrow> jsv option \<Rightarrow> jsv option \<Rightarrow> string \<Rightarrow> access_service
    \<Rightarrow> (string + string \<times> session) \<times> access_service" where
  "activateLocal E P d failure now token input userAgent ip sessionToken sv =
     (case try_eval (findPendingByToken P (ax_store sv) token now) (\<lambda>x.
             if in_identityType x \<noteq> ''local'' then Inl ''This invitation requires OIDC login.''
             else try_eval (hashPassword P (prop_of input ''password'')) (\<lambda>h.
               try_eval (cleanDisplayName P (prop_of input ''displayName'')) (\<lambda>name. Inr (x, h, name)))) of
        Inl e \<Rightarrow> (Inl e, sv)
      | Inr (x, h, name) \<Rightarrow>
          (case performMutation E P d None ''invitation-accepted-local'' (Some (JStr (in_email x))) now (accept_local P token input h name now) sv of
             (Inl e, sv') \<Rightarrow> (Inl e, sv')
           | (Inr i, sv') \<Rightarrow> create_session P failure now i (Some (JBool (prop_of input ''remember'' = Some (JBool True)))) userAgent ip sessionToken sv'))"

definition accept_oidc :: "platform \<Rightarrow> int \<Rightarrow> int \<Rightarrow> jsv \<Rightarrow> string \<Rightarrow> string \<Rightarrow> instant \<Rightarrow> auth_store \<Rightarrow> string + int \<times> auth_store" where
  "accept_oidc P invitationId transactionId cl issuer subject now s =
     (case List.find (\<lambda>x. in_id x = invitationId) (au_invitations s) of
        None \<Rightarrow> Inl ''Invitation is invalid or expired.''
      | Some current \<Rightarrow>
          if in_status current \<noteq> ''pending'' \<or> in_expiresAt current \<le> now then Inl ''Invitation is invalid or expired.''
          else (case List.find (\<lambda>x. ot_id x = transactionId) (au_oidcTransactions s) of
             None \<Rightarrow> Inl ''OIDC login transaction was already used.''
           | Some transaction \<Rightarrow>
               if ot_usedAt transaction \<noteq> None then Inl ''OIDC login transaction was already used.''
               else if list_ex (\<lambda>a. ac_email a = Some (in_email current)) (au_accounts s)
               then Inl ''An account already uses this email address. Sign in and link the OIDC identity instead.''
               else if list_ex (\<lambda>y. oi_issuer y = Some issuer \<and> oi_subject y = subject) (au_oidcIdentities s)
               then Inl ''OIDC identity is already linked.''
               else try_eval (cleanDisplayName P (truthy_or (truthy_or (prop_of cl ''name'') (prop_of cl ''preferred_username'')) (Some (JStr (in_email current))))) (\<lambda>name.
                 try_eval (uniqueUsername P s (prop_of cl ''preferred_username'') (in_email current)) (\<lambda>username.
                   let i = au_nextAccountId s;
                       identity = \<lparr>oi_id = au_nextOidcIdentityId s, oi_accountId = i, oi_issuer = Some issuer, oi_subject = subject,
                         oi_email = Some (in_email current), oi_displayName = Some name, oi_createdAt = Some now, oi_lastLoginAt = Some now\<rparr>
                   in accept_invitation i now current (\<lambda>x. in_id x = invitationId)
                        (s\<lparr>au_oidcTransactions := update_first (\<lambda>x. ot_id x = transactionId) (\<lambda>x. x\<lparr>ot_usedAt := Some now\<rparr>) (au_oidcTransactions s),
                           au_nextAccountId := i + 1, au_accounts := au_accounts s @ [new_account i username (in_email current) name now],
                           au_nextOidcIdentityId := au_nextOidcIdentityId s + 1, au_oidcIdentities := au_oidcIdentities s @ [identity]\<rparr>)))))"

definition activateOidc :: "engine \<Rightarrow> platform \<Rightarrow> io \<Rightarrow> instant \<Rightarrow> int \<Rightarrow> int \<Rightarrow> jsv \<Rightarrow> string \<Rightarrow> string \<Rightarrow> access_service
    \<Rightarrow> (string + int) \<times> access_service" where
  "activateOidc E P d now invitationId transactionId cl issuer subject sv =
     (case List.find (\<lambda>x. in_id x = invitationId) (au_invitations (ax_store sv)) of
        None \<Rightarrow> (Inl ''Invitation is invalid or expired.'', sv)
      | Some x \<Rightarrow>
          if in_status x \<noteq> ''pending'' \<or> in_expiresAt x \<le> now then (Inl ''Invitation is invalid or expired.'', sv)
          else if in_identityType x \<noteq> ''oidc'' then (Inl ''This invitation requires local account activation.'', sv)
          else if prop_of cl ''email_verified'' \<noteq> Some (JBool True)
          then (Inl ''OIDC returned an unverified or different email address.'', sv)
          else (case normalizeEmail P (prop_of cl ''email'') of
             Inl e \<Rightarrow> (Inl e, sv)
           | Inr email \<Rightarrow>
               if email \<noteq> in_email x then (Inl ''OIDC returned an unverified or different email address.'', sv)
               else performMutation E P d None ''invitation-accepted-oidc'' (Some (JStr (in_email x))) now
                 (accept_oidc P invitationId transactionId cl issuer subject now) sv))"

end
