(* ===== verification/Sample_Auth.thy ===== *)
theory Sample_Auth
  imports Access_Safety
begin

text \<open>
  A new authentication store passes its check, and a small store with an owner, a manager and an operator, on which the properties of
  the administration are exercised.
\<close>

section \<open>The store of a new installation\<close>

definition built_in_pairs :: "(int \<times> int) list" where
  "built_in_pairs = concat (map (\<lambda>r. map (Pair (bi_id r)) (bi_permissionIds r)) BUILT_IN_ROLE_DEFINITIONS)"

lemma built_in_roles:
  assumes "r \<in> set BUILT_IN_ROLE_DEFINITIONS"
  shows "bi_id r \<in> {1, 2, 3, 4}" "distinct (bi_permissionIds r)" "p \<in> set (bi_permissionIds r) \<Longrightarrow> known_permission p"
  using assms distinct_permission_ids
  by (auto simp: BUILT_IN_ROLE_DEFINITIONS_def READ_PERMISSIONS_def known_permission_iff distinct_map_filter_neq
      simp del: insert_iff intro: distinct_map_filter)

lemma built_in_pairs_facts:
  "distinct built_in_pairs" "\<And>r p. (r, p) \<in> set built_in_pairs \<Longrightarrow> r \<in> {1, 2, 3, 4} \<and> known_permission p"
proof -
  have "distinct (concat (map (\<lambda>r. map (Pair (bi_id r)) (bi_permissionIds r)) rs))"
    if "distinct (map bi_id rs)" "\<forall>r \<in> set rs. distinct (bi_permissionIds r)" for rs
    using that by (induction rs) (auto simp: distinct_map inj_on_def image_iff)
  moreover have "distinct (map bi_id BUILT_IN_ROLE_DEFINITIONS)" by (simp add: BUILT_IN_ROLE_DEFINITIONS_def)
  ultimately show "distinct built_in_pairs" unfolding built_in_pairs_def using built_in_roles(2) by blast
  show "(r, p) \<in> set built_in_pairs \<Longrightarrow> r \<in> {1, 2, 3, 4} \<and> known_permission p" for r p
    using built_in_roles(1,3) by (auto simp: built_in_pairs_def simp del: insert_iff)
qed

lemma built_in_count: "length built_in_pairs = 113"
  by code_simp

definition built_in_role_records :: "instant \<Rightarrow> role list" where
  "built_in_role_records now = map (\<lambda>r. \<lparr>ro_id = bi_id r, ro_key = bi_key r, ro_name = bi_name r, ro_description = bi_description r,
     ro_builtIn = True, ro_active = True, ro_createdAt = now, ro_updatedAt = now\<rparr>) BUILT_IN_ROLE_DEFINITIONS"

definition built_in_relations :: "role_permission list" where
  "built_in_relations = map (\<lambda>(n, r, p). \<lparr>rp_id = int n, rp_roleId = r, rp_permissionId = p\<rparr>) (enumerate 1 built_in_pairs)"

lemma createBuiltIn_split:
  "createBuiltInAuthorizationRecords now = (built_in_role_records now, built_in_relations, 5, 114)"
  using built_in_count
  by (simp add: createBuiltInAuthorizationRecords_def built_in_role_records_def built_in_relations_def built_in_pairs_def)

lemma built_in_relations_facts:
  "map rp_id built_in_relations = map int [1..<114]"
  "map (\<lambda>x. (rp_roleId x, rp_permissionId x)) built_in_relations = built_in_pairs"
proof -
  have "map rp_id (map (\<lambda>(n, r, p). \<lparr>rp_id = int n, rp_roleId = r, rp_permissionId = p\<rparr>) es) = map int (map fst es)" for es
    by (induction es) auto
  then have "map rp_id built_in_relations = map int (map fst (enumerate 1 built_in_pairs))"
    unfolding built_in_relations_def by blast
  also have "map fst (enumerate 1 built_in_pairs) = [1..<1 + length built_in_pairs]" by (simp only: map_fst_enumerate)
  also have "1 + length built_in_pairs = 114" using built_in_count by simp
  finally show "map rp_id built_in_relations = map int [1..<114]" .
  have "map (\<lambda>x. (rp_roleId x, rp_permissionId x)) built_in_relations = map snd (enumerate 1 built_in_pairs)"
    unfolding built_in_relations_def map_map by (rule map_cong) auto
  then show "map (\<lambda>x. (rp_roleId x, rp_permissionId x)) built_in_relations = built_in_pairs" by simp
qed

lemma safe_upto: "0 < i \<Longrightarrow> i \<le> 1000000 \<Longrightarrow> isPositiveSafeInteger i"
  by (simp add: isPositiveSafeInteger_def isSafeInteger_def MAX_SAFE_INTEGER_def)

lemma built_in_relation_ok:
  assumes "{1, 2, 3, 4} \<subseteq> set R" "x \<in> set built_in_relations" shows "relation_ok R x"
proof -
  have "(rp_roleId x, rp_permissionId x) \<in> set built_in_pairs"
    using assms(2) by (auto simp: built_in_relations_facts(2) [symmetric] simp del: set_map) (auto simp: image_iff)
  then have "rp_roleId x \<in> {1, 2, 3, 4}" "known_permission (rp_permissionId x)" using built_in_pairs_facts(2) by blast+
  with assms(1) show ?thesis by (auto simp: relation_ok_def known_permission_safe safe_upto)
qed

lemma built_in_role_ids: "map ro_id (built_in_role_records now) = [1, 2, 3, 4]"
  by (simp add: built_in_role_records_def BUILT_IN_ROLE_DEFINITIONS_def)

lemma built_in_role_keys: "map ro_key (built_in_role_records now) = [''owner'', ''administrator'', ''editor'', ''viewer'']"
  by (simp add: built_in_role_records_def BUILT_IN_ROLE_DEFINITIONS_def)

lemma built_in_role_ok: "r \<in> set (built_in_role_records now) \<Longrightarrow> role_ok r"
  by (auto simp: built_in_role_records_def BUILT_IN_ROLE_DEFINITIONS_def role_ok_def lower_letter_def is_digit_def)

lemma built_ins_present: "built_ins_ok (built_in_role_records now @ rs)"
  by (simp add: built_ins_ok_def built_in_role_records_def BUILT_IN_ROLE_DEFINITIONS_def)

lemma owner_role_first: "List.find (\<lambda>r. ro_key r = ''owner'') (built_in_role_records now @ rs) = Some (hd (built_in_role_records now))"
  "ro_id (hd (built_in_role_records now)) = 1"
  by (simp_all add: built_in_role_records_def BUILT_IN_ROLE_DEFINITIONS_def)

lemma relation_table:
  assumes "map rp_id xs = map int [114..<n]" "114 \<le> n" "n \<le> 1000"
  shows "table_ok (map rp_id (built_in_relations @ xs)) (int n)"
proof -
  have "map rp_id (built_in_relations @ xs) = map int [1..<n]"
    using assms upt_add_eq_append [of 1 114 "n - 114"] by (simp add: built_in_relations_facts(1))
  then show ?thesis using assms(2,3) by (auto simp: table_ok_def distinct_map safe_upto)
qed

lemma new_store_ok: "store_ok P (createAuthenticationStore now b)"
proof -
  have relations: "\<forall>x \<in> set built_in_relations. relation_ok [1, 2, 3, 4] x" using built_in_relation_ok by simp
  have table: "table_ok (map rp_id built_in_relations) 114" using relation_table [of "[]" 114] by simp
  have pairs: "distinct (map (\<lambda>x. (rp_roleId x, rp_permissionId x)) built_in_relations)"
    unfolding built_in_relations_facts(2) by (rule built_in_pairs_facts)
  have roles: "\<forall>r \<in> set (built_in_role_records now). role_ok r" using built_in_role_ok by blast
  have built: "built_ins_ok (built_in_role_records now)" using built_ins_present [of now "[]"] by simp
  show ?thesis
    unfolding store_ok_def id_tables_def createAuthenticationStore_def createBuiltIn_split prod.case auth_store.simps Let_def
      built_in_role_ids built_in_role_keys
    using relations table pairs roles built
    by (simp add: table_ok_def safe_upto accounts_ok_def credentials_ok_def owners_ok_def owner_role_held_def pending_emails_def
        configuration_ok_def url_ok_def scope_ok_def lower_letter_def AUTH_STORE_VERSION_def List.map_filter_simps)
qed

section \<open>The sample\<close>

text \<open>The owner, a manager (who may administrate roles and users, and has the switched-off role \<open>restorers\<close>) and an operator who logged in.\<close>

definition sample_accounts :: "account list" where
  "sample_accounts =
     [createOwnerAccount 1 ''owner'' ''Owner'' 0,
      \<lparr>ac_id = 2, ac_username = ''manager'', ac_email = None, ac_displayName = ''Manager'', ac_protectedOwner = False, ac_active = True,
        ac_createdAt = Some 0, ac_updatedAt = Some 0\<rparr>,
      \<lparr>ac_id = 3, ac_username = ''operator'', ac_email = None, ac_displayName = ''Operator'', ac_protectedOwner = False, ac_active = True,
        ac_createdAt = Some 0, ac_updatedAt = Some 0\<rparr>]"

definition custom_role :: "int \<Rightarrow> string \<Rightarrow> bool \<Rightarrow> role" where
  "custom_role i key active = \<lparr>ro_id = i, ro_key = key, ro_name = key, ro_description = [], ro_builtIn = False, ro_active = active,
     ro_createdAt = 0, ro_updatedAt = 0\<rparr>"

definition sample_relations :: "role_permission list" where
  "sample_relations = new_relations 114 5 [101, 201, 301, 401, 902, 904, 1001] @ new_relations 121 6 [101, 201, 301, 401, 606, 1001]"

definition sample_event :: security_event where
  "sample_event = \<lparr>sv_id = 1, sv_accountId = Some 3, sv_type = ''local-login-succeeded'', sv_detail = None, sv_ip = None,
     sv_userAgent = None, sv_createdAt = 5\<rparr>"

definition sample_auth :: auth_store where
  "sample_auth = (createAuthenticationStore 0 False)
     \<lparr>au_nextAccountId := 4, au_nextSecurityEventId := 2, au_nextRoleId := 7, au_nextRolePermissionId := 127, au_nextAccountRoleId := 5,
      au_accounts := sample_accounts, au_securityEvents := [sample_event],
      au_roles := built_in_role_records 0 @ [custom_role 5 ''managers'' True, custom_role 6 ''restorers'' False],
      au_rolePermissions := built_in_relations @ sample_relations,
      au_accountRoles := new_assignments 1 1 [1] @ new_assignments 2 2 [5, 6] @ new_assignments 4 3 [4]\<rparr>"

lemma sample_relations_facts:
  "map rp_id sample_relations = map int [114..<127]"
  "map (\<lambda>x. (rp_roleId x, rp_permissionId x)) sample_relations = map (Pair 5) [101, 201, 301, 401, 902, 904, 1001] @ map (Pair 6) [101, 201, 301, 401, 606, 1001]"
  by (simp_all add: sample_relations_def upt_conv_Cons)

lemma catalog_has: "known_permission 101" "known_permission 201" "known_permission 301" "known_permission 401" "known_permission 606"
  "known_permission 902" "known_permission 904" "known_permission 1001"
proof -
  have "map pm_id PERMISSIONS = [101, 102, 201, 202, 203, 204, 205, 206, 301, 302, 303, 401, 402, 501, 502, 503, 601, 602, 603, 604, 605, 606,
      701, 702, 801, 802, 901, 902, 903, 904, 1001, 1002, 1003, 1101, 1102, 1201, 1202, 1301, 1302]"
    by (simp add: PERMISSIONS_def definePermission_def)
  then have "known_permission i \<longleftrightarrow> i \<in> {101, 102, 201, 202, 203, 204, 205, 206, 301, 302, 303, 401, 402, 501, 502, 503, 601, 602, 603, 604, 605, 606,
      701, 702, 801, 802, 901, 902, 903, 904, 1001, 1002, 1003, 1101, 1102, 1201, 1202, 1301, 1302}" for i
    by (simp only: known_permission_iff set_map [symmetric] list.set)
  then show "known_permission 101" "known_permission 201" "known_permission 301" "known_permission 401" "known_permission 606"
      "known_permission 902" "known_permission 904" "known_permission 1001"
    by simp_all
qed

lemma sample_relations_ok: "\<forall>x \<in> set sample_relations. relation_ok [1, 2, 3, 4, 5, 6] x"
  by (simp add: sample_relations_def relation_ok_def safe_upto catalog_has)

lemma sample_pairs: "distinct (map (\<lambda>x. (rp_roleId x, rp_permissionId x)) (built_in_relations @ sample_relations))"
proof -
  have "(r, p) \<notin> set built_in_pairs" if "r \<in> {5, 6}" for r p using that built_in_pairs_facts(2) by fastforce
  then show ?thesis
    using built_in_pairs_facts(1) by (auto simp: built_in_relations_facts(2) sample_relations_facts(2))
qed

lemma sample_fields:
  "au_version sample_auth = AUTH_STORE_VERSION" "au_accounts sample_auth = sample_accounts" "au_securityEvents sample_auth = [sample_event]"
  "au_roles sample_auth = built_in_role_records 0 @ [custom_role 5 ''managers'' True, custom_role 6 ''restorers'' False]"
  "au_rolePermissions sample_auth = built_in_relations @ sample_relations"
  "au_accountRoles sample_auth = new_assignments 1 1 [1] @ new_assignments 2 2 [5, 6] @ new_assignments 4 3 [4]"
  "au_localCredentials sample_auth = []" "au_oidcIdentities sample_auth = []" "au_sessions sample_auth = []" "au_recoveryTokens sample_auth = []"
  "au_oidcTransactions sample_auth = []" "au_invitations sample_auth = []" "au_identityLinkRequests sample_auth = []"
  "au_nextAccountId sample_auth = 4" "au_nextLocalCredentialId sample_auth = 1" "au_nextOidcIdentityId sample_auth = 1"
  "au_nextSessionId sample_auth = 1" "au_nextRecoveryTokenId sample_auth = 1" "au_nextSecurityEventId sample_auth = 2"
  "au_nextOidcTransactionId sample_auth = 1" "au_nextRoleId sample_auth = 7" "au_nextRolePermissionId sample_auth = 127"
  "au_nextAccountRoleId sample_auth = 5" "au_nextInvitationId sample_auth = 1" "au_nextIdentityLinkRequestId sample_auth = 1"
  "au_configuration sample_auth = au_configuration (createAuthenticationStore 0 False)"
  by (simp_all add: sample_auth_def createAuthenticationStore_def createBuiltIn_split)

lemma sample_ids: "map ac_id sample_accounts = [1, 2, 3]"
    "map ro_id (built_in_role_records 0 @ [custom_role 5 ''managers'' True, custom_role 6 ''restorers'' False]) = [1, 2, 3, 4, 5, 6]"
    "map ro_key (built_in_role_records 0 @ [custom_role 5 ''managers'' True, custom_role 6 ''restorers'' False]) =
      [''owner'', ''administrator'', ''editor'', ''viewer'', ''managers'', ''restorers'']"
  by (simp_all add: sample_accounts_def createOwnerAccount_def built_in_role_ids built_in_role_keys custom_role_def)

lemma sample_ok: "store_ok P sample_auth"
proof -
  have relations: "\<forall>x \<in> set (built_in_relations @ sample_relations). relation_ok [1, 2, 3, 4, 5, 6] x"
    using built_in_relation_ok sample_relations_ok by auto
  have table: "table_ok (map rp_id (built_in_relations @ sample_relations)) 127"
    using relation_table [of sample_relations 127] sample_relations_facts(1) by simp
  have accounts: "accounts_ok sample_accounts"
    by (simp add: accounts_ok_def account_ok_def sample_accounts_def createOwnerAccount_def username_ok_def lower_letter_def is_digit_def
        List.map_filter_simps)
  have held: "owner_role_held sample_auth"
    by (simp add: owner_role_held_def sample_fields owner_role_first sample_accounts_def createOwnerAccount_def)
  have custom: "role_ok (custom_role 5 ''managers'' True)" "role_ok (custom_role 6 ''restorers'' False)"
    by (simp_all add: role_ok_def custom_role_def lower_letter_def)
  have roles: "\<forall>r \<in> set (built_in_role_records 0 @ [custom_role 5 ''managers'' True, custom_role 6 ''restorers'' False]). role_ok r"
    using built_in_role_ok custom by auto
  have config: "configuration_ok P (au_configuration (createAuthenticationStore 0 False))"
    using new_store_ok [of P 0 False] by (simp add: store_ok_def Let_def)
  have assignments: "\<forall>x \<in> set (new_assignments 1 1 [1] @ new_assignments 2 2 [5, 6] @ new_assignments 4 3 [4]).
      assignment_ok [1, 2, 3] [1, 2, 3, 4, 5, 6] x"
    by (simp add: assignment_ok_def safe_upto)
  have small: "table_ok [1, 2, 3] 4" "table_ok [1, 2, 3, 4, 5, 6] 7" "table_ok [1] 2" "table_ok [1, 2, 3, 4] 5" "table_ok [] 1"
    by (simp_all add: table_ok_def safe_upto)
  have sample: "map sv_id [sample_event] = [1]" "map sv_accountId [sample_event] = [Some 3]"
      "map ar_id (new_assignments 1 1 [1] @ new_assignments 2 2 [5, 6] @ new_assignments 4 3 [4]) = [1, 2, 3, 4]"
    by (simp_all add: sample_event_def)
  have keys: "distinct (map (\<lambda>x. (ar_accountId x, ar_roleId x)) (new_assignments 1 1 [1] @ new_assignments 2 2 [5, 6] @ new_assignments 4 3 [4]))"
    by simp
  have type: "\<forall>x \<in> set [sample_event]. 1 \<le> length (sv_type x) \<and> length (sv_type x) \<le> 100" by (simp add: sample_event_def)
  have owners: "owners_ok [1, 2, 3] [Some 3]" by (auto simp: owners_ok_def safe_upto)
  have tables: "\<forall>(table, counter, ids, next_id) \<in> set (id_tables sample_auth). table_ok ids next_id"
    unfolding id_tables_def sample_fields sample_ids sample using small table by (simp del: map_append new_assignments.simps)
  have "credentials_ok [1, 2, 3] []" "owners_ok [1, 2, 3] []" "pending_emails [] = []"
    by (simp_all add: credentials_ok_def owners_ok_def pending_emails_def)
  note none = this
  show ?thesis
    unfolding store_ok_def Let_def sample_fields sample_ids sample
    by (intro conjI) (rule relations tables roles accounts held config sample_pairs assignments keys type owners built_ins_present none(1,2)
        | simp add: none(3))+
qed

end
