(* ===== verification/Access_Validity.thy ===== *)
theory Access_Validity
  imports Sample_Auth
begin

text \<open>
  The last check of a mutation against the mutators: the result of every operation on an accepted store passes the check, except for the
  deletions, which it may refuse for a reference that they leave behind.
\<close>

section \<open>Parts of the check\<close>

lemma table_ok_append: "table_ok ids n \<Longrightarrow> isPositiveSafeInteger (n + 1) \<Longrightarrow> table_ok (ids @ [n]) (n + 1)"
  by (auto simp: table_ok_def)

lemma table_ok_subset: "table_ok ids n \<Longrightarrow> set ids' \<subseteq> set ids \<Longrightarrow> distinct ids' \<Longrightarrow> table_ok ids' n"
  by (auto simp: table_ok_def)

lemma table_ok_next: "table_ok ids n \<Longrightarrow> isPositiveSafeInteger n"
  by (simp add: table_ok_def)

lemma table_ok_filter: "table_ok (map f xs) n \<Longrightarrow> table_ok (map f (filter Q xs)) n"
  by (rule table_ok_subset [of "map f xs"]) (auto simp: table_ok_def intro: distinct_map_filter_neq)

lemma table_ok_drop: "table_ok (map f xs) n \<Longrightarrow> table_ok (map f (drop k xs)) n"
  by (rule table_ok_subset [of "map f xs"]) (auto simp: table_ok_def drop_map [symmetric] dest: in_set_dropD)

lemma safe_below: "isPositiveSafeInteger n \<Longrightarrow> 0 < i \<Longrightarrow> i \<le> n \<Longrightarrow> isPositiveSafeInteger i"
  by (simp add: isPositiveSafeInteger_def isSafeInteger_def MAX_SAFE_INTEGER_def)

lemma table_ok_new_assignments:
  "table_ok ids n \<Longrightarrow> isPositiveSafeInteger (n + int (length rs)) \<Longrightarrow> table_ok (ids @ map ar_id (new_assignments n i rs)) (n + int (length rs))"
proof (induction n i rs arbitrary: ids rule: new_assignments.induct)
  case (2 n i r rs)
  have "isPositiveSafeInteger (n + 1)"
    using safe_below [OF 2(3), of "n + 1"] table_ok_next [OF 2(2)] by (simp add: isPositiveSafeInteger_def)
  then have "table_ok (ids @ [n]) (n + 1)" using 2(2) by (rule table_ok_append [rotated])
  then show ?case using 2(1) [of "ids @ [n]"] 2(3) by (simp add: ac_simps)
qed simp

lemma table_ok_new_relations:
  "table_ok ids n \<Longrightarrow> isPositiveSafeInteger (n + int (length ps)) \<Longrightarrow> table_ok (ids @ map rp_id (new_relations n r ps)) (n + int (length ps))"
proof (induction n r ps arbitrary: ids rule: new_relations.induct)
  case (2 n r p ps)
  have "isPositiveSafeInteger (n + 1)"
    using safe_below [OF 2(3), of "n + 1"] table_ok_next [OF 2(2)] by (simp add: isPositiveSafeInteger_def)
  then have "table_ok (ids @ [n]) (n + 1)" using 2(2) by (rule table_ok_append [rotated])
  then show ?case using 2(1) [of "ids @ [n]"] 2(3) by (simp add: ac_simps)
qed simp

lemma map_update_found: "List.find Q xs = Some a \<Longrightarrow> f y = f a \<Longrightarrow> map f (update_first Q (\<lambda>_. y) xs) = map f xs"
  by (induction xs) (auto split: if_splits)

lemma map_filter_update_found:
  "List.find Q xs = Some a \<Longrightarrow> f y = f a \<Longrightarrow> List.map_filter f (update_first Q (\<lambda>_. y) xs) = List.map_filter f xs"
  by (induction xs) (auto simp: List.map_filter_simps split: if_splits option.splits)

lemma filter_update_found:
  "List.find Q xs = Some a \<Longrightarrow> \<not> R a \<Longrightarrow> \<not> R y \<Longrightarrow> filter R (update_first Q (\<lambda>_. y) xs) = filter R xs"
  by (induction xs) (auto split: if_splits)

lemma find_update_found:
  "List.find Q xs = Some a \<Longrightarrow> \<not> R a \<Longrightarrow> \<not> R y \<Longrightarrow> List.find R (update_first Q (\<lambda>_. y) xs) = List.find R xs"
  by (induction xs) (auto split: if_splits)

lemma revoke_keeps [simp]:
  "map se_id (revoke_sessions i t xs) = map se_id xs" "map se_accountId (revoke_sessions i t xs) = map se_accountId xs"
  "map se_tokenHash (revoke_sessions i t xs) = map se_tokenHash xs"
  by (induction xs) (auto simp: revoke_sessions_def)

lemma revoke_hashes: "(\<forall>x \<in> set (revoke_sessions i t xs). token_hash_ok (se_tokenHash x)) \<longleftrightarrow> (\<forall>x \<in> set xs. token_hash_ok (se_tokenHash x))"
  by (induction xs) (auto simp: revoke_sessions_def)

text \<open>The conjuncts of \<open>store_ok\<close>, one by one.\<close>

lemma store_okD:
  assumes "store_ok P s"
  shows "au_version s = AUTH_STORE_VERSION"
    "table_ok (map ac_id (au_accounts s)) (au_nextAccountId s)"
    "table_ok (map lc_id (au_localCredentials s)) (au_nextLocalCredentialId s)"
    "table_ok (map oi_id (au_oidcIdentities s)) (au_nextOidcIdentityId s)"
    "table_ok (map se_id (au_sessions s)) (au_nextSessionId s)"
    "table_ok (map rt_id (au_recoveryTokens s)) (au_nextRecoveryTokenId s)"
    "table_ok (map sv_id (au_securityEvents s)) (au_nextSecurityEventId s)"
    "table_ok (map ot_id (au_oidcTransactions s)) (au_nextOidcTransactionId s)"
    "table_ok (map ro_id (au_roles s)) (au_nextRoleId s)"
    "table_ok (map rp_id (au_rolePermissions s)) (au_nextRolePermissionId s)"
    "table_ok (map ar_id (au_accountRoles s)) (au_nextAccountRoleId s)"
    "table_ok (map in_id (au_invitations s)) (au_nextInvitationId s)"
    "table_ok (map lr_id (au_identityLinkRequests s)) (au_nextIdentityLinkRequestId s)"
    "accounts_ok (au_accounts s)"
    "credentials_ok (map ac_id (au_accounts s)) (au_localCredentials s)"
    "\<forall>d \<in> set (au_oidcIdentities s). identity_ok P (map ac_id (au_accounts s)) d"
    "distinct (map oidc_key (au_oidcIdentities s))"
    "owners_ok (map ac_id (au_accounts s)) (map se_accountId (au_sessions s))"
    "owners_ok (map ac_id (au_accounts s)) (map rt_accountId (au_recoveryTokens s))"
    "owners_ok (map ac_id (au_accounts s)) (map sv_accountId (au_securityEvents s))"
    "owners_ok (map ac_id (au_accounts s)) (map ot_accountId (au_oidcTransactions s))"
    "\<forall>x \<in> set (au_sessions s). token_hash_ok (se_tokenHash x)"
    "distinct (map se_tokenHash (au_sessions s))"
    "\<forall>x \<in> set (au_recoveryTokens s). token_hash_ok (rt_tokenHash x)"
    "distinct (map rt_tokenHash (au_recoveryTokens s))"
    "\<forall>x \<in> set (au_securityEvents s). 1 \<le> length (sv_type x) \<and> length (sv_type x) \<le> 100"
    "\<forall>x \<in> set (au_oidcTransactions s). transaction_ok x"
    "distinct (map ot_tokenHash (au_oidcTransactions s))"
    "\<forall>r \<in> set (au_roles s). role_ok r"
    "distinct (map ro_key (au_roles s))"
    "built_ins_ok (au_roles s)"
    "\<forall>x \<in> set (au_rolePermissions s). relation_ok (map ro_id (au_roles s)) x"
    "distinct (map (\<lambda>x. (rp_roleId x, rp_permissionId x)) (au_rolePermissions s))"
    "\<forall>x \<in> set (au_accountRoles s). assignment_ok (map ac_id (au_accounts s)) (map ro_id (au_roles s)) x"
    "distinct (map (\<lambda>x. (ar_accountId x, ar_roleId x)) (au_accountRoles s))"
    "owner_role_held s"
    "\<forall>x \<in> set (au_invitations s). invitation_ok (map ac_id (au_accounts s)) (map ro_id (au_roles s)) x"
    "distinct (pending_emails (au_invitations s))"
    "\<forall>x \<in> set (au_identityLinkRequests s). link_request_ok (map ac_id (au_accounts s)) x"
    "configuration_ok P (au_configuration s)"
  using assms unfolding store_ok_def id_tables_def Let_def list.set ball_simps prod.case by blast+

lemma store_okI:
  assumes "au_version s = AUTH_STORE_VERSION"
    "table_ok (map ac_id (au_accounts s)) (au_nextAccountId s)"
    "table_ok (map lc_id (au_localCredentials s)) (au_nextLocalCredentialId s)"
    "table_ok (map oi_id (au_oidcIdentities s)) (au_nextOidcIdentityId s)"
    "table_ok (map se_id (au_sessions s)) (au_nextSessionId s)"
    "table_ok (map rt_id (au_recoveryTokens s)) (au_nextRecoveryTokenId s)"
    "table_ok (map sv_id (au_securityEvents s)) (au_nextSecurityEventId s)"
    "table_ok (map ot_id (au_oidcTransactions s)) (au_nextOidcTransactionId s)"
    "table_ok (map ro_id (au_roles s)) (au_nextRoleId s)"
    "table_ok (map rp_id (au_rolePermissions s)) (au_nextRolePermissionId s)"
    "table_ok (map ar_id (au_accountRoles s)) (au_nextAccountRoleId s)"
    "table_ok (map in_id (au_invitations s)) (au_nextInvitationId s)"
    "table_ok (map lr_id (au_identityLinkRequests s)) (au_nextIdentityLinkRequestId s)"
    "accounts_ok (au_accounts s)"
    "credentials_ok (map ac_id (au_accounts s)) (au_localCredentials s)"
    "\<forall>d \<in> set (au_oidcIdentities s). identity_ok P (map ac_id (au_accounts s)) d"
    "distinct (map oidc_key (au_oidcIdentities s))"
    "owners_ok (map ac_id (au_accounts s)) (map se_accountId (au_sessions s))"
    "owners_ok (map ac_id (au_accounts s)) (map rt_accountId (au_recoveryTokens s))"
    "owners_ok (map ac_id (au_accounts s)) (map sv_accountId (au_securityEvents s))"
    "owners_ok (map ac_id (au_accounts s)) (map ot_accountId (au_oidcTransactions s))"
    "\<forall>x \<in> set (au_sessions s). token_hash_ok (se_tokenHash x)"
    "distinct (map se_tokenHash (au_sessions s))"
    "\<forall>x \<in> set (au_recoveryTokens s). token_hash_ok (rt_tokenHash x)"
    "distinct (map rt_tokenHash (au_recoveryTokens s))"
    "\<forall>x \<in> set (au_securityEvents s). 1 \<le> length (sv_type x) \<and> length (sv_type x) \<le> 100"
    "\<forall>x \<in> set (au_oidcTransactions s). transaction_ok x"
    "distinct (map ot_tokenHash (au_oidcTransactions s))"
    "\<forall>r \<in> set (au_roles s). role_ok r"
    "distinct (map ro_key (au_roles s))"
    "built_ins_ok (au_roles s)"
    "\<forall>x \<in> set (au_rolePermissions s). relation_ok (map ro_id (au_roles s)) x"
    "distinct (map (\<lambda>x. (rp_roleId x, rp_permissionId x)) (au_rolePermissions s))"
    "\<forall>x \<in> set (au_accountRoles s). assignment_ok (map ac_id (au_accounts s)) (map ro_id (au_roles s)) x"
    "distinct (map (\<lambda>x. (ar_accountId x, ar_roleId x)) (au_accountRoles s))"
    "owner_role_held s"
    "\<forall>x \<in> set (au_invitations s). invitation_ok (map ac_id (au_accounts s)) (map ro_id (au_roles s)) x"
    "distinct (pending_emails (au_invitations s))"
    "\<forall>x \<in> set (au_identityLinkRequests s). link_request_ok (map ac_id (au_accounts s)) x"
    "configuration_ok P (au_configuration s)"
  shows "store_ok P s"
  unfolding store_ok_def id_tables_def Let_def list.set ball_simps prod.case using assms by blast

text \<open>The fields that administration changes.  The accounts keep their ids.\<close>

lemma store_ok_update:
  assumes "store_ok P s"
    and s': "s' = s\<lparr>au_accounts := as, au_sessions := ss, au_nextSecurityEventId := e, au_securityEvents := es,
      au_nextRoleId := n, au_roles := rs, au_nextRolePermissionId := m, au_rolePermissions := xs,
      au_nextAccountRoleId := k, au_accountRoles := ys\<rparr>"
    and ids: "map ac_id as = map ac_id (au_accounts s)" and accounts: "accounts_ok as"
    and sessions: "map se_id ss = map se_id (au_sessions s)" "map se_accountId ss = map se_accountId (au_sessions s)"
      "map se_tokenHash ss = map se_tokenHash (au_sessions s)"
    and events: "table_ok (map sv_id es) e" "owners_ok (map ac_id (au_accounts s)) (map sv_accountId es)"
      "\<forall>x \<in> set es. 1 \<le> length (sv_type x) \<and> length (sv_type x) \<le> 100"
    and roles: "table_ok (map ro_id rs) n" "\<forall>r \<in> set rs. role_ok r" "distinct (map ro_key rs)" "built_ins_ok rs"
    and relations: "table_ok (map rp_id xs) m" "\<forall>x \<in> set xs. relation_ok (map ro_id rs) x" "distinct (map (\<lambda>x. (rp_roleId x, rp_permissionId x)) xs)"
    and assignments: "table_ok (map ar_id ys) k" "\<forall>x \<in> set ys. assignment_ok (map ac_id (au_accounts s)) (map ro_id rs) x"
      "distinct (map (\<lambda>x. (ar_accountId x, ar_roleId x)) ys)"
    and held: "owner_role_held s'" and used: "\<forall>x \<in> set (au_invitations s). set (in_roleIds x) \<subseteq> ro_id ` set rs"
  shows "store_ok P s'"
proof -
  note ok = store_okD [OF assms(1)]
  have frame: "au_version s' = au_version s" "au_localCredentials s' = au_localCredentials s"
    "au_oidcIdentities s' = au_oidcIdentities s" "au_recoveryTokens s' = au_recoveryTokens s"
    "au_oidcTransactions s' = au_oidcTransactions s" "au_invitations s' = au_invitations s"
    "au_identityLinkRequests s' = au_identityLinkRequests s" "au_configuration s' = au_configuration s"
    "au_nextAccountId s' = au_nextAccountId s" "au_nextLocalCredentialId s' = au_nextLocalCredentialId s"
    "au_nextOidcIdentityId s' = au_nextOidcIdentityId s" "au_nextSessionId s' = au_nextSessionId s"
    "au_nextRecoveryTokenId s' = au_nextRecoveryTokenId s" "au_nextOidcTransactionId s' = au_nextOidcTransactionId s"
    "au_nextInvitationId s' = au_nextInvitationId s" "au_nextIdentityLinkRequestId s' = au_nextIdentityLinkRequestId s"
    "au_accounts s' = as" "au_sessions s' = ss" "au_nextSecurityEventId s' = e" "au_securityEvents s' = es"
    "au_nextRoleId s' = n" "au_roles s' = rs" "au_nextRolePermissionId s' = m" "au_rolePermissions s' = xs"
    "au_nextAccountRoleId s' = k" "au_accountRoles s' = ys"
    by (simp_all add: s')
  have invited: "\<forall>x \<in> set (au_invitations s). invitation_ok (map ac_id (au_accounts s)) (map ro_id rs) x"
    using ok(37) used by (simp add: invitation_ok_def)
  have "se_tokenHash ` set ss = se_tokenHash ` set (au_sessions s)" using sessions(3) by (metis list.set_map)
  then have hashes: "\<forall>x \<in> set ss. token_hash_ok (se_tokenHash x)" using ok(22) by (metis image_iff)
  show ?thesis
    by (rule store_okI; (unfold frame ids sessions)?)
      (rule ok accounts events roles relations assignments held invited hashes)+
qed

lemma appendEvent_ok:
  assumes "store_ok P s" "a \<in> set (au_accounts s)" "1 \<le> length ty" "length ty \<le> 100" "isPositiveSafeInteger (au_nextSecurityEventId s + 1)"
  shows "store_ok P (appendEvent (Some (ac_id a)) ty detail t s)"
proof -
  note ok = store_okD [OF assms(1)]
  let ?e = "\<lparr>sv_id = au_nextSecurityEventId s, sv_accountId = Some (ac_id a), sv_type = ty, sv_detail = detail_text detail, sv_ip = None,
    sv_userAgent = None, sv_createdAt = t\<rparr>"
  let ?es = "au_securityEvents s @ [?e]"
  define k where "k = length ?es - 500"
  have s': "appendEvent (Some (ac_id a)) ty detail t s = s\<lparr>au_nextSecurityEventId := au_nextSecurityEventId s + 1, au_securityEvents := drop k ?es\<rparr>"
    by (simp add: appendEvent_def k_def)
  have "table_ok (map sv_id ?es) (au_nextSecurityEventId s + 1)" using table_ok_append [OF ok(7) assms(5)] by simp
  then have table: "table_ok (map sv_id (drop k ?es)) (au_nextSecurityEventId s + 1)" by (rule table_ok_drop)
  have "owners_ok (map ac_id (au_accounts s)) (map sv_accountId ?es)"
    using ok(20) assms(2) account_id_safe [OF assms(1,2)] by (auto simp: owners_ok_def)
  moreover have "set (map sv_accountId (drop k ?es)) \<subseteq> set (map sv_accountId ?es)" by (metis drop_map set_drop_subset)
  ultimately have owners: "owners_ok (map ac_id (au_accounts s)) (map sv_accountId (drop k ?es))" unfolding owners_ok_def by blast
  have "\<forall>x \<in> set ?es. 1 \<le> length (sv_type x) \<and> length (sv_type x) \<le> 100" using ok(26) assms(3,4) by simp
  then have types: "\<forall>x \<in> set (drop k ?es). 1 \<le> length (sv_type x) \<and> length (sv_type x) \<le> 100" by (meson in_set_dropD)
  show ?thesis
    by (rule store_ok_update [OF assms(1) _ refl ok(14) refl refl refl table owners types ok(9,29-31,10,32,33,11,34,35)])
      (use ok(36,37) in \<open>simp_all add: s' owner_role_held_def invitation_ok_def\<close>)
qed

section \<open>The mutators that keep the check\<close>

lemma cleanText_Inr: "cleanText P v label n = Inr t \<Longrightarrow> 1 \<le> length t \<and> length t \<le> n"
  by (auto simp: cleanText_def Suc_le_eq split: if_splits)

lemma find_user_found: "find_user s i m = Inr a \<Longrightarrow> List.find (\<lambda>a. ac_id a = i) (au_accounts s) = Some a"
  by (auto simp: find_user_def split: option.splits if_splits)

lemma find_role_found: "find_role s i m = Inr r \<Longrightarrow> List.find (\<lambda>r. ro_id r = i) (au_roles s) = Some r"
  by (auto simp: find_role_def split: option.splits if_splits)

text \<open>The records that an update writes are well formed.\<close>

lemma updated_account_ok:
  assumes "update_user P i input t s = Inr (res, s')" "\<forall>a \<in> set (au_accounts s). account_ok a" "b \<in> set (au_accounts s')"
  shows "account_ok b"
proof -
  obtain a where a: "find_user s i ''The protected owner cannot be modified from Access administration.'' = Inr a"
    using assms(1) unfolding update_user_def try_eval_Inr_iff by blast
  obtain name where n: "(case prop_of input ''displayName'' of None \<Rightarrow> Inr (ac_displayName a) | Some v \<Rightarrow> cleanText P (Some v) ''Display name'' 100) = Inr name"
    using assms(1) [unfolded update_user_def a try_eval_simps] by (elim try_evalE) (rule that)
  have "account_ok a" using assms(2) find_user_Inr [OF a] by blast
  moreover have "name = ac_displayName a \<or> 1 \<le> length name \<and> length name \<le> 100"
    using n by (auto split: option.splits dest: cleanText_Inr)
  moreover have "au_accounts s' = update_first (\<lambda>a. ac_id a = i) (\<lambda>_. a\<lparr>ac_displayName := name,
      ac_active := (case prop_of input ''active'' of None \<Rightarrow> ac_active a | Some v \<Rightarrow> v = JBool True), ac_updatedAt := Some t\<rparr>) (au_accounts s)"
  proof -
    have "s' = s\<lparr>au_accounts := update_first (\<lambda>a. ac_id a = i) (\<lambda>_. a\<lparr>ac_displayName := name,
        ac_active := (case prop_of input ''active'' of None \<Rightarrow> ac_active a | Some v \<Rightarrow> v = JBool True), ac_updatedAt := Some t\<rparr>) (au_accounts s),
      au_sessions := (if case prop_of input ''active'' of None \<Rightarrow> ac_active a | Some v \<Rightarrow> v = JBool True then au_sessions s
        else revoke_sessions i t (au_sessions s))\<rparr>"
      using assms(1) unfolding update_user_def a try_eval_simps n Let_def sum.inject prod.inject by (elim conjE) (rule sym)
    then show ?thesis by simp
  qed
  ultimately show ?thesis using assms(2,3) by (auto simp: account_ok_def dest!: in_update_first)
qed

lemma update_user_ok:
  assumes "update_user P i input t s = Inr (res, s')" "store_ok P s" shows "store_ok P s'"
proof -
  note ok = store_okD [OF assms(2)]
  have each: "\<forall>b \<in> set (au_accounts s'). account_ok b"
    using updated_account_ok [OF assms(1)] ok(14) by (auto simp: accounts_ok_def)
  obtain a name active where a: "find_user s i ''The protected owner cannot be modified from Access administration.'' = Inr a"
    and s': "s' = s\<lparr>au_accounts := update_first (\<lambda>a. ac_id a = i) (\<lambda>_. a\<lparr>ac_displayName := name, ac_active := active, ac_updatedAt := Some t\<rparr>) (au_accounts s),
       au_sessions := (if active then au_sessions s else revoke_sessions i t (au_sessions s))\<rparr>"
    using assms(1) by (rule update_user_Inr)
  let ?as = "update_first (\<lambda>a. ac_id a = i) (\<lambda>_. a\<lparr>ac_displayName := name, ac_active := active, ac_updatedAt := Some t\<rparr>) (au_accounts s)"
  note found = find_user_found [OF a]
  have same: "map ac_id ?as = map ac_id (au_accounts s)" "map ac_username ?as = map ac_username (au_accounts s)"
      "List.map_filter ac_email ?as = List.map_filter ac_email (au_accounts s)"
      "filter ac_protectedOwner ?as = filter ac_protectedOwner (au_accounts s)"
      "List.find ac_protectedOwner ?as = List.find ac_protectedOwner (au_accounts s)"
    using found find_user_Inr [OF a]
    by (simp_all add: map_update_found map_filter_update_found filter_update_found find_update_found)
  have accounts: "accounts_ok ?as" using ok(14) each by (simp add: accounts_ok_def same s')
  show ?thesis
    by (rule store_ok_update [OF assms(2) _ same(1) accounts _ _ _ ok(7,20,26) ok(9,29-31,10,32,33,11,34,35),
          where s' = s' and ss = "if active then au_sessions s else revoke_sessions i t (au_sessions s)"])
      (use ok(36,37) same(5) in \<open>simp_all add: s' owner_role_held_def invitation_ok_def\<close>)
qed

lemma revoke_user_sessions_ok:
  assumes "revoke_user_sessions i t s = Inr (res, s')" "store_ok P s" shows "store_ok P s'"
proof -
  note ok = store_okD [OF assms(2)]
  have s': "s' = s\<lparr>au_sessions := revoke_sessions i t (au_sessions s)\<rparr>"
    using assms(1) by (auto simp: revoke_user_sessions_def try_eval_Inr_iff)
  show ?thesis
    by (rule store_ok_update [OF assms(2) _ refl ok(14) _ _ _ ok(7,20,26) ok(9,29-31,10,32,33,11,34,35),
          where s' = s' and ss = "revoke_sessions i t (au_sessions s)"])
      (use ok(36,37) in \<open>simp_all add: s' owner_role_held_def invitation_ok_def\<close>)
qed

lemma new_assignments_global: "x \<in> set (new_assignments n i rs) \<Longrightarrow> ar_scopeKind x = ''global'' \<and> ar_scopeId x = 0"
  by (induction n i rs rule: new_assignments.induct) auto

lemma new_assignments_pairs: "map (\<lambda>x. (ar_accountId x, ar_roleId x)) (new_assignments n i rs) = map (Pair i) rs"
  by (induction n i rs rule: new_assignments.induct) auto

lemma assign_roles_ok:
  assumes "assign_roles (compiled s) actor i vs t s = Inr (res, s')" "store_ok P s" "isPositiveSafeInteger (au_nextAccountRoleId s')"
  shows "store_ok P s'"
proof -
  note ok = store_okD [OF assms(2)]
  obtain a roleIds where a: "find_user s i ''The protected owner roles cannot be changed.'' = Inr a"
    and r: "assertAssignableRoleIds (compiled s) actor s vs = Inr roleIds"
    and s': "s' = s\<lparr>au_nextAccountRoleId := au_nextAccountRoleId s + int (length roleIds),
       au_accountRoles := filter (\<lambda>x. ar_accountId x \<noteq> i) (au_accountRoles s) @ new_assignments (au_nextAccountRoleId s) i roleIds\<rparr>"
    using assms(1) by (rule assign_roles_Inr)
  define old where "old = filter (\<lambda>x. ar_accountId x \<noteq> i) (au_accountRoles s)"
  define new where "new = new_assignments (au_nextAccountRoleId s) i roleIds"
  have d: "distinct roleIds"
    using r by (auto simp: assertAssignableRoleIds_def normalizedRoleIds_def try_eval_Inr_iff split: if_splits)
  have "\<forall>x \<in> set new. assignment_ok (map ac_id (au_accounts s)) (map ro_id (au_roles s)) x"
  proof
    fix x assume "x \<in> set new"
    then have x: "x \<in> set (new_assignments (au_nextAccountRoleId s) i roleIds)" by (simp add: new_def)
    obtain q where q: "q \<in> set (au_roles s)" "ar_roleId x = ro_id q" using assignable(2) [OF r new_assignments_role [OF x]] by metis
    have "ar_accountId x = ac_id a" "a \<in> set (au_accounts s)" using new_assignments_facts(2) [OF x] find_user_Inr [OF a] by auto
    moreover have "isPositiveSafeInteger (ro_id q)" using ok(9) q(1) by (auto simp: table_ok_def)
    ultimately show "assignment_ok (map ac_id (au_accounts s)) (map ro_id (au_roles s)) x"
      using account_id_safe [OF assms(2)] new_assignments_global [OF x] q by (simp add: assignment_ok_def)
  qed
  then have each: "\<forall>x \<in> set (old @ new). assignment_ok (map ac_id (au_accounts s)) (map ro_id (au_roles s)) x"
    using ok(34) by (auto simp: old_def)
  have pairs: "distinct (map (\<lambda>x. (ar_accountId x, ar_roleId x)) (old @ new))"
  proof -
    have "distinct (map (\<lambda>x. (ar_accountId x, ar_roleId x)) old)" unfolding old_def by (rule distinct_map_filter_neq [OF ok(35)])
    moreover have "distinct (map (Pair i) roleIds)" using d by (simp add: distinct_map inj_on_def)
    moreover have "(i, r) \<notin> set (map (\<lambda>x. (ar_accountId x, ar_roleId x)) old)" for r by (auto simp: old_def)
    ultimately show ?thesis unfolding new_def map_append new_assignments_pairs by auto
  qed
  have table: "table_ok (map ar_id (old @ new)) (au_nextAccountRoleId s + int (length roleIds))"
    using table_ok_new_assignments [OF table_ok_filter [OF ok(11)], of roleIds "\<lambda>x. ar_accountId x \<noteq> i" i] assms(3)
    by (simp add: s' old_def new_def)
  have held: "owner_role_held s'"
    unfolding owner_role_held_def
  proof (intro allI impI)
    fix owner assume o: "List.find ac_protectedOwner (au_accounts s') = Some owner"
    then have "ac_id owner \<noteq> i" using user_not_owner [OF assms(2) a] by (auto simp: s' dest!: find_Some_iff_first)
    then show "\<exists>x \<in> set (au_accountRoles s'). ar_accountId x = ac_id owner \<and>
        Some (ar_roleId x) = map_option ro_id (List.find (\<lambda>r. ro_key r = ''owner'') (au_roles s'))"
      using ok(36) o by (auto simp: owner_role_held_def s')
  qed
  show ?thesis
    by (rule store_ok_update [OF assms(2) _ refl ok(14) refl refl refl ok(7,20,26) ok(9,29-31,10,32,33) table each pairs held])
      (use ok(37) in \<open>simp_all add: s' old_def new_def invitation_ok_def\<close>)
qed

lemma role_written_ok:
  assumes "\<forall>r \<in> set (au_roles s). role_ok r" "q \<in> set (au_roles s')"
  shows "create_role P az actor input t s = Inr (res, s') \<Longrightarrow> role_ok q"
    and "update_role P i input t s = Inr (res, s') \<Longrightarrow> role_ok q"
proof -
  assume c: "create_role P az actor input t s = Inr (res, s')"
  obtain key where key: "cleanRoleKey P (coalesce (prop_of input ''key'') (prop_of input ''name'')) = Inr key"
    using c unfolding create_role_def try_eval_Inr_iff by blast
  with c have fresh: "\<not> list_ex (\<lambda>r. ro_key r = key) (au_roles s)"
    unfolding create_role_def by (auto simp only: try_eval_simps split: if_splits)
  obtain name where name: "cleanText P (prop_of input ''name'') ''Role name'' 80 = Inr name"
    using c [unfolded create_role_def key try_eval_simps if_not_P [OF fresh]] by (elim try_evalE) (rule that)
  obtain ids where ids: "normalizedPermissionIds (coalesce (prop_of input ''permissionIds'') (Some (JArr []))) = Inr ids"
      "assertDelegatedPermissionIds az actor ids = Inr ()"
    using c [unfolded create_role_def key try_eval_simps if_not_P [OF fresh] name Let_def] by (elim try_evalE) (rule that, assumption, simp)
  have "role_key_ok key" using key by (simp add: cleanRoleKey_def split: if_splits)
  then show "role_ok q"
    using c [unfolded create_role_def key name Let_def try_eval_simps if_not_P [OF fresh] ids replaced_relations [OF ids(1)]]
      cleanText_Inr [OF name] assms by (auto simp: role_ok_def)
next
  assume u: "update_role P i input t s = Inr (res, s')"
  obtain r where r: "find_role s i ''Built-in roles cannot be modified.'' = Inr r"
    using u unfolding update_role_def try_eval_Inr_iff by blast
  obtain name where name: "(case prop_of input ''name'' of None \<Rightarrow> Inr (ro_name r) | Some v \<Rightarrow> cleanText P (Some v) ''Role name'' 80) = Inr name"
    using u [unfolded update_role_def r try_eval_simps] by (elim try_evalE) (rule that)
  have "role_ok r" using assms(1) find_role_Inr [OF r] by blast
  moreover have "name = ro_name r \<or> 1 \<le> length name \<and> length name \<le> 80"
    using name by (auto split: option.splits dest: cleanText_Inr)
  ultimately show "role_ok q"
    using u [unfolded update_role_def r name try_eval_simps Let_def put_role_def] assms
    by (auto simp: role_ok_def split: option.splits dest!: in_update_first)
qed

lemma option_update_found:
  "List.find Q xs = Some a \<Longrightarrow> R y = R a \<Longrightarrow> f y = f a \<Longrightarrow>
     map_option f (List.find R (update_first Q (\<lambda>_. y) xs)) = map_option f (List.find R xs)"
  by (induction xs) (auto split: if_splits)

text \<open>A custom role rewritten in place, with its id and its key.\<close>

lemma rewritten_role:
  assumes "List.find (\<lambda>r. ro_id r = i) rs = Some r" "\<not> ro_builtIn r" "ro_id q = ro_id r" "ro_key q = ro_key r" "\<not> ro_builtIn q"
  defines "rs' \<equiv> update_first (\<lambda>r. ro_id r = i) (\<lambda>_. q) rs"
  shows "map ro_id rs' = map ro_id rs" "map ro_key rs' = map ro_key rs" "built_ins_ok rs' = built_ins_ok rs"
    "map_option ro_id (List.find (\<lambda>r. ro_key r = ''owner'') rs') = map_option ro_id (List.find (\<lambda>r. ro_key r = ''owner'') rs)"
  using assms by (simp_all add: map_update_found built_ins_ok_def find_update_found option_update_found)

lemma update_role_ok:
  assumes "update_role P i input t s = Inr (res, s')" "store_ok P s" shows "store_ok P s'"
proof -
  note ok = store_okD [OF assms(2)]
  obtain r name desc active where r: "find_role s i ''Built-in roles cannot be modified.'' = Inr r"
    and s': "s' = s\<lparr>au_roles := update_first (\<lambda>q. ro_id q = i)
       (\<lambda>_. r\<lparr>ro_name := name, ro_description := desc, ro_active := active, ro_updatedAt := t\<rparr>) (au_roles s)\<rparr>"
    using assms(1) by (rule update_role_Inr)
  define rs where "rs = update_first (\<lambda>q. ro_id q = i)
       (\<lambda>_. r\<lparr>ro_name := name, ro_description := desc, ro_active := active, ro_updatedAt := t\<rparr>) (au_roles s)"
  have each: "\<forall>q \<in> set rs. role_ok q" using role_written_ok(2) [OF ok(29) _ assms(1)] by (simp add: s' rs_def)
  have same: "map ro_id rs = map ro_id (au_roles s)" "map ro_key rs = map ro_key (au_roles s)" "built_ins_ok rs = built_ins_ok (au_roles s)"
    "map_option ro_id (List.find (\<lambda>r. ro_key r = ''owner'') rs) = map_option ro_id (List.find (\<lambda>r. ro_key r = ''owner'') (au_roles s))"
    using find_role_Inr [OF r] unfolding rs_def by (simp_all add: rewritten_role [OF find_role_found [OF r]])
  have held: "owner_role_held s'" using ok(36) same(4) by (simp add: owner_role_held_def s' rs_def)
  show ?thesis
    by (rule store_ok_update [OF assms(2) _ refl ok(14) refl refl refl ok(7,20,26) ok(9) [folded same(1)] each ok(30) [folded same(2)] _ ok(10)
          ok(32) [folded same(1)] ok(33,11) ok(34) [folded same(1)] ok(35) held])
      (use ok(31,37) same in \<open>simp_all add: s' rs_def [symmetric] invitation_ok_def flip: set_map\<close>)
qed

lemma new_relations_both: "x \<in> set (new_relations n r ps) \<Longrightarrow> rp_roleId x = r \<and> rp_permissionId x \<in> set ps"
  using new_relations_facts(2) new_relations_permission by blast

lemma relations_replaced:
  assumes "store_ok P s" "distinct ids" "\<forall>p \<in> set ids. known_permission p" "i \<in> set R" "set (map ro_id (au_roles s)) \<subseteq> set R"
    "isPositiveSafeInteger i" "isPositiveSafeInteger (au_nextRolePermissionId s + int (length ids))"
  defines "xs \<equiv> filter (\<lambda>x. rp_roleId x \<noteq> i) (au_rolePermissions s) @ new_relations (au_nextRolePermissionId s) i ids"
  shows "table_ok (map rp_id xs) (au_nextRolePermissionId s + int (length ids))" "\<forall>x \<in> set xs. relation_ok R x"
    "distinct (map (\<lambda>x. (rp_roleId x, rp_permissionId x)) xs)"
proof -
  note ok = store_okD [OF assms(1)]
  show "table_ok (map rp_id xs) (au_nextRolePermissionId s + int (length ids))"
    using table_ok_new_relations [OF table_ok_filter [OF ok(10)], of ids "\<lambda>x. rp_roleId x \<noteq> i" i] assms(7) by (simp add: xs_def)
  show "\<forall>x \<in> set xs. relation_ok R x"
    using ok(32) assms(3-6) by (auto simp: xs_def relation_ok_def known_permission_safe dest!: new_relations_both)
  have new: "map (\<lambda>x. (rp_roleId x, rp_permissionId x)) (new_relations n i ps) = map (Pair i) ps" for n ps
    by (induction n i ps rule: new_relations.induct) auto
  have "(i, p) \<notin> set (map (\<lambda>x. (rp_roleId x, rp_permissionId x)) (filter (\<lambda>x. rp_roleId x \<noteq> i) (au_rolePermissions s)))" for p by auto
  then show "distinct (map (\<lambda>x. (rp_roleId x, rp_permissionId x)) xs)"
    using assms(2) ok(33) by (auto simp: xs_def new distinct_map inj_on_def distinct_map_filter_neq)
qed

lemma set_role_permissions_ok:
  assumes "set_role_permissions az actor i vs t s = Inr (res, s')" "store_ok P s" "isPositiveSafeInteger (au_nextRolePermissionId s')"
  shows "store_ok P s'"
proof -
  note ok = store_okD [OF assms(2)]
  obtain r ids where r: "find_role s i ''Built-in role permissions cannot be modified.'' = Inr r" and ids: "normalizedPermissionIds vs = Inr ids"
    and s': "s' = s\<lparr>au_nextRolePermissionId := au_nextRolePermissionId s + int (length ids),
       au_rolePermissions := filter (\<lambda>x. rp_roleId x \<noteq> i) (au_rolePermissions s) @ new_relations (au_nextRolePermissionId s) i ids,
       au_roles := update_first (\<lambda>q. ro_id q = i) (\<lambda>_. r\<lparr>ro_updatedAt := t\<rparr>) (au_roles s)\<rparr>"
    using assms(1) by (rule set_role_permissions_Inr)
  define rs where "rs = update_first (\<lambda>q. ro_id q = i) (\<lambda>_. r\<lparr>ro_updatedAt := t\<rparr>) (au_roles s)"
  define xs where "xs = filter (\<lambda>x. rp_roleId x \<noteq> i) (au_rolePermissions s) @ new_relations (au_nextRolePermissionId s) i ids"
  note fr = find_role_Inr [OF r]
  have i: "i \<in> set (map ro_id (au_roles s))" "isPositiveSafeInteger i" using fr ok(9) by (auto simp: table_ok_def)
  have n: "isPositiveSafeInteger (au_nextRolePermissionId s + int (length ids))" using assms(3) by (simp add: s')
  note relations = relations_replaced [OF assms(2) normalized_facts(1,3) [OF ids] i(1) subset_refl i(2) n, folded xs_def]
  have same: "map ro_id rs = map ro_id (au_roles s)" "map ro_key rs = map ro_key (au_roles s)" "built_ins_ok rs = built_ins_ok (au_roles s)"
    "map_option ro_id (List.find (\<lambda>r. ro_key r = ''owner'') rs) = map_option ro_id (List.find (\<lambda>r. ro_key r = ''owner'') (au_roles s))"
    using fr unfolding rs_def by (simp_all add: rewritten_role [OF find_role_found [OF r]])
  have each: "\<forall>q \<in> set rs. role_ok q" using ok(29) fr by (auto simp: rs_def role_ok_def dest!: in_update_first)
  have held: "owner_role_held s'" using ok(36) same(4) by (simp add: owner_role_held_def s' rs_def)
  show ?thesis
    by (rule store_ok_update [OF assms(2) _ refl ok(14) refl refl refl ok(7,20,26) ok(9) [folded same(1)] each ok(30) [folded same(2)] _ relations(1)
          relations(2) [folded same(1)] relations(3) ok(11) ok(34) [folded same(1)] ok(35) held])
      (use ok(31,37) same in \<open>simp_all add: s' rs_def [symmetric] xs_def [symmetric] invitation_ok_def flip: set_map\<close>)
qed

lemma create_role_ok:
  assumes "create_role P az actor input t s = Inr (res, s')" "store_ok P s" "isPositiveSafeInteger (au_nextRoleId s')"
    "isPositiveSafeInteger (au_nextRolePermissionId s')"
  shows "store_ok P s'"
proof -
  note ok = store_okD [OF assms(2)]
  obtain key name desc ids where key: "role_key_ok key" "\<forall>r \<in> set (au_roles s). ro_key r \<noteq> key"
    and ids: "normalizedPermissionIds (coalesce (prop_of input ''permissionIds'') (Some (JArr []))) = Inr ids"
    and s': "s' = s\<lparr>au_nextRoleId := au_nextRoleId s + 1,
       au_roles := au_roles s @ [\<lparr>ro_id = au_nextRoleId s, ro_key = key, ro_name = name, ro_description = desc, ro_builtIn = False,
         ro_active = True, ro_createdAt = t, ro_updatedAt = t\<rparr>],
       au_nextRolePermissionId := au_nextRolePermissionId s + int (length ids),
       au_rolePermissions := filter (\<lambda>x. rp_roleId x \<noteq> au_nextRoleId s) (au_rolePermissions s)
         @ new_relations (au_nextRolePermissionId s) (au_nextRoleId s) ids\<rparr>"
    using assms(1) by (rule create_role_Inr)
  define q where "q = \<lparr>ro_id = au_nextRoleId s, ro_key = key, ro_name = name, ro_description = desc, ro_builtIn = False,
         ro_active = True, ro_createdAt = t, ro_updatedAt = t\<rparr>"
  define xs where "xs = filter (\<lambda>x. rp_roleId x \<noteq> au_nextRoleId s) (au_rolePermissions s) @ new_relations (au_nextRolePermissionId s) (au_nextRoleId s) ids"
  note s'' = s' [folded q_def xs_def]
  have q: "ro_id q = au_nextRoleId s" "ro_key q = key" by (simp_all add: q_def)
  have table: "table_ok (map ro_id (au_roles s @ [q])) (au_nextRoleId s + 1)" using table_ok_append [OF ok(9)] assms(3) by (simp add: s' q)
  have n: "isPositiveSafeInteger (au_nextRolePermissionId s + int (length ids))" using assms(4) by (simp add: s')
  have new: "au_nextRoleId s \<in> set (map ro_id (au_roles s @ [q]))" "set (map ro_id (au_roles s)) \<subseteq> set (map ro_id (au_roles s @ [q]))"
    by (auto simp: q)
  note relations = relations_replaced [OF assms(2) normalized_facts(1,3) [OF ids] new table_ok_next [OF ok(9)] n, folded xs_def]
  have each: "\<forall>r \<in> set (au_roles s @ [q]). role_ok r" using role_written_ok(1) [OF ok(29) _ assms(1)] by (simp add: s'')
  have find: "List.find Q (rs @ [y]) = (case List.find Q rs of None \<Rightarrow> if Q y then Some y else None | Some x \<Rightarrow> Some x)" for Q rs and y :: role
    by (induction rs) auto
  have built: "built_ins_ok (au_roles s @ [q])" using ok(31) by (fastforce simp: built_ins_ok_def find)
  obtain b where "List.find (\<lambda>r. ro_id r = 1 \<and> ro_key r = ''owner'' \<and> ro_builtIn r) (au_roles s) = Some b"
    using ok(31) by (auto simp: built_ins_ok_def BUILT_IN_ROLE_DEFINITIONS_def)
  then obtain b' where "List.find (\<lambda>r. ro_key r = ''owner'') (au_roles s) = Some b'"
    by (cases "List.find (\<lambda>r. ro_key r = ''owner'') (au_roles s)") (auto simp: find_None_iff_all dest!: find_Some_iff_first)
  then have own: "map_option ro_id (List.find (\<lambda>r. ro_key r = ''owner'') (au_roles s @ [q])) =
      map_option ro_id (List.find (\<lambda>r. ro_key r = ''owner'') (au_roles s))" by (simp add: find)
  have keys: "distinct (map ro_key (au_roles s @ [q]))" using ok(30) key by (auto simp: q)
  have assigned: "\<forall>x \<in> set (au_accountRoles s). assignment_ok (map ac_id (au_accounts s)) (map ro_id (au_roles s @ [q])) x"
    using ok(34) by (auto simp: assignment_ok_def)
  have used: "\<forall>x \<in> set (au_invitations s). set (in_roleIds x) \<subseteq> ro_id ` set (au_roles s @ [q])"
    using ok(37) by (auto simp: invitation_ok_def)
  have held: "owner_role_held s'" using ok(36) own by (simp add: owner_role_held_def s'')
  show ?thesis
    by (rule store_ok_update [OF assms(2) _ refl ok(14) refl refl refl ok(7,20,26) table each keys built relations ok(11) assigned ok(35) held used])
      (simp add: s'')
qed

section \<open>Calls that pass\<close>

fun deletes :: "access_call \<Rightarrow> bool" where
  "deletes (DeleteUser v) = True"
| "deletes (DeleteRole v) = True"
| "deletes _ = False"

text \<open>The counters of a store that a call may advance.\<close>

definition counters_safe :: "auth_store \<Rightarrow> bool" where
  "counters_safe s \<longleftrightarrow> isPositiveSafeInteger (au_nextRoleId s) \<and> isPositiveSafeInteger (au_nextRolePermissionId s) \<and>
     isPositiveSafeInteger (au_nextAccountRoleId s) \<and> isPositiveSafeInteger (au_nextSecurityEventId s + 1)"

lemma mutates_ok:
  assumes "mutates P (compiled s) now actor call s = Inr (res, s')" "store_ok P s" "\<not> deletes call" "counters_safe s'"
  shows "store_ok P s'"
  using assms(1,3,4)
  by (cases call)
    (auto simp: try_eval_Inr_iff counters_safe_def split: option.splits
      dest: update_user_ok [OF _ assms(2)] assign_roles_ok [OF _ assms(2)] revoke_user_sessions_ok [OF _ assms(2)]
        create_role_ok [OF _ assms(2)] update_role_ok [OF _ assms(2)] set_role_permissions_ok [OF _ assms(2)])

text \<open>Accounts are neither added nor removed.\<close>

lemma mutates_accounts:
  assumes "mutates P az now actor call s = Inr (res, s')" "\<not> deletes call"
  shows "ac_id ` set (au_accounts s') = ac_id ` set (au_accounts s)"
proof (cases call)
  case (UpdateUser v input)
  with assms(1) obtain i where "update_user P i input now s = Inr (res, s')" by (auto simp: try_eval_Inr_iff)
  then show ?thesis
  proof (rule update_user_Inr)
    fix a name active
    assume "find_user s i ''The protected owner cannot be modified from Access administration.'' = Inr a"
      and s': "s' = s\<lparr>au_accounts := update_first (\<lambda>a. ac_id a = i) (\<lambda>_. a\<lparr>ac_displayName := name, ac_active := active, ac_updatedAt := Some now\<rparr>) (au_accounts s),
        au_sessions := (if active then au_sessions s else revoke_sessions i now (au_sessions s))\<rparr>"
    then have "map ac_id (au_accounts s') = map ac_id (au_accounts s)" by (simp add: find_user_found map_update_found)
    then show ?thesis by (metis list.set_map)
  qed
qed (use assms in \<open>auto simp: try_eval_Inr_iff revoke_user_sessions_def split: option.splits
    elim!: assign_roles_Inr create_role_Inr update_role_Inr set_role_permissions_Inr\<close>)

lemma call_passes:
  assumes "in_step E P sv" "casbin_engine E" "io_write d = None" "io_flush d = None" "actor \<in> ac_id ` set (au_accounts (ax_store sv))"
    "mutates P (ax_authorization sv) now actor call (ax_store sv) = Inr (res, s')" "store_ok P s'"
    "ac_id ` set (au_accounts s') = ac_id ` set (au_accounts (ax_store sv))" "isPositiveSafeInteger (au_nextSecurityEventId s' + 1)"
  shows "\<exists>sv' type detail. access E P d now actor call sv = (Inr res, sv') \<and> ax_store sv' = appendEvent (Some actor) type detail now s'"
proof -
  consider e where "mutates P (ax_authorization sv) now actor call (ax_store sv) = Inl e"
    | type detail mut where "access E P d now actor call sv = performMutation E P d (Some actor) type detail now mut sv"
        "1 \<le> length type" "length type \<le> 100" "mut (ax_store sv) = mutates P (ax_authorization sv) now actor call (ax_store sv)"
    using performed [of E P d now actor call sv] by blast
  then show ?thesis
  proof cases
    case (2 type detail mut)
    obtain a where a: "a \<in> set (au_accounts s')" "actor = ac_id a" using assms(5,8) by (metis imageE)
    have ok: "store_ok P (appendEvent (Some actor) type detail now s')"
      unfolding a(2) by (rule appendEvent_ok [OF assms(7) a(1) 2(2,3) assms(9)])
    then have "assertAuthenticationStoreShape P (appendEvent (Some actor) type detail now s') = Inr ()" by (simp add: store_shape_iff)
    moreover have "compile E (appendEvent (Some actor) type detail now s') = Inr (compiled (appendEvent (Some actor) type detail now s'))"
      by (rule compile_ok [OF ok assms(2)])
    ultimately show ?thesis
      using 2 assms(3,4,6) by (auto simp: performMutation_def rebuild_def updateAuthentication_def)
  qed (use assms(6) in simp)
qed

section \<open>Deletions that the check refuses\<close>

lemma refused:
  assumes "mut (ax_store sv) = Inr (res, s')" "\<not> store_ok P (appendEvent actorId type detail now s')"
  shows "\<exists>e. performMutation E P d actorId type detail now mut sv = (Inl e, sv)"
proof (cases "assertAuthenticationStoreShape P (appendEvent actorId type detail now s')")
  case (Inl e)
  then show ?thesis using assms(1) by (simp add: performMutation_def)
next
  case (Inr u)
  then show ?thesis using assms(2) by (simp add: store_shape_iff)
qed

end
