(* ===== verification/Session_Safety.thy ===== *)
theory Session_Safety
  imports Invitations Access_Validity
begin

text \<open>
  Sessions and invitations while requests interleave: the operations of \<open>Auth_Sessions\<close>, \<open>Access_Service\<close> and \<open>Invitations\<close> as one step
  relation, and the properties of single sessions that all of them keep, as a locale.
\<close>

section \<open>Runs\<close>

text \<open>Tokens are 32 random bytes: the hashes in \<open>F\<close>, of tokens that exist already, are not the hash of a new one.\<close>

inductive auth_step :: "engine \<Rightarrow> platform \<Rightarrow> string set \<Rightarrow> instant \<times> access_service \<Rightarrow> instant \<times> access_service \<Rightarrow> bool" for E P F where
  sign_in: "\<lbrakk>t \<le> now; hashOpaqueToken P token \<notin> F\<rbrakk> \<Longrightarrow>
    auth_step E P F (t, sv) (now, snd (create_session P failure now i remember ua ip token sv))"
| seen: "t \<le> now \<Longrightarrow> auth_step E P F (t, sv) (now, snd (authenticateToken P failure now token sv))"
| sign_out: "t \<le> now \<Longrightarrow> auth_step E P F (t, sv) (now, snd (revoke P failure now token sv))"
| end_one: "t \<le> now \<Longrightarrow> auth_step E P F (t, sv) (now, snd (revokeById P failure now i accountId sv))"
| end_all: "t \<le> now \<Longrightarrow> auth_step E P F (t, sv) (now, snd (revokeAllForAccount P failure now i exceptId sv))"
| administer: "\<lbrakk>t \<le> now; io_rollback d = None\<rbrakk> \<Longrightarrow> auth_step E P F (t, sv) (now, snd (access E P d now actor call sv))"
| invite: "\<lbrakk>t \<le> now; io_rollback d = None; hashOpaqueToken P token \<notin> F\<rbrakk> \<Longrightarrow>
    auth_step E P F (t, sv) (now, snd (createInvitation E P d now actor input token sv))"
| resend: "\<lbrakk>t \<le> now; io_rollback d = None; hashOpaqueToken P token \<notin> F\<rbrakk> \<Longrightarrow>
    auth_step E P F (t, sv) (now, snd (resendInvitation E P d now actor v token sv))"
| withdraw: "\<lbrakk>t \<le> now; io_rollback d = None\<rbrakk> \<Longrightarrow> auth_step E P F (t, sv) (now, snd (revokeInvitation E P d now actor v sv))"
| activate_local: "\<lbrakk>t \<le> now; io_rollback d = None; hashOpaqueToken P sessionToken \<notin> F\<rbrakk> \<Longrightarrow>
    auth_step E P F (t, sv) (now, snd (activateLocal E P d failure now token input ua ip sessionToken sv))"
| activate_oidc: "\<lbrakk>t \<le> now; io_rollback d = None\<rbrakk> \<Longrightarrow>
    auth_step E P F (t, sv) (now, snd (activateOidc E P d now i transactionId cl issuer subject sv))"

section \<open>What the mutators of invitations change\<close>

lemma set_update_first: "y \<in> set (update_first Q f xs) \<Longrightarrow> y \<in> set xs \<or> (\<exists>x \<in> set xs. Q x \<and> y = f x)"
  by (induction xs) (auto split: if_splits)

lemma fold_roles_frame [simp]:
  "au_sessions (fold (add_account_role i) ids s) = au_sessions s" "au_nextSessionId (fold (add_account_role i) ids s) = au_nextSessionId s"
  "au_accounts (fold (add_account_role i) ids s) = au_accounts s" "au_invitations (fold (add_account_role i) ids s) = au_invitations s"
  "au_roles (fold (add_account_role i) ids s) = au_roles s" "au_rolePermissions (fold (add_account_role i) ids s) = au_rolePermissions s"
  by (simp_all add: fold_add_account_role)

text \<open>A guard that throws.\<close>

lemma guard_Inr: "(if c then Inl e else y) = Inr z \<longleftrightarrow> \<not> c \<and> y = Inr z"
  by simp

lemma found_Inr: "(case v of None \<Rightarrow> Inl e | Some x \<Rightarrow> f x) = Inr z \<longleftrightarrow> (\<exists>x. v = Some x \<and> f x = Inr z)"
  by (cases v) simp_all

lemma create_invitation_Inr:
  assumes "create_invitation P az actor email ty v token now s = Inr (res, s')"
  obtains ids where "invited_roles az actor s v = Inr ids"
    "s' = s\<lparr>au_nextInvitationId := au_nextInvitationId s + 1, au_invitations := au_invitations s @
       [\<lparr>in_id = au_nextInvitationId s, in_email = email, in_identityType = ty, in_roleIds = ids, in_tokenHash = hashOpaqueToken P token,
          in_status = ''pending'', in_createdByAccountId = actor, in_accountId = None, in_createdAt = now,
          in_expiresAt = now + INVITATION_LIFETIME_MS, in_acceptedAt = None, in_revokedAt = None\<rparr>]\<rparr>"
  using assms unfolding create_invitation_def guard_Inr try_eval_Inr_iff Let_def by auto

lemma resend_invitation_Inr:
  assumes "resend_invitation P az actor i token now s = Inr (res, s')"
  obtains x ids where "List.find (\<lambda>x. in_id x = i) (au_invitations s) = Some x" "in_status x \<in> {''pending'', ''expired''}"
    "invited_roles az actor s (number_array (in_roleIds x)) = Inr ids"
    "s' = s\<lparr>au_invitations := update_first (\<lambda>x. in_id x = i) (\<lambda>_. x\<lparr>in_roleIds := ids, in_tokenHash := hashOpaqueToken P token,
       in_status := ''pending'', in_createdAt := now, in_expiresAt := now + INVITATION_LIFETIME_MS, in_revokedAt := None\<rparr>) (au_invitations s)\<rparr>"
  using assms unfolding resend_invitation_def found_Inr guard_Inr try_eval_Inr_iff Let_def by auto

lemma revoke_invitation_Inr:
  assumes "revoke_invitation i now s = Inr (res, s')"
  shows "s' = s\<lparr>au_invitations := update_first (\<lambda>x. in_id x = i) (\<lambda>x. x\<lparr>in_status := ''revoked'', in_revokedAt := Some now\<rparr>) (au_invitations s)\<rparr>"
  using assms by (auto simp: revoke_invitation_def split: option.splits if_splits)

lemma accept_invitation_Inr:
  assumes "accept_invitation i now cur Q s = Inr (res, s')"
  obtains ids where "activeRoleIds s (number_array (in_roleIds cur)) = Inr ids" "res = i"
    "s' = s\<lparr>au_nextAccountRoleId := au_nextAccountRoleId s + int (length ids), au_accountRoles := au_accountRoles s @ new_assignments (au_nextAccountRoleId s) i ids,
       au_invitations := update_first Q (accepted i now) (au_invitations s)\<rparr>"
  using assms by (auto simp: accept_invitation_def Let_def try_eval_Inr_iff fold_add_account_role)

lemma accept_local_Inr:
  assumes "accept_local P token input h name now s = Inr (res, s')"
  obtains cur u c where "findPendingByToken P s token now = Inr cur" "\<forall>a \<in> set (au_accounts s). ac_email a \<noteq> Some (in_email cur)"
    "accept_invitation (au_nextAccountId s) now cur (\<lambda>x. in_tokenHash x = hashOpaqueToken P token)
       (s\<lparr>au_nextAccountId := au_nextAccountId s + 1, au_accounts := au_accounts s @ [new_account (au_nextAccountId s) u (in_email cur) name now],
          au_nextLocalCredentialId := au_nextLocalCredentialId s + 1, au_localCredentials := au_localCredentials s @ [c]\<rparr>) = Inr (res, s')"
  using assms unfolding accept_local_def guard_Inr try_eval_Inr_iff Let_def list_ex_iff by blast

lemma accept_oidc_Inr:
  assumes "accept_oidc P k tr cl issuer subject now s = Inr (res, s')"
  obtains cur u name y where "List.find (\<lambda>x. in_id x = k) (au_invitations s) = Some cur" "in_status cur = ''pending''"
    "accept_invitation (au_nextAccountId s) now cur (\<lambda>x. in_id x = k)
       (s\<lparr>au_oidcTransactions := update_first (\<lambda>x. ot_id x = tr) (\<lambda>x. x\<lparr>ot_usedAt := Some now\<rparr>) (au_oidcTransactions s),
          au_nextAccountId := au_nextAccountId s + 1, au_accounts := au_accounts s @ [new_account (au_nextAccountId s) u (in_email cur) name now],
          au_nextOidcIdentityId := au_nextOidcIdentityId s + 1, au_oidcIdentities := au_oidcIdentities s @ [y]\<rparr>) = Inr (res, s')"
  using assms unfolding accept_oidc_def found_Inr guard_Inr try_eval_Inr_iff Let_def by blast

section \<open>What a step does to the sessions\<close>

lemma mutates_sessions:
  assumes "mutates P az now actor call s = Inr (res, s')"
  shows "au_sessions s' = au_sessions s \<or> (\<exists>i. au_sessions s' = revoke_sessions i now (au_sessions s)) \<or>
    (\<exists>i. au_sessions s' = filter (\<lambda>x. se_accountId x \<noteq> Some i) (au_sessions s))"
proof (cases call)
  case (UpdateUser v input)
  with assms obtain i where "update_user P i input now s = Inr (res, s')" by (auto simp: try_eval_Inr_iff)
  then show ?thesis by (elim update_user_Inr) (auto split: if_splits)
next
  case (DeleteUser v)
  with assms show ?thesis by (auto simp: try_eval_Inr_iff delete_user_def)
qed (use assms in \<open>auto simp: try_eval_Inr_iff revoke_user_sessions_def split: option.splits
    elim!: assign_roles_Inr create_role_Inr update_role_Inr set_role_permissions_Inr delete_role_Inr\<close>)

lemma accept_local_sessions: "accept_local P token input h name now s = Inr (res, s') \<Longrightarrow> au_sessions s' = au_sessions s"
  by (auto elim!: accept_local_Inr accept_invitation_Inr)

lemma accept_oidc_sessions: "accept_oidc P k tr cl issuer subject now s = Inr (res, s') \<Longrightarrow> au_sessions s' = au_sessions s"
  by (auto elim!: accept_oidc_Inr accept_invitation_Inr)

text \<open>A mutation whose mutator does not touch the sessions.\<close>

lemma performed_in_step:
  assumes "in_step E P sv" "io_rollback d = None"
  shows "in_step E P (snd (performMutation E P d actor type detail now mut sv))"
  using assms by (rule mutation_cases [where actorId = actor and type = type and detail = detail and now = now and mut = mut]) (use assms in auto)

lemma performed_sessions:
  assumes "in_step E P sv" "io_rollback d = None"
    "\<And>res s'. mut (ax_store sv) = Inr (res, s') \<Longrightarrow> au_sessions s' = au_sessions (ax_store sv)"
  shows "au_sessions (ax_store (snd (performMutation E P d actor type detail now mut sv))) = au_sessions (ax_store sv)"
  using assms(1,2)
proof (rule mutation_cases [where actorId = actor and type = type and detail = detail and now = now and mut = mut])
  fix res draft
  assume "mut (ax_store sv) = Inr (res, draft)"
    "performMutation E P d actor type detail now mut sv = (Inr res, \<lparr>ax_store = appendEvent actor type detail now draft,
       ax_authorization = ax_authorization (snd (performMutation E P d actor type detail now mut sv))\<rparr>)"
  then show ?thesis using assms(3) by (metis access_service.select_convs(1) appendEvent_frame(4) snd_conv)
qed simp

lemma createInvitation_performs:
  "snd (createInvitation E P d now actor input token sv) = sv \<or> (\<exists>email ty v. snd (createInvitation E P d now actor input token sv) =
     snd (performMutation E P d (Some actor) ''invitation-created'' (Some (JStr email)) now
       (create_invitation P (ax_authorization sv) actor email ty v token now) sv))"
  unfolding createInvitation_def by (auto split: sum.split option.split jsv.split)

lemma activateOidc_performs:
  "snd (activateOidc E P d now i tr cl issuer subject sv) = sv \<or> (\<exists>detail. snd (activateOidc E P d now i tr cl issuer subject sv) =
     snd (performMutation E P d None ''invitation-accepted-oidc'' detail now (accept_oidc P i tr cl issuer subject now) sv))"
  unfolding activateOidc_def by (auto split: sum.split option.split)

text \<open>An activation is a mutation, and then, when it passed, the creation of a session.\<close>

lemma activateLocal_performs:
  obtains (refused) e where "activateLocal E P d failure now token input ua ip st sv = (Inl e, sv)"
  | (failed) e h name detail sv1 where "activateLocal E P d failure now token input ua ip st sv = (Inl e, sv1)"
      "performMutation E P d None ''invitation-accepted-local'' detail now (accept_local P token input h name now) sv = (Inl e, sv1)"
  | (passed) i h name detail sv1 remember where
      "performMutation E P d None ''invitation-accepted-local'' detail now (accept_local P token input h name now) sv = (Inr i, sv1)"
      "activateLocal E P d failure now token input ua ip st sv = create_session P failure now i remember ua ip st sv1"
proof (cases "try_eval (findPendingByToken P (ax_store sv) token now) (\<lambda>x.
             if in_identityType x \<noteq> ''local'' then Inl ''This invitation requires OIDC login.''
             else try_eval (hashPassword P (prop_of input ''password'')) (\<lambda>h.
               try_eval (cleanDisplayName P (prop_of input ''displayName'')) (\<lambda>name. Inr (x, h, name))))")
  case (Inl e)
  then show ?thesis using that(1) by (simp add: activateLocal_def)
next
  case (Inr q)
  obtain x h name where q: "q = (x, h, name)" by (cases q)
  obtain r sv1 where m: "performMutation E P d None ''invitation-accepted-local'' (Some (JStr (in_email x))) now (accept_local P token input h name now) sv = (r, sv1)"
    by (cases "performMutation E P d None ''invitation-accepted-local'' (Some (JStr (in_email x))) now (accept_local P token input h name now) sv")
  show ?thesis
  proof (cases r)
    case (Inl e)
    show ?thesis by (rule that(2) [OF _ m [unfolded Inl]]) (simp only: activateLocal_def Inr [unfolded q] sum.case prod.case m [unfolded Inl])
  next
    case r: (Inr i)
    show ?thesis by (rule that(3) [OF m [unfolded r]]) (simp only: activateLocal_def Inr [unfolded q] sum.case prod.case m [unfolded r])
  qed
qed

text \<open>Every step keeps the rules in step with a store that passes its check.\<close>

lemma create_session_in_step: "in_step E P sv \<Longrightarrow> in_step E P (snd (create_session P failure now i remember ua ip token sv))"
  by (cases rule: create_session_cases [of P failure now i remember ua ip token sv]) (auto dest: writes_in_step)

lemma write_sessions_in_step: "in_step E P sv \<Longrightarrow> in_step E P (snd (write_sessions P failure f sv))"
  by (cases rule: write_sessions_cases [of P failure f sv]) (auto dest: writes_in_step)

lemma revoke_where_in_step: "in_step E P sv \<Longrightarrow> in_step E P (snd (revoke_where Q P failure now sv))"
  by (cases rule: revoke_where_cases [of Q P failure now sv]) (auto dest: writes_in_step)

lemma snd_case_result: "snd (case p of (Inl e, sv') \<Rightarrow> (Inl (f e), sv') | (Inr r, sv') \<Rightarrow> (Inr (g r), sv')) = snd p"
  by (cases p) (auto split: sum.split)

lemma authenticateToken_in_step: "in_step E P sv \<Longrightarrow> in_step E P (snd (authenticateToken P failure now token sv))"
  unfolding authenticateToken_def
  by (auto simp: snd_case_result revoke_def revoke_where_in_step write_sessions_in_step split: option.split)

lemma access_in_step: "in_step E P sv \<Longrightarrow> io_rollback d = None \<Longrightarrow> in_step E P (snd (access E P d now actor call sv))"
  by (rule access_cases [where call = call and now = now and actorId = actor]) auto

lemma activateLocal_in_step:
  assumes "in_step E P sv" "io_rollback d = None"
  shows "in_step E P (snd (activateLocal E P d failure now token input ua ip st sv))"
proof (cases rule: activateLocal_performs [of E P d failure now token input ua ip st sv])
  case (failed e h name detail sv1)
  then have "in_step E P sv1" using performed_in_step [OF assms] by (metis snd_conv)
  then show ?thesis by (simp add: failed(1))
next
  case (passed i h name detail sv1 remember)
  then have "in_step E P sv1" using performed_in_step [OF assms] by (metis snd_conv)
  then show ?thesis by (simp add: passed(2) create_session_in_step)
qed (simp add: assms(1))

lemma step_in_step:
  assumes "auth_step E P F s s'" "in_step E P (snd s)"
  shows "in_step E P (snd s')"
  using assms
proof (cases rule: auth_step.cases)
  case (invite t now d token sv actor input)
  then show ?thesis using assms(2) createInvitation_performs [of E P d now actor input token sv] by (auto simp: performed_in_step)
next
  case (activate_oidc t now d sv i tr cl issuer subject)
  then show ?thesis using assms(2) activateOidc_performs [of E P d now i tr cl issuer subject sv] by (auto simp: performed_in_step)
qed (use assms(2) in \<open>auto simp: create_session_in_step authenticateToken_in_step revoke_def revokeById_def revoke_where_in_step
     revokeAllForAccount_def write_sessions_in_step access_in_step activateLocal_in_step resendInvitation_def revokeInvitation_def performed_in_step
     split: sum.split\<close>)

section \<open>Properties of single sessions\<close>

definition ended :: "instant \<Rightarrow> session \<Rightarrow> bool" where
  "ended now x \<longleftrightarrow> se_revokedAt x \<noteq> None \<or> se_idleExpiresAt x \<le> now \<or> se_absoluteExpiresAt x \<le> now"

text \<open>What a provider promises of a property of a session at a time: it stays true as time goes by and when the session is revoked,
  it survives the touch of a live session, and new sessions have it.\<close>

locale session_invariant =
  fixes P :: platform and F :: "string set" and K :: "instant \<Rightarrow> session \<Rightarrow> bool"
  assumes later: "K t x \<Longrightarrow> t \<le> now \<Longrightarrow> K now x"
    and revoked: "K now x \<Longrightarrow> K now (x\<lparr>se_revokedAt := Some now\<rparr>)"
    and touched: "K now x \<Longrightarrow> \<not> ended now x \<Longrightarrow> K now (touch now x)"
    and created: "hashOpaqueToken P token \<notin> F \<Longrightarrow> K now (new_session P now i remember ua ip token s)"
begin

definition all_sessions :: "instant \<Rightarrow> access_service \<Rightarrow> bool" where
  "all_sessions t sv \<longleftrightarrow> (\<forall>x \<in> set (au_sessions (ax_store sv)). K t x)"

lemma all_later: "all_sessions t sv \<Longrightarrow> t \<le> now \<Longrightarrow> all_sessions now sv"
  by (auto simp: all_sessions_def intro: later)

lemma same_all: "au_sessions (ax_store sv') = au_sessions (ax_store sv) \<Longrightarrow> all_sessions t sv \<Longrightarrow> all_sessions t sv'"
  by (simp add: all_sessions_def)

lemma written_all: "writes P sv (n, xs) sv' \<Longrightarrow> \<forall>y \<in> set xs. K now y \<Longrightarrow> all_sessions now sv'"
  by (auto simp: all_sessions_def dest: writes_sessions)

lemma updated_all:
  assumes "all_sessions now sv" "\<And>x. x \<in> set (au_sessions (ax_store sv)) \<Longrightarrow> Q x \<Longrightarrow> K now x \<Longrightarrow> K now (f x)"
  shows "\<forall>y \<in> set (update_first Q f (au_sessions (ax_store sv))). K now y"
  using assms by (auto simp: all_sessions_def dest!: set_update_first)

lemma revoke_where_all: "all_sessions now sv \<Longrightarrow> all_sessions now (snd (revoke_where Q P failure now sv))"
proof (cases rule: revoke_where_cases [of Q P failure now sv])
  case (passed b sv')
  assume "all_sessions now sv"
  then show ?thesis using passed by (simp add: written_all [OF _ updated_all] revoked)
qed simp

lemma create_all:
  assumes "all_sessions now sv" "hashOpaqueToken P token \<notin> F"
  shows "all_sessions now (snd (create_session P failure now i remember ua ip token sv))"
proof (cases rule: create_session_cases [of P failure now i remember ua ip token sv])
  case (failed e)
  then show ?thesis using assms(1) by simp
next
  case (passed sv')
  have "\<forall>y \<in> set (au_sessions (ax_store sv) @ [new_session P now i remember ua ip token (ax_store sv)]). K now y"
    using assms(1) created [OF assms(2)] by (auto simp: all_sessions_def)
  then show ?thesis using passed by (simp add: written_all)
qed

lemma seen_all:
  assumes "all_sessions now sv" "in_step E P sv"
  shows "all_sessions now (snd (authenticateToken P failure now token sv))"
proof (cases "List.find (\<lambda>x. se_tokenHash x = hashOpaqueToken P token) (au_sessions (ax_store sv))")
  case None
  then show ?thesis using assms(1) by (simp add: authenticateToken_def)
next
  case (Some x)
  then have x: "x \<in> set (au_sessions (ax_store sv))" by (auto dest!: find_Some_iff_first)
  have "distinct (map se_id (au_sessions (ax_store sv)))"
    using store_okD(5) [OF in_step_store_ok [OF assms(2)]] by (simp add: table_ok_def)
  then have only: "y \<in> set (au_sessions (ax_store sv)) \<Longrightarrow> se_id y = se_id x \<Longrightarrow> y = x" for y
    using x by (auto simp: distinct_map dest: inj_onD)
  show ?thesis
  proof (cases "ended now x")
    case True
    then show ?thesis
      using assms(1) Some revoke_where_all [OF assms(1)]
      by (auto simp: authenticateToken_def ended_def revoke_def split: prod.split sum.split)
         (metis snd_conv)+
  next
    case False
    have touch: "all_sessions now (snd (write_sessions P failure (update_first (\<lambda>y. se_id y = se_id x) (touch now)) sv))"
    proof (cases rule: write_sessions_cases [of P failure "update_first (\<lambda>y. se_id y = se_id x) (touch now)" sv])
      case (passed sv')
      have "\<forall>y \<in> set (update_first (\<lambda>y. se_id y = se_id x) (touch now) (au_sessions (ax_store sv))). K now y"
        by (rule updated_all [OF assms(1)]) (use only False touched in blast)
      then show ?thesis using passed by (simp add: written_all)
    qed (simp add: assms(1))
    then show ?thesis
      using assms(1) Some False
      by (auto simp: authenticateToken_def ended_def split: prod.split sum.split option.split)
  qed
qed

lemma end_all_all:
  assumes "all_sessions now sv" shows "all_sessions now (snd (revokeAllForAccount P failure now i exceptId sv))"
proof -
  define f :: "session list \<Rightarrow> session list" where "f = map (\<lambda>x. if se_accountId x = Some i \<and> Some (se_id x) \<noteq> exceptId \<and> se_revokedAt x = None
    then x\<lparr>se_revokedAt := Some now\<rparr> else x)"
  have "\<forall>y \<in> set (f (au_sessions (ax_store sv))). K now y" using assms by (auto simp: f_def all_sessions_def revoked)
  then have "all_sessions now (snd (write_sessions P failure f sv))"
    by (cases rule: write_sessions_cases [of P failure f sv]) (use assms in \<open>simp_all add: written_all\<close>)
  then show ?thesis by (simp add: revokeAllForAccount_def f_def)
qed

lemma access_all:
  assumes "all_sessions now sv" "in_step E P sv" "io_rollback d = None"
  shows "all_sessions now (snd (access E P d now actor call sv))"
  using assms(2,3)
proof (cases rule: access_cases [where call = call and now = now and actorId = actor])
  case (done_with result draft type detail sv')
  then have "au_sessions (ax_store sv') = au_sessions draft" by simp
  then show ?thesis
    using mutates_sessions [OF done_with(2)] done_with(1) assms(1) by (auto simp: all_sessions_def revoke_sessions_def revoked)
qed (simp add: assms(1))

lemma activate_all:
  assumes "all_sessions now sv" "in_step E P sv" "io_rollback d = None" "hashOpaqueToken P st \<notin> F"
  shows "all_sessions now (snd (activateLocal E P d failure now token input ua ip st sv))"
proof (cases rule: activateLocal_performs [of E P d failure now token input ua ip st sv])
  case (failed e h name detail sv1)
  have "au_sessions (ax_store sv1) = au_sessions (ax_store sv)"
    using performed_sessions [OF assms(2,3), of "accept_local P token input h name now" None "''invitation-accepted-local''" detail now] failed(2)
    by (simp add: accept_local_sessions)
  then show ?thesis using failed(1) assms(1) by (simp add: same_all)
next
  case (passed i h name detail sv1 remember)
  have "au_sessions (ax_store sv1) = au_sessions (ax_store sv)"
    using performed_sessions [OF assms(2,3), of "accept_local P token input h name now" None "''invitation-accepted-local''" detail now] passed(1)
    by (simp add: accept_local_sessions)
  then show ?thesis using passed(2) assms(1,4) by (simp add: same_all create_all)
qed (simp add: assms(1))

lemma step_all:
  assumes "auth_step E P F s s'" "in_step E P (snd s)" "all_sessions (fst s) (snd s)"
  shows "all_sessions (fst s') (snd s')"
  using assms
proof (cases rule: auth_step.cases)
  case (invite t now d token sv actor input)
  then show ?thesis
    using assms(2,3) createInvitation_performs [of E P d now actor input token sv]
    by (auto intro!: same_all [OF performed_sessions all_later] elim!: create_invitation_Inr intro: all_later)
next
  case (activate_oidc t now d sv i tr cl issuer subject)
  then show ?thesis
    using assms(2,3) activateOidc_performs [of E P d now i tr cl issuer subject sv]
    by (auto intro!: same_all [OF performed_sessions all_later] simp: accept_oidc_sessions intro: all_later)
qed (use assms(2,3) in \<open>auto simp: create_all seen_all revoke_where_all revoke_def revokeById_def end_all_all access_all activate_all all_later
     resendInvitation_def revokeInvitation_def split: sum.split intro!: same_all [OF performed_sessions all_later]
     elim!: resend_invitation_Inr dest!: revoke_invitation_Inr\<close>)

text \<open>So it holds of all sessions along a run.\<close>

lemma run_all:
  assumes "(auth_step E P F)\<^sup>*\<^sup>* (t, sv) (t', sv')" "in_step E P sv" "all_sessions t sv"
  shows "all_sessions t' sv'"
proof -
  have "in_step E P (snd s') \<and> all_sessions (fst s') (snd s')" if "(auth_step E P F)\<^sup>*\<^sup>* s s'" "in_step E P (snd s)" "all_sessions (fst s) (snd s)" for s s'
    using that by induction (auto intro: step_in_step step_all)
  from this [OF assms(1)] assms(2,3) show ?thesis by simp
qed

end

section \<open>The two properties\<close>

text \<open>A session of a token of \<open>F\<close> that has ended stays ended.\<close>

definition of_ended_token :: "string set \<Rightarrow> instant \<Rightarrow> session \<Rightarrow> bool" where
  "of_ended_token F now x \<longleftrightarrow> (se_tokenHash x \<in> F \<longrightarrow> ended now x)"

interpretation ended_tokens: session_invariant P F "of_ended_token F" for P F
  by unfold_locales (auto simp: of_ended_token_def ended_def touch_def new_session_def)

text \<open>The times of a session: it was seen between its creation and now, may stay idle for a week, and ends after thirty days.\<close>

definition timed :: "instant \<Rightarrow> session \<Rightarrow> bool" where
  "timed now x \<longleftrightarrow> se_createdAt x \<le> se_lastSeenAt x \<and> se_lastSeenAt x \<le> now \<and> se_idleExpiresAt x \<le> se_lastSeenAt x + REMEMBERED_IDLE_MS \<and>
     se_absoluteExpiresAt x = se_createdAt x + ABSOLUTE_MS"

interpretation session_times: session_invariant P F timed for P F
  by unfold_locales (auto simp: timed_def touch_def new_session_def IDLE_MS_def REMEMBERED_IDLE_MS_def)

end
