(* ===== verification/Access_Administration.thy ===== *)
theory Access_Administration
  imports Access_Validity
begin

text \<open>
  The properties of the administration of users and roles, each exercised on the sample store.
\<close>

section \<open>The sample service\<close>

definition sample_platform :: platform where
  "sample_platform = \<lparr>pf_nfkc = (\<lambda>s. s), pf_sha256 = (\<lambda>s. s), pf_url = (\<lambda>s. None), pf_passwordHash = (\<lambda>s. s)\<rparr>"

definition sample_service :: access_service where
  "sample_service = \<lparr>ax_store = sample_auth, ax_authorization = compiled sample_auth\<rparr>"

definition no_io_errors :: io where
  "no_io_errors = \<lparr>io_write = None, io_flush = None, io_rollback = None\<rparr>"

lemma sample_in_step: "in_step authorizationModel P sample_service"
  using compile_ok [OF sample_ok, of authorizationModel] sample_ok
  by (simp add: in_step_def sample_service_def store_shape_iff casbin_is_model)

lemma sample_actors: "ac_id ` set sample_accounts = {1, 2, 3}"
  using sample_ids(1) by (metis list.set_map list.simps(15) set_empty2)

lemma not_built_in: "r \<notin> {1, 2, 3, 4} \<Longrightarrow> x \<in> set built_in_relations \<Longrightarrow> rp_roleId x \<noteq> r"
  using built_in_pairs_facts(2) built_in_relations_facts(2) by (metis (mono_tags, lifting) image_eqI list.set_map)

text \<open>Calls on the sample that pass, with the store that they leave.\<close>

definition revoke_call :: access_call where
  "revoke_call = RevokeUserSessions (Some (JNum 3))"

lemma small_id: "positiveId (Some (JNum 2)) label = Inr 2" "positiveId (Some (JNum 3)) label = Inr 3"
  "positiveId (Some (JNum 5)) label = Inr 5" "positiveId (Some (JNum 6)) label = Inr 6"
  using positiveId_number [of 2 label] positiveId_number [of 3 label] positiveId_number [of 5 label] positiveId_number [of 6 label]
  by (simp_all add: safe_upto)

lemma revoke_mutates:
  "mutates P az now actor revoke_call sample_auth = Inr (IdResult 3, sample_auth)"
proof -
  have "sample_auth\<lparr>au_sessions := []\<rparr> = sample_auth" by (simp add: sample_auth_def createAuthenticationStore_def createBuiltIn_split)
  then show ?thesis
    by (simp add: revoke_call_def small_id revoke_user_sessions_def find_user_def sample_fields sample_accounts_def createOwnerAccount_def
        revoke_sessions_def)
qed

lemma revoke_passes:
  "\<exists>sv' type detail. access authorizationModel P no_io_errors 10 2 revoke_call sample_service = (Inr (IdResult 3), sv') \<and>
     ax_store sv' = appendEvent (Some 2) type detail 10 sample_auth"
  by (rule call_passes [OF sample_in_step])
    (simp_all add: casbin_is_model no_io_errors_def sample_service_def sample_fields sample_actors revoke_mutates sample_ok safe_upto)

definition reactivate_call :: access_call where
  "reactivate_call = UpdateRole (Some (JNum 6)) (JObj [(''active'', JBool True)])"

lemma custom_role_6: "find_role sample_auth 6 m = Inr (custom_role 6 ''restorers'' False)"
  by (simp add: find_role_def sample_fields built_in_role_records_def BUILT_IN_ROLE_DEFINITIONS_def custom_role_def)

definition reactivated :: auth_store where
  "reactivated = put_role ((custom_role 6 ''restorers'' True)\<lparr>ro_updatedAt := 10\<rparr>) sample_auth"

lemma reactivate_mutates: "\<exists>res. mutates P az 10 actor reactivate_call sample_auth = Inr (res, reactivated)"
  by (simp add: reactivate_call_def small_id update_role_def custom_role_6 reactivated_def) (simp add: custom_role_def)

lemma reactivate_passes:
  "\<exists>res sv' type detail. access authorizationModel P no_io_errors 10 2 reactivate_call sample_service = (Inr res, sv') \<and>
     ax_store sv' = appendEvent (Some 2) type detail 10 reactivated"
proof -
  obtain res where m: "mutates P (compiled sample_auth) 10 2 reactivate_call sample_auth = Inr (res, reactivated)"
    using reactivate_mutates by blast
  have frame: "au_accounts reactivated = sample_accounts" "au_nextSecurityEventId reactivated = 2" "counters_safe reactivated"
    by (simp_all add: reactivated_def put_role_def sample_fields counters_safe_def safe_upto)
  have "store_ok P reactivated" by (rule mutates_ok [OF m sample_ok _ frame(3)]) (simp add: reactivate_call_def)
  then have "\<exists>sv' type detail. access authorizationModel P no_io_errors 10 2 reactivate_call sample_service = (Inr res, sv') \<and>
      ax_store sv' = appendEvent (Some 2) type detail 10 reactivated"
    by (intro call_passes [OF sample_in_step])
      (simp_all add: casbin_is_model no_io_errors_def sample_service_def sample_fields sample_actors m frame safe_upto)
  then show ?thesis by blast
qed

lemma sample_grants: "granted sample_auth 2 902" "\<not> granted sample_auth 2 606" "granted reactivated 2 606"
proof -
  have two: "is_active_account s 2" "\<not> is_active_owner s 2" if "au_accounts s = sample_accounts" for s
    using that by (auto simp: is_active_account_def is_active_owner_def sample_accounts_def createOwnerAccount_def)
  have roles: "has_active_role sample_auth 2 r \<longleftrightarrow> r = 5" for r
    by (auto simp: has_active_role_def sample_fields custom_role_def built_in_role_records_def BUILT_IN_ROLE_DEFINITIONS_def)
  have relations: "role_grants sample_auth 5 p \<longleftrightarrow> p \<in> {101, 201, 301, 401, 902, 904, 1001}"
      "role_grants sample_auth 6 p \<longleftrightarrow> p \<in> {101, 201, 301, 401, 606, 1001}" for p
    using not_built_in [of 5] not_built_in [of 6] by (auto simp: role_grants_def sample_fields sample_relations_def)
  show "granted sample_auth 2 902" "\<not> granted sample_auth 2 606"
    by (simp_all add: granted_def two sample_fields roles relations)
  have "has_active_role reactivated 2 6"
    by (simp add: has_active_role_def reactivated_def put_role_def sample_fields built_in_role_records_def BUILT_IN_ROLE_DEFINITIONS_def custom_role_def)
  moreover have "role_grants reactivated 6 606" using relations(2) by (simp add: role_grants_def reactivated_def put_role_def)
  ultimately show "granted reactivated 2 606"
    using two [of reactivated] by (auto simp: granted_def reactivated_def put_role_def sample_fields)
qed

lemma granted_appendEvent [simp]: "granted (appendEvent a ty de t s) i p = granted s i p"
  by (simp add: granted_def is_active_account_def is_active_owner_def has_active_role_def role_grants_def)

section \<open>Properties\<close>

text \<open>C14: The rules that the server compiles from an accepted store grant an active account exactly the permissions of its active
  roles, all of them to the active owner, and none to any other id, such as a disabled account's: the list of permissions that the
  service keeps has these keys, and a request for a permission of the catalog is allowed for these and no others.\<close>

theorem rules_grant_exactly:
  assumes "assertAuthenticationStoreShape P s = Inr ()" "casbin_engine E"
  shows "\<exists>az. compile E s = Inr az \<and>
    (\<forall>i. permissionsForSync az i = map pm_key (filter (\<lambda>p. granted s i (pm_id p)) PERMISSIONS)) \<and>
    (\<forall>i p. isPositiveSafeInteger i \<longrightarrow> p \<in> set PERMISSIONS \<longrightarrow> authorize E az i (pm_key p) = Inr (granted s i (pm_id p)))"
proof -
  have ok: "store_ok P s" using assms(1) by (simp add: store_shape_iff)
  show ?thesis
    using compile_ok [OF ok assms(2)] compiled_authorize [OF ok assms(2)] by (simp add: compiled_keys granted_keys_def)
qed

theorem rules_grant_exactly_witness:
  "\<exists>az. compile authorizationModel sample_auth = Inr az \<and>
    permissionsForSync az 2 = map pm_key (filter (\<lambda>p. granted sample_auth 2 (pm_id p)) PERMISSIONS) \<and> granted sample_auth 2 902"
  using rules_grant_exactly [of sample_platform sample_auth authorizationModel] sample_ok sample_grants(1)
  by (auto simp: store_shape_iff casbin_is_model)

text \<open>C15: A call of the administration that cannot be carried out changes nothing: neither the store nor the rules, even when the
  disk fails after the rules were replaced, as long as the old store can be written back.  After every call, the store passes its check
  and the rules are the ones compiled from it.\<close>

theorem administration_is_atomic:
  assumes "in_step E P sv" "io_rollback d = None"
  shows "in_step E P (snd (access E P d now actor call sv)) \<and>
    (\<forall>e. fst (access E P d now actor call sv) = Inl e \<longrightarrow> snd (access E P d now actor call sv) = sv)"
  using assms by (rule access_cases [where call = call and now = now and actorId = actor]) (use assms in simp_all)

theorem administration_is_atomic_witness:
  "in_step authorizationModel sample_platform (snd (access authorizationModel sample_platform
     \<lparr>io_write = None, io_flush = Some ''disk full'', io_rollback = None\<rparr> 10 2 revoke_call sample_service))"
  using administration_is_atomic [OF sample_in_step [of sample_platform],
      of "\<lparr>io_write = None, io_flush = Some ''disk full'', io_rollback = None\<rparr>" 10 2 revoke_call] by simp

text \<open>C16: The protected owner and the built-in roles are out of the reach of the administration: no call changes the account of the owner,
  its credentials, identities, sessions and roles, or a built-in role and its permissions.\<close>

theorem owner_out_of_reach:
  assumes "in_step E P sv" "io_rollback d = None"
  shows "(\<forall>a \<in> set (au_accounts (ax_store sv)). ac_protectedOwner a \<longrightarrow>
      account_view (ax_store (snd (access E P d now actor call sv))) (ac_id a) = account_view (ax_store sv) (ac_id a)) \<and>
    (\<forall>r \<in> set (au_roles (ax_store sv)). ro_builtIn r \<longrightarrow>
      role_view (ax_store (snd (access E P d now actor call sv))) (ro_id r) = role_view (ax_store sv) (ro_id r))"
proof -
  have view: "account_view (appendEvent a ty de t s) i = account_view s i" "role_view (appendEvent a ty de t s) r = role_view s r" for a ty de t s i r
    by (simp_all add: account_view_def role_view_def)
  from assms show ?thesis
  proof (cases rule: access_cases [where call = call and now = now and actorId = actor])
    case (done_with result draft type detail sv')
    then show ?thesis
      using mutates_view [OF done_with(2) in_step_store_ok [OF assms(1)]] by (simp add: view)
  qed simp
qed

theorem owner_out_of_reach_witness:
  "account_view (ax_store (snd (access authorizationModel sample_platform no_io_errors 10 2 reactivate_call sample_service))) 1
     = account_view sample_auth 1"
  using owner_out_of_reach [OF sample_in_step [of sample_platform], of no_io_errors 10 2 reactivate_call]
  by (simp add: no_io_errors_def sample_service_def sample_fields sample_accounts_def createOwnerAccount_def)

text \<open>C17: Permissions do not spread: whatever a call of the administration does, except to make a user or a role active again, an
  account has a permission afterwards only if it had it before or the acting account has it.\<close>

theorem permissions_do_not_spread:
  assumes "in_step E P sv" "casbin_engine E" "io_rollback d = None" "\<not> reactivates call"
    "granted (ax_store (snd (access E P d now actor call sv))) i p"
  shows "granted (ax_store sv) i p \<or> granted (ax_store sv) actor p"
  using assms(1,3)
proof (cases rule: access_cases [where call = call and now = now and actorId = actor])
  case (done_with result draft type detail sv')
  then show ?thesis
    using mutates_grants [of P "ax_store sv" now actor call result draft i p] assms in_step_compiled [OF assms(1,2)] in_step_store_ok [OF assms(1)]
    by simp
qed (use assms(5) in simp)

theorem permissions_do_not_spread_witness:
  "granted (ax_store (snd (access authorizationModel sample_platform no_io_errors 10 2 revoke_call sample_service))) 2 902 \<and>
   (granted (ax_store sample_service) 2 902 \<or> granted (ax_store sample_service) 2 902)"
proof -
  obtain sv' type detail where a: "access authorizationModel sample_platform no_io_errors 10 2 revoke_call sample_service = (Inr (IdResult 3), sv')"
      "ax_store sv' = appendEvent (Some 2) type detail 10 sample_auth"
    using revoke_passes by blast
  then have g: "granted (ax_store (snd (access authorizationModel sample_platform no_io_errors 10 2 revoke_call sample_service))) 2 902"
    by (simp add: sample_grants)
  from permissions_do_not_spread [OF sample_in_step _ _ _ g] g show ?thesis
    by (simp add: casbin_is_model no_io_errors_def revoke_call_def)
qed

text \<open>The exception is real: the manager of the sample, whose switched-off role may restore backups, switches the role on and may restore
  backups, which it could not before.\<close>

theorem reactivation_escalates:
  "\<not> granted sample_auth 2 606 \<and>
   granted (ax_store (snd (access authorizationModel P no_io_errors 10 2 reactivate_call sample_service))) 2 606"
proof -
  obtain res sv' type detail where "access authorizationModel P no_io_errors 10 2 reactivate_call sample_service = (Inr res, sv')"
      "ax_store sv' = appendEvent (Some 2) type detail 10 reactivated"
    using reactivate_passes by blast
  then show ?thesis by (simp add: sample_grants)
qed

text \<open>C19: The check of the resulting store refuses nothing that the guards of a call let pass: when the disk works and the counters stay
  safe integers, every call other than a deletion whose mutator succeeds answers with its result and keeps its store.\<close>

theorem guards_decide:
  assumes "in_step E P sv" "casbin_engine E" "io_write d = None" "io_flush d = None" "actor \<in> ac_id ` set (au_accounts (ax_store sv))"
    "\<not> deletes call" "mutates P (ax_authorization sv) now actor call (ax_store sv) = Inr (res, s')" "counters_safe s'"
  shows "\<exists>sv' type detail. access E P d now actor call sv = (Inr res, sv') \<and> ax_store sv' = appendEvent (Some actor) type detail now s'"
proof (rule call_passes [OF assms(1-5,7)])
  show "store_ok P s'"
    using mutates_ok assms(6-8) in_step_store_ok [OF assms(1)] in_step_compiled [OF assms(1,2)] by metis
qed (use mutates_accounts [OF assms(7,6)] assms(8) in \<open>simp_all add: counters_safe_def\<close>)

theorem guards_decide_witness:
  "\<exists>sv' type detail. access authorizationModel sample_platform no_io_errors 10 2 revoke_call sample_service = (Inr (IdResult 3), sv') \<and>
     ax_store sv' = appendEvent (Some 2) type detail 10 sample_auth"
  by (rule guards_decide [OF sample_in_step])
    (simp_all add: casbin_is_model no_io_errors_def sample_service_def sample_fields sample_actors revoke_mutates counters_safe_def safe_upto
      revoke_call_def [THEN arg_cong [where f = deletes]])

text \<open>A user cannot be deleted while one of the last 499 events names it or an invitation was created by it: the call fails
  and changes nothing, because the deletion leaves these references behind and the check refuses the store.\<close>

theorem referenced_user_not_deleted:
  assumes "positiveId v ''Account ID'' = Inr i"
    "(\<exists>e \<in> set (drop (length (au_securityEvents (ax_store sv)) - 499) (au_securityEvents (ax_store sv))). sv_accountId e = Some i) \<or>
     (\<exists>x \<in> set (au_invitations (ax_store sv)). in_createdByAccountId x = i)"
  shows "\<exists>e. deleteUser E P d now actor v sv = (Inl e, sv)"
proof (cases "delete_user i now (ax_store sv)")
  case (Inl e)
  then show ?thesis using assms(1) by (simp add: deleteUser_def performMutation_def)
next
  case (Inr q)
  obtain res s' where q: "delete_user i now (ax_store sv) = Inr (res, s')" using Inr by (cases q) simp
  then have s': "au_accounts s' = filter (\<lambda>a. ac_id a \<noteq> i) (au_accounts (ax_store sv))" "au_securityEvents s' = au_securityEvents (ax_store sv)"
      "map in_createdByAccountId (au_invitations s') = map in_createdByAccountId (au_invitations (ax_store sv))"
    by (auto simp: delete_user_def try_eval_Inr_iff)
  have gone: "i \<notin> set (map ac_id (au_accounts s'))" by (auto simp: s')
  have "\<not> store_ok P (appendEvent (Some actor) ''user-deleted'' (Some (JNum (of_int i))) now s')" (is "\<not> store_ok P ?s")
  proof
    assume ok: "store_ok P ?s"
    from assms(2) show False
    proof
      let ?es = "au_securityEvents (ax_store sv)"
      assume "\<exists>e \<in> set (drop (length ?es - 499) ?es). sv_accountId e = Some i"
      then obtain e where e: "e \<in> set (drop (length ?es - 499) ?es)" "sv_accountId e = Some i" by blast
      have "e \<in> set (au_securityEvents ?s)" using e(1) by (simp add: appendEvent_def s'(2))
      then have "Some i \<in> set (map sv_accountId (au_securityEvents ?s))" using e(2) by force
      then show False using store_okD(20) [OF ok] gone by (simp add: owners_ok_def)
    next
      assume "\<exists>x \<in> set (au_invitations (ax_store sv)). in_createdByAccountId x = i"
      then have "i \<in> set (map in_createdByAccountId (au_invitations s'))" unfolding s'(3) by force
      then obtain x where "x \<in> set (au_invitations s')" "in_createdByAccountId x = i" by auto
      then show False using store_okD(37) [OF ok] gone by (auto simp: invitation_ok_def)
    qed
  qed
  then show ?thesis
    unfolding deleteUser_def assms(1) sum.case by (rule refused [rotated]) (rule q)
qed

theorem referenced_user_not_deleted_witness:
  "\<exists>e. deleteUser authorizationModel sample_platform no_io_errors 10 1 (Some (JNum 3)) sample_service = (Inl e, sample_service)"
  by (rule referenced_user_not_deleted [where i = 3]) (simp_all add: small_id sample_service_def sample_fields sample_event_def)

text \<open>A custom role cannot be deleted while any invitation names it, pending or not: the guard of the operation asks for pending
  invitations only, but the check of the store refuses the reference that the other invitations keep.\<close>

theorem invited_role_not_deleted:
  assumes "positiveId v ''Role ID'' = Inr i" "x \<in> set (au_invitations (ax_store sv))" "i \<in> set (in_roleIds x)"
  shows "\<exists>e. deleteRole E P d now actor v sv = (Inl e, sv)"
proof (cases "delete_role i now (ax_store sv)")
  case (Inl e)
  then show ?thesis using assms(1) by (simp add: deleteRole_def performMutation_def)
next
  case (Inr q)
  obtain res s' where q: "delete_role i now (ax_store sv) = Inr (res, s')" using Inr by (cases q) simp
  then have s': "au_roles s' = filter (\<lambda>r. ro_id r \<noteq> i) (au_roles (ax_store sv))" "au_invitations s' = au_invitations (ax_store sv)"
    by (auto elim!: delete_role_Inr)
  have "\<not> store_ok P (appendEvent (Some actor) ''role-deleted'' (Some (JNum (of_int i))) now s')"
  proof
    assume "store_ok P (appendEvent (Some actor) ''role-deleted'' (Some (JNum (of_int i))) now s')"
    then have "invitation_ok (map ac_id (au_accounts s')) (map ro_id (au_roles s')) x"
      using store_okD(37) assms(2) by (fastforce simp: s'(2))
    then show False using assms(3) by (auto simp: invitation_ok_def s'(1))
  qed
  then show ?thesis
    unfolding deleteRole_def assms(1) sum.case by (rule refused [rotated]) (rule q)
qed

definition accepted_invitation :: invitation where
  "accepted_invitation = \<lparr>in_id = 1, in_email = ''op@lab.io'', in_identityType = ''local'', in_roleIds = [5], in_tokenHash = replicate 64 (CHR ''a''),
     in_status = ''accepted'', in_createdByAccountId = 1, in_accountId = Some 3, in_createdAt = 0, in_expiresAt = 9, in_acceptedAt = Some 5,
     in_revokedAt = None\<rparr>"

theorem invited_role_not_deleted_witness:
  "\<exists>e. deleteRole authorizationModel sample_platform no_io_errors 10 1 (Some (JNum 5))
     (sample_service\<lparr>ax_store := sample_auth\<lparr>au_invitations := [accepted_invitation]\<rparr>\<rparr>)
     = (Inl e, sample_service\<lparr>ax_store := sample_auth\<lparr>au_invitations := [accepted_invitation]\<rparr>\<rparr>)"
  by (rule invited_role_not_deleted [where i = 5 and x = accepted_invitation]) (simp_all add: small_id accepted_invitation_def)

end
