(* ===== verification/Session_Lifecycle.thy ===== *)
theory Session_Lifecycle
  imports Session_Safety Access_Administration
begin

text \<open>
  The properties of sessions: what ends a session ends it for good, and who is authenticated has a session that is current and an
  active account.
\<close>

section \<open>Sessions that end\<close>

text \<open>The calls of the administration that end the sessions of an account.\<close>

fun ends_sessions_of :: "int \<Rightarrow> access_call \<Rightarrow> bool" where
  "ends_sessions_of i (UpdateUser v input) = (positiveId v ''Account ID'' = Inr i \<and>
     prop_of input ''active'' \<noteq> None \<and> prop_of input ''active'' \<noteq> Some (JBool True))"
| "ends_sessions_of i (RevokeUserSessions v) = (positiveId v ''Account ID'' = Inr i)"
| "ends_sessions_of i (DeleteUser v) = (positiveId v ''Account ID'' = Inr i)"
| "ends_sessions_of i _ = False"

text \<open>The session \<open>x\<close> of a token ends: by time, by the token itself, or with all sessions of its account.\<close>

inductive ends :: "engine \<Rightarrow> platform \<Rightarrow> instant \<Rightarrow> string \<Rightarrow> session \<Rightarrow> access_service \<Rightarrow> access_service \<Rightarrow> bool" for E P now token x sv where
  by_time: "ended now x \<Longrightarrow> ends E P now token x sv sv"
| by_token: "token \<noteq> [] \<Longrightarrow> revoke P failure now token sv = (Inr b, sv') \<Longrightarrow> ends E P now token x sv sv'"
| by_account: "se_accountId x = Some i \<Longrightarrow> Some (se_id x) \<noteq> exceptId \<Longrightarrow> revokeAllForAccount P failure now i exceptId sv = (Inr (), sv') \<Longrightarrow>
    ends E P now token x sv sv'"
| by_administration: "se_accountId x = Some i \<Longrightarrow> ends_sessions_of i call \<Longrightarrow> io_rollback d = None \<Longrightarrow>
    access E P d now actor call sv = (Inr r, sv') \<Longrightarrow> ends E P now token x sv sv'"

lemma ends_call:
  assumes "mutates P az now actor call s = Inr (res, s')" "ends_sessions_of i call" "y \<in> set (au_sessions s')" "se_accountId y = Some i"
  shows "ended now y"
proof (cases call)
  case (UpdateUser v input)
  with assms(1,2) have u: "update_user P i input now s = Inr (res, s')" "prop_of input ''active'' \<notin> {None, Some (JBool True)}"
    by (auto simp: try_eval_Inr_iff)
  from u(1) show ?thesis
    by (rule update_user_Inr) (use u(2) assms(3,4) in \<open>auto simp: revoke_sessions_def ended_def split: option.splits if_splits\<close>)
qed (use assms in \<open>auto simp: try_eval_Inr_iff delete_user_def revoke_user_sessions_def revoke_sessions_def ended_def split: if_splits\<close>)

lemma update_first_unique:
  assumes "distinct (map g xs)" "x \<in> set xs" "Q x" "\<And>y. Q y \<Longrightarrow> g y = g x" "\<And>y. g (f y) = g y" "y \<in> set (update_first Q f xs)" "g y = g x"
  shows "y = f x"
  using assms(1,2,6)
proof (induction xs)
  case (Cons z zs)
  show ?case
  proof (cases "Q z")
    case True
    then have "g z = g x" using assms(4) by blast
    then have "z = x" using Cons.prems(1,2) by auto
    then show ?thesis using True Cons.prems assms(7) by (auto simp: image_iff)
  next
    case False
    then have "x \<in> set zs" "z \<noteq> x" using assms(3) Cons.prems(2) by auto
    then have "g z \<noteq> g x" using Cons.prems(1) by force
    then show ?thesis using False Cons assms(7) \<open>x \<in> set zs\<close> by auto
  qed
qed simp

text \<open>After an end, every session with the hash of the token has ended.\<close>

lemma ends_token:
  assumes "ends E P now token x sv sv'" "in_step E P sv" "x \<in> set (au_sessions (ax_store sv))" "se_tokenHash x = hashOpaqueToken P token"
  shows "in_step E P sv' \<and> ended_tokens.all_sessions {hashOpaqueToken P token} now sv'"
proof -
  let ?h = "hashOpaqueToken P token" and ?xs = "au_sessions (ax_store sv)"
  have d: "distinct (map se_tokenHash ?xs)" using store_okD(23) [OF in_step_store_ok [OF assms(2)]] .
  have only: "y = x" if "y \<in> set ?xs" "se_tokenHash y = ?h" for y
    using d that assms(3,4) by (metis distinct_map inj_onD)
  from assms(1) show ?thesis
  proof cases
    case by_time
    then show ?thesis using assms(2) only by (auto simp: ended_tokens.all_sessions_def of_ended_token_def)
  next
    case (by_token failure b)
    then have r: "revoke_where (\<lambda>x. se_tokenHash x = ?h) P failure now sv = (Inr b, sv')" by (simp add: revoke_def)
    then have w: "writes P sv (au_nextSessionId (ax_store sv),
        update_first (\<lambda>x. se_tokenHash x = ?h \<and> se_revokedAt x = None) (\<lambda>x. x\<lparr>se_revokedAt := Some now\<rparr>) ?xs) sv'"
      by (cases rule: revoke_where_cases [of "\<lambda>x. se_tokenHash x = ?h" P failure now sv]) auto
    have "ended now y" if "y \<in> set (au_sessions (ax_store sv'))" "se_tokenHash y = ?h" for y
    proof (cases "se_revokedAt x = None")
      case True
      have "y = x\<lparr>se_revokedAt := Some now\<rparr>"
        by (rule update_first_unique [OF d assms(3), where Q = "\<lambda>x. se_tokenHash x = ?h \<and> se_revokedAt x = None"])
          (use True that assms(4) writes_sessions [OF w] in auto)
      then show ?thesis by (simp add: ended_def)
    next
      case False
      have "update_first (\<lambda>x. se_tokenHash x = ?h \<and> se_revokedAt x = None) (\<lambda>x. x\<lparr>se_revokedAt := Some now\<rparr>) zs = zs" if "set zs \<subseteq> set ?xs" for zs
        using that by (induction zs) (use only False in auto)
      then have "au_sessions (ax_store sv') = ?xs" using writes_sessions [OF w] by simp
      then show ?thesis using that only False by (auto simp: ended_def)
    qed
    then show ?thesis using writes_in_step [OF w assms(2)] by (auto simp: ended_tokens.all_sessions_def of_ended_token_def)
  next
    case (by_account i exceptId failure)
    define f :: "session list \<Rightarrow> session list" where "f = map (\<lambda>x. if se_accountId x = Some i \<and> Some (se_id x) \<noteq> exceptId \<and> se_revokedAt x = None
      then x\<lparr>se_revokedAt := Some now\<rparr> else x)"
    have w: "writes P sv (au_nextSessionId (ax_store sv), f ?xs) sv'"
      using by_account(3) by (cases rule: write_sessions_cases [of P failure f sv]) (auto simp: revokeAllForAccount_def f_def)
    have "ended now y" if "y \<in> set (f ?xs)" "se_tokenHash y = ?h" for y
      using that only by_account(1,2) by (auto simp: f_def ended_def split: if_splits)
    then show ?thesis
      using writes_in_step [OF w assms(2)] writes_sessions [OF w] by (auto simp: ended_tokens.all_sessions_def of_ended_token_def)
  next
    case (by_administration i call d actor r)
    from assms(2) by_administration(3) show ?thesis
    proof (cases rule: access_cases [where call = call and now = now and actorId = actor])
      case (done_with result draft type detail sv'')
      then have draft: "au_sessions (ax_store sv') = au_sessions draft" "in_step E P sv'" using by_administration(4) by simp_all
      have "ended now y" if y: "y \<in> set (au_sessions draft)" "se_tokenHash y = ?h" for y
      proof (cases "se_accountId y = Some i")
        case True
        then show ?thesis using ends_call [OF done_with(2) by_administration(2) y(1)] by simp
      next
        case False
        then show ?thesis
          using y mutates_sessions [OF done_with(2)] only by_administration(1) by (auto simp: revoke_sessions_def split: if_splits)
      qed
      then show ?thesis using draft by (auto simp: ended_tokens.all_sessions_def of_ended_token_def)
    qed (use by_administration(4) in simp)
  qed
qed

text \<open>A token whose sessions have ended does not authenticate.\<close>

lemma ended_refused:
  assumes "ended_tokens.all_sessions {hashOpaqueToken P token} now sv"
  shows "fst (authenticateToken P failure now token sv) \<noteq> Inr (Some q)"
proof (cases "List.find (\<lambda>x. se_tokenHash x = hashOpaqueToken P token) (au_sessions (ax_store sv))")
  case (Some x)
  then have "ended now x" using assms by (auto simp: ended_tokens.all_sessions_def of_ended_token_def dest!: find_Some_iff_first)
  then show ?thesis
    using Some by (cases "revoke P failure now token sv") (auto simp: authenticateToken_def ended_def split: sum.split)
qed (simp add: authenticateToken_def)

section \<open>A service with a session\<close>

lemma store_ok_sessions:
  assumes "store_ok P s" "table_ok (map se_id xs) n" "owners_ok (map ac_id (au_accounts s)) (map se_accountId xs)"
    "\<forall>x \<in> set xs. token_hash_ok (se_tokenHash x)" "distinct (map se_tokenHash xs)"
  shows "store_ok P (s\<lparr>au_nextSessionId := n, au_sessions := xs\<rparr>)"
proof -
  note ok = store_okD [OF assms(1)]
  let ?s = "s\<lparr>au_nextSessionId := n, au_sessions := xs\<rparr>"
  have held: "owner_role_held ?s" using ok(36) by (simp add: owner_role_held_def)
  have frame: "au_version ?s = au_version s" "au_accounts ?s = au_accounts s" "au_localCredentials ?s = au_localCredentials s"
    "au_oidcIdentities ?s = au_oidcIdentities s" "au_recoveryTokens ?s = au_recoveryTokens s" "au_securityEvents ?s = au_securityEvents s"
    "au_oidcTransactions ?s = au_oidcTransactions s" "au_roles ?s = au_roles s" "au_rolePermissions ?s = au_rolePermissions s"
    "au_accountRoles ?s = au_accountRoles s" "au_invitations ?s = au_invitations s" "au_identityLinkRequests ?s = au_identityLinkRequests s"
    "au_configuration ?s = au_configuration s" "au_sessions ?s = xs" "au_nextSessionId ?s = n" "au_nextAccountId ?s = au_nextAccountId s"
    "au_nextLocalCredentialId ?s = au_nextLocalCredentialId s" "au_nextOidcIdentityId ?s = au_nextOidcIdentityId s"
    "au_nextRecoveryTokenId ?s = au_nextRecoveryTokenId s" "au_nextSecurityEventId ?s = au_nextSecurityEventId s"
    "au_nextOidcTransactionId ?s = au_nextOidcTransactionId s" "au_nextRoleId ?s = au_nextRoleId s"
    "au_nextRolePermissionId ?s = au_nextRolePermissionId s" "au_nextAccountRoleId ?s = au_nextAccountRoleId s"
    "au_nextInvitationId ?s = au_nextInvitationId s" "au_nextIdentityLinkRequestId ?s = au_nextIdentityLinkRequestId s"
    by simp_all
  show ?thesis by (rule store_okI; (unfold frame)?) (rule ok assms(2-5) held)+
qed

definition sample_token :: string where
  "sample_token = replicate 64 (CHR ''a'')"

definition signed_in :: session where
  "signed_in = new_session sample_platform 10 3 None None None sample_token sample_auth"

definition session_service :: access_service where
  "session_service = sample_service\<lparr>ax_store := sample_auth\<lparr>au_nextSessionId := 2, au_sessions := [signed_in]\<rparr>\<rparr>"

lemma sample_token_hash: "token_hash_ok sample_token" "sample_token \<noteq> []" "hashOpaqueToken sample_platform sample_token = sample_token"
  by (simp_all add: sample_token_def token_hash_ok_def hashOpaqueToken_def sample_platform_def list_all_iff)

lemma session_store_ok:
  "store_ok P (sample_auth\<lparr>au_nextSessionId := 2, au_sessions := [signed_in]\<rparr>)"
  by (rule store_ok_sessions [OF sample_ok])
    (simp_all add: signed_in_def new_session_def sample_fields sample_ids table_ok_def owners_ok_def safe_upto sample_token_hash)

lemma sample_signs_in:
  "create_session sample_platform None 10 3 None None None sample_token sample_service = (Inr (sample_token, signed_in), session_service)"
  using session_store_ok [of sample_platform, unfolded store_shape_iff [symmetric]]
  by (simp add: create_session_def updateAuthentication_def session_service_def sample_service_def sample_fields signed_in_def [symmetric])

lemma session_in_step: "in_step authorizationModel sample_platform session_service"
  using create_session_in_step [OF sample_in_step [of sample_platform], of None 10 3 None None None sample_token] sample_signs_in by simp

section \<open>Properties\<close>

text \<open>C18: Safety: what ends a session ends it for good.  In a server whose rules and store are in step, a session ends by time, by its token,
  with all sessions of its account but an excepted one, or because the administration disables or deletes the user or revokes its
  sessions.  Whatever sign-ins, requests, calls of the administration, invitations and activations follow, also one that enables the user
  again, as long as no new random token is the same and no rollback fails, its token does not authenticate at any later time.\<close>

theorem ended_sessions_stay_ended:
  assumes "in_step E P sv" "x \<in> set (au_sessions (ax_store sv))" "se_tokenHash x = hashOpaqueToken P token" "ends E P t token x sv sv'"
    "(auth_step E P {hashOpaqueToken P token})\<^sup>*\<^sup>* (t, sv') (t', sv'')" "t' \<le> now"
  shows "fst (authenticateToken P failure now token sv'') \<noteq> Inr (Some q)"
proof -
  have "in_step E P sv'" "ended_tokens.all_sessions {hashOpaqueToken P token} t sv'" using ends_token [OF assms(4,1-3)] by simp_all
  then have "ended_tokens.all_sessions {hashOpaqueToken P token} t' sv''" by (rule ended_tokens.run_all [OF assms(5)])
  from ended_refused [OF ended_tokens.all_later [OF this assms(6)]] show ?thesis .
qed

theorem ended_sessions_stay_ended_witness:
  "\<exists>sv'. revoke sample_platform None 20 sample_token session_service = (Inr True, sv') \<and>
     (\<forall>q. fst (authenticateToken sample_platform None 30 sample_token sv') \<noteq> Inr (Some q))"
proof -
  have "store_ok sample_platform (sample_auth\<lparr>au_nextSessionId := 2, au_sessions := [signed_in\<lparr>se_revokedAt := Some 20\<rparr>]\<rparr>)"
    by (rule store_ok_sessions [OF sample_ok])
      (simp_all add: signed_in_def new_session_def sample_fields sample_ids table_ok_def owners_ok_def safe_upto sample_token_hash)
  then have ok: "assertAuthenticationStoreShape sample_platform
      (sample_auth\<lparr>au_nextSessionId := 2, au_sessions := [signed_in\<lparr>se_revokedAt := Some 20\<rparr>]\<rparr>) = Inr ()"
    by (simp add: store_shape_iff)
  have found: "se_tokenHash signed_in = sample_token" "se_revokedAt signed_in = None"
    by (simp_all add: signed_in_def new_session_def sample_token_hash)
  obtain sv' where r: "revoke sample_platform None 20 sample_token session_service = (Inr True, sv')"
    using ok
    by (simp add: revoke_def revoke_where_def write_sessions_def updateAuthentication_def session_service_def sample_service_def
        sample_token_hash found)
  have "fst (authenticateToken sample_platform None 30 sample_token sv') \<noteq> Inr (Some q)" for q
    by (rule ended_sessions_stay_ended [where x = signed_in, OF session_in_step _ _ ends.by_token [OF sample_token_hash(2) r] rtranclp.rtrancl_refl])
      (simp_all add: session_service_def found sample_token_hash)
  with r show ?thesis by blast
qed

text \<open>Who is authenticated is authenticated now.  In every state that the server reaches from one without sessions, a token that
  authenticates belongs to a session that has not been revoked, was created less than thirty days ago and seen within the last week,
  and to an account that is active.\<close>

theorem authentication_is_current:
  assumes "in_step E P sv" "au_sessions (ax_store sv) = []" "(auth_step E P F)\<^sup>*\<^sup>* (t, sv) (t', sv')" "t' \<le> now"
    "fst (authenticateToken P failure now token sv') = Inr (Some (a, x))"
  shows "x \<in> set (au_sessions (ax_store sv')) \<and> se_tokenHash x = hashOpaqueToken P token \<and> se_revokedAt x = None \<and>
    now < se_createdAt x + ABSOLUTE_MS \<and> now < se_lastSeenAt x + REMEMBERED_IDLE_MS \<and>
    a \<in> set (au_accounts (ax_store sv')) \<and> ac_active a \<and> se_accountId x = Some (ac_id a)"
proof -
  have "session_times.all_sessions t sv" using assms(2) by (simp add: session_times.all_sessions_def)
  with assms(3,1) have "session_times.all_sessions t' sv'" by (rule session_times.run_all)
  then have times: "\<forall>y \<in> set (au_sessions (ax_store sv')). timed now y"
    using session_times.all_later [OF _ assms(4)] by (simp add: session_times.all_sessions_def)
  obtain y where y: "List.find (\<lambda>x. se_tokenHash x = hashOpaqueToken P token) (au_sessions (ax_store sv')) = Some y" "\<not> ended now y"
      "List.find (\<lambda>b. Some (ac_id b) = se_accountId y \<and> ac_active b) (au_accounts (ax_store sv')) = Some a" "y = x"
    using assms(5) by (auto simp: authenticateToken_def ended_def split: if_splits option.splits prod.splits sum.splits)
  have "timed now x" using times y(1,4) by (auto dest!: find_Some_iff_first)
  then show ?thesis using y by (auto simp: ended_def timed_def dest!: find_Some_iff_first)
qed

theorem authentication_is_current_witness:
  "\<exists>a. fst (authenticateToken sample_platform None 20 sample_token session_service) = Inr (Some (a, signed_in)) \<and> ac_active a \<and> ac_id a = 3"
proof -
  obtain a where a: "fst (authenticateToken sample_platform None 20 sample_token session_service) = Inr (Some (a, signed_in))"
    by (simp add: authenticateToken_def session_service_def sample_token_hash signed_in_def new_session_def sample_fields sample_accounts_def
        createOwnerAccount_def IDLE_MS_def ABSOLUTE_MS_def TOUCH_INTERVAL_MS_def)
  have "auth_step authorizationModel sample_platform {} (10, sample_service) (10, session_service)"
    using auth_step.sign_in [of 10 10 sample_platform sample_token "{}" authorizationModel sample_service None 3 None None None] sample_signs_in
    by simp
  then have "(auth_step authorizationModel sample_platform {})\<^sup>*\<^sup>* (10, sample_service) (10, session_service)" by (rule r_into_rtranclp)
  from authentication_is_current [OF sample_in_step _ this _ a] a show ?thesis
    by (simp add: sample_service_def sample_fields signed_in_def new_session_def)
qed

end
