(* ===== verification/Invitation_Lifecycle.thy ===== *)
theory Invitation_Lifecycle
  imports Session_Lifecycle
begin

text \<open>
  The properties of invitations: a token activates one account, whatever requests follow, and an invitation that has expired blocks
  its address.
\<close>

section \<open>The life of an invitation\<close>

text \<open>From one list of invitations to a later one: an invitation with a token of \<open>F\<close> was there before, and its status is what it was,
  accepted or revoked.\<close>

definition evolves :: "string set \<Rightarrow> invitation list \<Rightarrow> invitation list \<Rightarrow> bool" where
  "evolves F xs ys \<longleftrightarrow> (\<forall>y \<in> set ys. in_tokenHash y \<in> F \<longrightarrow>
     (\<exists>x \<in> set xs. in_tokenHash x = in_tokenHash y \<and> (in_status y = in_status x \<or> in_status y \<in> {''accepted'', ''revoked''})))"

definition spent :: "string set \<Rightarrow> invitation list \<Rightarrow> bool" where
  "spent F xs \<longleftrightarrow> (\<forall>x \<in> set xs. in_tokenHash x \<in> F \<longrightarrow> in_status x \<in> {''accepted'', ''revoked''})"

lemma evolves_refl [simp]: "evolves F xs xs"
  by (auto simp: evolves_def)

lemma evolves_spent: "evolves F xs ys \<Longrightarrow> spent F xs \<Longrightarrow> spent F ys"
  by (fastforce simp: evolves_def spent_def)

lemma evolves_update:
  assumes "\<And>x. x \<in> set xs \<Longrightarrow> Q x \<Longrightarrow> in_tokenHash (f x) \<notin> F \<or>
    in_tokenHash (f x) = in_tokenHash x \<and> (in_status (f x) = in_status x \<or> in_status (f x) \<in> {''accepted'', ''revoked''})"
  shows "evolves F xs (update_first Q f xs)"
  unfolding evolves_def by (metis assms set_update_first)

lemma evolves_map:
  "(\<And>x. in_tokenHash (f x) = in_tokenHash x \<and> in_status (f x) = in_status x) \<Longrightarrow> evolves F xs (map f xs)"
  by (auto simp: evolves_def)

lemma mutates_invitations:
  assumes "mutates P az now actor call s = Inr (res, s')"
  shows "evolves F (au_invitations s) (au_invitations s')"
proof (cases call)
  case (DeleteUser v)
  with assms show ?thesis by (auto simp: try_eval_Inr_iff delete_user_def intro!: evolves_map)
qed (use assms in \<open>auto simp: try_eval_Inr_iff revoke_user_sessions_def split: option.splits
    elim!: assign_roles_Inr create_role_Inr update_role_Inr set_role_permissions_Inr delete_role_Inr update_user_Inr\<close>)

lemma create_invitation_evolves:
  "create_invitation P az actor email ty v token now s = Inr (res, s') \<Longrightarrow> hashOpaqueToken P token \<notin> F \<Longrightarrow>
   evolves F (au_invitations s) (au_invitations s')"
  by (auto elim!: create_invitation_Inr simp: evolves_def)

lemma resend_invitation_evolves:
  "resend_invitation P az actor i token now s = Inr (res, s') \<Longrightarrow> hashOpaqueToken P token \<notin> F \<Longrightarrow>
   evolves F (au_invitations s) (au_invitations s')"
  by (erule resend_invitation_Inr) (simp add: evolves_update)

lemma revoke_invitation_evolves:
  "revoke_invitation i now s = Inr (res, s') \<Longrightarrow> evolves F (au_invitations s) (au_invitations s')"
  by (drule revoke_invitation_Inr) (simp add: evolves_update)

lemma accept_invitation_evolves:
  "accept_invitation i now cur Q s = Inr (res, s') \<Longrightarrow> evolves F (au_invitations s) (au_invitations s')"
  by (erule accept_invitation_Inr) (simp add: evolves_update accepted_def)

lemma accept_local_evolves:
  "accept_local P token input h name now s = Inr (res, s') \<Longrightarrow> evolves F (au_invitations s) (au_invitations s')"
  by (erule accept_local_Inr) (drule accept_invitation_evolves [where F = F], simp)

lemma accept_oidc_evolves:
  "accept_oidc P k tr cl issuer subject now s = Inr (res, s') \<Longrightarrow> evolves F (au_invitations s) (au_invitations s')"
  by (erule accept_oidc_Inr) (drule accept_invitation_evolves [where F = F], simp)

lemma performed_evolves:
  assumes "in_step E P sv" "io_rollback d = None"
    "\<And>res s'. mut (ax_store sv) = Inr (res, s') \<Longrightarrow> evolves F (au_invitations (ax_store sv)) (au_invitations s')"
  shows "evolves F (au_invitations (ax_store sv)) (au_invitations (ax_store (snd (performMutation E P d actor type detail now mut sv))))"
  using assms(1,2)
proof (rule mutation_cases [where actorId = actor and type = type and detail = detail and now = now and mut = mut])
  fix res draft
  assume "mut (ax_store sv) = Inr (res, draft)"
    "performMutation E P d actor type detail now mut sv = (Inr res, \<lparr>ax_store = appendEvent actor type detail now draft,
       ax_authorization = ax_authorization (snd (performMutation E P d actor type detail now mut sv))\<rparr>)"
  then show ?thesis using assms(3) by (metis access_service.select_convs(1) appendEvent_frame(8) snd_conv)
qed simp

lemma writes_invitations: "writes P sv nxs sv' \<Longrightarrow> au_invitations (ax_store sv') = au_invitations (ax_store sv)"
  by (auto simp: writes_iff)

lemma session_operations_invitations [simp]:
  "au_invitations (ax_store (snd (create_session P failure now i remember ua ip token sv))) = au_invitations (ax_store sv)"
  "au_invitations (ax_store (snd (write_sessions P failure f sv))) = au_invitations (ax_store sv)"
  "au_invitations (ax_store (snd (revoke_where R P failure now sv))) = au_invitations (ax_store sv)"
proof -
  show "au_invitations (ax_store (snd (create_session P failure now i remember ua ip token sv))) = au_invitations (ax_store sv)"
    by (cases rule: create_session_cases [of P failure now i remember ua ip token sv]) (simp_all add: writes_invitations)
  show "au_invitations (ax_store (snd (write_sessions P failure f sv))) = au_invitations (ax_store sv)"
    by (cases rule: write_sessions_cases [of P failure f sv]) (simp_all add: writes_invitations)
  show "au_invitations (ax_store (snd (revoke_where R P failure now sv))) = au_invitations (ax_store sv)"
    by (cases rule: revoke_where_cases [of R P failure now sv]) (simp_all add: writes_invitations)
qed

lemma authenticateToken_invitations [simp]:
  "au_invitations (ax_store (snd (authenticateToken P failure now token sv))) = au_invitations (ax_store sv)"
  unfolding authenticateToken_def by (auto simp: snd_case_result revoke_def split: option.split)

lemma access_evolves:
  assumes "in_step E P sv" "io_rollback d = None"
  shows "evolves F (au_invitations (ax_store sv)) (au_invitations (ax_store (snd (access E P d now actor call sv))))"
  using assms
proof (cases rule: access_cases [where call = call and now = now and actorId = actor])
  case (done_with result draft type detail sv')
  then show ?thesis using mutates_invitations [OF done_with(2)] by simp
qed simp

lemma activateLocal_evolves:
  assumes "in_step E P sv" "io_rollback d = None"
  shows "evolves F (au_invitations (ax_store sv)) (au_invitations (ax_store (snd (activateLocal E P d failure now token input ua ip st sv))))"
proof (cases rule: activateLocal_performs [of E P d failure now token input ua ip st sv])
  case (failed e h name detail sv1)
  then show ?thesis
    using performed_evolves [OF assms, of "accept_local P token input h name now" F None "''invitation-accepted-local''" detail now]
    by (simp add: accept_local_evolves)
next
  case (passed i h name detail sv1 remember)
  then show ?thesis
    using performed_evolves [OF assms, of "accept_local P token input h name now" F None "''invitation-accepted-local''" detail now]
    by (simp add: accept_local_evolves)
qed simp

lemma step_evolves:
  assumes "auth_step E P F s s'" "in_step E P (snd s)"
  shows "evolves F (au_invitations (ax_store (snd s))) (au_invitations (ax_store (snd s')))"
  using assms
proof (cases rule: auth_step.cases)
  case (invite t now d token sv actor input)
  then show ?thesis
    using assms(2) createInvitation_performs [of E P d now actor input token sv]
    by (auto simp: performed_evolves create_invitation_evolves)
next
  case (activate_oidc t now d sv i tr cl issuer subject)
  then show ?thesis
    using assms(2) activateOidc_performs [of E P d now i tr cl issuer subject sv] by (auto simp: performed_evolves accept_oidc_evolves)
qed (use assms(2) in \<open>auto simp: revoke_def revokeById_def revokeAllForAccount_def access_evolves activateLocal_evolves resendInvitation_def
     revokeInvitation_def performed_evolves resend_invitation_evolves revoke_invitation_evolves split: sum.split\<close>)

lemma run_spent:
  assumes "(auth_step E P F)\<^sup>*\<^sup>* (t, sv) (t', sv')" "in_step E P sv" "spent F (au_invitations (ax_store sv))"
  shows "spent F (au_invitations (ax_store sv'))"
proof -
  have "in_step E P (snd s') \<and> spent F (au_invitations (ax_store (snd s')))"
    if "(auth_step E P F)\<^sup>*\<^sup>* s s'" "in_step E P (snd s)" "spent F (au_invitations (ax_store (snd s)))" for s s'
    using that by induction (auto intro: step_in_step evolves_spent step_evolves)
  from this [OF assms(1)] assms(2,3) show ?thesis by simp
qed

section \<open>An invitation is accepted once\<close>

lemma pending_first:
  assumes "findPendingByToken P s token now = Inr x" "distinct (map in_tokenHash (au_invitations s))"
  shows "spent {hashOpaqueToken P token} (update_first (\<lambda>x. in_tokenHash x = hashOpaqueToken P token) (accepted i now) (au_invitations s))"
proof -
  have "spent {h} (update_first (\<lambda>x. in_tokenHash x = h) (accepted i now) xs)" if "distinct (map in_tokenHash xs)" for h xs
    using that by (induction xs) (auto simp: spent_def accepted_def rev_image_eqI)
  then show ?thesis using assms(2) by simp
qed

lemma spent_refused:
  assumes "spent {hashOpaqueToken P token} (au_invitations (ax_store sv))"
  shows "activateLocal E P d failure now token input ua ip st sv = (Inl ''Invitation is invalid or no longer available.'', sv)"
proof -
  have "findPendingByToken P (ax_store sv) token now = Inl ''Invitation is invalid or no longer available.''"
    using assms by (auto simp: findPendingByToken_def spent_def split: option.split dest!: find_Some_iff_first)
  then show ?thesis by (simp add: activateLocal_def)
qed

text \<open>Safety: an invitation makes one account.  In a store whose invitations have different tokens, as 32 random bytes are, once a token has
  activated an account, and whatever requests follow in which no new token is the same, it activates no other, even when the session of
  the first activation could not be written.\<close>

theorem invitation_accepted_once:
  assumes "in_step E P sv" "io_rollback d = None" "distinct (map in_tokenHash (au_invitations (ax_store sv)))"
    and "performMutation E P d None type detail now (accept_local P token input h name now) sv = (Inr i, sv1)"
    and "(auth_step E P {hashOpaqueToken P token})\<^sup>*\<^sup>* (now, sv1) (t', sv')"
  shows "activateLocal E P d' failure now' token input' ua ip st sv' = (Inl ''Invitation is invalid or no longer available.'', sv')"
proof -
  let ?h = "hashOpaqueToken P token"
  from assms(1,2) have "in_step E P sv1 \<and> spent {?h} (au_invitations (ax_store sv1))"
  proof (rule mutation_cases [where actorId = None and type = type and detail = detail and now = now and mut = "accept_local P token input h name now"])
    fix res draft
    assume m: "accept_local P token input h name now (ax_store sv) = Inr (res, draft)"
      "performMutation E P d None type detail now (accept_local P token input h name now) sv = (Inr res,
         \<lparr>ax_store = appendEvent None type detail now draft,
           ax_authorization = ax_authorization (snd (performMutation E P d None type detail now (accept_local P token input h name now) sv))\<rparr>)"
      "in_step E P (snd (performMutation E P d None type detail now (accept_local P token input h name now) sv))"
    have "ax_store sv1 = appendEvent None type detail now draft"
      using m(2) assms(4) by (metis access_service.select_convs(1) prod.inject)
    then have "au_invitations (ax_store sv1) = au_invitations draft" by (simp only: appendEvent_frame)
    moreover have "spent {?h} (au_invitations draft)"
      using m(1) by (rule accept_local_Inr) (auto elim!: accept_invitation_Inr dest: pending_first [OF _ assms(3)])
    ultimately show ?thesis using m(3) assms(4) by simp
  qed (use assms(4) in simp)
  with run_spent [OF assms(5)] have "spent {?h} (au_invitations (ax_store sv'))" by blast
  then show ?thesis by (rule spent_refused)
qed

section \<open>An invitation that has expired\<close>

text \<open>Error: an invitation that has expired blocks its address until it is resent or revoked.  The guard against a second pending
  invitation passes over one that has expired, but nothing stores that it has, and the check of the store counts it as pending: every
  new invitation of the address is refused.\<close>

theorem expired_invitation_blocks:
  assumes "in_step E P sv" "io_rollback d = None"
    and "x \<in> set (au_invitations (ax_store sv))" "in_status x = ''pending''" "normalizeEmail P (prop_of input ''email'') = Inr (in_email x)"
  shows "\<exists>e. createInvitation E P d now actor input token sv = (Inl e, sv)"
proof -
  have refused: "\<exists>e. performMutation E P d (Some actor) type detail now (create_invitation P az actor (in_email x) ty v token now) sv = (Inl e, sv)"
    for type detail az ty v
    using assms(1,2)
  proof (rule mutation_cases [where actorId = "Some actor" and type = type and detail = detail and now = now
      and mut = "create_invitation P az actor (in_email x) ty v token now"])
    let ?m = "performMutation E P d (Some actor) type detail now (create_invitation P az actor (in_email x) ty v token now) sv"
    fix res draft
    assume m: "create_invitation P az actor (in_email x) ty v token now (ax_store sv) = Inr (res, draft)"
      "?m = (Inr res, \<lparr>ax_store = appendEvent (Some actor) type detail now draft, ax_authorization = ax_authorization (snd ?m)\<rparr>)"
      "in_step E P (snd ?m)"
    have "ax_store (snd ?m) = appendEvent (Some actor) type detail now draft"
      using m(2) by (metis access_service.select_convs(1) snd_conv)
    then have "au_invitations (ax_store (snd ?m)) = au_invitations draft" by (simp only: appendEvent_frame)
    moreover have "distinct (pending_emails (au_invitations (ax_store (snd ?m))))"
      using store_okD(38) [OF in_step_store_ok [OF m(3)]] .
    moreover have "\<not> distinct (pending_emails (au_invitations draft))"
      using m(1) assms(3,4) by (auto elim!: create_invitation_Inr simp: pending_emails_def is_pending_def)
    ultimately show ?thesis by simp
  qed blast
  show ?thesis
    unfolding createInvitation_def assms(5) sum.case
    using refused by (auto split: option.split jsv.split)
qed

end
