(* ===== verification/Spec2Isabelle.thy ===== *)
theory Spec2Isabelle
  imports Assignment_Effects Engine_Patches Canvas_Geometry Plan_Normalization Connection_Endpoints Undo_History Save_Queue
    Switch_Ports Engine_Client Stored_Project Invitation_Lifecycle
begin

text \<open>
  A model of the homelab inventory: the application that keeps an inventory of servers, network gear and
  components, builds computers from them on a canvas, checks whether the parts fit, and saves the
  project through a server.  The definitions are translated from the TypeScript of \<open>src/src\<close>, the JavaScript
  shared with the server in \<open>src/shared\<close>, the validation of the server in \<open>src/server/db\<close> and its access
  control in \<open>src/server/auth\<close>; each theory names the files it translates.

  \<^bold>\<open>The parts and how they work together.\<close>  A project (\<open>ProjectState\<close>) holds items, their placements on the
  canvas, the assignments of components to hosts and the connections between ports.  The interface changes it through
  \<open>lib/project.ts\<close> and \<open>lib/constraints.ts\<close>; an assignment is accepted only when the compatibility engine
  (\<open>shared/compatibility\<close>) evaluates it without a new error, and the engine's planner gives every assigned component
  its positions in the host.  A change is recorded in the undo history and handed to the save queue; the WebAssembly
  engine answers with patches, which are applied to the project in memory.  The server checks every document before it stores it, and decides with the
  roles of an account which operations the account may run.

  \<^bold>\<open>The theories.\<close>

  \<^item> \<open>JS_Prelude\<close>: the JavaScript that the sources use (strings, numbers, maps, unknown values) and the shared
    lemmas.  \<open>Compatibility_Types\<close>, \<open>Inventory_Types\<close>: the types of \<open>src/types\<close>.  \<open>Item_Keys\<close>: keys and ids.
    \<open>Sample_Project\<close>: the project on which theorems with hypotheses are instantiated.
  \<^item> \<open>Project_State\<close>: the operations of \<open>lib/project.ts\<close>: a successful return of equipment removes exactly what refers to
    it, edits keep the connected ports, an endpoint resolves to the port it names, endpoint keys are injective.
  \<^item> \<open>Pc_Resources\<close>, \<open>Pc_Build\<close>: the positions that a motherboard offers and the limits of a PC build: allocation
    satisfies the validator of stored allocations, never overlaps, and fails only when nothing is free.
  \<^item> \<open>Constraints\<close>, \<open>Assignment_Invariants\<close>: the transitions of \<open>lib/constraints.ts\<close>.  The compatibility package
    enters as a record of functions; the locale \<open>planning_engine\<close> states what the transitions rely on.
    \<open>Assignment_Effects\<close> interprets it on the modelled engine: the effect of every transition, the invariant of the
    projects that the application reaches, and that an accepted assignment to a server or a NAS introduces no error.
  \<^item> \<open>Compat_Text\<close>, \<open>Compat_Requirements\<close>, \<open>Compat_Evaluate\<close>: normalization and rules of the compatibility engine:
    evaluation throws in exactly one case, the findings of assignments and projects are well formed, compatible memory fits.
    \<open>Host_Planner\<close>, \<open>Planner_Invariants\<close>, \<open>Planner_Stability\<close>, \<open>Plan_Normalization\<close>: the planner: it covers the host,
    overbooks nothing, stays within capacity, and normalizing a project twice is normalizing it once.
  \<^item> \<open>Compat_Policy\<close>: the switches of the compatibility policy decide what the engine reads and nothing else.
  \<^item> \<open>Engine_Patches\<close>: patches of the engine, the changes sent to it and their optimistic application.
  \<^item> \<open>Canvas_Geometry\<close>: sizes of the cards.  \<open>Network_Ports\<close>, \<open>Connection_Endpoints\<close>, \<open>Switch_Ports\<close>: negotiation
    of network paths, the endpoints that can be connected, and the port groups of a switch.
  \<^item> \<open>Undo_History\<close>: the stacks are a line of states with a cursor; undo and redo through the server are all or
    nothing for the history and take each other back.
  \<^item> \<open>Save_Queue\<close>: autosave, drain and coordinator as a step relation in which answers, timers and calls interleave:
    every call is settled, commands exclude saves (but not the saves of the navigation), and a reset discards the saves that
    were asked for before it, but not a command that is running, which stores its project after the reset.
  \<^item> \<open>Committed_Patches\<close>, \<open>Engine_Client\<close>: \<open>engine/client.ts\<close>: the operation that repeats another client's
    patch, and the life cycle of the client (worker, requests, commands, recovery) as a step relation: every call is
    settled, one command runs at a time, disposal is final when no command is under way, and two races in which it is not
    or in which a late answer takes the client back.  \<open>Settling\<close> holds the locale of systems of asynchronous calls that
    come to rest, which \<open>Save_Queue\<close> and \<open>Engine_Client\<close> interpret.
  \<^item> \<open>Json_Checks\<close>, \<open>Power_Ports\<close>, \<open>Stored_Inventory\<close>, \<open>Stored_Project\<close>: the documents as the server stores them.
    Elementary assertions over JSON values, the canonical power ports, and the validation of items, projects and agents
    (\<open>server/db/validation.mjs\<close>, \<open>shared/power-ports.mjs\<close>): an accepted project resolves its references, those of its compatibility
    policy included, assigns no component twice and shares no position; what gives an item its power ports produces what the validation demands.
  \<^item> \<open>Permission_Catalog\<close>, \<open>Auth_Store\<close>, \<open>Authorization\<close>: the permissions and built-in roles (\<open>permission-catalog.mjs\<close>,
    \<open>authorization-model.mjs\<close>), the records of accounts, roles and sessions with the check of their shape (\<open>model.mjs\<close>), and the rules that
    \<open>authorization-service.mjs\<close> compiles from them: an account is allowed exactly what its active roles grant.
    \<open>Access_Service\<close>: the administration of users and roles (\<open>access-service.mjs\<close>) with its rollback.  \<open>Access_Safety\<close>,
    \<open>Access_Validity\<close>, \<open>Access_Administration\<close>: an operation leaves store and rules in step and is all or nothing, none reaches the
    owner, none but the reactivation of a role or a user hands out a permission that its actor lacks, and an operation whose guards hold fails
    only for the references that the check of the store reports.  \<open>Sample_Auth\<close> is the store of the witnesses.
  \<^item> \<open>Auth_Sessions\<close>, \<open>Invitations\<close>: the sessions (\<open>session-service.mjs\<close>), the invitations and the accounts they activate
    (\<open>invitation-service.mjs\<close>, \<open>passwords.mjs\<close>).  \<open>Session_Safety\<close> interleaves them with the administration as one step relation
    and holds the locale of properties of single sessions that every step keeps, interpreted on the sessions of ended tokens and
    on the times of sessions.  \<open>Session_Lifecycle\<close>, \<open>Invitation_Lifecycle\<close>: what ends a session ends it for good, who is
    authenticated has a session that is current and an active account, an invitation makes one account, and one that has expired
    blocks its address.

  \<^bold>\<open>How the code is modelled.\<close>  Objects are records and unions of string literals datatypes; \<open>undefined\<close> is
  \<open>None\<close>, a thrown error or an \<open>ok: false\<close> result is \<open>Inl\<close>; \<open>Map\<close>s and dictionaries are association lists in insertion
  order; values of unknown type are \<open>jsv\<close>.  Characters are Latin-1, numbers that are measures are exact rationals and
  ids integers.  Time stamps are ISO strings, so comparing them as strings is comparing times; where labels are
  compared with \<open>localeCompare\<close>, the order is the one of their characters or an argument (\<open>collate\<close>).  Two values have the same
  \<open>JSON.stringify\<close> when they are equal.  The compatibility data of hosts is typed, so the loops of
  \<open>normalizeHostCapabilities\<close> that parse numbers are the identity there.  In \<open>Undo_History\<close> the requests
  are functions of the environment and are answered one after the other; \<open>Save_Queue\<close> models the interleaving.
  In \<open>Engine_Client\<close> request ids are numbered as in the code, from 1 to \<open>0xffffffff\<close> and around; its invariant needs
  pending ids to be fresh and so holds of runs with fewer steps than there are ids.
  The policy engine (casbin) is an argument of the access control, of which the hypothesis \<open>casbin_engine\<close> says that it decides by the
  matcher that the code gives it; \<open>authorizationModel\<close>, that matcher written out, satisfies it.  Unicode normalization, hashing, URL parsing
  and password hashing are the record \<open>platform\<close>, failures of the disk the record \<open>io\<close>; the records of the store
  are typed and its dates instants, so tests of \<open>typeof\<close> and of dates have no counterpart; an operation is one step.
  \<open>updateAuthentication\<close> checks the draft and stores it: that SQLite gives back what was stored, in the order it was stored, is
  assumed.  New tokens are arguments, and runs are those in which none of them repeats a token in question.
  Loops are structural recursions or \<open>function\<close>s with a measure; the loop that grows a switch group is a
  partial function that is proved to return.  No fuel is used.

  \<^bold>\<open>Not modelled.\<close>  React components and forms, the drawing of cables, HTTP clients, and the routes, cookies, logins, queries and
  migrations of the server are input and output around the modelled operations; the routing and topology engine is written in
  Rust and seen through its patches; catalog, sharing and release tooling are wire formats and scripts; the audit panel,
  the labels of patch panels and the sorting of lists present results of the modelled parts.
\<close>

section \<open>Properties that span components\<close>

text \<open>Assigning a component never shrinks a card of the canvas.\<close>

theorem assign_grows_cards:
  assumes "distinct (map as_id (pr_assignments p))"
    and "tryAssignComponent compat_engine now p s i pos = Inr t"
  shows "getCanvasItemHeight p k \<le> getCanvasItemHeight (pt_project t) k"
proof -
  obtain a where a: "map core (pr_assignments (pt_project t)) = map core (pr_assignments p) @ [core a]"
    "pr_items (pt_project t) = pr_items p"
    using compat.assign_replans [OF assms] by blast
  have "getCanvasItemHeight p k \<le> getCanvasItemHeight (add_assignment a p) k" by (rule canvas_height_grows)
  also have "\<dots> = getCanvasItemHeight (pt_project t) k"
    using a by (intro canvas_height_cores) (simp_all add: add_assignment_def)
  finally show ?thesis .
qed

theorem assign_grows_cards_witness:
  "\<exists>t. tryAssignComponent compat_engine ''t1'' sample_project ''server:1'' ''ram:1'' None = Inr t
     \<and> getCanvasItemHeight sample_project ''server:1'' \<le> getCanvasItemHeight (pt_project t) ''server:1''"
proof -
  obtain t where t: "tryAssignComponent compat_engine ''t1'' sample_project ''server:1'' ''ram:1'' None = Inr t"
    by (rule sample_assign)
  have "distinct (map as_id (pr_assignments sample_project))" by code_simp
  from assign_grows_cards [OF this t] t show ?thesis by blast
qed

end
